(* ===== verification/Prelude.thy ===== *)
theory Prelude
  imports Main "HOL-Library.Word" "HOL-Library.Multiset"
begin

text \<open>
  Shared vocabulary of the development: identifiers, time, 16-bit integers, the
  results of database calls, transactions, and the generic lemmas on association
  lists and tables that the component theories use.
\<close>

section \<open>Automation\<close>

named_theorems db_defs \<open>definitions of the SQL statements\<close>
named_theorems svc_defs \<open>definitions of repository and service operations\<close>

section \<open>Identifiers and time\<close>

text \<open>
  A \<^verbatim>\<open>uuid.UUID\<close> is an array of 16 bytes, read here as its big-endian 128-bit
  number. That order is the byte order Postgres uses for \<open>LEAST\<close>, \<open>GREATEST\<close> and
  \<open>ORDER BY\<close>, and the order of the fixed-length hexadecimal text form.
\<close>

type_synonym uuid = "128 word"

abbreviation Nil_uuid :: uuid where
  "Nil_uuid \<equiv> 0"

text \<open>
  \<^verbatim>\<open>time.Time\<close> is the number of nanoseconds since the Unix epoch and
  \<^verbatim>\<open>time.Duration\<close> a number of nanoseconds. Both are unbounded here; the values the
  code computes (differences of clock readings within a few years) are far from the
  64-bit limits.
\<close>

type_synonym time = int
type_synonym duration = int

definition millisecond :: duration where "millisecond = 1000000"
definition second :: duration where "second = 1000000000"
definition minute :: duration where "minute = 60000000000"
definition hour :: duration where "hour = 3600000000000"

lemma duration_pos [simp]:
  "0 < millisecond" "0 < second" "0 < minute" "0 < hour"
  by (simp_all add: millisecond_def second_def minute_def hour_def)

lemma duration_nonneg [simp]:
  "0 \<le> millisecond" "0 \<le> second" "0 \<le> minute" "0 \<le> hour"
  by (simp_all add: millisecond_def second_def minute_def hour_def)

lemmas duration_defs = millisecond_def second_def minute_def hour_def

section \<open>int16\<close>

text \<open>Go's \<^verbatim>\<open>int16\<close> arithmetic wraps; \<open>wrap16\<close> is that reduction of a result.\<close>

definition wrap16 :: "int \<Rightarrow> int" where
  "wrap16 x = (x + 32768) mod 65536 - 32768"

definition is_int16 :: "int \<Rightarrow> bool" where
  "is_int16 x \<longleftrightarrow> -32768 \<le> x \<and> x \<le> 32767"

lemma wrap16_id [simp]: "is_int16 x \<Longrightarrow> wrap16 x = x"
  by (simp add: wrap16_def is_int16_def)

lemma wrap16_range [simp]: "is_int16 (wrap16 x)"
proof -
  have "0 \<le> (x + 32768) mod 65536" "(x + 32768) mod 65536 < 65536" by simp_all
  then show ?thesis by (simp add: wrap16_def is_int16_def)
qed

lemma wrap16_wraps: "wrap16 (32767 + 1) = -32768"
  by (simp add: wrap16_def)

section \<open>Database results\<close>

text \<open>
  What a query can return instead of its result: no row (\<^verbatim>\<open>pgx.ErrNoRows\<close>), a
  violated constraint with its SQLSTATE (23505 with the constraint's name, 23503,
  23514), a data error (class 22), or anything else (connection lost, context done).
\<close>

datatype dberr =
    NoRows
  | UniqueViolation string
  | ForeignKeyViolation
  | CheckViolation
  | DataException
  | OtherDb

text \<open>
  The environment decides which calls fail for reasons outside the program.
  \<open>faulty\<close> runs a call unless the environment makes it fail; a failing statement
  has no effect.
\<close>

definition faulty :: "bool \<Rightarrow> dberr + 'a \<Rightarrow> dberr + 'a" where
  "faulty b r = (if b then Inl OtherDb else r)"

lemma faulty_False [simp]: "faulty False r = r"
  by (simp add: faulty_def)

lemma faulty_True [simp]: "faulty True r = Inl OtherDb"
  by (simp add: faulty_def)

lemma faulty_InrE [elim!]:
  assumes "faulty b r = Inr a"
  obtains "\<not> b" "r = Inr a"
  using assms by (auto simp: faulty_def split: if_splits)

lemma faulty_Inr_iff [simp]: "faulty b r = Inr a \<longleftrightarrow> \<not> b \<and> r = Inr a"
  by (auto simp: faulty_def)

text \<open>A package's error: one of its sentinel values, or a database error passed on.\<close>

datatype 'e fail = Sentinel 'e | DbFail dberr

text \<open>
  \<^verbatim>\<open>if err != nil { return err }\<close> after a call, and a database call whose error is passed
  on unchanged.
\<close>

definition andThen :: "'e + 'a \<Rightarrow> ('a \<Rightarrow> 'e + 'b) \<Rightarrow> 'e + 'b" where
  "andThen r f = (case r of Inl e \<Rightarrow> Inl e | Inr a \<Rightarrow> f a)"

definition dbcall :: "bool \<Rightarrow> dberr + 'a \<Rightarrow> 'e fail + 'a" where
  "dbcall b r = (case faulty b r of Inl x \<Rightarrow> Inl (DbFail x) | Inr a \<Rightarrow> Inr a)"

lemma andThen_simps [simp]: "andThen (Inl e) f = Inl e" "andThen (Inr a) f = f a"
  by (simp_all add: andThen_def)

lemma andThen_Inr_iff [simp]: "andThen r f = Inr b \<longleftrightarrow> (\<exists>a. r = Inr a \<and> f a = Inr b)"
  by (cases r) simp_all

lemma andThen_Inl_iff: "andThen r f = Inl e \<longleftrightarrow> r = Inl e \<or> (\<exists>a. r = Inr a \<and> f a = Inl e)"
  by (cases r) simp_all

lemma dbcall_Inr_iff [simp]: "dbcall b r = Inr a \<longleftrightarrow> \<not> b \<and> r = Inr a"
  by (cases r) (auto simp: dbcall_def faulty_def)

lemma dbcall_Inl: "dbcall b r = Inl e \<Longrightarrow> \<exists>x. e = DbFail x"
  by (cases r) (auto simp: dbcall_def faulty_def split: if_splits)

lemma dbcall_simps [simp]:
  "dbcall False (Inr a) = Inr a" "dbcall False (Inl x) = Inl (DbFail x)" "dbcall True r = Inl (DbFail OtherDb)"
  by (simp_all add: dbcall_def)

text \<open>
  \<^verbatim>\<open>pgx.BeginFunc\<close>: the body's changes are committed when it returns nil and rolled
  back when it returns an error.
\<close>

definition in_tx :: "('d \<Rightarrow> ('e + 'a) \<times> 'd) \<Rightarrow> 'd \<Rightarrow> ('e + 'a) \<times> 'd" where
  "in_tx body d = (case body d of (Inl e, _) \<Rightarrow> (Inl e, d) | (Inr a, d') \<Rightarrow> (Inr a, d'))"

lemma in_tx_Inl: "in_tx body d = (Inl e, d') \<Longrightarrow> d' = d"
  by (auto simp: in_tx_def split: prod.splits sum.splits)

lemma in_tx_InrE:
  assumes "in_tx body d = (Inr a, d')"
  obtains "body d = (Inr a, d')"
  using assms by (auto simp: in_tx_def split: prod.splits sum.splits)

section \<open>Tables\<close>

text \<open>
  A table is a list of rows. \<open>key_ok\<close>: no two rows have the same key (a primary key
  or a unique index over that expression).
\<close>

definition key_ok :: "('r \<Rightarrow> 'k) \<Rightarrow> 'r list \<Rightarrow> bool" where
  "key_ok key rows \<longleftrightarrow> distinct (map key rows)"

definition exists_row :: "('r \<Rightarrow> bool) \<Rightarrow> 'r list \<Rightarrow> bool" where
  "exists_row p rows \<longleftrightarrow> (\<exists>r \<in> set rows. p r)"

text \<open>\<open>UPDATE \<dots> SET f WHERE p\<close> and \<open>DELETE \<dots> WHERE p\<close>.\<close>

definition update_rows :: "('r \<Rightarrow> bool) \<Rightarrow> ('r \<Rightarrow> 'r) \<Rightarrow> 'r list \<Rightarrow> 'r list" where
  "update_rows p f rows = map (\<lambda>r. if p r then f r else r) rows"

definition delete_rows :: "('r \<Rightarrow> bool) \<Rightarrow> 'r list \<Rightarrow> 'r list" where
  "delete_rows p rows = filter (\<lambda>r. \<not> p r) rows"

lemma exists_row_Nil [simp]: "\<not> exists_row p []"
  by (simp add: exists_row_def)

lemma exists_row_Cons [simp]: "exists_row p (r # rows) \<longleftrightarrow> p r \<or> exists_row p rows"
  by (auto simp: exists_row_def)

lemma exists_row_append [simp]: "exists_row p (xs @ ys) \<longleftrightarrow> exists_row p xs \<or> exists_row p ys"
  by (auto simp: exists_row_def)

lemma set_update_rows: "set (update_rows p f rows) = (\<lambda>r. if p r then f r else r) ` set rows"
  by (simp add: update_rows_def)

lemma set_delete_rows [simp]: "set (delete_rows p rows) = {r \<in> set rows. \<not> p r}"
  by (auto simp: delete_rows_def)

lemma update_rows_Nil [simp]: "update_rows p f [] = []"
  by (simp add: update_rows_def)

lemma update_rows_Cons [simp]:
  "update_rows p f (r # rows) = (if p r then f r else r) # update_rows p f rows"
  by (simp add: update_rows_def)

lemma length_update_rows [simp]: "length (update_rows p f rows) = length rows"
  by (simp add: update_rows_def)

lemma delete_rows_Nil [simp]: "delete_rows p [] = []"
  by (simp add: delete_rows_def)

lemma delete_rows_Cons [simp]:
  "delete_rows p (r # rows) = (if p r then delete_rows p rows else r # delete_rows p rows)"
  by (simp add: delete_rows_def)

lemma delete_rows_none: "(\<And>r. r \<in> set rows \<Longrightarrow> \<not> p r) \<Longrightarrow> delete_rows p rows = rows"
  by (simp add: delete_rows_def)

lemma map_update_rows: "(\<And>r. p r \<Longrightarrow> key (f r) = key r) \<Longrightarrow>
    map key (update_rows p f rows) = map key rows"
  by (induction rows) auto

lemma key_ok_Nil [simp]: "key_ok key []"
  by (simp add: key_ok_def)

lemma key_ok_update:
  "(\<And>r. p r \<Longrightarrow> key (f r) = key r) \<Longrightarrow> key_ok key (update_rows p f rows) = key_ok key rows"
  by (simp add: key_ok_def map_update_rows)

lemma key_ok_delete: "key_ok key rows \<Longrightarrow> key_ok key (delete_rows p rows)"
  by (simp add: key_ok_def delete_rows_def distinct_map_filter)

lemma key_ok_snoc:
  "key_ok key (rows @ [r]) \<longleftrightarrow> key_ok key rows \<and> \<not> exists_row (\<lambda>x. key x = key r) rows"
  by (auto simp: key_ok_def exists_row_def image_iff)

lemma key_ok_unique:
  assumes "key_ok key rows" "r \<in> set rows" "s \<in> set rows" "key r = key s"
  shows "r = s"
  using assms by (auto simp: key_ok_def distinct_map inj_on_def)

text \<open>\<open>find_row\<close> is a lookup by a key that at most one row has.\<close>

definition find_row :: "('r \<Rightarrow> bool) \<Rightarrow> 'r list \<Rightarrow> 'r option" where
  "find_row p rows = List.find p rows"

lemma find_row_Some: "find_row p rows = Some r \<Longrightarrow> r \<in> set rows \<and> p r"
  by (auto simp: find_row_def find_Some_iff)

lemma find_row_None: "find_row p rows = None \<longleftrightarrow> \<not> exists_row p rows"
  by (auto simp: find_row_def find_None_iff exists_row_def)

lemma find_row_eqI:
  assumes "key_ok key rows" "r \<in> set rows" "\<And>x. p x \<longleftrightarrow> key x = key r"
  shows "find_row p rows = Some r"
proof (cases "find_row p rows")
  case None
  with assms(2,3) show ?thesis by (auto simp: find_row_None exists_row_def)
next
  case (Some s)
  from find_row_Some [OF this] assms(3) have "s \<in> set rows" "key s = key r" by auto
  with assms(1,2) Some show ?thesis by (auto dest: key_ok_unique)
qed

lemma find_row_simps [simp]:
  "find_row p [] = None"
  "find_row p (r # rows) = (if p r then Some r else find_row p rows)"
  by (simp_all add: find_row_def)

text \<open>\<open>slices.DeleteFunc\<close> with an equality test, and \<open>slices.Contains\<close>.\<close>

abbreviation without :: "'a \<Rightarrow> 'a list \<Rightarrow> 'a list" where
  "without x xs \<equiv> filter (\<lambda>y. y \<noteq> x) xs"

section \<open>Maps\<close>

lemma dom_restrict_upd: "dom (m(k := None)) = dom m - {k}"
  by auto

lemma finite_dom_upd: "finite (dom m) \<Longrightarrow> finite (dom (m(k := v)))"
  by (cases v) auto

end
