(* ===== verification/Database.thy ===== *)
theory Database
  imports Prelude
begin

text \<open>
  The Postgres tables the modelled services use, one record per row type of
  \<^verbatim>\<open>internal/database/models.go\<close> (a nullable column is an option, \<^verbatim>\<open>pgtype.Text\<close>,
  \<^verbatim>\<open>pgtype.UUID\<close> and \<^verbatim>\<open>pgtype.Timestamp\<close> likewise), and the integrity the schema
  (\<^verbatim>\<open>sql/schema\<close>) declares for them. Strings are byte strings, as in Go. The SQL
  statements over these tables are in the theories of the packages that own them.
\<close>

section \<open>Rows\<close>

type_synonym bytes = "8 word list"

record user =
  u_id :: uuid
  u_created_at :: time
  u_updated_at :: time
  u_email :: string
  u_password :: "string option"
  u_name :: string
  u_email_verified_at :: "time option"
  u_bio :: string
  u_name_changed_at :: "time option"
  u_avatar_at :: "time option"
  u_location_id :: "string option"
  u_location_country :: string
  u_discoverable :: bool
  u_is_admin :: bool
  u_banned_at :: "time option"
  u_banned_until :: "time option"
  u_ban_reason :: "string option"
  u_last_seen_at :: "time option"
  u_display_name :: string
  u_hide_last_seen :: bool

record user_relationship =
  ur_id :: uuid
  ur_user_id :: uuid
  ur_otherUser_id :: uuid
  ur_status :: string
  ur_created_at :: time
  ur_updated_at :: time

record user_block =
  ub_blocker_id :: uuid
  ub_blocked_id :: uuid
  ub_created_at :: time

record chat_group =
  g_id :: uuid
  g_name :: string
  g_description :: string
  g_max_member :: int
  g_created_at :: time
  g_updated_at :: time
  g_current_member :: int
  g_invite_code :: string
  g_avatar_at :: "time option"
  g_visibility :: string

record member_row =
  mt_group_id :: uuid
  mt_member_id :: uuid
  mt_joined_at :: time
  mt_role :: string
  mt_permissions :: "string list"

record group_avatar =
  ga_group_id :: uuid
  ga_image :: bytes
  ga_updated_at :: time

record message_row =
  m_id :: uuid
  m_content :: "string option"
  m_parentid :: "uuid option"
  m_from_id :: "uuid option"
  m_to_id :: "uuid option"
  m_deleted_at :: "time option"
  m_created_at :: time
  m_edited_at :: "time option"
  m_forwarded :: bool

record groupmessage_row =
  gm_id :: uuid
  gm_content :: "string option"
  gm_group_id :: "uuid option"
  gm_from_id :: "uuid option"
  gm_parent_id :: "uuid option"
  gm_created_at :: time
  gm_deleted_at :: "time option"
  gm_edited_at :: "time option"
  gm_searchable :: bool
  gm_forwarded :: bool

record reaction_row =
  re_message_id :: uuid
  re_user_id :: uuid
  re_emoji :: string
  re_created_at :: time

record group_read =
  grd_group_id :: uuid
  grd_user_id :: uuid
  grd_message_id :: uuid
  grd_updated_at :: time

record seen_message =
  sm_chat_id :: string
  sm_message_id :: uuid
  sm_seen_id :: uuid

record call_row =
  cl_id :: uuid
  cl_caller_id :: "uuid option"
  cl_callee_id :: "uuid option"
  cl_state :: string
  cl_end_reason :: "string option"
  cl_started_at :: time
  cl_answered_at :: "time option"
  cl_ended_at :: "time option"

section \<open>The database\<close>

record db =
  users :: "user list"
  user_relationships :: "user_relationship list"
  user_blocks :: "user_block list"
  chat_groups :: "chat_group list"
  member_table :: "member_row list"
  group_avatars :: "group_avatar list"
  message :: "message_row list"
  groupmessage :: "groupmessage_row list"
  message_reactions :: "reaction_row list"
  group_message_reactions :: "reaction_row list"
  group_reads :: "group_read list"
  seen_messages :: "seen_message list"
  calls_table :: "call_row list"

definition empty_db :: db where
  "empty_db = \<lparr>users = [], user_relationships = [], user_blocks = [], chat_groups = [],
     member_table = [], group_avatars = [], message = [], groupmessage = [],
     message_reactions = [], group_message_reactions = [], group_reads = [],
     seen_messages = [], calls_table = []\<rparr>"

definition new_user :: "uuid \<Rightarrow> string \<Rightarrow> user" where
  "new_user i nm = \<lparr>u_id = i, u_created_at = 0, u_updated_at = 0, u_email = nm @ ''@x'',
     u_password = None, u_name = nm, u_email_verified_at = None, u_bio = [],
     u_name_changed_at = None, u_avatar_at = None, u_location_id = None,
     u_location_country = [], u_discoverable = False, u_is_admin = False, u_banned_at = None,
     u_banned_until = None, u_ban_reason = None, u_last_seen_at = None, u_display_name = [],
     u_hide_last_seen = False\<rparr>"

text \<open>Foreign keys to \<open>users\<close> and \<open>chat_groups\<close> are checked with these.\<close>

definition user_exists :: "uuid \<Rightarrow> db \<Rightarrow> bool" where
  "user_exists i d \<longleftrightarrow> exists_row (\<lambda>u. u_id u = i) (users d)"

definition group_exists :: "uuid \<Rightarrow> db \<Rightarrow> bool" where
  "group_exists i d \<longleftrightarrow> exists_row (\<lambda>g. g_id g = i) (chat_groups d)"

definition find_user :: "uuid \<Rightarrow> db \<Rightarrow> user option" where
  "find_user i d = find_row (\<lambda>u. u_id u = i) (users d)"

lemma find_user_Some: "find_user i d = Some u \<Longrightarrow> user_exists i d \<and> u_id u = i \<and> u \<in> set (users d)"
  by (auto simp: find_user_def user_exists_def exists_row_def dest!: find_row_Some)

lemma find_user_None: "find_user i d = None \<longleftrightarrow> \<not> user_exists i d"
  by (simp add: find_user_def user_exists_def find_row_None)

lemma new_user_simps [simp]: "u_id (new_user i nm) = i" "u_name (new_user i nm) = nm"
  by (simp_all add: new_user_def)

end
