(* ===== verification/GoStrings.thy ===== *)
theory GoStrings
  imports Prelude
begin

text \<open>
  What the modelled packages use of Go's strings: a string is a sequence of bytes (the
  characters of a \<open>string\<close>, one byte each), \<^verbatim>\<open>range\<close> and \<^verbatim>\<open>unicode/utf8\<close> read it as UTF-8,
  where a byte that starts no valid encoding counts as one rune \<^verbatim>\<open>RuneError\<close>;
  \<^verbatim>\<open>strings.TrimSpace\<close> and \<^verbatim>\<open>unicode.IsSpace\<close>.
\<close>

section \<open>UTF-8\<close>

definition RuneError :: nat where "RuneError = 0xFFFD"

definition cont :: "nat \<Rightarrow> bool" where
  "cont b \<longleftrightarrow> 0x80 \<le> b \<and> b \<le> 0xBF"

text \<open>The second byte of three- and four-byte encodings excludes overlong forms,
  surrogates and code points above \<open>10FFFF\<close>.\<close>

definition second3 :: "nat \<Rightarrow> nat \<Rightarrow> bool" where
  "second3 b0 b1 \<longleftrightarrow> (if b0 = 0xE0 then 0xA0 else 0x80) \<le> b1 \<and> b1 \<le> (if b0 = 0xED then 0x9F else 0xBF)"

definition second4 :: "nat \<Rightarrow> nat \<Rightarrow> bool" where
  "second4 b0 b1 \<longleftrightarrow> (if b0 = 0xF0 then 0x90 else 0x80) \<le> b1 \<and> b1 \<le> (if b0 = 0xF4 then 0x8F else 0xBF)"

definition DecodeRune :: "nat list \<Rightarrow> nat \<times> nat" where
  "DecodeRune bs = (case bs of
     [] \<Rightarrow> (RuneError, 0)
   | b0 # t \<Rightarrow>
       if b0 < 0x80 then (b0, 1)
       else if 0xC2 \<le> b0 \<and> b0 \<le> 0xDF then
         (case t of b1 # _ \<Rightarrow>
            if cont b1 then ((b0 - 0xC0) * 64 + (b1 - 0x80), 2) else (RuneError, 1)
          | _ \<Rightarrow> (RuneError, 1))
       else if 0xE0 \<le> b0 \<and> b0 \<le> 0xEF then
         (case t of b1 # b2 # _ \<Rightarrow>
            if second3 b0 b1 \<and> cont b2
            then ((b0 - 0xE0) * 4096 + (b1 - 0x80) * 64 + (b2 - 0x80), 3) else (RuneError, 1)
          | _ \<Rightarrow> (RuneError, 1))
       else if 0xF0 \<le> b0 \<and> b0 \<le> 0xF4 then
         (case t of b1 # b2 # b3 # _ \<Rightarrow>
            if second4 b0 b1 \<and> cont b2 \<and> cont b3
            then ((b0 - 0xF0) * 262144 + (b1 - 0x80) * 4096 + (b2 - 0x80) * 64 + (b3 - 0x80), 4)
            else (RuneError, 1)
          | _ \<Rightarrow> (RuneError, 1))
       else (RuneError, 1))"

lemma DecodeRune_width: "bs \<noteq> [] \<Longrightarrow> 1 \<le> snd (DecodeRune bs) \<and> snd (DecodeRune bs) \<le> 4"
  by (auto simp: DecodeRune_def split: list.split)

lemma DecodeRune_width_le: "snd (DecodeRune bs) \<le> length bs"
  by (auto simp: DecodeRune_def split: list.split)

text \<open>\<open>chunks\<close>: the string cut at its runes, each with its value and its bytes.\<close>

function chunks :: "string \<Rightarrow> (nat \<times> string) list" where
  "chunks s = (if s = [] then []
     else let (r, w) = DecodeRune (map of_char s) in (r, take w s) # chunks (drop w s))"
  by auto

termination
proof (relation "measure length", simp, goal_cases)
  case (1 s x r w)
  then have "snd (DecodeRune (map of_char s)) = w" by (metis snd_conv)
  with 1 have "1 \<le> w" using DecodeRune_width [of "map of_char s"] by auto
  with 1 show ?case by (cases s) auto
qed

declare chunks.simps [simp del]

definition runes :: "string \<Rightarrow> nat list" where
  "runes s = map fst (chunks s)"

definition RuneCountInString :: "string \<Rightarrow> nat" where
  "RuneCountInString s = length (runes s)"

lemma chunks_Nil [simp]: "chunks [] = []"
  by (simp add: chunks.simps)

lemma runes_Nil [simp]: "runes [] = []"
  by (simp add: runes_def)

lemma chunks_concat: "concat (map snd (chunks s)) = s"
proof (induction s rule: chunks.induct)
  case (1 s)
  obtain r w where w: "DecodeRune (map of_char s) = (r, w)" by fastforce
  show ?case
  proof (cases "s = []")
    case False
    with 1 w have "concat (map snd (chunks (drop w s))) = drop w s" by auto
    with w False show ?thesis by (subst chunks.simps) simp
  qed simp
qed

lemma RuneCount_le: "RuneCountInString s \<le> length s"
proof (induction s rule: chunks.induct)
  case (1 s)
  obtain r w where w: "DecodeRune (map of_char s) = (r, w)" by fastforce
  show ?case
  proof (cases "s = []")
    case False
    with w DecodeRune_width [of "map of_char s"] have "1 \<le> w" by auto
    with False 1 w have "RuneCountInString (drop w s) \<le> length s - w" by (auto simp: le_diff_conv)
    moreover have "RuneCountInString s = Suc (RuneCountInString (drop w s))"
      using False w by (simp add: RuneCountInString_def runes_def chunks.simps [of s])
    moreover have "1 \<le> length s" using False by (cases s) auto
    ultimately show ?thesis using \<open>1 \<le> w\<close> DecodeRune_width_le [of "map of_char s"] w by simp
  qed (simp add: RuneCountInString_def)
qed

text \<open>ASCII strings: each byte is a rune.\<close>

definition is_ascii :: "string \<Rightarrow> bool" where
  "is_ascii s \<longleftrightarrow> (\<forall>c \<in> set s. of_char c < (0x80::nat))"

lemma chunks_ascii_Cons: "of_char c < (0x80::nat) \<Longrightarrow> chunks (c # s) = (of_char c, [c]) # chunks s"
  by (simp add: chunks.simps [of "c # s"] DecodeRune_def)

lemma runes_ascii: "is_ascii s \<Longrightarrow> runes s = map of_char s"
  by (induction s) (auto simp: runes_def is_ascii_def chunks_ascii_Cons)

section \<open>Spaces\<close>

definition IsSpace :: "nat \<Rightarrow> bool" where
  "IsSpace r \<longleftrightarrow> r \<in> {0x09, 0x0A, 0x0B, 0x0C, 0x0D, 0x20, 0x85, 0xA0, 0x1680, 0x2028, 0x2029, 0x202F,
     0x205F, 0x3000} \<or> 0x2000 \<le> r \<and> r \<le> 0x200A"

definition TrimSpace :: "string \<Rightarrow> string" where
  "TrimSpace s = concat (map snd
     (rev (dropWhile (\<lambda>c. IsSpace (fst c)) (rev (dropWhile (\<lambda>c. IsSpace (fst c)) (chunks s))))))"

lemma TrimSpace_example: "TrimSpace ''  devs '' = ''devs''"
  by (simp add: TrimSpace_def chunks_ascii_Cons IsSpace_def)

lemma TrimSpace_Nil [simp]: "TrimSpace [] = []"
  by (simp add: TrimSpace_def)

end
