(* ===== verification/Groups_DB.thy ===== *)
theory Groups_DB
  imports Database GoStrings "HOL-Library.List_Lexorder" "HOL-Library.Char_ord"
begin

text \<open>
  The statements of \<^verbatim>\<open>internal/database/groups.sql.go\<close> (and \<^verbatim>\<open>DeleteGroup\<close> of
  \<^verbatim>\<open>accounts.sql.go\<close>) over \<open>chat_groups\<close>, \<open>member_table\<close> and \<open>group_avatars\<close>, and the invariant
  of these tables. \<open>now\<close> is the database's \<open>NOW()\<close>.
\<close>

section \<open>Roles and permissions\<close>

definition RoleAdmin :: string where "RoleAdmin = ''admin''"
definition RoleModerator :: string where "RoleModerator = ''moderator''"
definition RoleMember :: string where "RoleMember = ''member''"

definition PermAddMembers :: string where "PermAddMembers = ''add_members''"
definition PermRemoveMembers :: string where "PermRemoveMembers = ''remove_members''"
definition PermDeleteMessages :: string where "PermDeleteMessages = ''delete_messages''"
definition PermEditInfo :: string where "PermEditInfo = ''edit_info''"
definition PermManageInvite :: string where "PermManageInvite = ''manage_invite''"

definition AllPermissions :: "string list" where
  "AllPermissions = [PermAddMembers, PermRemoveMembers, PermDeleteMessages, PermEditInfo, PermManageInvite]"

definition Private :: string where "Private = ''private''"
definition Public :: string where "Public = ''public''"

lemmas role_defs = RoleAdmin_def RoleModerator_def RoleMember_def
lemmas perm_defs = PermAddMembers_def PermRemoveMembers_def PermDeleteMessages_def PermEditInfo_def
  PermManageInvite_def

lemma roles_neq [simp]:
  "RoleAdmin \<noteq> RoleModerator" "RoleModerator \<noteq> RoleAdmin" "RoleAdmin \<noteq> RoleMember"
  "RoleMember \<noteq> RoleAdmin" "RoleModerator \<noteq> RoleMember" "RoleMember \<noteq> RoleModerator"
  "RoleAdmin \<noteq> []" "RoleModerator \<noteq> []" "RoleMember \<noteq> []"
  by (simp_all add: role_defs)

lemma visibility_neq [simp]: "Private \<noteq> Public" "Public \<noteq> Private"
  by (simp_all add: Private_def Public_def)

lemma perms_nonempty [simp]:
  "PermAddMembers \<noteq> []" "PermRemoveMembers \<noteq> []" "PermDeleteMessages \<noteq> []" "PermEditInfo \<noteq> []"
  "PermManageInvite \<noteq> []"
  by (simp_all add: perm_defs)

section \<open>Statements\<close>

definition is_member_row :: "uuid \<Rightarrow> uuid \<Rightarrow> member_row \<Rightarrow> bool" where
  "is_member_row gid uid m \<longleftrightarrow> mt_group_id m = gid \<and> mt_member_id m = uid"

definition members_of :: "uuid \<Rightarrow> db \<Rightarrow> member_row list" where
  "members_of gid d = filter (\<lambda>m. mt_group_id m = gid) (member_table d)"

definition find_group :: "uuid \<Rightarrow> db \<Rightarrow> chat_group option" where
  "find_group gid d = find_row (\<lambda>g. g_id g = gid) (chat_groups d)"

definition update_group :: "uuid \<Rightarrow> (chat_group \<Rightarrow> chat_group) \<Rightarrow> db \<Rightarrow> db" where
  "update_group gid f d = d\<lparr>chat_groups := update_rows (\<lambda>g. g_id g = gid) f (chat_groups d)\<rparr>"

definition insert_member :: "uuid \<Rightarrow> uuid \<Rightarrow> time \<Rightarrow> string \<Rightarrow> db \<Rightarrow> dberr + db" where
  "insert_member gid uid at role d =
     (if exists_row (is_member_row gid uid) (member_table d)
        then Inl (UniqueViolation ''member_table_pkey'')
      else if \<not> group_exists gid d \<or> \<not> user_exists uid d then Inl ForeignKeyViolation
      else Inr (d\<lparr>member_table := member_table d @
        [\<lparr>mt_group_id = gid, mt_member_id = uid, mt_joined_at = at, mt_role = role,
          mt_permissions = []\<rparr>]\<rparr>))"

definition AddMember :: "uuid \<Rightarrow> uuid \<Rightarrow> time \<Rightarrow> db \<Rightarrow> dberr + db" where
  "AddMember gid uid at d = insert_member gid uid at RoleMember d"

definition CreateGroupLeaderRole :: "uuid \<Rightarrow> uuid \<Rightarrow> time \<Rightarrow> db \<Rightarrow> dberr + db" where
  "CreateGroupLeaderRole gid uid at d = insert_member gid uid at RoleAdmin d"

definition CreateGroup ::
  "time \<Rightarrow> uuid \<Rightarrow> string \<Rightarrow> string \<Rightarrow> int \<Rightarrow> string \<Rightarrow> string \<Rightarrow> db \<Rightarrow> dberr + db" where
  "CreateGroup now gid nm descr mx code vis d =
     (if vis \<notin> {Private, Public} then Inl CheckViolation
      else if group_exists gid d then Inl (UniqueViolation ''chat_groups_pkey'')
      else if exists_row (\<lambda>g. g_invite_code g = code) (chat_groups d)
        then Inl (UniqueViolation ''chat_groups_invite_code_key'')
      else Inr (d\<lparr>chat_groups := chat_groups d @
        [\<lparr>g_id = gid, g_name = nm, g_description = descr, g_max_member = mx, g_created_at = now,
          g_updated_at = now, g_current_member = 1, g_invite_code = code, g_avatar_at = None,
          g_visibility = vis\<rparr>]\<rparr>))"

text \<open>\<open>DELETE FROM chat_groups\<close>; members, picture, messages, reads and reactions cascade.\<close>

definition DeleteGroup :: "uuid \<Rightarrow> db \<Rightarrow> db" where
  "DeleteGroup gid d =
     (let gone = (\<lambda>i. exists_row (\<lambda>m. gm_id m = i \<and> gm_group_id m = Some gid) (groupmessage d)) in
      d\<lparr>chat_groups := delete_rows (\<lambda>g. g_id g = gid) (chat_groups d),
        member_table := delete_rows (\<lambda>m. mt_group_id m = gid) (member_table d),
        group_avatars := delete_rows (\<lambda>a. ga_group_id a = gid) (group_avatars d),
        groupmessage := delete_rows (\<lambda>m. gm_group_id m = Some gid) (groupmessage d),
        group_reads := delete_rows (\<lambda>r. grd_group_id r = gid \<or> gone (grd_message_id r)) (group_reads d),
        group_message_reactions :=
          delete_rows (\<lambda>r. gone (re_message_id r)) (group_message_reactions d)\<rparr>)"

definition DeleteMemFromGroup :: "uuid \<Rightarrow> uuid \<Rightarrow> db \<Rightarrow> db" where
  "DeleteMemFromGroup gid uid d = d\<lparr>member_table := delete_rows (is_member_row gid uid) (member_table d)\<rparr>"

definition GetGroupByInviteCode :: "string \<Rightarrow> db \<Rightarrow> dberr + chat_group" where
  "GetGroupByInviteCode code d =
     (case find_row (\<lambda>g. g_invite_code g = code) (chat_groups d) of
        None \<Rightarrow> Inl NoRows | Some g \<Rightarrow> Inr g)"

definition GetGroupInfoByID :: "uuid \<Rightarrow> db \<Rightarrow> dberr + chat_group" where
  "GetGroupInfoByID gid d = (case find_group gid d of None \<Rightarrow> Inl NoRows | Some g \<Rightarrow> Inr g)"

definition GetGroupLeader :: "uuid \<Rightarrow> db \<Rightarrow> dberr + uuid" where
  "GetGroupLeader gid d =
     (case find_row (\<lambda>m. mt_group_id m = gid \<and> mt_role m = RoleAdmin) (member_table d) of
        None \<Rightarrow> Inl NoRows | Some m \<Rightarrow> Inr (mt_member_id m))"

definition GetInviteCode :: "uuid \<Rightarrow> db \<Rightarrow> dberr + string" where
  "GetInviteCode gid d =
     (case find_group gid d of None \<Rightarrow> Inl NoRows | Some g \<Rightarrow> Inr (g_invite_code g))"

definition GetMember :: "uuid \<Rightarrow> uuid \<Rightarrow> db \<Rightarrow> dberr + (string \<times> string list)" where
  "GetMember gid uid d =
     (case find_row (is_member_row gid uid) (member_table d) of
        None \<Rightarrow> Inl NoRows | Some m \<Rightarrow> Inr (mt_role m, mt_permissions m))"

definition GetMemberListByID :: "uuid \<Rightarrow> db \<Rightarrow> uuid list" where
  "GetMemberListByID gid d = map mt_member_id (members_of gid d)"

definition GroupAvatarForMember :: "uuid \<Rightarrow> uuid \<Rightarrow> db \<Rightarrow> dberr + (bytes \<times> time)" where
  "GroupAvatarForMember gid viewer d =
     (case find_row (\<lambda>a. ga_group_id a = gid) (group_avatars d) of
        None \<Rightarrow> Inl NoRows
      | Some a \<Rightarrow>
          (case find_group gid d of
             None \<Rightarrow> Inl NoRows
           | Some g \<Rightarrow>
               if g_visibility g = Public \<or> exists_row (is_member_row gid viewer) (member_table d)
               then Inr (ga_image a, ga_updated_at a) else Inl NoRows))"

text \<open>\<open>ORDER BY (role = 'admin') DESC, (role = 'moderator') DESC, joined_at\<close>\<close>

definition role_rank :: "string \<Rightarrow> nat" where
  "role_rank r = (if r = RoleAdmin then 0 else if r = RoleModerator then 1 else 2)"

definition ListGroupMembers :: "uuid \<Rightarrow> db \<Rightarrow> (member_row \<times> user) list" where
  "ListGroupMembers gid d =
     List.map_filter (\<lambda>m. map_option (\<lambda>u. (m, u)) (find_user (mt_member_id m) d))
       (sort_key (\<lambda>m. role_rank (mt_role m)) (sort_key mt_joined_at (members_of gid d)))"

text \<open>\<open>ORDER BY lower(g.name)\<close> by the sort key \<open>coll_lower\<close> of the lower-cased name.\<close>

definition ListGroupsForUser :: "(string \<Rightarrow> string) \<Rightarrow> uuid \<Rightarrow> db \<Rightarrow> (chat_group \<times> member_row) list" where
  "ListGroupsForUser coll_lower uid d =
     sort_key (\<lambda>(g, m). coll_lower (g_name g))
       (List.map_filter (\<lambda>m. map_option (\<lambda>g. (g, m)) (find_group (mt_group_id m) d))
         (filter (\<lambda>m. mt_member_id m = uid) (member_table d)))"

definition LockGroup :: "uuid \<Rightarrow> db \<Rightarrow> dberr + (int \<times> int)" where
  "LockGroup gid d =
     (case find_group gid d of None \<Rightarrow> Inl NoRows
      | Some g \<Rightarrow> Inr (g_max_member g, g_current_member g))"

definition ModeratorsOf :: "uuid \<Rightarrow> db \<Rightarrow> (uuid \<times> string list) list" where
  "ModeratorsOf gid d =
     map (\<lambda>m. (mt_member_id m, mt_permissions m)) (filter (\<lambda>m. mt_role m = RoleModerator) (members_of gid d))"

text \<open>\<open>ORDER BY (role = 'moderator') DESC, joined_at, member_id LIMIT 1\<close>, by stable sorts.\<close>

definition NextAdmin :: "uuid \<Rightarrow> uuid \<Rightarrow> db \<Rightarrow> dberr + uuid" where
  "NextAdmin gid leaving d =
     (case sort_key (\<lambda>m. if mt_role m = RoleModerator then 0 else 1 :: nat)
         (sort_key mt_joined_at (sort_key mt_member_id
           (filter (\<lambda>m. mt_member_id m \<noteq> leaving) (members_of gid d)))) of
        [] \<Rightarrow> Inl NoRows | m # _ \<Rightarrow> Inr (mt_member_id m))"

text \<open>\<open>LIKE \<dots> ESCAPE '\'\<close>: \<open>%\<close> is any string, \<open>_\<close> one character, and the escape character
  makes the next one literal.\<close>

datatype like_token = AnyString | AnyChar | Literal char

fun like_pattern :: "string \<Rightarrow> like_token list" where
  "like_pattern [] = []"
| "like_pattern (p # ps) =
     (if p = CHR 0x5C then (case ps of [] \<Rightarrow> [] | c # cs \<Rightarrow> Literal c # like_pattern cs)
      else if p = CHR ''%'' then AnyString # like_pattern ps
      else if p = CHR ''_'' then AnyChar # like_pattern ps
      else Literal p # like_pattern ps)"

fun tails :: "'a list \<Rightarrow> 'a list list" where
  "tails [] = [[]]"
| "tails (x # xs) = (x # xs) # tails xs"

fun like_tokens :: "like_token list \<Rightarrow> string \<Rightarrow> bool" where
  "like_tokens [] s \<longleftrightarrow> s = []"
| "like_tokens (AnyString # ts) s \<longleftrightarrow> list_ex (like_tokens ts) (tails s)"
| "like_tokens (AnyChar # ts) s \<longleftrightarrow> s \<noteq> [] \<and> like_tokens ts (drop (snd (DecodeRune (map of_char s))) s)"
| "like_tokens (Literal c # ts) s \<longleftrightarrow> (case s of [] \<Rightarrow> False | x # xs \<Rightarrow> x = c \<and> like_tokens ts xs)"

definition like :: "string \<Rightarrow> string \<Rightarrow> bool" where
  "like s pat = like_tokens (like_pattern pat) s"

text \<open>\<open>lower\<close> is the database's \<open>lower()\<close>.\<close>

definition SearchPublicGroups :: "(string \<Rightarrow> string) \<Rightarrow> uuid \<Rightarrow> string \<Rightarrow> db \<Rightarrow> (chat_group \<times> bool) list" where
  "SearchPublicGroups lower viewer q d =
     map (\<lambda>g. (g, exists_row (is_member_row (g_id g) viewer) (member_table d)))
       (take 20
         (sort_key (\<lambda>g. if like (lower (g_name g)) (q @ ''%'') then 0 else 1 :: nat)
           (sort_key (\<lambda>g. - g_current_member g) (sort_key g_id
             (filter (\<lambda>g. g_visibility g = Public \<and> like (lower (g_name g)) (''%'' @ q @ ''%''))
               (chat_groups d))))))"

definition SetGroupAvatarAt :: "time \<Rightarrow> time option \<Rightarrow> uuid \<Rightarrow> db \<Rightarrow> db" where
  "SetGroupAvatarAt now at gid d = update_group gid (\<lambda>g. g\<lparr>g_avatar_at := at, g_updated_at := now\<rparr>) d"

definition SetGroupMemberCount :: "time \<Rightarrow> uuid \<Rightarrow> int \<Rightarrow> db \<Rightarrow> db" where
  "SetGroupMemberCount now gid n d =
     update_group gid (\<lambda>g. g\<lparr>g_current_member := n, g_updated_at := now\<rparr>) d"

definition SetInviteCode :: "time \<Rightarrow> uuid \<Rightarrow> string \<Rightarrow> db \<Rightarrow> dberr + db" where
  "SetInviteCode now gid code d =
     (if group_exists gid d \<and> exists_row (\<lambda>g. g_id g \<noteq> gid \<and> g_invite_code g = code) (chat_groups d)
        then Inl (UniqueViolation ''chat_groups_invite_code_key'')
      else Inr (update_group gid (\<lambda>g. g\<lparr>g_invite_code := code, g_updated_at := now\<rparr>) d))"

definition SetMemberRole :: "string \<Rightarrow> string list \<Rightarrow> uuid \<Rightarrow> uuid \<Rightarrow> db \<Rightarrow> dberr + db" where
  "SetMemberRole role perms gid uid d =
     (if exists_row (is_member_row gid uid) (member_table d) \<and>
         (role \<notin> {RoleAdmin, RoleModerator, RoleMember} \<or> \<not> set perms \<subseteq> set AllPermissions)
        then Inl CheckViolation
      else Inr (d\<lparr>member_table := update_rows (is_member_row gid uid)
        (\<lambda>m. m\<lparr>mt_role := role, mt_permissions := perms\<rparr>) (member_table d)\<rparr>))"

definition UpdateGroupInfo :: "time \<Rightarrow> string option \<Rightarrow> string option \<Rightarrow> string option \<Rightarrow> uuid \<Rightarrow> db \<Rightarrow>
    dberr + (chat_group \<times> db)" where
  "UpdateGroupInfo now nm descr vis gid d =
     (case find_group gid d of None \<Rightarrow> Inl NoRows
      | Some g \<Rightarrow>
          if vis \<notin> {None, Some Private, Some Public} then Inl CheckViolation
          else
            (let f = (\<lambda>g. g\<lparr>g_name := (case nm of None \<Rightarrow> g_name g | Some x \<Rightarrow> x),
                  g_description := (case descr of None \<Rightarrow> g_description g | Some x \<Rightarrow> x),
                  g_visibility := (case vis of None \<Rightarrow> g_visibility g | Some x \<Rightarrow> x),
                  g_updated_at := now\<rparr>)
             in Inr (f g, update_group gid f d)))"

definition UpsertGroupAvatar :: "uuid \<Rightarrow> bytes \<Rightarrow> time \<Rightarrow> db \<Rightarrow> dberr + db" where
  "UpsertGroupAvatar gid img at d =
     (if length img > 262144 then Inl CheckViolation
      else if exists_row (\<lambda>a. ga_group_id a = gid) (group_avatars d)
        then Inr (d\<lparr>group_avatars := update_rows (\<lambda>a. ga_group_id a = gid)
          (\<lambda>a. a\<lparr>ga_image := img, ga_updated_at := at\<rparr>) (group_avatars d)\<rparr>)
      else if \<not> group_exists gid d then Inl ForeignKeyViolation
      else Inr (d\<lparr>group_avatars := group_avatars d @
        [\<lparr>ga_group_id = gid, ga_image = img, ga_updated_at = at\<rparr>]\<rparr>))"

definition DeleteGroupAvatar :: "uuid \<Rightarrow> db \<Rightarrow> db" where
  "DeleteGroupAvatar gid d = d\<lparr>group_avatars := delete_rows (\<lambda>a. ga_group_id a = gid) (group_avatars d)\<rparr>"

section \<open>The invariant\<close>

text \<open>
  \<open>members_ok\<close>: the rows the constraints allow, and permissions only for moderators.
  \<open>group_ok\<close>: one group against its members: exactly one admin, the stored count is the
  number of members, within capacity; its picture's time is the stored one.
\<close>

definition admins_of :: "uuid \<Rightarrow> db \<Rightarrow> member_row list" where
  "admins_of gid d = filter (\<lambda>m. mt_role m = RoleAdmin) (members_of gid d)"

definition member_ok :: "db \<Rightarrow> member_row \<Rightarrow> bool" where
  "member_ok d m \<longleftrightarrow> group_exists (mt_group_id m) d \<and> user_exists (mt_member_id m) d \<and>
     mt_role m \<in> {RoleAdmin, RoleModerator, RoleMember} \<and> set (mt_permissions m) \<subseteq> set AllPermissions \<and>
     (mt_role m \<noteq> RoleModerator \<longrightarrow> mt_permissions m = [])"

definition group_ok :: "db \<Rightarrow> chat_group \<Rightarrow> bool" where
  "group_ok d g \<longleftrightarrow>
     length (admins_of (g_id g) d) = 1 \<and>
     g_current_member g = int (length (members_of (g_id g) d)) \<and>
     g_current_member g \<le> g_max_member g \<and> 2 \<le> g_max_member g \<and> g_max_member g \<le> 1000 \<and>
     g_visibility g \<in> {Private, Public} \<and>
     g_avatar_at g = map_option ga_updated_at (find_row (\<lambda>a. ga_group_id a = g_id g) (group_avatars d))"

definition groups_inv :: "db \<Rightarrow> bool" where
  "groups_inv d \<longleftrightarrow>
     key_ok u_id (users d) \<and> key_ok g_id (chat_groups d) \<and> key_ok g_invite_code (chat_groups d) \<and>
     key_ok (\<lambda>m. (mt_group_id m, mt_member_id m)) (member_table d) \<and>
     key_ok ga_group_id (group_avatars d) \<and>
     (\<forall>m \<in> set (member_table d). member_ok d m) \<and>
     (\<forall>a \<in> set (group_avatars d). group_exists (ga_group_id a) d) \<and>
     (\<forall>g \<in> set (chat_groups d). group_ok d g)"

lemma groups_inv_empty [simp]: "groups_inv empty_db"
  by (simp add: groups_inv_def empty_db_def)

section \<open>How the statements change a group\<close>

lemma find_row_filter: "find_row p rows = (case filter p rows of [] \<Rightarrow> None | r # _ \<Rightarrow> Some r)"
  by (induction rows) auto

lemma find_group_Some: "find_group gid d = Some g \<Longrightarrow> g \<in> set (chat_groups d) \<and> g_id g = gid"
  by (auto simp: find_group_def dest: find_row_Some)

lemma find_group_exists: "group_exists gid d \<longleftrightarrow> (\<exists>g. find_group gid d = Some g)"
  using find_row_None [of "\<lambda>g. g_id g = gid" "chat_groups d"]
  by (auto simp: group_exists_def find_group_def)

lemma find_group_mem:
  assumes "key_ok g_id (chat_groups d)" "g \<in> set (chat_groups d)" "g_id g = gid"
  shows "find_group gid d = Some g"
  unfolding find_group_def using assms by (intro find_row_eqI) auto

lemma members_of_set: "m \<in> set (members_of gid d) \<longleftrightarrow> m \<in> set (member_table d) \<and> mt_group_id m = gid"
  by (auto simp: members_of_def)

lemma group_exists_update:
  "chat_groups d' = update_rows (\<lambda>g. g_id g = gid) f (chat_groups d) \<Longrightarrow> (\<And>g. g_id (f g) = g_id g) \<Longrightarrow>
     group_exists i d' \<longleftrightarrow> group_exists i d"
  by (auto simp: group_exists_def exists_row_def set_update_rows)

lemma find_group_update:
  assumes "chat_groups d' = update_rows (\<lambda>g. g_id g = gid) f (chat_groups d)" "\<And>g. g_id (f g) = g_id g"
  shows "find_group i d' = map_option (\<lambda>g. if i = gid then f g else g) (find_group i d)"
proof -
  have "find_row (\<lambda>g. g_id g = i) (update_rows (\<lambda>g. g_id g = gid) f rows) =
      map_option (\<lambda>g. if i = gid then f g else g) (find_row (\<lambda>g. g_id g = i) rows)" for rows
    by (induction rows) (auto simp: assms(2))
  then show ?thesis by (simp add: find_group_def assms(1))
qed

lemma group_ok_frame:
  assumes "members_of (g_id g) d' = members_of (g_id g) d"
    and "filter (\<lambda>a. ga_group_id a = g_id g) (group_avatars d') = filter (\<lambda>a. ga_group_id a = g_id g) (group_avatars d)"
  shows "group_ok d' g \<longleftrightarrow> group_ok d g"
  using assms by (simp add: group_ok_def admins_of_def find_row_filter)

definition row_ok :: "db \<Rightarrow> member_row \<Rightarrow> bool" where
  "row_ok d m \<longleftrightarrow> user_exists (mt_member_id m) d \<and> mt_role m \<in> {RoleAdmin, RoleModerator, RoleMember} \<and>
     set (mt_permissions m) \<subseteq> set AllPermissions \<and> (mt_role m \<noteq> RoleModerator \<longrightarrow> mt_permissions m = [])"

lemma member_ok_row: "member_ok d m \<longleftrightarrow> group_exists (mt_group_id m) d \<and> row_ok d m"
  by (auto simp: member_ok_def row_ok_def)

lemma row_ok_users: "users d' = users d \<Longrightarrow> row_ok d' m \<longleftrightarrow> row_ok d m"
  by (simp add: row_ok_def user_exists_def)

text \<open>
  An operation on one group keeps the invariant if the rest is untouched, its member rows
  are fine and the group fits its new members.
\<close>

lemma groups_inv_changeI:
  assumes inv: "groups_inv d" and u: "users d' = users d"
    and g: "chat_groups d' = update_rows (\<lambda>g. g_id g = gid) f (chat_groups d)" "\<And>g. g_id (f g) = g_id g"
    and k: "key_ok g_invite_code (chat_groups d')"
      "key_ok (\<lambda>m. (mt_group_id m, mt_member_id m)) (member_table d')"
      "key_ok ga_group_id (group_avatars d')"
    and other: "\<And>i. i \<noteq> gid \<Longrightarrow> members_of i d' = members_of i d"
      "\<And>i. i \<noteq> gid \<Longrightarrow> filter (\<lambda>a. ga_group_id a = i) (group_avatars d') =
        filter (\<lambda>a. ga_group_id a = i) (group_avatars d)"
    and found: "find_group gid d = Some g0"
    and rows: "\<And>m. m \<in> set (members_of gid d') \<Longrightarrow> row_ok d m"
    and ok: "group_ok d' (f g0)"
  shows "groups_inv d'"
proof -
  have ex: "group_exists i d' \<longleftrightarrow> group_exists i d" for i by (rule group_exists_update [OF g])
  have gid: "group_exists gid d" using found by (auto simp: find_group_exists)
  have "member_ok d' m" if "m \<in> set (member_table d')" for m
  proof (cases "mt_group_id m = gid")
    case True
    with that rows gid show ?thesis by (simp add: member_ok_row ex members_of_set row_ok_users [OF u])
  next
    case False
    with that other(1) [OF False] have "m \<in> set (member_table d)" by (metis members_of_set)
    with inv show ?thesis by (simp add: groups_inv_def member_ok_row ex row_ok_users [OF u])
  qed
  moreover have "group_exists (ga_group_id a) d'" if "a \<in> set (group_avatars d')" for a
  proof (cases "ga_group_id a = gid")
    case False
    with that have "a \<in> set (filter (\<lambda>x. ga_group_id x = ga_group_id a) (group_avatars d'))" by simp
    with other(2) [OF False] have "a \<in> set (group_avatars d)" by simp
    with inv show ?thesis by (simp add: groups_inv_def ex)
  qed (use gid ex in simp)
  moreover have "group_ok d' x" if x: "x \<in> set (chat_groups d')" for x
  proof -
    obtain y where y: "y \<in> set (chat_groups d)" "x = (if g_id y = gid then f y else y)"
      using x unfolding g(1) set_update_rows by blast
    show ?thesis
    proof (cases "g_id y = gid")
      case True
      with inv y(1) found have "y = g0"
        by (auto simp: groups_inv_def dest!: find_group_Some intro: key_ok_unique)
      with True y ok show ?thesis by simp
    next
      case False
      with inv y have "group_ok d x" by (simp add: groups_inv_def)
      with False y group_ok_frame [of x d' d] other show ?thesis by simp
    qed
  qed
  moreover have "key_ok g_id (chat_groups d')"
    using inv unfolding g(1) groups_inv_def by (simp add: key_ok_update g(2))
  ultimately show ?thesis using inv k u by (simp add: groups_inv_def)
qed

lemma groups_invD:
  assumes "groups_inv d"
  shows "key_ok g_id (chat_groups d)" "key_ok g_invite_code (chat_groups d)"
    "key_ok (\<lambda>m. (mt_group_id m, mt_member_id m)) (member_table d)" "key_ok ga_group_id (group_avatars d)"
    "find_group gid d = Some g \<Longrightarrow> group_ok d g"
    "m \<in> set (member_table d) \<Longrightarrow> row_ok d m"
  using assms by (auto simp: groups_inv_def member_ok_row dest: find_group_Some)

text \<open>The member rows of a group after each kind of change.\<close>

lemma members_of_add:
  "members_of i (d\<lparr>member_table := member_table d @ [m]\<rparr>) =
     members_of i d @ (if mt_group_id m = i then [m] else [])"
  by (simp add: members_of_def)

lemma members_of_delete:
  "members_of i (DeleteMemFromGroup gid uid d) =
     (if i = gid then filter (\<lambda>m. mt_member_id m \<noteq> uid) (members_of i d) else members_of i d)"
  by (auto simp: members_of_def DeleteMemFromGroup_def delete_rows_def is_member_row_def intro: filter_cong)

lemma filter_update_rows:
  assumes "\<And>r. q (f r) = q r"
  shows "filter q (update_rows p f rows) = update_rows p f (filter q rows)"
  using assms by (induction rows) auto

lemma members_of_set_role:
  assumes "SetMemberRole role perms gid uid d = Inr d'"
  shows "members_of i d' = (if i = gid then update_rows (\<lambda>m. mt_member_id m = uid)
      (\<lambda>m. m\<lparr>mt_role := role, mt_permissions := perms\<rparr>) (members_of i d) else members_of i d)"
proof -
  have d': "member_table d' = update_rows (is_member_row gid uid)
      (\<lambda>m. m\<lparr>mt_role := role, mt_permissions := perms\<rparr>) (member_table d)"
    using assms by (auto simp: SetMemberRole_def split: if_splits)
  have "update_rows (is_member_row gid uid) f (filter (\<lambda>m. mt_group_id m = i) rows) =
      (if i = gid then update_rows (\<lambda>m. mt_member_id m = uid) f (filter (\<lambda>m. mt_group_id m = i) rows)
       else filter (\<lambda>m. mt_group_id m = i) rows)" for f rows
    by (induction rows) (auto simp: is_member_row_def)
  then show ?thesis by (simp add: members_of_def d' filter_update_rows)
qed

lemma member_ids_distinct:
  assumes "groups_inv d"
  shows "distinct (map mt_member_id (members_of gid d))"
proof -
  have "distinct (map (\<lambda>m. (mt_group_id m, mt_member_id m)) (members_of gid d))"
    using groups_invD(3) [OF assms] by (simp add: key_ok_def members_of_def distinct_map_filter)
  then show ?thesis by (auto simp: distinct_map inj_on_def members_of_set)
qed

lemma member_row_unique:
  assumes "groups_inv d" "m \<in> set (members_of gid d)" "n \<in> set (members_of gid d)"
    and "mt_member_id m = mt_member_id n"
  shows "m = n"
  using member_ids_distinct [OF assms(1), of gid] assms(2-4)
  by (auto simp: distinct_map dest: inj_onD)

lemma GetMember_Inr:
  assumes "GetMember gid uid d = Inr (role, perms)"
  obtains m where "m \<in> set (members_of gid d)" "mt_member_id m = uid" "mt_role m = role"
    "mt_permissions m = perms"
  using assms by (auto simp: GetMember_def members_of_set is_member_row_def dest!: find_row_Some
      split: option.splits)

lemma GetMember_Inl:
  "GetMember gid uid d = Inl err \<longleftrightarrow> err = NoRows \<and> (\<forall>m \<in> set (members_of gid d). mt_member_id m \<noteq> uid)"
  using find_row_None [of "is_member_row gid uid" "member_table d"]
  by (auto simp: GetMember_def members_of_set is_member_row_def exists_row_def split: option.splits)

lemma LockGroup_Inr:
  "LockGroup gid d = Inr (mx, n) \<longleftrightarrow>
     (\<exists>g. find_group gid d = Some g \<and> mx = g_max_member g \<and> n = g_current_member g)"
  by (auto simp: LockGroup_def split: option.splits)

end
