(* ===== verification/Chat_DB.thy ===== *)
theory Chat_DB
  imports Groups_DB
begin

text \<open>
  The statements of \<^verbatim>\<open>internal/database/chat.sql.go\<close> and \<^verbatim>\<open>reactions.sql.go\<close> over the message,
  reaction and read-marker tables. \<open>now\<close> is the database's \<open>NOW()\<close>. Where an \<open>ORDER BY\<close> does
  not say which of two rows comes first, \<open>scan\<close>, a rearrangement of the rows, decides.
\<close>

section \<open>Times and texts\<close>

text \<open>Postgres keeps microseconds. A text may not contain a zero byte, and \<^verbatim>\<open>VARCHAR(n)\<close> counts characters.\<close>

definition pgTime :: "time \<Rightarrow> time" where
  "pgTime t = t - t mod 1000"

lemma pgTime_mono: "s \<le> t \<Longrightarrow> pgTime s \<le> pgTime t"
  unfolding pgTime_def minus_mod_eq_mult_div by (simp add: zdiv_mono1)

lemma pgTime_le: "pgTime t \<le> t"
  by (simp add: pgTime_def)

definition text_ok :: "string \<Rightarrow> bool" where
  "text_ok s \<longleftrightarrow> CHR 0x00 \<notin> set s"

definition varchar_ok :: "nat \<Rightarrow> string \<Rightarrow> bool" where
  "varchar_ok n s \<longleftrightarrow> text_ok s \<and> RuneCountInString s \<le> n"

section \<open>Messages\<close>

definition find_message :: "uuid \<Rightarrow> db \<Rightarrow> message_row option" where
  "find_message i d = find_row (\<lambda>m. m_id m = i) (message d)"

definition find_groupmessage :: "uuid \<Rightarrow> db \<Rightarrow> groupmessage_row option" where
  "find_groupmessage i d = find_row (\<lambda>m. gm_id m = i) (groupmessage d)"

text \<open>A foreign key that may be \<open>NULL\<close>.\<close>

definition fk :: "(uuid \<Rightarrow> bool) \<Rightarrow> uuid option \<Rightarrow> bool" where
  "fk ok x = (case x of None \<Rightarrow> True | Some i \<Rightarrow> ok i)"

definition AddMessagePrivate :: "message_row \<Rightarrow> db \<Rightarrow> dberr + db" where
  "AddMessagePrivate m d =
     (if \<not> (case m_content m of None \<Rightarrow> True | Some t \<Rightarrow> varchar_ok 500 t) then Inl DataException
      else if find_message (m_id m) d \<noteq> None then Inl (UniqueViolation ''message_pkey'')
      else if \<not> fk (\<lambda>i. find_message i d \<noteq> None) (m_parentid m) \<or> \<not> fk (\<lambda>i. user_exists i d) (m_from_id m) \<or>
        \<not> fk (\<lambda>i. user_exists i d) (m_to_id m) then Inl ForeignKeyViolation
      else Inr (d\<lparr>message := message d @ [m]\<rparr>))"

text \<open>\<^verbatim>\<open>searchable\<close> is computed by the statement, so the argument's value is ignored.\<close>

definition AddMessagePublic :: "groupmessage_row \<Rightarrow> db \<Rightarrow> dberr + db" where
  "AddMessagePublic m d =
     (if \<not> (case gm_content m of None \<Rightarrow> True | Some t \<Rightarrow> varchar_ok 500 t) then Inl DataException
      else if find_groupmessage (gm_id m) d \<noteq> None then Inl (UniqueViolation ''groupmessage_pkey'')
      else if \<not> fk (\<lambda>i. find_groupmessage i d \<noteq> None) (gm_parent_id m) \<or> \<not> fk (\<lambda>i. user_exists i d) (gm_from_id m) \<or>
        \<not> fk (\<lambda>i. group_exists i d) (gm_group_id m) then Inl ForeignKeyViolation
      else Inr (d\<lparr>groupmessage := groupmessage d @ [m\<lparr>gm_searchable :=
        (case gm_group_id m of None \<Rightarrow> False
         | Some g \<Rightarrow> (case find_group g d of None \<Rightarrow> False | Some c \<Rightarrow> g_current_member c \<le> 50))\<rparr>]\<rparr>))"

definition between :: "uuid \<Rightarrow> uuid \<Rightarrow> message_row \<Rightarrow> bool" where
  "between a b m \<longleftrightarrow> (m_from_id m = Some a \<and> m_to_id m = Some b) \<or> (m_from_id m = Some b \<and> m_to_id m = Some a)"

lemma between_commute: "between a b m \<longleftrightarrow> between b a m"
  by (auto simp: between_def)

definition GetRecentPrivateMessages :: "(message_row list \<Rightarrow> message_row list) \<Rightarrow> uuid \<Rightarrow> uuid \<Rightarrow> nat \<Rightarrow> db \<Rightarrow> message_row list" where
  "GetRecentPrivateMessages scan a b n d =
     take n (sort_key (\<lambda>m. - m_created_at m) (scan (filter (between a b) (message d))))"

definition GetPrivateMessagesSince :: "(message_row list \<Rightarrow> message_row list) \<Rightarrow> uuid \<Rightarrow> uuid \<Rightarrow> time \<Rightarrow> nat \<Rightarrow> db \<Rightarrow> message_row list" where
  "GetPrivateMessagesSince scan a b since n d =
     take n (sort_key m_created_at (scan (filter (\<lambda>m. between a b m \<and> m_created_at m > since) (message d))))"

definition earlier :: "time \<Rightarrow> uuid \<Rightarrow> time \<Rightarrow> uuid \<Rightarrow> bool" where
  "earlier t i t' i' \<longleftrightarrow> t < t' \<or> (t = t' \<and> i < i')"

definition GetPrivateMessagesBefore :: "uuid \<Rightarrow> uuid \<Rightarrow> time \<Rightarrow> uuid \<Rightarrow> nat \<Rightarrow> db \<Rightarrow> message_row list" where
  "GetPrivateMessagesBefore a b at i n d =
     take n (rev (sort_key m_created_at (sort_key m_id
       (filter (\<lambda>m. between a b m \<and> earlier (m_created_at m) (m_id m) at i) (message d)))))"

text \<open>The group history is cut off at the viewer's \<^verbatim>\<open>joined_at\<close>; without a row nothing is visible.\<close>

definition joined_at :: "uuid \<Rightarrow> uuid \<Rightarrow> db \<Rightarrow> time option" where
  "joined_at gid u d = map_option mt_joined_at (find_row (is_member_row gid u) (member_table d))"

definition visible_in :: "uuid \<Rightarrow> uuid \<Rightarrow> db \<Rightarrow> groupmessage_row \<Rightarrow> bool" where
  "visible_in gid u d m \<longleftrightarrow> gm_group_id m = Some gid \<and>
     (case joined_at gid u d of None \<Rightarrow> False | Some j \<Rightarrow> gm_created_at m \<ge> j)"

definition GetRecentGroupMessages :: "(groupmessage_row list \<Rightarrow> groupmessage_row list) \<Rightarrow> uuid \<Rightarrow> uuid \<Rightarrow> nat \<Rightarrow> db \<Rightarrow> groupmessage_row list" where
  "GetRecentGroupMessages scan gid u n d =
     take n (sort_key (\<lambda>m. - gm_created_at m) (scan (filter (visible_in gid u d) (groupmessage d))))"

definition GetGroupMessagesBefore :: "uuid \<Rightarrow> uuid \<Rightarrow> time \<Rightarrow> uuid \<Rightarrow> nat \<Rightarrow> db \<Rightarrow> groupmessage_row list" where
  "GetGroupMessagesBefore gid u at i n d =
     take n (rev (sort_key gm_created_at (sort_key gm_id
       (filter (\<lambda>m. visible_in gid u d m \<and> earlier (gm_created_at m) (gm_id m) at i) (groupmessage d)))))"

definition PrivateMessageInChat :: "uuid \<Rightarrow> uuid \<Rightarrow> uuid \<Rightarrow> db \<Rightarrow> bool" where
  "PrivateMessageInChat i a b d = exists_row (\<lambda>m. m_id m = i \<and> between a b m) (message d)"

definition GroupMessageInGroup :: "uuid \<Rightarrow> uuid \<Rightarrow> db \<Rightarrow> bool" where
  "GroupMessageInGroup i gid d = exists_row (\<lambda>m. gm_id m = i \<and> gm_group_id m = Some gid) (groupmessage d)"

definition one_row :: "'a option \<Rightarrow> dberr + 'a" where
  "one_row x = (case x of None \<Rightarrow> Inl NoRows | Some r \<Rightarrow> Inr r)"

definition PrivateMessageCursor :: "uuid \<Rightarrow> uuid \<Rightarrow> uuid \<Rightarrow> db \<Rightarrow> dberr + time" where
  "PrivateMessageCursor i a b d =
     one_row (map_option m_created_at (find_row (\<lambda>m. m_id m = i \<and> between a b m) (message d)))"

definition GroupMessageCursor :: "uuid \<Rightarrow> uuid \<Rightarrow> db \<Rightarrow> dberr + time" where
  "GroupMessageCursor i gid d =
     one_row (map_option gm_created_at (find_row (\<lambda>m. gm_id m = i \<and> gm_group_id m = Some gid) (groupmessage d)))"

definition GroupJoinedAt :: "uuid \<Rightarrow> uuid \<Rightarrow> db \<Rightarrow> dberr + time" where
  "GroupJoinedAt gid u d = one_row (joined_at gid u d)"

definition PrivateMessageContent :: "uuid \<Rightarrow> db \<Rightarrow> dberr + string option \<times> time option" where
  "PrivateMessageContent i d = one_row (map_option (\<lambda>m. (m_content m, m_deleted_at m)) (find_message i d))"

definition GroupMessageContent :: "uuid \<Rightarrow> db \<Rightarrow> dberr + string option \<times> time option" where
  "GroupMessageContent i d = one_row (map_option (\<lambda>m. (gm_content m, gm_deleted_at m)) (find_groupmessage i d))"

definition PrivateMessageParticipants :: "uuid \<Rightarrow> db \<Rightarrow> dberr + uuid option \<times> uuid option \<times> time" where
  "PrivateMessageParticipants i d = one_row (map_option (\<lambda>m. (m_from_id m, m_to_id m, m_created_at m))
     (find_row (\<lambda>m. m_id m = i \<and> m_deleted_at m = None) (message d)))"

definition GroupMessageGroup :: "uuid \<Rightarrow> db \<Rightarrow> dberr + uuid option \<times> uuid option \<times> time" where
  "GroupMessageGroup i d = one_row (map_option (\<lambda>m. (gm_group_id m, gm_from_id m, gm_created_at m))
     (find_row (\<lambda>m. gm_id m = i \<and> gm_deleted_at m = None) (groupmessage d)))"

section \<open>Editing and deleting\<close>

text \<open>
  The number of rows an edit changed. A zero byte fails when the parameter is bound, a text
  that is too long when a row is changed.
\<close>

definition EditPrivateMessage :: "uuid \<Rightarrow> string \<Rightarrow> time \<Rightarrow> db \<Rightarrow> dberr + nat \<times> db" where
  "EditPrivateMessage i t at d =
     (let hit = (\<lambda>m. m_id m = i \<and> m_deleted_at m = None); n = length (filter hit (message d)) in
      if \<not> text_ok t \<or> (n > 0 \<and> \<not> varchar_ok 500 t) then Inl DataException
      else Inr (n, d\<lparr>message := update_rows hit (\<lambda>m. m\<lparr>m_content := Some t, m_edited_at := Some at\<rparr>) (message d)\<rparr>))"

definition EditGroupMessage :: "uuid \<Rightarrow> string \<Rightarrow> time \<Rightarrow> db \<Rightarrow> dberr + nat \<times> db" where
  "EditGroupMessage i t at d =
     (let hit = (\<lambda>m. gm_id m = i \<and> gm_deleted_at m = None); n = length (filter hit (groupmessage d)) in
      if \<not> text_ok t \<or> (n > 0 \<and> \<not> varchar_ok 500 t) then Inl DataException
      else Inr (n, d\<lparr>groupmessage := update_rows hit (\<lambda>m. m\<lparr>gm_content := Some t, gm_edited_at := Some at\<rparr>) (groupmessage d)\<rparr>))"

definition DeletePrivateMessage :: "uuid \<Rightarrow> time \<Rightarrow> db \<Rightarrow> nat \<times> db" where
  "DeletePrivateMessage i at d =
     (let hit = (\<lambda>m. m_id m = i \<and> m_deleted_at m = None); n = length (filter hit (message d)) in
      (n, d\<lparr>message := update_rows hit (\<lambda>m. m\<lparr>m_content := None, m_deleted_at := Some at\<rparr>) (message d),
            message_reactions := delete_rows (\<lambda>r. n > 0 \<and> re_message_id r = i) (message_reactions d)\<rparr>))"

definition DeleteGroupMessage :: "uuid \<Rightarrow> time \<Rightarrow> db \<Rightarrow> nat \<times> db" where
  "DeleteGroupMessage i at d =
     (let hit = (\<lambda>m. gm_id m = i \<and> gm_deleted_at m = None); n = length (filter hit (groupmessage d)) in
      (n, d\<lparr>groupmessage := update_rows hit (\<lambda>m. m\<lparr>gm_content := None, gm_deleted_at := Some at\<rparr>) (groupmessage d),
            group_message_reactions := delete_rows (\<lambda>r. n > 0 \<and> re_message_id r = i) (group_message_reactions d)\<rparr>))"

section \<open>Reactions\<close>

definition same_reaction :: "uuid \<Rightarrow> uuid \<Rightarrow> reaction_row \<Rightarrow> bool" where
  "same_reaction i u r \<longleftrightarrow> re_message_id r = i \<and> re_user_id r = u"

definition set_reaction :: "time \<Rightarrow> uuid \<Rightarrow> uuid \<Rightarrow> string \<Rightarrow> reaction_row list \<Rightarrow> reaction_row list" where
  "set_reaction now i u emoji rows =
     (if exists_row (same_reaction i u) rows
      then update_rows (same_reaction i u) (\<lambda>r. r\<lparr>re_emoji := emoji, re_created_at := now\<rparr>) rows
      else rows @ [\<lparr>re_message_id = i, re_user_id = u, re_emoji = emoji, re_created_at = now\<rparr>])"

definition reaction_check :: "bool \<Rightarrow> uuid \<Rightarrow> string \<Rightarrow> db \<Rightarrow> dberr option" where
  "reaction_check known u emoji d =
     (if \<not> text_ok emoji then Some DataException
      else if length emoji < 1 \<or> length emoji > 64 then Some CheckViolation
      else if \<not> known \<or> \<not> user_exists u d then Some ForeignKeyViolation
      else None)"

definition SetPrivateReaction :: "time \<Rightarrow> uuid \<Rightarrow> uuid \<Rightarrow> string \<Rightarrow> db \<Rightarrow> dberr + db" where
  "SetPrivateReaction now i u emoji d =
     (case reaction_check (find_message i d \<noteq> None) u emoji d of Some err \<Rightarrow> Inl err
      | None \<Rightarrow> Inr (d\<lparr>message_reactions := set_reaction now i u emoji (message_reactions d)\<rparr>))"

definition SetGroupReaction :: "time \<Rightarrow> uuid \<Rightarrow> uuid \<Rightarrow> string \<Rightarrow> db \<Rightarrow> dberr + db" where
  "SetGroupReaction now i u emoji d =
     (case reaction_check (find_groupmessage i d \<noteq> None) u emoji d of Some err \<Rightarrow> Inl err
      | None \<Rightarrow> Inr (d\<lparr>group_message_reactions := set_reaction now i u emoji (group_message_reactions d)\<rparr>))"

definition DeletePrivateReaction :: "uuid \<Rightarrow> uuid \<Rightarrow> db \<Rightarrow> nat \<times> db" where
  "DeletePrivateReaction i u d = (length (filter (same_reaction i u) (message_reactions d)),
     d\<lparr>message_reactions := delete_rows (same_reaction i u) (message_reactions d)\<rparr>)"

definition DeleteGroupReaction :: "uuid \<Rightarrow> uuid \<Rightarrow> db \<Rightarrow> nat \<times> db" where
  "DeleteGroupReaction i u d = (length (filter (same_reaction i u) (group_message_reactions d)),
     d\<lparr>group_message_reactions := delete_rows (same_reaction i u) (group_message_reactions d)\<rparr>)"

text \<open>Per message and emoji: how many, whether \<open>me\<close> is among them, and the order of their first use.\<close>

definition reaction_summary :: "uuid \<Rightarrow> uuid list \<Rightarrow> reaction_row list \<Rightarrow> (uuid \<times> string \<times> nat \<times> bool) list" where
  "reaction_summary me ids rows =
     (let rs = filter (\<lambda>r. re_message_id r \<in> set ids) rows;
          keys = remdups (map (\<lambda>r. (re_message_id r, re_emoji r)) rs);
          of_key = (\<lambda>(i, em). filter (\<lambda>r. re_message_id r = i \<and> re_emoji r = em) rs);
          first = (\<lambda>k. Min (set (map re_created_at (of_key k))))
      in map (\<lambda>(i, em). (i, em, length (of_key (i, em)), list_ex (\<lambda>r. re_user_id r = me) (of_key (i, em))))
           (sort_key fst (sort_key first keys)))"

definition PrivateReactionSummary :: "uuid \<Rightarrow> uuid list \<Rightarrow> db \<Rightarrow> (uuid \<times> string \<times> nat \<times> bool) list" where
  "PrivateReactionSummary me ids d = reaction_summary me ids (message_reactions d)"

definition GroupReactionSummary :: "uuid \<Rightarrow> uuid list \<Rightarrow> db \<Rightarrow> (uuid \<times> string \<times> nat \<times> bool) list" where
  "GroupReactionSummary me ids d = reaction_summary me ids (group_message_reactions d)"

text \<open>The people behind the reactions, with their names.\<close>

definition reactors :: "uuid \<Rightarrow> reaction_row list \<Rightarrow> db \<Rightarrow> (uuid \<times> string \<times> string \<times> string \<times> time) list" where
  "reactors i rows d = concat (map (\<lambda>r. case find_user (re_user_id r) d of None \<Rightarrow> []
       | Some u \<Rightarrow> [(re_user_id r, u_name u, u_display_name u, re_emoji r, re_created_at r)])
     (sort_key re_created_at (filter (\<lambda>r. re_message_id r = i) rows)))"

definition PrivateReactors :: "uuid \<Rightarrow> db \<Rightarrow> (uuid \<times> string \<times> string \<times> string \<times> time) list" where
  "PrivateReactors i d = reactors i (message_reactions d) d"

definition GroupReactors :: "uuid \<Rightarrow> db \<Rightarrow> (uuid \<times> string \<times> string \<times> string \<times> time) list" where
  "GroupReactors i d = reactors i (group_message_reactions d) d"

section \<open>Read markers\<close>

definition created_of :: "uuid \<Rightarrow> db \<Rightarrow> time option" where
  "created_of i d = map_option m_created_at (find_message i d)"

definition group_created_of :: "uuid \<Rightarrow> db \<Rightarrow> time option" where
  "group_created_of i d = map_option gm_created_at (find_groupmessage i d)"

text \<open>The comparison of the upsert: with a message missing it is \<open>NULL\<close>, so no update.\<close>

definition not_before :: "time option \<Rightarrow> time option \<Rightarrow> bool" where
  "not_before x y = (case (x, y) of (Some a, Some b) \<Rightarrow> a \<ge> b | _ \<Rightarrow> False)"

definition is_seen :: "string \<Rightarrow> uuid \<Rightarrow> seen_message \<Rightarrow> bool" where
  "is_seen chat u r \<longleftrightarrow> sm_chat_id r = chat \<and> sm_seen_id r = u"

definition AddLastSeenMessage :: "string \<Rightarrow> uuid \<Rightarrow> uuid \<Rightarrow> db \<Rightarrow> dberr + db" where
  "AddLastSeenMessage chat i u d =
     (if exists_row (is_seen chat u) (seen_messages d)
      then Inr (d\<lparr>seen_messages := update_rows
        (\<lambda>r. is_seen chat u r \<and> not_before (created_of i d) (created_of (sm_message_id r) d))
        (\<lambda>r. r\<lparr>sm_message_id := i\<rparr>) (seen_messages d)\<rparr>)
      else if find_message i d = None \<or> \<not> user_exists u d then Inl ForeignKeyViolation
      else Inr (d\<lparr>seen_messages := seen_messages d @ [\<lparr>sm_chat_id = chat, sm_message_id = i, sm_seen_id = u\<rparr>]\<rparr>))"

definition is_read :: "uuid \<Rightarrow> uuid \<Rightarrow> group_read \<Rightarrow> bool" where
  "is_read gid u r \<longleftrightarrow> grd_group_id r = gid \<and> grd_user_id r = u"

definition MarkGroupRead :: "time \<Rightarrow> uuid \<Rightarrow> uuid \<Rightarrow> uuid \<Rightarrow> db \<Rightarrow> dberr + nat \<times> db" where
  "MarkGroupRead now gid u i d =
     (let hit = (\<lambda>r. is_read gid u r \<and> not_before (group_created_of i d) (group_created_of (grd_message_id r) d)) in
      if exists_row (is_read gid u) (group_reads d)
      then Inr (length (filter hit (group_reads d)),
        d\<lparr>group_reads := update_rows hit (\<lambda>r. r\<lparr>grd_message_id := i, grd_updated_at := now\<rparr>) (group_reads d)\<rparr>)
      else if \<not> group_exists gid d \<or> \<not> user_exists u d \<or> find_groupmessage i d = None then Inl ForeignKeyViolation
      else Inr (1, d\<lparr>group_reads := group_reads d @
        [\<lparr>grd_group_id = gid, grd_user_id = u, grd_message_id = i, grd_updated_at = now\<rparr>]\<rparr>))"

definition GroupReadBy :: "uuid \<Rightarrow> uuid \<Rightarrow> time \<Rightarrow> uuid \<Rightarrow> db \<Rightarrow> (user \<times> time) list" where
  "GroupReadBy gid sender at i d = concat (map (\<lambda>r.
       case (find_groupmessage (grd_message_id r) d, find_user (grd_user_id r) d) of
         (Some m, Some u) \<Rightarrow>
           if exists_row (is_member_row gid (grd_user_id r)) (member_table d) \<and>
             \<not> earlier (gm_created_at m) (gm_id m) at i
           then [(u, grd_updated_at r)] else []
       | _ \<Rightarrow> [])
     (sort_key grd_updated_at (filter (\<lambda>r. grd_group_id r = gid \<and> grd_user_id r \<noteq> sender) (group_reads d))))"

definition RecentGroupSenders :: "uuid \<Rightarrow> uuid \<Rightarrow> db \<Rightarrow> uuid list" where
  "RecentGroupSenders gid i d = (case find_groupmessage i d of None \<Rightarrow> []
     | Some c \<Rightarrow> remdups (List.map_filter gm_from_id (take 50 (rev (sort_key gm_created_at (sort_key gm_id
         (filter (\<lambda>m. gm_group_id m = Some gid \<and> \<not> earlier (gm_created_at c) (gm_id c) (gm_created_at m) (gm_id m))
           (groupmessage d))))))))"

definition AllBannedUsers :: "db \<Rightarrow> uuid list" where
  "AllBannedUsers d = map u_id (filter (\<lambda>u. u_banned_at u \<noteq> None) (users d))"

section \<open>Lemmas\<close>

lemma find_message_Some: "find_message i d = Some m \<Longrightarrow> m \<in> set (message d) \<and> m_id m = i"
  by (auto simp: find_message_def dest: find_row_Some)

lemma find_groupmessage_Some: "find_groupmessage i d = Some m \<Longrightarrow> m \<in> set (groupmessage d) \<and> gm_id m = i"
  by (auto simp: find_groupmessage_def dest: find_row_Some)

lemma joined_at_Some: "joined_at gid u d = Some j \<Longrightarrow> \<exists>m \<in> set (member_table d). is_member_row gid u m \<and> mt_joined_at m = j"
  by (auto simp: joined_at_def dest: find_row_Some)

lemma one_row_Inr [simp]: "one_row x = Inr r \<longleftrightarrow> x = Some r"
  by (simp add: one_row_def split: option.split)

lemma one_row_Inl [simp]: "one_row x = Inl err \<longleftrightarrow> x = None \<and> err = NoRows"
  by (auto simp: one_row_def split: option.split)

end
