(* ===== verification/Friends_DB.thy ===== *)
theory Friends_DB
  imports Database "HOL-Library.List_Lexorder" "HOL-Library.Char_ord"
begin

text \<open>
  The statements of \<^verbatim>\<open>internal/database/friends.sql.go\<close> over \<open>user_relationships\<close> and
  \<open>user_blocks\<close>, and the invariant the schema's unique pair index, check constraints and
  foreign keys give these tables.
\<close>

section \<open>Statements\<close>

definition StatusPending :: string where "StatusPending = ''pending''"
definition StatusConfirm :: string where "StatusConfirm = ''confirm''"

lemma status_neq [simp]: "StatusPending \<noteq> StatusConfirm" "StatusConfirm \<noteq> StatusPending"
  by (simp_all add: StatusPending_def StatusConfirm_def)

text \<open>
  \<open>LEAST(user_id, otherUser_id) = LEAST(a, b) AND GREATEST(\<dots>) = GREATEST(a, b)\<close>
\<close>

definition pair_is :: "uuid \<Rightarrow> uuid \<Rightarrow> user_relationship \<Rightarrow> bool" where
  "pair_is a b r \<longleftrightarrow>
     min (ur_user_id r) (ur_otherUser_id r) = min a b \<and>
     max (ur_user_id r) (ur_otherUser_id r) = max a b"

text \<open>
  \<open>now\<close> is the database's \<open>NOW()\<close>. Postgres checks the row's CHECK constraint, then the
  primary key and the pair index, then the foreign keys.
\<close>

definition CreateFriendRequest :: "time \<Rightarrow> uuid \<Rightarrow> uuid \<Rightarrow> uuid \<Rightarrow> db \<Rightarrow> dberr + db" where
  "CreateFriendRequest now i userID otherID d =
     (if userID = otherID then Inl CheckViolation
      else if exists_row (\<lambda>r. ur_id r = i) (user_relationships d)
        then Inl (UniqueViolation ''user_relationships_pkey'')
      else if exists_row (pair_is userID otherID) (user_relationships d)
        then Inl (UniqueViolation ''user_relationships_pair_key'')
      else if \<not> user_exists userID d \<or> \<not> user_exists otherID d then Inl ForeignKeyViolation
      else Inr (d\<lparr>user_relationships := user_relationships d @
        [\<lparr>ur_id = i, ur_user_id = userID, ur_otherUser_id = otherID, ur_status = StatusPending,
          ur_created_at = now, ur_updated_at = now\<rparr>]\<rparr>))"

definition AcceptFriendRequest :: "time \<Rightarrow> uuid \<Rightarrow> uuid \<Rightarrow> db \<Rightarrow> dberr + (uuid \<times> db)" where
  "AcceptFriendRequest now i otherID d =
     (let p = (\<lambda>r. ur_id r = i \<and> ur_otherUser_id r = otherID \<and> ur_status r = StatusPending) in
      case find_row p (user_relationships d) of
        None \<Rightarrow> Inl NoRows
      | Some r \<Rightarrow> Inr (ur_user_id r, d\<lparr>user_relationships := update_rows p
          (\<lambda>x. x\<lparr>ur_status := StatusConfirm, ur_updated_at := now\<rparr>) (user_relationships d)\<rparr>))"

definition DenyFriendRequest :: "uuid \<Rightarrow> uuid \<Rightarrow> db \<Rightarrow> dberr + (uuid \<times> db)" where
  "DenyFriendRequest i otherID d =
     (let p = (\<lambda>r. ur_id r = i \<and> ur_otherUser_id r = otherID \<and> ur_status r = StatusPending) in
      case find_row p (user_relationships d) of
        None \<Rightarrow> Inl NoRows
      | Some r \<Rightarrow> Inr (ur_user_id r,
          d\<lparr>user_relationships := delete_rows p (user_relationships d)\<rparr>))"

definition CancelFriendRequest :: "uuid \<Rightarrow> uuid \<Rightarrow> db \<Rightarrow> dberr + (uuid \<times> db)" where
  "CancelFriendRequest i userID d =
     (let p = (\<lambda>r. ur_id r = i \<and> ur_user_id r = userID \<and> ur_status r = StatusPending) in
      case find_row p (user_relationships d) of
        None \<Rightarrow> Inl NoRows
      | Some r \<Rightarrow> Inr (ur_otherUser_id r,
          d\<lparr>user_relationships := delete_rows p (user_relationships d)\<rparr>))"

definition PairStatus :: "uuid \<Rightarrow> uuid \<Rightarrow> db \<Rightarrow> dberr + string" where
  "PairStatus a b d =
     (case find_row (pair_is a b) (user_relationships d) of
        None \<Rightarrow> Inl NoRows | Some r \<Rightarrow> Inr (ur_status r))"

definition UnfriendRow :: "uuid \<Rightarrow> uuid \<Rightarrow> db \<Rightarrow> dberr + (uuid \<times> db)" where
  "UnfriendRow a b d =
     (let p = (\<lambda>r. ur_status r = StatusConfirm \<and> pair_is a b r) in
      case find_row p (user_relationships d) of
        None \<Rightarrow> Inl NoRows
      | Some r \<Rightarrow> Inr (ur_id r, d\<lparr>user_relationships := delete_rows p (user_relationships d)\<rparr>))"

definition blocked_row :: "uuid \<Rightarrow> uuid \<Rightarrow> user_block \<Rightarrow> bool" where
  "blocked_row a b r \<longleftrightarrow> ub_blocker_id r = a \<and> ub_blocked_id r = b"

definition BlockBetween :: "uuid \<Rightarrow> uuid \<Rightarrow> db \<Rightarrow> bool \<times> bool" where
  "BlockBetween a b d =
     (exists_row (blocked_row a b) (user_blocks d), exists_row (blocked_row b a) (user_blocks d))"

text \<open>
  One statement with three parts that all read the tables as they were before it:
  \<open>INSERT \<dots> ON CONFLICT DO NOTHING\<close>, \<open>DELETE\<close> and the \<open>bool_or\<close> over the deleted rows.
\<close>

definition BlockUser :: "uuid \<Rightarrow> uuid \<Rightarrow> time \<Rightarrow> db \<Rightarrow> dberr + (bool \<times> db)" where
  "BlockUser blocker blocked at d =
     (if blocker = blocked then Inl CheckViolation
      else if \<not> exists_row (blocked_row blocker blocked) (user_blocks d) \<and>
              (\<not> user_exists blocker d \<or> \<not> user_exists blocked d) then Inl ForeignKeyViolation
      else Inr
        (exists_row (\<lambda>r. pair_is blocker blocked r \<and> ur_status r = StatusConfirm)
           (user_relationships d),
         d\<lparr>user_blocks :=
             (if exists_row (blocked_row blocker blocked) (user_blocks d) then user_blocks d
              else user_blocks d @
                [\<lparr>ub_blocker_id = blocker, ub_blocked_id = blocked, ub_created_at = at\<rparr>]),
           user_relationships := delete_rows (pair_is blocker blocked) (user_relationships d)\<rparr>))"

definition UnblockUser :: "uuid \<Rightarrow> uuid \<Rightarrow> db \<Rightarrow> db" where
  "UnblockUser blocker blocked d =
     d\<lparr>user_blocks := delete_rows (blocked_row blocker blocked) (user_blocks d)\<rparr>"

text \<open>
  The listings. \<open>ORDER BY name\<close> uses the database's collation, given as its sort key
  \<open>coll\<close> (what \<open>strxfrm\<close> computes: bytewise order of keys is the collation order).
\<close>

definition ListFriends :: "(string \<Rightarrow> string) \<Rightarrow> uuid \<Rightarrow> db \<Rightarrow> user list" where
  "ListFriends coll me d =
     sort_key (\<lambda>u. coll (u_name u))
       (filter (\<lambda>u. exists_row (\<lambda>r. ur_status r = StatusConfirm \<and>
            (ur_user_id r = me \<and> ur_otherUser_id r = u_id u \<or>
             ur_otherUser_id r = me \<and> ur_user_id r = u_id u)) (user_relationships d)) (users d))"

text \<open>A join on the users' primary key, in the order of the request times.\<close>

definition join_user :: "(user_relationship \<Rightarrow> uuid) \<Rightarrow> db \<Rightarrow> user_relationship list \<Rightarrow>
    (user_relationship \<times> user) list" where
  "join_user other d rows =
     List.map_filter (\<lambda>r. map_option (\<lambda>u. (r, u)) (find_user (other r) d)) rows"

definition ListIncomingFriendRequests :: "uuid \<Rightarrow> db \<Rightarrow> (user_relationship \<times> user) list" where
  "ListIncomingFriendRequests me d =
     join_user ur_user_id d
       (sort_key ur_created_at
         (filter (\<lambda>r. ur_otherUser_id r = me \<and> ur_status r = StatusPending) (user_relationships d)))"

definition ListOutgoingFriendRequests :: "uuid \<Rightarrow> db \<Rightarrow> (user_relationship \<times> user) list" where
  "ListOutgoingFriendRequests me d =
     join_user ur_otherUser_id d
       (sort_key ur_created_at
         (filter (\<lambda>r. ur_user_id r = me \<and> ur_status r = StatusPending) (user_relationships d)))"

definition ListBlocked :: "uuid \<Rightarrow> db \<Rightarrow> (uuid \<times> string \<times> time) list" where
  "ListBlocked me d =
     List.map_filter
       (\<lambda>b. map_option (\<lambda>u. (ub_blocked_id b, u_name u, ub_created_at b)) (find_user (ub_blocked_id b) d))
       (sort_key (\<lambda>b. - ub_created_at b) (filter (\<lambda>b. ub_blocker_id b = me) (user_blocks d)))"

lemmas friends_db_defs = CreateFriendRequest_def AcceptFriendRequest_def DenyFriendRequest_def
  CancelFriendRequest_def UnfriendRow_def BlockUser_def UnblockUser_def

section \<open>What the tables mean\<close>

definition rel_between :: "uuid \<Rightarrow> uuid \<Rightarrow> db \<Rightarrow> bool" where
  "rel_between a b d \<longleftrightarrow> exists_row (pair_is a b) (user_relationships d)"

definition are_friends_db :: "uuid \<Rightarrow> uuid \<Rightarrow> db \<Rightarrow> bool" where
  "are_friends_db a b d \<longleftrightarrow>
     exists_row (\<lambda>r. pair_is a b r \<and> ur_status r = StatusConfirm) (user_relationships d)"

definition blocks_db :: "uuid \<Rightarrow> uuid \<Rightarrow> db \<Rightarrow> bool" where
  "blocks_db a b d \<longleftrightarrow> exists_row (blocked_row a b) (user_blocks d)"

lemma pair_is_sets: "pair_is a b r \<longleftrightarrow> {ur_user_id r, ur_otherUser_id r} = {a, b}"
  by (auto simp: pair_is_def min_def max_def doubleton_eq_iff split: if_splits)

lemma pair_is_cases: "pair_is a b r \<longleftrightarrow>
    ur_user_id r = a \<and> ur_otherUser_id r = b \<or> ur_user_id r = b \<and> ur_otherUser_id r = a"
  by (auto simp: pair_is_sets doubleton_eq_iff)

lemma pair_is_commute: "pair_is a b r \<longleftrightarrow> pair_is b a r"
  by (auto simp: pair_is_cases)

lemma rel_between_commute: "rel_between a b d \<longleftrightarrow> rel_between b a d"
  by (simp add: rel_between_def exists_row_def pair_is_commute)

lemma are_friends_commute: "are_friends_db a b d \<longleftrightarrow> are_friends_db b a d"
  by (simp add: are_friends_db_def exists_row_def pair_is_commute)

lemma are_friends_rel: "are_friends_db a b d \<Longrightarrow> rel_between a b d"
  by (auto simp: are_friends_db_def rel_between_def exists_row_def)

section \<open>The invariant\<close>

text \<open>
  \<open>schema_ok\<close>: what the constraints guarantee. \<open>friends_inv\<close> adds what the service keeps:
  every status is one of the two it writes, and nobody who blocked, or was blocked by,
  someone has a request or a friendship with them.
\<close>

definition pair_key :: "user_relationship \<Rightarrow> uuid set" where
  "pair_key r = {ur_user_id r, ur_otherUser_id r}"

definition rels_ok :: "db \<Rightarrow> bool" where
  "rels_ok d \<longleftrightarrow>
     key_ok ur_id (user_relationships d) \<and> key_ok pair_key (user_relationships d) \<and>
     (\<forall>r \<in> set (user_relationships d). ur_user_id r \<noteq> ur_otherUser_id r \<and>
        user_exists (ur_user_id r) d \<and> user_exists (ur_otherUser_id r) d \<and>
        (ur_status r = StatusPending \<or> ur_status r = StatusConfirm))"

definition blocks_ok :: "db \<Rightarrow> bool" where
  "blocks_ok d \<longleftrightarrow>
     key_ok (\<lambda>b. (ub_blocker_id b, ub_blocked_id b)) (user_blocks d) \<and>
     (\<forall>b \<in> set (user_blocks d). ub_blocker_id b \<noteq> ub_blocked_id b \<and>
        user_exists (ub_blocker_id b) d \<and> user_exists (ub_blocked_id b) d)"

definition no_blocked_rel :: "db \<Rightarrow> bool" where
  "no_blocked_rel d \<longleftrightarrow> (\<forall>b \<in> set (user_blocks d). \<not> rel_between (ub_blocker_id b) (ub_blocked_id b) d)"

definition friends_inv :: "db \<Rightarrow> bool" where
  "friends_inv d \<longleftrightarrow> key_ok u_id (users d) \<and> rels_ok d \<and> blocks_ok d \<and> no_blocked_rel d"

lemma friends_inv_empty [simp]: "friends_inv empty_db"
  by (simp add: friends_inv_def rels_ok_def blocks_ok_def no_blocked_rel_def empty_db_def)

lemma user_exists_frame [simp]:
  "user_exists i (d\<lparr>user_relationships := rs\<rparr>) = user_exists i d"
  "user_exists i (d\<lparr>user_blocks := bs\<rparr>) = user_exists i d"
  by (simp_all add: user_exists_def)

lemma no_blocked_rel_iff:
  "no_blocked_rel d \<longleftrightarrow> (\<forall>a b. blocks_db a b d \<longrightarrow> \<not> rel_between a b d)"
  by (auto simp: no_blocked_rel_def blocks_db_def exists_row_def blocked_row_def)

lemma pair_key_iff: "pair_key r = {a, b} \<longleftrightarrow> pair_is a b r"
  by (auto simp: pair_key_def pair_is_sets)

text \<open>Deleting relationships, and updates that keep ids and users, preserve the invariant.\<close>

lemma friends_inv_delete_rels:
  "friends_inv d \<Longrightarrow> friends_inv (d\<lparr>user_relationships := delete_rows p (user_relationships d)\<rparr>)"
  by (auto simp: friends_inv_def rels_ok_def blocks_ok_def no_blocked_rel_def rel_between_def
      exists_row_def intro: key_ok_delete)

lemma friends_inv_confirm:
  assumes "friends_inv d"
  shows "friends_inv (d\<lparr>user_relationships := update_rows p
    (\<lambda>x. x\<lparr>ur_status := StatusConfirm, ur_updated_at := now\<rparr>) (user_relationships d)\<rparr>)"
  using assms
  by (auto simp: friends_inv_def rels_ok_def blocks_ok_def no_blocked_rel_def rel_between_def
      exists_row_def set_update_rows key_ok_update pair_key_def pair_is_cases split: if_splits)

lemma CreateFriendRequest_inv:
  assumes "friends_inv d" "CreateFriendRequest now i a b d = Inr d'"
    and "\<not> blocks_db a b d" "\<not> blocks_db b a d"
  shows "friends_inv d'"
proof -
  from assms(2) have new: "a \<noteq> b" "\<not> exists_row (\<lambda>r. ur_id r = i) (user_relationships d)"
      "\<not> rel_between a b d" "user_exists a d" "user_exists b d"
    and d': "d' = d\<lparr>user_relationships := user_relationships d @
        [\<lparr>ur_id = i, ur_user_id = a, ur_otherUser_id = b, ur_status = StatusPending,
          ur_created_at = now, ur_updated_at = now\<rparr>]\<rparr>"
    by (auto simp: CreateFriendRequest_def rel_between_def split: if_splits)
  have "rels_ok d'"
    using assms(1) new unfolding d'
    by (auto simp: friends_inv_def rels_ok_def key_ok_snoc rel_between_def exists_row_def
        pair_key_iff pair_key_def [of "\<lparr>ur_id = _, ur_user_id = _, ur_otherUser_id = _,
          ur_status = _, ur_created_at = _, ur_updated_at = _\<rparr>"])
  moreover have "no_blocked_rel d'"
    using assms(1,3,4) unfolding d' no_blocked_rel_iff
    by (auto simp: friends_inv_def no_blocked_rel_iff rel_between_def blocks_db_def pair_is_cases)
  ultimately show ?thesis
    using assms(1) unfolding d' by (auto simp: friends_inv_def blocks_ok_def)
qed

lemma BlockUser_inv:
  assumes "friends_inv d" "BlockUser a b at d = Inr (were, d')"
  shows "friends_inv d'" "blocks_db a b d'" "\<not> rel_between a b d'"
proof -
  let ?rs = "delete_rows (pair_is a b) (user_relationships d)"
  let ?bs = "if exists_row (blocked_row a b) (user_blocks d) then user_blocks d
    else user_blocks d @ [\<lparr>ub_blocker_id = a, ub_blocked_id = b, ub_created_at = at\<rparr>]"
  from assms(2) have ab: "a \<noteq> b"
      "exists_row (blocked_row a b) (user_blocks d) \<or> user_exists a d \<and> user_exists b d"
    and d': "d' = d\<lparr>user_blocks := ?bs, user_relationships := ?rs\<rparr>"
    by (auto simp: BlockUser_def split: if_splits)
  show blocks: "blocks_db a b d'"
    unfolding d' by (auto simp: blocks_db_def blocked_row_def)
  show rel: "\<not> rel_between a b d'"
    unfolding d' by (auto simp: rel_between_def exists_row_def)
  have "rels_ok d'"
    using assms(1) unfolding d'
    by (auto simp: friends_inv_def rels_ok_def intro: key_ok_delete)
  moreover have "blocks_ok d'"
    using assms(1) ab unfolding d'
    by (auto simp: friends_inv_def blocks_ok_def key_ok_snoc blocked_row_def exists_row_def)
  moreover have "no_blocked_rel d'"
    unfolding no_blocked_rel_iff
  proof (intro allI impI)
    fix x y
    assume "blocks_db x y d'"
    then have "blocks_db x y d \<or> x = a \<and> y = b"
      unfolding d' by (auto simp: blocks_db_def blocked_row_def split: if_splits)
    then show "\<not> rel_between x y d'"
    proof
      assume "blocks_db x y d"
      with assms(1) have "\<not> rel_between x y d" by (auto simp: friends_inv_def no_blocked_rel_iff)
      then show ?thesis unfolding d' by (auto simp: rel_between_def exists_row_def)
    qed (use rel in simp)
  qed
  ultimately show "friends_inv d'"
    using assms(1) unfolding d' by (simp add: friends_inv_def)
qed

lemma UnblockUser_inv: "friends_inv d \<Longrightarrow> friends_inv (UnblockUser a b d)"
  by (auto simp: friends_inv_def UnblockUser_def rels_ok_def blocks_ok_def no_blocked_rel_def
      rel_between_def intro: key_ok_delete)

text \<open>Under the invariant a pair has at most one row, so one status.\<close>

lemma pair_row_unique:
  assumes "friends_inv d" "r \<in> set (user_relationships d)" "s \<in> set (user_relationships d)"
    and "pair_is a b r" "pair_is a b s"
  shows "r = s"
  using assms by (auto simp: friends_inv_def rels_ok_def pair_key_iff [symmetric] intro: key_ok_unique)

lemma PairStatus_friends:
  assumes "friends_inv d"
  shows "PairStatus a b d = Inr StatusConfirm \<longleftrightarrow> are_friends_db a b d"
proof
  assume "PairStatus a b d = Inr StatusConfirm"
  then show "are_friends_db a b d"
    by (auto simp: PairStatus_def are_friends_db_def exists_row_def dest!: find_row_Some
        split: option.splits)
next
  assume "are_friends_db a b d"
  then obtain r where r: "r \<in> set (user_relationships d)" "pair_is a b r"
      "ur_status r = StatusConfirm"
    by (auto simp: are_friends_db_def exists_row_def)
  then have "find_row (pair_is a b) (user_relationships d) \<noteq> None"
    by (auto simp: find_row_None exists_row_def)
  then obtain s where s: "find_row (pair_is a b) (user_relationships d) = Some s" by auto
  from pair_row_unique [OF assms r(1)] find_row_Some [OF s] r have "s = r" by blast
  with s r show "PairStatus a b d = Inr StatusConfirm" by (simp add: PairStatus_def)
qed

text \<open>\<open>ListFriends\<close> lists exactly the confirmed friends.\<close>

lemma ListFriends_iff:
  assumes "friends_inv d"
  shows "(\<exists>u \<in> set (ListFriends coll me d). u_id u = b) \<longleftrightarrow> are_friends_db me b d"
proof -
  have ex: "user_exists b d" if "are_friends_db me b d"
    using assms that
    by (auto simp: friends_inv_def rels_ok_def are_friends_db_def exists_row_def pair_is_cases)
  show ?thesis
    using ex by (fastforce simp: ListFriends_def are_friends_db_def pair_is_cases exists_row_def user_exists_def)
qed

end
