(* ===== verification/Auth_DB.thy ===== *)
theory Auth_DB
  imports Chat_DB Groups_DB Friends_DB
begin

text \<open>
  The tables of accounts and sessions and their statements: \<^verbatim>\<open>database/accounts.sql.go\<close>,
  \<^verbatim>\<open>refreshTokens.sql.go\<close>, and the statements on \<open>users\<close> of \<^verbatim>\<open>users.sql.go\<close> and \<^verbatim>\<open>admin.sql.go\<close> that
  sign-in uses. \<open>now\<close> is the database's \<open>NOW()\<close>.
\<close>

section \<open>Tables\<close>

record refresh_token =
  rt_token :: string
  rt_created_at :: time
  rt_updated_at :: time
  rt_user_id :: uuid
  rt_expire_at :: time
  rt_revoked_at :: "time option"

record email_code =
  ec_user_id :: uuid
  ec_purpose :: string
  ec_code_hash :: string
  ec_attempts :: int
  ec_expires_at :: time
  ec_created_at :: time
  ec_new_email :: "string option"

record user_identity =
  ui_provider :: string
  ui_subject :: string
  ui_user_id :: uuid
  ui_email :: string
  ui_created_at :: time

record auth_db =
  ad_db :: db
  refresh_tokens :: "refresh_token list"
  email_codes :: "email_code list"
  user_identities :: "user_identity list"

definition purposeVerify :: string where "purposeVerify = ''verify_email''"
definition purposeReset :: string where "purposeReset = ''reset_password''"
definition purposeAdmin :: string where "purposeAdmin = ''admin_login''"
definition purposeEmail :: string where "purposeEmail = ''change_email''"

lemmas purpose_defs = purposeVerify_def purposeReset_def purposeAdmin_def purposeEmail_def

definition set_users :: "(user list \<Rightarrow> user list) \<Rightarrow> auth_db \<Rightarrow> auth_db" where
  "set_users f d = d\<lparr>ad_db := (ad_db d)\<lparr>users := f (users (ad_db d))\<rparr>\<rparr>"

definition set_user :: "uuid \<Rightarrow> (user \<Rightarrow> user) \<Rightarrow> auth_db \<Rightarrow> auth_db" where
  "set_user i f = set_users (update_rows (\<lambda>u. u_id u = i) f)"

section \<open>Users\<close>

definition GetUserInfoByEmail :: "string \<Rightarrow> auth_db \<Rightarrow> dberr + user" where
  "GetUserInfoByEmail email d =
     (if \<not> text_ok email then Inl DataException else one_row (find_row (\<lambda>u. u_email u = email) (users (ad_db d))))"

definition GetUserInfoByID :: "uuid \<Rightarrow> auth_db \<Rightarrow> dberr + user" where
  "GetUserInfoByID i d = one_row (find_user i (ad_db d))"

text \<open>The \<open>CHECK\<close> on \<open>users.name\<close>; the unique indexes are tried in the order they were created.\<close>

definition username_char :: "char \<Rightarrow> bool" where
  "username_char c \<longleftrightarrow> c \<in> set ''abcdefghijklmnopqrstuvwxyz0123456789_.''"

definition username_format :: "string \<Rightarrow> bool" where
  "username_format s \<longleftrightarrow> 3 \<le> length s \<and> length s \<le> 25 \<and> (\<forall>c \<in> set s. username_char c)"

definition insert_user :: "user \<Rightarrow> auth_db \<Rightarrow> dberr + user \<times> auth_db" where
  "insert_user u d =
     (if \<not> (varchar_ok 25 (u_name u) \<and> varchar_ok 125 (u_email u) \<and> varchar_ok 50 (u_display_name u)) then Inl DataException
      else if \<not> username_format (u_name u) then Inl CheckViolation
      else if user_exists (u_id u) (ad_db d) then Inl (UniqueViolation ''users_pkey'')
      else if exists_row (\<lambda>v. u_email v = u_email u) (users (ad_db d)) then Inl (UniqueViolation ''users_email_key'')
      else if exists_row (\<lambda>v. u_name v = u_name u) (users (ad_db d)) then Inl (UniqueViolation ''users_name_key'')
      else Inr (u, set_users (\<lambda>rows. rows @ [u]) d))"

definition fresh_user :: "time \<Rightarrow> uuid \<Rightarrow> string \<Rightarrow> string \<Rightarrow> string option \<Rightarrow> string \<Rightarrow> time option \<Rightarrow> user" where
  "fresh_user now i name email password display verified = \<lparr>u_id = i, u_created_at = now, u_updated_at = now,
     u_email = email, u_password = password, u_name = name, u_email_verified_at = verified, u_bio = [],
     u_name_changed_at = None, u_avatar_at = None, u_location_id = None, u_location_country = [],
     u_discoverable = False, u_is_admin = False, u_banned_at = None, u_banned_until = None, u_ban_reason = None,
     u_last_seen_at = None, u_display_name = display, u_hide_last_seen = False\<rparr>"

definition CreateUser :: "time \<Rightarrow> uuid \<Rightarrow> string \<Rightarrow> string \<Rightarrow> string option \<Rightarrow> string \<Rightarrow> auth_db \<Rightarrow> dberr + user \<times> auth_db" where
  "CreateUser now i name email password display =
     insert_user (fresh_user now i name email password display None)"

definition CreateUserVerifiedNoPassword :: "time \<Rightarrow> uuid \<Rightarrow> string \<Rightarrow> string \<Rightarrow> string \<Rightarrow> auth_db \<Rightarrow> dberr + user \<times> auth_db" where
  "CreateUserVerifiedNoPassword now i name email display =
     insert_user (fresh_user now i name email None display (Some now))"

definition MarkEmailVerified :: "time \<Rightarrow> uuid \<Rightarrow> auth_db \<Rightarrow> auth_db" where
  "MarkEmailVerified now i = set_user i (\<lambda>u. u\<lparr>u_email_verified_at :=
     (case u_email_verified_at u of None \<Rightarrow> Some now | Some t \<Rightarrow> Some t), u_updated_at := now\<rparr>)"

definition SetPasswordHash :: "time \<Rightarrow> uuid \<Rightarrow> string option \<Rightarrow> auth_db \<Rightarrow> auth_db" where
  "SetPasswordHash now i hash = set_user i (\<lambda>u. u\<lparr>u_password := hash, u_updated_at := now\<rparr>)"

definition UpdatePassword_sql :: "time \<Rightarrow> uuid \<Rightarrow> string \<Rightarrow> auth_db \<Rightarrow> auth_db" where
  "UpdatePassword_sql now i hash = set_user i (\<lambda>u. u\<lparr>u_password := Some hash, u_updated_at := now\<rparr>)"

definition ChangeEmail_sql :: "time \<Rightarrow> string \<Rightarrow> uuid \<Rightarrow> auth_db \<Rightarrow> dberr + auth_db" where
  "ChangeEmail_sql now email i d =
     (if \<not> user_exists i (ad_db d) then Inr d
      else if \<not> varchar_ok 125 email then Inl DataException
      else if exists_row (\<lambda>u. u_email u = email \<and> u_id u \<noteq> i) (users (ad_db d)) then Inl (UniqueViolation ''users_email_key'')
      else Inr (set_user i (\<lambda>u. u\<lparr>u_email := email, u_email_verified_at := Some now, u_updated_at := now\<rparr>) d))"

definition UserBan :: "uuid \<Rightarrow> auth_db \<Rightarrow> dberr + time option \<times> time option" where
  "UserBan i d = (case find_user i (ad_db d) of None \<Rightarrow> Inl NoRows | Some u \<Rightarrow> Inr (u_banned_at u, u_banned_until u))"

definition TouchLastSeen :: "time \<Rightarrow> uuid \<Rightarrow> auth_db \<Rightarrow> auth_db" where
  "TouchLastSeen at i = set_user i (\<lambda>u. u\<lparr>u_last_seen_at := Some at\<rparr>)"

section \<open>Refresh tokens\<close>

definition GetRefreshToken :: "string \<Rightarrow> auth_db \<Rightarrow> dberr + refresh_token" where
  "GetRefreshToken h d = one_row (find_row (\<lambda>r. rt_token r = h \<and> rt_revoked_at r = None) (refresh_tokens d))"

definition CreateARefreshToken :: "time \<Rightarrow> string \<Rightarrow> uuid \<Rightarrow> time \<Rightarrow> auth_db \<Rightarrow> dberr + auth_db" where
  "CreateARefreshToken now h u expire d =
     (if exists_row (\<lambda>r. rt_token r = h) (refresh_tokens d) then Inl (UniqueViolation ''refresh_tokens_pkey'')
      else if \<not> user_exists u (ad_db d) then Inl ForeignKeyViolation
      else Inr (d\<lparr>refresh_tokens := refresh_tokens d @ [\<lparr>rt_token = h, rt_created_at = now, rt_updated_at = now,
        rt_user_id = u, rt_expire_at = expire, rt_revoked_at = None\<rparr>]\<rparr>))"

definition revoke_rows :: "time \<Rightarrow> (refresh_token \<Rightarrow> bool) \<Rightarrow> auth_db \<Rightarrow> auth_db" where
  "revoke_rows now p d = d\<lparr>refresh_tokens := update_rows (\<lambda>r. p r \<and> rt_revoked_at r = None)
     (\<lambda>r. r\<lparr>rt_revoked_at := Some now, rt_updated_at := now\<rparr>) (refresh_tokens d)\<rparr>"

definition RevokeRefreshToken :: "time \<Rightarrow> string \<Rightarrow> auth_db \<Rightarrow> auth_db" where
  "RevokeRefreshToken now h = revoke_rows now (\<lambda>r. rt_token r = h)"

definition RevokeAllUserRefreshTokens :: "time \<Rightarrow> uuid \<Rightarrow> auth_db \<Rightarrow> auth_db" where
  "RevokeAllUserRefreshTokens now u = revoke_rows now (\<lambda>r. rt_user_id r = u)"

definition DeleteStaleRefreshTokens :: "time \<Rightarrow> time \<Rightarrow> auth_db \<Rightarrow> nat \<times> auth_db" where
  "DeleteStaleRefreshTokens now revokedBefore d =
     (let stale = (\<lambda>r. rt_expire_at r < now \<or> (case rt_revoked_at r of None \<Rightarrow> False | Some t \<Rightarrow> t < revokedBefore)) in
      (length (filter stale (refresh_tokens d)), d\<lparr>refresh_tokens := delete_rows stale (refresh_tokens d)\<rparr>))"

section \<open>Codes sent by mail\<close>

definition code_for :: "uuid \<Rightarrow> string \<Rightarrow> email_code \<Rightarrow> bool" where
  "code_for u purpose c \<longleftrightarrow> ec_user_id c = u \<and> ec_purpose c = purpose"

definition GetEmailCode :: "uuid \<Rightarrow> string \<Rightarrow> auth_db \<Rightarrow> dberr + email_code" where
  "GetEmailCode u purpose d = one_row (find_row (code_for u purpose) (email_codes d))"

definition put_code :: "email_code \<Rightarrow> (email_code \<Rightarrow> email_code) \<Rightarrow> auth_db \<Rightarrow> dberr + auth_db" where
  "put_code c upd d =
     (if exists_row (code_for (ec_user_id c) (ec_purpose c)) (email_codes d)
      then Inr (d\<lparr>email_codes := update_rows (code_for (ec_user_id c) (ec_purpose c)) upd (email_codes d)\<rparr>)
      else if \<not> user_exists (ec_user_id c) (ad_db d) then Inl ForeignKeyViolation
      else Inr (d\<lparr>email_codes := email_codes d @ [c]\<rparr>))"

text \<open>The update leaves \<open>new_email\<close> as it was; only codes of \<^verbatim>\<open>change_email\<close> have one.\<close>

definition UpsertEmailCode :: "uuid \<Rightarrow> string \<Rightarrow> string \<Rightarrow> time \<Rightarrow> time \<Rightarrow> auth_db \<Rightarrow> dberr + auth_db" where
  "UpsertEmailCode u purpose hash expires created =
     put_code \<lparr>ec_user_id = u, ec_purpose = purpose, ec_code_hash = hash, ec_attempts = 0, ec_expires_at = expires,
         ec_created_at = created, ec_new_email = None\<rparr>
       (\<lambda>c. c\<lparr>ec_code_hash := hash, ec_attempts := 0, ec_expires_at := expires, ec_created_at := created\<rparr>)"

definition UpsertEmailChangeCode :: "uuid \<Rightarrow> string \<Rightarrow> string \<Rightarrow> time \<Rightarrow> time \<Rightarrow> auth_db \<Rightarrow> dberr + auth_db" where
  "UpsertEmailChangeCode u hash newEmail expires created =
     put_code \<lparr>ec_user_id = u, ec_purpose = purposeEmail, ec_code_hash = hash, ec_attempts = 0, ec_expires_at = expires,
         ec_created_at = created, ec_new_email = Some newEmail\<rparr>
       (\<lambda>c. c\<lparr>ec_code_hash := hash, ec_attempts := 0, ec_expires_at := expires, ec_created_at := created,
         ec_new_email := Some newEmail\<rparr>)"

definition BumpEmailCodeAttempts :: "uuid \<Rightarrow> string \<Rightarrow> auth_db \<Rightarrow> dberr + int \<times> auth_db" where
  "BumpEmailCodeAttempts u purpose d =
     (case find_row (code_for u purpose) (email_codes d) of
        None \<Rightarrow> Inl NoRows
      | Some c \<Rightarrow> Inr (ec_attempts c + 1,
          d\<lparr>email_codes := update_rows (code_for u purpose) (\<lambda>c. c\<lparr>ec_attempts := ec_attempts c + 1\<rparr>) (email_codes d)\<rparr>))"

definition DeleteEmailCode :: "uuid \<Rightarrow> string \<Rightarrow> auth_db \<Rightarrow> auth_db" where
  "DeleteEmailCode u purpose d = d\<lparr>email_codes := delete_rows (code_for u purpose) (email_codes d)\<rparr>"

definition DeleteExpiredEmailCodes :: "time \<Rightarrow> auth_db \<Rightarrow> nat \<times> auth_db" where
  "DeleteExpiredEmailCodes now d =
     (length (filter (\<lambda>c. ec_expires_at c < now) (email_codes d)),
      d\<lparr>email_codes := delete_rows (\<lambda>c. ec_expires_at c < now) (email_codes d)\<rparr>)"

section \<open>Identities\<close>

definition GetIdentity :: "string \<Rightarrow> string \<Rightarrow> auth_db \<Rightarrow> dberr + user_identity" where
  "GetIdentity provider subject d =
     one_row (find_row (\<lambda>i. ui_provider i = provider \<and> ui_subject i = subject) (user_identities d))"

definition CreateIdentity :: "time \<Rightarrow> string \<Rightarrow> string \<Rightarrow> uuid \<Rightarrow> string \<Rightarrow> auth_db \<Rightarrow> dberr + auth_db" where
  "CreateIdentity now provider subject u email d =
     (if exists_row (\<lambda>i. ui_provider i = provider \<and> ui_subject i = subject) (user_identities d)
        then Inl (UniqueViolation ''user_identities_pkey'')
      else if \<not> user_exists u (ad_db d) then Inl ForeignKeyViolation
      else Inr (d\<lparr>user_identities := user_identities d @ [\<lparr>ui_provider = provider, ui_subject = subject, ui_user_id = u,
        ui_email = email, ui_created_at = now\<rparr>]\<rparr>))"

section \<open>Deleting an account\<close>

definition FriendIDsOf :: "uuid \<Rightarrow> auth_db \<Rightarrow> uuid list" where
  "FriendIDsOf u d = map (\<lambda>r. if ur_user_id r = u then ur_otherUser_id r else ur_user_id r)
     (filter (\<lambda>r. ur_user_id r = u \<or> ur_otherUser_id r = u) (user_relationships (ad_db d)))"

definition GroupsOfUser :: "uuid \<Rightarrow> auth_db \<Rightarrow> uuid list" where
  "GroupsOfUser u d = map mt_group_id (filter (\<lambda>m. mt_member_id m = u) (member_table (ad_db d)))"

definition GroupsLedBy :: "uuid \<Rightarrow> auth_db \<Rightarrow> uuid list" where
  "GroupsLedBy u d = map mt_group_id (filter (\<lambda>m. mt_member_id m = u \<and> mt_role m = RoleAdmin) (member_table (ad_db d)))"

text \<open>The same order as \<^verbatim>\<open>NextAdmin\<close>: moderators first, then who joined first.\<close>

definition EarliestOtherMember :: "uuid \<Rightarrow> uuid \<Rightarrow> auth_db \<Rightarrow> dberr + uuid" where
  "EarliestOtherMember gid u d = NextAdmin gid u (ad_db d)"

definition PromoteToLeader :: "uuid \<Rightarrow> uuid \<Rightarrow> db \<Rightarrow> db" where
  "PromoteToLeader gid u d = d\<lparr>member_table := update_rows (is_member_row gid u)
     (\<lambda>m. m\<lparr>mt_role := RoleAdmin, mt_permissions := []\<rparr>) (member_table d)\<rparr>"

definition RecountGroupMembers :: "time \<Rightarrow> uuid \<Rightarrow> db \<Rightarrow> db" where
  "RecountGroupMembers now gid d = d\<lparr>chat_groups := update_rows (\<lambda>g. g_id g = gid)
     (\<lambda>g. g\<lparr>g_current_member := int (length (members_of gid d)), g_updated_at := now\<rparr>) (chat_groups d)\<rparr>"

text \<open>
  \<open>DELETE FROM users\<close> with what the foreign keys say: rows that belong to the user go, messages and
  calls lose the reference.
\<close>

definition null_if :: "uuid \<Rightarrow> uuid option \<Rightarrow> uuid option" where
  "null_if u x = (if x = Some u then None else x)"

definition cascade_user :: "uuid \<Rightarrow> db \<Rightarrow> db" where
  "cascade_user u d = d\<lparr>
     users := delete_rows (\<lambda>r. u_id r = u) (users d),
     user_relationships := delete_rows (\<lambda>r. ur_user_id r = u \<or> ur_otherUser_id r = u) (user_relationships d),
     user_blocks := delete_rows (\<lambda>r. ub_blocker_id r = u \<or> ub_blocked_id r = u) (user_blocks d),
     member_table := delete_rows (\<lambda>r. mt_member_id r = u) (member_table d),
     message := map (\<lambda>m. m\<lparr>m_from_id := null_if u (m_from_id m), m_to_id := null_if u (m_to_id m)\<rparr>) (message d),
     groupmessage := map (\<lambda>m. m\<lparr>gm_from_id := null_if u (gm_from_id m)\<rparr>) (groupmessage d),
     message_reactions := delete_rows (\<lambda>r. re_user_id r = u) (message_reactions d),
     group_message_reactions := delete_rows (\<lambda>r. re_user_id r = u) (group_message_reactions d),
     group_reads := delete_rows (\<lambda>r. grd_user_id r = u) (group_reads d),
     seen_messages := delete_rows (\<lambda>r. sm_seen_id r = u) (seen_messages d),
     calls_table := map (\<lambda>c. c\<lparr>cl_caller_id := null_if u (cl_caller_id c), cl_callee_id := null_if u (cl_callee_id c)\<rparr>)
       (calls_table d)\<rparr>"

definition DeleteUserByID :: "uuid \<Rightarrow> auth_db \<Rightarrow> auth_db" where
  "DeleteUserByID u d = d\<lparr>ad_db := cascade_user u (ad_db d),
     refresh_tokens := delete_rows (\<lambda>r. rt_user_id r = u) (refresh_tokens d),
     email_codes := delete_rows (\<lambda>c. ec_user_id c = u) (email_codes d),
     user_identities := delete_rows (\<lambda>i. ui_user_id i = u) (user_identities d)\<rparr>"

end
