(* ===== verification/Versioned.thy ===== *)
theory Versioned
  imports Prelude
begin

text \<open>
  \<^verbatim>\<open>internal/platform/redisx/versioned.go\<close>: the cache of one JSON value per key next to
  a version counter, which friends and groups put in front of Postgres. The first part
  models each method as one atomic operation on the Redis state, with the interface the
  services use stated as the locale \<open>read_through\<close>. The second part interleaves the
  individual Redis and Postgres accesses of many readers and writers of one key.
\<close>

section \<open>The methods\<close>

record ('k, 'v) vcache =
  vc_val :: "'k \<Rightarrow> 'v option"   \<comment> \<open>\<open>{prefix}{id}\<close>\<close>
  vc_ver :: "'k \<Rightarrow> int option"  \<comment> \<open>\<open>{prefix}{id}:ver\<close>\<close>

definition empty_vcache :: "('k, 'v) vcache" where
  "empty_vcache = \<lparr>vc_val = (\<lambda>_. None), vc_ver = (\<lambda>_. None)\<rparr>"

text \<open>The Redis calls of one operation, each of which may fail.\<close>

datatype cache_call = CGet | CVersion | CPut | CInvalidate

definition VGet :: "('k, 'v) vcache \<Rightarrow> 'k \<Rightarrow> 'v option" where
  "VGet c k = vc_val c k"

definition VVersion :: "('k, 'v) vcache \<Rightarrow> 'k \<Rightarrow> int" where
  "VVersion c k = (case vc_ver c k of None \<Rightarrow> 0 | Some n \<Rightarrow> n)"

text \<open>
  \<^verbatim>\<open>Put\<close> runs under \<^verbatim>\<open>WATCH\<close> of the version key: if the version moved before the
  transaction executes, it fails and the value is not stored, so reading the version
  and storing the value are one atomic step.
\<close>

definition VPut :: "'k \<Rightarrow> int \<Rightarrow> 'v \<Rightarrow> ('k, 'v) vcache \<Rightarrow> ('k, 'v) vcache" where
  "VPut k version val c =
     (if VVersion c k \<noteq> version then c
      else c\<lparr>vc_val := (vc_val c)(k := Some val)\<rparr>)"

fun VInvalidate :: "'k list \<Rightarrow> ('k, 'v) vcache \<Rightarrow> ('k, 'v) vcache" where
  "VInvalidate [] c = c"
| "VInvalidate (k # ks) c =
     VInvalidate ks
       (c\<lparr>vc_ver := (vc_ver c)(k := Some (VVersion c k + 1)),
          vc_val := (vc_val c)(k := None)\<rparr>)"

text \<open>\<open>load\<close> is the result of the callback, run at the moment \<^verbatim>\<open>Load\<close> misses.\<close>

definition VLoad ::
  "(cache_call \<Rightarrow> bool) \<Rightarrow> 'k \<Rightarrow> 'e + 'v \<Rightarrow> ('k, 'v) vcache \<Rightarrow> ('e + 'v) \<times> ('k, 'v) vcache" where
  "VLoad flt k load c =
     (case (if flt CGet then None else VGet c k) of
        Some val \<Rightarrow> (Inr val, c)
      | None \<Rightarrow>
          (let version = VVersion c k in
           case load of
             Inl e \<Rightarrow> (Inl e, c)
           | Inr val \<Rightarrow>
               if flt CVersion then (Inr val, c)
               else if flt CPut then (Inr val, c)
               else (Inr val, VPut k version val c)))"

text \<open>A failing \<^verbatim>\<open>Invalidate\<close> pipeline leaves every key as it was.\<close>

definition VInvalidate_flt ::
  "(cache_call \<Rightarrow> bool) \<Rightarrow> 'k list \<Rightarrow> ('k, 'v) vcache \<Rightarrow> ('k, 'v) vcache" where
  "VInvalidate_flt flt ks c = (if flt CInvalidate then c else VInvalidate ks c)"

section \<open>The interface the services rely on\<close>

text \<open>
  \<open>coh src c\<close>: whatever the cache holds is what the source of truth would return now.
  The laws: a coherent cache answers as the source does, stays coherent, and is
  coherent with a changed source once the changed keys are invalidated.
\<close>

locale read_through =
  fixes load :: "'k \<Rightarrow> 'e + 'v \<Rightarrow> 'c \<Rightarrow> ('e + 'v) \<times> 'c"
    and invalidate :: "'k list \<Rightarrow> 'c \<Rightarrow> 'c"
    and coh :: "('k \<Rightarrow> 'e + 'v) \<Rightarrow> 'c \<Rightarrow> bool"
  assumes load_value: "coh src c \<Longrightarrow> fst (load k (src k) c) = src k"
    and load_coh: "coh src c \<Longrightarrow> coh src (snd (load k (src k) c))"
    and invalidate_coh: "coh src c \<Longrightarrow> \<forall>k. k \<notin> set ks \<longrightarrow> src' k = src k \<Longrightarrow>
      coh src' (invalidate ks c)"
    and load_fail: "coh src c \<Longrightarrow> load k (Inl e) c = (r, c') \<Longrightarrow>
      (r = Inl e \<or> r = src k) \<and> coh src c'"
begin

lemma load_coherent:
  "coh src c \<Longrightarrow> load k (src k) c = (r, c') \<Longrightarrow> r = src k \<and> coh src c'"
  using load_value [of src c k] load_coh [of src c k] by simp

lemma load_any:
  assumes "coh src c" "load k l c = (r, c')" "l = src k \<or> (\<exists>e. l = Inl e)"
  shows "(\<exists>e. r = Inl e \<and> l = Inl e) \<or> r = src k" "coh src c'"
proof -
  from assms(3) have "((\<exists>e. r = Inl e \<and> l = Inl e) \<or> r = src k) \<and> coh src c'"
  proof
    assume "l = src k"
    with assms(1,2) load_coherent show ?thesis by blast
  next
    assume "\<exists>e. l = Inl e"
    with assms(1,2) load_fail show ?thesis by blast
  qed
  then show "(\<exists>e. r = Inl e \<and> l = Inl e) \<or> r = src k" "coh src c'" by auto
qed

lemma unchanged_coh: "coh src c \<Longrightarrow> \<forall>k. src' k = src k \<Longrightarrow> coh src' c"
proof -
  assume "coh src c" and eq: "\<forall>k. src' k = src k"
  moreover have "src' = src" using eq by (simp add: fun_eq_iff)
  ultimately show ?thesis by simp
qed

end

definition vc_coherent :: "('k \<Rightarrow> 'e + 'v) \<Rightarrow> ('k, 'v) vcache \<Rightarrow> bool" where
  "vc_coherent src c \<longleftrightarrow> (\<forall>k v. vc_val c k = Some v \<longrightarrow> src k = Inr v)"

lemma vc_coherent_empty [simp]: "vc_coherent src empty_vcache"
  by (simp add: vc_coherent_def empty_vcache_def)

lemma VInvalidate_val:
  "vc_val (VInvalidate ks c) k = (if k \<in> set ks then None else vc_val c k)"
  by (induction ks arbitrary: c) auto

lemma VInvalidate_ver_mono: "VVersion c k \<le> VVersion (VInvalidate ks c) k"
proof (induction ks arbitrary: c)
  case (Cons x xs)
  let ?c = "c\<lparr>vc_ver := (vc_ver c)(x := Some (VVersion c x + 1)), vc_val := (vc_val c)(x := None)\<rparr>"
  have "VVersion c k \<le> VVersion ?c k" by (simp add: VVersion_def)
  also have "\<dots> \<le> VVersion (VInvalidate xs ?c) k" by (rule Cons.IH)
  finally show ?case by simp
qed simp

lemma VInvalidate_ver_less:
  assumes "k \<in> set ks"
  shows "VVersion c k < VVersion (VInvalidate ks c) k"
  using assms
proof (induction ks arbitrary: c)
  case (Cons x xs)
  let ?c = "c\<lparr>vc_ver := (vc_ver c)(x := Some (VVersion c x + 1)), vc_val := (vc_val c)(x := None)\<rparr>"
  show ?case
  proof (cases "k = x")
    case True
    then have "VVersion c k < VVersion ?c k" by (simp add: VVersion_def)
    also have "\<dots> \<le> VVersion (VInvalidate xs ?c) k" by (rule VInvalidate_ver_mono)
    finally show ?thesis by simp
  next
    case False
    with Cons.prems have "k \<in> set xs" by simp
    with False Cons.IH [of ?c] show ?thesis by (simp add: VVersion_def)
  qed
qed simp

text \<open>
  The code's cache implements the interface, whichever of its reads and stores fail.
  Only a failing invalidation breaks it (the services log it and rely on the TTL).
\<close>

interpretation vc: read_through "VLoad flt" VInvalidate vc_coherent for flt
proof (unfold_locales, goal_cases)
  case (1 src c k)
  then show ?case
    by (auto simp: VLoad_def VGet_def vc_coherent_def split: option.splits sum.splits)
next
  case (2 src c k)
  then show ?case
    by (auto simp: VLoad_def VGet_def VPut_def vc_coherent_def split: option.splits sum.splits)
next
  case (3 src c ks src')
  then show ?case by (auto simp: vc_coherent_def VInvalidate_val split: if_splits)
next
  case (4 src c k e r c')
  then show ?case
    by (auto simp: VLoad_def VGet_def vc_coherent_def Let_def split: option.splits if_splits)
qed

text \<open>
  Whatever writers do, a cache value is stored only if the version is the one the
  reader saw before loading, so a write that invalidates between a reader's
  \<^verbatim>\<open>Version\<close> and its \<^verbatim>\<open>Put\<close> makes the \<^verbatim>\<open>Put\<close> a no-op.
\<close>

theorem put_after_invalidate_skipped:
  assumes "k \<in> set ks"
  shows "VPut k (VVersion c k) old (VInvalidate ks c) = VInvalidate ks c"
  using VInvalidate_ver_less [OF assms, of c] by (simp add: VPut_def)

theorem put_after_invalidate_skipped_witness:
  "VPut (1::nat) (VVersion (empty_vcache :: (nat, nat) vcache) 1) (7::nat) (VInvalidate [1, 2] empty_vcache)
     = VInvalidate [1, 2] empty_vcache"
  by (rule put_after_invalidate_skipped) simp

section \<open>Readers and writers interleaved\<close>

text \<open>
  Any number of readers (calls of \<^verbatim>\<open>Load\<close>, numbered) and writers, whose accesses to Redis and
  Postgres come in any order and may fail. A reader that missed reads the version, loads from
  Postgres and calls \<^verbatim>\<open>Put\<close>, in separate steps; a version that could not be read is \<^const>\<open>None\<close>.
  A writer commits to Postgres and later calls \<^verbatim>\<open>Invalidate\<close> for the keys it changed; \<open>pending\<close> holds
  the keys of each commit whose invalidation has not run yet or failed. Redis drops the value or the
  version key when its TTL is over; \<^verbatim>\<open>Invalidate\<close> restarts the TTL of the version key, so that key
  expires \<open>ttl\<close> after the last invalidation.
\<close>

datatype ('k, 'v) reader =
    Idle
  | Missed 'k
  | HasVersion 'k "int option"
  | HasValue 'k "int option" 'v

record ('k, 'v) vsys =
  pg :: "'k \<Rightarrow> 'v"
  vc :: "('k, 'v) vcache"
  version_exp :: "'k \<Rightarrow> time"
  clock :: time
  pending :: "'k list list"
  readers :: "nat \<Rightarrow> ('k, 'v) reader"

text \<open>The flag of a step: whether the access fails.\<close>

datatype ('k, 'v) vaction =
    ReadCache nat 'k bool
  | ReadVersion nat bool
  | LoadPg nat bool
  | PutCache nat bool
  | Commit "('k \<times> 'v) list"
  | Invalidate nat bool
  | ExpireValue 'k
  | ExpireVersion 'k
  | Tick nat

definition set_reader :: "nat \<Rightarrow> ('k, 'v) reader \<Rightarrow> ('k, 'v) vsys \<Rightarrow> ('k, 'v) vsys" where
  "set_reader r rd s = s\<lparr>readers := (readers s)(r := rd)\<rparr>"

fun vstep :: "duration \<Rightarrow> ('k, 'v) vaction \<Rightarrow> ('k, 'v) vsys \<Rightarrow> ('k, 'v) vsys option" where
  "vstep ttl (ReadCache r k flt) s =
     (if readers s r \<noteq> Idle then None
      else Some (if (if flt then None else VGet (vc s) k) = None then set_reader r (Missed k) s else s))"
| "vstep ttl (ReadVersion r flt) s =
     (case readers s r of
        Missed k \<Rightarrow> Some (set_reader r (HasVersion k (if flt then None else Some (VVersion (vc s) k))) s)
      | _ \<Rightarrow> None)"
| "vstep ttl (LoadPg r flt) s =
     (case readers s r of
        HasVersion k v \<Rightarrow> Some (set_reader r (if flt then Idle else HasValue k v (pg s k)) s)
      | _ \<Rightarrow> None)"
| "vstep ttl (PutCache r flt) s =
     (case readers s r of
        HasValue k v x \<Rightarrow>
          Some (set_reader r Idle
            (s\<lparr>vc := (case v of None \<Rightarrow> vc s | Some n \<Rightarrow> if flt then vc s else VPut k n x (vc s))\<rparr>))
      | _ \<Rightarrow> None)"
| "vstep ttl (Commit ws) s =
     Some (s\<lparr>pg := (\<lambda>k. case map_of ws k of None \<Rightarrow> pg s k | Some x \<Rightarrow> x), pending := map fst ws # pending s\<rparr>)"
| "vstep ttl (Invalidate i flt) s =
     (if i < length (pending s)
      then Some (s\<lparr>vc := VInvalidate_flt (\<lambda>_. flt) (pending s ! i) (vc s),
                   version_exp := (\<lambda>k. if k \<in> set (pending s ! i) \<and> \<not> flt then clock s + ttl else version_exp s k),
                   pending := (if flt then pending s else take i (pending s) @ drop (Suc i) (pending s))\<rparr>)
      else None)"
| "vstep ttl (ExpireValue k) s = Some (s\<lparr>vc := (vc s)\<lparr>vc_val := (vc_val (vc s))(k := None)\<rparr>\<rparr>)"
| "vstep ttl (ExpireVersion k) s =
     (if vc_ver (vc s) k \<noteq> None \<and> version_exp s k \<le> clock s
      then Some (s\<lparr>vc := (vc s)\<lparr>vc_ver := (vc_ver (vc s))(k := None)\<rparr>\<rparr>) else None)"
| "vstep ttl (Tick d) s = Some (s\<lparr>clock := clock s + int d\<rparr>)"

fun vrun :: "duration \<Rightarrow> ('k, 'v) vaction list \<Rightarrow> ('k, 'v) vsys \<Rightarrow> ('k, 'v) vsys option" where
  "vrun ttl [] s = Some s"
| "vrun ttl (a # as) s = (case vstep ttl a s of None \<Rightarrow> None | Some s' \<Rightarrow> vrun ttl as s')"

definition vinit :: "('k \<Rightarrow> 'v) \<Rightarrow> ('k, 'v) vsys" where
  "vinit x = \<lparr>pg = x, vc = empty_vcache, version_exp = (\<lambda>_. 0), clock = 0, pending = [], readers = (\<lambda>_. Idle)\<rparr>"

text \<open>The steps of a reader that nothing comes between are \<^verbatim>\<open>Load\<close>, whatever fails.\<close>

lemma VLoad_steps:
  assumes "readers s r = Idle" "(if flt CGet then None else VGet (vc s) k) = None"
  shows "vrun ttl [ReadCache r k (flt CGet), ReadVersion r (flt CVersion), LoadPg r False, PutCache r (flt CPut)] s =
    Some (s\<lparr>vc := snd (VLoad flt k (Inr (pg s k) :: 'e + 'v) (vc s))\<rparr>)"
proof -
  have "(readers s)(r := Idle) = readers s" using assms(1) by (simp add: fun_upd_idem)
  with assms show ?thesis by (auto simp: set_reader_def VLoad_def Let_def)
qed

text \<open>
  The condition under which the counter protects the cache: the version key does not
  expire while a reader of it is between its \<^verbatim>\<open>Version\<close> and its \<^verbatim>\<open>Put\<close>.
\<close>

definition quiet :: "'k \<Rightarrow> ('k, 'v) vsys \<Rightarrow> bool" where
  "quiet k s \<longleftrightarrow> (\<forall>r. case readers s r of HasVersion k' _ \<Rightarrow> k' \<noteq> k | HasValue k' _ _ \<Rightarrow> k' \<noteq> k | _ \<Rightarrow> True)"

fun no_expiry_during_read :: "duration \<Rightarrow> ('k, 'v) vaction list \<Rightarrow> ('k, 'v) vsys \<Rightarrow> bool" where
  "no_expiry_during_read ttl [] s = True"
| "no_expiry_during_read ttl (a # as) s =
     ((case a of ExpireVersion k \<Rightarrow> quiet k s | _ \<Rightarrow> True) \<and>
      (case vstep ttl a s of None \<Rightarrow> True | Some s' \<Rightarrow> no_expiry_during_read ttl as s'))"

text \<open>
  The invariant: the cached value is the current one unless an invalidation is still to
  come, and so is the value of every reader whose version is still the current one; no
  reader has a version from the future.
\<close>

definition caught_up :: "'k \<Rightarrow> ('k, 'v) vsys \<Rightarrow> bool" where
  "caught_up k s \<longleftrightarrow> (\<forall>ks \<in> set (pending s). k \<notin> set ks)"

definition reader_ok :: "('k, 'v) vsys \<Rightarrow> ('k, 'v) reader \<Rightarrow> bool" where
  "reader_ok s rd = (case rd of
       HasVersion k (Some n) \<Rightarrow> n \<le> VVersion (vc s) k
     | HasValue k (Some n) x \<Rightarrow> n \<le> VVersion (vc s) k \<and> (n = VVersion (vc s) k \<and> caught_up k s \<longrightarrow> x = pg s k)
     | _ \<Rightarrow> True)"

definition vinv :: "('k, 'v) vsys \<Rightarrow> bool" where
  "vinv s \<longleftrightarrow> (\<forall>k. caught_up k s \<longrightarrow> VGet (vc s) k = None \<or> VGet (vc s) k = Some (pg s k)) \<and> (\<forall>r. reader_ok s (readers s r))"

lemma reader_ok_simps [simp]:
  "reader_ok s Idle"
  "reader_ok s (Missed k)"
  "reader_ok s (HasVersion k None)"
  "reader_ok s (HasValue k None x)"
  "reader_ok s (HasVersion k (Some n)) \<longleftrightarrow> n \<le> VVersion (vc s) k"
  "reader_ok s (HasValue k (Some n) x) \<longleftrightarrow>
     n \<le> VVersion (vc s) k \<and> (n = VVersion (vc s) k \<and> caught_up k s \<longrightarrow> x = pg s k)"
  by (simp_all add: reader_ok_def)

lemma reader_cases [case_names Idle Missed NoVersion Version NoCache Value]:
  obtains "rd = Idle" | k where "rd = Missed k" | k where "rd = HasVersion k None" | k n where "rd = HasVersion k (Some n)"
    | k x where "rd = HasValue k None x" | k n x where "rd = HasValue k (Some n) x"
  by (cases rd) (metis option.exhaust)+

lemma vinv_init: "vinv (vinit x)"
  by (simp add: vinv_def vinit_def VGet_def empty_vcache_def)

text \<open>
  A step keeps a reader that it does not touch if it leaves the version of its key alone, and settles
  or changes nothing there, or moves the version.
\<close>

lemma reader_ok_mono:
  assumes "reader_ok s rd"
    and "\<And>k. VVersion (vc s) k < VVersion (vc t) k \<or> VVersion (vc t) k = VVersion (vc s) k \<and> (caught_up k t \<longrightarrow> caught_up k s \<and> pg t k = pg s k)"
  shows "reader_ok t rd"
proof (cases rd rule: reader_cases)
  case (Version k n)
  then show ?thesis using assms(1) assms(2) [of k] by auto
next
  case (Value k n x)
  then show ?thesis using assms(1) assms(2) [of k] by auto
qed (use assms in auto)

lemma vinv_set_reader: "vinv s \<Longrightarrow> reader_ok s rd \<Longrightarrow> vinv (set_reader r rd s)"
proof -
  assume s: "vinv s" "reader_ok s rd"
  have "reader_ok s x \<Longrightarrow> reader_ok (set_reader r rd s) x" for x
    by (erule reader_ok_mono) (simp add: set_reader_def caught_up_def)
  with s show ?thesis by (auto simp: vinv_def set_reader_def caught_up_def)
qed

lemma vinv_reader: "vinv s \<Longrightarrow> readers s r = rd \<Longrightarrow> reader_ok s rd"
  by (auto simp: vinv_def)

lemma vinvI:
  assumes "vinv s" "readers t = readers s"
    and "\<And>k. caught_up k t \<Longrightarrow> VGet (vc t) k = None \<or> VGet (vc t) k = Some (pg t k)"
    and "\<And>k. VVersion (vc s) k < VVersion (vc t) k \<or> VVersion (vc t) k = VVersion (vc s) k \<and> (caught_up k t \<longrightarrow> caught_up k s \<and> pg t k = pg s k)"
  shows "vinv t"
  using assms(1,2,3) reader_ok_mono [OF _ assms(4)] by (auto simp: vinv_def)

lemma vinv_put:
  assumes "vinv s" "reader_ok s (HasValue k (Some n) x)"
  shows "vinv (s\<lparr>vc := VPut k n x (vc s)\<rparr>)"
proof (rule vinvI [OF assms(1)])
  have "VVersion (VPut k n x (vc s)) j = VVersion (vc s) j" for j by (simp add: VPut_def VVersion_def)
  then show "VVersion (vc s) j < VVersion (vc (s\<lparr>vc := VPut k n x (vc s)\<rparr>)) j \<or>
      VVersion (vc (s\<lparr>vc := VPut k n x (vc s)\<rparr>)) j = VVersion (vc s) j \<and>
      (caught_up j (s\<lparr>vc := VPut k n x (vc s)\<rparr>) \<longrightarrow> caught_up j s \<and> pg (s\<lparr>vc := VPut k n x (vc s)\<rparr>) j = pg s j)" for j
    by (simp add: caught_up_def)
next
  fix j
  assume "caught_up j (s\<lparr>vc := VPut k n x (vc s)\<rparr>)"
  then have j: "caught_up j s" by (simp add: caught_up_def)
  with assms(1) have "VGet (vc s) j = None \<or> VGet (vc s) j = Some (pg s j)" by (simp add: vinv_def)
  with assms(2) j show "VGet (vc (s\<lparr>vc := VPut k n x (vc s)\<rparr>)) j = None \<or>
      VGet (vc (s\<lparr>vc := VPut k n x (vc s)\<rparr>)) j = Some (pg (s\<lparr>vc := VPut k n x (vc s)\<rparr>) j)"
    by (auto simp: VPut_def VGet_def)
qed simp

lemma set_take_drop: "i < length xs \<Longrightarrow> insert (xs ! i) (set (take i xs @ drop (Suc i) xs)) = set xs"
  by (subst (4) id_take_nth_drop [of i xs]) auto

lemma vinv_invalidate:
  assumes "vinv s" "i < length (pending s)"
  shows "vinv (s\<lparr>vc := VInvalidate (pending s ! i) (vc s), version_exp := e, pending := take i (pending s) @ drop (Suc i) (pending s)\<rparr>)"
    (is "vinv ?t")
proof (rule vinvI [OF assms(1)])
  let ?ks = "pending s ! i"
  have st: "caught_up j s" if "caught_up j ?t" "j \<notin> set ?ks" for j
    using that unfolding caught_up_def set_take_drop [OF assms(2), symmetric] by simp
  have v: "vc ?t = VInvalidate ?ks (vc s)" "pg ?t = pg s" by simp_all
  fix j
  show "VVersion (vc s) j < VVersion (vc ?t) j \<or>
      VVersion (vc ?t) j = VVersion (vc s) j \<and> (caught_up j ?t \<longrightarrow> caught_up j s \<and> pg ?t j = pg s j)"
    using VInvalidate_ver_less [of j ?ks "vc s"] VInvalidate_ver_mono [of "vc s" j ?ks] st [of j]
    unfolding v by (cases "j \<in> set ?ks") auto
  assume "caught_up j ?t"
  then show "VGet (vc ?t) j = None \<or> VGet (vc ?t) j = Some (pg ?t j)"
    using st [of j] assms(1) unfolding v by (auto simp: VGet_def VInvalidate_val vinv_def)
qed simp

lemma vstep_inv:
  assumes "vinv s" "vstep ttl a s = Some t" "\<And>k. a = ExpireVersion k \<Longrightarrow> quiet k s"
  shows "vinv t"
proof (cases a)
  case (ReadCache r k flt)
  with assms(1,2) show ?thesis by (auto intro: vinv_set_reader split: if_splits)
next
  case (ReadVersion r flt)
  with assms(1,2) show ?thesis by (auto intro!: vinv_set_reader split: reader.splits)
next
  case (LoadPg r flt)
  with assms(1,2) obtain k v where rd: "readers s r = HasVersion k v"
    and t: "t = set_reader r (if flt then Idle else HasValue k v (pg s k)) s" by (auto split: reader.splits)
  from vinv_reader [OF assms(1) rd] have "reader_ok s (HasValue k v (pg s k))" by (cases v) auto
  with assms(1) t show ?thesis by (auto intro!: vinv_set_reader)
next
  case (PutCache r flt)
  with assms(2) obtain k v x where rd: "readers s r = HasValue k v x"
    and t: "t = set_reader r Idle (s\<lparr>vc := (case v of None \<Rightarrow> vc s | Some n \<Rightarrow> if flt then vc s else VPut k n x (vc s))\<rparr>)"
    by (auto split: reader.splits)
  from vinv_reader [OF assms(1) rd] assms(1) show ?thesis
    unfolding t by (intro vinv_set_reader) (auto intro: vinv_put split: option.split)
next
  case (Commit ws)
  with assms(2) have t: "t = s\<lparr>pg := (\<lambda>k. case map_of ws k of None \<Rightarrow> pg s k | Some x \<Rightarrow> x), pending := map fst ws # pending s\<rparr>" by simp
  have "caught_up k s \<and> pg t k = pg s k" if "caught_up k t" for k
  proof -
    from that have k: "k \<notin> fst ` set ws" "caught_up k s" by (simp_all add: caught_up_def t)
    then have "map_of ws k = None" by (simp add: map_of_eq_None_iff)
    with k(2) show ?thesis by (simp add: t)
  qed
  with assms(1) show ?thesis by (intro vinvI [OF assms(1)]) (auto simp: t vinv_def)
next
  case (Invalidate i flt)
  with assms(2) have i: "i < length (pending s)" by (auto split: if_splits)
  show ?thesis
  proof (cases flt)
    case True
    with Invalidate assms(2) i have "t = s" by (auto simp: VInvalidate_flt_def)
    with assms(1) show ?thesis by simp
  next
    case False
    with Invalidate assms(2) i vinv_invalidate [OF assms(1) i] show ?thesis by (auto simp: VInvalidate_flt_def)
  qed
next
  case (ExpireValue k)
  with assms(2) have t: "t = s\<lparr>vc := (vc s)\<lparr>vc_val := (vc_val (vc s))(k := None)\<rparr>\<rparr>" by simp
  show ?thesis by (rule vinvI [OF assms(1)]) (use assms(1) in \<open>auto simp: t VGet_def VVersion_def caught_up_def vinv_def\<close>)
next
  case (ExpireVersion k)
  with assms(2) have t: "t = s\<lparr>vc := (vc s)\<lparr>vc_ver := (vc_ver (vc s))(k := None)\<rparr>\<rparr>" by (auto split: if_splits)
  have q: "quiet k s" by (rule assms(3) [OF ExpireVersion])
  have v: "VVersion (vc t) j = VVersion (vc s) j" if "j \<noteq> k" for j using that by (simp add: t VVersion_def)
  have "reader_ok t (readers t r)" for r
  proof -
    have "reader_ok s (readers s r)" using assms(1) by (simp add: vinv_def)
    moreover have "case readers s r of HasVersion k' _ \<Rightarrow> k' \<noteq> k | HasValue k' _ _ \<Rightarrow> k' \<noteq> k | _ \<Rightarrow> True"
      using q by (simp add: quiet_def)
    moreover have "readers t r = readers s r" "caught_up j t = caught_up j s" "pg t j = pg s j" for j
      by (simp_all add: t caught_up_def)
    ultimately show ?thesis by (cases "readers s r" rule: reader_cases) (auto simp: v)
  qed
  moreover have "caught_up j t = caught_up j s" "pg t j = pg s j" "VGet (vc t) j = VGet (vc s) j" for j
    by (simp_all add: t caught_up_def VGet_def)
  ultimately show ?thesis using assms(1) by (simp add: vinv_def)
next
  case (Tick d)
  with assms(2) have t: "t = s\<lparr>clock := clock s + int d\<rparr>" by simp
  show ?thesis by (rule vinvI [OF assms(1)]) (use assms(1) in \<open>auto simp: t caught_up_def vinv_def\<close>)
qed

lemma vrun_inv:
  "vinv s \<Longrightarrow> no_expiry_during_read ttl as s \<Longrightarrow> vrun ttl as s = Some t \<Longrightarrow> vinv t"
proof (induction as arbitrary: s)
  case (Cons a as)
  from Cons.prems(3) obtain u where u: "vstep ttl a s = Some u" "vrun ttl as u = Some t" by (auto split: option.splits)
  have "vinv u" by (rule vstep_inv [OF Cons.prems(1) u(1)]) (use Cons.prems(2) in auto)
  with Cons.IH Cons.prems(2) u show ?case by simp
qed simp

text \<open>
  C37: However many readers and writers interleave their accesses to Redis and Postgres, and whichever of
  these fail, a key whose committed writes have all been invalidated is not in the cache or has there the
  value in Postgres: a slow read never puts outdated data back. The condition is that the version
  key does not expire while a reader is between reading it and \<^verbatim>\<open>Put\<close>; a write whose
  invalidation failed is one that was not invalidated.
\<close>

theorem no_stale_cache:
  assumes "no_expiry_during_read ttl as (vinit x)"
    and "vrun ttl as (vinit x) = Some s" and "caught_up k s"
  shows "VGet (vc s) k = None \<or> VGet (vc s) k = Some (pg s k)"
  using vrun_inv [OF vinv_init assms(1,2)] assms(3) by (simp add: vinv_def)

text \<open>
  Three readers and a write: the first loads before the write and stores after its invalidation, the second
  read the version before it and loads after, the third comes later, and the first \<^verbatim>\<open>Put\<close> of it fails.
\<close>

definition race_trace :: "(nat, nat) vaction list" where
  "race_trace = [ReadCache 0 7 False, ReadVersion 0 False, LoadPg 0 False, Commit [(7, 2), (8, 3)], ReadCache 1 7 True,
     ReadVersion 1 False, Invalidate 0 True, Invalidate 0 False, LoadPg 1 False, PutCache 0 False,
     ReadCache 2 7 False, ReadVersion 2 False, LoadPg 2 False, PutCache 2 True,
     ReadCache 2 7 False, ReadVersion 2 False, LoadPg 2 False, PutCache 2 False, PutCache 1 False]"

lemmas race_simps = race_trace_def vinit_def set_reader_def VGet_def VVersion_def VPut_def VInvalidate_flt_def empty_vcache_def

theorem no_stale_cache_witness:
  "\<exists>s. vrun 604800 race_trace (vinit (\<lambda>_. 1)) = Some s \<and> VGet (vc s) 7 = Some 2 \<and>
     (VGet (vc s) 7 = None \<or> VGet (vc s) 7 = Some (pg s 7))"
proof -
  let ?s = "the (vrun 604800 race_trace (vinit (\<lambda>_. 1)))"
  have run: "vrun 604800 race_trace (vinit (\<lambda>_. 1)) = Some ?s" by (simp add: race_simps)
  have ne: "no_expiry_during_read 604800 race_trace (vinit (\<lambda>_. 1))" by (simp add: race_simps)
  have p: "caught_up 7 ?s" and c: "VGet (vc ?s) 7 = Some 2" by (simp_all add: race_simps caught_up_def)
  from no_stale_cache [OF ne run p] run c show ?thesis by blast
qed

text \<open>
  The condition is needed. The counter restarts at 0 when its key expires, so if the
  key expires between a reader's \<^verbatim>\<open>Version\<close> and \<^verbatim>\<open>Put\<close> and one write follows, the
  counter is back at the number the reader saw and the outdated value is cached with no
  invalidation left to remove it, for any TTL.
\<close>

theorem stale_after_version_expiry:
  assumes "0 < ttl"
  shows "\<exists>as s. vrun ttl as (vinit (\<lambda>_ :: nat. 0 :: nat)) = Some s \<and> pending s = [] \<and>
    VGet (vc s) 7 = Some 1 \<and> pg s 7 = 2"
proof -
  let ?as = "[Commit [(7, 1)], Invalidate 0 False, ReadCache 0 7 False, ReadVersion 0 False, LoadPg 0 False, Tick (nat ttl), ExpireVersion 7,
    Commit [(7, 2)], Invalidate 0 False, PutCache 0 False]"
  have "int (nat ttl) = ttl" using assms by simp
  then have "\<exists>s. vrun ttl ?as (vinit (\<lambda>_ :: nat. 0 :: nat)) = Some s \<and> pending s = [] \<and> VGet (vc s) 7 = Some 1 \<and> pg s 7 = 2"
    by (simp add: race_simps)
  then show ?thesis by blast
qed

theorem stale_after_version_expiry_witness:
  "(0::int) < 604800000000000 \<and>
   (\<exists>as s. vrun 604800000000000 as (vinit (\<lambda>_ :: nat. 0 :: nat)) = Some s \<and> pending s = [] \<and>
     VGet (vc s) 7 = Some 1 \<and> pg s 7 = 2)"
  using stale_after_version_expiry [of 604800000000000] by simp

end
