(* ===== verification/Events.thy ===== *)
theory Events
  imports Prelude
begin

text \<open>
  What the services send: the websocket events of \<^verbatim>\<open>internal/ws/events.go\<close>, the push
  jobs of \<^verbatim>\<open>internal/push/push.go\<close>, and the effects a service operation has besides its
  result and its new state, in the order the code performs them. A user, group, request
  or message id travels as its text form in the JSON payloads; the model keeps the id.
\<close>

section \<open>Websocket events\<close>

definition EventMessage :: string where "EventMessage = ''msg''"
definition EventTyping :: string where "EventTyping = ''Typing''"
definition EventSeen :: string where "EventSeen = ''Seen''"
definition EventAddFriend :: string where "EventAddFriend = ''AddFri''"
definition EventAccept :: string where "EventAccept = ''AcceptFri''"
definition EventDeny :: string where "EventDeny = ''DenyFri''"
definition EventUnfriend :: string where "EventUnfriend = ''RemoveFri''"
definition EventReaction :: string where "EventReaction = ''Reaction''"
definition EventEdited :: string where "EventEdited = ''MsgEdited''"
definition EventDeleted :: string where "EventDeleted = ''MsgDeleted''"
definition EventGroupUpd :: string where "EventGroupUpd = ''GroupUpdated''"
definition EventGroupGone :: string where "EventGroupGone = ''GroupRemoved''"
definition EventGroupRead :: string where "EventGroupRead = ''GroupRead''"
definition EventGroupAdded :: string where "EventGroupAdded = ''GroupAdded''"
definition EventPresence :: string where "EventPresence = ''Presence''"

lemmas event_names = EventMessage_def EventTyping_def EventSeen_def EventAddFriend_def
  EventAccept_def EventDeny_def EventUnfriend_def EventReaction_def EventEdited_def
  EventDeleted_def EventGroupUpd_def EventGroupGone_def EventGroupRead_def
  EventGroupAdded_def EventPresence_def

text \<open>
  The payload structs. An \<^verbatim>\<open>omitempty\<close> id is an option; \<open>OutGoingMessage\<close> has the
  attachments' ids as its media.
\<close>

datatype payload =
    OutGroupAdded (oga_group: uuid) (oga_by: uuid)
  | OutGroupReadEvent (ogr_group: uuid) (ogr_user: uuid) (ogr_msg: uuid)
  | OutPresenceEvent (ope_user: uuid) (ope_online: bool) (ope_last_seen: "time option") (ope_hidden: bool)
  | OutGoingEventForSeen (oes_msg: uuid) (oes_from: uuid)
  | OutGoingEventForTyping (oet_from: uuid) (oet_group: "uuid option")
  | OutFriEvent (ofe_req: uuid) (ofe_from: uuid)
  | OutReactionEvent (ore_msg: uuid) (ore_from: uuid) (ore_type: string) (ore_group: "uuid option") (ore_emoji: string)
  | OutEditedEvent (oee_msg: uuid) (oee_from: uuid) (oee_type: string) (oee_group: "uuid option") (oee_content: string) (oee_at: time)
  | OutDeletedEvent (ode_msg: uuid) (ode_from: uuid) (ode_type: string) (ode_group: "uuid option") (ode_by: "uuid option")
  | OutGroupUpdated (ogu_group: uuid) (ogu_change: string) (ogu_user: "uuid option")
  | OutGroupRemoved (ogr_gone: uuid) (ogr_reason: string)
  | OutUnfriendEvent (ouf_from: uuid)
  | OutGoingMessage (ogm_id: uuid) (ogm_content: string) (ogm_parent: "uuid option") (ogm_from: uuid)
      (ogm_to: "uuid option") (ogm_type: string) (ogm_group: "uuid option") (ogm_at: time)
      (ogm_media: "uuid list") (ogm_forwarded: bool)

datatype event = Event (ev_name: string) (ev_payload: payload)

section \<open>Push jobs\<close>

definition KindPrivate :: string where "KindPrivate = ''private''"
definition KindGroup :: string where "KindGroup = ''public''"
definition KindFriendRequest :: string where "KindFriendRequest = ''friend_request''"
definition KindFriendAccept :: string where "KindFriendAccept = ''friend_accept''"
definition KindReaction :: string where "KindReaction = ''reaction''"
definition KindGroupAdded :: string where "KindGroupAdded = ''group_added''"
definition KindCall :: string where "KindCall = ''call''"
definition KindMissedCall :: string where "KindMissedCall = ''missed_call''"

record job =
  j_kind :: string
  j_to :: "uuid list"
  j_from :: uuid
  j_group :: uuid
  j_msg_id :: uuid
  j_preview :: string
  j_call_id :: uuid

definition push_job :: "string \<Rightarrow> uuid list \<Rightarrow> uuid \<Rightarrow> job" where
  "push_job kind to from = \<lparr>j_kind = kind, j_to = to, j_from = from, j_group = Nil_uuid,
     j_msg_id = Nil_uuid, j_preview = [], j_call_id = Nil_uuid\<rparr>"

lemma push_job_simps [simp]:
  "j_kind (push_job k t f) = k" "j_to (push_job k t f) = t" "j_from (push_job k t f) = f"
  by (simp_all add: push_job_def)

section \<open>Effects\<close>

text \<open>
  \<open>WriteToUsers\<close> and \<open>Notify\<close> are calls of the hub and of the push dispatcher;
  \<open>Broke\<close> runs the hooks registered with \<^verbatim>\<open>OnBreak\<close>, \<open>GroupDeleted\<close> those of
  \<^verbatim>\<open>OnDelete\<close>, \<open>ExpireMedia\<close> asks the media service to drop a message's files.
\<close>

datatype effect =
    WriteToUsers "uuid list" event
  | Notify job
  | Broke uuid uuid
  | GroupDeleted uuid
  | ExpireMedia uuid

fun told :: "effect \<Rightarrow> uuid set" where
  "told (WriteToUsers to _) = set to"
| "told (Notify j) = set (j_to j)"
| "told (Broke _ _) = {}"
| "told (GroupDeleted _) = {}"
| "told (ExpireMedia _) = {}"

definition audience :: "effect list \<Rightarrow> uuid set" where
  "audience es = (\<Union>e \<in> set es. told e)"

lemma audience_simps [simp]:
  "audience [] = {}"
  "audience (e # es) = told e \<union> audience es"
  "audience (es @ fs) = audience es \<union> audience fs"
  by (auto simp: audience_def)

end
