(* ===== verification/Friends.thy ===== *)
theory Friends
  imports Friends_DB Versioned Events
begin

text \<open>
  \<^verbatim>\<open>internal/friends\<close>: friend requests, friendships and blocks. The repository
  (\<^verbatim>\<open>repo.go\<close>) translates database errors into the package's errors; the service
  (\<^verbatim>\<open>service.go\<close>) writes Postgres first, invalidates the cached relationship lists of both
  users, and then tells the other user. \<open>friends_exec\<close> is the service as one step
  function; the properties are about every sequence of its operations, with any of the
  database and cache calls failing.
\<close>

section \<open>Model types\<close>

datatype friends_err =
    ErrSelfRequest
  | ErrRequestExists
  | ErrAlreadyFriends
  | ErrNotFound
  | ErrUnknownUser
  | ErrNotFriends
  | ErrSelfBlock
  | ErrYouBlocked

text \<open>
  A picture's link \<^verbatim>\<open>/api/users/{id}/avatar?v={ms}\<close> is determined by the user and the
  upload time in milliseconds.
\<close>

datatype avatar_url = AvatarLink uuid int

definition AvatarURLFrom :: "uuid \<Rightarrow> time option \<Rightarrow> avatar_url option" where
  "AvatarURLFrom i at = (case at of None \<Rightarrow> None | Some t \<Rightarrow> Some (AvatarLink i (t div millisecond)))"

definition ShownName :: "string \<Rightarrow> string \<Rightarrow> string" where
  "ShownName username display = (if display = [] then username else display)"

record friend_meta =
  fm_user_id :: uuid
  fm_name :: string
  fm_display_name :: string
  fm_avatar_url :: "avatar_url option"

record snapshot =
  sn_friends :: "friend_meta list"
  sn_incoming :: "uuid \<Rightarrow> friend_meta option"
  sn_outgoing :: "uuid \<Rightarrow> friend_meta option"

text \<open>The calls an operation makes outside the process; any of them may fail.\<close>

datatype friends_call =
    QBlockBetween | QNewUuid | QCreate | QPairStatus | QAccept | QDeny | QCancel | QUnfriend
  | QBlock | QUnblock | QListBlocked | QListFriends | QListIncoming | QListOutgoing
  | QCache cache_call

text \<open>What \<^verbatim>\<open>NameLookup.GetName\<close> (the users service) answers instead of a name.\<close>

datatype name_err = ErrUserNotFound | NameLookupFailed

text \<open>
  The environment of one operation: which calls fail, the users service, the clock, the
  id \<^verbatim>\<open>uuid.NewV7\<close> returns and the database's collation.
\<close>

record friends_env =
  fe_fails :: "friends_call \<Rightarrow> bool"
  fe_names :: "uuid \<Rightarrow> name_err + string"
  fe_now :: time
  fe_uuid :: uuid
  fe_coll :: "string \<Rightarrow> string"

record friends_sys =
  fs_db :: db
  fs_cache :: "(uuid, snapshot) vcache"

type_synonym 'a friends_result = "(friends_err fail + 'a) \<times> friends_sys \<times> effect list"

section \<open>The repository\<close>

definition meta_of :: "user \<Rightarrow> friend_meta" where
  "meta_of u = \<lparr>fm_user_id = u_id u, fm_name = u_name u,
     fm_display_name = ShownName (u_name u) (u_display_name u),
     fm_avatar_url = AvatarURLFrom (u_id u) (u_avatar_at u)\<rparr>"

definition request_map :: "(user_relationship \<times> user) list \<Rightarrow> uuid \<Rightarrow> friend_meta option" where
  "request_map rows = foldl (\<lambda>m (r, u). m(ur_id r \<mapsto> meta_of u)) Map.empty rows"

definition snapshot_of :: "(string \<Rightarrow> string) \<Rightarrow> db \<Rightarrow> uuid \<Rightarrow> snapshot" where
  "snapshot_of coll d me =
     \<lparr>sn_friends = map meta_of (ListFriends coll me d),
      sn_incoming = request_map (ListIncomingFriendRequests me d),
      sn_outgoing = request_map (ListOutgoingFriendRequests me d)\<rparr>"

definition repo_Snapshot :: "friends_env \<Rightarrow> uuid \<Rightarrow> db \<Rightarrow> friends_err fail + snapshot" where
  "repo_Snapshot e me d =
     (if fe_fails e QListFriends then Inl (DbFail OtherDb)
      else if fe_fails e QListIncoming then Inl (DbFail OtherDb)
      else if fe_fails e QListOutgoing then Inl (DbFail OtherDb)
      else Inr (snapshot_of (fe_coll e) d me))"

definition repo_Create :: "friends_env \<Rightarrow> uuid \<Rightarrow> uuid \<Rightarrow> uuid \<Rightarrow> db \<Rightarrow> friends_err fail + db" where
  "repo_Create e reqID fromID toID d =
     (case faulty (fe_fails e QCreate) (CreateFriendRequest (fe_now e) reqID fromID toID d) of
        Inr d' \<Rightarrow> Inr d'
      | Inl (UniqueViolation _) \<Rightarrow>
          (case faulty (fe_fails e QPairStatus) (PairStatus fromID toID d) of
             Inr status \<Rightarrow> if status = StatusConfirm then Inl (Sentinel ErrAlreadyFriends)
                           else Inl (Sentinel ErrRequestExists)
           | Inl _ \<Rightarrow> Inl (Sentinel ErrRequestExists))
      | Inl ForeignKeyViolation \<Rightarrow> Inl (Sentinel ErrUnknownUser)
      | Inl CheckViolation \<Rightarrow> Inl (Sentinel ErrSelfRequest)
      | Inl err \<Rightarrow> Inl (DbFail err))"

definition notFound :: "dberr + 'a \<Rightarrow> friends_err fail + 'a" where
  "notFound r = (case r of Inr a \<Rightarrow> Inr a
     | Inl NoRows \<Rightarrow> Inl (Sentinel ErrNotFound) | Inl err \<Rightarrow> Inl (DbFail err))"

definition repo_Accept :: "friends_env \<Rightarrow> uuid \<Rightarrow> uuid \<Rightarrow> db \<Rightarrow> friends_err fail + (uuid \<times> db)" where
  "repo_Accept e reqID receiverID d =
     notFound (faulty (fe_fails e QAccept) (AcceptFriendRequest (fe_now e) reqID receiverID d))"

definition repo_Deny :: "friends_env \<Rightarrow> uuid \<Rightarrow> uuid \<Rightarrow> db \<Rightarrow> friends_err fail + (uuid \<times> db)" where
  "repo_Deny e reqID receiverID d =
     notFound (faulty (fe_fails e QDeny) (DenyFriendRequest reqID receiverID d))"

definition repo_Cancel :: "friends_env \<Rightarrow> uuid \<Rightarrow> uuid \<Rightarrow> db \<Rightarrow> friends_err fail + (uuid \<times> db)" where
  "repo_Cancel e reqID senderID d =
     notFound (faulty (fe_fails e QCancel) (CancelFriendRequest reqID senderID d))"

definition repo_Unfriend :: "friends_env \<Rightarrow> uuid \<Rightarrow> uuid \<Rightarrow> db \<Rightarrow> friends_err fail + db" where
  "repo_Unfriend e a b d =
     (case faulty (fe_fails e QUnfriend) (UnfriendRow a b d) of
        Inr (_, d') \<Rightarrow> Inr d'
      | Inl NoRows \<Rightarrow> Inl (Sentinel ErrNotFriends)
      | Inl err \<Rightarrow> Inl (DbFail err))"

definition repo_Block :: "friends_env \<Rightarrow> uuid \<Rightarrow> uuid \<Rightarrow> db \<Rightarrow> friends_err fail + (bool \<times> db)" where
  "repo_Block e blocker blocked d =
     (case faulty (fe_fails e QBlock) (BlockUser blocker blocked (fe_now e) d) of
        Inr r \<Rightarrow> Inr r
      | Inl ForeignKeyViolation \<Rightarrow> Inl (Sentinel ErrUnknownUser)
      | Inl err \<Rightarrow> Inl (DbFail err))"

definition repo_Unblock :: "friends_env \<Rightarrow> uuid \<Rightarrow> uuid \<Rightarrow> db \<Rightarrow> friends_err fail + db" where
  "repo_Unblock e blocker blocked d =
     (if fe_fails e QUnblock then Inl (DbFail OtherDb) else Inr (UnblockUser blocker blocked d))"

definition repo_Blocked :: "friends_env \<Rightarrow> uuid \<Rightarrow> db \<Rightarrow> friends_err fail + (uuid \<times> string \<times> time) list" where
  "repo_Blocked e blocker d =
     (if fe_fails e QListBlocked then Inl (DbFail OtherDb) else Inr (ListBlocked blocker d))"

definition repo_BlockBetween :: "friends_env \<Rightarrow> uuid \<Rightarrow> uuid \<Rightarrow> db \<Rightarrow> friends_err fail + (bool \<times> bool)" where
  "repo_BlockBetween e a b d =
     (if fe_fails e QBlockBetween then Inl (DbFail OtherDb) else Inr (BlockBetween a b d))"

section \<open>The service\<close>

definition cache_fails :: "friends_env \<Rightarrow> cache_call \<Rightarrow> bool" where
  "cache_fails e c = fe_fails e (QCache c)"

definition invalidate :: "friends_env \<Rightarrow> uuid list \<Rightarrow> friends_sys \<Rightarrow> friends_sys" where
  "invalidate e ids s = s\<lparr>fs_cache := VInvalidate_flt (cache_fails e) ids (fs_cache s)\<rparr>"

definition push_event :: "uuid \<Rightarrow> string \<Rightarrow> uuid \<Rightarrow> uuid \<Rightarrow> effect" where
  "push_event to event reqID fromID = WriteToUsers [to] (Event event (OutFriEvent reqID fromID))"

definition unfriend_event :: "uuid \<Rightarrow> uuid \<Rightarrow> effect" where
  "unfriend_event other me = WriteToUsers [other] (Event EventUnfriend (OutUnfriendEvent me))"

text \<open>
  \<^verbatim>\<open>Send\<close> is the checks and the insertion, which are separate database statements. The
  message to the other user and the push job are best effort: their failures are logged
  and change nothing, and \<^verbatim>\<open>alerts\<close> is set.
\<close>

definition SendCheck :: "friends_env \<Rightarrow> uuid \<Rightarrow> uuid \<Rightarrow> db \<Rightarrow> friends_err fail option" where
  "SendCheck e fromID toID d =
     (if fromID = toID then Some (Sentinel ErrSelfRequest)
      else case fe_names e toID of
        Inl ErrUserNotFound \<Rightarrow> Some (Sentinel ErrUnknownUser)
      | Inl NameLookupFailed \<Rightarrow> Some (DbFail OtherDb)
      | Inr _ \<Rightarrow>
          (case repo_BlockBetween e fromID toID d of
             Inl err \<Rightarrow> Some err
           | Inr (iBlocked, theyBlocked) \<Rightarrow>
               if iBlocked then Some (Sentinel ErrYouBlocked)
               else if theyBlocked then Some (Sentinel ErrUnknownUser)
               else None))"

definition SendCreate :: "friends_env \<Rightarrow> uuid \<Rightarrow> uuid \<Rightarrow> friends_sys \<Rightarrow> uuid friends_result" where
  "SendCreate e fromID toID s =
     (if fe_fails e QNewUuid then (Inl (DbFail OtherDb), s, [])
      else let reqID = fe_uuid e in
        case repo_Create e reqID fromID toID (fs_db s) of
          Inl err \<Rightarrow> (Inl err, s, [])
        | Inr d' \<Rightarrow>
            (Inr reqID, invalidate e [fromID, toID] (s\<lparr>fs_db := d'\<rparr>),
             [push_event toID EventAddFriend reqID fromID,
              Notify (push_job KindFriendRequest [toID] fromID)]))"

definition Send :: "friends_env \<Rightarrow> uuid \<Rightarrow> uuid \<Rightarrow> friends_sys \<Rightarrow> uuid friends_result" where
  "Send e fromID toID s =
     (case SendCheck e fromID toID (fs_db s) of
        Some err \<Rightarrow> (Inl err, s, [])
      | None \<Rightarrow> SendCreate e fromID toID s)"

definition Accept :: "friends_env \<Rightarrow> uuid \<Rightarrow> uuid \<Rightarrow> friends_sys \<Rightarrow> unit friends_result" where
  "Accept e me reqID s =
     (case repo_Accept e reqID me (fs_db s) of
        Inl err \<Rightarrow> (Inl err, s, [])
      | Inr (senderID, d') \<Rightarrow>
          (Inr (), invalidate e [me, senderID] (s\<lparr>fs_db := d'\<rparr>),
           [push_event senderID EventAccept reqID me,
            Notify (push_job KindFriendAccept [senderID] me)]))"

definition Deny :: "friends_env \<Rightarrow> uuid \<Rightarrow> uuid \<Rightarrow> friends_sys \<Rightarrow> unit friends_result" where
  "Deny e me reqID s =
     (case repo_Deny e reqID me (fs_db s) of
        Inl err \<Rightarrow> (Inl err, s, [])
      | Inr (senderID, d') \<Rightarrow>
          (Inr (), invalidate e [me, senderID] (s\<lparr>fs_db := d'\<rparr>),
           [push_event senderID EventDeny reqID me]))"

definition Cancel :: "friends_env \<Rightarrow> uuid \<Rightarrow> uuid \<Rightarrow> friends_sys \<Rightarrow> unit friends_result" where
  "Cancel e me reqID s =
     (case repo_Cancel e reqID me (fs_db s) of
        Inl err \<Rightarrow> (Inl err, s, [])
      | Inr (receiverID, d') \<Rightarrow>
          (Inr (), invalidate e [me, receiverID] (s\<lparr>fs_db := d'\<rparr>), []))"

definition Unfriend :: "friends_env \<Rightarrow> uuid \<Rightarrow> uuid \<Rightarrow> friends_sys \<Rightarrow> unit friends_result" where
  "Unfriend e me other s =
     (case repo_Unfriend e me other (fs_db s) of
        Inl err \<Rightarrow> (Inl err, s, [])
      | Inr d' \<Rightarrow>
          (Inr (), invalidate e [me, other] (s\<lparr>fs_db := d'\<rparr>),
           [Broke me other, unfriend_event other me]))"

definition Block :: "friends_env \<Rightarrow> uuid \<Rightarrow> uuid \<Rightarrow> friends_sys \<Rightarrow> unit friends_result" where
  "Block e me other s =
     (if me = other then (Inl (Sentinel ErrSelfBlock), s, [])
      else case repo_Block e me other (fs_db s) of
        Inl err \<Rightarrow> (Inl err, s, [])
      | Inr (wereFriends, d') \<Rightarrow>
          (Inr (), invalidate e [me, other] (s\<lparr>fs_db := d'\<rparr>),
           Broke me other # (if wereFriends then [unfriend_event other me] else [])))"

definition Unblock :: "friends_env \<Rightarrow> uuid \<Rightarrow> uuid \<Rightarrow> friends_sys \<Rightarrow> unit friends_result" where
  "Unblock e me other s =
     (case repo_Unblock e me other (fs_db s) of
        Inl err \<Rightarrow> (Inl err, s, [])
      | Inr d' \<Rightarrow> (Inr (), s\<lparr>fs_db := d'\<rparr>, []))"

definition Blocked :: "friends_env \<Rightarrow> uuid \<Rightarrow> friends_sys \<Rightarrow> friends_err fail + (uuid \<times> string \<times> time) list" where
  "Blocked e me s = repo_Blocked e me (fs_db s)"

definition Relationships :: "friends_env \<Rightarrow> uuid \<Rightarrow> friends_sys \<Rightarrow>
    (friends_err fail + snapshot) \<times> friends_sys" where
  "Relationships e me s =
     (let (r, c') = VLoad (cache_fails e) me (repo_Snapshot e me (fs_db s)) (fs_cache s)
      in (r, s\<lparr>fs_cache := c'\<rparr>))"

definition AreFriends :: "friends_env \<Rightarrow> uuid \<Rightarrow> uuid \<Rightarrow> friends_sys \<Rightarrow>
    (friends_err fail + bool) \<times> friends_sys" where
  "AreFriends e a b s =
     (case Relationships e a s of
        (Inl err, s') \<Rightarrow> (Inl err, s')
      | (Inr snap, s') \<Rightarrow> (Inr (list_ex (\<lambda>f. fm_user_id f = b) (sn_friends snap)), s'))"

text \<open>
  \<^verbatim>\<open>ForgetNames\<close> after a rename drops the lists that show the user: their own, and those of
  everyone in their friends and requests (read from Postgres, not from the cache).
\<close>

definition ForgetNames :: "friends_env \<Rightarrow> uuid \<Rightarrow> friends_sys \<Rightarrow> friends_sys" where
  "ForgetNames e userID s =
     (case repo_Snapshot e userID (fs_db s) of
        Inl _ \<Rightarrow> invalidate e [userID] s
      | Inr _ \<Rightarrow>
          invalidate e (userID # map u_id (ListFriends (fe_coll e) userID (fs_db s))
            @ map (\<lambda>(r, u). u_id u) (ListIncomingFriendRequests userID (fs_db s))
            @ map (\<lambda>(r, u). u_id u) (ListOutgoingFriendRequests userID (fs_db s))) s)"

section \<open>The service as a step function\<close>

datatype friends_op =
    OpSend uuid uuid
  | OpAccept uuid uuid
  | OpDeny uuid uuid
  | OpCancel uuid uuid
  | OpUnfriend uuid uuid
  | OpBlock uuid uuid
  | OpUnblock uuid uuid
  | OpAreFriends uuid uuid
  | OpForgetNames uuid

definition ignore :: "'a friends_result \<Rightarrow> unit friends_result" where
  "ignore r = (case r of (x, s, es) \<Rightarrow> (case x of Inl err \<Rightarrow> Inl err | Inr _ \<Rightarrow> Inr (), s, es))"

fun friends_exec :: "friends_env \<Rightarrow> friends_op \<Rightarrow> friends_sys \<Rightarrow> unit friends_result" where
  "friends_exec e (OpSend a b) s = ignore (Send e a b s)"
| "friends_exec e (OpAccept me i) s = Accept e me i s"
| "friends_exec e (OpDeny me i) s = Deny e me i s"
| "friends_exec e (OpCancel me i) s = Cancel e me i s"
| "friends_exec e (OpUnfriend a b) s = Unfriend e a b s"
| "friends_exec e (OpBlock a b) s = Block e a b s"
| "friends_exec e (OpUnblock a b) s = Unblock e a b s"
| "friends_exec e (OpAreFriends a b) s = (Inr (), snd (AreFriends e a b s), [])"
| "friends_exec e (OpForgetNames a) s = (Inr (), ForgetNames e a s, [])"

fun friends_run :: "(friends_env \<times> friends_op) list \<Rightarrow> friends_sys \<Rightarrow> friends_sys" where
  "friends_run [] s = s"
| "friends_run ((e, op) # ops) s = friends_run ops (fst (snd (friends_exec e op s)))"

lemmas friends_repo_defs = repo_Create_def repo_Accept_def repo_Deny_def repo_Cancel_def
  repo_Unfriend_def repo_Block_def repo_Unblock_def repo_BlockBetween_def notFound_def
lemmas friends_svc_defs = Send_def SendCheck_def SendCreate_def Accept_def Deny_def Cancel_def
  Unfriend_def Block_def Unblock_def ignore_def

end
