(* ===== verification/Invite.thy ===== *)
theory Invite
  imports GoStrings
begin

text \<open>
  \<^verbatim>\<open>internal/groups/invite.go\<close>: invite codes, how they are drawn, what a user may type and
  how they are shown.
\<close>

definition inviteAlphabet :: string where
  "inviteAlphabet = ''ABCDEFGHJKLMNPQRSTUVWXYZ23456789''"

definition inviteLen :: nat where "inviteLen = 8"

text \<open>\<open>buf\<close> is what \<^verbatim>\<open>rand.Read\<close> filled in, \<open>None\<close> when it fails.\<close>

definition NewInviteCode :: "8 word list option \<Rightarrow> string option" where
  "NewInviteCode buf = (case buf of None \<Rightarrow> None
     | Some bs \<Rightarrow> Some (map (\<lambda>b. inviteAlphabet ! (unat b mod length inviteAlphabet)) (take inviteLen bs)))"

text \<open>
  \<^verbatim>\<open>unicode.ToUpper\<close>, as far as an invite code can show it: the ASCII letters, and the only
  two other runes whose upper case is an ASCII letter. Every other rune has an upper case
  outside ASCII, which no invite code contains, and is left as it is here.
\<close>

definition ToUpperRune :: "nat \<Rightarrow> nat" where
  "ToUpperRune r = (if 97 \<le> r \<and> r \<le> 122 then r - 32
     else if r = 0x17F then 83
     else if r = 0x131 then 73
     else r)"

definition in_alphabet :: "nat \<Rightarrow> bool" where
  "in_alphabet r \<longleftrightarrow> r \<in> set (map of_char inviteAlphabet)"

fun normalize_runes :: "nat list \<Rightarrow> string option" where
  "normalize_runes [] = Some []"
| "normalize_runes (r # rs) =
     (let u = ToUpperRune r in
      if u = 45 \<or> u = 32 then normalize_runes rs
      else if in_alphabet u then map_option (\<lambda>t. char_of u # t) (normalize_runes rs)
      else None)"

definition NormalizeInviteCode :: "string \<Rightarrow> string option" where
  "NormalizeInviteCode s = (case normalize_runes (runes s) of
     None \<Rightarrow> None
   | Some t \<Rightarrow> if length t \<noteq> inviteLen then None else Some t)"

definition FormatInviteCode :: "string \<Rightarrow> string" where
  "FormatInviteCode code =
     (if length code \<noteq> inviteLen then code else take 4 code @ ''-'' @ drop 4 code)"

definition valid_code :: "string \<Rightarrow> bool" where
  "valid_code c \<longleftrightarrow> length c = inviteLen \<and> set c \<subseteq> set inviteAlphabet"

section \<open>Drawing a code\<close>

lemma length_inviteAlphabet [simp]: "length inviteAlphabet = 32"
  by (simp add: inviteAlphabet_def)

lemma distinct_inviteAlphabet: "distinct inviteAlphabet"
  by (simp add: inviteAlphabet_def)

lemma NewInviteCode_valid:
  assumes "NewInviteCode (Some bs) = Some c" "length bs = inviteLen"
  shows "valid_code c"
proof -
  have "inviteAlphabet ! (unat b mod 32) \<in> set inviteAlphabet" for b :: "8 word"
    by (rule nth_mem) simp
  with assms show ?thesis by (auto simp: NewInviteCode_def valid_code_def)
qed

lemma byte_count: "card {b :: 8 word. unat b mod 32 = k} = 8" if "k < 32"
proof -
  have eq: "{b :: 8 word. unat b mod 32 = k} = (\<lambda>j. of_nat (k + 32 * j)) ` {..<8}"
  proof (intro equalityI subsetI)
    fix b :: "8 word"
    assume "b \<in> {b. unat b mod 32 = k}"
    then have b: "unat b mod 32 = k" by simp
    have "unat b < 256" using unsigned_less [of b] by simp
    then have "unat b div 32 < 8" by auto
    moreover have "b = of_nat (k + 32 * (unat b div 32))" unfolding b [symmetric] by simp
    ultimately show "b \<in> (\<lambda>j. of_nat (k + 32 * j)) ` {..<8}" by blast
  next
    fix b :: "8 word"
    assume "b \<in> (\<lambda>j. of_nat (k + 32 * j)) ` {..<8}"
    then obtain j where j: "j < 8" "b = of_nat (k + 32 * j)" by auto
    have "k + 32 * j < 256" using j(1) that by simp
    then have "unat b = k + 32 * j" unfolding j(2) unat_of_nat by simp
    with that show "b \<in> {b. unat b mod 32 = k}" by simp
  qed
  have "inj_on (\<lambda>j. of_nat (k + 32 * j) :: 8 word) {..<8}"
  proof (rule inj_onI)
    fix i j :: nat
    assume *: "i \<in> {..<8}" "j \<in> {..<8}" "(of_nat (k + 32 * i) :: 8 word) = of_nat (k + 32 * j)"
    have "k + 32 * i < 256" "k + 32 * j < 256" using *(1,2) that by auto
    then have "k + 32 * i = k + 32 * j"
      using arg_cong [OF *(3), of unat] unfolding unat_of_nat by simp
    then show "i = j" by simp
  qed
  then show ?thesis unfolding eq by (simp add: card_image)
qed

text \<open>
  A new code consists of eight letters of the alphabet, and each letter comes from
  exactly eight of the 256 values of a random byte, so the codes are uniform.
\<close>

theorem invite_code_uniform:
  assumes "length bs = inviteLen" "x \<in> set inviteAlphabet"
  shows "(\<exists>c. NewInviteCode (Some bs) = Some c \<and> valid_code c) \<and>
    card {b :: 8 word. \<exists>c. NewInviteCode (Some (replicate inviteLen b)) = Some c \<and> c ! 0 = x} = 8"
proof
  show "\<exists>c. NewInviteCode (Some bs) = Some c \<and> valid_code c"
    using NewInviteCode_valid [OF _ assms(1)] by (simp add: NewInviteCode_def)
  obtain k where k: "k < 32" "x = inviteAlphabet ! k"
    using assms(2) by (auto simp: in_set_conv_nth)
  have "{b :: 8 word. \<exists>c. NewInviteCode (Some (replicate inviteLen b)) = Some c \<and> c ! 0 = x} =
      {b. unat b mod 32 = k}"
    using k distinct_inviteAlphabet
    by (auto simp: NewInviteCode_def inviteLen_def nth_eq_iff_index_eq)
  with byte_count [OF k(1)] show "card {b :: 8 word. \<exists>c. NewInviteCode (Some (replicate inviteLen b))
    = Some c \<and> c ! 0 = x} = 8" by simp
qed

theorem invite_code_uniform_witness:
  "card {b :: 8 word. \<exists>c. NewInviteCode (Some (replicate inviteLen b)) = Some c \<and> c ! 0 = CHR ''K''} = 8"
  by (rule invite_code_uniform [of "replicate inviteLen 0", THEN conjunct2])
    (simp_all add: inviteAlphabet_def)

section \<open>Typing and showing a code\<close>

lemma in_alphabet_char: "in_alphabet u \<Longrightarrow> char_of u \<in> set inviteAlphabet"
  by (auto simp: in_alphabet_def)

lemma normalize_runes_alphabet: "normalize_runes rs = Some t \<Longrightarrow> set t \<subseteq> set inviteAlphabet"
  by (induction rs arbitrary: t) (auto simp: Let_def in_alphabet_char split: if_splits)

lemma alphabet_ascii: "c \<in> set inviteAlphabet \<Longrightarrow> of_char c < (0x80::nat)"
  by (auto simp: inviteAlphabet_def)

lemma ToUpperRune_alphabet: "c \<in> set inviteAlphabet \<Longrightarrow> ToUpperRune (of_char c) = of_char c"
  by (auto simp: inviteAlphabet_def ToUpperRune_def)

lemma alphabet_no_dash: "c \<in> set inviteAlphabet \<Longrightarrow> (of_char c :: nat) \<noteq> 45 \<and> (of_char c :: nat) \<noteq> 32"
  by (auto simp: inviteAlphabet_def)

lemma normalize_runes_append:
  "normalize_runes (xs @ ys) = (case normalize_runes xs of None \<Rightarrow> None
     | Some s \<Rightarrow> map_option ((@) s) (normalize_runes ys))"
  by (induction xs) (auto simp: Let_def map_option_case split: option.split)

lemma normalize_alphabet:
  "set c \<subseteq> set inviteAlphabet \<Longrightarrow> normalize_runes (map of_char c) = Some c"
  by (induction c) (auto simp: Let_def ToUpperRune_alphabet alphabet_no_dash in_alphabet_def)

text \<open>What a user may do to a code they were shown: type it in lower case, and put dashes
  and spaces anywhere.\<close>

definition to_lower :: "char \<Rightarrow> char" where
  "to_lower c = (let n = of_char c :: nat in if 65 \<le> n \<and> n \<le> 90 then char_of (n + 32) else c)"

inductive typed :: "string \<Rightarrow> string \<Rightarrow> bool" where
  "typed [] []"
| "typed c s \<Longrightarrow> typed (x # c) (x # s)"
| "typed c s \<Longrightarrow> typed (x # c) (to_lower x # s)"
| "typed c s \<Longrightarrow> typed c (CHR ''-'' # s)"
| "typed c s \<Longrightarrow> typed c (CHR '' '' # s)"

lemma to_lower_alphabet:
  "c \<in> set inviteAlphabet \<Longrightarrow> ToUpperRune (of_char (to_lower c)) = of_char c \<and> of_char (to_lower c) < (0x80::nat)"
  by (auto simp: inviteAlphabet_def to_lower_def ToUpperRune_def)

lemma typed_normalizes:
  assumes "typed c s" "set c \<subseteq> set inviteAlphabet"
  shows "is_ascii s \<and> normalize_runes (map of_char s) = Some c"
  using assms
proof (induction rule: typed.induct)
  case (2 c s x)
  then show ?case
    by (auto simp: is_ascii_def Let_def ToUpperRune_alphabet alphabet_no_dash in_alphabet_def alphabet_ascii)
next
  case (3 c s x)
  then show ?case
    using to_lower_alphabet [of x] by (auto simp: is_ascii_def Let_def alphabet_no_dash in_alphabet_def)
qed (auto simp: is_ascii_def ToUpperRune_def)

lemma typed_refl: "typed c c"
  by (induction c) (auto intro: typed.intros)

lemma typed_append: "typed c s \<Longrightarrow> typed d t \<Longrightarrow> typed (c @ d) (s @ t)"
  by (induction rule: typed.induct) (auto intro: typed.intros)

lemma typed_Format: "typed c (FormatInviteCode c)"
proof -
  have "typed (take 4 c @ drop 4 c) (take 4 c @ (CHR ''-'' # drop 4 c))"
    by (intro typed_append typed.intros typed_refl)
  then show ?thesis by (simp add: FormatInviteCode_def typed_refl)
qed

text \<open>
  C40: a stored code survives being shown and typed back: whatever case, dashes and spaces the
  user types the code with, in particular the display form, \<^verbatim>\<open>NormalizeInviteCode\<close> returns
  the stored code.
\<close>

theorem invite_code_roundtrip:
  assumes "valid_code c"
  shows "NormalizeInviteCode (FormatInviteCode c) = Some c \<and>
    (\<forall>s. typed c s \<longrightarrow> NormalizeInviteCode s = Some c)"
proof -
  have all: "NormalizeInviteCode s = Some c" if "typed c s" for s
    using typed_normalizes [OF that] assms
    by (simp add: NormalizeInviteCode_def valid_code_def runes_ascii)
  then show ?thesis using typed_Format by blast
qed

theorem invite_code_roundtrip_witness:
  "NormalizeInviteCode ''K7M9-QX2P'' = Some ''K7M9QX2P''"
proof -
  have "valid_code ''K7M9QX2P''" by (simp add: valid_code_def inviteLen_def inviteAlphabet_def)
  from invite_code_roundtrip [OF this] show ?thesis
    by (simp add: FormatInviteCode_def inviteLen_def)
qed

text \<open>
  Nothing but a well-formed code comes out of \<^verbatim>\<open>NormalizeInviteCode\<close>, whatever bytes a
  client sends, and normalizing again changes nothing.
\<close>

theorem normalize_sound:
  assumes "NormalizeInviteCode s = Some c"
  shows "valid_code c \<and> NormalizeInviteCode c = Some c"
proof -
  have v: "valid_code c"
    using assms normalize_runes_alphabet
    by (auto simp: NormalizeInviteCode_def valid_code_def split: option.splits if_splits)
  then have "typed c c" by (simp add: typed_refl)
  from typed_normalizes [OF this] v have "NormalizeInviteCode c = Some c"
    by (simp add: NormalizeInviteCode_def valid_code_def runes_ascii)
  with v show ?thesis by simp
qed

theorem normalize_sound_witness:
  "valid_code ''K7M9QX2P'' \<and> NormalizeInviteCode ''K7M9QX2P'' = Some ''K7M9QX2P''"
proof -
  have "is_ascii ''k7m9 qx2p''" by (simp add: is_ascii_def)
  then have "NormalizeInviteCode ''k7m9 qx2p'' = Some ''K7M9QX2P''"
    by (simp add: NormalizeInviteCode_def runes_ascii ToUpperRune_def in_alphabet_def inviteAlphabet_def
        inviteLen_def char_of_eq_iff take_bit_eq_mod)
  then show ?thesis by (rule normalize_sound)
qed

end
