(* ===== verification/Groups_Service.thy ===== *)
theory Groups_Service
  imports Groups_DB Invite Versioned Events
begin

text \<open>
  \<^verbatim>\<open>internal/groups\<close>: groups, their members, roles and invite codes. A repository operation
  is one transaction holding the group's row lock; \<open>Inl\<close> means it was rolled back, so only
  \<open>Inr\<close> carries a new database. The service adds the validation, the cached snapshots and
  the events.
\<close>

section \<open>Model types\<close>

datatype group_err =
    ErrNotFoundGroup | ErrGroupFull | ErrAlreadyMember | ErrNotMember | ErrInvalidGroupReq
  | ErrNoPermission | ErrKickSelf | ErrCantRemoveAdmin | ErrAlreadyAdmin | ErrNothingToUpdate
  | ErrInvalidGroupInfo | ErrNotFriend | ErrNoAvatar | ErrBadRole | ErrSelfRole | ErrBadSearch
  | ErrInvalidInviteCode | ErrBadImage | ErrImageTooLarge

definition maxGroupNameLen :: nat where "maxGroupNameLen = 30"
definition maxDescLen :: nat where "maxDescLen = 1000"
definition maxGroupSize :: int where "maxGroupSize = 1000"

definition allowed :: "string \<Rightarrow> string list \<Rightarrow> string \<Rightarrow> bool" where
  "allowed role perms perm \<longleftrightarrow>
     (if role = RoleAdmin then True
      else if role = RoleModerator then perm \<noteq> [] \<and> perm \<in> set perms
      else False)"

definition cleanPermissions :: "string list \<Rightarrow> group_err + string list" where
  "cleanPermissions xs =
     (if \<exists>p \<in> set xs. p \<notin> set AllPermissions then Inl ErrBadRole
      else Inr (filter (\<lambda>p. p \<in> set xs) AllPermissions))"

record createGroupRequest =
  cgr_GroupName :: string
  cgr_Description :: string
  cgr_MaxMems :: int
  cgr_Visibility :: string

record updateGroupRequest =
  ugr_GroupName :: "string option"
  ugr_Description :: "string option"
  ugr_Visibility :: "string option"

record roleRequest =
  rr_Role :: string
  rr_Permissions :: "string list"

datatype group_avatar_url = GroupAvatarLink uuid int

definition AvatarURL :: "uuid \<Rightarrow> time option \<Rightarrow> group_avatar_url option" where
  "AvatarURL i at = (case at of None \<Rightarrow> None | Some t \<Rightarrow> Some (GroupAvatarLink i (t div millisecond)))"

record GroupPreview =
  gp_ID :: uuid
  gp_Name :: string
  gp_Description :: string
  gp_MaxMembers :: int
  gp_MemberCount :: int
  gp_Visibility :: string
  gp_AvatarURL :: "group_avatar_url option"
  gp_IsMember :: "bool option"

record GroupSummary =
  gsm_ID :: uuid
  gsm_Name :: string
  gsm_Description :: string
  gsm_MaxMembers :: int
  gsm_Members :: int
  gsm_Visibility :: string
  gsm_Role :: string
  gsm_Permissions :: "string list"
  gsm_AvatarURL :: "group_avatar_url option"

record GroupMember =
  gmb_UserID :: uuid
  gmb_Name :: string
  gmb_Shown :: string
  gmb_Role :: string
  gmb_Permissions :: "string list"
  gmb_AvatarAt :: "time option"

record GroupDetail =
  gd_ID :: uuid
  gd_Name :: string
  gd_Description :: string
  gd_MaxMembers :: int
  gd_MemberCount :: int
  gd_Visibility :: string
  gd_IsMember :: bool
  gd_AvatarURL :: "group_avatar_url option"
  gd_Members :: "GroupMember list"

record GroupSnapshot =
  gs_Name :: string
  gs_MaxMem :: int
  gs_AdminID :: uuid
  gs_Public :: bool
  gs_Members :: "uuid list"
  gs_Mods :: "uuid \<Rightarrow> string list option"

text \<open>\<^verbatim>\<open>GroupSnapshot.Role\<close>: role and permissions, empty for a non-member.\<close>

definition Role :: "GroupSnapshot \<Rightarrow> uuid \<Rightarrow> string \<times> string list" where
  "Role g u =
     (if u = gs_AdminID g then (RoleAdmin, [])
      else case gs_Mods g u of
        Some perms \<Rightarrow> (RoleModerator, perms)
      | None \<Rightarrow> if u \<in> set (gs_Members g) then (RoleMember, []) else ([], []))"

record leaving =
  lv_NewAdmin :: uuid
  lv_Deleted :: bool
  lv_Members :: "uuid list"

text \<open>
  The calls an operation makes outside the process. A snapshot may be loaded more than
  once in an operation; its calls carry which load it is, so that each can fail alone.
\<close>

datatype snap_call = SInfo | SMemberIds | SLeader | SMods | SCache cache_call

datatype group_call =
    GUuid | GTx | GLock | GMember uuid | GAddMember | GSetCount | GNextAdmin | GDeleteGroup
  | GSetRole uuid | GDeleteMember | GUpdateInfo | GMemberIds | GUpsertAvatar | GSetAvatarAt
  | GDeleteAvatar | GCreate nat | GCreateLeader nat | GByCode | GGetCode | GSetCode nat
  | GDetailInfo | GDetailMembers | GListForUser | GSearch | GAvatar | GInvalidate
  | GSnap nat snap_call

text \<open>
  The environment: failing calls, the server's and the database's clock, the random bytes
  of each code drawn, the friends service (\<open>None\<close>: it failed), image processing
  (\<^verbatim>\<open>users.ProcessAvatar\<close>), and lower-casing in Go and in the database.
\<close>

record group_env =
  ge_fails :: "group_call \<Rightarrow> bool"
  ge_now :: time
  ge_dbnow :: time
  ge_uuid :: uuid
  ge_rand :: "nat \<Rightarrow> 8 word list option"
  ge_friends :: "uuid \<Rightarrow> uuid \<Rightarrow> bool option"
  ge_image :: "bytes \<Rightarrow> group_err + bytes"
  ge_ToLower :: "string \<Rightarrow> string"
  ge_pglower :: "string \<Rightarrow> string"
  ge_coll :: "string \<Rightarrow> string"

section \<open>The repository\<close>

type_synonym 'a repo_result = "group_err fail + ('a \<times> db)"

text \<open>\<^verbatim>\<open>withLockedGroup\<close>: \<open>fn\<close> gets the locked row's capacity and count.\<close>

definition withLockedGroup :: "group_env \<Rightarrow> uuid \<Rightarrow> (int \<Rightarrow> int \<Rightarrow> 'a repo_result) \<Rightarrow> db \<Rightarrow> 'a repo_result" where
  "withLockedGroup e gid fn d =
     (if ge_fails e GTx then Inl (DbFail OtherDb)
      else case faulty (ge_fails e GLock) (LockGroup gid d) of
        Inl NoRows \<Rightarrow> Inl (Sentinel ErrNotFoundGroup)
      | Inl err \<Rightarrow> Inl (DbFail err)
      | Inr (mx, cur) \<Rightarrow> fn mx cur)"

text \<open>\<^verbatim>\<open>member\<close>: no row is no error.\<close>

definition repo_member :: "group_env \<Rightarrow> uuid \<Rightarrow> uuid \<Rightarrow> db \<Rightarrow> group_err fail + (string \<times> string list) option" where
  "repo_member e gid uid d =
     (case faulty (ge_fails e (GMember uid)) (GetMember gid uid d) of
        Inl NoRows \<Rightarrow> Inr None | Inl err \<Rightarrow> Inl (DbFail err) | Inr m \<Rightarrow> Inr (Some m))"

definition addLocked :: "group_env \<Rightarrow> int \<Rightarrow> int \<Rightarrow> uuid \<Rightarrow> uuid \<Rightarrow> db \<Rightarrow> unit repo_result" where
  "addLocked e mx cur gid uid d =
     andThen (repo_member e gid uid d) (\<lambda>m.
       if m \<noteq> None then Inl (Sentinel ErrAlreadyMember)
       else if cur \<ge> mx then Inl (Sentinel ErrGroupFull)
       else andThen (dbcall (ge_fails e GAddMember) (AddMember gid uid (ge_now e) d)) (\<lambda>d1.
         if ge_fails e GSetCount then Inl (DbFail OtherDb)
         else Inr ((), SetGroupMemberCount (ge_dbnow e) gid (wrap16 (cur + 1)) d1)))"

definition repo_Join :: "group_env \<Rightarrow> uuid \<Rightarrow> uuid \<Rightarrow> db \<Rightarrow> unit repo_result" where
  "repo_Join e gid uid d = withLockedGroup e gid (\<lambda>mx cur. addLocked e mx cur gid uid d) d"

definition removeLocked :: "group_env \<Rightarrow> int \<Rightarrow> uuid \<Rightarrow> uuid \<Rightarrow> db \<Rightarrow> unit repo_result" where
  "removeLocked e cur gid uid d =
     (if ge_fails e GDeleteMember then Inl (DbFail OtherDb)
      else if ge_fails e GSetCount then Inl (DbFail OtherDb)
      else Inr ((), SetGroupMemberCount (ge_dbnow e) gid (max (wrap16 (cur - 1)) 0) (DeleteMemFromGroup gid uid d)))"

text \<open>
  \<^verbatim>\<open>Leave\<close>. \<open>successorOf\<close> is the part that finds who takes over from a leaving admin:
  \<open>None\<close> when nobody is left.
\<close>

definition successorOf :: "group_env \<Rightarrow> uuid \<Rightarrow> uuid \<Rightarrow> uuid \<Rightarrow> db \<Rightarrow> group_err fail + uuid option" where
  "successorOf e gid uid successor d =
     (if successor = Nil_uuid then
        (case faulty (ge_fails e GNextAdmin) (NextAdmin gid uid d) of
           Inl NoRows \<Rightarrow> Inr None | Inl err \<Rightarrow> Inl (DbFail err) | Inr next \<Rightarrow> Inr (Some next))
      else andThen (repo_member e gid successor d) (\<lambda>m.
        if m = None \<or> successor = uid then Inl (Sentinel ErrNotMember) else Inr (Some successor)))"

definition repo_Leave :: "group_env \<Rightarrow> uuid \<Rightarrow> uuid \<Rightarrow> uuid \<Rightarrow> db \<Rightarrow> leaving repo_result" where
  "repo_Leave e gid uid successor d =
     withLockedGroup e gid (\<lambda>mx cur.
       andThen (repo_member e gid uid d) (\<lambda>m.
         case m of
           None \<Rightarrow> Inl (Sentinel ErrNotMember)
         | Some (role, _) \<Rightarrow>
             if role = RoleAdmin then
               andThen (successorOf e gid uid successor d) (\<lambda>nx.
                 case nx of
                   None \<Rightarrow>
                     if ge_fails e GDeleteGroup then Inl (DbFail OtherDb)
                     else Inr (\<lparr>lv_NewAdmin = Nil_uuid, lv_Deleted = True, lv_Members = [uid]\<rparr>,
                               DeleteGroup gid d)
                 | Some next \<Rightarrow>
                     andThen (dbcall (ge_fails e (GSetRole next)) (SetMemberRole RoleAdmin [] gid next d)) (\<lambda>d1.
                       andThen (removeLocked e cur gid uid d1) (\<lambda>(_, d2).
                         Inr (\<lparr>lv_NewAdmin = next, lv_Deleted = False, lv_Members = []\<rparr>, d2))))
             else
               andThen (removeLocked e cur gid uid d) (\<lambda>(_, d2).
                 Inr (\<lparr>lv_NewAdmin = Nil_uuid, lv_Deleted = False, lv_Members = []\<rparr>, d2)))) d"

text \<open>\<^verbatim>\<open>as\<close>: \<open>fn\<close> runs if the actor may do \<open>perm\<close> (\<open>[]\<close>: only the admin).\<close>

definition repo_as :: "group_env \<Rightarrow> uuid \<Rightarrow> uuid \<Rightarrow> string \<Rightarrow> (int \<Rightarrow> int \<Rightarrow> string \<Rightarrow> 'a repo_result) \<Rightarrow>
    db \<Rightarrow> 'a repo_result" where
  "repo_as e gid actor perm fn d =
     withLockedGroup e gid (\<lambda>mx cur.
       andThen (repo_member e gid actor d) (\<lambda>m.
         case m of
           None \<Rightarrow> Inl (Sentinel ErrNotFoundGroup)
         | Some (role, perms) \<Rightarrow>
             if \<not> allowed role perms perm then Inl (Sentinel ErrNoPermission)
             else fn mx cur role)) d"

definition repo_Kick :: "group_env \<Rightarrow> uuid \<Rightarrow> uuid \<Rightarrow> uuid \<Rightarrow> db \<Rightarrow> unit repo_result" where
  "repo_Kick e gid actor target d =
     repo_as e gid actor PermRemoveMembers (\<lambda>mx cur role.
       if target = actor then Inl (Sentinel ErrKickSelf)
       else andThen (repo_member e gid target d) (\<lambda>t.
         case t of
           None \<Rightarrow> Inl (Sentinel ErrNotMember)
         | Some (trole, _) \<Rightarrow>
             if trole = RoleAdmin then Inl (Sentinel ErrCantRemoveAdmin)
             else if trole = RoleModerator \<and> role \<noteq> RoleAdmin then Inl (Sentinel ErrNoPermission)
             else removeLocked e cur gid target d)) d"

definition repo_Update :: "group_env \<Rightarrow> uuid \<Rightarrow> uuid \<Rightarrow> string option \<Rightarrow> string option \<Rightarrow> string option \<Rightarrow>
    db \<Rightarrow> GroupPreview repo_result" where
  "repo_Update e gid actor nm descr vis d =
     repo_as e gid actor PermEditInfo (\<lambda>mx cur role.
       if vis \<noteq> None \<and> role \<noteq> RoleAdmin then Inl (Sentinel ErrNoPermission)
       else andThen (dbcall (ge_fails e GUpdateInfo) (UpdateGroupInfo (ge_dbnow e) nm descr vis gid d)) (\<lambda>(g, d1).
         Inr (\<lparr>gp_ID = gid, gp_Name = g_name g, gp_Description = g_description g, gp_MaxMembers = mx,
           gp_MemberCount = cur, gp_Visibility = g_visibility g, gp_AvatarURL = None, gp_IsMember = None\<rparr>, d1))) d"

definition repo_TransferAdmin :: "group_env \<Rightarrow> uuid \<Rightarrow> uuid \<Rightarrow> uuid \<Rightarrow> db \<Rightarrow> unit repo_result" where
  "repo_TransferAdmin e gid admin target d =
     repo_as e gid admin [] (\<lambda>_ _ _.
       if target = admin then Inl (Sentinel ErrAlreadyAdmin)
       else andThen (repo_member e gid target d) (\<lambda>t.
         if t = None then Inl (Sentinel ErrNotMember)
         else andThen (dbcall (ge_fails e (GSetRole admin)) (SetMemberRole RoleMember [] gid admin d)) (\<lambda>d1.
           andThen (dbcall (ge_fails e (GSetRole target)) (SetMemberRole RoleAdmin [] gid target d1)) (\<lambda>d2.
             Inr ((), d2))))) d"

definition repo_SetRole :: "group_env \<Rightarrow> uuid \<Rightarrow> uuid \<Rightarrow> uuid \<Rightarrow> string \<Rightarrow> string list \<Rightarrow> db \<Rightarrow>
    unit repo_result" where
  "repo_SetRole e gid admin target role perms d =
     repo_as e gid admin [] (\<lambda>_ _ _.
       if target = admin then Inl (Sentinel ErrSelfRole)
       else andThen (repo_member e gid target d) (\<lambda>t.
         if t = None then Inl (Sentinel ErrNotMember)
         else andThen (dbcall (ge_fails e (GSetRole target))
             (SetMemberRole role (if role = RoleMember then [] else perms) gid target d)) (\<lambda>d1.
           Inr ((), d1)))) d"

definition repo_Delete :: "group_env \<Rightarrow> uuid \<Rightarrow> uuid \<Rightarrow> db \<Rightarrow> uuid list repo_result" where
  "repo_Delete e gid admin d =
     repo_as e gid admin [] (\<lambda>_ _ _.
       if ge_fails e GMemberIds then Inl (DbFail OtherDb)
       else if ge_fails e GDeleteGroup then Inl (DbFail OtherDb)
       else Inr (GetMemberListByID gid d, DeleteGroup gid d)) d"

definition repo_AddMember :: "group_env \<Rightarrow> uuid \<Rightarrow> uuid \<Rightarrow> uuid \<Rightarrow> db \<Rightarrow> unit repo_result" where
  "repo_AddMember e gid actor target d =
     repo_as e gid actor PermAddMembers (\<lambda>mx cur _. addLocked e mx cur gid target d) d"

definition repo_SetAvatar :: "group_env \<Rightarrow> uuid \<Rightarrow> uuid \<Rightarrow> bytes \<Rightarrow> time \<Rightarrow> db \<Rightarrow> unit repo_result" where
  "repo_SetAvatar e gid actor img at d =
     repo_as e gid actor PermEditInfo (\<lambda>_ _ _.
       andThen (dbcall (ge_fails e GUpsertAvatar) (UpsertGroupAvatar gid img at d)) (\<lambda>d1.
         if ge_fails e GSetAvatarAt then Inl (DbFail OtherDb)
         else Inr ((), SetGroupAvatarAt (ge_dbnow e) (Some at) gid d1))) d"

definition repo_DeleteAvatar :: "group_env \<Rightarrow> uuid \<Rightarrow> uuid \<Rightarrow> db \<Rightarrow> unit repo_result" where
  "repo_DeleteAvatar e gid actor d =
     repo_as e gid actor PermEditInfo (\<lambda>_ _ _.
       if ge_fails e GDeleteAvatar then Inl (DbFail OtherDb)
       else if ge_fails e GSetAvatarAt then Inl (DbFail OtherDb)
       else Inr ((), SetGroupAvatarAt (ge_dbnow e) None gid (DeleteGroupAvatar gid d))) d"

definition repo_Avatar :: "group_env \<Rightarrow> uuid \<Rightarrow> uuid \<Rightarrow> db \<Rightarrow> group_err fail + (bytes \<times> time)" where
  "repo_Avatar e gid viewer d =
     (case faulty (ge_fails e GAvatar) (GroupAvatarForMember gid viewer d) of
        Inl NoRows \<Rightarrow> Inl (Sentinel ErrNoAvatar) | Inl err \<Rightarrow> Inl (DbFail err) | Inr a \<Rightarrow> Inr a)"

text \<open>
  \<^verbatim>\<open>Create\<close> draws up to three invite codes; \<open>i\<close> counts the attempts and only a collision of
  the code leads to another one.
\<close>

definition inviteCodeConstraint :: string where
  "inviteCodeConstraint = ''chat_groups_invite_code_key''"

fun createLoop :: "group_env \<Rightarrow> uuid \<Rightarrow> uuid \<Rightarrow> createGroupRequest \<Rightarrow> nat \<Rightarrow> nat \<Rightarrow> db \<Rightarrow> unit repo_result" where
  "createLoop e gid creator req i 0 d = Inl (DbFail OtherDb)"
| "createLoop e gid creator req i (Suc n) d =
     (case NewInviteCode (ge_rand e i) of
        None \<Rightarrow> Inl (DbFail OtherDb)
      | Some code \<Rightarrow>
          (case (if ge_fails e GTx then Inl OtherDb
                 else andThen (faulty (ge_fails e (GCreate i)) (CreateGroup (ge_dbnow e) gid (cgr_GroupName req)
                     (cgr_Description req) (cgr_MaxMems req) code (cgr_Visibility req) d)) (\<lambda>d1.
                   faulty (ge_fails e (GCreateLeader i)) (CreateGroupLeaderRole gid creator (ge_now e) d1))) of
             Inr d2 \<Rightarrow> Inr ((), d2)
           | Inl err \<Rightarrow>
               if err = UniqueViolation inviteCodeConstraint then createLoop e gid creator req (Suc i) n d
               else Inl (DbFail err)))"

definition repo_Create :: "group_env \<Rightarrow> uuid \<Rightarrow> uuid \<Rightarrow> createGroupRequest \<Rightarrow> db \<Rightarrow> unit repo_result" where
  "repo_Create e gid creator req d = createLoop e gid creator req 0 3 d"

fun regenerateLoop :: "group_env \<Rightarrow> uuid \<Rightarrow> nat \<Rightarrow> nat \<Rightarrow> db \<Rightarrow> string repo_result" where
  "regenerateLoop e gid i 0 d = Inl (DbFail OtherDb)"
| "regenerateLoop e gid i (Suc n) d =
     (case NewInviteCode (ge_rand e i) of
        None \<Rightarrow> Inl (DbFail OtherDb)
      | Some code \<Rightarrow>
          (case faulty (ge_fails e (GSetCode i)) (SetInviteCode (ge_dbnow e) gid code d) of
             Inr d1 \<Rightarrow> Inr (code, d1)
           | Inl err \<Rightarrow>
               if err = UniqueViolation inviteCodeConstraint then regenerateLoop e gid (Suc i) n d
               else Inl (DbFail err)))"

definition repo_RegenerateInviteCode :: "group_env \<Rightarrow> uuid \<Rightarrow> db \<Rightarrow> string repo_result" where
  "repo_RegenerateInviteCode e gid d = regenerateLoop e gid 0 3 d"

definition preview :: "uuid \<Rightarrow> string \<Rightarrow> string \<Rightarrow> int \<Rightarrow> int \<Rightarrow> string \<Rightarrow> time option \<Rightarrow> GroupPreview" where
  "preview i nm descr mx n vis avatarAt =
     \<lparr>gp_ID = i, gp_Name = nm, gp_Description = descr, gp_MaxMembers = mx, gp_MemberCount = n,
      gp_Visibility = vis, gp_AvatarURL = (if vis = Public then AvatarURL i avatarAt else None),
      gp_IsMember = None\<rparr>"

definition repo_ByInviteCode :: "group_env \<Rightarrow> string \<Rightarrow> db \<Rightarrow> group_err fail + GroupPreview" where
  "repo_ByInviteCode e code d =
     (case faulty (ge_fails e GByCode) (GetGroupByInviteCode code d) of
        Inl NoRows \<Rightarrow> Inl (Sentinel ErrNotFoundGroup)
      | Inl err \<Rightarrow> Inl (DbFail err)
      | Inr g \<Rightarrow> Inr (preview (g_id g) (g_name g) (g_description g) (g_max_member g) (g_current_member g)
          (g_visibility g) None))"

definition repo_Search :: "group_env \<Rightarrow> uuid \<Rightarrow> string \<Rightarrow> db \<Rightarrow> group_err fail + GroupPreview list" where
  "repo_Search e viewer q d =
     (if ge_fails e GSearch then Inl (DbFail OtherDb)
      else Inr (map (\<lambda>(g, member). (preview (g_id g) (g_name g) (g_description g) (g_max_member g)
            (g_current_member g) Public (g_avatar_at g))\<lparr>gp_IsMember := Some member\<rparr>)
          (SearchPublicGroups (ge_pglower e) viewer q d)))"

definition repo_InviteCode :: "group_env \<Rightarrow> uuid \<Rightarrow> db \<Rightarrow> group_err fail + string" where
  "repo_InviteCode e gid d =
     (case faulty (ge_fails e GGetCode) (GetInviteCode gid d) of
        Inl NoRows \<Rightarrow> Inl (Sentinel ErrNotFoundGroup) | Inl err \<Rightarrow> Inl (DbFail err) | Inr c \<Rightarrow> Inr c)"

definition repo_ListForUser :: "group_env \<Rightarrow> uuid \<Rightarrow> db \<Rightarrow> group_err fail + GroupSummary list" where
  "repo_ListForUser e uid d =
     (if ge_fails e GListForUser then Inl (DbFail OtherDb)
      else Inr (map (\<lambda>(g, m). \<lparr>gsm_ID = g_id g, gsm_Name = g_name g, gsm_Description = g_description g,
          gsm_MaxMembers = g_max_member g, gsm_Members = g_current_member g, gsm_Visibility = g_visibility g,
          gsm_Role = mt_role m, gsm_Permissions = mt_permissions m,
          gsm_AvatarURL = AvatarURL (g_id g) (g_avatar_at g)\<rparr>)
        (ListGroupsForUser (ge_coll e) uid d)))"

definition repo_Detail :: "group_env \<Rightarrow> uuid \<Rightarrow> uuid \<Rightarrow> db \<Rightarrow> group_err fail + GroupDetail" where
  "repo_Detail e gid viewer d =
     (case faulty (ge_fails e GDetailInfo) (GetGroupInfoByID gid d) of
        Inl NoRows \<Rightarrow> Inl (Sentinel ErrNotFoundGroup)
      | Inl err \<Rightarrow> Inl (DbFail err)
      | Inr g \<Rightarrow>
          if ge_fails e GDetailMembers then Inl (DbFail OtherDb)
          else
            (let rows = ListGroupMembers gid d;
                 members = map (\<lambda>(m, u). \<lparr>gmb_UserID = mt_member_id m, gmb_Name = u_name u,
                   gmb_Shown = (if u_display_name u = [] then u_name u else u_display_name u),
                   gmb_Role = mt_role m, gmb_Permissions = mt_permissions m,
                   gmb_AvatarAt = u_avatar_at u\<rparr>) rows;
                 isMember = list_ex (\<lambda>(m, u). mt_member_id m = viewer) rows
             in Inr \<lparr>gd_ID = g_id g, gd_Name = g_name g, gd_Description = g_description g,
                  gd_MaxMembers = g_max_member g, gd_MemberCount = g_current_member g,
                  gd_Visibility = g_visibility g, gd_IsMember = isMember,
                  gd_AvatarURL = (if isMember \<or> g_visibility g = Public
                    then AvatarURL (g_id g) (g_avatar_at g) else None),
                  gd_Members = (if isMember then members else [])\<rparr>))"

definition group_snapshot_of :: "db \<Rightarrow> uuid \<Rightarrow> group_err fail + GroupSnapshot" where
  "group_snapshot_of d gid =
     (case find_group gid d of
        None \<Rightarrow> Inl (Sentinel ErrNotFoundGroup)
      | Some g \<Rightarrow> Inr \<lparr>gs_Name = g_name g, gs_MaxMem = g_max_member g,
          gs_AdminID = (case GetGroupLeader gid d of Inl _ \<Rightarrow> Nil_uuid | Inr a \<Rightarrow> a),
          gs_Public = (g_visibility g = Public), gs_Members = GetMemberListByID gid d,
          gs_Mods = map_of (rev (ModeratorsOf gid d))\<rparr>)"

definition repo_Snapshot :: "group_env \<Rightarrow> nat \<Rightarrow> uuid \<Rightarrow> db \<Rightarrow> group_err fail + GroupSnapshot" where
  "repo_Snapshot e ph gid d =
     (if ge_fails e (GSnap ph SInfo) then Inl (DbFail OtherDb)
      else if find_group gid d = None then Inl (Sentinel ErrNotFoundGroup)
      else if ge_fails e (GSnap ph SMemberIds) then Inl (DbFail OtherDb)
      else if ge_fails e (GSnap ph SLeader) then Inl (DbFail OtherDb)
      else if ge_fails e (GSnap ph SMods) then Inl (DbFail OtherDb)
      else group_snapshot_of d gid)"

lemmas groups_repo_defs = repo_Join_def repo_Leave_def repo_Kick_def repo_Update_def
  repo_TransferAdmin_def repo_SetRole_def repo_Delete_def repo_AddMember_def repo_SetAvatar_def
  repo_DeleteAvatar_def

section \<open>The service\<close>

record gsys =
  gy_db :: db
  gy_cache :: "(uuid, GroupSnapshot) vcache"

type_synonym 'a groups_result = "(group_err fail + 'a) \<times> gsys \<times> effect list"

definition validVisibility :: "string \<Rightarrow> bool" where
  "validVisibility v \<longleftrightarrow> v = Private \<or> v = Public"

definition validateCreate :: "createGroupRequest \<Rightarrow> group_err + createGroupRequest" where
  "validateCreate req0 =
     (let req = req0\<lparr>cgr_GroupName := TrimSpace (cgr_GroupName req0),
            cgr_Visibility := (if cgr_Visibility req0 = [] then Private else cgr_Visibility req0)\<rparr>;
          n = RuneCountInString (cgr_GroupName req)
      in if n = 0 \<or> n > maxGroupNameLen \<or> RuneCountInString (cgr_Description req) > maxDescLen \<or>
            \<not> validVisibility (cgr_Visibility req) then Inl ErrInvalidGroupReq
         else if cgr_MaxMems req < 2 \<or> cgr_MaxMems req > maxGroupSize then Inl ErrInvalidGroupReq
         else Inr req)"

definition svc_CreateGroup :: "group_env \<Rightarrow> uuid \<Rightarrow> createGroupRequest \<Rightarrow> gsys \<Rightarrow> uuid groups_result" where
  "svc_CreateGroup e creator req0 s =
     (case validateCreate req0 of
        Inl err \<Rightarrow> (Inl (Sentinel err), s, [])
      | Inr req \<Rightarrow>
          if ge_fails e GUuid then (Inl (DbFail OtherDb), s, [])
          else case repo_Create e (ge_uuid e) creator req (gy_db s) of
            Inl err \<Rightarrow> (Inl err, s, [])
          | Inr (_, d') \<Rightarrow> (Inr (ge_uuid e), s\<lparr>gy_db := d'\<rparr>, []))"

definition snapshot :: "group_env \<Rightarrow> nat \<Rightarrow> uuid \<Rightarrow> gsys \<Rightarrow> (group_err fail + GroupSnapshot) \<times> gsys" where
  "snapshot e ph gid s =
     (let (r, c') = VLoad (\<lambda>c. ge_fails e (GSnap ph (SCache c))) gid (repo_Snapshot e ph gid (gy_db s)) (gy_cache s)
      in (r, s\<lparr>gy_cache := c'\<rparr>))"

definition check :: "group_env \<Rightarrow> nat \<Rightarrow> uuid \<Rightarrow> uuid \<Rightarrow> string \<Rightarrow> gsys \<Rightarrow> (group_err fail + unit) \<times> gsys" where
  "check e ph gid user perm s =
     (case snapshot e ph gid s of
        (Inl err, s1) \<Rightarrow> (Inl err, s1)
      | (Inr snap, s1) \<Rightarrow>
          (let (role, perms) = Role snap user in
           if role = [] then (Inl (Sentinel ErrNotFoundGroup), s1)
           else if \<not> allowed role perms perm then (Inl (Sentinel ErrNoPermission), s1)
           else (Inr (), s1)))"

definition IsMember :: "group_env \<Rightarrow> nat \<Rightarrow> uuid \<Rightarrow> uuid \<Rightarrow> gsys \<Rightarrow> (group_err fail + bool) \<times> gsys" where
  "IsMember e ph gid uid s =
     (case snapshot e ph gid s of
        (Inl err, s1) \<Rightarrow> (Inl err, s1)
      | (Inr snap, s1) \<Rightarrow> (Inr (uid \<in> set (gs_Members snap)), s1))"

definition Members :: "group_env \<Rightarrow> nat \<Rightarrow> uuid \<Rightarrow> gsys \<Rightarrow> (group_err fail + uuid list) \<times> gsys" where
  "Members e ph gid s =
     (case snapshot e ph gid s of
        (Inl err, s1) \<Rightarrow> (Inl err, s1)
      | (Inr snap, s1) \<Rightarrow> (Inr (gs_Members snap), s1))"

definition GroupName :: "group_env \<Rightarrow> nat \<Rightarrow> uuid \<Rightarrow> gsys \<Rightarrow> (group_err fail + string) \<times> gsys" where
  "GroupName e ph gid s =
     (case snapshot e ph gid s of
        (Inl err, s1) \<Rightarrow> (Inl err, s1) | (Inr snap, s1) \<Rightarrow> (Inr (gs_Name snap), s1))"

definition may_delete_message :: "GroupSnapshot \<Rightarrow> uuid \<Rightarrow> uuid \<Rightarrow> bool" where
  "may_delete_message snap actor sender =
     (let (role, perms) = Role snap actor in
      if role = RoleAdmin then True
      else if \<not> allowed role perms PermDeleteMessages then False
      else fst (Role snap sender) \<noteq> RoleAdmin \<and> fst (Role snap sender) \<noteq> RoleModerator)"

definition CanDeleteMessage :: "group_env \<Rightarrow> nat \<Rightarrow> uuid \<Rightarrow> uuid \<Rightarrow> uuid \<Rightarrow> gsys \<Rightarrow> (group_err fail + bool) \<times> gsys" where
  "CanDeleteMessage e ph gid actor sender s =
     (case snapshot e ph gid s of
        (Inl err, s1) \<Rightarrow> (Inl err, s1)
      | (Inr snap, s1) \<Rightarrow> (Inr (may_delete_message snap actor sender), s1))"

definition group_invalidate :: "group_env \<Rightarrow> uuid \<Rightarrow> gsys \<Rightarrow> gsys" where
  "group_invalidate e gid s = s\<lparr>gy_cache := VInvalidate_flt (\<lambda>_. ge_fails e GInvalidate) [gid] (gy_cache s)\<rparr>"

definition pushTo :: "uuid list \<Rightarrow> string \<Rightarrow> payload \<Rightarrow> effect list" where
  "pushTo to event pl = (if to = [] then [] else [WriteToUsers to (Event event pl)])"

definition pushMembers :: "group_env \<Rightarrow> nat \<Rightarrow> uuid \<Rightarrow> uuid \<Rightarrow> string \<Rightarrow> uuid \<Rightarrow> gsys \<Rightarrow> gsys \<times> effect list" where
  "pushMembers e ph gid actor change user s =
     (case Members e ph gid s of
        (Inl _, s1) \<Rightarrow> (s1, [])
      | (Inr members, s1) \<Rightarrow>
          (s1, pushTo (without actor members) EventGroupUpd
             (OutGroupUpdated gid change (if user \<noteq> Nil_uuid then Some user else None))))"

text \<open>After a committed change: drop the snapshot, then tell the members.\<close>

definition changed :: "group_env \<Rightarrow> uuid \<Rightarrow> uuid \<Rightarrow> string \<Rightarrow> uuid \<Rightarrow> db \<Rightarrow> gsys \<Rightarrow> gsys \<times> effect list" where
  "changed e gid actor change user d' s =
     pushMembers e 2 gid actor change user (group_invalidate e gid (s\<lparr>gy_db := d'\<rparr>))"

definition svc_JoinGroup :: "group_env \<Rightarrow> uuid \<Rightarrow> uuid \<Rightarrow> gsys \<Rightarrow> unit groups_result" where
  "svc_JoinGroup e gid uid s =
     (case repo_Join e gid uid (gy_db s) of
        Inl err \<Rightarrow> (Inl err, s, [])
      | Inr (_, d') \<Rightarrow> (let (s1, es) = changed e gid uid ''joined'' uid d' s in (Inr (), s1, es)))"

definition svc_JoinPublic :: "group_env \<Rightarrow> uuid \<Rightarrow> uuid \<Rightarrow> gsys \<Rightarrow> unit groups_result" where
  "svc_JoinPublic e gid uid s =
     (case snapshot e 0 gid s of
        (Inl err, s1) \<Rightarrow> (Inl err, s1, [])
      | (Inr snap, s1) \<Rightarrow>
          if \<not> gs_Public snap then (Inl (Sentinel ErrNotFoundGroup), s1, [])
          else svc_JoinGroup e gid uid s1)"

definition svc_LeaveGroup :: "group_env \<Rightarrow> uuid \<Rightarrow> uuid \<Rightarrow> uuid \<Rightarrow> gsys \<Rightarrow> unit groups_result" where
  "svc_LeaveGroup e gid uid successor s =
     (case repo_Leave e gid uid successor (gy_db s) of
        Inl err \<Rightarrow> (Inl err, s, [])
      | Inr (left, d') \<Rightarrow>
          (let s1 = group_invalidate e gid (s\<lparr>gy_db := d'\<rparr>) in
           if lv_Deleted left then (Inr (), s1, [GroupDeleted gid])
           else
             (let (s2, es1) = (if lv_NewAdmin left \<noteq> Nil_uuid
                    then pushMembers e 2 gid uid ''admin'' (lv_NewAdmin left) s1 else (s1, []));
                  (s3, es2) = pushMembers e 3 gid uid ''members'' uid s2
              in (Inr (), s3, es1 @ es2))))"

definition svc_GroupDetail :: "group_env \<Rightarrow> uuid \<Rightarrow> uuid \<Rightarrow> gsys \<Rightarrow> group_err fail + GroupDetail" where
  "svc_GroupDetail e gid viewer s =
     (case repo_Detail e gid viewer (gy_db s) of
        Inl err \<Rightarrow> Inl err
      | Inr gd \<Rightarrow> if \<not> gd_IsMember gd \<and> gd_Visibility gd \<noteq> Public then Inl (Sentinel ErrNotFoundGroup)
                else Inr gd)"

fun escapeLike :: "string \<Rightarrow> string" where
  "escapeLike [] = []"
| "escapeLike (c # cs) =
     (if c = CHR 0x5C \<or> c = CHR ''%'' \<or> c = CHR ''_'' then CHR 0x5C # c # escapeLike cs
      else c # escapeLike cs)"

definition svc_Search :: "group_env \<Rightarrow> uuid \<Rightarrow> string \<Rightarrow> gsys \<Rightarrow> group_err fail + GroupPreview list" where
  "svc_Search e viewer q0 s =
     (let q = ge_ToLower e (TrimSpace q0); n = RuneCountInString q in
      if n < 2 \<or> n > maxGroupNameLen then Inl (Sentinel ErrBadSearch)
      else repo_Search e viewer (escapeLike q) (gy_db s))"

definition svc_PreviewInvite :: "group_env \<Rightarrow> string \<Rightarrow> gsys \<Rightarrow> group_err fail + GroupPreview" where
  "svc_PreviewInvite e raw s =
     (case NormalizeInviteCode raw of
        None \<Rightarrow> Inl (Sentinel ErrInvalidInviteCode)
      | Some code \<Rightarrow> repo_ByInviteCode e code (gy_db s))"

definition svc_JoinByInvite :: "group_env \<Rightarrow> uuid \<Rightarrow> string \<Rightarrow> gsys \<Rightarrow> uuid groups_result" where
  "svc_JoinByInvite e uid raw s =
     (case svc_PreviewInvite e raw s of
        Inl err \<Rightarrow> (Inl err, s, [])
      | Inr g \<Rightarrow>
          (case svc_JoinGroup e (gp_ID g) uid s of
             (Inl err, s1, es) \<Rightarrow> (Inl err, s1, es)
           | (Inr _, s1, es) \<Rightarrow> (Inr (gp_ID g), s1, es)))"

definition svc_InviteCode :: "group_env \<Rightarrow> uuid \<Rightarrow> uuid \<Rightarrow> gsys \<Rightarrow> (group_err fail + string) \<times> gsys" where
  "svc_InviteCode e gid viewer s =
     (case IsMember e 0 gid viewer s of
        (Inl err, s1) \<Rightarrow> (Inl err, s1)
      | (Inr ok, s1) \<Rightarrow>
          if \<not> ok then (Inl (Sentinel ErrNotFoundGroup), s1)
          else (andThen (repo_InviteCode e gid (gy_db s1)) (\<lambda>code. Inr (FormatInviteCode code)), s1))"

definition svc_RegenerateInvite :: "group_env \<Rightarrow> uuid \<Rightarrow> uuid \<Rightarrow> gsys \<Rightarrow> string groups_result" where
  "svc_RegenerateInvite e gid uid s =
     (case check e 0 gid uid PermManageInvite s of
        (Inl err, s1) \<Rightarrow> (Inl err, s1, [])
      | (Inr _, s1) \<Rightarrow>
          (case repo_RegenerateInviteCode e gid (gy_db s1) of
             Inl err \<Rightarrow> (Inl err, s1, [])
           | Inr (code, d') \<Rightarrow> (Inr (FormatInviteCode code), s1\<lparr>gy_db := d'\<rparr>, [])))"

definition svc_Kick :: "group_env \<Rightarrow> uuid \<Rightarrow> uuid \<Rightarrow> uuid \<Rightarrow> gsys \<Rightarrow> unit groups_result" where
  "svc_Kick e gid actor target s =
     (case repo_Kick e gid actor target (gy_db s) of
        Inl err \<Rightarrow> (Inl err, s, [])
      | Inr (_, d') \<Rightarrow>
          (let (s1, es) = changed e gid actor ''members'' target d' s
           in (Inr (), s1, pushTo [target] EventGroupGone (OutGroupRemoved gid ''kicked'') @ es)))"

definition svc_Update :: "group_env \<Rightarrow> uuid \<Rightarrow> uuid \<Rightarrow> updateGroupRequest \<Rightarrow> gsys \<Rightarrow> GroupPreview groups_result" where
  "svc_Update e gid actor req s =
     (if ugr_GroupName req = None \<and> ugr_Description req = None \<and> ugr_Visibility req = None
        then (Inl (Sentinel ErrNothingToUpdate), s, [])
      else
        (let nm = map_option TrimSpace (ugr_GroupName req) in
         if (case nm of None \<Rightarrow> False | Some x \<Rightarrow>
               RuneCountInString x = 0 \<or> RuneCountInString x > maxGroupNameLen)
           then (Inl (Sentinel ErrInvalidGroupInfo), s, [])
         else if (case ugr_Description req of None \<Rightarrow> False | Some x \<Rightarrow> RuneCountInString x > maxDescLen)
           then (Inl (Sentinel ErrInvalidGroupInfo), s, [])
         else if (case ugr_Visibility req of None \<Rightarrow> False | Some v \<Rightarrow> \<not> validVisibility v)
           then (Inl (Sentinel ErrInvalidGroupInfo), s, [])
         else case repo_Update e gid actor nm (ugr_Description req) (ugr_Visibility req) (gy_db s) of
           Inl err \<Rightarrow> (Inl err, s, [])
         | Inr (g, d') \<Rightarrow>
             (let (s1, es) = changed e gid actor ''info'' Nil_uuid d' s in (Inr g, s1, es))))"

definition svc_TransferAdmin :: "group_env \<Rightarrow> uuid \<Rightarrow> uuid \<Rightarrow> uuid \<Rightarrow> gsys \<Rightarrow> unit groups_result" where
  "svc_TransferAdmin e gid admin target s =
     (case repo_TransferAdmin e gid admin target (gy_db s) of
        Inl err \<Rightarrow> (Inl err, s, [])
      | Inr (_, d') \<Rightarrow> (let (s1, es) = changed e gid admin ''admin'' target d' s in (Inr (), s1, es)))"

definition svc_SetRole :: "group_env \<Rightarrow> uuid \<Rightarrow> uuid \<Rightarrow> uuid \<Rightarrow> roleRequest \<Rightarrow> gsys \<Rightarrow> unit groups_result" where
  "svc_SetRole e gid admin target req s =
     (if rr_Role req \<noteq> RoleModerator \<and> rr_Role req \<noteq> RoleMember then (Inl (Sentinel ErrBadRole), s, [])
      else case cleanPermissions (rr_Permissions req) of
        Inl err \<Rightarrow> (Inl (Sentinel err), s, [])
      | Inr perms \<Rightarrow>
          (case repo_SetRole e gid admin target (rr_Role req) perms (gy_db s) of
             Inl err \<Rightarrow> (Inl err, s, [])
           | Inr (_, d') \<Rightarrow> (let (s1, es) = changed e gid admin ''role'' target d' s in (Inr (), s1, es))))"

definition svc_Delete :: "group_env \<Rightarrow> uuid \<Rightarrow> uuid \<Rightarrow> gsys \<Rightarrow> unit groups_result" where
  "svc_Delete e gid admin s =
     (case repo_Delete e gid admin (gy_db s) of
        Inl err \<Rightarrow> (Inl err, s, [])
      | Inr (members, d') \<Rightarrow>
          (Inr (), group_invalidate e gid (s\<lparr>gy_db := d'\<rparr>),
           GroupDeleted gid # pushTo (without admin members) EventGroupGone (OutGroupRemoved gid ''deleted'')))"

definition svc_AddFriend :: "group_env \<Rightarrow> uuid \<Rightarrow> uuid \<Rightarrow> uuid \<Rightarrow> gsys \<Rightarrow> unit groups_result" where
  "svc_AddFriend e gid actor target s =
     (case check e 0 gid actor PermAddMembers s of
        (Inl err, s1) \<Rightarrow> (Inl err, s1, [])
      | (Inr _, s1) \<Rightarrow>
          (case IsMember e 1 gid target s1 of
             (Inl err, s2) \<Rightarrow> (Inl err, s2, [])
           | (Inr isIn, s2) \<Rightarrow>
               if isIn then (Inl (Sentinel ErrAlreadyMember), s2, [])
               else case ge_friends e actor target of
                 None \<Rightarrow> (Inl (DbFail OtherDb), s2, [])
               | Some ok \<Rightarrow>
                   if \<not> ok then (Inl (Sentinel ErrNotFriend), s2, [])
                   else case repo_AddMember e gid actor target (gy_db s2) of
                     Inl err \<Rightarrow> (Inl err, s2, [])
                   | Inr (_, d') \<Rightarrow>
                       (let (s3, es) = changed e gid actor ''joined'' target d' s2
                        in (Inr (), s3,
                            pushTo [target] EventGroupAdded (OutGroupAdded gid actor) @ es @
                            [Notify ((push_job KindGroupAdded [target] actor)\<lparr>j_group := gid\<rparr>)]))))"

text \<open>The upload time is the clock truncated to milliseconds. The snapshot shows no picture
  and is not invalidated.\<close>

definition svc_SetAvatar :: "group_env \<Rightarrow> uuid \<Rightarrow> uuid \<Rightarrow> bytes \<Rightarrow> gsys \<Rightarrow> group_avatar_url option groups_result" where
  "svc_SetAvatar e gid actor raw s =
     (case ge_image e raw of
        Inl err \<Rightarrow> (Inl (Sentinel err), s, [])
      | Inr img \<Rightarrow>
          (let at = ge_now e - ge_now e mod millisecond in
           case repo_SetAvatar e gid actor img at (gy_db s) of
             Inl err \<Rightarrow> (Inl err, s, [])
           | Inr (_, d') \<Rightarrow>
               (let (s1, es) = pushMembers e 2 gid actor ''info'' Nil_uuid (s\<lparr>gy_db := d'\<rparr>)
                in (Inr (AvatarURL gid (Some at)), s1, es))))"

definition svc_DeleteAvatar :: "group_env \<Rightarrow> uuid \<Rightarrow> uuid \<Rightarrow> gsys \<Rightarrow> unit groups_result" where
  "svc_DeleteAvatar e gid actor s =
     (case repo_DeleteAvatar e gid actor (gy_db s) of
        Inl err \<Rightarrow> (Inl err, s, [])
      | Inr (_, d') \<Rightarrow>
          (let (s1, es) = pushMembers e 2 gid actor ''info'' Nil_uuid (s\<lparr>gy_db := d'\<rparr>)
           in (Inr (), s1, es)))"

definition svc_Avatar :: "group_env \<Rightarrow> uuid \<Rightarrow> uuid \<Rightarrow> gsys \<Rightarrow> group_err fail + (bytes \<times> time)" where
  "svc_Avatar e gid viewer s = repo_Avatar e gid viewer (gy_db s)"

definition svc_MyGroups :: "group_env \<Rightarrow> uuid \<Rightarrow> gsys \<Rightarrow> group_err fail + GroupSummary list" where
  "svc_MyGroups e uid s = repo_ListForUser e uid (gy_db s)"

section \<open>The service as a step function\<close>

datatype group_op =
    GCreateOp uuid createGroupRequest
  | GJoinPublicOp uuid uuid
  | GJoinByInviteOp uuid string
  | GLeaveOp uuid uuid uuid
  | GRegenerateOp uuid uuid
  | GKickOp uuid uuid uuid
  | GUpdateOp uuid uuid updateGroupRequest
  | GTransferOp uuid uuid uuid
  | GSetRoleOp uuid uuid uuid roleRequest
  | GDeleteOp uuid uuid
  | GAddFriendOp uuid uuid uuid
  | GSetAvatarOp uuid uuid bytes
  | GDeleteAvatarOp uuid uuid
  | GReadOp uuid

definition unit_result :: "'a groups_result \<Rightarrow> unit groups_result" where
  "unit_result r = (case r of (x, s, es) \<Rightarrow> (case x of Inl err \<Rightarrow> Inl err | Inr _ \<Rightarrow> Inr (), s, es))"

fun groups_exec :: "group_env \<Rightarrow> group_op \<Rightarrow> gsys \<Rightarrow> unit groups_result" where
  "groups_exec e (GCreateOp u req) s = unit_result (svc_CreateGroup e u req s)"
| "groups_exec e (GJoinPublicOp g u) s = svc_JoinPublic e g u s"
| "groups_exec e (GJoinByInviteOp u raw) s = unit_result (svc_JoinByInvite e u raw s)"
| "groups_exec e (GLeaveOp g u succ) s = svc_LeaveGroup e g u succ s"
| "groups_exec e (GRegenerateOp g u) s = unit_result (svc_RegenerateInvite e g u s)"
| "groups_exec e (GKickOp g u t) s = svc_Kick e g u t s"
| "groups_exec e (GUpdateOp g u req) s = unit_result (svc_Update e g u req s)"
| "groups_exec e (GTransferOp g u t) s = svc_TransferAdmin e g u t s"
| "groups_exec e (GSetRoleOp g u t req) s = svc_SetRole e g u t req s"
| "groups_exec e (GDeleteOp g u) s = svc_Delete e g u s"
| "groups_exec e (GAddFriendOp g u t) s = svc_AddFriend e g u t s"
| "groups_exec e (GSetAvatarOp g u raw) s = unit_result (svc_SetAvatar e g u raw s)"
| "groups_exec e (GDeleteAvatarOp g u) s = svc_DeleteAvatar e g u s"
| "groups_exec e (GReadOp g) s = (Inr (), snd (snapshot e 0 g s), [])"

fun groups_run :: "(group_env \<times> group_op) list \<Rightarrow> gsys \<Rightarrow> gsys" where
  "groups_run [] s = s"
| "groups_run ((e, op) # ops) s = groups_run ops (fst (snd (groups_exec e op s)))"

end
