(* ===== verification/Chat.thy ===== *)
theory Chat
  imports Chat_DB Friends Groups_Service
begin

text \<open>
  \<^verbatim>\<open>internal/chat\<close>: sending, reading, editing, deleting and reacting to messages, and read
  markers. The friends and groups services are arguments (\<^verbatim>\<open>FriendChecker\<close>, \<^verbatim>\<open>GroupMembership\<close>),
  as is the media service (\<^verbatim>\<open>MediaStore\<close>).
\<close>

section \<open>Types\<close>

definition TypePrivate :: string where "TypePrivate = ''private''"
definition TypePublic :: string where "TypePublic = ''public''"

lemma types_neq [simp]: "TypePrivate \<noteq> TypePublic" "TypePublic \<noteq> TypePrivate"
  by (simp_all add: TypePrivate_def TypePublic_def)

datatype chat_err =
    ErrNotAuthorized | ErrNotFriendsChat | ErrNotValidToID | ErrNotValidUUID | ErrNotValidTimeFmt
  | ErrNotValidParentID | ErrNotSupportedTypeMsg | ErrEmptyMessage | ErrMessageNotInChat | ErrBadCursor
  | ErrSinceAndBefore | ErrSinceNotSupported | ErrMessageNotFound | ErrBadClientID | ErrNotYourMessage
  | ErrEditWindowClosed | ErrNotGroupMessage | ErrGroupTooBig | ErrNotAnEmoji | ErrBadForward
  | GroupsErr group_err | MediaErr string

definition MediaDisabled :: chat_err where "MediaDisabled = MediaErr ''disabled''"

definition EditWindow :: duration where "EditWindow = 15 * minute"
definition maxMessageLen :: nat where "maxMessageLen = 500"
definition streamCap :: nat where "streamCap = 200"
definition pageSize :: nat where "pageSize = 30"
definition maxPage :: nat where "maxPage = 100"
definition ReadByMaxMembers :: nat where "ReadByMaxMembers = 50"
definition MaxForwardTargets :: nat where "MaxForwardTargets = 5"
definition bannedTTL :: duration where "bannedTTL = 30 * second"

text \<open>An id that arrives as a string: absent (\<^verbatim>\<open>""\<close>), not a UUID, or a UUID.\<close>

datatype id_text = NoId | BadId | Id uuid

record InCommingMessage =
  in_Content :: string
  in_ParendID :: id_text
  in_ToID :: id_text
  in_Type :: string
  in_Media :: "uuid list"
  in_Forwarded :: bool

text \<open>An attachment, as far as chat looks at it.\<close>

record Attachment =
  at_ID :: uuid
  at_Kind :: string
  at_DurationMs :: int
  at_FileName :: string

record messageRef =
  rf_Kind :: string
  rf_From :: uuid
  rf_To :: uuid
  rf_Group :: uuid
  rf_CreatedAt :: time

record MessageMetaDataRes =
  mr_ID :: uuid
  mr_FromID :: uuid
  mr_Content :: string
  mr_ParendID :: "uuid option"
  mr_ToID :: "uuid option"
  mr_Type :: string
  mr_CreatedAt :: time
  mr_EditedAt :: "time option"
  mr_Deleted :: bool
  mr_Forwarded :: bool
  mr_Reactions :: "(string \<times> nat \<times> bool) list"
  mr_Media :: "Attachment list"
  mr_SenderSuspended :: bool

text \<open>
  The state: the database, the cached list of banned accounts with its time, and the receipts
  published on \<^verbatim>\<open>TopicSeen\<close> that the workers have still to store (chat, message, reader).
\<close>

record chat_sys =
  cy_db :: db
  cy_banned :: "(uuid list \<times> time) option"
  cy_seen :: "(string \<times> uuid \<times> uuid) list"

datatype chat_call =
    CUuid | CAdd | CParent | CLocate | CLocateGroup | CEdit | CDelete | CReact | CUnreact | CSummary | CReactors
  | CReadBy | CSenders | CCursor | CMarkRead | CPage | CJoined | CContent | CBanned | CSetSeen | CPublish | CSeenWrite

record chat_env =
  ch_fails :: "chat_call \<Rightarrow> bool"
  ch_now :: time
  ch_dbnow :: time
  ch_uuid :: uuid
  ch_friends :: "uuid \<Rightarrow> uuid \<Rightarrow> bool option"
  ch_members :: "uuid \<Rightarrow> group_err fail + uuid list"
  ch_isMember :: "uuid \<Rightarrow> uuid \<Rightarrow> group_err fail + bool"
  ch_canDelete :: "uuid \<Rightarrow> uuid \<Rightarrow> uuid \<Rightarrow> group_err fail + bool"
  ch_media :: bool
  ch_attach :: "uuid \<Rightarrow> uuid list \<Rightarrow> string \<Rightarrow> uuid \<Rightarrow> uuid \<Rightarrow> chat_err fail + Attachment list"
  ch_attached :: "uuid \<Rightarrow> chat_err fail + Attachment list"
  ch_duplicate :: "uuid \<Rightarrow> uuid \<Rightarrow> chat_err fail + uuid"
  ch_notify :: bool
  ch_scan :: "message_row list \<Rightarrow> message_row list"
  ch_gscan :: "groupmessage_row list \<Rightarrow> groupmessage_row list"

type_synonym 'a chat_result = "(chat_err fail + 'a) \<times> chat_sys \<times> effect list"

text \<open>Errors of the groups service and of a query passed on.\<close>

definition from_groups :: "group_err fail + 'a \<Rightarrow> chat_err fail + 'a" where
  "from_groups r = (case r of Inl (Sentinel x) \<Rightarrow> Inl (Sentinel (GroupsErr x)) | Inl (DbFail x) \<Rightarrow> Inl (DbFail x) | Inr a \<Rightarrow> Inr a)"

definition query :: "chat_env \<Rightarrow> chat_call \<Rightarrow> 'a \<Rightarrow> chat_err fail + 'a" where
  "query e c a = (if ch_fails e c then Inl (DbFail OtherDb) else Inr a)"

lemma query_Inr [simp]: "query e c a = Inr b \<longleftrightarrow> \<not> ch_fails e c \<and> a = b"
  by (simp add: query_def)

section \<open>The conversation id\<close>

text \<open>\<^verbatim>\<open>uuid.UUID.String\<close>: 32 hexadecimal digits in groups of 8, 4, 4, 4 and 12.\<close>

definition hexdigit :: "nat \<Rightarrow> char" where
  "hexdigit n = ''0123456789abcdef'' ! n"

definition nibble :: "uuid \<Rightarrow> nat \<Rightarrow> nat" where
  "nibble u k = unat u div 16 ^ (31 - k) mod 16"

definition hex :: "uuid \<Rightarrow> nat \<Rightarrow> nat \<Rightarrow> string" where
  "hex u from to = map (\<lambda>k. hexdigit (nibble u k)) [from..<to]"

definition uuid_String :: "uuid \<Rightarrow> string" where
  "uuid_String u = hex u 0 8 @ ''-'' @ hex u 8 12 @ ''-'' @ hex u 12 16 @ ''-'' @ hex u 16 20 @ ''-'' @ hex u 20 32"

definition PrivateChatID :: "uuid \<Rightarrow> uuid \<Rightarrow> string" where
  "PrivateChatID a b =
     (if uuid_String a > uuid_String b then uuid_String b @ ''_'' @ uuid_String a
      else uuid_String a @ ''_'' @ uuid_String b)"

section \<open>Sending\<close>

definition withMe :: "uuid list \<Rightarrow> uuid \<Rightarrow> uuid list" where
  "withMe targets me = targets @ [me]"

text \<open>Who may be written to, and who gets the message.\<close>

definition targetsOf :: "chat_env \<Rightarrow> uuid \<Rightarrow> uuid \<Rightarrow> string \<Rightarrow> chat_err fail + uuid list" where
  "targetsOf e from to ty =
     (if ty = TypePrivate then
        (case ch_friends e from to of None \<Rightarrow> Inl (DbFail OtherDb)
         | Some ok \<Rightarrow> if \<not> ok then Inl (Sentinel ErrNotFriendsChat) else Inr [to])
      else if ty = TypePublic then
        andThen (from_groups (ch_members e to)) (\<lambda>members.
          if from \<notin> set members then Inl (Sentinel ErrNotAuthorized) else Inr (without from members))
      else Inl (Sentinel ErrNotSupportedTypeMsg))"

definition parentInChat :: "chat_env \<Rightarrow> string \<Rightarrow> uuid \<Rightarrow> uuid \<Rightarrow> uuid \<Rightarrow> db \<Rightarrow> chat_err fail + bool" where
  "parentInChat e kind parent from to d = query e CParent
     (if kind = TypePrivate then PrivateMessageInChat parent from to d else GroupMessageInGroup parent to d)"

text \<open>\<^verbatim>\<open>pgOptUUID\<close>: a text that is not a UUID becomes \<open>NULL\<close>.\<close>

definition pgOptUUID :: "id_text \<Rightarrow> uuid option" where
  "pgOptUUID t = (case t of Id i \<Rightarrow> Some i | _ \<Rightarrow> None)"

definition addMessage :: "chat_env \<Rightarrow> uuid \<Rightarrow> uuid \<Rightarrow> InCommingMessage \<Rightarrow> db \<Rightarrow> chat_err fail + db" where
  "addMessage e i from m d =
     (if in_Type m = TypePrivate then dbcall (ch_fails e CAdd) (AddMessagePrivate
        \<lparr>m_id = i, m_content = Some (in_Content m), m_parentid = pgOptUUID (in_ParendID m), m_from_id = Some from,
         m_to_id = pgOptUUID (in_ToID m), m_deleted_at = None, m_created_at = pgTime (ch_now e), m_edited_at = None,
         m_forwarded = in_Forwarded m\<rparr> d)
      else dbcall (ch_fails e CAdd) (AddMessagePublic
        \<lparr>gm_id = i, gm_content = Some (in_Content m), gm_group_id = pgOptUUID (in_ToID m), gm_from_id = Some from,
         gm_parent_id = pgOptUUID (in_ParendID m), gm_created_at = pgTime (ch_now e), gm_deleted_at = None,
         gm_edited_at = None, gm_searchable = False, gm_forwarded = in_Forwarded m\<rparr> d))"

text \<open>The push text of a message: its text, or what it carries.\<close>

fun digits :: "nat \<Rightarrow> string" where
  "digits n = (if n < 10 then [hexdigit n] else digits (n div 10) @ [hexdigit (n mod 10)])"

declare digits.simps [simp del]

definition emoji :: "nat list \<Rightarrow> string" where "emoji bs = map char_of bs"
definition microphone :: string where "microphone = emoji [0xF0, 0x9F, 0x8E, 0xA4]"
definition paperclip :: string where "paperclip = emoji [0xF0, 0x9F, 0x93, 0x8E]"
definition camera :: string where "camera = emoji [0xF0, 0x9F, 0x93, 0xB7]"
definition film :: string where "film = emoji [0xF0, 0x9F, 0x8E, 0xA5]"

definition count_kind :: "string set \<Rightarrow> Attachment list \<Rightarrow> nat" where
  "count_kind ks att = length (filter (\<lambda>a. at_Kind a \<in> ks) att)"

definition mediaPreview :: "string \<Rightarrow> Attachment list \<Rightarrow> string" where
  "mediaPreview t att =
     (if t \<noteq> [] \<or> att = [] then t
      else if length att = 1 \<and> at_Kind (hd att) = ''voice'' then
        (let secs = nat ((at_DurationMs (hd att) + 500) div 1000); ss = secs mod 60 in
         microphone @ '' Voice message ('' @ digits (secs div 60) @ '':'' @
           (if ss < 10 then ''0'' else []) @ digits ss @ '')'')
      else
        (let videos = count_kind {''video''} att; files = count_kind {''file'', ''voice''} att;
             photos = length att - videos - files in
         if files = 1 \<and> photos + videos = 0 then paperclip @ '' '' @ at_FileName (hd att)
         else if files > 0 then paperclip @ '' '' @ digits (length att) @ '' files''
         else if videos = 0 \<and> photos = 1 then camera @ '' Photo''
         else if photos = 0 \<and> videos = 1 then film @ '' Video''
         else if videos = 0 then camera @ '' '' @ digits photos @ '' photos''
         else if photos = 0 then film @ '' '' @ digits videos @ '' videos''
         else paperclip @ '' '' @ digits (photos + videos) @ '' files''))"

definition sent_event :: "chat_env \<Rightarrow> uuid \<Rightarrow> uuid \<Rightarrow> InCommingMessage \<Rightarrow> Attachment list \<Rightarrow> event" where
  "sent_event e from to m attached = Event EventMessage
     (OutGoingMessage (ch_uuid e) (in_Content m) (pgOptUUID (in_ParendID m)) from
       (if in_Type m = TypePublic then None else Some to) (in_Type m)
       (if in_Type m = TypePublic then Some to else None) (ch_now e) (map at_ID attached) (in_Forwarded m))"

definition sent_job :: "chat_env \<Rightarrow> uuid \<Rightarrow> uuid \<Rightarrow> uuid list \<Rightarrow> InCommingMessage \<Rightarrow> Attachment list \<Rightarrow> job" where
  "sent_job e from to targets m attached =
     (push_job (if in_Type m = TypePublic then KindGroup else KindPrivate) targets from)
       \<lparr>j_group := (if in_Type m = TypePublic then to else Nil_uuid), j_msg_id := ch_uuid e,
        j_preview := mediaPreview (in_Content m) attached\<rparr>"

definition attach :: "chat_env \<Rightarrow> uuid \<Rightarrow> uuid \<Rightarrow> InCommingMessage \<Rightarrow> chat_err fail + Attachment list" where
  "attach e from to m =
     (if in_Media m = [] then Inr []
      else ch_attach e from (in_Media m) (if in_Type m = TypePublic then TypePublic else TypePrivate) to (ch_uuid e))"

definition parentOf :: "InCommingMessage \<Rightarrow> chat_err fail + uuid" where
  "parentOf m = (case in_ParendID m of NoId \<Rightarrow> Inr Nil_uuid | BadId \<Rightarrow> Inl (Sentinel ErrNotValidParentID) | Id i \<Rightarrow> Inr i)"

text \<open>\<open>send_checked\<close> is everything before the message is stored: the trimmed message and its recipients.\<close>

definition send_checks :: "chat_env \<Rightarrow> uuid \<Rightarrow> InCommingMessage \<Rightarrow> db \<Rightarrow>
    chat_err fail + (InCommingMessage \<times> uuid \<times> uuid list)" where
  "send_checks e from in0 d =
     (let m = in0\<lparr>in_Content := TrimSpace (in_Content in0)\<rparr>; n = RuneCountInString (in_Content m) in
      if (n = 0 \<and> in_Media m = []) \<or> n > maxMessageLen then Inl (Sentinel ErrEmptyMessage)
      else if in_Media m \<noteq> [] \<and> \<not> ch_media e then Inl (Sentinel MediaDisabled)
      else case in_ToID m of
        Id to \<Rightarrow>
          if to = from then Inl (Sentinel ErrNotValidToID)
          else andThen (parentOf m) (\<lambda>parent.
            andThen (targetsOf e from to (in_Type m)) (\<lambda>targets.
              if ch_fails e CUuid then Inl (DbFail OtherDb)
              else if parent = Nil_uuid then Inr (m, to, targets)
              else andThen (parentInChat e (in_Type m) parent from to d) (\<lambda>ok.
                if \<not> ok then Inl (Sentinel ErrNotValidParentID) else Inr (m, to, targets))))
      | _ \<Rightarrow> Inl (Sentinel ErrNotValidToID))"

definition send :: "chat_env \<Rightarrow> uuid \<Rightarrow> InCommingMessage \<Rightarrow> chat_sys \<Rightarrow> uuid chat_result" where
  "send e from in0 s =
     (case send_checks e from in0 (cy_db s) of
        Inl err \<Rightarrow> (Inl err, s, [])
      | Inr (m, to, targets) \<Rightarrow>
          (case attach e from to m of
             Inl err \<Rightarrow> (Inl err, s, [])
           | Inr attached \<Rightarrow>
               (case addMessage e (ch_uuid e) from m (cy_db s) of
                  Inl err \<Rightarrow> (Inl err, s, [])
                | Inr d' \<Rightarrow> (Inr (ch_uuid e), s\<lparr>cy_db := d'\<rparr>,
                    WriteToUsers (withMe targets from) (sent_event e from to m attached) #
                    (if ch_notify e then [Notify (sent_job e from to targets m attached)] else [])))))"

section \<open>Finding a message and who may touch it\<close>

definition unNull :: "uuid option \<Rightarrow> uuid" where
  "unNull x = (case x of None \<Rightarrow> Nil_uuid | Some i \<Rightarrow> i)"

definition LocateMessage :: "chat_env \<Rightarrow> uuid \<Rightarrow> db \<Rightarrow> chat_err fail + messageRef" where
  "LocateMessage e i d =
     (case faulty (ch_fails e CLocate) (PrivateMessageParticipants i d) of
        Inr (from, to, at) \<Rightarrow> Inr \<lparr>rf_Kind = TypePrivate, rf_From = unNull from, rf_To = unNull to,
          rf_Group = Nil_uuid, rf_CreatedAt = at\<rparr>
      | Inl NoRows \<Rightarrow>
          (case faulty (ch_fails e CLocateGroup) (GroupMessageGroup i d) of
             Inr (gid, from, at) \<Rightarrow> Inr \<lparr>rf_Kind = TypePublic, rf_From = unNull from, rf_To = Nil_uuid,
               rf_Group = unNull gid, rf_CreatedAt = at\<rparr>
           | Inl NoRows \<Rightarrow> Inl (Sentinel ErrMessageNotFound)
           | Inl err \<Rightarrow> Inl (DbFail err))
      | Inl err \<Rightarrow> Inl (DbFail err))"

definition JoinedAt :: "chat_env \<Rightarrow> uuid \<Rightarrow> uuid \<Rightarrow> db \<Rightarrow> chat_err fail + time" where
  "JoinedAt e gid u d =
     (case faulty (ch_fails e CJoined) (GroupJoinedAt gid u d) of
        Inl NoRows \<Rightarrow> Inl (Sentinel ErrNotAuthorized) | Inl err \<Rightarrow> Inl (DbFail err) | Inr t \<Rightarrow> Inr t)"

definition authorizeMessage :: "chat_env \<Rightarrow> uuid \<Rightarrow> uuid \<Rightarrow> bool \<Rightarrow> db \<Rightarrow> chat_err fail + (messageRef \<times> uuid list)" where
  "authorizeMessage e me i requireFriends d =
     andThen (LocateMessage e i d) (\<lambda>ref.
       if rf_Kind ref = TypePrivate then
         (if me \<noteq> rf_From ref \<and> me \<noteq> rf_To ref then Inl (Sentinel ErrMessageNotFound)
          else
            (let other = (if me = rf_From ref then rf_To ref else rf_From ref) in
             if requireFriends then
               (case ch_friends e me other of None \<Rightarrow> Inl (DbFail OtherDb)
                | Some ok \<Rightarrow> if \<not> ok then Inl (Sentinel ErrNotFriendsChat) else Inr (ref, [other]))
             else Inr (ref, [other])))
       else
         andThen (from_groups (ch_members e (rf_Group ref))) (\<lambda>members.
           if me \<notin> set members then Inl (Sentinel ErrMessageNotFound)
           else case JoinedAt e (rf_Group ref) me d of
             Inl err \<Rightarrow> Inl (if err = Sentinel ErrNotAuthorized then Sentinel ErrMessageNotFound else err)
           | Inr joined \<Rightarrow>
               if rf_CreatedAt ref < joined then Inl (Sentinel ErrMessageNotFound)
               else Inr (ref, without me members)))"

definition group_of :: "messageRef \<Rightarrow> uuid option" where
  "group_of ref = (if rf_Kind ref = TypePublic then Some (rf_Group ref) else None)"

section \<open>Editing and deleting\<close>

definition repo_Edit :: "chat_env \<Rightarrow> string \<Rightarrow> uuid \<Rightarrow> string \<Rightarrow> time \<Rightarrow> db \<Rightarrow> chat_err fail + bool \<times> db" where
  "repo_Edit e kind i t at d =
     andThen (dbcall (ch_fails e CEdit)
       (if kind = TypePrivate then EditPrivateMessage i t (pgTime at) d else EditGroupMessage i t (pgTime at) d))
       (\<lambda>(n, d'). Inr (n > 0, d'))"

definition EditMessage :: "chat_env \<Rightarrow> uuid \<Rightarrow> uuid \<Rightarrow> string \<Rightarrow> chat_sys \<Rightarrow> (string \<times> time) chat_result" where
  "EditMessage e me i content0 s =
     (let content = TrimSpace content0; n = RuneCountInString content in
      if n = 0 \<or> n > maxMessageLen then (Inl (Sentinel ErrEmptyMessage), s, [])
      else case authorizeMessage e me i True (cy_db s) of
        Inl err \<Rightarrow> (Inl err, s, [])
      | Inr (ref, others) \<Rightarrow>
          if rf_From ref \<noteq> me then (Inl (Sentinel ErrNotYourMessage), s, [])
          else if ch_now e - rf_CreatedAt ref > EditWindow then (Inl (Sentinel ErrEditWindowClosed), s, [])
          else case repo_Edit e (rf_Kind ref) i content (ch_now e) (cy_db s) of
            Inl err \<Rightarrow> (Inl err, s, [])
          | Inr (ok, d') \<Rightarrow>
              if \<not> ok then (Inl (Sentinel ErrMessageNotFound), s\<lparr>cy_db := d'\<rparr>, [])
              else (Inr (content, ch_now e), s\<lparr>cy_db := d'\<rparr>,
                [WriteToUsers (withMe others me) (Event EventEdited
                   (OutEditedEvent i me (rf_Kind ref) (group_of ref) content (ch_now e)))]))"

definition repo_DeleteMessage :: "chat_env \<Rightarrow> string \<Rightarrow> uuid \<Rightarrow> time \<Rightarrow> db \<Rightarrow> chat_err fail + bool \<times> db" where
  "repo_DeleteMessage e kind i at d =
     andThen (dbcall (ch_fails e CDelete) (Inr
       (if kind = TypePrivate then DeletePrivateMessage i (pgTime at) d else DeleteGroupMessage i (pgTime at) d)))
       (\<lambda>(n, d'). Inr (n > 0, d'))"

definition may_delete :: "chat_env \<Rightarrow> uuid \<Rightarrow> messageRef \<Rightarrow> chat_err fail + unit" where
  "may_delete e me ref =
     (if rf_From ref = me then Inr ()
      else if rf_Kind ref \<noteq> TypePublic then Inl (Sentinel ErrNotYourMessage)
      else andThen (from_groups (ch_canDelete e (rf_Group ref) me (rf_From ref))) (\<lambda>ok.
        if \<not> ok then Inl (Sentinel ErrNotYourMessage) else Inr ()))"

definition DeleteMessage :: "chat_env \<Rightarrow> uuid \<Rightarrow> uuid \<Rightarrow> chat_sys \<Rightarrow> unit chat_result" where
  "DeleteMessage e me i s =
     (case authorizeMessage e me i False (cy_db s) of
        Inl err \<Rightarrow> (Inl err, s, [])
      | Inr (ref, others) \<Rightarrow>
          (case andThen (may_delete e me ref) (\<lambda>_. repo_DeleteMessage e (rf_Kind ref) i (ch_now e) (cy_db s)) of
             Inl err \<Rightarrow> (Inl err, s, [])
           | Inr (ok, d') \<Rightarrow>
               if \<not> ok then (Inl (Sentinel ErrMessageNotFound), s\<lparr>cy_db := d'\<rparr>, [])
               else (Inr (), s\<lparr>cy_db := d'\<rparr>,
                 (if ch_media e then [ExpireMedia i] else []) @
                 [WriteToUsers (withMe others me) (Event EventDeleted
                    (OutDeletedEvent i (rf_From ref) (rf_Kind ref) (group_of ref)
                      (if rf_From ref \<noteq> me then Some me else None)))])))"

end
