(* ===== verification/Http.thy ===== *)
theory Http
  imports Prelude
begin

text \<open>
  The answers of the HTTP handlers (\<^verbatim>\<open>internal/platform/httpx/response.go\<close>). A request
  reaches a handler decoded: the authenticated user \<^verbatim>\<open>reqctx.User\<close> finds (or none), the path
  ids \<^verbatim>\<open>httpx.PathUUID\<close> parses (or none) and the JSON body \<^verbatim>\<open>httpx.Decode\<close> reads (or none).
\<close>

definition StatusOK :: int where "StatusOK = 200"
definition StatusCreated :: int where "StatusCreated = 201"
definition StatusNoContent :: int where "StatusNoContent = 204"
definition StatusBadRequest :: int where "StatusBadRequest = 400"
definition StatusUnauthorized :: int where "StatusUnauthorized = 401"
definition StatusForbidden :: int where "StatusForbidden = 403"
definition StatusNotFound :: int where "StatusNotFound = 404"
definition StatusConflict :: int where "StatusConflict = 409"
definition StatusTooManyRequests :: int where "StatusTooManyRequests = 429"
definition StatusInternalServerError :: int where "StatusInternalServerError = 500"

lemmas http_status = StatusOK_def StatusCreated_def StatusNoContent_def StatusBadRequest_def
  StatusUnauthorized_def StatusForbidden_def StatusNotFound_def StatusConflict_def
  StatusTooManyRequests_def StatusInternalServerError_def

text \<open>
  \<^verbatim>\<open>JSON(w, code, body)\<close>, \<^verbatim>\<open>Error(w, code, msg)\<close>, and \<^verbatim>\<open>w.WriteHeader(code)\<close> without a
  body.
\<close>

datatype 'b resp = JSON int 'b | Error int string | WriteHeader int

fun code :: "'b resp \<Rightarrow> int" where
  "code (JSON c _) = c"
| "code (Error c _) = c"
| "code (WriteHeader c) = c"

definition ServerError :: "'b resp" where
  "ServerError = Error StatusInternalServerError ''internal server error''"

lemma code_ServerError [simp]: "code ServerError = 500"
  by (simp add: ServerError_def http_status)

text \<open>\<^verbatim>\<open>reqctx.User\<close>: no user, or the nil id, is refused.\<close>

definition reqctx_User :: "uuid option \<Rightarrow> uuid option" where
  "reqctx_User ctx = (case ctx of Some i \<Rightarrow> if i \<noteq> Nil_uuid then Some i else None | None \<Rightarrow> None)"

lemma reqctx_User_Some [simp]: "reqctx_User (Some i) = (if i = 0 then None else Some i)"
  by (simp add: reqctx_User_def)

definition unauthorized :: "'b resp" where
  "unauthorized = Error StatusUnauthorized ''unauthorized''"

lemma code_unauthorized [simp]: "code unauthorized = 401"
  by (simp add: unauthorized_def http_status)

end
