(* ===== verification/Revoke.thy ===== *)
theory Revoke
  imports Http GoStrings
begin

text \<open>
  Access tokens: \<^verbatim>\<open>platform/secure\<close> (what a token says), \<^verbatim>\<open>platform/revoke\<close> (ending tokens
  early, with Redis shared by the servers and a short memory in each) and the middleware
  \<^verbatim>\<open>httpx.Authenticate\<close>. Signing and parsing of JWTs is the library's and a parameter.
\<close>

section \<open>Tokens\<close>

record jwt_claims =
  jc_Issuer :: string
  jc_Subject :: "uuid option"   \<comment> \<open>\<open>None\<close>: not a UUID\<close>
  jc_IssuedAt :: "time option"
  jc_ExpiresAt :: time

definition issuer :: string where "issuer = ''chirpy''"
definition adminIssuer :: string where "adminIssuer = ''chirpy-admin''"

text \<open>\<^verbatim>\<open>jwt.TimePrecision\<close> is a millisecond, and so is Redis's: \<open>trunc_ms\<close> drops the rest.\<close>

definition trunc_ms :: "time \<Rightarrow> time" where
  "trunc_ms t = t - t mod millisecond"

definition MakeJWT :: "uuid \<Rightarrow> time \<Rightarrow> duration \<Rightarrow> jwt_claims" where
  "MakeJWT u now expiresIn = \<lparr>jc_Issuer = issuer, jc_Subject = Some u, jc_IssuedAt = Some (trunc_ms now),
     jc_ExpiresAt = trunc_ms (now + expiresIn)\<rparr>"

definition MakeAdminJWT :: "uuid \<Rightarrow> time \<Rightarrow> duration \<Rightarrow> jwt_claims" where
  "MakeAdminJWT u now expiresIn = (MakeJWT u now expiresIn)\<lparr>jc_Issuer := adminIssuer\<rparr>"

datatype secure_err = ErrExpiredToken | ErrInvalidToken | ErrMissingToken

text \<open>
  \<open>parse issuer now token\<close> is \<^verbatim>\<open>jwt.ParseWithClaims\<close> with the server's key, restricted to HMAC, an
  issuer and a required expiry: the claims, or whether the error is \<^verbatim>\<open>ErrTokenExpired\<close>.
\<close>

type_synonym jwt_parser = "string \<Rightarrow> time \<Rightarrow> string \<Rightarrow> bool + jwt_claims"

definition ValidateJWTIssued :: "jwt_parser \<Rightarrow> time \<Rightarrow> string \<Rightarrow> secure_err + uuid \<times> time option" where
  "ValidateJWTIssued parse now token =
     (case parse issuer now token of
        Inl is_expired \<Rightarrow> Inl (if is_expired then ErrExpiredToken else ErrInvalidToken)
      | Inr c \<Rightarrow> (case jc_Subject c of None \<Rightarrow> Inl ErrInvalidToken | Some u \<Rightarrow> Inr (u, jc_IssuedAt c)))"

definition ValidateAdminJWT :: "jwt_parser \<Rightarrow> time \<Rightarrow> string \<Rightarrow> secure_err + uuid \<times> time" where
  "ValidateAdminJWT parse now token =
     (case parse adminIssuer now token of
        Inl _ \<Rightarrow> Inl ErrInvalidToken
      | Inr c \<Rightarrow> (case (jc_Subject c, jc_IssuedAt c) of
          (Some u, Some iat) \<Rightarrow> Inr (u, iat) | _ \<Rightarrow> Inl ErrInvalidToken))"

text \<open>\<^verbatim>\<open>strings.CutPrefix\<close> and \<^verbatim>\<open>GetBearerToken\<close> on the value of the \<^verbatim>\<open>Authorization\<close> header.\<close>

definition CutPrefix :: "string \<Rightarrow> string \<Rightarrow> string \<times> bool" where
  "CutPrefix s prefix = (if take (length prefix) s = prefix then (drop (length prefix) s, True) else (s, False))"

definition GetBearerToken :: "string \<Rightarrow> secure_err + string" where
  "GetBearerToken h = (case CutPrefix h ''Bearer '' of (t, ok) \<Rightarrow>
     let token = TrimSpace t in if \<not> ok \<or> token = [] then Inl ErrMissingToken else Inr token)"

section \<open>Revocations\<close>

definition localTTL :: duration where "localTTL = 5 * second"

text \<open>What a server remembers of a user: the time of the revocation (none: not revoked), and since when it knows.\<close>

record entry =
  revokedAt :: "time option"
  checked :: time

text \<open>
  The Redis keys \<^verbatim>\<open>auth:revoked:{user}\<close> with their expiry, and each server's \<^verbatim>\<open>recent\<close>.
\<close>

record revocations =
  rv_redis :: "uuid \<Rightarrow> (time \<times> time) option"
  rv_recent :: "nat \<Rightarrow> (uuid \<times> entry) list"

definition no_revocations :: revocations where
  "no_revocations = \<lparr>rv_redis = (\<lambda>_. None), rv_recent = (\<lambda>_. [])\<rparr>"

definition remember :: "nat \<Rightarrow> uuid \<Rightarrow> entry \<Rightarrow> revocations \<Rightarrow> revocations" where
  "remember srv u x r = r\<lparr>rv_recent := (rv_recent r)(srv := (u, x) # filter (\<lambda>y. fst y \<noteq> u) (rv_recent r srv))\<rparr>"

text \<open>The two sections of \<^verbatim>\<open>RevokeAll\<close>: \<open>SET\<close> with an expiry in Redis, and \<open>remember\<close> under the lock.\<close>

definition set_redis :: "duration \<Rightarrow> time \<Rightarrow> time \<Rightarrow> uuid \<Rightarrow> revocations \<Rightarrow> revocations" where
  "set_redis keep now v u r = r\<lparr>rv_redis := (rv_redis r)(u \<mapsto> (v, now + keep))\<rparr>"

text \<open>A call that nothing else comes between; what may come between is below.\<close>

definition RevokeAll :: "bool \<Rightarrow> duration \<Rightarrow> nat \<Rightarrow> time \<Rightarrow> uuid \<Rightarrow> revocations \<Rightarrow> bool \<times> revocations" where
  "RevokeAll flt keep srv now u r =
     (if flt then (False, r)
      else (True, remember srv u \<lparr>revokedAt = Some (trunc_ms now), checked = now\<rparr> (set_redis keep now (trunc_ms now) u r)))"

text \<open>The sections of \<^verbatim>\<open>Revoked\<close>: what is remembered, what Redis says, and remembering that.\<close>

definition known :: "nat \<Rightarrow> time \<Rightarrow> uuid \<Rightarrow> revocations \<Rightarrow> entry option" where
  "known srv now u r = (case map_of (rv_recent r srv) u of
     Some x \<Rightarrow> if now - checked x > localTTL then None else Some x | None \<Rightarrow> None)"

definition fetch :: "time \<Rightarrow> uuid \<Rightarrow> revocations \<Rightarrow> time option" where
  "fetch now u r = (case rv_redis r u of Some (v, ex) \<Rightarrow> if now < ex then Some v else None | None \<Rightarrow> None)"

definition store :: "nat \<Rightarrow> uuid \<Rightarrow> entry \<Rightarrow> revocations \<Rightarrow> revocations" where
  "store srv u x r =
     remember srv u x (if length (rv_recent r srv) > 100000 then r\<lparr>rv_recent := (rv_recent r)(srv := [])\<rparr> else r)"

definition is_revoked :: "entry \<Rightarrow> time option \<Rightarrow> bool" where
  "is_revoked x issued = (case revokedAt x of None \<Rightarrow> False
     | Some t \<Rightarrow> (case issued of None \<Rightarrow> True | Some i \<Rightarrow> i \<le> t))"

text \<open>
  The answer, with the first section at one moment and the reading of Redis at a later one; and a call
  that nothing comes between.
\<close>

definition revoked_answer ::
    "bool \<Rightarrow> nat \<Rightarrow> time \<Rightarrow> revocations \<Rightarrow> time \<Rightarrow> revocations \<Rightarrow> uuid \<Rightarrow> time option \<Rightarrow> bool option" where
  "revoked_answer flt srv now r now' r' u issued =
     (case known srv now u r of
        Some x \<Rightarrow> Some (is_revoked x issued)
      | None \<Rightarrow> if flt then None else Some (is_revoked \<lparr>revokedAt = fetch now' u r', checked = now'\<rparr> issued))"

definition Revoked :: "bool \<Rightarrow> nat \<Rightarrow> time \<Rightarrow> uuid \<Rightarrow> time option \<Rightarrow> revocations \<Rightarrow> bool option \<times> revocations" where
  "Revoked flt srv now u issued r =
     (revoked_answer flt srv now r now r u issued,
      if known srv now u r = None \<and> \<not> flt then store srv u \<lparr>revokedAt = fetch now u r, checked = now\<rparr> r else r)"

text \<open>\<^verbatim>\<open>Authenticate\<close>: the user the request goes on as, or the answer. A failing check lets it pass.\<close>

definition Authenticate_at ::
    "jwt_parser \<Rightarrow> bool \<Rightarrow> nat \<Rightarrow> time \<Rightarrow> revocations \<Rightarrow> time \<Rightarrow> revocations \<Rightarrow> string \<Rightarrow> 'b resp + uuid" where
  "Authenticate_at parse flt srv now r now' r' header =
     (case GetBearerToken header of
        Inl _ \<Rightarrow> Inl unauthorized
      | Inr token \<Rightarrow>
          (case ValidateJWTIssued parse now token of
             Inl _ \<Rightarrow> Inl unauthorized
           | Inr (u, issued) \<Rightarrow>
               (if revoked_answer flt srv now r now' r' u issued = Some True then Inl unauthorized else Inr u)))"

definition Authenticate :: "jwt_parser \<Rightarrow> bool \<Rightarrow> nat \<Rightarrow> time \<Rightarrow> string \<Rightarrow> revocations \<Rightarrow> ('b resp + uuid) \<times> revocations" where
  "Authenticate parse flt srv now header r =
     (Authenticate_at parse flt srv now r now r header,
      case GetBearerToken header of
        Inl _ \<Rightarrow> r
      | Inr token \<Rightarrow> (case ValidateJWTIssued parse now token of Inl _ \<Rightarrow> r | Inr (u, issued) \<Rightarrow> snd (Revoked flt srv now u issued r)))"

section \<open>Calls that overlap\<close>

text \<open>
  One step is one access to Redis or one section of a server's mutex, at its time. A call of \<^verbatim>\<open>Revoked\<close>
  that has read Redis waits in \<open>sv_readers\<close> with its server, user, answer and the time of that, until it
  stores the answer; \<open>checked\<close> is the clock when the answer has arrived, at most \<open>lag\<close> later. A call that
  fails, or finds an answer remembered, changes nothing.
\<close>

record serving =
  sv_rev :: revocations
  sv_readers :: "(nat \<times> uuid \<times> time option \<times> time) list"

datatype revoke_step =
    SetRedis uuid time
  | Remember nat uuid time
  | ReadRedis nat uuid
  | StoreAnswer nat time

fun revoke_exec :: "duration \<Rightarrow> duration \<Rightarrow> time \<times> revoke_step \<Rightarrow> serving \<Rightarrow> serving" where
  "revoke_exec keep lag (t, SetRedis u v) s = s\<lparr>sv_rev := set_redis keep t v u (sv_rev s)\<rparr>"
| "revoke_exec keep lag (t, Remember srv u v) s = s\<lparr>sv_rev := remember srv u \<lparr>revokedAt = Some v, checked = t\<rparr> (sv_rev s)\<rparr>"
| "revoke_exec keep lag (t, ReadRedis srv u) s = s\<lparr>sv_readers := sv_readers s @ [(srv, u, fetch t u (sv_rev s), t)]\<rparr>"
| "revoke_exec keep lag (t, StoreAnswer k c) s =
     (if k < length (sv_readers s) then
        (case sv_readers s ! k of (srv, u, a, g) \<Rightarrow>
           if g \<le> c \<and> c \<le> g + lag \<and> c \<le> t
           then \<lparr>sv_rev = store srv u \<lparr>revokedAt = a, checked = c\<rparr> (sv_rev s), sv_readers = take k (sv_readers s) @ drop (Suc k) (sv_readers s)\<rparr>
           else s)
      else s)"

definition revoke_run :: "duration \<Rightarrow> duration \<Rightarrow> (time \<times> revoke_step) list \<Rightarrow> serving \<Rightarrow> serving" where
  "revoke_run keep lag xs s = fold (revoke_exec keep lag) xs s"

definition nobody_served :: serving where
  "nobody_served = \<lparr>sv_rev = no_revocations, sv_readers = []\<rparr>"

text \<open>The steps of a call that nothing comes between are that call.\<close>

lemma RevokeAll_steps:
  "sv_rev (revoke_run keep lag [(t, SetRedis u (trunc_ms t)), (t, Remember srv u (trunc_ms t))] s) = snd (RevokeAll False keep srv t u (sv_rev s))"
  by (simp add: revoke_run_def RevokeAll_def)

lemma Revoked_steps:
  assumes "known srv t u (sv_rev s) = None" "0 \<le> lag"
  shows "sv_rev (revoke_run keep lag [(t, ReadRedis srv u), (t, StoreAnswer (length (sv_readers s)) t)] s) = snd (Revoked False srv t u i (sv_rev s))"
  using assms by (simp add: revoke_run_def Revoked_def)

section \<open>A revoked token is refused\<close>

text \<open>
  Since Redis was told at \<open>t\<close> that the sessions of \<open>u\<close> until \<open>v\<close> are over: it knows until every such token
  has expired. Whoever remembers otherwise, or is about to, asked before \<open>t\<close> or after that; on \<open>srv\<close> nobody
  remembers otherwise if \<open>p\<close>, and nobody is about to if \<open>q\<close>.
\<close>

definition since_revoked :: "duration \<Rightarrow> duration \<Rightarrow> nat \<Rightarrow> bool \<Rightarrow> bool \<Rightarrow> uuid \<Rightarrow> time \<Rightarrow> time \<Rightarrow> serving \<Rightarrow> bool" where
  "since_revoked keep lag srv p q u t v s \<longleftrightarrow>
     (\<exists>w ex. rv_redis (sv_rev s) u = Some (w, ex) \<and> v \<le> w \<and> t + keep \<le> ex) \<and>
     (\<forall>s' x. map_of (rv_recent (sv_rev s) s') u = Some x \<longrightarrow>
        (\<exists>w. revokedAt x = Some w \<and> v \<le> w) \<or> (s' = srv \<longrightarrow> \<not> p) \<and> checked x \<le> t + lag \<or> t + keep \<le> checked x) \<and>
     (\<forall>s' a g. (s', u, a, g) \<in> set (sv_readers s) \<longrightarrow>
        (\<exists>w. a = Some w \<and> v \<le> w) \<or> (s' = srv \<longrightarrow> \<not> q) \<and> g \<le> t \<or> t + keep \<le> g)"

text \<open>No older revocation of \<open>u\<close> is still under way.\<close>

definition not_older :: "uuid \<Rightarrow> time \<Rightarrow> revoke_step \<Rightarrow> bool" where
  "not_older u v x \<longleftrightarrow> (case x of SetRedis u' w \<Rightarrow> u' = u \<longrightarrow> v \<le> w | Remember _ u' w \<Rightarrow> u' = u \<longrightarrow> v \<le> w | _ \<Rightarrow> True)"

lemma trunc_ms_mono: "s \<le> t \<Longrightarrow> trunc_ms s \<le> trunc_ms t"
proof -
  have "trunc_ms x = (x div millisecond) * millisecond" for x
    by (simp add: trunc_ms_def minus_mod_eq_div_mult)
  then show "s \<le> t \<Longrightarrow> trunc_ms s \<le> trunc_ms t"
    by (simp add: zdiv_mono1 mult_right_mono millisecond_def)
qed

lemma map_of_filter_other: "map_of (filter (\<lambda>y. fst y \<noteq> u) m) v = (if v = u then None else map_of m v)"
  by (induction m) auto

lemma remember_redis [simp]: "rv_redis (remember srv u x r) = rv_redis r"
  by (simp add: remember_def)

lemma store_redis [simp]: "rv_redis (store srv u x r) = rv_redis r"
  by (simp add: store_def)

lemma map_of_remember [simp]:
  "map_of (rv_recent (remember srv u x r) s) v = (if s = srv \<and> v = u then Some x else map_of (rv_recent r s) v)"
  by (simp add: remember_def map_of_filter_other)

lemma map_of_store:
  "map_of (rv_recent (store srv u x r) s) v = Some y \<Longrightarrow> (s = srv \<and> v = u \<and> y = x) \<or> map_of (rv_recent r s) v = Some y"
  by (auto simp: store_def split: if_splits)

lemma set_redis_simps [simp]:
  "rv_redis (set_redis keep t v u r) = (rv_redis r)(u \<mapsto> (v, t + keep))" "rv_recent (set_redis keep t v u r) = rv_recent r"
  by (simp_all add: set_redis_def)

lemma fetch_since:
  assumes "since_revoked keep lag srv p q u t v s"
  shows "(\<exists>w. fetch n u (sv_rev s) = Some w \<and> v \<le> w) \<or> t + keep \<le> n"
  using assms by (auto simp: since_revoked_def fetch_def)

lemma store_since:
  assumes "since_revoked keep lag srv p q u t v s" "p \<longrightarrow> q" "(srv', u', a, g) \<in> set (sv_readers s)" "g \<le> c" "c \<le> g + lag"
    and "set xs \<subseteq> set (sv_readers s)"
  shows "since_revoked keep lag srv p q u t v \<lparr>sv_rev = store srv' u' \<lparr>revokedAt = a, checked = c\<rparr> (sv_rev s), sv_readers = xs\<rparr>"
proof -
  let ?x = "\<lparr>revokedAt = a, checked = c\<rparr>"
  have new: "(\<exists>w. revokedAt ?x = Some w \<and> v \<le> w) \<or> (srv' = srv \<longrightarrow> \<not> p) \<and> checked ?x \<le> t + lag \<or> t + keep \<le> checked ?x" if "u' = u"
    using that assms(1-5) unfolding since_revoked_def by fastforce
  have "(\<exists>w. revokedAt x = Some w \<and> v \<le> w) \<or> (s' = srv \<longrightarrow> \<not> p) \<and> checked x \<le> t + lag \<or> t + keep \<le> checked x"
    if "map_of (rv_recent (store srv' u' ?x (sv_rev s)) s') u = Some x" for s' x
    using map_of_store [OF that] new assms(1) unfolding since_revoked_def by blast
  moreover have "\<exists>w ex. rv_redis (store srv' u' ?x (sv_rev s)) u = Some (w, ex) \<and> v \<le> w \<and> t + keep \<le> ex"
    using assms(1) by (simp add: since_revoked_def)
  moreover have "(\<exists>w. a' = Some w \<and> v \<le> w) \<or> (s' = srv \<longrightarrow> \<not> q) \<and> g' \<le> t \<or> t + keep \<le> g'" if "(s', u, a', g') \<in> set xs" for s' a' g'
    using that assms(1,6) unfolding since_revoked_def by blast
  ultimately show ?thesis unfolding since_revoked_def by simp
qed

lemma step_since:
  assumes "since_revoked keep lag srv p q u t v s" "p \<longrightarrow> q" "t \<le> n" "not_older u v x"
  shows "since_revoked keep lag srv p q u t v (revoke_exec keep lag (n, x) s)"
proof (cases x)
  case (SetRedis u' w)
  with assms show ?thesis by (auto simp: since_revoked_def not_older_def)
next
  case (Remember srv' u' w)
  with assms show ?thesis by (auto simp: since_revoked_def not_older_def)
next
  case (ReadRedis srv' u')
  with assms(1) fetch_since [OF assms(1), of n] show ?thesis by (auto simp: since_revoked_def)
next
  case (StoreAnswer k c)
  obtain srv' u' a g where r: "sv_readers s ! k = (srv', u', a, g)" by (cases "sv_readers s ! k") auto
  have "set (take k (sv_readers s) @ drop (Suc k) (sv_readers s)) \<subseteq> set (sv_readers s)"
    by (auto dest: in_set_takeD in_set_dropD)
  then show ?thesis using assms(1,2) r nth_mem [of k "sv_readers s"]
    by (auto simp: StoreAnswer simp del: set_append intro!: store_since)
qed

lemma run_since:
  "since_revoked keep lag srv p q u t v s \<Longrightarrow> p \<longrightarrow> q \<Longrightarrow> \<forall>x \<in> set xs. t \<le> fst x \<and> not_older u v (snd x) \<Longrightarrow>
   since_revoked keep lag srv p q u t v (revoke_run keep lag xs s)"
proof (induction xs arbitrary: s)
  case (Cons x xs)
  from Cons.IH [OF step_since [OF Cons.prems(1,2), of "fst x" "snd x"]] Cons.prems show ?case by (simp add: revoke_run_def)
qed (simp add: revoke_run_def)

text \<open>Before the revocation nobody remembers or has read anything in the future.\<close>

definition past :: "time \<Rightarrow> serving \<Rightarrow> bool" where
  "past t s \<longleftrightarrow> (\<forall>s' v y. map_of (rv_recent (sv_rev s) s') v = Some y \<longrightarrow> checked y \<le> t) \<and> (\<forall>(s', v, a, g) \<in> set (sv_readers s). g \<le> t)"

lemma step_past:
  assumes "past t s" "fst x \<le> t"
  shows "past t (revoke_exec keep lag x s)"
proof (cases "(keep, lag, x, s)" rule: revoke_exec.cases)
  case (4 keep lag n k c s)
  obtain srv u a g where r: "sv_readers s ! k = (srv, u, a, g)" by (cases "sv_readers s ! k") auto
  with 4 assms show ?thesis
    by (auto simp: past_def dest!: map_of_store in_set_takeD in_set_dropD)
qed (use assms in \<open>auto simp: past_def\<close>)

lemma run_past: "past t s \<Longrightarrow> \<forall>x \<in> set xs. fst x \<le> t \<Longrightarrow> past t (revoke_run keep lag xs s)"
proof (induction xs arbitrary: s)
  case (Cons x xs)
  from Cons.IH [OF step_past [OF Cons.prems(1)]] Cons.prems(2) show ?case by (simp add: revoke_run_def)
qed (simp add: revoke_run_def)

lemma SetRedis_starts:
  assumes "past t s" "0 \<le> lag" "q \<longrightarrow> (\<forall>(s', u', _, _) \<in> set (sv_readers s). s' = srv \<longrightarrow> u' \<noteq> u)"
  shows "since_revoked keep lag srv False q u t v (revoke_exec keep lag (t, SetRedis u v) s)"
  using assms by (fastforce simp: since_revoked_def past_def)

lemma Remember_clears:
  "since_revoked keep lag srv False q u t v s \<Longrightarrow> t \<le> n \<Longrightarrow> since_revoked keep lag srv q q u t v (revoke_exec keep lag (n, Remember srv u v) s)"
  by (auto simp: since_revoked_def)

lemma since_revoked_refuses:
  assumes "since_revoked keep lag srv p q u t v s" "since_revoked keep lag srv p q u t v s'" "i \<le> v" "n < t + keep" "n' < t + keep"
    and "s0 = srv \<and> p \<or> localTTL + lag < n - t" "past n s"
  shows "revoked_answer False s0 n (sv_rev s) n' (sv_rev s') u (Some i) = Some True"
proof (cases "known s0 n u (sv_rev s)")
  case None
  then show ?thesis using fetch_since [OF assms(2), of n'] assms(3,5) by (auto simp: revoked_answer_def is_revoked_def)
next
  case (Some x)
  then have x: "map_of (rv_recent (sv_rev s) s0) u = Some x" "n - checked x \<le> localTTL"
    by (auto simp: known_def split: option.splits if_splits)
  then have "checked x \<le> n" using assms(7) by (auto simp: past_def)
  moreover have "(\<exists>w. revokedAt x = Some w \<and> v \<le> w) \<or> (s0 = srv \<longrightarrow> \<not> p) \<and> checked x \<le> t + lag \<or> t + keep \<le> checked x"
    using assms(1) x(1) unfolding since_revoked_def by blast
  ultimately have "\<exists>w. revokedAt x = Some w \<and> v \<le> w" using assms(4,6) x(2) by auto
  with Some assms(3) show ?thesis by (auto simp: revoked_answer_def is_revoked_def)
qed

text \<open>The servers after some steps; and a call of \<^verbatim>\<open>RevokeAll\<close> at \<open>t0\<close> with what comes between its sections.\<close>

definition servers :: "duration \<Rightarrow> duration \<Rightarrow> (time \<times> revoke_step) list \<Rightarrow> serving" where
  "servers keep lag xs = revoke_run keep lag xs nobody_served"

definition ending :: "nat \<Rightarrow> uuid \<Rightarrow> time \<Rightarrow> time \<Rightarrow> (time \<times> revoke_step) list \<Rightarrow> time \<Rightarrow> (time \<times> revoke_step) list" where
  "ending srv u t0 t mid t' = (t, SetRedis u (trunc_ms t0)) # mid @ [(t', Remember srv u (trunc_ms t0))]"

text \<open>
  C5: Once the sessions of a user were ended by \<^verbatim>\<open>RevokeAll\<close> on a server, no access token issued until then
  is admitted again, however the sections of revocations and requests on any number of servers interleave:
  on every server from \<open>localTTL\<close> after Redis was told, plus the time an answer of Redis takes to arrive; and on
  the server itself at once, if no request of the user there had read Redis before and not yet stored the
  answer. Assumed: no older revocation of the user is still under way; reading Redis does not fail
  for the request itself (then it is let through, as the comment says), and the token still lives when it
  does; and of the library, that it accepts no token after its expiry and all were made with the lifetime
  for which revocations are kept.
\<close>

theorem ended_sessions_stay_ended:
  assumes times: "\<forall>x \<in> set before. fst x \<le> t" "\<forall>x \<in> set mid. t \<le> fst x \<and> fst x \<le> t'" "t \<le> t'"
      "\<forall>x \<in> set after. t' \<le> fst x \<and> fst x \<le> now" "t' \<le> now" "\<forall>x \<in> set later. now \<le> fst x"
    and order: "\<forall>x \<in> set (mid @ after @ later). not_older u (trunc_ms t0) (snd x)" and t0: "t0 \<le> t" and lag: "0 \<le> lag"
    and jwt: "\<And>iss n tok c. parse iss n tok = Inr c \<Longrightarrow> n < jc_ExpiresAt c \<and> (\<forall>i. jc_IssuedAt c = Some i \<longrightarrow> jc_ExpiresAt c \<le> i + keep)"
    and s: "localTTL + lag < now - t \<or> s = srv \<and> (\<forall>(s', u', _, _) \<in> set (sv_readers (servers keep lag before)). s' = srv \<longrightarrow> u' \<noteq> u)"
    and tok: "GetBearerToken h = Inr tok" "ValidateJWTIssued parse now tok = Inr (u, Some i)" "i \<le> trunc_ms t0" "now' < i + keep"
  shows "Authenticate_at parse False s now (sv_rev (servers keep lag (before @ ending srv u t0 t mid t' @ after)))
      now' (sv_rev (servers keep lag (before @ ending srv u t0 t mid t' @ after @ later))) h = Inl unauthorized"
proof -
  let ?v = "trunc_ms t0"
  let ?s = "servers keep lag" and ?e = "ending srv u t0 t mid t'"
  let ?q = "\<forall>(s', u', _, _) \<in> set (sv_readers (?s before)). s' = srv \<longrightarrow> u' \<noteq> u"
  have run: "?s (xs @ ys) = revoke_run keep lag ys (?s xs)" for xs ys by (simp add: servers_def revoke_run_def)
  have "past t (?s before)" unfolding servers_def by (rule run_past) (use times(1) in \<open>auto simp: past_def nobody_served_def no_revocations_def\<close>)
  then have "since_revoked keep lag srv False ?q u t ?v (revoke_exec keep lag (t, SetRedis u ?v) (?s before))"
    by (rule SetRedis_starts) (use lag in auto)
  then have "since_revoked keep lag srv False ?q u t ?v (revoke_run keep lag mid (revoke_exec keep lag (t, SetRedis u ?v) (?s before)))"
    by (rule run_since) (use times(2) order in auto)
  from Remember_clears [OF this times(3)]
  have "since_revoked keep lag srv ?q ?q u t ?v (?s (before @ ?e))"
    by (simp add: ending_def servers_def revoke_run_def)
  then have since: "since_revoked keep lag srv ?q ?q u t ?v (?s (before @ ?e @ after))"
    unfolding append_assoc [symmetric] run [of _ after] by (rule run_since) (use times order in \<open>auto intro: order_trans\<close>)
  then have since': "since_revoked keep lag srv ?q ?q u t ?v (?s (before @ ?e @ after @ later))"
    unfolding append_assoc [symmetric] run [of _ later] by (rule run_since) (use times order in \<open>auto intro: order_trans\<close>)
  have past: "past now (?s (before @ ?e @ after))"
    unfolding servers_def by (rule run_past) (use times in \<open>force simp: past_def nobody_served_def no_revocations_def ending_def\<close>)+
  obtain c where c: "parse issuer now tok = Inr c" "jc_IssuedAt c = Some i"
    using tok(2) by (auto simp: ValidateJWTIssued_def split: sum.splits option.splits)
  have "trunc_ms t0 \<le> t0" by (simp add: trunc_ms_def millisecond_def)
  with t0 tok(3,4) jwt [OF c(1)] c(2) have live: "now < t + keep" "now' < t + keep" by fastforce+
  have "revoked_answer False s now (sv_rev (?s (before @ ?e @ after))) now' (sv_rev (?s (before @ ?e @ after @ later))) u (Some i) = Some True"
    by (rule since_revoked_refuses [OF since since' tok(3) live _ past]) (use s in blast)
  then show ?thesis using tok by (simp add: Authenticate_at_def)
qed

text \<open>Ann signs out everywhere at 9000 ms; her phone's token is from 8000 ms.\<close>

definition phone_token :: jwt_parser where
  "phone_token iss now tok = (if now < 8000 * millisecond + 15 * minute
     then Inr (MakeJWT 1 (8000 * millisecond) (15 * minute)) else Inl True)"

theorem ended_sessions_stay_ended_witness:
  "Authenticate_at phone_token False 0 (9001 * millisecond)
      (sv_rev (servers (15 * minute) second ([] @ ending 0 1 (9000 * millisecond) (9000 * millisecond) [] (9000 * millisecond) @ [])))
      (9001 * millisecond)
      (sv_rev (servers (15 * minute) second ([] @ ending 0 1 (9000 * millisecond) (9000 * millisecond) [] (9000 * millisecond) @ [] @ [])))
      ''Bearer x'' = (Inl unauthorized :: unit resp + uuid)"
proof -
  have "TrimSpace ''x'' = ''x''" by (simp add: TrimSpace_def chunks_ascii_Cons IsSpace_def)
  then have tok: "GetBearerToken ''Bearer x'' = Inr ''x''" by (simp add: GetBearerToken_def CutPrefix_def)
  have val: "ValidateJWTIssued phone_token (9001 * millisecond) ''x'' = Inr (1, Some (8000 * millisecond))"
    by (simp add: ValidateJWTIssued_def phone_token_def MakeJWT_def trunc_ms_def duration_defs)
  show ?thesis
    by (rule ended_sessions_stay_ended [where tok = "''x''" and i = "8000 * millisecond"])
      (use tok val in \<open>auto simp: phone_token_def MakeJWT_def trunc_ms_def duration_defs servers_def revoke_run_def nobody_served_def split: if_splits\<close>)
qed

text \<open>
  A reader that was under way keeps the user signed in on the very server that ended the sessions: it
  read Redis before the revocation and stores its answer after it.
\<close>

lemma slow_reader_forgets_revocation:
  assumes "trunc_ms t = t"
  shows "known srv (t + second) u (sv_rev (revoke_run keep second
      [(t, ReadRedis srv u), (t, SetRedis u t), (t, Remember srv u t), (t + 1, StoreAnswer 0 (t + 1))] nobody_served)) =
    Some \<lparr>revokedAt = None, checked = t + 1\<rparr>"
  by (simp add: revoke_run_def nobody_served_def no_revocations_def fetch_def known_def store_def localTTL_def second_def)

end
