(* ===== verification/Auth.thy ===== *)
theory Auth
  imports Auth_DB Chat Revoke
begin

text \<open>
  Signing in and staying signed in: \<^verbatim>\<open>auth/auth_service.go\<close>, \<^verbatim>\<open>auth/auth_repo.go\<close>, the wrapper that ends
  sessions in \<^verbatim>\<open>app/cleanup.go\<close>, and the password operations of \<^verbatim>\<open>users/service.go\<close>.
\<close>

section \<open>Operations\<close>

datatype auth_err =
    ErrEmailNotVerified | ErrInvalidCode | ErrMailUnavailable | ErrInvalidGoogle | ErrGoogleUnavailable
  | ErrReauthRequired | ErrSameEmail | ErrCodeTooSoon | ErrEmailTaken | ErrInvalidCredentials | ErrNotAuthorized
  | ErrSuspended | ErrBadInput | ErrNoSuchUser | ErrDuplicateName | ErrDuplicateEmail | ErrNoPassword | ErrPassNotMatch

record mail =
  ml_To :: string
  ml_Subject :: string
  ml_Text :: string
  ml_HTML :: string

datatype auth_effect =
    SendMail mail
  | Disconnect uuid
  | ForgetDevices uuid
  | CacheName uuid string
  | InvalidateFriends "uuid list"
  | InvalidateGroups "uuid list"
  | ForgetName uuid

record auth_sys =
  as_db :: auth_db
  as_rev :: revocations

type_synonym 'a auth_result = "(auth_err fail + 'a) \<times> auth_sys \<times> auth_effect list"
type_synonym 'a auth_op = "auth_sys \<Rightarrow> 'a auth_result"

text \<open>The calls that can fail.\<close>

datatype auth_call =
    AByEmail | AByID | AByIDAgain | AGetCode | APutCode | ABump | ADelCode | AMarkVerified | ASetPassword | AIdentity
  | ALink | ACreate | ADeleteUser | AChangeEmail | ARevokeTokens | ARedis | AForgetDevices | ABan | ATouch | AJwt
  | ACreateToken | AGetToken | ARevokeToken | AMail | ACheckPw | AHashPw | ACacheName | ASignup

text \<open>What surrounds one operation: failing calls, the clocks, what the random source yields.\<close>

record auth_env =
  ae_fails :: "auth_call \<Rightarrow> bool"
  ae_now :: time
  ae_dbnow :: time
  ae_newid :: uuid
  ae_code :: "nat option"
  ae_refresh :: "string option"
  ae_srv :: nat

record GoogleClaims =
  gc_Subject :: string
  gc_Email :: string
  gc_EmailVerified :: bool

text \<open>
  The server's configuration and its libraries: SHA-256 and HMAC-SHA256 in hexadecimal, argon2id, Google's
  verifier (if configured), signup tokens, \<^verbatim>\<open>mail.ParseAddress\<close> (does it read the text as exactly this
  address?), \<^verbatim>\<open>strings.ToLower\<close>.
\<close>

record auth_conf =
  ac_accessTTL :: duration
  ac_refreshTTL :: duration
  ac_hashToken :: "string \<Rightarrow> string"
  ac_hmac :: "string \<Rightarrow> string"
  ac_hashPw :: "string \<Rightarrow> string"
  ac_checkPw :: "string \<Rightarrow> string \<Rightarrow> bool"
  ac_google :: "(string \<Rightarrow> GoogleClaims option) option"
  ac_signup :: "string \<Rightarrow> string \<Rightarrow> time \<Rightarrow> string"
  ac_readSignup :: "time \<Rightarrow> string \<Rightarrow> (string \<times> string) option"
  ac_isAddress :: "string \<Rightarrow> bool"
  ac_lower :: "string \<Rightarrow> string"

definition DefaultAccessTTL :: duration where "DefaultAccessTTL = 15 * minute"
definition DefaultRefreshTTL :: duration where "DefaultRefreshTTL = 30 * 24 * hour"

definition NewAuthService :: "duration \<Rightarrow> duration \<Rightarrow> auth_conf \<Rightarrow> auth_conf" where
  "NewAuthService access refresh c = c\<lparr>ac_accessTTL := (if access \<le> 0 then DefaultAccessTTL else access),
     ac_refreshTTL := (if refresh \<le> 0 then DefaultRefreshTTL else refresh)\<rparr>"

section \<open>Composing calls\<close>

text \<open>\<open>m; if err != nil { return err }; \<dots>\<close>: what was done before an error stays done.\<close>

definition thenDo :: "'a auth_op \<Rightarrow> ('a \<Rightarrow> 'b auth_op) \<Rightarrow> 'b auth_op" where
  "thenDo m f s = (case m s of
     (Inl err, s', es) \<Rightarrow> (Inl err, s', es)
   | (Inr a, s', es) \<Rightarrow> (case f a s' of (r, s'', es') \<Rightarrow> (r, s'', es @ es')))"

text \<open>A call whose error the code looks at.\<close>

definition inspect :: "'a auth_op \<Rightarrow> (auth_err fail + 'a \<Rightarrow> 'b auth_op) \<Rightarrow> 'b auth_op" where
  "inspect m f s = (case m s of (r, s', es) \<Rightarrow> (case f r s' of (r', s'', es') \<Rightarrow> (r', s'', es @ es')))"

definition give :: "'a \<Rightarrow> 'a auth_op" where
  "give a s = (Inr a, s, [])"

definition refuse :: "auth_err \<Rightarrow> 'a auth_op" where
  "refuse err s = (Inl (Sentinel err), s, [])"

definition broken :: "'a auth_op" where
  "broken s = (Inl (DbFail OtherDb), s, [])"

definition pass_on :: "auth_err fail \<Rightarrow> 'a auth_op" where
  "pass_on err s = (Inl err, s, [])"

definition emit :: "auth_effect list \<Rightarrow> unit auth_op" where
  "emit es s = (Inr (), s, es)"

text \<open>A query, with \<open>pgx.ErrNoRows\<close> as the given error; and a statement that changes rows.\<close>

definition ask_db :: "bool \<Rightarrow> auth_err \<Rightarrow> (auth_db \<Rightarrow> dberr + 'a) \<Rightarrow> 'a auth_op" where
  "ask_db flt none q s = (case faulty flt (q (as_db s)) of
     Inl NoRows \<Rightarrow> (Inl (Sentinel none), s, []) | Inl x \<Rightarrow> (Inl (DbFail x), s, []) | Inr a \<Rightarrow> (Inr a, s, []))"

definition exec_db :: "bool \<Rightarrow> (auth_db \<Rightarrow> dberr + auth_db) \<Rightarrow> unit auth_op" where
  "exec_db flt q s = (case faulty flt (q (as_db s)) of
     Inl x \<Rightarrow> (Inl (DbFail x), s, []) | Inr d \<Rightarrow> (Inr (), s\<lparr>as_db := d\<rparr>, []))"

text \<open>A statement that changes rows and returns something, with what its errors become.\<close>

definition alter_db :: "bool \<Rightarrow> (dberr \<Rightarrow> auth_err fail) \<Rightarrow> (auth_db \<Rightarrow> dberr + 'a \<times> auth_db) \<Rightarrow> 'a auth_op" where
  "alter_db flt conv q s = (case faulty flt (q (as_db s)) of
     Inl x \<Rightarrow> (Inl (conv x), s, []) | Inr (a, d) \<Rightarrow> (Inr a, s\<lparr>as_db := d\<rparr>, []))"

text \<open>A query any error of which is the same: \<open>None\<close>.\<close>

definition try_db :: "bool \<Rightarrow> (auth_db \<Rightarrow> dberr + 'a) \<Rightarrow> ('a option \<Rightarrow> 'b auth_op) \<Rightarrow> 'b auth_op" where
  "try_db flt q f s = f (case faulty flt (q (as_db s)) of Inl _ \<Rightarrow> None | Inr a \<Rightarrow> Some a) s"

definition hash_of :: "user \<Rightarrow> string" where
  "hash_of u = (case u_password u of None \<Rightarrow> [] | Some h \<Rightarrow> h)"

definition Verified :: "user \<Rightarrow> bool" where
  "Verified u \<longleftrightarrow> u_email_verified_at u \<noteq> None"

definition GetUserByEmail :: "auth_env \<Rightarrow> string \<Rightarrow> user auth_op" where
  "GetUserByEmail e email = ask_db (ae_fails e AByEmail) ErrNoSuchUser (GetUserInfoByEmail email)"

definition GetUserByID :: "auth_env \<Rightarrow> uuid \<Rightarrow> user auth_op" where
  "GetUserByID e i = ask_db (ae_fails e AByID) ErrNoSuchUser (GetUserInfoByID i)"

section \<open>Passwords\<close>

definition passwordSpecials :: string where "passwordSpecials = ''@$!%*?&''"

definition ValidatePassword :: "string \<Rightarrow> bool" where
  "ValidatePassword p \<longleftrightarrow> 8 \<le> length p \<and> length p \<le> 128 \<and> (\<exists>c \<in> set p. c \<in> set passwordSpecials)"

definition HashPassword :: "auth_env \<Rightarrow> auth_conf \<Rightarrow> string \<Rightarrow> string auth_op" where
  "HashPassword e c p = (if ae_fails e AHashPw then broken else give (ac_hashPw c p))"

text \<open>\<open>None\<close>: the stored hash cannot be read.\<close>

definition CheckPassword :: "auth_env \<Rightarrow> auth_conf \<Rightarrow> string \<Rightarrow> string \<Rightarrow> bool option" where
  "CheckPassword e c p h = (if ae_fails e ACheckPw then None else Some (ac_checkPw c p h))"

section \<open>Sessions\<close>

text \<open>\<^verbatim>\<open>issue\<close>: the access token (as its claims) and the refresh token.\<close>

definition CreateRefreshToken :: "auth_env \<Rightarrow> auth_conf \<Rightarrow> string \<Rightarrow> uuid \<Rightarrow> time \<Rightarrow> unit auth_op" where
  "CreateRefreshToken e c token u expires =
     exec_db (ae_fails e ACreateToken) (CreateARefreshToken (ae_dbnow e) (ac_hashToken c token) u (pgTime expires))"

definition issue :: "auth_env \<Rightarrow> auth_conf \<Rightarrow> time \<Rightarrow> uuid \<Rightarrow> (jwt_claims \<times> string) auth_op" where
  "issue e c now u =
     thenDo (ask_db (ae_fails e ABan) ErrNotAuthorized (UserBan u)) (\<lambda>(banned, _).
       if banned \<noteq> None then refuse ErrSuspended
       else thenDo (if ae_fails e ATouch then give () else exec_db False (\<lambda>d. Inr (TouchLastSeen (pgTime now) u d))) (\<lambda>_.
         if ae_fails e AJwt then broken
         else case ae_refresh e of
           None \<Rightarrow> broken
         | Some token \<Rightarrow>
             thenDo (CreateRefreshToken e c token u (now + ac_refreshTTL c)) (\<lambda>_.
               give (MakeJWT u now (ac_accessTTL c), token))))"

definition Login :: "auth_env \<Rightarrow> auth_conf \<Rightarrow> string \<Rightarrow> string \<Rightarrow> (jwt_claims \<times> string \<times> user) auth_op" where
  "Login e c email password =
     inspect (GetUserByEmail e email) (\<lambda>res. case res of
       Inl (Sentinel _) \<Rightarrow> refuse ErrInvalidCredentials
     | Inl err \<Rightarrow> pass_on err
     | Inr u \<Rightarrow>
         if hash_of u = [] then refuse ErrInvalidCredentials
         else case CheckPassword e c password (hash_of u) of
           None \<Rightarrow> broken
         | Some valid \<Rightarrow>
             if \<not> valid then refuse ErrInvalidCredentials
             else if \<not> Verified u then refuse ErrEmailNotVerified
             else thenDo (issue e c (ae_now e) (u_id u)) (\<lambda>(a, r). give (a, r, u)))"

definition Revoke :: "auth_env \<Rightarrow> auth_conf \<Rightarrow> string \<Rightarrow> unit auth_op" where
  "Revoke e c token = exec_db (ae_fails e ARevokeToken) (\<lambda>d. Inr (RevokeRefreshToken (ae_dbnow e) (ac_hashToken c token) d))"

text \<open>\<^verbatim>\<open>Refresh\<close> as its two halves, which other requests can come between.\<close>

definition Refresh_check :: "auth_env \<Rightarrow> auth_conf \<Rightarrow> string \<Rightarrow> uuid auth_op" where
  "Refresh_check e c token =
     thenDo (ask_db (ae_fails e AGetToken) ErrNotAuthorized (GetRefreshToken (ac_hashToken c token))) (\<lambda>rt.
       if ae_now e > rt_expire_at rt then refuse ErrNotAuthorized else give (rt_user_id rt))"

definition Refresh_rotate :: "auth_env \<Rightarrow> auth_conf \<Rightarrow> string \<Rightarrow> uuid \<Rightarrow> (jwt_claims \<times> string) auth_op" where
  "Refresh_rotate e c token u = thenDo (Revoke e c token) (\<lambda>_. issue e c (ae_now e) u)"

definition Refresh :: "auth_env \<Rightarrow> auth_conf \<Rightarrow> string \<Rightarrow> (jwt_claims \<times> string) auth_op" where
  "Refresh e c token = thenDo (Refresh_check e c token) (Refresh_rotate e c token)"

section \<open>Ending sessions\<close>

text \<open>\<^verbatim>\<open>sessionEnder\<close>: refresh tokens, access tokens, the socket, the phones.\<close>

definition redis_revoke :: "auth_env \<Rightarrow> auth_conf \<Rightarrow> uuid \<Rightarrow> unit auth_op" where
  "redis_revoke e c u s =
     (case RevokeAll (ae_fails e ARedis) (ac_accessTTL c) (ae_srv e) (ae_now e) u (as_rev s) of
        (ok, r) \<Rightarrow> if ok then (Inr (), s\<lparr>as_rev := r\<rparr>, []) else (Inl (DbFail OtherDb), s, []))"

definition RevokeAllRefreshTokens :: "auth_env \<Rightarrow> auth_conf \<Rightarrow> uuid \<Rightarrow> unit auth_op" where
  "RevokeAllRefreshTokens e c u =
     thenDo (exec_db (ae_fails e ARevokeTokens) (\<lambda>d. Inr (RevokeAllUserRefreshTokens (ae_dbnow e) u d))) (\<lambda>_.
       thenDo (redis_revoke e c u) (\<lambda>_.
         thenDo (emit [Disconnect u]) (\<lambda>_.
           if ae_fails e AForgetDevices then broken else emit [ForgetDevices u])))"

definition UpdatePassword :: "auth_env \<Rightarrow> auth_conf \<Rightarrow> uuid \<Rightarrow> string \<Rightarrow> string \<Rightarrow> user auth_op" where
  "UpdatePassword e c me old new =
     (if \<not> ValidatePassword new then refuse ErrBadInput
      else thenDo (GetUserByID e me) (\<lambda>u.
        if hash_of u = [] then refuse ErrNoPassword
        else case CheckPassword e c old (hash_of u) of
          None \<Rightarrow> broken
        | Some ok \<Rightarrow>
            if \<not> ok then refuse ErrPassNotMatch
            else thenDo (HashPassword e c new) (\<lambda>h.
              thenDo (exec_db (ae_fails e ASetPassword) (\<lambda>d. Inr (UpdatePassword_sql (ae_dbnow e) me h d))) (\<lambda>_.
                thenDo (ask_db (ae_fails e AByIDAgain) ErrNoSuchUser (GetUserInfoByID me)) (\<lambda>u'.
                  thenDo (RevokeAllRefreshTokens e c me) (\<lambda>_. give u'))))))"

definition LogoutAll :: "auth_env \<Rightarrow> auth_conf \<Rightarrow> uuid \<Rightarrow> unit auth_op" where
  "LogoutAll = RevokeAllRefreshTokens"

end
