(* ===== verification/Accounts.thy ===== *)
theory Accounts
  imports Auth
begin

text \<open>
  \<^verbatim>\<open>auth/accounts.go\<close> and \<^verbatim>\<open>auth/account_repo.go\<close>: registration, codes sent by mail, password reset,
  Google sign-in, changing the address, deleting the account, the admin page's sign-in; with
  \<^verbatim>\<open>users.Register\<close>.
\<close>

section \<open>Texts\<close>

fun htmlEscape :: "string \<Rightarrow> string" where
  "htmlEscape [] = []"
| "htmlEscape (c # s) =
     (if c = CHR ''&'' then ''&amp;'' else if c = CHR ''<'' then ''&lt;'' else if c = CHR ''>'' then ''&gt;''
      else if c = CHR 0x22 then ''&quot;'' else if c = CHR 0x27 then ''&#39;'' else [c]) @ htmlEscape s"

fun line_breaks :: "string \<Rightarrow> string" where
  "line_breaks [] = []"
| "line_breaks (c # s) = (if c = CHR 0x0A then ''<br>'' else [c]) @ line_breaks s"

definition nl :: string where "nl = [CHR 0x0A]"
definition quote :: string where "quote = [CHR 0x27]"
definition dquote :: string where "dquote = [CHR 0x22]"

definition codeTTL :: duration where "codeTTL = 2 * minute"
definition codeMaxAttempts :: int where "codeMaxAttempts = 5"
definition codeResendGap :: duration where "codeResendGap = minute"
definition signupTokenTTL :: duration where "signupTokenTTL = 15 * minute"
definition AdminSessionTTL :: duration where "AdminSessionTTL = 30 * minute"

text \<open>\<^verbatim>\<open>%06d\<close> of a number below a million, and \<open>2\<close>, the minutes of \<^verbatim>\<open>codeTTL\<close>.\<close>

definition digit :: "nat \<Rightarrow> char" where
  "digit n = ''0123456789'' ! (n mod 10)"

definition six_digits :: "nat \<Rightarrow> string" where
  "six_digits n = map (\<lambda>k. digit (n div 10 ^ (5 - k))) [0..<6]"

definition code_subject :: "string \<Rightarrow> string \<times> string" where
  "code_subject purpose =
     (if purpose = purposeReset then (''reset your password'', ''Your Chirpy password reset code'')
      else if purpose = purposeAdmin then (''sign in to the Chirpy admin page'', ''Your Chirpy admin sign-in code'')
      else if purpose = purposeEmail then (''use this address for your Chirpy account'', ''Confirm your new Chirpy email'')
      else (''confirm your email'', ''Your Chirpy verification code''))"

definition codeEmail :: "string \<Rightarrow> string \<Rightarrow> string \<Rightarrow> string \<Rightarrow> mail" where
  "codeEmail to name purpose pin =
     (case code_subject purpose of (what, subject) \<Rightarrow>
      \<lparr>ml_To = to, ml_Subject = subject,
        ml_Text = ''Hi '' @ name @ '','' @ nl @ nl @ ''Your code to '' @ what @ '' is '' @ pin @ ''.'' @ nl @
          ''It expires in 2 minutes.'' @ nl @ nl @ ''If you didn'' @ quote @ ''t ask for this, you can ignore this email.'' @ nl,
        ml_HTML = ''<p>Hi '' @ htmlEscape name @ '',</p><p>Your code to '' @ what @ '' is</p><p style='' @ dquote @
          ''font-size:28px;font-weight:bold;letter-spacing:4px'' @ dquote @ ''>'' @ pin @
          ''</p><p>It expires in 2 minutes. If you didn'' @ quote @ ''t ask for this, you can ignore this email.</p>''\<rparr>)"

definition notice :: "string \<Rightarrow> string \<Rightarrow> string \<Rightarrow> mail" where
  "notice to subject text = \<lparr>ml_To = to, ml_Subject = subject, ml_Text = text,
     ml_HTML = ''<p>'' @ line_breaks (htmlEscape text) @ ''</p>''\<rparr>"

definition alreadyRegisteredEmail :: "user \<Rightarrow> mail" where
  "alreadyRegisteredEmail u = notice (u_email u) ''Someone tried to sign up with your email''
     (''Hi '' @ u_name u @ '','' @ nl @ nl @ ''Someone tried to create a new Chirpy account with this email address, which already has an account. If it was you, sign in instead or reset your password. If not, you can ignore this email.'' @ nl)"

definition emailInUseNotice :: "user \<Rightarrow> mail" where
  "emailInUseNotice u = notice (u_email u) ''Someone tried to use your email on Chirpy''
     (''Hi '' @ u_name u @ '','' @ nl @ nl @ ''Someone tried to move another Chirpy account to this email address, which already has an account (yours). Nothing was changed. If you didn'' @ quote @ ''t expect this, you can ignore this email.'' @ nl)"

text \<open>The old address learns of a change, with the new one masked: \<open>al***@example.com\<close>.\<close>

definition maskEmail :: "string \<Rightarrow> string" where
  "maskEmail s =
     (let after = rev (takeWhile (\<lambda>c. c \<noteq> CHR ''@'') (rev s)) in
      if CHR ''@'' \<notin> set s then ''***''
      else (let at = length s - length after - 1 in take (min 2 at) s @ ''***'' @ drop at s))"

definition emailChangedNotice :: "user \<Rightarrow> string \<Rightarrow> string \<Rightarrow> mail" where
  "emailChangedNotice u old now = notice old ''Your Chirpy email address was changed''
     (''Hi '' @ u_name u @ '','' @ nl @ nl @ ''The email address of your Chirpy account was changed from '' @ old @ '' to '' @ maskEmail now @
      '', and you were signed out on your other devices.'' @ nl @ nl @ ''If you didn'' @ quote @ ''t do this, write to support@ponypigeon.com right away.'' @ nl)"

section \<open>Names and addresses\<close>

definition normEmail :: "auth_conf \<Rightarrow> string \<Rightarrow> string" where
  "normEmail c s = ac_lower c (TrimSpace s)"

definition NormalizeUsername :: "auth_conf \<Rightarrow> string \<Rightarrow> string" where
  "NormalizeUsername c s = ac_lower c (TrimSpace s)"

definition ValidateEmail :: "auth_conf \<Rightarrow> string \<Rightarrow> bool" where
  "ValidateEmail c s \<longleftrightarrow> length s \<le> 125 \<and> ac_isAddress c s"

section \<open>Codes\<close>

text \<open>\<open>None\<close>: the random source failed.\<close>

definition newCode :: "auth_env \<Rightarrow> string option" where
  "newCode e = map_option (\<lambda>n. six_digits (n mod 1000000)) (ae_code e)"

definition hashCode :: "auth_conf \<Rightarrow> uuid \<Rightarrow> string \<Rightarrow> string \<Rightarrow> string" where
  "hashCode c u purpose pin = ac_hmac c (uuid_String u @ ''|'' @ purpose @ ''|'' @ pin)"

definition bound :: "string \<Rightarrow> string \<Rightarrow> string" where
  "bound purpose newEmail = (if newEmail = [] then purpose else purpose @ ''|'' @ newEmail)"

definition new_email_of :: "email_code \<Rightarrow> string" where
  "new_email_of c = (case ec_new_email c of None \<Rightarrow> [] | Some m \<Rightarrow> m)"

definition GetCode :: "uuid \<Rightarrow> string \<Rightarrow> auth_db \<Rightarrow> dberr + email_code" where
  "GetCode = GetEmailCode"

definition PutCode :: "auth_env \<Rightarrow> uuid \<Rightarrow> string \<Rightarrow> string \<Rightarrow> time \<Rightarrow> time \<Rightarrow> unit auth_op" where
  "PutCode e u purpose hash created expires =
     exec_db (ae_fails e APutCode) (UpsertEmailCode u purpose hash (pgTime expires) (pgTime created))"

definition PutEmailChange :: "auth_env \<Rightarrow> uuid \<Rightarrow> string \<Rightarrow> string \<Rightarrow> time \<Rightarrow> time \<Rightarrow> unit auth_op" where
  "PutEmailChange e u hash newEmail created expires =
     exec_db (ae_fails e APutCode) (UpsertEmailChangeCode u hash newEmail (pgTime expires) (pgTime created))"

definition DeleteCode :: "auth_env \<Rightarrow> uuid \<Rightarrow> string \<Rightarrow> unit auth_op" where
  "DeleteCode e u purpose = exec_db (ae_fails e ADelCode) (\<lambda>d. Inr (DeleteEmailCode u purpose d))"

definition send_mail :: "auth_env \<Rightarrow> mail \<Rightarrow> unit auth_op" where
  "send_mail e m = (if ae_fails e AMail then refuse ErrMailUnavailable else emit [SendMail m])"

definition sent_recently :: "auth_env \<Rightarrow> email_code option \<Rightarrow> bool" where
  "sent_recently e x = (case x of None \<Rightarrow> False | Some c \<Rightarrow> ae_now e - ec_created_at c < codeResendGap)"

definition sendCode :: "auth_env \<Rightarrow> auth_conf \<Rightarrow> user \<Rightarrow> string \<Rightarrow> unit auth_op" where
  "sendCode e c u purpose =
     try_db (ae_fails e AGetCode) (GetCode (u_id u) purpose) (\<lambda>x.
       if sent_recently e x then give ()
       else case newCode e of
         None \<Rightarrow> broken
       | Some pin \<Rightarrow>
           thenDo (PutCode e (u_id u) purpose (hashCode c (u_id u) purpose pin) (ae_now e) (ae_now e + codeTTL)) (\<lambda>_.
             send_mail e (codeEmail (u_email u) (u_name u) purpose pin)))"

text \<open>A wrong guess counts, and the fifth deletes the code; errors of the counting are ignored.\<close>

definition count_guess :: "auth_env \<Rightarrow> uuid \<Rightarrow> string \<Rightarrow> auth_db \<Rightarrow> auth_db" where
  "count_guess e u purpose d =
     (case faulty (ae_fails e ABump) (BumpEmailCodeAttempts u purpose d) of
        Inl _ \<Rightarrow> d
      | Inr (n, d') \<Rightarrow> if n \<ge> codeMaxAttempts \<and> \<not> ae_fails e ADelCode then DeleteEmailCode u purpose d' else d')"

definition right_code :: "auth_conf \<Rightarrow> uuid \<Rightarrow> string \<Rightarrow> string \<Rightarrow> email_code \<Rightarrow> bool" where
  "right_code c u purpose pin x \<longleftrightarrow> ec_code_hash x = hashCode c u (bound purpose (new_email_of x)) (TrimSpace pin)"

definition checkCodeFor :: "auth_env \<Rightarrow> auth_conf \<Rightarrow> uuid \<Rightarrow> string \<Rightarrow> string \<Rightarrow> email_code auth_op" where
  "checkCodeFor e c u purpose pin =
     try_db (ae_fails e AGetCode) (GetCode u purpose) (\<lambda>x. case x of
         None \<Rightarrow> refuse ErrInvalidCode
       | Some x \<Rightarrow>
           if ae_now e > ec_expires_at x then refuse ErrInvalidCode
           else if \<not> right_code c u purpose pin x then
             thenDo (exec_db False (\<lambda>d. Inr (count_guess e u purpose d))) (\<lambda>_. refuse ErrInvalidCode)
           else thenDo (DeleteCode e u purpose) (\<lambda>_. give x))"

definition checkCode :: "auth_env \<Rightarrow> auth_conf \<Rightarrow> uuid \<Rightarrow> string \<Rightarrow> string \<Rightarrow> unit auth_op" where
  "checkCode e c u purpose pin = thenDo (checkCodeFor e c u purpose pin) (\<lambda>_. give ())"

section \<open>Registration and verification\<close>

text \<open>A violated unique index: the username's, or another (the address's).\<close>

definition duplicate :: "dberr \<Rightarrow> auth_err fail" where
  "duplicate x = (case x of
     UniqueViolation con \<Rightarrow> Sentinel (if con = ''users_name_key'' then ErrDuplicateName else ErrDuplicateEmail)
   | _ \<Rightarrow> DbFail x)"

definition repo_CreateUser :: "auth_env \<Rightarrow> string \<Rightarrow> string \<Rightarrow> string \<Rightarrow> user auth_op" where
  "repo_CreateUser e name email hash = alter_db (ae_fails e ACreate) duplicate
     (CreateUser (ae_dbnow e) (ae_newid e) name email (if hash = [] then None else Some hash) name)"

definition users_Register :: "auth_env \<Rightarrow> auth_conf \<Rightarrow> string \<Rightarrow> string \<Rightarrow> string \<Rightarrow> user auth_op" where
  "users_Register e c name0 email0 password =
     (let name = NormalizeUsername c name0; email = normEmail c email0 in
      if \<not> (username_format name \<and> ValidateEmail c email \<and> ValidatePassword password) then refuse ErrBadInput
      else thenDo (HashPassword e c password) (\<lambda>h.
        thenDo (repo_CreateUser e name email h) (\<lambda>u.
          thenDo (emit (if ae_fails e ACacheName then [] else [CacheName (u_id u) (u_name u)])) (\<lambda>_. give u))))"

definition Register :: "auth_env \<Rightarrow> auth_conf \<Rightarrow> string \<Rightarrow> string \<Rightarrow> string \<Rightarrow> unit auth_op" where
  "Register e c name email password =
     inspect (users_Register e c name email password) (\<lambda>res. case res of
       Inr u \<Rightarrow> sendCode e c u purposeVerify
     | Inl err \<Rightarrow>
         if err = Sentinel ErrDuplicateEmail then
           thenDo (GetUserByEmail e (normEmail c email)) (\<lambda>existing.
             if Verified existing then send_mail e (alreadyRegisteredEmail existing)
             else sendCode e c existing purposeVerify)
         else pass_on err)"

text \<open>A lookup by address, where an unknown address gets its own answer.\<close>

definition by_email :: "auth_env \<Rightarrow> auth_conf \<Rightarrow> string \<Rightarrow> 'a auth_op \<Rightarrow> (user \<Rightarrow> 'a auth_op) \<Rightarrow> 'a auth_op" where
  "by_email e c email unknown found =
     inspect (GetUserByEmail e (normEmail c email)) (\<lambda>res. case res of
       Inl (Sentinel _) \<Rightarrow> unknown | Inl err \<Rightarrow> pass_on err | Inr u \<Rightarrow> found u)"

definition ResendVerification :: "auth_env \<Rightarrow> auth_conf \<Rightarrow> string \<Rightarrow> unit auth_op" where
  "ResendVerification e c email = by_email e c email (give ()) (\<lambda>u.
     if Verified u then give () else sendCode e c u purposeVerify)"

record Session =
  se_AccessToken :: jwt_claims
  se_RefreshToken :: string
  se_User :: user

definition session_at :: "auth_env \<Rightarrow> auth_conf \<Rightarrow> time \<Rightarrow> user \<Rightarrow> Session auth_op" where
  "session_at e c now u = thenDo (issue e c now (u_id u)) (\<lambda>(a, r).
     give \<lparr>se_AccessToken = a, se_RefreshToken = r, se_User = u\<rparr>)"

definition MarkVerified :: "auth_env \<Rightarrow> uuid \<Rightarrow> unit auth_op" where
  "MarkVerified e u = exec_db (ae_fails e AMarkVerified) (\<lambda>d. Inr (MarkEmailVerified (ae_dbnow e) u d))"

definition SetPassword :: "auth_env \<Rightarrow> uuid \<Rightarrow> string \<Rightarrow> unit auth_op" where
  "SetPassword e u hash = exec_db (ae_fails e ASetPassword) (\<lambda>d.
     Inr (SetPasswordHash (ae_dbnow e) u (if hash = [] then None else Some hash) d))"

definition verified :: "user \<Rightarrow> time \<Rightarrow> user" where
  "verified u now = u\<lparr>u_email_verified_at := Some now\<rparr>"

definition VerifyEmail :: "auth_env \<Rightarrow> auth_conf \<Rightarrow> string \<Rightarrow> string \<Rightarrow> Session auth_op" where
  "VerifyEmail e c email pin = by_email e c email (refuse ErrInvalidCode) (\<lambda>u.
     thenDo (checkCode e c (u_id u) purposeVerify pin) (\<lambda>_.
       thenDo (MarkVerified e (u_id u)) (\<lambda>_. session_at e c (ae_now e) (verified u (ae_now e)))))"

section \<open>Password reset\<close>

definition RequestPasswordReset :: "auth_env \<Rightarrow> auth_conf \<Rightarrow> string \<Rightarrow> unit auth_op" where
  "RequestPasswordReset e c email = by_email e c email (give ()) (\<lambda>u. sendCode e c u purposeReset)"

definition ResetPassword :: "auth_env \<Rightarrow> auth_conf \<Rightarrow> string \<Rightarrow> string \<Rightarrow> string \<Rightarrow> unit auth_op" where
  "ResetPassword e c email pin new =
     (if \<not> ValidatePassword new then refuse ErrBadInput
      else by_email e c email (refuse ErrInvalidCode) (\<lambda>u.
        thenDo (checkCode e c (u_id u) purposeReset pin) (\<lambda>_.
          thenDo (HashPassword e c new) (\<lambda>h.
            thenDo (SetPassword e (u_id u) h) (\<lambda>_.
              thenDo (MarkVerified e (u_id u)) (\<lambda>_. RevokeAllRefreshTokens e c (u_id u)))))))"

section \<open>Google\<close>

datatype GoogleResult = GSession Session | SignupToken string

definition google :: string where "google = ''google''"

definition LinkIdentity :: "auth_env \<Rightarrow> string \<Rightarrow> uuid \<Rightarrow> string \<Rightarrow> unit auth_op" where
  "LinkIdentity e subject u email = exec_db (ae_fails e ALink) (CreateIdentity (ae_dbnow e) google subject u email)"

definition take_over :: "auth_env \<Rightarrow> auth_conf \<Rightarrow> user \<Rightarrow> user auth_op" where
  "take_over e c u =
     (if Verified u then give u
      else thenDo (SetPassword e (u_id u) []) (\<lambda>_.
        thenDo (RevokeAllRefreshTokens e c (u_id u)) (\<lambda>_.
          thenDo (MarkVerified e (u_id u)) (\<lambda>_. give (verified u (ae_now e))))))"

definition Google :: "auth_env \<Rightarrow> auth_conf \<Rightarrow> string \<Rightarrow> GoogleResult auth_op" where
  "Google e c idToken =
     (case ac_google c of
        None \<Rightarrow> refuse ErrGoogleUnavailable
      | Some verify \<Rightarrow>
          (case verify idToken of
             None \<Rightarrow> refuse ErrInvalidGoogle
           | Some g \<Rightarrow>
               if \<not> gc_EmailVerified g \<or> gc_Subject g = [] \<or> gc_Email g = [] then refuse ErrInvalidGoogle
               else (let email = normEmail c (gc_Email g) in
                 try_db (ae_fails e AIdentity) (GetIdentity google (gc_Subject g)) (\<lambda>x. case x of
                   Some i \<Rightarrow> thenDo (GetUserByID e (ui_user_id i)) (\<lambda>u.
                     thenDo (session_at e c (ae_now e) u) (\<lambda>x. give (GSession x)))
                 | None \<Rightarrow> inspect (GetUserByEmail e email) (\<lambda>res. case res of
                       Inr u \<Rightarrow>
                         thenDo (take_over e c u) (\<lambda>u'.
                           thenDo (LinkIdentity e (gc_Subject g) (u_id u) email) (\<lambda>_.
                             thenDo (session_at e c (ae_now e) u') (\<lambda>x. give (GSession x))))
                     | Inl (DbFail x) \<Rightarrow> pass_on (DbFail x)
                     | Inl (Sentinel _) \<Rightarrow>
                         if ae_fails e ASignup then broken
                         else give (SignupToken (ac_signup c (gc_Subject g) email (ae_now e + signupTokenTTL))))))))"

text \<open>One transaction: the user and the identity, or neither.\<close>

definition google_duplicate :: "dberr \<Rightarrow> auth_err fail" where
  "google_duplicate x = (if x = UniqueViolation ''user_identities_pkey'' then Sentinel ErrInvalidGoogle else duplicate x)"

definition CreateGoogleUser :: "auth_env \<Rightarrow> string \<Rightarrow> string \<Rightarrow> string \<Rightarrow> user auth_op" where
  "CreateGoogleUser e name email subject = alter_db (ae_fails e ACreate) google_duplicate (\<lambda>d.
     andThen (CreateUserVerifiedNoPassword (ae_dbnow e) (ae_newid e) name email name d) (\<lambda>(u, d1).
       andThen (faulty (ae_fails e ALink) (CreateIdentity (ae_dbnow e) google subject (u_id u) email d1)) (\<lambda>d2.
         Inr (u, d2))))"

definition CompleteGoogleSignup :: "auth_env \<Rightarrow> auth_conf \<Rightarrow> string \<Rightarrow> string \<Rightarrow> Session auth_op" where
  "CompleteGoogleSignup e c token name0 =
     (case ac_readSignup c (ae_now e) token of
        None \<Rightarrow> refuse ErrInvalidGoogle
      | Some (sub, email) \<Rightarrow>
          if sub = [] \<or> email = [] then refuse ErrInvalidGoogle
          else (let name = NormalizeUsername c name0 in
            if \<not> username_format name then refuse ErrBadInput
            else inspect (CreateGoogleUser e name email sub) (\<lambda>res. case res of
                Inl err \<Rightarrow> if err = Sentinel ErrDuplicateEmail then refuse ErrInvalidGoogle else pass_on err
              | Inr u \<Rightarrow> session_at e c (ae_now e) u)))"

section \<open>Confirming it is the owner\<close>

definition reauth :: "auth_env \<Rightarrow> auth_conf \<Rightarrow> uuid \<Rightarrow> string \<Rightarrow> string \<Rightarrow> unit auth_op" where
  "reauth e c me password googleIDToken =
     thenDo (GetUserByID e me) (\<lambda>u.
       if hash_of u \<noteq> [] \<and> password \<noteq> [] then
         (if CheckPassword e c password (hash_of u) = Some True then give () else refuse ErrReauthRequired)
       else if googleIDToken \<noteq> [] then
         (case ac_google c of
            None \<Rightarrow> refuse ErrGoogleUnavailable
          | Some verify \<Rightarrow>
              (case verify googleIDToken of
                 None \<Rightarrow> refuse ErrReauthRequired
               | Some g \<Rightarrow> try_db (ae_fails e AIdentity) (GetIdentity google (gc_Subject g)) (\<lambda>x. case x of
                   None \<Rightarrow> refuse ErrReauthRequired
                 | Some i \<Rightarrow> if ui_user_id i \<noteq> me then refuse ErrReauthRequired else give ())))
       else refuse ErrReauthRequired)"

section \<open>Deletion\<close>

text \<open>
  The transaction of \<^verbatim>\<open>DeleteUser\<close>: groups the user leads get another admin, or go when nobody is left;
  then the row with its cascades, and the counts. \<open>None\<close>: a statement failed and all is rolled back.
\<close>

definition hand_over :: "uuid \<Rightarrow> uuid \<Rightarrow> auth_db \<Rightarrow> auth_db option" where
  "hand_over u gid d =
     (case LockGroup gid (ad_db d) of
        Inl _ \<Rightarrow> None
      | Inr _ \<Rightarrow>
          (case EarliestOtherMember gid u d of
             Inl NoRows \<Rightarrow> Some (d\<lparr>ad_db := DeleteGroup gid (ad_db d)\<rparr>)
           | Inl _ \<Rightarrow> None
           | Inr nxt \<Rightarrow> Some (d\<lparr>ad_db := PromoteToLeader gid nxt (ad_db d)\<rparr>)))"

fun hand_over_all :: "uuid \<Rightarrow> uuid list \<Rightarrow> auth_db \<Rightarrow> auth_db option" where
  "hand_over_all u [] d = Some d"
| "hand_over_all u (g # gs) d = (case hand_over u g d of None \<Rightarrow> None | Some d' \<Rightarrow> hand_over_all u gs d')"

fun recount_all :: "time \<Rightarrow> uuid list \<Rightarrow> auth_db \<Rightarrow> auth_db" where
  "recount_all now [] d = d"
| "recount_all now (g # gs) d = recount_all now gs (d\<lparr>ad_db := RecountGroupMembers now g (ad_db d)\<rparr>)"

definition DeleteUser :: "auth_env \<Rightarrow> uuid \<Rightarrow> auth_db \<Rightarrow> ((uuid list \<times> uuid list) \<times> auth_db) option" where
  "DeleteUser e u d =
     (if ae_fails e ADeleteUser then None
      else case hand_over_all u (GroupsLedBy u d) d of
        None \<Rightarrow> None
      | Some d1 \<Rightarrow> Some ((FriendIDsOf u d, GroupsOfUser u d), recount_all (ae_dbnow e) (GroupsOfUser u d) (DeleteUserByID u d1)))"

text \<open>\<^verbatim>\<open>cacheCleaner.AccountDeleted\<close>: whatever fails in it is logged.\<close>

definition AccountDeleted :: "auth_env \<Rightarrow> auth_conf \<Rightarrow> uuid \<Rightarrow> uuid list \<Rightarrow> uuid list \<Rightarrow> unit auth_op" where
  "AccountDeleted e c u friends groups s =
     (let s' = (case redis_revoke e c u s of (_, s', _) \<Rightarrow> s') in
      (Inr (), s', [InvalidateFriends (u # friends)] @ (if groups = [] then [] else [InvalidateGroups groups]) @
        [ForgetName u, Disconnect u]))"

definition DeleteAccount :: "auth_env \<Rightarrow> auth_conf \<Rightarrow> uuid \<Rightarrow> string \<Rightarrow> string \<Rightarrow> unit auth_op" where
  "DeleteAccount e c me password googleIDToken =
     thenDo (reauth e c me password googleIDToken) (\<lambda>_ s.
       case DeleteUser e me (as_db s) of
         None \<Rightarrow> broken s
       | Some ((friends, groups), d) \<Rightarrow> AccountDeleted e c me friends groups (s\<lparr>as_db := d\<rparr>))"

section \<open>Changing the address\<close>

definition StartEmailChange :: "auth_env \<Rightarrow> auth_conf \<Rightarrow> uuid \<Rightarrow> string \<Rightarrow> string \<Rightarrow> string \<Rightarrow> unit auth_op" where
  "StartEmailChange e c me newEmail password googleIDToken =
     (let email = normEmail c newEmail in
      if \<not> ValidateEmail c email then refuse ErrBadInput
      else thenDo (reauth e c me password googleIDToken) (\<lambda>_.
        thenDo (ask_db (ae_fails e AByIDAgain) ErrNoSuchUser (GetUserInfoByID me)) (\<lambda>u.
          if email = u_email u then refuse ErrSameEmail
          else try_db (ae_fails e AGetCode) (GetCode me purposeEmail) (\<lambda>x.
            if sent_recently e x then refuse ErrCodeTooSoon
            else inspect (GetUserByEmail e email) (\<lambda>res. case res of
                Inr other \<Rightarrow>
                  inspect (PutEmailChange e me [] email (ae_now e) (ae_now e)) (\<lambda>_. send_mail e (emailInUseNotice other))
              | Inl (DbFail y) \<Rightarrow> pass_on (DbFail y)
              | Inl (Sentinel _) \<Rightarrow>
                  (case newCode e of
                     None \<Rightarrow> broken
                   | Some pin \<Rightarrow>
                       thenDo (PutEmailChange e me (hashCode c me (bound purposeEmail email) pin) email (ae_now e) (ae_now e + codeTTL)) (\<lambda>_.
                         send_mail e (codeEmail email (u_name u) purposeEmail pin))))))))"

definition taken :: "dberr \<Rightarrow> auth_err fail" where
  "taken x = (case x of UniqueViolation _ \<Rightarrow> Sentinel ErrEmailTaken | _ \<Rightarrow> DbFail x)"

definition ChangeEmail :: "auth_env \<Rightarrow> uuid \<Rightarrow> string \<Rightarrow> unit auth_op" where
  "ChangeEmail e u email = alter_db (ae_fails e AChangeEmail) taken (\<lambda>d.
     andThen (ChangeEmail_sql (ae_dbnow e) email u d) (\<lambda>d'. Inr ((), d')))"

text \<open>The fresh session is made two milliseconds after the revocation.\<close>

definition ConfirmEmailChange :: "auth_env \<Rightarrow> auth_conf \<Rightarrow> uuid \<Rightarrow> string \<Rightarrow> Session auth_op" where
  "ConfirmEmailChange e c me pin =
     thenDo (checkCodeFor e c me purposeEmail pin) (\<lambda>x.
       if new_email_of x = [] then refuse ErrInvalidCode
       else thenDo (GetUserByID e me) (\<lambda>u.
         thenDo (ChangeEmail e me (new_email_of x)) (\<lambda>_.
           thenDo (RevokeAllRefreshTokens e c me) (\<lambda>_.
             thenDo (emit (if ae_fails e AMail then [] else [SendMail (emailChangedNotice u (u_email u) (new_email_of x))])) (\<lambda>_.
               session_at e c (ae_now e + 2 * millisecond)
                 (verified (u\<lparr>u_email := new_email_of x\<rparr>) (ae_now e)))))))"

section \<open>The admin page\<close>

definition AdminStart :: "auth_env \<Rightarrow> auth_conf \<Rightarrow> string \<Rightarrow> string \<Rightarrow> unit auth_op" where
  "AdminStart e c email password = by_email e c email (refuse ErrInvalidCredentials) (\<lambda>u.
     if hash_of u = [] then refuse ErrInvalidCredentials
     else if CheckPassword e c password (hash_of u) \<noteq> Some True \<or> \<not> u_is_admin u then refuse ErrInvalidCredentials
     else sendCode e c u purposeAdmin)"

definition AdminVerify :: "auth_env \<Rightarrow> auth_conf \<Rightarrow> string \<Rightarrow> string \<Rightarrow> jwt_claims auth_op" where
  "AdminVerify e c email pin =
     inspect (GetUserByEmail e (normEmail c email)) (\<lambda>res. case res of
       Inr u \<Rightarrow>
         if \<not> u_is_admin u then refuse ErrInvalidCode
         else thenDo (checkCode e c (u_id u) purposeAdmin pin) (\<lambda>_.
           if ae_fails e AJwt then broken else give (MakeAdminJWT (u_id u) (ae_now e) AdminSessionTTL))
     | Inl _ \<Rightarrow> refuse ErrInvalidCode)"

end
