(* ===== verification/Auth_Safety.thy ===== *)
theory Auth_Safety
  imports Accounts
begin

text \<open>
  Reasoning about composed account operations, and the invariant of the account tables, kept by every
  statement.
\<close>

section \<open>Reasoning about composed calls\<close>

lemma thenDo_Inr: "thenDo m f s = (Inr b, s2, es) \<longleftrightarrow>
    (\<exists>a s1 es1 es2. m s = (Inr a, s1, es1) \<and> f a s1 = (Inr b, s2, es2) \<and> es = es1 @ es2)"
  by (auto simp: thenDo_def split: prod.splits sum.splits)

lemma thenDo_give [simp]: "thenDo (give a) f = f a"
  by (rule ext) (simp add: thenDo_def give_def split: prod.splits)

lemma thenDo_refuse [simp]: "thenDo (refuse err) f = refuse err"
  by (rule ext) (simp add: thenDo_def refuse_def)

lemma thenDo_broken [simp]: "thenDo broken f = broken"
  by (rule ext) (simp add: thenDo_def broken_def)

lemma give_Inr [simp]: "give a s = (Inr b, s', es) \<longleftrightarrow> b = a \<and> s' = s \<and> es = []"
  by (auto simp: give_def)

lemma refuse_Inr [simp]: "refuse err s \<noteq> (Inr b, s', es)"
  by (simp add: refuse_def)

lemma broken_Inr [simp]: "broken s \<noteq> (Inr b, s', es)"
  by (simp add: broken_def)

lemma emit_Inr [simp]: "emit es s = (Inr b, s', es') \<longleftrightarrow> s' = s \<and> es' = es"
  by (auto simp: emit_def)

lemma ask_db_Inr [simp]: "ask_db flt none q s = (Inr a, s', es) \<longleftrightarrow> \<not> flt \<and> q (as_db s) = Inr a \<and> s' = s \<and> es = []"
  by (auto simp: ask_db_def faulty_def split: sum.splits dberr.splits if_splits)

lemma ask_db_same: "ask_db flt none q s = (r, s', es) \<Longrightarrow> s' = s \<and> es = []"
  by (auto simp: ask_db_def split: sum.splits dberr.splits)

lemma exec_db_Inr [simp]: "exec_db flt q s = (Inr u, s', es) \<longleftrightarrow>
    \<not> flt \<and> (\<exists>d. q (as_db s) = Inr d \<and> s' = s\<lparr>as_db := d\<rparr>) \<and> es = []"
  by (auto simp: exec_db_def faulty_def split: sum.splits if_splits)

text \<open>How an operation moves the state, whatever it answers, composes.\<close>

definition moves :: "(auth_sys \<Rightarrow> auth_sys \<Rightarrow> bool) \<Rightarrow> 'a auth_op \<Rightarrow> bool" where
  "moves R m \<longleftrightarrow> (\<forall>s. R s (fst (snd (m s))))"

locale state_relation =
  fixes R :: "auth_sys \<Rightarrow> auth_sys \<Rightarrow> bool"
  assumes refl: "R s s" and trans: "R s t \<Longrightarrow> R t v \<Longrightarrow> R s v"
begin

lemma moves_thenDo: "moves R m \<Longrightarrow> (\<And>a. moves R (f a)) \<Longrightarrow> moves R (thenDo m f)"
  unfolding moves_def
proof
  fix s assume m: "\<forall>s. R s (fst (snd (m s)))" and f: "\<And>a. \<forall>s. R s (fst (snd (f a s)))"
  obtain r s1 es where ms: "m s = (r, s1, es)" by (cases "m s")
  with m have 1: "R s s1" by (metis fst_conv snd_conv)
  show "R s (fst (snd (thenDo m f s)))"
  proof (cases r)
    case (Inr a)
    have "R s1 (fst (snd (f a s1)))" using f by blast
    with 1 show ?thesis by (auto simp: thenDo_def ms Inr split: prod.splits intro: trans)
  qed (simp add: thenDo_def ms 1)
qed

lemma moves_still: "(\<And>s. fst (snd (m s)) = s) \<Longrightarrow> moves R m"
  by (simp add: moves_def refl)

lemma moves_give: "moves R (give a)" by (rule moves_still) (simp add: give_def)
lemma moves_refuse: "moves R (refuse err)" by (rule moves_still) (simp add: refuse_def)
lemma moves_broken: "moves R broken" by (rule moves_still) (simp add: broken_def)
lemma moves_emit: "moves R (emit es)" by (rule moves_still) (simp add: emit_def)

lemma moves_ask_db: "moves R (ask_db flt none q)"
  by (rule moves_still) (simp add: ask_db_def split: sum.splits dberr.splits)

lemma moves_exec_db:
  "(\<And>s d. q (as_db s) = Inr d \<Longrightarrow> R s (s\<lparr>as_db := d\<rparr>)) \<Longrightarrow> moves R (exec_db flt q)"
  by (auto simp: moves_def exec_db_def faulty_def refl split: sum.splits if_splits)

lemma moves_try_db: "(\<And>x. moves R (f x)) \<Longrightarrow> moves R (try_db flt q f)"
  by (simp add: moves_def try_db_def)

lemma moves_GetUserByEmail: "moves R (GetUserByEmail e email)" and moves_GetUserByID: "moves R (GetUserByID e i)"
  by (simp_all add: GetUserByEmail_def GetUserByID_def moves_ask_db)

lemma moves_inspect: "moves R m \<Longrightarrow> (\<And>r. moves R (f r)) \<Longrightarrow> moves R (inspect m f)"
  unfolding moves_def
proof
  fix s assume m: "\<forall>s. R s (fst (snd (m s)))" and f: "\<And>r. \<forall>s. R s (fst (snd (f r s)))"
  obtain r s1 es where ms: "m s = (r, s1, es)" by (cases "m s")
  with m have 1: "R s s1" by (metis fst_conv snd_conv)
  have "R s1 (fst (snd (f r s1)))" using f by blast
  with 1 show "R s (fst (snd (inspect m f s)))"
    by (auto simp: inspect_def ms split: prod.splits intro: trans)
qed

lemma moves_pass_on: "moves R (pass_on err)" by (rule moves_still) (simp add: pass_on_def)

lemma moves_alter_db:
  "(\<And>s a d. q (as_db s) = Inr (a, d) \<Longrightarrow> R s (s\<lparr>as_db := d\<rparr>)) \<Longrightarrow> moves R (alter_db flt conv q)"
  by (auto simp: moves_def alter_db_def faulty_def refl split: sum.splits if_splits)

lemma moves_by_email: "moves R unknown \<Longrightarrow> (\<And>u. moves R (found u)) \<Longrightarrow> moves R (by_email e c email unknown found)"
  unfolding by_email_def
  by (rule moves_inspect [OF moves_GetUserByEmail]) (auto split: sum.split fail.split intro: moves_pass_on)

lemmas moves_basic = moves_thenDo moves_inspect moves_pass_on moves_give moves_refuse moves_broken moves_emit moves_ask_db moves_try_db
  moves_GetUserByEmail moves_GetUserByID moves_by_email

end

section \<open>The invariant\<close>

definition AllPurposes :: "string list" where
  "AllPurposes = [purposeVerify, purposeReset, purposeAdmin, purposeEmail]"

definition code_ok :: "auth_db \<Rightarrow> email_code \<Rightarrow> bool" where
  "code_ok d c \<longleftrightarrow> user_exists (ec_user_id c) (ad_db d) \<and> ec_purpose c \<in> set AllPurposes \<and> 0 \<le> ec_attempts c \<and>
     ec_expires_at c \<le> ec_created_at c + codeTTL \<and> (ec_new_email c \<noteq> None \<longrightarrow> ec_purpose c = purposeEmail)"

definition people_ok :: "auth_db \<Rightarrow> bool" where
  "people_ok d \<longleftrightarrow> key_ok u_id (users (ad_db d)) \<and> key_ok u_email (users (ad_db d)) \<and> key_ok u_name (users (ad_db d)) \<and>
     (\<forall>u \<in> set (users (ad_db d)). username_format (u_name u))"

definition tokens_ok :: "auth_db \<Rightarrow> bool" where
  "tokens_ok d \<longleftrightarrow> key_ok rt_token (refresh_tokens d) \<and>
     (\<forall>r \<in> set (refresh_tokens d). user_exists (rt_user_id r) (ad_db d))"

definition codes_ok :: "auth_db \<Rightarrow> bool" where
  "codes_ok d \<longleftrightarrow> key_ok (\<lambda>c. (ec_user_id c, ec_purpose c)) (email_codes d) \<and> (\<forall>c \<in> set (email_codes d). code_ok d c)"

definition identities_ok :: "auth_db \<Rightarrow> bool" where
  "identities_ok d \<longleftrightarrow> key_ok (\<lambda>i. (ui_provider i, ui_subject i)) (user_identities d) \<and>
     (\<forall>i \<in> set (user_identities d). user_exists (ui_user_id i) (ad_db d))"

definition auth_inv :: "auth_db \<Rightarrow> bool" where
  "auth_inv d \<longleftrightarrow> people_ok d \<and> tokens_ok d \<and> codes_ok d \<and> identities_ok d"

lemmas auth_inv_defs = auth_inv_def people_ok_def tokens_ok_def codes_ok_def identities_ok_def code_ok_def

text \<open>A change of the users that keeps ids, of the tokens, of the codes, of the identities.\<close>

lemma user_exists_update:
  "(\<And>u. u_id (f u) = u_id u) \<Longrightarrow> user_exists i (d\<lparr>users := update_rows p f (users d)\<rparr>) = user_exists i d"
  by (auto simp: user_exists_def exists_row_def set_update_rows)

lemma set_user_other [simp]:
  "refresh_tokens (set_user i f d) = refresh_tokens d" "email_codes (set_user i f d) = email_codes d"
  "user_identities (set_user i f d) = user_identities d"
  by (simp_all add: set_user_def set_users_def)

lemma users_set_user [simp]: "users (ad_db (set_user i f d)) = update_rows (\<lambda>u. u_id u = i) f (users (ad_db d))"
  by (simp add: set_user_def set_users_def)

lemma user_exists_set_user:
  "(\<And>u. u_id (f u) = u_id u) \<Longrightarrow> user_exists j (ad_db (set_user i f d)) = user_exists j (ad_db d)"
  by (simp add: set_user_def set_users_def user_exists_update)

lemma auth_inv_set_user:
  assumes "auth_inv d" and f: "\<And>u. u_id (f u) = u_id u" "\<And>u. u_name (f u) = u_name u" "\<And>u. u_email (f u) = u_email u"
  shows "auth_inv (set_user i f d)"
  using assms(1)
  by (auto simp: auth_inv_defs key_ok_update f user_exists_set_user set_update_rows)

lemma auth_inv_ChangeEmail:
  assumes "auth_inv d" "ChangeEmail_sql now email i d = Inr d'"
  shows "auth_inv d'"
proof (cases "user_exists i (ad_db d)")
  case True
  let ?f = "\<lambda>u. u\<lparr>u_email := email, u_email_verified_at := Some now, u_updated_at := now\<rparr>"
  have d': "d' = set_user i ?f d" and other: "\<not> exists_row (\<lambda>u. u_email u = email \<and> u_id u \<noteq> i) (users (ad_db d))"
    using assms(2) True by (auto simp: ChangeEmail_sql_def split: if_splits)
  have mail: "key_ok u_email (update_rows (\<lambda>u. u_id u = i) ?f rows)"
    if "key_ok u_id rows" "key_ok u_email rows" "\<not> exists_row (\<lambda>u. u_email u = email \<and> u_id u \<noteq> i) rows" for rows
    using that
  proof (induction rows)
    case (Cons u rows)
    have "u_email (if u_id u = i then ?f u else u) \<noteq> u_email (if u_id v = i then ?f v else v)"
      if v: "v \<in> set rows" for v
    proof -
      have "u_id v \<noteq> u_id u" "u_email v \<noteq> u_email u"
        using Cons.prems(1,2) imageI [OF v] by (metis distinct.simps(2) key_ok_def list.map(2) list.set_map)+
      moreover have "u_email u = email \<Longrightarrow> u_id u = i" "u_email v = email \<Longrightarrow> u_id v = i"
        using Cons.prems(3) v by (auto simp: exists_row_def)
      ultimately show ?thesis by auto
    qed
    then have "u_email (if u_id u = i then ?f u else u) \<notin> u_email ` set (update_rows (\<lambda>u. u_id u = i) ?f rows)"
      by (auto simp only: set_update_rows image_iff)
    then show ?case using Cons by (simp add: key_ok_def)
  qed simp
  show ?thesis
    using assms(1) mail [OF _ _ other] unfolding d'
    by (auto simp: auth_inv_defs key_ok_update user_exists_set_user set_update_rows)
qed (use assms in \<open>simp add: ChangeEmail_sql_def\<close>)

lemma auth_inv_tokens:
  assumes "auth_inv d" "tokens_ok (d\<lparr>refresh_tokens := rows\<rparr>)"
  shows "auth_inv (d\<lparr>refresh_tokens := rows\<rparr>)"
  using assms by (auto simp: auth_inv_defs)

lemma auth_inv_codes:
  assumes "auth_inv d" "codes_ok (d\<lparr>email_codes := rows\<rparr>)"
  shows "auth_inv (d\<lparr>email_codes := rows\<rparr>)"
  using assms by (auto simp: auth_inv_defs)

lemma auth_inv_revoke_rows: "auth_inv d \<Longrightarrow> auth_inv (revoke_rows now p d)"
  unfolding revoke_rows_def
  by (rule auth_inv_tokens) (auto simp: auth_inv_defs key_ok_update set_update_rows)

lemma auth_inv_CreateToken: "auth_inv d \<Longrightarrow> CreateARefreshToken now h u ex d = Inr d' \<Longrightarrow> auth_inv d'"
  by (auto simp: CreateARefreshToken_def auth_inv_defs key_ok_snoc split: if_splits)

lemma auth_inv_put_code:
  assumes "auth_inv d" "put_code c upd d = Inr d'" "user_exists (ec_user_id c) (ad_db d) \<Longrightarrow> code_ok d c"
    and upd: "\<And>x. code_for (ec_user_id c) (ec_purpose c) x \<Longrightarrow> code_ok d x \<Longrightarrow>
      code_ok d (upd x) \<and> ec_user_id (upd x) = ec_user_id x \<and> ec_purpose (upd x) = ec_purpose x"
  shows "auth_inv d'"
proof -
  have ok: "codes_ok d" using assms(1) by (simp add: auth_inv_def)
  show ?thesis
  proof (cases "exists_row (code_for (ec_user_id c) (ec_purpose c)) (email_codes d)")
    case True
    let ?rows = "update_rows (code_for (ec_user_id c) (ec_purpose c)) upd (email_codes d)"
    have d': "d' = d\<lparr>email_codes := ?rows\<rparr>" using assms(2) True by (simp add: put_code_def)
    have "map (\<lambda>c. (ec_user_id c, ec_purpose c)) ?rows = map (\<lambda>c. (ec_user_id c, ec_purpose c)) (email_codes d)"
      using ok upd by (auto simp: update_rows_def codes_ok_def)
    then have "codes_ok (d\<lparr>email_codes := ?rows\<rparr>)"
      using ok upd by (auto simp: codes_ok_def key_ok_def set_update_rows code_ok_def)
    then show ?thesis unfolding d' by (rule auth_inv_codes [OF assms(1)])
  next
    case False
    then have d': "d' = d\<lparr>email_codes := email_codes d @ [c]\<rparr>" and "user_exists (ec_user_id c) (ad_db d)"
      using assms(2) by (auto simp: put_code_def split: if_splits)
    then have "codes_ok d'"
      using ok False assms(3) by (auto simp: codes_ok_def key_ok_snoc code_ok_def code_for_def exists_row_def)
    then show ?thesis unfolding d' by (rule auth_inv_codes [OF assms(1)])
  qed
qed

lemma pgTime_codeTTL: "pgTime (t + codeTTL) \<le> pgTime t + codeTTL"
proof -
  have "codeTTL = 1000 * 120000000" by (simp add: codeTTL_def minute_def)
  then have "(t + codeTTL) mod 1000 = t mod 1000" by (metis mod_mult_self2)
  then show ?thesis by (simp add: pgTime_def)
qed

lemma purposes [simp]: "purposeVerify \<in> set AllPurposes" "purposeReset \<in> set AllPurposes"
  "purposeAdmin \<in> set AllPurposes" "purposeEmail \<in> set AllPurposes"
  by (simp_all add: AllPurposes_def)

lemma auth_inv_UpsertEmailCode:
  "auth_inv d \<Longrightarrow> UpsertEmailCode u purpose hash ex cr d = Inr d' \<Longrightarrow> purpose \<in> set AllPurposes \<Longrightarrow> ex \<le> cr + codeTTL \<Longrightarrow> auth_inv d'"
  unfolding UpsertEmailCode_def by (erule auth_inv_put_code) (auto simp: code_ok_def code_for_def)

lemma auth_inv_UpsertEmailChangeCode:
  "auth_inv d \<Longrightarrow> UpsertEmailChangeCode u hash mail ex cr d = Inr d' \<Longrightarrow> ex \<le> cr + codeTTL \<Longrightarrow> auth_inv d'"
  unfolding UpsertEmailChangeCode_def by (erule auth_inv_put_code) (auto simp: code_ok_def code_for_def)

lemma auth_inv_DeleteCode: "auth_inv d \<Longrightarrow> auth_inv (DeleteEmailCode u purpose d)"
  unfolding DeleteEmailCode_def by (rule auth_inv_codes) (auto simp: auth_inv_defs key_ok_delete)

lemma auth_inv_Bump: "auth_inv d \<Longrightarrow> BumpEmailCodeAttempts u purpose d = Inr (n, d') \<Longrightarrow> auth_inv d'"
  by (auto simp: BumpEmailCodeAttempts_def auth_inv_defs key_ok_update set_update_rows split: option.splits)

lemma auth_inv_count_guess: "auth_inv d \<Longrightarrow> auth_inv (count_guess e u purpose d)"
  by (auto simp: count_guess_def faulty_def auth_inv_Bump auth_inv_DeleteCode split: sum.splits if_splits)

lemma auth_inv_insert_user: "auth_inv d \<Longrightarrow> insert_user u d = Inr (v, d') \<Longrightarrow> auth_inv d' \<and> v = u \<and> user_exists (u_id u) (ad_db d')"
  by (auto simp: insert_user_def set_users_def auth_inv_defs key_ok_snoc user_exists_def split: if_splits)

lemma auth_inv_CreateIdentity: "auth_inv d \<Longrightarrow> CreateIdentity now p sub u email d = Inr d' \<Longrightarrow> auth_inv d'"
  by (auto simp: CreateIdentity_def auth_inv_defs key_ok_snoc split: if_splits)

end
