(* ===== verification/Groups_Safety.thy ===== *)
theory Groups_Safety
  imports Groups_Service
begin

text \<open>
  The invariant of the groups tables under every operation of the service: one admin per
  group, the stored member count is right and within capacity, permissions only for
  moderators, unique invite codes.
\<close>

section \<open>Changes that keep the invariant\<close>

text \<open>A change of one group's member rows, with the group row adjusted to fit.\<close>

lemma regroup_inv:
  assumes inv: "groups_inv d" and g: "find_group gid d = Some g"
    and same: "users d' = users d" "group_avatars d' = group_avatars d"
    and cg: "chat_groups d' = update_rows (\<lambda>g. g_id g = gid) f (chat_groups d)"
    and f: "\<And>g. g_id (f g) = g_id g" "\<And>g. g_invite_code (f g) = g_invite_code g"
      "\<And>g. g_max_member (f g) = g_max_member g" "\<And>g. g_visibility (f g) = g_visibility g"
      "\<And>g. g_avatar_at (f g) = g_avatar_at g"
    and k: "key_ok (\<lambda>m. (mt_group_id m, mt_member_id m)) (member_table d')"
    and other: "\<And>i. i \<noteq> gid \<Longrightarrow> members_of i d' = members_of i d"
    and rows: "\<And>m. m \<in> set (members_of gid d') \<Longrightarrow> row_ok d m"
    and admin: "length (admins_of gid d') = 1"
    and count: "g_current_member (f g) = int (length (members_of gid d'))"
      "g_current_member (f g) \<le> g_max_member g"
  shows "groups_inv d'"
proof (rule groups_inv_changeI [OF inv same(1) cg f(1) _ k])
  show "key_ok g_invite_code (chat_groups d')"
    unfolding cg using groups_invD(2) [OF inv] by (simp add: key_ok_update f)
  show "key_ok ga_group_id (group_avatars d')" using groups_invD(4) [OF inv] same by simp
  show "group_ok d' (f g)"
    using groups_invD(5) [OF inv g] admin count find_group_Some [OF g]
    by (simp add: group_ok_def f same)
qed (use g other same rows in auto)

lemma SetCount_frame [simp]:
  "users (SetGroupMemberCount now gid n d) = users d"
  "group_avatars (SetGroupMemberCount now gid n d) = group_avatars d"
  "member_table (SetGroupMemberCount now gid n d) = member_table d"
  "members_of i (SetGroupMemberCount now gid n d) = members_of i d"
  "admins_of i (SetGroupMemberCount now gid n d) = admins_of i d"
  "chat_groups (SetGroupMemberCount now gid n d) =
     update_rows (\<lambda>g. g_id g = gid) (\<lambda>g. g\<lparr>g_current_member := n, g_updated_at := now\<rparr>) (chat_groups d)"
  by (simp_all add: SetGroupMemberCount_def update_group_def members_of_def admins_of_def)

lemma DeleteMem_frame:
  "users (DeleteMemFromGroup gid uid d) = users d"
  "group_avatars (DeleteMemFromGroup gid uid d) = group_avatars d"
  "chat_groups (DeleteMemFromGroup gid uid d) = chat_groups d"
  by (simp_all add: DeleteMemFromGroup_def)

lemma insert_member_Inr:
  assumes "insert_member gid uid at role d = Inr d1"
  shows "d1 = d\<lparr>member_table := member_table d @ [\<lparr>mt_group_id = gid, mt_member_id = uid,
      mt_joined_at = at, mt_role = role, mt_permissions = []\<rparr>]\<rparr>"
    "\<not> exists_row (is_member_row gid uid) (member_table d)" "group_exists gid d" "user_exists uid d"
  using assms by (auto simp: insert_member_def split: if_splits)

lemma key_ok_insert_member:
  assumes "groups_inv d" "insert_member gid uid at role d = Inr d1"
  shows "key_ok (\<lambda>m. (mt_group_id m, mt_member_id m)) (member_table d1)"
  using groups_invD(3) [OF assms(1)] insert_member_Inr [OF assms(2)]
  by (auto simp: key_ok_snoc exists_row_def is_member_row_def)

lemma addLocked_inv:
  assumes inv: "groups_inv d" and g: "find_group gid d = Some g"
    and add: "addLocked e (g_max_member g) (g_current_member g) gid uid d = Inr ((), d')"
  shows "groups_inv d'"
proof -
  from add obtain d1 where d1: "insert_member gid uid (ge_now e) RoleMember d = Inr d1"
      and full: "g_current_member g < g_max_member g"
      and d': "d' = SetGroupMemberCount (ge_dbnow e) gid (wrap16 (g_current_member g + 1)) d1"
    by (auto simp: addLocked_def AddMember_def split: if_splits)
  note new = insert_member_Inr [OF d1]
  note ok = groups_invD(5) [OF inv g]
  have int: "wrap16 (g_current_member g + 1) = g_current_member g + 1"
    using ok full by (intro wrap16_id) (auto simp: group_ok_def is_int16_def)
  have gid: "g_id g = gid" using find_group_Some [OF g] by simp
  show ?thesis
  proof (rule regroup_inv [OF inv g, where f = "\<lambda>x. x\<lparr>g_current_member :=
      wrap16 (g_current_member g + 1), g_updated_at := ge_dbnow e\<rparr>"])
    show "key_ok (\<lambda>m. (mt_group_id m, mt_member_id m)) (member_table d')"
      using key_ok_insert_member [OF inv d1] d' by simp
    show "row_ok d m" if "m \<in> set (members_of gid d')" for m
      using that inv new(4) groups_invD(6) [OF inv]
      by (auto simp: d' new(1) members_of_add members_of_set row_ok_def)
    show "length (admins_of gid d') = 1"
      using ok by (simp add: d' new(1) admins_of_def members_of_add group_ok_def gid)
    show "g_current_member (g\<lparr>g_current_member := wrap16 (g_current_member g + 1),
        g_updated_at := ge_dbnow e\<rparr>) = int (length (members_of gid d'))"
      using ok unfolding int by (simp add: d' new(1) members_of_add group_ok_def gid)
    show "g_current_member (g\<lparr>g_current_member := wrap16 (g_current_member g + 1),
        g_updated_at := ge_dbnow e\<rparr>) \<le> g_max_member g" using full int by simp
  qed (simp_all add: d' new(1) members_of_add)
qed

lemma filter_other_length:
  assumes "distinct (map mt_member_id ms)" "m \<in> set ms" "mt_member_id m = uid"
  shows "Suc (length (filter (\<lambda>m. mt_member_id m \<noteq> uid) ms)) = length ms"
  using assms
proof (induction ms)
  case (Cons a ms)
  show ?case
  proof (cases "mt_member_id a = uid")
    case True
    with Cons.prems have "filter (\<lambda>m. mt_member_id m \<noteq> uid) ms = ms" by (auto simp: filter_id_conv image_iff)
    with True show ?thesis by simp
  next
    case False
    with Cons.prems have "m \<in> set ms" by auto
    with False Cons show ?thesis by simp
  qed
qed simp

text \<open>
  Removing a member from a state \<open>d1\<close> that differs from \<open>d\<close> only in member rows of the group,
  whose remaining members have one admin.
\<close>

lemma removeLocked_inv:
  assumes inv: "groups_inv d" and g: "find_group gid d = Some g"
    and same: "users d1 = users d" "group_avatars d1 = group_avatars d" "chat_groups d1 = chat_groups d"
    and k: "key_ok (\<lambda>m. (mt_group_id m, mt_member_id m)) (member_table d1)"
    and other: "\<And>i. i \<noteq> gid \<Longrightarrow> members_of i d1 = members_of i d"
    and len: "length (members_of gid d1) = length (members_of gid d)"
    and rows: "\<And>m. m \<in> set (members_of gid d1) \<Longrightarrow> row_ok d m"
    and there: "uid \<in> mt_member_id ` set (members_of gid d1)"
    and admin: "length (filter (\<lambda>m. mt_member_id m \<noteq> uid) (admins_of gid d1)) = 1"
    and rem: "removeLocked e (g_current_member g) gid uid d1 = Inr ((), d')"
  shows "groups_inv d'"
proof -
  from rem have d': "d' = SetGroupMemberCount (ge_dbnow e) gid (max (wrap16 (g_current_member g - 1)) 0)
      (DeleteMemFromGroup gid uid d1)"
    by (auto simp: removeLocked_def split: if_splits)
  note ok = groups_invD(5) [OF inv g]
  have gid: "g_id g = gid" using find_group_Some [OF g] by simp
  from there obtain m where m: "m \<in> set (members_of gid d1)" "mt_member_id m = uid" by auto
  have dist: "distinct (map mt_member_id (members_of gid d1))"
  proof -
    have "distinct (map (\<lambda>m. (mt_group_id m, mt_member_id m)) (members_of gid d1))"
      using k by (simp add: key_ok_def members_of_def distinct_map_filter)
    then show ?thesis by (auto simp: distinct_map inj_on_def members_of_set)
  qed
  have len1: "Suc (length (filter (\<lambda>m. mt_member_id m \<noteq> uid) (members_of gid d1))) = length (members_of gid d)"
    using filter_other_length [OF dist m] len by simp
  then have cur: "g_current_member g - 1 =
      int (length (filter (\<lambda>m. mt_member_id m \<noteq> uid) (members_of gid d1)))"
    using ok by (simp add: group_ok_def gid)
  then have w: "max (wrap16 (g_current_member g - 1)) 0 = g_current_member g - 1"
    using ok by (subst wrap16_id) (auto simp: group_ok_def is_int16_def)
  have mem: "members_of gid (DeleteMemFromGroup gid uid d1) =
      filter (\<lambda>m. mt_member_id m \<noteq> uid) (members_of gid d1)" by (simp add: members_of_delete)
  show ?thesis
  proof (rule regroup_inv [OF inv g, where f = "\<lambda>x. x\<lparr>g_current_member :=
      max (wrap16 (g_current_member g - 1)) 0, g_updated_at := ge_dbnow e\<rparr>"])
    show "key_ok (\<lambda>m. (mt_group_id m, mt_member_id m)) (member_table d')"
      using k by (simp add: d' DeleteMemFromGroup_def key_ok_delete)
    show "row_ok d m" if "m \<in> set (members_of gid d')" for m
      using that rows by (auto simp: d' mem)
    show "length (admins_of gid d') = 1"
      using admin by (simp add: d' admins_of_def mem conj_commute)
    show "g_current_member (g\<lparr>g_current_member := max (wrap16 (g_current_member g - 1)) 0,
        g_updated_at := ge_dbnow e\<rparr>) = int (length (members_of gid d'))"
      using cur unfolding w by (simp add: d' mem)
    show "g_current_member (g\<lparr>g_current_member := max (wrap16 (g_current_member g - 1)) 0,
        g_updated_at := ge_dbnow e\<rparr>) \<le> g_max_member g"
      using ok unfolding w by (simp add: group_ok_def)
  qed (use same other in \<open>simp_all add: d' members_of_delete DeleteMem_frame\<close>)
qed

text \<open>Giving a member another role.\<close>

lemma SetMemberRole_frame:
  assumes "SetMemberRole role perms gid uid d = Inr d'"
  shows "users d' = users d" "group_avatars d' = group_avatars d" "chat_groups d' = chat_groups d"
    "key_ok (\<lambda>m. (mt_group_id m, mt_member_id m)) (member_table d') \<longleftrightarrow>
       key_ok (\<lambda>m. (mt_group_id m, mt_member_id m)) (member_table d)"
    "i \<noteq> gid \<Longrightarrow> members_of i d' = members_of i d"
    "length (members_of gid d') = length (members_of gid d)"
    "mt_member_id ` set (members_of gid d') = mt_member_id ` set (members_of gid d)"
proof -
  show "users d' = users d" "group_avatars d' = group_avatars d" "chat_groups d' = chat_groups d"
    "key_ok (\<lambda>m. (mt_group_id m, mt_member_id m)) (member_table d') \<longleftrightarrow>
       key_ok (\<lambda>m. (mt_group_id m, mt_member_id m)) (member_table d)"
    using assms by (auto simp: SetMemberRole_def key_ok_update split: if_splits)
  show "i \<noteq> gid \<Longrightarrow> members_of i d' = members_of i d"
    "length (members_of gid d') = length (members_of gid d)"
    by (simp_all add: members_of_set_role [OF assms])
  have "map mt_member_id (members_of gid d') = map mt_member_id (members_of gid d)"
    unfolding members_of_set_role [OF assms] by (simp add: map_update_rows)
  then have "set (map mt_member_id (members_of gid d')) = set (map mt_member_id (members_of gid d))" by simp
  then show "mt_member_id ` set (members_of gid d') = mt_member_id ` set (members_of gid d)" by simp
qed

lemma SetMemberRole_rows:
  assumes "SetMemberRole role perms gid uid d = Inr d'" "m \<in> set (members_of gid d')"
    and "\<And>m. m \<in> set (members_of gid d) \<Longrightarrow> row_ok d0 m"
    and "role \<in> {RoleAdmin, RoleModerator, RoleMember}" "set perms \<subseteq> set AllPermissions"
      "role \<noteq> RoleModerator \<longrightarrow> perms = []"
  shows "row_ok d0 m"
proof -
  obtain x where "x \<in> set (members_of gid d)"
      "m = (if mt_member_id x = uid then x\<lparr>mt_role := role, mt_permissions := perms\<rparr> else x)"
    using assms(2) unfolding members_of_set_role [OF assms(1)] by (auto simp: set_update_rows)
  with assms(3) [of x] assms(4-6) show ?thesis by (auto simp: row_ok_def)
qed

text \<open>The ids of the admins, which determine everything about them that is needed.\<close>

definition admin_ids :: "uuid \<Rightarrow> db \<Rightarrow> uuid list" where
  "admin_ids gid d = map mt_member_id (admins_of gid d)"

lemma admin_ids_set_role:
  assumes "SetMemberRole role perms gid uid d = Inr d'" "uid \<in> mt_member_id ` set (members_of gid d)"
  shows "set (admin_ids gid d') = (if role = RoleAdmin then insert uid (set (admin_ids gid d))
    else set (admin_ids gid d) - {uid})"
proof -
  have L: "set (map mt_member_id (filter (\<lambda>m. mt_role m = RoleAdmin) (update_rows (\<lambda>m. mt_member_id m = uid)
        (\<lambda>m. m\<lparr>mt_role := role, mt_permissions := perms\<rparr>) ms))) =
      set (map mt_member_id (filter (\<lambda>m. mt_role m = RoleAdmin) ms)) - {uid} \<union>
      (if role = RoleAdmin \<and> uid \<in> mt_member_id ` set ms then {uid} else {})" for ms
    by (induction ms) auto
  have m: "members_of gid d' = update_rows (\<lambda>m. mt_member_id m = uid)
      (\<lambda>m. m\<lparr>mt_role := role, mt_permissions := perms\<rparr>) (members_of gid d)"
    by (simp add: members_of_set_role [OF assms(1)])
  show ?thesis unfolding admin_ids_def admins_of_def m L using assms(2) by auto
qed

lemma admin_ids_distinct:
  "distinct (map mt_member_id (members_of gid d)) \<Longrightarrow> distinct (admin_ids gid d)"
  by (simp add: admin_ids_def admins_of_def distinct_map_filter)

lemma member_ids_key:
  assumes "key_ok (\<lambda>m. (mt_group_id m, mt_member_id m)) (member_table d)"
  shows "distinct (map mt_member_id (members_of gid d))"
proof -
  have "distinct (map (\<lambda>m. (mt_group_id m, mt_member_id m)) (members_of gid d))"
    using assms by (simp add: key_ok_def members_of_def distinct_map_filter)
  then show ?thesis by (auto simp: distinct_map inj_on_def members_of_set)
qed

lemma one_admin_iff:
  assumes "key_ok (\<lambda>m. (mt_group_id m, mt_member_id m)) (member_table d)"
  shows "length (admins_of gid d) = 1 \<longleftrightarrow> (\<exists>a. set (admin_ids gid d) = {a})"
proof -
  have "distinct (admin_ids gid d)" using assms by (intro admin_ids_distinct member_ids_key)
  then have "length (admin_ids gid d) = card (set (admin_ids gid d))" by (simp add: distinct_card)
  then show ?thesis by (simp add: admin_ids_def card_1_singleton_iff)
qed

lemma the_admin:
  assumes "groups_inv d" "find_group gid d = Some g" "m \<in> set (members_of gid d)" "mt_role m = RoleAdmin"
  shows "set (admin_ids gid d) = {mt_member_id m}"
proof -
  have "length (admins_of gid d) = 1"
    using groups_invD(5) [OF assms(1,2)] find_group_Some [OF assms(2)] by (simp add: group_ok_def)
  then obtain a where "set (admin_ids gid d) = {a}"
    using one_admin_iff [OF groups_invD(3) [OF assms(1)]] by blast
  moreover have "mt_member_id m \<in> set (admin_ids gid d)"
    using assms(3,4) by (auto simp: admin_ids_def admins_of_def)
  ultimately show ?thesis by auto
qed

lemma not_the_admin:
  assumes "groups_inv d" "m \<in> set (members_of gid d)" "mt_role m \<noteq> RoleAdmin"
  shows "mt_member_id m \<notin> set (admin_ids gid d)"
proof
  assume "mt_member_id m \<in> set (admin_ids gid d)"
  then obtain n where "n \<in> set (members_of gid d)" "mt_role n = RoleAdmin" "mt_member_id n = mt_member_id m"
    by (auto simp: admin_ids_def admins_of_def)
  with member_row_unique [OF assms(1)] assms(2,3) show False by blast
qed

lemma remaining_admins:
  "length (filter (\<lambda>m. mt_member_id m \<noteq> uid) (admins_of gid d)) = length (filter (\<lambda>i. i \<noteq> uid) (admin_ids gid d))"
  by (simp add: admin_ids_def filter_map o_def)

lemma one_remaining:
  assumes "key_ok (\<lambda>m. (mt_group_id m, mt_member_id m)) (member_table d)" "set (admin_ids gid d) - {uid} = {a}"
  shows "length (filter (\<lambda>m. mt_member_id m \<noteq> uid) (admins_of gid d)) = 1"
proof -
  have "distinct (filter (\<lambda>i. i \<noteq> uid) (admin_ids gid d))"
    using assms(1) by (intro distinct_filter admin_ids_distinct member_ids_key)
  then have "length (filter (\<lambda>i. i \<noteq> uid) (admin_ids gid d)) = card (set (filter (\<lambda>i. i \<noteq> uid) (admin_ids gid d)))"
    by (rule distinct_card [symmetric])
  also have "set (filter (\<lambda>i. i \<noteq> uid) (admin_ids gid d)) = {a}" using assms(2) by auto
  finally show ?thesis by (simp add: remaining_admins)
qed

section \<open>The repository operations\<close>

lemma withLockedGroupE:
  assumes "withLockedGroup e gid fn d = Inr r"
  obtains g where "find_group gid d = Some g" "fn (g_max_member g) (g_current_member g) = Inr r"
  using assms by (auto simp: withLockedGroup_def LockGroup_def faulty_def
      split: if_splits sum.splits dberr.splits option.splits)

lemma repo_member_Some:
  assumes "repo_member e gid uid d = Inr (Some (role, perms))"
  obtains m where "m \<in> set (members_of gid d)" "mt_member_id m = uid" "mt_role m = role" "mt_permissions m = perms"
  using assms GetMember_Inr [of gid uid d role perms]
  by (auto simp: repo_member_def faulty_def split: if_splits sum.splits dberr.splits)

lemma repo_member_None:
  "repo_member e gid uid d = Inr None \<Longrightarrow> \<forall>m \<in> set (members_of gid d). mt_member_id m \<noteq> uid"
  by (auto simp: repo_member_def faulty_def GetMember_Inl split: if_splits sum.splits dberr.splits)

lemma repo_member_there:
  assumes "repo_member e gid uid d = Inr t" "t \<noteq> None"
  shows "uid \<in> mt_member_id ` set (members_of gid d)"
  using assms by (cases t) (auto elim: repo_member_Some)

lemma repo_asE:
  assumes "repo_as e gid actor perm fn d = Inr r"
  obtains g m where "find_group gid d = Some g" "m \<in> set (members_of gid d)" "mt_member_id m = actor"
    "allowed (mt_role m) (mt_permissions m) perm" "fn (g_max_member g) (g_current_member g) (mt_role m) = Inr r"
  using assms unfolding repo_as_def
proof (cases rule: withLockedGroupE)
  case (1 g)
  then obtain role perms where t: "repo_member e gid actor d = Inr (Some (role, perms))"
      "allowed role perms perm" "fn (g_max_member g) (g_current_member g) role = Inr r"
    by (auto split: option.splits if_splits)
  from t(1) obtain m where "m \<in> set (members_of gid d)" "mt_member_id m = actor" "mt_role m = role"
      "mt_permissions m = perms" by (rule repo_member_Some)
  with that [OF 1(1)] t show thesis by blast
qed

lemma allowed_admin: "allowed role perms [] \<longleftrightarrow> role = RoleAdmin"
  by (simp add: allowed_def)

lemma Join_inv: "groups_inv d \<Longrightarrow> repo_Join e gid uid d = Inr ((), d') \<Longrightarrow> groups_inv d'"
  unfolding repo_Join_def by (erule withLockedGroupE) (rule addLocked_inv)

lemma AddMember_inv: "groups_inv d \<Longrightarrow> repo_AddMember e gid actor target d = Inr ((), d') \<Longrightarrow> groups_inv d'"
  unfolding repo_AddMember_def by (erule repo_asE) (rule addLocked_inv)

lemma DeleteGroup_frame:
  "users (DeleteGroup gid d) = users d"
  "chat_groups (DeleteGroup gid d) = delete_rows (\<lambda>g. g_id g = gid) (chat_groups d)"
  "member_table (DeleteGroup gid d) = delete_rows (\<lambda>m. mt_group_id m = gid) (member_table d)"
  "group_avatars (DeleteGroup gid d) = delete_rows (\<lambda>a. ga_group_id a = gid) (group_avatars d)"
  by (simp_all add: DeleteGroup_def Let_def)

lemma filter_delete_other:
  "i \<noteq> gid \<Longrightarrow> filter (\<lambda>x. key x = i) (delete_rows (\<lambda>x. key x = gid) rows) = filter (\<lambda>x. key x = i) rows"
  by (auto simp: delete_rows_def intro: filter_cong)

lemma members_of_DeleteGroup:
  "members_of i (DeleteGroup gid d) = (if i = gid then [] else members_of i d)"
  using filter_delete_other [of i gid mt_group_id "member_table d"]
  by (auto simp: members_of_def DeleteGroup_frame delete_rows_def)

lemma DeleteGroup_inv:
  assumes "groups_inv d"
  shows "groups_inv (DeleteGroup gid d)"
proof -
  have ex: "group_exists i (DeleteGroup gid d) \<longleftrightarrow> i \<noteq> gid \<and> group_exists i d" for i
    by (auto simp: group_exists_def DeleteGroup_frame exists_row_def)
  have "group_ok (DeleteGroup gid d) g" if "g \<in> set (chat_groups (DeleteGroup gid d))" for g
  proof -
    from that have "g \<in> set (chat_groups d)" "g_id g \<noteq> gid" by (simp_all add: DeleteGroup_frame)
    moreover from this(2) have "group_ok (DeleteGroup gid d) g \<longleftrightarrow> group_ok d g"
      by (intro group_ok_frame) (simp_all add: members_of_DeleteGroup DeleteGroup_frame(4) filter_delete_other)
    ultimately show ?thesis using assms by (simp add: groups_inv_def)
  qed
  moreover have "member_ok (DeleteGroup gid d) m" if "m \<in> set (member_table (DeleteGroup gid d))" for m
    using that assms
    by (simp add: DeleteGroup_frame member_ok_row ex groups_inv_def row_ok_users [OF DeleteGroup_frame(1)])
  ultimately show ?thesis
    using assms by (simp add: groups_inv_def ex) (simp add: DeleteGroup_frame key_ok_delete)
qed

lemma Delete_inv: "groups_inv d \<Longrightarrow> repo_Delete e gid admin d = Inr (ms, d') \<Longrightarrow> groups_inv d'"
  unfolding repo_Delete_def by (erule repo_asE) (auto split: if_splits intro: DeleteGroup_inv)

lemma row_ok_members: "groups_inv d \<Longrightarrow> m \<in> set (members_of gid d) \<Longrightarrow> row_ok d m"
  by (auto simp: members_of_set dest: groups_invD(6))

lemma removeLocked_plain:
  assumes "groups_inv d" "find_group gid d = Some g" "m \<in> set (members_of gid d)" "mt_member_id m = uid"
    "mt_role m \<noteq> RoleAdmin" "removeLocked e (g_current_member g) gid uid d = Inr ((), d')"
  shows "groups_inv d'"
proof (rule removeLocked_inv [OF assms(1,2) _ _ _ groups_invD(3) [OF assms(1)] _ _ _ _ _ assms(6)])
  have "length (admins_of gid d) = 1"
    using groups_invD(5) [OF assms(1,2)] find_group_Some [OF assms(2)] by (simp add: group_ok_def)
  moreover have "filter (\<lambda>m. mt_member_id m \<noteq> uid) (admins_of gid d) = admins_of gid d"
    using not_the_admin [OF assms(1,3,5)] assms(4) by (auto simp: filter_id_conv admin_ids_def image_iff)
  ultimately show "length (filter (\<lambda>m. mt_member_id m \<noteq> uid) (admins_of gid d)) = 1" by simp
qed (use assms(3,4) row_ok_members [OF assms(1)] in auto)

lemma Kick_inv:
  assumes "groups_inv d" "repo_Kick e gid actor target d = Inr ((), d')"
  shows "groups_inv d'"
  using assms(2) unfolding repo_Kick_def
proof (cases rule: repo_asE)
  case (1 g m)
  from 1(5) obtain trole tperms where t: "repo_member e gid target d = Inr (Some (trole, tperms))"
      "trole \<noteq> RoleAdmin" "removeLocked e (g_current_member g) gid target d = Inr ((), d')"
    by (auto split: if_splits option.splits)
  from t(1) obtain n where "n \<in> set (members_of gid d)" "mt_member_id n = target" "mt_role n = trole"
    by (rule repo_member_Some)
  with t(2,3) removeLocked_plain [OF assms(1) 1(1)] show ?thesis by blast
qed

text \<open>A change of roles alone.\<close>

lemma set_roles_inv:
  assumes inv: "groups_inv d" and g: "find_group gid d = Some g"
    and same: "users d' = users d" "group_avatars d' = group_avatars d" "chat_groups d' = chat_groups d"
    and k: "key_ok (\<lambda>m. (mt_group_id m, mt_member_id m)) (member_table d')"
    and other: "\<And>i. i \<noteq> gid \<Longrightarrow> members_of i d' = members_of i d"
    and len: "length (members_of gid d') = length (members_of gid d)"
    and rows: "\<And>m. m \<in> set (members_of gid d') \<Longrightarrow> row_ok d m"
    and admin: "set (admin_ids gid d') = {a}"
  shows "groups_inv d'"
proof (rule regroup_inv [OF inv g same(1,2), where f = "\<lambda>x. x"])
  show "chat_groups d' = update_rows (\<lambda>g. g_id g = gid) (\<lambda>x. x) (chat_groups d)"
    by (simp add: same update_rows_def)
  show "length (admins_of gid d') = 1" using one_admin_iff [OF k] admin by blast
  show "g_current_member g = int (length (members_of gid d'))" "g_current_member g \<le> g_max_member g"
    using groups_invD(5) [OF inv g] find_group_Some [OF g] len by (simp_all add: group_ok_def)
qed (use k other rows in auto)

lemma TransferAdmin_inv:
  assumes "groups_inv d" "repo_TransferAdmin e gid admin target d = Inr ((), d')"
  shows "groups_inv d'" "set (admin_ids gid d') = {target}"
proof -
  from assms(2) obtain g m where g: "find_group gid d = Some g" and m: "m \<in> set (members_of gid d)"
      "mt_member_id m = admin" "mt_role m = RoleAdmin"
    and body: "(if target = admin then Inl (Sentinel ErrAlreadyAdmin)
       else andThen (repo_member e gid target d) (\<lambda>t.
         if t = None then Inl (Sentinel ErrNotMember)
         else andThen (dbcall (ge_fails e (GSetRole admin)) (SetMemberRole RoleMember [] gid admin d)) (\<lambda>d1.
           andThen (dbcall (ge_fails e (GSetRole target)) (SetMemberRole RoleAdmin [] gid target d1)) (\<lambda>d2.
             Inr ((), d2))))) = Inr ((), d')"
    unfolding repo_TransferAdmin_def by (elim repo_asE) (auto simp: allowed_admin)
  from body obtain t d1 where ne: "target \<noteq> admin" and t: "repo_member e gid target d = Inr t" "t \<noteq> None"
      and d1: "SetMemberRole RoleMember [] gid admin d = Inr d1"
      and d2: "SetMemberRole RoleAdmin [] gid target d1 = Inr d'"
    by (auto split: if_splits)
  note f1 = SetMemberRole_frame [OF d1] and f2 = SetMemberRole_frame [OF d2]
  have there: "target \<in> mt_member_id ` set (members_of gid d)" by (rule repo_member_there [OF t])
  have "set (admin_ids gid d1) = set (admin_ids gid d) - {admin}"
    using admin_ids_set_role [OF d1] m by auto
  then have "set (admin_ids gid d1) = {}" using the_admin [OF assms(1) g m(1,3)] m(2) by simp
  then show admins: "set (admin_ids gid d') = {target}"
    using admin_ids_set_role [OF d2] there f1(7) by auto
  show "groups_inv d'"
  proof (rule set_roles_inv [OF assms(1) g _ _ _ _ _ _ _ admins])
    show "row_ok d m" if "m \<in> set (members_of gid d')" for m
    proof (rule SetMemberRole_rows [OF d2 that])
      show "row_ok d n" if "n \<in> set (members_of gid d1)" for n
        by (rule SetMemberRole_rows [OF d1 that]) (simp_all add: row_ok_members [OF assms(1)])
    qed simp_all
  qed (use groups_invD(3) [OF assms(1)] f1 f2 in simp_all)
qed

lemma SetRole_inv:
  assumes "groups_inv d" "repo_SetRole e gid admin target role perms d = Inr ((), d')"
    and "role = RoleModerator \<or> role = RoleMember" "set perms \<subseteq> set AllPermissions"
  shows "groups_inv d'"
proof -
  from assms(2) obtain g m t where g: "find_group gid d = Some g" and m: "m \<in> set (members_of gid d)"
      "mt_member_id m = admin" "mt_role m = RoleAdmin"
    and ne: "target \<noteq> admin" and t: "repo_member e gid target d = Inr t" "t \<noteq> None"
    and d1: "SetMemberRole role (if role = RoleMember then [] else perms) gid target d = Inr d'"
    unfolding repo_SetRole_def by (elim repo_asE) (auto simp: allowed_admin split: if_splits)
  note f1 = SetMemberRole_frame [OF d1]
  have "set (admin_ids gid d') = set (admin_ids gid d) - {target}"
    using admin_ids_set_role [OF d1 repo_member_there [OF t]] assms(3) by auto
  then have admins: "set (admin_ids gid d') = {admin}"
    using the_admin [OF assms(1) g m(1,3)] m(2) ne by auto
  show ?thesis
  proof (rule set_roles_inv [OF assms(1) g _ _ _ _ _ _ _ admins])
    show "row_ok d m" if "m \<in> set (members_of gid d')" for m
      by (rule SetMemberRole_rows [OF d1 that])
        (use assms(3,4) row_ok_members [OF assms(1)] in \<open>auto split: if_splits\<close>)
  qed (use groups_invD(3) [OF assms(1)] f1 in simp_all)
qed

text \<open>Who may take over.\<close>

lemma NextAdmin_Inr:
  assumes "NextAdmin gid uid d = Inr next"
  shows "next \<in> mt_member_id ` set (members_of gid d)" "next \<noteq> uid"
proof -
  let ?l = "sort_key (\<lambda>m. if mt_role m = RoleModerator then 0 else 1 :: nat)
    (sort_key mt_joined_at (sort_key mt_member_id (filter (\<lambda>m. mt_member_id m \<noteq> uid) (members_of gid d))))"
  have set: "set ?l = {m \<in> set (members_of gid d). mt_member_id m \<noteq> uid}" by simp
  obtain m ms where l: "?l = m # ms" "next = mt_member_id m"
    using assms by (auto simp: NextAdmin_def split: list.splits)
  from set have "m \<in> {m \<in> set (members_of gid d). mt_member_id m \<noteq> uid}" unfolding l(1) by auto
  with l(2) show "next \<in> mt_member_id ` set (members_of gid d)" "next \<noteq> uid" by auto
qed

lemma NextAdmin_NoRows:
  assumes "NextAdmin gid uid d = Inl err"
  shows "filter (\<lambda>m. mt_member_id m \<noteq> uid) (members_of gid d) = []"
proof -
  let ?l = "sort_key (\<lambda>m. if mt_role m = RoleModerator then 0 else 1 :: nat)
    (sort_key mt_joined_at (sort_key mt_member_id (filter (\<lambda>m. mt_member_id m \<noteq> uid) (members_of gid d))))"
  have "?l = []" using assms by (auto simp: NextAdmin_def split: list.splits)
  then have "set ?l = {}" by simp
  then show ?thesis by (simp add: filter_empty_conv)
qed

lemma successorOf_Some:
  assumes "successorOf e gid uid successor d = Inr (Some next)"
  shows "next \<in> mt_member_id ` set (members_of gid d)" "next \<noteq> uid"
    "successor \<noteq> Nil_uuid \<Longrightarrow> next = successor"
  using assms NextAdmin_Inr [of gid uid d "next"] repo_member_there [of e gid successor d]
  by (auto simp: successorOf_def faulty_def split: if_splits sum.splits dberr.splits)

lemma successorOf_None:
  assumes "successorOf e gid uid successor d = Inr None"
  shows "filter (\<lambda>m. mt_member_id m \<noteq> uid) (members_of gid d) = []" "successor = Nil_uuid"
  using assms NextAdmin_NoRows [of gid uid d]
  by (auto simp: successorOf_def faulty_def split: if_splits sum.splits dberr.splits)

text \<open>The three ways of leaving.\<close>

lemma repo_LeaveE:
  assumes "repo_Leave e gid uid successor d = Inr (left, d')"
  obtains g m where "find_group gid d = Some g" "m \<in> set (members_of gid d)" "mt_member_id m = uid"
      "mt_role m = RoleAdmin" "successorOf e gid uid successor d = Inr None" "d' = DeleteGroup gid d"
      "left = \<lparr>lv_NewAdmin = Nil_uuid, lv_Deleted = True, lv_Members = [uid]\<rparr>"
  | g m "next" d1 where "find_group gid d = Some g" "m \<in> set (members_of gid d)" "mt_member_id m = uid"
      "mt_role m = RoleAdmin" "successorOf e gid uid successor d = Inr (Some next)"
      "SetMemberRole RoleAdmin [] gid next d = Inr d1"
      "removeLocked e (g_current_member g) gid uid d1 = Inr ((), d')"
      "left = \<lparr>lv_NewAdmin = next, lv_Deleted = False, lv_Members = []\<rparr>"
  | g m where "find_group gid d = Some g" "m \<in> set (members_of gid d)" "mt_member_id m = uid"
      "mt_role m \<noteq> RoleAdmin" "removeLocked e (g_current_member g) gid uid d = Inr ((), d')"
      "left = \<lparr>lv_NewAdmin = Nil_uuid, lv_Deleted = False, lv_Members = []\<rparr>"
  using assms unfolding repo_Leave_def
proof (cases rule: withLockedGroupE)
  case (1 g)
  let ?tail = "\<lambda>role. if role = RoleAdmin then
               andThen (successorOf e gid uid successor d) (\<lambda>nx.
                 case nx of
                   None \<Rightarrow>
                     if ge_fails e GDeleteGroup then Inl (DbFail OtherDb)
                     else Inr (\<lparr>lv_NewAdmin = Nil_uuid, lv_Deleted = True, lv_Members = [uid]\<rparr>,
                               DeleteGroup gid d)
                 | Some next \<Rightarrow>
                     andThen (dbcall (ge_fails e (GSetRole next)) (SetMemberRole RoleAdmin [] gid next d)) (\<lambda>d1.
                       andThen (removeLocked e (g_current_member g) gid uid d1) (\<lambda>(_, d2).
                         Inr (\<lparr>lv_NewAdmin = next, lv_Deleted = False, lv_Members = []\<rparr>, d2))))
             else
               andThen (removeLocked e (g_current_member g) gid uid d) (\<lambda>(_, d2).
                 Inr (\<lparr>lv_NewAdmin = Nil_uuid, lv_Deleted = False, lv_Members = []\<rparr>, d2))"
  from 1(2) obtain role perms where t: "repo_member e gid uid d = Inr (Some (role, perms))"
      and tail: "?tail role = Inr (left, d')"
    by (auto split: option.splits)
  from t obtain m where m: "m \<in> set (members_of gid d)" "mt_member_id m = uid" "mt_role m = role"
    by (rule repo_member_Some)
  show thesis
  proof (cases "role = RoleAdmin")
    case True
    with tail obtain nx where nx: "successorOf e gid uid successor d = Inr nx" by auto
    show thesis
    proof (cases nx)
      case None
      with tail True nx have "d' = DeleteGroup gid d"
          "left = \<lparr>lv_NewAdmin = Nil_uuid, lv_Deleted = True, lv_Members = [uid]\<rparr>"
        by (auto split: if_splits)
      with that(1) [OF 1(1) m(1,2)] m(3) True nx None show thesis by simp
    next
      case (Some "next")
      with tail True nx obtain d1 where "SetMemberRole RoleAdmin [] gid next d = Inr d1"
          "removeLocked e (g_current_member g) gid uid d1 = Inr ((), d')"
          "left = \<lparr>lv_NewAdmin = next, lv_Deleted = False, lv_Members = []\<rparr>"
        by auto
      with that(2) [OF 1(1) m(1,2)] m(3) True nx Some show thesis by simp
    qed
  next
    case False
    with tail have "removeLocked e (g_current_member g) gid uid d = Inr ((), d')"
        "left = \<lparr>lv_NewAdmin = Nil_uuid, lv_Deleted = False, lv_Members = []\<rparr>"
      by auto
    with that(3) [OF 1(1) m(1,2)] m(3) False show thesis by simp
  qed
qed

lemma Leave_inv:
  assumes "groups_inv d" "repo_Leave e gid uid successor d = Inr (left, d')"
  shows "groups_inv d'"
  using assms(2)
proof (cases rule: repo_LeaveE)
  case 1
  with DeleteGroup_inv [OF assms(1)] show ?thesis by simp
next
  case (2 g m "next" d1)
  note f1 = SetMemberRole_frame [OF 2(6)]
  note s = successorOf_Some [OF 2(5)]
  have "set (admin_ids gid d1) = insert next (set (admin_ids gid d))"
    using admin_ids_set_role [OF 2(6) s(1)] by simp
  then have admins: "set (admin_ids gid d1) - {uid} = {next}"
    using the_admin [OF assms(1) 2(1,2,4)] 2(3) s(2) by auto
  have k: "key_ok (\<lambda>m. (mt_group_id m, mt_member_id m)) (member_table d1)"
    using groups_invD(3) [OF assms(1)] f1 by simp
  show ?thesis
  proof (rule removeLocked_inv [OF assms(1) 2(1) f1(1-3) k _ f1(6) _ _ one_remaining [OF k admins] 2(7)])
    show "row_ok d n" if "n \<in> set (members_of gid d1)" for n
      by (rule SetMemberRole_rows [OF 2(6) that]) (simp_all add: row_ok_members [OF assms(1)])
    show "uid \<in> mt_member_id ` set (members_of gid d1)" using f1(7) 2(2,3) by auto
  qed (simp add: f1(5))
next
  case (3 g m)
  with removeLocked_plain [OF assms(1) 3(1-5)] show ?thesis by simp
qed

section \<open>Information, pictures and codes\<close>

text \<open>A change of the group row that keeps what the invariant looks at.\<close>

lemma group_row_inv:
  assumes inv: "groups_inv d" and g: "find_group gid d = Some g"
    and same: "users d' = users d" "member_table d' = member_table d"
    and cg: "chat_groups d' = update_rows (\<lambda>g. g_id g = gid) f (chat_groups d)"
    and f: "\<And>g. g_id (f g) = g_id g" "\<And>g. g_max_member (f g) = g_max_member g"
      "\<And>g. g_current_member (f g) = g_current_member g"
    and k: "key_ok g_invite_code (chat_groups d')" "key_ok ga_group_id (group_avatars d')"
    and other: "\<And>i. i \<noteq> gid \<Longrightarrow> filter (\<lambda>a. ga_group_id a = i) (group_avatars d') =
      filter (\<lambda>a. ga_group_id a = i) (group_avatars d)"
    and vis: "g_visibility (f g) \<in> {Private, Public}"
    and pic: "g_avatar_at (f g) = map_option ga_updated_at (find_row (\<lambda>a. ga_group_id a = gid) (group_avatars d'))"
  shows "groups_inv d'"
proof -
  have m: "members_of i d' = members_of i d" for i by (simp add: members_of_def same)
  show ?thesis
  proof (rule groups_inv_changeI [OF inv same(1) cg f(1) k(1) _ k(2) m other g])
    show "row_ok d r" if "r \<in> set (members_of gid d')" for r
      using that row_ok_members [OF inv] by (simp add: m)
    show "group_ok d' (f g)"
      using groups_invD(5) [OF inv g] find_group_Some [OF g] vis pic
      by (simp add: group_ok_def f admins_of_def m)
  qed (use groups_invD(3) [OF inv] same in auto)
qed

lemma Update_inv:
  assumes "groups_inv d" "repo_Update e gid actor nm descr vis d = Inr (p, d')"
  shows "groups_inv d'"
proof -
  let ?f = "\<lambda>g. g\<lparr>g_name := (case nm of None \<Rightarrow> g_name g | Some x \<Rightarrow> x),
    g_description := (case descr of None \<Rightarrow> g_description g | Some x \<Rightarrow> x),
    g_visibility := (case vis of None \<Rightarrow> g_visibility g | Some x \<Rightarrow> x), g_updated_at := ge_dbnow e\<rparr>"
  from assms(2) obtain g where g: "find_group gid d = Some g" and d': "d' = update_group gid ?f d"
      and vis: "vis = None \<or> vis = Some Private \<or> vis = Some Public"
    unfolding repo_Update_def
    by (elim repo_asE) (auto simp: UpdateGroupInfo_def Let_def split: if_splits)
  note ok = groups_invD(5) [OF assms(1) g]
  have pic: "g_avatar_at g = map_option ga_updated_at (find_row (\<lambda>a. ga_group_id a = gid) (group_avatars d))"
    using ok find_group_Some [OF g] by (simp add: group_ok_def)
  show ?thesis
  proof (rule group_row_inv [OF assms(1) g, where f = ?f])
    show "key_ok g_invite_code (chat_groups d')"
      using groups_invD(2) [OF assms(1)] by (simp add: d' update_group_def key_ok_update)
    show "g_visibility (?f g) \<in> {Private, Public}"
      using vis ok by (auto simp: group_ok_def)
  qed (use pic groups_invD(4) [OF assms(1)] in \<open>simp_all add: d' update_group_def\<close>)
qed

lemma avatar_rows_upsert:
  assumes "UpsertGroupAvatar gid img at d = Inr d1" "key_ok ga_group_id (group_avatars d)"
  shows "users d1 = users d" "member_table d1 = member_table d" "chat_groups d1 = chat_groups d"
    "key_ok ga_group_id (group_avatars d1)"
    "i \<noteq> gid \<Longrightarrow> filter (\<lambda>a. ga_group_id a = i) (group_avatars d1) = filter (\<lambda>a. ga_group_id a = i) (group_avatars d)"
    "map_option ga_updated_at (find_row (\<lambda>a. ga_group_id a = gid) (group_avatars d1)) = Some at"
proof -
  have upd: "filter (\<lambda>a. ga_group_id a = i) (update_rows (\<lambda>a. ga_group_id a = gid)
        (\<lambda>a. a\<lparr>ga_image := img, ga_updated_at := at\<rparr>) rows) = filter (\<lambda>a. ga_group_id a = i) rows"
    if "i \<noteq> gid" for rows
    using that by (induction rows) auto
  have found: "map_option ga_updated_at (find_row (\<lambda>a. ga_group_id a = gid) (update_rows (\<lambda>a. ga_group_id a = gid)
        (\<lambda>a. a\<lparr>ga_image := img, ga_updated_at := at\<rparr>) rows)) = Some at"
    if "exists_row (\<lambda>a. ga_group_id a = gid) rows" for rows
    using that by (induction rows) auto
  have new: "map_option ga_updated_at (find_row (\<lambda>a. ga_group_id a = gid) (rows @ [\<lparr>ga_group_id = gid,
        ga_image = img, ga_updated_at = at\<rparr>])) = Some at"
    if "\<not> exists_row (\<lambda>a. ga_group_id a = gid) rows" for rows
    using that by (induction rows) auto
  show "users d1 = users d" "member_table d1 = member_table d" "chat_groups d1 = chat_groups d"
    "key_ok ga_group_id (group_avatars d1)"
    using assms by (auto simp: UpsertGroupAvatar_def key_ok_update key_ok_snoc split: if_splits)
  show "i \<noteq> gid \<Longrightarrow> filter (\<lambda>a. ga_group_id a = i) (group_avatars d1) = filter (\<lambda>a. ga_group_id a = i) (group_avatars d)"
    using assms(1) upd by (auto simp: UpsertGroupAvatar_def split: if_splits)
  show "map_option ga_updated_at (find_row (\<lambda>a. ga_group_id a = gid) (group_avatars d1)) = Some at"
    using assms(1) found new by (auto simp: UpsertGroupAvatar_def split: if_splits)
qed

lemma SetAvatar_inv:
  assumes "groups_inv d" "repo_SetAvatar e gid actor img at d = Inr ((), d')"
  shows "groups_inv d'"
proof -
  from assms(2) obtain g d1 where g: "find_group gid d = Some g"
      and d1: "UpsertGroupAvatar gid img at d = Inr d1"
      and d': "d' = SetGroupAvatarAt (ge_dbnow e) (Some at) gid d1"
    unfolding repo_SetAvatar_def by (elim repo_asE) (auto split: if_splits)
  note f1 = avatar_rows_upsert [OF d1 groups_invD(4) [OF assms(1)]]
  show ?thesis
  proof (rule group_row_inv [OF assms(1) g, where f = "\<lambda>g. g\<lparr>g_avatar_at := Some at, g_updated_at := ge_dbnow e\<rparr>"])
    show "key_ok g_invite_code (chat_groups d')"
      using groups_invD(2) [OF assms(1)] by (simp add: d' f1 SetGroupAvatarAt_def update_group_def key_ok_update)
    show "g_visibility (g\<lparr>g_avatar_at := Some at, g_updated_at := ge_dbnow e\<rparr>) \<in> {Private, Public}"
      using groups_invD(5) [OF assms(1) g] by (simp add: group_ok_def)
  qed (simp_all add: d' f1 SetGroupAvatarAt_def update_group_def)
qed

lemma DeleteAvatar_inv:
  assumes "groups_inv d" "repo_DeleteAvatar e gid actor d = Inr ((), d')"
  shows "groups_inv d'"
proof -
  from assms(2) obtain g where g: "find_group gid d = Some g"
      and d': "d' = SetGroupAvatarAt (ge_dbnow e) None gid (DeleteGroupAvatar gid d)"
    unfolding repo_DeleteAvatar_def by (elim repo_asE) (auto split: if_splits)
  have none: "find_row (\<lambda>a. ga_group_id a = gid) (delete_rows (\<lambda>a. ga_group_id a = gid) rows) = None" for rows
    by (simp add: find_row_None exists_row_def)
  show ?thesis
  proof (rule group_row_inv [OF assms(1) g, where f = "\<lambda>g. g\<lparr>g_avatar_at := None, g_updated_at := ge_dbnow e\<rparr>"])
    show "key_ok g_invite_code (chat_groups d')"
      using groups_invD(2) [OF assms(1)]
      by (simp add: d' SetGroupAvatarAt_def DeleteGroupAvatar_def update_group_def key_ok_update)
    show "g_visibility (g\<lparr>g_avatar_at := None, g_updated_at := ge_dbnow e\<rparr>) \<in> {Private, Public}"
      using groups_invD(5) [OF assms(1) g] by (simp add: group_ok_def)
  qed (use groups_invD(4) [OF assms(1)] in
      \<open>simp_all add: d' none SetGroupAvatarAt_def DeleteGroupAvatar_def update_group_def key_ok_delete filter_delete_other\<close>)
qed

lemma SetInviteCode_inv:
  assumes inv: "groups_inv d" and set: "SetInviteCode now gid code d = Inr d'"
  shows "groups_inv d'"
proof -
  let ?f = "\<lambda>g. g\<lparr>g_invite_code := code, g_updated_at := now\<rparr>"
  from set have d': "d' = update_group gid ?f d"
    and free: "group_exists gid d \<Longrightarrow> \<not> exists_row (\<lambda>g. g_id g \<noteq> gid \<and> g_invite_code g = code) (chat_groups d)"
    by (auto simp: SetInviteCode_def split: if_splits)
  show ?thesis
  proof (cases "find_group gid d")
    case None
    then have "update_rows (\<lambda>g. g_id g = gid) ?f (chat_groups d) = chat_groups d"
      using find_row_None [of "\<lambda>g. g_id g = gid" "chat_groups d"]
      by (auto simp: find_group_def exists_row_def update_rows_def intro: map_idI)
    with inv show ?thesis by (simp add: d' update_group_def)
  next
    case (Some g)
    then have "group_exists gid d" by (auto simp: find_group_exists)
    note free = free [OF this]
    note ok = groups_invD(5) [OF inv Some]
    have upd: "key_ok g_invite_code (update_rows (\<lambda>g. g_id g = gid) ?f rows)"
      if "key_ok g_id rows" "key_ok g_invite_code rows"
        "\<not> exists_row (\<lambda>g. g_id g \<noteq> gid \<and> g_invite_code g = code) rows" for rows
      using that by (induction rows) (auto simp: key_ok_def set_update_rows exists_row_def image_iff)
    show ?thesis
    proof (rule group_row_inv [OF inv Some, where f = ?f])
      show "key_ok g_invite_code (chat_groups d')"
        using upd [OF groups_invD(1) [OF inv] groups_invD(2) [OF inv] free] by (simp add: d' update_group_def)
      show "g_visibility (?f g) \<in> {Private, Public}" using ok by (simp add: group_ok_def)
      show "g_avatar_at (?f g) = map_option ga_updated_at (find_row (\<lambda>a. ga_group_id a = gid) (group_avatars d'))"
        using ok find_group_Some [OF Some] by (simp add: group_ok_def d' update_group_def)
    qed (use groups_invD(4) [OF inv] in \<open>simp_all add: d' update_group_def\<close>)
  qed
qed

lemma regenerate_inv:
  "groups_inv d \<Longrightarrow> regenerateLoop e gid i n d = Inr (c, d') \<Longrightarrow> groups_inv d'"
proof (induction n arbitrary: i)
  case (Suc n)
  then show ?case
    by (auto simp: faulty_def split: option.splits sum.splits if_splits intro: SetInviteCode_inv)
qed simp

lemma create_inv:
  assumes inv: "groups_inv d" and g: "CreateGroup now gid nm descr mx code vis d = Inr d1"
    and m: "CreateGroupLeaderRole gid creator at d1 = Inr d2" and mx: "2 \<le> mx" "mx \<le> 1000"
  shows "groups_inv d2"
proof -
  let ?g = "\<lparr>g_id = gid, g_name = nm, g_description = descr, g_max_member = mx, g_created_at = now,
    g_updated_at = now, g_current_member = 1, g_invite_code = code, g_avatar_at = None, g_visibility = vis\<rparr>"
  let ?m = "\<lparr>mt_group_id = gid, mt_member_id = creator, mt_joined_at = at, mt_role = RoleAdmin, mt_permissions = []\<rparr>"
  from g have new: "\<not> group_exists gid d" "\<not> exists_row (\<lambda>g. g_invite_code g = code) (chat_groups d)"
      "vis \<in> {Private, Public}" and d1: "d1 = d\<lparr>chat_groups := chat_groups d @ [?g]\<rparr>"
    by (auto simp: CreateGroup_def split: if_splits)
  note im = insert_member_Inr [OF m [unfolded CreateGroupLeaderRole_def]]
  have d2: "d2 = d\<lparr>chat_groups := chat_groups d @ [?g], member_table := member_table d @ [?m]\<rparr>"
    using im(1) d1 by simp
  have user: "user_exists creator d" using im(4) d1 by (simp add: user_exists_def)
  have ex: "group_exists i d2 \<longleftrightarrow> group_exists i d \<or> i = gid" for i
    by (auto simp: d2 group_exists_def)
  have nomem: "mt_group_id m \<noteq> gid" if "m \<in> set (member_table d)" for m
    using inv that new(1) by (auto simp: groups_inv_def member_ok_def)
  have noav: "ga_group_id a \<noteq> gid" if "a \<in> set (group_avatars d)" for a
    using inv that new(1) by (auto simp: groups_inv_def)
  have mem: "members_of i d2 = (if i = gid then [?m] else members_of i d)" for i
    using nomem by (auto simp: d2 members_of_def filter_empty_conv)
  have old: "group_ok d2 x" if x: "x \<in> set (chat_groups d)" for x
  proof -
    have "g_id x \<noteq> gid" using x new(1) by (auto simp: group_exists_def exists_row_def)
    then have "group_ok d2 x \<longleftrightarrow> group_ok d x" by (intro group_ok_frame) (simp add: mem, simp add: d2)
    then show ?thesis using inv x by (simp add: groups_inv_def)
  qed
  moreover have "group_ok d2 ?g"
  proof -
    have "find_row (\<lambda>a. ga_group_id a = gid) (group_avatars d) = None"
      using noav by (auto simp: find_row_None exists_row_def)
    moreover have "group_avatars d2 = group_avatars d" by (simp add: d2)
    ultimately show ?thesis using new(3) mx by (simp add: group_ok_def admins_of_def mem)
  qed
  moreover have "member_ok d2 x" if "x \<in> set (member_table d2)" for x
  proof (cases "x = ?m")
    case True
    then show ?thesis using user by (simp add: member_ok_row row_ok_def ex) (simp add: d2 user_exists_def)
  next
    case False
    with that have "x \<in> set (member_table d)" by (simp add: d2)
    with inv have "member_ok d x" by (simp add: groups_inv_def)
    then show ?thesis using row_ok_users [of d2 d x] by (simp add: member_ok_row ex) (simp add: d2)
  qed
  moreover have "key_ok g_id (chat_groups d2)" "key_ok g_invite_code (chat_groups d2)"
    using inv new by (simp_all add: d2 key_ok_snoc groups_inv_def group_exists_def)
  moreover have "key_ok (\<lambda>m. (mt_group_id m, mt_member_id m)) (member_table d2)"
    using groups_invD(3) [OF inv] nomem by (auto simp: d2 key_ok_snoc exists_row_def)
  moreover have "\<forall>a \<in> set (group_avatars d2). group_exists (ga_group_id a) d2"
    using inv by (simp add: groups_inv_def ex) (simp add: d2)
  moreover have "key_ok u_id (users d2)" "key_ok ga_group_id (group_avatars d2)"
    using inv by (simp_all add: d2 groups_inv_def)
  ultimately show ?thesis by (auto simp: groups_inv_def d2)
qed

lemma createLoop_inv:
  "groups_inv d \<Longrightarrow> createLoop e gid u req i n d = Inr ((), d') \<Longrightarrow>
   2 \<le> cgr_MaxMems req \<Longrightarrow> cgr_MaxMems req \<le> 1000 \<Longrightarrow> groups_inv d'"
proof (induction n arbitrary: i)
  case (Suc n)
  from Suc.prems(2) obtain code where "NewInviteCode (ge_rand e i) = Some code"
    by (auto split: option.splits)
  with Suc show ?case
    by (auto split: sum.splits if_splits intro: create_inv)
qed simp

lemma validateCreate_bounds:
  "validateCreate req0 = Inr req \<Longrightarrow> 2 \<le> cgr_MaxMems req \<and> cgr_MaxMems req \<le> 1000"
  by (auto simp: validateCreate_def Let_def maxGroupSize_def split: if_splits)

lemma cleanPermissions_sub: "cleanPermissions xs = Inr perms \<Longrightarrow> set perms \<subseteq> set AllPermissions"
  by (auto simp: cleanPermissions_def split: if_splits)

section \<open>The service\<close>

lemma snapshot_db [simp]: "gy_db (snd (snapshot e ph gid s)) = gy_db s"
  by (simp add: snapshot_def split: prod.split)

lemma snapshot_dbE: "snapshot e ph gid s = (r, s') \<Longrightarrow> gy_db s' = gy_db s"
  using snapshot_db [of e ph gid s] by simp

lemma Members_dbE: "Members e ph gid s = (r, s') \<Longrightarrow> gy_db s' = gy_db s"
  by (auto simp: Members_def split: prod.splits sum.splits dest: snapshot_dbE)

lemma IsMember_dbE: "IsMember e ph gid u s = (r, s') \<Longrightarrow> gy_db s' = gy_db s"
  by (auto simp: IsMember_def split: prod.splits sum.splits dest: snapshot_dbE)

lemma check_dbE: "check e ph gid u p s = (r, s') \<Longrightarrow> gy_db s' = gy_db s"
  by (auto simp: check_def Let_def split: prod.splits sum.splits if_splits dest: snapshot_dbE)

lemma pushMembers_dbE: "pushMembers e ph gid a c u s = (s', es) \<Longrightarrow> gy_db s' = gy_db s"
  by (auto simp: pushMembers_def split: prod.splits sum.splits dest: Members_dbE)

lemma changed_dbE: "changed e gid a c u d' s = (s', es) \<Longrightarrow> gy_db s' = d'"
  by (auto simp: changed_def group_invalidate_def dest!: pushMembers_dbE)

lemma invalidate_gdb [simp]: "gy_db (group_invalidate e gid s) = gy_db s"
  by (simp add: group_invalidate_def)

lemma svc_JoinGroup_db:
  assumes "svc_JoinGroup e gid uid s = (r, s', es)"
  shows "gy_db s' = gy_db s \<and> (\<exists>err. r = Inl err) \<or> repo_Join e gid uid (gy_db s) = Inr ((), gy_db s') \<and> r = Inr ()"
  using assms by (auto simp: svc_JoinGroup_def split: sum.splits prod.splits dest: changed_dbE)

text \<open>The database after an operation: unchanged, or the result of its repository operation.\<close>

inductive group_commit :: "group_env \<Rightarrow> group_op \<Rightarrow> db \<Rightarrow> db \<Rightarrow> bool" for e where
  "validateCreate req0 = Inr req \<Longrightarrow> repo_Create e (ge_uuid e) u req d = Inr ((), d') \<Longrightarrow>
     group_commit e (GCreateOp u req0) d d'"
| "repo_Join e g u d = Inr ((), d') \<Longrightarrow> group_commit e (GJoinPublicOp g u) d d'"
| "NormalizeInviteCode raw = Some code \<Longrightarrow> repo_ByInviteCode e code d = Inr p \<Longrightarrow>
     repo_Join e (gp_ID p) u d = Inr ((), d') \<Longrightarrow> group_commit e (GJoinByInviteOp u raw) d d'"
| "repo_Leave e g u succ d = Inr (left, d') \<Longrightarrow> group_commit e (GLeaveOp g u succ) d d'"
| "repo_RegenerateInviteCode e g d = Inr (c, d') \<Longrightarrow> group_commit e (GRegenerateOp g u) d d'"
| "repo_Kick e g u t d = Inr ((), d') \<Longrightarrow> group_commit e (GKickOp g u t) d d'"
| "repo_Update e g u nm descr vis d = Inr (p, d') \<Longrightarrow> group_commit e (GUpdateOp g u req) d d'"
| "repo_TransferAdmin e g u t d = Inr ((), d') \<Longrightarrow> group_commit e (GTransferOp g u t) d d'"
| "rr_Role req = RoleModerator \<or> rr_Role req = RoleMember \<Longrightarrow>
     cleanPermissions (rr_Permissions req) = Inr perms \<Longrightarrow>
     repo_SetRole e g u t (rr_Role req) perms d = Inr ((), d') \<Longrightarrow> group_commit e (GSetRoleOp g u t req) d d'"
| "repo_Delete e g u d = Inr (ms, d') \<Longrightarrow> group_commit e (GDeleteOp g u) d d'"
| "repo_AddMember e g u t d = Inr ((), d') \<Longrightarrow> ge_friends e u t = Some True \<Longrightarrow>
     group_commit e (GAddFriendOp g u t) d d'"
| "repo_SetAvatar e g u img at d = Inr ((), d') \<Longrightarrow> group_commit e (GSetAvatarOp g u raw) d d'"
| "repo_DeleteAvatar e g u d = Inr ((), d') \<Longrightarrow> group_commit e (GDeleteAvatarOp g u) d d'"

inductive_cases group_commit_KickE: "group_commit e (GKickOp g u t) d d'"
inductive_cases group_commit_SetRoleE: "group_commit e (GSetRoleOp g u t req) d d'"

lemma unit_result_cases:
  "unit_result x = (r, s', es) \<Longrightarrow> (\<exists>err. x = (Inl err, s', es) \<and> r = Inl err) \<or> (\<exists>v. x = (Inr v, s', es) \<and> r = Inr ())"
  by (cases x) (auto simp: unit_result_def split: sum.splits)

lemma groups_exec_commit:
  assumes "groups_exec e op s = (r, s', es)"
  shows "gy_db s' = gy_db s \<or> (r = Inr () \<and> group_commit e op (gy_db s) (gy_db s'))"
proof (cases op)
  case (GCreateOp u req)
  with assms show ?thesis
    by (auto simp: svc_CreateGroup_def dest!: unit_result_cases split: sum.splits if_splits prod.splits
        intro: group_commit.intros)
next
  case (GJoinPublicOp g u)
  with assms show ?thesis
    by (auto simp: svc_JoinPublic_def dest!: svc_JoinGroup_db split: sum.splits if_splits prod.splits
        dest: snapshot_dbE intro: group_commit.intros) (metis group_commit.intros(2) snapshot_dbE)+
next
  case (GJoinByInviteOp u raw)
  with assms show ?thesis
    by (auto simp: svc_JoinByInvite_def svc_PreviewInvite_def dest!: unit_result_cases svc_JoinGroup_db
        split: sum.splits if_splits prod.splits option.splits intro: group_commit.intros)
next
  case (GLeaveOp g u succ)
  with assms show ?thesis
    by (auto simp: svc_LeaveGroup_def Let_def split: sum.splits if_splits prod.splits
        dest!: pushMembers_dbE intro: group_commit.intros)
next
  case (GRegenerateOp g u)
  with assms show ?thesis
    by (auto simp: svc_RegenerateInvite_def dest!: unit_result_cases check_dbE split: sum.splits prod.splits
        intro: group_commit.intros)
next
  case (GKickOp g u t)
  with assms show ?thesis
    by (auto simp: svc_Kick_def split: sum.splits prod.splits dest!: changed_dbE intro: group_commit.intros)
next
  case (GUpdateOp g u req)
  with assms show ?thesis
    by (auto simp: svc_Update_def Let_def dest!: unit_result_cases changed_dbE
        split: sum.splits prod.splits if_splits option.splits intro: group_commit.intros)
next
  case (GTransferOp g u t)
  with assms show ?thesis
    by (auto simp: svc_TransferAdmin_def split: sum.splits prod.splits dest!: changed_dbE intro: group_commit.intros)
next
  case (GSetRoleOp g u t req)
  with assms show ?thesis
    by (auto simp: svc_SetRole_def split: sum.splits prod.splits if_splits dest!: changed_dbE
        intro: group_commit.intros)
next
  case (GDeleteOp g u)
  with assms show ?thesis
    by (auto simp: svc_Delete_def split: sum.splits prod.splits intro: group_commit.intros)
next
  case (GAddFriendOp g u t)
  with assms show ?thesis
    by (auto simp: svc_AddFriend_def split: sum.splits prod.splits if_splits option.splits
        dest!: changed_dbE check_dbE IsMember_dbE intro: group_commit.intros)
next
  case (GSetAvatarOp g u raw)
  with assms show ?thesis
    by (auto simp: svc_SetAvatar_def Let_def dest!: unit_result_cases pushMembers_dbE
        split: sum.splits prod.splits intro: group_commit.intros)
next
  case (GDeleteAvatarOp g u)
  with assms show ?thesis
    by (auto simp: svc_DeleteAvatar_def split: sum.splits prod.splits dest!: pushMembers_dbE
        intro: group_commit.intros)
next
  case (GReadOp g)
  with assms show ?thesis by (auto simp: snapshot_dbE)
qed

lemma group_commit_inv: "group_commit e op d d' \<Longrightarrow> groups_inv d \<Longrightarrow> groups_inv d'"
proof (induction rule: group_commit.induct)
  case (1 req0 req u d d')
  then show ?case using validateCreate_bounds [of req0 req] by (auto simp: repo_Create_def intro: createLoop_inv)
next
  case (9 req perms g u t d d')
  then show ?case using cleanPermissions_sub SetRole_inv by blast
qed (auto intro: Join_inv Leave_inv regenerate_inv Kick_inv Update_inv TransferAdmin_inv(1) Delete_inv
    AddMember_inv SetAvatar_inv DeleteAvatar_inv simp: repo_RegenerateInviteCode_def)

lemma groups_exec_inv:
  "groups_inv (gy_db s) \<Longrightarrow> groups_inv (gy_db (fst (snd (groups_exec e op s))))"
  by (cases "groups_exec e op s") (auto dest!: groups_exec_commit intro: group_commit_inv)

lemma groups_run_inv: "groups_inv (gy_db s) \<Longrightarrow> groups_inv (gy_db (groups_run ops s))"
  by (induction ops s rule: groups_run.induct) (auto intro: groups_exec_inv)

text \<open>
  C1: in every run of the groups service, with any call failing anywhere, every group has
  exactly one admin, its stored member count is the number of its members and within its
  capacity, only moderators carry permissions and only known ones, every member and
  picture belongs to an existing group, and no two groups share an invite code.
\<close>

theorem groups_safe:
  assumes "groups_inv (gy_db s)"
  shows "groups_inv (gy_db (groups_run ops s))"
  using assms by (rule groups_run_inv)

text \<open>
  A group is never over capacity and never without an admin: for each group that exists
  after a run, the number of member rows is the stored count, between one and the maximum
  (at most 1000), and exactly one of them is the admin.
\<close>

theorem group_capacity:
  assumes "groups_inv (gy_db s)" "find_group gid (gy_db (groups_run ops s)) = Some g"
  shows "int (length (members_of gid (gy_db (groups_run ops s)))) = g_current_member g \<and>
    1 \<le> g_current_member g \<and> g_current_member g \<le> g_max_member g \<and> g_max_member g \<le> 1000 \<and>
    (\<exists>!m. m \<in> set (members_of gid (gy_db (groups_run ops s))) \<and> mt_role m = RoleAdmin)"
proof -
  let ?d = "gy_db (groups_run ops s)"
  note inv = groups_run_inv [OF assms(1), of ops]
  have ok: "group_ok ?d g" "g_id g = gid"
    using groups_invD(5) [OF inv assms(2)] find_group_Some [OF assms(2)] by auto
  then have one: "length (admins_of gid ?d) = 1" by (simp add: group_ok_def)
  then obtain m where m: "admins_of gid ?d = [m]" by (auto simp: length_Suc_conv)
  have "\<exists>!m. m \<in> set (admins_of gid ?d)" by (simp add: m)
  then have ex1: "\<exists>!m. m \<in> set (members_of gid ?d) \<and> mt_role m = RoleAdmin" by (simp add: admins_of_def)
  have "length (admins_of gid ?d) \<le> length (members_of gid ?d)" by (simp add: admins_of_def)
  with one ok ex1 show ?thesis by (simp add: group_ok_def)
qed

definition quiet_genv :: "uuid \<Rightarrow> group_env" where
  "quiet_genv i = \<lparr>ge_fails = (\<lambda>_. False), ge_now = 5, ge_dbnow = 5, ge_uuid = i,
     ge_rand = (\<lambda>n. Some (replicate 8 (of_nat n))), ge_friends = (\<lambda>_ _. Some True),
     ge_image = (\<lambda>_. Inl ErrBadImage), ge_ToLower = (\<lambda>x. x), ge_pglower = (\<lambda>x. x), ge_coll = (\<lambda>x. x)\<rparr>"

lemma quiet_genv_simps [simp]:
  "ge_fails (quiet_genv i) c = False" "ge_now (quiet_genv i) = 5" "ge_dbnow (quiet_genv i) = 5"
  "ge_uuid (quiet_genv i) = i" "ge_rand (quiet_genv i) n = Some (replicate 8 (of_nat n))"
  "ge_friends (quiet_genv i) a b = Some True" "ge_image (quiet_genv i) raw = Inl ErrBadImage"
  by (simp_all add: quiet_genv_def)

text \<open>Three users and a group of two, which the witnesses use.\<close>

definition devs :: chat_group where
  "devs = \<lparr>g_id = 7, g_name = ''devs'', g_description = [], g_max_member = 5, g_created_at = 0,
     g_updated_at = 0, g_current_member = 2, g_invite_code = ''K7M9QX2P'', g_avatar_at = None,
     g_visibility = Private\<rparr>"

definition devs_sys :: gsys where
  "devs_sys = \<lparr>gy_db = empty_db\<lparr>users := [new_user 1 ''ann'', new_user 2 ''bob'', new_user 3 ''cat''],
     chat_groups := [devs],
     member_table := [\<lparr>mt_group_id = 7, mt_member_id = 1, mt_joined_at = 1, mt_role = RoleAdmin, mt_permissions = []\<rparr>,
       \<lparr>mt_group_id = 7, mt_member_id = 2, mt_joined_at = 2, mt_role = RoleMember, mt_permissions = []\<rparr>]\<rparr>,
     gy_cache = empty_vcache\<rparr>"

lemma devs_inv [simp]: "groups_inv (gy_db devs_sys)"
  by (simp add: devs_sys_def devs_def groups_inv_def empty_db_def key_ok_def member_ok_def group_ok_def
      admins_of_def members_of_def group_exists_def user_exists_def)

theorem groups_safe_witness:
  "groups_inv (gy_db (groups_run [(quiet_genv 8, GLeaveOp 7 1 0), (quiet_genv 9, GJoinByInviteOp 3 ''k7m9 qx2p'')] devs_sys))"
  by (rule groups_safe) simp

theorem group_capacity_witness:
  "int (length (members_of 7 (gy_db (groups_run [] devs_sys)))) = g_current_member devs"
proof -
  have "find_group 7 (gy_db (groups_run [] devs_sys)) = Some devs"
    by (simp add: devs_sys_def find_group_def empty_db_def devs_def)
  from group_capacity [OF devs_inv this] show ?thesis by simp
qed

end
