(* ===== verification/Account_Deletion.thy ===== *)
theory Account_Deletion
  imports Auth_Safety Groups_Safety
begin

text \<open>
  Deleting an account touches the tables of every package: the invariants of friends, groups and
  accounts survive it, and nothing that belongs to the user is left.
\<close>

section \<open>Groups on the way\<close>

text \<open>
  \<open>handing u P d\<close>: the groups' invariant as it is seen without \<open>u\<close>, who is about to go: the groups in
  \<open>P\<close> still lack another admin.
\<close>

definition other_admins :: "uuid \<Rightarrow> uuid \<Rightarrow> db \<Rightarrow> member_row list" where
  "other_admins u gid d = filter (\<lambda>m. mt_role m = RoleAdmin \<and> mt_member_id m \<noteq> u) (members_of gid d)"

definition sized :: "db \<Rightarrow> chat_group \<Rightarrow> bool" where
  "sized d g \<longleftrightarrow> g_current_member g = int (length (members_of (g_id g) d)) \<and>
     g_current_member g \<le> g_max_member g \<and> 2 \<le> g_max_member g \<and> g_max_member g \<le> 1000 \<and>
     g_visibility g \<in> {Private, Public} \<and>
     g_avatar_at g = map_option ga_updated_at (find_row (\<lambda>a. ga_group_id a = g_id g) (group_avatars d))"

lemma group_ok_sized: "group_ok d g \<longleftrightarrow> length (admins_of (g_id g) d) = 1 \<and> sized d g"
  by (simp add: group_ok_def sized_def)

definition tables_fit :: "db \<Rightarrow> bool" where
  "tables_fit d \<longleftrightarrow> key_ok u_id (users d) \<and> key_ok g_id (chat_groups d) \<and> key_ok g_invite_code (chat_groups d) \<and>
     key_ok (\<lambda>m. (mt_group_id m, mt_member_id m)) (member_table d) \<and> key_ok ga_group_id (group_avatars d) \<and>
     (\<forall>m \<in> set (member_table d). member_ok d m) \<and> (\<forall>a \<in> set (group_avatars d). group_exists (ga_group_id a) d)"

lemma groups_inv_fit: "groups_inv d \<longleftrightarrow> tables_fit d \<and> (\<forall>g \<in> set (chat_groups d). group_ok d g)"
  by (auto simp: groups_inv_def tables_fit_def)

definition handing :: "uuid \<Rightarrow> uuid set \<Rightarrow> db \<Rightarrow> bool" where
  "handing u P d \<longleftrightarrow> tables_fit d \<and>
     (\<forall>g \<in> set (chat_groups d). sized d g \<and> length (other_admins u (g_id g) d) = (if g_id g \<in> P then 0 else 1))"

lemma handing_start:
  assumes "groups_inv (ad_db d)"
  shows "handing u (set (GroupsLedBy u d)) (ad_db d)"
proof -
  have "length (other_admins u gid (ad_db d)) = (if gid \<in> set (GroupsLedBy u d) then 0 else 1)"
    if "length (admins_of gid (ad_db d)) = 1" for gid
  proof -
    from that obtain m where m: "admins_of gid (ad_db d) = [m]" by (auto simp: length_Suc_conv)
    have o: "other_admins u gid (ad_db d) = filter (\<lambda>m. mt_member_id m \<noteq> u) (admins_of gid (ad_db d))"
      by (auto simp: other_admins_def admins_of_def intro: filter_cong)
    have "gid \<in> set (GroupsLedBy u d) \<longleftrightarrow> u \<in> mt_member_id ` set (admins_of gid (ad_db d))"
      by (auto simp: GroupsLedBy_def admins_of_def members_of_def)
    then show ?thesis by (auto simp: o m)
  qed
  then show ?thesis using assms by (auto simp: handing_def groups_inv_fit group_ok_sized)
qed

lemma handing_delete:
  assumes "handing u P d"
  shows "handing u (P - {gid}) (DeleteGroup gid d)"
proof -
  have ex: "group_exists i (DeleteGroup gid d) \<longleftrightarrow> i \<noteq> gid \<and> group_exists i d" for i
    by (auto simp: group_exists_def DeleteGroup_frame exists_row_def)
  have "member_ok (DeleteGroup gid d) m" if "m \<in> set (member_table (DeleteGroup gid d))" for m
    using that assms
    by (simp add: DeleteGroup_frame member_ok_row ex handing_def tables_fit_def row_ok_users [OF DeleteGroup_frame(1)])
  then have "tables_fit (DeleteGroup gid d)"
    using assms by (simp add: handing_def tables_fit_def ex) (simp add: DeleteGroup_frame key_ok_delete)
  moreover have "sized (DeleteGroup gid d) g \<and> length (other_admins u (g_id g) (DeleteGroup gid d)) = (if g_id g \<in> P - {gid} then 0 else 1)"
    if "g \<in> set (chat_groups (DeleteGroup gid d))" for g
  proof -
    from that have g: "g \<in> set (chat_groups d)" "g_id g \<noteq> gid" by (simp_all add: DeleteGroup_frame)
    then have "sized d g \<and> length (other_admins u (g_id g) d) = (if g_id g \<in> P then 0 else 1)"
      using assms by (simp add: handing_def)
    with g(2) show ?thesis
      by (simp add: sized_def other_admins_def members_of_DeleteGroup DeleteGroup_frame(4)
        find_row_filter filter_delete_other)
  qed
  ultimately show ?thesis by (simp add: handing_def)
qed

lemma PromoteToLeader_role: "SetMemberRole RoleAdmin [] gid n d = Inr (PromoteToLeader gid n d)"
  by (simp add: SetMemberRole_def PromoteToLeader_def)

lemma PromoteToLeader_frame [simp]:
  "users (PromoteToLeader gid n d) = users d" "chat_groups (PromoteToLeader gid n d) = chat_groups d"
  "group_avatars (PromoteToLeader gid n d) = group_avatars d"
  by (simp_all add: PromoteToLeader_def)

lemma one_promoted:
  assumes "distinct (map mt_member_id ms)" "n \<in> mt_member_id ` set ms" "n \<noteq> u"
    "filter (\<lambda>m. mt_role m = RoleAdmin \<and> mt_member_id m \<noteq> u) ms = []"
  shows "length (filter (\<lambda>m. mt_role m = RoleAdmin \<and> mt_member_id m \<noteq> u)
    (update_rows (\<lambda>m. mt_member_id m = n) (\<lambda>m. m\<lparr>mt_role := RoleAdmin, mt_permissions := []\<rparr>) ms)) = 1"
  using assms
proof (induction ms)
  case (Cons m ms)
  show ?case
  proof (cases "mt_member_id m = n")
    case True
    with Cons.prems(1) have "\<forall>x \<in> set ms. mt_member_id x \<noteq> n" by (metis distinct.simps(2) imageI list.map(2) list.set_map)
    then have "update_rows (\<lambda>m. mt_member_id m = n) (\<lambda>m. m\<lparr>mt_role := RoleAdmin, mt_permissions := []\<rparr>) ms = ms"
      by (auto simp: update_rows_def intro!: map_idI)
    with True Cons.prems show ?thesis by (auto split: if_splits)
  next
    case False
    with Cons show ?thesis by (auto split: if_splits)
  qed
qed simp

lemma handing_promote:
  assumes h: "handing u P d" and gid: "gid \<in> P" "group_exists gid d" and n: "EarliestOtherMember gid u (x\<lparr>ad_db := d\<rparr>) = Inr n"
  shows "handing u (P - {gid}) (PromoteToLeader gid n d)"
proof -
  let ?d = "PromoteToLeader gid n d"
  have n': "n \<in> mt_member_id ` set (members_of gid d)" "n \<noteq> u"
    using NextAdmin_Inr [of gid u d n] n by (simp_all add: EarliestOtherMember_def)
  have ms: "members_of i ?d = (if i = gid then update_rows (\<lambda>m. mt_member_id m = n)
      (\<lambda>m. m\<lparr>mt_role := RoleAdmin, mt_permissions := []\<rparr>) (members_of i d) else members_of i d)" for i
    by (rule members_of_set_role [OF PromoteToLeader_role])
  have ids: "distinct (map mt_member_id (members_of gid d))"
  proof -
    have "distinct (map (\<lambda>m. (mt_group_id m, mt_member_id m)) (members_of gid d))"
      using h by (simp add: handing_def tables_fit_def key_ok_def members_of_def distinct_map_filter)
    then show ?thesis by (auto simp: members_of_def distinct_map inj_on_def)
  qed
  have "member_ok ?d m" if "m \<in> set (member_table ?d)" for m
    using that h by (auto simp: PromoteToLeader_def handing_def tables_fit_def member_ok_def set_update_rows
        group_exists_def user_exists_def split: if_splits)
  then have "tables_fit ?d"
    using h by (auto simp: handing_def tables_fit_def group_exists_def)
      (auto simp: PromoteToLeader_def key_ok_update)
  moreover have "sized ?d g \<and> length (other_admins u (g_id g) ?d) = (if g_id g \<in> P - {gid} then 0 else 1)"
    if g: "g \<in> set (chat_groups ?d)" for g
  proof (cases "g_id g = gid")
    case True
    have "filter (\<lambda>m. mt_role m = RoleAdmin \<and> mt_member_id m \<noteq> u) (members_of gid d) = []"
      using h g gid True by (auto simp: handing_def other_admins_def)
    from one_promoted [OF ids n' this] show ?thesis
      using h g True by (auto simp: handing_def sized_def other_admins_def ms)
  next
    case False
    with h g show ?thesis by (auto simp: handing_def sized_def other_admins_def ms)
  qed
  ultimately show ?thesis by (simp add: handing_def)
qed

text \<open>What the hand-over leaves alone.\<close>

definition same_people :: "auth_db \<Rightarrow> auth_db \<Rightarrow> bool" where
  "same_people d d' \<longleftrightarrow> users (ad_db d') = users (ad_db d) \<and> user_relationships (ad_db d') = user_relationships (ad_db d) \<and>
     user_blocks (ad_db d') = user_blocks (ad_db d) \<and> refresh_tokens d' = refresh_tokens d \<and>
     email_codes d' = email_codes d \<and> user_identities d' = user_identities d"

lemma same_people_refl: "same_people d d"
  by (simp add: same_people_def)

lemma same_people_trans: "same_people d e \<Longrightarrow> same_people e f \<Longrightarrow> same_people d f"
  by (simp add: same_people_def)

lemma hand_over_same: "hand_over u gid d = Some d' \<Longrightarrow> same_people d d'"
  by (auto simp: hand_over_def same_people_def DeleteGroup_def PromoteToLeader_def Let_def split: sum.splits dberr.splits)

lemma hand_over_all_same: "hand_over_all u gs d = Some d' \<Longrightarrow> same_people d d'"
  by (induction gs arbitrary: d) (auto split: option.splits intro: same_people_refl same_people_trans hand_over_same)

text \<open>A group without \<open>u\<close> keeps its members, or has gone.\<close>

definition others_stay :: "uuid \<Rightarrow> db \<Rightarrow> db \<Rightarrow> bool" where
  "others_stay u d d' \<longleftrightarrow> (\<forall>m' \<in> set (member_table d'). \<exists>m \<in> set (member_table d).
     mt_group_id m' = mt_group_id m \<and> mt_member_id m' = mt_member_id m)"

lemma hand_over_handing:
  assumes h: "handing u P (ad_db d)" and gid: "gid \<in> P" and e: "hand_over u gid d = Some d'"
  shows "handing u (P - {gid}) (ad_db d')" "same_people d d'" "others_stay u (ad_db d) (ad_db d')"
proof -
  have ex: "group_exists gid (ad_db d)"
    using e by (auto simp: hand_over_def LockGroup_def find_group_exists split: option.splits sum.splits)
  consider (gone) "EarliestOtherMember gid u d = Inl NoRows" "d' = d\<lparr>ad_db := DeleteGroup gid (ad_db d)\<rparr>"
    | (promoted) n where "EarliestOtherMember gid u d = Inr n" "d' = d\<lparr>ad_db := PromoteToLeader gid n (ad_db d)\<rparr>"
    using e by (auto simp: hand_over_def split: sum.splits dberr.splits)
  then show "handing u (P - {gid}) (ad_db d')" "same_people d d'" "others_stay u (ad_db d) (ad_db d')"
  proof (atomize (full), cases)
    case gone
    then show "handing u (P - {gid}) (ad_db d') \<and> same_people d d' \<and> others_stay u (ad_db d) (ad_db d')"
      using handing_delete [OF h, of gid]
      by (auto simp: same_people_def others_stay_def DeleteGroup_def Let_def)
  next
    case (promoted n)
    have "EarliestOtherMember gid u (d\<lparr>ad_db := ad_db d\<rparr>) = Inr n" using promoted by simp
    from handing_promote [OF h gid ex this] promoted
    show "handing u (P - {gid}) (ad_db d') \<and> same_people d d' \<and> others_stay u (ad_db d) (ad_db d')"
      by (auto simp: same_people_def others_stay_def PromoteToLeader_def set_update_rows split: if_splits)
  qed
qed

lemma others_stay_trans: "others_stay u a b \<Longrightarrow> others_stay u b c \<Longrightarrow> others_stay u a c"
  unfolding others_stay_def by metis

lemma hand_over_all_handing:
  "handing u P (ad_db d) \<Longrightarrow> set gs = P \<Longrightarrow> distinct gs \<Longrightarrow> hand_over_all u gs d = Some d' \<Longrightarrow>
   handing u {} (ad_db d') \<and> same_people d d' \<and> others_stay u (ad_db d) (ad_db d')"
proof (induction gs arbitrary: P d)
  case Nil
  then show ?case by (auto simp: same_people_def others_stay_def)
next
  case (Cons g gs)
  then obtain d1 where d1: "hand_over u g d = Some d1" "hand_over_all u gs d1 = Some d'"
    by (auto split: option.splits)
  have g: "g \<in> P" "set gs = P - {g}" using Cons.prems by auto
  note h = hand_over_handing [OF Cons.prems(1) g(1) d1(1)]
  from Cons.IH [OF h(1) g(2) _ d1(2)] Cons.prems(3) h(2,3) show ?case
    using same_people_trans others_stay_trans by auto
qed


section \<open>After the row is gone\<close>

lemma cascade_frame [simp]:
  "users (cascade_user u d) = delete_rows (\<lambda>r. u_id r = u) (users d)"
  "chat_groups (cascade_user u d) = chat_groups d" "group_avatars (cascade_user u d) = group_avatars d"
  "member_table (cascade_user u d) = delete_rows (\<lambda>r. mt_member_id r = u) (member_table d)"
  by (simp_all add: cascade_user_def)

lemma cascade_exists [simp]:
  "user_exists i (cascade_user u d) \<longleftrightarrow> i \<noteq> u \<and> user_exists i d" "group_exists g (cascade_user u d) = group_exists g d"
  by (auto simp: user_exists_def group_exists_def exists_row_def)

lemma members_of_cascade: "members_of i (cascade_user u d) = filter (\<lambda>m. mt_member_id m \<noteq> u) (members_of i d)"
  by (auto simp: members_of_def delete_rows_def intro: filter_cong)

definition recounted :: "time \<Rightarrow> uuid list \<Rightarrow> db \<Rightarrow> chat_group \<Rightarrow> chat_group" where
  "recounted now gs d g = (if g_id g \<in> set gs
     then g\<lparr>g_current_member := int (length (members_of (g_id g) d)), g_updated_at := now\<rparr> else g)"

lemma recount_all_eq:
  "recount_all now gs d = d\<lparr>ad_db := (ad_db d)\<lparr>chat_groups := map (recounted now gs (ad_db d)) (chat_groups (ad_db d))\<rparr>\<rparr>"
proof (induction gs arbitrary: d)
  case Nil
  show ?case by (simp add: recounted_def)
next
  case (Cons g gs)
  have m: "members_of i (RecountGroupMembers now g x) = members_of i x" for i x
    by (simp add: RecountGroupMembers_def members_of_def)
  have "map (recounted now gs (RecountGroupMembers now g x)) (chat_groups (RecountGroupMembers now g x)) =
      map (recounted now (g # gs) x) (chat_groups x)" for x
    by (auto simp: recounted_def m RecountGroupMembers_def update_rows_def members_of_def)
  then show ?case by (simp add: Cons.IH) (simp add: RecountGroupMembers_def)
qed

lemma recounted_id [simp]: "g_id (recounted now gs d g) = g_id g" "g_invite_code (recounted now gs d g) = g_invite_code g"
  by (simp_all add: recounted_def)

lemma groups_inv_after:
  assumes h: "handing u {} d" and gs: "\<And>m. m \<in> set (member_table d) \<Longrightarrow> mt_member_id m = u \<Longrightarrow> mt_group_id m \<in> set gs"
  shows "groups_inv ((cascade_user u d)\<lparr>chat_groups := map (recounted now gs (cascade_user u d)) (chat_groups d)\<rparr>)"
proof -
  let ?c = "cascade_user u d"
  let ?d = "?c\<lparr>chat_groups := map (recounted now gs ?c) (chat_groups d)\<rparr>"
  have fit: "tables_fit d" using h by (simp add: handing_def)
  have ge: "group_exists i ?d = group_exists i d" for i
    by (auto simp: group_exists_def exists_row_def)
  have ue: "user_exists i ?d \<longleftrightarrow> i \<noteq> u \<and> user_exists i d" for i
    using cascade_exists(1) [of i u d] by (simp add: user_exists_def)
  have keys: "key_ok g_id (map (recounted now gs ?c) rows) = key_ok g_id rows"
    "key_ok g_invite_code (map (recounted now gs ?c) rows) = key_ok g_invite_code rows" for rows
    by (simp_all add: key_ok_def comp_def)
  have "tables_fit ?d"
    using fit by (auto simp: tables_fit_def keys ge member_ok_def ue key_ok_delete)
  moreover have "group_ok ?d g'" if g': "g' \<in> set (chat_groups ?d)" for g'
  proof -
    from g' obtain g where g: "g \<in> set (chat_groups d)" "g' = recounted now gs ?c g" by auto
    have size: "sized d g" and one: "length (other_admins u (g_id g) d) = 1" using h g(1) by (auto simp: handing_def)
    have ms: "members_of i ?d = filter (\<lambda>m. mt_member_id m \<noteq> u) (members_of i d)" for i
      using members_of_cascade [of i u d] by (simp add: members_of_def)
    have "admins_of (g_id g) ?d = other_admins u (g_id g) d"
      by (auto simp: admins_of_def other_admins_def ms intro: filter_cong)
    moreover have "sized ?d g'"
    proof (cases "g_id g \<in> set gs")
      case True
      have "int (length (filter (\<lambda>m. mt_member_id m \<noteq> u) (members_of (g_id g) d))) \<le> int (length (members_of (g_id g) d))" by simp
      then have "int (length (filter (\<lambda>m. mt_member_id m \<noteq> u) (members_of (g_id g) d))) \<le> g_max_member g"
        using size unfolding sized_def by linarith
      with size True show ?thesis
        by (simp add: g(2) recounted_def sized_def ms members_of_cascade)
    next
      case False
      have "filter (\<lambda>m. mt_member_id m \<noteq> u) (members_of (g_id g) d) = members_of (g_id g) d"
        unfolding filter_id_conv
      proof
        fix m assume "m \<in> set (members_of (g_id g) d)"
        then show "mt_member_id m \<noteq> u" using gs [of m] False by (auto simp: members_of_def)
      qed
      with size False show ?thesis by (simp add: g(2) recounted_def sized_def ms)
    qed
    ultimately show ?thesis using one by (simp add: group_ok_sized g(2))
  qed
  ultimately show ?thesis unfolding groups_inv_fit by blast
qed

lemma DeleteUserE:
  assumes "DeleteUser e u d = Some (r, d')" "groups_inv (ad_db d)"
  obtains d1 where "handing u {} (ad_db d1)" "same_people d d1" "others_stay u (ad_db d) (ad_db d1)"
    "hand_over_all u (GroupsLedBy u d) d = Some d1"
    "d' = recount_all (ae_dbnow e) (GroupsOfUser u d) (DeleteUserByID u d1)"
proof -
  obtain d1 where d1: "hand_over_all u (GroupsLedBy u d) d = Some d1"
    "d' = recount_all (ae_dbnow e) (GroupsOfUser u d) (DeleteUserByID u d1)"
    using assms(1) by (auto simp: DeleteUser_def split: if_splits option.splits)
  have "distinct (map mt_group_id (filter (\<lambda>m. mt_member_id m = u \<and> mt_role m = RoleAdmin) rows))"
    if "key_ok (\<lambda>m. (mt_group_id m, mt_member_id m)) rows" for rows :: "member_row list"
    using that by (induction rows) (auto simp: key_ok_def image_iff)
  from this [of "member_table (ad_db d)"] have "distinct (GroupsLedBy u d)"
    using assms(2) by (simp add: GroupsLedBy_def groups_inv_def)
  from hand_over_all_handing [OF handing_start [OF assms(2)] refl this d1(1)] d1 show ?thesis using that by blast
qed

lemma friends_inv_cascade:
  assumes "friends_inv d"
  shows "friends_inv (cascade_user u d)"
proof -
  have r: "user_relationships (cascade_user u d) = delete_rows (\<lambda>r. ur_user_id r = u \<or> ur_otherUser_id r = u) (user_relationships d)"
    "user_blocks (cascade_user u d) = delete_rows (\<lambda>r. ub_blocker_id r = u \<or> ub_blocked_id r = u) (user_blocks d)"
    by (simp_all add: cascade_user_def)
  show ?thesis
    using assms
    by (auto simp: friends_inv_def rels_ok_def blocks_ok_def no_blocked_rel_def rel_between_def r key_ok_delete exists_row_def)
qed

lemma friends_inv_frame:
  "users d' = users d \<Longrightarrow> user_relationships d' = user_relationships d \<Longrightarrow> user_blocks d' = user_blocks d \<Longrightarrow>
   friends_inv d' = friends_inv d"
  by (simp add: friends_inv_def rels_ok_def blocks_ok_def no_blocked_rel_def rel_between_def user_exists_def)

lemma auth_inv_delete:
  assumes "auth_inv d" "same_people d d1"
  shows "auth_inv (DeleteUserByID u d1)"
proof -
  have ue: "user_exists i (ad_db d1) = user_exists i (ad_db d)" for i
    using assms(2) by (simp add: same_people_def user_exists_def)
  show ?thesis
    using assms by (auto simp: auth_inv_defs DeleteUserByID_def ue same_people_def key_ok_delete)
qed

text \<open>
  C6: deleting an account is safe for everybody else: whatever groups the user led, belonged to or leaves
  empty, and whatever relationships, sessions and codes they had, the tables of groups, friends and
  accounts keep their invariants: each remaining group has exactly one admin and the right count, no
  row refers to a missing user.
\<close>

theorem account_deletion_keeps_invariants:
  assumes "DeleteUser e u d = Some (r, d')" "groups_inv (ad_db d)" "friends_inv (ad_db d)" "auth_inv d"
  shows "groups_inv (ad_db d') \<and> friends_inv (ad_db d') \<and> auth_inv d'"
proof -
  from DeleteUserE [OF assms(1,2)] obtain d1 where d1: "handing u {} (ad_db d1)" "same_people d d1"
    "others_stay u (ad_db d) (ad_db d1)" "d' = recount_all (ae_dbnow e) (GroupsOfUser u d) (DeleteUserByID u d1)" .
  let ?c = "cascade_user u (ad_db d1)"
  let ?rc = "map (recounted (ae_dbnow e) (GroupsOfUser u d) ?c) (chat_groups (ad_db d1))"
  have ad: "ad_db d' = ?c\<lparr>chat_groups := ?rc\<rparr>" and rest: "refresh_tokens d' = refresh_tokens (DeleteUserByID u d1)"
      "email_codes d' = email_codes (DeleteUserByID u d1)" "user_identities d' = user_identities (DeleteUserByID u d1)"
    by (simp_all add: d1(4) recount_all_eq) (simp add: DeleteUserByID_def)
  have "groups_inv (ad_db d')"
    unfolding ad
  proof (rule groups_inv_after [OF d1(1)])
    fix m assume "m \<in> set (member_table (ad_db d1))" "mt_member_id m = u"
    with d1(3) obtain m0 where "m0 \<in> set (member_table (ad_db d))" "mt_group_id m = mt_group_id m0" "mt_member_id m0 = u"
      unfolding others_stay_def by metis
    then show "mt_group_id m \<in> set (GroupsOfUser u d)" by (auto simp: GroupsOfUser_def)
  qed
  moreover have "friends_inv (ad_db d')"
  proof -
    have "friends_inv (ad_db d1)" using assms(3) d1(2) friends_inv_frame [of "ad_db d1" "ad_db d"] by (simp add: same_people_def)
    then have "friends_inv ?c" by (rule friends_inv_cascade)
    then show ?thesis unfolding ad by (subst friends_inv_frame [of _ ?c]) simp_all
  qed
  moreover have "auth_inv d'"
  proof -
    have "auth_inv (DeleteUserByID u d1)" by (rule auth_inv_delete [OF assms(4) d1(2)])
    moreover have "users (ad_db d') = users (ad_db (DeleteUserByID u d1))" by (simp add: ad DeleteUserByID_def)
    ultimately show ?thesis using rest by (simp add: auth_inv_defs user_exists_def)
  qed
  ultimately show ?thesis by blast
qed

text \<open>Ann deletes her account and bob leads \<open>devs\<close>.\<close>

definition devs_tables :: auth_db where
  "devs_tables = \<lparr>ad_db = gy_db devs_sys, refresh_tokens = [\<lparr>rt_token = ''#t'', rt_created_at = 1, rt_updated_at = 1,
       rt_user_id = 1, rt_expire_at = 9, rt_revoked_at = None\<rparr>], email_codes = [], user_identities = []\<rparr>"

definition calm_env :: "time \<Rightarrow> auth_env" where
  "calm_env t = \<lparr>ae_fails = (\<lambda>_. False), ae_now = t, ae_dbnow = t, ae_newid = 9, ae_code = Some 123456,
     ae_refresh = Some ''fresh'', ae_srv = 0\<rparr>"

lemma calm_env_simps [simp]:
  "ae_fails (calm_env t) k = False" "ae_now (calm_env t) = t" "ae_dbnow (calm_env t) = t" "ae_newid (calm_env t) = 9"
  "ae_code (calm_env t) = Some 123456" "ae_refresh (calm_env t) = Some ''fresh''" "ae_srv (calm_env t) = 0"
  by (simp_all add: calm_env_def)

lemma ann_deleted: "\<exists>d'. DeleteUser (calm_env 5) 1 devs_tables = Some (([], [7]), d')"
  by (simp add: DeleteUser_def GroupsLedBy_def FriendIDsOf_def GroupsOfUser_def devs_tables_def devs_sys_def devs_def
      empty_db_def hand_over_def LockGroup_def find_group_def EarliestOtherMember_def NextAdmin_def members_of_def)

lemma devs_tables_ok: "groups_inv (ad_db devs_tables)" "friends_inv (ad_db devs_tables)" "auth_inv devs_tables"
proof -
  show "groups_inv (ad_db devs_tables)" using devs_inv by (simp add: devs_tables_def)
  show "friends_inv (ad_db devs_tables)"
    by (simp add: devs_tables_def devs_sys_def empty_db_def friends_inv_def rels_ok_def blocks_ok_def
        no_blocked_rel_def key_ok_def rel_between_def exists_row_def)
  show "auth_inv devs_tables"
    by (simp add: auth_inv_defs devs_tables_def devs_sys_def empty_db_def key_ok_def new_user_def username_format_def
        username_char_def user_exists_def)
qed

theorem account_deletion_keeps_invariants_witness:
  "\<exists>d'. DeleteUser (calm_env 5) 1 devs_tables = Some (([], [7]), d') \<and> groups_inv (ad_db d') \<and> friends_inv (ad_db d') \<and> auth_inv d'"
proof -
  obtain d' where d': "DeleteUser (calm_env 5) 1 devs_tables = Some (([], [7]), d')" using ann_deleted by blast
  from account_deletion_keeps_invariants [OF this devs_tables_ok] d' show ?thesis by blast
qed

text \<open>Where a user still shows in the tables.\<close>

definition mentions :: "uuid \<Rightarrow> auth_db \<Rightarrow> bool" where
  "mentions u d \<longleftrightarrow> user_exists u (ad_db d) \<or>
     exists_row (\<lambda>r. rt_user_id r = u) (refresh_tokens d) \<or> exists_row (\<lambda>c. ec_user_id c = u) (email_codes d) \<or>
     exists_row (\<lambda>i. ui_user_id i = u) (user_identities d) \<or>
     exists_row (\<lambda>r. ur_user_id r = u \<or> ur_otherUser_id r = u) (user_relationships (ad_db d)) \<or>
     exists_row (\<lambda>b. ub_blocker_id b = u \<or> ub_blocked_id b = u) (user_blocks (ad_db d)) \<or>
     exists_row (\<lambda>m. mt_member_id m = u) (member_table (ad_db d)) \<or>
     exists_row (\<lambda>m. m_from_id m = Some u \<or> m_to_id m = Some u) (message (ad_db d)) \<or>
     exists_row (\<lambda>m. gm_from_id m = Some u) (groupmessage (ad_db d)) \<or>
     exists_row (\<lambda>r. re_user_id r = u) (message_reactions (ad_db d)) \<or>
     exists_row (\<lambda>r. re_user_id r = u) (group_message_reactions (ad_db d)) \<or>
     exists_row (\<lambda>r. grd_user_id r = u) (group_reads (ad_db d)) \<or> exists_row (\<lambda>r. sm_seen_id r = u) (seen_messages (ad_db d)) \<or>
     exists_row (\<lambda>c. cl_caller_id c = Some u \<or> cl_callee_id c = Some u) (calls_table (ad_db d))"

lemma hand_over_private:
  "hand_over u gid d = Some d' \<Longrightarrow> message (ad_db d') = message (ad_db d)"
  by (auto simp: hand_over_def DeleteGroup_def PromoteToLeader_def Let_def split: sum.splits dberr.splits)

lemma hand_over_all_private:
  "hand_over_all u gs d = Some d' \<Longrightarrow> message (ad_db d') = message (ad_db d)"
  by (induction gs arbitrary: d) (auto split: option.splits dest: hand_over_private)

text \<open>A configuration to try things on, with a hash for each text.\<close>

definition toy_conf :: auth_conf where
  "toy_conf = \<lparr>ac_accessTTL = DefaultAccessTTL, ac_refreshTTL = DefaultRefreshTTL, ac_hashToken = (\<lambda>t. CHR ''#'' # t),
     ac_hmac = (\<lambda>t. CHR ''!'' # t), ac_hashPw = (\<lambda>t. CHR ''$'' # t), ac_checkPw = (\<lambda>p h. h = CHR ''$'' # p),
     ac_google = None, ac_signup = (\<lambda>sub m t. []), ac_readSignup = (\<lambda>_ _. None), ac_isAddress = (\<lambda>_. True),
     ac_lower = (\<lambda>x. x)\<rparr>"

lemma toy_conf_simps [simp]:
  "ac_hashToken toy_conf t = CHR ''#'' # t" "ac_hmac toy_conf t = CHR ''!'' # t" "ac_hashPw toy_conf t = CHR ''$'' # t"
  "ac_checkPw toy_conf p h \<longleftrightarrow> h = CHR ''$'' # p" "ac_google toy_conf = None" "ac_lower toy_conf x = x"
  "ac_isAddress toy_conf x" "ac_accessTTL toy_conf = DefaultAccessTTL" "ac_refreshTTL toy_conf = DefaultRefreshTTL"
  by (simp_all add: toy_conf_def)

lemma reauth_keeps: "reauth e c u p g s = (Inr x, s', es) \<Longrightarrow> s' = s \<and> es = []"
  by (auto simp: reauth_def thenDo_Inr GetUserByID_def try_db_def broken_def split: if_splits option.splits sum.splits)

lemma DeleteAccount_Inr:
  assumes "DeleteAccount e c u p g s = (Inr (), s', es)"
  obtains friends groups where "DeleteUser e u (as_db s) = Some ((friends, groups), as_db s')"
    "es = [InvalidateFriends (u # friends)] @ (if groups = [] then [] else [InvalidateGroups groups]) @ [ForgetName u, Disconnect u]"
proof -
  obtain s1 es1 es2 where r: "reauth e c u p g s = (Inr (), s1, es1)" and es: "es = es1 @ es2"
    and d: "(case DeleteUser e u (as_db s1) of None \<Rightarrow> broken s1
       | Some ((friends, groups), d) \<Rightarrow> AccountDeleted e c u friends groups (s1\<lparr>as_db := d\<rparr>)) = (Inr (), s', es2)"
    using assms unfolding DeleteAccount_def thenDo_Inr by auto
  obtain fs gs d1 where d1: "DeleteUser e u (as_db s1) = Some ((fs, gs), d1)"
    "AccountDeleted e c u fs gs (s1\<lparr>as_db := d1\<rparr>) = (Inr (), s', es2)"
    using d by (auto simp: broken_def split: option.splits)
  have "as_db s' = d1" using d1(2) by (auto simp: AccountDeleted_def redis_revoke_def Let_def split: prod.splits if_splits)
  moreover have "es2 = [InvalidateFriends (u # fs)] @ (if gs = [] then [] else [InvalidateGroups gs]) @ [ForgetName u, Disconnect u]"
    using d1(2) by (auto simp: AccountDeleted_def Let_def)
  ultimately show ?thesis using that [of fs gs] reauth_keeps [OF r] es d1(1) by simp
qed

lemma DeleteUser_gone: "DeleteUser e u d = Some (r, d') \<Longrightarrow> \<not> mentions u d'"
  by (auto simp: DeleteUser_def recount_all_eq mentions_def DeleteUserByID_def cascade_user_def null_if_def
      user_exists_def exists_row_def split: if_splits option.splits)

lemma DeleteUser_contents:
  assumes "DeleteUser e u d = Some (r, d')"
  shows "map m_content (message (ad_db d')) = map m_content (message (ad_db d))"
proof -
  obtain d1 where d1: "hand_over_all u (GroupsLedBy u d) d = Some d1"
    "d' = recount_all (ae_dbnow e) (GroupsOfUser u d) (DeleteUserByID u d1)"
    using assms by (auto simp: DeleteUser_def split: if_splits option.splits)
  show ?thesis by (simp add: d1(2) recount_all_eq DeleteUserByID_def cascade_user_def comp_def hand_over_all_private [OF d1(1)])
qed

lemma DeleteUser_tells:
  assumes "DeleteUser e u d = Some ((friends, groups), d')"
  shows "set friends = {v. exists_row (pair_is u v) (user_relationships (ad_db d))}"
    and "set groups = {g. exists_row (is_member_row g u) (member_table (ad_db d))}"
proof -
  have d1: "friends = FriendIDsOf u d" "groups = GroupsOfUser u d"
    using assms by (auto simp: DeleteUser_def split: if_splits option.splits)
  show "set friends = {v. exists_row (pair_is u v) (user_relationships (ad_db d))}"
    by (auto simp: d1(1) FriendIDsOf_def exists_row_def pair_is_cases)
  show "set groups = {g. exists_row (is_member_row g u) (member_table (ad_db d))}"
    by (auto simp: d1(2) GroupsOfUser_def exists_row_def is_member_row_def)
qed

text \<open>
  C33: when \<^verbatim>\<open>DeleteAccount\<close> succeeds, no account, refresh token, mailed code, sign-in identity,
  friendship, request, block, membership, message, reaction, read marker or call refers to the account
  any more; the private messages keep their texts; the cached friend lists of the user and of exactly
  the people who had a row with the user are invalidated, as is the cache of exactly the groups the user
  was in; the cached name is forgotten and the connections are cut. Not among those tables are the log of
  the administrators and the copies of reported messages, which keep the id on purpose.
\<close>

theorem deleted_account_leaves_no_trace:
  assumes "DeleteAccount e c u password token s = (Inr (), s', es)"
  shows "\<not> mentions u (as_db s') \<and>
    map m_content (message (ad_db (as_db s'))) = map m_content (message (ad_db (as_db s))) \<and>
    (\<exists>friends groups. es = [InvalidateFriends (u # friends)] @
        (if groups = [] then [] else [InvalidateGroups groups]) @ [ForgetName u, Disconnect u] \<and>
      set friends = {v. exists_row (pair_is u v) (user_relationships (ad_db (as_db s)))} \<and>
      set groups = {g. exists_row (is_member_row g u) (member_table (ad_db (as_db s)))})"
proof -
  obtain friends groups where d: "DeleteUser e u (as_db s) = Some ((friends, groups), as_db s')"
    and es: "es = [InvalidateFriends (u # friends)] @ (if groups = [] then [] else [InvalidateGroups groups]) @ [ForgetName u, Disconnect u]"
    using DeleteAccount_Inr [OF assms] .
  show ?thesis using DeleteUser_gone [OF d] DeleteUser_contents [OF d] DeleteUser_tells [OF d] es by blast
qed

text \<open>Ann has a password, friends nobody and is in \<open>devs\<close>.\<close>

definition ann_leaving :: auth_sys where
  "ann_leaving = \<lparr>as_db = devs_tables\<lparr>ad_db := (ad_db devs_tables)\<lparr>users :=
     [(new_user 1 ''ann'')\<lparr>u_password := Some ''$ham&eggs''\<rparr>, new_user 2 ''bob'', new_user 3 ''cat'']\<rparr>\<rparr>, as_rev = no_revocations\<rparr>"

theorem deleted_account_leaves_no_trace_witness:
  "\<exists>s'. DeleteAccount (calm_env 5) toy_conf 1 ''ham&eggs'' [] ann_leaving =
      (Inr (), s', [InvalidateFriends [1], InvalidateGroups [7], ForgetName 1, Disconnect 1]) \<and> \<not> mentions 1 (as_db s')"
proof -
  have "\<exists>s'. DeleteAccount (calm_env 5) toy_conf 1 ''ham&eggs'' [] ann_leaving =
      (Inr (), s', [InvalidateFriends [1], InvalidateGroups [7], ForgetName 1, Disconnect 1])"
    by (simp add: DeleteAccount_def reauth_def thenDo_def GetUserByID_def ask_db_def GetUserInfoByID_def one_row_def find_user_def
        ann_leaving_def devs_tables_def devs_sys_def devs_def empty_db_def new_user_def hash_of_def CheckPassword_def
        text_ok_def give_def DeleteUser_def GroupsLedBy_def FriendIDsOf_def GroupsOfUser_def hand_over_def LockGroup_def find_group_def
        EarliestOtherMember_def NextAdmin_def members_of_def AccountDeleted_def)
  then obtain s' where "DeleteAccount (calm_env 5) toy_conf 1 ''ham&eggs'' [] ann_leaving =
      (Inr (), s', [InvalidateFriends [1], InvalidateGroups [7], ForgetName 1, Disconnect 1])" by blast
  from deleted_account_leaves_no_trace [OF this] this show ?thesis by blast
qed

end
