(* ===== verification/Auth_Runs.thy ===== *)
theory Auth_Runs
  imports Account_Deletion
begin

text \<open>
  Runs of account operations. The locale \<open>account_steps\<close> lifts a relation between states that every
  statement respects to every operation and every run; the invariant of the tables and refresh tokens
  stay dead are two instances.
\<close>

section \<open>Operations and runs\<close>

datatype auth_request =
    DoLogin string string | DoRefresh string | DoRevokeToken string
  | DoUpdatePassword uuid string string | DoLogoutAll uuid
  | DoRegister string string string | DoResendVerification string | DoVerifyEmail string string
  | DoRequestPasswordReset string | DoResetPassword string string string
  | DoGoogle string | DoCompleteGoogleSignup string string
  | DoDeleteAccount uuid string string
  | DoStartEmailChange uuid string string string | DoConfirmEmailChange uuid string
  | DoAdminStart string string | DoAdminVerify string string

text \<open>What a request gives: the access token of a session or of the admin page, if any.\<close>

definition gives :: "('a \<Rightarrow> jwt_claims option) \<Rightarrow> 'a auth_op \<Rightarrow> jwt_claims option auth_op" where
  "gives f m s = (case m s of (Inl err, s', es) \<Rightarrow> (Inl err, s', es) | (Inr a, s', es) \<Rightarrow> (Inr (f a), s', es))"

definition claims_of :: "Session \<Rightarrow> jwt_claims option" where
  "claims_of x = Some (se_AccessToken x)"

definition google_claims :: "GoogleResult \<Rightarrow> jwt_claims option" where
  "google_claims x = (case x of GSession y \<Rightarrow> claims_of y | SignupToken _ \<Rightarrow> None)"

fun auth_exec :: "auth_conf \<Rightarrow> auth_env \<Rightarrow> auth_request \<Rightarrow> jwt_claims option auth_op" where
  "auth_exec c e (DoLogin m p) = gives (\<lambda>(a, _, _). Some a) (Login e c m p)"
| "auth_exec c e (DoRefresh t) = gives (\<lambda>(a, _). Some a) (Refresh e c t)"
| "auth_exec c e (DoRevokeToken t) = gives (\<lambda>_. None) (Revoke e c t)"
| "auth_exec c e (DoUpdatePassword u old new) = gives (\<lambda>_. None) (UpdatePassword e c u old new)"
| "auth_exec c e (DoLogoutAll u) = gives (\<lambda>_. None) (LogoutAll e c u)"
| "auth_exec c e (DoRegister n m p) = gives (\<lambda>_. None) (Register e c n m p)"
| "auth_exec c e (DoResendVerification m) = gives (\<lambda>_. None) (ResendVerification e c m)"
| "auth_exec c e (DoVerifyEmail m t) = gives claims_of (VerifyEmail e c m t)"
| "auth_exec c e (DoRequestPasswordReset m) = gives (\<lambda>_. None) (RequestPasswordReset e c m)"
| "auth_exec c e (DoResetPassword m t p) = gives (\<lambda>_. None) (ResetPassword e c m t p)"
| "auth_exec c e (DoGoogle t) = gives google_claims (Google e c t)"
| "auth_exec c e (DoCompleteGoogleSignup t n) = gives claims_of (CompleteGoogleSignup e c t n)"
| "auth_exec c e (DoDeleteAccount u p g) = gives (\<lambda>_. None) (DeleteAccount e c u p g)"
| "auth_exec c e (DoStartEmailChange u m p g) = gives (\<lambda>_. None) (StartEmailChange e c u m p g)"
| "auth_exec c e (DoConfirmEmailChange u t) = gives claims_of (ConfirmEmailChange e c u t)"
| "auth_exec c e (DoAdminStart m p) = gives (\<lambda>_. None) (AdminStart e c m p)"
| "auth_exec c e (DoAdminVerify m t) = gives Some (AdminVerify e c m t)"

fun auth_run :: "auth_conf \<Rightarrow> (auth_env \<times> auth_request) list \<Rightarrow> auth_sys \<Rightarrow> auth_sys" where
  "auth_run c [] s = s"
| "auth_run c ((e, x) # xs) s = auth_run c xs (fst (snd (auth_exec c e x s)))"

section \<open>From statements to operations\<close>

lemma faulty_Inr [simp]: "faulty b r = Inr x \<longleftrightarrow> \<not> b \<and> r = Inr x"
  by (simp add: faulty_def)

lemma moves_gives: "moves R m \<Longrightarrow> moves R (gives f m)"
  by (auto simp: moves_def gives_def split: prod.splits sum.splits) (metis fst_conv snd_conv)+

lemma moves_if: "moves R m \<Longrightarrow> moves R m' \<Longrightarrow> moves R (if b then m else m')"
  by simp

lemma AccountDeleted_db [simp]: "as_db (fst (snd (AccountDeleted e c u fs gs s))) = as_db s"
  by (auto simp: AccountDeleted_def redis_revoke_def Let_def split: prod.splits if_splits)

locale account_steps = state_relation R for R :: "auth_sys \<Rightarrow> auth_sys \<Rightarrow> bool" +
  fixes ok :: "auth_env \<Rightarrow> bool" and c :: auth_conf
  assumes step_touch: "R s (s\<lparr>as_db := TouchLastSeen t u (as_db s)\<rparr>)"
    and step_verify: "R s (s\<lparr>as_db := MarkEmailVerified t u (as_db s)\<rparr>)"
    and step_hash: "R s (s\<lparr>as_db := SetPasswordHash t u h (as_db s)\<rparr>)"
    and step_password: "R s (s\<lparr>as_db := UpdatePassword_sql t u k (as_db s)\<rparr>)"
    and step_revoke: "R s (s\<lparr>as_db := RevokeRefreshToken t k (as_db s)\<rparr>)"
    and step_revoke_all: "R s (s\<lparr>as_db := RevokeAllUserRefreshTokens t u (as_db s)\<rparr>)"
    and step_redis: "RevokeAll flt ttl srv t u (as_rev s) = (True, r) \<Longrightarrow> R s (s\<lparr>as_rev := r\<rparr>)"
    and step_token: "ok e \<Longrightarrow> ae_refresh e = Some tok \<Longrightarrow>
      CreateARefreshToken t (ac_hashToken c tok) u x (as_db s) = Inr d \<Longrightarrow> R s (s\<lparr>as_db := d\<rparr>)"
    and step_code: "purpose \<in> set AllPurposes \<Longrightarrow>
      UpsertEmailCode u purpose k (pgTime (t + codeTTL)) (pgTime t) (as_db s) = Inr d \<Longrightarrow> R s (s\<lparr>as_db := d\<rparr>)"
    and step_change_code: "x = t \<or> x = t + codeTTL \<Longrightarrow>
      UpsertEmailChangeCode u k mail (pgTime x) (pgTime t) (as_db s) = Inr d \<Longrightarrow> R s (s\<lparr>as_db := d\<rparr>)"
    and step_drop_code: "R s (s\<lparr>as_db := DeleteEmailCode u purpose (as_db s)\<rparr>)"
    and step_guess: "R s (s\<lparr>as_db := count_guess e u purpose (as_db s)\<rparr>)"
    and step_user: "CreateUser t i n mail h n (as_db s) = Inr (v, d) \<Longrightarrow> R s (s\<lparr>as_db := d\<rparr>)"
    and step_google_user: "CreateUserVerifiedNoPassword t i n mail n (as_db s) = Inr (v, d) \<Longrightarrow> R s (s\<lparr>as_db := d\<rparr>)"
    and step_link: "CreateIdentity t google sub u mail (as_db s) = Inr d \<Longrightarrow> R s (s\<lparr>as_db := d\<rparr>)"
    and step_mail: "ChangeEmail_sql t mail u (as_db s) = Inr d \<Longrightarrow> R s (s\<lparr>as_db := d\<rparr>)"
    and step_delete: "DeleteUser e u (as_db s) = Some (r', d) \<Longrightarrow> R s (s\<lparr>as_db := d\<rparr>)"
begin

lemma moves_MarkVerified: "moves R (MarkVerified e u)"
  unfolding MarkVerified_def by (rule moves_exec_db) (auto intro: step_verify)

lemma moves_SetPassword: "moves R (SetPassword e u h)"
  unfolding SetPassword_def by (rule moves_exec_db) (auto intro: step_hash)

lemma moves_Revoke: "moves R (Revoke e c t)"
  unfolding Revoke_def by (rule moves_exec_db) (auto intro: step_revoke)

lemma moves_redis_revoke: "moves R (redis_revoke e c u)"
  by (auto simp: moves_def redis_revoke_def refl split: prod.split intro: step_redis)

lemma moves_RevokeAll: "moves R (RevokeAllRefreshTokens e c u)"
  unfolding RevokeAllRefreshTokens_def
  by (intro moves_basic moves_if moves_redis_revoke moves_exec_db) (auto intro: step_revoke_all)

lemma moves_CreateRefreshToken: "ok e \<Longrightarrow> ae_refresh e = Some tok \<Longrightarrow> moves R (CreateRefreshToken e c tok u x)"
  unfolding CreateRefreshToken_def by (rule moves_exec_db) (rule step_token)

lemma moves_touch: "moves R (exec_db flt (\<lambda>d. Inr (TouchLastSeen t u d)))"
  by (rule moves_exec_db) (auto intro: step_touch)

lemma moves_issue: "ok e \<Longrightarrow> moves R (issue e c now u)"
  unfolding issue_def
  by (intro moves_basic moves_if moves_touch
      | clarsimp split: prod.split option.split | (intro conjI allI impI) | rule moves_CreateRefreshToken)+

lemma moves_PutCode: "purpose \<in> set AllPurposes \<Longrightarrow> moves R (PutCode e u purpose hash t (t + codeTTL))"
  unfolding PutCode_def by (rule moves_exec_db) (rule step_code)

lemma moves_PutEmailChange: "x = t \<or> x = t + codeTTL \<Longrightarrow> moves R (PutEmailChange e u hash mail t x)"
  unfolding PutEmailChange_def by (rule moves_exec_db) (rule step_change_code)

lemma moves_DeleteCode: "moves R (DeleteCode e u purpose)"
  unfolding DeleteCode_def by (rule moves_exec_db) (auto intro: step_drop_code)

lemma moves_send_mail: "moves R (send_mail e m)"
  unfolding send_mail_def by (intro moves_basic moves_if)

lemma moves_sendCode: "purpose \<in> set AllPurposes \<Longrightarrow> moves R (sendCode e c u purpose)"
  unfolding sendCode_def
  by (intro moves_basic moves_if) (auto split: option.split intro!: moves_basic moves_PutCode moves_send_mail)

lemma moves_guess: "moves R (exec_db flt (\<lambda>d. Inr (count_guess e u purpose d)))"
  by (rule moves_exec_db) (auto intro: step_guess)

lemma moves_checkCodeFor: "moves R (checkCodeFor e c u purpose t)"
  unfolding checkCodeFor_def
  by (intro moves_basic) (auto split: option.split intro!: moves_basic moves_DeleteCode moves_guess)

lemma moves_checkCode: "moves R (checkCode e c u purpose t)"
  unfolding checkCode_def by (intro moves_basic moves_checkCodeFor)

lemma moves_session_at: "ok e \<Longrightarrow> moves R (session_at e c now u)"
  unfolding session_at_def by (intro moves_basic moves_issue) (auto intro: moves_basic)

lemma moves_Login: "ok e \<Longrightarrow> moves R (Login e c m p)"
  unfolding Login_def
  by (intro moves_basic) (auto split: sum.split fail.split option.split intro!: moves_basic moves_issue)

lemma moves_Refresh: "ok e \<Longrightarrow> moves R (Refresh e c t)"
  unfolding Refresh_def Refresh_check_def Refresh_rotate_def
  by (intro moves_basic moves_Revoke moves_issue) (auto intro: moves_basic)

lemma moves_HashPassword: "moves R (HashPassword e c p)"
  by (simp add: HashPassword_def moves_basic)

lemma moves_password: "moves R (exec_db flt (\<lambda>d. Inr (UpdatePassword_sql t u h d)))"
  by (rule moves_exec_db) (auto intro: step_password)

lemma moves_UpdatePassword: "moves R (UpdatePassword e c u old new)"
  unfolding UpdatePassword_def
  by (intro moves_basic moves_if) (auto split: option.split intro!: moves_basic moves_HashPassword moves_password moves_RevokeAll)

lemma moves_CreateUser: "moves R (repo_CreateUser e n m h)"
  unfolding repo_CreateUser_def by (rule moves_alter_db) (rule step_user)

lemma moves_users_Register: "moves R (users_Register e c n m p)"
  unfolding users_Register_def Let_def by (intro moves_if moves_basic moves_HashPassword moves_CreateUser)

lemma moves_Register: "moves R (Register e c n m p)"
  unfolding Register_def
  by (rule moves_inspect [OF moves_users_Register]) (auto split: sum.split intro!: moves_basic moves_sendCode moves_send_mail)

lemma moves_ResendVerification: "moves R (ResendVerification e c m)"
  unfolding ResendVerification_def by (intro moves_basic moves_if moves_sendCode) simp

lemma moves_VerifyEmail: "ok e \<Longrightarrow> moves R (VerifyEmail e c m t)"
  unfolding VerifyEmail_def by (intro moves_basic moves_checkCode moves_MarkVerified moves_session_at)

lemma moves_RequestPasswordReset: "moves R (RequestPasswordReset e c m)"
  unfolding RequestPasswordReset_def by (intro moves_basic moves_sendCode) simp

lemma moves_ResetPassword: "moves R (ResetPassword e c m t p)"
  unfolding ResetPassword_def
  by (intro moves_if moves_basic moves_checkCode moves_HashPassword moves_SetPassword moves_MarkVerified moves_RevokeAll)

lemma moves_take_over: "moves R (take_over e c u)"
  unfolding take_over_def by (intro moves_if moves_basic moves_SetPassword moves_RevokeAll moves_MarkVerified)

lemma moves_LinkIdentity: "moves R (LinkIdentity e sub u m)"
  unfolding LinkIdentity_def by (rule moves_exec_db) (rule step_link)

lemma moves_Google: "ok e \<Longrightarrow> moves R (Google e c t)"
  unfolding Google_def Let_def
  by (auto split: option.split sum.split fail.split intro!: moves_basic moves_session_at moves_take_over moves_LinkIdentity)

lemma moves_CreateGoogleUser: "moves R (CreateGoogleUser e n m sub)"
  unfolding CreateGoogleUser_def
proof (rule moves_alter_db, clarsimp)
  fix s :: auth_sys and v d d1
  assume a: "CreateUserVerifiedNoPassword (ae_dbnow e) (ae_newid e) n m n (as_db s) = Inr (v, d1)"
    "CreateIdentity (ae_dbnow e) google sub (u_id v) m d1 = Inr d"
  have "R (s\<lparr>as_db := d1\<rparr>) (s\<lparr>as_db := d1, as_db := d\<rparr>)" by (rule step_link) (use a(2) in simp)
  with step_google_user [OF a(1)] show "R s (s\<lparr>as_db := d\<rparr>)" using trans by simp
qed

lemma moves_CompleteGoogleSignup: "ok e \<Longrightarrow> moves R (CompleteGoogleSignup e c t n)"
  unfolding CompleteGoogleSignup_def Let_def
  by (auto split: option.split sum.split intro!: moves_basic moves_CreateGoogleUser moves_session_at)

lemma moves_reauth: "moves R (reauth e c u p g)"
  unfolding reauth_def by (auto split: option.split intro!: moves_basic)

lemma moves_AccountDeleted: "R s (fst (snd (AccountDeleted e c u fs gs s)))"
  using moves_redis_revoke [of e u] by (auto simp: AccountDeleted_def moves_def Let_def split: prod.splits) (metis fst_conv snd_conv)

lemma moves_DeleteAccount: "moves R (DeleteAccount e c u p g)"
  unfolding DeleteAccount_def
  by (rule moves_thenDo [OF moves_reauth])
    (auto simp: moves_def broken_def refl split: option.split intro: trans [OF step_delete moves_AccountDeleted])

lemma moves_StartEmailChange: "moves R (StartEmailChange e c u m p g)"
  unfolding StartEmailChange_def Let_def
  by (auto split: option.split sum.split fail.split
      intro!: moves_basic moves_if moves_reauth moves_PutEmailChange moves_send_mail)

lemma moves_ChangeEmail: "moves R (ChangeEmail e u m)"
  unfolding ChangeEmail_def by (rule moves_alter_db) (auto intro: step_mail)

lemma moves_ConfirmEmailChange: "ok e \<Longrightarrow> moves R (ConfirmEmailChange e c u t)"
  unfolding ConfirmEmailChange_def
  by (intro moves_basic moves_if moves_checkCodeFor moves_ChangeEmail moves_RevokeAll moves_session_at)

lemma moves_AdminStart: "moves R (AdminStart e c m p)"
  unfolding AdminStart_def by (auto intro!: moves_basic moves_sendCode)

lemma moves_AdminVerify: "moves R (AdminVerify e c m t)"
  unfolding AdminVerify_def
  by (auto split: sum.split intro!: moves_basic moves_if moves_checkCode)

lemmas moves_operations = moves_Login moves_Refresh moves_Revoke moves_UpdatePassword moves_RevokeAll moves_Register
  moves_ResendVerification moves_VerifyEmail moves_RequestPasswordReset moves_ResetPassword moves_Google
  moves_CompleteGoogleSignup moves_DeleteAccount moves_StartEmailChange moves_ConfirmEmailChange moves_AdminStart moves_AdminVerify

lemma moves_exec: "ok e \<Longrightarrow> moves R (auth_exec c e x)"
  by (cases x) (simp_all add: moves_gives moves_operations LogoutAll_def)

lemma run_moves: "(\<forall>y \<in> set xs. ok (fst y)) \<Longrightarrow> R s (auth_run c xs s)"
proof (induction xs arbitrary: s)
  case Nil
  then show ?case by (simp add: refl)
next
  case (Cons y xs)
  obtain e x where y: "y = (e, x)" by (cases y)
  have "R s (fst (snd (auth_exec c e x s)))" using Cons.prems moves_exec [of e x] by (simp add: y moves_def)
  moreover have "R (fst (snd (auth_exec c e x s))) (auth_run c xs (fst (snd (auth_exec c e x s))))"
    using Cons by simp
  ultimately show ?case by (simp add: y) (rule trans)
qed

end

section \<open>The invariant\<close>

definition keeps_inv :: "auth_sys \<Rightarrow> auth_sys \<Rightarrow> bool" where
  "keeps_inv s t \<longleftrightarrow> (auth_inv (as_db s) \<longrightarrow> auth_inv (as_db t))"

lemma auth_inv_recount: "auth_inv (recount_all now gs d) = auth_inv d"
  by (simp add: recount_all_eq auth_inv_defs user_exists_def)

lemma auth_inv_DeleteUser: "auth_inv d \<Longrightarrow> DeleteUser e u d = Some (r, d') \<Longrightarrow> auth_inv d'"
  by (auto simp: DeleteUser_def auth_inv_recount split: if_splits option.splits
      intro: auth_inv_delete [OF _ hand_over_all_same])

lemma auth_inv_user_statements:
  assumes "auth_inv d"
  shows "auth_inv (TouchLastSeen t u d)" "auth_inv (MarkEmailVerified t u d)" "auth_inv (SetPasswordHash t u h d)"
    "auth_inv (UpdatePassword_sql t u k d)"
  using assms by (simp_all add: TouchLastSeen_def MarkEmailVerified_def SetPasswordHash_def UpdatePassword_sql_def auth_inv_set_user)

lemma auth_inv_token_statements:
  assumes "auth_inv d"
  shows "auth_inv (RevokeRefreshToken t k d)" "auth_inv (RevokeAllUserRefreshTokens t u d)"
  using assms by (simp_all add: RevokeRefreshToken_def RevokeAllUserRefreshTokens_def auth_inv_revoke_rows)

lemma pgTime_same: "pgTime t \<le> pgTime t + codeTTL"
  by (simp add: codeTTL_def minute_def)

lemmas auth_inv_statements = auth_inv_user_statements auth_inv_token_statements auth_inv_CreateToken
  auth_inv_UpsertEmailCode auth_inv_UpsertEmailChangeCode auth_inv_DeleteCode auth_inv_count_guess
  auth_inv_CreateIdentity auth_inv_ChangeEmail auth_inv_DeleteUser

interpretation ki: account_steps keeps_inv "\<lambda>_. True" c for c
proof unfold_locales
qed (auto simp: keeps_inv_def CreateUser_def CreateUserVerifiedNoPassword_def pgTime_codeTTL pgTime_same
  intro: auth_inv_statements auth_inv_UpsertEmailChangeCode [OF _ _ pgTime_same] dest: auth_inv_insert_user)

text \<open>
  C2: whatever requests arrive, in whatever order, whichever calls of theirs fail half way and whatever
  the random source yields, the account tables stay sound: ids, addresses and usernames are unique and
  usernames well formed; tokens, codes and identities belong to accounts that exist and are unique; a
  code lives two minutes at most, and only a code for changing the address names an address.
\<close>

theorem accounts_safe:
  assumes "auth_inv (as_db s)"
  shows "auth_inv (as_db (auth_run c xs s))"
  using ki.run_moves [of xs s c] assms by (simp add: keeps_inv_def)

text \<open>Ann refreshes with a token that has expired, and then deletes her account.\<close>

definition devs_accounts :: auth_sys where
  "devs_accounts = \<lparr>as_db = devs_tables, as_rev = no_revocations\<rparr>"

theorem accounts_safe_witness:
  "auth_inv (as_db (auth_run toy_conf [(calm_env 10, DoRefresh ''t''), (calm_env 11, DoDeleteAccount 1 ''pw'' [])] devs_accounts))"
  by (rule accounts_safe) (simp add: devs_accounts_def devs_tables_ok)

end
