(* ===== verification/Auth_Sessions.thy ===== *)
theory Auth_Sessions
  imports Auth_Runs
begin

text \<open>
  What ends a session ends it for good: a refresh token that was rotated, revoked or belonged to a user
  whose sessions were ended is never accepted again.
\<close>

section \<open>A token is not revived\<close>

definition no_revival :: "string \<Rightarrow> auth_sys \<Rightarrow> auth_sys \<Rightarrow> bool" where
  "no_revival h s t \<longleftrightarrow> (\<forall>r' \<in> set (refresh_tokens (as_db t)). rt_token r' = h \<longrightarrow>
     (\<exists>r \<in> set (refresh_tokens (as_db s)). rt_token r = h \<and> rt_user_id r = rt_user_id r' \<and>
        (rt_revoked_at r' = None \<longrightarrow> rt_revoked_at r = None)))"

definition new_token :: "auth_conf \<Rightarrow> string \<Rightarrow> auth_env \<Rightarrow> bool" where
  "new_token c h e \<longleftrightarrow> (\<forall>tok. ae_refresh e = Some tok \<longrightarrow> ac_hashToken c tok \<noteq> h)"

lemma no_revival_same: "refresh_tokens (as_db t) = refresh_tokens (as_db s) \<Longrightarrow> no_revival h s t"
  by (auto simp: no_revival_def)

lemma no_revival_revoke: "no_revival h s (s\<lparr>as_db := revoke_rows now p (as_db s)\<rparr>)"
  by (auto simp: no_revival_def revoke_rows_def set_update_rows split: if_splits)

lemma put_code_tokens: "put_code x f d = Inr d' \<Longrightarrow> refresh_tokens d' = refresh_tokens d"
  by (auto simp: put_code_def split: if_splits)

lemma insert_user_tokens: "insert_user u d = Inr (v, d') \<Longrightarrow> refresh_tokens d' = refresh_tokens d"
  by (auto simp: insert_user_def set_users_def split: if_splits)

lemma count_guess_tokens [simp]: "refresh_tokens (count_guess e u purpose d) = refresh_tokens d"
  by (auto simp: count_guess_def faulty_def BumpEmailCodeAttempts_def DeleteEmailCode_def split: sum.splits option.splits if_splits)

lemma recount_tokens [simp]: "refresh_tokens (recount_all now gs d) = refresh_tokens d"
  by (simp add: recount_all_eq)

lemma DeleteUser_tokens:
  "DeleteUser e u d = Some (r, d') \<Longrightarrow> refresh_tokens d' = delete_rows (\<lambda>r. rt_user_id r = u) (refresh_tokens d)"
  by (auto simp: DeleteUser_def DeleteUserByID_def same_people_def split: if_splits option.splits dest!: hand_over_all_same)

lemma no_revival_token:
  "new_token c h e \<Longrightarrow> ae_refresh e = Some tok \<Longrightarrow> CreateARefreshToken t (ac_hashToken c tok) u x (as_db s) = Inr d \<Longrightarrow>
   no_revival h s (s\<lparr>as_db := d\<rparr>)"
  by (auto simp: no_revival_def new_token_def CreateARefreshToken_def split: if_splits)

lemma no_revival_trans: "no_revival h s t \<Longrightarrow> no_revival h t v \<Longrightarrow> no_revival h s v"
  unfolding no_revival_def by metis

interpretation nr: account_steps "no_revival h" "new_token c h" c for c h
proof unfold_locales
  show "no_revival h s t \<Longrightarrow> no_revival h t v \<Longrightarrow> no_revival h s v" for s t v by (rule no_revival_trans)
  show "new_token c h e \<Longrightarrow> ae_refresh e = Some tok \<Longrightarrow> CreateARefreshToken t (ac_hashToken c tok) u x (as_db s) = Inr d \<Longrightarrow>
    no_revival h s (s\<lparr>as_db := d\<rparr>)" for s e tok t u x d by (rule no_revival_token)
  show "DeleteUser e u (as_db s) = Some (r', d) \<Longrightarrow> no_revival h s (s\<lparr>as_db := d\<rparr>)" for s e u r' d
    by (auto simp: no_revival_def DeleteUser_tokens)
qed (auto simp: TouchLastSeen_def MarkEmailVerified_def SetPasswordHash_def UpdatePassword_sql_def RevokeRefreshToken_def
    RevokeAllUserRefreshTokens_def UpsertEmailCode_def UpsertEmailChangeCode_def DeleteEmailCode_def CreateUser_def
    CreateUserVerifiedNoPassword_def CreateIdentity_def ChangeEmail_sql_def
    intro!: no_revival_same no_revival_revoke dest: put_code_tokens insert_user_tokens split: if_splits)

section \<open>What a successful operation leaves\<close>

text \<open>Partial correctness: if the operation succeeds from a state in \<open>P\<close>, it ends in one in \<open>Q\<close>.\<close>

definition yields :: "(auth_sys \<Rightarrow> bool) \<Rightarrow> 'a auth_op \<Rightarrow> (auth_sys \<Rightarrow> bool) \<Rightarrow> bool" where
  "yields P m Q \<longleftrightarrow> (\<forall>s a s' es. P s \<longrightarrow> m s = (Inr a, s', es) \<longrightarrow> Q s')"

lemma yields_thenDo: "yields P m Q \<Longrightarrow> (\<And>a. yields Q (f a) R) \<Longrightarrow> yields P (thenDo m f) R"
  unfolding yields_def thenDo_Inr by blast

lemma yields_refuse: "yields P (refuse err) Q" and yields_broken: "yields P broken Q"
  and yields_pass_on: "yields P (pass_on x) Q"
  by (simp_all add: yields_def pass_on_def)

lemma yields_give: "yields P (give a) P" and yields_emit: "yields P (emit es) P"
  by (simp_all add: yields_def)

lemma yields_if: "yields P m Q \<Longrightarrow> yields P m' Q \<Longrightarrow> yields P (if b then m else m') Q"
  by simp

lemma yields_gives: "yields P m Q \<Longrightarrow> yields P (gives f m) Q"
  by (auto simp: yields_def gives_def split: prod.splits sum.splits)

lemmas yields_basic = yields_thenDo yields_refuse yields_broken yields_pass_on yields_if

definition owned :: "string \<Rightarrow> uuid \<Rightarrow> auth_sys \<Rightarrow> bool" where
  "owned h u s \<longleftrightarrow> (\<forall>r \<in> set (refresh_tokens (as_db s)). rt_token r = h \<longrightarrow> rt_user_id r = u)"

definition dead :: "string \<Rightarrow> auth_sys \<Rightarrow> bool" where
  "dead h s \<longleftrightarrow> (\<forall>r \<in> set (refresh_tokens (as_db s)). rt_token r = h \<longrightarrow> rt_revoked_at r \<noteq> None)"

lemma owned_stays: "no_revival h s t \<Longrightarrow> owned h u s \<Longrightarrow> owned h u t"
  unfolding no_revival_def owned_def by metis

lemma dead_stays: "no_revival h s t \<Longrightarrow> dead h s \<Longrightarrow> dead h t"
  unfolding no_revival_def dead_def by metis

lemma yields_owned: "moves (no_revival h) m \<Longrightarrow> yields (owned h u) m (owned h u)"
  unfolding yields_def moves_def by (metis fst_conv snd_conv owned_stays)

lemma yields_dead: "moves (no_revival h) m \<Longrightarrow> yields (dead h) m (dead h)"
  unfolding yields_def moves_def by (metis fst_conv snd_conv dead_stays)

lemma owned_thenDo: "moves (no_revival h) m \<Longrightarrow> (\<And>a. yields (owned h u) (f a) Q) \<Longrightarrow> yields (owned h u) (thenDo m f) Q"
  by (rule yields_thenDo [OF yields_owned])

lemma dead_thenDo: "yields P m (dead h) \<Longrightarrow> (\<And>a. moves (no_revival h) (f a)) \<Longrightarrow> yields P (thenDo m f) (dead h)"
  by (erule yields_thenDo) (rule yields_dead)

lemma yields_RevokeAll: "yields (owned h u) (RevokeAllRefreshTokens e c u) (dead h)"
  unfolding RevokeAllRefreshTokens_def
proof (rule yields_thenDo)
  show "yields (owned h u) (exec_db (ae_fails e ARevokeTokens) (\<lambda>d. Inr (RevokeAllUserRefreshTokens (ae_dbnow e) u d))) (dead h)"
    by (auto simp: yields_def owned_def dead_def RevokeAllUserRefreshTokens_def revoke_rows_def set_update_rows split: if_splits)
  show "yields (dead h) (thenDo (redis_revoke e c u) (\<lambda>_. thenDo (emit [Disconnect u]) (\<lambda>_.
      if ae_fails e AForgetDevices then broken else emit [ForgetDevices u]))) (dead h)"
    by (intro yields_dead nr.moves_basic moves_if nr.moves_redis_revoke)
qed

lemma yields_UpdatePassword: "yields (owned h u) (UpdatePassword e c u old new) (dead h)"
  unfolding UpdatePassword_def
  by (intro yields_if yields_refuse owned_thenDo nr.moves_GetUserByID)
    (auto split: option.split intro!: yields_refuse yields_broken nr.moves_give dead_thenDo [OF yields_RevokeAll]
      owned_thenDo [OF nr.moves_HashPassword] owned_thenDo [OF nr.moves_password] owned_thenDo [OF nr.moves_ask_db])

lemma yields_ConfirmEmailChange: "new_token c h e \<Longrightarrow> yields (owned h u) (ConfirmEmailChange e c u t) (dead h)"
  unfolding ConfirmEmailChange_def
  by (intro owned_thenDo yields_if yields_refuse dead_thenDo yields_RevokeAll nr.moves_thenDo nr.moves_emit
      nr.moves_session_at nr.moves_checkCodeFor nr.moves_GetUserByID nr.moves_ChangeEmail)

lemma yields_reset:
  "yields (owned h u) (thenDo (checkCode e c u purposeReset pin) (\<lambda>_. thenDo (HashPassword e c new) (\<lambda>k.
     thenDo (SetPassword e u k) (\<lambda>_. thenDo (MarkVerified e u) (\<lambda>_. RevokeAllRefreshTokens e c u))))) (dead h)"
  by (intro owned_thenDo yields_RevokeAll nr.moves_checkCode nr.moves_HashPassword nr.moves_SetPassword nr.moves_MarkVerified)

text \<open>The account an address names.\<close>

definition account_of :: "auth_conf \<Rightarrow> string \<Rightarrow> auth_sys \<Rightarrow> user option" where
  "account_of c m s = find_row (\<lambda>u. u_email u = normEmail c m) (users (ad_db (as_db s)))"

lemma GetUserByEmail_Inr:
  "GetUserByEmail e (normEmail c m) s = (Inr v, s', es) \<Longrightarrow> account_of c m s = Some v \<and> s' = s \<and> es = []"
  by (auto simp: GetUserByEmail_def GetUserInfoByEmail_def account_of_def one_row_def split: if_splits option.splits)

lemma GetUserByEmail_same: "GetUserByEmail e m s = (r, s', es) \<Longrightarrow> s' = s \<and> es = []"
  unfolding GetUserByEmail_def by (rule ask_db_same)

lemma by_email_refuse:
  assumes "by_email e c m (refuse err) found s = (Inr a, s', es)"
  obtains v where "account_of c m s = Some v" "found v s = (Inr a, s', es)"
proof -
  obtain r s1 es1 where g: "GetUserByEmail e (normEmail c m) s = (r, s1, es1)" by (metis prod_cases3)
  show ?thesis
  proof (cases r)
    case (Inl x)
    with assms g show ?thesis by (cases x) (auto simp: by_email_def inspect_def pass_on_def refuse_def)
  next
    case (Inr v)
    with g GetUserByEmail_Inr have "account_of c m s = Some v" "s1 = s" "es1 = []" by auto
    with assms g Inr show ?thesis by (intro that [of v]) (auto simp: by_email_def inspect_def split: prod.splits)
  qed
qed

section \<open>Ended tokens\<close>

definition token_of :: "string \<Rightarrow> uuid \<Rightarrow> auth_sys \<Rightarrow> bool" where
  "token_of h u s \<longleftrightarrow> exists_row (\<lambda>r. rt_token r = h \<and> rt_user_id r = u) (refresh_tokens (as_db s))"

text \<open>The refresh tokens, by their hash, that a request ends when it succeeds.\<close>

fun ends_token :: "auth_conf \<Rightarrow> auth_sys \<Rightarrow> auth_request \<Rightarrow> string \<Rightarrow> bool" where
  "ends_token c s (DoRefresh t) h \<longleftrightarrow> h = ac_hashToken c t"
| "ends_token c s (DoRevokeToken t) h \<longleftrightarrow> h = ac_hashToken c t"
| "ends_token c s (DoUpdatePassword u old new) h \<longleftrightarrow> token_of h u s"
| "ends_token c s (DoLogoutAll u) h \<longleftrightarrow> token_of h u s"
| "ends_token c s (DoConfirmEmailChange u t) h \<longleftrightarrow> token_of h u s"
| "ends_token c s (DoDeleteAccount u p g) h \<longleftrightarrow> token_of h u s"
| "ends_token c s (DoResetPassword m t p) h \<longleftrightarrow> (case account_of c m s of None \<Rightarrow> False | Some v \<Rightarrow> token_of h (u_id v) s)"
| "ends_token c s _ h \<longleftrightarrow> False"

lemma token_of_owned:
  assumes "auth_inv (as_db s)" "token_of h u s"
  shows "owned h u s"
proof -
  have "key_ok rt_token (refresh_tokens (as_db s))" using assms(1) by (simp add: auth_inv_defs)
  with assms(2) show ?thesis
    by (auto simp: token_of_def owned_def exists_row_def key_ok_def distinct_map inj_on_def)
qed

lemma Revoke_dead: "Revoke e c t s = (Inr a, s', es) \<Longrightarrow> dead (ac_hashToken c t) s'"
  by (auto simp: Revoke_def dead_def RevokeRefreshToken_def revoke_rows_def set_update_rows split: if_splits)

lemma Refresh_dead:
  assumes "new_token c (ac_hashToken c t) e" "Refresh e c t s = (Inr a, s', es)"
  shows "dead (ac_hashToken c t) s'"
proof -
  obtain u s1 es1 s2 es2 es3 where "Revoke e c t s1 = (Inr (), s2, es2)" and i: "issue e c (ae_now e) u s2 = (Inr a, s', es3)"
    using assms(2) by (auto simp: Refresh_def Refresh_rotate_def thenDo_Inr)
  from Revoke_dead [OF this(1)] have "dead (ac_hashToken c t) s2" .
  with i yields_dead [OF nr.moves_issue [OF assms(1)]] show ?thesis unfolding yields_def by blast
qed

lemma DeleteAccount_dead:
  assumes "DeleteAccount e c u p g s = (Inr a, s', es)" "owned h u s"
  shows "dead h s'"
proof -
  have d: "DeleteAccount e c u p g s = (Inr (), s', es)" using assms(1) by simp
  show ?thesis
    by (rule DeleteAccount_Inr [OF d]) (use DeleteUser_tokens assms(2) in \<open>auto simp: dead_def owned_def\<close>)
qed

lemma gives_Inr: "gives f m s = (Inr r, s', es) \<longleftrightarrow> (\<exists>a. m s = (Inr a, s', es) \<and> r = f a)"
  by (auto simp: gives_def split: prod.splits sum.splits)

lemma ended_dead:
  assumes "auth_inv (as_db s)" "auth_exec c e x s = (Inr r, s', es)" "ends_token c s x h" "new_token c h e"
  shows "dead h s'"
proof (cases x)
  case (DoRefresh t)
  with assms Refresh_dead show ?thesis by (auto simp: gives_Inr)
next
  case (DoRevokeToken t)
  with assms Revoke_dead show ?thesis by (auto simp: gives_Inr)
next
  case (DoUpdatePassword u old new)
  with assms token_of_owned yields_UpdatePassword show ?thesis by (fastforce simp: gives_Inr yields_def)
next
  case (DoLogoutAll u)
  with assms token_of_owned yields_RevokeAll show ?thesis by (fastforce simp: gives_Inr yields_def LogoutAll_def)
next
  case (DoConfirmEmailChange u t)
  with assms token_of_owned yields_ConfirmEmailChange [OF assms(4)] show ?thesis by (fastforce simp: gives_Inr yields_def)
next
  case (DoDeleteAccount u p g)
  with assms token_of_owned DeleteAccount_dead show ?thesis by (fastforce simp: gives_Inr)
next
  case (DoResetPassword m t p)
  with assms(3) obtain v where v: "account_of c m s = Some v" "token_of h (u_id v) s" by (auto split: option.splits)
  from assms(2) DoResetPassword obtain a where "ResetPassword e c m t p s = (Inr a, s', es)" by (auto simp: gives_Inr)
  then have "by_email e c m (refuse ErrInvalidCode) (\<lambda>u. thenDo (checkCode e c (u_id u) purposeReset t) (\<lambda>_.
      thenDo (HashPassword e c p) (\<lambda>h. thenDo (SetPassword e (u_id u) h) (\<lambda>_.
        thenDo (MarkVerified e (u_id u)) (\<lambda>_. RevokeAllRefreshTokens e c (u_id u)))))) s = (Inr a, s', es)"
    by (simp add: ResetPassword_def split: if_splits)
  from by_email_refuse [OF this] v(1) yields_reset [of h "u_id v"] token_of_owned [OF assms(1) v(2)] show ?thesis
    unfolding yields_def by (metis option.inject)
qed (use assms in simp_all)

lemma dead_refused: "dead (ac_hashToken c tok) s \<Longrightarrow> Refresh e c tok s =
   (Inl (if ae_fails e AGetToken then DbFail OtherDb else Sentinel ErrNotAuthorized), s, [])"
proof -
  assume "dead (ac_hashToken c tok) s"
  then have "find_row (\<lambda>r. rt_token r = ac_hashToken c tok \<and> rt_revoked_at r = None) (refresh_tokens (as_db s)) = None"
    by (auto simp: dead_def find_row_None exists_row_def)
  then show ?thesis
    by (simp add: Refresh_def Refresh_check_def thenDo_def ask_db_def faulty_def GetRefreshToken_def one_row_def)
qed

text \<open>
  C4: a refresh token that a request has ended is never accepted again, whatever requests follow and
  whatever fails in them: using it once (rotation), logging out, changing the password, ending all
  sessions, resetting the password, changing the address and deleting the account end it. Assumed:
  the random tokens drawn in between hash to something else.
\<close>

theorem ended_tokens_stay_dead:
  assumes "auth_inv (as_db s)" "auth_exec c e x s = (Inr r, s1, es)" "ends_token c s x (ac_hashToken c tok)"
    and "new_token c (ac_hashToken c tok) e" "\<forall>y \<in> set xs. new_token c (ac_hashToken c tok) (fst y)"
  shows "Refresh e' c tok (auth_run c xs s1) =
    (Inl (if ae_fails e' AGetToken then DbFail OtherDb else Sentinel ErrNotAuthorized), auth_run c xs s1, [])"
proof (rule dead_refused)
  have "dead (ac_hashToken c tok) s1" by (rule ended_dead [OF assms(1-4)])
  then show "dead (ac_hashToken c tok) (auth_run c xs s1)"
    by (rule dead_stays [OF nr.run_moves [OF assms(5)]])
qed

text \<open>Ann signs out everywhere; the token she had is of no use to whoever tries it later, twice.\<close>

theorem ended_tokens_stay_dead_witness:
  "\<exists>s1 es. auth_exec toy_conf (calm_env 5) (DoLogoutAll 1) devs_accounts = (Inr None, s1, es) \<and>
     Refresh (calm_env 9) toy_conf ''t'' (auth_run toy_conf [(calm_env 6, DoRefresh ''t'')] s1) =
       (Inl (Sentinel ErrNotAuthorized), auth_run toy_conf [(calm_env 6, DoRefresh ''t'')] s1, [])"
proof -
  have "\<exists>s1 es. auth_exec toy_conf (calm_env 5) (DoLogoutAll 1) devs_accounts = (Inr None, s1, es)"
    by (simp add: gives_def LogoutAll_def RevokeAllRefreshTokens_def thenDo_def exec_db_def redis_revoke_def RevokeAll_def
        emit_def Let_def split: prod.split)
  then obtain s1 es where s1: "auth_exec toy_conf (calm_env 5) (DoLogoutAll 1) devs_accounts = (Inr None, s1, es)" by blast
  have inv: "auth_inv (as_db devs_accounts)" by (simp add: devs_accounts_def devs_tables_ok)
  have tok: "ends_token toy_conf devs_accounts (DoLogoutAll 1) (ac_hashToken toy_conf ''t'')"
    by (simp add: token_of_def devs_accounts_def devs_tables_def)
  have new: "new_token toy_conf (ac_hashToken toy_conf ''t'') (calm_env t)" for t by (simp add: new_token_def)
  from ended_tokens_stay_dead [OF inv s1 tok new, of "[(calm_env 6, DoRefresh ''t'')]" "calm_env 9"] new s1
  show ?thesis by auto
qed

end
