(* ===== verification/Auth_Access.thy ===== *)
theory Auth_Access
  imports Auth_Sessions
begin

text \<open>
  Who gets in: what a session or an admin session takes, and that codes sent by mail stand up to guessing.
\<close>

section \<open>What counts as proof\<close>

definition has_code :: "auth_conf \<Rightarrow> auth_env \<Rightarrow> auth_sys \<Rightarrow> uuid \<Rightarrow> string \<Rightarrow> string \<Rightarrow> bool" where
  "has_code c e s u purpose pin \<longleftrightarrow> exists_row (\<lambda>x. code_for u purpose x \<and> ae_now e \<le> ec_expires_at x \<and>
     right_code c u purpose pin x) (email_codes (as_db s))"

definition google_vouches :: "auth_conf \<Rightarrow> string \<Rightarrow> GoogleClaims \<Rightarrow> bool" where
  "google_vouches c t g \<longleftrightarrow> (case ac_google c of None \<Rightarrow> False | Some verify \<Rightarrow> verify t = Some g) \<and> gc_EmailVerified g"

definition names_account :: "auth_conf \<Rightarrow> string \<Rightarrow> auth_sys \<Rightarrow> uuid \<Rightarrow> bool" where
  "names_account c m s u \<longleftrightarrow> map_option u_id (account_of c m s) = Some u"

fun proven :: "auth_conf \<Rightarrow> auth_env \<Rightarrow> auth_sys \<Rightarrow> auth_request \<Rightarrow> uuid \<Rightarrow> bool" where
  "proven c e s (DoLogin m p) u \<longleftrightarrow> exists_row (\<lambda>v. u_id v = u \<and> u_email v = m \<and> hash_of v \<noteq> [] \<and>
     ac_checkPw c p (hash_of v) \<and> Verified v) (users (ad_db (as_db s)))"
| "proven c e s (DoRefresh t) u \<longleftrightarrow> exists_row (\<lambda>r. rt_token r = ac_hashToken c t \<and> rt_user_id r = u \<and>
     rt_revoked_at r = None \<and> ae_now e \<le> rt_expire_at r) (refresh_tokens (as_db s))"
| "proven c e s (DoVerifyEmail m t) u \<longleftrightarrow> names_account c m s u \<and> has_code c e s u purposeVerify t"
| "proven c e s (DoGoogle t) u \<longleftrightarrow> (\<exists>g. google_vouches c t g \<and>
     (exists_row (\<lambda>i. ui_provider i = google \<and> ui_subject i = gc_Subject g \<and> ui_user_id i = u) (user_identities (as_db s)) \<or>
      names_account c (gc_Email g) s u))"
| "proven c e s (DoCompleteGoogleSignup t n) u \<longleftrightarrow>
     ac_readSignup c (ae_now e) t \<noteq> None \<and> \<not> user_exists u (ad_db (as_db s))"
| "proven c e s (DoConfirmEmailChange me t) u \<longleftrightarrow> u = me \<and> has_code c e s me purposeEmail t"
| "proven c e s (DoAdminVerify m t) u \<longleftrightarrow> names_account c m s u \<and> has_code c e s u purposeAdmin t \<and>
     exists_row (\<lambda>v. u_id v = u \<and> u_is_admin v) (users (ad_db (as_db s)))"
| "proven c e s _ u \<longleftrightarrow> False"

section \<open>How each way in gets there\<close>

definition lets_in :: "uuid \<Rightarrow> auth_sys \<Rightarrow> bool" where
  "lets_in u s \<longleftrightarrow> exists_row (\<lambda>v. u_id v = u \<and> u_banned_at v = None) (users (ad_db (as_db s)))"

lemma exists_update: "exists_row P rows \<Longrightarrow> (\<And>v. P v \<Longrightarrow> P (f v)) \<Longrightarrow> exists_row P (update_rows q f rows)"
  by (induction rows) (auto simp: exists_row_def)

lemma lets_in_touch: "lets_in u s \<Longrightarrow> lets_in u (s\<lparr>as_db := TouchLastSeen t u (as_db s)\<rparr>)"
  unfolding lets_in_def TouchLastSeen_def by (simp del: exists_row_def) (erule exists_update, simp)

lemma thenDoE:
  assumes "thenDo m f s = (Inr b, s2, es)"
  obtains a s1 es1 es2 where "m s = (Inr a, s1, es1)" "f a s1 = (Inr b, s2, es2)"
  using assms unfolding thenDo_Inr by blast

lemma UserBan_lets_in: "UserBan u (as_db s) = Inr (None, until) \<Longrightarrow> lets_in u s"
  by (auto simp: UserBan_def lets_in_def find_user_def exists_row_def split: option.splits dest!: find_row_Some)

lemma CreateRefreshToken_users: "CreateRefreshToken e c tok u x s = (Inr a, s', es) \<Longrightarrow> users (ad_db (as_db s')) = users (ad_db (as_db s))"
  by (auto simp: CreateRefreshToken_def CreateARefreshToken_def split: if_splits)

lemma issue_lets_in:
  assumes "issue e c now u s = (Inr (a, r), s', es)"
  shows "a = MakeJWT u now (ac_accessTTL c) \<and> lets_in u s'"
proof -
  obtain b s0 es0 es1 where ban: "ask_db (ae_fails e ABan) ErrNotAuthorized (UserBan u) s = (Inr b, s0, es0)"
    and rest: "(case b of (banned, _) \<Rightarrow> if banned \<noteq> None then refuse ErrSuspended
       else thenDo (if ae_fails e ATouch then give () else exec_db False (\<lambda>d. Inr (TouchLastSeen (pgTime now) u d))) (\<lambda>_.
         if ae_fails e AJwt then broken else case ae_refresh e of None \<Rightarrow> broken
         | Some token \<Rightarrow> thenDo (CreateRefreshToken e c token u (now + ac_refreshTTL c)) (\<lambda>_.
               give (MakeJWT u now (ac_accessTTL c), token)))) s0 = (Inr (a, r), s', es1)"
    using assms unfolding issue_def by (rule thenDoE)
  obtain until where b: "b = (None, until)" using rest by (cases b) (auto split: if_splits)
  have s: "s0 = s" "lets_in u s" using ban b UserBan_lets_in by auto
  from rest b have "thenDo (if ae_fails e ATouch then give () else exec_db False (\<lambda>d. Inr (TouchLastSeen (pgTime now) u d))) (\<lambda>_.
         if ae_fails e AJwt then broken else case ae_refresh e of None \<Rightarrow> broken
         | Some token \<Rightarrow> thenDo (CreateRefreshToken e c token u (now + ac_refreshTTL c)) (\<lambda>_.
               give (MakeJWT u now (ac_accessTTL c), token))) s0 = (Inr (a, r), s', es1)" by simp
  then obtain x s1 es2 es3 where
    t: "(if ae_fails e ATouch then give () else exec_db False (\<lambda>d. Inr (TouchLastSeen (pgTime now) u d))) s0 = (Inr x, s1, es2)"
    and k: "(if ae_fails e AJwt then broken else case ae_refresh e of None \<Rightarrow> broken
       | Some token \<Rightarrow> thenDo (CreateRefreshToken e c token u (now + ac_refreshTTL c)) (\<lambda>_. give (MakeJWT u now (ac_accessTTL c), token))) s1 =
         (Inr (a, r), s', es3)" by (rule thenDoE)
  have "lets_in u s1" using t s lets_in_touch by (auto split: if_splits)
  moreover obtain tok es4 where "CreateRefreshToken e c tok u (now + ac_refreshTTL c) s1 = (Inr (), s', es4)" "a = MakeJWT u now (ac_accessTTL c)"
    using k by (auto simp: thenDo_Inr split: if_splits option.splits)
  ultimately show ?thesis using CreateRefreshToken_users by (simp add: lets_in_def)
qed

lemma session_lets_in:
  "session_at e c now u s = (Inr x, s', es) \<Longrightarrow> se_AccessToken x = MakeJWT (u_id u) now (ac_accessTTL c) \<and> lets_in (u_id u) s'"
  by (auto simp: session_at_def thenDo_Inr dest!: issue_lets_in)

lemma checkCodeFor_Inr:
  "checkCodeFor e c u purpose pin s = (Inr x, s', es) \<Longrightarrow> has_code c e s u purpose pin \<and>
     find_row (code_for u purpose) (email_codes (as_db s)) = Some x \<and> \<not> ae_fails e ADelCode \<and>
     s' = s\<lparr>as_db := DeleteEmailCode u purpose (as_db s)\<rparr> \<and> es = []"
  by (auto simp: checkCodeFor_def try_db_def faulty_def GetCode_def GetEmailCode_def one_row_def has_code_def thenDo_Inr
      DeleteCode_def exists_row_def split: if_splits option.splits sum.splits dest: find_row_Some)

lemma checkCode_Inr:
  "checkCode e c u purpose pin s = (Inr x, s', es) \<Longrightarrow> has_code c e s u purpose pin \<and>
     s' = s\<lparr>as_db := DeleteEmailCode u purpose (as_db s)\<rparr> \<and> es = []"
  by (auto simp: checkCode_def thenDo_Inr dest!: checkCodeFor_Inr)

lemma Login_Inr:
  assumes "Login e c m p s = (Inr (a, r, v), s', es)"
  shows "proven c e s (DoLogin m p) (u_id v) \<and> a = MakeJWT (u_id v) (ae_now e) (ac_accessTTL c) \<and> lets_in (u_id v) s'"
proof -
  obtain x s1 es1 where g: "GetUserByEmail e m s = (x, s1, es1)" by (metis prod_cases3)
  show ?thesis
  proof (cases x)
    case (Inl y)
    with assms g show ?thesis by (cases y) (auto simp: Login_def inspect_def refuse_def pass_on_def)
  next
    case (Inr w)
    with g have w: "w \<in> set (users (ad_db (as_db s)))" "u_email w = m"
      by (auto simp: GetUserByEmail_def GetUserInfoByEmail_def one_row_def split: if_splits option.splits dest!: find_row_Some)
    have ok: "hash_of w \<noteq> []" "ac_checkPw c p (hash_of w)" "Verified w"
      using assms g Inr by (auto simp: Login_def inspect_def CheckPassword_def refuse_def broken_def split: if_splits)
    with assms g Inr obtain es2 where "thenDo (issue e c (ae_now e) (u_id w)) (\<lambda>(a, r). give (a, r, w)) s1 = (Inr (a, r, v), s', es2)"
      by (auto simp: Login_def inspect_def CheckPassword_def broken_def split: prod.splits if_splits)
    then obtain y s2 es3 es4 where i: "issue e c (ae_now e) (u_id w) s1 = (Inr y, s2, es3)"
      and y: "(case y of (a, r) \<Rightarrow> give (a, r, w)) s2 = (Inr (a, r, v), s', es4)" by (rule thenDoE)
    from y have "y = (a, r)" "s2 = s'" "w = v" by (auto split: prod.splits)
    with w ok i issue_lets_in show ?thesis by (auto simp: exists_row_def)
  qed
qed

lemma Refresh_Inr:
  assumes "Refresh e c t s = (Inr (a, r), s', es)"
  shows "\<exists>u. proven c e s (DoRefresh t) u \<and> a = MakeJWT u (ae_now e) (ac_accessTTL c) \<and> lets_in u s'"
proof -
  obtain u s1 es1 es2 where k: "Refresh_check e c t s = (Inr u, s1, es1)" and "Refresh_rotate e c t u s1 = (Inr (a, r), s', es2)"
    using assms unfolding Refresh_def by (rule thenDoE)
  from this(2) obtain x s2 es3 es4 where "issue e c (ae_now e) u s2 = (Inr (a, r), s', es4)"
    unfolding Refresh_rotate_def by (rule thenDoE) blast
  moreover have "proven c e s (DoRefresh t) u"
    using k by (auto simp: Refresh_check_def thenDo_Inr GetRefreshToken_def one_row_def exists_row_def
        split: if_splits option.splits dest!: find_row_Some)
  ultimately show ?thesis using issue_lets_in by blast
qed

lemma names_accountI: "account_of c m s = Some v \<Longrightarrow> names_account c m s (u_id v)"
  by (simp add: names_account_def)

lemma VerifyEmail_Inr:
  assumes "VerifyEmail e c m t s = (Inr x, s', es)"
  shows "\<exists>u. proven c e s (DoVerifyEmail m t) u \<and> se_AccessToken x = MakeJWT u (ae_now e) (ac_accessTTL c) \<and> lets_in u s'"
proof -
  obtain v where v: "account_of c m s = Some v" and f: "thenDo (checkCode e c (u_id v) purposeVerify t) (\<lambda>_.
      thenDo (MarkVerified e (u_id v)) (\<lambda>_. session_at e c (ae_now e) (verified v (ae_now e)))) s = (Inr x, s', es)"
    using assms unfolding VerifyEmail_def by (rule by_email_refuse)
  then show ?thesis
    using names_accountI [OF v] by (auto simp: thenDo_Inr verified_def dest!: checkCode_Inr session_lets_in)
qed

lemma GetUserByID_Inr: "GetUserByID e i s = (Inr u, s', es) \<Longrightarrow> u_id u = i \<and> s' = s"
  by (auto simp: GetUserByID_def GetUserInfoByID_def one_row_def find_user_def split: option.splits dest!: find_row_Some)

lemma ConfirmEmailChange_Inr:
  assumes "ConfirmEmailChange e c me t s = (Inr x, s', es)"
  shows "proven c e s (DoConfirmEmailChange me t) me \<and> se_AccessToken x = MakeJWT me (ae_now e + 2 * millisecond) (ac_accessTTL c) \<and> lets_in me s'"
proof -
  obtain y s1 es1 es2 where k: "checkCodeFor e c me purposeEmail t s = (Inr y, s1, es1)"
    and "(if new_email_of y = [] then refuse ErrInvalidCode else thenDo (GetUserByID e me) (\<lambda>u.
         thenDo (ChangeEmail e me (new_email_of y)) (\<lambda>_. thenDo (RevokeAllRefreshTokens e c me) (\<lambda>_.
             thenDo (emit (if ae_fails e AMail then [] else [SendMail (emailChangedNotice u (u_email u) (new_email_of y))])) (\<lambda>_.
               session_at e c (ae_now e + 2 * millisecond) (verified (u\<lparr>u_email := new_email_of y\<rparr>) (ae_now e))))))) s1 = (Inr x, s', es2)"
    using assms unfolding ConfirmEmailChange_def by (rule thenDoE)
  from this(2) have "thenDo (GetUserByID e me) (\<lambda>u.
         thenDo (ChangeEmail e me (new_email_of y)) (\<lambda>_. thenDo (RevokeAllRefreshTokens e c me) (\<lambda>_.
             thenDo (emit (if ae_fails e AMail then [] else [SendMail (emailChangedNotice u (u_email u) (new_email_of y))])) (\<lambda>_.
               session_at e c (ae_now e + 2 * millisecond) (verified (u\<lparr>u_email := new_email_of y\<rparr>) (ae_now e)))))) s1 = (Inr x, s', es2)"
    by (simp split: if_splits)
  then obtain u s2 es3 s3 es4 where "GetUserByID e me s1 = (Inr u, s2, es3)"
      "session_at e c (ae_now e + 2 * millisecond) (verified (u\<lparr>u_email := new_email_of y\<rparr>) (ae_now e)) s3 = (Inr x, s', es4)"
    by (elim thenDoE) blast
  with GetUserByID_Inr session_lets_in checkCodeFor_Inr [OF k] show ?thesis by (fastforce simp: verified_def)
qed

lemma AdminVerify_Inr:
  assumes "AdminVerify e c m t s = (Inr a, s', es)"
  shows "\<exists>u. proven c e s (DoAdminVerify m t) u \<and> a = MakeAdminJWT u (ae_now e) AdminSessionTTL"
proof -
  obtain x s1 es1 where g: "GetUserByEmail e (normEmail c m) s = (x, s1, es1)" by (metis prod_cases3)
  with assms obtain v where x: "x = Inr v" by (cases x) (auto simp: AdminVerify_def inspect_def refuse_def)
  have v: "account_of c m s = Some v" "s1 = s" using GetUserByEmail_Inr g x by auto
  then have "v \<in> set (users (ad_db (as_db s)))" by (auto simp: account_of_def dest: find_row_Some)
  then show ?thesis
    using assms g x v(2) names_accountI [OF v(1)]
    by (auto simp: AdminVerify_def inspect_def thenDo_Inr refuse_def exists_row_def split: if_splits prod.splits dest!: checkCode_Inr)
qed

lemma take_over_Inr: "take_over e c u s = (Inr v, s', es) \<Longrightarrow> u_id v = u_id u"
  unfolding take_over_def by (auto simp: verified_def split: if_splits elim!: thenDoE)

lemma GSession_Inr:
  "thenDo (session_at e c now v) (\<lambda>x. give (GSession x)) s = (Inr r, s', es) \<Longrightarrow>
   \<exists>x. r = GSession x \<and> se_AccessToken x = MakeJWT (u_id v) now (ac_accessTTL c) \<and> lets_in (u_id v) s'"
  by (auto elim!: thenDoE dest!: session_lets_in)

lemma Google_Inr:
  assumes "Google e c t s = (Inr (GSession x), s', es)"
  shows "\<exists>u. proven c e s (DoGoogle t) u \<and> se_AccessToken x = MakeJWT u (ae_now e) (ac_accessTTL c) \<and> lets_in u s'"
proof -
  obtain verify g where g: "ac_google c = Some verify" "verify t = Some g" "gc_EmailVerified g"
    using assms by (auto simp: Google_def refuse_def split: option.splits if_splits)
  then have vouch: "google_vouches c t g" by (simp add: google_vouches_def)
  let ?email = "normEmail c (gc_Email g)"
  let ?q = "faulty (ae_fails e AIdentity) (GetIdentity google (gc_Subject g) (as_db s))"
  show ?thesis
  proof (cases ?q)
    case (Inr i)
    then have i: "exists_row (\<lambda>j. ui_provider j = google \<and> ui_subject j = gc_Subject g \<and> ui_user_id j = ui_user_id i) (user_identities (as_db s))"
      by (auto simp: GetIdentity_def one_row_def exists_row_def split: option.splits dest!: find_row_Some)
    have "thenDo (GetUserByID e (ui_user_id i)) (\<lambda>u. thenDo (session_at e c (ae_now e) u) (\<lambda>x. give (GSession x))) s = (Inr (GSession x), s', es)"
      using assms g Inr by (simp add: Google_def Let_def try_db_def refuse_def split: if_splits)
    with i vouch show ?thesis by (fastforce elim!: thenDoE dest!: GetUserByID_Inr session_lets_in)
  next
    case (Inl y)
    obtain r s1 es1 where m: "GetUserByEmail e ?email s = (r, s1, es1)" by (metis prod_cases3)
    have f: "inspect (GetUserByEmail e ?email) (\<lambda>res. case res of
                       Inr u \<Rightarrow> thenDo (take_over e c u) (\<lambda>u'. thenDo (LinkIdentity e (gc_Subject g) (u_id u) ?email) (\<lambda>_.
                             thenDo (session_at e c (ae_now e) u') (\<lambda>x. give (GSession x))))
                     | Inl (DbFail x) \<Rightarrow> pass_on (DbFail x)
                     | Inl (Sentinel _) \<Rightarrow> if ae_fails e ASignup then broken
                         else give (SignupToken (ac_signup c (gc_Subject g) ?email (ae_now e + signupTokenTTL)))) s = (Inr (GSession x), s', es)"
      using assms g Inl by (simp add: Google_def Let_def try_db_def refuse_def split: if_splits)
    show ?thesis
    proof (cases r)
      case (Inl z)
      with f m show ?thesis by (cases z) (auto simp: inspect_def pass_on_def broken_def give_def split: if_splits)
    next
      case (Inr u)
      with m GetUserByEmail_Inr have u: "account_of c (gc_Email g) s = Some u" by blast
      from f m Inr obtain es2 where "thenDo (take_over e c u) (\<lambda>u'. thenDo (LinkIdentity e (gc_Subject g) (u_id u) ?email) (\<lambda>_.
                             thenDo (session_at e c (ae_now e) u') (\<lambda>x. give (GSession x)))) s1 = (Inr (GSession x), s', es2)"
        by (auto simp: inspect_def split: prod.splits)
      then obtain v s2 es3 es4 where "take_over e c u s1 = (Inr v, s2, es3)" "se_AccessToken x = MakeJWT (u_id v) (ae_now e) (ac_accessTTL c)" "lets_in (u_id v) s'"
        by (elim thenDoE) (auto dest!: session_lets_in)
      with take_over_Inr names_accountI [OF u] vouch show ?thesis by fastforce
    qed
  qed
qed

lemma insert_user_new: "insert_user u d = Inr (v, d') \<Longrightarrow> v = u \<and> \<not> user_exists (u_id u) (ad_db d)"
  by (auto simp: insert_user_def split: if_splits)

lemma CompleteGoogleSignup_Inr:
  assumes "CompleteGoogleSignup e c t n s = (Inr x, s', es)"
  shows "\<exists>u. proven c e s (DoCompleteGoogleSignup t n) u \<and> se_AccessToken x = MakeJWT u (ae_now e) (ac_accessTTL c) \<and> lets_in u s'"
proof -
  obtain sub email where tok: "ac_readSignup c (ae_now e) t = Some (sub, email)"
    using assms by (auto simp: CompleteGoogleSignup_def refuse_def split: option.splits)
  obtain r s1 es1 where m: "CreateGoogleUser e (NormalizeUsername c n) email sub s = (r, s1, es1)" by (metis prod_cases3)
  have f: "inspect (CreateGoogleUser e (NormalizeUsername c n) email sub) (\<lambda>res. case res of
                Inl err \<Rightarrow> if err = Sentinel ErrDuplicateEmail then refuse ErrInvalidGoogle else pass_on err
              | Inr u \<Rightarrow> session_at e c (ae_now e) u) s = (Inr x, s', es)"
    using assms tok by (simp add: CompleteGoogleSignup_def Let_def refuse_def split: if_splits)
  then obtain u es2 where u: "r = Inr u" "session_at e c (ae_now e) u s1 = (Inr x, s', es2)"
    using m by (cases r) (auto simp: inspect_def refuse_def pass_on_def split: if_splits prod.splits)
  have "\<not> user_exists (u_id u) (ad_db (as_db s))"
    using m u(1) by (auto simp: CreateGoogleUser_def alter_db_def CreateUserVerifiedNoPassword_def split: sum.splits
        dest!: insert_user_new)
  with tok session_lets_in [OF u(2)] show ?thesis by auto
qed

text \<open>
  C3: nobody gets a session, or an admin session, without proof of being the account's owner: the password
  of an account whose address is verified; a refresh token that is the account's, unrevoked and
  unexpired; the code mailed for that very purpose, within its time; a Google sign-in with a verified
  address, for the identity or address it names; or a signup token, and then the account is new. The
  token names that account, ordinary sessions are for accounts that exist and are not banned. The admin
  page's tokens, which the rest of the program does not accept, are only for admins; whether an admin is
  banned is not looked at here but by the admin page, for each request.
\<close>

theorem session_needs_proof:
  assumes "auth_exec c e x s = (Inr (Some claims), s', es)"
  shows "\<exists>u. jc_Subject claims = Some u \<and> proven c e s x u \<and>
    (if \<exists>m t. x = DoAdminVerify m t then jc_Issuer claims = adminIssuer else jc_Issuer claims = issuer \<and> lets_in u s')"
proof (cases x)
  case (DoLogin m p)
  with assms show ?thesis by (auto simp: gives_Inr MakeJWT_def dest!: Login_Inr)
next
  case (DoRefresh t)
  with assms obtain a r where "Refresh e c t s = (Inr (a, r), s', es)" "claims = a" by (auto simp: gives_Inr)
  with DoRefresh Refresh_Inr [OF this(1)] show ?thesis by (auto simp: MakeJWT_def)
next
  case (DoVerifyEmail m t)
  with assms obtain y where "VerifyEmail e c m t s = (Inr y, s', es)" "claims = se_AccessToken y" by (auto simp: gives_Inr claims_of_def)
  with DoVerifyEmail VerifyEmail_Inr [OF this(1)] show ?thesis by (auto simp: MakeJWT_def)
next
  case (DoGoogle t)
  with assms obtain a where a: "Google e c t s = (Inr a, s', es)" "google_claims a = Some claims" by (auto simp: gives_Inr)
  then obtain y where "Google e c t s = (Inr (GSession y), s', es)" "claims = se_AccessToken y"
    by (cases a) (auto simp: google_claims_def claims_of_def)
  with DoGoogle Google_Inr [OF this(1)] show ?thesis by (auto simp: MakeJWT_def simp del: proven.simps)
next
  case (DoCompleteGoogleSignup t n)
  with assms obtain y where "CompleteGoogleSignup e c t n s = (Inr y, s', es)" "claims = se_AccessToken y" by (auto simp: gives_Inr claims_of_def)
  with DoCompleteGoogleSignup CompleteGoogleSignup_Inr [OF this(1)] show ?thesis by (auto simp: MakeJWT_def)
next
  case (DoConfirmEmailChange me t)
  with assms obtain y where "ConfirmEmailChange e c me t s = (Inr y, s', es)" "claims = se_AccessToken y" by (auto simp: gives_Inr claims_of_def)
  with DoConfirmEmailChange ConfirmEmailChange_Inr [OF this(1)] show ?thesis by (auto simp: MakeJWT_def)
next
  case (DoAdminVerify m t)
  with assms obtain a where "AdminVerify e c m t s = (Inr a, s', es)" "claims = a" by (auto simp: gives_Inr)
  with DoAdminVerify AdminVerify_Inr [OF this(1)] show ?thesis by (auto simp: MakeJWT_def MakeAdminJWT_def)
qed (use assms in \<open>auto simp: gives_Inr\<close>)

text \<open>Ann, who has a password and a verified address, signs in.\<close>

definition ann_verified :: user where
  "ann_verified = (new_user 1 ''ann'')\<lparr>u_email_verified_at := Some 1, u_password := Some ''$ham&eggs''\<rparr>"

definition ann_accounts :: auth_sys where
  "ann_accounts = \<lparr>as_db = \<lparr>ad_db = empty_db\<lparr>users := [ann_verified]\<rparr>, refresh_tokens = [], email_codes = [], user_identities = []\<rparr>,
     as_rev = no_revocations\<rparr>"

theorem session_needs_proof_witness:
  "\<exists>claims s' es. auth_exec toy_conf (calm_env 5) (DoLogin ''ann@x'' ''ham&eggs'') ann_accounts = (Inr (Some claims), s', es) \<and>
     jc_Subject claims = Some 1 \<and> lets_in 1 s'"
proof -
  have "\<exists>s' es. auth_exec toy_conf (calm_env 5) (DoLogin ''ann@x'' ''ham&eggs'') ann_accounts =
      (Inr (Some (MakeJWT 1 5 DefaultAccessTTL)), s', es)"
    by (simp add: gives_def Login_def inspect_def GetUserByEmail_def ask_db_def GetUserInfoByEmail_def one_row_def
        ann_accounts_def ann_verified_def new_user_def empty_db_def hash_of_def CheckPassword_def Verified_def issue_def thenDo_def
        UserBan_def find_user_def exec_db_def TouchLastSeen_def CreateRefreshToken_def CreateARefreshToken_def set_user_def
        set_users_def user_exists_def give_def text_ok_def)
  then obtain s' es where x: "auth_exec toy_conf (calm_env 5) (DoLogin ''ann@x'' ''ham&eggs'') ann_accounts =
      (Inr (Some (MakeJWT 1 5 DefaultAccessTTL)), s', es)" by blast
  from session_needs_proof [OF this] x show ?thesis by (auto simp: MakeJWT_def)
qed

end
