(* ===== verification/Auth_Codes.thy ===== *)
theory Auth_Codes
  imports Auth_Access
begin

text \<open>
  Codes sent by mail and passwords: guessing, what the answers reveal, what a reset does; and where the
  code falls short of its comments.
\<close>

section \<open>Guessing\<close>

text \<open>Guesses one after another; the state they leave.\<close>

fun guess_all :: "auth_conf \<Rightarrow> uuid \<Rightarrow> string \<Rightarrow> (auth_env \<times> string) list \<Rightarrow> auth_sys \<Rightarrow> auth_sys" where
  "guess_all c u purpose [] s = s"
| "guess_all c u purpose ((e, pin) # xs) s = guess_all c u purpose xs (fst (snd (checkCodeFor e c u purpose pin s)))"

definition stored :: "uuid \<Rightarrow> string \<Rightarrow> auth_sys \<Rightarrow> email_code option" where
  "stored u purpose s = find_row (code_for u purpose) (email_codes (as_db s))"

definition wrong_guess :: "auth_conf \<Rightarrow> uuid \<Rightarrow> string \<Rightarrow> email_code \<Rightarrow> auth_env \<times> string \<Rightarrow> bool" where
  "wrong_guess c u purpose x y \<longleftrightarrow> (case y of (e, pin) \<Rightarrow> (\<forall>k. \<not> ae_fails e k) \<and>
     ae_now e \<le> ec_expires_at x \<and> \<not> right_code c u purpose pin x)"

lemma find_update_same:
  "find_row P rows = Some x \<Longrightarrow> (\<And>y. P y \<Longrightarrow> P (f y)) \<Longrightarrow> find_row P (update_rows P f rows) = Some (f x)"
  by (induction rows) (auto split: if_splits)

lemma find_deleted: "find_row P (delete_rows P rows) = None"
  by (induction rows) auto

lemma no_code_refused:
  "stored u purpose s = None \<Longrightarrow> checkCodeFor e c u purpose pin s = (Inl (Sentinel ErrInvalidCode), s, [])"
  by (auto simp: checkCodeFor_def try_db_def faulty_def GetCode_def GetEmailCode_def one_row_def stored_def refuse_def
      split: sum.splits)

lemma one_wrong_guess:
  assumes "stored u purpose s = Some x" "wrong_guess c u purpose x (e, pin)"
  shows "fst (checkCodeFor e c u purpose pin s) = Inl (Sentinel ErrInvalidCode) \<and>
    stored u purpose (fst (snd (checkCodeFor e c u purpose pin s))) =
      (if 5 \<le> ec_attempts x + 1 then None else Some (x\<lparr>ec_attempts := ec_attempts x + 1\<rparr>))"
proof -
  have q: "checkCodeFor e c u purpose pin s =
      (Inl (Sentinel ErrInvalidCode), s\<lparr>as_db := count_guess e u purpose (as_db s)\<rparr>, [])"
    using assms by (simp add: checkCodeFor_def try_db_def faulty_def GetCode_def GetEmailCode_def one_row_def stored_def
        refuse_def wrong_guess_def thenDo_def exec_db_def)
  have "find_row (code_for u purpose) (update_rows (code_for u purpose) (\<lambda>c. c\<lparr>ec_attempts := ec_attempts c + 1\<rparr>)
      (email_codes (as_db s))) = Some (x\<lparr>ec_attempts := ec_attempts x + 1\<rparr>)"
    by (rule find_update_same) (use assms(1) in \<open>auto simp: stored_def code_for_def\<close>)
  then show ?thesis
    unfolding q using assms
    by (simp add: stored_def count_guess_def faulty_def wrong_guess_def BumpEmailCodeAttempts_def codeMaxAttempts_def
        DeleteEmailCode_def find_deleted)
qed

lemma guesses_count:
  "stored u purpose s = Some x \<Longrightarrow> \<forall>y \<in> set xs. wrong_guess c u purpose x y \<Longrightarrow> 5 \<le> ec_attempts x + int (length xs) \<Longrightarrow>
   xs \<noteq> [] \<Longrightarrow> stored u purpose (guess_all c u purpose xs s) = None"
proof (induction xs arbitrary: s x)
  case (Cons y xs)
  obtain e pin where y: "y = (e, pin)" by (cases y)
  let ?t = "fst (snd (checkCodeFor e c u purpose pin s))"
  have none: "stored u purpose t = None \<Longrightarrow> stored u purpose (guess_all c u purpose zs t) = None" for zs t
  proof (induction zs arbitrary: t)
    case (Cons z zs)
    obtain e' p' where "z = (e', p')" by (cases z)
    with Cons no_code_refused [OF Cons.prems] show ?case by simp
  qed simp
  have t: "stored u purpose ?t = (if 5 \<le> ec_attempts x + 1 then None else Some (x\<lparr>ec_attempts := ec_attempts x + 1\<rparr>))"
    using one_wrong_guess [of u purpose s x c e pin] Cons.prems(1,2) y by simp
  show ?case
  proof (cases "5 \<le> ec_attempts x + 1")
    case True
    with t none y show ?thesis by simp
  next
    case False
    with t have t': "stored u purpose ?t = Some (x\<lparr>ec_attempts := ec_attempts x + 1\<rparr>)" by simp
    have "\<forall>y \<in> set xs. wrong_guess c u purpose (x\<lparr>ec_attempts := ec_attempts x + 1\<rparr>) y"
      using Cons.prems(2) by (auto simp: wrong_guess_def right_code_def new_email_of_def split: prod.splits)
    moreover have "xs \<noteq> []" using Cons.prems(3) False by auto
    ultimately show ?thesis using Cons.IH [OF t'] Cons.prems(3) y by simp
  qed
qed simp

text \<open>
  C32: five wrong guesses and a code is dead: whatever code was stored and whatever five guesses were made
  one after the other while the calls work, the code is gone, and the next guess is refused even if it
  is the right one.
\<close>

theorem five_guesses_kill_a_code:
  assumes "stored u purpose s = Some x" "codes_ok (as_db s)" "5 \<le> length xs" "\<forall>y \<in> set xs. wrong_guess c u purpose x y"
  shows "checkCodeFor e c u purpose pin (guess_all c u purpose xs s) =
    (Inl (Sentinel ErrInvalidCode), guess_all c u purpose xs s, [])"
proof -
  have "x \<in> set (email_codes (as_db s))" using assms(1) by (auto simp: stored_def dest: find_row_Some)
  then have "0 \<le> ec_attempts x" using assms(2) by (simp add: codes_ok_def code_ok_def)
  moreover have "xs \<noteq> []" using assms(3) by auto
  ultimately show ?thesis
    using no_code_refused [OF guesses_count [OF assms(1,4)]] assms(3) by simp
qed

definition ann_code :: email_code where
  "ann_code = \<lparr>ec_user_id = 1, ec_purpose = purposeReset, ec_code_hash = hashCode toy_conf 1 purposeReset ''123456'',
     ec_attempts = 0, ec_expires_at = 10, ec_created_at = 4, ec_new_email = None\<rparr>"

definition ann_forgot :: auth_sys where
  "ann_forgot = \<lparr>as_db = \<lparr>ad_db = empty_db\<lparr>users := [ann_verified]\<rparr>, refresh_tokens = [], email_codes = [ann_code],
     user_identities = []\<rparr>, as_rev = no_revocations\<rparr>"

lemma TrimSpace_digits: "TrimSpace ''000000'' = ''000000''" "TrimSpace ''123456'' = ''123456''"
  by (simp_all add: TrimSpace_def chunks_ascii_Cons IsSpace_def)

theorem five_guesses_kill_a_code_witness:
  "fst (checkCodeFor (calm_env 6) toy_conf 1 purposeReset ''123456''
     (guess_all toy_conf 1 purposeReset (replicate 5 (calm_env 5, ''000000'')) ann_forgot)) = Inl (Sentinel ErrInvalidCode)"
proof -
  have x: "stored 1 purposeReset ann_forgot = Some ann_code" by (simp add: stored_def ann_forgot_def ann_code_def code_for_def)
  have ok: "codes_ok (as_db ann_forgot)"
    by (simp add: codes_ok_def ann_forgot_def ann_code_def key_ok_def code_ok_def user_exists_def ann_verified_def new_user_def
        codeTTL_def minute_def)
  have "wrong_guess toy_conf 1 purposeReset ann_code (calm_env 5, ''000000'')"
    by (simp add: wrong_guess_def ann_code_def right_code_def new_email_of_def bound_def hashCode_def TrimSpace_digits)
  from five_guesses_kill_a_code [OF x ok, of "replicate 5 (calm_env 5, ''000000'')"] this show ?thesis by simp
qed

section \<open>What the answers reveal\<close>

definition calm :: "auth_env \<Rightarrow> bool" where
  "calm e \<longleftrightarrow> (\<forall>k. \<not> ae_fails e k) \<and> ae_code e \<noteq> None"

lemma newCode_calm: "calm e \<Longrightarrow> \<exists>pin. newCode e = Some pin"
  by (auto simp: calm_def newCode_def)

lemma put_code_works: "user_exists (ec_user_id x) (ad_db d) \<Longrightarrow> put_code x f d \<noteq> Inl err"
  by (simp add: put_code_def)

lemma PutCode_calm: "calm e \<Longrightarrow> user_exists u (ad_db (as_db s)) \<Longrightarrow> \<exists>s'. PutCode e u purpose k t x s = (Inr (), s', [])"
  by (auto simp: PutCode_def exec_db_def faulty_def UpsertEmailCode_def calm_def put_code_works split: sum.split)

lemma PutEmailChange_calm:
  "calm e \<Longrightarrow> user_exists u (ad_db (as_db s)) \<Longrightarrow> \<exists>s'. PutEmailChange e u k mail t x s = (Inr (), s', [])"
  by (auto simp: PutEmailChange_def exec_db_def faulty_def UpsertEmailChangeCode_def calm_def put_code_works split: sum.split)

lemma send_mail_calm: "calm e \<Longrightarrow> send_mail e m s = (Inr (), s, [SendMail m])"
  by (simp add: send_mail_def calm_def emit_def)

lemma sendCode_calm:
  assumes "calm e" "user_exists (u_id v) (ad_db (as_db s))"
  shows "fst (sendCode e c v purpose s) = Inr ()"
proof -
  obtain pin where pin: "newCode e = Some pin" using newCode_calm assms(1) by blast
  obtain s' where "PutCode e (u_id v) purpose (hashCode c (u_id v) purpose pin) (ae_now e) (ae_now e + codeTTL) s = (Inr (), s', [])"
    using PutCode_calm assms by blast
  then show ?thesis
    using assms(1) pin by (simp add: sendCode_def try_db_def give_def thenDo_def send_mail_calm)
qed

lemma GetUserByEmail_calm:
  "calm e \<Longrightarrow> text_ok (normEmail c m) \<Longrightarrow> GetUserByEmail e (normEmail c m) s =
     ((case account_of c m s of None \<Rightarrow> Inl (Sentinel ErrNoSuchUser) | Some v \<Rightarrow> Inr v), s, [])"
  by (auto simp: GetUserByEmail_def ask_db_def faulty_def GetUserInfoByEmail_def one_row_def account_of_def calm_def split: option.split)

lemma account_exists: "account_of c m s = Some v \<Longrightarrow> user_exists (u_id v) (ad_db (as_db s))"
  by (auto simp: account_of_def user_exists_def exists_row_def dest!: find_row_Some)

lemma by_email_calm:
  "calm e \<Longrightarrow> text_ok (normEmail c m) \<Longrightarrow> fst (by_email e c m unknown found s) =
     fst ((case account_of c m s of None \<Rightarrow> unknown | Some v \<Rightarrow> found v) s)"
  by (simp add: by_email_def inspect_def GetUserByEmail_calm split: option.split prod.split)

text \<open>
  While the calls work, asking for a new verification code, for a password reset or to move an account
  to another address gives the same answer whether the address has an account or not, so these
  requests do not tell who uses the program; and a code entered for an address without an account is
  refused like a wrong one.
\<close>

theorem accounts_stay_secret:
  assumes "calm e" "text_ok (normEmail c m)"
  shows "fst (RequestPasswordReset e c m s) = Inr () \<and> fst (ResendVerification e c m s) = Inr () \<and>
    (account_of c m s = None \<longrightarrow>
       fst (VerifyEmail e c m pin s) = Inl (Sentinel ErrInvalidCode) \<and>
       fst (AdminVerify e c m pin s) = Inl (Sentinel ErrInvalidCode) \<and>
       (ValidatePassword p \<longrightarrow> fst (ResetPassword e c m pin p s) = Inl (Sentinel ErrInvalidCode))) \<and>
    (reauth e c me pw g s = (Inr (), s, []) \<and> ValidateEmail c (normEmail c m) \<and>
     map_option u_email (find_user me (ad_db (as_db s))) \<notin> {None, Some (normEmail c m)} \<and>
     \<not> sent_recently e (stored me purposeEmail s) \<longrightarrow> fst (StartEmailChange e c me m pw g s) = Inr ())"
proof (intro conjI impI)
  show "fst (RequestPasswordReset e c m s) = Inr ()"
    by (auto simp: RequestPasswordReset_def by_email_calm [OF assms] give_def split: option.split
        intro: sendCode_calm [OF assms(1)] account_exists)
  show "fst (ResendVerification e c m s) = Inr ()"
    by (auto simp: ResendVerification_def by_email_calm [OF assms] give_def split: option.split
        intro: sendCode_calm [OF assms(1)] account_exists)
  assume n: "account_of c m s = None"
  show "fst (VerifyEmail e c m pin s) = Inl (Sentinel ErrInvalidCode)"
    by (simp add: VerifyEmail_def by_email_calm [OF assms] n refuse_def)
  show "fst (AdminVerify e c m pin s) = Inl (Sentinel ErrInvalidCode)"
    by (simp add: AdminVerify_def inspect_def GetUserByEmail_calm [OF assms] n refuse_def)
  show "ValidatePassword p \<Longrightarrow> fst (ResetPassword e c m pin p s) = Inl (Sentinel ErrInvalidCode)"
    by (simp add: ResetPassword_def by_email_calm [OF assms] n refuse_def)
next
  assume a: "reauth e c me pw g s = (Inr (), s, []) \<and> ValidateEmail c (normEmail c m) \<and>
     map_option u_email (find_user me (ad_db (as_db s))) \<notin> {None, Some (normEmail c m)} \<and>
     \<not> sent_recently e (stored me purposeEmail s)"
  then obtain v where v: "find_user me (ad_db (as_db s)) = Some v" "u_email v \<noteq> normEmail c m" by auto
  then have me: "user_exists me (ad_db (as_db s))"
    by (auto simp: find_user_def user_exists_def exists_row_def dest!: find_row_Some)
  obtain pin where pin: "newCode e = Some pin" using newCode_calm assms(1) by blast
  have put: "\<exists>s'. PutEmailChange e me k mail t x s = (Inr (), s', [])" for k mail t x
    by (rule PutEmailChange_calm [OF assms(1) me])
  have code: "(case GetCode me purposeEmail (as_db s) of Inl _ \<Rightarrow> None | Inr a \<Rightarrow> Some a) = stored me purposeEmail s"
    by (simp add: GetCode_def GetEmailCode_def one_row_def stored_def split: option.split)
  have flt: "\<not> ae_fails e k" for k using assms(1) by (simp add: calm_def)
  show "fst (StartEmailChange e c me m pw g s) = Inr ()"
  proof (cases "account_of c m s")
    case None
    obtain s' where "PutEmailChange e me (hashCode c me (bound purposeEmail (normEmail c m)) pin) (normEmail c m) (ae_now e) (ae_now e + codeTTL) s = (Inr (), s', [])"
      using put by blast
    with None a v pin show ?thesis
      by (simp add: StartEmailChange_def Let_def thenDo_def ask_db_def GetUserInfoByID_def one_row_def flt try_db_def code
          inspect_def GetUserByEmail_calm [OF assms] send_mail_calm [OF assms(1)])
  next
    case (Some w)
    obtain s' where "PutEmailChange e me [] (normEmail c m) (ae_now e) (ae_now e) s = (Inr (), s', [])" using put by blast
    with Some a v show ?thesis
      by (simp add: StartEmailChange_def Let_def thenDo_def ask_db_def GetUserInfoByID_def one_row_def flt try_db_def code
          inspect_def GetUserByEmail_calm [OF assms] send_mail_calm [OF assms(1)])
  qed
qed

theorem accounts_stay_secret_witness:
  "fst (RequestPasswordReset (calm_env 5) toy_conf ''ann@x'' ann_accounts) =
   fst (RequestPasswordReset (calm_env 5) toy_conf ''bob@x'' ann_accounts)"
proof -
  have c: "calm (calm_env 5)" by (simp add: calm_def)
  have t: "text_ok (normEmail toy_conf ''ann@x'')" "text_ok (normEmail toy_conf ''bob@x'')"
    by (simp_all add: normEmail_def text_ok_def TrimSpace_def chunks_ascii_Cons IsSpace_def)
  from accounts_stay_secret [OF c t(1), of ann_accounts "[]" "[]" 0 "[]" "[]"]
    accounts_stay_secret [OF c t(2), of ann_accounts "[]" "[]" 0 "[]" "[]"] show ?thesis by simp
qed

end
