(* ===== verification/Auth_Passwords.thy ===== *)
theory Auth_Passwords
  imports Auth_Codes
begin

text \<open>
  Passwords: what a reset does to signing in, what registration does to an account that waits for its
  code, and where parallel requests or addresses typed another way go wrong.
\<close>

section \<open>A reset takes effect\<close>

lemma find_update:
  "(\<And>y. P (f y) = P y) \<Longrightarrow> find_row P (update_rows q f rows) = map_option (\<lambda>x. if q x then f x else x) (find_row P rows)"
  by (induction rows) auto

lemma RevokeAll_users: "RevokeAllRefreshTokens e c u s = (Inr a, s', es) \<Longrightarrow> ad_db (as_db s') = ad_db (as_db s)"
  unfolding RevokeAllRefreshTokens_def
  by (auto simp: redis_revoke_def RevokeAllUserRefreshTokens_def revoke_rows_def elim!: thenDoE split: if_splits prod.splits)

lemma ResetPassword_Inr:
  assumes "ResetPassword e c m pin p s = (Inr a, s1, es)"
  obtains v where "account_of c m s = Some v" "has_code c e s (u_id v) purposeReset pin" "ValidatePassword p"
    "users (ad_db (as_db s1)) = users (ad_db (MarkEmailVerified (ae_dbnow e) (u_id v) (SetPasswordHash (ae_dbnow e) (u_id v)
       (if ac_hashPw c p = [] then None else Some (ac_hashPw c p)) (as_db s))))"
proof -
  have "by_email e c m (refuse ErrInvalidCode) (\<lambda>u. thenDo (checkCode e c (u_id u) purposeReset pin) (\<lambda>_.
      thenDo (HashPassword e c p) (\<lambda>h. thenDo (SetPassword e (u_id u) h) (\<lambda>_.
        thenDo (MarkVerified e (u_id u)) (\<lambda>_. RevokeAllRefreshTokens e c (u_id u)))))) s = (Inr a, s1, es)"
    and val: "ValidatePassword p"
    using assms by (auto simp: ResetPassword_def split: if_splits)
  from this(1) obtain v where v: "account_of c m s = Some v" and f: "thenDo (checkCode e c (u_id v) purposeReset pin) (\<lambda>_.
      thenDo (HashPassword e c p) (\<lambda>h. thenDo (SetPassword e (u_id v) h) (\<lambda>_.
        thenDo (MarkVerified e (u_id v)) (\<lambda>_. RevokeAllRefreshTokens e c (u_id v))))) s = (Inr a, s1, es)"
    by (rule by_email_refuse)
  from f obtain x t1 e1 t2 e2 t3 e3 t4 e4 h x3 x4 e5 where st: "checkCode e c (u_id v) purposeReset pin s = (Inr x, t1, e1)"
      "HashPassword e c p t1 = (Inr h, t2, e2)" "SetPassword e (u_id v) h t2 = (Inr x3, t3, e3)"
      "MarkVerified e (u_id v) t3 = (Inr x4, t4, e4)" "RevokeAllRefreshTokens e c (u_id v) t4 = (Inr a, s1, e5)"
    by (elim thenDoE) blast
  have h: "h = ac_hashPw c p" "t2 = t1" using st(2) by (auto simp: HashPassword_def split: if_splits)
  have t1: "as_db t1 = DeleteEmailCode (u_id v) purposeReset (as_db s)" "has_code c e s (u_id v) purposeReset pin"
    using checkCode_Inr [OF st(1)] by auto
  have "users (ad_db (as_db s1)) = users (ad_db (as_db t4))" using RevokeAll_users [OF st(5)] by simp
  also have "\<dots> = users (ad_db (MarkEmailVerified (ae_dbnow e) (u_id v) (SetPasswordHash (ae_dbnow e) (u_id v)
       (if ac_hashPw c p = [] then None else Some (ac_hashPw c p)) (as_db s))))"
    using st(3,4) h t1(1) by (auto simp: SetPassword_def MarkVerified_def MarkEmailVerified_def SetPasswordHash_def DeleteEmailCode_def)
  finally show ?thesis by (rule that [OF v t1(2) val])
qed

lemma account_after_reset:
  assumes "ResetPassword e c m pin p s = (Inr a, s1, es)" "ac_hashPw c p \<noteq> []"
  obtains v w where "account_of c m s = Some v" "account_of c m s1 = Some w" "u_id w = u_id v" "hash_of w = ac_hashPw c p"
    "Verified w" "u_banned_at w = u_banned_at v" "u_email w = normEmail c m"
proof -
  obtain v where v: "account_of c m s = Some v" and us: "users (ad_db (as_db s1)) = users (ad_db (MarkEmailVerified (ae_dbnow e) (u_id v)
      (SetPasswordHash (ae_dbnow e) (u_id v) (Some (ac_hashPw c p)) (as_db s))))"
    by (rule ResetPassword_Inr [OF assms(1)]) (simp add: assms(2))
  have m: "u_email v = normEmail c m" using v by (auto simp: account_of_def dest: find_row_Some)
  let ?w = "v\<lparr>u_password := Some (ac_hashPw c p), u_updated_at := ae_dbnow e,
    u_email_verified_at := (case u_email_verified_at v of None \<Rightarrow> Some (ae_dbnow e) | Some t \<Rightarrow> Some t)\<rparr>"
  have "account_of c m s1 = Some ?w"
    using v by (simp add: account_of_def us MarkEmailVerified_def SetPasswordHash_def find_update)
  then show ?thesis using that [OF v, of ?w] m by (simp add: hash_of_def Verified_def split: option.split)
qed

text \<open>
  A reset takes effect: after it the new password signs in to the account of that address, which is
  then verified, and no other password does. Assumed of argon2id: it accepts the password it hashed.
\<close>

theorem reset_then_login:
  assumes "ResetPassword e c m pin p s = (Inr a, s1, es)" "auth_inv (as_db s)" "ac_hashPw c p \<noteq> []" "ac_checkPw c p (ac_hashPw c p)"
    and "calm e'" "text_ok (normEmail c m)" "map_option u_banned_at (account_of c m s) = Some None"
    and "ae_refresh e' = Some tok" "\<not> exists_row (\<lambda>r. rt_token r = ac_hashToken c tok) (refresh_tokens (as_db s1))"
  shows "(\<exists>u w s2. names_account c m s u \<and>
      Login e' c (normEmail c m) p s1 = (Inr (MakeJWT u (ae_now e') (ac_accessTTL c), tok, w), s2, [])) \<and>
    (\<forall>q. \<not> ac_checkPw c q (ac_hashPw c p) \<longrightarrow>
      Login e' c (normEmail c m) q s1 = (Inl (Sentinel ErrInvalidCredentials), s1, []))"
proof -
  obtain v w where v: "account_of c m s = Some v" and w: "account_of c m s1 = Some w" "u_id w = u_id v" "hash_of w = ac_hashPw c p"
    "Verified w" "u_banned_at w = u_banned_at v" by (rule account_after_reset [OF assms(1,3)])
  have flt: "\<not> ae_fails e' k" for k using assms(5) by (simp add: calm_def)
  have g: "GetUserByEmail e' (normEmail c m) s1 = (Inr w, s1, [])" using GetUserByEmail_calm [OF assms(5,6)] w(1) by simp
  have "auth_inv (as_db s1)"
    using ki.moves_ResetPassword [of e c m pin p] assms(1,2) by (auto simp: moves_def keeps_inv_def)
  then have "find_user (u_id w) (ad_db (as_db s1)) = Some w"
    using w(1) by (auto simp: find_user_def account_of_def auth_inv_defs dest!: find_row_Some intro: find_row_eqI)
  then have ban: "UserBan (u_id w) (as_db s1) = Inr (None, u_banned_until w)" and ex: "user_exists (u_id w) (ad_db (as_db s1))"
    using w(5) v assms(7) account_exists [OF w(1)] by (auto simp: UserBan_def)
  let ?t = "s1\<lparr>as_db := TouchLastSeen (pgTime (ae_now e')) (u_id w) (as_db s1)\<rparr>"
  have "user_exists (u_id w) (ad_db (as_db ?t))" using ex by (simp add: TouchLastSeen_def user_exists_set_user)
  moreover have "refresh_tokens (as_db ?t) = refresh_tokens (as_db s1)" by (simp add: TouchLastSeen_def)
  ultimately have "\<exists>s2. issue e' c (ae_now e') (u_id w) s1 = (Inr (MakeJWT (u_id w) (ae_now e') (ac_accessTTL c), tok), s2, [])"
    using assms(8,9) flt ban
    by (simp add: issue_def thenDo_def ask_db_def exec_db_def CreateRefreshToken_def CreateARefreshToken_def give_def)
  then obtain s2 where "issue e' c (ae_now e') (u_id w) s1 = (Inr (MakeJWT (u_id w) (ae_now e') (ac_accessTTL c), tok), s2, [])" ..
  then have "Login e' c (normEmail c m) p s1 = (Inr (MakeJWT (u_id w) (ae_now e') (ac_accessTTL c), tok, w), s2, [])"
    using g w assms(3,4) flt by (simp add: Login_def inspect_def CheckPassword_def thenDo_def give_def)
  moreover have "Login e' c (normEmail c m) q s1 = (Inl (Sentinel ErrInvalidCredentials), s1, [])"
    if "\<not> ac_checkPw c q (ac_hashPw c p)" for q
    using g w assms(3) flt that by (simp add: Login_def inspect_def CheckPassword_def refuse_def)
  ultimately show ?thesis using names_accountI [OF v] w(2) by metis
qed

lemma ann_resets:
  "\<exists>s1 es. ResetPassword (calm_env 5) toy_conf ''ann@x'' ''123456'' ''new-eggs!'' ann_forgot = (Inr (), s1, es) \<and>
     refresh_tokens (as_db s1) = []"
proof -
  have n: "normEmail toy_conf ''ann@x'' = ''ann@x''"
    by (simp add: normEmail_def TrimSpace_def chunks_ascii_Cons IsSpace_def)
  have "ValidatePassword ''new-eggs!''" by (simp add: ValidatePassword_def passwordSpecials_def)
  then show ?thesis
    by (simp add: ResetPassword_def by_email_def inspect_def GetUserByEmail_def ask_db_def GetUserInfoByEmail_def text_ok_def n
        one_row_def ann_forgot_def ann_verified_def new_user_def empty_db_def thenDo_def checkCode_def checkCodeFor_def try_db_def
        GetCode_def GetEmailCode_def ann_code_def code_for_def right_code_def new_email_of_def bound_def TrimSpace_digits
        DeleteCode_def exec_db_def DeleteEmailCode_def give_def HashPassword_def SetPassword_def SetPasswordHash_def MarkVerified_def
        MarkEmailVerified_def RevokeAllRefreshTokens_def RevokeAllUserRefreshTokens_def revoke_rows_def redis_revoke_def
        RevokeAll_def emit_def set_user_def set_users_def)
qed

theorem reset_then_login_witness:
  "\<exists>s1 es w s2. ResetPassword (calm_env 5) toy_conf ''ann@x'' ''123456'' ''new-eggs!'' ann_forgot = (Inr (), s1, es) \<and>
     Login (calm_env 6) toy_conf ''ann@x'' ''new-eggs!'' s1 = (Inr (MakeJWT 1 6 DefaultAccessTTL, ''fresh'', w), s2, [])"
proof -
  obtain s1 es where r: "ResetPassword (calm_env 5) toy_conf ''ann@x'' ''123456'' ''new-eggs!'' ann_forgot = (Inr (), s1, es)"
    and t: "refresh_tokens (as_db s1) = []" using ann_resets by blast
  have n: "normEmail toy_conf ''ann@x'' = ''ann@x''"
    by (simp add: normEmail_def TrimSpace_def chunks_ascii_Cons IsSpace_def)
  have inv: "auth_inv (as_db ann_forgot)"
    by (simp add: auth_inv_defs ann_forgot_def ann_code_def ann_verified_def new_user_def key_ok_def user_exists_def
        username_format_def username_char_def codeTTL_def minute_def)
  have a: "account_of toy_conf ''ann@x'' ann_forgot = Some ann_verified"
    by (simp add: account_of_def n ann_forgot_def ann_verified_def new_user_def)
  have c: "calm (calm_env 6)" by (simp add: calm_def)
  have x: "text_ok (normEmail toy_conf ''ann@x'')" by (simp add: n text_ok_def)
  have "map_option u_banned_at (account_of toy_conf ''ann@x'' ann_forgot) = Some None" by (simp add: a ann_verified_def new_user_def)
  from reset_then_login [OF r inv _ _ c x this, of "''fresh''"] t r a n show ?thesis
    by (auto simp: names_account_def ann_verified_def new_user_def)
qed

section \<open>Where it goes wrong\<close>

text \<open>
  Registration lower-cases the address, signing in compares it as typed: an account is not found by its
  own address in another case.
\<close>

lemma login_needs_exact_case:
  assumes "\<not> exists_row (\<lambda>u. u_email u = m) (users (ad_db (as_db s)))" "calm e" "text_ok m"
  shows "Login e c m p s = (Inl (Sentinel ErrInvalidCredentials), s, [])"
proof -
  have "find_row (\<lambda>u. u_email u = m) (users (ad_db (as_db s))) = None" using assms(1) by (simp add: find_row_None)
  then show ?thesis
    using assms(2,3) by (simp add: Login_def inspect_def GetUserByEmail_def ask_db_def faulty_def GetUserInfoByEmail_def
        one_row_def refuse_def calm_def)
qed

text \<open>
  Whoever registers an address that waits for its code changes nothing: the password they chose is
  dropped without a word, and their code activates the account with the password of whoever came first.
\<close>

lemma exists_account: "account_of c m s = Some v \<Longrightarrow> exists_row (\<lambda>u. u_email u = normEmail c m) (users (ad_db (as_db s)))"
  by (auto simp: account_of_def exists_row_def dest: find_row_Some)

lemma sendCode_users: "users (ad_db (as_db (fst (snd (sendCode e c v purpose s))))) = users (ad_db (as_db s))"
  by (auto simp: sendCode_def try_db_def thenDo_def PutCode_def exec_db_def send_mail_def UpsertEmailCode_def put_code_def
      emit_def refuse_def give_def broken_def faulty_def split: option.split sum.split prod.split if_splits)

lemma repo_CreateUser_taken:
  assumes "account_of c m s = Some v"
  shows "\<exists>x. repo_CreateUser e n (normEmail c m) h s = (Inl x, s, [])"
  using exists_account [OF assms]
  by (auto simp: repo_CreateUser_def alter_db_def faulty_def CreateUser_def insert_user_def fresh_user_def split: if_splits)

lemma second_password_is_dropped:
  assumes "account_of c m s = Some v"
  shows "users (ad_db (as_db (fst (snd (Register e c n m p s))))) = users (ad_db (as_db s))"
proof -
  obtain x where x: "users_Register e c n m p s = (Inl x, s, [])"
  proof -
    obtain y where "repo_CreateUser e (NormalizeUsername c n) (normEmail c m) (ac_hashPw c p) s = (Inl y, s, [])"
      using repo_CreateUser_taken [OF assms] by blast
    then have "\<exists>x. users_Register e c n m p s = (Inl x, s, [])"
      by (simp add: users_Register_def Let_def HashPassword_def refuse_def broken_def thenDo_def give_def)
    then show ?thesis using that by blast
  qed
  obtain r s1 es1 where g: "GetUserByEmail e (normEmail c m) s = (r, s1, es1)" by (metis prod_cases3)
  then have "s1 = s" by (simp add: GetUserByEmail_same)
  then show ?thesis
    using sendCode_users by (auto simp: Register_def inspect_def x thenDo_def g pass_on_def send_mail_def refuse_def emit_def
        split: sum.split prod.split) (metis fst_conv snd_conv)
qed

text \<open>Two requests that rotate one refresh token at the same time both get a session.\<close>

lemma rotate_works:
  assumes "calm e" "lets_in u s" "auth_inv (as_db s)" "ae_refresh e = Some k"
    and new: "\<not> exists_row (\<lambda>r. rt_token r = ac_hashToken c k) (refresh_tokens (as_db s))"
  obtains t' where "Refresh_rotate e c t u s = (Inr (MakeJWT u (ae_now e) (ac_accessTTL c), k), t', [])"
    "lets_in u t'" "auth_inv (as_db t')"
    "rt_token ` set (refresh_tokens (as_db t')) = insert (ac_hashToken c k) (rt_token ` set (refresh_tokens (as_db s)))"
proof -
  have f: "\<not> ae_fails e x" for x using assms(1) by (simp add: calm_def)
  let ?d = "RevokeRefreshToken (ae_dbnow e) (ac_hashToken c t) (as_db s)"
  let ?t = "TouchLastSeen (pgTime (ae_now e)) u ?d"
  have us: "users (ad_db ?d) = users (ad_db (as_db s))" by (simp add: RevokeRefreshToken_def revoke_rows_def)
  obtain v where v: "v \<in> set (users (ad_db (as_db s)))" "u_id v = u" "u_banned_at v = None"
    using assms(2) by (auto simp: lets_in_def exists_row_def)
  then have "find_user u (ad_db (as_db s)) = Some v"
    using assms(3) by (auto simp: find_user_def auth_inv_defs intro: find_row_eqI)
  then have ban: "UserBan u ?d = Inr (None, u_banned_until v)" using v us by (simp add: UserBan_def find_user_def)
  have "user_exists u (ad_db ?d)" using v us by (auto simp: user_exists_def exists_row_def)
  then have ex: "user_exists u (ad_db ?t)" by (simp add: TouchLastSeen_def user_exists_set_user)
  have tk: "map rt_token (refresh_tokens ?t) = map rt_token (refresh_tokens (as_db s))"
    by (simp add: TouchLastSeen_def RevokeRefreshToken_def revoke_rows_def map_update_rows)
  have tks: "rt_token ` set (refresh_tokens ?t) = rt_token ` set (refresh_tokens (as_db s))"
    using arg_cong [OF tk, of set] by simp
  have "ac_hashToken c k \<notin> rt_token ` set (refresh_tokens ?t)"
    unfolding tks using new by (auto simp: exists_row_def)
  then have new': "\<not> exists_row (\<lambda>r. rt_token r = ac_hashToken c k) (refresh_tokens ?t)"
    by (auto simp: exists_row_def image_iff)
  define t' where "t' = s\<lparr>as_db := ?t\<lparr>refresh_tokens := refresh_tokens ?t @ [\<lparr>rt_token = ac_hashToken c k, rt_created_at = ae_dbnow e,
      rt_updated_at = ae_dbnow e, rt_user_id = u, rt_expire_at = pgTime (ae_now e + ac_refreshTTL c), rt_revoked_at = None\<rparr>]\<rparr>\<rparr>"
  have eq: "Refresh_rotate e c t u s = (Inr (MakeJWT u (ae_now e) (ac_accessTTL c), k), t', [])"
    using f ban ex new' assms(4)
    by (simp add: Refresh_rotate_def Revoke_def thenDo_def exec_db_def issue_def ask_db_def CreateRefreshToken_def
        CreateARefreshToken_def give_def t'_def)
  have "lets_in u t'"
    using eq unfolding Refresh_rotate_def by (rule thenDoE) (auto dest: issue_lets_in)
  moreover have "auth_inv (as_db t')"
  proof -
    have "moves keeps_inv (Refresh_rotate e c t u)"
      unfolding Refresh_rotate_def by (intro ki.moves_thenDo ki.moves_Revoke ki.moves_issue) simp
    then have "keeps_inv s (fst (snd (Refresh_rotate e c t u s)))" by (simp add: moves_def)
    then show ?thesis using eq assms(3) by (simp add: keeps_inv_def)
  qed
  ultimately show ?thesis using that [OF eq] tks by (simp add: t'_def)
qed

lemma refresh_race:
  assumes "Refresh_check e c t s = (Inr u, s, [])" "Refresh_check e' c t s = (Inr u, s, [])"
    and "calm e" "calm e'" "lets_in u s" "auth_inv (as_db s)" "ae_refresh e = Some k" "ae_refresh e' = Some k'"
    and "ac_hashToken c k \<noteq> ac_hashToken c k'"
    and "\<not> exists_row (\<lambda>r. rt_token r = ac_hashToken c k) (refresh_tokens (as_db s))"
      "\<not> exists_row (\<lambda>r. rt_token r = ac_hashToken c k') (refresh_tokens (as_db s))"
  shows "\<exists>s1 s2. Refresh_rotate e c t u s = (Inr (MakeJWT u (ae_now e) (ac_accessTTL c), k), s1, []) \<and>
    Refresh_rotate e' c t u s1 = (Inr (MakeJWT u (ae_now e') (ac_accessTTL c), k'), s2, [])"
proof -
  obtain s1 where s1: "Refresh_rotate e c t u s = (Inr (MakeJWT u (ae_now e) (ac_accessTTL c), k), s1, [])"
    "lets_in u s1" "auth_inv (as_db s1)"
    "rt_token ` set (refresh_tokens (as_db s1)) = insert (ac_hashToken c k) (rt_token ` set (refresh_tokens (as_db s)))"
    by (rule rotate_works [OF assms(3,5,6,7,10)])
  have "ac_hashToken c k' \<notin> rt_token ` set (refresh_tokens (as_db s1))"
    using assms(9,11) unfolding s1(4) by (auto simp: exists_row_def)
  then have "\<not> exists_row (\<lambda>r. rt_token r = ac_hashToken c k') (refresh_tokens (as_db s1))"
    by (auto simp: exists_row_def image_iff)
  from rotate_works [OF assms(4) s1(2,3) assms(8) this, of t] s1(1) show ?thesis by metis
qed

text \<open>
  A minute must pass between two mails, says the comment; but a code that was used up, or guessed at
  five times, is gone, and the next request for one is served at once.
\<close>

lemma resent_at_once:
  assumes "stored (u_id v) purpose s = None" "calm e" "user_exists (u_id v) (ad_db (as_db s))"
  shows "\<exists>m s'. sendCode e c v purpose s = (Inr (), s', [SendMail m])"
proof -
  obtain pin where pin: "newCode e = Some pin" using newCode_calm assms(2) by blast
  obtain s' where "PutCode e (u_id v) purpose (hashCode c (u_id v) purpose pin) (ae_now e) (ae_now e + codeTTL) s = (Inr (), s', [])"
    using PutCode_calm assms(2,3) by blast
  then show ?thesis
    using assms pin by (simp add: sendCode_def try_db_def GetCode_def GetEmailCode_def one_row_def stored_def faulty_def
        sent_recently_def thenDo_def send_mail_calm calm_def)
qed

end
