(* ===== verification/Ops.thy ===== *)
theory Ops
  imports Prelude
begin

text \<open>
  Operations that change a state and may fail, composed: what was done before an error stays done. Used
  by the packages modelled from here on.
\<close>

named_theorems keeps

type_synonym ('s, 'e, 'a) op = "'s \<Rightarrow> ('e fail + 'a) \<times> 's"

definition ret :: "'a \<Rightarrow> ('s, 'e, 'a) op" where
  "ret a s = (Inr a, s)"

definition stop :: "'e \<Rightarrow> ('s, 'e, 'a) op" where
  "stop err s = (Inl (Sentinel err), s)"

definition break_off :: "'e fail \<Rightarrow> ('s, 'e, 'a) op" where
  "break_off x s = (Inl x, s)"

text \<open>\<open>x, err := m(); if err != nil { return err }; \<dots>\<close>, and a call whose error the code looks at.\<close>

definition andDo :: "('s, 'e, 'a) op \<Rightarrow> ('a \<Rightarrow> ('s, 'e, 'b) op) \<Rightarrow> ('s, 'e, 'b) op" where
  "andDo m f s = (case m s of (Inl x, s') \<Rightarrow> (Inl x, s') | (Inr a, s') \<Rightarrow> f a s')"

definition attempt :: "('s, 'e, 'a) op \<Rightarrow> ('e fail + 'a \<Rightarrow> ('s, 'e, 'b) op) \<Rightarrow> ('s, 'e, 'b) op" where
  "attempt m f s = (case m s of (r, s') \<Rightarrow> f r s')"

text \<open>A query, a statement, a statement that returns something. A failing one has no effect.\<close>

definition sql_query :: "bool \<Rightarrow> ('s \<Rightarrow> dberr + 'a) \<Rightarrow> ('s, 'e, 'a) op" where
  "sql_query flt q s = (case faulty flt (q s) of Inl x \<Rightarrow> (Inl (DbFail x), s) | Inr a \<Rightarrow> (Inr a, s))"

definition alter :: "bool \<Rightarrow> ('s \<Rightarrow> dberr + 'a \<times> 's) \<Rightarrow> ('s, 'e, 'a) op" where
  "alter flt q s = (case faulty flt (q s) of Inl x \<Rightarrow> (Inl (DbFail x), s) | Inr (a, s') \<Rightarrow> (Inr a, s'))"

definition exec :: "bool \<Rightarrow> ('s \<Rightarrow> dberr + 's) \<Rightarrow> ('s, 'e, unit) op" where
  "exec flt q s = (case faulty flt (q s) of Inl x \<Rightarrow> (Inl (DbFail x), s) | Inr s' \<Rightarrow> (Inr (), s'))"

text \<open>\<open>errors.Is(err, pgx.ErrNoRows)\<close> becomes an error of the package.\<close>

definition or_none :: "'e \<Rightarrow> ('s, 'e, 'a) op \<Rightarrow> ('s, 'e, 'a) op" where
  "or_none err m s = (case m s of (Inl x, s') \<Rightarrow> (Inl (if x = DbFail NoRows then Sentinel err else x), s') | r \<Rightarrow> r)"

text \<open>\<^verbatim>\<open>pgx.BeginFunc\<close>: nothing of a body that fails, or cannot be committed, is kept.\<close>

definition atomically :: "bool \<Rightarrow> ('s, 'e, 'a) op \<Rightarrow> ('s, 'e, 'a) op" where
  "atomically flt m s = (case m s of (Inl x, _) \<Rightarrow> (Inl x, s)
     | (Inr a, s') \<Rightarrow> if flt then (Inl (DbFail OtherDb), s) else (Inr a, s'))"

fun each :: "('x \<Rightarrow> ('s, 'e, 'a) op) \<Rightarrow> 'x list \<Rightarrow> ('s, 'e, 'a list) op" where
  "each f [] = ret []"
| "each f (x # xs) = andDo (f x) (\<lambda>a. andDo (each f xs) (\<lambda>as. ret (a # as)))"

section \<open>Results\<close>

lemma andDo_Inr: "andDo m f s = (Inr b, t) \<longleftrightarrow> (\<exists>a s'. m s = (Inr a, s') \<and> f a s' = (Inr b, t))"
  by (auto simp: andDo_def split: prod.splits sum.splits)

lemma andDoE:
  assumes "andDo m f s = (Inr b, t)"
  obtains a s' where "m s = (Inr a, s')" "f a s' = (Inr b, t)"
  using assms unfolding andDo_Inr by blast

lemma andDo_at: "m s = (Inr a, s') \<Longrightarrow> andDo m f s = f a s'"
  by (simp add: andDo_def)

lemma andDo_stopped: "m s = (Inl x, s') \<Longrightarrow> andDo m f s = (Inl x, s')"
  by (simp add: andDo_def)

lemma ret_Inr [simp]: "ret a s = (Inr b, t) \<longleftrightarrow> b = a \<and> t = s"
  by (auto simp: ret_def)

lemma stop_Inr [simp]: "stop err s \<noteq> (Inr b, t)"
  by (simp add: stop_def)

lemma break_off_Inr [simp]: "break_off x s \<noteq> (Inr b, t)"
  by (simp add: break_off_def)

lemma sql_query_Inr [simp]: "sql_query flt q s = (Inr a, t) \<longleftrightarrow> \<not> flt \<and> q s = Inr a \<and> t = s"
  by (auto simp: sql_query_def split: sum.splits)

lemma alter_Inr [simp]: "alter flt q s = (Inr a, t) \<longleftrightarrow> \<not> flt \<and> q s = Inr (a, t)"
  by (auto simp: alter_def split: sum.splits)

lemma exec_Inr [simp]: "exec flt q s = (Inr u, t) \<longleftrightarrow> \<not> flt \<and> q s = Inr t"
  by (auto simp: exec_def split: sum.splits)

lemma or_none_Inr [simp]: "or_none err m s = (Inr a, t) \<longleftrightarrow> m s = (Inr a, t)"
  by (auto simp: or_none_def split: prod.splits sum.splits)

lemma sql_query_same: "sql_query flt q s = (r, t) \<Longrightarrow> t = s"
  by (auto simp: sql_query_def split: sum.splits)

lemma atomically_Inr [simp]: "atomically flt m s = (Inr a, t) \<longleftrightarrow> \<not> flt \<and> m s = (Inr a, t)"
  by (auto simp: atomically_def split: prod.splits sum.splits)

lemma atomically_Inl: "atomically flt m s = (Inl x, t) \<Longrightarrow> t = s"
  by (auto simp: atomically_def split: prod.splits sum.splits if_splits)

lemma or_none_state [simp]: "snd (or_none err m s) = snd (m s)"
  by (simp add: or_none_def split: prod.split sum.split)

section \<open>What an operation keeps, whatever it answers\<close>

definition holds_after :: "('s \<Rightarrow> bool) \<Rightarrow> ('s, 'e, 'a) op \<Rightarrow> bool" where
  "holds_after P m \<longleftrightarrow> (\<forall>s. P s \<longrightarrow> P (snd (m s)))"

lemma holds_afterD: "holds_after P m \<Longrightarrow> P s \<Longrightarrow> m s = (r, t) \<Longrightarrow> P t"
  unfolding holds_after_def by (metis snd_conv)

lemma holds_ret [keeps]: "holds_after P (ret a)" and holds_stop [keeps]: "holds_after P (stop err)"
  and holds_break_off [keeps]: "holds_after P (break_off x)"
  by (simp_all add: holds_after_def ret_def stop_def break_off_def)

lemma holds_sql_query [keeps]: "holds_after P (sql_query flt q)"
  by (simp add: holds_after_def sql_query_def split: sum.split)

lemma holds_andDo [keeps]: "holds_after P m \<Longrightarrow> (\<And>a. holds_after P (f a)) \<Longrightarrow> holds_after P (andDo m f)"
  unfolding holds_after_def andDo_def by (auto split: prod.split sum.split)

lemma holds_attempt [keeps]: "holds_after P m \<Longrightarrow> (\<And>r. holds_after P (f r)) \<Longrightarrow> holds_after P (attempt m f)"
  unfolding holds_after_def attempt_def by (auto split: prod.split)

lemma holds_atomically [keeps]: "holds_after P m \<Longrightarrow> holds_after P (atomically flt m)"
  unfolding holds_after_def atomically_def by (auto split: prod.split sum.split)

lemma holds_or_none [keeps]: "holds_after P m \<Longrightarrow> holds_after P (or_none err m)"
  by (simp add: holds_after_def)

lemma holds_if [keeps]: "holds_after P m \<Longrightarrow> holds_after P m' \<Longrightarrow> holds_after P (if b then m else m')"
  by simp

lemma holds_exec: "(\<And>s t. P s \<Longrightarrow> q s = Inr t \<Longrightarrow> P t) \<Longrightarrow> holds_after P (exec flt q)"
  by (auto simp: holds_after_def exec_def faulty_def split: sum.splits if_splits)

lemma holds_alter: "(\<And>s a t. P s \<Longrightarrow> q s = Inr (a, t) \<Longrightarrow> P t) \<Longrightarrow> holds_after P (alter flt q)"
  by (auto simp: holds_after_def alter_def faulty_def split: sum.splits if_splits)

lemma holds_each [keeps]: "(\<And>x. holds_after P (f x)) \<Longrightarrow> holds_after P (each f xs)"
  by (induction xs) (simp_all add: holds_ret holds_andDo)

lemma holds_each_on: "(\<And>x. x \<in> set xs \<Longrightarrow> holds_after P (f x)) \<Longrightarrow> holds_after P (each f xs)"
  by (induction xs) (simp_all add: holds_ret holds_andDo)

lemma each_Inr_length: "each f xs s = (Inr ys, t) \<Longrightarrow> length ys = length xs"
  by (induction xs arbitrary: s ys) (auto elim!: andDoE)

end
