(* ===== verification/Media_DB.thy ===== *)
theory Media_DB
  imports Chat_DB Ops
begin

text \<open>
  The tables of photos, videos and files, and their statements: \<^verbatim>\<open>database/media.sql.go\<close> with the
  constraints of \<^verbatim>\<open>sql/schema\<close> 035, 036, 040 and 046.
\<close>

record medium =
  md_id :: uuid
  md_owner_id :: "uuid option"
  md_kind :: string
  md_content_type :: string
  md_size :: int
  md_status :: string
  md_chat_type :: "string option"
  md_chat_id :: "uuid option"
  md_message_id :: "uuid option"
  md_created_at :: time
  md_expires_at :: time
  md_delivered_at :: "time option"
  md_last_access_at :: time
  md_deleted_at :: "time option"
  md_duration_ms :: "int option"
  md_width :: "int option"
  md_height :: "int option"
  md_has_thumbnail :: bool
  md_file_name :: "string option"
  md_waveform :: "nat list"

record media_download =
  dl_media_id :: uuid
  dl_user_id :: uuid

record media_db =
  mb_db :: db
  media :: "medium list"
  media_downloads :: "media_download list"

definition status_pending :: string where "status_pending = ''pending''"
definition status_ready :: string where "status_ready = ''ready''"

definition set_media :: "(medium list \<Rightarrow> medium list) \<Rightarrow> media_db \<Rightarrow> media_db" where
  "set_media f d = d\<lparr>media := f (media d)\<rparr>"

definition within :: "int \<Rightarrow> int \<Rightarrow> int option \<Rightarrow> bool" where
  "within lo hi x = (case x of None \<Rightarrow> True | Some n \<Rightarrow> lo \<le> n \<and> n \<le> hi)"

definition some_text :: "string option \<Rightarrow> string" where
  "some_text x = (case x of None \<Rightarrow> [] | Some s \<Rightarrow> s)"

definition medium_check :: "medium \<Rightarrow> bool" where
  "medium_check m \<longleftrightarrow> md_kind m \<in> {''image'', ''video'', ''file'', ''voice''} \<and> 0 < md_size m \<and>
     within 1 600000 (md_duration_ms m) \<and> within 1 8192 (md_width m) \<and> within 1 8192 (md_height m) \<and>
     RuneCountInString (some_text (md_file_name m)) \<le> 200 \<and> length (md_waveform m) \<le> 128"

section \<open>Uploads\<close>

text \<open>The row of a new upload: \<open>status\<close> and \<open>has_thumbnail\<close> have their defaults.\<close>

record CreateMediaParams =
  cm_ID :: uuid
  cm_OwnerID :: uuid
  cm_Kind :: string
  cm_ContentType :: string
  cm_Size :: int
  cm_Now :: time
  cm_ExpiresAt :: time
  cm_DurationMs :: "int option"
  cm_Width :: "int option"
  cm_Height :: "int option"
  cm_FileName :: "string option"
  cm_Waveform :: "nat list"

definition new_medium :: "CreateMediaParams \<Rightarrow> medium" where
  "new_medium a = \<lparr>md_id = cm_ID a, md_owner_id = Some (cm_OwnerID a), md_kind = cm_Kind a, md_content_type = cm_ContentType a,
     md_size = cm_Size a, md_status = status_pending, md_chat_type = None, md_chat_id = None, md_message_id = None,
     md_created_at = cm_Now a, md_expires_at = cm_ExpiresAt a, md_delivered_at = None, md_last_access_at = cm_Now a,
     md_deleted_at = None, md_duration_ms = cm_DurationMs a, md_width = cm_Width a, md_height = cm_Height a,
     md_has_thumbnail = False, md_file_name = cm_FileName a, md_waveform = cm_Waveform a\<rparr>"

definition CreateMedia :: "CreateMediaParams \<Rightarrow> media_db \<Rightarrow> dberr + media_db" where
  "CreateMedia a d =
     (if \<not> (text_ok (cm_ContentType a) \<and> text_ok (some_text (cm_FileName a))) then Inl DataException
      else if \<not> medium_check (new_medium a) then Inl CheckViolation
      else if exists_row (\<lambda>m. md_id m = cm_ID a) (media d) then Inl (UniqueViolation ''media_pkey'')
      else if \<not> user_exists (cm_OwnerID a) (mb_db d) then Inl ForeignKeyViolation
      else Inr (set_media (\<lambda>rows. rows @ [new_medium a]) d))"

definition GetMedia :: "uuid \<Rightarrow> media_db \<Rightarrow> dberr + medium" where
  "GetMedia i d = one_row (find_row (\<lambda>m. md_id m = i) (media d))"

text \<open>\<^verbatim>\<open>:execrows\<close>: how many rows changed.\<close>

definition attachable :: "uuid \<Rightarrow> uuid \<Rightarrow> medium \<Rightarrow> bool" where
  "attachable i owner m \<longleftrightarrow> md_id m = i \<and> md_owner_id m = Some owner \<and> md_status m = status_pending \<and> md_deleted_at m = None"

definition AttachMedia :: "uuid \<Rightarrow> uuid \<Rightarrow> string \<Rightarrow> uuid \<Rightarrow> uuid \<Rightarrow> media_db \<Rightarrow> dberr + nat \<times> media_db" where
  "AttachMedia i owner ct chat msg d =
     (if exists_row (attachable i owner) (media d) \<and> ct \<notin> {''private'', ''public''} then Inl CheckViolation
      else Inr (length (filter (attachable i owner) (media d)),
        set_media (update_rows (attachable i owner) (\<lambda>m. m\<lparr>md_status := status_ready, md_chat_type := Some ct,
          md_chat_id := Some chat, md_message_id := Some msg\<rparr>)) d))"

definition MediaForMessages :: "uuid list \<Rightarrow> media_db \<Rightarrow> dberr + medium list" where
  "MediaForMessages ids d = Inr (sort_key md_created_at (sort_key md_id
     (filter (\<lambda>m. case md_message_id m of None \<Rightarrow> False | Some i \<Rightarrow> i \<in> set ids) (media d))))"

section \<open>Limits\<close>

definition live :: "medium \<Rightarrow> bool" where
  "live m \<longleftrightarrow> md_deleted_at m = None"

definition MediaStoredBytes :: "media_db \<Rightarrow> dberr + int" where
  "MediaStoredBytes d = Inr (sum_list (map md_size (filter live (media d))))"

text \<open>\<open>>=\<close> here and \<open>>\<close> there, as the queries have it.\<close>

definition MediaUploadedSince :: "uuid \<Rightarrow> time \<Rightarrow> media_db \<Rightarrow> dberr + int" where
  "MediaUploadedSince owner since d =
     Inr (sum_list (map md_size (filter (\<lambda>m. md_owner_id m = Some owner \<and> since \<le> md_created_at m) (media d))))"

definition MediaCreatedSince :: "uuid \<Rightarrow> time \<Rightarrow> media_db \<Rightarrow> dberr + int" where
  "MediaCreatedSince owner since d =
     Inr (int (length (filter (\<lambda>m. md_owner_id m = Some owner \<and> since < md_created_at m) (media d))))"

section \<open>Downloads\<close>

definition GroupMediaVisible :: "uuid option \<Rightarrow> uuid \<Rightarrow> uuid \<Rightarrow> time \<Rightarrow> media_db \<Rightarrow> dberr + bool" where
  "GroupMediaVisible msg gid viewer uploaded d =
     (let sent = (case find_row (\<lambda>g. Some (gm_id g) = msg) (groupmessage (mb_db d)) of
                    None \<Rightarrow> uploaded | Some g \<Rightarrow> gm_created_at g) in
      Inr (exists_row (\<lambda>m. mt_group_id m = gid \<and> mt_member_id m = viewer \<and> mt_joined_at m \<le> sent) (member_table (mb_db d))))"

definition RecordMediaDownload :: "time \<Rightarrow> uuid \<Rightarrow> uuid \<Rightarrow> media_db \<Rightarrow> dberr + media_db" where
  "RecordMediaDownload now i u d =
     (let row = \<lparr>dl_media_id = i, dl_user_id = u\<rparr>; known = (row \<in> set (media_downloads d)) in
      if \<not> known \<and> \<not> (exists_row (\<lambda>m. md_id m = i) (media d) \<and> user_exists u (mb_db d)) then Inl ForeignKeyViolation
      else Inr (set_media (update_rows (\<lambda>m. md_id m = i) (\<lambda>m. m\<lparr>md_last_access_at := now\<rparr>))
        (d\<lparr>media_downloads := media_downloads d @ (if known then [] else [row])\<rparr>)))"

definition CountMediaDownloads :: "uuid \<Rightarrow> media_db \<Rightarrow> dberr + int" where
  "CountMediaDownloads i d = Inr (int (length (filter (\<lambda>r. dl_media_id r = i) (media_downloads d))))"

definition MarkMediaDelivered :: "time \<Rightarrow> uuid \<Rightarrow> media_db \<Rightarrow> dberr + media_db" where
  "MarkMediaDelivered now i d = Inr (set_media (update_rows (\<lambda>m. md_id m = i \<and> md_delivered_at m = None)
     (\<lambda>m. m\<lparr>md_delivered_at := Some now\<rparr>)) d)"

section \<open>Expiry\<close>

definition ExpireMediaOfGroup :: "time \<Rightarrow> uuid \<Rightarrow> media_db \<Rightarrow> dberr + media_db" where
  "ExpireMediaOfGroup now gid d = Inr (set_media (update_rows
     (\<lambda>m. md_chat_type m = Some ''public'' \<and> md_chat_id m = Some gid \<and> live m) (\<lambda>m. m\<lparr>md_expires_at := now\<rparr>)) d)"

definition ExpireMediaOfMessage :: "time \<Rightarrow> uuid \<Rightarrow> media_db \<Rightarrow> dberr + media_db" where
  "ExpireMediaOfMessage now msg d = Inr (set_media (update_rows
     (\<lambda>m. md_message_id m = Some msg \<and> live m) (\<lambda>m. m\<lparr>md_expires_at := now\<rparr>)) d)"

definition before :: "time option \<Rightarrow> time \<Rightarrow> bool" where
  "before x t = (case x of None \<Rightarrow> False | Some y \<Rightarrow> y < t)"

definition due :: "time \<Rightarrow> time \<Rightarrow> time \<Rightarrow> medium \<Rightarrow> bool" where
  "due deliveredBefore now pendingBefore m \<longleftrightarrow> live m \<and>
     (before (md_delivered_at m) deliveredBefore \<or> md_expires_at m < now \<or> md_owner_id m = None \<or>
      md_status m = status_pending \<and> md_created_at m < pendingBefore)"

text \<open>Any 500 rows that are due: in the order of the table, here.\<close>

definition MediaToDelete :: "time \<Rightarrow> time \<Rightarrow> time \<Rightarrow> media_db \<Rightarrow> dberr + uuid list" where
  "MediaToDelete deliveredBefore now pendingBefore d =
     Inr (map md_id (take 500 (filter (due deliveredBefore now pendingBefore) (media d))))"

definition LeastRecentlyUsedMedia :: "media_db \<Rightarrow> dberr + (uuid \<times> int) list" where
  "LeastRecentlyUsedMedia d = Inr (map (\<lambda>m. (md_id m, md_size m)) (take 500
     (sort_key md_last_access_at (sort_key md_created_at (filter live (media d))))))"

definition MarkMediaDeleted :: "time \<Rightarrow> uuid list \<Rightarrow> media_db \<Rightarrow> dberr + media_db" where
  "MarkMediaDeleted now ids d = Inr (set_media (update_rows (\<lambda>m. md_id m \<in> set ids) (\<lambda>m. m\<lparr>md_deleted_at := Some now\<rparr>)) d)"

section \<open>Thumbnails\<close>

definition thumbable :: "uuid \<Rightarrow> uuid \<Rightarrow> medium \<Rightarrow> bool" where
  "thumbable i owner m \<longleftrightarrow> md_id m = i \<and> md_owner_id m = Some owner \<and> md_kind m = ''video'' \<and> live m \<and> \<not> md_has_thumbnail m"

definition SetThumbnail_sql :: "uuid \<Rightarrow> uuid \<Rightarrow> media_db \<Rightarrow> dberr + nat \<times> media_db" where
  "SetThumbnail_sql i owner d = Inr (length (filter (thumbable i owner) (media d)),
     set_media (update_rows (thumbable i owner) (\<lambda>m. m\<lparr>md_has_thumbnail := True\<rparr>)) d)"

definition ThumbnailsOf :: "uuid list \<Rightarrow> media_db \<Rightarrow> dberr + uuid list" where
  "ThumbnailsOf ids d = Inr (map md_id (filter (\<lambda>m. md_id m \<in> set ids \<and> md_has_thumbnail m) (media d)))"

end
