(* ===== verification/Push.thy ===== *)
theory Push
  imports Chat_DB Chat Http Ops
begin

text \<open>
  \<^verbatim>\<open>push/push.go\<close>, \<^verbatim>\<open>push/handler.go\<close> and \<^verbatim>\<open>database/push.sql.go\<close> with the constraints of
  \<^verbatim>\<open>sql/schema/034\<close>: which phones hear of what, and what a user sets. What Firebase answers is a parameter.
\<close>

section \<open>Tables\<close>

record user_device =
  ud_token :: string
  ud_user_id :: uuid
  ud_platform :: string
  ud_created_at :: time
  ud_last_seen_at :: time

record notification_pref =
  np_user_id :: uuid
  np_private :: bool
  np_groups :: bool
  np_friends :: bool
  np_reactions :: bool

record chat_mute =
  mu_user_id :: uuid
  mu_chat_type :: string
  mu_chat_id :: uuid
  mu_until :: "time option"

record push_db =
  pb_db :: db
  user_devices :: "user_device list"
  notification_prefs :: "notification_pref list"
  chat_mutes :: "chat_mute list"

section \<open>Statements\<close>

definition UpsertDevice :: "time \<Rightarrow> string \<Rightarrow> uuid \<Rightarrow> string \<Rightarrow> push_db \<Rightarrow> dberr + push_db" where
  "UpsertDevice now token u platform d =
     (if \<not> (text_ok token \<and> text_ok platform) then Inl DataException
      else if \<not> (1 \<le> RuneCountInString token \<and> RuneCountInString token \<le> 4096) then Inl CheckViolation
      else if \<not> user_exists u (pb_db d) then Inl ForeignKeyViolation
      else Inr (d\<lparr>user_devices := (if exists_row (\<lambda>r. ud_token r = token) (user_devices d)
        then update_rows (\<lambda>r. ud_token r = token) (\<lambda>r. r\<lparr>ud_user_id := u, ud_platform := platform, ud_last_seen_at := now\<rparr>) (user_devices d)
        else user_devices d @ [\<lparr>ud_token = token, ud_user_id = u, ud_platform = platform, ud_created_at = now, ud_last_seen_at = now\<rparr>])\<rparr>))"

definition DeleteDevice :: "string \<Rightarrow> uuid \<Rightarrow> push_db \<Rightarrow> push_db" where
  "DeleteDevice token u d = d\<lparr>user_devices := delete_rows (\<lambda>r. ud_token r = token \<and> ud_user_id r = u) (user_devices d)\<rparr>"

definition DeleteUserDevices :: "uuid \<Rightarrow> push_db \<Rightarrow> push_db" where
  "DeleteUserDevices u d = d\<lparr>user_devices := delete_rows (\<lambda>r. ud_user_id r = u) (user_devices d)\<rparr>"

definition DeleteDeadTokens :: "string list \<Rightarrow> push_db \<Rightarrow> push_db" where
  "DeleteDeadTokens tokens d = d\<lparr>user_devices := delete_rows (\<lambda>r. ud_token r \<in> set tokens) (user_devices d)\<rparr>"

definition GetNotificationPrefs :: "uuid \<Rightarrow> push_db \<Rightarrow> dberr + notification_pref" where
  "GetNotificationPrefs u d = one_row (find_row (\<lambda>p. np_user_id p = u) (notification_prefs d))"

definition SetNotificationPrefs :: "notification_pref \<Rightarrow> push_db \<Rightarrow> dberr + push_db" where
  "SetNotificationPrefs p d =
     (if \<not> user_exists (np_user_id p) (pb_db d) then Inl ForeignKeyViolation
      else Inr (d\<lparr>notification_prefs := (if exists_row (\<lambda>r. np_user_id r = np_user_id p) (notification_prefs d)
        then update_rows (\<lambda>r. np_user_id r = np_user_id p) (\<lambda>_. p) (notification_prefs d)
        else notification_prefs d @ [p])\<rparr>))"

definition of_chat :: "uuid \<Rightarrow> string \<Rightarrow> uuid \<Rightarrow> chat_mute \<Rightarrow> bool" where
  "of_chat u ct chat m \<longleftrightarrow> mu_user_id m = u \<and> mu_chat_type m = ct \<and> mu_chat_id m = chat"

definition SetMute :: "uuid \<Rightarrow> string \<Rightarrow> uuid \<Rightarrow> time option \<Rightarrow> push_db \<Rightarrow> dberr + push_db" where
  "SetMute u ct chat until d =
     (if ct \<notin> {''private'', ''public''} then Inl CheckViolation
      else if \<not> user_exists u (pb_db d) then Inl ForeignKeyViolation
      else Inr (d\<lparr>chat_mutes := (if exists_row (of_chat u ct chat) (chat_mutes d)
        then update_rows (of_chat u ct chat) (\<lambda>m. m\<lparr>mu_until := until\<rparr>) (chat_mutes d)
        else chat_mutes d @ [\<lparr>mu_user_id = u, mu_chat_type = ct, mu_chat_id = chat, mu_until = until\<rparr>])\<rparr>))"

definition DeleteMute :: "uuid \<Rightarrow> string \<Rightarrow> uuid \<Rightarrow> push_db \<Rightarrow> push_db" where
  "DeleteMute u ct chat d = d\<lparr>chat_mutes := delete_rows (of_chat u ct chat) (chat_mutes d)\<rparr>"

definition still_on :: "time \<Rightarrow> chat_mute \<Rightarrow> bool" where
  "still_on now m \<longleftrightarrow> (case mu_until m of None \<Rightarrow> True | Some t \<Rightarrow> now < t)"

definition ListMutes_sql :: "uuid \<Rightarrow> time \<Rightarrow> push_db \<Rightarrow> chat_mute list" where
  "ListMutes_sql u now d = sort_key mu_chat_type (sort_key mu_chat_id (filter (\<lambda>m. mu_user_id m = u \<and> still_on now m) (chat_mutes d)))"

definition wants :: "string \<Rightarrow> notification_pref option \<Rightarrow> bool" where
  "wants kind p =
     (let on = (\<lambda>f. case p of None \<Rightarrow> True | Some x \<Rightarrow> f x) in
      if kind = ''private'' then on np_private
      else if kind = ''public'' then on np_groups
      else if kind = ''friends'' then on np_friends
      else if kind = ''reactions'' then on np_reactions
      else kind = ''calls'')"

definition muted :: "uuid \<Rightarrow> string \<Rightarrow> uuid \<Rightarrow> time \<Rightarrow> push_db \<Rightarrow> bool" where
  "muted u ct chat now d \<longleftrightarrow> exists_row (\<lambda>m. of_chat u ct chat m \<and> still_on now m) (chat_mutes d)"

definition PushTargets :: "uuid list \<Rightarrow> string \<Rightarrow> string \<Rightarrow> uuid \<Rightarrow> time \<Rightarrow> push_db \<Rightarrow> user_device list" where
  "PushTargets us kind ct chat now d = filter (\<lambda>r. ud_user_id r \<in> set us \<and>
     wants kind (find_row (\<lambda>p. np_user_id p = ud_user_id r) (notification_prefs d)) \<and>
     \<not> muted (ud_user_id r) ct chat now d) (user_devices d)"

section \<open>Queueing\<close>

definition maxPreview :: nat where "maxPreview = 120"

definition ellipsis :: string where "ellipsis = [CHR 0xE2, CHR 0x80, CHR 0xA6]"

text \<open>\<^verbatim>\<open>string([]rune(s)[:n])\<close>: bytes that are not UTF-8 become U+FFFD.\<close>

definition first_runes :: "nat \<Rightarrow> string \<Rightarrow> string" where
  "first_runes n s = concat (map (\<lambda>(r, w). if r = 0xFFFD then [CHR 0xEF, CHR 0xBF, CHR 0xBD] else w) (take n (chunks s)))"

text \<open>The job that is published, if any; a failed \<^verbatim>\<open>Publish\<close> only loses it.\<close>

definition Dispatcher_Notify :: "job \<Rightarrow> job option" where
  "Dispatcher_Notify j =
     (if j_to j = [] then None
      else Some (if RuneCountInString (j_preview j) > maxPreview
        then j\<lparr>j_preview := first_runes (maxPreview - 1) (j_preview j) @ ellipsis\<rparr> else j))"

section \<open>Sending\<close>

record Message =
  pm_Token :: string
  pm_Title :: string
  pm_Body :: string
  pm_Tag :: string
  pm_Data :: "(string \<times> string) list"
  pm_DataOnly :: bool
  pm_TTL :: duration

datatype push_err = ErrBadMute | ErrBadDevice
datatype sent = Delivered | DeadToken | NotSent

datatype push_call = PTargets | PName | PGroupName | PDead | PPrefs | PSetPrefs | PMute | PUnmute | PMutes | PDevice | PRemove | PForget

text \<open>\<open>pe_send\<close>: no Firebase account, or what Firebase answers. \<open>pe_online\<close>: \<^verbatim>\<open>Hub.Online\<close>.\<close>

record push_env =
  pe_fails :: "push_call \<Rightarrow> bool"
  pe_now :: time
  pe_online :: "uuid \<Rightarrow> bool"
  pe_send :: "(Message \<Rightarrow> sent) option"
  pe_name :: "uuid \<Rightarrow> string"
  pe_group :: "uuid \<Rightarrow> string"

type_synonym 'a push_op = "(push_db, push_err, 'a) op"

definition prefKind :: "string \<Rightarrow> string" where
  "prefKind kind =
     (if kind = KindFriendRequest \<or> kind = KindFriendAccept then ''friends''
      else if kind = KindReaction then ''reactions''
      else if kind = KindGroupAdded then KindGroup
      else if kind = KindCall \<or> kind = KindMissedCall then ''calls''
      else kind)"

definition CallRingTTL :: duration where "CallRingTTL = 45 * second"

text \<open>\<open>None\<close>: a name cannot be found out.\<close>

definition render :: "push_env \<Rightarrow> job \<Rightarrow> Message option" where
  "render e j =
     (if pe_fails e PName \<or> (j_group j \<noteq> Nil_uuid \<and> pe_fails e PGroupName) then None
      else (let from = pe_name e (j_from j);
                group = (if j_group j \<noteq> Nil_uuid then pe_group e (j_group j) else []);
                data = [(''type'', j_kind j), (''from_id'', uuid_String (j_from j))] @
                  (if j_msg_id j \<noteq> Nil_uuid then [(''msg_id'', uuid_String (j_msg_id j))] else []) @
                  (if j_group j \<noteq> Nil_uuid then [(''group_id'', uuid_String (j_group j))] else []);
                m = \<lparr>pm_Token = [], pm_Title = [], pm_Body = [], pm_Tag = [], pm_Data = data, pm_DataOnly = False, pm_TTL = 0\<rparr> in
        Some (if j_kind j = KindPrivate then
            m\<lparr>pm_Title := from, pm_Body := j_preview j, pm_Tag := ''dm:'' @ uuid_String (j_from j)\<rparr>
          else if j_kind j = KindGroup then
            m\<lparr>pm_Title := group, pm_Body := from @ '': '' @ j_preview j, pm_Tag := ''group:'' @ uuid_String (j_group j)\<rparr>
          else if j_kind j = KindFriendRequest then
            m\<lparr>pm_Title := ''Friend request'', pm_Body := from @ '' sent you a friend request'', pm_Tag := ''friends''\<rparr>
          else if j_kind j = KindFriendAccept then
            m\<lparr>pm_Title := ''Friend request accepted'', pm_Body := from @ '' accepted your friend request'', pm_Tag := ''friends''\<rparr>
          else if j_kind j = KindGroupAdded then
            m\<lparr>pm_Title := group, pm_Body := from @ '' added you to the group'', pm_Tag := ''group:'' @ uuid_String (j_group j)\<rparr>
          else if j_kind j = KindCall then
            m\<lparr>pm_DataOnly := True, pm_TTL := CallRingTTL, pm_Data := data @ [(''call_id'', uuid_String (j_call_id j)), (''from_name'', from)]\<rparr>
          else if j_kind j = KindMissedCall then
            m\<lparr>pm_Title := ''Missed call'', pm_Body := from, pm_Tag := ''call:'' @ uuid_String (j_from j),
              pm_Data := data @ [(''call_id'', uuid_String (j_call_id j))]\<rparr>
          else if j_kind j = KindReaction then
            m\<lparr>pm_Title := (if group \<noteq> [] then from @ '' in '' @ group else from),
              pm_Body := ''reacted '' @ j_preview j @ '' to your message'', pm_Tag := ''reaction:'' @ uuid_String (j_msg_id j)\<rparr>
          else m)))"

text \<open>\<^verbatim>\<open>Handle\<close> answers what it sent, with what Firebase said.\<close>

definition Handle :: "push_env \<Rightarrow> job \<Rightarrow> (Message \<times> sent) list push_op" where
  "Handle e j =
     (case pe_send e of
        None \<Rightarrow> ret []
      | Some fcm \<Rightarrow>
          (let to = filter (\<lambda>u. \<not> (u = j_from j \<or> pe_online e u)) (j_to j);
               chat = (if j_group j \<noteq> Nil_uuid then (''public'', j_group j) else (''private'', j_from j)) in
           if to = [] then ret []
           else andDo (sql_query (pe_fails e PTargets)
               (\<lambda>d. Inr (PushTargets to (prefKind (j_kind j)) (fst chat) (snd chat) (pgTime (pe_now e)) d))) (\<lambda>targets.
             if targets = [] then ret []
             else (case render e j of
               None \<Rightarrow> break_off (DbFail OtherDb)
             | Some msg \<Rightarrow>
                 (let out = map (\<lambda>t. let m = msg\<lparr>pm_Token := ud_token t\<rparr> in (m, fcm m)) targets;
                      dead = map (pm_Token \<circ> fst) (filter (\<lambda>x. snd x = DeadToken) out) in
                  if dead = [] then ret out
                  else attempt (exec (pe_fails e PDead) (\<lambda>d. Inr (DeleteDeadTokens dead d))) (\<lambda>_. ret out))))))"

section \<open>Settings\<close>

record Prefs_answer =
  pr_Private :: bool
  pr_Groups :: bool
  pr_Friends :: bool
  pr_Reactions :: bool

definition Prefs :: "push_env \<Rightarrow> uuid \<Rightarrow> Prefs_answer push_op" where
  "Prefs e u = attempt (sql_query (pe_fails e PPrefs) (GetNotificationPrefs u)) (\<lambda>r. case r of
     Inl x \<Rightarrow> if x = DbFail NoRows then ret \<lparr>pr_Private = True, pr_Groups = True, pr_Friends = True, pr_Reactions = True\<rparr> else break_off x
   | Inr p \<Rightarrow> ret \<lparr>pr_Private = np_private p, pr_Groups = np_groups p, pr_Friends = np_friends p, pr_Reactions = np_reactions p\<rparr>)"

definition SetPrefs :: "push_env \<Rightarrow> uuid \<Rightarrow> Prefs_answer \<Rightarrow> unit push_op" where
  "SetPrefs e u p = exec (pe_fails e PSetPrefs) (SetNotificationPrefs \<lparr>np_user_id = u, np_private = pr_Private p,
     np_groups = pr_Groups p, np_friends = pr_Friends p, np_reactions = pr_Reactions p\<rparr>)"

record Mute_request =
  mq_Type :: string
  mq_ID :: uuid
  mq_Until :: "time option"

definition Mute :: "push_env \<Rightarrow> uuid \<Rightarrow> Mute_request \<Rightarrow> unit push_op" where
  "Mute e u m =
     (if mq_Type m \<noteq> ''private'' \<and> mq_Type m \<noteq> ''public'' \<or> mq_ID m = Nil_uuid \<or>
         (case mq_Until m of None \<Rightarrow> False | Some t \<Rightarrow> \<not> t > pe_now e) then stop ErrBadMute
      else exec (pe_fails e PMute) (SetMute u (mq_Type m) (mq_ID m) (map_option pgTime (mq_Until m))))"

definition Unmute :: "push_env \<Rightarrow> uuid \<Rightarrow> string \<Rightarrow> uuid \<Rightarrow> unit push_op" where
  "Unmute e u ct chat = exec (pe_fails e PUnmute) (\<lambda>d. if text_ok ct then Inr (DeleteMute u ct chat d) else Inl DataException)"

definition Mutes :: "push_env \<Rightarrow> uuid \<Rightarrow> Mute_request list push_op" where
  "Mutes e u = andDo (sql_query (pe_fails e PMutes) (\<lambda>d. Inr (ListMutes_sql u (pgTime (pe_now e)) d))) (\<lambda>rows.
     ret (map (\<lambda>m. \<lparr>mq_Type = mu_chat_type m, mq_ID = mu_chat_id m, mq_Until = mu_until m\<rparr>) rows))"

definition RegisterDevice :: "push_env \<Rightarrow> uuid \<Rightarrow> string \<Rightarrow> string \<Rightarrow> unit push_op" where
  "RegisterDevice e u token platform0 =
     (let platform = (if platform0 = [] then ''android'' else platform0) in
      if token = [] \<or> length token > 4096 \<or> platform \<notin> {''android'', ''ios'', ''web''} then stop ErrBadDevice
      else exec (pe_fails e PDevice) (UpsertDevice (pgTime (pe_now e)) token u platform))"

definition RemoveDevice :: "push_env \<Rightarrow> uuid \<Rightarrow> string \<Rightarrow> unit push_op" where
  "RemoveDevice e u token = exec (pe_fails e PRemove) (\<lambda>d. if text_ok token then Inr (DeleteDevice token u d) else Inl DataException)"

definition ForgetDevices :: "push_env \<Rightarrow> uuid \<Rightarrow> unit push_op" where
  "ForgetDevices e u = exec (pe_fails e PForget) (\<lambda>d. Inr (DeleteUserDevices u d))"

section \<open>The handlers\<close>

definition push_text :: "push_err \<Rightarrow> string" where
  "push_text err = (case err of
     ErrBadMute \<Rightarrow> ''type must be \"private\" or \"public\", id a uuid, until a future RFC3339 time or null''
   | ErrBadDevice \<Rightarrow> ''token is required (at most 4096 characters); platform is \"android\", \"ios\" or \"web\"'')"

definition push_fail :: "push_err fail \<Rightarrow> 'b resp" where
  "push_fail x = (case x of Sentinel err \<Rightarrow> Error StatusBadRequest (push_text err) | DbFail _ \<Rightarrow> ServerError)"

definition as_user :: "uuid option \<Rightarrow> (uuid \<Rightarrow> 's \<Rightarrow> 'b resp \<times> 's) \<Rightarrow> 's \<Rightarrow> 'b resp \<times> 's" where
  "as_user ctx f s = (case reqctx_User ctx of None \<Rightarrow> (unauthorized, s) | Some me \<Rightarrow> f me s)"

definition reply :: "('a \<Rightarrow> 'b resp) \<Rightarrow> 'a push_op \<Rightarrow> push_db \<Rightarrow> 'b resp \<times> push_db" where
  "reply f m s = (case m s of (Inl x, s') \<Rightarrow> (push_fail x, s') | (Inr a, s') \<Rightarrow> (f a, s'))"

abbreviation no_content :: "unit \<Rightarrow> unit resp" where
  "no_content \<equiv> \<lambda>_. WriteHeader StatusNoContent"

definition RegisterDeviceHandler :: "push_env \<Rightarrow> uuid option \<Rightarrow> (string \<times> string) option \<Rightarrow> push_db \<Rightarrow> unit resp \<times> push_db" where
  "RegisterDeviceHandler e ctx body = as_user ctx (\<lambda>me s. case body of
     None \<Rightarrow> (Error StatusBadRequest ''invalid parameters'', s)
   | Some (token, platform) \<Rightarrow> reply no_content (RegisterDevice e me token platform) s)"

definition RemoveDeviceHandler :: "push_env \<Rightarrow> uuid option \<Rightarrow> (string \<times> string) option \<Rightarrow> push_db \<Rightarrow> unit resp \<times> push_db" where
  "RemoveDeviceHandler e ctx body = as_user ctx (\<lambda>me s. case body of
     None \<Rightarrow> (Error StatusBadRequest ''token is required'', s)
   | Some (token, _) \<Rightarrow> if token = [] then (Error StatusBadRequest ''token is required'', s)
       else reply no_content (RemoveDevice e me token) s)"

definition GetPrefsHandler :: "push_env \<Rightarrow> uuid option \<Rightarrow> push_db \<Rightarrow> Prefs_answer resp \<times> push_db" where
  "GetPrefsHandler e ctx = as_user ctx (\<lambda>me. reply (JSON StatusOK) (Prefs e me))"

definition SetPrefsHandler :: "push_env \<Rightarrow> uuid option \<Rightarrow> Prefs_answer option \<Rightarrow> push_db \<Rightarrow> Prefs_answer resp \<times> push_db" where
  "SetPrefsHandler e ctx body = as_user ctx (\<lambda>me s. case body of
     None \<Rightarrow> (Error StatusBadRequest ''invalid parameters'', s)
   | Some p \<Rightarrow> reply (\<lambda>_. JSON StatusOK p) (SetPrefs e me p) s)"

definition ListMutesHandler :: "push_env \<Rightarrow> uuid option \<Rightarrow> push_db \<Rightarrow> Mute_request list resp \<times> push_db" where
  "ListMutesHandler e ctx = as_user ctx (\<lambda>me. reply (JSON StatusOK) (Mutes e me))"

definition MuteHandler :: "push_env \<Rightarrow> uuid option \<Rightarrow> Mute_request option \<Rightarrow> push_db \<Rightarrow> unit resp \<times> push_db" where
  "MuteHandler e ctx body = as_user ctx (\<lambda>me s. case body of
     None \<Rightarrow> (Error StatusBadRequest (push_text ErrBadMute), s)
   | Some m \<Rightarrow> reply no_content (Mute e me m) s)"

definition UnmuteHandler :: "push_env \<Rightarrow> uuid option \<Rightarrow> Mute_request option \<Rightarrow> push_db \<Rightarrow> unit resp \<times> push_db" where
  "UnmuteHandler e ctx body = as_user ctx (\<lambda>me s. case body of
     None \<Rightarrow> (Error StatusBadRequest (push_text ErrBadMute), s)
   | Some m \<Rightarrow> if mq_ID m = Nil_uuid then (Error StatusBadRequest (push_text ErrBadMute), s)
       else reply no_content (Unmute e me (mq_Type m) (mq_ID m)) s)"

end
