(* ===== verification/Moderation_DB.thy ===== *)
theory Moderation_DB
  imports Auth_DB Media_DB Push
begin

text \<open>
  The tables of reports and of the admins' log, and the statements of \<^verbatim>\<open>database/reports.sql.go\<close> and
  \<^verbatim>\<open>database/admin.sql.go\<close> with the constraints of \<^verbatim>\<open>sql/schema\<close> 037 and 039. \<open>now\<close> is \<open>NOW()\<close>.
\<close>

record report =
  rp_id :: uuid
  rp_reporter_id :: "uuid option"
  rp_reported_id :: uuid
  rp_reason :: string
  rp_note :: string
  rp_status :: string
  rp_resolved_by :: "uuid option"
  rp_resolved_at :: "time option"
  rp_resolution :: string
  rp_created_at :: time

record report_message =
  rm_report_id :: uuid
  rm_message_id :: uuid
  rm_chat_type :: string
  rm_group_id :: "uuid option"
  rm_sender_id :: "uuid option"
  rm_content :: string
  rm_sent_at :: time

record admin_action =
  aa_id :: uuid
  aa_admin_id :: "uuid option"
  aa_action :: string
  aa_target_user :: "uuid option"
  aa_target_group :: "uuid option"
  aa_detail :: string
  aa_at :: time

record mod_db =
  mo_auth :: auth_db
  mo_media :: "medium list"
  mo_devices :: "user_device list"
  reports :: "report list"
  report_messages :: "report_message list"
  admin_actions :: "admin_action list"

abbreviation tables :: "mod_db \<Rightarrow> db" where
  "tables d \<equiv> ad_db (mo_auth d)"

definition set_tables :: "(db \<Rightarrow> db) \<Rightarrow> mod_db \<Rightarrow> mod_db" where
  "set_tables f d = d\<lparr>mo_auth := (mo_auth d)\<lparr>ad_db := f (tables d)\<rparr>\<rparr>"

definition Reasons :: "string list" where
  "Reasons = [''spam'', ''harassment'', ''hate'', ''violence'', ''sexual'', ''impersonation'', ''scam'', ''other'']"

definition open_status :: string where "open_status = ''open''"

section \<open>Reports\<close>

record evidence_row =
  er_id :: uuid
  er_content :: "string option"
  er_from :: "uuid option"
  er_group :: "uuid option"
  er_created_at :: time

definition PrivateEvidence :: "uuid list \<Rightarrow> uuid \<Rightarrow> uuid \<Rightarrow> mod_db \<Rightarrow> evidence_row list" where
  "PrivateEvidence ids reporter reported d =
     map (\<lambda>m. \<lparr>er_id = m_id m, er_content = m_content m, er_from = m_from_id m, er_group = None, er_created_at = m_created_at m\<rparr>)
       (filter (\<lambda>m. m_id m \<in> set ids \<and> m_deleted_at m = None \<and>
          (m_from_id m = Some reporter \<and> m_to_id m = Some reported \<or> m_from_id m = Some reported \<and> m_to_id m = Some reporter))
         (message (tables d)))"

definition GroupEvidence :: "uuid list \<Rightarrow> uuid \<Rightarrow> mod_db \<Rightarrow> evidence_row list" where
  "GroupEvidence ids reporter d =
     map (\<lambda>m. \<lparr>er_id = gm_id m, er_content = gm_content m, er_from = gm_from_id m, er_group = gm_group_id m, er_created_at = gm_created_at m\<rparr>)
       (filter (\<lambda>m. gm_id m \<in> set ids \<and> gm_deleted_at m = None \<and>
          exists_row (\<lambda>r. gm_group_id m = Some (mt_group_id r) \<and> mt_member_id r = reporter \<and> mt_joined_at r \<le> gm_created_at m)
            (member_table (tables d)))
         (groupmessage (tables d)))"

definition same_open :: "uuid \<Rightarrow> uuid \<Rightarrow> report \<Rightarrow> bool" where
  "same_open reporter reported r \<longleftrightarrow> rp_reporter_id r = Some reporter \<and> rp_reported_id r = reported \<and> rp_status r = open_status"

text \<open>The partial unique index \<^verbatim>\<open>reports_one_open\<close> decides between insert and update.\<close>

definition UpsertOpenReport :: "uuid \<Rightarrow> uuid \<Rightarrow> uuid \<Rightarrow> string \<Rightarrow> string \<Rightarrow> time \<Rightarrow> mod_db \<Rightarrow> dberr + uuid \<times> mod_db" where
  "UpsertOpenReport i reporter reported reason remark now d =
     (if \<not> text_ok remark then Inl DataException
      else if reason \<notin> set Reasons \<or> RuneCountInString remark > 4000 then Inl CheckViolation
      else case find_row (same_open reporter reported) (reports d) of
        Some r \<Rightarrow> Inr (rp_id r, d\<lparr>reports := update_rows (same_open reporter reported)
          (\<lambda>r. r\<lparr>rp_reason := reason, rp_note := remark, rp_created_at := now\<rparr>) (reports d)\<rparr>)
      | None \<Rightarrow>
          if exists_row (\<lambda>r. rp_id r = i) (reports d) then Inl (UniqueViolation ''reports_pkey'')
          else if \<not> (user_exists reporter (tables d) \<and> user_exists reported (tables d)) then Inl ForeignKeyViolation
          else Inr (i, d\<lparr>reports := reports d @ [\<lparr>rp_id = i, rp_reporter_id = Some reporter, rp_reported_id = reported,
            rp_reason = reason, rp_note = remark, rp_status = open_status, rp_resolved_by = None, rp_resolved_at = None,
            rp_resolution = [], rp_created_at = now\<rparr>]\<rparr>))"

definition AddReportMessage :: "report_message \<Rightarrow> mod_db \<Rightarrow> dberr + mod_db" where
  "AddReportMessage m d =
     (if rm_chat_type m \<notin> {''private'', ''public''} then Inl CheckViolation
      else if exists_row (\<lambda>r. rm_report_id r = rm_report_id m \<and> rm_message_id r = rm_message_id m) (report_messages d) then Inr d
      else if \<not> exists_row (\<lambda>r. rp_id r = rm_report_id m) (reports d) then Inl ForeignKeyViolation
      else Inr (d\<lparr>report_messages := report_messages d @ [m]\<rparr>))"

definition CountOpenReports :: "mod_db \<Rightarrow> int" where
  "CountOpenReports d = int (length (filter (\<lambda>r. rp_status r = open_status) (reports d)))"

definition name_or :: "string \<Rightarrow> uuid option \<Rightarrow> mod_db \<Rightarrow> string" where
  "name_or none i d = (case i of None \<Rightarrow> none | Some u \<Rightarrow> (case find_user u (tables d) of None \<Rightarrow> none | Some x \<Rightarrow> u_name x))"

record GetReportRow =
  gr_report :: report
  gr_ReportedName :: string
  gr_ReporterName :: string

definition GetReport :: "uuid \<Rightarrow> mod_db \<Rightarrow> dberr + GetReportRow" where
  "GetReport i d = (case find_row (\<lambda>r. rp_id r = i) (reports d) of
     None \<Rightarrow> Inl NoRows
   | Some r \<Rightarrow> Inr \<lparr>gr_report = r, gr_ReportedName = name_or [] (Some (rp_reported_id r)) d,
       gr_ReporterName = name_or ''(deleted)'' (rp_reporter_id r) d\<rparr>)"

text \<open>\<open>ORDER BY created_at DESC\<close>: rows of one time in the order of the table.\<close>

record ListReportsRow =
  lr_report :: report
  lr_ReportedName :: string
  lr_ReporterName :: string
  lr_Evidence :: nat
  lr_ReportsAgainst :: nat

definition ListReports :: "string \<Rightarrow> nat \<Rightarrow> nat \<Rightarrow> mod_db \<Rightarrow> ListReportsRow list" where
  "ListReports status off lim d =
     map (\<lambda>r. \<lparr>lr_report = r, lr_ReportedName = name_or [] (Some (rp_reported_id r)) d,
         lr_ReporterName = name_or ''(deleted)'' (rp_reporter_id r) d,
         lr_Evidence = length (filter (\<lambda>m. rm_report_id m = rp_id r) (report_messages d)),
         lr_ReportsAgainst = length (filter (\<lambda>x. rp_reported_id x = rp_reported_id r) (reports d))\<rparr>)
       (take lim (drop off (sort_key (\<lambda>r. - rp_created_at r) (filter (\<lambda>r. status = [] \<or> rp_status r = status) (reports d)))))"

definition ReportMessages :: "uuid \<Rightarrow> mod_db \<Rightarrow> report_message list" where
  "ReportMessages i d = sort_key rm_sent_at (filter (\<lambda>m. rm_report_id m = i) (report_messages d))"

definition ResolveReport :: "string \<Rightarrow> uuid option \<Rightarrow> time \<Rightarrow> string \<Rightarrow> uuid \<Rightarrow> mod_db \<Rightarrow> dberr + nat \<times> mod_db" where
  "ResolveReport status admin now resolution i d =
     (let hit = (\<lambda>r. rp_id r = i \<and> rp_status r = open_status) in
      if \<not> text_ok resolution then Inl DataException
      else if exists_row hit (reports d) \<and> status \<notin> {open_status, ''resolved'', ''dismissed''} then Inl CheckViolation
      else if exists_row hit (reports d) \<and> (case admin of None \<Rightarrow> False | Some a \<Rightarrow> \<not> user_exists a (tables d)) then Inl ForeignKeyViolation
      else Inr (length (filter hit (reports d)), d\<lparr>reports := update_rows hit
        (\<lambda>r. r\<lparr>rp_status := status, rp_resolved_by := admin, rp_resolved_at := Some now, rp_resolution := resolution\<rparr>) (reports d)\<rparr>))"

text \<open>The evidence of a deleted report goes with it.\<close>

definition DeleteOldClosedReports :: "time \<Rightarrow> mod_db \<Rightarrow> nat \<times> mod_db" where
  "DeleteOldClosedReports bound d =
     (let old = (\<lambda>r. rp_status r \<noteq> open_status \<and> before (rp_resolved_at r) bound) in
      (length (filter old (reports d)),
       d\<lparr>reports := delete_rows old (reports d),
         report_messages := delete_rows (\<lambda>m. exists_row (\<lambda>r. rp_id r = rm_report_id m \<and> old r) (reports d)) (report_messages d)\<rparr>))"

section \<open>Bans\<close>

definition BanUser :: "time \<Rightarrow> time option \<Rightarrow> string \<Rightarrow> uuid \<Rightarrow> mod_db \<Rightarrow> dberr + nat \<times> mod_db" where
  "BanUser now until reason i d =
     (if \<not> text_ok reason then Inl DataException
      else Inr (length (filter (\<lambda>u. u_id u = i \<and> \<not> u_is_admin u) (users (tables d))),
        set_tables (\<lambda>x. x\<lparr>users := update_rows (\<lambda>u. u_id u = i \<and> \<not> u_is_admin u)
          (\<lambda>u. u\<lparr>u_banned_at := Some now, u_banned_until := until, u_ban_reason := Some reason, u_updated_at := now\<rparr>) (users x)\<rparr>) d))"

definition UnbanUser :: "time \<Rightarrow> uuid \<Rightarrow> mod_db \<Rightarrow> nat \<times> mod_db" where
  "UnbanUser now i d =
     (let hit = (\<lambda>u. u_id u = i \<and> u_banned_at u \<noteq> None) in
      (length (filter hit (users (tables d))),
       set_tables (\<lambda>x. x\<lparr>users := update_rows hit
         (\<lambda>u. u\<lparr>u_banned_at := None, u_banned_until := None, u_ban_reason := None, u_updated_at := now\<rparr>) (users x)\<rparr>) d))"

definition ExpiredBans :: "time \<Rightarrow> mod_db \<Rightarrow> uuid list" where
  "ExpiredBans now d = map u_id (filter (\<lambda>u. u_banned_at u \<noteq> None \<and> before (u_banned_until u) now) (users (tables d)))"

record UserBanRow =
  ub_BannedAt :: "time option"
  ub_BannedUntil :: "time option"
  ub_IsAdmin :: bool

definition UserBan_row :: "uuid \<Rightarrow> mod_db \<Rightarrow> dberr + UserBanRow" where
  "UserBan_row i d = (case find_user i (tables d) of
     None \<Rightarrow> Inl NoRows
   | Some u \<Rightarrow> Inr \<lparr>ub_BannedAt = u_banned_at u, ub_BannedUntil = u_banned_until u, ub_IsAdmin = u_is_admin u\<rparr>)"

record GroupMembershipsOfRow =
  mb_GroupID :: uuid
  mb_Role :: string
  mb_CurrentMember :: int

definition GroupMembershipsOf :: "uuid \<Rightarrow> mod_db \<Rightarrow> GroupMembershipsOfRow list" where
  "GroupMembershipsOf u d = concat (map (\<lambda>m. map (\<lambda>g. \<lparr>mb_GroupID = mt_group_id m, mb_Role = mt_role m, mb_CurrentMember = g_current_member g\<rparr>)
     (filter (\<lambda>g. g_id g = mt_group_id m) (chat_groups (tables d)))) (filter (\<lambda>m. mt_member_id m = u) (member_table (tables d))))"

section \<open>Admins\<close>

text \<open>\<open>lower(\<dots>)\<close> of Postgres is a parameter.\<close>

definition SetAdminByEmail :: "(string \<Rightarrow> string) \<Rightarrow> time \<Rightarrow> bool \<Rightarrow> string \<Rightarrow> mod_db \<Rightarrow> dberr + (uuid \<times> string) \<times> mod_db" where
  "SetAdminByEmail lower now on email d =
     (if \<not> text_ok email then Inl DataException
      else case find_row (\<lambda>u. u_email u = lower email) (users (tables d)) of
        None \<Rightarrow> Inl NoRows
      | Some u \<Rightarrow> Inr ((u_id u, u_name u),
          set_tables (\<lambda>x. x\<lparr>users := update_rows (\<lambda>u. u_email u = lower email) (\<lambda>u. u\<lparr>u_is_admin := on, u_updated_at := now\<rparr>) (users x)\<rparr>) d))"

definition ListAdmins :: "mod_db \<Rightarrow> (uuid \<times> string \<times> string) list" where
  "ListAdmins d = map (\<lambda>u. (u_id u, u_name u, u_email u)) (sort_key u_name (filter u_is_admin (users (tables d))))"

definition LogAdminAction :: "admin_action \<Rightarrow> mod_db \<Rightarrow> dberr + mod_db" where
  "LogAdminAction a d =
     (if \<not> (text_ok (aa_action a) \<and> text_ok (aa_detail a)) then Inl DataException
      else if exists_row (\<lambda>x. aa_id x = aa_id a) (admin_actions d) then Inl (UniqueViolation ''admin_actions_pkey'')
      else if (case aa_admin_id a of None \<Rightarrow> False | Some u \<Rightarrow> \<not> user_exists u (tables d)) then Inl ForeignKeyViolation
      else Inr (d\<lparr>admin_actions := admin_actions d @ [a]\<rparr>))"

definition ListAdminActions :: "nat \<Rightarrow> mod_db \<Rightarrow> (admin_action \<times> string) list" where
  "ListAdminActions lim d = map (\<lambda>a. (a, name_or ''cli/system'' (aa_admin_id a) d)) (take lim (sort_key (\<lambda>a. - aa_at a) (admin_actions d)))"

section \<open>What admins look at\<close>

definition AdminGetUser :: "uuid \<Rightarrow> mod_db \<Rightarrow> dberr + user" where
  "AdminGetUser i d = one_row (find_user i (tables d))"

text \<open>\<open>ILIKE '%' || q || '%'\<close>: \<open>fold\<close> is the case folding of Postgres; the pattern is not escaped.\<close>

definition ilike :: "(string \<Rightarrow> string) \<Rightarrow> string \<Rightarrow> string \<Rightarrow> bool" where
  "ilike lower s q \<longleftrightarrow> like (lower s) (lower (''%'' @ q @ ''%''))"

definition AdminSearchUsers :: "(string \<Rightarrow> string) \<Rightarrow> string \<Rightarrow> nat \<Rightarrow> nat \<Rightarrow> mod_db \<Rightarrow> dberr + user list" where
  "AdminSearchUsers lower q off lim d =
     (if \<not> text_ok q then Inl DataException
      else Inr (take lim (drop off (sort_key (\<lambda>u. - u_created_at u)
        (filter (\<lambda>u. q = [] \<or> ilike lower (u_name u) q \<or> ilike lower (u_email u) q) (users (tables d)))))))"

record AdminSearchGroupsRow =
  sg_group :: chat_group
  sg_Leader :: string
  sg_Messages7d :: nat

definition AdminSearchGroups :: "(string \<Rightarrow> string) \<Rightarrow> time \<Rightarrow> string \<Rightarrow> nat \<Rightarrow> nat \<Rightarrow> mod_db \<Rightarrow> dberr + AdminSearchGroupsRow list" where
  "AdminSearchGroups lower weekAgo q off lim d =
     (if \<not> text_ok q then Inl DataException
      else Inr (map (\<lambda>g. \<lparr>sg_group = g,
          sg_Leader = (case filter (\<lambda>m. mt_group_id m = g_id g \<and> mt_role m = RoleAdmin) (member_table (tables d)) of
             [] \<Rightarrow> [] | m # _ \<Rightarrow> name_or [] (Some (mt_member_id m)) d),
          sg_Messages7d = length (filter (\<lambda>m. gm_group_id m = Some (g_id g) \<and> gm_created_at m > weekAgo) (groupmessage (tables d)))\<rparr>)
        (take lim (drop off (sort_key (\<lambda>g. - g_created_at g)
          (filter (\<lambda>g. q = [] \<or> ilike lower (g_name g) q) (chat_groups (tables d))))))))"

record UserStats =
  st_MessagesSent :: nat
  st_Friends :: nat
  st_Groups :: nat
  st_Devices :: nat

definition AdminUserStats :: "uuid \<Rightarrow> mod_db \<Rightarrow> UserStats" where
  "AdminUserStats i d = \<lparr>
     st_MessagesSent = length (filter (\<lambda>m. m_from_id m = Some i) (message (tables d))) +
       length (filter (\<lambda>m. gm_from_id m = Some i) (groupmessage (tables d))),
     st_Friends = length (filter (\<lambda>r. ur_status r = StatusConfirm \<and> (ur_user_id r = i \<or> ur_otherUser_id r = i)) (user_relationships (tables d))),
     st_Groups = length (filter (\<lambda>m. mt_member_id m = i) (member_table (tables d))),
     st_Devices = length (filter (\<lambda>r. ud_user_id r = i) (mo_devices d))\<rparr>"

record AdminOverviewRow =
  ov_Users :: nat
  ov_Verified :: nat
  ov_Signups24h :: nat
  ov_Signups7d :: nat
  ov_Active7d :: nat
  ov_Banned :: nat
  ov_Messages24h :: nat
  ov_Groups :: nat
  ov_MediaBytes :: int

definition AdminOverview :: "time \<Rightarrow> time \<Rightarrow> mod_db \<Rightarrow> AdminOverviewRow" where
  "AdminOverview dayAgo weekAgo d =
     (let us = users (tables d) in
      \<lparr>ov_Users = length us, ov_Verified = length (filter (\<lambda>u. u_email_verified_at u \<noteq> None) us),
       ov_Signups24h = length (filter (\<lambda>u. u_created_at u > dayAgo) us), ov_Signups7d = length (filter (\<lambda>u. u_created_at u > weekAgo) us),
       ov_Active7d = length (filter (\<lambda>u. case u_last_seen_at u of None \<Rightarrow> False | Some t \<Rightarrow> t > weekAgo) us),
       ov_Banned = length (filter (\<lambda>u. u_banned_at u \<noteq> None) us),
       ov_Messages24h = length (filter (\<lambda>m. m_created_at m > dayAgo) (message (tables d))) +
         length (filter (\<lambda>m. gm_created_at m > dayAgo) (groupmessage (tables d))),
       ov_Groups = length (chat_groups (tables d)), ov_MediaBytes = sum_list (map md_size (filter live (mo_media d)))\<rparr>)"

end
