(* ===== verification/Reports.thy ===== *)
theory Reports
  imports Moderation_DB
begin

text \<open>
  \<^verbatim>\<open>reports/reports.go\<close>: a user reports another one, with messages as evidence.
\<close>

definition maxNote :: nat where "maxNote = 1000"
definition maxEvidence :: nat where "maxEvidence = 20"

datatype report_err = ErrBadReport | ErrSelf | ErrUnknownUser | ErrBadEvidence

datatype report_call = RPrivate | RGroup | RUpsert | RAdd uuid | RCommit

record report_env =
  re_fails :: "report_call \<Rightarrow> bool"
  re_now :: time
  re_newid :: uuid

type_synonym 'a report_op = "(mod_db, report_err, 'a) op"

record Report_request =
  rq_UserID :: uuid
  rq_Reason :: string
  rq_Note :: string
  rq_Messages :: "uuid list"

definition validReason :: "string \<Rightarrow> bool" where
  "validReason r \<longleftrightarrow> list_ex (\<lambda>x. x = r) Reasons"

fun dedupe_from :: "uuid set \<Rightarrow> uuid list \<Rightarrow> uuid list" where
  "dedupe_from seen [] = []"
| "dedupe_from seen (i # is) = (if i \<in> seen then dedupe_from seen is else i # dedupe_from (insert i seen) is)"

definition dedupe_ids :: "uuid list \<Rightarrow> uuid list" where
  "dedupe_ids = dedupe_from {}"

definition some_or_nil :: "uuid option \<Rightarrow> uuid" where
  "some_or_nil x = (case x of None \<Rightarrow> Nil_uuid | Some i \<Rightarrow> i)"

definition valid_uuid :: "uuid \<Rightarrow> uuid option" where
  "valid_uuid i = (if i \<noteq> Nil_uuid then Some i else None)"

text \<open>The message that is stored: \<open>m.Content.String\<close> is empty for no text, an id that is zero becomes null.\<close>

definition copied :: "uuid \<Rightarrow> string \<Rightarrow> evidence_row \<Rightarrow> report_message" where
  "copied report kind m = \<lparr>rm_report_id = report, rm_message_id = er_id m, rm_chat_type = kind,
     rm_group_id = valid_uuid (if kind = ''public'' then some_or_nil (er_group m) else Nil_uuid),
     rm_sender_id = valid_uuid (some_or_nil (er_from m)), rm_content = some_text (er_content m), rm_sent_at = er_created_at m\<rparr>"

definition gather :: "report_env \<Rightarrow> uuid \<Rightarrow> uuid \<Rightarrow> uuid list \<Rightarrow> (string \<times> evidence_row) list report_op" where
  "gather e reporter reported ids =
     (if ids = [] then ret []
      else andDo (sql_query (re_fails e RPrivate) (\<lambda>d. Inr (PrivateEvidence ids reporter reported d))) (\<lambda>priv.
        andDo (sql_query (re_fails e RGroup) (\<lambda>d. Inr (GroupEvidence ids reporter d))) (\<lambda>grp.
          let evidence = map (\<lambda>m. (''private'', m)) priv @ map (\<lambda>m. (''public'', m)) grp in
          if length evidence \<noteq> length ids then stop ErrBadEvidence else ret evidence)))"

definition add_evidence :: "report_env \<Rightarrow> uuid \<Rightarrow> string \<times> evidence_row \<Rightarrow> unit report_op" where
  "add_evidence e report m = exec (re_fails e (RAdd (er_id (snd m)))) (AddReportMessage (copied report (fst m) (snd m)))"

definition Report :: "report_env \<Rightarrow> uuid \<Rightarrow> Report_request \<Rightarrow> uuid report_op" where
  "Report e reporter req0 =
     (let req = req0\<lparr>rq_Note := TrimSpace (rq_Note req0)\<rparr> in
      if \<not> validReason (rq_Reason req) \<or> RuneCountInString (rq_Note req) > maxNote \<or> length (rq_Messages req) > maxEvidence
        then stop ErrBadReport
      else if rq_UserID req = reporter then stop ErrSelf
      else andDo (gather e reporter (rq_UserID req) (dedupe_ids (rq_Messages req))) (\<lambda>evidence.
        attempt (atomically (re_fails e RCommit)
          (andDo (alter (re_fails e RUpsert) (UpsertOpenReport (re_newid e) reporter (rq_UserID req) (rq_Reason req) (rq_Note req)
              (pgTime (re_now e)))) (\<lambda>i.
            andDo (each (add_evidence e i) evidence) (\<lambda>_. ret i)))) (\<lambda>r. case r of
          Inl x \<Rightarrow> if x = DbFail ForeignKeyViolation then stop ErrUnknownUser else break_off x
        | Inr i \<Rightarrow> ret i)))"

definition report_text :: "report_err \<Rightarrow> string" where
  "report_text err = (case err of
     ErrBadReport \<Rightarrow> ''reason must be one of spam, harassment, hate, violence, sexual, impersonation, scam, other; note at most 1000 characters; at most 20 messages''
   | ErrSelf \<Rightarrow> ''you can't report yourself''
   | ErrUnknownUser \<Rightarrow> ''user not found''
   | ErrBadEvidence \<Rightarrow> ''each attached message must be from your chat with this user or from a group you're in'')"

definition CreateReport :: "report_env \<Rightarrow> uuid option \<Rightarrow> Report_request option \<Rightarrow> mod_db \<Rightarrow> uuid resp \<times> mod_db" where
  "CreateReport e ctx body s =
     (case reqctx_User ctx of
        None \<Rightarrow> (unauthorized, s)
      | Some me \<Rightarrow> (case body of
          None \<Rightarrow> (Error StatusBadRequest (report_text ErrBadReport), s)
        | Some req \<Rightarrow>
            if rq_UserID req = Nil_uuid then (Error StatusBadRequest (report_text ErrBadReport), s)
            else (case Report e me req s of
              (Inr i, s') \<Rightarrow> (JSON StatusCreated i, s')
            | (Inl (Sentinel err), s') \<Rightarrow> (Error (if err = ErrUnknownUser then StatusNotFound else StatusBadRequest) (report_text err), s')
            | (Inl (DbFail _), s') \<Rightarrow> (ServerError, s'))))"

end
