(* ===== verification/Admin.thy ===== *)
theory Admin
  imports Reports Auth
begin

text \<open>
  \<^verbatim>\<open>admin/admin.go\<close> and \<^verbatim>\<open>admin/handler.go\<close>: bans, closing reports, what admins look at, who is an admin. Ending the
  sessions of a user is the operation of \<open>Auth\<close>.
\<close>

datatype admin_err =
    ErrUserNotFound | ErrBanSelf | ErrBanAdmin | ErrBadBan | ErrNotBanned | ErrUnknownEmail
  | ErrReportNotFound | ErrBadResolution | ErrReportClosed | SessionErr auth_err

datatype admin_call =
    XBan | XUserBan | XMemberships | XEarliest uuid | XPromote uuid | XDeleteMember uuid | XRecount uuid | XCommit uuid
  | XLog string | XUnban uuid | XExpired | XSetAdmin | XListAdmins | XReports | XGetReport | XReportMessages | XResolve
  | XReportAgain | XPurge | XUsers | XUser | XStats | XGroups | XAudit | XOverview | XCountOpen

text \<open>\<open>GroupChanged\<close>: the \<^verbatim>\<open>changed\<close> hook; \<open>BanChanged\<close>: the \<^verbatim>\<open>OnBanChange\<close> hooks.\<close>

datatype admin_effect = GroupChanged uuid | BanChanged uuid | Session auth_effect

record admin_sys =
  ax_db :: mod_db
  ax_rev :: revocations
  ax_out :: "admin_effect list"

text \<open>\<open>xe_logid\<close>: the id drawn for the n-th entry of the log; \<open>xe_rfc3339\<close>: \<^verbatim>\<open>Format(time.RFC3339)\<close>.\<close>

record admin_env =
  xe_fails :: "admin_call \<Rightarrow> bool"
  xe_now :: time
  xe_dbnow :: time
  xe_logid :: "nat \<Rightarrow> uuid"
  xe_auth :: auth_env
  xe_conf :: auth_conf
  xe_lower :: "string \<Rightarrow> string"
  xe_rfc3339 :: "time \<Rightarrow> string"

type_synonym 'a admin_op = "(admin_sys, admin_err, 'a) op"

definition on_mod :: "(mod_db \<Rightarrow> mod_db) \<Rightarrow> admin_sys \<Rightarrow> admin_sys" where
  "on_mod f s = s\<lparr>ax_db := f (ax_db s)\<rparr>"

definition mod_exec :: "bool \<Rightarrow> (mod_db \<Rightarrow> dberr + mod_db) \<Rightarrow> unit admin_op" where
  "mod_exec flt q = exec flt (\<lambda>s. case q (ax_db s) of Inl x \<Rightarrow> Inl x | Inr d \<Rightarrow> Inr (s\<lparr>ax_db := d\<rparr>))"

definition mod_alter :: "bool \<Rightarrow> (mod_db \<Rightarrow> dberr + 'a \<times> mod_db) \<Rightarrow> 'a admin_op" where
  "mod_alter flt q = alter flt (\<lambda>s. case q (ax_db s) of Inl x \<Rightarrow> Inl x | Inr (a, d) \<Rightarrow> Inr (a, s\<lparr>ax_db := d\<rparr>))"

definition mod_query :: "bool \<Rightarrow> (mod_db \<Rightarrow> dberr + 'a) \<Rightarrow> 'a admin_op" where
  "mod_query flt q = sql_query flt (\<lambda>s. q (ax_db s))"

definition announce :: "admin_effect \<Rightarrow> unit admin_op" where
  "announce x s = (Inr (), s\<lparr>ax_out := ax_out s @ [x]\<rparr>)"

text \<open>An operation of the session code, run on the tables and the revocations of this state.\<close>

definition session_op :: "'a auth_op \<Rightarrow> 'a admin_op" where
  "session_op m s = (case m \<lparr>as_db = mo_auth (ax_db s), as_rev = ax_rev s\<rparr> of
     (r, t, es) \<Rightarrow> (case r of Inl (Sentinel x) \<Rightarrow> Inl (Sentinel (SessionErr x)) | Inl (DbFail x) \<Rightarrow> Inl (DbFail x) | Inr a \<Rightarrow> Inr a,
       s\<lparr>ax_db := (ax_db s)\<lparr>mo_auth := as_db t\<rparr>, ax_rev := as_rev t, ax_out := ax_out s @ map Session es\<rparr>))"

section \<open>The log\<close>

text \<open>A failure is only logged elsewhere.\<close>

definition Log :: "admin_env \<Rightarrow> uuid \<Rightarrow> string \<Rightarrow> uuid \<Rightarrow> uuid \<Rightarrow> string \<Rightarrow> unit admin_op" where
  "Log e admin action user gid detail s = attempt (mod_exec (xe_fails e (XLog action)) (LogAdminAction
     \<lparr>aa_id = xe_logid e (length (admin_actions (ax_db s))), aa_admin_id = valid_uuid admin, aa_action = action,
       aa_target_user = valid_uuid user, aa_target_group = valid_uuid gid, aa_detail = detail, aa_at = pgTime (xe_now e)\<rparr>))
     (\<lambda>_. ret ()) s"

section \<open>Bans\<close>

text \<open>The transaction that takes a banned user out of a group.\<close>

definition leave_tx :: "admin_env \<Rightarrow> uuid \<Rightarrow> GroupMembershipsOfRow \<Rightarrow> unit admin_op" where
  "leave_tx e user m =
     (let gid = mb_GroupID m;
          leave = andDo (mod_exec (xe_fails e (XDeleteMember gid)) (\<lambda>d. Inr (set_tables (DeleteMemFromGroup gid user) d))) (\<lambda>_.
            mod_exec (xe_fails e (XRecount gid)) (\<lambda>d. Inr (set_tables (RecountGroupMembers (xe_dbnow e) gid) d))) in
      atomically (xe_fails e (XCommit gid))
        (if mb_Role m = RoleAdmin then
           attempt (mod_query (xe_fails e (XEarliest gid)) (\<lambda>d. EarliestOtherMember gid user (mo_auth d))) (\<lambda>r. case r of
             Inl x \<Rightarrow> if x = DbFail NoRows then ret () else break_off x
           | Inr nxt \<Rightarrow> andDo (mod_exec (xe_fails e (XPromote gid)) (\<lambda>d. Inr (set_tables (PromoteToLeader gid nxt) d))) (\<lambda>_. leave))
         else leave))"

definition leave_one :: "admin_env \<Rightarrow> uuid \<Rightarrow> GroupMembershipsOfRow \<Rightarrow> unit admin_op" where
  "leave_one e user m =
     (if mb_CurrentMember m \<le> 1 then ret ()
      else andDo (leave_tx e user m) (\<lambda>_. andDo (announce (GroupChanged (mb_GroupID m))) (\<lambda>_.
        Log e Nil_uuid ''ban_removed_from_group'' user (mb_GroupID m) [])))"

definition leaveGroups :: "admin_env \<Rightarrow> uuid \<Rightarrow> unit admin_op" where
  "leaveGroups e user =
     andDo (mod_query (xe_fails e XMemberships) (\<lambda>d. Inr (GroupMembershipsOf user d))) (\<lambda>ms.
       andDo (each (leave_one e user) ms) (\<lambda>_. ret ()))"

definition ban_detail :: "admin_env \<Rightarrow> string \<Rightarrow> time option \<Rightarrow> string" where
  "ban_detail e reason until = (case until of
     None \<Rightarrow> ''permanent: '' @ reason | Some t \<Rightarrow> ''until '' @ xe_rfc3339 e t @ '': '' @ reason)"

definition Ban :: "admin_env \<Rightarrow> uuid \<Rightarrow> uuid \<Rightarrow> string \<Rightarrow> time option \<Rightarrow> unit admin_op" where
  "Ban e admin target reason0 until =
     (let reason = TrimSpace reason0; n = RuneCountInString reason in
      if target = admin then stop ErrBanSelf
      else if n = 0 \<or> n > 500 \<or> (case until of None \<Rightarrow> False | Some t \<Rightarrow> \<not> t > xe_now e) then stop ErrBadBan
      else andDo (mod_alter (xe_fails e XBan) (BanUser (pgTime (xe_now e)) (map_option pgTime until) reason target)) (\<lambda>k.
        if k = 0 then
          attempt (mod_query (xe_fails e XUserBan) (UserBan_row target)) (\<lambda>r. case r of
            Inl x \<Rightarrow> if x = DbFail NoRows then stop ErrUserNotFound else break_off x
          | Inr b \<Rightarrow> if ub_IsAdmin b then stop ErrBanAdmin else stop ErrUserNotFound)
        else andDo (session_op (RevokeAllRefreshTokens (xe_auth e) (xe_conf e) target)) (\<lambda>_.
          andDo (leaveGroups e target) (\<lambda>_.
            andDo (Log e admin ''ban'' target Nil_uuid (ban_detail e reason until)) (\<lambda>_.
              announce (BanChanged target))))))"

definition Unban :: "admin_env \<Rightarrow> uuid \<Rightarrow> uuid \<Rightarrow> unit admin_op" where
  "Unban e admin target =
     andDo (mod_alter (xe_fails e (XUnban target)) (\<lambda>d. Inr (UnbanUser (xe_dbnow e) target d))) (\<lambda>n.
       if n = 0 then stop ErrNotBanned
       else andDo (Log e admin ''unban'' target Nil_uuid []) (\<lambda>_. announce (BanChanged target)))"

definition lift_one :: "admin_env \<Rightarrow> uuid \<Rightarrow> unit admin_op" where
  "lift_one e i =
     andDo (mod_alter (xe_fails e (XUnban i)) (\<lambda>d. Inr (UnbanUser (xe_dbnow e) i d))) (\<lambda>_.
       andDo (Log e Nil_uuid ''ban_expired'' i Nil_uuid []) (\<lambda>_. announce (BanChanged i)))"

definition LiftExpired :: "admin_env \<Rightarrow> nat admin_op" where
  "LiftExpired e =
     andDo (mod_query (xe_fails e XExpired) (\<lambda>d. Inr (ExpiredBans (pgTime (xe_now e)) d))) (\<lambda>ids.
       andDo (each (lift_one e) ids) (\<lambda>_. ret (length ids)))"

definition IsActiveAdmin :: "admin_env \<Rightarrow> uuid \<Rightarrow> bool admin_op" where
  "IsActiveAdmin e i =
     attempt (mod_query (xe_fails e XUserBan) (UserBan_row i)) (\<lambda>r. case r of
       Inl x \<Rightarrow> if x = DbFail NoRows then ret False else break_off x
     | Inr b \<Rightarrow> ret (ub_IsAdmin b \<and> ub_BannedAt b = None))"

section \<open>Admin rights\<close>

definition SetAdmin :: "admin_env \<Rightarrow> string \<Rightarrow> bool \<Rightarrow> string admin_op" where
  "SetAdmin e email on =
     andDo (or_none ErrUnknownEmail (mod_alter (xe_fails e XSetAdmin) (SetAdminByEmail (xe_lower e) (xe_dbnow e) on (TrimSpace email)))) (\<lambda>(i, name).
       andDo (if on then ret () else session_op (RevokeAllRefreshTokens (xe_auth e) (xe_conf e) i)) (\<lambda>_.
         andDo (Log e Nil_uuid (if on then ''grant_admin'' else ''revoke_admin'') i Nil_uuid ''via cmd/admin'') (\<lambda>_. ret name)))"

definition Admins :: "admin_env \<Rightarrow> (uuid \<times> string \<times> string) list admin_op" where
  "Admins e = mod_query (xe_fails e XListAdmins) (\<lambda>d. Inr (ListAdmins d))"

section \<open>Reports\<close>

text \<open>The offset is cut to 32 bits; Postgres refuses a negative one.\<close>

definition page :: "int \<Rightarrow> int \<Rightarrow> int \<times> int" where
  "page limit offset = (if limit \<le> 0 \<or> limit > 100 then 50 else limit, sint (word_of_int (max offset 0) :: 32 word))"

definition paged :: "int \<times> int \<Rightarrow> (nat \<Rightarrow> nat \<Rightarrow> dberr + 'a) \<Rightarrow> dberr + 'a" where
  "paged p q = (case p of (lim, off) \<Rightarrow> if off < 0 then Inl DataException else q (nat off) (nat lim))"

definition ListReports_op :: "admin_env \<Rightarrow> string \<Rightarrow> int \<Rightarrow> int \<Rightarrow> ListReportsRow list admin_op" where
  "ListReports_op e status limit offset = mod_query (xe_fails e XReports) (\<lambda>d. paged (page limit offset) (\<lambda>off lim.
     if text_ok status then Inr (ListReports status off lim d) else Inl DataException))"

definition ViewReport :: "admin_env \<Rightarrow> uuid \<Rightarrow> uuid \<Rightarrow> (GetReportRow \<times> report_message list) admin_op" where
  "ViewReport e admin i =
     andDo (or_none ErrReportNotFound (mod_query (xe_fails e XGetReport) (GetReport i))) (\<lambda>r.
       andDo (mod_query (xe_fails e XReportMessages) (\<lambda>d. Inr (ReportMessages i d))) (\<lambda>msgs.
         andDo (Log e admin ''view_report'' (rp_reported_id (gr_report r)) Nil_uuid (''report '' @ uuid_String i)) (\<lambda>_.
           ret (r, msgs))))"

definition Resolve :: "admin_env \<Rightarrow> uuid \<Rightarrow> uuid \<Rightarrow> string \<Rightarrow> string \<Rightarrow> unit admin_op" where
  "Resolve e admin i status note0 =
     (let remark = TrimSpace note0 in
      if status \<noteq> ''resolved'' \<and> status \<noteq> ''dismissed'' \<or> RuneCountInString remark > 1000 then stop ErrBadResolution
      else andDo (mod_alter (xe_fails e XResolve) (ResolveReport status (valid_uuid admin) (pgTime (xe_now e)) remark i)) (\<lambda>n.
        if n = 0 then
          attempt (mod_query (xe_fails e XReportAgain) (GetReport i)) (\<lambda>r.
            if r = Inl (DbFail NoRows) then stop ErrReportNotFound else stop ErrReportClosed)
        else Log e admin (''report_'' @ status) Nil_uuid Nil_uuid (''report '' @ uuid_String i @ '': '' @ remark)))"

definition reportRetention :: duration where "reportRetention = 180 * 24 * hour"

definition PurgeOldReports :: "admin_env \<Rightarrow> nat admin_op" where
  "PurgeOldReports e = mod_alter (xe_fails e XPurge) (\<lambda>d. Inr (DeleteOldClosedReports (pgTime (xe_now e - reportRetention)) d))"

section \<open>Views\<close>

definition Overview :: "admin_env \<Rightarrow> (AdminOverviewRow \<times> int) admin_op" where
  "Overview e =
     andDo (mod_query (xe_fails e XOverview) (\<lambda>d. Inr (AdminOverview (pgTime (xe_now e - 24 * hour)) (pgTime (xe_now e - 7 * 24 * hour)) d))) (\<lambda>r.
       andDo (mod_query (xe_fails e XCountOpen) (\<lambda>d. Inr (CountOpenReports d))) (\<lambda>n. ret (r, n)))"

record User_view =
  uv_ID :: uuid
  uv_Name :: string
  uv_DisplayName :: string
  uv_Email :: string
  uv_Verified :: bool
  uv_CreatedAt :: time
  uv_LastSeenAt :: "time option"
  uv_IsAdmin :: bool
  uv_BannedAt :: "time option"
  uv_BannedUntil :: "time option"
  uv_BanReason :: string
  uv_Stats :: "UserStats option"

definition toUser :: "user \<Rightarrow> User_view" where
  "toUser u = \<lparr>uv_ID = u_id u, uv_Name = u_name u, uv_DisplayName = (if u_display_name u = [] then u_name u else u_display_name u),
     uv_Email = u_email u, uv_Verified = (u_email_verified_at u \<noteq> None), uv_CreatedAt = u_created_at u,
     uv_LastSeenAt = u_last_seen_at u, uv_IsAdmin = u_is_admin u, uv_BannedAt = u_banned_at u, uv_BannedUntil = u_banned_until u,
     uv_BanReason = some_text (u_ban_reason u), uv_Stats = None\<rparr>"

definition SearchUsers :: "admin_env \<Rightarrow> string \<Rightarrow> int \<Rightarrow> int \<Rightarrow> User_view list admin_op" where
  "SearchUsers e q limit offset =
     andDo (mod_query (xe_fails e XUsers) (\<lambda>d. paged (page limit offset) (\<lambda>off lim.
       AdminSearchUsers (xe_lower e) (TrimSpace q) off lim d))) (\<lambda>rows. ret (map toUser rows))"

definition ViewUser :: "admin_env \<Rightarrow> uuid \<Rightarrow> User_view admin_op" where
  "ViewUser e i =
     andDo (or_none ErrUserNotFound (mod_query (xe_fails e XUser) (AdminGetUser i))) (\<lambda>u.
       andDo (mod_query (xe_fails e XStats) (\<lambda>d. Inr (AdminUserStats i d))) (\<lambda>st. ret ((toUser u)\<lparr>uv_Stats := Some st\<rparr>)))"

definition SearchGroups :: "admin_env \<Rightarrow> string \<Rightarrow> int \<Rightarrow> int \<Rightarrow> AdminSearchGroupsRow list admin_op" where
  "SearchGroups e q limit offset = mod_query (xe_fails e XGroups) (\<lambda>d. paged (page limit offset) (\<lambda>off lim.
     AdminSearchGroups (xe_lower e) (pgTime (xe_now e - 7 * 24 * hour)) (TrimSpace q) off lim d))"

definition Audit :: "admin_env \<Rightarrow> int \<Rightarrow> (admin_action \<times> string) list admin_op" where
  "Audit e limit = mod_query (xe_fails e XAudit) (\<lambda>d. Inr (ListAdminActions (nat (fst (page limit 0))) d))"

section \<open>The handlers\<close>

text \<open>\<^verbatim>\<open>Authenticate\<close> of the admin page; \<open>None\<close> of the revocation check: it failed.\<close>

definition AdminAuthenticate :: "admin_env \<Rightarrow> (uuid \<times> time) option \<Rightarrow> (uuid \<Rightarrow> time \<Rightarrow> bool option) option \<Rightarrow>
    (uuid \<Rightarrow> 'b resp admin_op) \<Rightarrow> admin_sys \<Rightarrow> 'b resp \<times> admin_sys" where
  "AdminAuthenticate e token revoked h s =
     (case token of
        None \<Rightarrow> (unauthorized, s)
      | Some (i, issued) \<Rightarrow>
          if (case revoked of None \<Rightarrow> False | Some f \<Rightarrow> f i issued \<noteq> Some False) then (unauthorized, s)
          else (case IsActiveAdmin e i s of
            (Inl _, s') \<Rightarrow> (ServerError, s')
          | (Inr ok, s') \<Rightarrow> if \<not> ok then (Error StatusForbidden ''not an admin'', s')
              else (case h i s' of (Inr r, s'') \<Rightarrow> (r, s'') | (Inl _, s'') \<Rightarrow> (ServerError, s''))))"

definition admin_fail :: "(admin_err \<Rightarrow> string) \<Rightarrow> admin_err fail \<Rightarrow> 'b resp" where
  "admin_fail msg x = (case x of
     Sentinel err \<Rightarrow>
       if err = ErrUserNotFound \<or> err = ErrReportNotFound then Error StatusNotFound (msg err)
       else if err \<in> {ErrBanSelf, ErrBanAdmin, ErrBadBan, ErrNotBanned, ErrBadResolution, ErrReportClosed} then Error StatusBadRequest (msg err)
       else ServerError
   | DbFail _ \<Rightarrow> ServerError)"

definition admin_answer :: "(admin_err \<Rightarrow> string) \<Rightarrow> ('a \<Rightarrow> 'b resp) \<Rightarrow> 'a admin_op \<Rightarrow> 'b resp admin_op" where
  "admin_answer msg f m = attempt m (\<lambda>r. case r of Inl x \<Rightarrow> ret (admin_fail msg x) | Inr a \<Rightarrow> ret (f a))"

definition with_id :: "string \<Rightarrow> uuid option \<Rightarrow> (uuid \<Rightarrow> 'b resp admin_op) \<Rightarrow> 'b resp admin_op" where
  "with_id text path f = (case path of None \<Rightarrow> ret (Error StatusBadRequest text) | Some i \<Rightarrow> f i)"

definition OverviewHandler :: "(admin_err \<Rightarrow> string) \<Rightarrow> admin_env \<Rightarrow> uuid \<Rightarrow> (AdminOverviewRow \<times> int) resp admin_op" where
  "OverviewHandler msg e me = admin_answer msg (JSON StatusOK) (Overview e)"

definition UsersHandler :: "(admin_err \<Rightarrow> string) \<Rightarrow> admin_env \<Rightarrow> string \<Rightarrow> int \<Rightarrow> int \<Rightarrow> uuid \<Rightarrow> User_view list resp admin_op" where
  "UsersHandler msg e q limit offset me = admin_answer msg (JSON StatusOK)
     (andDo (SearchUsers e q limit offset) (\<lambda>list.
       andDo (if q \<noteq> [] then Log e me ''search_users'' Nil_uuid Nil_uuid q else ret ()) (\<lambda>_. ret list)))"

definition UserHandler :: "(admin_err \<Rightarrow> string) \<Rightarrow> admin_env \<Rightarrow> uuid option \<Rightarrow> uuid \<Rightarrow> User_view resp admin_op" where
  "UserHandler msg e path me = with_id ''invalid user id'' path (\<lambda>i. admin_answer msg (JSON StatusOK)
     (andDo (ViewUser e i) (\<lambda>u. andDo (Log e me ''view_user'' i Nil_uuid []) (\<lambda>_. ret u))))"

definition GroupsHandler :: "(admin_err \<Rightarrow> string) \<Rightarrow> admin_env \<Rightarrow> string \<Rightarrow> int \<Rightarrow> int \<Rightarrow> uuid \<Rightarrow> AdminSearchGroupsRow list resp admin_op" where
  "GroupsHandler msg e q limit offset me = admin_answer msg (JSON StatusOK)
     (andDo (SearchGroups e q limit offset) (\<lambda>list.
       andDo (if q \<noteq> [] then Log e me ''search_groups'' Nil_uuid Nil_uuid q else ret ()) (\<lambda>_. ret list)))"

definition AuditHandler :: "(admin_err \<Rightarrow> string) \<Rightarrow> admin_env \<Rightarrow> int \<Rightarrow> uuid \<Rightarrow> (admin_action \<times> string) list resp admin_op" where
  "AuditHandler msg e limit me = admin_answer msg (JSON StatusOK) (Audit e limit)"

definition BanHandler :: "(admin_err \<Rightarrow> string) \<Rightarrow> admin_env \<Rightarrow> uuid option \<Rightarrow> (string \<times> time option) option \<Rightarrow> uuid \<Rightarrow> unit resp admin_op" where
  "BanHandler msg e path body me = with_id ''invalid user id'' path (\<lambda>i. case body of
     None \<Rightarrow> ret (Error StatusBadRequest (msg ErrBadBan))
   | Some (reason, until) \<Rightarrow> admin_answer msg no_content (Ban e me i reason until))"

definition UnbanHandler :: "(admin_err \<Rightarrow> string) \<Rightarrow> admin_env \<Rightarrow> uuid option \<Rightarrow> uuid \<Rightarrow> unit resp admin_op" where
  "UnbanHandler msg e path me = with_id ''invalid user id'' path (\<lambda>i. admin_answer msg no_content (Unban e me i))"

definition ReportsHandler :: "(admin_err \<Rightarrow> string) \<Rightarrow> admin_env \<Rightarrow> string \<Rightarrow> int \<Rightarrow> int \<Rightarrow> uuid \<Rightarrow> ListReportsRow list resp admin_op" where
  "ReportsHandler msg e status limit offset me = admin_answer msg (JSON StatusOK) (ListReports_op e status limit offset)"

definition ReportHandler :: "(admin_err \<Rightarrow> string) \<Rightarrow> admin_env \<Rightarrow> uuid option \<Rightarrow> uuid \<Rightarrow> (GetReportRow \<times> report_message list) resp admin_op" where
  "ReportHandler msg e path me = with_id ''invalid report id'' path (\<lambda>i. admin_answer msg (JSON StatusOK) (ViewReport e me i))"

definition ResolveHandler :: "(admin_err \<Rightarrow> string) \<Rightarrow> admin_env \<Rightarrow> uuid option \<Rightarrow> (string \<times> string) option \<Rightarrow> uuid \<Rightarrow> unit resp admin_op" where
  "ResolveHandler msg e path body me = with_id ''invalid report id'' path (\<lambda>i. case body of
     None \<Rightarrow> ret (Error StatusBadRequest (msg ErrBadResolution))
   | Some (status, remark) \<Rightarrow> admin_answer msg no_content (Resolve e me i status remark))"

end
