(* ===== verification/Ban_Safety.thy ===== *)
theory Ban_Safety
  imports Admin Auth_Runs
begin

text \<open>
  What a ban does: the user loses every session and every group that has somebody else, and the groups
  stay in order.
\<close>

section \<open>Leaving a group\<close>

definition goes :: "time \<Rightarrow> uuid \<Rightarrow> uuid \<Rightarrow> db \<Rightarrow> db" where
  "goes now gid u d = RecountGroupMembers now gid (DeleteMemFromGroup gid u d)"

lemma members_of_goes: "members_of i (goes now gid u d) =
    (if i = gid then filter (\<lambda>m. mt_member_id m \<noteq> u) (members_of i d) else members_of i d)"
  by (simp add: goes_def RecountGroupMembers_def members_of_delete [unfolded members_of_def] members_of_def)

lemma goes_frame [simp]: "users (goes now gid u d) = users d" "group_avatars (goes now gid u d) = group_avatars d"
  by (simp_all add: goes_def RecountGroupMembers_def DeleteMem_frame)

text \<open>\<open>d1\<close>: \<open>d\<close>, perhaps after a promotion in the group.\<close>

lemma goes_inv:
  assumes inv: "groups_inv d" and g: "find_group gid d = Some g"
    and same: "users d1 = users d" "group_avatars d1 = group_avatars d" "chat_groups d1 = chat_groups d"
    and k: "key_ok (\<lambda>m. (mt_group_id m, mt_member_id m)) (member_table d1)"
    and other: "\<And>i. i \<noteq> gid \<Longrightarrow> members_of i d1 = members_of i d"
    and len: "length (members_of gid d1) = length (members_of gid d)"
    and rows: "\<And>m. m \<in> set (members_of gid d1) \<Longrightarrow> row_ok d m"
    and admin: "length (filter (\<lambda>m. mt_member_id m \<noteq> u) (admins_of gid d1)) = 1"
  shows "groups_inv (goes now gid u d1)"
proof -
  let ?d' = "goes now gid u d1" and ?n = "int (length (members_of gid (DeleteMemFromGroup gid u d1)))"
  have gid: "g_id g = gid" using find_group_Some [OF g] by simp
  have ok: "group_ok d g" using groups_invD(5) [OF inv g] .
  have n: "?n = int (length (members_of gid ?d'))" by (simp add: members_of_goes members_of_delete)
  have "length (filter (\<lambda>m. mt_member_id m \<noteq> u) (members_of gid d1)) \<le> length (members_of gid d)"
    using len length_filter_le by metis
  then have le: "?n \<le> g_max_member g" using ok by (simp add: members_of_delete group_ok_def gid)
  show ?thesis
  proof (rule regroup_inv [OF inv g, where f = "\<lambda>x. x\<lparr>g_current_member := ?n, g_updated_at := now\<rparr>"])
    show "chat_groups ?d' = update_rows (\<lambda>g. g_id g = gid) (\<lambda>x. x\<lparr>g_current_member := ?n, g_updated_at := now\<rparr>) (chat_groups d)"
      by (simp add: goes_def RecountGroupMembers_def DeleteMem_frame same)
    show "key_ok (\<lambda>m. (mt_group_id m, mt_member_id m)) (member_table ?d')"
      using k by (simp add: goes_def RecountGroupMembers_def DeleteMemFromGroup_def key_ok_delete)
    show "row_ok d m" if "m \<in> set (members_of gid ?d')" for m using that rows by (auto simp: members_of_goes)
    show "length (admins_of gid ?d') = 1"
      using admin by (simp add: admins_of_def members_of_goes conj_commute)
    show "g_current_member (g\<lparr>g_current_member := ?n, g_updated_at := now\<rparr>) = int (length (members_of gid ?d'))"
      by (simp add: n)
  qed (use le same other in \<open>simp_all add: members_of_goes\<close>)
qed

text \<open>A member who is not the admin.\<close>

lemma goes_plain:
  assumes inv: "groups_inv d" and m: "m \<in> set (members_of gid d)" "mt_member_id m = u" "mt_role m \<noteq> RoleAdmin"
  shows "groups_inv (goes now gid u d)"
proof -
  have "group_exists gid d" using inv m(1) by (auto simp: groups_inv_def members_of_set member_ok_def)
  then obtain g where g: "find_group gid d = Some g" by (auto simp: find_group_exists)
  have "length (admins_of gid d) = 1" using groups_invD(5) [OF inv g] find_group_Some [OF g] by (simp add: group_ok_def)
  then obtain a where "set (admin_ids gid d) = {a}" using one_admin_iff [OF groups_invD(3) [OF inv]] by blast
  moreover have "u \<notin> set (admin_ids gid d)" using not_the_admin [OF inv m(1,3)] m(2) by simp
  ultimately have "set (admin_ids gid d) - {u} = {a}" by auto
  from goes_inv [OF inv g _ _ _ groups_invD(3) [OF inv] _ _ row_ok_members [OF inv] one_remaining [OF groups_invD(3) [OF inv] this]]
  show ?thesis by simp
qed

text \<open>The admin, who has a successor.\<close>

lemma goes_admin:
  assumes inv: "groups_inv d" and m: "m \<in> set (members_of gid d)" "mt_member_id m = u" "mt_role m = RoleAdmin"
    and n: "NextAdmin gid u d = Inr nxt"
  shows "groups_inv (goes now gid u (PromoteToLeader gid nxt d))"
proof -
  let ?d = "PromoteToLeader gid nxt d"
  have "group_exists gid d" using inv m(1) by (auto simp: groups_inv_def members_of_set member_ok_def)
  then obtain g where g: "find_group gid d = Some g" by (auto simp: find_group_exists)
  note p = PromoteToLeader_role [of gid nxt d] note f = SetMemberRole_frame [OF p] note nx = NextAdmin_Inr [OF n]
  have k: "key_ok (\<lambda>m. (mt_group_id m, mt_member_id m)) (member_table ?d)" using groups_invD(3) [OF inv] f by simp
  have "set (admin_ids gid ?d) - {u} = {nxt}"
    using admin_ids_set_role [OF p nx(1)] the_admin [OF inv g m(1,3)] m(2) nx(2) by auto
  note one = one_remaining [OF k this]
  show ?thesis
  proof (rule goes_inv [OF inv g f(1-3) k f(5) f(6) _ one])
    show "row_ok d x" if "x \<in> set (members_of gid ?d)" for x
      by (rule SetMemberRole_rows [OF p that]) (simp_all add: row_ok_members [OF inv])
  qed simp
qed

section \<open>A banned user leaves the groups\<close>

definition put_tables :: "db \<Rightarrow> admin_sys \<Rightarrow> admin_sys" where
  "put_tables d s = s\<lparr>ax_db := (ax_db s)\<lparr>mo_auth := (mo_auth (ax_db s))\<lparr>ad_db := d\<rparr>\<rparr>\<rparr>"

abbreviation rows :: "admin_sys \<Rightarrow> db" where
  "rows s \<equiv> tables (ax_db s)"

text \<open>The tables after the transaction, if it took the user out.\<close>

definition after_leave :: "time \<Rightarrow> uuid \<Rightarrow> GroupMembershipsOfRow \<Rightarrow> db \<Rightarrow> db \<Rightarrow> bool" where
  "after_leave now u m d d' \<longleftrightarrow> (if mb_Role m = RoleAdmin
     then \<exists>nxt. NextAdmin (mb_GroupID m) u d = Inr nxt \<and> d' = goes now (mb_GroupID m) u (PromoteToLeader (mb_GroupID m) nxt d)
     else d' = goes now (mb_GroupID m) u d)"

lemma mod_exec_tables: "mod_exec flt (\<lambda>d. Inr (set_tables f d)) s =
    (if flt then (Inl (DbFail OtherDb), s) else (Inr (), put_tables (f (rows s)) s))"
  by (simp add: mod_exec_def exec_def faulty_def set_tables_def put_tables_def)

lemma rows_put [simp]: "rows (put_tables d s) = d" and put_put [simp]: "put_tables d' (put_tables d s) = put_tables d' s"
  by (simp_all add: put_tables_def)

lemma leave_rows:
  "andDo (mod_exec f1 (\<lambda>d. Inr (set_tables (DeleteMemFromGroup gid u) d))) (\<lambda>_. mod_exec f2 (\<lambda>d. Inr (set_tables (RecountGroupMembers now gid) d))) s = (r, t) \<Longrightarrow>
     r = Inr () \<and> t = put_tables (goes now gid u (rows s)) s \<or> (\<exists>x. r = Inl x)"
  by (auto simp: andDo_def mod_exec_tables goes_def split: if_splits)

lemma leave_tx_cases:
  assumes "leave_tx e u m s = (r, t)"
  obtains (left) d' where "r = Inr ()" "after_leave (xe_dbnow e) u m (rows s) d'" "t = put_tables d' s"
    | (alone) "r = Inr ()" "mb_Role m = RoleAdmin" "NextAdmin (mb_GroupID m) u (rows s) = Inl NoRows" "t = s"
    | (failed) x where "r = Inl x" "t = s"
proof -
  let ?gid = "mb_GroupID m"
  let ?leave = "andDo (mod_exec (xe_fails e (XDeleteMember ?gid)) (\<lambda>d. Inr (set_tables (DeleteMemFromGroup ?gid u) d)))
    (\<lambda>_. mod_exec (xe_fails e (XRecount ?gid)) (\<lambda>d. Inr (set_tables (RecountGroupMembers (xe_dbnow e) ?gid) d))) :: unit admin_op"
  let ?body = "if mb_Role m = RoleAdmin then attempt (mod_query (xe_fails e (XEarliest ?gid)) (\<lambda>d. EarliestOtherMember ?gid u (mo_auth d))) (\<lambda>r. case r of
      Inl x \<Rightarrow> if x = DbFail NoRows then ret () else break_off x
    | Inr nxt \<Rightarrow> andDo (mod_exec (xe_fails e (XPromote ?gid)) (\<lambda>d. Inr (set_tables (PromoteToLeader ?gid nxt) d))) (\<lambda>_. ?leave)) else ?leave"
  have tx: "leave_tx e u m = atomically (xe_fails e (XCommit ?gid)) ?body" by (simp add: leave_tx_def Let_def)
  have body: "t' = s \<and> mb_Role m = RoleAdmin \<and> NextAdmin ?gid u (rows s) = Inl NoRows \<or>
      (\<exists>d'. after_leave (xe_dbnow e) u m (rows s) d' \<and> t' = put_tables d' s)" if b: "?body s = (Inr (), t')" for t'
  proof (cases "mb_Role m = RoleAdmin")
    case True
    from b True show ?thesis
      by (auto simp: attempt_def mod_query_def sql_query_def faulty_def EarliestOtherMember_def andDo_def mod_exec_tables after_leave_def goes_def
          split: sum.splits if_splits)
  next
    case False
    with b have "?leave s = (Inr (), t')" by simp
    from leave_rows [OF this] False show ?thesis by (auto simp: after_leave_def)
  qed
  show thesis
  proof (cases r)
    case (Inl x)
    have "t = s" using atomically_Inl [OF assms [unfolded tx Inl]] .
    with Inl show ?thesis by (rule failed)
  next
    case (Inr v)
    then have "?body s = (Inr (), t)" using assms unfolding tx by simp
    from body [OF this] show ?thesis
    proof (elim disjE exE conjE)
    qed (use Inr left alone in simp_all)
  qed
qed

text \<open>What may have changed while groups in \<open>G\<close> were left.\<close>

definition moved_out :: "uuid \<Rightarrow> uuid set \<Rightarrow> admin_sys \<Rightarrow> admin_sys \<Rightarrow> bool" where
  "moved_out u G s t \<longleftrightarrow> groups_inv (rows t) \<and>
     (\<exists>ms gs acts. ax_db t = (ax_db s)\<lparr>mo_auth := (mo_auth (ax_db s))\<lparr>ad_db := (rows s)\<lparr>member_table := ms, chat_groups := gs\<rparr>\<rparr>,
        admin_actions := admin_actions (ax_db s) @ acts\<rparr>) \<and>
     ax_rev t = ax_rev s \<and> set (ax_out s) \<subseteq> set (ax_out t) \<and>
     (\<forall>i. i \<notin> G \<longrightarrow> members_of i (rows t) = members_of i (rows s)) \<and>
     (\<forall>i. map mt_member_id (filter (\<lambda>x. mt_member_id x \<noteq> u) (members_of i (rows t))) =
        map mt_member_id (filter (\<lambda>x. mt_member_id x \<noteq> u) (members_of i (rows s))))"

lemma moved_out_trans: "moved_out u G s t \<Longrightarrow> moved_out u H t w \<Longrightarrow> moved_out u (G \<union> H) s w"
  unfolding moved_out_def by (elim exE conjE, intro conjI exI) (auto simp: members_of_def)

lemma moved_out_refl: "groups_inv (rows s) \<Longrightarrow> moved_out u G s s"
  unfolding moved_out_def by (intro conjI exI [of _ "[]"] exI [of _ "member_table (rows s)"] exI [of _ "chat_groups (rows s)"]) auto

lemma Log_moves:
  assumes "Log e a x v g txt s = (r, t)"
  shows "r = Inr () \<and> ax_rev t = ax_rev s \<and> ax_out t = ax_out s \<and> (\<exists>acts. ax_db t = (ax_db s)\<lparr>admin_actions := admin_actions (ax_db s) @ acts\<rparr>)"
proof -
  have "ax_db t = (ax_db s)\<lparr>admin_actions := admin_actions (ax_db s) @ []\<rparr>" if "t = s" using that by simp
  then show ?thesis
    using assms by (auto simp: Log_def attempt_def mod_exec_def exec_def faulty_def ret_def LogAdminAction_def simp del: append_Nil2
        split: sum.splits if_splits option.splits; blast)
qed

lemma moved_out_log:
  assumes "Log e a x v g txt s = (r, t)" "groups_inv (rows s)"
  shows "moved_out u G s t"
proof -
  obtain acts where t: "ax_rev t = ax_rev s" "ax_out t = ax_out s" "ax_db t = (ax_db s)\<lparr>admin_actions := admin_actions (ax_db s) @ acts\<rparr>"
    using Log_moves [OF assms(1)] by blast
  show ?thesis unfolding moved_out_def t using assms(2)
    by (intro conjI exI [of _ acts] exI [of _ "member_table (rows s)"] exI [of _ "chat_groups (rows s)"]) auto
qed

lemma moved_out_announce: "groups_inv (rows s) \<Longrightarrow> moved_out u G s (snd (announce x s)) \<and> x \<in> set (ax_out (snd (announce x s)))"
  unfolding moved_out_def announce_def
  by (intro conjI exI [of _ "[]"] exI [of _ "member_table (rows s)"] exI [of _ "chat_groups (rows s)"]) auto

definition in_group :: "uuid \<Rightarrow> GroupMembershipsOfRow \<Rightarrow> db \<Rightarrow> bool" where
  "in_group u row d \<longleftrightarrow> mb_CurrentMember row = int (length (members_of (mb_GroupID row) d)) \<and>
     (\<exists>m \<in> set (members_of (mb_GroupID row) d). mt_member_id m = u \<and> mt_role m = mb_Role row)"

lemma after_leave_moves:
  assumes inv: "groups_inv (rows s)" and i: "in_group u row (rows s)" and a: "after_leave now u row (rows s) d'"
  shows "moved_out u {mb_GroupID row} s (put_tables d' s)" "\<forall>m \<in> set (members_of (mb_GroupID row) d'). mt_member_id m \<noteq> u"
proof -
  let ?gid = "mb_GroupID row"
  obtain m where m: "m \<in> set (members_of ?gid (rows s))" "mt_member_id m = u" "mt_role m = mb_Role row"
    using i by (auto simp: in_group_def)
  obtain d1 where d': "d' = goes now ?gid u d1" "groups_inv d'" and mt: "\<exists>ms. d1 = (rows s)\<lparr>member_table := ms\<rparr>"
    and other: "\<And>i. i \<noteq> ?gid \<Longrightarrow> members_of i d1 = members_of i (rows s)"
    and ids: "\<And>i. map mt_member_id (members_of i d1) = map mt_member_id (members_of i (rows s))"
  proof (cases "mb_Role row = RoleAdmin")
    case True
    then obtain nxt where n: "NextAdmin ?gid u (rows s) = Inr nxt" "d' = goes now ?gid u (PromoteToLeader ?gid nxt (rows s))"
      using a by (auto simp: after_leave_def)
    note p = members_of_set_role [OF PromoteToLeader_role [of ?gid nxt "rows s"]]
    have "groups_inv d'" unfolding n(2) using goes_admin [OF inv m(1,2) _ n(1)] m(3) True by simp
    moreover have "map mt_member_id (members_of i (PromoteToLeader ?gid nxt (rows s))) = map mt_member_id (members_of i (rows s))" for i
      by (simp add: p map_update_rows)
    moreover have "\<exists>ms. PromoteToLeader ?gid nxt (rows s) = (rows s)\<lparr>member_table := ms\<rparr>" by (auto simp: PromoteToLeader_def)
    ultimately show thesis using that [OF n(2)] by (simp add: p)
  next
    case False
    then have n: "d' = goes now ?gid u (rows s)" using a by (simp add: after_leave_def)
    moreover have "groups_inv d'" unfolding n using goes_plain [OF inv m(1,2)] m(3) False by simp
    moreover have "rows s = (rows s)\<lparr>member_table := member_table (rows s)\<rparr>" by simp
    ultimately show thesis using that by blast
  qed
  have others: "map mt_member_id (filter (\<lambda>x. mt_member_id x \<noteq> u) xs) = filter (\<lambda>i. i \<noteq> u) (map mt_member_id xs)" for xs
    by (simp add: filter_map comp_def)
  obtain ms0 where "d1 = (rows s)\<lparr>member_table := ms0\<rparr>" using mt by blast
  then obtain ms gs where "d' = (rows s)\<lparr>member_table := ms, chat_groups := gs\<rparr>"
    by (simp add: d'(1) goes_def RecountGroupMembers_def DeleteMemFromGroup_def)
  then have sh: "ax_db (put_tables d' s) = (ax_db s)\<lparr>mo_auth := (mo_auth (ax_db s))\<lparr>ad_db := (rows s)\<lparr>member_table := ms, chat_groups := gs\<rparr>\<rparr>,
      admin_actions := admin_actions (ax_db s) @ []\<rparr>" by (simp add: put_tables_def)
  show "moved_out u {?gid} s (put_tables d' s)"
    unfolding moved_out_def
  proof (intro conjI)
    show "\<forall>i. map mt_member_id (filter (\<lambda>x. mt_member_id x \<noteq> u) (members_of i (rows (put_tables d' s)))) =
        map mt_member_id (filter (\<lambda>x. mt_member_id x \<noteq> u) (members_of i (rows s)))"
      using ids by (simp add: d'(1) members_of_goes others)
    show "\<forall>i. i \<notin> {?gid} \<longrightarrow> members_of i (rows (put_tables d' s)) = members_of i (rows s)"
      using other by (simp add: d'(1) members_of_goes)
    show "groups_inv (rows (put_tables d' s))" using d'(2) by simp
  qed (use sh in blast, simp_all add: put_tables_def)
  show "\<forall>m \<in> set (members_of ?gid d'). mt_member_id m \<noteq> u" by (simp add: d'(1) members_of_goes)
qed

lemma others_in_group:
  assumes "groups_inv d" "in_group u row d" "mb_CurrentMember row > 1"
  shows "NextAdmin (mb_GroupID row) u d \<noteq> Inl x"
proof
  assume "NextAdmin (mb_GroupID row) u d = Inl x"
  then have "filter (\<lambda>m. mt_member_id m \<noteq> u) (members_of (mb_GroupID row) d) = []" by (rule NextAdmin_NoRows)
  moreover obtain m where "m \<in> set (members_of (mb_GroupID row) d)" "mt_member_id m = u" using assms(2) by (auto simp: in_group_def)
  ultimately have "length (members_of (mb_GroupID row) d) = 1"
    using filter_other_length [OF member_ids_key [OF groups_invD(3) [OF assms(1)]]] by fastforce
  then show False using assms(2,3) by (simp add: in_group_def)
qed

lemma leave_one_moves:
  assumes inv: "groups_inv (rows s)" and i: "in_group u row (rows s)" and l: "leave_one e u row s = (r, t)"
  shows "moved_out u {mb_GroupID row} s t"
    "r = Inr () \<Longrightarrow> (if mb_CurrentMember row \<le> 1 then t = s
       else (\<forall>m \<in> set (members_of (mb_GroupID row) (rows t)). mt_member_id m \<noteq> u) \<and> GroupChanged (mb_GroupID row) \<in> set (ax_out t))"
proof -
  let ?G = "{mb_GroupID row}"
  have "moved_out u ?G s t \<and> (r = Inr () \<longrightarrow> (if mb_CurrentMember row \<le> 1 then t = s
       else (\<forall>m \<in> set (members_of (mb_GroupID row) (rows t)). mt_member_id m \<noteq> u) \<and> GroupChanged (mb_GroupID row) \<in> set (ax_out t)))"
  proof (cases "mb_CurrentMember row \<le> 1")
    case True
    with l show ?thesis using moved_out_refl [OF inv] by (auto simp: leave_one_def ret_def)
  next
    case False
    then have l': "andDo (leave_tx e u row) (\<lambda>_. andDo (announce (GroupChanged (mb_GroupID row))) (\<lambda>_.
        Log e Nil_uuid ''ban_removed_from_group'' u (mb_GroupID row) [])) s = (r, t)" using l by (simp add: leave_one_def)
    obtain r1 s1 where tx: "leave_tx e u row s = (r1, s1)" by (cases "leave_tx e u row s")
    show ?thesis using tx
    proof (cases rule: leave_tx_cases)
      case (failed x)
      with l' tx show ?thesis using moved_out_refl [OF inv] by (auto simp: andDo_def)
    next
      case alone
      with others_in_group [OF inv i] False show ?thesis by auto
    next
      case (left d')
      note m1 = after_leave_moves [OF inv i left(2)]
      let ?s2 = "snd (announce (GroupChanged (mb_GroupID row)) s1)"
      have inv1: "groups_inv (rows s1)" using m1(1) left(3) by (simp add: moved_out_def)
      note m2 = moved_out_announce [OF inv1, of u ?G "GroupChanged (mb_GroupID row)"]
      have lg: "Log e Nil_uuid ''ban_removed_from_group'' u (mb_GroupID row) [] ?s2 = (r, t)"
        using l' tx left(1) by (simp add: andDo_def announce_def)
      have "groups_inv (rows ?s2)" using m2 by (simp add: moved_out_def)
      note m3 = moved_out_log [OF lg this, of u ?G]
      have "moved_out u ?G s t"
        using moved_out_trans [OF moved_out_trans [OF m1(1) [folded left(3)] m2 [THEN conjunct1]] m3] by simp
      moreover have "rows t = d'" using Log_moves [OF lg] left(3) by (auto simp: announce_def)
      moreover have "GroupChanged (mb_GroupID row) \<in> set (ax_out t)" using m2 m3 by (auto simp: moved_out_def)
      ultimately show ?thesis using m1(2) False by simp
    qed
  qed
  then show "moved_out u ?G s t" "r = Inr () \<Longrightarrow> (if mb_CurrentMember row \<le> 1 then t = s
       else (\<forall>m \<in> set (members_of (mb_GroupID row) (rows t)). mt_member_id m \<noteq> u) \<and> GroupChanged (mb_GroupID row) \<in> set (ax_out t))"
    by blast+
qed

lemma leave_all_moves:
  assumes "groups_inv (rows s)" "\<forall>row \<in> set ms. in_group u row (rows s)" "distinct (map mb_GroupID ms)"
    "each (leave_one e u) ms s = (r, t)"
  shows "moved_out u (mb_GroupID ` set ms) s t"
    "\<forall>x. r \<noteq> Inl x \<Longrightarrow> row \<in> set ms \<Longrightarrow> (if mb_CurrentMember row \<le> 1 then members_of (mb_GroupID row) (rows t) = members_of (mb_GroupID row) (rows s)
       else (\<forall>m \<in> set (members_of (mb_GroupID row) (rows t)). mt_member_id m \<noteq> u) \<and> GroupChanged (mb_GroupID row) \<in> set (ax_out t))"
  using assms
proof (atomize (full), induction ms arbitrary: s r row)
  case Nil
  then show ?case using moved_out_refl by (auto simp: ret_def)
next
  case (Cons a ms)
  note inv = Cons.prems(1) and i = Cons.prems(2) and d = Cons.prems(3) and e = Cons.prems(4)
    obtain r1 s1 where one: "leave_one e u a s = (r1, s1)" by (cases "leave_one e u a s")
    note m1 = leave_one_moves [OF inv _ one]
    have ia: "in_group u a (rows s)" using i by simp
    show ?case
    proof (cases r1)
      case (Inl x)
      with e one have "r = Inl x" "t = s1" by (simp_all add: andDo_def)
      with m1(1) [OF ia] show ?thesis by (auto simp: moved_out_def)
    next
      case (Inr v)
      then have r1: "r1 = Inr ()" by simp
      obtain r2 t2 where rest: "each (leave_one e u) ms s1 = (r2, t2)" by (cases "each (leave_one e u) ms s1")
      with e one r1 have t: "t2 = t" "(\<forall>x. r \<noteq> Inl x) \<longrightarrow> (\<forall>x. r2 \<noteq> Inl x)"
        by (auto simp: andDo_def ret_def split: sum.splits)
      have inv1: "groups_inv (rows s1)" using m1(1) [OF ia] by (simp add: moved_out_def)
      have same: "members_of i (rows s1) = members_of i (rows s)" if "i \<noteq> mb_GroupID a" for i
        using m1(1) [OF ia] that by (simp add: moved_out_def)
      have i1: "\<forall>row \<in> set ms. in_group u row (rows s1)"
      proof
        fix x assume x: "x \<in> set ms"
        then have "mb_GroupID x \<noteq> mb_GroupID a" using d by (metis image_eqI distinct.simps(2) list.map(2) list.set_map)
        with i x same show "in_group u x (rows s1)" by (simp add: in_group_def)
      qed
      have IH: "moved_out u (mb_GroupID ` set ms) s1 t"
        "\<And>row. row \<in> set ms \<Longrightarrow> \<forall>x. r \<noteq> Inl x \<Longrightarrow> (if mb_CurrentMember row \<le> 1 then members_of (mb_GroupID row) (rows t) = members_of (mb_GroupID row) (rows s1)
          else (\<forall>m \<in> set (members_of (mb_GroupID row) (rows t)). mt_member_id m \<noteq> u) \<and> GroupChanged (mb_GroupID row) \<in> set (ax_out t))"
        using Cons.IH [of s1 r2] inv1 i1 d rest t by auto
      have "moved_out u (mb_GroupID ` set (a # ms)) s t" using moved_out_trans [OF m1(1) [OF ia] IH(1)] by simp
      moreover have "if mb_CurrentMember row \<le> 1 then members_of (mb_GroupID row) (rows t) = members_of (mb_GroupID row) (rows s)
          else (\<forall>m \<in> set (members_of (mb_GroupID row) (rows t)). mt_member_id m \<noteq> u) \<and> GroupChanged (mb_GroupID row) \<in> set (ax_out t)"
        if r: "\<forall>x. r \<noteq> Inl x" and row: "row \<in> set (a # ms)"
      proof (cases "row = a")
        case True
        have "mb_GroupID a \<notin> mb_GroupID ` set ms" using d by simp
        then have "members_of (mb_GroupID a) (rows t) = members_of (mb_GroupID a) (rows s1)" "set (ax_out s1) \<subseteq> set (ax_out t)"
          using IH(1) by (auto simp: moved_out_def)
        with True m1(2) [OF ia r1] show ?thesis by (auto split: if_splits)
      next
        case False
        then have m: "row \<in> set ms" using row by simp
        then have "mb_GroupID row \<noteq> mb_GroupID a" using d by (metis image_eqI distinct.simps(2) list.map(2) list.set_map)
        with IH(2) [OF m r] same show ?thesis by simp
      qed
      ultimately show ?thesis by blast
    qed
qed

section \<open>Bans\<close>

lemma memberships_in:
  assumes inv: "groups_inv (tables d)"
  shows "\<forall>row \<in> set (GroupMembershipsOf u d). in_group u row (tables d)" "distinct (map mb_GroupID (GroupMembershipsOf u d))"
    "m \<in> set (member_table (tables d)) \<Longrightarrow> mt_member_id m = u \<Longrightarrow> \<exists>row \<in> set (GroupMembershipsOf u d). mb_GroupID row = mt_group_id m"
proof -
  let ?ms = "filter (\<lambda>m. mt_member_id m = u) (member_table (tables d))"
  have one: "\<exists>g. filter (\<lambda>g. g_id g = mt_group_id m) (chat_groups (tables d)) = [g] \<and> find_group (mt_group_id m) (tables d) = Some g"
    if "m \<in> set (member_table (tables d))" for m
  proof -
    have k: "key_ok g_id (chat_groups (tables d))" using groups_invD(1) [OF inv] .
    have "group_exists (mt_group_id m) (tables d)" using inv that by (auto simp: groups_inv_def member_ok_def)
    then obtain g where g: "find_group (mt_group_id m) (tables d) = Some g" by (auto simp: find_group_exists)
    then obtain gs where f: "filter (\<lambda>g. g_id g = mt_group_id m) (chat_groups (tables d)) = g # gs"
      by (auto simp: find_group_def find_row_filter split: list.splits)
    have "distinct (map g_id (g # gs))" using k unfolding f [symmetric] by (simp add: key_ok_def distinct_map_filter)
    moreover have "set (map g_id (g # gs)) \<subseteq> {mt_group_id m}" unfolding f [symmetric] by auto
    ultimately have "gs = []" by (cases gs) auto
    with f g show ?thesis by simp
  qed
  define row where "row (m :: member_row) = \<lparr>mb_GroupID = mt_group_id m, mb_Role = mt_role m,
      mb_CurrentMember = g_current_member (the (find_group (mt_group_id m) (tables d)))\<rparr>" for m
  have "map (\<lambda>g. \<lparr>mb_GroupID = mt_group_id m, mb_Role = mt_role m, mb_CurrentMember = g_current_member g\<rparr>)
      (filter (\<lambda>g. g_id g = mt_group_id m) (chat_groups (tables d))) = [row m]" if "m \<in> set ?ms" for m
    using one [of m] that by (auto simp: row_def)
  then have eq: "GroupMembershipsOf u d = map row ?ms"
    unfolding GroupMembershipsOf_def by (subst map_cong [OF refl, where g = "\<lambda>m. [row m]"]) simp_all
  show "\<forall>row \<in> set (GroupMembershipsOf u d). in_group u row (tables d)"
  proof
    fix r assume "r \<in> set (GroupMembershipsOf u d)"
    then obtain m where m: "r = row m" "m \<in> set (member_table (tables d))" "mt_member_id m = u" by (auto simp: eq)
    from one [OF m(2)] obtain g where "find_group (mt_group_id m) (tables d) = Some g" by blast
    with m show "in_group u r (tables d)"
      using groups_invD(5) [OF inv] find_group_Some by (auto simp: in_group_def row_def group_ok_def members_of_set)
  qed
  have "distinct (map (\<lambda>m. (mt_group_id m, mt_member_id m)) ?ms)"
    using groups_invD(3) [OF inv] by (simp add: key_ok_def distinct_map_filter)
  then show "distinct (map mb_GroupID (GroupMembershipsOf u d))"
    by (auto simp: eq row_def comp_def distinct_map inj_on_def)
  show "\<exists>row \<in> set (GroupMembershipsOf u d). mb_GroupID row = mt_group_id m" if "m \<in> set (member_table (tables d))" "mt_member_id m = u"
    using that by (auto simp: eq row_def)
qed

lemma leaveGroups_moves:
  assumes inv: "groups_inv (rows s)" and l: "leaveGroups e u s = (r, t)"
  shows "moved_out u UNIV s t"
    "r = Inr () \<Longrightarrow> m \<in> set (member_table (rows t)) \<Longrightarrow> mt_member_id m = u \<Longrightarrow> members_of (mt_group_id m) (rows t) = [m]"
    "r = Inr () \<Longrightarrow> m \<in> set (member_table (rows s)) \<Longrightarrow> mt_member_id m = u \<Longrightarrow> length (members_of (mt_group_id m) (rows s)) > 1 \<Longrightarrow>
       GroupChanged (mt_group_id m) \<in> set (ax_out t)"
proof -
  let ?ms = "GroupMembershipsOf u (ax_db s)"
  note ms = memberships_in [OF inv, where u = u]
  obtain r1 t1 where e: "each (leave_one e u) ?ms s = (r1, t1)" by (cases "each (leave_one e u) ?ms s")
  note all = leave_all_moves [OF inv ms(1,2) e]
  have "moved_out u UNIV s t1" using all(1) by (simp add: moved_out_def)
  then show mo: "moved_out u UNIV s t"
    using l e moved_out_refl [OF inv]
    by (auto simp: leaveGroups_def andDo_def mod_query_def sql_query_def faulty_def ret_def split: sum.splits if_splits)
  assume "r = Inr ()"
  then have t: "t1 = t" "\<forall>x. r1 \<noteq> Inl x"
    using l e by (auto simp: leaveGroups_def andDo_def mod_query_def sql_query_def faulty_def ret_def split: sum.splits if_splits)
  have it: "groups_inv (rows t)" using mo by (simp add: moved_out_def)
  show "members_of (mt_group_id m) (rows t) = [m]" if m: "m \<in> set (member_table (rows t))" "mt_member_id m = u"
  proof -
    have "m \<in> set (members_of (mt_group_id m) (rows t))" using m(1) by (simp add: members_of_set)
    show ?thesis
    proof (cases "mt_group_id m \<in> mb_GroupID ` set ?ms")
      case True
      then obtain row where row: "row \<in> set ?ms" "mb_GroupID row = mt_group_id m" by auto
      have "length (members_of (mt_group_id m) (rows t)) \<le> 1"
      proof (cases "mb_CurrentMember row \<le> 1")
        case True
        then show ?thesis using all(2) [OF t(2) row(1)] ms(1) row by (auto simp: t(1) in_group_def)
      next
        case False
        then show ?thesis using all(2) [OF t(2) row(1)] row m by (auto simp: t(1) members_of_set)
      qed
      then show ?thesis using \<open>m \<in> set (members_of _ _)\<close> by (cases "members_of (mt_group_id m) (rows t)") auto
    next
      case False
      then have "members_of (mt_group_id m) (rows t) = members_of (mt_group_id m) (rows s)"
        using all(1) by (simp add: moved_out_def t(1))
      then have "m \<in> set (member_table (rows s))" using \<open>m \<in> set (members_of _ _)\<close> by (simp add: members_of_set)
      with ms(3) m(2) False show ?thesis by force
    qed
  qed
  show "GroupChanged (mt_group_id m) \<in> set (ax_out t)"
    if m: "m \<in> set (member_table (rows s))" "mt_member_id m = u" "length (members_of (mt_group_id m) (rows s)) > 1"
  proof -
    obtain row where row: "row \<in> set ?ms" "mb_GroupID row = mt_group_id m" using ms(3) m by blast
    then have "mb_CurrentMember row > 1" using ms(1) m(3) by (auto simp: in_group_def)
    then show ?thesis using all(2) [OF t(2) row(1)] row by (simp add: t(1))
  qed
qed

lemma BanUser_rows:
  assumes "BanUser at until reason i d = Inr (k, d')"
  shows "d' = set_tables (\<lambda>x. x\<lparr>users := update_rows (\<lambda>u. u_id u = i \<and> \<not> u_is_admin u)
      (\<lambda>u. u\<lparr>u_banned_at := Some at, u_banned_until := until, u_ban_reason := Some reason, u_updated_at := at\<rparr>) (users x)\<rparr>) d"
    "k \<noteq> 0 \<longleftrightarrow> (\<exists>u \<in> set (users (tables d)). u_id u = i \<and> \<not> u_is_admin u)"
  using assms by (auto simp: BanUser_def filter_empty_conv split: if_splits)

lemma session_Revoke_rows:
  assumes "session_op (RevokeAllRefreshTokens e c u) s = (Inr (), t)"
  shows "ax_db t = (ax_db s)\<lparr>mo_auth := RevokeAllUserRefreshTokens (ae_dbnow e) u (mo_auth (ax_db s))\<rparr>"
    "set (ax_out s) \<union> {Session (Disconnect u), Session (ForgetDevices u)} \<subseteq> set (ax_out t)"
    "RevokeAll False (ac_accessTTL c) (ae_srv e) (ae_now e) u (ax_rev s) = (True, ax_rev t)"
proof -
  let ?w = "\<lparr>as_db = mo_auth (ax_db s), as_rev = ax_rev s\<rparr>"
  obtain w es where w: "RevokeAllRefreshTokens e c u ?w = (Inr (), w, es)"
      and t: "t = s\<lparr>ax_db := (ax_db s)\<lparr>mo_auth := as_db w\<rparr>, ax_rev := as_rev w, ax_out := ax_out s @ map Session es\<rparr>"
    using assms unfolding session_op_def by (auto split: prod.splits sum.splits fail.splits)
  from w obtain w1 es1 w2 es2 es3 where x: "exec_db (ae_fails e ARevokeTokens) (\<lambda>d. Inr (RevokeAllUserRefreshTokens (ae_dbnow e) u d)) ?w = (Inr (), w1, es1)"
      "redis_revoke e c u w1 = (Inr (), w2, es2)" "es = es1 @ es2 @ [Disconnect u, ForgetDevices u]" "w = w2"
    unfolding RevokeAllRefreshTokens_def by (auto simp: thenDo_Inr split: if_splits)
  show "ax_db t = (ax_db s)\<lparr>mo_auth := RevokeAllUserRefreshTokens (ae_dbnow e) u (mo_auth (ax_db s))\<rparr>"
    "set (ax_out s) \<union> {Session (Disconnect u), Session (ForgetDevices u)} \<subseteq> set (ax_out t)"
    "RevokeAll False (ac_accessTTL c) (ae_srv e) (ae_now e) u (ax_rev s) = (True, ax_rev t)"
    using x by (auto simp: t redis_revoke_def split: prod.splits if_splits) (auto simp: RevokeAll_def split: if_splits prod.splits)
qed

lemma Ban_Inr:
  assumes "Ban e admin target reason until s = (Inr (), t)"
  obtains s1 s2 s3 s4 k where "target \<noteq> admin" "TrimSpace reason \<noteq> []" "\<And>x. until = Some x \<Longrightarrow> x > xe_now e" "k \<noteq> 0"
    "BanUser (pgTime (xe_now e)) (map_option pgTime until) (TrimSpace reason) target (ax_db s) = Inr (k, ax_db s1)"
    "ax_rev s1 = ax_rev s" "ax_out s1 = ax_out s"
    "session_op (RevokeAllRefreshTokens (xe_auth e) (xe_conf e) target) s1 = (Inr (), s2)"
    "leaveGroups e target s2 = (Inr (), s3)"
    "Log e admin ''ban'' target Nil_uuid (ban_detail e (TrimSpace reason) until) s3 = (Inr (), s4)"
    "t = s4\<lparr>ax_out := ax_out s4 @ [BanChanged target]\<rparr>"
proof -
  let ?reason = "TrimSpace reason"
  have c: "target \<noteq> admin" "\<not> (RuneCountInString ?reason = 0 \<or> RuneCountInString ?reason > 500 \<or> (case until of None \<Rightarrow> False | Some x \<Rightarrow> \<not> x > xe_now e))"
    using assms by (auto simp: Ban_def Let_def split: if_splits)
  then have "?reason \<noteq> []" by (auto simp: RuneCountInString_def)
  have b: "andDo (mod_alter (xe_fails e XBan) (BanUser (pgTime (xe_now e)) (map_option pgTime until) ?reason target)) (\<lambda>k.
        if k = 0 then
          attempt (mod_query (xe_fails e XUserBan) (UserBan_row target)) (\<lambda>r. case r of
            Inl x \<Rightarrow> if x = DbFail NoRows then stop ErrUserNotFound else break_off x
          | Inr b \<Rightarrow> if ub_IsAdmin b then stop ErrBanAdmin else stop ErrUserNotFound)
        else andDo (session_op (RevokeAllRefreshTokens (xe_auth e) (xe_conf e) target)) (\<lambda>_.
          andDo (leaveGroups e target) (\<lambda>_.
            andDo (Log e admin ''ban'' target Nil_uuid (ban_detail e ?reason until)) (\<lambda>_.
              announce (BanChanged target))))) s = (Inr (), t)"
    using assms c unfolding Ban_def Let_def by (simp split: option.splits)
  from b obtain k s1 where k: "mod_alter (xe_fails e XBan) (BanUser (pgTime (xe_now e)) (map_option pgTime until) ?reason target) s = (Inr k, s1)"
      and r: "(if k = 0 then
          attempt (mod_query (xe_fails e XUserBan) (UserBan_row target)) (\<lambda>r. case r of
            Inl x \<Rightarrow> if x = DbFail NoRows then stop ErrUserNotFound else break_off x
          | Inr b \<Rightarrow> if ub_IsAdmin b then stop ErrBanAdmin else stop ErrUserNotFound)
        else andDo (session_op (RevokeAllRefreshTokens (xe_auth e) (xe_conf e) target)) (\<lambda>_.
          andDo (leaveGroups e target) (\<lambda>_.
            andDo (Log e admin ''ban'' target Nil_uuid (ban_detail e ?reason until)) (\<lambda>_.
              announce (BanChanged target))))) s1 = (Inr (), t)" by (rule andDoE)
  have k0: "k \<noteq> 0"
  proof
    assume "k = 0"
    with r show False by (auto simp: attempt_def stop_def break_off_def split: prod.splits sum.splits if_splits)
  qed
  with r have "andDo (session_op (RevokeAllRefreshTokens (xe_auth e) (xe_conf e) target)) (\<lambda>_.
          andDo (leaveGroups e target) (\<lambda>_.
            andDo (Log e admin ''ban'' target Nil_uuid (ban_detail e ?reason until)) (\<lambda>_.
              announce (BanChanged target)))) s1 = (Inr (), t)" by simp
  then obtain s2 s3 s4 where steps: "session_op (RevokeAllRefreshTokens (xe_auth e) (xe_conf e) target) s1 = (Inr (), s2)"
      "leaveGroups e target s2 = (Inr (), s3)"
      "Log e admin ''ban'' target Nil_uuid (ban_detail e ?reason until) s3 = (Inr (), s4)" "announce (BanChanged target) s4 = (Inr (), t)"
    by (elim andDoE) simp
  show thesis
    by (rule that [of k s1 s2 s3 s4]) (use c k k0 steps \<open>?reason \<noteq> []\<close> in
      \<open>auto simp: mod_alter_def announce_def split: sum.splits option.splits\<close>)
qed

lemma groups_inv_users:
  assumes "groups_inv d" "map u_id us = map u_id (users d)"
  shows "groups_inv (d\<lparr>users := us\<rparr>)"
proof -
  have "user_exists i x \<longleftrightarrow> i \<in> set (map u_id (users x))" for i x by (auto simp: user_exists_def exists_row_def)
  then have e: "user_exists i (d\<lparr>users := us\<rparr>) = user_exists i d" for i
    using arg_cong [OF assms(2), of set] by simp
  have "key_ok u_id us = key_ok u_id (users d)" by (simp only: key_ok_def assms(2))
  moreover have "group_exists i (d\<lparr>users := us\<rparr>) = group_exists i d" "group_ok (d\<lparr>users := us\<rparr>) g = group_ok d g" for i g
    by (simp_all add: group_exists_def group_ok_def admins_of_def members_of_def)
  moreover have "member_ok (d\<lparr>users := us\<rparr>) m = member_ok d m" for m
    by (simp add: member_ok_def e group_exists_def)
  ultimately show ?thesis using assms(1) by (simp add: groups_inv_def)
qed

lemma groups_inv_tokens: "groups_inv (ad_db (RevokeAllUserRefreshTokens now u d)) = groups_inv (ad_db d)"
  by (simp add: RevokeAllUserRefreshTokens_def revoke_rows_def)

lemma revoked_all:
  assumes "x \<in> set (refresh_tokens (RevokeAllUserRefreshTokens now u d))" "rt_user_id x = u"
  shows "rt_revoked_at x \<noteq> None"
  using assms
  by (simp add: RevokeAllUserRefreshTokens_def revoke_rows_def set_update_rows image_iff) (elim disjE bexE, simp_all)

text \<open>
  C12: A ban takes everything from the user: they are banned, all their refresh tokens are revoked and their
  connections and phones cut off, and they are a member only of groups with nobody else, while every
  other member of every group stays, each group keeps exactly one admin and its right count, other
  accounts are untouched, and the caches of the groups left are dropped. Nobody bans themselves or an
  admin.
\<close>

theorem ban_takes_everything:
  assumes inv: "groups_inv (rows s)" and ban: "Ban e admin target reason until s = (Inr (), t)"
  shows "target \<noteq> admin \<and>
    (\<exists>v. find_user target (rows t) = Some v \<and> u_banned_at v = Some (pgTime (xe_now e)) \<and>
      u_banned_until v = map_option pgTime until \<and> \<not> u_is_admin v) \<and>
    (\<forall>v. u_id v \<noteq> target \<longrightarrow> (v \<in> set (users (rows t)) \<longleftrightarrow> v \<in> set (users (rows s)))) \<and>
    (\<forall>x \<in> set (refresh_tokens (mo_auth (ax_db t))). rt_user_id x = target \<longrightarrow> rt_revoked_at x \<noteq> None) \<and>
    groups_inv (rows t) \<and>
    (\<forall>m \<in> set (member_table (rows t)). mt_member_id m = target \<longrightarrow> members_of (mt_group_id m) (rows t) = [m]) \<and>
    (\<forall>i. map mt_member_id (filter (\<lambda>m. mt_member_id m \<noteq> target) (members_of i (rows t))) =
       map mt_member_id (filter (\<lambda>m. mt_member_id m \<noteq> target) (members_of i (rows s)))) \<and>
    {BanChanged target, Session (Disconnect target), Session (ForgetDevices target)} \<subseteq> set (ax_out t) \<and>
    (\<forall>m \<in> set (member_table (rows s)). mt_member_id m = target \<and> length (members_of (mt_group_id m) (rows s)) > 1 \<longrightarrow>
       GroupChanged (mt_group_id m) \<in> set (ax_out t))"
proof -
  obtain s1 s2 s3 s4 k where c: "target \<noteq> admin" "k \<noteq> 0"
    "BanUser (pgTime (xe_now e)) (map_option pgTime until) (TrimSpace reason) target (ax_db s) = Inr (k, ax_db s1)"
    "session_op (RevokeAllRefreshTokens (xe_auth e) (xe_conf e) target) s1 = (Inr (), s2)"
    "leaveGroups e target s2 = (Inr (), s3)"
    "Log e admin ''ban'' target Nil_uuid (ban_detail e (TrimSpace reason) until) s3 = (Inr (), s4)"
    "t = s4\<lparr>ax_out := ax_out s4 @ [BanChanged target]\<rparr>"
    using ban by (rule Ban_Inr)
  let ?hit = "\<lambda>u. u_id u = target \<and> \<not> u_is_admin u"
  let ?f = "\<lambda>u. u\<lparr>u_banned_at := Some (pgTime (xe_now e)), u_banned_until := map_option pgTime until,
      u_ban_reason := Some (TrimSpace reason), u_updated_at := pgTime (xe_now e)\<rparr>"
  note b = BanUser_rows [OF c(3)] and r = session_Revoke_rows [OF c(4)] and l = Log_moves [OF c(6)]
  have d1: "rows s1 = (rows s)\<lparr>users := update_rows ?hit ?f (users (rows s))\<rparr>" by (simp add: b(1) set_tables_def)
  have d2: "rows s2 = rows s1" by (simp add: r(1) RevokeAllUserRefreshTokens_def revoke_rows_def)
  have "groups_inv (rows s2)"
    unfolding d2 d1 by (rule groups_inv_users [OF inv]) (simp add: map_update_rows)
  note g = leaveGroups_moves [OF this c(5)]
  from l obtain acts' where l: "ax_out s4 = ax_out s3" "ax_db s4 = (ax_db s3)\<lparr>admin_actions := admin_actions (ax_db s3) @ acts'\<rparr>" by blast
  have d4: "rows t = rows s3" by (simp add: c(7) l)
  from g(1) obtain ms gs acts where "ax_db s3 = (ax_db s2)\<lparr>mo_auth := (mo_auth (ax_db s2))\<lparr>ad_db := (rows s2)\<lparr>member_table := ms, chat_groups := gs\<rparr>\<rparr>,
      admin_actions := admin_actions (ax_db s2) @ acts\<rparr>" unfolding moved_out_def by blast
  then have d3: "rows s3 = (rows s1)\<lparr>member_table := ms, chat_groups := gs\<rparr>"
      and tok: "refresh_tokens (mo_auth (ax_db s3)) = refresh_tokens (mo_auth (ax_db s2))"
    by (simp_all add: d2)
  have us: "users (rows t) = update_rows ?hit ?f (users (rows s))" by (simp add: d4 d3 d1)
  have keys: "key_ok u_id (users (rows s))" using inv by (simp add: groups_inv_def)
  obtain v0 where v0: "v0 \<in> set (users (rows s))" "u_id v0 = target" "\<not> u_is_admin v0" using b(2) c(2) by blast
  have "find_user target (rows t) = Some (?f v0)"
    unfolding find_user_def us
  proof (rule find_row_eqI [where key = u_id])
    show "key_ok u_id (update_rows ?hit ?f (users (rows s)))" using keys by (simp add: key_ok_update)
    show "?f v0 \<in> set (update_rows ?hit ?f (users (rows s)))"
      using v0 unfolding set_update_rows by (intro image_eqI [of _ _ v0]) auto
  qed (use v0(2) in simp)
  then have 1: "\<exists>v. find_user target (rows t) = Some v \<and> u_banned_at v = Some (pgTime (xe_now e)) \<and>
      u_banned_until v = map_option pgTime until \<and> \<not> u_is_admin v" using v0(3) by auto
  have 2: "v \<in> set (users (rows t)) \<longleftrightarrow> v \<in> set (users (rows s))" if "u_id v \<noteq> target" for v
    using that by (auto simp: us set_update_rows)
  have toks: "refresh_tokens (mo_auth (ax_db t)) = refresh_tokens (RevokeAllUserRefreshTokens (ae_dbnow (xe_auth e)) target (mo_auth (ax_db s1)))"
    using tok by (simp add: c(7) l r(1))
  have 3: "\<forall>x \<in> set (refresh_tokens (mo_auth (ax_db t))). rt_user_id x = target \<longrightarrow> rt_revoked_at x \<noteq> None"
    unfolding toks using revoked_all by simp
  have 4: "groups_inv (rows t)" "\<And>i. map mt_member_id (filter (\<lambda>m. mt_member_id m \<noteq> target) (members_of i (rows t))) =
       map mt_member_id (filter (\<lambda>m. mt_member_id m \<noteq> target) (members_of i (rows s)))"
    using g(1) unfolding moved_out_def d4 d2 d1 by (auto simp: members_of_def)
  have out: "set (ax_out s2) \<subseteq> set (ax_out s3)" using g(1) by (simp add: moved_out_def)
  have 5: "{BanChanged target, Session (Disconnect target), Session (ForgetDevices target)} \<subseteq> set (ax_out t)"
    using r(2) out by (auto simp: c(7) l)
  have 6: "GroupChanged (mt_group_id m) \<in> set (ax_out t)"
    if "m \<in> set (member_table (rows s))" "mt_member_id m = target" "length (members_of (mt_group_id m) (rows s)) > 1" for m
    using g(3) [of m] that by (simp add: c(7) l d2 d1 members_of_def)
  show ?thesis using c(1) 1 2 3 4 5 6 g(2) by (simp add: d4)
qed

text \<open>Ann, who leads \<open>devs\<close>, is banned by Cat: Bob leads it now.\<close>

definition ban_env :: admin_env where
  "ban_env = \<lparr>xe_fails = (\<lambda>_. False), xe_now = 5000, xe_dbnow = 5000, xe_logid = (\<lambda>n. of_nat n + 50), xe_auth = calm_env 5000,
     xe_conf = toy_conf, xe_lower = id, xe_rfc3339 = (\<lambda>_. [])\<rparr>"

definition devs_admin :: admin_sys where
  "devs_admin = \<lparr>ax_db = \<lparr>mo_auth = devs_tables, mo_media = [], mo_devices = [], reports = [], report_messages = [], admin_actions = []\<rparr>,
     ax_rev = no_revocations, ax_out = []\<rparr>"

lemma ann_banned: "\<exists>t. Ban ban_env 3 1 ''spam'' None devs_admin = (Inr (), t)"
proof -
  have e [simp]: "xe_fails ban_env k = False" "xe_now ban_env = 5000" "xe_auth ban_env = calm_env 5000" "xe_conf ban_env = toy_conf" for k
    by (simp_all add: ban_env_def)
  have t: "TrimSpace ''spam'' = ''spam''" "RuneCountInString ''spam'' = 4" "text_ok ''spam''"
    by (simp_all add: TrimSpace_def chunks_ascii_Cons IsSpace_def RuneCountInString_def runes_def text_ok_def)
  let ?s1 = "put_tables ((rows devs_admin)\<lparr>users := update_rows (\<lambda>u. u_id u = 1 \<and> \<not> u_is_admin u)
      (\<lambda>u. u\<lparr>u_banned_at := Some (pgTime 5000), u_banned_until := None, u_ban_reason := Some ''spam'', u_updated_at := pgTime 5000\<rparr>) (users (rows devs_admin))\<rparr>) devs_admin"
  have s1: "mod_alter False (BanUser (pgTime 5000) None ''spam'' 1) devs_admin = (Inr 1, ?s1)"
    by (simp add: mod_alter_def alter_def faulty_def BanUser_def t(3) set_tables_def put_tables_def devs_admin_def devs_tables_def devs_sys_def
        empty_db_def new_user_def)
  obtain s2 where s2: "session_op (RevokeAllRefreshTokens (calm_env 5000) toy_conf 1) ?s1 = (Inr (), s2)"
    by (simp add: session_op_def RevokeAllRefreshTokens_def thenDo_def exec_db_def faulty_def redis_revoke_def emit_def RevokeAll_def)
  have g2: "rows s2 = rows ?s1" using session_Revoke_rows(1) [OF s2] by (simp add: RevokeAllUserRefreshTokens_def revoke_rows_def)
  have Log_works: "\<exists>w. Log ban_env a x v g detail s = (Inr (), w)" for a x v g detail s
    by (cases "Log ban_env a x v g detail s") (use Log_moves in blast)
  let ?row = "\<lparr>mb_GroupID = 7, mb_Role = RoleAdmin, mb_CurrentMember = 2\<rparr>"
  have m: "GroupMembershipsOf 1 (ax_db s2) = [?row]"
    using g2 by (simp add: GroupMembershipsOf_def devs_admin_def devs_tables_def devs_sys_def devs_def empty_db_def)
  have n: "NextAdmin 7 1 (rows s2) = Inr 2"
    by (simp add: g2 NextAdmin_def members_of_def devs_admin_def devs_tables_def devs_sys_def devs_def empty_db_def)
  obtain w1 where tx: "leave_tx ban_env 1 ?row s2 = (Inr (), w1)"
    by (simp add: leave_tx_def Let_def atomically_def attempt_def mod_query_def sql_query_def faulty_def EarliestOtherMember_def n andDo_def
        mod_exec_tables)
  obtain w2 where "Log ban_env Nil_uuid ''ban_removed_from_group'' 1 7 [] (snd (announce (GroupChanged 7) w1)) = (Inr (), w2)"
    using Log_works by blast
  then have "leave_one ban_env 1 ?row s2 = (Inr (), w2)"
    by (simp add: leave_one_def tx andDo_def announce_def [of "GroupChanged 7" w1])
  then have s3: "leaveGroups ban_env 1 s2 = (Inr (), w2)"
    by (simp add: leaveGroups_def andDo_def mod_query_def sql_query_def faulty_def m ret_def)
  obtain w3 where s4: "Log ban_env 3 ''ban'' 1 Nil_uuid (ban_detail ban_env ''spam'' None) w2 = (Inr (), w3)"
    using Log_works by blast
  show ?thesis
    by (simp add: Ban_def Let_def t andDo_def s1 s2 s3 s4 announce_def)
qed

theorem ban_takes_everything_witness:
  "\<exists>t. Ban ban_env 3 1 ''spam'' None devs_admin = (Inr (), t) \<and> groups_inv (rows t) \<and>
     (\<forall>m \<in> set (member_table (rows t)). mt_member_id m = 1 \<longrightarrow> members_of (mt_group_id m) (rows t) = [m])"
proof -
  obtain t where t: "Ban ban_env 3 1 ''spam'' None devs_admin = (Inr (), t)" using ann_banned by blast
  have "groups_inv (rows devs_admin)" using devs_tables_ok(1) by (simp add: devs_admin_def)
  note b = ban_takes_everything [OF this t]
  show ?thesis using t b [THEN conjunct2, THEN conjunct2, THEN conjunct2, THEN conjunct2] by (intro exI [of _ t] conjI) simp_all
qed

end
