(* ===== verification/Interfaces.thy ===== *)
theory Interfaces
  imports Prelude
begin

text \<open>
  The Go interfaces through which the packages use one another, as locales: what the client
  calls, and the laws it relies on. Each is interpreted on the model of the package that
  implements it.
\<close>

text \<open>
  \<^verbatim>\<open>FriendChecker\<close> (used by groups, chat and calls, implemented by the friends service):
  asking may fail and may change the provider's cache, but an answer is the truth and
  asking does not change it.
\<close>

definition answer_of :: "('e + 'a) \<times> 's \<Rightarrow> 'a option" where
  "answer_of r = (case fst r of Inl _ \<Rightarrow> None | Inr v \<Rightarrow> Some v)"

lemma answer_of_Some: "answer_of r = Some v \<longleftrightarrow> (\<exists>s. r = (Inr v, s))"
  by (cases r) (auto simp: answer_of_def split: sum.splits)

locale friend_checker =
  fixes ask :: "'s \<Rightarrow> uuid \<Rightarrow> uuid \<Rightarrow> ('e + bool) \<times> 's"
    and ok :: "'s \<Rightarrow> bool"
    and truth :: "'s \<Rightarrow> uuid \<Rightarrow> uuid \<Rightarrow> bool"
  assumes ask_true: "ok s \<Longrightarrow> ask s a b = (Inr v, s') \<Longrightarrow> v \<longleftrightarrow> truth s a b"
    and ask_keeps: "ok s \<Longrightarrow> ask s a b = (r, s') \<Longrightarrow> ok s' \<and> truth s' = truth s"
    and truth_sym: "ok s \<Longrightarrow> truth s a b \<longleftrightarrow> truth s b a"
begin

lemma answer_true: "ok s \<Longrightarrow> answer_of (ask s a b) = Some v \<Longrightarrow> v \<longleftrightarrow> truth s a b"
  by (auto simp: answer_of_Some dest: ask_true)

lemma answers_agree:
  "ok s \<Longrightarrow> answer_of (ask s a b) = Some v \<Longrightarrow> answer_of (ask s b a) = Some w \<Longrightarrow> v \<longleftrightarrow> w"
  using answer_true truth_sym by blast

end

text \<open>
  \<^verbatim>\<open>GroupMembership\<close> (used by chat, implemented by the groups service): membership and the
  member list come from the same set of members.
\<close>

locale group_membership =
  fixes isMember :: "'s \<Rightarrow> uuid \<Rightarrow> uuid \<Rightarrow> ('e + bool) \<times> 's"
    and members :: "'s \<Rightarrow> uuid \<Rightarrow> ('e + uuid list) \<times> 's"
    and ok :: "'s \<Rightarrow> bool"
    and truth :: "'s \<Rightarrow> uuid \<Rightarrow> uuid set"
  assumes isMember_true: "ok s \<Longrightarrow> isMember s g u = (Inr v, s') \<Longrightarrow> v \<longleftrightarrow> u \<in> truth s g"
    and isMember_keeps: "ok s \<Longrightarrow> isMember s g u = (r, s') \<Longrightarrow> ok s' \<and> truth s' = truth s"
    and members_true: "ok s \<Longrightarrow> members s g = (Inr ms, s') \<Longrightarrow> set ms = truth s g \<and> distinct ms"
    and members_keeps: "ok s \<Longrightarrow> members s g = (r', s') \<Longrightarrow> ok s' \<and> truth s' = truth s"
begin

text \<open>Checking a sender and then fanning out, as chat does.\<close>

lemma check_then_members:
  assumes "ok s" "isMember s g u = (Inr True, s1)" "members s1 g = (Inr ms, s2)"
  shows "u \<in> set ms" "set ms = truth s g" "distinct ms"
proof -
  have t: "u \<in> truth s g" using isMember_true [OF assms(1,2)] by simp
  have s1: "ok s1" "truth s1 = truth s" using isMember_keeps [OF assms(1,2)] by auto
  show "set ms = truth s g" "distinct ms" using members_true [OF s1(1) assms(3)] s1(2) by auto
  with t show "u \<in> set ms" by simp
qed

end

end
