(* ===== verification/Calls.thy ===== *)
theory Calls
  imports Database Events Interfaces "HOL-Library.AList"
begin

text \<open>
  \<^verbatim>\<open>internal/calls/calls.go\<close> and the call log of \<^verbatim>\<open>internal/database/calls.sql.go\<close>: 1:1 voice
  calls. A \<^verbatim>\<open>Manager\<close> method is cut where it takes and releases the mutex: a \<open>thread\<close> is what
  a running method has left to do, and \<open>exec\<close> runs its next section, up to the point where
  another goroutine may come in between. A section has at most one critical section and the
  database and hub calls that follow it; running all sections of a method without
  interruption is \<open>complete\<close>.
\<close>

section \<open>The call log\<close>

text \<open>Postgres keeps microseconds.\<close>

definition microsecond :: duration where "microsecond = 1000"

definition ts :: "time \<Rightarrow> time" where
  "ts t = t - t mod microsecond"

text \<open>The log is the \<open>calls_table\<close> rows. An insert fails for an id that is taken.\<close>

definition InsertCall :: "call_row \<Rightarrow> call_row list \<Rightarrow> dberr + call_row list" where
  "InsertCall r log =
     (if exists_row (\<lambda>x. cl_id x = cl_id r) log then Inl (UniqueViolation ''calls_pkey'') else Inr (log @ [r]))"

definition AnswerCall :: "uuid \<Rightarrow> time \<Rightarrow> call_row list \<Rightarrow> call_row list" where
  "AnswerCall i at log = update_rows (\<lambda>r. cl_id r = i \<and> cl_state r = ''ringing'')
     (\<lambda>r. r\<lparr>cl_state := ''active'', cl_answered_at := Some at\<rparr>) log"

definition FinishCall :: "uuid \<Rightarrow> string \<Rightarrow> string \<Rightarrow> time \<Rightarrow> call_row list \<Rightarrow> call_row list" where
  "FinishCall i state reason at log = update_rows (\<lambda>r. cl_id r = i \<and> cl_ended_at r = None)
     (\<lambda>r. r\<lparr>cl_state := state, cl_end_reason := Some reason, cl_ended_at := Some at\<rparr>) log"

definition InterruptOpenCalls :: "time \<Rightarrow> call_row list \<Rightarrow> call_row list" where
  "InterruptOpenCalls at log = update_rows (\<lambda>r. cl_ended_at r = None)
     (\<lambda>r. r\<lparr>cl_state := (if cl_answered_at r = None then ''failed'' else ''ended''),
       cl_end_reason := Some ''interrupted'', cl_ended_at := Some at\<rparr>) log"

text \<open>The sum in seconds; the cast to \<^verbatim>\<open>bigint\<close> rounds to the nearest, halves away from zero.\<close>

definition to_bigint_seconds :: "duration \<Rightarrow> int" where
  "to_bigint_seconds d = (if d \<ge> 0 then (d + second div 2) div second else - ((- d + second div 2) div second))"

definition CallSecondsSince :: "uuid \<Rightarrow> time \<Rightarrow> time \<Rightarrow> call_row list \<Rightarrow> int" where
  "CallSecondsSince u since now log = to_bigint_seconds (sum_list (map
     (\<lambda>r. (case cl_ended_at r of Some x \<Rightarrow> x | None \<Rightarrow> now) - max (the (cl_answered_at r)) since)
     (filter (\<lambda>r. (cl_caller_id r = Some u \<or> cl_callee_id r = Some u) \<and> cl_answered_at r \<noteq> None \<and>
       (case cl_ended_at r of Some x \<Rightarrow> x | None \<Rightarrow> now) > since) log)))"

section \<open>State\<close>

record Conn =
  cn_User :: uuid
  cn_ID :: uuid

definition ReasonEnded :: string where "ReasonEnded = ''ended''"
definition ReasonMissed :: string where "ReasonMissed = ''missed''"
definition ReasonDeclined :: string where "ReasonDeclined = ''declined''"
definition ReasonCancelled :: string where "ReasonCancelled = ''cancelled''"
definition ReasonBusy :: string where "ReasonBusy = ''busy''"
definition ReasonDisconnected :: string where "ReasonDisconnected = ''disconnected''"
definition ReasonElsewhere :: string where "ReasonElsewhere = ''answered_elsewhere''"
definition ReasonUnfriended :: string where "ReasonUnfriended = ''unfriended''"
definition ReasonLimit :: string where "ReasonLimit = ''daily_limit''"

lemmas reasons = ReasonEnded_def ReasonMissed_def ReasonDeclined_def ReasonCancelled_def
  ReasonBusy_def ReasonDisconnected_def ReasonElsewhere_def ReasonUnfriended_def ReasonLimit_def

datatype call_err =
    ErrNotFriendsCall | ErrInCall | ErrRateLimited | ErrUnknownCall | ErrBadRequest | ErrUnavailable | ErrDailyLimit

definition RingTimeout :: duration where "RingTimeout = 45 * second"
definition ReconnectGrace :: duration where "ReconnectGrace = 30 * second"
definition MaxDuration :: duration where "MaxDuration = 4 * hour"
definition maxSignalBytes :: nat where "maxSignalBytes = 16 * 1024"
definition maxSignals :: nat where "maxSignals = 500"
definition startsPerMinute :: nat where "startsPerMinute = 10"

text \<open>
  A call. A running timer is its deadline and the reason it will end the call with; \<open>None\<close>
  is a timer that has fired or was stopped. The \<^verbatim>\<open>lost\<close> map has an entry for each side whose
  device dropped, with its timer.
\<close>

record call =
  ca_caller :: uuid
  ca_callee :: uuid
  ca_callerConn :: uuid
  ca_calleeConn :: uuid
  ca_active :: bool
  ca_started :: time
  ca_answered :: time
  ca_timer :: "(time \<times> string) option"
  ca_lost :: "uuid \<Rightarrow> time option option"
  ca_signals :: "uuid \<Rightarrow> nat"

definition peer :: "call \<Rightarrow> uuid \<Rightarrow> uuid" where
  "peer c u = (if u = ca_caller c then ca_callee c else ca_caller c)"

definition conn :: "call \<Rightarrow> uuid \<Rightarrow> uuid" where
  "conn c u = (if u = ca_caller c then ca_callerConn c else ca_calleeConn c)"

text \<open>
  The manager's maps. Both \<^verbatim>\<open>calls\<close> and \<^verbatim>\<open>byUser\<close> hold pointers to the same \<^verbatim>\<open>call\<close>; here
  \<open>byUser\<close> holds its id, which names the object as long as ids are not reused.
\<close>

record manager =
  m_calls :: "uuid \<Rightarrow> call option"
  m_byUser :: "uuid \<Rightarrow> uuid option"
  m_starts :: "(uuid \<times> time list) list"

datatype call_event =
    CallRinging uuid uuid
  | CallIncoming uuid uuid
  | CallAccepted uuid
  | CallEnded uuid string duration
  | CallError "uuid option" call_err
  | CallResumed uuid uuid
  | CallSignal uuid uuid bytes

datatype call_effect =
    SendToConn Conn call_event
  | CallToUsers "uuid list" call_event
  | CallToUserExcept uuid uuid call_event
  | CallNotify job

record calls_sys =
  cs_mgr :: manager
  cs_log :: "call_row list"

text \<open>
  What a section sees of its surroundings: the configuration, the clock, the next random
  id, the answers of the friends service (\<open>None\<close>: an error) and of the hub, the calls of
  the log that fail, and JSON validity.
\<close>

datatype log_call = LInsert | LAnswer | LFinish | LSeconds uuid | LInterrupt

record calls_env =
  ce_ring :: duration
  ce_grace :: duration
  ce_daily :: duration
  ce_notify :: bool
  ce_now :: time
  ce_uuid :: uuid
  ce_friends :: "uuid \<Rightarrow> uuid \<Rightarrow> bool option"
  ce_online :: "uuid \<Rightarrow> bool"
  ce_fails :: "log_call \<Rightarrow> bool"
  ce_valid :: "bytes \<Rightarrow> bool"

section \<open>Operations\<close>

definition fail :: "Conn \<Rightarrow> uuid \<Rightarrow> call_err \<Rightarrow> call_effect list" where
  "fail to i err = [SendToConn to (CallError (if i \<noteq> Nil_uuid then Some i else None) err)]"

text \<open>\<^verbatim>\<open>remaining\<close>: \<open>None\<close> when the log cannot be read.\<close>

definition remaining :: "calls_env \<Rightarrow> uuid \<Rightarrow> time \<Rightarrow> call_row list \<Rightarrow> duration option" where
  "remaining e u now log =
     (if ce_daily e \<le> 0 then Some MaxDuration
      else if ce_fails e (LSeconds u) then None
      else Some (min (ce_daily e - CallSecondsSince u (ts (now - 24 * hour)) (ts now) log * second) MaxDuration))"

definition recent :: "time \<Rightarrow> time list \<Rightarrow> time list" where
  "recent now = filter (\<lambda>t. now - t < minute)"

definition starts_of :: "manager \<Rightarrow> uuid \<Rightarrow> time list" where
  "starts_of m u = (case map_of (m_starts m) u of Some l \<Rightarrow> l | None \<Rightarrow> [])"

definition allowStart :: "uuid \<Rightarrow> time \<Rightarrow> manager \<Rightarrow> bool \<times> manager" where
  "allowStart u now m =
     (let old = recent now (starts_of m u) in
      if length old \<ge> startsPerMinute then (False, m\<lparr>m_starts := AList.update u old (m_starts m)\<rparr>)
      else (let s = AList.update u (old @ [now]) (m_starts m) in
            (True, m\<lparr>m_starts := (if length s > 100000 then [] else s)\<rparr>)))"

definition pgUUID :: "uuid \<Rightarrow> uuid option" where
  "pgUUID i = (if i \<noteq> Nil_uuid then Some i else None)"

text \<open>\<^verbatim>\<open>record\<close> and the other log writes are best effort: a failure is only logged.\<close>

definition log_insert :: "calls_env \<Rightarrow> call_row \<Rightarrow> call_row list \<Rightarrow> call_row list" where
  "log_insert e r log = (case faulty (ce_fails e LInsert) (InsertCall r log) of Inl _ \<Rightarrow> log | Inr l \<Rightarrow> l)"

definition busy_row :: "uuid \<Rightarrow> uuid \<Rightarrow> uuid \<Rightarrow> time \<Rightarrow> call_row" where
  "busy_row i from to now = \<lparr>cl_id = i, cl_caller_id = pgUUID from, cl_callee_id = pgUUID to,
     cl_state = ReasonBusy, cl_end_reason = Some ReasonBusy, cl_started_at = ts now,
     cl_answered_at = None, cl_ended_at = Some (ts now)\<rparr>"

definition ringing_row :: "uuid \<Rightarrow> uuid \<Rightarrow> uuid \<Rightarrow> time \<Rightarrow> call_row" where
  "ringing_row i from to now = \<lparr>cl_id = i, cl_caller_id = pgUUID from, cl_callee_id = pgUUID to,
     cl_state = ''ringing'', cl_end_reason = None, cl_started_at = ts now,
     cl_answered_at = None, cl_ended_at = None\<rparr>"

text \<open>
  What is left of a running method: \<open>TStart\<close> is \<^verbatim>\<open>start\<close> from its beginning, \<open>TStartLock\<close> from
  its critical section on, \<open>TBusy\<close> and \<open>TRing\<close> after it; \<open>TAccept\<close>, \<open>TAcceptLimits\<close>,
  \<open>TAcceptLock\<close> and \<open>TAnswer\<close> are \<^verbatim>\<open>accept\<close> from its two critical sections and what follows
  each; \<open>TEnd\<close> is \<^verbatim>\<open>end\<close>, which timers run too, and \<open>TFinish\<close> its part after the mutex is
  released.
\<close>

datatype thread =
    TStart Conn uuid
  | TStartLock Conn uuid uuid time
  | TBusy Conn uuid uuid time
  | TRing Conn uuid uuid time
  | TAccept Conn uuid
  | TAcceptLimits Conn uuid time "(uuid \<times> uuid) option"
  | TAcceptLock Conn uuid time duration
  | TAnswer Conn uuid time Conn
  | TSignal Conn uuid bytes
  | THangUp Conn uuid
  | TEnd uuid string
  | TFinish uuid string time uuid uuid bool duration
  | TConnected Conn
  | TDisconnected Conn
  | TEndBetween uuid uuid

type_synonym section_result = "calls_sys \<times> thread option \<times> call_effect list"

definition start_checks :: "calls_env \<Rightarrow> Conn \<Rightarrow> uuid \<Rightarrow> calls_sys \<Rightarrow> section_result" where
  "start_checks e from to s =
     (if to = Nil_uuid \<or> to = cn_User from then (s, None, fail from Nil_uuid ErrBadRequest)
      else case ce_friends e (cn_User from) to of
        None \<Rightarrow> (s, None, fail from Nil_uuid ErrUnavailable)
      | Some ok \<Rightarrow>
          if \<not> ok then (s, None, fail from Nil_uuid ErrNotFriendsCall)
          else case remaining e (cn_User from) (ce_now e) (cs_log s) of
            None \<Rightarrow> (s, None, fail from Nil_uuid ErrUnavailable)
          | Some left \<Rightarrow>
              if left \<le> 0 then (s, None, fail from Nil_uuid ErrDailyLimit)
              else (s, Some (TStartLock from to (ce_uuid e) (ce_now e)), []))"

text \<open>The ring timer runs from the moment it is created, which is \<open>ce_now\<close> of this section.\<close>

definition new_call :: "calls_env \<Rightarrow> Conn \<Rightarrow> uuid \<Rightarrow> time \<Rightarrow> call" where
  "new_call e from to now = \<lparr>ca_caller = cn_User from, ca_callee = to, ca_callerConn = cn_ID from,
     ca_calleeConn = Nil_uuid, ca_active = False, ca_started = now, ca_answered = 0,
     ca_timer = Some (ce_now e + ce_ring e, ReasonMissed), ca_lost = Map.empty, ca_signals = (\<lambda>_. 0)\<rparr>"

definition start_lock :: "calls_env \<Rightarrow> Conn \<Rightarrow> uuid \<Rightarrow> uuid \<Rightarrow> time \<Rightarrow> calls_sys \<Rightarrow> section_result" where
  "start_lock e from to i now s =
     (let (ok, m) = allowStart (cn_User from) now (cs_mgr s); s1 = s\<lparr>cs_mgr := m\<rparr> in
      if \<not> ok then (s1, None, fail from Nil_uuid ErrRateLimited)
      else if m_byUser m (cn_User from) \<noteq> None then (s1, None, fail from Nil_uuid ErrInCall)
      else if m_byUser m to \<noteq> None then (s1, Some (TBusy from to i now), [])
      else (s\<lparr>cs_mgr := m\<lparr>m_calls := (m_calls m)(i \<mapsto> new_call e from to now),
                m_byUser := (m_byUser m)(cn_User from \<mapsto> i, to \<mapsto> i)\<rparr>\<rparr>,
            Some (TRing from to i now), []))"

definition start_busy :: "calls_env \<Rightarrow> Conn \<Rightarrow> uuid \<Rightarrow> uuid \<Rightarrow> time \<Rightarrow> calls_sys \<Rightarrow> section_result" where
  "start_busy e from to i now s =
     (s\<lparr>cs_log := log_insert e (busy_row i (cn_User from) to now) (cs_log s)\<rparr>, None,
      [SendToConn from (CallEnded i ReasonBusy 0)])"

definition start_ring :: "calls_env \<Rightarrow> Conn \<Rightarrow> uuid \<Rightarrow> uuid \<Rightarrow> time \<Rightarrow> calls_sys \<Rightarrow> section_result" where
  "start_ring e from to i now s =
     (s\<lparr>cs_log := log_insert e (ringing_row i (cn_User from) to now) (cs_log s)\<rparr>, None,
      [SendToConn from (CallRinging i to), CallToUsers [to] (CallIncoming i (cn_User from))] @
      (if \<not> ce_online e to \<and> ce_notify e
       then [CallNotify ((push_job KindCall [to] (cn_User from))\<lparr>j_call_id := i\<rparr>)] else []))"

definition accept_read :: "calls_env \<Rightarrow> Conn \<Rightarrow> uuid \<Rightarrow> calls_sys \<Rightarrow> section_result" where
  "accept_read e from i s =
     (s, Some (TAcceptLimits from i (ce_now e)
        (case m_calls (cs_mgr s) i of
           Some c \<Rightarrow> if ca_callee c = cn_User from then Some (ca_caller c, ca_callee c) else None
         | None \<Rightarrow> None)), [])"

definition accept_limits :: "calls_env \<Rightarrow> Conn \<Rightarrow> uuid \<Rightarrow> time \<Rightarrow> (uuid \<times> uuid) option \<Rightarrow> calls_sys \<Rightarrow> section_result" where
  "accept_limits e from i now pending s =
     (case pending of
        None \<Rightarrow> (s, Some (TAcceptLock from i now MaxDuration), [])
      | Some (caller, callee) \<Rightarrow>
          (case (remaining e caller now (cs_log s), remaining e callee now (cs_log s)) of
             (Some l1, Some l2) \<Rightarrow>
               (let limit = min (min MaxDuration l1) l2 in
                if limit \<le> 0 then (s, Some (TEnd i ReasonLimit), [])
                else (s, Some (TAcceptLock from i now limit), []))
           | _ \<Rightarrow> (s, None, fail from i ErrUnavailable)))"

definition accept_lock :: "calls_env \<Rightarrow> Conn \<Rightarrow> uuid \<Rightarrow> time \<Rightarrow> duration \<Rightarrow> calls_sys \<Rightarrow> section_result" where
  "accept_lock e from i now limit s =
     (case m_calls (cs_mgr s) i of
        None \<Rightarrow> (s, None, fail from i ErrUnknownCall)
      | Some c \<Rightarrow>
          if ca_callee c \<noteq> cn_User from \<or> ca_active c then (s, None, fail from i ErrUnknownCall)
          else (s\<lparr>cs_mgr := (cs_mgr s)\<lparr>m_calls := (m_calls (cs_mgr s))(i \<mapsto>
                 c\<lparr>ca_active := True, ca_calleeConn := cn_ID from, ca_answered := now,
                   ca_timer := Some (ce_now e + limit, if limit < MaxDuration then ReasonLimit else ReasonEnded)\<rparr>)\<rparr>\<rparr>,
                Some (TAnswer from i now \<lparr>cn_User = ca_caller c, cn_ID = ca_callerConn c\<rparr>), []))"

definition accept_answer :: "calls_env \<Rightarrow> Conn \<Rightarrow> uuid \<Rightarrow> time \<Rightarrow> Conn \<Rightarrow> calls_sys \<Rightarrow> section_result" where
  "accept_answer e from i now callerConn s =
     (s\<lparr>cs_log := (if ce_fails e LAnswer then cs_log s else AnswerCall i (ts now) (cs_log s))\<rparr>, None,
      [SendToConn callerConn (CallAccepted i),
       CallToUserExcept (cn_User from) (cn_ID from) (CallEnded i ReasonElsewhere 0)])"

definition signal :: "calls_env \<Rightarrow> Conn \<Rightarrow> uuid \<Rightarrow> bytes \<Rightarrow> calls_sys \<Rightarrow> section_result" where
  "signal e from i data s =
     (if data = [] \<or> length data > maxSignalBytes \<or> \<not> ce_valid e data then (s, None, fail from i ErrBadRequest)
      else case m_calls (cs_mgr s) i of
        None \<Rightarrow> (s, None, fail from i ErrUnknownCall)
      | Some c \<Rightarrow>
          let u = cn_User from in
          if \<not> ca_active c \<or> (u \<noteq> ca_caller c \<and> u \<noteq> ca_callee c) \<or> conn c u \<noteq> cn_ID from
          then (s, None, fail from i ErrUnknownCall)
          else
            (let n = ca_signals c u + 1;
                 s1 = s\<lparr>cs_mgr := (cs_mgr s)\<lparr>m_calls := (m_calls (cs_mgr s))(i \<mapsto>
                        c\<lparr>ca_signals := (ca_signals c)(u := n)\<rparr>)\<rparr>\<rparr>
             in if n > maxSignals then (s1, None, fail from i ErrRateLimited)
                else (s1, None,
                  [SendToConn \<lparr>cn_User = peer c u, cn_ID = conn c (peer c u)\<rparr> (CallSignal i u data)])))"

definition hangUp :: "calls_env \<Rightarrow> Conn \<Rightarrow> uuid \<Rightarrow> calls_sys \<Rightarrow> section_result" where
  "hangUp e from i s =
     (case m_calls (cs_mgr s) i of
        None \<Rightarrow> (s, None, fail from i ErrUnknownCall)
      | Some c \<Rightarrow>
          if cn_User from \<noteq> ca_caller c \<and> cn_User from \<noteq> ca_callee c then (s, None, fail from i ErrUnknownCall)
          else (s, Some (TEnd i (if ca_active c then ReasonEnded
                  else if cn_User from = ca_caller c then ReasonCancelled else ReasonDeclined)), []))"

definition drop_user :: "uuid \<Rightarrow> uuid \<Rightarrow> manager \<Rightarrow> manager" where
  "drop_user u i m = (if m_byUser m u = Some i then m\<lparr>m_byUser := (m_byUser m)(u := None)\<rparr> else m)"

definition end_lock :: "calls_env \<Rightarrow> uuid \<Rightarrow> string \<Rightarrow> calls_sys \<Rightarrow> section_result" where
  "end_lock e i reason s =
     (case m_calls (cs_mgr s) i of
        None \<Rightarrow> (s, None, [])
      | Some c \<Rightarrow>
          let m = cs_mgr s; m1 = m\<lparr>m_calls := (m_calls m)(i := None)\<rparr>;
              m2 = drop_user (ca_callee c) i (drop_user (ca_caller c) i m1);
              talked = (if ca_active c then ce_now e - ca_answered c else 0)
          in (s\<lparr>cs_mgr := m2\<rparr>,
              Some (TFinish i reason (ce_now e) (ca_caller c) (ca_callee c) (ca_active c) talked), []))"

definition log_state :: "bool \<Rightarrow> string \<Rightarrow> string" where
  "log_state wasActive reason =
     (if wasActive then ReasonEnded
      else if reason = ReasonDisconnected \<or> reason = ReasonUnfriended \<or> reason = ReasonLimit then ''failed''
      else reason)"

definition end_finish :: "calls_env \<Rightarrow> uuid \<Rightarrow> string \<Rightarrow> time \<Rightarrow> uuid \<Rightarrow> uuid \<Rightarrow> bool \<Rightarrow> duration \<Rightarrow> calls_sys \<Rightarrow> section_result" where
  "end_finish e i reason now caller callee wasActive talked s =
     (s\<lparr>cs_log := (if ce_fails e LFinish then cs_log s
          else FinishCall i (log_state wasActive reason) reason (ts now) (cs_log s))\<rparr>, None,
      CallToUsers [caller, callee] (CallEnded i reason (talked div millisecond)) #
      (if reason = ReasonMissed \<and> ce_notify e
       then [CallNotify ((push_job KindMissedCall [callee] caller)\<lparr>j_call_id := i\<rparr>)] else []))"

definition Connected :: "calls_env \<Rightarrow> Conn \<Rightarrow> calls_sys \<Rightarrow> section_result" where
  "Connected e cn s =
     (case m_byUser (cs_mgr s) (cn_User cn) of
        None \<Rightarrow> (s, None, [])
      | Some i \<Rightarrow>
          (case m_calls (cs_mgr s) i of
             None \<Rightarrow> (s, None, [])
           | Some c \<Rightarrow>
               let u = cn_User cn in
               if \<not> ca_active c then
                 (s, None, if u = ca_callee c then [SendToConn cn (CallIncoming i (ca_caller c))] else [])
               else if ca_lost c u = None then (s, None, [])
               else
                 (let c1 = c\<lparr>ca_lost := (ca_lost c)(u := None)\<rparr>;
                      c2 = (if u = ca_caller c then c1\<lparr>ca_callerConn := cn_ID cn\<rparr> else c1\<lparr>ca_calleeConn := cn_ID cn\<rparr>);
                      p = peer c2 u
                  in (s\<lparr>cs_mgr := (cs_mgr s)\<lparr>m_calls := (m_calls (cs_mgr s))(i \<mapsto> c2)\<rparr>\<rparr>, None,
                      [SendToConn cn (CallResumed i p),
                       SendToConn \<lparr>cn_User = p, cn_ID = conn c2 p\<rparr> (CallResumed i u)]))))"

definition Disconnected :: "calls_env \<Rightarrow> Conn \<Rightarrow> calls_sys \<Rightarrow> section_result" where
  "Disconnected e cn s =
     (case m_byUser (cs_mgr s) (cn_User cn) of
        None \<Rightarrow> (s, None, [])
      | Some i \<Rightarrow>
          (case m_calls (cs_mgr s) i of
             None \<Rightarrow> (s, None, [])
           | Some c \<Rightarrow>
               let u = cn_User cn in
               if conn c u \<noteq> cn_ID cn then (s, None, [])
               else if \<not> ca_active c then
                 (s, if u = ca_caller c then Some (TEnd i ReasonCancelled) else None, [])
               else if ca_lost c u \<noteq> None then (s, None, [])
               else (s\<lparr>cs_mgr := (cs_mgr s)\<lparr>m_calls := (m_calls (cs_mgr s))(i \<mapsto>
                        c\<lparr>ca_lost := (ca_lost c)(u \<mapsto> Some (ce_now e + ce_grace e))\<rparr>)\<rparr>\<rparr>, None, [])))"

definition EndBetween :: "calls_env \<Rightarrow> uuid \<Rightarrow> uuid \<Rightarrow> calls_sys \<Rightarrow> section_result" where
  "EndBetween e a b s =
     (case m_byUser (cs_mgr s) a of
        None \<Rightarrow> (s, None, [])
      | Some i \<Rightarrow>
          (case m_calls (cs_mgr s) i of
             None \<Rightarrow> (s, None, [])
           | Some c \<Rightarrow> (s, if peer c a = b then Some (TEnd i ReasonUnfriended) else None, [])))"

definition Recover :: "calls_env \<Rightarrow> calls_sys \<Rightarrow> calls_sys" where
  "Recover e s = (if ce_fails e LInterrupt then s else s\<lparr>cs_log := InterruptOpenCalls (ts (ce_now e)) (cs_log s)\<rparr>)"

section \<open>Running a method\<close>

fun exec :: "calls_env \<Rightarrow> thread \<Rightarrow> calls_sys \<Rightarrow> section_result" where
  "exec e (TStart from to) s = start_checks e from to s"
| "exec e (TStartLock from to i now) s = start_lock e from to i now s"
| "exec e (TBusy from to i now) s = start_busy e from to i now s"
| "exec e (TRing from to i now) s = start_ring e from to i now s"
| "exec e (TAccept from i) s = accept_read e from i s"
| "exec e (TAcceptLimits from i now p) s = accept_limits e from i now p s"
| "exec e (TAcceptLock from i now limit) s = accept_lock e from i now limit s"
| "exec e (TAnswer from i now cc) s = accept_answer e from i now cc s"
| "exec e (TSignal from i data) s = signal e from i data s"
| "exec e (THangUp from i) s = hangUp e from i s"
| "exec e (TEnd i reason) s = end_lock e i reason s"
| "exec e (TFinish i reason now a b act talked) s = end_finish e i reason now a b act talked s"
| "exec e (TConnected cn) s = Connected e cn s"
| "exec e (TDisconnected cn) s = Disconnected e cn s"
| "exec e (TEndBetween a b) s = EndBetween e a b s"

text \<open>\<open>HandleCall\<close>: the thread an event of the app starts, or the error it is answered with.\<close>

record idPayload =
  ip_ToID :: uuid
  ip_CallID :: uuid
  ip_Data :: bytes

definition HandleCall :: "Conn \<Rightarrow> string \<Rightarrow> nat \<Rightarrow> idPayload option \<Rightarrow> call_effect list + thread" where
  "HandleCall from event rawlen parsed =
     (if rawlen > maxSignalBytes + 512 then Inl (fail from Nil_uuid ErrBadRequest)
      else case parsed of
        None \<Rightarrow> Inl (fail from Nil_uuid ErrBadRequest)
      | Some p \<Rightarrow>
          if event = ''CallStart'' then Inr (TStart from (ip_ToID p))
          else if event = ''CallAccept'' then Inr (TAccept from (ip_CallID p))
          else if event = ''CallSignal'' then Inr (TSignal from (ip_CallID p) (ip_Data p))
          else if event = ''CallDecline'' \<or> event = ''CallEnd'' then Inr (THangUp from (ip_CallID p))
          else Inl (fail from Nil_uuid ErrBadRequest))"

text \<open>A method run on its own: no method has more than five sections.\<close>

fun run_thread :: "nat \<Rightarrow> calls_env \<Rightarrow> thread \<Rightarrow> calls_sys \<Rightarrow> calls_sys \<times> call_effect list" where
  "run_thread 0 e t s = (s, [])"
| "run_thread (Suc n) e t s =
     (case exec e t s of
        (s1, None, es) \<Rightarrow> (s1, es)
      | (s1, Some t1, es) \<Rightarrow> (let (s2, fs) = run_thread n e t1 s1 in (s2, es @ fs)))"

definition complete :: "calls_env \<Rightarrow> thread \<Rightarrow> calls_sys \<Rightarrow> calls_sys \<times> call_effect list" where
  "complete e t s = run_thread 5 e t s"

lemmas call_sections = start_checks_def start_lock_def start_busy_def start_ring_def accept_read_def
  accept_limits_def accept_lock_def accept_answer_def signal_def hangUp_def end_lock_def end_finish_def
  Connected_def Disconnected_def EndBetween_def

section \<open>Interleaving\<close>

text \<open>
  A world: the manager and the log, the methods in progress, the ids handed out so far and
  everything sent. A method may begin at any time; any method in progress may run its next
  section, with any surroundings; a timer whose time has come may fire, which begins \<^verbatim>\<open>end\<close>
  in a goroutine of its own. \<^verbatim>\<open>uuid.NewV7\<close> does not repeat an id.
\<close>

record world =
  w_sys :: calls_sys
  w_pool :: "thread list"
  w_ids :: "uuid list"
  w_out :: "call_effect list"

definition no_calls :: "call_row list \<Rightarrow> calls_sys" where
  "no_calls log = \<lparr>cs_mgr = \<lparr>m_calls = Map.empty, m_byUser = Map.empty, m_starts = []\<rparr>, cs_log = log\<rparr>"

definition world0 :: "call_row list \<Rightarrow> world" where
  "world0 log = \<lparr>w_sys = no_calls log, w_pool = [], w_ids = map cl_id log, w_out = []\<rparr>"

fun entry :: "thread \<Rightarrow> bool" where
  "entry (TStart _ _) = True"
| "entry (TAccept _ _) = True"
| "entry (TSignal _ _ _) = True"
| "entry (THangUp _ _) = True"
| "entry (TConnected _) = True"
| "entry (TDisconnected _) = True"
| "entry (TEndBetween _ _) = True"
| "entry _ = False"

fun new_ids :: "calls_env \<Rightarrow> thread \<Rightarrow> uuid list" where
  "new_ids e (TStart _ _) = [ce_uuid e]"
| "new_ids e _ = []"

definition set_call :: "uuid \<Rightarrow> call \<Rightarrow> world \<Rightarrow> world" where
  "set_call i c w = w\<lparr>w_sys := (w_sys w)\<lparr>cs_mgr := (cs_mgr (w_sys w))\<lparr>m_calls :=
     (m_calls (cs_mgr (w_sys w)))(i \<mapsto> c)\<rparr>\<rparr>\<rparr>"

inductive wstep :: "world \<Rightarrow> world \<Rightarrow> bool" where
  begin_thread: "entry t \<Longrightarrow> wstep w (w\<lparr>w_pool := t # w_pool w\<rparr>)"
| run_section: "w_pool w = xs @ t # ys \<Longrightarrow> set (new_ids e t) \<inter> set (w_ids w) = {} \<Longrightarrow>
    exec e t (w_sys w) = (s1, k, es) \<Longrightarrow>
    wstep w \<lparr>w_sys = s1, w_pool = xs @ (case k of None \<Rightarrow> [] | Some t1 \<Rightarrow> [t1]) @ ys,
      w_ids = new_ids e t @ w_ids w, w_out = w_out w @ es\<rparr>"
| fire_timer: "m_calls (cs_mgr (w_sys w)) i = Some c \<Longrightarrow> ca_timer c = Some (at, reason) \<Longrightarrow> at \<le> now \<Longrightarrow>
    wstep w ((set_call i (c\<lparr>ca_timer := None\<rparr>) w)\<lparr>w_pool := TEnd i reason # w_pool w\<rparr>)"
| fire_lost: "m_calls (cs_mgr (w_sys w)) i = Some c \<Longrightarrow> ca_lost c u = Some (Some at) \<Longrightarrow> at \<le> now \<Longrightarrow>
    wstep w ((set_call i (c\<lparr>ca_lost := (ca_lost c)(u \<mapsto> None)\<rparr>) w)\<lparr>w_pool := TEnd i ReasonDisconnected # w_pool w\<rparr>)"

inductive reachable :: "world \<Rightarrow> bool" where
  initial: "reachable (world0 log)"
| step: "reachable w \<Longrightarrow> wstep w w' \<Longrightarrow> reachable w'"

end
