(* ===== verification/Friends_Safety.thy ===== *)
theory Friends_Safety
  imports Friends Interfaces
begin

text \<open>
  What the friends service guarantees: its invariant under every sequence of operations,
  how a friendship can come about, what a block does, and that the cached lists agree
  with Postgres.
\<close>

section \<open>Outcomes of the operations\<close>

text \<open>
  Every operation either fails, changing nothing and telling nobody, or commits one
  statement, invalidates the two users and sends its effects. \<open>committed\<close> names the
  second form.
\<close>

definition committed :: "friends_env \<Rightarrow> uuid list \<Rightarrow> friends_sys \<Rightarrow> db \<Rightarrow> friends_sys" where
  "committed e ids s d' = invalidate e ids (s\<lparr>fs_db := d'\<rparr>)"

lemma committed_db [simp]: "fs_db (committed e ids s d') = d'"
  by (simp add: committed_def invalidate_def)

lemma invalidate_db [simp]: "fs_db (invalidate e ids s) = fs_db s"
  by (simp add: invalidate_def)

lemma Relationships_db [simp]: "fs_db (snd (Relationships e me s)) = fs_db s"
  by (simp add: Relationships_def split: prod.split)

lemma AreFriends_db [simp]: "fs_db (snd (AreFriends e a b s)) = fs_db s"
  by (cases "Relationships e a s")
    (use Relationships_db [of e a s] in \<open>auto simp: AreFriends_def split: sum.split\<close>)

lemma ForgetNames_db [simp]: "fs_db (ForgetNames e a s) = fs_db s"
  by (simp add: ForgetNames_def split: sum.split)

lemma faulty_Inl_cases:
  "faulty b r = Inl err \<Longrightarrow> b \<and> err = OtherDb \<or> \<not> b \<and> r = Inl err"
  by (auto simp: faulty_def split: if_splits)

lemma notFound_Inr [simp]: "notFound r = Inr a \<longleftrightarrow> r = Inr a"
  by (auto simp: notFound_def split: sum.splits dberr.splits)

lemma repo_Create_Inr:
  "repo_Create e i a b d = Inr d' \<longleftrightarrow>
     \<not> fe_fails e QCreate \<and> CreateFriendRequest (fe_now e) i a b d = Inr d'"
  by (auto simp: repo_Create_def faulty_def split: sum.splits dberr.splits if_splits)

lemma SendCheck_None:
  assumes "SendCheck e a b d = None"
  shows "a \<noteq> b \<and> \<not> blocks_db a b d \<and> \<not> blocks_db b a d"
  using assms by (auto simp: SendCheck_def repo_BlockBetween_def BlockBetween_def blocks_db_def
      split: if_splits sum.splits name_err.splits)

lemma SendE:
  assumes "Send e a b s = (r, s', es)"
  obtains err where "r = Inl err" "s' = s" "es = []"
  | d' where "r = Inr (fe_uuid e)" "s' = committed e [a, b] s d'" "SendCheck e a b (fs_db s) = None"
      "CreateFriendRequest (fe_now e) (fe_uuid e) a b (fs_db s) = Inr d'"
      "es = [push_event b EventAddFriend (fe_uuid e) a, Notify (push_job KindFriendRequest [b] a)]"
  using assms by (auto simp: Send_def SendCreate_def committed_def repo_Create_Inr Let_def
      split: option.splits if_splits sum.splits)

lemma AcceptE:
  assumes "Accept e me i s = (r, s', es)"
  obtains err where "r = Inl err" "s' = s" "es = []"
  | sender d' where "r = Inr ()" "s' = committed e [me, sender] s d'"
      "AcceptFriendRequest (fe_now e) i me (fs_db s) = Inr (sender, d')"
      "es = [push_event sender EventAccept i me, Notify (push_job KindFriendAccept [sender] me)]"
  using assms by (auto simp: Accept_def committed_def repo_Accept_def
      split: sum.splits)

lemma DenyE:
  assumes "Deny e me i s = (r, s', es)"
  obtains err where "r = Inl err" "s' = s" "es = []"
  | sender d' where "r = Inr ()" "s' = committed e [me, sender] s d'"
      "DenyFriendRequest i me (fs_db s) = Inr (sender, d')"
      "es = [push_event sender EventDeny i me]"
  using assms by (auto simp: Deny_def committed_def repo_Deny_def split: sum.splits)

lemma CancelE:
  assumes "Cancel e me i s = (r, s', es)"
  obtains err where "r = Inl err" "s' = s" "es = []"
  | receiver d' where "r = Inr ()" "s' = committed e [me, receiver] s d'"
      "CancelFriendRequest i me (fs_db s) = Inr (receiver, d')" "es = []"
  using assms by (auto simp: Cancel_def committed_def repo_Cancel_def split: sum.splits)

lemma UnfriendE:
  assumes "Unfriend e a b s = (r, s', es)"
  obtains err where "r = Inl err" "s' = s" "es = []"
  | i d' where "r = Inr ()" "s' = committed e [a, b] s d'"
      "UnfriendRow a b (fs_db s) = Inr (i, d')" "es = [Broke a b, unfriend_event b a]"
  using assms by (auto simp: Unfriend_def committed_def repo_Unfriend_def
      split: sum.splits dberr.splits)

lemma BlockE:
  assumes "Block e a b s = (r, s', es)"
  obtains err where "r = Inl err" "s' = s" "es = []"
  | were d' where "r = Inr ()" "s' = committed e [a, b] s d'" "a \<noteq> b"
      "BlockUser a b (fe_now e) (fs_db s) = Inr (were, d')"
      "es = Broke a b # (if were then [unfriend_event b a] else [])"
  using assms by (auto simp: Block_def committed_def repo_Block_def
      split: sum.splits dberr.splits if_splits)

lemma UnblockE:
  assumes "Unblock e a b s = (r, s', es)"
  obtains err where "r = Inl err" "s' = s" "es = []"
  | "r = Inr ()" "s' = s\<lparr>fs_db := UnblockUser a b (fs_db s)\<rparr>" "es = []"
  using assms by (auto simp: Unblock_def repo_Unblock_def split: sum.splits if_splits)

lemma ignoreE:
  assumes "ignore x = (r, s', es)"
  obtains err where "x = (Inl err, s', es)" "r = Inl err"
  | v where "x = (Inr v, s', es)" "r = Inr ()"
  using assms by (cases x) (auto simp: ignore_def split: sum.splits)

section \<open>What the statements do to the rows\<close>

lemma CreateFriendRequest_rows:
  assumes "CreateFriendRequest now i a b d = Inr d'"
  shows "user_relationships d' = user_relationships d @
    [\<lparr>ur_id = i, ur_user_id = a, ur_otherUser_id = b, ur_status = StatusPending,
      ur_created_at = now, ur_updated_at = now\<rparr>]"
    "users d' = users d" "user_blocks d' = user_blocks d"
  using assms by (auto simp: CreateFriendRequest_def split: if_splits)

definition accept_row :: "uuid \<Rightarrow> uuid \<Rightarrow> user_relationship \<Rightarrow> bool" where
  "accept_row i other r \<longleftrightarrow> ur_id r = i \<and> ur_otherUser_id r = other \<and> ur_status r = StatusPending"

lemma AcceptFriendRequest_rows:
  assumes "AcceptFriendRequest now i b d = Inr (a, d')"
  shows "d' = d\<lparr>user_relationships := update_rows (accept_row i b)
      (\<lambda>x. x\<lparr>ur_status := StatusConfirm, ur_updated_at := now\<rparr>) (user_relationships d)\<rparr>"
    and "\<exists>r \<in> set (user_relationships d). accept_row i b r \<and> ur_user_id r = a"
proof -
  have p: "(\<lambda>r. ur_id r = i \<and> ur_otherUser_id r = b \<and> ur_status r = StatusPending) = accept_row i b"
    by (simp add: accept_row_def fun_eq_iff)
  show "d' = d\<lparr>user_relationships := update_rows (accept_row i b)
      (\<lambda>x. x\<lparr>ur_status := StatusConfirm, ur_updated_at := now\<rparr>) (user_relationships d)\<rparr>"
    and "\<exists>r \<in> set (user_relationships d). accept_row i b r \<and> ur_user_id r = a"
    using assms unfolding AcceptFriendRequest_def p
    by (auto simp: Let_def split: option.splits dest!: find_row_Some)
qed

lemma DenyFriendRequest_rows:
  assumes "DenyFriendRequest i b d = Inr (a, d')"
  shows "\<exists>p r. d' = d\<lparr>user_relationships := delete_rows p (user_relationships d)\<rparr> \<and>
      r \<in> set (user_relationships d) \<and> p r \<and> ur_user_id r = a \<and> ur_otherUser_id r = b \<and>
      ur_status r = StatusPending \<and> (\<forall>x. p x \<longrightarrow> ur_id x = i \<and> ur_otherUser_id x = b)"
  using assms unfolding DenyFriendRequest_def Let_def
  by (auto split: option.splits dest!: find_row_Some)

lemma CancelFriendRequest_rows:
  assumes "CancelFriendRequest i a d = Inr (b, d')"
  shows "\<exists>p r. d' = d\<lparr>user_relationships := delete_rows p (user_relationships d)\<rparr> \<and>
      r \<in> set (user_relationships d) \<and> p r \<and> ur_user_id r = a \<and> ur_otherUser_id r = b \<and>
      ur_status r = StatusPending \<and> (\<forall>x. p x \<longrightarrow> ur_id x = i \<and> ur_user_id x = a)"
  using assms unfolding CancelFriendRequest_def Let_def
  by (auto split: option.splits dest!: find_row_Some)

lemma UnfriendRow_rows:
  assumes "UnfriendRow a b d = Inr (i, d')"
  shows "d' = d\<lparr>user_relationships := delete_rows
    (\<lambda>r. ur_status r = StatusConfirm \<and> pair_is a b r) (user_relationships d)\<rparr>"
    "are_friends_db a b d"
  using assms unfolding UnfriendRow_def Let_def are_friends_db_def exists_row_def
  by (auto split: option.splits dest!: find_row_Some)

lemma BlockUser_rows:
  assumes "BlockUser a b at d = Inr (were, d')"
  shows "user_relationships d' = delete_rows (pair_is a b) (user_relationships d)"
    "users d' = users d" "were = are_friends_db a b d" "blocks_db a b d'"
    "blocks_db x y d \<Longrightarrow> blocks_db x y d'"
  using assms by (auto simp: BlockUser_def are_friends_db_def blocks_db_def blocked_row_def
      split: if_splits)

section \<open>The invariant\<close>

lemma Send_inv: "friends_inv (fs_db s) \<Longrightarrow> Send e a b s = (r, s', es) \<Longrightarrow> friends_inv (fs_db s')"
  by (erule SendE) (auto dest: SendCheck_None intro: CreateFriendRequest_inv)

lemma Accept_inv:
  "friends_inv (fs_db s) \<Longrightarrow> Accept e me i s = (r, s', es) \<Longrightarrow> friends_inv (fs_db s')"
  by (erule AcceptE) (auto dest: AcceptFriendRequest_rows(1) intro: friends_inv_confirm)

lemma Deny_inv:
  "friends_inv (fs_db s) \<Longrightarrow> Deny e me i s = (r, s', es) \<Longrightarrow> friends_inv (fs_db s')"
  by (erule DenyE) (auto dest!: DenyFriendRequest_rows intro: friends_inv_delete_rels)

lemma Cancel_inv:
  "friends_inv (fs_db s) \<Longrightarrow> Cancel e me i s = (r, s', es) \<Longrightarrow> friends_inv (fs_db s')"
  by (erule CancelE) (auto dest!: CancelFriendRequest_rows intro: friends_inv_delete_rels)

lemma Unfriend_inv:
  "friends_inv (fs_db s) \<Longrightarrow> Unfriend e a b s = (r, s', es) \<Longrightarrow> friends_inv (fs_db s')"
  by (erule UnfriendE) (auto dest!: UnfriendRow_rows(1) intro: friends_inv_delete_rels)

lemma Block_inv:
  "friends_inv (fs_db s) \<Longrightarrow> Block e a b s = (r, s', es) \<Longrightarrow> friends_inv (fs_db s')"
  by (erule BlockE) (auto dest: BlockUser_inv)

lemma Unblock_inv:
  "friends_inv (fs_db s) \<Longrightarrow> Unblock e a b s = (r, s', es) \<Longrightarrow> friends_inv (fs_db s')"
  by (erule UnblockE) (auto intro: UnblockUser_inv)

lemmas friends_op_inv = Send_inv Accept_inv Deny_inv Cancel_inv Unfriend_inv Block_inv Unblock_inv

lemma friends_exec_inv:
  assumes "friends_inv (fs_db s)"
  shows "friends_inv (fs_db (fst (snd (friends_exec e op s))))"
proof (cases op)
  case (OpSend a b)
  obtain r s' es where x: "Send e a b s = (r, s', es)" by (cases "Send e a b s")
  with Send_inv [OF assms x] OpSend show ?thesis by (simp add: ignore_def)
qed (use assms friends_op_inv [OF assms] in \<open>(simp; metis prod.collapse)\<close>)+

lemma friends_run_inv: "friends_inv (fs_db s) \<Longrightarrow> friends_inv (fs_db (friends_run ops s))"
  by (induction ops s rule: friends_run.induct) (auto intro: friends_exec_inv)


text \<open>
  C7: in every run of the friends service, with any of its database, id and cache calls
  failing at any point, the tables keep their invariant: at most one row per pair of users
  and none from a user to themselves, only existing users, only the two statuses, and no
  request or friendship between users one of whom has blocked the other.
\<close>

theorem friends_safe:
  assumes "friends_inv (fs_db s)"
  shows "friends_inv (fs_db (friends_run ops s))"
  using assms by (rule friends_run_inv)

definition two_users :: friends_sys where
  "two_users = \<lparr>fs_db = empty_db\<lparr>users := [new_user 1 ''ann'', new_user 2 ''bob'']\<rparr>,
     fs_cache = empty_vcache\<rparr>"

definition calm :: "uuid \<Rightarrow> friends_env" where
  "calm i = \<lparr>fe_fails = (\<lambda>_. False), fe_names = (\<lambda>_. Inr ''x''), fe_now = 7, fe_uuid = i,
     fe_coll = (\<lambda>x. x)\<rparr>"

lemma calm_simps [simp]:
  "fe_fails (calm i) c = False" "fe_names (calm i) u = Inr ''x''" "fe_now (calm i) = 7"
  "fe_uuid (calm i) = i" "fe_coll (calm i) = (\<lambda>x. x)"
  by (simp_all add: calm_def)

lemma two_users_inv [simp]: "friends_inv (fs_db two_users)"
  by (simp add: two_users_def friends_inv_def rels_ok_def blocks_ok_def no_blocked_rel_def
      empty_db_def key_ok_def)

theorem friends_safe_witness:
  "friends_inv (fs_db (friends_run [(calm 10, OpSend 1 2), (calm 11, OpAccept 2 10),
     (calm 12, OpBlock 1 2)] two_users))"
  by (rule friends_safe) simp

text \<open>
  An operation that returns an error has changed no row and told nobody.
\<close>

theorem friends_error_changes_nothing:
  assumes "friends_exec e op s = (Inl err, s', es)"
  shows "fs_db s' = fs_db s \<and> es = []"
  using assms
  by (cases op) (auto elim!: ignoreE elim: SendE AcceptE DenyE CancelE UnfriendE BlockE UnblockE)

theorem friends_error_changes_nothing_witness:
  "\<exists>err s' es. friends_exec (calm 3) (OpAccept 2 10) two_users = (Inl err, s', es) \<and>
     fs_db s' = fs_db two_users \<and> es = []"
proof -
  have "friends_exec (calm 3) (OpAccept 2 10) two_users =
      (Inl (Sentinel friends_err.ErrNotFound), two_users, [])"
    by (simp add: Accept_def repo_Accept_def notFound_def AcceptFriendRequest_def two_users_def
        empty_db_def)
  with friends_error_changes_nothing [OF this] show ?thesis by blast
qed

section \<open>How a friendship comes about\<close>

text \<open>
  \<open>asked\<close> and \<open>agreed\<close>: a request by \<open>a\<close> to \<open>b\<close> was sent in the run; it was sent and
  later accepted by \<open>b\<close>.
\<close>

definition asked :: "(friends_env \<times> friends_op) list \<Rightarrow> uuid \<Rightarrow> uuid \<Rightarrow> bool" where
  "asked ops a b \<longleftrightarrow> (\<exists>i < length ops. snd (ops ! i) = OpSend a b)"

definition agreed :: "(friends_env \<times> friends_op) list \<Rightarrow> uuid \<Rightarrow> uuid \<Rightarrow> bool" where
  "agreed ops a b \<longleftrightarrow> (\<exists>i j req. i < j \<and> j < length ops \<and> snd (ops ! i) = OpSend a b \<and>
     snd (ops ! j) = OpAccept b req)"

definition rows_explained :: "(friends_env \<times> friends_op) list \<Rightarrow> db \<Rightarrow> bool" where
  "rows_explained ops d \<longleftrightarrow> (\<forall>r \<in> set (user_relationships d).
     asked ops (ur_user_id r) (ur_otherUser_id r) \<and>
     (ur_status r = StatusPending \<or> agreed ops (ur_user_id r) (ur_otherUser_id r)))"

lemma asked_snoc: "asked ops a b \<Longrightarrow> asked (ops @ [x]) a b"
  by (auto simp: asked_def nth_append intro: less_SucI)

lemma asked_last: "asked (ops @ [(e, OpSend a b)]) a b"
  unfolding asked_def by (rule exI [of _ "length ops"]) simp

lemma agreed_snoc: "agreed ops a b \<Longrightarrow> agreed (ops @ [x]) a b"
  unfolding agreed_def by (elim exE, rule_tac x = i in exI, rule_tac x = j in exI) (auto simp: nth_append)

lemma agreed_last: "asked ops a b \<Longrightarrow> agreed (ops @ [(e, OpAccept b i)]) a b"
  unfolding asked_def agreed_def
  by (elim exE, rule_tac x = ia in exI, rule_tac x = "length ops" in exI) (auto simp: nth_append)

lemma rows_explained_snoc: "rows_explained ops d \<Longrightarrow> rows_explained (ops @ [x]) d"
  by (auto simp: rows_explained_def intro: asked_snoc agreed_snoc)

lemma rows_explained_delete:
  "rows_explained ops d \<Longrightarrow> rows_explained ops (d\<lparr>user_relationships := delete_rows p (user_relationships d)\<rparr>)"
  by (auto simp: rows_explained_def)

lemma friends_run_snoc:
  "friends_run (ops @ [(e, op)]) s = fst (snd (friends_exec e op (friends_run ops s)))"
  by (induction ops s rule: friends_run.induct) auto

lemma explained_Send:
  assumes "rows_explained ops (fs_db s)" "Send e a b s = (r, s', es)"
  shows "rows_explained (ops @ [(e, OpSend a b)]) (fs_db s')"
  using assms(2)
proof (cases rule: SendE)
  case 1
  then show ?thesis using assms(1) by (simp add: rows_explained_snoc)
next
  case (2 d')
  with rows_explained_snoc [OF assms(1), of "(e, OpSend a b)"] show ?thesis
    by (auto simp: rows_explained_def CreateFriendRequest_rows asked_last)
qed

lemma explained_confirm:
  assumes "rows_explained ops d"
  shows "rows_explained (ops @ [(e, OpAccept me i)]) (d\<lparr>user_relationships :=
    update_rows (accept_row i me) (\<lambda>x. x\<lparr>ur_status := StatusConfirm, ur_updated_at := now\<rparr>)
      (user_relationships d)\<rparr>)"
  unfolding rows_explained_def
proof
  fix r assume "r \<in> set (user_relationships (d\<lparr>user_relationships :=
    update_rows (accept_row i me) (\<lambda>x. x\<lparr>ur_status := StatusConfirm, ur_updated_at := now\<rparr>)
      (user_relationships d)\<rparr>))"
  then obtain x where x: "x \<in> set (user_relationships d)" "r = (if accept_row i me x
      then x\<lparr>ur_status := StatusConfirm, ur_updated_at := now\<rparr> else x)"
    by (auto simp: set_update_rows)
  from assms x(1) have "asked ops (ur_user_id x) (ur_otherUser_id x)"
      "ur_status x = StatusPending \<or> agreed ops (ur_user_id x) (ur_otherUser_id x)"
    by (auto simp: rows_explained_def)
  with x(2) show "asked (ops @ [(e, OpAccept me i)]) (ur_user_id r) (ur_otherUser_id r) \<and>
    (ur_status r = StatusPending \<or> agreed (ops @ [(e, OpAccept me i)]) (ur_user_id r) (ur_otherUser_id r))"
    by (auto simp: accept_row_def intro: asked_snoc agreed_snoc agreed_last)
qed

lemma explained_Accept:
  assumes "rows_explained ops (fs_db s)" "Accept e me i s = (r, s', es)"
  shows "rows_explained (ops @ [(e, OpAccept me i)]) (fs_db s')"
  using assms(2)
proof (cases rule: AcceptE)
  case 1
  then show ?thesis using assms(1) by (simp add: rows_explained_snoc)
next
  case (2 sender d')
  have d': "fs_db s' = d'" using 2(2) by simp
  show ?thesis
    unfolding d' AcceptFriendRequest_rows(1) [OF 2(3)] by (rule explained_confirm [OF assms(1)])
qed

text \<open>Three of the operations only delete relationships.\<close>

definition only_deletes :: "db \<Rightarrow> db \<Rightarrow> bool" where
  "only_deletes d d' \<longleftrightarrow> (\<exists>p. d' = d\<lparr>user_relationships := delete_rows p (user_relationships d)\<rparr>)"

lemma only_deletes_refl: "only_deletes d d"
  unfolding only_deletes_def by (rule exI [of _ "\<lambda>_. False"]) (simp add: delete_rows_none)

lemma Deny_deletes: "Deny e me i s = (r, s', es) \<Longrightarrow> only_deletes (fs_db s) (fs_db s')"
  by (erule DenyE) (auto simp: only_deletes_refl only_deletes_def dest!: DenyFriendRequest_rows)

lemma Cancel_deletes: "Cancel e me i s = (r, s', es) \<Longrightarrow> only_deletes (fs_db s) (fs_db s')"
  by (erule CancelE) (auto simp: only_deletes_refl only_deletes_def dest!: CancelFriendRequest_rows)

lemma Unfriend_deletes: "Unfriend e a b s = (r, s', es) \<Longrightarrow> only_deletes (fs_db s) (fs_db s')"
  by (erule UnfriendE) (auto simp: only_deletes_refl only_deletes_def dest!: UnfriendRow_rows(1))

lemma explained_deletes:
  "only_deletes d d' \<Longrightarrow> rows_explained ops d \<Longrightarrow> rows_explained ops d'"
  by (auto simp: only_deletes_def intro: rows_explained_delete)

lemma explained_exec:
  assumes "rows_explained ops (fs_db s)"
  shows "rows_explained (ops @ [(e, op)]) (fs_db (fst (snd (friends_exec e op s))))"
proof -
  obtain r s' es where x: "friends_exec e op s = (r, s', es)" by (cases "friends_exec e op s")
  note old = rows_explained_snoc [OF assms, of "(e, op)"]
  from x have "rows_explained (ops @ [(e, op)]) (fs_db s')"
  proof (cases op)
    case (OpSend a b)
    with x obtain r' where "Send e a b s = (r', s', es)" by (auto elim: ignoreE)
    from explained_Send [OF assms this] OpSend show ?thesis by simp
  next
    case (OpAccept me i)
    with x have "Accept e me i s = (r, s', es)" by simp
    from explained_Accept [OF assms this] OpAccept show ?thesis by simp
  next
    case (OpDeny me i)
    with x have "only_deletes (fs_db s) (fs_db s')" by (simp add: Deny_deletes)
    then show ?thesis using old by (rule explained_deletes)
  next
    case (OpCancel me i)
    with x have "only_deletes (fs_db s) (fs_db s')" by (simp add: Cancel_deletes)
    then show ?thesis using old by (rule explained_deletes)
  next
    case (OpUnfriend a b)
    with x have "only_deletes (fs_db s) (fs_db s')" by (simp add: Unfriend_deletes)
    then show ?thesis using old by (rule explained_deletes)
  next
    case (OpBlock a b)
    with x have "Block e a b s = (r, s', es)" by simp
    then show ?thesis
      using old by (cases rule: BlockE) (auto simp: rows_explained_def BlockUser_rows)
  next
    case (OpUnblock a b)
    with x have "Unblock e a b s = (r, s', es)" by simp
    then show ?thesis
      using old by (cases rule: UnblockE) (auto simp: rows_explained_def UnblockUser_def)
  qed (use old in auto)
  with x show ?thesis by simp
qed

text \<open>
  Starting with no relationships, two users are friends after a run only if one of
  them sent the other a request and the other accepted a request after that.
\<close>

theorem friendship_needs_consent:
  assumes "user_relationships (fs_db s) = []" "are_friends_db a b (fs_db (friends_run ops s))"
  shows "agreed ops a b \<or> agreed ops b a"
proof -
  have "rows_explained ops (fs_db (friends_run ops s))"
  proof (induction ops rule: rev_induct)
    case Nil
    then show ?case using assms(1) by (simp add: rows_explained_def)
  next
    case (snoc x ops)
    then show ?case by (cases x) (simp add: friends_run_snoc explained_exec)
  qed
  with assms(2) show ?thesis
    by (fastforce simp: rows_explained_def are_friends_db_def exists_row_def pair_is_cases)
qed

lemma friends_example:
  "are_friends_db 1 2 (fs_db (friends_run [(calm 10, OpSend 1 2), (calm 11, OpAccept 2 10)] two_users))"
  by (simp add: Send_def SendCheck_def SendCreate_def repo_BlockBetween_def BlockBetween_def two_users_def
      empty_db_def repo_Create_def CreateFriendRequest_def Accept_def repo_Accept_def
      AcceptFriendRequest_def user_exists_def are_friends_db_def ignore_def pair_is_def notFound_def)

theorem friendship_needs_consent_witness:
  "agreed [(calm 10, OpSend 1 2), (calm 11, OpAccept 2 10)] 1 2 \<or>
   agreed [(calm 10, OpSend 1 2), (calm 11, OpAccept 2 10)] 2 1"
  using friends_example by (intro friendship_needs_consent) (simp_all add: two_users_def empty_db_def)

section \<open>Blocks\<close>

lemma not_blocked_Send:
  assumes "blocks_db a b (fs_db s) \<or> blocks_db b a (fs_db s)"
  shows "\<exists>err. Send e a b s = (Inl err, s, [])"
proof -
  have "SendCheck e a b (fs_db s) \<noteq> None" using assms SendCheck_None by blast
  then show ?thesis by (auto simp: Send_def)
qed

lemma exec_keeps_block:
  assumes "blocks_db a b (fs_db s)" "op \<noteq> OpUnblock a b"
  shows "blocks_db a b (fs_db (fst (snd (friends_exec e op s))))"
proof -
  obtain r s' es where x: "friends_exec e op s = (r, s', es)" by (cases "friends_exec e op s")
  have deletes: "blocks_db a b d'" if "only_deletes (fs_db s) d'" for d'
    using that assms(1) by (auto simp: only_deletes_def blocks_db_def)
  have "blocks_db a b (fs_db s')"
  proof (cases op)
    case (OpSend u v)
    with x obtain r' where "Send e u v s = (r', s', es)" by (auto elim: ignoreE)
    then show ?thesis using assms(1)
      by (cases rule: SendE) (auto simp: blocks_db_def CreateFriendRequest_rows)
  next
    case (OpAccept me i)
    with x have "Accept e me i s = (r, s', es)" by simp
    then show ?thesis
    proof (cases rule: AcceptE)
      case 1 with assms(1) show ?thesis by simp
    next
      case (2 sender d')
      then have "user_blocks (fs_db s') = user_blocks (fs_db s)"
        by (simp add: AcceptFriendRequest_rows(1) [OF 2(3)])
      with assms(1) show ?thesis by (simp add: blocks_db_def)
    qed
  next
    case (OpBlock u v)
    with x have "Block e u v s = (r, s', es)" by simp
    then show ?thesis using assms(1) by (cases rule: BlockE) (auto dest: BlockUser_rows(5))
  next
    case (OpUnblock u v)
    with x have "Unblock e u v s = (r, s', es)" by simp
    then show ?thesis using assms OpUnblock
      by (cases rule: UnblockE) (auto simp: UnblockUser_def blocks_db_def blocked_row_def exists_row_def)
  qed (use x assms(1) deletes Deny_deletes Cancel_deletes Unfriend_deletes in \<open>auto; blast\<close>)+
  with x show ?thesis by simp
qed

lemma run_keeps_block:
  assumes "blocks_db a b (fs_db s)" "OpUnblock a b \<notin> snd ` set ops"
  shows "blocks_db a b (fs_db (friends_run ops s))"
  using assms by (induction ops s rule: friends_run.induct) (auto intro: exec_keeps_block)

text \<open>
  C21: once a user has blocked another, then whatever else happens short of their
  unblocking them, there is no request and no friendship between the two and neither can
  send the other a request.
\<close>

theorem block_lasts:
  assumes "friends_inv (fs_db s)" "Block e me other s = (Inr (), s1, es)"
    and "OpUnblock me other \<notin> snd ` set ops"
  shows "\<not> rel_between me other (fs_db (friends_run ops s1)) \<and>
    (\<exists>err. Send e' me other (friends_run ops s1) = (Inl err, friends_run ops s1, [])) \<and>
    (\<exists>err. Send e' other me (friends_run ops s1) = (Inl err, friends_run ops s1, []))"
proof -
  have s1: "friends_inv (fs_db s1)" "blocks_db me other (fs_db s1)"
    using assms(1,2) by (auto elim!: BlockE dest: BlockUser_inv)
  have blocks: "blocks_db me other (fs_db (friends_run ops s1))"
    using s1(2) assms(3) by (rule run_keeps_block)
  moreover have "\<not> rel_between me other (fs_db (friends_run ops s1))"
    using friends_run_inv [OF s1(1), of ops] blocks by (auto simp: friends_inv_def no_blocked_rel_iff)
  ultimately show ?thesis by (simp add: not_blocked_Send)
qed

lemma Block_example:
  "\<exists>s1 es. Block (calm 3) 1 2 two_users = (Inr (), s1, es)"
  by (simp add: Block_def repo_Block_def BlockUser_def two_users_def empty_db_def user_exists_def)

theorem block_lasts_witness:
  "\<exists>s1. \<not> rel_between 1 2 (fs_db (friends_run [(calm 4, OpSend 2 1), (calm 5, OpUnblock 2 1)] s1))"
proof -
  obtain s1 es where "Block (calm 3) 1 2 two_users = (Inr (), s1, es)" using Block_example by blast
  then show ?thesis
    using block_lasts [of two_users "calm 3" 1 2 s1 es "[(calm 4, OpSend 2 1), (calm 5, OpUnblock 2 1)]"]
    by auto
qed

text \<open>
  A user who has been blocked cannot tell: their request to the blocker ends in the
  same result, state and events as if the users service did not know the blocker, whatever
  fails (unless they block the other user too, which they know about).
\<close>

theorem block_is_invisible:
  assumes "blocks_db other me (fs_db s)" "\<not> blocks_db me other (fs_db s)" "me \<noteq> other"
    and "fe_names e other = Inr nm" "\<not> fe_fails e QBlockBetween"
  shows "Send e me other s = Send (e\<lparr>fe_names := (fe_names e)(other := Inl ErrUserNotFound)\<rparr>) me other s"
  using assms
  by (simp add: Send_def SendCheck_def repo_BlockBetween_def BlockBetween_def blocks_db_def)

theorem block_is_invisible_witness:
  "let s = two_users\<lparr>fs_db := fs_db two_users\<lparr>user_blocks := [\<lparr>ub_blocker_id = 2, ub_blocked_id = 1, ub_created_at = 0\<rparr>]\<rparr>\<rparr>
   in Send (calm 9) 1 2 s =
     Send ((calm 9)\<lparr>fe_names := (fe_names (calm 9))(2 := Inl ErrUserNotFound)\<rparr>) 1 2 s"
  unfolding Let_def
  by (rule block_is_invisible [where nm = "''x''"])
    (simp_all add: two_users_def empty_db_def blocks_db_def blocked_row_def)

text \<open>
  Blocking somebody tells them no more than that a friendship ended: if the two were
  friends, the other user gets the same event as from an unfriend, and otherwise nothing.
\<close>

theorem block_tells_no_more_than_unfriend:
  assumes "Block e me other s = (Inr (), s', es)"
  shows "es = Broke me other #
    (if are_friends_db me other (fs_db s)
     then [WriteToUsers [other] (Event EventUnfriend (OutUnfriendEvent me))] else [])"
  using assms by (cases rule: BlockE) (auto simp: unfriend_event_def dest: BlockUser_rows(3))

theorem block_tells_no_more_than_unfriend_witness:
  "\<exists>s' es. Block (calm 3) 1 2 two_users = (Inr (), s', es) \<and> es = Broke 1 2 #
    (if are_friends_db 1 2 (fs_db two_users)
     then [WriteToUsers [2] (Event EventUnfriend (OutUnfriendEvent 1))] else [])"
proof -
  obtain s' es where "Block (calm 3) 1 2 two_users = (Inr (), s', es)" using Block_example by blast
  with block_tells_no_more_than_unfriend [OF this] show ?thesis by blast
qed

section \<open>Sending a request\<close>

text \<open>
  What \<^verbatim>\<open>Send\<close> answers when nothing fails: its guards in their order, then by what is
  already between the two users, in either direction; crossing and repeated requests
  leave one row.
\<close>

theorem Send_answer:
  assumes "friends_inv (fs_db s)" "\<And>c. \<not> fe_fails e c"
    and "\<not> exists_row (\<lambda>r. ur_id r = fe_uuid e) (user_relationships (fs_db s))"
    and "\<And>u. fe_names e u = (if user_exists u (fs_db s) then Inr (nm u) else Inl ErrUserNotFound)"
    and "user_exists a (fs_db s)"
  shows "fst (Send e a b s) =
    (if a = b then Inl (Sentinel ErrSelfRequest)
     else if \<not> user_exists b (fs_db s) then Inl (Sentinel ErrUnknownUser)
     else if blocks_db a b (fs_db s) then Inl (Sentinel ErrYouBlocked)
     else if blocks_db b a (fs_db s) then Inl (Sentinel ErrUnknownUser)
     else if are_friends_db a b (fs_db s) then Inl (Sentinel ErrAlreadyFriends)
     else if rel_between a b (fs_db s) then Inl (Sentinel ErrRequestExists)
     else Inr (fe_uuid e))"
proof (cases "SendCheck e a b (fs_db s)")
  case (Some err)
  then show ?thesis
    using assms(2,4,5) by (auto simp: Send_def SendCheck_def repo_BlockBetween_def BlockBetween_def
        blocks_db_def split: if_splits)
next
  case None
  note ok = SendCheck_None [OF None]
  from None have b: "user_exists b (fs_db s)"
    using assms(4) by (auto simp: SendCheck_def split: if_splits)
  have status: "PairStatus a b (fs_db s) =
      (if are_friends_db a b (fs_db s) then Inr StatusConfirm
       else if rel_between a b (fs_db s) then Inr StatusPending else Inl NoRows)"
  proof (cases "find_row (pair_is a b) (user_relationships (fs_db s))")
    case None
    then have "\<not> rel_between a b (fs_db s)" by (simp add: find_row_None rel_between_def)
    with None are_friends_rel show ?thesis by (auto simp: PairStatus_def)
  next
    case (Some r)
    then have "rel_between a b (fs_db s)"
      by (auto simp: rel_between_def exists_row_def dest: find_row_Some)
    moreover have "ur_status r = StatusPending \<or> ur_status r = StatusConfirm"
      using find_row_Some [OF Some] assms(1) by (auto simp: friends_inv_def rels_ok_def)
    ultimately show ?thesis
      using PairStatus_friends [OF assms(1), of a b] Some by (auto simp: PairStatus_def)
  qed
  show ?thesis
    using None ok b assms(2,3,5) status
    by (auto simp: Send_def SendCreate_def Let_def repo_Create_def CreateFriendRequest_def
        rel_between_def [symmetric] dest: are_friends_rel)
qed

definition named_calm :: "db \<Rightarrow> uuid \<Rightarrow> friends_env" where
  "named_calm d i = (calm i)\<lparr>fe_names :=
     (\<lambda>u. if user_exists u d then Inr ''x'' else Inl ErrUserNotFound)\<rparr>"

theorem Send_answer_witness:
  "fst (Send (named_calm (fs_db two_users) 10) 1 2 two_users) = Inr 10"
proof -
  have d: "user_relationships (fs_db two_users) = []" "user_blocks (fs_db two_users) = []"
      "user_exists 1 (fs_db two_users)" "user_exists 2 (fs_db two_users)"
    by (simp_all add: two_users_def empty_db_def user_exists_def)
  show ?thesis
    by (subst Send_answer [where nm = "\<lambda>_. ''x''"])
      (simp_all add: named_calm_def d blocks_db_def are_friends_db_def rel_between_def)
qed

text \<open>
  The checks and the insertion are separate statements. If \<open>b\<close> blocks \<open>a\<close> between the
  two, the request is stored all the same: there is then a request between a blocker and
  the user they blocked, which no order of whole operations can produce.
\<close>

theorem send_block_race:
  "\<exists>s1 es s2. SendCheck (calm 10) 1 2 (fs_db two_users) = None \<and>
     Block (calm 11) 2 1 two_users = (Inr (), s1, es) \<and>
     fst (SendCreate (calm 10) 1 2 s1) = Inr 10 \<and>
     s2 = fst (snd (SendCreate (calm 10) 1 2 s1)) \<and>
     blocks_db 2 1 (fs_db s2) \<and> rel_between 1 2 (fs_db s2) \<and> \<not> friends_inv (fs_db s2)"
proof -
  let ?b = "\<lparr>ub_blocker_id = 2, ub_blocked_id = 1, ub_created_at = 7\<rparr>"
  let ?s1 = "invalidate (calm 11) [2, 1] (two_users\<lparr>fs_db := fs_db two_users\<lparr>user_blocks := [?b]\<rparr>\<rparr>)"
  have check: "SendCheck (calm 10) 1 2 (fs_db two_users) = None"
    by (simp add: SendCheck_def repo_BlockBetween_def BlockBetween_def two_users_def empty_db_def)
  have block: "Block (calm 11) 2 1 two_users = (Inr (), ?s1, [Broke 2 1])"
    by (simp add: Block_def repo_Block_def BlockUser_def two_users_def empty_db_def user_exists_def)
  obtain s2 where create: "fst (SendCreate (calm 10) 1 2 ?s1) = Inr 10"
      "s2 = fst (snd (SendCreate (calm 10) 1 2 ?s1))"
      "user_blocks (fs_db s2) = [?b]" "rel_between 1 2 (fs_db s2)"
    by (simp add: SendCreate_def repo_Create_def CreateFriendRequest_def two_users_def empty_db_def
        user_exists_def rel_between_def pair_is_def)
  then have "blocks_db 2 1 (fs_db s2)" by (simp add: blocks_db_def blocked_row_def)
  moreover from this create(4) have "\<not> friends_inv (fs_db s2)"
    unfolding friends_inv_def no_blocked_rel_iff rel_between_commute [of 1 2] by blast
  ultimately show ?thesis using check block create by blast
qed

section \<open>The cached lists agree with Postgres\<close>

definition involves :: "uuid \<Rightarrow> user_relationship \<Rightarrow> bool" where
  "involves k r \<longleftrightarrow> ur_user_id r = k \<or> ur_otherUser_id r = k"

text \<open>A user's lists depend only on the users and on the rows they are part of.\<close>

lemma filter_involves:
  assumes "\<And>r. p r \<Longrightarrow> involves k r" "filter (involves k) rs' = filter (involves k) rs"
  shows "filter p rs' = filter p rs"
proof -
  have "filter p xs = filter p (filter (involves k) xs)" for xs
    using assms(1) by (auto intro: filter_cong)
  then show ?thesis using assms(2) by metis
qed

lemma exists_row_filter: "exists_row p rs \<longleftrightarrow> filter p rs \<noteq> []"
  by (auto simp: exists_row_def filter_empty_conv)

lemma snapshot_of_frame:
  assumes "users d' = users d"
    and "filter (involves k) (user_relationships d') = filter (involves k) (user_relationships d)"
  shows "snapshot_of coll d' k = snapshot_of coll d k"
proof -
  have flt: "filter p (user_relationships d') = filter p (user_relationships d)"
    if "\<And>r. p r \<Longrightarrow> involves k r" for p
    using that assms(2) by (rule filter_involves)
  have find: "find_user i d' = find_user i d" for i using assms(1) by (simp add: find_user_def)
  have ex: "exists_row (\<lambda>r. ur_status r = StatusConfirm \<and> (ur_user_id r = k \<and> ur_otherUser_id r = u_id u \<or>
        ur_otherUser_id r = k \<and> ur_user_id r = u_id u)) (user_relationships d') =
      exists_row (\<lambda>r. ur_status r = StatusConfirm \<and> (ur_user_id r = k \<and> ur_otherUser_id r = u_id u \<or>
        ur_otherUser_id r = k \<and> ur_user_id r = u_id u)) (user_relationships d)" for u
    unfolding exists_row_filter by (subst flt) (auto simp: involves_def)
  have "ListFriends coll k d' = ListFriends coll k d"
    unfolding ListFriends_def assms(1) ex ..
  moreover have "filter (\<lambda>r. ur_otherUser_id r = k \<and> ur_status r = StatusPending) (user_relationships d') =
      filter (\<lambda>r. ur_otherUser_id r = k \<and> ur_status r = StatusPending) (user_relationships d)"
    "filter (\<lambda>r. ur_user_id r = k \<and> ur_status r = StatusPending) (user_relationships d') =
      filter (\<lambda>r. ur_user_id r = k \<and> ur_status r = StatusPending) (user_relationships d)"
    by (rule flt, simp add: involves_def)+
  ultimately show ?thesis
    by (simp add: snapshot_of_def ListIncomingFriendRequests_def
        ListOutgoingFriendRequests_def join_user_def assms(1) find)
qed

text \<open>\<open>touches_only ks d d'\<close>: no row of a user outside \<open>ks\<close> differs.\<close>

definition touches_only :: "uuid list \<Rightarrow> db \<Rightarrow> db \<Rightarrow> bool" where
  "touches_only ks d d' \<longleftrightarrow> users d' = users d \<and>
     (\<forall>k. k \<notin> set ks \<longrightarrow>
        filter (involves k) (user_relationships d') = filter (involves k) (user_relationships d))"

lemma touches_only_delete:
  assumes "\<And>r. p r \<Longrightarrow> r \<in> set (user_relationships d) \<Longrightarrow> ur_user_id r \<in> set ks \<and> ur_otherUser_id r \<in> set ks"
  shows "touches_only ks d (d\<lparr>user_relationships := delete_rows p (user_relationships d)\<rparr>)"
  using assms by (auto simp: touches_only_def delete_rows_def involves_def intro!: filter_cong)

lemma filter_involves_confirm:
  assumes "\<And>r. p r \<Longrightarrow> r \<in> set rs \<Longrightarrow> \<not> involves k r"
  shows "filter (involves k) (update_rows p
      (\<lambda>x. x\<lparr>ur_status := StatusConfirm, ur_updated_at := now\<rparr>) rs) = filter (involves k) rs"
  using assms by (induction rs) (auto simp: involves_def)

lemma touches_only_create:
  "CreateFriendRequest now i a b d = Inr d' \<Longrightarrow> touches_only [a, b] d d'"
  by (frule CreateFriendRequest_rows(1), drule CreateFriendRequest_rows(2))
    (simp add: touches_only_def involves_def)

lemma touches_only_accept:
  assumes "friends_inv d" "AcceptFriendRequest now i b d = Inr (a, d')"
  shows "touches_only [b, a] d d'"
proof -
  obtain x where x: "x \<in> set (user_relationships d)" "accept_row i b x" "ur_user_id x = a"
    using AcceptFriendRequest_rows(2) [OF assms(2)] by blast
  have only: "r = x" if "r \<in> set (user_relationships d)" "accept_row i b r" for r
    using assms(1) that x
    by (auto simp: friends_inv_def rels_ok_def accept_row_def intro: key_ok_unique)
  show ?thesis
    unfolding AcceptFriendRequest_rows(1) [OF assms(2)] touches_only_def
  proof (intro conjI allI impI)
    fix k assume k: "k \<notin> set [b, a]"
    have "\<not> involves k r" if "accept_row i b r" "r \<in> set (user_relationships d)" for r
      using only [OF that(2,1)] x k by (auto simp: accept_row_def involves_def)
    then show "filter (involves k) (user_relationships (d\<lparr>user_relationships :=
        update_rows (accept_row i b) (\<lambda>x. x\<lparr>ur_status := StatusConfirm, ur_updated_at := now\<rparr>)
          (user_relationships d)\<rparr>)) = filter (involves k) (user_relationships d)"
      by (simp add: filter_involves_confirm)
  qed simp
qed

lemma touches_only_deny:
  assumes "friends_inv d" "DenyFriendRequest i b d = Inr (a, d')"
  shows "touches_only [b, a] d d'"
proof -
  obtain p r where p: "d' = d\<lparr>user_relationships := delete_rows p (user_relationships d)\<rparr>"
      "r \<in> set (user_relationships d)" "p r" "ur_user_id r = a" "ur_otherUser_id r = b"
      "\<forall>x. p x \<longrightarrow> ur_id x = i \<and> ur_otherUser_id x = b"
    using DenyFriendRequest_rows [OF assms(2)] by blast
  have "x = r" if "p x" "x \<in> set (user_relationships d)" for x
    using assms(1) that p by (auto simp: friends_inv_def rels_ok_def intro: key_ok_unique)
  then show ?thesis unfolding p(1) using p(4,5) by (auto intro!: touches_only_delete)
qed

lemma touches_only_cancel:
  assumes "friends_inv d" "CancelFriendRequest i a d = Inr (b, d')"
  shows "touches_only [a, b] d d'"
proof -
  obtain p r where p: "d' = d\<lparr>user_relationships := delete_rows p (user_relationships d)\<rparr>"
      "r \<in> set (user_relationships d)" "p r" "ur_user_id r = a" "ur_otherUser_id r = b"
      "\<forall>x. p x \<longrightarrow> ur_id x = i \<and> ur_user_id x = a"
    using CancelFriendRequest_rows [OF assms(2)] by blast
  have "x = r" if "p x" "x \<in> set (user_relationships d)" for x
    using assms(1) that p by (auto simp: friends_inv_def rels_ok_def intro: key_ok_unique)
  then show ?thesis unfolding p(1) using p(4,5) by (auto intro!: touches_only_delete)
qed

lemma touches_only_unfriend:
  "UnfriendRow a b d = Inr (i, d') \<Longrightarrow> touches_only [a, b] d d'"
  by (drule UnfriendRow_rows(1)) (auto simp: pair_is_cases intro!: touches_only_delete)

lemma touches_only_block:
  assumes "BlockUser a b at d = Inr (were, d')"
  shows "touches_only [a, b] d d'"
proof -
  have "touches_only [a, b] d (d\<lparr>user_relationships := delete_rows (pair_is a b) (user_relationships d)\<rparr>)"
    by (rule touches_only_delete) (auto simp: pair_is_cases)
  then show ?thesis by (simp add: touches_only_def BlockUser_rows [OF assms])
qed

definition source :: "(string \<Rightarrow> string) \<Rightarrow> db \<Rightarrow> uuid \<Rightarrow> friends_err fail + snapshot" where
  "source coll d k = Inr (snapshot_of coll d k)"

definition lists_current :: "(string \<Rightarrow> string) \<Rightarrow> friends_sys \<Rightarrow> bool" where
  "lists_current coll s \<longleftrightarrow> vc_coherent (source coll (fs_db s)) (fs_cache s)"

lemma committed_current:
  assumes "lists_current coll s" "\<not> fe_fails e (QCache CInvalidate)" "touches_only ks (fs_db s) d'"
  shows "lists_current coll (committed e ks s d')"
proof -
  have "\<forall>k. k \<notin> set ks \<longrightarrow> source coll d' k = source coll (fs_db s) k"
    using assms(3) by (auto simp: source_def touches_only_def intro: snapshot_of_frame)
  then show ?thesis
    using vc.invalidate_coh assms(1,2)
    by (auto simp: lists_current_def committed_def invalidate_def VInvalidate_flt_def cache_fails_def)
qed

lemma invalidate_current: "lists_current coll s \<Longrightarrow> lists_current coll (invalidate e ks s)"
  using vc.invalidate_coh [of "source coll (fs_db s)" "fs_cache s" ks "source coll (fs_db s)"]
  by (simp add: lists_current_def invalidate_def VInvalidate_flt_def)

lemma Relationships_current:
  assumes "lists_current (fe_coll e) s" "Relationships e me s = (r, s')"
  shows "(\<exists>err. r = Inl err) \<or> r = source (fe_coll e) (fs_db s) me"
    "lists_current (fe_coll e) s'" "fs_db s' = fs_db s"
proof -
  let ?src = "source (fe_coll e) (fs_db s)"
  obtain c' where c': "VLoad (cache_fails e) me (repo_Snapshot e me (fs_db s)) (fs_cache s) = (r, c')"
      "s' = s\<lparr>fs_cache := c'\<rparr>"
    using assms(2) by (auto simp: Relationships_def split: prod.splits)
  have l: "repo_Snapshot e me (fs_db s) = ?src me \<or> (\<exists>err. repo_Snapshot e me (fs_db s) = Inl err)"
    by (simp add: repo_Snapshot_def source_def)
  have coh: "vc_coherent ?src (fs_cache s)" using assms(1) by (simp add: lists_current_def)
  show "(\<exists>err. r = Inl err) \<or> r = ?src me"
    using vc.load_any(1) [OF coh c'(1) l] by auto
  show "lists_current (fe_coll e) s'"
    using vc.load_any(2) [OF coh c'(1) l] c'(2) by (simp add: lists_current_def)
  show "fs_db s' = fs_db s" using c'(2) by simp
qed

lemma AreFriends_current:
  assumes "friends_inv (fs_db s)" "lists_current (fe_coll e) s" "AreFriends e a b s = (r, s')"
  shows "(\<exists>err. r = Inl err) \<or> r = Inr (are_friends_db a b (fs_db s))" "lists_current (fe_coll e) s'"
proof -
  obtain r' where r': "Relationships e a s = (r', s')"
    using assms(3) by (auto simp: AreFriends_def split: prod.splits sum.splits)
  note R = Relationships_current [OF assms(2) r']
  have "list_ex (\<lambda>f. fm_user_id f = b) (sn_friends (snapshot_of (fe_coll e) (fs_db s) a)) \<longleftrightarrow>
      are_friends_db a b (fs_db s)"
    using ListFriends_iff [OF assms(1), of "fe_coll e" a b]
    by (simp add: snapshot_of_def list_ex_iff meta_of_def)
  then show "(\<exists>err. r = Inl err) \<or> r = Inr (are_friends_db a b (fs_db s))"
    using R(1) r' assms(3) by (auto simp: AreFriends_def source_def)
  show "lists_current (fe_coll e) s'" by (rule R(2))
qed

text \<open>
  The friends service implements \<^verbatim>\<open>FriendChecker\<close> while its tables keep the invariant and
  its cache is current, whichever of its calls fail.
\<close>

interpretation fr: friend_checker "\<lambda>s a b. AreFriends e a b s"
  "\<lambda>s. friends_inv (fs_db s) \<and> lists_current (fe_coll e) s" "\<lambda>s a b. are_friends_db a b (fs_db s)" for e
proof (unfold_locales, goal_cases)
  case (1 s a b v s')
  then show ?case using AreFriends_current(1) [of s e a b "Inr v" s'] by auto
next
  case (2 s a b r s')
  have "fs_db s' = fs_db s" using AreFriends_db [of e a b s] 2 by simp
  with 2 AreFriends_current(2) [of s e a b r s'] show ?case by simp
next
  case (3 s a b)
  then show ?case by (simp add: are_friends_commute)
qed

lemma exec_current:
  assumes "friends_inv (fs_db s)" "lists_current coll s"
    and e: "fe_coll e = coll" "\<not> fe_fails e (QCache CInvalidate)"
  shows "lists_current coll (fst (snd (friends_exec e op s)))"
proof -
  note c = committed_current [OF assms(2) e(2)] and inv = assms(1)
  obtain r s' es where x: "friends_exec e op s = (r, s', es)" by (cases "friends_exec e op s")
  have "lists_current coll s'"
  proof (cases op)
    case (OpSend u v)
    with x obtain r' where "Send e u v s = (r', s', es)" by (auto elim: ignoreE)
    then show ?thesis using assms(2) by (cases rule: SendE) (simp_all add: c touches_only_create)
  next
    case (OpAccept me i)
    with x have "Accept e me i s = (r, s', es)" by simp
    then show ?thesis using assms(2) by (cases rule: AcceptE) (simp_all add: c touches_only_accept [OF inv])
  next
    case (OpDeny me i)
    with x have "Deny e me i s = (r, s', es)" by simp
    then show ?thesis using assms(2) by (cases rule: DenyE) (simp_all add: c touches_only_deny [OF inv])
  next
    case (OpCancel me i)
    with x have "Cancel e me i s = (r, s', es)" by simp
    then show ?thesis using assms(2) by (cases rule: CancelE) (simp_all add: c touches_only_cancel [OF inv])
  next
    case (OpUnfriend u v)
    with x have "Unfriend e u v s = (r, s', es)" by simp
    then show ?thesis using assms(2) by (cases rule: UnfriendE) (simp_all add: c touches_only_unfriend)
  next
    case (OpBlock u v)
    with x have "Block e u v s = (r, s', es)" by simp
    then show ?thesis using assms(2) by (cases rule: BlockE) (simp_all add: c touches_only_block)
  next
    case (OpUnblock u v)
    with x have "Unblock e u v s = (r, s', es)" by simp
    moreover have "source coll (UnblockUser u v (fs_db s)) = source coll (fs_db s)"
      by (rule ext) (simp add: source_def UnblockUser_def, rule snapshot_of_frame, simp_all)
    ultimately show ?thesis using assms(2) by (cases rule: UnblockE) (simp_all add: lists_current_def)
  next
    case (OpAreFriends u v)
    with x have "AreFriends e u v s = (fst (AreFriends e u v s), s')" by auto
    with AreFriends_current(2) [OF inv _ this] assms(2) e(1) show ?thesis by simp
  next
    case (OpForgetNames u)
    with x have "s' = ForgetNames e u s" by simp
    then show ?thesis
      using invalidate_current [OF assms(2)] by (simp add: ForgetNames_def split: sum.split)
  qed
  with x show ?thesis by simp
qed

lemma run_current:
  assumes "friends_inv (fs_db s)" "lists_current coll s"
    and "\<forall>(e, op) \<in> set ops. fe_coll e = coll \<and> \<not> fe_fails e (QCache CInvalidate)"
  shows "lists_current coll (friends_run ops s)"
  using assms
proof (induction ops s rule: friends_run.induct)
  case (2 e op ops s)
  then show ?case using exec_current [of s coll e op] friends_exec_inv by auto
qed simp

text \<open>
  C35: whatever operations ran before, with any of their database calls and cache reads and
  stores failing, \<^verbatim>\<open>AreFriends\<close> answers what Postgres says, or fails; only an
  invalidation that failed could have left it an old answer.
\<close>

theorem AreFriends_true_answer:
  assumes "friends_inv (fs_db s)" "lists_current coll s"
    and "\<forall>(e, op) \<in> set ops. fe_coll e = coll \<and> \<not> fe_fails e (QCache CInvalidate)"
    and "fe_coll e = coll" "AreFriends e a b (friends_run ops s) = (Inr v, s')"
  shows "v \<longleftrightarrow> are_friends_db a b (fs_db (friends_run ops s))"
proof -
  have "lists_current (fe_coll e) (friends_run ops s)"
    unfolding assms(4) by (rule run_current [OF assms(1-3)])
  from AreFriends_current(1) [OF friends_run_inv [OF assms(1)] this assms(5)] show ?thesis by auto
qed

theorem AreFriends_true_answer_witness:
  "\<exists>v s'. AreFriends (calm 9) 1 2 (friends_run [(calm 10, OpSend 1 2), (calm 12, OpAreFriends 1 2),
     (calm 11, OpAccept 2 10)] two_users) = (Inr v, s') \<and>
   (v \<longleftrightarrow> are_friends_db 1 2 (fs_db (friends_run [(calm 10, OpSend 1 2), (calm 12, OpAreFriends 1 2),
     (calm 11, OpAccept 2 10)] two_users)))"
proof -
  let ?ops = "[(calm 10, OpSend 1 2), (calm 12, OpAreFriends 1 2), (calm 11, OpAccept 2 10)]"
  have "\<exists>v s'. AreFriends (calm 9) 1 2 t = (Inr v, s')" for t
    by (simp add: AreFriends_def Relationships_def VLoad_def repo_Snapshot_def cache_fails_def
        split: option.split)
  then obtain v s' where v: "AreFriends (calm 9) 1 2 (friends_run ?ops two_users) = (Inr v, s')" by blast
  have "lists_current (\<lambda>x. x) two_users" by (simp add: lists_current_def two_users_def)
  with AreFriends_true_answer [OF two_users_inv this _ _ v] v show ?thesis by auto
qed

section \<open>Friends are not blocked; an example of two friends\<close>

lemma friends_not_blocked:
  assumes "friends_inv d" "are_friends_db a b d"
  shows "\<not> blocks_db a b d \<and> \<not> blocks_db b a d"
proof -
  have "rel_between a b d" using assms(2) by (rule are_friends_rel)
  moreover from this have "rel_between b a d" using rel_between_commute by blast
  moreover have "no_blocked_rel d" using assms(1) by (simp add: friends_inv_def)
  ultimately show ?thesis unfolding no_blocked_rel_iff by blast
qed

definition befriended :: friends_sys where
  "befriended = friends_run [(calm 10, OpSend 1 2), (calm 11, OpAccept 2 10)] two_users"

lemma befriended_ok: "friends_inv (fs_db befriended)" "lists_current (\<lambda>x. x) befriended"
proof -
  show "friends_inv (fs_db befriended)" unfolding befriended_def by (rule friends_run_inv) simp
  have "lists_current (\<lambda>x. x) two_users" by (simp add: lists_current_def two_users_def)
  then show "lists_current (\<lambda>x. x) befriended" unfolding befriended_def by (intro run_current) simp_all
qed

lemma befriended_answer: "\<exists>s'. AreFriends (calm 9) 1 2 befriended = (Inr True, s')"
proof -
  have "are_friends_db 1 2 (fs_db befriended)" unfolding befriended_def by (rule friends_example)
  moreover have "\<exists>v s'. AreFriends (calm 9) 1 2 befriended = (Inr v, s')"
    by (simp add: AreFriends_def Relationships_def VLoad_def repo_Snapshot_def cache_fails_def split: option.split)
  ultimately show ?thesis using AreFriends_current(1) [of befriended "calm 9" 1 2] befriended_ok by auto
qed

end
