(* ===== verification/Calls_Safety.thy ===== *)
theory Calls_Safety
  imports Calls Friends_Safety
begin

text \<open>
  What holds of calls however the manager's methods and timers interleave, the call log when
  methods do not overlap, and the interleavings in which something goes wrong.
\<close>

section \<open>The maps agree\<close>

definition calls_ok :: "manager \<Rightarrow> bool" where
  "calls_ok m \<longleftrightarrow>
     (\<forall>i c. m_calls m i = Some c \<longrightarrow> ca_caller c \<noteq> ca_callee c \<and>
        m_byUser m (ca_caller c) = Some i \<and> m_byUser m (ca_callee c) = Some i) \<and>
     (\<forall>u i. m_byUser m u = Some i \<longrightarrow> (\<exists>c. m_calls m i = Some c \<and> (u = ca_caller c \<or> u = ca_callee c)))"

lemma calls_okD:
  assumes "calls_ok m" "m_calls m i = Some c"
  shows "ca_caller c \<noteq> ca_callee c" "m_byUser m (ca_caller c) = Some i" "m_byUser m (ca_callee c) = Some i"
  using assms unfolding calls_ok_def by blast+

lemma calls_ok_byUser:
  assumes "calls_ok m" "m_byUser m u = Some i"
  obtains c where "m_calls m i = Some c" "u = ca_caller c \<or> u = ca_callee c"
  using assms unfolding calls_ok_def by blast

lemma calls_ok_starts [simp]: "calls_ok (m\<lparr>m_starts := l\<rparr>) = calls_ok m"
  by (simp add: calls_ok_def)

lemma allowStart_maps:
  "m_calls (snd (allowStart u now m)) = m_calls m" "m_byUser (snd (allowStart u now m)) = m_byUser m"
  "calls_ok (snd (allowStart u now m)) = calls_ok m"
  by (simp_all add: allowStart_def Let_def)

lemma calls_ok_update:
  assumes "calls_ok m" "m_calls m i = Some c" "ca_caller c' = ca_caller c" "ca_callee c' = ca_callee c"
  shows "calls_ok (m\<lparr>m_calls := (m_calls m)(i \<mapsto> c')\<rparr>)"
  using assms unfolding calls_ok_def by (auto split: if_splits) (metis option.inject)+

lemma calls_ok_new:
  assumes "calls_ok m" "m_calls m i = None" "m_byUser m a = None" "m_byUser m b = None" "a \<noteq> b"
    and "ca_caller c = a" "ca_callee c = b"
  shows "calls_ok (m\<lparr>m_calls := (m_calls m)(i \<mapsto> c), m_byUser := (m_byUser m)(a \<mapsto> i, b \<mapsto> i)\<rparr>)"
proof -
  have old: "ca_caller d \<noteq> a" "ca_caller d \<noteq> b" "ca_callee d \<noteq> a" "ca_callee d \<noteq> b"
    if "m_calls m j = Some d" for j d
    using calls_okD [OF assms(1) that] assms(3,4) by auto
  have used: "\<exists>d. m_calls m j = Some d \<and> (u = ca_caller d \<or> u = ca_callee d) \<and> j \<noteq> i" if "m_byUser m u = Some j" for u j
    using assms(1,2) that by (metis calls_ok_byUser option.distinct(1))
  show ?thesis unfolding calls_ok_def
  proof (intro conjI allI impI)
    fix j d
    assume "m_calls (m\<lparr>m_calls := (m_calls m)(i \<mapsto> c), m_byUser := (m_byUser m)(a \<mapsto> i, b \<mapsto> i)\<rparr>) j = Some d"
    then have *: "j = i \<and> d = c \<or> j \<noteq> i \<and> m_calls m j = Some d" by (auto split: if_splits)
    then show "ca_caller d \<noteq> ca_callee d" using assms(5-7) calls_okD(1) [OF assms(1)] by blast
    from * show "m_byUser (m\<lparr>m_calls := (m_calls m)(i \<mapsto> c), m_byUser := (m_byUser m)(a \<mapsto> i, b \<mapsto> i)\<rparr>) (ca_caller d) = Some j"
      using assms(6,7) calls_okD(2) [OF assms(1)] old by auto
    from * show "m_byUser (m\<lparr>m_calls := (m_calls m)(i \<mapsto> c), m_byUser := (m_byUser m)(a \<mapsto> i, b \<mapsto> i)\<rparr>) (ca_callee d) = Some j"
      using assms(6,7) calls_okD(3) [OF assms(1)] old by auto
  next
    fix u j
    assume "m_byUser (m\<lparr>m_calls := (m_calls m)(i \<mapsto> c), m_byUser := (m_byUser m)(a \<mapsto> i, b \<mapsto> i)\<rparr>) u = Some j"
    then show "\<exists>d. m_calls (m\<lparr>m_calls := (m_calls m)(i \<mapsto> c), m_byUser := (m_byUser m)(a \<mapsto> i, b \<mapsto> i)\<rparr>) j = Some d \<and>
        (u = ca_caller d \<or> u = ca_callee d)"
      using assms(6,7) used by (auto split: if_splits)
  qed
qed

lemma drop_users:
  assumes "calls_ok m" "m_calls m i = Some c"
  shows "drop_user (ca_callee c) i (drop_user (ca_caller c) i (m\<lparr>m_calls := f\<rparr>)) =
    m\<lparr>m_calls := f, m_byUser := (m_byUser m)(ca_caller c := None, ca_callee c := None)\<rparr>"
  using calls_okD [OF assms] by (simp add: drop_user_def)

lemma calls_ok_end:
  assumes "calls_ok m" "m_calls m i = Some c"
  shows "calls_ok (m\<lparr>m_calls := (m_calls m)(i := None), m_byUser := (m_byUser m)(ca_caller c := None, ca_callee c := None)\<rparr>)"
proof -
  have other: "ca_caller d \<noteq> ca_caller c" "ca_caller d \<noteq> ca_callee c" "ca_callee d \<noteq> ca_caller c" "ca_callee d \<noteq> ca_callee c"
    if "m_calls m j = Some d" "j \<noteq> i" for j d
    using calls_okD [OF assms(1) that(1)] calls_okD [OF assms] that(2) by auto
  have used: "\<exists>d. m_calls m j = Some d \<and> (u = ca_caller d \<or> u = ca_callee d) \<and> j \<noteq> i"
    if "m_byUser m u = Some j" "u \<noteq> ca_caller c" "u \<noteq> ca_callee c" for u j
    using assms that by (metis calls_ok_byUser option.inject)
  show ?thesis unfolding calls_ok_def
  proof (rule conjI)
    show "\<forall>j d. m_calls (m\<lparr>m_calls := (m_calls m)(i := None), m_byUser := (m_byUser m)(ca_caller c := None, ca_callee c := None)\<rparr>) j = Some d \<longrightarrow>
        ca_caller d \<noteq> ca_callee d \<and>
        m_byUser (m\<lparr>m_calls := (m_calls m)(i := None), m_byUser := (m_byUser m)(ca_caller c := None, ca_callee c := None)\<rparr>) (ca_caller d) = Some j \<and>
        m_byUser (m\<lparr>m_calls := (m_calls m)(i := None), m_byUser := (m_byUser m)(ca_caller c := None, ca_callee c := None)\<rparr>) (ca_callee d) = Some j"
      using other calls_okD [OF assms(1)] by auto
    show "\<forall>u j. m_byUser (m\<lparr>m_calls := (m_calls m)(i := None), m_byUser := (m_byUser m)(ca_caller c := None, ca_callee c := None)\<rparr>) u = Some j \<longrightarrow>
        (\<exists>d. m_calls (m\<lparr>m_calls := (m_calls m)(i := None), m_byUser := (m_byUser m)(ca_caller c := None, ca_callee c := None)\<rparr>) j = Some d \<and>
          (u = ca_caller d \<or> u = ca_callee d))"
      using used by (fastforce split: if_splits)
  qed
qed

section \<open>Counting starts and ends\<close>

text \<open>
  A call id is somewhere between its start and its end in at most one way: about to be
  registered, open, about to be announced as ended, or announced.
\<close>

fun t_weight :: "uuid \<Rightarrow> thread \<Rightarrow> nat" where
  "t_weight i (TStartLock _ _ j _) = (if i = j then 1 else 0)"
| "t_weight i (TFinish j _ _ _ _ _ _) = (if i = j then 1 else 0)"
| "t_weight i _ = 0"

fun is_end :: "uuid \<Rightarrow> call_effect \<Rightarrow> bool" where
  "is_end i (CallToUsers _ (CallEnded j _ _)) = (i = j)"
| "is_end i _ = False"

definition c_weight :: "uuid \<Rightarrow> calls_sys \<Rightarrow> nat" where
  "c_weight i s = (if m_calls (cs_mgr s) i = None then 0 else 1)"

definition ends :: "uuid \<Rightarrow> call_effect list \<Rightarrow> nat" where
  "ends i es = length (filter (is_end i) es)"

lemma ends_simps [simp]: "ends i [] = 0" "ends i (e # es) = (if is_end i e then 1 else 0) + ends i es"
  "ends i (es @ fs) = ends i es + ends i fs"
  by (simp_all add: ends_def)

lemma ends_fail [simp]: "ends i (fail c j x) = 0"
  by (simp add: fail_def)

definition weight :: "world \<Rightarrow> uuid \<Rightarrow> nat" where
  "weight w i = ends i (w_out w) + sum_list (map (t_weight i) (w_pool w)) + c_weight i (w_sys w)"

abbreviation k_weight :: "uuid \<Rightarrow> thread option \<Rightarrow> nat" where
  "k_weight i k \<equiv> (case k of None \<Rightarrow> 0 | Some t \<Rightarrow> t_weight i t)"

lemma drop_user_calls [simp]: "m_calls (drop_user u i m) = m_calls m"
  by (simp add: drop_user_def)

lemma exec_weight:
  assumes "exec e t s = (s1, k, es)"
  shows "ends i es + k_weight i k + c_weight i s1 \<le>
    t_weight i t + c_weight i s + (if i \<in> set (new_ids e t) then 1 else 0)"
proof (cases t)
  case (TStart cn0 to)
  with assms show ?thesis by (auto simp: start_checks_def split: if_splits option.splits)
next
  case (TStartLock cn0 to j now)
  with assms show ?thesis
    using allowStart_maps(1) [of "cn_User cn0" now "cs_mgr s"]
    by (auto simp: start_lock_def Let_def c_weight_def split: if_splits prod.splits)
next
  case (TAccept cn0 j)
  with assms show ?thesis by (auto simp: accept_read_def)
next
  case (TAcceptLimits cn0 j now p)
  with assms show ?thesis by (auto simp: accept_limits_def Let_def split: if_splits option.splits prod.splits)
next
  case (TAcceptLock cn0 j now l)
  with assms show ?thesis by (auto simp: accept_lock_def c_weight_def split: if_splits option.splits)
next
  case (TSignal cn0 j d)
  with assms show ?thesis by (auto simp: signal_def Let_def c_weight_def split: if_splits option.splits)
next
  case (THangUp cn0 j)
  with assms show ?thesis by (auto simp: hangUp_def split: if_splits option.splits)
next
  case (TEnd j r)
  with assms show ?thesis by (auto simp: end_lock_def Let_def c_weight_def split: option.splits if_splits)
next
  case (TConnected cn)
  with assms show ?thesis
    by (cases "m_byUser (cs_mgr s) (cn_User cn)")
      (auto simp: Connected_def Let_def c_weight_def split: if_splits option.splits)
next
  case (TDisconnected cn)
  with assms show ?thesis
    by (cases "m_byUser (cs_mgr s) (cn_User cn)")
      (auto simp: Disconnected_def Let_def c_weight_def split: if_splits option.splits)
next
  case (TEndBetween a b)
  with assms show ?thesis by (auto simp: EndBetween_def split: if_splits option.splits)
qed (use assms in \<open>auto simp: start_busy_def start_ring_def accept_answer_def end_finish_def c_weight_def\<close>)

section \<open>What a section does to the state\<close>

fun thread_ok :: "thread \<Rightarrow> bool" where
  "thread_ok (TStartLock from to _ _) = (to \<noteq> cn_User from)"
| "thread_ok _ = True"

lemma entry_ok: "entry t \<Longrightarrow> thread_ok t \<and> t_weight i t = 0"
  by (cases t) auto

lemma exec_thread_ok: "exec e t s = (s1, Some t1, es) \<Longrightarrow> thread_ok t1"
  by (cases t) (auto simp: call_sections Let_def split: if_splits option.splits prod.splits)

text \<open>
  A section leaves the manager's calls as they are, or registers one, changes one without
  changing its two parties, or removes one.
\<close>

inductive mgr_change :: "calls_env \<Rightarrow> thread \<Rightarrow> manager \<Rightarrow> manager \<Rightarrow> bool" where
  same: "m_calls m' = m_calls m \<Longrightarrow> m_byUser m' = m_byUser m \<Longrightarrow>
    (\<forall>i r. t = TEnd i r \<longrightarrow> m_calls m i = None) \<Longrightarrow> mgr_change e t m m'"
| registered: "m_byUser m (cn_User from) = None \<Longrightarrow> m_byUser m to = None \<Longrightarrow>
    m_calls m' = (m_calls m)(i \<mapsto> new_call e from to now) \<Longrightarrow>
    m_byUser m' = (m_byUser m)(cn_User from \<mapsto> i, to \<mapsto> i) \<Longrightarrow> mgr_change e (TStartLock from to i now) m m'"
| updated: "m_calls m i = Some c \<Longrightarrow> ca_caller c' = ca_caller c \<Longrightarrow> ca_callee c' = ca_callee c \<Longrightarrow>
    ca_timer c' = ca_timer c \<or> ca_timer c' \<noteq> None \<Longrightarrow>
    ca_signals c' = ca_signals c \<or> (\<exists>from d. t = TSignal from i d \<and> ca_signals c' = (ca_signals c)(cn_User from := ca_signals c (cn_User from) + 1)) \<Longrightarrow>
    (\<forall>i r. t \<noteq> TEnd i r) \<Longrightarrow> mgr_change e t m (m\<lparr>m_calls := (m_calls m)(i \<mapsto> c')\<rparr>)"
| removed: "m_calls m i = Some c \<Longrightarrow>
    m' = drop_user (ca_callee c) i (drop_user (ca_caller c) i (m\<lparr>m_calls := (m_calls m)(i := None)\<rparr>)) \<Longrightarrow>
    mgr_change e (TEnd i r) m m'"

lemma mgr_unchanged: "(\<forall>i r. t \<noteq> TEnd i r) \<Longrightarrow> mgr_change e t m m"
  by (rule mgr_change.same) auto

lemma exec_mgr_change:
  assumes "exec e t s = (s1, k, es)"
  shows "mgr_change e t (cs_mgr s) (cs_mgr s1)"
proof (cases t)
  case (TStartLock cn0 to j now)
  then show ?thesis using assms allowStart_maps(1,2) [of "cn_User cn0" now "cs_mgr s"]
    by (auto simp: start_lock_def Let_def split: if_splits prod.splits intro: mgr_change.same mgr_change.registered)
next
  case (TEnd j r)
  show ?thesis
  proof (cases "m_calls (cs_mgr s) j")
    case None
    with assms TEnd have "s1 = s" by (simp add: end_lock_def)
    with None TEnd show ?thesis by (auto intro: mgr_change.same)
  next
    case (Some c)
    with assms TEnd have "cs_mgr s1 = drop_user (ca_callee c) j (drop_user (ca_caller c) j
        ((cs_mgr s)\<lparr>m_calls := (m_calls (cs_mgr s))(j := None)\<rparr>))"
      by (auto simp: end_lock_def Let_def)
    with Some TEnd show ?thesis by (auto intro: mgr_change.removed)
  qed
next
  case (TAcceptLock cn0 j now l)
  with assms show ?thesis
    by (auto simp: accept_lock_def split: if_splits option.splits intro!: mgr_unchanged mgr_change.updated)
next
  case (TSignal cn0 j d)
  with assms show ?thesis
    by (auto simp: signal_def Let_def split: if_splits option.splits intro!: mgr_unchanged mgr_change.updated)
next
  case (TConnected cn)
  with assms show ?thesis
    by (cases "m_byUser (cs_mgr s) (cn_User cn)")
      (auto simp: Connected_def Let_def split: if_splits option.splits intro!: mgr_unchanged mgr_change.updated)
next
  case (TDisconnected cn)
  with assms show ?thesis
    by (cases "m_byUser (cs_mgr s) (cn_User cn)")
      (auto simp: Disconnected_def Let_def split: if_splits option.splits intro!: mgr_unchanged mgr_change.updated)
qed (use assms in \<open>auto simp: start_checks_def start_busy_def start_ring_def accept_read_def accept_limits_def
    accept_answer_def hangUp_def end_finish_def EndBetween_def Let_def
    split: if_splits option.splits prod.splits intro!: mgr_unchanged\<close>)

lemma mgr_change_ok:
  assumes "mgr_change e t m m'" "calls_ok m" "thread_ok t"
    and "\<And>from to i now. t = TStartLock from to i now \<Longrightarrow> m_calls m i = None"
  shows "calls_ok m'"
  using assms(1)
proof cases
  case same
  with assms(2) show ?thesis by (simp add: calls_ok_def)
next
  case (registered cn0 to i now)
  have "calls_ok (m\<lparr>m_calls := (m_calls m)(i \<mapsto> new_call e cn0 to now), m_byUser := (m_byUser m)(cn_User cn0 \<mapsto> i, to \<mapsto> i)\<rparr>)"
    using registered assms by (intro calls_ok_new) (auto simp: new_call_def)
  with registered show ?thesis by (simp add: calls_ok_def)
next
  case (updated i c c')
  with assms(2) show ?thesis by (auto intro: calls_ok_update)
next
  case (removed i c r)
  with assms(2) show ?thesis by (simp add: drop_users calls_ok_end)
qed


lemma mgr_change_timer:
  assumes "mgr_change e t m m'" "m_calls m' i = Some c'" "ca_timer c' = None"
  shows "(\<forall>r. t \<noteq> TEnd i r) \<and> (\<exists>c. m_calls m i = Some c \<and> ca_timer c = None)"
  using assms by cases (auto simp: new_call_def split: if_splits)

lemma mgr_change_signals:
  assumes "mgr_change e t m m'" "m_calls m' i = Some c'"
  shows "(\<exists>cn to now. t = TStartLock cn to i now) \<or> (\<exists>c. m_calls m i = Some c \<and> ca_signals c u \<le> ca_signals c' u)"
  using assms by cases (auto split: if_splits)

text \<open>Signalling messages relayed for a call on behalf of a user.\<close>

fun is_signal :: "uuid \<Rightarrow> uuid \<Rightarrow> call_effect \<Rightarrow> bool" where
  "is_signal i u (SendToConn _ (CallSignal j v _)) = (i = j \<and> u = v)"
| "is_signal i u _ = False"

definition relayed :: "uuid \<Rightarrow> uuid \<Rightarrow> call_effect list \<Rightarrow> nat" where
  "relayed i u es = length (filter (is_signal i u) es)"

lemma relayed_simps [simp]: "relayed i u [] = 0" "relayed i u (e # es) = (if is_signal i u e then 1 else 0) + relayed i u es"
  "relayed i u (es @ fs) = relayed i u es + relayed i u fs"
  by (simp_all add: relayed_def)

lemma relayed_fail [simp]: "relayed i u (fail c j x) = 0"
  by (simp add: fail_def)

lemma exec_relayed:
  assumes "exec e t s = (s1, k, es)"
  shows "relayed i u es = 0 \<or> relayed i u es = 1 \<and>
    (\<exists>c c'. m_calls (cs_mgr s) i = Some c \<and> m_calls (cs_mgr s1) i = Some c' \<and>
      ca_signals c' u = ca_signals c u + 1 \<and> ca_signals c' u \<le> maxSignals)"
proof (cases t)
  case (TSignal cn0 j d)
  with assms show ?thesis by (auto simp: signal_def Let_def split: if_splits option.splits)
next
  case (TConnected cn)
  with assms show ?thesis
    by (cases "m_byUser (cs_mgr s) (cn_User cn)") (auto simp: Connected_def Let_def split: if_splits option.splits)
next
  case (TDisconnected cn)
  with assms show ?thesis
    by (cases "m_byUser (cs_mgr s) (cn_User cn)") (auto simp: Disconnected_def Let_def split: if_splits option.splits)
qed (use assms in \<open>auto simp: call_sections Let_def split: if_splits option.splits prod.splits\<close>)

section \<open>The invariant of every interleaving\<close>

definition end_coming :: "uuid \<Rightarrow> world \<Rightarrow> bool" where
  "end_coming i w \<longleftrightarrow> (\<exists>r. TEnd i r \<in> set (w_pool w))"

definition world_ok :: "world \<Rightarrow> bool" where
  "world_ok w \<longleftrightarrow> calls_ok (cs_mgr (w_sys w)) \<and> list_all thread_ok (w_pool w) \<and>
     (\<forall>i. weight w i \<le> 1 \<and> (i \<notin> set (w_ids w) \<longrightarrow> weight w i = 0)) \<and>
     (\<forall>i c. m_calls (cs_mgr (w_sys w)) i = Some c \<longrightarrow> ca_timer c \<noteq> None \<or> end_coming i w)"

definition relay_ok :: "world \<Rightarrow> bool" where
  "relay_ok w \<longleftrightarrow> (\<forall>i u. relayed i u (w_out w) \<le> maxSignals \<and>
     (\<forall>c. m_calls (cs_mgr (w_sys w)) i = Some c \<longrightarrow> relayed i u (w_out w) \<le> ca_signals c u) \<and>
     (i \<notin> set (w_ids w) \<longrightarrow> relayed i u (w_out w) = 0) \<and>
     (\<forall>cn to now. TStartLock cn to i now \<in> set (w_pool w) \<longrightarrow> relayed i u (w_out w) = 0))"

lemma world_ok0: "world_ok (world0 log) \<and> relay_ok (world0 log)"
  by (simp add: world_ok_def relay_ok_def world0_def no_calls_def calls_ok_def weight_def c_weight_def)

lemma world_okI:
  assumes "calls_ok (cs_mgr (w_sys w))" "list_all thread_ok (w_pool w)" "\<And>i. weight w i \<le> 1"
    and "\<And>i. i \<notin> set (w_ids w) \<Longrightarrow> weight w i = 0"
    and "\<And>i c. m_calls (cs_mgr (w_sys w)) i = Some c \<Longrightarrow> ca_timer c = None \<Longrightarrow> end_coming i w"
  shows "world_ok w"
  using assms unfolding world_ok_def by blast

lemma world_okD:
  assumes "world_ok w"
  shows "calls_ok (cs_mgr (w_sys w))" "list_all thread_ok (w_pool w)" "weight w i \<le> 1"
    and "i \<notin> set (w_ids w) \<Longrightarrow> weight w i = 0"
    and "m_calls (cs_mgr (w_sys w)) i = Some c \<Longrightarrow> ca_timer c = None \<Longrightarrow> end_coming i w"
  using assms unfolding world_ok_def by blast+

lemma weight_begin: "t_weight i t = 0 \<Longrightarrow> weight (w\<lparr>w_pool := t # w_pool w\<rparr>) i = weight w i"
  by (simp add: weight_def)

lemma weight_fire:
  "m_calls (cs_mgr (w_sys w)) i = Some c \<Longrightarrow>
    weight ((set_call i c' w)\<lparr>w_pool := TEnd i r # w_pool w\<rparr>) j = weight w j"
  by (simp add: weight_def set_call_def c_weight_def)

lemma end_coming_add: "end_coming i w \<Longrightarrow> end_coming i (w\<lparr>w_pool := t # w_pool w\<rparr>)"
  by (auto simp: end_coming_def)

lemma world_ok_begin:
  assumes "world_ok w" "entry t"
  shows "world_ok (w\<lparr>w_pool := t # w_pool w\<rparr>)"
  using world_okD [OF assms(1)] entry_ok [OF assms(2)]
  by (intro world_okI) (simp_all add: weight_begin end_coming_add)

lemma relay_ok_begin:
  assumes "relay_ok w" "entry t"
  shows "relay_ok (w\<lparr>w_pool := t # w_pool w\<rparr>)"
  using assms by (cases t) (auto simp: relay_ok_def)

lemma world_ok_fire:
  assumes "world_ok w" "m_calls (cs_mgr (w_sys w)) i = Some c"
    and "ca_caller c' = ca_caller c" "ca_callee c' = ca_callee c"
  shows "world_ok ((set_call i c' w)\<lparr>w_pool := TEnd i r # w_pool w\<rparr>)"
proof (rule world_okI)
  show "calls_ok (cs_mgr (w_sys ((set_call i c' w)\<lparr>w_pool := TEnd i r # w_pool w\<rparr>)))"
    using calls_ok_update [OF world_okD(1) [OF assms(1)] assms(2-4)] by (simp add: set_call_def)
  fix j d
  assume "m_calls (cs_mgr (w_sys ((set_call i c' w)\<lparr>w_pool := TEnd i r # w_pool w\<rparr>))) j = Some d" "ca_timer d = None"
  then show "end_coming j ((set_call i c' w)\<lparr>w_pool := TEnd i r # w_pool w\<rparr>)"
    using world_okD(5) [OF assms(1)] by (cases "j = i") (auto simp: set_call_def end_coming_def)
next
  fix j
  assume "j \<notin> set (w_ids ((set_call i c' w)\<lparr>w_pool := TEnd i r # w_pool w\<rparr>))"
  then show "weight ((set_call i c' w)\<lparr>w_pool := TEnd i r # w_pool w\<rparr>) j = 0"
    using world_okD(4) [OF assms(1)] by (simp add: weight_fire [OF assms(2)]) (simp add: set_call_def)
qed (use world_okD(2,3) [OF assms(1)] in \<open>simp_all add: weight_fire [OF assms(2)]\<close>)

lemma relay_ok_fire:
  assumes "relay_ok w" "m_calls (cs_mgr (w_sys w)) i = Some c" "ca_signals c' = ca_signals c"
  shows "relay_ok ((set_call i c' w)\<lparr>w_pool := TEnd i r # w_pool w\<rparr>)"
  using assms by (auto simp: relay_ok_def set_call_def split: if_splits)

text \<open>One section of one thread, run in a good world.\<close>

definition ran :: "world \<Rightarrow> calls_env \<Rightarrow> thread \<Rightarrow> calls_sys \<Rightarrow> thread option \<Rightarrow> call_effect list \<Rightarrow> world \<Rightarrow> bool" where
  "ran w e t s1 k es w' \<longleftrightarrow> exec e t (w_sys w) = (s1, k, es) \<and> world_ok w \<and> t \<in> set (w_pool w) \<and>
     set (new_ids e t) \<inter> set (w_ids w) = {} \<and>
     (\<exists>xs ys. w_pool w = xs @ t # ys \<and> w' = \<lparr>w_sys = s1,
        w_pool = xs @ (case k of None \<Rightarrow> [] | Some t1 \<Rightarrow> [t1]) @ ys,
        w_ids = new_ids e t @ w_ids w, w_out = w_out w @ es\<rparr>)"

lemma ranD:
  assumes "ran w e t s1 k es w'"
  shows "exec e t (w_sys w) = (s1, k, es)" "world_ok w" "t \<in> set (w_pool w)" "set (new_ids e t) \<inter> set (w_ids w) = {}"
    and "w_sys w' = s1" "w_ids w' = new_ids e t @ w_ids w" "w_out w' = w_out w @ es"
    and "set (w_pool w') \<subseteq> set (w_pool w) \<union> set_option k" "set (w_pool w) \<subseteq> insert t (set (w_pool w'))"
    and "sum_list (map (t_weight i) (w_pool w')) + t_weight i t = sum_list (map (t_weight i) (w_pool w)) + k_weight i k"
  using assms by (auto simp: ran_def split: option.splits)

lemma starting_not_open:
  assumes "world_ok w" "TStartLock cn to i now \<in> set (w_pool w)"
  shows "m_calls (cs_mgr (w_sys w)) i = None"
proof -
  from split_list [OF assms(2)] obtain as bs where "w_pool w = as @ TStartLock cn to i now # bs" by blast
  then have "c_weight i (w_sys w) + 1 \<le> weight w i" by (simp add: weight_def)
  with world_okD(3) [OF assms(1), of i] show ?thesis by (auto simp: c_weight_def split: if_splits)
qed

lemma open_known:
  assumes "world_ok w" "i \<notin> set (w_ids w)"
  shows "m_calls (cs_mgr (w_sys w)) i = None"
  using world_okD(4) [OF assms] by (auto simp: weight_def c_weight_def split: if_splits)

lemma ran_weight:
  assumes "ran w e t s1 k es w'"
  shows "weight w' i \<le> 1 \<and> (i \<notin> set (w_ids w') \<longrightarrow> weight w' i = 0)"
proof -
  have "weight w' i \<le> weight w i + (if i \<in> set (new_ids e t) then 1 else 0)"
    using exec_weight [OF ranD(1) [OF assms], of i] ranD(10) [OF assms, of i]
    by (simp add: weight_def ranD(5,7) [OF assms])
  moreover have "weight w i = 0" if "i \<in> set (new_ids e t)"
    using ranD(2,4) [OF assms] that by (intro world_okD(4)) auto
  ultimately show ?thesis
    using world_okD(3,4) [OF ranD(2) [OF assms], of i] by (cases "i \<in> set (new_ids e t)") (auto simp: ranD(6) [OF assms])
qed

lemma ran_world_ok:
  assumes "ran w e t s1 k es w'"
  shows "world_ok w'"
proof (rule world_okI)
  note change = exec_mgr_change [OF ranD(1) [OF assms]]
  note ok = world_okD [OF ranD(2) [OF assms]]
  have "thread_ok t" using ok(2) ranD(3) [OF assms] by (simp add: list_all_iff)
  then show "calls_ok (cs_mgr (w_sys w'))"
    using mgr_change_ok [OF change ok(1)] starting_not_open [OF ranD(2) [OF assms]] ranD(3) [OF assms]
    by (auto simp: ranD(5) [OF assms])
  show "list_all thread_ok (w_pool w')"
    using ok(2) exec_thread_ok ranD(1) [OF assms] ranD(8) [OF assms] by (cases k) (auto simp: list_all_iff)
  fix i c'
  assume c': "m_calls (cs_mgr (w_sys w')) i = Some c'" "ca_timer c' = None"
  from mgr_change_timer [OF change c' [unfolded ranD(5) [OF assms]]] ok(5)
  have "end_coming i w" "\<forall>r. t \<noteq> TEnd i r" by blast+
  then show "end_coming i w'" using ranD(9) [OF assms] by (auto simp: end_coming_def)
qed (use ran_weight [OF assms] in blast)+

lemma exec_starting: "exec e t s = (s1, Some (TStartLock cn to i now), es) \<Longrightarrow> i \<in> set (new_ids e t)"
  by (cases t) (auto simp: call_sections Let_def split: if_splits option.splits prod.splits)

lemma relay_okD:
  assumes "relay_ok w"
  shows "relayed i u (w_out w) \<le> maxSignals"
    and "m_calls (cs_mgr (w_sys w)) i = Some c \<Longrightarrow> relayed i u (w_out w) \<le> ca_signals c u"
    and "i \<notin> set (w_ids w) \<Longrightarrow> relayed i u (w_out w) = 0"
    and "TStartLock cn to i now \<in> set (w_pool w) \<Longrightarrow> relayed i u (w_out w) = 0"
  using assms unfolding relay_ok_def by blast+

lemma relayed_open:
  assumes "exec e t s = (s1, k, es)" "m_calls (cs_mgr s) i = None"
  shows "relayed i u es = 0"
  using exec_relayed [OF assms(1), of i u] assms(2) by auto

lemma ran_relayed_open:
  assumes "ran w e t s1 k es w'" "relay_ok w" "m_calls (cs_mgr s1) i = Some c'"
  shows "relayed i u (w_out w') \<le> ca_signals c' u"
proof (cases "m_calls (cs_mgr (w_sys w)) i")
  case None
  with mgr_change_signals [OF exec_mgr_change [OF ranD(1) [OF assms(1)]] assms(3), of u]
  obtain cn to now where "TStartLock cn to i now \<in> set (w_pool w)" using ranD(3) [OF assms(1)] by auto
  then have "relayed i u (w_out w) = 0" by (rule relay_okD(4) [OF assms(2)])
  with relayed_open [OF ranD(1) [OF assms(1)] None] show ?thesis by (simp add: ranD(7) [OF assms(1)])
next
  case (Some c)
  have out: "relayed i u (w_out w) \<le> ca_signals c u" by (rule relay_okD(2) [OF assms(2) Some])
  show ?thesis
  proof (cases "relayed i u es = 0")
    case True
    from mgr_change_signals [OF exec_mgr_change [OF ranD(1) [OF assms(1)]] assms(3), of u]
    have "ca_signals c u \<le> ca_signals c' u"
    proof
      assume "\<exists>cn to now. t = TStartLock cn to i now"
      with starting_not_open [OF ranD(2) [OF assms(1)]] ranD(3) [OF assms(1)] Some show ?thesis by auto
    qed (use Some in auto)
    with True out show ?thesis by (simp add: ranD(7) [OF assms(1)])
  next
    case False
    with exec_relayed [OF ranD(1) [OF assms(1)], of i u] Some assms(3)
    have "relayed i u es = 1" "ca_signals c' u = ca_signals c u + 1" by auto
    with out show ?thesis by (simp add: ranD(7) [OF assms(1)])
  qed
qed

lemma ran_relayed_bound:
  assumes "ran w e t s1 k es w'" "relay_ok w"
  shows "relayed i u (w_out w') \<le> maxSignals"
proof (cases "relayed i u es = 0")
  case True
  with relay_okD(1) [OF assms(2)] show ?thesis by (simp add: ranD(7) [OF assms(1)])
next
  case False
  with exec_relayed [OF ranD(1) [OF assms(1)], of i u]
  obtain c' where "m_calls (cs_mgr s1) i = Some c'" "ca_signals c' u \<le> maxSignals" by auto
  with ran_relayed_open [OF assms, of i c' u] show ?thesis by simp
qed

lemma ran_relay_ok:
  assumes "ran w e t s1 k es w'" "relay_ok w"
  shows "relay_ok w'"
proof -
  note [simp] = ranD(5,6,7) [OF assms(1)]
  note r = relay_okD [OF assms(2)] and run = ranD(1) [OF assms(1)] and ok = ranD(2) [OF assms(1)]
  have fresh: "relayed i u (w_out w @ es) = 0" if "i \<notin> set (w_ids w)" for i u
    using r(3) [OF that] relayed_open [OF run open_known [OF ok that]] by simp
  have starting: "relayed i u (w_out w @ es) = 0" if st: "TStartLock cn to i now \<in> set (w_pool w')" for i u cn to now
  proof (cases "TStartLock cn to i now \<in> set (w_pool w)")
    case True
    with r(4) relayed_open [OF run starting_not_open [OF ok True]] show ?thesis by simp
  next
    case False
    with st ranD(8) [OF assms(1)] have "k = Some (TStartLock cn to i now)" by (cases k) auto
    with run exec_starting have "i \<in> set (new_ids e t)" by blast
    with ranD(4) [OF assms(1)] have "i \<notin> set (w_ids w)" by auto
    then show ?thesis by (rule fresh)
  qed
  show ?thesis
    using ran_relayed_bound [OF assms] ran_relayed_open [OF assms] fresh starting
    unfolding relay_ok_def by simp
qed

lemma wstep_ok:
  assumes "wstep w w'" "world_ok w" "relay_ok w"
  shows "world_ok w' \<and> relay_ok w'"
  using assms(1)
proof cases
  case (begin_thread t)
  with assms world_ok_begin relay_ok_begin show ?thesis by blast
next
  case (run_section xs t ys e s1 k es)
  then have "ran w e t s1 k es w'" using assms(2) unfolding ran_def by auto
  from ran_world_ok [OF this] ran_relay_ok [OF this assms(3)] show ?thesis by simp
next
  case (fire_timer i c at reason now)
  with assms show ?thesis by (auto intro: world_ok_fire relay_ok_fire)
next
  case (fire_lost i c u at now)
  with assms show ?thesis by (auto intro: world_ok_fire relay_ok_fire)
qed

lemma reachable_ok: "reachable w \<Longrightarrow> world_ok w \<and> relay_ok w"
  by (induction rule: reachable.induct) (use world_ok0 wstep_ok in blast)+

end
