(* ===== verification/Calls_Properties.thy ===== *)
theory Calls_Properties
  imports Calls_Safety
begin

text \<open>
  The properties of calls that follow from the invariant of every interleaving, for methods
  run one at a time, and what the friends service means for who is rung.
\<close>

section \<open>Methods finish, and running one alone is one of the interleavings\<close>

fun rank :: "thread \<Rightarrow> nat" where
  "rank (TAccept _ _) = 4"
| "rank (TAcceptLimits _ _ _ _) = 3"
| "rank (TStart _ _) = 3"
| "rank (THangUp _ _) = 3"
| "rank (TDisconnected _) = 3"
| "rank (TEndBetween _ _) = 3"
| "rank (TStartLock _ _ _ _) = 2"
| "rank (TAcceptLock _ _ _ _) = 2"
| "rank (TEnd _ _) = 2"
| "rank _ = 1"

lemma exec_rank: "exec e t s = (s1, Some t1, es) \<Longrightarrow> rank t1 < rank t"
  by (cases t) (auto simp: call_sections Let_def split: if_splits option.splits prod.splits)

lemma rank_bounds: "0 < rank t \<and> rank t \<le> 4"
  by (cases t) auto

lemma exec_no_new: "exec e t s = (s1, Some t1, es) \<Longrightarrow> new_ids e1 t1 = []"
  by (cases t) (auto simp: call_sections Let_def split: if_splits option.splits prod.splits)

lemma reachable_run_thread:
  assumes "reachable w" "w_pool w = t # ys" "set (new_ids e t) \<inter> set (w_ids w) = {}"
    and "rank t \<le> n" "run_thread n e t (w_sys w) = (s', es')"
  shows "reachable \<lparr>w_sys = s', w_pool = ys, w_ids = new_ids e t @ w_ids w, w_out = w_out w @ es'\<rparr>"
  using assms
proof (induction n arbitrary: w t s' es')
  case 0
  with rank_bounds [of t] show ?case by simp
next
  case (Suc n)
  obtain s1 k es where ex: "exec e t (w_sys w) = (s1, k, es)" by (cases "exec e t (w_sys w)") auto
  let ?w = "\<lparr>w_sys = s1, w_pool = [] @ (case k of None \<Rightarrow> [] | Some t1 \<Rightarrow> [t1]) @ ys,
      w_ids = new_ids e t @ w_ids w, w_out = w_out w @ es\<rparr>"
  have "wstep w ?w" using Suc.prems(2,3) ex by (intro wstep.run_section) auto
  with Suc.prems(1) have w: "reachable ?w" by (rule reachable.step)
  show ?case
  proof (cases k)
    case None
    with w Suc.prems(5) ex show ?thesis by simp
  next
    case (Some t1)
    from ex Some exec_no_new exec_rank have t1: "new_ids e t1 = []" "rank t1 < rank t" by blast+
    obtain s2 fs where r: "run_thread n e t1 s1 = (s2, fs)" by fastforce
    with Suc.prems(5) ex Some have "s' = s2" "es' = es @ fs" by auto
    with Suc.IH [OF w, of t1 s2 fs] t1 Suc.prems(4) r Some show ?thesis by simp
  qed
qed

lemma complete_run: "complete e t s = run_thread (Suc (Suc (Suc (Suc (Suc 0))))) e t s"
  by (simp add: complete_def numeral_eq_Suc)

lemma complete_reachable:
  assumes "reachable w" "w_pool w = []" "entry t" "set (new_ids e t) \<inter> set (w_ids w) = {}"
  shows "reachable \<lparr>w_sys = fst (complete e t (w_sys w)), w_pool = [], w_ids = new_ids e t @ w_ids w,
    w_out = w_out w @ snd (complete e t (w_sys w))\<rparr>"
proof -
  have "reachable (w\<lparr>w_pool := [t]\<rparr>)"
    using reachable.step [OF assms(1) wstep.begin_thread [OF assms(3)]] assms(2) by simp
  moreover have "rank t \<le> 5" using rank_bounds [of t] by simp
  ultimately show ?thesis
    using reachable_run_thread [of "w\<lparr>w_pool := [t]\<rparr>" t "[]" e 5] assms(4)
    by (simp add: complete_def)
qed

text \<open>A friendly surrounding, and a call from 1 to 2 that is ringing in it.\<close>

definition easy :: "time \<Rightarrow> uuid \<Rightarrow> calls_env" where
  "easy now i = \<lparr>ce_ring = RingTimeout, ce_grace = ReconnectGrace, ce_daily = 0, ce_notify = True, ce_now = now,
     ce_uuid = i, ce_friends = (\<lambda>_ _. Some True), ce_online = (\<lambda>_. True), ce_fails = (\<lambda>_. False), ce_valid = (\<lambda>_. True)\<rparr>"

lemma easy_simps [simp]:
  "ce_ring (easy now i) = RingTimeout" "ce_grace (easy now i) = ReconnectGrace" "ce_daily (easy now i) = 0"
  "ce_notify (easy now i)" "ce_now (easy now i) = now" "ce_uuid (easy now i) = i"
  "ce_friends (easy now i) a b = Some True" "ce_online (easy now i) a" "\<not> ce_fails (easy now i) c" "ce_valid (easy now i) d"
  by (simp_all add: easy_def)

definition phone :: "uuid \<Rightarrow> uuid \<Rightarrow> Conn" where
  "phone u d = \<lparr>cn_User = u, cn_ID = d\<rparr>"

lemma phone_simps [simp]: "cn_User (phone u d) = u" "cn_ID (phone u d) = d"
  by (simp_all add: phone_def)

definition ringing_call :: call where
  "ringing_call = new_call (easy 0 9) (phone 1 11) 2 0"

definition ringing_sys :: calls_sys where
  "ringing_sys = \<lparr>cs_mgr = \<lparr>m_calls = [9 \<mapsto> ringing_call], m_byUser = [1 \<mapsto> 9, 2 \<mapsto> 9], m_starts = [(1, [0])]\<rparr>,
     cs_log = [ringing_row 9 1 2 0]\<rparr>"

lemma ringing_example:
  "complete (easy 0 9) (TStart (phone 1 11) 2) (no_calls []) =
    (ringing_sys, [SendToConn (phone 1 11) (CallRinging 9 2), CallToUsers [2] (CallIncoming 9 1)])"
  by (simp add: complete_run hour_def no_calls_def start_checks_def remaining_def MaxDuration_def
      start_lock_def allowStart_def starts_of_def recent_def startsPerMinute_def Let_def start_ring_def
      log_insert_def InsertCall_def ringing_sys_def ringing_call_def exists_row_def)

definition ringing_world :: world where
  "ringing_world = \<lparr>w_sys = ringing_sys, w_pool = [], w_ids = [9],
     w_out = [SendToConn (phone 1 11) (CallRinging 9 2), CallToUsers [2] (CallIncoming 9 1)]\<rparr>"

lemma ringing_reachable: "reachable ringing_world"
  using complete_reachable [OF reachable.initial [of "[]"], of "TStart (phone 1 11) 2" "easy 0 9"]
  by (simp add: world0_def ringing_example ringing_world_def)

lemma ringing_simps [simp]:
  "m_calls (cs_mgr ringing_sys) = [9 \<mapsto> ringing_call]" "m_byUser (cs_mgr ringing_sys) = [1 \<mapsto> 9, 2 \<mapsto> 9]"
  "w_sys ringing_world = ringing_sys" "w_pool ringing_world = []"
  "ca_caller ringing_call = 1" "ca_callee ringing_call = 2" "\<not> ca_active ringing_call"
  "ca_callerConn ringing_call = 11" "ca_timer ringing_call = Some (RingTimeout, ReasonMissed)"
  by (simp_all add: ringing_sys_def ringing_world_def ringing_call_def new_call_def)

section \<open>One call per person\<close>

text \<open>
  C8: Nobody is ever in two calls, however events, timers and disconnections interleave: in
  every reachable state the index by user finds a call exactly for the parties of the open calls, and
  there the call they are in; the two parties of a call differ, and two open calls have four different
  parties.
\<close>

theorem nobody_in_two_calls:
  assumes "reachable w"
  shows "(\<forall>u i. m_byUser (cs_mgr (w_sys w)) u = Some i \<longleftrightarrow>
      (\<exists>c. m_calls (cs_mgr (w_sys w)) i = Some c \<and> (u = ca_caller c \<or> u = ca_callee c))) \<and>
    (\<forall>i c. m_calls (cs_mgr (w_sys w)) i = Some c \<longrightarrow> ca_caller c \<noteq> ca_callee c) \<and>
    (\<forall>i c j d. m_calls (cs_mgr (w_sys w)) i = Some c \<and> m_calls (cs_mgr (w_sys w)) j = Some d \<and> j \<noteq> i \<longrightarrow>
      {ca_caller c, ca_callee c} \<inter> {ca_caller d, ca_callee d} = {})"
proof -
  have ok: "calls_ok (cs_mgr (w_sys w))" using reachable_ok [OF assms(1)] by (simp add: world_ok_def)
  note calls_okD [OF ok]
  moreover have "m_byUser (cs_mgr (w_sys w)) u = Some i \<longleftrightarrow>
      (\<exists>c. m_calls (cs_mgr (w_sys w)) i = Some c \<and> (u = ca_caller c \<or> u = ca_callee c))" for u i
    using calls_ok_byUser [OF ok, of u i] calls_okD(2,3) [OF ok, of i] by auto
  ultimately show ?thesis by auto (metis option.inject)+
qed

theorem nobody_in_two_calls_witness:
  "(\<forall>u i. m_byUser (cs_mgr (w_sys ringing_world)) u = Some i \<longleftrightarrow> i = 9 \<and> (u = 1 \<or> u = 2)) \<and> ca_caller ringing_call \<noteq> ca_callee ringing_call"
proof -
  note calls = nobody_in_two_calls [OF ringing_reachable]
  have "ca_caller ringing_call \<noteq> ca_callee ringing_call" using calls by force
  with calls show ?thesis by (auto split: if_splits)
qed

text \<open>
  C38: no call can stay open for ever: in every reachable state each open call has a running
  timer that will end it or an end already under way, and whichever end comes frees both
  parties and goes on to tell both.
\<close>

theorem every_call_ends:
  assumes "reachable w" "m_calls (cs_mgr (w_sys w)) i = Some c"
  shows "((\<exists>at reason. ca_timer c = Some (at, reason)) \<or> (\<exists>r. TEnd i r \<in> set (w_pool w))) \<and>
    (let (s1, es) = complete e (TEnd i reason) (w_sys w) in
      m_calls (cs_mgr s1) i = None \<and> m_byUser (cs_mgr s1) (ca_caller c) = None \<and>
      m_byUser (cs_mgr s1) (ca_callee c) = None \<and>
      (\<exists>d. CallToUsers [ca_caller c, ca_callee c] (CallEnded i reason d) \<in> set es))"
proof -
  have ok: "world_ok w" using reachable_ok [OF assms(1)] by simp
  have "(\<exists>at reason. ca_timer c = Some (at, reason)) \<or> (\<exists>r. TEnd i r \<in> set (w_pool w))"
    using world_okD(5) [OF ok assms(2)] by (cases "ca_timer c") (auto simp: end_coming_def)
  moreover have "drop_user (ca_callee c) i (drop_user (ca_caller c) i ((cs_mgr (w_sys w))\<lparr>m_calls := f\<rparr>)) =
      (cs_mgr (w_sys w))\<lparr>m_calls := f, m_byUser := (m_byUser (cs_mgr (w_sys w)))(ca_caller c := None, ca_callee c := None)\<rparr>" for f
    by (rule drop_users [OF world_okD(1) [OF ok] assms(2)])
  ultimately show ?thesis
    using assms(2) by (auto simp: complete_run end_lock_def Let_def end_finish_def)
qed

theorem every_call_ends_witness:
  "m_calls (cs_mgr (fst (complete (easy 50 0) (TEnd 9 ReasonMissed) (w_sys ringing_world)))) 9 = None"
  using every_call_ends [OF ringing_reachable, of 9 ringing_call "easy 50 0" ReasonMissed]
  by (simp add: case_prod_beta Let_def)

text \<open>
  The end of a call is announced to its two parties at most once, even when hang-ups,
  timers and disconnections race, and never while the call is open.
\<close>

theorem call_ends_once:
  assumes "reachable w"
  shows "ends i (w_out w) \<le> 1 \<and> (m_calls (cs_mgr (w_sys w)) i \<noteq> None \<longrightarrow> ends i (w_out w) = 0)"
proof -
  have "weight w i \<le> 1" using reachable_ok [OF assms] by (simp add: world_ok_def)
  then show ?thesis by (auto simp: weight_def c_weight_def split: if_splits)
qed

theorem call_ends_once_witness: "ends 9 (w_out ringing_world) \<le> 1"
  using call_ends_once [OF ringing_reachable] by blast

text \<open>
  Over the whole life of a call at most \<^verbatim>\<open>maxSignals\<close> signalling messages of each side are
  relayed, across all reconnections of its devices.
\<close>

theorem signals_bounded:
  assumes "reachable w"
  shows "relayed i u (w_out w) \<le> 500"
  using reachable_ok [OF assms] by (simp add: relay_ok_def maxSignals_def)

theorem signals_bounded_witness: "relayed 9 1 (w_out ringing_world) \<le> 500"
  by (rule signals_bounded [OF ringing_reachable])

text \<open>
  Signalling stays between the two devices of an answered call: whatever section runs
  in whatever reachable state, a relayed message comes from the device registered for its
  sender and goes to the device registered for the other party.
\<close>

theorem signals_stay_in_the_call:
  assumes "reachable w" "exec e t (w_sys w) = (s1, k, es)" "SendToConn to (CallSignal i u d) \<in> set es"
  shows "\<exists>c. m_calls (cs_mgr (w_sys w)) i = Some c \<and> ca_active c \<and> (u = ca_caller c \<or> u = ca_callee c) \<and>
    t = TSignal \<lparr>cn_User = u, cn_ID = conn c u\<rparr> i d \<and>
    to = \<lparr>cn_User = peer c u, cn_ID = conn c (peer c u)\<rparr> \<and> cn_User to \<noteq> u"
proof -
  have ok: "calls_ok (cs_mgr (w_sys w))" using reachable_ok [OF assms(1)] by (simp add: world_ok_def)
  have sig: "\<exists>from. t = TSignal from i d \<and> cn_User from = u"
  proof (cases t)
    case (TConnected cn)
    with assms(2,3) show ?thesis
      by (cases "m_byUser (cs_mgr (w_sys w)) (cn_User cn)") (auto simp: Connected_def Let_def split: if_splits option.splits)
  next
    case (TDisconnected cn)
    with assms(2,3) show ?thesis
      by (cases "m_byUser (cs_mgr (w_sys w)) (cn_User cn)") (auto simp: Disconnected_def Let_def split: if_splits option.splits)
  qed (use assms(2,3) in \<open>auto simp: call_sections fail_def Let_def split: if_splits option.splits prod.splits\<close>)
  then obtain cn where t: "t = TSignal cn i d" "cn_User cn = u" by blast
  with assms(2,3) obtain c where c: "m_calls (cs_mgr (w_sys w)) i = Some c" "ca_active c"
    "u = ca_caller c \<or> u = ca_callee c" "conn c u = cn_ID cn"
    "to = \<lparr>cn_User = peer c u, cn_ID = conn c (peer c u)\<rparr>"
    by (auto simp: signal_def fail_def Let_def split: if_splits option.splits)
  moreover have "peer c u \<noteq> u" using calls_okD(1) [OF ok c(1)] c(3) by (auto simp: peer_def)
  ultimately show ?thesis using t by auto
qed


text \<open>The call of \<open>ringing_world\<close>, answered by the device 22 of its callee.\<close>

definition answered_call :: call where
  "answered_call = ringing_call\<lparr>ca_active := True, ca_calleeConn := 22, ca_answered := 3,
     ca_timer := Some (3 + MaxDuration, ReasonEnded)\<rparr>"

definition answered_sys :: calls_sys where
  "answered_sys = \<lparr>cs_mgr = \<lparr>m_calls = [9 \<mapsto> answered_call], m_byUser = [1 \<mapsto> 9, 2 \<mapsto> 9], m_starts = [(1, [0])]\<rparr>,
     cs_log = [(ringing_row 9 1 2 0)\<lparr>cl_state := ''active'', cl_answered_at := Some (ts 3)\<rparr>]\<rparr>"

lemma MaxDuration_pos: "\<not> MaxDuration \<le> 0"
  by (simp add: MaxDuration_def hour_def)

lemma answer_example:
  "complete (easy 3 0) (TAccept (phone 2 22) 9) ringing_sys =
    (answered_sys, [SendToConn (phone 1 11) (CallAccepted 9), CallToUserExcept 2 22 (CallEnded 9 ReasonElsewhere 0)])"
  by (simp add: complete_run accept_read_def accept_limits_def remaining_def MaxDuration_pos accept_lock_def
      accept_answer_def Let_def answered_sys_def answered_call_def)
    (simp add: ringing_sys_def AnswerCall_def update_rows_def ringing_row_def phone_def)

definition answered_world :: world where
  "answered_world = \<lparr>w_sys = answered_sys, w_pool = [], w_ids = [9], w_out = w_out ringing_world @
     [SendToConn (phone 1 11) (CallAccepted 9), CallToUserExcept 2 22 (CallEnded 9 ReasonElsewhere 0)]\<rparr>"

lemma answered_reachable: "reachable answered_world"
  using complete_reachable [OF ringing_reachable, of "TAccept (phone 2 22) 9" "easy 3 0"]
  by (simp add: answer_example answered_world_def) (simp add: ringing_world_def)

lemma answered_simps [simp]:
  "m_calls (cs_mgr answered_sys) = [9 \<mapsto> answered_call]" "m_byUser (cs_mgr answered_sys) = [1 \<mapsto> 9, 2 \<mapsto> 9]"
  "w_sys answered_world = answered_sys" "w_pool answered_world = []"
  "ca_caller answered_call = 1" "ca_callee answered_call = 2" "ca_active answered_call"
  "ca_callerConn answered_call = 11" "ca_calleeConn answered_call = 22" "ca_lost answered_call = Map.empty"
  "ca_signals answered_call = (\<lambda>_. 0)"
  by (simp_all add: answered_sys_def answered_world_def answered_call_def ringing_call_def new_call_def)

theorem signals_stay_in_the_call_witness:
  "\<exists>s1. exec (easy 4 0) (TSignal (phone 1 11) 9 [7]) answered_sys = (s1, None, [SendToConn (phone 2 22) (CallSignal 9 1 [7])]) \<and>
    cn_User (phone 2 22) \<noteq> 1"
proof -
  obtain s1 where s1: "exec (easy 4 0) (TSignal (phone 1 11) 9 [7]) (w_sys answered_world) =
      (s1, None, [SendToConn (phone 2 22) (CallSignal 9 1 [7])])"
    by (simp add: signal_def maxSignalBytes_def conn_def peer_def maxSignals_def Let_def phone_def)
  from signals_stay_in_the_call [OF answered_reachable this, of "phone 2 22" 9 1 "[7]"]
  have "cn_User (phone 2 22) \<noteq> 1" by (simp only: list.set insert_iff) blast
  with s1 show ?thesis by simp
qed

section \<open>Who may be rung\<close>

lemma TStart_rings:
  assumes "CallToUsers [v] (CallIncoming i u) \<in> set (snd (complete e (TStart from to) s))"
  shows "u = cn_User from \<and> v = to \<and> to \<noteq> cn_User from \<and> ce_friends e (cn_User from) to = Some True \<and>
    m_byUser (cs_mgr s) (cn_User from) = None \<and> m_byUser (cs_mgr s) to = None \<and>
    (\<exists>left. remaining e (cn_User from) (ce_now e) (cs_log s) = Some left \<and> 0 < left)"
proof (cases "snd (snd (exec e (TStart from to) s)) = []")
  case False
  with assms show ?thesis
    by (auto simp: complete_run start_checks_def fail_def split: if_splits option.splits)
next
  case True
  then have ok: "to \<noteq> cn_User from" "ce_friends e (cn_User from) to = Some True"
    "\<exists>left. remaining e (cn_User from) (ce_now e) (cs_log s) = Some left \<and> 0 < left"
    "exec e (TStart from to) s = (s, Some (TStartLock from to (ce_uuid e) (ce_now e)), [])"
    by (auto simp: start_checks_def fail_def split: if_splits option.splits)
  obtain b m where m: "allowStart (cn_User from) (ce_now e) (cs_mgr s) = (b, m)" by fastforce
  then have "m_byUser m = m_byUser (cs_mgr s)"
    using allowStart_maps(2) [of "cn_User from" "ce_now e" "cs_mgr s"] by simp
  with assms ok m show ?thesis
    by (auto simp: complete_run start_lock_def start_busy_def start_ring_def fail_def Let_def
        simp del: exec.simps(1) split: if_splits option.splits)
qed

context friend_checker begin

lemma only_friends_rung:
  assumes "ok f" "ce_friends e = (\<lambda>a b. answer_of (ask f a b))"
    and "CallToUsers [v] (CallIncoming i u) \<in> set (snd (complete e (TStart from to) s))"
  shows "truth f u v"
  using TStart_rings [OF assms(3)] answer_true [OF assms(1)] assms(2) by auto

end

text \<open>
  Calls on top of friends: a phone rings only for a call from somebody who is, in
  Postgres, a friend of its user and is not blocked by either, with both free and the caller
  within today's limit.
\<close>

theorem only_friends_are_rung:
  assumes "friends_inv (fs_db f)" "lists_current (fe_coll fe) f"
    and "ce_friends e = (\<lambda>a b. answer_of (AreFriends fe a b f))"
    and "CallToUsers [v] (CallIncoming i u) \<in> set (snd (complete e (TStart from to) s))"
  shows "are_friends_db u v (fs_db f) \<and> \<not> blocks_db u v (fs_db f) \<and> \<not> blocks_db v u (fs_db f) \<and>
    m_byUser (cs_mgr s) u = None \<and> m_byUser (cs_mgr s) v = None \<and>
    (\<exists>left. remaining e u (ce_now e) (cs_log s) = Some left \<and> 0 < left)"
proof -
  have "are_friends_db u v (fs_db f)" using fr.only_friends_rung [OF _ assms(3,4)] assms(1,2) by blast
  with friends_not_blocked [OF assms(1)] TStart_rings [OF assms(4)] show ?thesis by simp
qed

theorem only_friends_are_rung_witness:
  "are_friends_db 1 2 (fs_db befriended) \<and> \<not> blocks_db 2 1 (fs_db befriended)"
proof -
  let ?e = "(easy 0 9)\<lparr>ce_friends := \<lambda>a b. answer_of (AreFriends (calm 9) a b befriended)\<rparr>"
  have "ce_friends ?e 1 2 = Some True" using befriended_answer by (auto simp: answer_of_def)
  then have "CallToUsers [2] (CallIncoming 9 1) \<in> set (snd (complete ?e (TStart (phone 1 11) 2) (no_calls [])))"
    by (simp add: complete_run hour_def no_calls_def start_checks_def remaining_def MaxDuration_def
      start_lock_def allowStart_def starts_of_def recent_def startsPerMinute_def Let_def start_ring_def)
  from only_friends_are_rung [OF befriended_ok(1) _ _ this, of "calm 9"] befriended_ok(2) show ?thesis by simp
qed

end
