(* ===== verification/Calls_Log.thy ===== *)
theory Calls_Log
  imports Calls_Properties
begin

text \<open>
  The call log of \<^verbatim>\<open>internal/calls\<close>: with methods that run one after the other it is a
  picture of the manager's state, and what can go wrong in it and in a call when methods,
  timers and the friends service overlap.
\<close>

section \<open>The log, for methods that do not overlap\<close>

text \<open>
  The log agrees with the manager: one row per id, an open call's row is the picture of the
  call, and every other row is finished.
\<close>

definition row_of :: "uuid \<Rightarrow> call \<Rightarrow> call_row" where
  "row_of i c = \<lparr>cl_id = i, cl_caller_id = pgUUID (ca_caller c), cl_callee_id = pgUUID (ca_callee c),
     cl_state = (if ca_active c then ''active'' else ''ringing''), cl_end_reason = None,
     cl_started_at = ts (ca_started c), cl_answered_at = (if ca_active c then Some (ts (ca_answered c)) else None),
     cl_ended_at = None\<rparr>"

definition log_agrees :: "calls_sys \<Rightarrow> bool" where
  "log_agrees s \<longleftrightarrow> calls_ok (cs_mgr s) \<and> distinct (map cl_id (cs_log s)) \<and>
     (\<forall>i c. m_calls (cs_mgr s) i = Some c \<longrightarrow> row_of i c \<in> set (cs_log s)) \<and>
     (\<forall>r \<in> set (cs_log s). m_calls (cs_mgr s) (cl_id r) = None \<longrightarrow> cl_ended_at r \<noteq> None)"

lemma log_agreesD:
  assumes "log_agrees s"
  shows "calls_ok (cs_mgr s)" "distinct (map cl_id (cs_log s))"
    and "m_calls (cs_mgr s) i = Some c \<Longrightarrow> row_of i c \<in> set (cs_log s)"
    and "r \<in> set (cs_log s) \<Longrightarrow> m_calls (cs_mgr s) (cl_id r) = None \<Longrightarrow> cl_ended_at r \<noteq> None"
  using assms unfolding log_agrees_def by blast+

lemma row_of_simps [simp]: "cl_id (row_of i c) = i" "cl_ended_at (row_of i c) = None"
  by (simp_all add: row_of_def)

lemma log_agrees_unique:
  assumes "log_agrees s" "m_calls (cs_mgr s) i = Some c" "r \<in> set (cs_log s)" "cl_id r = i"
  shows "r = row_of i c"
proof -
  have "row_of i c \<in> set (cs_log s)" by (rule log_agreesD(3) [OF assms(1,2)])
  with assms(3,4) log_agreesD(2) [OF assms(1)] show ?thesis
    by (metis distinct_map inj_onD row_of_simps(1))
qed

lemma ids_of_updates:
  "\<forall>r. cl_id (f r) = cl_id r \<Longrightarrow> map cl_id (update_rows p f log) = map cl_id log"
  by (induction log) (auto simp: update_rows_def)

text \<open>Changing the state and the log together, for one call.\<close>

lemma log_agrees_change:
  assumes "log_agrees s" "m_calls (cs_mgr s) i = Some c" "calls_ok m"
    and "m_calls m = (m_calls (cs_mgr s))(i := x)" "log = update_rows p f (cs_log s)"
    and "\<forall>r. cl_id (f r) = cl_id r" "\<forall>r. p r \<longrightarrow> cl_id r = i"
    and "\<forall>c'. x = Some c' \<longrightarrow> (if p (row_of i c) then f (row_of i c) else row_of i c) = row_of i c'"
    and "x = None \<longrightarrow> p (row_of i c) \<and> cl_ended_at (f (row_of i c)) \<noteq> None"
  shows "log_agrees \<lparr>cs_mgr = m, cs_log = log\<rparr>"
proof -
  note a = log_agreesD [OF assms(1)]
  have row: "row_of i c \<in> set (cs_log s)" by (rule a(3) [OF assms(2)])
  define g where "g = (\<lambda>r. if p r then f r else r)"
  have upd: "set log = g ` set (cs_log s)" unfolding assms(5) update_rows_def g_def by simp
  have "distinct (map cl_id log)" using a(2) assms(5,6) by (simp add: ids_of_updates)
  moreover have "row_of j d \<in> set log" if "m_calls m j = Some d" for j d
  proof (cases "j = i")
    case True
    with that assms(4) have "x = Some d" by simp
    with assms(8) True have "row_of j d = g (row_of i c)" unfolding g_def by simp
    then show ?thesis unfolding upd using row by (rule image_eqI)
  next
    case False
    with that assms(4) have "row_of j d \<in> set (cs_log s)" by (intro a(3)) simp
    moreover have "\<not> p (row_of j d)" using assms(7) False by auto
    then have "row_of j d = g (row_of j d)" by (simp add: g_def)
    ultimately show ?thesis unfolding upd by (rule rev_image_eqI)
  qed
  moreover have "cl_ended_at r \<noteq> None" if r: "r \<in> set log" "m_calls m (cl_id r) = None" for r
  proof -
    from r(1) obtain r0 where r0: "r0 \<in> set (cs_log s)" "r = (if p r0 then f r0 else r0)"
      unfolding upd g_def by blast
    then have id: "cl_id r = cl_id r0" using assms(6) by simp
    show ?thesis
    proof (cases "cl_id r0 = i")
      case True
      with r(2) id assms(4) have "x = None" by simp
      moreover have "r0 = row_of i c" by (rule log_agrees_unique [OF assms(1,2) r0(1) True])
      ultimately show ?thesis using assms(9) r0(2) by simp
    next
      case False
      with r0(2) assms(7) have "r = r0" by auto
      with a(4) r0(1) r(2) False id assms(4) show ?thesis by simp
    qed
  qed
  ultimately show ?thesis using assms(3) by (simp add: log_agrees_def)
qed

lemma log_agrees_insert:
  assumes "log_agrees s" "calls_ok m" "cl_id row \<notin> cl_id ` set (cs_log s)"
    and "m_calls m = m_calls (cs_mgr s) \<and> cl_ended_at row \<noteq> None \<or>
      (\<exists>c. m_calls m = (m_calls (cs_mgr s))(cl_id row \<mapsto> c) \<and> row = row_of (cl_id row) c)"
  shows "log_agrees \<lparr>cs_mgr = m, cs_log = cs_log s @ [row]\<rparr>"
  using assms(4)
proof
  assume "m_calls m = m_calls (cs_mgr s) \<and> cl_ended_at row \<noteq> None"
  with log_agreesD [OF assms(1)] assms(2,3) show ?thesis by (auto simp: log_agrees_def)
next
  assume "\<exists>c. m_calls m = (m_calls (cs_mgr s))(cl_id row \<mapsto> c) \<and> row = row_of (cl_id row) c"
  then obtain c where "m_calls m = (m_calls (cs_mgr s))(cl_id row \<mapsto> c)" "row = row_of (cl_id row) c" by blast
  with log_agreesD [OF assms(1)] assms(2,3) show ?thesis by (auto simp: log_agrees_def split: if_splits)
qed


section \<open>Every client_op keeps the log in step\<close>

lemma exec_calls_ok:
  assumes "exec e t s = (s1, k, es)" "calls_ok (cs_mgr s)" "thread_ok t"
    and "\<And>from to i now. t = TStartLock from to i now \<Longrightarrow> m_calls (cs_mgr s) i = None"
  shows "calls_ok (cs_mgr s1)"
  by (rule mgr_change_ok [OF exec_mgr_change [OF assms(1)] assms(2-4)])

lemma update_rows_none [simp]: "update_rows (\<lambda>_. False) f log = log"
  by (simp add: update_rows_def)

lemma log_agrees_upd [simp]:
  "log_agrees (s\<lparr>cs_mgr := m, cs_log := l\<rparr>) = log_agrees \<lparr>cs_mgr = m, cs_log = l\<rparr>"
  "log_agrees (s\<lparr>cs_mgr := m\<rparr>) = log_agrees \<lparr>cs_mgr = m, cs_log = cs_log s\<rparr>"
  "log_agrees (s\<lparr>cs_log := l\<rparr>) = log_agrees \<lparr>cs_mgr = cs_mgr s, cs_log = l\<rparr>"
  by (simp_all add: log_agrees_def)

text \<open>A change of a call that the log does not show.\<close>

lemma log_agrees_hidden:
  assumes "log_agrees s" "m_calls (cs_mgr s) i = Some c" "row_of i c' = row_of i c"
    and "ca_caller c' = ca_caller c" "ca_callee c' = ca_callee c"
  shows "log_agrees \<lparr>cs_mgr = (cs_mgr s)\<lparr>m_calls := (m_calls (cs_mgr s))(i \<mapsto> c')\<rparr>, cs_log = cs_log s\<rparr>"
  using log_agrees_change [OF assms(1,2) calls_ok_update [OF log_agreesD(1) [OF assms(1)] assms(2,4,5)],
      of "Some c'" "cs_log s" "\<lambda>_. False" "\<lambda>r. r"] assms(3)
  by simp

lemma log_agrees_maps:
  "log_agrees s \<Longrightarrow> m_calls m = m_calls (cs_mgr s) \<Longrightarrow> m_byUser m = m_byUser (cs_mgr s) \<Longrightarrow>
    log_agrees (s\<lparr>cs_mgr := m\<rparr>)"
  by (simp add: log_agrees_def calls_ok_def)

lemma end_agrees:
  assumes "log_agrees s" "\<not> ce_fails e LFinish"
  shows "log_agrees (fst (run_thread (Suc (Suc n)) e (TEnd i reason) s))"
proof (cases "m_calls (cs_mgr s) i")
  case None
  with assms show ?thesis by (simp add: end_lock_def)
next
  case (Some c)
  let ?m = "(cs_mgr s)\<lparr>m_calls := (m_calls (cs_mgr s))(i := None),
    m_byUser := (m_byUser (cs_mgr s))(ca_caller c := None, ca_callee c := None)\<rparr>"
  note ok = log_agreesD(1) [OF assms(1)]
  have "log_agrees \<lparr>cs_mgr = ?m, cs_log = FinishCall i (log_state (ca_active c) reason) reason (ts (ce_now e)) (cs_log s)\<rparr>"
    unfolding FinishCall_def
    by (rule log_agrees_change [OF assms(1) Some calls_ok_end [OF ok Some], where x = None]) auto
  then show ?thesis using assms(2) Some drop_users [OF ok Some]
    by (simp add: end_lock_def Let_def end_finish_def)
qed

lemma accept_agrees:
  assumes "log_agrees s" "\<not> ce_fails e LAnswer"
  shows "log_agrees (fst (run_thread (Suc (Suc n)) e (TAcceptLock from i now limit) s))"
proof (cases "m_calls (cs_mgr s) i")
  case None
  with assms show ?thesis by (simp add: accept_lock_def)
next
  case (Some c)
  show ?thesis
  proof (cases "ca_callee c \<noteq> cn_User from \<or> ca_active c")
    case True
    with Some assms show ?thesis by (simp add: accept_lock_def)
  next
    case False
    let ?c = "c\<lparr>ca_active := True, ca_calleeConn := cn_ID from, ca_answered := now,
      ca_timer := Some (ce_now e + limit, if limit < MaxDuration then ReasonLimit else ReasonEnded)\<rparr>"
    have ok: "calls_ok ((cs_mgr s)\<lparr>m_calls := (m_calls (cs_mgr s))(i \<mapsto> ?c)\<rparr>)"
      using log_agreesD(1) [OF assms(1)] Some by (rule calls_ok_update) simp_all
    have "log_agrees \<lparr>cs_mgr = (cs_mgr s)\<lparr>m_calls := (m_calls (cs_mgr s))(i \<mapsto> ?c)\<rparr>,
        cs_log = AnswerCall i (ts now) (cs_log s)\<rparr>"
      unfolding AnswerCall_def
      by (rule log_agrees_change [OF assms(1) Some ok, where x = "Some ?c"]) (use False in \<open>auto simp: row_of_def\<close>)
    then show ?thesis using Some False assms(2)
      by (cases "limit < MaxDuration") (simp_all add: accept_lock_def accept_answer_def)
  qed
qed

lemma start_agrees:
  assumes "log_agrees s" "\<not> ce_fails e LInsert" "i \<notin> cl_id ` set (cs_log s)" "to \<noteq> cn_User from"
  shows "log_agrees (fst (run_thread (Suc (Suc n)) e (TStartLock from to i now) s))"
proof -
  obtain ok m where m: "allowStart (cn_User from) now (cs_mgr s) = (ok, m)" by fastforce
  with allowStart_maps(1,2) [of "cn_User from" now "cs_mgr s"]
  have maps: "m_calls m = m_calls (cs_mgr s)" "m_byUser m = m_byUser (cs_mgr s)" by simp_all
  then have mok: "calls_ok m" using log_agreesD(1) [OF assms(1)] by (simp add: calls_ok_def)
  have free: "m_calls (cs_mgr s) i = None"
    using log_agreesD(3) [OF assms(1), of i] assms(3) by (cases "m_calls (cs_mgr s) i") force+
  have ins: "InsertCall r (cs_log s) = Inr (cs_log s @ [r])" if "cl_id r = i" for r
    using assms(3) that by (auto simp: InsertCall_def exists_row_def image_iff)
  consider (no) "\<not> ok \<or> m_byUser m (cn_User from) \<noteq> None" | (busy) "ok" "m_byUser m (cn_User from) = None" "m_byUser m to \<noteq> None"
    | (ring) "ok" "m_byUser m (cn_User from) = None" "m_byUser m to = None" by blast
  then show ?thesis
  proof cases
    case no
    with m log_agrees_maps [OF assms(1) maps] show ?thesis by (auto simp: start_lock_def Let_def)
  next
    case busy
    have "log_agrees \<lparr>cs_mgr = m, cs_log = cs_log s @ [busy_row i (cn_User from) to now]\<rparr>"
      using assms(1) mok by (rule log_agrees_insert) (use assms(3) maps in \<open>simp_all add: busy_row_def\<close>)
    with busy m assms(2) show ?thesis
      by (auto simp: start_lock_def Let_def start_busy_def log_insert_def ins busy_row_def)
  next
    case ring
    let ?c = "new_call e from to now"
    let ?m = "m\<lparr>m_calls := (m_calls m)(i \<mapsto> ?c), m_byUser := (m_byUser m)(cn_User from \<mapsto> i, to \<mapsto> i)\<rparr>"
    have row: "ringing_row i (cn_User from) to now = row_of i ?c"
      by (simp add: ringing_row_def row_of_def new_call_def)
    have "calls_ok ?m"
      using mok ring assms(4) maps free by (intro calls_ok_new) (auto simp: new_call_def)
    then have "log_agrees \<lparr>cs_mgr = ?m, cs_log = cs_log s @ [row_of i ?c]\<rparr>"
      by (rule log_agrees_insert [OF assms(1)]) (use assms(3) maps in auto)
    with ring m assms(2) show ?thesis
      by (auto simp: start_lock_def Let_def start_ring_def log_insert_def ins row)
  qed
qed

lemma signal_agrees: "log_agrees s \<Longrightarrow> log_agrees (fst (signal e from i d s))"
  by (auto simp: signal_def Let_def row_of_def intro!: log_agrees_hidden split: option.split)

lemma signal_once: "fst (snd (signal e from i d s)) = None"
  by (simp add: signal_def Let_def split: option.split)

lemma Connected_agrees: "log_agrees s \<Longrightarrow> log_agrees (fst (Connected e cn s))"
  by (cases "m_byUser (cs_mgr s) (cn_User cn)")
    (auto simp: Connected_def Let_def row_of_def intro!: log_agrees_hidden split: option.split)

lemma Connected_once: "fst (snd (Connected e cn s)) = None"
  by (cases "m_byUser (cs_mgr s) (cn_User cn)") (simp_all add: Connected_def Let_def split: option.split)

lemma Disconnected_agrees: "log_agrees s \<Longrightarrow> log_agrees (fst (Disconnected e cn s))"
  by (cases "m_byUser (cs_mgr s) (cn_User cn)")
    (auto simp: Disconnected_def Let_def row_of_def intro!: log_agrees_hidden split: option.split)

lemma Disconnected_then: "fst (snd (Disconnected e cn s)) \<in> {None} \<union> {Some (TEnd i r) | i r. True}"
  by (cases "m_byUser (cs_mgr s) (cn_User cn)") (simp_all add: Disconnected_def Let_def split: option.split)

text \<open>A client_op of the manager, or \<^verbatim>\<open>end\<close> begun by a timer, with a working log.\<close>

fun client_op :: "thread \<Rightarrow> bool" where
  "client_op (TEnd _ _) = True"
| "client_op t = entry t"

lemma fst_run:
  "exec e t s = (s1, k, es) \<Longrightarrow>
    fst (run_thread (Suc n) e t s) = (case k of None \<Rightarrow> s1 | Some t1 \<Rightarrow> fst (run_thread n e t1 s1))"
  by (auto split: option.split prod.split)

lemma accept_limits_then:
  obtains k es where "accept_limits e cn i now p s = (s, k, es)"
    "k = None \<or> (\<exists>r. k = Some (TEnd i r)) \<or> (\<exists>l. k = Some (TAcceptLock cn i now l))"
  by (cases "accept_limits e cn i now p s") (auto simp: accept_limits_def Let_def split: option.splits prod.splits if_splits)

lemma start_checks_then:
  obtains k es where "start_checks e cn to s = (s, k, es)"
    "k = None \<or> k = Some (TStartLock cn to (ce_uuid e) (ce_now e)) \<and> to \<noteq> cn_User cn"
  by (cases "start_checks e cn to s") (auto simp: start_checks_def split: option.splits if_splits)

lemma hangUp_then:
  obtains k es where "hangUp e cn i s = (s, k, es)" "k = None \<or> (\<exists>r. k = Some (TEnd i r))"
  by (cases "hangUp e cn i s") (auto simp: hangUp_def split: option.splits if_splits)

lemma EndBetween_then:
  obtains k where "EndBetween e a b s = (s, k, [])" "k = None \<or> (\<exists>i r. k = Some (TEnd i r))"
  by (cases "EndBetween e a b s") (auto simp: EndBetween_def split: option.splits if_splits)

lemma run_agrees:
  assumes "log_agrees s" "\<And>c. \<not> ce_fails e c" "client_op t" "ce_uuid e \<notin> cl_id ` set (cs_log s)"
  shows "log_agrees (fst (complete e t s))"
proof -
  note ends = end_agrees [OF assms(1,2)]
  show ?thesis
  proof (cases t)
    case (TStart cn to)
    obtain k es where "exec e t s = (s, k, es)" "k = None \<or> k = Some (TStartLock cn to (ce_uuid e) (ce_now e)) \<and> to \<noteq> cn_User cn"
      using TStart start_checks_then [of e cn to s] by auto
    then show ?thesis using assms(1) start_agrees [OF assms(1,2,4)] by (auto simp: complete_run fst_run simp del: run_thread.simps)
  next
    case (TAccept cn i)
    obtain p where 1: "exec e t s = (s, Some (TAcceptLimits cn i (ce_now e) p), [])"
      using TAccept by (simp add: accept_read_def)
    obtain k es where 2: "exec e (TAcceptLimits cn i (ce_now e) p) s = (s, k, es)"
      "k = None \<or> (\<exists>r. k = Some (TEnd i r)) \<or> (\<exists>l. k = Some (TAcceptLock cn i (ce_now e) l))"
      using accept_limits_then [of e cn i "ce_now e" p s] by auto
    show ?thesis using 2(2) assms(1) ends accept_agrees [OF assms(1,2)]
      by (auto simp: complete_run fst_run [OF 1] fst_run [OF 2(1)] simp del: run_thread.simps)
  next
    case (TSignal cn i d)
    then show ?thesis using signal_agrees [OF assms(1), of e cn i d] signal_once [of e cn i d s]
      by (cases "signal e cn i d s") (auto simp: complete_run)
  next
    case (TConnected cn)
    then show ?thesis using Connected_agrees [OF assms(1), of e cn] Connected_once [of e cn s]
      by (cases "Connected e cn s") (auto simp: complete_run)
  next
    case (TDisconnected cn)
    obtain s1 k es where 1: "exec e t s = (s1, k, es)" "log_agrees s1" "k = None \<or> (\<exists>i r. k = Some (TEnd i r))"
      using TDisconnected Disconnected_agrees [OF assms(1), of e cn] Disconnected_then [of e cn s]
      by (cases "Disconnected e cn s") auto
    then show ?thesis using end_agrees [OF 1(2) assms(2)]
      by (auto simp: complete_run fst_run [OF 1(1)] simp del: run_thread.simps)
  next
    case (THangUp cn i)
    obtain k es where 1: "exec e t s = (s, k, es)" "k = None \<or> (\<exists>r. k = Some (TEnd i r))"
      using THangUp hangUp_then [of e cn i s] by auto
    then show ?thesis using assms(1) ends by (auto simp: complete_run fst_run [OF 1(1)] simp del: run_thread.simps)
  next
    case (TEndBetween a b)
    obtain k where 1: "exec e t s = (s, k, [])" "k = None \<or> (\<exists>i r. k = Some (TEnd i r))"
      using TEndBetween EndBetween_then [of e a b s] by auto
    then show ?thesis using assms(1) ends by (auto simp: complete_run fst_run [OF 1(1)] simp del: run_thread.simps)
  next
    case (TEnd i r)
    then show ?thesis using ends by (simp add: complete_run del: run_thread.simps)
  qed (use assms(3) in simp_all)
qed

text \<open>
  Timers and methods one after the other: a client_op, or a timer that fires and whose \<^verbatim>\<open>end\<close>
  runs to its end.
\<close>

inductive turn :: "calls_sys \<Rightarrow> calls_sys \<Rightarrow> bool" where
  "(\<And>c. \<not> ce_fails e c) \<Longrightarrow> client_op t \<Longrightarrow> ce_uuid e \<notin> cl_id ` set (cs_log s) \<Longrightarrow> turn s (fst (complete e t s))"

lemma turns_agree: "turn\<^sup>*\<^sup>* s s' \<Longrightarrow> log_agrees s \<Longrightarrow> log_agrees s'"
  by (induction rule: rtranclp_induct) (auto elim!: turn.cases intro: run_agrees)

text \<open>
  When methods and timers do not overlap and the log's writes succeed, the log is exact:
  the unfinished rows are those of the open calls, each showing its call's parties, state
  and times, and every other call in the log has an end.
\<close>

theorem call_log_exact:
  assumes "turn\<^sup>*\<^sup>* (no_calls log) s" "distinct (map cl_id log)" "\<forall>r \<in> set log. cl_ended_at r \<noteq> None"
  shows "{r \<in> set (cs_log s). cl_ended_at r = None} = {row_of i c | i c. m_calls (cs_mgr s) i = Some c} \<and>
    distinct (map cl_id (cs_log s))"
proof -
  have "log_agrees (no_calls log)" using assms(2,3) by (simp add: no_calls_def log_agrees_def calls_ok_def)
  with assms(1) have a: "log_agrees s" by (rule turns_agree)
  have "\<exists>i c. r = row_of i c \<and> m_calls (cs_mgr s) i = Some c" if r: "r \<in> set (cs_log s)" "cl_ended_at r = None" for r
  proof -
    from log_agreesD(4) [OF a r(1)] r(2) obtain c where c: "m_calls (cs_mgr s) (cl_id r) = Some c" by auto
    have "r = row_of (cl_id r) c" by (rule log_agrees_unique [OF a c r(1) refl])
    with c show ?thesis by blast
  qed
  then show ?thesis using log_agreesD(2,3) [OF a] by auto
qed

theorem call_log_exact_witness:
  "{r \<in> set (cs_log ringing_sys). cl_ended_at r = None} = {row_of i c | i c. m_calls (cs_mgr ringing_sys) i = Some c}"
proof -
  have "turn (no_calls []) (fst (complete (easy 0 9) (TStart (phone 1 11) 2) (no_calls [])))"
    by (rule turn.intros) (simp_all add: no_calls_def)
  then have "turn\<^sup>*\<^sup>* (no_calls []) ringing_sys" by (simp add: ringing_example)
  from call_log_exact [OF this] show ?thesis by simp
qed


section \<open>What overlapping methods can do\<close>

text \<open>
  Unfriending (and so blocking) misses a call that is being started: once the caller's
  friendship was checked, \<^verbatim>\<open>EndBetween\<close> finds no call to end, from either side, and the call
  is registered and rings although the two are friends no longer.
\<close>

theorem unfriend_misses_starting_call:
  assumes "exec e1 (TStart from to) s = (s, Some t1, [])" "m_byUser (cs_mgr s) (cn_User from) = None"
    and "m_byUser (cs_mgr s) to = None" "fst (allowStart (cn_User from) (ce_now e1) (cs_mgr s))"
  shows "complete e2 (TEndBetween (cn_User from) to) s = (s, []) \<and>
    complete e2 (TEndBetween to (cn_User from)) s = (s, []) \<and>
    m_byUser (cs_mgr (fst (complete e3 t1 s))) to = Some (ce_uuid e1) \<and>
    CallToUsers [to] (CallIncoming (ce_uuid e1) (cn_User from)) \<in> set (snd (complete e3 t1 s))"
proof -
  have t1: "t1 = TStartLock from to (ce_uuid e1) (ce_now e1)"
    using assms(1) by (auto simp: start_checks_def split: if_splits option.splits)
  obtain m where m: "allowStart (cn_User from) (ce_now e1) (cs_mgr s) = (True, m)"
    using assms(4) by (cases "allowStart (cn_User from) (ce_now e1) (cs_mgr s)") auto
  then have "m_byUser m = m_byUser (cs_mgr s)"
    using allowStart_maps(2) [of "cn_User from" "ce_now e1" "cs_mgr s"] by simp
  with assms(2,3) m show ?thesis
    by (simp add: t1 complete_run EndBetween_def start_lock_def start_ring_def)
qed

theorem unfriend_misses_starting_call_witness:
  "\<exists>t1. exec (easy 0 9) (TStart (phone 1 11) 2) (no_calls []) = (no_calls [], Some t1, []) \<and>
    m_byUser (cs_mgr (fst (complete ((easy 2 0)\<lparr>ce_friends := \<lambda>_ _. Some False\<rparr>) t1 (no_calls [])))) 2 = Some 9"
proof -
  obtain t1 where t1: "exec (easy 0 9) (TStart (phone 1 11) 2) (no_calls []) = (no_calls [], Some t1, [])"
    by (simp add: start_checks_def remaining_def MaxDuration_pos)
  from unfriend_misses_starting_call [OF this, of "easy 1 0" "(easy 2 0)\<lparr>ce_friends := \<lambda>_ _. Some False\<rparr>"] t1
  show ?thesis by (simp add: no_calls_def allowStart_def starts_of_def recent_def startsPerMinute_def Let_def)
qed

text \<open>
  A call the callee accepted can end as missed: the ring timer fires, the callee's
  accept gets the mutex first and the caller is told \<^verbatim>\<open>CallAccepted\<close>, and then the timer's
  \<^verbatim>\<open>end\<close> hangs up on the two with the reason \<^verbatim>\<open>missed\<close> and sends a missed-call push.
\<close>

theorem answered_call_ends_as_missed:
  "\<exists>w d j. reachable w \<and> w_pool w = [] \<and> SendToConn (phone 1 11) (CallAccepted 9) \<in> set (w_out w) \<and>
    CallToUsers [1, 2] (CallEnded 9 ReasonMissed d) \<in> set (w_out w) \<and> 0 < d \<and>
    CallNotify j \<in> set (w_out w) \<and> j_kind j = KindMissedCall \<and> j_to j = [2]"
proof -
  let ?c = "ringing_call\<lparr>ca_timer := None\<rparr>"
  let ?w1 = "(set_call 9 ?c ringing_world)\<lparr>w_pool := [TEnd 9 ReasonMissed]\<rparr>"
  have "wstep ringing_world ((set_call 9 ?c ringing_world)\<lparr>w_pool := TEnd 9 ReasonMissed # w_pool ringing_world\<rparr>)"
    by (rule wstep.fire_timer [where now = RingTimeout and at = RingTimeout]) simp_all
  then have w1: "reachable ?w1" using reachable.step [OF ringing_reachable] by simp
  let ?w2 = "?w1\<lparr>w_pool := TAccept (phone 2 22) 9 # [TEnd 9 ReasonMissed]\<rparr>"
  have w2: "reachable ?w2"
    using reachable.step [OF w1 wstep.begin_thread [of "TAccept (phone 2 22) 9"]] by simp
  let ?e = "easy (46 * second) 0"
  obtain s3 es3 where r3: "run_thread 5 ?e (TAccept (phone 2 22) 9) (w_sys ?w2) = (s3, es3)" by fastforce
  have s3: "m_calls (cs_mgr s3) 9 = Some (?c\<lparr>ca_active := True, ca_calleeConn := 22, ca_answered := 46 * second,
        ca_timer := Some (46 * second + MaxDuration, ReasonEnded)\<rparr>)" "SendToConn (phone 1 11) (CallAccepted 9) \<in> set es3"
    using r3 by (auto simp: complete_def [symmetric] complete_run accept_read_def accept_limits_def remaining_def
        MaxDuration_pos accept_lock_def accept_answer_def Let_def set_call_def phone_def)
  let ?w3 = "\<lparr>w_sys = s3, w_pool = [TEnd 9 ReasonMissed], w_ids = [] @ w_ids ?w2, w_out = w_out ?w2 @ es3\<rparr>"
  have w3: "reachable ?w3" using reachable_run_thread [OF w2, of "TAccept (phone 2 22) 9" "[TEnd 9 ReasonMissed]" ?e 5 s3 es3] r3 by simp
  obtain s4 es4 where r4: "run_thread 5 (easy (47 * second) 0) (TEnd 9 ReasonMissed) s3 = (s4, es4)" by fastforce
  have w4: "reachable \<lparr>w_sys = s4, w_pool = [], w_ids = [] @ w_ids ?w3, w_out = w_out ?w3 @ es4\<rparr>" (is "reachable ?w4")
    using reachable_run_thread [OF w3, of "TEnd 9 ReasonMissed" "[]" "easy (47 * second) 0" 5 s4 es4] r4 by simp
  have es4: "es4 = [CallToUsers [1, 2] (CallEnded 9 ReasonMissed (second div millisecond)),
      CallNotify ((push_job KindMissedCall [2] 1)\<lparr>j_call_id := 9\<rparr>)]"
    using r4 s3(1) by (auto simp: complete_def [symmetric] complete_run end_lock_def Let_def end_finish_def)
  have "0 < second div millisecond" by (simp add: second_def millisecond_def)
  with w4 es4 s3(2) show ?thesis
    by (intro exI [of _ ?w4] exI [of _ "second div millisecond"]
        exI [of _ "(push_job KindMissedCall [2] 1)\<lparr>j_call_id := 9\<rparr>"]) simp
qed

text \<open>
  A finished call can stay in the log as ringing until the server restarts: when the
  caller's device goes away between the registration of the call and the insertion of its
  row, \<^verbatim>\<open>end\<close> finds no row to finish. Nothing failed and nothing is left to run.
\<close>

theorem log_row_left_ringing:
  "\<exists>w r. reachable w \<and> w_pool w = [] \<and> m_calls (cs_mgr (w_sys w)) = Map.empty \<and>
    r \<in> set (cs_log (w_sys w)) \<and> cl_state r = ''ringing'' \<and> cl_ended_at r = None"
proof -
  let ?s = "ringing_sys\<lparr>cs_log := []\<rparr>"
  let ?w1 = "\<lparr>w_sys = ?s, w_pool = [TRing (phone 1 11) 2 9 0], w_ids = [9], w_out = []\<rparr>"
  let ?t = "TStart (phone 1 11) 2"
  have a: "reachable ((world0 [])\<lparr>w_pool := [?t]\<rparr>)"
    using reachable.step [OF reachable.initial [of "[]"] wstep.begin_thread [of ?t]] by (simp add: world0_def)
  have ex1: "exec (easy 0 9) ?t (no_calls []) = (no_calls [], Some (TStartLock (phone 1 11) 2 9 0), [])"
    by (simp add: start_checks_def remaining_def MaxDuration_pos)
  have ex2: "exec (easy 0 9) (TStartLock (phone 1 11) 2 9 0) (no_calls []) = (?s, Some (TRing (phone 1 11) 2 9 0), [])"
    by (simp add: start_lock_def allowStart_def starts_of_def recent_def startsPerMinute_def Let_def no_calls_def
        ringing_sys_def ringing_call_def)
  have "reachable \<lparr>w_sys = no_calls [], w_pool = [TStartLock (phone 1 11) 2 9 0], w_ids = [9], w_out = []\<rparr>"
    using reachable.step [OF a wstep.run_section [of _ "[]" ?t "[]" "easy 0 9"]] ex1 by (simp add: world0_def)
  from reachable.step [OF this wstep.run_section [of _ "[]" "TStartLock (phone 1 11) 2 9 0" "[]" "easy 0 9"]] ex2
  have w1: "reachable ?w1" by simp
  let ?d = "TDisconnected (phone 1 11)"
  have w2: "reachable (?w1\<lparr>w_pool := [?d, TRing (phone 1 11) 2 9 0]\<rparr>)" (is "reachable ?w2")
    using reachable.step [OF w1 wstep.begin_thread [of ?d]] by simp
  obtain s3 es3 where r3: "run_thread 5 (easy 1 0) ?d ?s = (s3, es3)" by fastforce
  have "calls_ok (cs_mgr ringing_sys)" using reachable_ok [OF ringing_reachable] by (simp add: world_ok_def)
  from drop_users [OF this, of 9 ringing_call]
  have s3: "m_calls (cs_mgr s3) = Map.empty" "cs_log s3 = []"
    using r3 by (auto simp: complete_def [symmetric] complete_run Disconnected_def conn_def end_lock_def Let_def
        end_finish_def FinishCall_def update_rows_def)
  let ?w3 = "\<lparr>w_sys = s3, w_pool = [TRing (phone 1 11) 2 9 0], w_ids = [9], w_out = es3\<rparr>"
  have w3: "reachable ?w3"
    using reachable_run_thread [OF w2, of ?d "[TRing (phone 1 11) 2 9 0]" "easy 1 0" 5 s3 es3] r3 by simp
  obtain s4 k es4 where r4: "exec (easy 2 0) (TRing (phone 1 11) 2 9 0) s3 = (s4, k, es4)"
    by (cases "exec (easy 2 0) (TRing (phone 1 11) 2 9 0) s3")
  then have s4: "k = None" "cs_mgr s4 = cs_mgr s3" "cs_log s4 = [ringing_row 9 1 2 0]"
    using s3 by (auto simp: start_ring_def log_insert_def InsertCall_def exists_row_def)
  have "reachable \<lparr>w_sys = s4, w_pool = [], w_ids = [9], w_out = es3 @ es4\<rparr>"
    using reachable.step [OF w3 wstep.run_section [of _ "[]" "TRing (phone 1 11) 2 9 0" "[]" "easy 2 0"]] r4 s4(1) by simp
  with s3 s4 show ?thesis
    by (intro exI [of _ "\<lparr>w_sys = s4, w_pool = [], w_ids = [9], w_out = es3 @ es4\<rparr>"] exI [of _ "ringing_row 9 1 2 0"])
      (simp add: ringing_row_def)
qed

text \<open>
  A phone that is back online before the server notices that its old connection is gone
  does not rejoin its call: its connecting changes nothing, the old connection's end then
  starts the grace period with the old device still registered, and signalling from the new
  device is refused.
\<close>

theorem early_reconnect_not_resumed:
  assumes "m_byUser (cs_mgr s) u = Some i" "m_calls (cs_mgr s) i = Some c" "ca_active c" "ca_lost c u = None"
    and "conn c u = old" "new \<noteq> old" "data \<noteq> []" "length data \<le> maxSignalBytes" "ce_valid e3 data"
    and "s2 = fst (complete e2 (TDisconnected (phone u old)) s)"
  shows "complete e1 (TConnected (phone u new)) s = (s, []) \<and>
    (\<exists>c2. m_calls (cs_mgr s2) i = Some c2 \<and> ca_lost c2 u = Some (Some (ce_now e2 + ce_grace e2)) \<and> conn c2 u = old) \<and>
    complete e3 (TSignal (phone u new) i data) s2 = (s2, fail (phone u new) i ErrUnknownCall)"
proof -
  let ?c2 = "c\<lparr>ca_lost := (ca_lost c)(u \<mapsto> Some (ce_now e2 + ce_grace e2))\<rparr>"
  have s2: "m_calls (cs_mgr s2) i = Some ?c2"
    using assms(1-5) by (simp add: assms(10) complete_run Disconnected_def Let_def)
  moreover have "conn ?c2 u = old" using assms(5) unfolding conn_def by auto
  ultimately show ?thesis using assms(1-9)
    by (simp add: complete_run Connected_def signal_def Let_def)
qed

theorem early_reconnect_not_resumed_witness:
  "complete (easy 5 0) (TConnected (phone 1 12)) answered_sys = (answered_sys, [])"
  by (rule early_reconnect_not_resumed [where i = 9 and c = answered_call and u = 1 and new = 12 and old = 11 and
        data = "[0]" and ?e3.0 = "easy 7 0" and ?e2.0 = "easy 6 0", OF _ _ _ _ _ _ _ _ _ refl, THEN conjunct1]) (simp_all add: conn_def maxSignalBytes_def)

end
