(* ===== verification/Chat_Read.thy ===== *)
theory Chat_Read
  imports Chat
begin

text \<open>
  The rest of \<^verbatim>\<open>internal/chat/service.go\<close> and \<^verbatim>\<open>repo.go\<close>: reactions, history pages, read
  markers, forwarding, the policy for typing and seen events, and all operations as one step
  function. \<^verbatim>\<open>emoji.go\<close> comes first.
\<close>

section \<open>Emoji\<close>

definition isPictographic :: "nat \<Rightarrow> bool" where
  "isPictographic r \<longleftrightarrow> (0x1F300 \<le> r \<and> r \<le> 0x1FAFF) \<or> (0x2600 \<le> r \<and> r \<le> 0x27BF) \<or> (0x2B00 \<le> r \<and> r \<le> 0x2BFF) \<or>
     (0x2190 \<le> r \<and> r \<le> 0x21FF) \<or> (0x2300 \<le> r \<and> r \<le> 0x23FF) \<or> (0x1F000 \<le> r \<and> r \<le> 0x1F2FF) \<or>
     r \<in> {0x00A9, 0x00AE, 0x203C, 0x2049, 0x2122, 0x2139, 0x3030, 0x303D, 0x3297, 0x3299}"

definition zwj :: nat where "zwj = 0x200D"
definition vs16 :: nat where "vs16 = 0xFE0F"
definition keycapMark :: nat where "keycapMark = 0x20E3"
definition maxEmojiBytes :: nat where "maxEmojiBytes = 64"

definition isSkinTone :: "nat \<Rightarrow> bool" where "isSkinTone r \<longleftrightarrow> 0x1F3FB \<le> r \<and> r \<le> 0x1F3FF"
definition isRegional :: "nat \<Rightarrow> bool" where "isRegional r \<longleftrightarrow> 0x1F1E6 \<le> r \<and> r \<le> 0x1F1FF"
definition isTag :: "nat \<Rightarrow> bool" where "isTag r \<longleftrightarrow> 0xE0020 \<le> r \<and> r \<le> 0xE007F"

definition isKeycapBase :: "nat \<Rightarrow> bool" where
  "isKeycapBase r \<longleftrightarrow> (48 \<le> r \<and> r \<le> 57) \<or> r = 35 \<or> r = 42"

text \<open>The loop over pictographs; the flag is \<^verbatim>\<open>expectBase\<close>.\<close>

fun pictographs :: "bool \<Rightarrow> nat list \<Rightarrow> bool" where
  "pictographs expectBase [] \<longleftrightarrow> \<not> expectBase"
| "pictographs True (r # rs) \<longleftrightarrow> isPictographic r \<and> pictographs False rs"
| "pictographs False (r # rs) \<longleftrightarrow>
     (if r = vs16 \<or> isSkinTone r \<or> isTag r then pictographs False rs
      else if r = zwj then pictographs True rs else False)"

text \<open>\<^verbatim>\<open>utf8.ValidString\<close>: no byte decodes to an error, that is to \<open>RuneError\<close> of width one.\<close>

definition ValidString :: "string \<Rightarrow> bool" where
  "ValidString s \<longleftrightarrow> (\<forall>(r, bs) \<in> set (chunks s). \<not> (r = RuneError \<and> length bs = 1))"

definition ValidateEmoji :: "string \<Rightarrow> bool" where
  "ValidateEmoji s =
     (if s = [] \<or> length s > maxEmojiBytes \<or> \<not> ValidString s then False
      else let rs = runes s; r0 = hd rs in
        if isRegional r0 then length rs = 2 \<and> isRegional (rs ! 1)
        else if isKeycapBase r0 then
          (length rs = 2 \<and> rs ! 1 = keycapMark) \<or> (length rs = 3 \<and> rs ! 1 = vs16 \<and> rs ! 2 = keycapMark)
        else pictographs True rs)"

section \<open>Reactions\<close>

definition reaction_event :: "messageRef \<Rightarrow> uuid \<Rightarrow> uuid \<Rightarrow> string \<Rightarrow> event" where
  "reaction_event ref u i em = Event EventReaction (OutReactionEvent i u (rf_Kind ref) (group_of ref) em)"

definition React :: "chat_env \<Rightarrow> uuid \<Rightarrow> uuid \<Rightarrow> string \<Rightarrow> chat_sys \<Rightarrow> unit chat_result" where
  "React e me i em s =
     (if \<not> ValidateEmoji em then (Inl (Sentinel ErrNotAnEmoji), s, [])
      else case authorizeMessage e me i True (cy_db s) of
        Inl err \<Rightarrow> (Inl err, s, [])
      | Inr (ref, others) \<Rightarrow>
          (case dbcall (ch_fails e CReact)
              (if rf_Kind ref = TypePrivate then SetPrivateReaction (ch_dbnow e) i me em (cy_db s)
               else SetGroupReaction (ch_dbnow e) i me em (cy_db s)) of
             Inl err \<Rightarrow> (Inl err, s, [])
           | Inr d' \<Rightarrow> (Inr (), s\<lparr>cy_db := d'\<rparr>,
               WriteToUsers (withMe others me) (reaction_event ref me i em) #
               (if ch_notify e \<and> rf_From ref \<noteq> me \<and> rf_From ref \<noteq> Nil_uuid
                then [Notify ((push_job KindReaction [rf_From ref] me)\<lparr>j_msg_id := i, j_preview := em,
                   j_group := (if rf_Kind ref = TypePublic then rf_Group ref else Nil_uuid)\<rparr>)] else []))))"

definition Unreact :: "chat_env \<Rightarrow> uuid \<Rightarrow> uuid \<Rightarrow> chat_sys \<Rightarrow> unit chat_result" where
  "Unreact e me i s =
     (case authorizeMessage e me i False (cy_db s) of
        Inl err \<Rightarrow> (Inl err, s, [])
      | Inr (ref, others) \<Rightarrow>
          (case query e CUnreact (if rf_Kind ref = TypePrivate then DeletePrivateReaction i me (cy_db s)
               else DeleteGroupReaction i me (cy_db s)) of
             Inl err \<Rightarrow> (Inl err, s, [])
           | Inr (n, d') \<Rightarrow> (Inr (), s\<lparr>cy_db := d'\<rparr>,
               if n > 0 then [WriteToUsers (withMe others me) (reaction_event ref me i [])] else [])))"

definition Reactors :: "chat_env \<Rightarrow> uuid \<Rightarrow> uuid \<Rightarrow> chat_sys \<Rightarrow>
    chat_err fail + (uuid \<times> string \<times> string \<times> string \<times> time) list" where
  "Reactors e me i s = andThen (authorizeMessage e me i False (cy_db s)) (\<lambda>(ref, _).
     query e CReactors (map (\<lambda>(u, nm, disp, em, at). (u, nm, ShownName nm disp, em, at))
       (if rf_Kind ref = TypePrivate then PrivateReactors i (cy_db s) else GroupReactors i (cy_db s))))"

definition ReadBy :: "chat_env \<Rightarrow> uuid \<Rightarrow> uuid \<Rightarrow> chat_sys \<Rightarrow> chat_err fail + (uuid \<times> string \<times> string \<times> avatar_url option \<times> time) list" where
  "ReadBy e me i s = andThen (authorizeMessage e me i False (cy_db s)) (\<lambda>(ref, others).
     if rf_Kind ref \<noteq> TypePublic then Inl (Sentinel ErrNotGroupMessage)
     else if rf_From ref \<noteq> me then Inl (Sentinel ErrNotYourMessage)
     else if length others + 1 > ReadByMaxMembers then Inl (Sentinel ErrGroupTooBig)
     else query e CReadBy (map (\<lambda>(u, at). (u_id u, u_name u, ShownName (u_name u) (u_display_name u),
         AvatarURLFrom (u_id u) (u_avatar_at u), at))
       (GroupReadBy (rf_Group ref) (rf_From ref) (rf_CreatedAt ref) i (cy_db s))))"

section \<open>History\<close>

definition fromPrivate :: "message_row \<Rightarrow> MessageMetaDataRes" where
  "fromPrivate m = \<lparr>mr_ID = m_id m, mr_FromID = unNull (m_from_id m),
     mr_Content = (case m_content m of None \<Rightarrow> [] | Some t \<Rightarrow> t), mr_ParendID = m_parentid m, mr_ToID = m_to_id m,
     mr_Type = TypePrivate, mr_CreatedAt = m_created_at m, mr_EditedAt = m_edited_at m,
     mr_Deleted = (m_deleted_at m \<noteq> None), mr_Forwarded = m_forwarded m, mr_Reactions = [], mr_Media = [],
     mr_SenderSuspended = False\<rparr>"

definition fromPublic :: "groupmessage_row \<Rightarrow> MessageMetaDataRes" where
  "fromPublic m = \<lparr>mr_ID = gm_id m, mr_FromID = unNull (gm_from_id m),
     mr_Content = (case gm_content m of None \<Rightarrow> [] | Some t \<Rightarrow> t), mr_ParendID = gm_parent_id m, mr_ToID = gm_group_id m,
     mr_Type = TypePublic, mr_CreatedAt = gm_created_at m, mr_EditedAt = gm_edited_at m,
     mr_Deleted = (gm_deleted_at m \<noteq> None), mr_Forwarded = gm_forwarded m, mr_Reactions = [], mr_Media = [],
     mr_SenderSuspended = False\<rparr>"

definition PrivateBefore :: "chat_env \<Rightarrow> uuid \<Rightarrow> uuid \<Rightarrow> uuid \<Rightarrow> nat \<Rightarrow> db \<Rightarrow> chat_err fail + MessageMetaDataRes list" where
  "PrivateBefore e a b i n d =
     (case faulty (ch_fails e CCursor) (PrivateMessageCursor i a b d) of
        Inl NoRows \<Rightarrow> Inl (Sentinel ErrBadCursor) | Inl err \<Rightarrow> Inl (DbFail err)
      | Inr at \<Rightarrow> query e CPage (rev (map fromPrivate (GetPrivateMessagesBefore a b at i n d))))"

definition GroupBefore :: "chat_env \<Rightarrow> uuid \<Rightarrow> uuid \<Rightarrow> uuid \<Rightarrow> nat \<Rightarrow> db \<Rightarrow> chat_err fail + MessageMetaDataRes list" where
  "GroupBefore e gid viewer i n d =
     (case faulty (ch_fails e CCursor) (GroupMessageCursor i gid d) of
        Inl NoRows \<Rightarrow> Inl (Sentinel ErrBadCursor) | Inl err \<Rightarrow> Inl (DbFail err)
      | Inr at \<Rightarrow> query e CPage (rev (map fromPublic (GetGroupMessagesBefore gid viewer at i n d))))"

definition RecentPrivate :: "chat_env \<Rightarrow> uuid \<Rightarrow> uuid \<Rightarrow> nat \<Rightarrow> db \<Rightarrow> chat_err fail + MessageMetaDataRes list" where
  "RecentPrivate e a b n d = query e CPage (rev (map fromPrivate (GetRecentPrivateMessages (ch_scan e) a b n d)))"

definition PrivateSince :: "chat_env \<Rightarrow> uuid \<Rightarrow> uuid \<Rightarrow> time \<Rightarrow> nat \<Rightarrow> db \<Rightarrow> chat_err fail + MessageMetaDataRes list" where
  "PrivateSince e a b since n d =
     query e CPage (map fromPrivate (GetPrivateMessagesSince (ch_scan e) a b (pgTime since) n d))"

definition RecentPublic :: "chat_env \<Rightarrow> uuid \<Rightarrow> uuid \<Rightarrow> nat \<Rightarrow> db \<Rightarrow> chat_err fail + MessageMetaDataRes list" where
  "RecentPublic e gid viewer n d = query e CPage (rev (map fromPublic (GetRecentGroupMessages (ch_gscan e) gid viewer n d)))"

text \<open>
  The query: \<open>since\<close> is absent, unreadable, or a time (\<^verbatim>\<open>IsZero\<close> for Go's zero time, which reads
  like an absent one).
\<close>

datatype since = NoSince | BadSince | Since "time option"

record HistoryQuery =
  hq_Since :: since
  hq_Before :: id_text
  hq_Limit :: int

definition parse_query :: "HistoryQuery \<Rightarrow> chat_err + uuid \<times> nat" where
  "parse_query q =
     (if hq_Since q \<noteq> NoSince \<and> hq_Before q \<noteq> NoId then Inl ErrSinceAndBefore
      else
        (let limit = (if hq_Limit q > 0 then nat (min (hq_Limit q) (int maxPage)) else pageSize) in
         case hq_Before q of NoId \<Rightarrow> Inr (Nil_uuid, limit) | BadId \<Rightarrow> Inl ErrBadCursor | Id i \<Rightarrow> Inr (i, limit)))"

definition privateHistory :: "chat_env \<Rightarrow> uuid \<Rightarrow> uuid \<Rightarrow> HistoryQuery \<Rightarrow> db \<Rightarrow> chat_err fail + MessageMetaDataRes list" where
  "privateHistory e me other q d =
     (case parse_query q of Inl err \<Rightarrow> Inl (Sentinel err)
      | Inr (before, limit) \<Rightarrow>
          if before \<noteq> Nil_uuid then PrivateBefore e me other before limit d
          else case hq_Since q of
            BadSince \<Rightarrow> Inl (Sentinel ErrNotValidTimeFmt)
          | Since (Some t) \<Rightarrow> PrivateSince e me other t streamCap d
          | _ \<Rightarrow> RecentPrivate e me other limit d)"

definition groupHistory :: "chat_env \<Rightarrow> uuid \<Rightarrow> uuid \<Rightarrow> HistoryQuery \<Rightarrow> db \<Rightarrow> chat_err fail + MessageMetaDataRes list" where
  "groupHistory e me gid q d =
     (if hq_Since q \<noteq> NoSince then Inl (Sentinel ErrSinceNotSupported)
      else case parse_query q of Inl err \<Rightarrow> Inl (Sentinel err)
      | Inr (before, limit) \<Rightarrow>
          andThen (from_groups (ch_isMember e gid me)) (\<lambda>ok.
            if \<not> ok then Inl (Sentinel ErrNotAuthorized)
            else if before \<noteq> Nil_uuid then GroupBefore e gid me before limit d
            else RecentPublic e gid me limit d))"

text \<open>\<^verbatim>\<open>bannedCache.get\<close> and \<^verbatim>\<open>Suspended\<close>.\<close>

definition banned_get :: "chat_env \<Rightarrow> chat_sys \<Rightarrow> (chat_err fail + uuid list) \<times> chat_sys" where
  "banned_get e s =
     (case cy_banned s of
        Some (ids, fetched) \<Rightarrow>
          if ch_now e - fetched < bannedTTL then (Inr ids, s)
          else (case query e CBanned (AllBannedUsers (cy_db s)) of Inl err \<Rightarrow> (Inl err, s)
                | Inr ids' \<Rightarrow> (Inr ids', s\<lparr>cy_banned := Some (ids', ch_now e)\<rparr>))
      | None \<Rightarrow> (case query e CBanned (AllBannedUsers (cy_db s)) of Inl err \<Rightarrow> (Inl err, s)
                | Inr ids' \<Rightarrow> (Inr ids', s\<lparr>cy_banned := Some (ids', ch_now e)\<rparr>)))"

definition Suspended :: "chat_env \<Rightarrow> uuid list \<Rightarrow> chat_sys \<Rightarrow> (chat_err fail + (uuid \<Rightarrow> bool)) \<times> chat_sys" where
  "Suspended e ids s =
     (if ids = [] then (Inr (\<lambda>_. False), s)
      else case banned_get e s of (Inl err, s1) \<Rightarrow> (Inl err, s1)
      | (Inr banned, s1) \<Rightarrow> (Inr (\<lambda>i. i \<in> set ids \<and> i \<in> set banned), s1))"

definition ForgetBans :: "chat_sys \<Rightarrow> chat_sys" where
  "ForgetBans s = s\<lparr>cy_banned := None\<rparr>"

definition ReactionCounts :: "chat_env \<Rightarrow> string \<Rightarrow> uuid \<Rightarrow> uuid list \<Rightarrow> db \<Rightarrow> chat_err fail + (uuid \<Rightarrow> (string \<times> nat \<times> bool) list)" where
  "ReactionCounts e kind me ids d =
     (if ids = [] then Inr (\<lambda>_. [])
      else query e CSummary (\<lambda>i. map snd (filter (\<lambda>x. fst x = i)
        (if kind = TypePrivate then PrivateReactionSummary me ids d else GroupReactionSummary me ids d))))"

text \<open>What a page entry looks like with its current state, for a sender who is suspended or not.\<close>

definition with_state_of :: "(uuid \<Rightarrow> (string \<times> nat \<times> bool) list) \<Rightarrow> (uuid \<Rightarrow> Attachment list) \<Rightarrow> (uuid \<Rightarrow> bool) \<Rightarrow>
    MessageMetaDataRes \<Rightarrow> MessageMetaDataRes" where
  "with_state_of counts att banned m =
     (let m1 = m\<lparr>mr_Content := (if mr_Deleted m then [] else mr_Content m), mr_Reactions := counts (mr_ID m),
                mr_Media := (if mr_Deleted m then [] else att (mr_ID m))\<rparr>
      in if banned (mr_FromID m)
         then m1\<lparr>mr_SenderSuspended := True, mr_Content := [], mr_Media := [], mr_Reactions := []\<rparr> else m1)"

fun all_attached :: "chat_env \<Rightarrow> uuid list \<Rightarrow> chat_err fail + (uuid \<Rightarrow> Attachment list)" where
  "all_attached e [] = Inr (\<lambda>_. [])"
| "all_attached e (i # is) = andThen (ch_attached e i) (\<lambda>a. andThen (all_attached e is) (\<lambda>f. Inr (f(i := a))))"

definition withState :: "chat_env \<Rightarrow> string \<Rightarrow> uuid \<Rightarrow> MessageMetaDataRes list \<Rightarrow> chat_sys \<Rightarrow>
    (chat_err fail + MessageMetaDataRes list) \<times> chat_sys" where
  "withState e kind me msgs s =
     (let ids = map mr_ID msgs in
      case ReactionCounts e kind me ids (cy_db s) of Inl err \<Rightarrow> (Inl err, s)
      | Inr counts \<Rightarrow>
          (case (if ch_media e then all_attached e ids else Inr (\<lambda>_. [])) of Inl err \<Rightarrow> (Inl err, s)
           | Inr att \<Rightarrow>
               (case Suspended e (filter (\<lambda>u. u \<noteq> Nil_uuid) (remdups (map mr_FromID msgs))) s of
                  (Inl err, s1) \<Rightarrow> (Inl err, s1)
                | (Inr banned, s1) \<Rightarrow> (Inr (map (with_state_of counts att banned) msgs), s1))))"

definition PrivateMessages :: "chat_env \<Rightarrow> uuid \<Rightarrow> uuid \<Rightarrow> HistoryQuery \<Rightarrow> chat_sys \<Rightarrow>
    (chat_err fail + MessageMetaDataRes list) \<times> chat_sys" where
  "PrivateMessages e me other q s =
     (case privateHistory e me other q (cy_db s) of Inl err \<Rightarrow> (Inl err, s) | Inr msgs \<Rightarrow> withState e TypePrivate me msgs s)"

definition GroupMessages :: "chat_env \<Rightarrow> uuid \<Rightarrow> uuid \<Rightarrow> HistoryQuery \<Rightarrow> chat_sys \<Rightarrow>
    (chat_err fail + MessageMetaDataRes list) \<times> chat_sys" where
  "GroupMessages e me gid q s =
     (case groupHistory e me gid q (cy_db s) of Inl err \<Rightarrow> (Inl err, s) | Inr msgs \<Rightarrow> withState e TypePublic me msgs s)"

section \<open>Read markers\<close>

definition repo_MarkGroupRead :: "chat_env \<Rightarrow> uuid \<Rightarrow> uuid \<Rightarrow> uuid \<Rightarrow> db \<Rightarrow> chat_err fail + bool \<times> db" where
  "repo_MarkGroupRead e gid u i d =
     (case faulty (ch_fails e CCursor) (GroupMessageCursor i gid d) of
        Inl NoRows \<Rightarrow> Inl (Sentinel ErrMessageNotInChat) | Inl err \<Rightarrow> Inl (DbFail err)
      | Inr _ \<Rightarrow> andThen (dbcall (ch_fails e CMarkRead) (MarkGroupRead (ch_dbnow e) gid u i d)) (\<lambda>(n, d'). Inr (n > 0, d')))"

definition svc_MarkGroupRead :: "chat_env \<Rightarrow> uuid \<Rightarrow> uuid \<Rightarrow> id_text \<Rightarrow> chat_sys \<Rightarrow> unit chat_result" where
  "svc_MarkGroupRead e me gid raw s =
     (case raw of
        Id i \<Rightarrow>
          (case from_groups (ch_members e gid) of
             Inl err \<Rightarrow> (Inl err, s, [])
           | Inr members \<Rightarrow>
               if me \<notin> set members then (Inl (Sentinel ErrNotAuthorized), s, [])
               else case repo_MarkGroupRead e gid me i (cy_db s) of
                 Inl err \<Rightarrow> (Inl err, s, [])
               | Inr (moved, d') \<Rightarrow>
                   let s1 = s\<lparr>cy_db := d'\<rparr> in
                   if \<not> moved \<or> length members > ReadByMaxMembers then (Inr (), s1, [])
                   else case query e CSenders (RecentGroupSenders gid i d') of
                     Inl _ \<Rightarrow> (Inr (), s1, [])
                   | Inr senders \<Rightarrow> (Inr (), s1,
                       [WriteToUsers (me # filter (\<lambda>u. u \<noteq> me \<and> u \<in> set members) senders)
                          (Event EventGroupRead (OutGroupReadEvent gid me i))]))
      | _ \<Rightarrow> (Inl (Sentinel ErrNotValidUUID), s, []))"

definition SeenAllowed :: "chat_env \<Rightarrow> uuid \<Rightarrow> uuid \<Rightarrow> bool option" where
  "SeenAllowed e u to = (if u = to then Some False else ch_friends e u to)"

definition MarkSeen :: "chat_env \<Rightarrow> uuid \<Rightarrow> uuid \<Rightarrow> id_text \<Rightarrow> chat_sys \<Rightarrow> unit chat_result" where
  "MarkSeen e me other raw s =
     (case raw of
        Id i \<Rightarrow>
          (case query e CParent (PrivateMessageInChat i me other (cy_db s)) of
             Inl err \<Rightarrow> (Inl err, s, [])
           | Inr inChat \<Rightarrow>
               if \<not> inChat then (Inl (Sentinel ErrMessageNotInChat), s, [])
               else if ch_fails e CSetSeen \<or> ch_fails e CPublish then (Inl (DbFail OtherDb), s, [])
               else (Inr (), s\<lparr>cy_seen := cy_seen s @ [(PrivateChatID me other, i, me)]\<rparr>,
                 if SeenAllowed e me other = Some True
                 then [WriteToUsers [other] (Event EventSeen (OutGoingEventForSeen i me))] else []))
      | _ \<Rightarrow> (Inl (Sentinel ErrNotValidUUID), s, []))"

text \<open>
  A worker stores a published receipt: \<open>Some False\<close> drops the job (a data error),
  \<open>Some True\<close> is done, \<open>None\<close> an error that is retried.
\<close>

definition HandleSeen :: "chat_env \<Rightarrow> string \<times> uuid \<times> uuid \<Rightarrow> chat_sys \<Rightarrow> bool option \<times> chat_sys" where
  "HandleSeen e job s = (case job of (chat, i, u) \<Rightarrow>
     (case faulty (ch_fails e CSeenWrite) (AddLastSeenMessage chat i u (cy_db s)) of
        Inl DataException \<Rightarrow> (Some False, s) | Inl _ \<Rightarrow> (None, s) | Inr d' \<Rightarrow> (Some True, s\<lparr>cy_db := d'\<rparr>)))"

section \<open>Typing\<close>

definition TypingTargets :: "chat_env \<Rightarrow> uuid \<Rightarrow> uuid \<Rightarrow> bool \<Rightarrow> chat_err fail + uuid list" where
  "TypingTargets e u to isGroup =
     (if \<not> isGroup then
        (case ch_friends e u to of None \<Rightarrow> Inl (DbFail OtherDb) | Some ok \<Rightarrow> Inr (if ok then [to] else []))
      else case from_groups (ch_members e to) of
        Inl err \<Rightarrow> if err = Sentinel (GroupsErr ErrNotFoundGroup) then Inr [] else Inl err
      | Inr members \<Rightarrow> Inr (if u \<notin> set members then [] else without u members))"

section \<open>Forwarding\<close>

definition MessageContent :: "chat_env \<Rightarrow> string \<Rightarrow> uuid \<Rightarrow> db \<Rightarrow> chat_err fail + string \<times> bool" where
  "MessageContent e kind i d =
     (case faulty (ch_fails e CContent) (if kind = TypePrivate then PrivateMessageContent i d else GroupMessageContent i d) of
        Inl NoRows \<Rightarrow> Inl (Sentinel ErrMessageNotFound) | Inl err \<Rightarrow> Inl (DbFail err)
      | Inr (c, del) \<Rightarrow> Inr (case c of None \<Rightarrow> [] | Some t \<Rightarrow> t, del \<noteq> None))"

fun duplicate_all :: "chat_env \<Rightarrow> uuid \<Rightarrow> Attachment list \<Rightarrow> chat_err fail + uuid list" where
  "duplicate_all e me [] = Inr []"
| "duplicate_all e me (a # as) = andThen (ch_duplicate e me (at_ID a)) (\<lambda>i. andThen (duplicate_all e me as) (\<lambda>is. Inr (i # is)))"

text \<open>
  Each target is sent to on its own; \<open>es\<close> is the surroundings of each send (its own new id).
  A result is the new message's id or the error.
\<close>

fun forward_loop :: "chat_env list \<Rightarrow> uuid \<Rightarrow> string \<Rightarrow> Attachment list \<Rightarrow> (string \<times> id_text) list \<Rightarrow> chat_sys \<Rightarrow>
    (chat_err fail + uuid) list \<times> chat_sys \<times> effect list" where
  "forward_loop (e # es) me content src ((ty, to) # ts) s =
     (let (r, s1, fs) = (case duplicate_all e me src of
            Inl err \<Rightarrow> (Inl err, s, [])
          | Inr media \<Rightarrow> send e me \<lparr>in_Content = content, in_ParendID = NoId, in_ToID = to, in_Type = ty,
              in_Media = media, in_Forwarded = True\<rparr> s);
          (rs, s2, gs) = forward_loop es me content src ts s1
      in (r # rs, s2, fs @ gs))"
| "forward_loop _ _ _ _ _ s = ([], s, [])"

definition Forward :: "chat_env \<Rightarrow> chat_env list \<Rightarrow> uuid \<Rightarrow> uuid \<Rightarrow> (string \<times> id_text) list \<Rightarrow> chat_sys \<Rightarrow>
    (chat_err fail + uuid) list chat_result" where
  "Forward e es me i to s =
     (if to = [] \<or> length to > MaxForwardTargets then (Inl (Sentinel ErrBadForward), s, [])
      else case andThen (authorizeMessage e me i False (cy_db s)) (\<lambda>(ref, _).
          andThen (MessageContent e (rf_Kind ref) i (cy_db s)) (\<lambda>(content, deleted).
            if deleted then Inl (Sentinel ErrMessageNotFound) else Inr (ref, content))) of
        Inl err \<Rightarrow> (Inl err, s, [])
      | Inr (ref, content) \<Rightarrow>
          (case (if rf_From ref = Nil_uuid then (Inr (\<lambda>_. False), s) else Suspended e [rf_From ref] s) of
             (Inl err, s1) \<Rightarrow> (Inl err, s1, [])
           | (Inr banned, s1) \<Rightarrow>
               if banned (rf_From ref) then (Inl (Sentinel ErrMessageNotFound), s1, [])
               else case (if ch_media e then ch_attached e i else Inr []) of
                 Inl err \<Rightarrow> (Inl err, s1, [])
               | Inr src \<Rightarrow> (case forward_loop es me content src to s1 of (rs, s2, fs) \<Rightarrow> (Inr rs, s2, fs))))"

section \<open>All operations\<close>

datatype chat_op =
    OpMessage uuid InCommingMessage
  | OpEdit uuid uuid string
  | OpDelete uuid uuid
  | OpReact uuid uuid string
  | OpUnreact uuid uuid
  | OpForward "chat_env list" uuid uuid "(string \<times> id_text) list"
  | OpGroupRead uuid uuid id_text
  | OpSeen uuid uuid id_text
  | OpWorker "string \<times> uuid \<times> uuid"
  | OpPrivateHistory uuid uuid HistoryQuery
  | OpGroupHistory uuid uuid HistoryQuery
  | OpForgetBans

definition no_value :: "'a chat_result \<Rightarrow> unit chat_result" where
  "no_value r = (case r of (x, s, es) \<Rightarrow> (case x of Inl err \<Rightarrow> Inl err | Inr _ \<Rightarrow> Inr (), s, es))"

text \<open>A worker may take a receipt more than once and in any order, but only one that was published.\<close>

fun chat_exec :: "chat_env \<Rightarrow> chat_op \<Rightarrow> chat_sys \<Rightarrow> unit chat_result" where
  "chat_exec e (OpMessage u m) s = no_value (send e u m s)"
| "chat_exec e (OpEdit u i t) s = no_value (EditMessage e u i t s)"
| "chat_exec e (OpDelete u i) s = DeleteMessage e u i s"
| "chat_exec e (OpReact u i em) s = React e u i em s"
| "chat_exec e (OpUnreact u i) s = Unreact e u i s"
| "chat_exec e (OpForward es u i to) s = no_value (Forward e es u i to s)"
| "chat_exec e (OpGroupRead u gid i) s = svc_MarkGroupRead e u gid i s"
| "chat_exec e (OpSeen u other i) s = MarkSeen e u other i s"
| "chat_exec e (OpWorker j) s = (if j \<in> set (cy_seen s) then (Inr (), snd (HandleSeen e j s), []) else (Inr (), s, []))"
| "chat_exec e (OpPrivateHistory u other q) s = (Inr (), snd (PrivateMessages e u other q s), [])"
| "chat_exec e (OpGroupHistory u gid q) s = (Inr (), snd (GroupMessages e u gid q s), [])"
| "chat_exec e OpForgetBans s = (Inr (), ForgetBans s, [])"

fun chat_run :: "(chat_env \<times> chat_op) list \<Rightarrow> chat_sys \<Rightarrow> chat_sys" where
  "chat_run [] s = s"
| "chat_run ((e, op) # ops) s = chat_run ops (fst (snd (chat_exec e op s)))"

end
