(* ===== verification/Chat_Steps.thy ===== *)
theory Chat_Steps
  imports Chat_Read
begin

text \<open>
  What chat may do to the tables, as a relation with one rule for each kind of change and the
  conditions under which it is made. Each operation of the service is shown to make only such
  changes; the invariants of the next theory are proved by induction on the relation.
\<close>

section \<open>The changes\<close>

inductive wrote :: "chat_env \<Rightarrow> uuid \<Rightarrow> db \<Rightarrow> db \<Rightarrow> bool" for e u where
  wrote_private:
    "AddMessagePrivate m d = Inr d' \<Longrightarrow> m_id m = ch_uuid e \<Longrightarrow> m_from_id m = Some u \<Longrightarrow> m_to_id m = Some to \<Longrightarrow>
     to \<noteq> u \<Longrightarrow> ch_friends e u to = Some True \<Longrightarrow> m_content m = Some t \<Longrightarrow> RuneCountInString t \<le> maxMessageLen \<Longrightarrow>
     m_deleted_at m = None \<Longrightarrow> m_edited_at m = None \<Longrightarrow> m_created_at m = pgTime (ch_now e) \<Longrightarrow>
     (\<And>p. m_parentid m = Some p \<Longrightarrow> p \<noteq> Nil_uuid \<Longrightarrow> PrivateMessageInChat p u to d) \<Longrightarrow> wrote e u d d'"
| wrote_group:
    "AddMessagePublic m d = Inr d' \<Longrightarrow> gm_id m = ch_uuid e \<Longrightarrow> gm_from_id m = Some u \<Longrightarrow> gm_group_id m = Some gid \<Longrightarrow>
     ch_members e gid = Inr members \<Longrightarrow> u \<in> set members \<Longrightarrow> gm_content m = Some t \<Longrightarrow>
     RuneCountInString t \<le> maxMessageLen \<Longrightarrow>
     gm_deleted_at m = None \<Longrightarrow> gm_edited_at m = None \<Longrightarrow> gm_created_at m = pgTime (ch_now e) \<Longrightarrow>
     (\<And>p. gm_parent_id m = Some p \<Longrightarrow> p \<noteq> Nil_uuid \<Longrightarrow> GroupMessageInGroup p gid d) \<Longrightarrow> wrote e u d d'"

text \<open>Messages a user can see: their own side of a private chat, or a group's since they joined.\<close>

definition party :: "uuid \<Rightarrow> message_row \<Rightarrow> bool" where
  "party u m \<longleftrightarrow> m_deleted_at m = None \<and> (u = unNull (m_from_id m) \<or> u = unNull (m_to_id m))"

definition reader :: "chat_env \<Rightarrow> uuid \<Rightarrow> db \<Rightarrow> groupmessage_row \<Rightarrow> bool" where
  "reader e u d m \<longleftrightarrow> gm_deleted_at m = None \<and>
     (\<exists>members. ch_members e (unNull (gm_group_id m)) = Inr members \<and> u \<in> set members) \<and>
     (\<exists>j. joined_at (unNull (gm_group_id m)) u d = Some j \<and> j \<le> gm_created_at m)"

definition edited_message :: "chat_env \<Rightarrow> string \<Rightarrow> message_row \<Rightarrow> message_row" where
  "edited_message e t m = m\<lparr>m_content := Some t, m_edited_at := Some (pgTime (ch_now e))\<rparr>"

definition edited_group_message :: "chat_env \<Rightarrow> string \<Rightarrow> groupmessage_row \<Rightarrow> groupmessage_row" where
  "edited_group_message e t m = m\<lparr>gm_content := Some t, gm_edited_at := Some (pgTime (ch_now e))\<rparr>"

definition deleted_message :: "chat_env \<Rightarrow> message_row \<Rightarrow> message_row" where
  "deleted_message e m = m\<lparr>m_content := None, m_deleted_at := Some (pgTime (ch_now e))\<rparr>"

definition deleted_group_message :: "chat_env \<Rightarrow> groupmessage_row \<Rightarrow> groupmessage_row" where
  "deleted_group_message e m = m\<lparr>gm_content := None, gm_deleted_at := Some (pgTime (ch_now e))\<rparr>"

abbreviation live :: "uuid \<Rightarrow> message_row \<Rightarrow> bool" where
  "live i \<equiv> (\<lambda>x. m_id x = i \<and> m_deleted_at x = None)"

abbreviation glive :: "uuid \<Rightarrow> groupmessage_row \<Rightarrow> bool" where
  "glive i \<equiv> (\<lambda>x. gm_id x = i \<and> gm_deleted_at x = None)"

inductive changed_by :: "chat_env \<Rightarrow> chat_op \<Rightarrow> db \<Rightarrow> db \<Rightarrow> bool" for e where
  edit: "m \<in> set (message d) \<Longrightarrow> party u m \<Longrightarrow> unNull (m_from_id m) = u \<Longrightarrow>
     ch_friends e u (unNull (m_to_id m)) = Some True \<Longrightarrow> ch_now e - m_created_at m \<le> EditWindow \<Longrightarrow>
     0 < RuneCountInString (TrimSpace t) \<Longrightarrow> RuneCountInString (TrimSpace t) \<le> maxMessageLen \<Longrightarrow>
     changed_by e (OpEdit u (m_id m) t) d (d\<lparr>message := update_rows (live (m_id m)) (edited_message e (TrimSpace t)) (message d)\<rparr>)"
| edit_group: "m \<in> set (groupmessage d) \<Longrightarrow> reader e u d m \<Longrightarrow> unNull (gm_from_id m) = u \<Longrightarrow>
     ch_now e - gm_created_at m \<le> EditWindow \<Longrightarrow>
     0 < RuneCountInString (TrimSpace t) \<Longrightarrow> RuneCountInString (TrimSpace t) \<le> maxMessageLen \<Longrightarrow>
     changed_by e (OpEdit u (gm_id m) t) d (d\<lparr>groupmessage := update_rows (glive (gm_id m)) (edited_group_message e (TrimSpace t)) (groupmessage d)\<rparr>)"
| delete: "m \<in> set (message d) \<Longrightarrow> party u m \<Longrightarrow> unNull (m_from_id m) = u \<Longrightarrow>
     changed_by e (OpDelete u (m_id m)) d (d\<lparr>message := update_rows (live (m_id m)) (deleted_message e) (message d),
       message_reactions := delete_rows (\<lambda>r. re_message_id r = m_id m) (message_reactions d)\<rparr>)"
| delete_group: "m \<in> set (groupmessage d) \<Longrightarrow> reader e u d m \<Longrightarrow>
     unNull (gm_from_id m) = u \<or> ch_canDelete e (unNull (gm_group_id m)) u (unNull (gm_from_id m)) = Inr True \<Longrightarrow>
     changed_by e (OpDelete u (gm_id m)) d (d\<lparr>groupmessage := update_rows (glive (gm_id m)) (deleted_group_message e) (groupmessage d),
       group_message_reactions := delete_rows (\<lambda>r. re_message_id r = gm_id m) (group_message_reactions d)\<rparr>)"
| react: "m \<in> set (message d) \<Longrightarrow> party u m \<Longrightarrow> ValidateEmoji em \<Longrightarrow>
     ch_friends e u (if u = unNull (m_from_id m) then unNull (m_to_id m) else unNull (m_from_id m)) = Some True \<Longrightarrow>
     changed_by e (OpReact u (m_id m) em) d (d\<lparr>message_reactions := set_reaction (ch_dbnow e) (m_id m) u em (message_reactions d)\<rparr>)"
| react_group: "m \<in> set (groupmessage d) \<Longrightarrow> reader e u d m \<Longrightarrow> ValidateEmoji em \<Longrightarrow>
     changed_by e (OpReact u (gm_id m) em) d (d\<lparr>group_message_reactions :=
       set_reaction (ch_dbnow e) (gm_id m) u em (group_message_reactions d)\<rparr>)"
| unreact: "changed_by e (OpUnreact u i) d (d\<lparr>message_reactions := delete_rows (same_reaction i u) (message_reactions d)\<rparr>)"
| unreact_group: "changed_by e (OpUnreact u i) d (d\<lparr>group_message_reactions := delete_rows (same_reaction i u) (group_message_reactions d)\<rparr>)"
| group_read: "ch_members e gid = Inr members \<Longrightarrow> u \<in> set members \<Longrightarrow>
     GroupMessageCursor i gid d = Inr at \<Longrightarrow> MarkGroupRead now gid u i d = Inr (n, d') \<Longrightarrow> changed_by e (OpGroupRead u gid (Id i)) d d'"

section \<open>Authorisation\<close>

lemma from_groups_Inr [simp]: "from_groups r = Inr a \<longleftrightarrow> r = Inr a"
  by (auto simp: from_groups_def split: sum.splits fail.splits)

lemma from_groups_of_Inr: "from_groups (Inr a) = Inr a"
  by simp

lemma LocateMessage_cases:
  assumes "LocateMessage e i d = Inr ref"
  obtains (direct) m where "m \<in> set (message d)" "m_id m = i" "m_deleted_at m = None"
      "ref = \<lparr>rf_Kind = TypePrivate, rf_From = unNull (m_from_id m), rf_To = unNull (m_to_id m),
        rf_Group = Nil_uuid, rf_CreatedAt = m_created_at m\<rparr>"
    | (ingroup) m where "m \<in> set (groupmessage d)" "gm_id m = i" "gm_deleted_at m = None"
      "ref = \<lparr>rf_Kind = TypePublic, rf_From = unNull (gm_from_id m), rf_To = Nil_uuid,
        rf_Group = unNull (gm_group_id m), rf_CreatedAt = gm_created_at m\<rparr>"
proof (cases "faulty (ch_fails e CLocate) (PrivateMessageParticipants i d)")
  case (Inr x)
  then obtain m where "find_row (\<lambda>m. m_id m = i \<and> m_deleted_at m = None) (message d) = Some m"
      "x = (m_from_id m, m_to_id m, m_created_at m)"
    by (auto simp: PrivateMessageParticipants_def)
  with assms Inr direct [of m] show ?thesis by (auto simp: LocateMessage_def dest: find_row_Some)
next
  case (Inl err)
  then obtain x where "faulty (ch_fails e CLocateGroup) (GroupMessageGroup i d) = Inr x" and
      x: "ref = \<lparr>rf_Kind = TypePublic, rf_From = unNull (fst (snd x)), rf_To = Nil_uuid,
        rf_Group = unNull (fst x), rf_CreatedAt = snd (snd x)\<rparr>"
    using assms by (auto simp: LocateMessage_def split: dberr.splits sum.splits)
  then obtain m where "find_row (\<lambda>m. gm_id m = i \<and> gm_deleted_at m = None) (groupmessage d) = Some m"
      "x = (gm_group_id m, gm_from_id m, gm_created_at m)"
    by (auto simp: GroupMessageGroup_def)
  with x ingroup [of m] show ?thesis by (auto dest: find_row_Some)
qed

lemma JoinedAt_Inr [simp]: "JoinedAt e gid u d = Inr t \<longleftrightarrow> \<not> ch_fails e CJoined \<and> joined_at gid u d = Some t"
  by (auto simp: JoinedAt_def GroupJoinedAt_def faulty_def one_row_def split: option.splits)

lemma authorize_cases:
  assumes "authorizeMessage e u i friends d = Inr (ref, others)"
  obtains (direct) m where "m \<in> set (message d)" "m_id m = i" "party u m"
      "rf_Kind ref = TypePrivate" "rf_From ref = unNull (m_from_id m)" "rf_To ref = unNull (m_to_id m)"
      "rf_CreatedAt ref = m_created_at m"
      "others = [if u = unNull (m_from_id m) then unNull (m_to_id m) else unNull (m_from_id m)]"
      "friends \<Longrightarrow> ch_friends e u (hd others) = Some True"
    | (ingroup) m members where "m \<in> set (groupmessage d)" "gm_id m = i" "reader e u d m"
      "rf_Kind ref = TypePublic" "rf_From ref = unNull (gm_from_id m)" "rf_Group ref = unNull (gm_group_id m)"
      "rf_CreatedAt ref = gm_created_at m"
      "ch_members e (rf_Group ref) = Inr members" "u \<in> set members" "others = without u members"
proof -
  from assms obtain r0 where loc: "LocateMessage e i d = Inr r0" by (auto simp: authorizeMessage_def)
  from this show ?thesis
  proof (cases rule: LocateMessage_cases)
    case (direct m)
    with assms loc that(1) [of m] show ?thesis
      by (auto simp: authorizeMessage_def party_def Let_def split: if_splits option.splits)
  next
    case (ingroup m)
    with assms loc obtain members j where "ch_members e (unNull (gm_group_id m)) = Inr members" "u \<in> set members"
        "joined_at (unNull (gm_group_id m)) u d = Some j" "j \<le> gm_created_at m" "ref = r0" "others = without u members"
      by (auto simp: authorizeMessage_def split: if_splits sum.splits)
    with ingroup that(2) [of m members] show ?thesis by (auto simp: reader_def)
  qed
qed

section \<open>Each operation makes only such changes\<close>

lemma update_rows_cong: "(\<And>r. p r \<Longrightarrow> f r = g r) \<Longrightarrow> update_rows p f rows = update_rows p g rows"
  by (auto simp: update_rows_def)

lemma live_edit_eq: "m \<in> set rows \<Longrightarrow> f m \<Longrightarrow> 0 < length (filter f rows)"
  by (auto simp: filter_empty_conv)

lemma parentOf_Inr: "parentOf m = Inr p \<Longrightarrow> pgOptUUID (in_ParendID m) = Some q \<Longrightarrow> p = q"
  by (auto simp: parentOf_def pgOptUUID_def split: id_text.splits)

lemma targetsOf_Inr:
  assumes "targetsOf e u to ty = Inr targets"
  obtains (direct) "ty = TypePrivate" "ch_friends e u to = Some True" "targets = [to]"
    | (ingroup) members where "ty = TypePublic" "ch_members e to = Inr members" "u \<in> set members"
        "targets = without u members"
  using assms by (auto simp: targetsOf_def split: if_splits option.splits)

text \<open>What a checked message is like.\<close>

lemma send_checks_Inr:
  assumes "send_checks e u in0 d = Inr (m, to, targets)"
  shows "m = in0\<lparr>in_Content := TrimSpace (in_Content in0)\<rparr>" "in_ToID m = Id to" "to \<noteq> u"
    "RuneCountInString (in_Content m) \<le> maxMessageLen" "targetsOf e u to (in_Type m) = Inr targets"
    "\<And>p. pgOptUUID (in_ParendID m) = Some p \<Longrightarrow> p \<noteq> Nil_uuid \<Longrightarrow>
      (if in_Type m = TypePrivate then PrivateMessageInChat p u to d else GroupMessageInGroup p to d)"
    "in_Content m \<noteq> [] \<or> in_Media m \<noteq> []"
proof -
  let ?m = "in0\<lparr>in_Content := TrimSpace (in_Content in0)\<rparr>"
  obtain t where to: "in_ToID in0 = Id t" and tu: "t \<noteq> u"
      and len: "\<not> ((RuneCountInString (in_Content ?m) = 0 \<and> in_Media ?m = []) \<or> RuneCountInString (in_Content ?m) > maxMessageLen)"
    using assms by (auto simp: send_checks_def Let_def split: if_splits id_text.splits)
  obtain p ts where p: "parentOf ?m = Inr p" and ts: "targetsOf e u t (in_Type in0) = Inr ts"
      and res: "(if p = Nil_uuid then Inr (?m, t, ts) else andThen (parentInChat e (in_Type in0) p u t d) (\<lambda>ok.
                if \<not> ok then Inl (Sentinel ErrNotValidParentID) else Inr (?m, t, ts))) = Inr (m, to, targets)"
    using assms to tu len by (auto simp: send_checks_def Let_def split: if_splits)
  have eq: "m = ?m" "to = t" "targets = ts" using res by (auto split: if_splits)
  show "m = ?m" by (rule eq)
  show "in_ToID m = Id to" "to \<noteq> u" "RuneCountInString (in_Content m) \<le> maxMessageLen"
    using eq to tu len by auto
  show "targetsOf e u to (in_Type m) = Inr targets" using eq ts by simp
  show "if in_Type m = TypePrivate then PrivateMessageInChat q u to d else GroupMessageInGroup q to d"
    if "pgOptUUID (in_ParendID m) = Some q" "q \<noteq> Nil_uuid" for q
  proof -
    have "p = q" using parentOf_Inr [OF p] that(1) eq(1) by simp
    with res that(2) eq show ?thesis by (auto simp: parentInChat_def split: if_splits)
  qed
  show "in_Content m \<noteq> [] \<or> in_Media m \<noteq> []" using eq(1) len by (auto simp: RuneCountInString_def)
qed

lemma addMessage_wrote:
  assumes "send_checks e u in0 d = Inr (m, to, targets)" "addMessage e (ch_uuid e) u m d = Inr d'"
  shows "wrote e u d d'"
proof -
  note c = send_checks_Inr [OF assms(1)]
  have to: "pgOptUUID (in_ToID m) = Some to" using c(2) by (simp add: pgOptUUID_def)
  from c(5) show ?thesis
  proof (cases rule: targetsOf_Inr)
    case direct
    with assms(2) have add: "AddMessagePrivate
        \<lparr>m_id = ch_uuid e, m_content = Some (in_Content m), m_parentid = pgOptUUID (in_ParendID m), m_from_id = Some u,
         m_to_id = pgOptUUID (in_ToID m), m_deleted_at = None, m_created_at = pgTime (ch_now e), m_edited_at = None,
         m_forwarded = in_Forwarded m\<rparr> d = Inr d'"
      by (simp add: addMessage_def)
    show ?thesis
      by (rule wrote_private [OF add, where to = to and t = "in_Content m"]) (use c to direct in simp_all)
  next
    case (ingroup members)
    with assms(2) have add: "AddMessagePublic
        \<lparr>gm_id = ch_uuid e, gm_content = Some (in_Content m), gm_group_id = pgOptUUID (in_ToID m), gm_from_id = Some u,
         gm_parent_id = pgOptUUID (in_ParendID m), gm_created_at = pgTime (ch_now e), gm_deleted_at = None,
         gm_edited_at = None, gm_searchable = False, gm_forwarded = in_Forwarded m\<rparr> d = Inr d'"
      by (simp add: addMessage_def)
    show ?thesis
      by (rule wrote_group [OF add, where gid = to and members = members and t = "in_Content m"])
        (use c to ingroup in simp_all)
  qed
qed

lemma send_wrote:
  assumes "send e u in0 s = (r, s', es)"
  shows "(cy_db s' = cy_db s \<or> wrote e u (cy_db s) (cy_db s')) \<and> cy_banned s' = cy_banned s \<and> cy_seen s' = cy_seen s"
  using assms addMessage_wrote
  by (auto simp: send_def split: sum.splits prod.splits)

lemma forward_loop_wrote:
  "forward_loop es u t src to s = (rs, s', fs) \<Longrightarrow>
   (\<lambda>d d'. \<exists>e \<in> set es. wrote e u d d')\<^sup>*\<^sup>* (cy_db s) (cy_db s') \<and> cy_seen s' = cy_seen s"
proof (induction es u t src to s arbitrary: rs s' fs rule: forward_loop.induct)
  case (1 e es u t src ty to ts s)
  let ?first = "case duplicate_all e u src of Inl err \<Rightarrow> (Inl err, s, []) | Inr media \<Rightarrow>
    send e u \<lparr>in_Content = t, in_ParendID = NoId, in_ToID = to, in_Type = ty, in_Media = media, in_Forwarded = True\<rparr> s"
  obtain r s1 fs1 where f: "?first = (r, s1, fs1)" by (metis prod_cases3)
  obtain rs' gs where l: "forward_loop es u t src ts s1 = (rs', s', gs)"
    using 1(2) f by (cases "forward_loop es u t src ts s1") (auto simp: Let_def)
  have one: "(cy_db s1 = cy_db s \<or> wrote e u (cy_db s) (cy_db s1)) \<and> cy_seen s1 = cy_seen s"
    using f send_wrote by (cases "duplicate_all e u src") force+
  note ih = 1(1) [OF refl f [symmetric] refl l]
  let ?R = "\<lambda>es d d'. \<exists>e \<in> set es. wrote e u d d'"
  have "(?R (e # es))\<^sup>*\<^sup>* (cy_db s1) (cy_db s')"
    using ih by (auto elim!: rtranclp_mono [THEN predicate2D, rotated])
  moreover have "(?R (e # es))\<^sup>*\<^sup>* (cy_db s) (cy_db s1)" using one by auto
  ultimately show ?case using ih one by (auto intro: rtranclp_trans)
qed auto

lemma EditMessage_changes:
  assumes "EditMessage e u i t s = (r, s', es)"
  shows "(cy_db s' = cy_db s \<or> changed_by e (OpEdit u i t) (cy_db s) (cy_db s')) \<and> cy_seen s' = cy_seen s"
proof (cases "cy_db s' = cy_db s")
  case False
  let ?t = "TrimSpace t"
  have len: "0 < RuneCountInString ?t" "RuneCountInString ?t \<le> maxMessageLen"
    using assms False by (auto simp: EditMessage_def Let_def split: if_splits)
  obtain ref others where auth: "authorizeMessage e u i True (cy_db s) = Inr (ref, others)"
    using assms False len by (auto simp: EditMessage_def Let_def split: sum.splits)
  have mine: "rf_From ref = u" "ch_now e - rf_CreatedAt ref \<le> EditWindow"
    using assms False len auth by (auto simp: EditMessage_def Let_def split: if_splits)
  obtain ok d' where e: "repo_Edit e (rf_Kind ref) i ?t (ch_now e) (cy_db s) = Inr (ok, d')"
    using assms False len auth mine by (auto simp: EditMessage_def Let_def split: sum.splits)
  have d': "cy_db s' = d'" "cy_seen s' = cy_seen s"
    using assms len auth mine e by (auto simp: EditMessage_def Let_def split: if_splits)
  from auth show ?thesis
  proof (cases rule: authorize_cases)
    case (direct m)
    have "d' = (cy_db s)\<lparr>message := update_rows (live (m_id m)) (edited_message e ?t) (message (cy_db s))\<rparr>"
      using e direct by (auto simp: repo_Edit_def EditPrivateMessage_def Let_def edited_message_def [abs_def] split: if_splits)
    moreover have "changed_by e (OpEdit u (m_id m) t) (cy_db s) ((cy_db s)\<lparr>message := update_rows (live (m_id m)) (edited_message e ?t) (message (cy_db s))\<rparr>)"
      by (rule edit) (use direct mine len in auto)
    ultimately show ?thesis using d' direct(2) by simp
  next
    case (ingroup m members)
    have "d' = (cy_db s)\<lparr>groupmessage := update_rows (glive (gm_id m)) (edited_group_message e ?t) (groupmessage (cy_db s))\<rparr>"
      using e ingroup by (auto simp: repo_Edit_def EditGroupMessage_def Let_def edited_group_message_def [abs_def] split: if_splits)
    moreover have "changed_by e (OpEdit u (gm_id m) t) (cy_db s) ((cy_db s)\<lparr>groupmessage := update_rows (glive (gm_id m)) (edited_group_message e ?t) (groupmessage (cy_db s))\<rparr>)"
      by (rule edit_group) (use ingroup mine len in auto)
    ultimately show ?thesis using d' ingroup(2) by simp
  qed
qed (use assms in \<open>auto simp: EditMessage_def Let_def split: if_splits sum.splits\<close>)

lemma DeleteMessage_changes:
  assumes "DeleteMessage e u i s = (r, s', es)"
  shows "(cy_db s' = cy_db s \<or> changed_by e (OpDelete u i) (cy_db s) (cy_db s')) \<and> cy_seen s' = cy_seen s"
proof (cases "cy_db s' = cy_db s")
  case False
  obtain ref others where auth: "authorizeMessage e u i False (cy_db s) = Inr (ref, others)"
    using assms False by (auto simp: DeleteMessage_def split: sum.splits)
  obtain ok d' where may: "may_delete e u ref = Inr ()"
      and e: "repo_DeleteMessage e (rf_Kind ref) i (ch_now e) (cy_db s) = Inr (ok, d')"
    using assms False auth by (auto simp: DeleteMessage_def split: sum.splits)
  have d': "cy_db s' = d'" "cy_seen s' = cy_seen s"
    using assms auth may e by (auto simp: DeleteMessage_def split: if_splits)
  from auth show ?thesis
  proof (cases rule: authorize_cases)
    case (direct m)
    have some: "0 < length (filter (live i) (message (cy_db s)))"
      using live_edit_eq [of m "message (cy_db s)" "live i"] direct by (auto simp: party_def)
    have "d' = (cy_db s)\<lparr>message := update_rows (live (m_id m)) (deleted_message e) (message (cy_db s)),
        message_reactions := delete_rows (\<lambda>r. re_message_id r = m_id m) (message_reactions (cy_db s))\<rparr>"
      using e direct some by (auto simp: repo_DeleteMessage_def DeletePrivateMessage_def Let_def deleted_message_def [abs_def])
    moreover have "changed_by e (OpDelete u (m_id m)) (cy_db s) ((cy_db s)\<lparr>message := update_rows (live (m_id m)) (deleted_message e) (message (cy_db s)),
        message_reactions := delete_rows (\<lambda>r. re_message_id r = m_id m) (message_reactions (cy_db s))\<rparr>)"
      by (rule delete) (use direct may in \<open>auto simp: may_delete_def split: if_splits\<close>)
    ultimately show ?thesis using d' direct(2) by simp
  next
    case (ingroup m members)
    have some: "0 < length (filter (glive i) (groupmessage (cy_db s)))"
      using live_edit_eq [of m "groupmessage (cy_db s)" "glive i"] ingroup by (auto simp: reader_def)
    have "d' = (cy_db s)\<lparr>groupmessage := update_rows (glive (gm_id m)) (deleted_group_message e) (groupmessage (cy_db s)),
        group_message_reactions := delete_rows (\<lambda>r. re_message_id r = gm_id m) (group_message_reactions (cy_db s))\<rparr>"
      using e ingroup some by (auto simp: repo_DeleteMessage_def DeleteGroupMessage_def Let_def deleted_group_message_def [abs_def])
    moreover have "changed_by e (OpDelete u (gm_id m)) (cy_db s) ((cy_db s)\<lparr>groupmessage := update_rows (glive (gm_id m)) (deleted_group_message e) (groupmessage (cy_db s)),
        group_message_reactions := delete_rows (\<lambda>r. re_message_id r = gm_id m) (group_message_reactions (cy_db s))\<rparr>)"
      by (rule delete_group) (use ingroup may in \<open>auto simp: may_delete_def split: if_splits\<close>)
    ultimately show ?thesis using d' ingroup(2) by simp
  qed
qed (use assms in \<open>auto simp: DeleteMessage_def split: if_splits sum.splits\<close>)

lemma React_changes:
  assumes "React e u i em s = (r, s', es)"
  shows "(cy_db s' = cy_db s \<or> changed_by e (OpReact u i em) (cy_db s) (cy_db s')) \<and> cy_seen s' = cy_seen s"
proof (cases "cy_db s' = cy_db s")
  case False
  obtain ref others where ok: "ValidateEmoji em" and auth: "authorizeMessage e u i True (cy_db s) = Inr (ref, others)"
    using assms False by (auto simp: React_def split: sum.splits if_splits)
  obtain d' where e: "(if rf_Kind ref = TypePrivate then SetPrivateReaction (ch_dbnow e) i u em (cy_db s)
      else SetGroupReaction (ch_dbnow e) i u em (cy_db s)) = Inr d'"
    using assms False auth ok by (auto simp: React_def split: sum.splits)
  have d': "cy_db s' = d'" "cy_seen s' = cy_seen s"
    using assms auth e ok False by (auto simp: React_def split: sum.splits)
  from auth show ?thesis
  proof (cases rule: authorize_cases)
    case (direct m)
    have "d' = (cy_db s)\<lparr>message_reactions := set_reaction (ch_dbnow e) (m_id m) u em (message_reactions (cy_db s))\<rparr>"
      using e direct by (auto simp: SetPrivateReaction_def split: option.splits)
    moreover have "changed_by e (OpReact u (m_id m) em) (cy_db s) ((cy_db s)\<lparr>message_reactions := set_reaction (ch_dbnow e) (m_id m) u em (message_reactions (cy_db s))\<rparr>)"
      by (rule react) (use direct ok in auto)
    ultimately show ?thesis using d' direct(2) by simp
  next
    case (ingroup m members)
    have "d' = (cy_db s)\<lparr>group_message_reactions := set_reaction (ch_dbnow e) (gm_id m) u em (group_message_reactions (cy_db s))\<rparr>"
      using e ingroup by (auto simp: SetGroupReaction_def split: option.splits)
    moreover have "changed_by e (OpReact u (gm_id m) em) (cy_db s) ((cy_db s)\<lparr>group_message_reactions := set_reaction (ch_dbnow e) (gm_id m) u em (group_message_reactions (cy_db s))\<rparr>)"
      by (rule react_group) (use ingroup ok in auto)
    ultimately show ?thesis using d' ingroup(2) by simp
  qed
qed (use assms in \<open>auto simp: React_def split: if_splits sum.splits\<close>)

lemma Unreact_changes:
  assumes "Unreact e u i s = (r, s', es)"
  shows "(cy_db s' = cy_db s \<or> changed_by e (OpUnreact u i) (cy_db s) (cy_db s')) \<and> cy_seen s' = cy_seen s"
proof -
  note un = unreact [of e u i "cy_db s"] unreact_group [of e u i "cy_db s"]
  have "s' = s \<or> s' = s\<lparr>cy_db := (cy_db s)\<lparr>message_reactions := delete_rows (same_reaction i u) (message_reactions (cy_db s))\<rparr>\<rparr> \<or>
      s' = s\<lparr>cy_db := (cy_db s)\<lparr>group_message_reactions := delete_rows (same_reaction i u) (group_message_reactions (cy_db s))\<rparr>\<rparr>"
    using assms
    by (auto simp: Unreact_def DeletePrivateReaction_def DeleteGroupReaction_def split: sum.splits if_splits)
  then show ?thesis using un by (elim disjE) simp_all
qed

lemma svc_MarkGroupRead_changes:
  assumes "svc_MarkGroupRead e u gid raw s = (r, s', es)"
  shows "(cy_db s' = cy_db s \<or> changed_by e (OpGroupRead u gid raw) (cy_db s) (cy_db s')) \<and> cy_seen s' = cy_seen s"
proof (cases "cy_db s' = cy_db s")
  case False
  obtain i members where raw: "raw = Id i" and m: "ch_members e gid = Inr members" "u \<in> set members"
    using assms False by (auto simp: svc_MarkGroupRead_def split: id_text.splits sum.splits if_splits)
  obtain moved d' where r: "repo_MarkGroupRead e gid u i (cy_db s) = Inr (moved, d')"
    using assms False raw m by (auto simp: svc_MarkGroupRead_def split: sum.splits)
  have d': "cy_db s' = d'" "cy_seen s' = cy_seen s"
    using assms raw m r by (auto simp: svc_MarkGroupRead_def from_groups_of_Inr Let_def split: sum.splits if_splits)
  obtain at where c: "GroupMessageCursor i gid (cy_db s) = Inr at"
      and mk: "\<exists>n. MarkGroupRead (ch_dbnow e) gid u i (cy_db s) = Inr (n, d')"
    using r by (auto simp: repo_MarkGroupRead_def split: sum.splits dberr.splits)
  then show ?thesis using group_read [OF m c] d' raw by auto
qed (use assms in \<open>auto simp: svc_MarkGroupRead_def Let_def split: if_splits sum.splits id_text.splits\<close>)

lemma Suspended_frame: "Suspended e is s = (r, s') \<Longrightarrow> cy_db s' = cy_db s \<and> cy_seen s' = cy_seen s"
  by (auto simp: Suspended_def banned_get_def split: if_splits option.splits sum.splits prod.splits)

lemma withState_frame: "withState e k u ms s = (r, s') \<Longrightarrow> cy_db s' = cy_db s \<and> cy_seen s' = cy_seen s"
  by (auto simp: withState_def Let_def dest!: Suspended_frame split: if_splits sum.splits prod.splits)

lemma PrivateMessages_frame [simp]: "cy_db (snd (PrivateMessages e u v q s)) = cy_db s"
    "cy_seen (snd (PrivateMessages e u v q s)) = cy_seen s"
  by (cases "PrivateMessages e u v q s";
      auto simp: PrivateMessages_def dest!: withState_frame split: sum.splits)+

lemma GroupMessages_frame [simp]: "cy_db (snd (GroupMessages e u gid q s)) = cy_db s"
    "cy_seen (snd (GroupMessages e u gid q s)) = cy_seen s"
  by (cases "GroupMessages e u gid q s";
      auto simp: GroupMessages_def dest!: withState_frame split: sum.splits)+

lemma Forward_wrote:
  assumes "Forward e es u i to s = (r, s', fs)"
  shows "(\<lambda>d d'. \<exists>e \<in> set es. wrote e u d d')\<^sup>*\<^sup>* (cy_db s) (cy_db s') \<and> cy_seen s' = cy_seen s"
  using assms
  by (fastforce simp: Forward_def dest!: forward_loop_wrote Suspended_frame split: if_splits sum.splits prod.splits)

end
