(* ===== verification/Groups_Access.thy ===== *)
theory Groups_Access
  imports Groups_Safety
begin

text \<open>
  Who can do what to a group, what an outsider can learn about it, who takes over when the
  admin leaves, and what a search finds.
\<close>

section \<open>Handover\<close>

text \<open>The order of succession: moderators first, then by join time, then by id.\<close>

definition precedes :: "member_row \<Rightarrow> member_row \<Rightarrow> bool" where
  "precedes m n \<longleftrightarrow>
     (mt_role m = RoleModerator \<and> mt_role n \<noteq> RoleModerator) \<or>
     ((mt_role m = RoleModerator \<longleftrightarrow> mt_role n = RoleModerator) \<and>
       (mt_joined_at m < mt_joined_at n \<or>
        mt_joined_at m = mt_joined_at n \<and> mt_member_id m \<le> mt_member_id n))"

text \<open>Sorting by the last key first, the head is a minimum of the combined order.\<close>

lemma sort_key_head:
  assumes "sort_key f xs = h # t"
  shows "\<forall>x \<in> set xs. f h \<le> f x" "\<exists>t'. filter (\<lambda>x. f x = f h) xs = h # t'"
proof -
  have "sorted (map f (h # t))" using sorted_sort_key [of f xs] assms by simp
  moreover have "set xs = set (h # t)" using set_sort [of f xs] assms by simp
  ultimately show "\<forall>x \<in> set xs. f h \<le> f x" by auto
  have "filter (\<lambda>x. f x = f h) xs = filter (\<lambda>x. f x = f h) (h # t)"
    using sort_key_stable [of f "f h" xs] assms by simp
  then show "\<exists>t'. filter (\<lambda>x. f x = f h) xs = h # t'" by simp
qed

lemma sort_key_head_next:
  assumes "sort_key f (sort_key g ys) = h # t"
  shows "\<forall>y \<in> set ys. f h \<le> f y" "\<exists>t'. sort_key g (filter (\<lambda>y. f y = f h) ys) = h # t'"
  using sort_key_head [OF assms] by (simp_all add: filter_sort)

lemma NextAdmin_first:
  assumes "NextAdmin gid uid d = Inr next"
  shows "\<exists>n \<in> set (members_of gid d). mt_member_id n = next \<and> next \<noteq> uid \<and>
    (\<forall>m \<in> set (members_of gid d). mt_member_id m \<noteq> uid \<longrightarrow> precedes n m)"
proof -
  let ?f = "\<lambda>m. if mt_role m = RoleModerator then 0 else 1 :: nat"
  let ?c = "filter (\<lambda>m. mt_member_id m \<noteq> uid) (members_of gid d)"
  obtain n ms where n: "sort_key ?f (sort_key mt_joined_at (sort_key mt_member_id ?c)) = n # ms"
      "next = mt_member_id n"
    using assms by (auto simp: NextAdmin_def split: list.splits)
  have a: "?f n \<le> ?f m" if "m \<in> set ?c" for m
    using sort_key_head_next(1) [OF n(1)] that by (metis (no_types, lifting) set_sort)
  let ?c1 = "filter (\<lambda>y. ?f y = ?f n) ?c"
  obtain t1 where t1: "sort_key mt_joined_at (sort_key mt_member_id ?c1) = n # t1"
    using sort_key_head_next(2) [OF n(1)] unfolding filter_sort by blast
  have b: "mt_joined_at n \<le> mt_joined_at m" if "m \<in> set ?c1" for m
    using sort_key_head_next(1) [OF t1] that by blast
  let ?c2 = "filter (\<lambda>y. mt_joined_at y = mt_joined_at n) ?c1"
  obtain t2 where t2: "sort_key mt_member_id ?c2 = n # t2"
    using sort_key_head_next(2) [OF t1] by blast
  have c: "mt_member_id n \<le> mt_member_id m" if "m \<in> set ?c2" for m
    using sort_key_head(1) [OF t2] that by blast
  have "n \<in> set ?c2" using set_sort [of mt_member_id ?c2] unfolding t2 by auto
  moreover have "precedes n m" if "m \<in> set ?c" for m
  proof (cases "?f m = ?f n")
    case True
    then have "m \<in> set ?c1" using that by simp
    moreover have "mt_member_id n \<le> mt_member_id m" if "mt_joined_at m = mt_joined_at n"
      using c [of m] \<open>m \<in> set ?c1\<close> that by simp
    ultimately show ?thesis using b [of m] True by (fastforce simp: precedes_def split: if_splits)
  next
    case False
    with a [OF that] show ?thesis by (auto simp: precedes_def split: if_splits)
  qed
  ultimately show ?thesis using n(2) by auto
qed

lemma admin_ids_removed:
  assumes "removeLocked e cur gid uid d = Inr ((), d')"
  shows "set (admin_ids gid d') = set (admin_ids gid d) - {uid}"
    "set (members_of gid d') = {m \<in> set (members_of gid d). mt_member_id m \<noteq> uid}"
  using assms by (auto simp: removeLocked_def admin_ids_def admins_of_def members_of_delete split: if_splits)

text \<open>
  When an admin leaves, then either nobody else was in the group and it is gone with its
  member rows, or exactly one remaining member is the admin afterwards: the named
  successor, or else the first of the others by moderators before members, longest-serving
  first.
\<close>

theorem leave_hands_over:
  assumes "groups_inv d" "repo_Leave e gid uid successor d = Inr (left, d')" "set (admin_ids gid d) = {uid}"
  shows "(lv_Deleted left \<and> (\<forall>m \<in> set (members_of gid d). mt_member_id m = uid) \<and>
        members_of gid d' = [] \<and> \<not> group_exists gid d') \<or>
    (\<not> lv_Deleted left \<and> set (admin_ids gid d') = {lv_NewAdmin left} \<and> lv_NewAdmin left \<noteq> uid \<and>
      (if successor \<noteq> Nil_uuid then lv_NewAdmin left = successor
       else \<exists>n \<in> set (members_of gid d). mt_member_id n = lv_NewAdmin left \<and>
         (\<forall>m \<in> set (members_of gid d). mt_member_id m \<noteq> uid \<longrightarrow> precedes n m)))"
  using assms(2)
proof (cases rule: repo_LeaveE)
  case (1 g m)
  with successorOf_None [OF 1(5)] show ?thesis
    by (auto simp: filter_empty_conv members_of_DeleteGroup group_exists_def DeleteGroup_frame exists_row_def)
next
  case (2 g m "next" d1)
  note s = successorOf_Some [OF 2(5)]
  have admins: "set (admin_ids gid d') = {next}"
    using admin_ids_set_role [OF 2(6) s(1)] admin_ids_removed(1) [OF 2(7)] assms(3) s(2) by auto
  have "\<exists>n \<in> set (members_of gid d). mt_member_id n = next \<and>
      (\<forall>m \<in> set (members_of gid d). mt_member_id m \<noteq> uid \<longrightarrow> precedes n m)" if "successor = Nil_uuid"
    using 2(5) that NextAdmin_first [of gid uid d "next"]
    by (auto simp: successorOf_def faulty_def split: if_splits sum.splits dberr.splits)
  with admins s 2(8) show ?thesis by auto
next
  case (3 g m)
  with not_the_admin [OF assms(1) 3(2,4)] assms(3) show ?thesis by simp
qed

lemma devs_leave:
  "\<exists>d'. repo_Leave (quiet_genv 8) 7 1 0 (gy_db devs_sys) =
     Inr (\<lparr>lv_NewAdmin = 2, lv_Deleted = False, lv_Members = []\<rparr>, d')"
  by (simp add: repo_Leave_def withLockedGroup_def LockGroup_def devs_sys_def devs_def find_group_def
      empty_db_def repo_member_def GetMember_def is_member_row_def successorOf_def NextAdmin_def
      members_of_def SetMemberRole_def removeLocked_def)

theorem leave_hands_over_witness:
  "\<exists>d'. repo_Leave (quiet_genv 8) 7 1 0 (gy_db devs_sys) =
     Inr (\<lparr>lv_NewAdmin = 2, lv_Deleted = False, lv_Members = []\<rparr>, d') \<and> set (admin_ids 7 d') = {2}"
proof -
  obtain d' where d': "repo_Leave (quiet_genv 8) 7 1 0 (gy_db devs_sys) =
     Inr (\<lparr>lv_NewAdmin = 2, lv_Deleted = False, lv_Members = []\<rparr>, d')" using devs_leave by blast
  have "set (admin_ids 7 (gy_db devs_sys)) = {1}"
    by (simp add: devs_sys_def admin_ids_def admins_of_def members_of_def empty_db_def)
  from leave_hands_over [OF devs_inv d' this] d' show ?thesis by auto
qed

section \<open>Who changes memberships and roles\<close>

text \<open>\<open>holds\<close>: the row a user has in a group gives them a role with a permission.\<close>

definition is_member :: "uuid \<Rightarrow> uuid \<Rightarrow> db \<Rightarrow> bool" where
  "is_member gid uid d \<longleftrightarrow> exists_row (is_member_row gid uid) (member_table d)"

definition may :: "uuid \<Rightarrow> uuid \<Rightarrow> string \<Rightarrow> db \<Rightarrow> bool" where
  "may gid uid perm d \<longleftrightarrow> exists_row
     (\<lambda>m. is_member_row gid uid m \<and> allowed (mt_role m) (mt_permissions m) perm) (member_table d)"

definition is_admin :: "uuid \<Rightarrow> uuid \<Rightarrow> db \<Rightarrow> bool" where
  "is_admin gid uid d \<longleftrightarrow> exists_row (\<lambda>m. is_member_row gid uid m \<and> mt_role m = RoleAdmin) (member_table d)"

lemma is_member_iff: "is_member gid uid d \<longleftrightarrow> uid \<in> mt_member_id ` set (members_of gid d)"
  by (auto simp: is_member_def exists_row_def is_member_row_def members_of_set)

lemma is_admin_iff: "is_admin gid uid d \<longleftrightarrow> uid \<in> set (admin_ids gid d)"
  by (auto simp: is_admin_def exists_row_def is_member_row_def admin_ids_def admins_of_def members_of_set)

lemma may_intro: "m \<in> set (members_of gid d) \<Longrightarrow> mt_member_id m = uid \<Longrightarrow>
    allowed (mt_role m) (mt_permissions m) perm \<Longrightarrow> may gid uid perm d"
  by (auto simp: may_def exists_row_def is_member_row_def members_of_set)

lemma may_admin: "may gid uid [] d \<longleftrightarrow> is_admin gid uid d"
  by (simp add: may_def is_admin_def allowed_admin)

lemma repo_as_may:
  assumes "repo_as e gid actor perm fn d = Inr r"
  obtains g :: chat_group and role where "may gid actor perm d" "fn (g_max_member g) (g_current_member g) role = Inr r"
    "role = RoleAdmin \<Longrightarrow> is_admin gid actor d"
  using assms
proof (cases rule: repo_asE)
  case (1 g m)
  show thesis
  proof (rule that [of g "mt_role m"])
    show "may gid actor perm d" using 1 by (rule_tac may_intro)
    show "mt_role m = RoleAdmin \<Longrightarrow> is_admin gid actor d"
      using 1 by (auto simp: is_admin_iff admin_ids_def admins_of_def)
  qed (rule 1(5))
qed

text \<open>The member ids after each repository operation.\<close>

abbreviation ids :: "uuid \<Rightarrow> db \<Rightarrow> uuid set" where
  "ids gid d \<equiv> mt_member_id ` set (members_of gid d)"

lemma ids_same: "member_table d' = member_table d \<Longrightarrow> members_of i d' = members_of i d"
  by (simp add: members_of_def)

lemma addLocked_members:
  assumes "addLocked e mx cur gid uid d = Inr ((), d')"
  shows "\<exists>m. mt_member_id m = uid \<and> mt_role m = RoleMember \<and>
    members_of i d' = members_of i d @ (if i = gid then [m] else [])"
proof -
  from assms obtain d1 where "insert_member gid uid (ge_now e) RoleMember d = Inr d1"
      "d' = SetGroupMemberCount (ge_dbnow e) gid (wrap16 (cur + 1)) d1"
    by (auto simp: addLocked_def AddMember_def split: if_splits)
  with insert_member_Inr(1) [OF this(1)] show ?thesis
    by (intro exI [of _ "\<lparr>mt_group_id = gid, mt_member_id = uid, mt_joined_at = ge_now e,
      mt_role = RoleMember, mt_permissions = []\<rparr>"]) (simp add: members_of_add)
qed

lemma removeLocked_members:
  assumes "removeLocked e cur gid uid d = Inr ((), d')"
  shows "members_of i d' = (if i = gid then filter (\<lambda>m. mt_member_id m \<noteq> uid) (members_of i d) else members_of i d)"
  using assms by (auto simp: removeLocked_def members_of_delete split: if_splits)

lemma create_members:
  assumes "createLoop e gid u req i n d = Inr ((), d')"
  shows "\<exists>m. mt_member_id m = u \<and> members_of k d' = members_of k d @ (if k = gid then [m] else [])"
  using assms
proof (induction n arbitrary: i)
  case (Suc n)
  from Suc.prems obtain code where code: "NewInviteCode (ge_rand e i) = Some code"
    by (auto split: option.splits)
  show ?case
  proof (cases "\<exists>d1. CreateGroup (ge_dbnow e) gid (cgr_GroupName req) (cgr_Description req) (cgr_MaxMems req)
      code (cgr_Visibility req) d = Inr d1 \<and> CreateGroupLeaderRole gid u (ge_now e) d1 = Inr d'")
    case True
    then obtain d1 where d1: "CreateGroup (ge_dbnow e) gid (cgr_GroupName req) (cgr_Description req)
        (cgr_MaxMems req) code (cgr_Visibility req) d = Inr d1"
        "insert_member gid u (ge_now e) RoleAdmin d1 = Inr d'"
      by (auto simp: CreateGroupLeaderRole_def)
    have "member_table d1 = member_table d" using d1(1) by (auto simp: CreateGroup_def split: if_splits)
    then have "members_of k d1 = members_of k d" by (rule ids_same)
    with insert_member_Inr(1) [OF d1(2)] show ?thesis
      by (intro exI [of _ "\<lparr>mt_group_id = gid, mt_member_id = u, mt_joined_at = ge_now e,
        mt_role = RoleAdmin, mt_permissions = []\<rparr>"]) (simp add: members_of_add)
  next
    case False
    with Suc.prems code have "createLoop e gid u req (Suc i) n d = Inr ((), d')"
      by (auto split: sum.splits if_splits)
    then show ?thesis by (rule Suc.IH)
  qed
qed simp

lemma regenerate_members:
  "regenerateLoop e gid i n d = Inr (c, d') \<Longrightarrow> members_of k d' = members_of k d"
proof (induction n arbitrary: i)
  case (Suc n)
  then show ?case
    by (auto simp: faulty_def SetInviteCode_def update_group_def members_of_def split: option.splits sum.splits if_splits)
qed simp

lemma Update_members:
  "repo_Update e gid u nm descr vis d = Inr (p, d') \<Longrightarrow> members_of k d' = members_of k d"
  unfolding repo_Update_def
  by (erule repo_asE) (auto simp: UpdateGroupInfo_def Let_def update_group_def members_of_def
      split: if_splits option.splits)

lemma SetAvatar_members:
  assumes "repo_SetAvatar e gid u img at d = Inr ((), d')"
  shows "members_of k d' = members_of k d"
proof -
  from assms obtain d1 where "UpsertGroupAvatar gid img at d = Inr d1"
      "d' = SetGroupAvatarAt (ge_dbnow e) (Some at) gid d1"
    unfolding repo_SetAvatar_def by (elim repo_asE) (auto split: if_splits)
  then have "member_table d' = member_table d"
    by (auto simp: UpsertGroupAvatar_def SetGroupAvatarAt_def update_group_def split: if_splits)
  then show ?thesis by (rule ids_same)
qed

lemma DeleteAvatar_members:
  "repo_DeleteAvatar e gid u d = Inr ((), d') \<Longrightarrow> members_of k d' = members_of k d"
  unfolding repo_DeleteAvatar_def
  by (erule repo_asE) (auto simp: SetGroupAvatarAt_def DeleteGroupAvatar_def update_group_def members_of_def
      split: if_splits)

lemma TransferAdmin_parts:
  assumes "repo_TransferAdmin e gid u t d = Inr ((), d')"
  obtains d1 where "is_admin gid u d" "SetMemberRole RoleMember [] gid u d = Inr d1"
    "SetMemberRole RoleAdmin [] gid t d1 = Inr d'"
  using assms unfolding repo_TransferAdmin_def
  by (elim repo_as_may) (auto simp: may_admin split: if_splits)

lemma SetRole_parts:
  assumes "repo_SetRole e gid u t role perms d = Inr ((), d')"
  shows "is_admin gid u d" "SetMemberRole role (if role = RoleMember then [] else perms) gid t d = Inr d'"
proof -
  from assms show "is_admin gid u d"
    unfolding repo_SetRole_def by (elim repo_as_may) (simp add: may_admin)
  from assms show "SetMemberRole role (if role = RoleMember then [] else perms) gid t d = Inr d'"
    unfolding repo_SetRole_def by (elim repo_as_may) (auto split: if_splits)
qed

lemma Delete_parts:
  assumes "repo_Delete e gid u d = Inr (ms, d')"
  shows "is_admin gid u d" "d' = DeleteGroup gid d" "ms = GetMemberListByID gid d"
proof -
  from assms show "is_admin gid u d"
    unfolding repo_Delete_def by (elim repo_as_may) (simp add: may_admin)
  from assms show "d' = DeleteGroup gid d" "ms = GetMemberListByID gid d"
    unfolding repo_Delete_def by (elim repo_as_may; auto split: if_splits)+
qed

lemma Kick_parts:
  assumes "repo_Kick e gid u t d = Inr ((), d')"
  obtains cur m where "may gid u PermRemoveMembers d" "t \<noteq> u" "m \<in> set (members_of gid d)"
    "mt_member_id m = t" "mt_role m \<noteq> RoleAdmin" "mt_role m = RoleModerator \<Longrightarrow> is_admin gid u d"
    "removeLocked e cur gid t d = Inr ((), d')"
proof -
  from assms obtain g :: chat_group and role where a: "may gid u PermRemoveMembers d" "role = RoleAdmin \<Longrightarrow> is_admin gid u d"
    and body: "(if t = u then Inl (Sentinel ErrKickSelf)
       else andThen (repo_member e gid t d) (\<lambda>t'.
         case t' of
           None \<Rightarrow> Inl (Sentinel ErrNotMember)
         | Some (trole, _) \<Rightarrow>
             if trole = RoleAdmin then Inl (Sentinel ErrCantRemoveAdmin)
             else if trole = RoleModerator \<and> role \<noteq> RoleAdmin then Inl (Sentinel ErrNoPermission)
             else removeLocked e (g_current_member g) gid t d)) = Inr ((), d')"
    unfolding repo_Kick_def by (elim repo_as_may) blast
  from body obtain t' where t': "t \<noteq> u" "repo_member e gid t d = Inr t'" by (auto split: if_splits)
  with body obtain trole tperms where *: "t' = Some (trole, tperms)" "trole \<noteq> RoleAdmin"
      "trole = RoleModerator \<longrightarrow> role = RoleAdmin" "removeLocked e (g_current_member g) gid t d = Inr ((), d')"
    by (cases t') (auto split: if_splits)
  from t'(2) *(1) obtain m where "m \<in> set (members_of gid d)" "mt_member_id m = t" "mt_role m = trole"
    by (auto elim: repo_member_Some)
  with that a t'(1) * show thesis by blast
qed

lemma AddMember_parts:
  assumes "repo_AddMember e gid u t d = Inr ((), d')"
  obtains mx cur where "may gid u PermAddMembers d" "addLocked e mx cur gid t d = Inr ((), d')"
  using assms unfolding repo_AddMember_def by (elim repo_as_may)

lemma Join_parts:
  assumes "repo_Join e gid u d = Inr ((), d')"
  obtains mx cur where "addLocked e mx cur gid u d = Inr ((), d')"
  using assms unfolding repo_Join_def by (elim withLockedGroupE)

lemma Leave_members:
  assumes "repo_Leave e gid u succ d = Inr (left, d')"
  shows "ids i d' = (if i = gid then ids i d - {u} else ids i d)"
  using assms
proof (cases rule: repo_LeaveE)
  case (1 g m)
  with successorOf_None [OF 1(5)] show ?thesis
    by (auto simp: members_of_DeleteGroup filter_empty_conv)
next
  case (2 g m "next" d1)
  note f = SetMemberRole_frame [OF 2(6)]
  have "ids i d1 = ids i d" using f(5) [of i] f(7) by (cases "i = gid") auto
  then show ?thesis unfolding removeLocked_members [OF 2(7)] by auto
next
  case (3 g m)
  then show ?thesis by (auto simp: removeLocked_members [OF 3(5)])
qed

end
