(* ===== verification/Groups_Cache.thy ===== *)
theory Groups_Cache
  imports Groups_Access
begin

text \<open>
  The cached group snapshots agree with Postgres unless an invalidation failed, and what
  follows for the decisions taken on them; then who can join, leave and gain power.
\<close>

section \<open>Snapshots depend on one group\<close>

lemma find_group_update_group:
  "(\<And>g. g_id (f g) = g_id g) \<Longrightarrow>
     find_group i (update_group gid f d) = map_option (\<lambda>g. if i = gid then f g else g) (find_group i d)"
  by (rule find_group_update [where f = f]) (simp_all add: update_group_def)

lemma GetGroupLeader_members:
  "GetGroupLeader gid d = (case admins_of gid d of [] \<Rightarrow> Inl NoRows | m # _ \<Rightarrow> Inr (mt_member_id m))"
  by (simp add: GetGroupLeader_def find_row_filter admins_of_def members_of_def conj_commute split: list.split)

definition snap_info :: "uuid \<Rightarrow> db \<Rightarrow> (string \<times> int \<times> string) option" where
  "snap_info i d = map_option (\<lambda>g. (g_name g, g_max_member g, g_visibility g)) (find_group i d)"

lemma group_snapshot_frame:
  assumes "snap_info i d' = snap_info i d" "members_of i d' = members_of i d"
  shows "group_snapshot_of d' i = group_snapshot_of d i"
  using assms
  by (cases "find_group i d"; cases "find_group i d'")
    (auto simp: group_snapshot_of_def snap_info_def GetGroupLeader_members admins_of_def GetMemberListByID_def
      ModeratorsOf_def)

text \<open>\<open>only_group gid d d'\<close>: no other group's snapshot changed; \<open>no_snapshot_change\<close>: none did.\<close>

definition only_group :: "uuid \<Rightarrow> db \<Rightarrow> db \<Rightarrow> bool" where
  "only_group gid d d' \<longleftrightarrow> (\<forall>i. i \<noteq> gid \<longrightarrow> group_snapshot_of d' i = group_snapshot_of d i)"

lemma snap_info_update_group:
  assumes "\<And>g. g_id (f g) = g_id g" "i \<noteq> gid"
  shows "snap_info i (update_group gid f d) = snap_info i d"
  using assms(2) by (simp add: snap_info_def find_group_update_group [OF assms(1)] option.map_comp o_def cong: option.map_cong)

lemma snap_info_same_groups: "chat_groups d' = chat_groups d \<Longrightarrow> snap_info i d' = snap_info i d"
  by (simp add: snap_info_def find_group_def)

lemma addLocked_only: "addLocked e mx cur gid uid d = Inr ((), d') \<Longrightarrow> only_group gid d d'"
proof -
  assume a: "addLocked e mx cur gid uid d = Inr ((), d')"
  then obtain d1 where d1: "insert_member gid uid (ge_now e) RoleMember d = Inr d1"
      "d' = SetGroupMemberCount (ge_dbnow e) gid (wrap16 (cur + 1)) d1"
    by (auto simp: addLocked_def AddMember_def split: if_splits)
  have "chat_groups d1 = chat_groups d" using insert_member_Inr(1) [OF d1(1)] by simp
  then have "snap_info i d' = snap_info i d" if "i \<noteq> gid" for i
    using that snap_info_same_groups [of d1 d i]
    by (simp add: d1(2) SetGroupMemberCount_def snap_info_update_group)
  moreover have "members_of i d' = members_of i d" if "i \<noteq> gid" for i
    using addLocked_members [OF a, of i] that by auto
  ultimately show ?thesis by (auto simp: only_group_def intro: group_snapshot_frame)
qed

lemma removeLocked_only:
  assumes "removeLocked e cur gid uid d1 = Inr ((), d')" "chat_groups d1 = chat_groups d"
    and "\<And>i. i \<noteq> gid \<Longrightarrow> members_of i d1 = members_of i d"
  shows "only_group gid d d'"
proof -
  have d': "d' = SetGroupMemberCount (ge_dbnow e) gid (max (wrap16 (cur - 1)) 0) (DeleteMemFromGroup gid uid d1)"
    using assms(1) by (auto simp: removeLocked_def split: if_splits)
  have "snap_info i d' = snap_info i d" if "i \<noteq> gid" for i
    using that snap_info_same_groups [of "DeleteMemFromGroup gid uid d1" d i] assms(2)
    by (simp add: d' SetGroupMemberCount_def snap_info_update_group DeleteMem_frame)
  moreover have "members_of i d' = members_of i d" if "i \<noteq> gid" for i
    using removeLocked_members [OF assms(1), of i] assms(3) that by auto
  ultimately show ?thesis by (auto simp: only_group_def intro: group_snapshot_frame)
qed

lemma DeleteGroup_only: "only_group gid d (DeleteGroup gid d)"
proof -
  have "snap_info i (DeleteGroup gid d) = snap_info i d" if "i \<noteq> gid" for i
  proof -
    have "find_row (\<lambda>g. g_id g = i) (delete_rows (\<lambda>g. g_id g = gid) rows) = find_row (\<lambda>g. g_id g = i) rows" for rows :: "chat_group list"
      using that by (induction rows) auto
    then show ?thesis by (simp add: snap_info_def find_group_def DeleteGroup_frame)
  qed
  then show ?thesis by (auto simp: only_group_def members_of_DeleteGroup intro: group_snapshot_frame)
qed

lemma SetMemberRole_only:
  assumes "SetMemberRole role perms gid uid d = Inr d'"
  shows "only_group gid d d'"
  unfolding only_group_def
  by (intro allI impI group_snapshot_frame snap_info_same_groups SetMemberRole_frame [OF assms])

lemma only_group_trans: "only_group gid d d1 \<Longrightarrow> only_group gid d1 d2 \<Longrightarrow> only_group gid d d2"
  by (simp add: only_group_def)

lemma Leave_only:
  assumes "repo_Leave e gid u succ d = Inr (left, d')"
  shows "only_group gid d d'"
  using assms
proof (cases rule: repo_LeaveE)
  case 1
  then show ?thesis by (simp add: DeleteGroup_only)
next
  case (2 g m "next" d1)
  note f = SetMemberRole_frame [OF 2(6)]
  show ?thesis by (rule removeLocked_only [OF 2(7) f(3) f(5)])
next
  case (3 g m)
  then show ?thesis by (auto intro: removeLocked_only)
qed

lemma Kick_only: "repo_Kick e gid u t d = Inr ((), d') \<Longrightarrow> only_group gid d d'"
  by (erule Kick_parts) (auto intro: removeLocked_only)

lemma Transfer_only: "repo_TransferAdmin e gid u t d = Inr ((), d') \<Longrightarrow> only_group gid d d'"
  by (erule TransferAdmin_parts) (auto dest!: SetMemberRole_only intro: only_group_trans)

lemma SetRole_only: "repo_SetRole e gid u t role perms d = Inr ((), d') \<Longrightarrow> only_group gid d d'"
  by (drule SetRole_parts(2)) (rule SetMemberRole_only)

lemma Update_only:
  assumes "repo_Update e gid u nm descr vis d = Inr (p, d')"
  shows "only_group gid d d'"
proof -
  have "snap_info i d' = snap_info i d" if "i \<noteq> gid" for i
    using assms that unfolding repo_Update_def
    by (elim repo_asE) (auto simp: UpdateGroupInfo_def Let_def snap_info_update_group split: if_splits option.splits)
  then show ?thesis
    using Update_members [OF assms] by (auto simp: only_group_def intro: group_snapshot_frame)
qed

lemma snap_info_keep:
  assumes "\<And>g. g_id (f g) = g_id g" "\<And>g. g_name (f g) = g_name g" "\<And>g. g_max_member (f g) = g_max_member g"
    "\<And>g. g_visibility (f g) = g_visibility g"
  shows "snap_info i (update_group gid f d) = snap_info i d"
  by (cases "find_group i d") (simp_all add: snap_info_def find_group_update_group [OF assms(1)] assms)

lemma regenerate_same:
  assumes "regenerateLoop e gid i n d = Inr (c, d')"
  shows "group_snapshot_of d' k = group_snapshot_of d k"
proof (rule group_snapshot_frame)
  show "snap_info k d' = snap_info k d"
    using assms
  proof (induction n arbitrary: i)
    case (Suc n)
    then show ?case
      by (auto simp: faulty_def SetInviteCode_def snap_info_keep split: option.splits sum.splits if_splits)
  qed simp
qed (rule regenerate_members [OF assms])

lemma SetAvatar_same:
  assumes "repo_SetAvatar e gid u img at d = Inr ((), d')"
  shows "group_snapshot_of d' k = group_snapshot_of d k"
proof (rule group_snapshot_frame)
  from assms obtain d1 where d1: "UpsertGroupAvatar gid img at d = Inr d1"
      "d' = SetGroupAvatarAt (ge_dbnow e) (Some at) gid d1"
    unfolding repo_SetAvatar_def by (elim repo_asE) (auto split: if_splits)
  have "chat_groups d1 = chat_groups d" using d1(1) by (auto simp: UpsertGroupAvatar_def split: if_splits)
  then show "snap_info k d' = snap_info k d"
    using snap_info_same_groups [of d1 d k] by (simp add: d1(2) SetGroupAvatarAt_def snap_info_keep)
qed (rule SetAvatar_members [OF assms])

lemma DeleteAvatar_same:
  assumes "repo_DeleteAvatar e gid u d = Inr ((), d')"
  shows "group_snapshot_of d' k = group_snapshot_of d k"
proof (rule group_snapshot_frame)
  from assms have "d' = SetGroupAvatarAt (ge_dbnow e) None gid (DeleteGroupAvatar gid d)"
    unfolding repo_DeleteAvatar_def by (elim repo_asE) (auto split: if_splits)
  then show "snap_info k d' = snap_info k d"
    using snap_info_same_groups [of "DeleteGroupAvatar gid d" d k]
    by (simp add: SetGroupAvatarAt_def snap_info_keep) (simp add: DeleteGroupAvatar_def)
qed (rule DeleteAvatar_members [OF assms])

section \<open>Coherence\<close>

definition snapshots_current :: "gsys \<Rightarrow> bool" where
  "snapshots_current s \<longleftrightarrow> vc_coherent (group_snapshot_of (gy_db s)) (gy_cache s)"

lemma snapshot_current:
  assumes "snapshots_current s" "snapshot e ph gid s = (r, s')"
  shows "(\<exists>x. r = Inl (DbFail x)) \<or> r = group_snapshot_of (gy_db s) gid"
    "snapshots_current s'" "gy_db s' = gy_db s"
proof -
  obtain c' where c': "VLoad (\<lambda>c. ge_fails e (GSnap ph (SCache c))) gid (repo_Snapshot e ph gid (gy_db s))
      (gy_cache s) = (r, c')" "s' = s\<lparr>gy_cache := c'\<rparr>"
    using assms(2) by (auto simp: snapshot_def split: prod.splits)
  let ?src = "group_snapshot_of (gy_db s)"
  have l: "repo_Snapshot e ph gid (gy_db s) = ?src gid \<or> repo_Snapshot e ph gid (gy_db s) = Inl (DbFail OtherDb)"
    by (auto simp: repo_Snapshot_def group_snapshot_of_def)
  then have l': "repo_Snapshot e ph gid (gy_db s) = ?src gid \<or> (\<exists>x. repo_Snapshot e ph gid (gy_db s) = Inl x)"
    by blast
  have coh: "vc_coherent ?src (gy_cache s)" using assms(1) by (simp add: snapshots_current_def)
  show "(\<exists>x. r = Inl (DbFail x)) \<or> r = ?src gid"
    using vc.load_any(1) [OF coh c'(1) l'] l by auto
  show "snapshots_current s'"
    using vc.load_any(2) [OF coh c'(1) l'] c'(2) by (simp add: snapshots_current_def)
  show "gy_db s' = gy_db s" using c'(2) by simp
qed

lemma Members_current: "snapshots_current s \<Longrightarrow> Members e ph gid s = (r, s') \<Longrightarrow> snapshots_current s'"
  by (auto simp: Members_def split: prod.splits sum.splits dest: snapshot_current(2))

lemma IsMember_current: "snapshots_current s \<Longrightarrow> IsMember e ph gid u s = (r, s') \<Longrightarrow> snapshots_current s'"
  by (auto simp: IsMember_def split: prod.splits sum.splits dest: snapshot_current(2))

lemma check_current: "snapshots_current s \<Longrightarrow> check e ph gid u p s = (r, s') \<Longrightarrow> snapshots_current s'"
  by (auto simp: check_def Let_def split: prod.splits sum.splits if_splits dest: snapshot_current(2))

lemma pushMembers_current:
  "snapshots_current s \<Longrightarrow> pushMembers e ph gid a c u s = (s', es) \<Longrightarrow> snapshots_current s'"
  by (auto simp: pushMembers_def split: prod.splits sum.splits dest: Members_current)

lemma invalidated_current:
  assumes "snapshots_current s" "\<not> ge_fails e GInvalidate" "only_group gid (gy_db s) d'"
  shows "snapshots_current (group_invalidate e gid (s\<lparr>gy_db := d'\<rparr>))"
  using assms vc.invalidate_coh [of "group_snapshot_of (gy_db s)" "gy_cache s" "[gid]" "group_snapshot_of d'"]
  by (simp add: snapshots_current_def group_invalidate_def VInvalidate_flt_def only_group_def)

lemma changed_current:
  assumes "snapshots_current s" "\<not> ge_fails e GInvalidate" "only_group gid (gy_db s) d'"
    "changed e gid a c u d' s = (s', es)"
  shows "snapshots_current s'"
  using pushMembers_current [OF invalidated_current [OF assms(1-3)]] assms(4) by (simp add: changed_def)

lemma same_current:
  "snapshots_current s \<Longrightarrow> (\<And>k. group_snapshot_of d' k = group_snapshot_of (gy_db s) k) \<Longrightarrow>
     snapshots_current (s\<lparr>gy_db := d'\<rparr>)"
  by (simp add: snapshots_current_def vc_coherent_def)

text \<open>A new group's id had no snapshot before, so none is cached for it.\<close>

lemma create_current:
  assumes "snapshots_current s" "repo_Create e gid u req (gy_db s) = Inr ((), d')"
  shows "snapshots_current (s\<lparr>gy_db := d'\<rparr>)"
proof -
  let ?d = "gy_db s"
  have create: "group_snapshot_of d' i = group_snapshot_of ?d i \<or> find_group i ?d = None"
    if "createLoop e gid u req k n ?d = Inr ((), d')" for k n i
    using that
  proof (induction n arbitrary: k)
    case (Suc n)
    from Suc.prems obtain code where code: "NewInviteCode (ge_rand e k) = Some code"
      by (auto split: option.splits)
    show ?case
    proof (cases "\<exists>d1. CreateGroup (ge_dbnow e) gid (cgr_GroupName req) (cgr_Description req) (cgr_MaxMems req)
        code (cgr_Visibility req) ?d = Inr d1 \<and> CreateGroupLeaderRole gid u (ge_now e) d1 = Inr d'")
      case True
      then obtain d1 where d1: "CreateGroup (ge_dbnow e) gid (cgr_GroupName req) (cgr_Description req)
          (cgr_MaxMems req) code (cgr_Visibility req) ?d = Inr d1" "insert_member gid u (ge_now e) RoleAdmin d1 = Inr d'"
        by (auto simp: CreateGroupLeaderRole_def)
      obtain g where g: "chat_groups d1 = chat_groups ?d @ [g]" "g_id g = gid" "member_table d1 = member_table ?d"
          "\<not> group_exists gid ?d"
        using d1(1) by (auto simp: CreateGroup_def split: if_splits)
      note im = insert_member_Inr(1) [OF d1(2)]
      show ?thesis
      proof (cases "i = gid")
        case True
        then show ?thesis using g(4) by (simp add: find_group_exists)
      next
        case False
        then have "members_of i d' = members_of i ?d" using im ids_same [OF g(3)] by (simp add: members_of_add)
        moreover have "snap_info i d' = snap_info i ?d"
        proof -
          have "find_row (\<lambda>g. g_id g = i) (rows @ [g]) = find_row (\<lambda>g. g_id g = i) rows" for rows :: "chat_group list"
            using False g(2) by (induction rows) auto
          then show ?thesis by (simp add: snap_info_def find_group_def im g(1))
        qed
        ultimately have "group_snapshot_of d' i = group_snapshot_of ?d i" by (rule group_snapshot_frame [rotated])
        then show ?thesis ..
      qed
    next
      case False
      with Suc.prems code have "createLoop e gid u req (Suc k) n ?d = Inr ((), d')"
        by (auto split: sum.splits if_splits)
      then show ?thesis by (rule Suc.IH)
    qed
  qed simp
  have "group_snapshot_of d' i = Inr v" if "vc_val (gy_cache s) i = Some v" for i v
  proof -
    have v: "group_snapshot_of ?d i = Inr v"
      using assms(1) that by (auto simp: snapshots_current_def vc_coherent_def)
    then have "find_group i ?d \<noteq> None" by (cases "find_group i ?d") (simp_all add: group_snapshot_of_def)
    with v create [OF assms(2) [unfolded repo_Create_def], of i] show ?thesis by auto
  qed
  then show ?thesis by (simp add: snapshots_current_def vc_coherent_def)
qed

lemma JoinGroup_current:
  assumes "snapshots_current s" "\<not> ge_fails e GInvalidate" "svc_JoinGroup e gid uid s = (r, s', es)"
  shows "snapshots_current s'"
proof (cases "repo_Join e gid uid (gy_db s)")
  case (Inl err)
  with assms show ?thesis by (simp add: svc_JoinGroup_def)
next
  case (Inr x)
  then obtain d' where d': "repo_Join e gid uid (gy_db s) = Inr ((), d')" by (cases x) auto
  then have "only_group gid (gy_db s) d'" by (auto elim!: Join_parts intro: addLocked_only)
  from changed_current [OF assms(1,2) this] d' assms(3) show ?thesis
    by (auto simp: svc_JoinGroup_def split: prod.splits)
qed

lemma Leave_current:
  assumes "snapshots_current s" "\<not> ge_fails e GInvalidate" "svc_LeaveGroup e gid uid succ s = (r, s', es)"
  shows "snapshots_current s'"
proof (cases "repo_Leave e gid uid succ (gy_db s)")
  case (Inl err)
  with assms show ?thesis by (simp add: svc_LeaveGroup_def)
next
  case (Inr x)
  then obtain left d' where d': "repo_Leave e gid uid succ (gy_db s) = Inr (left, d')" by (cases x) auto
  from invalidated_current [OF assms(1,2) Leave_only [OF this]] d' assms(3) show ?thesis
    by (auto simp: svc_LeaveGroup_def Let_def split: prod.splits if_splits dest: pushMembers_current)
qed

lemma AddFriend_current:
  assumes "snapshots_current s" "\<not> ge_fails e GInvalidate" "svc_AddFriend e gid actor target s = (r, s', es)"
  shows "snapshots_current s'"
proof -
  obtain c s1 where c: "check e 0 gid actor PermAddMembers s = (c, s1)" by (cases "check e 0 gid actor PermAddMembers s")
  obtain m s2 where m: "IsMember e 1 gid target s1 = (m, s2)" by (cases "IsMember e 1 gid target s1")
  have s1: "snapshots_current s1" by (rule check_current [OF assms(1) c])
  have s2: "snapshots_current s2" by (rule IsMember_current [OF s1 m])
  have add: "only_group gid (gy_db s2) d'" if "repo_AddMember e gid actor target (gy_db s2) = Inr ((), d')" for d'
    using that by (auto elim!: AddMember_parts intro: addLocked_only)
  show ?thesis
    using assms(3) c m s1 s2
    by (auto simp: svc_AddFriend_def split: sum.splits prod.splits if_splits option.splits
        dest: changed_current [OF s2 assms(2) add])
qed

lemma exec_snapshots_current:
  assumes "snapshots_current s" "\<not> ge_fails e GInvalidate"
  shows "snapshots_current (fst (snd (groups_exec e op s)))"
proof -
  obtain r s' es where x: "groups_exec e op s = (r, s', es)" by (cases "groups_exec e op s")
  note ch = changed_current [OF assms] and pm = pushMembers_current
  have "snapshots_current s'"
  proof (cases op)
    case (GCreateOp u req)
    with x assms(1) show ?thesis
      by (auto simp: svc_CreateGroup_def dest!: unit_result_cases split: sum.splits if_splits prod.splits
          intro: create_current)
  next
    case (GJoinPublicOp g u)
    with x show ?thesis
      by (auto simp: svc_JoinPublic_def split: sum.splits if_splits prod.splits
          dest: snapshot_current(2) [OF assms(1)] intro: JoinGroup_current [OF _ assms(2)])
  next
    case (GJoinByInviteOp u raw)
    with x assms(1) show ?thesis
      by (auto simp: svc_JoinByInvite_def dest!: unit_result_cases split: sum.splits prod.splits
          intro: JoinGroup_current [OF assms])
  next
    case (GLeaveOp g u succ)
    with x show ?thesis by (auto intro: Leave_current [OF assms])
  next
    case (GRegenerateOp g u)
    with x show ?thesis
      by (auto simp: svc_RegenerateInvite_def repo_RegenerateInviteCode_def dest!: unit_result_cases
          split: sum.splits prod.splits dest: check_current [OF assms(1)] intro!: same_current regenerate_same)
  next
    case (GKickOp g u t)
    with x assms(1) show ?thesis
      by (auto simp: svc_Kick_def split: sum.splits prod.splits dest: ch [OF Kick_only])
  next
    case (GUpdateOp g u req)
    with x assms(1) show ?thesis
      by (auto simp: svc_Update_def Let_def dest!: unit_result_cases
          split: sum.splits prod.splits if_splits option.splits dest: ch [OF Update_only])
  next
    case (GTransferOp g u t)
    with x assms(1) show ?thesis
      by (auto simp: svc_TransferAdmin_def split: sum.splits prod.splits dest: ch [OF Transfer_only])
  next
    case (GSetRoleOp g u t req)
    with x assms(1) show ?thesis
      by (auto simp: svc_SetRole_def split: sum.splits prod.splits if_splits dest: ch [OF SetRole_only])
  next
    case (GDeleteOp g u)
    with x assms(1) show ?thesis
      by (auto simp: svc_Delete_def split: sum.splits prod.splits dest!: Delete_parts(2)
          intro: invalidated_current [OF assms] DeleteGroup_only)
  next
    case (GAddFriendOp g u t)
    with x show ?thesis by (auto intro: AddFriend_current [OF assms])
  next
    case (GSetAvatarOp g u raw)
    with x assms(1) show ?thesis
      by (auto simp: svc_SetAvatar_def Let_def dest!: unit_result_cases split: sum.splits prod.splits
          intro: pm [rotated] same_current SetAvatar_same)
  next
    case (GDeleteAvatarOp g u)
    with x assms(1) show ?thesis
      by (auto simp: svc_DeleteAvatar_def split: sum.splits prod.splits
          intro: pm [rotated] same_current DeleteAvatar_same)
  next
    case (GReadOp g)
    with x have "snapshot e 0 g s = (fst (snapshot e 0 g s), s')" by auto
    then show ?thesis by (rule snapshot_current(2) [OF assms(1)])
  qed
  with x show ?thesis by simp
qed

lemma run_snapshots_current:
  assumes "snapshots_current s" "\<forall>(e, op) \<in> set ops. \<not> ge_fails e GInvalidate"
  shows "snapshots_current (groups_run ops s)"
  using assms by (induction ops s rule: groups_run.induct) (auto intro: exec_snapshots_current)

section \<open>Roles in the cache are the roles in the table\<close>

lemma Role_snapshot:
  assumes inv: "groups_inv d" and snap: "group_snapshot_of d gid = Inr snap"
  shows "Role snap u = (case GetMember gid u d of Inr m \<Rightarrow> m | Inl _ \<Rightarrow> ([], []))"
proof -
  obtain g where g: "find_group gid d = Some g"
    and snap: "snap = \<lparr>gs_Name = g_name g, gs_MaxMem = g_max_member g,
          gs_AdminID = (case GetGroupLeader gid d of Inl _ \<Rightarrow> Nil_uuid | Inr a \<Rightarrow> a),
          gs_Public = (g_visibility g = Public), gs_Members = GetMemberListByID gid d,
          gs_Mods = map_of (rev (ModeratorsOf gid d))\<rparr>"
    using snap by (auto simp: group_snapshot_of_def split: option.splits)
  have one: "length (admins_of gid d) = 1"
    using groups_invD(5) [OF inv g] find_group_Some [OF g] by (simp add: group_ok_def)
  then obtain a where a: "admins_of gid d = [a]" by (auto simp: length_Suc_conv)
  then have admin: "gs_AdminID snap = mt_member_id a" by (simp add: snap GetGroupLeader_members)
  have a_mem: "a \<in> set (members_of gid d)" "mt_role a = RoleAdmin"
  proof -
    have "a \<in> set (admins_of gid d)" by (simp add: a)
    then show "a \<in> set (members_of gid d)" "mt_role a = RoleAdmin" by (simp_all add: admins_of_def)
  qed
  have dist: "distinct (map fst (rev (ModeratorsOf gid d)))"
    using member_ids_distinct [OF inv, of gid]
    by (simp add: ModeratorsOf_def o_def distinct_map_filter flip: rev_map)
  have mods: "gs_Mods snap u = Some ps \<longleftrightarrow>
      (\<exists>m \<in> set (members_of gid d). mt_member_id m = u \<and> mt_role m = RoleModerator \<and> mt_permissions m = ps)" for ps
    unfolding snap using map_of_eq_Some_iff [OF dist, of u ps] by (auto simp: ModeratorsOf_def image_iff)
  show ?thesis
  proof (cases "GetMember gid u d")
    case (Inl err)
    then have none: "\<forall>m \<in> set (members_of gid d). mt_member_id m \<noteq> u" by (simp add: GetMember_Inl)
    then have "gs_Mods snap u = None" using mods by (cases "gs_Mods snap u") auto
    with none a_mem(1) admin Inl show ?thesis
      by (auto simp: Role_def snap GetMemberListByID_def)
  next
    case (Inr rp)
    then obtain m where m: "m \<in> set (members_of gid d)" "mt_member_id m = u" "rp = (mt_role m, mt_permissions m)"
      by (cases rp) (auto elim!: GetMember_Inr)
    have ok: "row_ok d m" using m(1) row_ok_members [OF inv] by blast
    have uniq: "n = m" if "n \<in> set (members_of gid d)" "mt_member_id n = u" for n
      using member_row_unique [OF inv that(1) m(1)] m(2) that(2) by simp
    show ?thesis
    proof (cases "mt_role m = RoleAdmin")
      case True
      then have "m \<in> set (admins_of gid d)" using m(1) by (simp add: admins_of_def)
      with a m(2) have "u = mt_member_id a" by simp
      with True ok m(3) Inr admin show ?thesis by (simp add: Role_def row_ok_def)
    next
      case False
      then have "u \<noteq> gs_AdminID snap" using uniq [of a] a_mem admin by auto
      moreover have "gs_Mods snap u = (if mt_role m = RoleModerator then Some (mt_permissions m) else None)"
      proof (cases "gs_Mods snap u")
        case None
        with mods m show ?thesis by auto
      next
        case (Some ps)
        with mods uniq show ?thesis by auto
      qed
      moreover have "u \<in> set (gs_Members snap)" using m by (auto simp: snap GetMemberListByID_def)
      ultimately show ?thesis using False ok m(3) Inr by (auto simp: Role_def row_ok_def)
    qed
  qed
qed

lemma may_row:
  assumes "groups_inv d" "m \<in> set (members_of gid d)" "mt_member_id m = u"
  shows "may gid u perm d \<longleftrightarrow> allowed (mt_role m) (mt_permissions m) perm"
proof
  assume "may gid u perm d"
  then obtain n where n: "n \<in> set (members_of gid d)" "mt_member_id n = u"
      "allowed (mt_role n) (mt_permissions n) perm"
    by (auto simp: may_def exists_row_def is_member_row_def members_of_set)
  have "n = m" by (rule member_row_unique [OF assms(1) n(1) assms(2)]) (simp add: n(2) assms(3))
  with n(3) show "allowed (mt_role m) (mt_permissions m) perm" by simp
qed (rule may_intro [OF assms(2,3)])

text \<open>
  A decision taken on the cached snapshot is the one Postgres would give: in any run
  without a failed invalidation, if \<^verbatim>\<open>check\<close> lets a user do something, the user's row in
  the member table allows it now, and if it answers that there is no such group or no
  permission, that is what the table says.
\<close>

theorem check_true_answer:
  assumes "groups_inv (gy_db s)" "snapshots_current s" "\<forall>(e, op) \<in> set ops. \<not> ge_fails e GInvalidate"
    and "check e ph gid u perm (groups_run ops s) = (r, s')"
  shows "(r = Inr () \<longrightarrow> may gid u perm (gy_db (groups_run ops s))) \<and>
    (r = Inl (Sentinel ErrNoPermission) \<longrightarrow> is_member gid u (gy_db (groups_run ops s)) \<and>
       \<not> may gid u perm (gy_db (groups_run ops s))) \<and>
    (r = Inl (Sentinel ErrNotFoundGroup) \<longrightarrow> \<not> is_member gid u (gy_db (groups_run ops s)))"
proof -
  let ?t = "groups_run ops s"
  let ?d = "gy_db ?t"
  have inv: "groups_inv ?d" by (rule groups_run_inv [OF assms(1)])
  have cur: "snapshots_current ?t" by (rule run_snapshots_current [OF assms(2,3)])
  obtain sn s1 where sn: "snapshot e ph gid ?t = (sn, s1)" by (cases "snapshot e ph gid ?t")
  have gone: "\<not> is_member gid u ?d" if "find_group gid ?d = None"
  proof
    assume "is_member gid u ?d"
    then obtain m where "m \<in> set (member_table ?d)" "mt_group_id m = gid"
      by (auto simp: is_member_def exists_row_def is_member_row_def)
    with inv have "group_exists gid ?d" by (auto simp: groups_inv_def member_ok_row)
    with that show False by (simp add: find_group_exists)
  qed
  from snapshot_current(1) [OF cur sn] show ?thesis
  proof
    assume "\<exists>x. sn = Inl (DbFail x)"
    with sn assms(4) show ?thesis by (auto simp: check_def)
  next
    assume src: "sn = group_snapshot_of ?d gid"
    show ?thesis
    proof (cases sn)
      case (Inl err)
      with src have "err = Sentinel ErrNotFoundGroup" "find_group gid ?d = None"
        by (auto simp: group_snapshot_of_def split: option.splits)
      with sn Inl assms(4) gone show ?thesis by (auto simp: check_def)
    next
      case (Inr snap)
      with src have role: "Role snap u = (case GetMember gid u ?d of Inr m \<Rightarrow> m | Inl _ \<Rightarrow> ([], []))"
        by (intro Role_snapshot [OF inv]) simp
      show ?thesis
      proof (cases "GetMember gid u ?d")
        case (Inl err)
        then have "\<not> is_member gid u ?d" by (auto simp: GetMember_Inl is_member_iff)
        with sn Inr role Inl assms(4) show ?thesis by (auto simp: check_def)
      next
        case (Inr rp)
        then obtain m where m: "m \<in> set (members_of gid ?d)" "mt_member_id m = u" "rp = (mt_role m, mt_permissions m)"
          by (cases rp) (auto elim!: GetMember_Inr)
        have "mt_role m \<noteq> []" using row_ok_members [OF inv m(1)] by (auto simp: row_ok_def)
        moreover have "may gid u perm ?d \<longleftrightarrow> allowed (mt_role m) (mt_permissions m) perm"
          by (rule may_row [OF inv m(1,2)])
        moreover have "is_member gid u ?d" using m by (auto simp: is_member_iff)
        moreover have "check e ph gid u perm ?t = ((if mt_role m = [] then Inl (Sentinel ErrNotFoundGroup)
            else if \<not> allowed (mt_role m) (mt_permissions m) perm then Inl (Sentinel ErrNoPermission)
            else Inr ()), s1)"
          using sn \<open>sn = Inr snap\<close> role Inr m(3) by (simp add: check_def)
        ultimately show ?thesis using assms(4) by (cases "allowed (mt_role m) (mt_permissions m) perm") auto
      qed
    qed
  qed
qed

lemma devs_current [simp]: "snapshots_current devs_sys"
  by (simp add: snapshots_current_def devs_sys_def)

theorem check_true_answer_witness:
  "\<exists>r s'. check (quiet_genv 3) 0 7 2 PermEditInfo (groups_run [(quiet_genv 2, GTransferOp 7 1 2)] devs_sys) = (r, s') \<and>
     (r = Inr () \<longrightarrow> may 7 2 PermEditInfo (gy_db (groups_run [(quiet_genv 2, GTransferOp 7 1 2)] devs_sys)))"
proof -
  obtain r s' where c: "check (quiet_genv 3) 0 7 2 PermEditInfo
      (groups_run [(quiet_genv 2, GTransferOp 7 1 2)] devs_sys) = (r, s')" by fastforce
  with check_true_answer [OF devs_inv devs_current _ c] show ?thesis by auto
qed

section \<open>Joining, leaving, power\<close>

lemma exec_commit_if:
  "groups_exec e op s = (r, s', es) \<Longrightarrow> P (gy_db s) \<Longrightarrow> \<not> P (gy_db s') \<Longrightarrow> group_commit e op (gy_db s) (gy_db s')"
  using groups_exec_commit by metis

lemma commit_lost:
  assumes "group_commit e op d d'" "groups_inv d" "is_member gid uid d" "\<not> is_member gid uid d'"
  shows "(\<exists>succ. op = GLeaveOp gid uid succ) \<or>
    (\<exists>actor. op = GKickOp gid actor uid \<and> actor \<noteq> uid \<and> may gid actor PermRemoveMembers d \<and>
       \<not> is_admin gid uid d \<and>
       (exists_row (\<lambda>m. is_member_row gid uid m \<and> mt_role m = RoleModerator) (member_table d) \<longrightarrow>
          is_admin gid actor d)) \<or>
    (\<exists>actor. op = GDeleteOp gid actor \<and> is_admin gid actor d)"
proof -
  have was: "uid \<in> ids gid d" and gone: "uid \<notin> ids gid d'"
    using assms(3,4) by (simp_all add: is_member_iff)
  have add: False if a: "addLocked e mx cur g u d = Inr ((), d')" for mx cur g u
  proof -
    obtain m where "members_of gid d' = members_of gid d @ (if gid = g then [m] else [])"
      using addLocked_members [OF a, of gid] by blast
    with was gone show False by auto
  qed
  have same: False if "members_of gid d' = members_of gid d" using was gone that by simp
  have set_role: "ids gid d2 = ids gid d1" if "SetMemberRole role perms g u d1 = Inr d2" for role perms g u d1 d2
    using SetMemberRole_frame(5) [OF that, of gid] SetMemberRole_frame(7) [OF that] by (cases "gid = g") auto
  show ?thesis
    using assms(1)
  proof cases
    case (1 req0 req u)
    then show ?thesis using create_members [of e "ge_uuid e" u req 0 3 d d' gid] was gone
      by (auto simp: repo_Create_def)
  next
    case (2 g u)
    then show ?thesis by (auto elim!: Join_parts dest: add)
  next
    case (3 raw code p u)
    then show ?thesis by (auto elim!: Join_parts dest: add)
  next
    case (4 g u succ left)
    then show ?thesis using Leave_members [of e g u succ d left d' gid] was gone by (auto split: if_splits)
  next
    case (5 g c u)
    then show ?thesis using regenerate_members [of e g 0 3 d c d' gid] same
      by (simp add: repo_RegenerateInviteCode_def)
  next
    case (6 g u t)
    obtain cur m where k: "may g u PermRemoveMembers d" "t \<noteq> u" "m \<in> set (members_of g d)"
        "mt_member_id m = t" "mt_role m \<noteq> RoleAdmin" "mt_role m = RoleModerator \<Longrightarrow> is_admin g u d"
        "removeLocked e cur g t d = Inr ((), d')"
      using 6(2) by (rule Kick_parts) blast
    have gt: "g = gid" "t = uid" using was gone removeLocked_members [OF k(7), of gid] by (auto split: if_splits)
    have "\<not> is_admin gid uid d"
      using not_the_admin [OF assms(2) k(3,5)] k(4) gt by (simp add: is_admin_iff)
    moreover have "is_admin gid u d" if "exists_row (\<lambda>m. is_member_row gid uid m \<and> mt_role m = RoleModerator) (member_table d)"
    proof -
      from that obtain n where "n \<in> set (members_of gid d)" "mt_member_id n = uid" "mt_role n = RoleModerator"
        by (auto simp: exists_row_def is_member_row_def members_of_set)
      with member_row_unique [OF assms(2), of n gid m] k(3,4,6) gt show ?thesis by auto
    qed
    ultimately show ?thesis using 6 k gt by blast
  next
    case (7 g u nm descr vis p req)
    then show ?thesis using Update_members same by blast
  next
    case (8 g u t)
    obtain d1 where "SetMemberRole RoleMember [] g u d = Inr d1" "SetMemberRole RoleAdmin [] g t d1 = Inr d'"
      using 8(2) by (rule TransferAdmin_parts)
    with set_role [OF this(1)] set_role [OF this(2)] was gone show ?thesis by simp
  next
    case (9 req perms g u t)
    with set_role [OF SetRole_parts(2) [OF 9(4)]] was gone show ?thesis by simp
  next
    case (10 g u ms)
    note D = Delete_parts [OF 10(2)]
    have "g = gid" using was gone D(2) by (auto simp: members_of_DeleteGroup split: if_splits)
    with 10(1) D(1) show ?thesis by blast
  next
    case (11 g u t)
    then show ?thesis by (auto elim!: AddMember_parts dest: add)
  next
    case (12 g u img at raw)
    then show ?thesis using SetAvatar_members same by blast
  next
    case (13 g u)
    then show ?thesis using DeleteAvatar_members same by blast
  qed
qed

text \<open>
  Somebody stops being a member of a group in one of three ways only: they leave; a
  member with the permission to remove members removes them (never the admin, and a
  moderator only by the admin); or the admin deletes the group.
\<close>

theorem membership_lost:
  assumes "groups_inv (gy_db s)" "groups_exec e op s = (r, s', es)"
    and "is_member gid uid (gy_db s)" "\<not> is_member gid uid (gy_db s')"
  shows "(\<exists>succ. op = GLeaveOp gid uid succ) \<or>
    (\<exists>actor. op = GKickOp gid actor uid \<and> actor \<noteq> uid \<and> may gid actor PermRemoveMembers (gy_db s) \<and>
       \<not> is_admin gid uid (gy_db s) \<and>
       (exists_row (\<lambda>m. is_member_row gid uid m \<and> mt_role m = RoleModerator) (member_table (gy_db s)) \<longrightarrow>
          is_admin gid actor (gy_db s))) \<or>
    (\<exists>actor. op = GDeleteOp gid actor \<and> is_admin gid actor (gy_db s))"
proof -
  have "group_commit e op (gy_db s) (gy_db s')"
    by (rule exec_commit_if [OF assms(2), where P = "is_member gid uid"]) (use assms(3,4) in auto)
  from commit_lost [OF this assms(1,3,4)] show ?thesis .
qed

lemma insert_iff_snoc: "mt_member_id ` set (ms @ (if b then [m] else [])) =
    (if b then insert (mt_member_id m) (mt_member_id ` set ms) else mt_member_id ` set ms)"
  by simp

lemma commit_gained:
  assumes "group_commit e op d d'" "\<not> is_member gid uid d" "is_member gid uid d'"
  shows "(\<exists>req. op = GCreateOp uid req \<and> gid = ge_uuid e) \<or> op = GJoinPublicOp gid uid \<or>
    (\<exists>raw code g. op = GJoinByInviteOp uid raw \<and> NormalizeInviteCode raw = Some code \<and>
       g \<in> set (chat_groups d) \<and> g_id g = gid \<and> g_invite_code g = code) \<or>
    (\<exists>actor. op = GAddFriendOp gid actor uid \<and> may gid actor PermAddMembers d \<and>
       ge_friends e actor uid = Some True)"
proof -
  have was: "uid \<notin> ids gid d" and now: "uid \<in> ids gid d'"
    using assms(2,3) by (simp_all add: is_member_iff)
  have same: False if "members_of gid d' = members_of gid d" using was now that by simp
  have add: "g = gid \<and> u = uid" if a: "addLocked e mx cur g u d = Inr ((), d')" for mx cur g u
  proof -
    obtain m where m: "mt_member_id m = u" "members_of gid d' = members_of gid d @ (if gid = g then [m] else [])"
      using addLocked_members [OF a, of gid] by blast
    with was now show ?thesis by (auto split: if_splits)
  qed
  have set_role: "ids gid d2 = ids gid d1" if "SetMemberRole role perms g u d1 = Inr d2" for role perms g u d1 d2
    using SetMemberRole_frame(5) [OF that, of gid] SetMemberRole_frame(7) [OF that] by (cases "gid = g") auto
  show ?thesis
    using assms(1)
  proof cases
    case (1 req0 req u)
    then obtain m where "mt_member_id m = u" "members_of gid d' = members_of gid d @ (if gid = ge_uuid e then [m] else [])"
      using create_members [of e "ge_uuid e" u req 0 3 d d' gid] by (auto simp: repo_Create_def)
    with was now have "gid = ge_uuid e" "u = uid" by (auto split: if_splits)
    with 1 show ?thesis by simp
  next
    case (2 g u)
    then show ?thesis by (auto elim!: Join_parts dest: add)
  next
    case (3 raw code p u)
    have p: "gp_ID p = gid" "u = uid" using 3(4) by (auto elim!: Join_parts dest: add)
    obtain g where "find_row (\<lambda>g. g_invite_code g = code) (chat_groups d) = Some g" "gp_ID p = g_id g"
      using 3(3) by (auto simp: repo_ByInviteCode_def GetGroupByInviteCode_def faulty_def preview_def
          split: sum.splits dberr.splits if_splits option.splits)
    with p find_row_Some [OF this(1)] 3 show ?thesis by auto
  next
    case (4 g u succ left)
    then show ?thesis using Leave_members [of e g u succ d left d' gid] was now by (auto split: if_splits)
  next
    case (5 g c u)
    then show ?thesis using regenerate_members [of e g 0 3 d c d' gid] was now
      by (simp add: repo_RegenerateInviteCode_def)
  next
    case (6 g u t)
    obtain cur where "removeLocked e cur g t d = Inr ((), d')" using 6(2) by (rule Kick_parts) blast
    from removeLocked_members [OF this, of gid] was now show ?thesis by (auto split: if_splits)
  next
    case (7 g u nm descr vis p req)
    then show ?thesis using Update_members same by blast
  next
    case (8 g u t)
    obtain d1 where "SetMemberRole RoleMember [] g u d = Inr d1" "SetMemberRole RoleAdmin [] g t d1 = Inr d'"
      using 8(2) by (rule TransferAdmin_parts)
    with set_role [OF this(1)] set_role [OF this(2)] was now show ?thesis by simp
  next
    case (9 req perms g u t)
    with set_role [OF SetRole_parts(2) [OF 9(4)]] was now show ?thesis by simp
  next
    case (10 g u ms)
    with Delete_parts(2) [OF 10(2)] was now show ?thesis by (auto simp: members_of_DeleteGroup split: if_splits)
  next
    case (11 g u t)
    obtain mx cur where "may g u PermAddMembers d" "addLocked e mx cur g t d = Inr ((), d')"
      using 11(2) by (rule AddMember_parts)
    with add [OF this(2)] 11 show ?thesis by simp
  next
    case (12 g u img at raw)
    then show ?thesis using SetAvatar_members same by blast
  next
    case (13 g u)
    then show ?thesis using DeleteAvatar_members same by blast
  qed
qed

text \<open>
  Somebody becomes a member of a group in one of four ways only: they create it; they join
  it while it is public; they enter, in any spelling, the code that is stored for it; or
  a member with the permission to add members, whose friend they are, adds them.
\<close>

theorem membership_gained:
  assumes "groups_exec e op s = (r, s', es)" "snapshots_current s"
    and "\<not> is_member gid uid (gy_db s)" "is_member gid uid (gy_db s')"
  shows "(\<exists>req. op = GCreateOp uid req \<and> gid = ge_uuid e) \<or>
    (op = GJoinPublicOp gid uid \<and>
       (\<exists>g \<in> set (chat_groups (gy_db s)). g_id g = gid \<and> g_visibility g = Public)) \<or>
    (\<exists>raw. op = GJoinByInviteOp uid raw \<and>
       (\<exists>g \<in> set (chat_groups (gy_db s)). g_id g = gid \<and> NormalizeInviteCode raw = Some (g_invite_code g))) \<or>
    (\<exists>actor. op = GAddFriendOp gid actor uid \<and> may gid actor PermAddMembers (gy_db s) \<and>
       ge_friends e actor uid = Some True)"
proof -
  have "group_commit e op (gy_db s) (gy_db s')"
    by (rule exec_commit_if [OF assms(1), where P = "\<lambda>d. \<not> is_member gid uid d"]) (use assms(3,4) in auto)
  note gained = commit_gained [OF this assms(3,4)]
  have "\<exists>g \<in> set (chat_groups (gy_db s)). g_id g = gid \<and> g_visibility g = Public" if "op = GJoinPublicOp gid uid"
  proof -
    obtain sn s1 where sn: "snapshot e 0 gid s = (sn, s1)" by (cases "snapshot e 0 gid s")
    have "gy_db s \<noteq> gy_db s'" using assms(3,4) by auto
    with that assms(1) sn obtain snap where "sn = Inr snap" "gs_Public snap"
      by (auto simp: svc_JoinPublic_def dest: snapshot_dbE split: sum.splits if_splits)
    with snapshot_current(1) [OF assms(2) sn] have "group_snapshot_of (gy_db s) gid = Inr snap" "gs_Public snap"
      by auto
    then show ?thesis by (auto simp: group_snapshot_of_def split: option.splits dest: find_group_Some)
  qed
  with gained show ?thesis by blast
qed

text \<open>Without faults a snapshot is the table's.\<close>

lemma snapshot_calm:
  assumes "snapshots_current s" "\<And>c. \<not> ge_fails e c"
  shows "fst (snapshot e ph gid s) = group_snapshot_of (gy_db s) gid"
proof -
  have "repo_Snapshot e ph gid (gy_db s) = group_snapshot_of (gy_db s) gid"
    using assms(2) by (simp add: repo_Snapshot_def group_snapshot_of_def)
  then show ?thesis
    using vc.load_value [of "group_snapshot_of (gy_db s)" "gy_cache s" "\<lambda>c. ge_fails e (GSnap ph (SCache c))" gid]
      assms(1)
    by (cases "VLoad (\<lambda>c. ge_fails e (GSnap ph (SCache c))) gid (repo_Snapshot e ph gid (gy_db s)) (gy_cache s)")
      (simp add: snapshot_def snapshots_current_def)
qed

lemma devs_join:
  "\<exists>r s' es. groups_exec (quiet_genv 9) (GAddFriendOp 7 1 3) devs_sys = (r, s', es) \<and> is_member 7 3 (gy_db s')"
proof -
  have "repo_AddMember (quiet_genv 9) 7 1 3 (gy_db devs_sys) =
      Inr ((), SetGroupMemberCount 5 7 3 ((gy_db devs_sys)\<lparr>member_table := member_table (gy_db devs_sys) @
        [\<lparr>mt_group_id = 7, mt_member_id = 3, mt_joined_at = 5, mt_role = RoleMember, mt_permissions = []\<rparr>]\<rparr>))"
    by (simp add: repo_AddMember_def repo_as_def withLockedGroup_def LockGroup_def devs_sys_def devs_def
        find_group_def empty_db_def repo_member_def GetMember_def is_member_row_def allowed_def addLocked_def
        AddMember_def insert_member_def group_exists_def user_exists_def wrap16_def)
  moreover obtain d' where d': "d' = SetGroupMemberCount 5 7 3 ((gy_db devs_sys)\<lparr>member_table :=
      member_table (gy_db devs_sys) @ [\<lparr>mt_group_id = 7, mt_member_id = 3, mt_joined_at = 5,
        mt_role = RoleMember, mt_permissions = []\<rparr>]\<rparr>)" by simp
  moreover have "is_member 7 3 d'"
    by (simp add: d' is_member_def is_member_row_def)
  moreover obtain s1 where s1: "check (quiet_genv 9) 0 7 1 PermAddMembers devs_sys = (Inr (), s1)"
    by (simp add: check_def snapshot_def VLoad_def VGet_def devs_sys_def empty_vcache_def repo_Snapshot_def
        group_snapshot_of_def find_group_def devs_def GetGroupLeader_def empty_db_def Role_def allowed_def)
  moreover have "gy_db s1 = gy_db devs_sys" by (rule check_dbE [OF s1])
  moreover obtain s2 where s2: "IsMember (quiet_genv 9) 1 7 3 s1 = (Inr False, s2)"
  proof -
    have "fst (snapshot (quiet_genv 9) 1 7 s1) = group_snapshot_of (gy_db devs_sys) 7"
      using snapshot_calm [OF check_current [OF devs_current s1]] check_dbE [OF s1] by simp
    then have "fst (IsMember (quiet_genv 9) 1 7 3 s1) = Inr False"
      by (cases "snapshot (quiet_genv 9) 1 7 s1")
        (simp add: IsMember_def group_snapshot_of_def find_group_def devs_sys_def devs_def empty_db_def
          GetMemberListByID_def members_of_def)
    then show thesis using that by (cases "IsMember (quiet_genv 9) 1 7 3 s1") simp
  qed
  moreover have "gy_db s2 = gy_db s1" by (rule IsMember_dbE [OF s2])
  ultimately show ?thesis
    by (cases "changed (quiet_genv 9) 7 1 ''joined'' 3 d' s2") (auto simp: svc_AddFriend_def dest: changed_dbE)
qed

theorem membership_gained_witness:
  "\<exists>actor. GAddFriendOp 7 1 3 = GAddFriendOp 7 actor 3 \<and> may 7 actor PermAddMembers (gy_db devs_sys)"
proof -
  obtain r s' es where x: "groups_exec (quiet_genv 9) (GAddFriendOp 7 1 3) devs_sys = (r, s', es)"
      "is_member 7 3 (gy_db s')" using devs_join by blast
  have "\<not> is_member 7 3 (gy_db devs_sys)"
    by (simp add: is_member_def is_member_row_def devs_sys_def empty_db_def)
  from membership_gained [OF x(1) devs_current this x(2)] show ?thesis by auto
qed

lemma devs_kick:
  "\<exists>r s' es. groups_exec (quiet_genv 9) (GKickOp 7 1 2) devs_sys = (r, s', es) \<and>
     is_member 7 2 (gy_db devs_sys) \<and> \<not> is_member 7 2 (gy_db s')"
proof -
  let ?d = "SetGroupMemberCount 5 7 1 (DeleteMemFromGroup 7 2 (gy_db devs_sys))"
  have kick: "repo_Kick (quiet_genv 9) 7 1 2 (gy_db devs_sys) = Inr ((), ?d)"
    by (simp add: repo_Kick_def repo_as_def withLockedGroup_def LockGroup_def devs_sys_def devs_def
        find_group_def empty_db_def repo_member_def GetMember_def is_member_row_def allowed_def
        removeLocked_def wrap16_def)
  have m: "is_member 7 2 (gy_db devs_sys)" "\<not> is_member 7 2 ?d"
    by (auto simp: is_member_iff members_of_delete) (simp add: devs_sys_def empty_db_def members_of_def)
  obtain s1 es where "changed (quiet_genv 9) 7 1 ''members'' 2 ?d devs_sys = (s1, es)" by fastforce
  with kick m changed_dbE [OF this] show ?thesis by (auto simp: svc_Kick_def)
qed

theorem membership_lost_witness:
  "may 7 1 PermRemoveMembers (gy_db devs_sys)"
proof -
  obtain r s' es where x: "groups_exec (quiet_genv 9) (GKickOp 7 1 2) devs_sys = (r, s', es)"
      "is_member 7 2 (gy_db devs_sys)" "\<not> is_member 7 2 (gy_db s')" using devs_kick by blast
  from membership_lost [OF devs_inv x] show ?thesis by auto
qed

section \<open>Power comes from the admin\<close>

lemma commit_power:
  assumes "group_commit e op d d'" "groups_inv d"
    and "m \<in> set (members_of gid d')" "m \<notin> set (members_of gid d)" "mt_role m \<noteq> RoleMember"
  shows "(\<exists>req. op = GCreateOp (mt_member_id m) req \<and> gid = ge_uuid e) \<or>
    (\<exists>a. is_admin gid a d \<and>
      ((op = GTransferOp gid a (mt_member_id m) \<and> mt_role m = RoleAdmin) \<or>
       (\<exists>req. op = GSetRoleOp gid a (mt_member_id m) req \<and> mt_role m = RoleModerator \<and>
          set (mt_permissions m) = set (rr_Permissions req)) \<or>
       (\<exists>succ. op = GLeaveOp gid a succ \<and> mt_role m = RoleAdmin)))"
proof -
  have same: False if "members_of gid d' = members_of gid d" using assms(3,4) that by simp
  have add: False if a: "addLocked e mx cur g u d = Inr ((), d')" for mx cur g u
  proof -
    obtain n where "mt_role n = RoleMember" "members_of gid d' = members_of gid d @ (if gid = g then [n] else [])"
      using addLocked_members [OF a, of gid] by blast
    with assms(3-5) show False by (auto split: if_splits)
  qed
  have set_role: "g = gid \<and> mt_member_id m = u \<and> mt_role m = role \<and> mt_permissions m = perms \<or> m \<in> set (members_of gid d1)"
    if "SetMemberRole role perms g u d1 = Inr d2" "m \<in> set (members_of gid d2)" for role perms g u d1 d2
    using that(2) unfolding members_of_set_role [OF that(1)]
    by (auto simp: set_update_rows split: if_splits)
  have removed: "m \<in> set (members_of gid d1)" if "removeLocked e cur g u d1 = Inr ((), d')" for cur g u d1
    using removeLocked_members [OF that, of gid] assms(3) by (auto split: if_splits)
  show ?thesis
    using assms(1)
  proof cases
    case (1 req0 req u)
    then obtain n where "mt_member_id n = u" "members_of gid d' = members_of gid d @ (if gid = ge_uuid e then [n] else [])"
      using create_members [of e "ge_uuid e" u req 0 3 d d' gid] by (auto simp: repo_Create_def)
    with assms(3,4) have "gid = ge_uuid e" "u = mt_member_id m" by (auto split: if_splits)
    with 1 show ?thesis by simp
  next
    case (2 g u)
    then show ?thesis by (auto elim!: Join_parts dest: add)
  next
    case (3 raw code p u)
    then show ?thesis by (auto elim!: Join_parts dest: add)
  next
    case (4 g u succ left)
    from 4(2) show ?thesis
    proof (cases rule: repo_LeaveE)
      case (1 gr n)
      then show ?thesis using assms(3,4) by (auto simp: members_of_DeleteGroup split: if_splits)
    next
      case (2 gr n "next" d1)
      have "g = gid \<and> mt_role m = RoleAdmin" using set_role [OF 2(6) removed [OF 2(7)]] assms(4) by blast
      moreover have "is_admin g u d" using 2 by (auto simp: is_admin_iff admin_ids_def admins_of_def)
      ultimately show ?thesis using 4 by blast
    next
      case (3 gr n)
      then show ?thesis using removed assms(4) by blast
    qed
  next
    case (5 g c u)
    then show ?thesis using regenerate_members [of e g 0 3 d c d' gid] same
      by (simp add: repo_RegenerateInviteCode_def)
  next
    case (6 g u t)
    obtain cur where "removeLocked e cur g t d = Inr ((), d')" using 6(2) by (rule Kick_parts) blast
    from removed [OF this] assms(4) show ?thesis by simp
  next
    case (7 g u nm descr vis p req)
    then show ?thesis using Update_members same by blast
  next
    case (8 g u t)
    obtain d1 where p: "is_admin g u d" "SetMemberRole RoleMember [] g u d = Inr d1" "SetMemberRole RoleAdmin [] g t d1 = Inr d'"
      using 8(2) by (rule TransferAdmin_parts)
    have "m \<notin> set (members_of gid d1)" using set_role [OF p(2)] assms(4,5) by blast
    with set_role [OF p(3) assms(3)] p(1) 8(1) show ?thesis by blast
  next
    case (9 req perms g u t)
    note p = SetRole_parts [OF 9(4)]
    have "set perms = set (rr_Permissions req)"
      using 9(3) by (auto simp: cleanPermissions_def split: if_splits)
    with set_role [OF p(2) assms(3)] assms(4,5) p(1) 9(1,2) show ?thesis by (auto split: if_splits)
  next
    case (10 g u ms)
    with Delete_parts(2) [OF 10(2)] assms(3,4) show ?thesis by (auto simp: members_of_DeleteGroup split: if_splits)
  next
    case (11 g u t)
    then show ?thesis by (auto elim!: AddMember_parts dest: add)
  next
    case (12 g u img at raw)
    then show ?thesis using SetAvatar_members same by blast
  next
    case (13 g u)
    then show ?thesis using DeleteAvatar_members same by blast
  qed
qed

text \<open>
  C22: among the operations of the groups package, power in a group comes from its admin only: a row that
  makes somebody admin or moderator appears when they create the group, or by an operation of the
  admin: a transfer to them, a role given to them (with exactly the requested permissions), or the
  admin's own departure. No member or moderator can raise anybody, themselves included. (Outside
  the package, the deletion of an admin's account and an admin's ban make another member the admin.)
\<close>

theorem power_from_admin:
  assumes "groups_inv (gy_db s)" "groups_exec e op s = (r, s', es)"
    and "m \<in> set (members_of gid (gy_db s'))" "m \<notin> set (members_of gid (gy_db s))" "mt_role m \<noteq> RoleMember"
  shows "(\<exists>req. op = GCreateOp (mt_member_id m) req \<and> gid = ge_uuid e) \<or>
    (\<exists>a. is_admin gid a (gy_db s) \<and>
      ((op = GTransferOp gid a (mt_member_id m) \<and> mt_role m = RoleAdmin) \<or>
       (\<exists>req. op = GSetRoleOp gid a (mt_member_id m) req \<and> mt_role m = RoleModerator \<and>
          set (mt_permissions m) = set (rr_Permissions req)) \<or>
       (\<exists>succ. op = GLeaveOp gid a succ \<and> mt_role m = RoleAdmin)))"
proof -
  have "group_commit e op (gy_db s) (gy_db s')"
    by (rule exec_commit_if [OF assms(2), where P = "\<lambda>d. m \<notin> set (members_of gid d)"]) (use assms(3,4) in auto)
  from commit_power [OF this assms(1,3-5)] show ?thesis .
qed

lemma devs_transfer:
  "\<exists>r s' es m. groups_exec (quiet_genv 9) (GTransferOp 7 1 2) devs_sys = (r, s', es) \<and>
     m \<in> set (members_of 7 (gy_db s')) \<and> m \<notin> set (members_of 7 (gy_db devs_sys)) \<and>
     mt_member_id m = 2 \<and> mt_role m = RoleAdmin"
proof -
  let ?m1 = "\<lparr>mt_group_id = 7, mt_member_id = 1, mt_joined_at = 1, mt_role = RoleMember, mt_permissions = []\<rparr>"
  let ?m2 = "\<lparr>mt_group_id = 7, mt_member_id = 2, mt_joined_at = 2, mt_role = RoleAdmin, mt_permissions = []\<rparr>"
  let ?d = "(gy_db devs_sys)\<lparr>member_table := [?m1, ?m2]\<rparr>"
  have t: "repo_TransferAdmin (quiet_genv 9) 7 1 2 (gy_db devs_sys) = Inr ((), ?d)"
    by (simp add: repo_TransferAdmin_def repo_as_def withLockedGroup_def LockGroup_def devs_sys_def devs_def
        find_group_def empty_db_def repo_member_def GetMember_def is_member_row_def allowed_def SetMemberRole_def)
  obtain s1 es where c: "changed (quiet_genv 9) 7 1 ''admin'' 2 ?d devs_sys = (s1, es)" by fastforce
  have "?m2 \<in> set (members_of 7 ?d)" "?m2 \<notin> set (members_of 7 (gy_db devs_sys))"
    by (simp_all add: members_of_def devs_sys_def empty_db_def)
  with t c changed_dbE [OF c] show ?thesis
    by (intro exI [of _ "Inr ()"] exI [of _ s1] exI [of _ es] exI [of _ ?m2]) (simp add: svc_TransferAdmin_def)
qed

theorem power_from_admin_witness:
  "\<exists>a. is_admin 7 a (gy_db devs_sys)"
proof -
  obtain r s' es m where x: "groups_exec (quiet_genv 9) (GTransferOp 7 1 2) devs_sys = (r, s', es)"
      "m \<in> set (members_of 7 (gy_db s'))" "m \<notin> set (members_of 7 (gy_db devs_sys))" "mt_role m = RoleAdmin"
    using devs_transfer by blast
  from power_from_admin [OF devs_inv x(1-3)] x(4) show ?thesis by auto
qed

end
