(* ===== verification/Groups_Outside.thy ===== *)
theory Groups_Outside
  imports Groups_Cache Friends_Safety
begin

text \<open>
  The groups service seen from outside: what non-members can learn, what the friends service
  contributes, what chat is told, and what a search finds.
\<close>

section \<open>Membership as chat uses it\<close>

definition member_set :: "gsys \<Rightarrow> uuid \<Rightarrow> uuid set" where
  "member_set s gid = (if group_exists gid (gy_db s) then ids gid (gy_db s) else {})"

lemma member_set_current:
  assumes "groups_inv (gy_db s)" "snapshots_current s" "snapshot e ph gid s = (Inr snap, s')"
  shows "set (gs_Members snap) = member_set s gid" "distinct (gs_Members snap)"
proof -
  have "group_snapshot_of (gy_db s) gid = Inr snap" using snapshot_current(1) [OF assms(2,3)] by auto
  then have "gs_Members snap = map mt_member_id (members_of gid (gy_db s))" "group_exists gid (gy_db s)"
    by (auto simp: group_snapshot_of_def GetMemberListByID_def find_group_exists split: option.splits)
  then show "set (gs_Members snap) = member_set s gid" "distinct (gs_Members snap)"
    using member_ids_distinct [OF assms(1)] by (simp_all add: member_set_def)
qed

interpretation gm: group_membership "\<lambda>s g u. IsMember e ph g u s" "\<lambda>s g. Members e ph' g s"
  "\<lambda>s. groups_inv (gy_db s) \<and> snapshots_current s" member_set for e ph ph'
proof (unfold_locales, goal_cases)
  case (1 s g u v s')
  then show ?case
    by (auto simp: IsMember_def member_set_current split: prod.splits sum.splits)
next
  case (2 s g u r s')
  then have "gy_db s' = gy_db s" "snapshots_current s'" by (auto dest: IsMember_dbE IsMember_current)
  with 2 show ?case by (auto simp: member_set_def fun_eq_iff)
next
  case (3 s g ms s')
  then show ?case
    by (auto simp: Members_def member_set_current split: prod.splits sum.splits)
next
  case (4 s g r s')
  then have "gy_db s' = gy_db s" "snapshots_current s'" by (auto dest: Members_dbE Members_current)
  with 4 show ?case by (auto simp: member_set_def fun_eq_iff)
qed

text \<open>
  The check and the fan-out chat does agree: after \<^verbatim>\<open>IsMember\<close> said yes, the list
  \<^verbatim>\<open>Members\<close> returns (each possibly from a different cached copy, with calls failing in
  between) is the group's members, each once, and contains the one who was checked.
\<close>

theorem members_after_check:
  assumes "groups_inv (gy_db s)" "snapshots_current s"
    and "IsMember e 0 gid u s = (Inr True, s1)" "Members e 1 gid s1 = (Inr ms, s2)"
  shows "u \<in> set ms \<and> distinct ms \<and> set ms = ids gid (gy_db s)"
proof -
  have ok: "groups_inv (gy_db s) \<and> snapshots_current s" using assms(1,2) by simp
  have "u \<in> set ms" "set ms = member_set s gid" "distinct ms"
    using gm.check_then_members [OF ok assms(3,4)] by auto
  moreover from this have "member_set s gid = ids gid (gy_db s)"
    by (auto simp: member_set_def split: if_splits)
  ultimately show ?thesis by simp
qed

lemma devs_members: "\<exists>s1 ms s2. IsMember (quiet_genv 1) 0 7 2 devs_sys = (Inr True, s1) \<and> Members (quiet_genv 1) 1 7 s1 = (Inr ms, s2)"
proof -
  have src: "\<exists>snap. group_snapshot_of (gy_db devs_sys) 7 = Inr snap \<and> gs_Members snap = [1, 2]"
    by (simp add: group_snapshot_of_def find_group_def devs_sys_def devs_def empty_db_def GetMemberListByID_def
        members_of_def)
  obtain s1 where s1: "snapshot (quiet_genv 1) 0 7 devs_sys = (group_snapshot_of (gy_db devs_sys) 7, s1)"
    using snapshot_calm [OF devs_current, of "quiet_genv 1" 0 7] by (metis prod.collapse quiet_genv_simps(1))
  note c1 = snapshot_current(2,3) [OF devs_current s1]
  obtain s2 where s2: "snapshot (quiet_genv 1) 1 7 s1 = (group_snapshot_of (gy_db devs_sys) 7, s2)"
    using snapshot_calm [OF c1(1), of "quiet_genv 1" 1 7] c1(2) by (metis prod.collapse quiet_genv_simps(1))
  show ?thesis using src s1 s2 by (auto simp: IsMember_def Members_def)
qed

theorem members_after_check_witness:
  "\<exists>ms. (2::uuid) \<in> set ms \<and> set ms = ids 7 (gy_db devs_sys)"
proof -
  obtain s1 ms s2 where "IsMember (quiet_genv 1) 0 7 2 devs_sys = (Inr True, s1)"
      "Members (quiet_genv 1) 1 7 s1 = (Inr ms, s2)" using devs_members by blast
  from members_after_check [OF devs_inv devs_current this] show ?thesis by blast
qed

section \<open>Adding friends\<close>

context friend_checker begin

lemma AddFriend_only_friends:
  assumes "ok t" "ge_friends env = (\<lambda>a b. answer_of (ask t a b))"
    and "svc_AddFriend env gid actor target s = (Inr (), s', es)"
  shows "truth t actor target"
proof -
  have "ge_friends env actor target = Some True"
    using assms(3) by (auto simp: svc_AddFriend_def split: sum.splits prod.splits if_splits option.splits)
  with assms(1,2) answer_true show ?thesis by auto
qed

end

text \<open>
  Groups on top of friends: with \<^verbatim>\<open>AreFriends\<close> answered by the friends service in any
  state its operations lead to, only somebody who is the actor's friend in Postgres is ever
  added, so never somebody who blocked the actor or whom the actor blocked.
\<close>

theorem only_friends_are_added:
  assumes "friends_inv (fs_db f)" "lists_current (fe_coll fe) f"
    and "ge_friends e = (\<lambda>a b. answer_of (AreFriends fe a b f))"
    and "svc_AddFriend e gid actor target s = (Inr (), s', es)"
  shows "are_friends_db actor target (fs_db f) \<and> \<not> blocks_db actor target (fs_db f) \<and>
    \<not> blocks_db target actor (fs_db f)"
proof -
  have "are_friends_db actor target (fs_db f)"
    using fr.AddFriend_only_friends [OF _ assms(3,4)] assms(1,2) by blast
  with friends_not_blocked [OF assms(1)] show ?thesis by simp
qed

text \<open>A group with user 1 alone, who adds their friend 2.\<close>

definition solo_sys :: gsys where
  "solo_sys = devs_sys\<lparr>gy_db := (gy_db devs_sys)\<lparr>chat_groups := [devs\<lparr>g_current_member := 1\<rparr>],
     member_table := [\<lparr>mt_group_id = 7, mt_member_id = 1, mt_joined_at = 1, mt_role = RoleAdmin, mt_permissions = []\<rparr>]\<rparr>\<rparr>"

definition asking :: group_env where
  "asking = (quiet_genv 9)\<lparr>ge_friends := \<lambda>a b. answer_of (AreFriends (calm 9) a b befriended)\<rparr>"

lemma solo_adds: "\<exists>s' es. svc_AddFriend asking 7 1 2 solo_sys = (Inr (), s', es)"
proof -
  have friends: "ge_friends asking 1 2 = Some True"
    using befriended_answer by (auto simp: asking_def answer_of_def)
  have [simp]: "\<not> ge_fails asking c" "ge_now asking = 5" "ge_dbnow asking = 5" for c by (simp_all add: asking_def)
  have cur: "snapshots_current solo_sys" by (simp add: solo_sys_def devs_sys_def snapshots_current_def)
  obtain s1 where s1: "check asking 0 7 1 PermAddMembers solo_sys = (Inr (), s1)"
    by (simp add: check_def snapshot_def VLoad_def VGet_def solo_sys_def devs_sys_def empty_vcache_def Groups_Service.repo_Snapshot_def
        group_snapshot_of_def find_group_def devs_def GetGroupLeader_def empty_db_def Role_def allowed_def)
  have db1: "gy_db s1 = gy_db solo_sys" by (rule check_dbE [OF s1])
  have "fst (snapshot asking 1 7 s1) = group_snapshot_of (gy_db solo_sys) 7"
    using snapshot_calm [OF check_current [OF cur s1], of asking 1 7] db1 by simp
  then have "fst (IsMember asking 1 7 2 s1) = Inr False"
    by (cases "snapshot asking 1 7 s1")
      (simp add: IsMember_def group_snapshot_of_def find_group_def solo_sys_def devs_sys_def devs_def empty_db_def
        GetMemberListByID_def members_of_def)
  then obtain s2 where s2: "IsMember asking 1 7 2 s1 = (Inr False, s2)"
    by (cases "IsMember asking 1 7 2 s1") simp
  have "gy_db s2 = gy_db solo_sys" using IsMember_dbE [OF s2] db1 by simp
  moreover obtain d' where "repo_AddMember asking 7 1 2 (gy_db solo_sys) = Inr ((), d')"
    by (simp add: repo_AddMember_def repo_as_def withLockedGroup_def LockGroup_def solo_sys_def devs_sys_def devs_def
        find_group_def empty_db_def repo_member_def GetMember_def is_member_row_def allowed_def addLocked_def
        AddMember_def insert_member_def group_exists_def user_exists_def wrap16_def)
  ultimately show ?thesis
    using s1 s2 friends
    by (cases "changed asking 7 1 ''joined'' 2 d' s2") (simp add: svc_AddFriend_def)
qed

theorem only_friends_are_added_witness:
  "are_friends_db 1 2 (fs_db befriended) \<and> \<not> blocks_db 1 2 (fs_db befriended)"
proof -
  obtain s' es where "svc_AddFriend asking 7 1 2 solo_sys = (Inr (), s', es)" using solo_adds by blast
  from only_friends_are_added [OF befriended_ok(1) _ _ this, of "calm 9"] befriended_ok(2)
  show ?thesis by (simp add: asking_def)
qed

section \<open>What outsiders learn\<close>

definition nowhere :: gsys where
  "nowhere = \<lparr>gy_db = empty_db, gy_cache = empty_vcache\<rparr>"

lemma nowhere_ok [simp]: "groups_inv (gy_db nowhere)" "snapshots_current nowhere" "\<not> is_member gid u (gy_db nowhere)"
  "find_group gid (gy_db nowhere) = None"
  by (simp_all add: nowhere_def snapshots_current_def is_member_def find_group_def) (simp_all add: empty_db_def)

lemma GetMember_outsider: "\<not> is_member gid u d \<Longrightarrow> GetMember gid u d = Inl NoRows"
  by (auto simp: GetMember_Inl is_member_iff)

definition calm_genv :: "group_env \<Rightarrow> bool" where
  "calm_genv e \<longleftrightarrow> (\<forall>c. \<not> ge_fails e c)"

lemma calm_genv_quiet [simp]: "calm_genv (quiet_genv i)"
  by (simp add: calm_genv_def)

text \<open>Every check of a non-member ends the same way, whether the group exists or not.\<close>

lemma repo_as_outsider:
  assumes "calm_genv e" "\<not> is_member gid u d"
  shows "repo_as e gid u perm fn d = Inl (Sentinel ErrNotFoundGroup)"
proof -
  have "GetMember gid u d = Inl NoRows" using assms(2) by (rule GetMember_outsider)
  then have "repo_member e gid u d = Inr None" using assms(1) by (simp add: repo_member_def calm_genv_def)
  then show ?thesis
    using assms(1) by (simp add: repo_as_def withLockedGroup_def calm_genv_def LockGroup_def split: option.split)
qed

lemma check_outsider:
  assumes "calm_genv e" "groups_inv (gy_db s)" "snapshots_current s" "\<not> is_member gid u (gy_db s)"
  shows "fst (check e ph gid u perm s) = Inl (Sentinel ErrNotFoundGroup)"
proof -
  obtain s1 where s1: "snapshot e ph gid s = (group_snapshot_of (gy_db s) gid, s1)"
    using snapshot_calm [OF assms(3), of e ph gid] assms(1) by (metis calm_genv_def prod.collapse)
  have none: "GetMember gid u (gy_db s) = Inl NoRows"
    using assms(4) by (rule GetMember_outsider)
  show ?thesis
  proof (cases "group_snapshot_of (gy_db s) gid")
    case (Inl err)
    then have "err = Sentinel ErrNotFoundGroup" by (auto simp: group_snapshot_of_def split: option.splits)
    with s1 Inl show ?thesis by (simp add: check_def)
  next
    case (Inr snap)
    with Role_snapshot [OF assms(2) Inr, of u] none s1 show ?thesis by (simp add: check_def)
  qed
qed

lemma IsMember_outsider:
  assumes "calm_genv e" "snapshots_current s" "\<not> is_member gid u (gy_db s)"
  shows "fst (IsMember e ph gid u s) = Inl (Sentinel ErrNotFoundGroup) \<or> fst (IsMember e ph gid u s) = Inr False"
proof -
  obtain s1 where s1: "snapshot e ph gid s = (group_snapshot_of (gy_db s) gid, s1)"
    using snapshot_calm [OF assms(2), of e ph gid] assms(1) by (metis calm_genv_def prod.collapse)
  with assms(3) show ?thesis
    by (auto simp: IsMember_def group_snapshot_of_def GetMemberListByID_def is_member_iff split: option.splits)
qed

lemma JoinPublic_outsider:
  assumes "calm_genv e" "snapshots_current s" "\<forall>g. find_group gid (gy_db s) = Some g \<longrightarrow> g_visibility g \<noteq> Public"
  shows "fst (svc_JoinPublic e gid u s) = Inl (Sentinel ErrNotFoundGroup)"
proof -
  obtain s1 where s1: "snapshot e 0 gid s = (group_snapshot_of (gy_db s) gid, s1)"
    using snapshot_calm [OF assms(2), of e 0 gid] assms(1) by (metis calm_genv_def prod.collapse)
  with assms(3) show ?thesis
    by (auto simp: svc_JoinPublic_def group_snapshot_of_def split: option.splits)
qed

lemma Detail_outsider:
  assumes "calm_genv e" "groups_inv (gy_db s)" "\<not> is_member gid u (gy_db s)"
    "\<forall>g. find_group gid (gy_db s) = Some g \<longrightarrow> g_visibility g \<noteq> Public"
  shows "svc_GroupDetail e gid u s = Inl (Sentinel ErrNotFoundGroup)"
proof (cases "find_group gid (gy_db s)")
  case None
  with assms(1) show ?thesis by (simp add: svc_GroupDetail_def repo_Detail_def calm_genv_def GetGroupInfoByID_def)
next
  case (Some g)
  have "(m, x) \<in> set (ListGroupMembers gid (gy_db s)) \<Longrightarrow> mt_member_id m \<noteq> u" for m x
    using assms(3) by (auto simp: ListGroupMembers_def List.map_filter_def is_member_iff)
  then have "\<not> list_ex (\<lambda>(m, x). mt_member_id m = u) (ListGroupMembers gid (gy_db s))"
    by (auto simp: list_ex_iff)
  with Some assms(1,4) show ?thesis
    by (simp add: svc_GroupDetail_def repo_Detail_def calm_genv_def GetGroupInfoByID_def Let_def)
qed

definition op_on :: "uuid \<Rightarrow> uuid \<Rightarrow> group_op \<Rightarrow> bool" where
  "op_on gid u op \<longleftrightarrow> (case op of
     GJoinPublicOp g a \<Rightarrow> g = gid \<and> a = u
   | GRegenerateOp g a \<Rightarrow> g = gid \<and> a = u
   | GKickOp g a _ \<Rightarrow> g = gid \<and> a = u
   | GUpdateOp g a _ \<Rightarrow> g = gid \<and> a = u
   | GTransferOp g a _ \<Rightarrow> g = gid \<and> a = u
   | GSetRoleOp g a _ _ \<Rightarrow> g = gid \<and> a = u
   | GDeleteOp g a \<Rightarrow> g = gid \<and> a = u
   | GAddFriendOp g a _ \<Rightarrow> g = gid \<and> a = u
   | GSetAvatarOp g a _ \<Rightarrow> g = gid \<and> a = u
   | GDeleteAvatarOp g a \<Rightarrow> g = gid \<and> a = u
   | _ \<Rightarrow> False)"

lemma exec_outsider:
  assumes "calm_genv e" "groups_inv (gy_db s)" "snapshots_current s" "\<not> is_member gid u (gy_db s)"
    and "\<forall>g. find_group gid (gy_db s) = Some g \<longrightarrow> g_visibility g \<noteq> Public" "op_on gid u op"
  shows "fst (groups_exec e op s) = (case op of
      GUpdateOp g a req \<Rightarrow> fst (unit_result (svc_Update e g a req nowhere))
    | GSetRoleOp g a t req \<Rightarrow> fst (svc_SetRole e g a t req nowhere)
    | GSetAvatarOp g a raw \<Rightarrow> fst (unit_result (svc_SetAvatar e g a raw nowhere))
    | _ \<Rightarrow> Inl (Sentinel ErrNotFoundGroup))"
proof -
  note as = repo_as_outsider [OF assms(1)]
  note chk = check_outsider [OF assms(1-4)]
  have check: "\<exists>s1. check e 0 gid u perm s = (Inl (Sentinel ErrNotFoundGroup), s1)" for perm
    using chk [of 0 perm] by (metis prod.collapse)
  show ?thesis
  proof (cases op)
    case (GUpdateOp g a req)
    with assms(4,6) show ?thesis
      by (auto simp: op_on_def svc_Update_def repo_Update_def as unit_result_def Let_def split: option.splits)
  next
    case (GSetRoleOp g a t req)
    with assms(4,6) show ?thesis
      by (auto simp: op_on_def svc_SetRole_def repo_SetRole_def as split: sum.splits)
  next
    case (GSetAvatarOp g a raw)
    with assms(4,6) show ?thesis
      by (auto simp: op_on_def svc_SetAvatar_def repo_SetAvatar_def as unit_result_def Let_def split: sum.splits)
  next
    case (GRegenerateOp g a)
    with assms(6) check [of PermManageInvite] show ?thesis
      by (auto simp: op_on_def svc_RegenerateInvite_def unit_result_def)
  next
    case (GAddFriendOp g a t)
    with assms(6) check [of PermAddMembers] show ?thesis
      by (auto simp: op_on_def svc_AddFriend_def)
  next
    case (GJoinPublicOp g a)
    with assms(6) JoinPublic_outsider [OF assms(1,3,5)] show ?thesis by (auto simp: op_on_def)
  qed (use assms(4,6) in \<open>auto simp: op_on_def svc_Kick_def repo_Kick_def svc_TransferAdmin_def
      repo_TransferAdmin_def svc_Delete_def repo_Delete_def svc_DeleteAvatar_def repo_DeleteAvatar_def as\<close>)
qed

text \<open>
  Somebody who is not in a private group cannot tell that it exists from any of the
  operations on it but one: joining, managing and reading it (its details, its code) answer
  exactly as with an empty database.
\<close>

theorem private_group_is_hidden:
  assumes "calm_genv e" "groups_inv (gy_db s)" "snapshots_current s" "\<not> is_member gid u (gy_db s)"
    and "\<forall>g. find_group gid (gy_db s) = Some g \<longrightarrow> g_visibility g \<noteq> Public"
  shows "(op_on gid u op \<longrightarrow> fst (groups_exec e op s) = fst (groups_exec e op nowhere)) \<and>
    svc_GroupDetail e gid u s = svc_GroupDetail e gid u nowhere \<and>
    fst (svc_InviteCode e gid u s) = fst (svc_InviteCode e gid u nowhere)"
proof (intro conjI impI)
  assume "op_on gid u op"
  then show "fst (groups_exec e op s) = fst (groups_exec e op nowhere)"
    using exec_outsider [OF assms] exec_outsider [of e nowhere gid u op] assms(1) by simp
next
  show "svc_GroupDetail e gid u s = svc_GroupDetail e gid u nowhere"
    using Detail_outsider [OF assms(1,2,4,5)] Detail_outsider [of e nowhere gid u] assms(1) by simp
next
  have "fst (svc_InviteCode e gid u t) = Inl (Sentinel ErrNotFoundGroup)"
    if "snapshots_current t" "\<not> is_member gid u (gy_db t)" for t
    using IsMember_outsider [OF assms(1) that, of 0]
    by (cases "IsMember e 0 gid u t") (auto simp: svc_InviteCode_def)
  then show "fst (svc_InviteCode e gid u s) = fst (svc_InviteCode e gid u nowhere)" using assms(3,4) by simp
qed

lemma devs_outsider:
  "\<not> is_member 7 3 (gy_db devs_sys)" "\<forall>g. find_group 7 (gy_db devs_sys) = Some g \<longrightarrow> g_visibility g \<noteq> Public"
  by (simp_all add: is_member_def is_member_row_def devs_sys_def empty_db_def find_group_def devs_def)

theorem private_group_is_hidden_witness:
  "fst (groups_exec (quiet_genv 1) (GKickOp 7 3 2) devs_sys) = fst (groups_exec (quiet_genv 1) (GKickOp 7 3 2) nowhere)"
  using private_group_is_hidden [OF calm_genv_quiet devs_inv devs_current devs_outsider, where op = "GKickOp 7 3 2"]
  by (simp add: op_on_def)

text \<open>
  The exception: leaving answers \<^verbatim>\<open>not a member\<close> for a private group the caller is not
  in and \<^verbatim>\<open>group not found\<close> for one that does not exist, so an outsider can tell the two
  apart.
\<close>

theorem leave_reveals_private_group:
  assumes "calm_genv e" "\<not> is_member gid u (gy_db s)"
  shows "fst (svc_LeaveGroup e gid u succ s) =
    (if group_exists gid (gy_db s) then Inl (Sentinel ErrNotMember) else Inl (Sentinel ErrNotFoundGroup))"
proof -
  have "repo_member e gid u (gy_db s) = Inr None"
    using assms GetMember_outsider [OF assms(2)] by (simp add: repo_member_def calm_genv_def)
  then show ?thesis
    using assms(1)
    by (auto simp: svc_LeaveGroup_def repo_Leave_def withLockedGroup_def calm_genv_def LockGroup_def
        find_group_exists split: option.splits)
qed

theorem leave_reveals_private_group_witness:
  "fst (svc_LeaveGroup (quiet_genv 1) 7 3 0 devs_sys) = Inl (Sentinel ErrNotMember) \<and>
   fst (svc_LeaveGroup (quiet_genv 1) 7 3 0 nowhere) = Inl (Sentinel ErrNotFoundGroup)"
proof -
  have "group_exists 7 (gy_db devs_sys)" by (simp add: group_exists_def devs_sys_def devs_def)
  moreover have "\<not> group_exists 7 (gy_db nowhere)" by (simp add: find_group_exists)
  ultimately show ?thesis
    using leave_reveals_private_group [OF calm_genv_quiet devs_outsider(1), of 1 0]
      leave_reveals_private_group [OF calm_genv_quiet nowhere_ok(3), of 1 7 3 0] by simp
qed

end
