(* ===== verification/Chat_Safety.thy ===== *)
theory Chat_Safety
  imports Chat_Steps Groups_Outside
begin

text \<open>
  The invariant of the message, reaction and read-marker tables, and who may change what a
  message says.
\<close>

section \<open>The invariant\<close>

definition same_chat :: "message_row \<Rightarrow> message_row \<Rightarrow> bool" where
  "same_chat m q \<longleftrightarrow> {m_from_id m, m_to_id m} = {m_from_id q, m_to_id q}"

definition message_ok :: "message_row list \<Rightarrow> message_row \<Rightarrow> bool" where
  "message_ok ms m \<longleftrightarrow> m_id m \<noteq> Nil_uuid \<and>
     (case m_content m of None \<Rightarrow> m_deleted_at m \<noteq> None
      | Some t \<Rightarrow> m_deleted_at m = None \<and> RuneCountInString t \<le> maxMessageLen) \<and>
     (case m_parentid m of None \<Rightarrow> True | Some p \<Rightarrow> \<exists>q \<in> set ms. m_id q = p \<and> same_chat m q)"

definition groupmessage_ok :: "groupmessage_row list \<Rightarrow> groupmessage_row \<Rightarrow> bool" where
  "groupmessage_ok ms m \<longleftrightarrow> gm_id m \<noteq> Nil_uuid \<and>
     (case gm_content m of None \<Rightarrow> gm_deleted_at m \<noteq> None
      | Some t \<Rightarrow> gm_deleted_at m = None \<and> RuneCountInString t \<le> maxMessageLen) \<and>
     (case gm_parent_id m of None \<Rightarrow> True | Some p \<Rightarrow> \<exists>q \<in> set ms. gm_id q = p \<and> gm_group_id q = gm_group_id m)"

definition reaction_key :: "reaction_row \<Rightarrow> uuid \<times> uuid" where
  "reaction_key r = (re_message_id r, re_user_id r)"

text \<open>A receipt names a message of the conversation it is for.\<close>

definition other_of :: "uuid \<Rightarrow> message_row \<Rightarrow> uuid option" where
  "other_of u m = (if m_from_id m = Some u then m_to_id m else if m_to_id m = Some u then m_from_id m else None)"

definition receipt_ok :: "message_row list \<Rightarrow> string \<times> uuid \<times> uuid \<Rightarrow> bool" where
  "receipt_ok ms j = (case j of (chat, i, u) \<Rightarrow>
     \<exists>m \<in> set ms. m_id m = i \<and> Some chat = map_option (PrivateChatID u) (other_of u m))"

lemma other_of_between: "between u v m \<Longrightarrow> other_of u m = Some v"
  by (auto simp: between_def other_of_def)

definition private_ok :: "db \<Rightarrow> bool" where
  "private_ok d \<longleftrightarrow> key_ok m_id (message d) \<and> (\<forall>m \<in> set (message d). message_ok (message d) m) \<and>
     key_ok reaction_key (message_reactions d) \<and>
     (\<forall>r \<in> set (message_reactions d). exists_row (live (re_message_id r)) (message d))"

definition public_ok :: "db \<Rightarrow> bool" where
  "public_ok d \<longleftrightarrow> key_ok gm_id (groupmessage d) \<and> (\<forall>m \<in> set (groupmessage d). groupmessage_ok (groupmessage d) m) \<and>
     key_ok reaction_key (group_message_reactions d) \<and>
     (\<forall>r \<in> set (group_message_reactions d). exists_row (glive (re_message_id r)) (groupmessage d))"

definition markers_ok :: "db \<Rightarrow> bool" where
  "markers_ok d \<longleftrightarrow> key_ok (\<lambda>r. (sm_chat_id r, sm_seen_id r)) (seen_messages d) \<and>
     (\<forall>r \<in> set (seen_messages d). receipt_ok (message d) (sm_chat_id r, sm_message_id r, sm_seen_id r)) \<and>
     key_ok (\<lambda>r. (grd_group_id r, grd_user_id r)) (group_reads d) \<and>
     (\<forall>r \<in> set (group_reads d). GroupMessageInGroup (grd_message_id r) (grd_group_id r) d)"

definition chat_inv :: "chat_sys \<Rightarrow> bool" where
  "chat_inv s \<longleftrightarrow> private_ok (cy_db s) \<and> public_ok (cy_db s) \<and> markers_ok (cy_db s) \<and>
     (\<forall>j \<in> set (cy_seen s). receipt_ok (message (cy_db s)) j)"

section \<open>Rows that keep their identity\<close>

text \<open>Edits and deletions keep who wrote a message, where, when, and what it answers.\<close>

definition same_message :: "message_row \<Rightarrow> message_row \<Rightarrow> bool" where
  "same_message m m' \<longleftrightarrow> m_id m' = m_id m \<and> m_from_id m' = m_from_id m \<and> m_to_id m' = m_to_id m \<and>
     m_parentid m' = m_parentid m \<and> m_created_at m' = m_created_at m \<and> m_forwarded m' = m_forwarded m"

definition same_groupmessage :: "groupmessage_row \<Rightarrow> groupmessage_row \<Rightarrow> bool" where
  "same_groupmessage m m' \<longleftrightarrow> gm_id m' = gm_id m \<and> gm_from_id m' = gm_from_id m \<and> gm_group_id m' = gm_group_id m \<and>
     gm_parent_id m' = gm_parent_id m \<and> gm_created_at m' = gm_created_at m \<and> gm_forwarded m' = gm_forwarded m"

lemma same_message_refl [simp]: "same_message m m"
  by (simp add: same_message_def)

lemma same_groupmessage_refl [simp]: "same_groupmessage m m"
  by (simp add: same_groupmessage_def)

lemma same_edited [simp]: "same_message m (edited_message e t m)" "same_message m (deleted_message e m)"
    "same_groupmessage m' (edited_group_message e t m')" "same_groupmessage m' (deleted_group_message e m')"
  by (simp_all add: same_message_def same_groupmessage_def edited_message_def deleted_message_def
      edited_group_message_def deleted_group_message_def)

lemma between_same: "same_message m m' \<Longrightarrow> between a b m' = between a b m"
  by (simp add: same_message_def between_def)

text \<open>\<open>grows r xs ys\<close>: every row of \<open>xs\<close> is in \<open>ys\<close>, up to \<open>r\<close>.\<close>

definition grows :: "('a \<Rightarrow> 'a \<Rightarrow> bool) \<Rightarrow> 'a list \<Rightarrow> 'a list \<Rightarrow> bool" where
  "grows r xs ys \<longleftrightarrow> (\<forall>x \<in> set xs. \<exists>y \<in> set ys. r x y)"

lemma grows_refl [simp]: "(\<And>x. r x x) \<Longrightarrow> grows r xs xs"
  by (auto simp: grows_def)

lemma grows_append: "(\<And>x. r x x) \<Longrightarrow> grows r xs (xs @ ys)"
  by (auto simp: grows_def)

lemma grows_update: "(\<And>x. r x x) \<Longrightarrow> (\<And>x. r x (f x)) \<Longrightarrow> grows r xs (update_rows p f xs)"
  unfolding grows_def update_rows_def
  by (intro ballI, rule_tac x = "if p x then f x else x" in bexI) auto

lemma growsE: "grows r xs ys \<Longrightarrow> x \<in> set xs \<Longrightarrow> (\<And>y. y \<in> set ys \<Longrightarrow> r x y \<Longrightarrow> P) \<Longrightarrow> P"
  by (auto simp: grows_def)

abbreviation messages_grow :: "db \<Rightarrow> db \<Rightarrow> bool" where
  "messages_grow d d' \<equiv> grows same_message (message d) (message d') \<and>
     grows same_groupmessage (groupmessage d) (groupmessage d')"

lemma receipt_ok_grows:
  assumes "receipt_ok ms (chat, i, u)" "grows same_message ms ms'"
  shows "receipt_ok ms' (chat, i, u)"
proof -
  from assms(1) obtain m where m: "m \<in> set ms" "m_id m = i" "Some chat = map_option (PrivateChatID u) (other_of u m)"
    by (auto simp: receipt_ok_def)
  from assms(2) m(1) obtain m' where m': "m' \<in> set ms'" "same_message m m'" by (rule growsE)
  with m(2) have "m_id m' = i" "other_of u m' = other_of u m" by (simp_all add: same_message_def other_of_def)
  with m'(1) m(3) show ?thesis by (auto simp: receipt_ok_def)
qed

lemma InGroup_grows:
  "GroupMessageInGroup i gid d \<Longrightarrow> grows same_groupmessage (groupmessage d) (groupmessage d') \<Longrightarrow> GroupMessageInGroup i gid d'"
  by (fastforce simp: GroupMessageInGroup_def exists_row_def grows_def same_groupmessage_def)

lemma message_ok_grows:
  assumes "message_ok ms m" "grows same_message ms ms'"
  shows "message_ok ms' m"
proof (cases "m_parentid m")
  case (Some p)
  with assms(1) obtain q where "q \<in> set ms" "m_id q = p" "same_chat m q" by (auto simp: message_ok_def)
  moreover from assms(2) this(1) obtain q' where "q' \<in> set ms'" "same_message q q'" by (rule growsE)
  ultimately have "\<exists>q \<in> set ms'. m_id q = p \<and> same_chat m q" by (auto simp: same_message_def same_chat_def)
  with Some assms(1) show ?thesis by (simp add: message_ok_def)
qed (use assms(1) in \<open>simp add: message_ok_def\<close>)

lemma groupmessage_ok_grows:
  assumes "groupmessage_ok ms m" "grows same_groupmessage ms ms'"
  shows "groupmessage_ok ms' m"
proof (cases "gm_parent_id m")
  case (Some p)
  with assms(1) obtain q where "q \<in> set ms" "gm_id q = p" "gm_group_id q = gm_group_id m" by (auto simp: groupmessage_ok_def)
  moreover from assms(2) this(1) obtain q' where "q' \<in> set ms'" "same_groupmessage q q'" by (rule growsE)
  ultimately have "\<exists>q \<in> set ms'. gm_id q = p \<and> gm_group_id q = gm_group_id m" by (auto simp: same_groupmessage_def)
  with Some assms(1) show ?thesis by (simp add: groupmessage_ok_def)
qed (use assms(1) in \<open>simp add: groupmessage_ok_def\<close>)

text \<open>The tables after any of the changes: rows are kept, and new ones are appended.\<close>

lemma wrote_frame:
  assumes "wrote e u d d'"
  obtains (direct) m where "d' = d\<lparr>message := message d @ [m]\<rparr>"
    | (ingroup) m where "d' = d\<lparr>groupmessage := groupmessage d @ [m]\<rparr>"
  using assms by cases (auto simp: AddMessagePrivate_def AddMessagePublic_def split: if_splits)

lemma changed_grow: "changed_by e op d d' \<Longrightarrow> messages_grow d d'"
  by (cases rule: changed_by.cases)
    (auto intro!: grows_update simp: MarkGroupRead_def Let_def split: if_splits)

lemma wrote_grow: "wrote e u d d' \<Longrightarrow> messages_grow d d'"
  by (erule wrote_frame) (auto intro!: grows_append)

section \<open>Every change keeps the invariant\<close>

text \<open>Changing rows in place: \<open>f\<close> keeps the identity of what it changes.\<close>

lemma message_ok_same: "message_ok ms m \<Longrightarrow> same_message m m' \<Longrightarrow>
    (case m_content m' of None \<Rightarrow> m_deleted_at m' \<noteq> None
     | Some t \<Rightarrow> m_deleted_at m' = None \<and> RuneCountInString t \<le> maxMessageLen) \<Longrightarrow> message_ok ms m'"
  by (cases "m_parentid m") (simp_all add: message_ok_def same_message_def same_chat_def)

lemma groupmessage_ok_same: "groupmessage_ok ms m \<Longrightarrow> same_groupmessage m m' \<Longrightarrow>
    (case gm_content m' of None \<Rightarrow> gm_deleted_at m' \<noteq> None
     | Some t \<Rightarrow> gm_deleted_at m' = None \<and> RuneCountInString t \<le> maxMessageLen) \<Longrightarrow> groupmessage_ok ms m'"
  by (cases "gm_parent_id m") (simp_all add: groupmessage_ok_def same_groupmessage_def)

lemma messages_ok_update:
  assumes "\<forall>m \<in> set ms. message_ok ms m" "\<And>m. same_message m (f m)"
    and "\<And>m. p m \<Longrightarrow> (case m_content (f m) of None \<Rightarrow> m_deleted_at (f m) \<noteq> None
     | Some t \<Rightarrow> m_deleted_at (f m) = None \<and> RuneCountInString t \<le> maxMessageLen)"
  shows "\<forall>m \<in> set (update_rows p f ms). message_ok (update_rows p f ms) m"
proof
  fix m' assume "m' \<in> set (update_rows p f ms)"
  then obtain m where m: "m \<in> set ms" "m' = (if p m then f m else m)" by (auto simp: update_rows_def)
  have "message_ok ms m'"
    using m assms(1) message_ok_same [OF _ assms(2) assms(3), of ms m] by (cases "p m") auto
  then show "message_ok (update_rows p f ms) m'"
    by (rule message_ok_grows) (rule grows_update, simp, rule assms(2))
qed

lemma groupmessages_ok_update:
  assumes "\<forall>m \<in> set ms. groupmessage_ok ms m" "\<And>m. same_groupmessage m (f m)"
    and "\<And>m. p m \<Longrightarrow> (case gm_content (f m) of None \<Rightarrow> gm_deleted_at (f m) \<noteq> None
     | Some t \<Rightarrow> gm_deleted_at (f m) = None \<and> RuneCountInString t \<le> maxMessageLen)"
  shows "\<forall>m \<in> set (update_rows p f ms). groupmessage_ok (update_rows p f ms) m"
proof
  fix m' assume "m' \<in> set (update_rows p f ms)"
  then obtain m where m: "m \<in> set ms" "m' = (if p m then f m else m)" by (auto simp: update_rows_def)
  have "groupmessage_ok ms m'"
    using m assms(1) groupmessage_ok_same [OF _ assms(2) assms(3), of ms m] by (cases "p m") auto
  then show "groupmessage_ok (update_rows p f ms) m'"
    by (rule groupmessage_ok_grows) (rule grows_update, simp, rule assms(2))
qed

lemma exists_live_update:
  assumes "exists_row (live i) ms" "\<And>m. live j m \<Longrightarrow> m_id (f m) = m_id m" "\<And>m. i = j \<Longrightarrow> m_deleted_at (f m) = m_deleted_at m"
  shows "exists_row (live i) (update_rows (live j) f ms)"
proof -
  from assms(1) obtain m where "m \<in> set ms" "live i m" by (auto simp: exists_row_def)
  with assms(2,3) have "(if live j m then f m else m) \<in> set (update_rows (live j) f ms)" "live i (if live j m then f m else m)"
    by (auto simp: update_rows_def)
  then show ?thesis unfolding exists_row_def by blast
qed

lemma exists_glive_update:
  assumes "exists_row (glive i) ms" "\<And>m. glive j m \<Longrightarrow> gm_id (f m) = gm_id m" "\<And>m. i = j \<Longrightarrow> gm_deleted_at (f m) = gm_deleted_at m"
  shows "exists_row (glive i) (update_rows (glive j) f ms)"
proof -
  from assms(1) obtain m where "m \<in> set ms" "glive i m" by (auto simp: exists_row_def)
  with assms(2,3) have "(if glive j m then f m else m) \<in> set (update_rows (glive j) f ms)" "glive i (if glive j m then f m else m)"
    by (auto simp: update_rows_def)
  then show ?thesis unfolding exists_row_def by blast
qed

lemma set_reaction_key: "key_ok reaction_key rows \<Longrightarrow> key_ok reaction_key (set_reaction now i u em rows)"
  unfolding set_reaction_def
  by (auto simp: key_ok_snoc key_ok_update reaction_key_def same_reaction_def exists_row_def)

lemma set_reaction_rows: "r \<in> set (set_reaction now i u em rows) \<Longrightarrow> re_message_id r = i \<or> r \<in> set rows"
  unfolding set_reaction_def by (auto simp: update_rows_def same_reaction_def split: if_splits)

lemma changed_private_ok:
  assumes "changed_by e op d d'" "private_ok d"
  shows "private_ok d'"
  using assms(1)
proof (cases rule: changed_by.cases)
  case (edit m u t)
  have "\<forall>x \<in> set (message d'). message_ok (message d') x"
    unfolding edit(2) using assms(2) edit
    by (simp, intro messages_ok_update) (auto simp: private_ok_def edited_message_def same_message_def)
  moreover have "exists_row (live i) (message d')" if "exists_row (live i) (message d)" for i
    unfolding edit(2) using exists_live_update [OF that, of "m_id m" "edited_message e (TrimSpace t)"]
    by (simp add: edited_message_def)
  ultimately show ?thesis
    using assms(2) by (auto simp: private_ok_def edit(2) key_ok_update edited_message_def)
next
  case (delete m u)
  have "\<forall>x \<in> set (message d'). message_ok (message d') x"
    unfolding delete(2) using assms(2) delete
    by (simp, intro messages_ok_update) (auto simp: private_ok_def deleted_message_def same_message_def)
  moreover have "exists_row (live i) (message d')" if "exists_row (live i) (message d)" "i \<noteq> m_id m" for i
    unfolding delete(2) using exists_live_update [OF that(1), of "m_id m" "deleted_message e"] that(2)
    by (simp add: deleted_message_def)
  ultimately show ?thesis
    using assms(2) by (auto simp: private_ok_def delete(2) key_ok_update key_ok_delete deleted_message_def)
next
  case (react m u em)
  have "exists_row (live (m_id m)) (message d)" using react by (auto simp: exists_row_def party_def)
  then show ?thesis
    using assms(2) by (auto simp: private_ok_def react(2) set_reaction_key dest!: set_reaction_rows)
next
  case (group_read gid members u i at now n)
  then have "message d' = message d" "message_reactions d' = message_reactions d"
    by (auto simp: MarkGroupRead_def Let_def split: if_splits)
  with assms(2) show ?thesis by (simp add: private_ok_def)
qed (use assms(2) in \<open>auto simp: private_ok_def key_ok_delete\<close>)

lemma changed_public_ok:
  assumes "changed_by e op d d'" "public_ok d"
  shows "public_ok d'"
  using assms(1)
proof (cases rule: changed_by.cases)
  case (edit_group m u t)
  have "\<forall>x \<in> set (groupmessage d'). groupmessage_ok (groupmessage d') x"
    unfolding edit_group(2) using assms(2) edit_group
    by (simp, intro groupmessages_ok_update) (auto simp: public_ok_def edited_group_message_def same_groupmessage_def)
  moreover have "exists_row (glive i) (groupmessage d')" if "exists_row (glive i) (groupmessage d)" for i
    unfolding edit_group(2) using exists_glive_update [OF that, of "gm_id m" "edited_group_message e (TrimSpace t)"]
    by (simp add: edited_group_message_def)
  ultimately show ?thesis
    using assms(2) by (auto simp: public_ok_def edit_group(2) key_ok_update edited_group_message_def)
next
  case (delete_group m u)
  have "\<forall>x \<in> set (groupmessage d'). groupmessage_ok (groupmessage d') x"
    unfolding delete_group(2) using assms(2) delete_group
    by (simp, intro groupmessages_ok_update) (auto simp: public_ok_def deleted_group_message_def same_groupmessage_def)
  moreover have "exists_row (glive i) (groupmessage d')" if "exists_row (glive i) (groupmessage d)" "i \<noteq> gm_id m" for i
    unfolding delete_group(2) using exists_glive_update [OF that(1), of "gm_id m" "deleted_group_message e"] that(2)
    by (simp add: deleted_group_message_def)
  ultimately show ?thesis
    using assms(2) by (auto simp: public_ok_def delete_group(2) key_ok_update key_ok_delete deleted_group_message_def)
next
  case (react_group m u em)
  have "exists_row (glive (gm_id m)) (groupmessage d)" using react_group by (auto simp: exists_row_def reader_def)
  then show ?thesis
    using assms(2) by (auto simp: public_ok_def react_group(2) set_reaction_key dest!: set_reaction_rows)
next
  case (group_read gid members u i at now n)
  then have "groupmessage d' = groupmessage d" "group_message_reactions d' = group_message_reactions d"
    by (auto simp: MarkGroupRead_def Let_def split: if_splits)
  with assms(2) show ?thesis by (simp add: public_ok_def)
qed (use assms(2) in \<open>auto simp: public_ok_def key_ok_delete\<close>)

lemma wrote_private_ok:
  assumes "wrote e u d d'" "ch_uuid e \<noteq> Nil_uuid" "private_ok d"
  shows "private_ok d'"
  using assms(1)
proof (cases rule: wrote.cases)
  case (wrote_private m to t)
  have d': "d' = d\<lparr>message := message d @ [m]\<rparr>" and new: "find_message (m_id m) d = None"
    and fk: "fk (\<lambda>i. find_message i d \<noteq> None) (m_parentid m)"
    using wrote_private(1) by (auto simp: AddMessagePrivate_def split: if_splits)
  have parent: "\<exists>q \<in> set (message d). m_id q = p \<and> same_chat m q" if p: "m_parentid m = Some p" for p
  proof -
    obtain q where q: "q \<in> set (message d)" "m_id q = p"
      using fk p by (auto simp: fk_def dest: find_message_Some)
    then have "p \<noteq> Nil_uuid" using assms(3) by (auto simp: private_ok_def message_ok_def)
    with wrote_private(12) [OF p] obtain r where "r \<in> set (message d)" "m_id r = p" "between u to r"
      by (auto simp: PrivateMessageInChat_def exists_row_def)
    then show ?thesis using wrote_private(3,4) by (auto simp: between_def same_chat_def)
  qed
  then have "message_ok (message d) m"
    using wrote_private assms(2) by (auto simp: message_ok_def split: option.splits)
  then have "\<forall>x \<in> set (message d'). message_ok (message d') x"
    using assms(3) by (auto simp: d' private_ok_def intro: message_ok_grows [OF _ grows_append [OF same_message_refl]])
  then show ?thesis
    using assms(3) new
    by (auto simp: private_ok_def d' key_ok_snoc find_message_def find_row_None)
next
  case (wrote_group m gid members t)
  then have "message d' = message d" "message_reactions d' = message_reactions d"
    by (auto simp: AddMessagePublic_def split: if_splits)
  with assms(3) show ?thesis by (simp add: private_ok_def)
qed

lemma wrote_public_ok:
  assumes "wrote e u d d'" "ch_uuid e \<noteq> Nil_uuid" "public_ok d"
  shows "public_ok d'"
  using assms(1)
proof (cases rule: wrote.cases)
  case (wrote_group m gid members t)
  obtain b where d': "d' = d\<lparr>groupmessage := groupmessage d @ [m\<lparr>gm_searchable := b\<rparr>]\<rparr>" and new: "find_groupmessage (gm_id m) d = None"
    and fk: "fk (\<lambda>i. find_groupmessage i d \<noteq> None) (gm_parent_id m)"
    using wrote_group(1) by (auto simp: AddMessagePublic_def split: if_splits)
  have parent: "\<exists>q \<in> set (groupmessage d). gm_id q = p \<and> gm_group_id q = gm_group_id m" if p: "gm_parent_id m = Some p" for p
  proof -
    obtain q where q: "q \<in> set (groupmessage d)" "gm_id q = p"
      using fk p by (auto simp: fk_def dest: find_groupmessage_Some)
    then have "p \<noteq> Nil_uuid" using assms(3) by (auto simp: public_ok_def groupmessage_ok_def)
    with wrote_group(12) [OF p] show ?thesis
      using wrote_group(4) by (auto simp: GroupMessageInGroup_def exists_row_def)
  qed
  then have "groupmessage_ok (groupmessage d) (m\<lparr>gm_searchable := b\<rparr>)"
    using wrote_group assms(2) by (auto simp: groupmessage_ok_def split: option.splits)
  then have "\<forall>x \<in> set (groupmessage d'). groupmessage_ok (groupmessage d') x"
    using assms(3) by (auto simp: d' public_ok_def intro: groupmessage_ok_grows [OF _ grows_append [OF same_groupmessage_refl]])
  then show ?thesis
    using assms(3) new
    by (auto simp: public_ok_def d' key_ok_snoc find_groupmessage_def find_row_None)
next
  case (wrote_private m to t)
  then have "groupmessage d' = groupmessage d" "group_message_reactions d' = group_message_reactions d"
    by (auto simp: AddMessagePrivate_def split: if_splits)
  with assms(3) show ?thesis by (simp add: public_ok_def)
qed

text \<open>The marker tables.\<close>

lemma markers_ok_frame:
  assumes "markers_ok d" "messages_grow d d'" "seen_messages d' = seen_messages d" "group_reads d' = group_reads d"
  shows "markers_ok d'"
  using assms receipt_ok_grows InGroup_grows unfolding markers_ok_def by (metis (no_types, lifting))

lemma MarkGroupRead_markers:
  assumes "markers_ok d" "MarkGroupRead now gid u i d = Inr (n, d')" "GroupMessageInGroup i gid d"
  shows "markers_ok d'"
proof -
  have sm: "message d' = message d" "groupmessage d' = groupmessage d" "seen_messages d' = seen_messages d"
    using assms(2) by (auto simp: MarkGroupRead_def Let_def split: if_splits)
  have ing: "GroupMessageInGroup j g d' = GroupMessageInGroup j g d" for j g
    by (simp add: GroupMessageInGroup_def sm)
  have "key_ok (\<lambda>r. (grd_group_id r, grd_user_id r)) (group_reads d')"
    using assms(1,2)
    by (auto simp: MarkGroupRead_def Let_def markers_ok_def key_ok_snoc key_ok_update is_read_def exists_row_def split: if_splits)
  moreover have "GroupMessageInGroup (grd_message_id r) (grd_group_id r) d" if "r \<in> set (group_reads d')" for r
    using assms that by (auto simp: MarkGroupRead_def Let_def markers_ok_def update_rows_def is_read_def split: if_splits)
  ultimately show ?thesis using assms(1) by (simp add: markers_ok_def sm ing)
qed

lemma changed_markers_ok:
  assumes "changed_by e op d d'" "markers_ok d"
  shows "markers_ok d'"
  using assms(1)
proof (cases rule: changed_by.cases)
  case (group_read gid members u i at now n)
  then have "GroupMessageInGroup i gid d"
    by (auto simp: GroupMessageCursor_def GroupMessageInGroup_def exists_row_def dest!: find_row_Some)
  with MarkGroupRead_markers [OF assms(2) group_read(5)] show ?thesis by simp
qed (use markers_ok_frame [OF assms(2) changed_grow [OF assms(1)]] in simp_all)

lemma wrote_markers_ok:
  assumes "wrote e u d d'" "markers_ok d"
  shows "markers_ok d'"
  using assms(1) markers_ok_frame [OF assms(2) wrote_grow [OF assms(1)]]
  by (cases rule: wrote_frame) simp_all

section \<open>Every operation keeps the invariant\<close>

lemma receipts_grow:
  assumes "\<forall>j \<in> set js. receipt_ok ms j" "grows same_message ms ms'"
  shows "\<forall>j \<in> set js. receipt_ok ms' j"
proof
  fix j assume "j \<in> set js"
  moreover obtain chat i u where "j = (chat, i, u)" by (cases j)
  ultimately show "receipt_ok ms' j" using assms receipt_ok_grows by metis
qed

lemma chat_inv_change:
  assumes "chat_inv s" "cy_seen s' = cy_seen s"
    "cy_db s' = cy_db s \<or> changed_by e op (cy_db s) (cy_db s') \<or> (wrote e u (cy_db s) (cy_db s') \<and> ch_uuid e \<noteq> Nil_uuid)"
  shows "chat_inv s'"
  using assms(3)
proof (elim disjE conjE)
  assume "cy_db s' = cy_db s" with assms(1,2) show ?thesis by (simp add: chat_inv_def)
next
  assume c: "changed_by e op (cy_db s) (cy_db s')"
  then show ?thesis
    using assms(1,2) changed_private_ok [OF c] changed_public_ok [OF c] changed_markers_ok [OF c] changed_grow [OF c]
    by (auto simp: chat_inv_def dest: receipts_grow)
next
  assume c: "wrote e u (cy_db s) (cy_db s')" and n: "ch_uuid e \<noteq> Nil_uuid"
  show ?thesis
    using assms(1,2) wrote_private_ok [OF c n] wrote_public_ok [OF c n] wrote_markers_ok [OF c] wrote_grow [OF c]
    by (auto simp: chat_inv_def dest: receipts_grow)
qed

lemma wrote_rtrancl_inv:
  assumes "(\<lambda>d d'. \<exists>e \<in> set es. wrote e u d d')\<^sup>*\<^sup>* d d'" "\<forall>e \<in> set es. ch_uuid e \<noteq> Nil_uuid"
    "private_ok d \<and> public_ok d \<and> markers_ok d"
  shows "private_ok d' \<and> public_ok d' \<and> markers_ok d' \<and> messages_grow d d'"
  using assms
proof (induction rule: rtranclp_induct)
  case (step x y)
  then obtain e where e: "wrote e u x y" "ch_uuid e \<noteq> Nil_uuid" by auto
  from step have ih: "private_ok x" "public_ok x" "markers_ok x" "messages_grow d x" by auto
  have trans: "grows r a c" if "grows r a b" "grows r b c" "\<And>p q t. r p q \<Longrightarrow> r q t \<Longrightarrow> r p t"
    for r :: "'x \<Rightarrow> 'x \<Rightarrow> bool" and a b c using that unfolding grows_def by meson
  have "messages_grow d y"
    using ih(4) wrote_grow [OF e(1)]
    by (auto intro: trans simp: same_message_def same_groupmessage_def)
  with wrote_private_ok [OF e ih(1)] wrote_public_ok [OF e ih(2)] wrote_markers_ok [OF e(1) ih(3)] show ?case by simp
qed (auto intro!: grows_refl)

lemma Forward_inv:
  assumes "chat_inv s" "Forward e es u i to s = (r, s', fs)" "\<forall>e \<in> set es. ch_uuid e \<noteq> Nil_uuid"
  shows "chat_inv s'"
proof -
  note f = Forward_wrote [OF assms(2)]
  have "private_ok (cy_db s) \<and> public_ok (cy_db s) \<and> markers_ok (cy_db s)" using assms(1) by (simp add: chat_inv_def)
  note w = wrote_rtrancl_inv [OF conjunct1 [OF f] assms(3) this]
  have "\<forall>j \<in> set (cy_seen s). receipt_ok (message (cy_db s')) j"
    using receipts_grow [of "cy_seen s" "message (cy_db s)" "message (cy_db s')"] assms(1) w by (simp add: chat_inv_def)
  with w f show ?thesis by (simp add: chat_inv_def)
qed

lemma MarkSeen_inv:
  assumes "chat_inv s" "MarkSeen e u other raw s = (r, s', es)"
  shows "chat_inv s'"
proof (cases "s' = s")
  case False
  then obtain i where "PrivateMessageInChat i u other (cy_db s)"
      "s' = s\<lparr>cy_seen := cy_seen s @ [(PrivateChatID u other, i, u)]\<rparr>"
    using assms(2) by (auto simp: MarkSeen_def split: id_text.splits sum.splits if_splits)
  moreover from this(1) have "receipt_ok (message (cy_db s)) (PrivateChatID u other, i, u)"
    by (auto simp: PrivateMessageInChat_def exists_row_def receipt_ok_def other_of_between)
  ultimately show ?thesis using assms(1) by (simp add: chat_inv_def)
qed (use assms(1) in simp)

lemma HandleSeen_inv:
  assumes "chat_inv s" "j \<in> set (cy_seen s)"
  shows "chat_inv (snd (HandleSeen e j s))"
proof -
  obtain chat i u where j: "j = (chat, i, u)" by (cases j)
  let ?d = "cy_db s"
  show ?thesis
  proof (cases "faulty (ch_fails e CSeenWrite) (AddLastSeenMessage chat i u ?d)")
    case (Inl err)
    then show ?thesis using assms(1) by (cases err) (simp_all add: j HandleSeen_def)
  next
    case (Inr d')
    then have s': "snd (HandleSeen e j s) = s\<lparr>cy_db := d'\<rparr>" by (simp add: j HandleSeen_def)
    have frame: "message d' = message ?d" "groupmessage d' = groupmessage ?d" "message_reactions d' = message_reactions ?d"
        "group_message_reactions d' = group_message_reactions ?d" "group_reads d' = group_reads ?d"
      using Inr by (auto simp: AddLastSeenMessage_def split: if_splits)
    have ok: "receipt_ok (message ?d) (chat, i, u)" using assms j by (auto simp: chat_inv_def)
    have mk: "markers_ok ?d" using assms(1) by (simp add: chat_inv_def)
    have "key_ok (\<lambda>r. (sm_chat_id r, sm_seen_id r)) (seen_messages d')"
      using mk Inr by (auto simp: AddLastSeenMessage_def markers_ok_def key_ok_snoc key_ok_update is_seen_def exists_row_def split: if_splits)
    moreover have "receipt_ok (message ?d) (sm_chat_id r, sm_message_id r, sm_seen_id r)" if "r \<in> set (seen_messages d')" for r
      using mk ok Inr that by (auto simp: AddLastSeenMessage_def markers_ok_def update_rows_def is_seen_def split: if_splits)
    ultimately have "markers_ok d'" using mk by (simp add: markers_ok_def frame GroupMessageInGroup_def)
    with assms(1) show ?thesis
      unfolding s' by (simp add: chat_inv_def private_ok_def public_ok_def frame)
  qed
qed

text \<open>The ids drawn for new messages are never the zero UUID.\<close>

definition real_ids :: "chat_env \<times> chat_op \<Rightarrow> bool" where
  "real_ids x \<longleftrightarrow> ch_uuid (fst x) \<noteq> Nil_uuid \<and>
     (case snd x of OpForward es _ _ _ \<Rightarrow> \<forall>e \<in> set es. ch_uuid e \<noteq> Nil_uuid | _ \<Rightarrow> True)"

lemma no_value_eq: "no_value r = (x, s', es) \<Longrightarrow> \<exists>y. r = (y, s', es)"
  by (auto simp: no_value_def split: prod.splits)

lemma chat_exec_inv:
  assumes "chat_inv s" "real_ids (e, op)"
  shows "chat_inv (fst (snd (chat_exec e op s)))"
proof -
  obtain r s' es where x: "chat_exec e op s = (r, s', es)" by (metis prod_cases3)
  have "chat_inv s'"
  proof (cases op)
    case (OpMessage u m)
    then obtain y where "send e u m s = (y, s', es)" using x by (auto dest: no_value_eq)
    from send_wrote [OF this] assms show ?thesis by (auto intro!: chat_inv_change [OF assms(1)] simp: real_ids_def)
  next
    case (OpEdit u i t)
    then obtain y where "EditMessage e u i t s = (y, s', es)" using x by (auto dest: no_value_eq)
    from EditMessage_changes [OF this] show ?thesis using chat_inv_change [OF assms(1)] by blast
  next
    case (OpDelete u i)
    with x have "DeleteMessage e u i s = (r, s', es)" by simp
    from DeleteMessage_changes [OF this] show ?thesis using chat_inv_change [OF assms(1)] by blast
  next
    case (OpReact u i em)
    with x have "React e u i em s = (r, s', es)" by simp
    from React_changes [OF this] show ?thesis using chat_inv_change [OF assms(1)] by blast
  next
    case (OpUnreact u i)
    with x have "Unreact e u i s = (r, s', es)" by simp
    from Unreact_changes [OF this] show ?thesis using chat_inv_change [OF assms(1)] by blast
  next
    case (OpGroupRead u gid i)
    with x have "svc_MarkGroupRead e u gid i s = (r, s', es)" by simp
    from svc_MarkGroupRead_changes [OF this] show ?thesis using chat_inv_change [OF assms(1)] by blast
  next
    case (OpForward fs u i to)
    then obtain y where "Forward e fs u i to s = (y, s', es)" using x by (auto dest: no_value_eq)
    with assms OpForward show ?thesis by (auto intro: Forward_inv simp: real_ids_def)
  next
    case (OpSeen u other i)
    with x have "MarkSeen e u other i s = (r, s', es)" by simp
    with assms(1) show ?thesis by (rule MarkSeen_inv)
  next
    case (OpWorker j)
    with x assms(1) HandleSeen_inv [OF assms(1), of j e] show ?thesis by (auto split: if_splits)
  next
    case (OpPrivateHistory u other q)
    with x have "s' = snd (PrivateMessages e u other q s)" by simp
    with assms(1) show ?thesis by (simp add: chat_inv_def)
  next
    case (OpGroupHistory u gid q)
    with x have "s' = snd (GroupMessages e u gid q s)" by simp
    with assms(1) show ?thesis by (simp add: chat_inv_def)
  next
    case OpForgetBans
    with x assms(1) show ?thesis by (auto simp: chat_inv_def ForgetBans_def)
  qed
  with x show ?thesis by simp
qed

lemma chat_run_inv: "chat_inv s \<Longrightarrow> \<forall>x \<in> set ops. real_ids x \<Longrightarrow> chat_inv (chat_run ops s)"
  by (induction ops s rule: chat_run.induct) (simp_all add: chat_exec_inv)

end
