(* ===== verification/Chat_Properties.thy ===== *)
theory Chat_Properties
  imports Chat_Safety
begin

text \<open>
  What chat promises: well-formed tables, who a message reaches, who may change it, and read
  markers that only move forward.
\<close>

section \<open>Examples\<close>

text \<open>Two people, ann and bob, and surroundings in which nothing fails.\<close>

definition easy_chat :: "uuid \<Rightarrow> time \<Rightarrow> chat_env" where
  "easy_chat i t = \<lparr>ch_fails = (\<lambda>_. False), ch_now = t, ch_dbnow = t, ch_uuid = i,
     ch_friends = (\<lambda>_ _. Some True), ch_members = (\<lambda>_. Inr [1, 2]), ch_isMember = (\<lambda>_ _. Inr True),
     ch_canDelete = (\<lambda>_ _ _. Inr False), ch_media = False, ch_attach = (\<lambda>_ _ _ _ _. Inr []),
     ch_attached = (\<lambda>_. Inr []), ch_duplicate = (\<lambda>_ i. Inr i), ch_notify = True,
     ch_scan = (\<lambda>rows. rows), ch_gscan = (\<lambda>rows. rows)\<rparr>"

lemma easy_chat_simps [simp]:
  "\<not> ch_fails (easy_chat i t) c" "ch_now (easy_chat i t) = t" "ch_dbnow (easy_chat i t) = t" "ch_uuid (easy_chat i t) = i"
  "ch_friends (easy_chat i t) a b = Some True" "ch_members (easy_chat i t) g = Inr [1, 2]"
  "ch_isMember (easy_chat i t) g a = Inr True" "ch_canDelete (easy_chat i t) g a b = Inr False"
  "\<not> ch_media (easy_chat i t)" "ch_notify (easy_chat i t)" "ch_scan (easy_chat i t) = (\<lambda>rows. rows)"
  "ch_gscan (easy_chat i t) = (\<lambda>rows. rows)"
  by (simp_all add: easy_chat_def)

definition ann_and_bob :: chat_sys where
  "ann_and_bob = \<lparr>cy_db = empty_db\<lparr>users := [new_user 1 ''ann'', new_user 2 ''bob'']\<rparr>, cy_banned = None, cy_seen = []\<rparr>"

definition text_to :: "string \<Rightarrow> uuid \<Rightarrow> InCommingMessage" where
  "text_to t to = \<lparr>in_Content = t, in_ParendID = NoId, in_ToID = Id to, in_Type = TypePrivate, in_Media = [], in_Forwarded = False\<rparr>"

definition hello_row :: message_row where
  "hello_row = \<lparr>m_id = 20, m_content = Some ''hello'', m_parentid = None, m_from_id = Some 1, m_to_id = Some 2,
     m_deleted_at = None, m_created_at = 5000, m_edited_at = None, m_forwarded = False\<rparr>"

definition greeted :: chat_sys where
  "greeted = ann_and_bob\<lparr>cy_db := (cy_db ann_and_bob)\<lparr>message := [hello_row]\<rparr>\<rparr>"

lemma RuneCount_hello [simp]: "RuneCountInString ''hello'' = 5"
  by (simp add: RuneCountInString_def runes_def chunks_ascii_Cons)

lemma TrimSpace_hello [simp]: "TrimSpace ''hello'' = ''hello''"
  by (simp add: TrimSpace_def chunks_ascii_Cons IsSpace_def)

lemma ann_and_bob_simps [simp]:
  "message (cy_db ann_and_bob) = []" "user_exists 1 (cy_db ann_and_bob)" "user_exists 2 (cy_db ann_and_bob)"
  "groupmessage (cy_db ann_and_bob) = []" "seen_messages (cy_db ann_and_bob) = []"
  by (simp_all add: ann_and_bob_def empty_db_def user_exists_def)

lemma ann_says_hello:
  "send (easy_chat 20 5000) 1 (text_to ''hello'' 2) ann_and_bob = (Inr 20, greeted,
     [WriteToUsers [2, 1] (sent_event (easy_chat 20 5000) 1 2 (text_to ''hello'' 2) []),
      Notify (sent_job (easy_chat 20 5000) 1 2 [2] (text_to ''hello'' 2) [])])"
  by (simp add: send_def send_checks_def text_to_def maxMessageLen_def parentOf_def targetsOf_def attach_def addMessage_def
    AddMessagePrivate_def varchar_ok_def text_ok_def find_message_def fk_def pgOptUUID_def pgTime_def greeted_def
    hello_row_def withMe_def)

lemma chat_inv_start: "chat_inv ann_and_bob"
  by (simp add: chat_inv_def private_ok_def public_ok_def markers_ok_def) (simp add: ann_and_bob_def empty_db_def)

lemma chat_inv_greeted: "chat_inv greeted"
  using chat_exec_inv [OF chat_inv_start, of "easy_chat 20 5000" "OpMessage 1 (text_to ''hello'' 2)"]
  by (simp add: real_ids_def ann_says_hello no_value_def)

section \<open>Well-formed tables\<close>

text \<open>
  C9: in every run of chat, with any call failing and workers storing receipts late, repeatedly
  or out of order, the tables stay well formed: ids are unique; a message either has a text of at
  most 500 characters or is deleted and has none; a reply answers a message of the same
  conversation; each user has at most one reaction to a message and only to one that is not
  deleted; a read marker names a message of the conversation or group it is for.
\<close>

theorem chat_safe:
  assumes "chat_inv s" "\<forall>x \<in> set ops. real_ids x"
  shows "chat_inv (chat_run ops s)"
  by (rule chat_run_inv [OF assms])

theorem chat_safe_witness:
  "chat_inv (chat_run [(easy_chat 20 5000, OpMessage 1 (text_to ''hello'' 2)), (easy_chat 21 6000, OpDelete 1 20)] ann_and_bob)"
  by (rule chat_safe [OF chat_inv_start]) (simp add: real_ids_def)

section \<open>Who a message reaches\<close>

lemma sendE:
  assumes "send e u m s = (Inr i, s', es)"
  obtains to targets attached d' where
    "in_ToID m = Id to" "to \<noteq> u" "targetsOf e u to (in_Type m) = Inr targets"
    "addMessage e i u (m\<lparr>in_Content := TrimSpace (in_Content m)\<rparr>) (cy_db s) = Inr d'" "s' = s\<lparr>cy_db := d'\<rparr>" "i = ch_uuid e"
    "es = WriteToUsers (withMe targets u) (sent_event e u to (m\<lparr>in_Content := TrimSpace (in_Content m)\<rparr>) attached) #
       (if ch_notify e then [Notify (sent_job e u to targets (m\<lparr>in_Content := TrimSpace (in_Content m)\<rparr>) attached)] else [])"
proof -
  obtain m1 to targets where c: "send_checks e u m (cy_db s) = Inr (m1, to, targets)"
    using assms by (auto simp: send_def split: sum.splits)
  note m1 = send_checks_Inr(1,2,3,5) [OF c]
  obtain attached where at: "attach e u to m1 = Inr attached" using assms c by (auto simp: send_def split: sum.splits)
  obtain d' where d': "addMessage e (ch_uuid e) u m1 (cy_db s) = Inr d'"
    using assms c at by (auto simp: send_def split: sum.splits)
  show ?thesis
    using assms c m1 at d' by (intro that [of to targets d' attached]) (auto simp: send_def)
qed

lemma audience_send: "audience (WriteToUsers (withMe targets u) ev # (if b then [Notify (sent_job e u to targets m att)] else [])) =
    insert u (set targets)"
  by (auto simp: withMe_def sent_job_def)

context friend_checker begin

lemma send_only_friends:
  assumes "ok t" "ch_friends e = (\<lambda>a b. answer_of (ask t a b))"
    and "send e u m s = (Inr i, s', es)" "in_Type m = TypePrivate" "in_ToID m = Id to"
  shows "truth t u to \<and> audience es = {u, to}"
  using assms(3)
proof (cases rule: sendE)
  case (1 to1 targets attached d')
  then have "targetsOf e u to TypePrivate = Inr targets" using assms(4,5) by simp
  then have "ch_friends e u to = Some True \<and> targets = [to]" by (cases rule: targetsOf_Inr) simp_all
  moreover have "audience es = insert u (set targets)" unfolding 1(7) by (rule audience_send)
  ultimately show ?thesis using assms(1,2) answer_true by auto
qed

end

context group_membership begin

lemma send_reaches_members:
  assumes "ok t" "\<And>g ms. ch_members e g = Inr ms \<Longrightarrow> \<exists>t'. members t g = (Inr ms, t')"
    and "send e u m s = (Inr i, s', es)" "in_Type m = TypePublic" "in_ToID m = Id to"
  shows "u \<in> truth t to \<and> audience es = truth t to"
  using assms(3)
proof (cases rule: sendE)
  case (1 to1 targets attached d')
  then have "targetsOf e u to TypePublic = Inr targets" using assms(4,5) by simp
  then obtain ms where ms: "ch_members e to = Inr ms" "u \<in> set ms" "targets = without u ms"
    by (cases rule: targetsOf_Inr) simp_all
  then obtain t' where "members t to = (Inr ms, t')" using assms(2) by blast
  with members_true [OF assms(1)] ms have "set ms = truth t to" by blast
  moreover have "audience es = insert u (set targets)" unfolding 1(7) by (rule audience_send)
  ultimately show ?thesis using ms by auto
qed

end

lemma stored_private:
  assumes "addMessage e i u m d = Inr d'" "in_Type m = TypePrivate" "in_ToID m = Id to"
  shows "\<exists>x. d' = d\<lparr>message := message d @ [x]\<rparr> \<and> m_id x = i \<and> m_from_id x = Some u \<and> m_to_id x = Some to \<and>
    m_content x = Some (in_Content m) \<and> m_deleted_at x = None \<and> m_parentid x = pgOptUUID (in_ParendID m)"
  using assms by (auto simp: addMessage_def AddMessagePrivate_def pgOptUUID_def split: if_splits)

lemma stored_public:
  assumes "addMessage e i u m d = Inr d'" "in_Type m = TypePublic" "in_ToID m = Id to"
  shows "\<exists>x. d' = d\<lparr>groupmessage := groupmessage d @ [x]\<rparr> \<and> gm_id x = i \<and> gm_from_id x = Some u \<and> gm_group_id x = Some to \<and>
    gm_content x = Some (in_Content m) \<and> gm_deleted_at x = None \<and> gm_parent_id x = pgOptUUID (in_ParendID m)"
  using assms by (auto simp: addMessage_def AddMessagePublic_def pgOptUUID_def split: if_splits)

text \<open>
  C15: chat on top of friends: while the cached lists of friends are current, a private message that is
  accepted is between two people who are friends in Postgres, neither of whom has blocked the other. It
  adds exactly one row, from the sender to the other with the trimmed text, and is shown and notified to
  these two only. The lists are current as long as no invalidation of them has failed; after a failed one,
  which is only logged, a former friend can still write until the list expires or is invalidated.
\<close>

theorem private_message_reaches_a_friend:
  assumes "friends_inv (fs_db f)" "lists_current (fe_coll fe) f"
    and "ch_friends e = (\<lambda>a b. answer_of (AreFriends fe a b f))"
    and "send e u m s = (Inr i, s', es)" "in_Type m = TypePrivate" "in_ToID m = Id to"
  shows "are_friends_db u to (fs_db f) \<and> \<not> blocks_db u to (fs_db f) \<and> \<not> blocks_db to u (fs_db f) \<and>
    audience es = {u, to} \<and>
    (\<exists>x. cy_db s' = (cy_db s)\<lparr>message := message (cy_db s) @ [x]\<rparr> \<and> m_id x = i \<and> m_from_id x = Some u \<and>
       m_to_id x = Some to \<and> m_content x = Some (TrimSpace (in_Content m)) \<and> m_deleted_at x = None \<and>
       m_parentid x = pgOptUUID (in_ParendID m))"
proof -
  have "are_friends_db u to (fs_db f) \<and> audience es = {u, to}"
    using fr.send_only_friends [OF _ assms(3-6)] assms(1,2) by blast
  moreover have "\<exists>x. cy_db s' = (cy_db s)\<lparr>message := message (cy_db s) @ [x]\<rparr> \<and> m_id x = i \<and> m_from_id x = Some u \<and>
       m_to_id x = Some to \<and> m_content x = Some (TrimSpace (in_Content m)) \<and> m_deleted_at x = None \<and>
       m_parentid x = pgOptUUID (in_ParendID m)"
    using assms(4)
  proof (cases rule: sendE)
    case (1 to1 targets attached d')
    with stored_private [OF 1(4)] assms(5,6) show ?thesis by auto
  qed
  ultimately show ?thesis using friends_not_blocked [OF assms(1)] by simp
qed

lemma send_calm:
  assumes "\<And>c. \<not> ch_fails e c" "ch_uuid e = i" "targetsOf e u to ty = Inr targets" "to \<noteq> u"
    and "addMessage e i u (text_to ''hello'' to\<lparr>in_Type := ty\<rparr>) (cy_db s) = Inr d'"
  shows "\<exists>s' es. send e u (text_to ''hello'' to\<lparr>in_Type := ty\<rparr>) s = (Inr i, s', es)"
  using assms
  by (simp add: send_def send_checks_def text_to_def maxMessageLen_def parentOf_def attach_def)

lemma addMessage_private_calm:
  assumes "\<And>c. \<not> ch_fails e c" "user_exists u d" "user_exists to d" "find_message i d = None"
  shows "\<exists>d'. addMessage e i u (text_to ''hello'' to\<lparr>in_Type := TypePrivate\<rparr>) d = Inr d'"
  using assms by (simp add: addMessage_def text_to_def AddMessagePrivate_def varchar_ok_def text_ok_def fk_def pgOptUUID_def)

lemma addMessage_public_calm:
  assumes "\<And>c. \<not> ch_fails e c" "user_exists u d" "group_exists to d" "find_groupmessage i d = None"
  shows "\<exists>d'. addMessage e i u (text_to ''hello'' to\<lparr>in_Type := TypePublic\<rparr>) d = Inr d'"
  using assms by (simp add: addMessage_def text_to_def AddMessagePublic_def varchar_ok_def text_ok_def fk_def pgOptUUID_def)

definition asking_friends :: chat_env where
  "asking_friends = (easy_chat 20 5000)\<lparr>ch_friends := \<lambda>a b. answer_of (AreFriends (calm 9) a b befriended)\<rparr>"

lemma asking_friends_simps [simp]: "\<not> ch_fails asking_friends c" "ch_uuid asking_friends = 20"
    "ch_friends asking_friends = (\<lambda>a b. answer_of (AreFriends (calm 9) a b befriended))"
  by (simp_all add: asking_friends_def)

lemma ann_writes_bob: "\<exists>s' es. send asking_friends 1 (text_to ''hello'' 2\<lparr>in_Type := TypePrivate\<rparr>) ann_and_bob = (Inr 20, s', es)"
proof -
  have "targetsOf asking_friends 1 2 TypePrivate = Inr [2]"
    using befriended_answer by (auto simp: targetsOf_def answer_of_def)
  moreover obtain d' where "addMessage asking_friends 20 1 (text_to ''hello'' 2\<lparr>in_Type := TypePrivate\<rparr>) (cy_db ann_and_bob) = Inr d'"
    using addMessage_private_calm [of asking_friends 1 "cy_db ann_and_bob" 2 20] by (auto simp: find_message_def)
  ultimately show ?thesis by (intro send_calm) simp_all
qed

theorem private_message_reaches_a_friend_witness:
  "\<exists>(s' :: chat_sys) es. are_friends_db 1 2 (fs_db befriended) \<and> audience es = {1, 2} \<and> length (message (cy_db s')) = 1"
proof -
  obtain s' es where s: "send asking_friends 1 (text_to ''hello'' 2\<lparr>in_Type := TypePrivate\<rparr>) ann_and_bob = (Inr 20, s', es)"
    using ann_writes_bob by blast
  have "lists_current (fe_coll (calm 9)) befriended" using befriended_ok(2) by simp
  from private_message_reaches_a_friend [OF befriended_ok(1) this _ s, of 2] obtain x where
      "are_friends_db 1 2 (fs_db befriended)" "audience es = {1, 2}"
      "cy_db s' = (cy_db ann_and_bob)\<lparr>message := message (cy_db ann_and_bob) @ [x]\<rparr>"
    by (auto simp: text_to_def)
  then show ?thesis by (intro exI [of _ s'] exI [of _ es]) simp
qed

text \<open>
  Chat on top of groups: a group message that is accepted comes from a member and is shown
  and notified to exactly the group's members, as the member table has them, and adds exactly one
  row, to that group.
\<close>

theorem group_message_reaches_the_members:
  assumes "groups_inv (gy_db g)" "snapshots_current g" "ch_members e = (\<lambda>i. fst (Members ge ph i g))"
    and "send e u m s = (Inr i, s', es)" "in_Type m = TypePublic" "in_ToID m = Id gid"
  shows "is_member gid u (gy_db g) \<and> audience es = ids gid (gy_db g) \<and>
    (\<exists>x. cy_db s' = (cy_db s)\<lparr>groupmessage := groupmessage (cy_db s) @ [x]\<rparr> \<and> gm_id x = i \<and> gm_from_id x = Some u \<and>
       gm_group_id x = Some gid \<and> gm_content x = Some (TrimSpace (in_Content m)) \<and> gm_deleted_at x = None \<and>
       gm_parent_id x = pgOptUUID (in_ParendID m))"
proof -
  have "\<exists>t'. Members ge ph i g = (Inr ms, t')" if "ch_members e i = Inr ms" for i ms
    using that assms(3) by (metis prod.collapse)
  then have "u \<in> member_set g gid \<and> audience es = member_set g gid"
    using gm.send_reaches_members [OF _ _ assms(4-6)] assms(1,2) by blast
  then have "is_member gid u (gy_db g) \<and> audience es = ids gid (gy_db g)"
    by (auto simp: member_set_def is_member_iff split: if_splits)
  moreover have "\<exists>x. cy_db s' = (cy_db s)\<lparr>groupmessage := groupmessage (cy_db s) @ [x]\<rparr> \<and> gm_id x = i \<and> gm_from_id x = Some u \<and>
       gm_group_id x = Some gid \<and> gm_content x = Some (TrimSpace (in_Content m)) \<and> gm_deleted_at x = None \<and>
       gm_parent_id x = pgOptUUID (in_ParendID m)"
    using assms(4)
  proof (cases rule: sendE)
    case (1 to1 targets attached d')
    with stored_public [OF 1(4)] assms(5,6) show ?thesis by auto
  qed
  ultimately show ?thesis by simp
qed

definition in_devs :: chat_sys where
  "in_devs = \<lparr>cy_db = gy_db devs_sys, cy_banned = None, cy_seen = []\<rparr>"

definition asking_groups :: chat_env where
  "asking_groups = (easy_chat 20 5000)\<lparr>ch_members := \<lambda>i. fst (Members (quiet_genv 1) 1 i devs_sys)\<rparr>"

lemma asking_groups_simps [simp]: "\<not> ch_fails asking_groups c" "ch_uuid asking_groups = 20"
    "ch_members asking_groups = (\<lambda>i. fst (Members (quiet_genv 1) 1 i devs_sys))"
  by (simp_all add: asking_groups_def)

lemma in_devs_db: "user_exists 2 (cy_db in_devs)" "group_exists 7 (cy_db in_devs)" "find_groupmessage 20 (cy_db in_devs) = None"
  by (simp_all add: in_devs_def devs_sys_def devs_def empty_db_def user_exists_def group_exists_def find_groupmessage_def)

lemma devs_writes: "\<exists>s' es. send asking_groups 2 (text_to ''hello'' 7\<lparr>in_Type := TypePublic\<rparr>) in_devs = (Inr 20, s', es)"
proof -
  obtain ms s2 s1 where "IsMember (quiet_genv 1) 0 7 2 devs_sys = (Inr True, s1)" "Members (quiet_genv 1) 1 7 s1 = (Inr ms, s2)"
    using devs_members by blast
  have "\<exists>ms s'. Members (quiet_genv 1) 1 7 devs_sys = (Inr ms, s')"
    using snapshot_calm [OF devs_current, of "quiet_genv 1" 1 7]
    by (cases "snapshot (quiet_genv 1) 1 7 devs_sys")
      (simp add: Members_def group_snapshot_of_def find_group_def devs_sys_def devs_def empty_db_def)
  then obtain ms s' where ms: "Members (quiet_genv 1) 1 7 devs_sys = (Inr ms, s')" by blast
  with gm.members_true [OF _ ms] devs_inv devs_current have "set ms = member_set devs_sys 7" by blast
  then have "2 \<in> set ms"
    by (simp add: member_set_def members_of_def group_exists_def devs_sys_def devs_def empty_db_def)
  with ms have "targetsOf asking_groups 2 7 TypePublic = Inr (without 2 ms)"
    by (simp add: targetsOf_def from_groups_of_Inr)
  moreover obtain d' where "addMessage asking_groups 20 2 (text_to ''hello'' 7\<lparr>in_Type := TypePublic\<rparr>) (cy_db in_devs) = Inr d'"
    using addMessage_public_calm [of asking_groups 2 "cy_db in_devs" 7 20] in_devs_db by auto
  ultimately show ?thesis by (intro send_calm) simp_all
qed

theorem group_message_reaches_the_members_witness:
  "\<exists>es. is_member 7 2 (gy_db devs_sys) \<and> audience es = ids 7 (gy_db devs_sys)"
proof -
  obtain s' es where s: "send asking_groups 2 (text_to ''hello'' 7\<lparr>in_Type := TypePublic\<rparr>) in_devs = (Inr 20, s', es)" using devs_writes by blast
  from group_message_reaches_the_members [OF devs_inv devs_current _ s, of "quiet_genv 1" 1 7]
  show ?thesis by (auto simp: text_to_def)
qed

section \<open>Who may change a message\<close>

lemma MarkGroupRead_frame: "MarkGroupRead now gid u i d = Inr (n, d') \<Longrightarrow>
    message d' = message d \<and> groupmessage d' = groupmessage d \<and> seen_messages d' = seen_messages d"
  by (auto simp: MarkGroupRead_def Let_def split: if_splits)

lemma HandleSeen_messages: "message (cy_db (snd (HandleSeen e j s))) = message (cy_db s)"
    "groupmessage (cy_db (snd (HandleSeen e j s))) = groupmessage (cy_db s)" "group_reads (cy_db (snd (HandleSeen e j s))) = group_reads (cy_db s)"
proof -
  obtain chat i u where j: "j = (chat, i, u)" by (cases j)
  have f: "message d' = message d \<and> groupmessage d' = groupmessage d \<and> group_reads d' = group_reads d"
    if "AddLastSeenMessage chat i u d = Inr d'" for d d'
    using that by (auto simp: AddLastSeenMessage_def split: if_splits)
  show "message (cy_db (snd (HandleSeen e j s))) = message (cy_db s)"
    "groupmessage (cy_db (snd (HandleSeen e j s))) = groupmessage (cy_db s)" "group_reads (cy_db (snd (HandleSeen e j s))) = group_reads (cy_db s)"
    using f [of "cy_db s"] by (auto simp: j HandleSeen_def split: sum.splits dberr.splits)
qed

lemma exec_messages:
  assumes "chat_exec e op s = (r, s', es)"
  shows "changed_by e op (cy_db s) (cy_db s') \<or>
    ((\<exists>xs. message (cy_db s') = message (cy_db s) @ xs) \<and> (\<exists>ys. groupmessage (cy_db s') = groupmessage (cy_db s) @ ys) \<and>
     ((\<exists>j. s' = snd (HandleSeen e j s)) \<or>
      (seen_messages (cy_db s') = seen_messages (cy_db s) \<and> group_reads (cy_db s') = group_reads (cy_db s))))"
proof -
  let ?app = "\<lambda>d d'. (\<exists>xs. message d' = message d @ xs) \<and> (\<exists>ys. groupmessage d' = groupmessage d @ ys) \<and>
      seen_messages d' = seen_messages d \<and> group_reads d' = group_reads d"
  have wrote: "?app d d'" if "wrote e u d d'" for e u d d' using that by (cases rule: wrote_frame) auto
  have wrote_star: "?app d d'" if "(\<lambda>d d'. \<exists>e \<in> set fs. wrote e u d d')\<^sup>*\<^sup>* d d'" for fs u d d'
    using that
  proof (induction rule: rtranclp_induct)
    case (step y z)
    then obtain e where "wrote e u y z" by blast
    from wrote [OF this] step.IH show ?case by (elim conjE exE) simp
  qed simp
  show ?thesis
  proof (cases op)
    case (OpMessage u m)
    then obtain y where "send e u m s = (y, s', es)" using assms by (auto dest: no_value_eq)
    from send_wrote [OF this] wrote show ?thesis by auto
  next
    case (OpEdit u i t)
    then obtain y where "EditMessage e u i t s = (y, s', es)" using assms by (auto dest: no_value_eq)
    from EditMessage_changes [OF this] OpEdit show ?thesis by auto
  next
    case (OpForward fs u i to)
    then obtain y where "Forward e fs u i to s = (y, s', es)" using assms by (auto dest: no_value_eq)
    from wrote_star [OF conjunct1 [OF Forward_wrote [OF this]]] show ?thesis by simp
  next
    case (OpSeen u other i)
    then have "cy_db s' = cy_db s"
      using assms by (auto simp: MarkSeen_def split: id_text.splits sum.splits if_splits)
    then show ?thesis by simp
  next
    case (OpWorker j)
    with assms have "s' = s \<or> s' = snd (HandleSeen e j s)" by (auto split: if_splits)
    then show ?thesis
    proof
      assume h: "s' = snd (HandleSeen e j s)"
      then have "\<exists>j. s' = snd (HandleSeen e j s)" by (rule exI)
      with h show ?thesis using HandleSeen_messages [of e j s] by simp
    qed simp
  next
    case (OpDelete u i)
    with assms have "DeleteMessage e u i s = (r, s', es)" by simp
    from DeleteMessage_changes [OF this] OpDelete show ?thesis by auto
  next
    case (OpReact u i em)
    with assms have "React e u i em s = (r, s', es)" by simp
    from React_changes [OF this] OpReact show ?thesis by auto
  next
    case (OpUnreact u i)
    with assms have "Unreact e u i s = (r, s', es)" by simp
    from Unreact_changes [OF this] OpUnreact show ?thesis by auto
  next
    case (OpGroupRead u gid i)
    with assms have "svc_MarkGroupRead e u gid i s = (r, s', es)" by simp
    from svc_MarkGroupRead_changes [OF this] OpGroupRead show ?thesis by auto
  next
    case (OpPrivateHistory u other q)
    with assms have "s' = snd (PrivateMessages e u other q s)" by simp
    then show ?thesis by simp
  next
    case (OpGroupHistory u gid q)
    with assms have "s' = snd (GroupMessages e u gid q s)" by simp
    then show ?thesis by simp
  next
    case OpForgetBans
    with assms have "s' = ForgetBans s" by simp
    then show ?thesis by (simp add: ForgetBans_def)
  qed
qed

lemma updated_row: "m \<in> set rows \<Longrightarrow> (if p m then f m else m) \<in> set (update_rows p f rows)"
  by (auto simp: update_rows_def)

lemma kept_row: "m \<in> set rows \<Longrightarrow> \<not> p m \<Longrightarrow> m \<in> set (update_rows p f rows)"
  by (auto simp: update_rows_def)

text \<open>
  C14: what somebody wrote in a private chat changes in two ways only: they edit it themselves, at
  most 15 minutes after sending it and while the two are friends, and then it is the trimmed new
  text; or they delete it themselves. Nothing else about a message ever changes, and nobody else
  can change it.
\<close>

theorem words_stay_the_senders:
  assumes "chat_inv s" "m \<in> set (message (cy_db s))" "chat_exec e op s = (r, s', es)"
  shows "\<exists>m' \<in> set (message (cy_db s')). m' = m \<or>
    (\<exists>t. op = OpEdit (unNull (m_from_id m)) (m_id m) t \<and> m' = m\<lparr>m_content := Some (TrimSpace t), m_edited_at := Some (pgTime (ch_now e))\<rparr> \<and>
       m_deleted_at m = None \<and> ch_now e - m_created_at m \<le> 15 * minute \<and>
       ch_friends e (unNull (m_from_id m)) (unNull (m_to_id m)) = Some True) \<or>
    (op = OpDelete (unNull (m_from_id m)) (m_id m) \<and> m' = m\<lparr>m_content := None, m_deleted_at := Some (pgTime (ch_now e))\<rparr> \<and>
       m_deleted_at m = None)"
  using exec_messages [OF assms(3)]
proof
  have key: "key_ok m_id (message (cy_db s))" using assms(1) by (simp add: chat_inv_def private_ok_def)
  have same: ?thesis if "m \<in> set (message (cy_db s'))" using that by blast
  assume "changed_by e op (cy_db s) (cy_db s')"
  then show ?thesis
  proof (cases rule: changed_by.cases)
    case (edit q u t)
    have msgs: "message (cy_db s') = update_rows (live (m_id q)) (edited_message e (TrimSpace t)) (message (cy_db s))"
      unfolding edit(2) by simp
    show ?thesis
    proof (cases "live (m_id q) m")
      case True
      then have q: "q = m" using key_ok_unique [OF key edit(3) assms(2)] by simp
      have "edited_message e (TrimSpace t) m \<in> set (message (cy_db s'))"
        unfolding msgs using updated_row [OF assms(2), of "live (m_id q)" "edited_message e (TrimSpace t)"] True by simp
      moreover have "op = OpEdit (unNull (m_from_id m)) (m_id m) t" using edit(1,5) q by simp
      moreover have "ch_friends e (unNull (m_from_id m)) (unNull (m_to_id m)) = Some True" using edit(5,6) q by simp
      moreover have "ch_now e - m_created_at m \<le> 15 * minute" using edit(7) q by (simp add: EditWindow_def)
      moreover have "m_deleted_at m = None" using True by simp
      ultimately show ?thesis unfolding edited_message_def by blast
    next
      case False
      show ?thesis by (rule same) (simp only: msgs, rule kept_row [OF assms(2)], rule False)
    qed
  next
    case (delete q u)
    have msgs: "message (cy_db s') = update_rows (live (m_id q)) (deleted_message e) (message (cy_db s))"
      unfolding delete(2) by simp
    show ?thesis
    proof (cases "live (m_id q) m")
      case True
      then have q: "q = m" using key_ok_unique [OF key delete(3) assms(2)] by simp
      have "deleted_message e m \<in> set (message (cy_db s'))"
        unfolding msgs using updated_row [OF assms(2), of "live (m_id q)" "deleted_message e"] True by simp
      moreover have "op = OpDelete (unNull (m_from_id m)) (m_id m)" using delete(1,5) q by simp
      moreover have "m_deleted_at m = None" using True by simp
      ultimately show ?thesis unfolding deleted_message_def by blast
    next
      case False
      show ?thesis by (rule same) (simp only: msgs, rule kept_row [OF assms(2)], rule False)
    qed
  next
    case (group_read gid members u i at now n)
    have "message (cy_db s') = message (cy_db s)" using MarkGroupRead_frame [OF group_read(5)] by simp
    with assms(2) show ?thesis by (intro same) simp
  next
    case (edit_group q u t) show ?thesis by (rule same) (simp add: edit_group(2) assms(2))
  next
    case (delete_group q u) show ?thesis by (rule same) (simp add: delete_group(2) assms(2))
  next
    case (react q u em) show ?thesis by (rule same) (simp add: react(2) assms(2))
  next
    case (react_group q u em) show ?thesis by (rule same) (simp add: react_group(2) assms(2))
  next
    case (unreact u i) show ?thesis by (rule same) (simp add: unreact(2) assms(2))
  next
    case (unreact_group u i) show ?thesis by (rule same) (simp add: unreact_group(2) assms(2))
  qed
qed (use assms(2) in auto)

theorem words_stay_the_senders_witness:
  "\<exists>m' \<in> set (message (cy_db (fst (snd (chat_exec (easy_chat 0 6000) (OpDelete 2 20) greeted))))). m' = hello_row"
proof -
  obtain r s' es where x: "chat_exec (easy_chat 0 6000) (OpDelete 2 20) greeted = (r, s', es)" by (metis prod_cases3)
  have "hello_row \<in> set (message (cy_db greeted))" by (simp add: greeted_def)
  from words_stay_the_senders [OF chat_inv_greeted this x] x show ?thesis
    by (auto simp: hello_row_def unNull_def)
qed

text \<open>Who may delete for others, in the terms of the member table.\<close>

lemma CanDeleteMessage_true:
  assumes "groups_inv (gy_db g)" "snapshots_current g" "CanDeleteMessage ge ph gid u v g = (Inr True, g')"
  shows "is_admin gid u (gy_db g) \<or> (may gid u PermDeleteMessages (gy_db g) \<and> \<not> is_admin gid v (gy_db g) \<and>
    \<not> exists_row (\<lambda>m. is_member_row gid v m \<and> mt_role m = RoleModerator) (member_table (gy_db g)))"
proof -
  obtain snap where s: "snapshot ge ph gid g = (Inr snap, g')" "may_delete_message snap u v"
    using assms(3) by (auto simp: CanDeleteMessage_def split: sum.splits prod.splits)
  have "group_snapshot_of (gy_db g) gid = Inr snap" using snapshot_current(1) [OF assms(2) s(1)] by auto
  note role = Role_snapshot [OF assms(1) this]
  let ?d = "gy_db g"
  have nonempty: "[] \<noteq> RoleAdmin" "[] \<noteq> RoleModerator" by (simp_all add: RoleAdmin_def RoleModerator_def)
  have row: "is_admin gid w ?d \<longleftrightarrow> fst (Role snap w) = RoleAdmin"
      "exists_row (\<lambda>m. is_member_row gid w m \<and> mt_role m = RoleModerator) (member_table ?d) \<longleftrightarrow> fst (Role snap w) = RoleModerator"
      "allowed (fst (Role snap w)) (snd (Role snap w)) p \<Longrightarrow> may gid w p ?d" for w p
  proof -
    have ex: "exists_row (\<lambda>m. is_member_row gid w m \<and> mt_role m = x) (member_table ?d) \<longleftrightarrow>
        (\<exists>m \<in> set (members_of gid ?d). mt_member_id m = w \<and> mt_role m = x)" for x
      by (auto simp: exists_row_def is_member_row_def members_of_set)
    show "is_admin gid w ?d \<longleftrightarrow> fst (Role snap w) = RoleAdmin"
      "exists_row (\<lambda>m. is_member_row gid w m \<and> mt_role m = RoleModerator) (member_table ?d) \<longleftrightarrow> fst (Role snap w) = RoleModerator"
      "allowed (fst (Role snap w)) (snd (Role snap w)) p \<Longrightarrow> may gid w p ?d"
    proof (atomize (full), cases "GetMember gid w ?d")
      case (Inl err)
      then show "(is_admin gid w ?d = (fst (Role snap w) = RoleAdmin)) \<and>
        (exists_row (\<lambda>m. is_member_row gid w m \<and> mt_role m = RoleModerator) (member_table ?d) = (fst (Role snap w) = RoleModerator)) \<and>
        (allowed (fst (Role snap w)) (snd (Role snap w)) p \<longrightarrow> may gid w p ?d)"
        using role [of w, unfolded Inl] Inl [unfolded GetMember_Inl] nonempty by (simp add: is_admin_def ex allowed_def)
    next
      case (Inr rp)
      then obtain m where m: "m \<in> set (members_of gid ?d)" "mt_member_id m = w" "rp = (mt_role m, mt_permissions m)"
        by (cases rp) (auto elim!: GetMember_Inr)
      have uniq: "mt_role n = mt_role m" if "n \<in> set (members_of gid ?d)" "mt_member_id n = w" for n
        using member_row_unique [OF assms(1) that(1) m(1)] that(2) m(2) by simp
      have only: "(\<exists>n \<in> set (members_of gid ?d). mt_member_id n = w \<and> mt_role n = x) \<longleftrightarrow> mt_role m = x" for x
        using bexI [of "\<lambda>n. mt_member_id n = w \<and> mt_role n = x", OF _ m(1)] m(2) by (auto dest: uniq)
      have rl: "Role snap w = (mt_role m, mt_permissions m)" using role [of w] Inr m(3) by simp
      show "(is_admin gid w ?d = (fst (Role snap w) = RoleAdmin)) \<and>
        (exists_row (\<lambda>m. is_member_row gid w m \<and> mt_role m = RoleModerator) (member_table ?d) = (fst (Role snap w) = RoleModerator)) \<and>
        (allowed (fst (Role snap w)) (snd (Role snap w)) p \<longrightarrow> may gid w p ?d)"
        using may_intro [OF m(1,2), of p] by (simp add: is_admin_def ex rl only)
    qed
  qed
  show ?thesis
    using s(2) row(1,2) row(3) [of u PermDeleteMessages]
    by (auto simp: may_delete_message_def split: prod.splits if_splits)
qed

text \<open>
  Chat on top of groups: a message in a group changes in two ways only: its sender edits it
  within 15 minutes; or it is deleted by its sender, by the group's admin, or by a moderator with the
  permission to delete messages if its sender is neither admin nor moderator. Whoever does it is
  in the group and joined before the message was sent.
\<close>

theorem group_words_stay_the_senders:
  assumes "chat_inv s" "m \<in> set (groupmessage (cy_db s))" "chat_exec e op s = (r, s', es)" "gm_group_id m = Some gid"
    and "groups_inv (gy_db g)" "snapshots_current g"
    and "ch_canDelete e = (\<lambda>i a b. fst (CanDeleteMessage ge ph i a b g))" "ch_members e = (\<lambda>i. fst (Members ge ph' i g))"
  shows "\<exists>m' \<in> set (groupmessage (cy_db s')). m' = m \<or>
    (gm_deleted_at m = None \<and> (\<exists>u j. is_member gid u (gy_db g) \<and> joined_at gid u (cy_db s) = Some j \<and> j \<le> gm_created_at m \<and>
      ((\<exists>t. op = OpEdit u (gm_id m) t \<and> u = unNull (gm_from_id m) \<and> ch_now e - gm_created_at m \<le> 15 * minute \<and>
          m' = m\<lparr>gm_content := Some (TrimSpace t), gm_edited_at := Some (pgTime (ch_now e))\<rparr>) \<or>
       (op = OpDelete u (gm_id m) \<and> m' = m\<lparr>gm_content := None, gm_deleted_at := Some (pgTime (ch_now e))\<rparr> \<and>
          (u = unNull (gm_from_id m) \<or> is_admin gid u (gy_db g) \<or>
           (may gid u PermDeleteMessages (gy_db g) \<and> \<not> is_admin gid (unNull (gm_from_id m)) (gy_db g) \<and>
            \<not> exists_row (\<lambda>x. is_member_row gid (unNull (gm_from_id m)) x \<and> mt_role x = RoleModerator) (member_table (gy_db g))))))))"
  using exec_messages [OF assms(3)]
proof
  have key: "key_ok gm_id (groupmessage (cy_db s))" using assms(1) by (simp add: chat_inv_def public_ok_def)
  have same: ?thesis if "m \<in> set (groupmessage (cy_db s'))" using that by blast
  have reads: "\<exists>j. is_member gid u (gy_db g) \<and> joined_at gid u (cy_db s) = Some j \<and> j \<le> gm_created_at m"
    if "reader e u (cy_db s) m" for u
  proof -
    from that assms(4,8) obtain ms j where ms: "fst (Members ge ph' gid g) = Inr ms" "u \<in> set ms"
        and j: "joined_at gid u (cy_db s) = Some j" "j \<le> gm_created_at m" by (auto simp: reader_def unNull_def)
    obtain g' where "Members ge ph' gid g = (Inr ms, g')" using ms(1) by (metis prod.collapse)
    with gm.members_true [OF _ this] assms(5,6) ms(2) have "u \<in> member_set g gid" by blast
    then have "is_member gid u (gy_db g)" by (auto simp: member_set_def is_member_iff split: if_splits)
    with j show ?thesis by blast
  qed
  assume "changed_by e op (cy_db s) (cy_db s')"
  then show ?thesis
  proof (cases rule: changed_by.cases)
    case (edit_group q u t)
    have msgs: "groupmessage (cy_db s') = update_rows (glive (gm_id q)) (edited_group_message e (TrimSpace t)) (groupmessage (cy_db s))"
      unfolding edit_group(2) by simp
    show ?thesis
    proof (cases "glive (gm_id q) m")
      case True
      then have q: "q = m" using key_ok_unique [OF key edit_group(3) assms(2)] by simp
      have "edited_group_message e (TrimSpace t) m \<in> set (groupmessage (cy_db s'))"
        unfolding msgs using updated_row [OF assms(2), of "glive (gm_id q)" "edited_group_message e (TrimSpace t)"] True by simp
      moreover have "op = OpEdit u (gm_id m) t" "u = unNull (gm_from_id m)" using edit_group(1,5) q by simp_all
      moreover have "ch_now e - gm_created_at m \<le> 15 * minute" using edit_group(6) q by (simp add: EditWindow_def)
      moreover have "gm_deleted_at m = None" using True by simp
      moreover have "reader e u (cy_db s) m" using edit_group(4) q by simp
      ultimately show ?thesis using reads [of u] unfolding edited_group_message_def by blast
    next
      case False
      show ?thesis by (rule same) (simp only: msgs, rule kept_row [OF assms(2)], rule False)
    qed
  next
    case (delete_group q u)
    have msgs: "groupmessage (cy_db s') = update_rows (glive (gm_id q)) (deleted_group_message e) (groupmessage (cy_db s))"
      unfolding delete_group(2) by simp
    show ?thesis
    proof (cases "glive (gm_id q) m")
      case True
      then have q: "q = m" using key_ok_unique [OF key delete_group(3) assms(2)] by simp
      have "deleted_group_message e m \<in> set (groupmessage (cy_db s'))"
        unfolding msgs using updated_row [OF assms(2), of "glive (gm_id q)" "deleted_group_message e"] True by simp
      moreover have "op = OpDelete u (gm_id m)" using delete_group(1) q by simp
      moreover have "gm_deleted_at m = None" using True by simp
      moreover have "reader e u (cy_db s) m" using delete_group(4) q by simp
      moreover have "u = unNull (gm_from_id m) \<or> fst (CanDeleteMessage ge ph gid u (unNull (gm_from_id m)) g) = Inr True"
        using delete_group(5) q assms(4,7) by (auto simp: unNull_def)
      then have "u = unNull (gm_from_id m) \<or> is_admin gid u (gy_db g) \<or>
           (may gid u PermDeleteMessages (gy_db g) \<and> \<not> is_admin gid (unNull (gm_from_id m)) (gy_db g) \<and>
            \<not> exists_row (\<lambda>x. is_member_row gid (unNull (gm_from_id m)) x \<and> mt_role x = RoleModerator) (member_table (gy_db g)))"
        using CanDeleteMessage_true [OF assms(5,6)] by (metis prod.collapse)
      ultimately show ?thesis using reads [of u] unfolding deleted_group_message_def by blast
    next
      case False
      show ?thesis by (rule same) (simp only: msgs, rule kept_row [OF assms(2)], rule False)
    qed
  next
    case (group_read gid members u i at now n)
    have "groupmessage (cy_db s') = groupmessage (cy_db s)" using MarkGroupRead_frame [OF group_read(5)] by simp
    with assms(2) show ?thesis by (intro same) simp
  next
    case (edit q u t) show ?thesis by (rule same) (simp add: edit(2) assms(2))
  next
    case (delete q u) show ?thesis by (rule same) (simp add: delete(2) assms(2))
  next
    case (react q u em) show ?thesis by (rule same) (simp add: react(2) assms(2))
  next
    case (react_group q u em) show ?thesis by (rule same) (simp add: react_group(2) assms(2))
  next
    case (unreact u i) show ?thesis by (rule same) (simp add: unreact(2) assms(2))
  next
    case (unreact_group u i) show ?thesis by (rule same) (simp add: unreact_group(2) assms(2))
  qed
qed (use assms(2) in auto)

definition dev_row :: groupmessage_row where
  "dev_row = \<lparr>gm_id = 20, gm_content = Some ''hello'', gm_group_id = Some 7, gm_from_id = Some 2, gm_parent_id = None,
     gm_created_at = 5000, gm_deleted_at = None, gm_edited_at = None, gm_searchable = True, gm_forwarded = False\<rparr>"

definition devs_chatting :: chat_sys where
  "devs_chatting = in_devs\<lparr>cy_db := (cy_db in_devs)\<lparr>groupmessage := [dev_row]\<rparr>\<rparr>"

lemma devs_chatting_inv: "chat_inv devs_chatting"
  by (simp add: chat_inv_def private_ok_def public_ok_def markers_ok_def devs_chatting_def in_devs_def devs_sys_def empty_db_def
    key_ok_def groupmessage_ok_def dev_row_def maxMessageLen_def)

theorem group_words_stay_the_senders_witness:
  "dev_row \<in> set (groupmessage (cy_db (fst (snd (chat_exec
     (asking_groups\<lparr>ch_canDelete := \<lambda>i a b. fst (CanDeleteMessage (quiet_genv 1) 2 i a b devs_sys)\<rparr>) (OpDelete 3 20) devs_chatting)))))"
proof -
  let ?e = "asking_groups\<lparr>ch_canDelete := \<lambda>i a b. fst (CanDeleteMessage (quiet_genv 1) 2 i a b devs_sys)\<rparr>"
  obtain r s' es where x: "chat_exec ?e (OpDelete 3 20) devs_chatting = (r, s', es)" by (metis prod_cases3)
  have m: "dev_row \<in> set (groupmessage (cy_db devs_chatting))" by (simp add: devs_chatting_def)
  have g: "gm_group_id dev_row = Some 7" by (simp add: dev_row_def)
  have e: "ch_canDelete ?e = (\<lambda>i a b. fst (CanDeleteMessage (quiet_genv 1) 2 i a b devs_sys))"
    "ch_members ?e = (\<lambda>i. fst (Members (quiet_genv 1) 1 i devs_sys))" by simp_all
  from group_words_stay_the_senders [OF devs_chatting_inv m x g devs_inv devs_current e] devs_outsider(1)
  have "dev_row \<in> set (groupmessage (cy_db s'))" by auto
  with x show ?thesis by simp
qed

section \<open>Read markers\<close>

text \<open>\<open>markers_le\<close>: each marker is still there and not at an earlier message.\<close>

definition markers_le :: "db \<Rightarrow> db \<Rightarrow> bool" where
  "markers_le d d' \<longleftrightarrow>
     (\<forall>r \<in> set (seen_messages d). \<exists>r' \<in> set (seen_messages d'). sm_chat_id r' = sm_chat_id r \<and> sm_seen_id r' = sm_seen_id r \<and>
        not_before (created_of (sm_message_id r') d') (created_of (sm_message_id r) d)) \<and>
     (\<forall>r \<in> set (group_reads d). \<exists>r' \<in> set (group_reads d'). grd_group_id r' = grd_group_id r \<and> grd_user_id r' = grd_user_id r \<and>
        not_before (group_created_of (grd_message_id r') d') (group_created_of (grd_message_id r) d))"

lemma not_before_trans: "not_before x y \<Longrightarrow> not_before y z \<Longrightarrow> not_before x z"
  by (auto simp: not_before_def split: option.splits)

lemma markers_le_trans:
  assumes "markers_le a b" "markers_le b c"
  shows "markers_le a c"
  unfolding markers_le_def
proof (intro conjI ballI)
  fix r assume "r \<in> set (seen_messages a)"
  with assms(1) obtain q where q: "q \<in> set (seen_messages b)" "sm_chat_id q = sm_chat_id r" "sm_seen_id q = sm_seen_id r"
      "not_before (created_of (sm_message_id q) b) (created_of (sm_message_id r) a)" unfolding markers_le_def by blast
  with assms(2) obtain p where "p \<in> set (seen_messages c)" "sm_chat_id p = sm_chat_id q" "sm_seen_id p = sm_seen_id q"
      "not_before (created_of (sm_message_id p) c) (created_of (sm_message_id q) b)" unfolding markers_le_def by blast
  with q not_before_trans show "\<exists>r' \<in> set (seen_messages c). sm_chat_id r' = sm_chat_id r \<and> sm_seen_id r' = sm_seen_id r \<and>
        not_before (created_of (sm_message_id r') c) (created_of (sm_message_id r) a)" by (intro bexI [of _ p]) simp_all
next
  fix r assume "r \<in> set (group_reads a)"
  with assms(1) obtain q where q: "q \<in> set (group_reads b)" "grd_group_id q = grd_group_id r" "grd_user_id q = grd_user_id r"
      "not_before (group_created_of (grd_message_id q) b) (group_created_of (grd_message_id r) a)" unfolding markers_le_def by blast
  with assms(2) obtain p where "p \<in> set (group_reads c)" "grd_group_id p = grd_group_id q" "grd_user_id p = grd_user_id q"
      "not_before (group_created_of (grd_message_id p) c) (group_created_of (grd_message_id q) b)" unfolding markers_le_def by blast
  with q not_before_trans show "\<exists>r' \<in> set (group_reads c). grd_group_id r' = grd_group_id r \<and> grd_user_id r' = grd_user_id r \<and>
        not_before (group_created_of (grd_message_id r') c) (group_created_of (grd_message_id r) a)" by (intro bexI [of _ p]) simp_all
qed

text \<open>A message keeps its time, so a marker that is kept is kept with its place.\<close>

lemma created_of_grows:
  assumes "grows same_message (message d) (message d')" "key_ok m_id (message d')" "created_of i d = Some t"
  shows "created_of i d' = Some t"
proof -
  from assms(3) obtain m where m: "m \<in> set (message d)" "m_id m = i" "m_created_at m = t"
    by (auto simp: created_of_def dest: find_message_Some)
  from assms(1) m(1) obtain m' where m': "m' \<in> set (message d')" "same_message m m'" by (rule growsE)
  have "find_message i d' = Some m'"
    unfolding find_message_def by (rule find_row_eqI [OF assms(2) m'(1)]) (use m m' in \<open>auto simp: same_message_def\<close>)
  with m m' show ?thesis by (simp add: created_of_def same_message_def)
qed

lemma group_created_of_grows:
  assumes "grows same_groupmessage (groupmessage d) (groupmessage d')" "key_ok gm_id (groupmessage d')" "group_created_of i d = Some t"
  shows "group_created_of i d' = Some t"
proof -
  from assms(3) obtain m where m: "m \<in> set (groupmessage d)" "gm_id m = i" "gm_created_at m = t"
    by (auto simp: group_created_of_def dest: find_groupmessage_Some)
  from assms(1) m(1) obtain m' where m': "m' \<in> set (groupmessage d')" "same_groupmessage m m'" by (rule growsE)
  have "find_groupmessage i d' = Some m'"
    unfolding find_groupmessage_def by (rule find_row_eqI [OF assms(2) m'(1)]) (use m m' in \<open>auto simp: same_groupmessage_def\<close>)
  with m m' show ?thesis by (simp add: group_created_of_def same_groupmessage_def)
qed

lemma not_before_refl: "x \<noteq> None \<Longrightarrow> not_before x x"
  by (auto simp: not_before_def)

lemma seen_created:
  assumes "markers_ok d" "r \<in> set (seen_messages d)"
  shows "created_of (sm_message_id r) d \<noteq> None"
  using assms by (auto simp: markers_ok_def receipt_ok_def created_of_def find_message_def find_row_None exists_row_def)

lemma read_created:
  assumes "markers_ok d" "r \<in> set (group_reads d)"
  shows "group_created_of (grd_message_id r) d \<noteq> None"
  using assms by (auto simp: markers_ok_def GroupMessageInGroup_def group_created_of_def find_groupmessage_def find_row_None exists_row_def)

lemma markers_le_same:
  assumes "markers_ok d" "messages_grow d d'" "private_ok d'" "public_ok d'"
    "seen_messages d' = seen_messages d" "group_reads d' = group_reads d"
  shows "markers_le d d'"
  unfolding markers_le_def
proof (intro conjI ballI)
  fix r assume r: "r \<in> set (seen_messages d)"
  obtain t where t: "created_of (sm_message_id r) d = Some t" using seen_created [OF assms(1) r] by auto
  have "created_of (sm_message_id r) d' = Some t"
    by (rule created_of_grows [OF _ _ t]) (use assms in \<open>auto simp: private_ok_def\<close>)
  with r t assms(5) show "\<exists>r' \<in> set (seen_messages d'). sm_chat_id r' = sm_chat_id r \<and> sm_seen_id r' = sm_seen_id r \<and>
        not_before (created_of (sm_message_id r') d') (created_of (sm_message_id r) d)"
    by (intro bexI [of _ r]) (simp_all add: not_before_def)
next
  fix r assume r: "r \<in> set (group_reads d)"
  obtain t where t: "group_created_of (grd_message_id r) d = Some t" using read_created [OF assms(1) r] by auto
  have "group_created_of (grd_message_id r) d' = Some t"
    by (rule group_created_of_grows [OF _ _ t]) (use assms in \<open>auto simp: public_ok_def\<close>)
  with r t assms(6) show "\<exists>r' \<in> set (group_reads d'). grd_group_id r' = grd_group_id r \<and> grd_user_id r' = grd_user_id r \<and>
        not_before (group_created_of (grd_message_id r') d') (group_created_of (grd_message_id r) d)"
    by (intro bexI [of _ r]) (simp_all add: not_before_def)
qed

lemma AddLastSeen_le:
  assumes "markers_ok d" "AddLastSeenMessage chat i u d = Inr d'"
  shows "markers_le d d'"
  unfolding markers_le_def
proof (intro conjI ballI)
  have frame: "message d' = message d" "groupmessage d' = groupmessage d" "group_reads d' = group_reads d"
    using assms(2) by (auto simp: AddLastSeenMessage_def split: if_splits)
  then have cr: "created_of j d' = created_of j d" "group_created_of j d' = group_created_of j d" for j
    by (simp_all add: created_of_def group_created_of_def find_message_def find_groupmessage_def)
  fix r assume r: "r \<in> set (seen_messages d)"
  note nb = not_before_refl [OF seen_created [OF assms(1) r]]
  let ?hit = "\<lambda>r. is_seen chat u r \<and> not_before (created_of i d) (created_of (sm_message_id r) d)"
  let ?f = "\<lambda>r. r\<lparr>sm_message_id := i\<rparr>"
  show "\<exists>r' \<in> set (seen_messages d'). sm_chat_id r' = sm_chat_id r \<and> sm_seen_id r' = sm_seen_id r \<and>
        not_before (created_of (sm_message_id r') d') (created_of (sm_message_id r) d)"
  proof (cases "exists_row (is_seen chat u) (seen_messages d)")
    case True
    then have "seen_messages d' = update_rows ?hit ?f (seen_messages d)"
      using assms(2) by (auto simp: AddLastSeenMessage_def)
    with updated_row [OF r, of ?hit ?f] nb show ?thesis
      by (intro bexI [of _ "if ?hit r then ?f r else r"]) (simp_all add: cr)
  next
    case False
    then have "r \<in> set (seen_messages d')" using assms(2) r by (auto simp: AddLastSeenMessage_def split: if_splits)
    with nb show ?thesis by (intro bexI [of _ r]) (simp_all add: cr)
  qed
next
  have frame: "groupmessage d' = groupmessage d" "group_reads d' = group_reads d"
    using assms(2) by (auto simp: AddLastSeenMessage_def split: if_splits)
  fix r assume r: "r \<in> set (group_reads d)"
  with not_before_refl [OF read_created [OF assms(1) r]] show "\<exists>r' \<in> set (group_reads d'). grd_group_id r' = grd_group_id r \<and> grd_user_id r' = grd_user_id r \<and>
        not_before (group_created_of (grd_message_id r') d') (group_created_of (grd_message_id r) d)"
    by (intro bexI [of _ r]) (simp_all add: frame group_created_of_def find_groupmessage_def)
qed

lemma MarkGroupRead_le:
  assumes "markers_ok d" "MarkGroupRead now gid u i d = Inr (n, d')"
  shows "markers_le d d'"
  unfolding markers_le_def
proof (intro conjI ballI)
  note frame = MarkGroupRead_frame [OF assms(2)]
  have cr: "created_of j d' = created_of j d" "group_created_of j d' = group_created_of j d" for j
    using frame by (simp_all add: created_of_def group_created_of_def find_message_def find_groupmessage_def)
  fix r assume r: "r \<in> set (group_reads d)"
  note nb = not_before_refl [OF read_created [OF assms(1) r]]
  let ?hit = "\<lambda>r. is_read gid u r \<and> not_before (group_created_of i d) (group_created_of (grd_message_id r) d)"
  let ?f = "\<lambda>r. r\<lparr>grd_message_id := i, grd_updated_at := now\<rparr>"
  show "\<exists>r' \<in> set (group_reads d'). grd_group_id r' = grd_group_id r \<and> grd_user_id r' = grd_user_id r \<and>
        not_before (group_created_of (grd_message_id r') d') (group_created_of (grd_message_id r) d)"
  proof (cases "exists_row (is_read gid u) (group_reads d)")
    case True
    then have "group_reads d' = update_rows ?hit ?f (group_reads d)"
      using assms(2) by (auto simp: MarkGroupRead_def Let_def)
    with updated_row [OF r, of ?hit ?f] nb show ?thesis
      by (intro bexI [of _ "if ?hit r then ?f r else r"]) (simp_all add: cr)
  next
    case False
    then have "r \<in> set (group_reads d')" using assms(2) r by (auto simp: MarkGroupRead_def Let_def split: if_splits)
    with nb show ?thesis by (intro bexI [of _ r]) (simp_all add: cr)
  qed
next
  note frame = MarkGroupRead_frame [OF assms(2)]
  fix r assume r: "r \<in> set (seen_messages d)"
  with not_before_refl [OF seen_created [OF assms(1) r]] frame show "\<exists>r' \<in> set (seen_messages d'). sm_chat_id r' = sm_chat_id r \<and> sm_seen_id r' = sm_seen_id r \<and>
        not_before (created_of (sm_message_id r') d') (created_of (sm_message_id r) d)"
    by (intro bexI [of _ r]) (simp_all add: created_of_def find_message_def)
qed

lemma chat_exec_markers:
  assumes "chat_inv s" "real_ids (e, op)" "chat_exec e op s = (r, s', es)"
  shows "markers_le (cy_db s) (cy_db s')"
proof -
  let ?d = "cy_db s" and ?d' = "cy_db s'"
  have mk: "markers_ok ?d" using assms(1) by (simp add: chat_inv_def)
  have inv: "chat_inv s'" using chat_exec_inv [OF assms(1,2)] assms(3) by simp
  have keep: "markers_le ?d ?d'" if "messages_grow ?d ?d'" "seen_messages ?d' = seen_messages ?d" "group_reads ?d' = group_reads ?d"
    using markers_le_same [OF mk that(1) _ _ that(2,3)] inv by (simp add: chat_inv_def)
  from exec_messages [OF assms(3)] show ?thesis
  proof
    assume c: "changed_by e op ?d ?d'"
    note grow = changed_grow [OF c]
    from c show ?thesis
    proof (cases rule: changed_by.cases)
      case (group_read gid members u i at now n)
      then show ?thesis using MarkGroupRead_le [OF mk group_read(5)] by simp
    next
      case (edit q u t) then show ?thesis by (intro keep [OF grow]) simp_all
    next
      case (edit_group q u t) then show ?thesis by (intro keep [OF grow]) simp_all
    next
      case (delete q u) then show ?thesis by (intro keep [OF grow]) simp_all
    next
      case (delete_group q u) then show ?thesis by (intro keep [OF grow]) simp_all
    next
      case (react q u em) then show ?thesis by (intro keep [OF grow]) simp_all
    next
      case (react_group q u em) then show ?thesis by (intro keep [OF grow]) simp_all
    next
      case (unreact u i) then show ?thesis by (intro keep [OF grow]) simp_all
    next
      case (unreact_group u i) then show ?thesis by (intro keep [OF grow]) simp_all
    qed
  next
    assume a: "(\<exists>xs. message ?d' = message ?d @ xs) \<and> (\<exists>ys. groupmessage ?d' = groupmessage ?d @ ys) \<and>
     ((\<exists>j. s' = snd (HandleSeen e j s)) \<or> (seen_messages ?d' = seen_messages ?d \<and> group_reads ?d' = group_reads ?d))"
    then have grow: "messages_grow ?d ?d'" by (auto intro!: grows_append [OF same_message_refl] grows_append [OF same_groupmessage_refl])
    from a show ?thesis
    proof (elim conjE disjE exE)
      fix j assume j: "s' = snd (HandleSeen e j s)"
      obtain chat i u where ji: "j = (chat, i, u)" by (cases j)
      show ?thesis
      proof (cases "faulty (ch_fails e CSeenWrite) (AddLastSeenMessage chat i u ?d)")
        case (Inl err)
        then have "s' = s" by (cases err) (simp_all add: j ji HandleSeen_def)
        then show ?thesis by (intro keep) simp_all
      next
        case (Inr d')
        then have "s' = s\<lparr>cy_db := d'\<rparr>" by (simp add: j ji HandleSeen_def)
        with Inr AddLastSeen_le [OF mk, of chat i u d'] show ?thesis by auto
      qed
    next
      assume "seen_messages ?d' = seen_messages ?d" "group_reads ?d' = group_reads ?d"
      with grow show ?thesis by (rule keep)
    qed
  qed
qed

lemma chat_run_markers: "chat_inv s \<Longrightarrow> \<forall>x \<in> set ops. real_ids x \<Longrightarrow> markers_le (cy_db s) (cy_db (chat_run ops s))"
proof (induction ops s rule: chat_run.induct)
  case (1 s)
  then show ?case by (intro markers_le_same) (auto simp: chat_inv_def)
next
  case (2 e op ops s)
  obtain r s' es where x: "chat_exec e op s = (r, s', es)" by (metis prod_cases3)
  have "markers_le (cy_db s) (cy_db s')" using chat_exec_markers [OF 2(2) _ x] 2(3) by simp
  moreover have "chat_inv s'" using chat_exec_inv [OF 2(2), of e op] 2(3) x by simp
  ultimately show ?case using 2(1) 2(3) x by (auto intro: markers_le_trans)
qed

text \<open>
  Read markers only move forward: whatever chat does afterwards, and however late, often or out
  of order the workers store receipts, a reader's marker in a conversation or group stays in its
  place or moves to a message sent later.
\<close>

theorem read_markers_only_move_forward:
  assumes "chat_inv s" "\<forall>x \<in> set ops. real_ids x"
  shows "(sr \<in> set (seen_messages (cy_db s)) \<longrightarrow>
      (\<exists>sr' \<in> set (seen_messages (cy_db (chat_run ops s))). sm_chat_id sr' = sm_chat_id sr \<and> sm_seen_id sr' = sm_seen_id sr \<and>
        not_before (created_of (sm_message_id sr') (cy_db (chat_run ops s))) (created_of (sm_message_id sr) (cy_db s)))) \<and>
    (gr \<in> set (group_reads (cy_db s)) \<longrightarrow>
      (\<exists>gr' \<in> set (group_reads (cy_db (chat_run ops s))). grd_group_id gr' = grd_group_id gr \<and> grd_user_id gr' = grd_user_id gr \<and>
        not_before (group_created_of (grd_message_id gr') (cy_db (chat_run ops s))) (group_created_of (grd_message_id gr) (cy_db s))))"
  using chat_run_markers [OF assms] unfolding markers_le_def by blast

definition seen_row :: seen_message where
  "seen_row = \<lparr>sm_chat_id = PrivateChatID 2 1, sm_message_id = 20, sm_seen_id = 2\<rparr>"

definition seen_sys :: chat_sys where
  "seen_sys = greeted\<lparr>cy_db := (cy_db greeted)\<lparr>seen_messages := [seen_row]\<rparr>\<rparr>"

lemma seen_sys_inv: "chat_inv seen_sys"
  using chat_inv_greeted
  by (simp add: chat_inv_def private_ok_def public_ok_def markers_ok_def seen_sys_def greeted_def ann_and_bob_def empty_db_def
    key_ok_def receipt_ok_def seen_row_def other_of_def hello_row_def)

theorem read_markers_only_move_forward_witness:
  "\<exists>r \<in> set (seen_messages (cy_db (chat_run [(easy_chat 21 9000, OpMessage 1 (text_to ''hello'' 2)), (easy_chat 22 9001, OpSeen 2 1 (Id 20))] seen_sys))).
     sm_seen_id r = 2"
proof -
  have "\<forall>x \<in> set [(easy_chat 21 9000, OpMessage 1 (text_to ''hello'' 2)), (easy_chat 22 9001, OpSeen 2 1 (Id 20))]. real_ids x"
    by (simp add: real_ids_def)
  from read_markers_only_move_forward [OF seen_sys_inv this, of seen_row] show ?thesis
    by (auto simp: seen_sys_def seen_row_def)
qed

end
