(* ===== verification/Chat_Dedupe.thy ===== *)
theory Chat_Dedupe
  imports Chat_Properties
begin

text \<open>
  \<^verbatim>\<open>chat/dedupe.go\<close> and \<^verbatim>\<open>SendMessage\<close>: a retried send answers with the first message. The goroutines
  inside \<^verbatim>\<open>do\<close> are threads whose steps are the sections under the mutex and the waits on the channel.
\<close>

section \<open>The table\<close>

definition DedupeWindow :: duration where "DedupeWindow = 10 * minute"
definition maxKeys :: nat where "maxKeys = 200000"

datatype dedupeKey = Key (dk_from: uuid) (dk_client: uuid)

text \<open>
  An entry: the channel is closed when the result is there. \<open>de_key\<close> records the key it was made
  for. Entries live in a heap, since the table and the goroutines share them by pointer.
\<close>

record dedupeEntry =
  de_key :: dedupeKey
  de_at :: time
  de_res :: "(chat_err fail + uuid) option"

record dedupe =
  dd_m :: "(dedupeKey \<times> nat) list"
  dd_lastGC :: time
  dd_heap :: "dedupeEntry list"

definition newDedupe :: dedupe where
  "newDedupe = \<lparr>dd_m = [], dd_lastGC = - (10 ^ 19), dd_heap = []\<rparr>"

definition expired :: "time \<Rightarrow> dedupeEntry \<Rightarrow> bool" where
  "expired now x \<longleftrightarrow> now - de_at x > DedupeWindow"

definition gc :: "time \<Rightarrow> dedupe \<Rightarrow> dedupe" where
  "gc now d =
     (let d1 = (if length (dd_m d) > maxKeys then d\<lparr>dd_m := []\<rparr> else d) in
      if now - dd_lastGC d1 < minute then d1
      else d1\<lparr>dd_lastGC := now,
        dd_m := filter (\<lambda>(k, r). \<not> (de_res (dd_heap d1 ! r) \<noteq> None \<and> expired now (dd_heap d1 ! r))) (dd_m d1)\<rparr>)"

text \<open>A goroutine in \<^verbatim>\<open>do\<close>.\<close>

datatype do_err = CtxDone | Failed "chat_err fail"

datatype doer =
    Trying dedupeKey
  | Running dedupeKey nat
  | Forgetting dedupeKey nat "chat_err fail"
  | Waiting dedupeKey nat
  | Answered dedupeKey "do_err + uuid" bool

definition do_enter :: "time \<Rightarrow> dedupeKey \<Rightarrow> dedupe \<Rightarrow> doer \<times> dedupe" where
  "do_enter now k d0 =
     (let d = gc now d0; fresh = length (dd_heap d);
          make = (Running k fresh, d\<lparr>dd_m := (k, fresh) # filter (\<lambda>x. fst x \<noteq> k) (dd_m d),
            dd_heap := dd_heap d @ [\<lparr>de_key = k, de_at = now, de_res = None\<rparr>]\<rparr>) in
      case map_of (dd_m d) k of
        None \<Rightarrow> make
      | Some r \<Rightarrow> if expired now (dd_heap d ! r) then make else (Waiting k r, d))"

definition do_finish :: "chat_err fail + uuid \<Rightarrow> dedupeKey \<Rightarrow> nat \<Rightarrow> dedupe \<Rightarrow> doer \<times> dedupe" where
  "do_finish res k r d =
     ((case res of Inl err \<Rightarrow> Forgetting k r err | Inr i \<Rightarrow> Answered k (Inr i) False),
      d\<lparr>dd_heap := (dd_heap d)[r := (dd_heap d ! r)\<lparr>de_res := Some res\<rparr>]\<rparr>)"

definition forget :: "dedupeKey \<Rightarrow> nat \<Rightarrow> dedupe \<Rightarrow> dedupe" where
  "forget k r d = (if map_of (dd_m d) k = Some r then d\<lparr>dd_m := filter (\<lambda>x. fst x \<noteq> k) (dd_m d)\<rparr> else d)"

section \<open>Sending with a client id, one call at a time\<close>

text \<open>
  \<open>cid\<close> is the \<^verbatim>\<open>ClientMsgID\<close> of the message. \<open>None\<close>: the entry found has no result yet, so the call
  waits for another goroutine.
\<close>

definition SendMessage :: "chat_env \<Rightarrow> time \<Rightarrow> uuid \<Rightarrow> id_text \<Rightarrow> InCommingMessage \<Rightarrow> dedupe \<Rightarrow> chat_sys \<Rightarrow>
    ((chat_err fail + uuid) \<times> dedupe \<times> chat_sys \<times> effect list) option" where
  "SendMessage e now from cid m d s =
     (case cid of
        NoId \<Rightarrow> (case send e from m s of (res, s', es) \<Rightarrow> Some (res, d, s', es))
      | BadId \<Rightarrow> Some (Inl (Sentinel ErrBadClientID), d, s, [])
      | Id c \<Rightarrow>
          (case do_enter now (Key from c) d of
             (Running k r, d1) \<Rightarrow>
               (case send e from m s of (res, s', es) \<Rightarrow>
                  (case do_finish res k r d1 of
                     (Forgetting _ _ _, d2) \<Rightarrow> Some (res, forget k r d2, s', es)
                   | (_, d2) \<Rightarrow> Some (res, d2, s', es)))
           | (Waiting k r, d1) \<Rightarrow>
               (case de_res (dd_heap d1 ! r) of
                  Some (Inr i) \<Rightarrow> Some (Inr i, d1, s, [])
                | _ \<Rightarrow> None)
           | _ \<Rightarrow> None))"

section \<open>Many goroutines\<close>

record dedupe_sys =
  ds_d :: dedupe
  ds_now :: time
  ds_thr :: "nat \<Rightarrow> doer option"

definition few :: "dedupe_sys \<Rightarrow> bool" where
  "few s \<longleftrightarrow> length (dd_m (ds_d s)) \<le> maxKeys"

inductive dedupe_step :: "dedupe_sys \<Rightarrow> dedupe_sys \<Rightarrow> bool" where
  tick: "ds_now s \<le> t \<Longrightarrow> dedupe_step s (s\<lparr>ds_now := t\<rparr>)"
| call: "ds_thr s i = None \<Longrightarrow> dedupe_step s (s\<lparr>ds_thr := (ds_thr s)(i \<mapsto> Trying k)\<rparr>)"
| enter: "ds_thr s i = Some (Trying k) \<Longrightarrow> do_enter (ds_now s) k (ds_d s) = (th, d') \<Longrightarrow>
    dedupe_step s (s\<lparr>ds_d := d', ds_thr := (ds_thr s)(i \<mapsto> th)\<rparr>)"
| finish: "ds_thr s i = Some (Running k r) \<Longrightarrow> do_finish res k r (ds_d s) = (th, d') \<Longrightarrow>
    dedupe_step s (s\<lparr>ds_d := d', ds_thr := (ds_thr s)(i \<mapsto> th)\<rparr>)"
| drop: "ds_thr s i = Some (Forgetting k r err) \<Longrightarrow>
    dedupe_step s (s\<lparr>ds_d := forget k r (ds_d s), ds_thr := (ds_thr s)(i \<mapsto> Answered k (Inl (Failed err)) False)\<rparr>)"
| repeat: "ds_thr s i = Some (Waiting k r) \<Longrightarrow> de_res (dd_heap (ds_d s) ! r) = Some (Inr x) \<Longrightarrow>
    dedupe_step s (s\<lparr>ds_thr := (ds_thr s)(i \<mapsto> Answered k (Inr x) True)\<rparr>)"
| retry: "ds_thr s i = Some (Waiting k r) \<Longrightarrow> de_res (dd_heap (ds_d s) ! r) = Some (Inl err) \<Longrightarrow>
    dedupe_step s (s\<lparr>ds_thr := (ds_thr s)(i \<mapsto> Trying k)\<rparr>)"
| cancel: "ds_thr s i = Some (Waiting k r) \<Longrightarrow>
    dedupe_step s (s\<lparr>ds_thr := (ds_thr s)(i \<mapsto> Answered k (Inl CtxDone) False)\<rparr>)"

text \<open>
  A run: its states, the last first; and what runs reach in which the table never outgrows
  \<^verbatim>\<open>maxKeys\<close> (then \<^verbatim>\<open>gc\<close> would empty it).
\<close>

inductive dedupe_run :: "dedupe_sys list \<Rightarrow> bool" where
  first: "dedupe_run [\<lparr>ds_d = newDedupe, ds_now = t, ds_thr = (\<lambda>_. None)\<rparr>]"
| more: "dedupe_run (s # ss) \<Longrightarrow> dedupe_step s s' \<Longrightarrow> dedupe_run (s' # s # ss)"

inductive dedupe_reachable :: "dedupe_sys \<Rightarrow> bool" where
  start: "dedupe_reachable \<lparr>ds_d = newDedupe, ds_now = t, ds_thr = (\<lambda>_. None)\<rparr>"
| step: "dedupe_reachable s \<Longrightarrow> few s \<Longrightarrow> dedupe_step s s' \<Longrightarrow> dedupe_reachable s'"

text \<open>An entry that has not failed keeps its place in the table for the window.\<close>

definition alive :: "dedupeEntry \<Rightarrow> bool" where
  "alive x \<longleftrightarrow> (case de_res x of Some (Inl _) \<Rightarrow> False | _ \<Rightarrow> True)"

definition holds :: "dedupe \<Rightarrow> nat \<Rightarrow> dedupeKey \<Rightarrow> bool" where
  "holds d r k \<longleftrightarrow> r < length (dd_heap d) \<and> de_key (dd_heap d ! r) = k"

definition table_inv :: "time \<Rightarrow> dedupe \<Rightarrow> bool" where
  "table_inv now d \<longleftrightarrow>
     distinct (map fst (dd_m d)) \<and>
     (\<forall>(k, r) \<in> set (dd_m d). holds d r k) \<and>
     (\<forall>r < length (dd_heap d). de_at (dd_heap d ! r) \<le> now) \<and>
     (\<forall>r < length (dd_heap d). alive (dd_heap d ! r) \<and> \<not> expired now (dd_heap d ! r) \<longrightarrow>
        map_of (dd_m d) (de_key (dd_heap d ! r)) = Some r) \<and>
     (\<forall>q r. q < r \<and> r < length (dd_heap d) \<and> alive (dd_heap d ! q) \<and> alive (dd_heap d ! r) \<and>
        de_key (dd_heap d ! q) = de_key (dd_heap d ! r) \<longrightarrow>
        de_at (dd_heap d ! r) - de_at (dd_heap d ! q) > DedupeWindow)"

fun thread_inv :: "dedupe \<Rightarrow> doer \<Rightarrow> bool" where
  "thread_inv d (Trying k) \<longleftrightarrow> True"
| "thread_inv d (Running k r) \<longleftrightarrow> holds d r k \<and> de_res (dd_heap d ! r) = None"
| "thread_inv d (Forgetting k r err) \<longleftrightarrow> holds d r k \<and> de_res (dd_heap d ! r) = Some (Inl err)"
| "thread_inv d (Waiting k r) \<longleftrightarrow> holds d r k"
| "thread_inv d (Answered k res rep) \<longleftrightarrow> (\<forall>x. res = Inr x \<longrightarrow> (\<exists>r. holds d r k \<and> de_res (dd_heap d ! r) = Some (Inr x)))"

definition dedupe_inv :: "dedupe_sys \<Rightarrow> bool" where
  "dedupe_inv s \<longleftrightarrow> table_inv (ds_now s) (ds_d s) \<and>
     (\<forall>i th. ds_thr s i = Some th \<longrightarrow> thread_inv (ds_d s) th) \<and>
     (\<forall>i j k r. ds_thr s i = Some (Running k r) \<and> ds_thr s j = Some (Running k r) \<longrightarrow> i = j)"

section \<open>The invariant\<close>

lemma map_of_filter_key: "map_of (filter (\<lambda>x. fst x \<noteq> k) m) j = (if j = k then None else map_of m j)"
  by (induction m) auto

lemma expired_mono: "expired t x \<Longrightarrow> t \<le> t' \<Longrightarrow> expired t' x"
  by (simp add: expired_def)

lemma gc_heap [simp]: "dd_heap (gc now d) = dd_heap d"
  by (simp add: gc_def Let_def)

lemma map_of_filter_ignored:
  "distinct (map fst m) \<Longrightarrow> map_of m k = Some r \<Longrightarrow> p (k, r) \<Longrightarrow> map_of (filter p m) k = Some r"
  by (induction m) (auto dest: map_of_SomeD)

lemma distinct_fst_filter: "distinct (map fst m) \<Longrightarrow> distinct (map fst (filter p m))"
  by (induction m) auto

lemma gc_inv:
  assumes "table_inv now d" "length (dd_m d) \<le> maxKeys"
  shows "table_inv now (gc now d)"
proof -
  have m: "dd_m (gc now d) = dd_m d \<or>
    dd_m (gc now d) = filter (\<lambda>(k, r). \<not> (de_res (dd_heap d ! r) \<noteq> None \<and> expired now (dd_heap d ! r))) (dd_m d)"
    using assms(2) by (simp add: gc_def Let_def)
  then show ?thesis
  proof
    assume "dd_m (gc now d) = dd_m d"
    then show ?thesis using assms(1) by (simp add: table_inv_def holds_def)
  next
    assume "dd_m (gc now d) = filter (\<lambda>(k, r). \<not> (de_res (dd_heap d ! r) \<noteq> None \<and> expired now (dd_heap d ! r))) (dd_m d)"
    then show ?thesis using assms(1)
      by (auto simp: table_inv_def holds_def intro!: map_of_filter_ignored distinct_fst_filter)
  qed
qed

lemma table_inv_later: "table_inv t d \<Longrightarrow> t \<le> t' \<Longrightarrow> table_inv t' d"
  unfolding table_inv_def by (meson expired_mono order_trans)

lemma table_inv_filter_dead:
  assumes "table_inv now d" "map_of (dd_m d) k = Some r" "\<not> alive (dd_heap d ! r)"
  shows "table_inv now (d\<lparr>dd_m := filter (\<lambda>x. fst x \<noteq> k) (dd_m d)\<rparr>)"
  using assms by (auto simp: table_inv_def holds_def map_of_filter_key intro!: distinct_fst_filter)

lemma nth_snoc: "r < Suc (length xs) \<Longrightarrow> (xs @ [y]) ! r = (if r < length xs then xs ! r else y)"
  by (auto simp: nth_append less_Suc_eq)

lemma make_inv:
  assumes inv: "table_inv now d"
    and free: "\<And>r. map_of (dd_m d) k = Some r \<Longrightarrow> expired now (dd_heap d ! r)"
    and m: "dd_m d' = (k, length (dd_heap d)) # filter (\<lambda>x. fst x \<noteq> k) (dd_m d)"
    and h: "dd_heap d' = dd_heap d @ [\<lparr>de_key = k, de_at = now, de_res = None\<rparr>]"
  shows "table_inv now d'"
proof -
  let ?n = "length (dd_heap d)"
  have old: "q < ?n \<Longrightarrow> dd_heap d' ! q = dd_heap d ! q" for q by (simp add: h nth_append)
  have new: "dd_heap d' ! ?n = \<lparr>de_key = k, de_at = now, de_res = None\<rparr>" by (simp add: h)
  have len: "length (dd_heap d') = Suc ?n" by (simp add: h)
  have gone: "expired now (dd_heap d ! q)" if "q < ?n" "alive (dd_heap d ! q)" "de_key (dd_heap d ! q) = k" for q
    using inv that free unfolding table_inv_def by blast
  have far: "de_at (dd_heap d' ! r) - de_at (dd_heap d' ! q) > DedupeWindow"
    if "q < r" "r < Suc ?n" "alive (dd_heap d' ! q)" "alive (dd_heap d' ! r)"
      "de_key (dd_heap d' ! q) = de_key (dd_heap d' ! r)" for q r
  proof (cases "r = ?n")
    case True with that gone [of q] show ?thesis by (simp add: old new expired_def)
  next
    case False with that inv show ?thesis by (simp add: old table_inv_def)
  qed
  have keep: "map_of (dd_m d') (de_key (dd_heap d' ! r)) = Some r"
    if "r < Suc ?n" "alive (dd_heap d' ! r)" "\<not> expired now (dd_heap d' ! r)" for r
  proof (cases "r = ?n")
    case True then show ?thesis by (simp add: new m)
  next
    case False
    with that gone [of r] inv show ?thesis by (auto simp: old m table_inv_def map_of_filter_key)
  qed
  have "distinct (map fst (dd_m d'))" "\<forall>(j, r) \<in> set (dd_m d'). holds d' r j"
    using inv by (auto simp: table_inv_def m holds_def old new len less_Suc_eq intro!: distinct_fst_filter)
  moreover have "\<forall>r < Suc ?n. de_at (dd_heap d' ! r) \<le> now"
    using inv by (auto simp: table_inv_def old new less_Suc_eq)
  ultimately show ?thesis using far keep unfolding table_inv_def len by blast
qed

text \<open>What a thread knows survives as long as entries keep their keys and their results.\<close>

definition extends :: "dedupe \<Rightarrow> dedupe \<Rightarrow> bool" where
  "extends d d' \<longleftrightarrow> length (dd_heap d) \<le> length (dd_heap d') \<and>
     (\<forall>r < length (dd_heap d). de_key (dd_heap d' ! r) = de_key (dd_heap d ! r) \<and>
        (de_res (dd_heap d ! r) \<noteq> None \<longrightarrow> de_res (dd_heap d' ! r) = de_res (dd_heap d ! r)))"

lemma extendsD:
  assumes "extends d d'"
  shows "holds d r k \<Longrightarrow> holds d' r k"
    and "holds d r k \<Longrightarrow> de_res (dd_heap d ! r) = Some x \<Longrightarrow> de_res (dd_heap d' ! r) = Some x"
  using assms by (auto simp: extends_def holds_def)

lemma thread_inv_extends:
  assumes "thread_inv d th" "extends d d'" "\<And>k r. th = Running k r \<Longrightarrow> de_res (dd_heap d' ! r) = None"
  shows "thread_inv d' th"
proof (cases th)
  case (Answered k res rep)
  show ?thesis
    unfolding Answered thread_inv.simps
  proof (intro allI impI)
    fix x assume "res = Inr x"
    with assms(1) Answered obtain r where "holds d r k" "de_res (dd_heap d ! r) = Some (Inr x)" by auto
    then show "\<exists>r. holds d' r k \<and> de_res (dd_heap d' ! r) = Some (Inr x)"
      using extendsD [OF assms(2)] by blast
  qed
qed (use assms extendsD [OF assms(2)] in auto)

lemma do_enter_cases:
  assumes "do_enter now k d0 = (th, d')" "table_inv now d0" "length (dd_m d0) \<le> maxKeys"
  obtains (made) "th = Running k (length (dd_heap d0))" "table_inv now d'"
      "dd_heap d' = dd_heap d0 @ [\<lparr>de_key = k, de_at = now, de_res = None\<rparr>]"
    | (found) r where "th = Waiting k r" "table_inv now d'" "dd_heap d' = dd_heap d0" "holds d' r k"
        "\<not> expired now (dd_heap d' ! r)" "map_of (dd_m d') k = Some r"
proof -
  define d where "d = gc now d0"
  have inv: "table_inv now d" using gc_inv [OF assms(2,3)] by (simp add: d_def)
  have heap: "dd_heap d = dd_heap d0" by (simp add: d_def)
  show ?thesis
  proof (cases "\<exists>r. map_of (dd_m d) k = Some r \<and> \<not> expired now (dd_heap d ! r)")
    case True
    then obtain r where r: "map_of (dd_m d) k = Some r" "\<not> expired now (dd_heap d ! r)" by blast
    have "holds d r k" using r inv by (auto simp: table_inv_def dest!: map_of_SomeD)
    have "th = Waiting k r" "d' = d" using assms(1) r by (simp_all add: do_enter_def Let_def d_def [symmetric])
    then show ?thesis using found inv heap r \<open>holds d r k\<close> by simp
  next
    case False
    then have new: "th = Running k (length (dd_heap d))"
        "dd_m d' = (k, length (dd_heap d)) # filter (\<lambda>x. fst x \<noteq> k) (dd_m d)"
        "dd_heap d' = dd_heap d @ [\<lparr>de_key = k, de_at = now, de_res = None\<rparr>]"
      using assms(1) by (auto simp: do_enter_def Let_def d_def [symmetric] split: option.splits)
    have "table_inv now d'" by (rule make_inv [OF inv _ new(2,3)]) (use False in blast)
    with new heap show ?thesis using made by simp
  qed
qed


lemma do_finish_inv:
  assumes "table_inv now d" "holds d r k" "de_res (dd_heap d ! r) = None" "do_finish res k r d = (th, d')"
  shows "table_inv now d'" "extends d d'" "thread_inv d' th"
    and "q \<noteq> r \<Longrightarrow> dd_heap d' ! q = dd_heap d ! q" "\<forall>k r. th \<noteq> Running k r"
proof -
  have m: "dd_m d' = dd_m d" and h: "dd_heap d' = (dd_heap d)[r := (dd_heap d ! r)\<lparr>de_res := Some res\<rparr>]"
    and r: "r < length (dd_heap d)" "de_key (dd_heap d ! r) = k"
    using assms by (auto simp: do_finish_def holds_def)
  have key: "de_key (dd_heap d' ! q) = de_key (dd_heap d ! q)" "de_at (dd_heap d' ! q) = de_at (dd_heap d ! q)" for q
    using r by (cases "q = r"; simp add: h)+
  have live: "alive (dd_heap d' ! q) \<Longrightarrow> alive (dd_heap d ! q)" for q
    using r assms(3) by (cases "q = r") (simp_all add: h alive_def)
  have exp: "expired now (dd_heap d' ! q) \<longleftrightarrow> expired now (dd_heap d ! q)" for q by (simp add: expired_def key)
  have len: "length (dd_heap d') = length (dd_heap d)" by (simp add: h)
  show "table_inv now d'"
    using assms(1) live unfolding table_inv_def holds_def m key exp len by blast
  show "extends d d'"
    unfolding extends_def len key using r assms(3) by (auto simp: h nth_list_update)
  show "thread_inv d' th" "\<forall>k r. th \<noteq> Running k r"
    using assms(4) r by (auto simp: do_finish_def holds_def split: sum.splits intro!: exI [of _ r])
  show "q \<noteq> r \<Longrightarrow> dd_heap d' ! q = dd_heap d ! q" by (simp add: h)
qed

lemma forget_inv:
  assumes "table_inv now d" "holds d r k" "de_res (dd_heap d ! r) = Some (Inl err)"
  shows "table_inv now (forget k r d)"
  using assms table_inv_filter_dead [of now d k r] by (auto simp: forget_def alive_def)

lemma forget_heap [simp]: "dd_heap (forget k r d) = dd_heap d"
  by (simp add: forget_def)

lemma extends_same_heap: "dd_heap d' = dd_heap d \<Longrightarrow> extends d d'"
  by (simp add: extends_def)

lemma step_frame:
  assumes inv: "dedupe_inv s" and ext: "extends (ds_d s) d'" and tab: "table_inv (ds_now s) d'"
    and run: "\<And>j k r. j \<noteq> i \<Longrightarrow> ds_thr s j = Some (Running k r) \<Longrightarrow> de_res (dd_heap d' ! r) = None \<and> th \<noteq> Running k r"
    and th: "thread_inv d' th"
  shows "dedupe_inv (s\<lparr>ds_d := d', ds_thr := (ds_thr s)(i \<mapsto> th)\<rparr>)"
proof -
  have others: "thread_inv d' t" if "ds_thr s j = Some t" "j \<noteq> i" for j t
    using inv that run by (intro thread_inv_extends [OF _ ext]) (auto simp: dedupe_inv_def)
  show ?thesis
    unfolding dedupe_inv_def
  proof (intro conjI allI impI)
    fix j t assume "ds_thr (s\<lparr>ds_d := d', ds_thr := (ds_thr s)(i \<mapsto> th)\<rparr>) j = Some t"
    then show "thread_inv (ds_d (s\<lparr>ds_d := d', ds_thr := (ds_thr s)(i \<mapsto> th)\<rparr>)) t"
      using others th by (auto split: if_splits)
  next
    fix j j' k r
    assume "ds_thr (s\<lparr>ds_d := d', ds_thr := (ds_thr s)(i \<mapsto> th)\<rparr>) j = Some (Running k r) \<and>
      ds_thr (s\<lparr>ds_d := d', ds_thr := (ds_thr s)(i \<mapsto> th)\<rparr>) j' = Some (Running k r)"
    then show "j = j'"
      using inv run [of j k r] run [of j' k r] by (cases "j = i"; cases "j' = i") (auto simp: dedupe_inv_def)
  qed (use tab in simp)
qed

lemma table_same_heap:
  "ds_thr s i = Some th \<Longrightarrow> dedupe_inv s \<Longrightarrow> thread_inv (ds_d s) th \<and> table_inv (ds_now s) (ds_d s)"
  by (auto simp: dedupe_inv_def)

lemma running_None: "dedupe_inv s \<Longrightarrow> ds_thr s j = Some (Running k r) \<Longrightarrow> holds (ds_d s) r k \<and> de_res (dd_heap (ds_d s) ! r) = None"
  by (auto simp: dedupe_inv_def dest!: spec [of _ j])

lemma thread_frame:
  assumes "dedupe_inv s" "thread_inv (ds_d s) th" "\<forall>k r. th \<noteq> Running k r"
  shows "dedupe_inv (s\<lparr>ds_thr := (ds_thr s)(i \<mapsto> th)\<rparr>)"
proof -
  have "dedupe_inv (s\<lparr>ds_d := ds_d s, ds_thr := (ds_thr s)(i \<mapsto> th)\<rparr>)"
    by (rule step_frame [OF assms(1) extends_same_heap _ _ assms(2)])
      (use assms running_None [OF assms(1)] in \<open>auto simp: dedupe_inv_def\<close>)
  then show ?thesis by simp
qed

lemma dedupe_step_inv:
  assumes "dedupe_step s s'" "dedupe_inv s" "few s"
  shows "dedupe_inv s'"
  using assms(1)
proof cases
  case (tick t)
  with assms(2) show ?thesis by (auto simp: dedupe_inv_def intro: table_inv_later)
next
  case (enter i k th d')
  have tab: "table_inv (ds_now s) (ds_d s)" using assms(2) by (simp add: dedupe_inv_def)
  have few: "length (dd_m (ds_d s)) \<le> maxKeys" using assms(3) by (simp add: few_def)
  from enter(3) tab few show ?thesis
  proof (cases rule: do_enter_cases)
    case made
    have e: "extends (ds_d s) d'" by (simp add: extends_def made nth_append)
    show ?thesis unfolding enter(1)
      by (rule step_frame [OF assms(2) e made(2)])
        (auto simp: made holds_def nth_append dest!: running_None [OF assms(2)])
  next
    case (found r)
    show ?thesis unfolding enter(1)
      by (rule step_frame [OF assms(2) extends_same_heap [OF found(3)] found(2)])
        (use found in \<open>auto dest!: running_None [OF assms(2)]\<close>)
  qed
next
  case (finish i k r res th d')
  have r: "holds (ds_d s) r k" "de_res (dd_heap (ds_d s) ! r) = None" and tab: "table_inv (ds_now s) (ds_d s)"
    using running_None [OF assms(2) finish(2)] assms(2) by (simp_all add: dedupe_inv_def)
  note f = do_finish_inv [OF tab r finish(3)]
  have "de_res (dd_heap d' ! q) = None \<and> th \<noteq> Running j q" if "h \<noteq> i" "ds_thr s h = Some (Running j q)" for h j q
  proof -
    have "q \<noteq> r"
    proof
      assume "q = r"
      then have "j = k" using running_None [OF assms(2) that(2)] r by (simp add: holds_def)
      with that finish(2) assms(2) \<open>q = r\<close> show False unfolding dedupe_inv_def by blast
    qed
    with f(4,5) running_None [OF assms(2) that(2)] show ?thesis by simp
  qed
  then show ?thesis unfolding finish(1) by (rule step_frame [OF assms(2) f(2,1) _ f(3)])
next
  case (drop i k r err)
  then have r: "holds (ds_d s) r k" "de_res (dd_heap (ds_d s) ! r) = Some (Inl err)" and tab: "table_inv (ds_now s) (ds_d s)"
    using table_same_heap [OF drop(2) assms(2)] by simp_all
  show ?thesis unfolding drop(1)
    by (rule step_frame [OF assms(2) extends_same_heap forget_inv [OF tab r]])
      (auto dest!: running_None [OF assms(2)])
next
  case (repeat i k r x)
  then show ?thesis using table_same_heap [OF repeat(2) assms(2)]
    by (auto intro!: thread_frame [OF assms(2)])
next
  case (retry i k r err)
  then show ?thesis by (auto intro!: thread_frame [OF assms(2)])
next
  case (cancel i k r)
  then show ?thesis by (auto intro!: thread_frame [OF assms(2)])
next
  case (call i k)
  then show ?thesis by (auto intro!: thread_frame [OF assms(2)])
qed

lemma dedupe_reachable_inv: "dedupe_reachable s \<Longrightarrow> dedupe_inv s"
  by (induction rule: dedupe_reachable.induct)
    (simp add: dedupe_inv_def table_inv_def newDedupe_def, rule dedupe_step_inv)


section \<open>Properties\<close>

text \<open>The results of the sends that were run for a key, with their start times, in order.\<close>

definition sent_for :: "dedupeKey \<Rightarrow> dedupe \<Rightarrow> (uuid \<times> time) list" where
  "sent_for k d = List.map_filter (\<lambda>x. case de_res x of
     Some (Inr i) \<Rightarrow> if de_key x = k then Some (i, de_at x) else None | _ \<Rightarrow> None) (dd_heap d)"

lemma set_map_filter: "set (List.map_filter f xs) = {b. \<exists>x \<in> set xs. f x = Some b}"
  by (induction xs) (auto simp: map_filter_simps split: option.splits)

lemma sorted_map_filter:
  assumes "sorted_wrt P xs" "\<And>x y a b. P x y \<Longrightarrow> f x = Some a \<Longrightarrow> f y = Some b \<Longrightarrow> Q a b"
  shows "sorted_wrt Q (List.map_filter f xs)"
  using assms(1)
proof (induction xs)
  case (Cons x xs)
  show ?case
  proof (cases "f x")
    case (Some a)
    have "Q a b" if b: "b \<in> set (List.map_filter f xs)" for b
    proof -
      from b obtain y where "y \<in> set xs" "f y = Some b" by (auto simp: List.map_filter_def)
      then show ?thesis using Cons.prems assms(2) Some by auto
    qed
    with Cons Some show ?thesis by (simp add: map_filter_simps)
  qed (use Cons in \<open>simp add: map_filter_simps\<close>)
qed (simp add: map_filter_simps)

lemma small_run_reachable: "dedupe_run ss \<Longrightarrow> \<forall>x \<in> set ss. few x \<Longrightarrow> dedupe_reachable (hd ss)"
  by (induction rule: dedupe_run.induct) (auto intro: dedupe_reachable.intros)

text \<open>Beyond that number the next call empties the table and sends, whatever was sent a moment ago.\<close>

lemma full_table_forgets:
  assumes "length (dd_m d) > maxKeys"
  shows "\<exists>r d'. do_enter now k d = (Running k r, d')"
  using assms by (simp add: do_enter_def gc_def Let_def)

text \<open>
  C26: However many goroutines retry a send with one client id, at once or one after another,
  with failures and cancelled requests in between: as long as the table has never held more than
  \<open>maxKeys\<close>, 200000, keys, two sends that both succeed began more than the window apart, and every
  answer with an id names a message one of those sends made.
\<close>

theorem one_send_per_window:
  assumes "dedupe_run (s # ss)" "\<forall>x \<in> set (s # ss). length (dd_m (ds_d x)) \<le> 200000"
  shows "sorted_wrt (\<lambda>x y. snd y - snd x > DedupeWindow) (sent_for k (ds_d s)) \<and>
    (ds_thr s i = Some (Answered k (Inr x) rep) \<longrightarrow> x \<in> fst ` set (sent_for k (ds_d s)))"
proof
  let ?h = "dd_heap (ds_d s)"
  have "\<forall>x \<in> set (s # ss). few x" using assms(2) by (simp add: few_def maxKeys_def)
  then have inv: "dedupe_inv s" using small_run_reachable [OF assms(1)] by (auto intro: dedupe_reachable_inv)
  have "sorted_wrt (\<lambda>x y. alive x \<and> alive y \<and> de_key x = de_key y \<longrightarrow> de_at y - de_at x > DedupeWindow) ?h"
    using inv by (auto simp: dedupe_inv_def table_inv_def sorted_wrt_iff_nth_less)
  then show "sorted_wrt (\<lambda>x y. snd y - snd x > DedupeWindow) (sent_for k (ds_d s))"
    unfolding sent_for_def
    by (rule sorted_map_filter) (auto simp: alive_def split: option.splits sum.splits if_splits)
  show "ds_thr s i = Some (Answered k (Inr x) rep) \<longrightarrow> x \<in> fst ` set (sent_for k (ds_d s))"
  proof
    assume "ds_thr s i = Some (Answered k (Inr x) rep)"
    with inv have "thread_inv (ds_d s) (Answered k (Inr x) rep)" unfolding dedupe_inv_def by blast
    then obtain r where r: "r < length ?h" "de_key (?h ! r) = k" "de_res (?h ! r) = Some (Inr x)"
      by (auto simp: holds_def)
    then have "(x, de_at (?h ! r)) \<in> set (sent_for k (ds_d s))"
      by (auto simp: sent_for_def set_map_filter intro!: bexI [of _ "?h ! r"])
    then show "x \<in> fst ` set (sent_for k (ds_d s))" by force
  qed
qed

text \<open>Ann's phone sends, the answer is lost, and the phone sends again.\<close>

definition send_once :: dedupe_sys where
  "send_once = \<lparr>ds_d = \<lparr>dd_m = [(Key 1 9, 0)], dd_lastGC = 0,
      dd_heap = [\<lparr>de_key = Key 1 9, de_at = 0, de_res = Some (Inr 20)\<rparr>]\<rparr>,
    ds_now = 0, ds_thr = (\<lambda>_. None)(0 \<mapsto> Answered (Key 1 9) (Inr 20) False)\<rparr>"

lemma send_once_run: "\<exists>ss. dedupe_run (send_once # ss) \<and> (\<forall>x \<in> set ss. length (dd_m (ds_d x)) \<le> 1)"
proof -
  let ?s0 = "\<lparr>ds_d = newDedupe, ds_now = 0, ds_thr = (\<lambda>_. None)\<rparr>"
  let ?s1 = "?s0\<lparr>ds_thr := (ds_thr ?s0)(0 \<mapsto> Trying (Key 1 9))\<rparr>"
  let ?d = "\<lparr>dd_m = [(Key 1 9, 0)], dd_lastGC = 0, dd_heap = [\<lparr>de_key = Key 1 9, de_at = 0, de_res = None\<rparr>]\<rparr>"
  let ?s2 = "?s1\<lparr>ds_d := ?d, ds_thr := (ds_thr ?s1)(0 \<mapsto> Running (Key 1 9) 0)\<rparr>"
  have 1: "dedupe_run [?s1, ?s0]"
    by (rule more [OF first [of 0] call]) simp
  have e: "do_enter (ds_now ?s1) (Key 1 9) (ds_d ?s1) = (Running (Key 1 9) 0, ?d)"
    by (simp add: do_enter_def gc_def newDedupe_def minute_def Let_def)
  have 2: "dedupe_run [?s2, ?s1, ?s0]"
    by (rule more [OF 1 enter [OF _ e]]) simp
  have f: "do_finish (Inr 20) (Key 1 9) 0 (ds_d ?s2) = (Answered (Key 1 9) (Inr 20) False, ds_d send_once)"
    by (simp add: do_finish_def send_once_def)
  have "dedupe_run [?s2\<lparr>ds_d := ds_d send_once, ds_thr := (ds_thr ?s2)(0 \<mapsto> Answered (Key 1 9) (Inr 20) False)\<rparr>, ?s2, ?s1, ?s0]"
    by (rule more [OF 2 finish [OF _ f]]) simp
  then have "dedupe_run (send_once # [?s2, ?s1, ?s0])" by (simp add: send_once_def)
  then show ?thesis by (intro exI [of _ "[?s2, ?s1, ?s0]"]) (simp add: newDedupe_def)
qed

theorem one_send_per_window_witness: "(20 :: uuid) \<in> fst ` set (sent_for (Key 1 9) (ds_d send_once))"
proof -
  obtain ss where ss: "dedupe_run (send_once # ss)" "\<forall>x \<in> set ss. length (dd_m (ds_d x)) \<le> 1" using send_once_run by blast
  have "\<forall>x \<in> set (send_once # ss). length (dd_m (ds_d x)) \<le> 200000" using ss(2) by (auto simp: send_once_def)
  from one_send_per_window [OF ss(1) this, of "Key 1 9" 0 20 False] show ?thesis by (simp add: send_once_def)
qed

text \<open>
  A send retried within the window answers with the first message's id and changes nothing: no
  second message, nobody is told again.
\<close>

theorem retry_changes_nothing:
  assumes "SendMessage e now u (Id c) m d s = Some (Inr i, d1, s1, es)" "length (dd_m d1) \<le> maxKeys"
    "now \<le> now2" "now2 - now \<le> DedupeWindow" "map_of (dd_m d) (Key u c) = None"
  shows "\<exists>d2. SendMessage e2 now2 u (Id c) m2 d1 s2 = Some (Inr i, d2, s2, [])"
proof -
  let ?k = "Key u c" and ?g = "gc now d"
  have none: "map_of (dd_m ?g) ?k = None"
    using assms(5) by (auto simp: gc_def Let_def map_of_eq_None_iff)
  let ?d = "?g\<lparr>dd_m := (?k, length (dd_heap ?g)) # filter (\<lambda>x. fst x \<noteq> ?k) (dd_m ?g),
            dd_heap := dd_heap ?g @ [\<lparr>de_key = ?k, de_at = now, de_res = None\<rparr>]\<rparr>"
  have enter: "do_enter now ?k d = (Running ?k (length (dd_heap ?g)), ?d)"
    by (simp add: do_enter_def Let_def none)
  obtain res s' es' where snd: "send e u m s = (res, s', es')" by (cases "send e u m s")
  have res: "res = Inr i" "d1 = snd (do_finish (Inr i) ?k (length (dd_heap ?g)) ?d)"
    using assms(1) by (cases res; simp add: SendMessage_def enter snd do_finish_def)+
  have d1: "map_of (dd_m d1) ?k = Some (length (dd_heap d))"
      "dd_heap d1 ! length (dd_heap d) = \<lparr>de_key = ?k, de_at = now, de_res = Some (Inr i)\<rparr>"
    by (simp_all add: res do_finish_def)
  have young: "\<not> expired now2 (dd_heap d1 ! length (dd_heap d))"
    using assms(4) by (simp add: d1 expired_def)
  have kept: "map_of (dd_m (gc now2 d1)) ?k = Some (length (dd_heap d))"
  proof -
    have "map_of (filter p m') ?k = Some r"
      if "map_of m' ?k = Some r" "p (?k, r)" for p r and m' :: "(dedupeKey \<times> nat) list"
      using that
    proof (induction m')
      case (Cons x xs) then show ?case by (cases x) (auto split: if_splits)
    qed simp
    then show ?thesis using assms(2) d1 young by (auto simp: gc_def Let_def)
  qed
  then show ?thesis
    using d1 young by (simp add: SendMessage_def do_enter_def Let_def)
qed


theorem retry_changes_nothing_witness:
  "\<exists>d1 d2. SendMessage (easy_chat 20 5000) 5000 1 (Id 9) (text_to ''hello'' 2) newDedupe ann_and_bob = Some (Inr 20, d1, greeted,
      [WriteToUsers [2, 1] (sent_event (easy_chat 20 5000) 1 2 (text_to ''hello'' 2) []),
       Notify (sent_job (easy_chat 20 5000) 1 2 [2] (text_to ''hello'' 2) [])]) \<and>
    SendMessage (easy_chat 21 6000) 6000 1 (Id 9) (text_to ''hello'' 2) d1 greeted = Some (Inr 20, d2, greeted, [])"
proof -
  let ?d1 = "\<lparr>dd_m = [(Key 1 9, 0)], dd_lastGC = 5000, dd_heap = [\<lparr>de_key = Key 1 9, de_at = 5000, de_res = Some (Inr 20)\<rparr>]\<rparr>"
  have e: "do_enter 5000 (Key 1 9) newDedupe = (Running (Key 1 9) 0,
      ?d1\<lparr>dd_heap := [\<lparr>de_key = Key 1 9, de_at = 5000, de_res = None\<rparr>]\<rparr>)"
    by (simp add: do_enter_def gc_def newDedupe_def minute_def Let_def)
  have 1: "SendMessage (easy_chat 20 5000) 5000 1 (Id 9) (text_to ''hello'' 2) newDedupe ann_and_bob = Some (Inr 20, ?d1, greeted,
      [WriteToUsers [2, 1] (sent_event (easy_chat 20 5000) 1 2 (text_to ''hello'' 2) []),
       Notify (sent_job (easy_chat 20 5000) 1 2 [2] (text_to ''hello'' 2) [])])"
    by (simp add: SendMessage_def e ann_says_hello do_finish_def)
  have "\<exists>d2. SendMessage (easy_chat 21 6000) 6000 1 (Id 9) (text_to ''hello'' 2) ?d1 greeted = Some (Inr 20, d2, greeted, [])"
    by (rule retry_changes_nothing [OF 1]) (simp_all add: maxKeys_def DedupeWindow_def minute_def newDedupe_def)
  with 1 show ?thesis by blast
qed

end
