(* ===== verification/Friends_HTTP.thy ===== *)
theory Friends_HTTP
  imports Friends_Safety Http
begin

text \<open>
  \<^verbatim>\<open>internal/friends/handler.go\<close>: the friends endpoints on top of the service, and what a
  client can and cannot learn from their answers.
\<close>

section \<open>Handlers\<close>

fun err_text :: "friends_err \<Rightarrow> string" where
  "err_text ErrSelfRequest = ''cannot send a friend request to yourself''"
| "err_text ErrRequestExists = ''a pending request already exists between these users''"
| "err_text ErrAlreadyFriends = ''already friends''"
| "err_text ErrNotFound = ''friend request not found''"
| "err_text ErrUnknownUser = ''user does not exist''"
| "err_text ErrNotFriends = ''you are not friends with this user''"
| "err_text ErrSelfBlock = ''cannot block yourself''"
| "err_text ErrYouBlocked = ''you blocked this user; unblock them first''"

definition writeErr :: "friends_err fail \<Rightarrow> 'b resp" where
  "writeErr err = (case err of
     Sentinel x \<Rightarrow>
       if x = ErrSelfRequest \<or> x = ErrSelfBlock then Error StatusBadRequest (err_text x)
       else if x = ErrUnknownUser \<or> x = ErrNotFound \<or> x = ErrNotFriends then Error StatusNotFound (err_text x)
       else if x = ErrRequestExists \<or> x = ErrAlreadyFriends \<or> x = ErrYouBlocked
         then Error StatusConflict (err_text x)
       else ServerError
   | DbFail _ \<Rightarrow> ServerError)"

record StatusFriendParameters =
  ToID :: uuid
  Status :: string

type_synonym 'b friends_answer = "'b resp \<times> friends_sys \<times> effect list"

text \<open>The endpoints that change something, with the answer for success.\<close>

definition finish :: "int \<Rightarrow> unit friends_result \<Rightarrow> unit friends_answer" where
  "finish ok r = (case r of (Inl err, s, es) \<Rightarrow> (writeErr err, s, es)
     | (Inr _, s, es) \<Rightarrow> (WriteHeader ok, s, es))"

definition SendHandler :: "friends_env \<Rightarrow> uuid option \<Rightarrow> StatusFriendParameters option \<Rightarrow>
    friends_sys \<Rightarrow> uuid friends_answer" where
  "SendHandler e ctx body s =
     (case reqctx_User ctx of None \<Rightarrow> (unauthorized, s, [])
      | Some me \<Rightarrow>
          (case body of None \<Rightarrow> (Error StatusBadRequest ''to_id is required'', s, [])
           | Some p \<Rightarrow>
               if ToID p = Nil_uuid then (Error StatusBadRequest ''to_id is required'', s, [])
               else case Send e me (ToID p) s of
                 (Inl err, s', es) \<Rightarrow> (writeErr err, s', es)
               | (Inr reqID, s', es) \<Rightarrow> (JSON StatusOK reqID, s', es)))"

definition UpdateHandler :: "friends_env \<Rightarrow> uuid option \<Rightarrow> uuid option \<Rightarrow> StatusFriendParameters option \<Rightarrow>
    friends_sys \<Rightarrow> unit friends_answer" where
  "UpdateHandler e ctx path body s =
     (case reqctx_User ctx of None \<Rightarrow> (unauthorized, s, [])
      | Some me \<Rightarrow>
          (case path of None \<Rightarrow> (Error StatusBadRequest ''invalid request id'', s, [])
           | Some reqID \<Rightarrow>
               (case body of None \<Rightarrow> (Error StatusBadRequest ''invalid parameters'', s, [])
                | Some p \<Rightarrow>
                    if Status p = ''confirm'' then finish StatusCreated (Accept e me reqID s)
                    else if Status p = ''cancel'' then finish StatusCreated (Deny e me reqID s)
                    else (Error StatusBadRequest ''status must be \"confirm\" or \"cancel\"'', s, []))))"

definition CancelHandler :: "friends_env \<Rightarrow> uuid option \<Rightarrow> uuid option \<Rightarrow> friends_sys \<Rightarrow>
    unit friends_answer" where
  "CancelHandler e ctx path s =
     (case reqctx_User ctx of None \<Rightarrow> (unauthorized, s, [])
      | Some me \<Rightarrow>
          (case path of None \<Rightarrow> (Error StatusBadRequest ''invalid request id'', s, [])
           | Some reqID \<Rightarrow> finish StatusNoContent (Cancel e me reqID s)))"

definition UnfriendHandler :: "friends_env \<Rightarrow> uuid option \<Rightarrow> uuid option \<Rightarrow> friends_sys \<Rightarrow>
    unit friends_answer" where
  "UnfriendHandler e ctx path s =
     (case reqctx_User ctx of None \<Rightarrow> (unauthorized, s, [])
      | Some me \<Rightarrow>
          (case path of None \<Rightarrow> (Error StatusBadRequest ''invalid user id'', s, [])
           | Some other \<Rightarrow> finish StatusNoContent (Unfriend e me other s)))"

definition BlockHandler :: "friends_env \<Rightarrow> uuid option \<Rightarrow> uuid option \<Rightarrow> friends_sys \<Rightarrow>
    unit friends_answer" where
  "BlockHandler e ctx body s =
     (case reqctx_User ctx of None \<Rightarrow> (unauthorized, s, [])
      | Some me \<Rightarrow>
          (case body of None \<Rightarrow> (Error StatusBadRequest ''user_id is required'', s, [])
           | Some other \<Rightarrow>
               if other = Nil_uuid then (Error StatusBadRequest ''user_id is required'', s, [])
               else finish StatusNoContent (Block e me other s)))"

definition UnblockHandler :: "friends_env \<Rightarrow> uuid option \<Rightarrow> uuid option \<Rightarrow> friends_sys \<Rightarrow>
    unit friends_answer" where
  "UnblockHandler e ctx path s =
     (case reqctx_User ctx of None \<Rightarrow> (unauthorized, s, [])
      | Some me \<Rightarrow>
          (case path of None \<Rightarrow> (Error StatusBadRequest ''invalid user id'', s, [])
           | Some other \<Rightarrow> finish StatusNoContent (Unblock e me other s)))"

definition RequestsHandler :: "friends_env \<Rightarrow> uuid option \<Rightarrow> friends_sys \<Rightarrow>
    ((uuid \<Rightarrow> friend_meta option) \<times> (uuid \<Rightarrow> friend_meta option)) resp \<times> friends_sys" where
  "RequestsHandler e ctx s =
     (case reqctx_User ctx of None \<Rightarrow> (unauthorized, s)
      | Some me \<Rightarrow>
          (case Relationships e me s of
             (Inl err, s') \<Rightarrow> (writeErr err, s')
           | (Inr snap, s') \<Rightarrow> (JSON StatusOK (sn_incoming snap, sn_outgoing snap), s')))"

definition ListHandler :: "friends_env \<Rightarrow> uuid option \<Rightarrow> friends_sys \<Rightarrow>
    friend_meta list resp \<times> friends_sys" where
  "ListHandler e ctx s =
     (case reqctx_User ctx of None \<Rightarrow> (unauthorized, s)
      | Some me \<Rightarrow>
          (case Relationships e me s of
             (Inl err, s') \<Rightarrow> (writeErr err, s')
           | (Inr snap, s') \<Rightarrow> (JSON StatusOK (sn_friends snap), s')))"

definition BlockedHandler :: "friends_env \<Rightarrow> uuid option \<Rightarrow> friends_sys \<Rightarrow>
    (uuid \<times> string \<times> time) list resp" where
  "BlockedHandler e ctx s =
     (case reqctx_User ctx of None \<Rightarrow> unauthorized
      | Some me \<Rightarrow> (case Blocked e me s of Inl err \<Rightarrow> writeErr err | Inr l \<Rightarrow> JSON StatusOK l))"

section \<open>What the answers tell\<close>

text \<open>An answer that says the request was wrong.\<close>

definition refused :: "'b resp \<Rightarrow> bool" where
  "refused r \<longleftrightarrow> 400 \<le> code r \<and> code r < 500"

lemma refused_simps [simp]: "refused unauthorized" "refused (Error StatusBadRequest x)" "refused (writeErr (Sentinel y))"
  by (simp_all add: refused_def http_status) (cases y; simp add: writeErr_def http_status)

lemma writeErr_code: "code (writeErr err) = 500 \<longleftrightarrow> (\<exists>x. err = DbFail x)"
proof (cases err)
  case (Sentinel x)
  then show ?thesis by (cases x) (simp_all add: writeErr_def http_status)
qed (simp add: writeErr_def)

lemma finish_code: "ok \<noteq> 500 \<Longrightarrow> code (fst (finish ok r)) = 500 \<longleftrightarrow> (\<exists>x. fst r = Inl (DbFail x))"
  by (cases r) (auto simp: finish_def writeErr_code split: sum.splits)

text \<open>With every call working, the operations fail with sentinels only.\<close>

definition working :: "friends_env \<Rightarrow> bool" where
  "working e \<longleftrightarrow> (\<forall>c. \<not> fe_fails e c) \<and> (\<forall>u. fe_names e u \<noteq> Inl NameLookupFailed)"

lemma working_calm [simp]: "working (calm i)"
  by (simp add: working_def)

lemma SendCheck_sentinels: "working e \<Longrightarrow> SendCheck e a b d \<noteq> Some (DbFail x)"
  by (auto simp: working_def SendCheck_def repo_BlockBetween_def
      split: sum.splits name_err.splits prod.splits if_splits)

lemma repo_Create_sentinels: "working e \<Longrightarrow> repo_Create e i a b d \<noteq> Inl (DbFail x)"
  by (simp add: working_def repo_Create_def CreateFriendRequest_def split: sum.split)

lemma Send_sentinels: "working e \<Longrightarrow> fst (Send e a b s) \<noteq> Inl (DbFail x)"
  using SendCheck_sentinels [of e a b "fs_db s" x] repo_Create_sentinels [of e "fe_uuid e" a b "fs_db s" x]
  by (auto simp: working_def Send_def SendCreate_def Let_def split: sum.splits option.splits)

lemma Accept_sentinels: "working e \<Longrightarrow> fst (Accept e me i s) \<noteq> Inl (DbFail x)"
  by (auto simp: working_def Accept_def repo_Accept_def AcceptFriendRequest_def notFound_def Let_def
      split: option.splits)

lemma Deny_sentinels: "working e \<Longrightarrow> fst (Deny e me i s) \<noteq> Inl (DbFail x)"
  by (auto simp: working_def Deny_def repo_Deny_def DenyFriendRequest_def notFound_def Let_def
      split: option.splits)

lemma Cancel_sentinels: "working e \<Longrightarrow> fst (Cancel e me i s) \<noteq> Inl (DbFail x)"
  by (auto simp: working_def Cancel_def repo_Cancel_def CancelFriendRequest_def notFound_def Let_def
      split: option.splits)

lemma Unfriend_sentinels: "working e \<Longrightarrow> fst (Unfriend e a b s) \<noteq> Inl (DbFail x)"
  by (auto simp: working_def Unfriend_def repo_Unfriend_def UnfriendRow_def Let_def
      split: option.splits)

lemma Block_sentinels: "working e \<Longrightarrow> fst (Block e a b s) \<noteq> Inl (DbFail x)"
  by (auto simp: working_def Block_def repo_Block_def BlockUser_def)

lemma Unblock_sentinels: "working e \<Longrightarrow> fst (Unblock e a b s) \<noteq> Inl (DbFail x)"
  by (auto simp: working_def Unblock_def repo_Unblock_def)

lemmas sentinels = Send_sentinels Accept_sentinels Deny_sentinels Cancel_sentinels
  Unfriend_sentinels Block_sentinels Unblock_sentinels

lemma result_cases:
  assumes "\<And>x. q \<noteq> Inl (DbFail x)"
  obtains y where "q = Inl (Sentinel y)" | v where "q = Inr v"
  using assms by (metis fail.exhaust sum.exhaust)

lemma finish_answers:
  assumes "\<And>x. fst r \<noteq> Inl (DbFail x)"
  shows "code (fst (finish ok r)) = ok \<or> refused (fst (finish ok r))"
  using assms by (cases r; cases "fst r" rule: result_cases) (auto simp: finish_def)

lemma SendHandler_answers: "working e \<Longrightarrow> code (fst (SendHandler e ctx body s)) = StatusOK \<or> refused (fst (SendHandler e ctx body s))"
proof -
  assume w: "working e"
  let ?r = "\<lambda>a b. case Send e a b s of (Inl err, s', es) \<Rightarrow> (writeErr err, s', es) | (Inr reqID, s', es) \<Rightarrow> (JSON StatusOK reqID, s', es)"
  have "code (fst (?r a b)) = StatusOK \<or> refused (fst (?r a b))" for a b
  proof (cases "fst (Send e a b s)" rule: result_cases)
    case 1
    then show ?case using Send_sentinels [OF w] by blast
  qed (cases "Send e a b s"; auto)+
  then show ?thesis by (auto simp: SendHandler_def split: option.split)
qed

lemma working_reads:
  assumes "working e"
  shows "\<exists>x s'. Relationships e me s = (Inr x, s')" "\<exists>l. Blocked e me s = Inr l"
proof -
  have q: "repo_Snapshot e me (fs_db s) = Inr (snapshot_of (fe_coll e) (fs_db s) me)" "repo_Blocked e me (fs_db s) = Inr (ListBlocked me (fs_db s))"
    using assms by (simp_all add: working_def repo_Snapshot_def repo_Blocked_def)
  then show "\<exists>x s'. Relationships e me s = (Inr x, s')" by (auto simp: Relationships_def VLoad_def Let_def split: option.split)
  from q show "\<exists>l. Blocked e me s = Inr l" by (simp add: Blocked_def)
qed

lemma read_answers:
  assumes "working e"
  shows "code (fst (RequestsHandler e ctx s)) = StatusOK \<or> refused (fst (RequestsHandler e ctx s))"
    "code (fst (ListHandler e ctx s)) = StatusOK \<or> refused (fst (ListHandler e ctx s))"
    "code (BlockedHandler e ctx s) = StatusOK \<or> refused (BlockedHandler e ctx s)"
proof -
  have r: "(\<exists>x s'. Relationships e me s = (Inr x, s')) \<and> (\<exists>l. Blocked e me s = Inr l)" for me
    using working_reads [OF assms] by blast
  show "code (fst (RequestsHandler e ctx s)) = StatusOK \<or> refused (fst (RequestsHandler e ctx s))"
    "code (fst (ListHandler e ctx s)) = StatusOK \<or> refused (fst (ListHandler e ctx s))"
    "code (BlockedHandler e ctx s) = StatusOK \<or> refused (BlockedHandler e ctx s)"
    using r [of "the (reqctx_User ctx)"]
    by (cases "reqctx_User ctx"; auto simp: RequestsHandler_def ListHandler_def BlockedHandler_def)+
qed

text \<open>
  C39: With all calls of the package working, each of the nine friends endpoints answers with its own success
  status (200, 201 for an answer to a request, 204 for what has no body) or a status from 400 to 499; in
  particular never with an internal error.
\<close>

theorem friends_http_no_500:
  assumes "working e"
  shows "(code (fst (SendHandler e ctx body s)) = 200 \<or> refused (fst (SendHandler e ctx body s))) \<and>
    (code (fst (UpdateHandler e ctx path body s)) = 201 \<or> refused (fst (UpdateHandler e ctx path body s))) \<and>
    (code (fst (CancelHandler e ctx path s)) = 204 \<or> refused (fst (CancelHandler e ctx path s))) \<and>
    (code (fst (UnfriendHandler e ctx path s)) = 204 \<or> refused (fst (UnfriendHandler e ctx path s))) \<and>
    (code (fst (BlockHandler e ctx path s)) = 204 \<or> refused (fst (BlockHandler e ctx path s))) \<and>
    (code (fst (UnblockHandler e ctx path s)) = 204 \<or> refused (fst (UnblockHandler e ctx path s))) \<and>
    (code (fst (RequestsHandler e ctx s)) = 200 \<or> refused (fst (RequestsHandler e ctx s))) \<and>
    (code (fst (ListHandler e ctx s)) = 200 \<or> refused (fst (ListHandler e ctx s))) \<and>
    (code (BlockedHandler e ctx s) = 200 \<or> refused (BlockedHandler e ctx s))"
proof -
  have f: "code (fst (finish ok r)) = ok \<or> refused (fst (finish ok r))" if "\<And>x. fst r \<noteq> Inl (DbFail x)" for ok r
    using that by (rule finish_answers)
  have 201: "code (fst (UpdateHandler e ctx path body s)) = StatusCreated \<or> refused (fst (UpdateHandler e ctx path body s))"
    using f [OF sentinels(2) [OF assms]] f [OF sentinels(3) [OF assms]] by (auto simp: UpdateHandler_def split: option.split)
  have 204: "code (fst (CancelHandler e ctx path s)) = StatusNoContent \<or> refused (fst (CancelHandler e ctx path s))"
    "code (fst (UnfriendHandler e ctx path s)) = StatusNoContent \<or> refused (fst (UnfriendHandler e ctx path s))"
    "code (fst (BlockHandler e ctx path s)) = StatusNoContent \<or> refused (fst (BlockHandler e ctx path s))"
    "code (fst (UnblockHandler e ctx path s)) = StatusNoContent \<or> refused (fst (UnblockHandler e ctx path s))"
    using f [OF sentinels(4) [OF assms]] f [OF sentinels(5) [OF assms]] f [OF sentinels(6) [OF assms]] f [OF sentinels(7) [OF assms]]
    by (auto simp: CancelHandler_def UnfriendHandler_def BlockHandler_def UnblockHandler_def split: option.split)
  show ?thesis
    using SendHandler_answers [OF assms, of ctx body s] 201 204 read_answers [OF assms, of ctx s]
    unfolding StatusOK_def StatusCreated_def StatusNoContent_def by blast
qed

theorem friends_http_no_500_witness:
  "working (calm 4) \<and> code (fst (SendHandler (calm 4) (Some 1) (Some \<lparr>ToID = 2, Status = []\<rparr>) two_users)) = 200"
proof -
  have "\<not> refused (fst (SendHandler (calm 4) (Some 1) (Some \<lparr>ToID = 2, Status = []\<rparr>) two_users))"
    by (simp add: SendHandler_def Send_def SendCheck_def SendCreate_def refused_def two_users_def http_status Let_def repo_BlockBetween_def
        BlockBetween_def blocked_row_def repo_Create_def CreateFriendRequest_def empty_db_def user_exists_def new_user_def exists_row_def)
  with friends_http_no_500 [OF working_calm, of 4 "Some 1" "Some \<lparr>ToID = 2, Status = []\<rparr>" two_users None] show ?thesis by simp
qed

text \<open>
  A client cannot tell from the API that it was blocked: if the users service knows the
  blocker, the status, the body, the new state and the events of its request are the ones
  of a request to an unknown user.
\<close>

theorem block_is_invisible_http:
  assumes "blocks_db (ToID p) me (fs_db s)" "\<not> blocks_db me (ToID p) (fs_db s)" "me \<noteq> ToID p"
    and "fe_names e (ToID p) = Inr nm" "\<not> fe_fails e QBlockBetween" "me \<noteq> Nil_uuid" "ToID p \<noteq> Nil_uuid"
  shows "SendHandler e (Some me) (Some p) s = (Error StatusNotFound ''user does not exist'', s, []) \<and>
    SendHandler (e\<lparr>fe_names := (fe_names e)(ToID p := Inl ErrUserNotFound)\<rparr>) (Some me) (Some p) s =
      (Error StatusNotFound ''user does not exist'', s, [])"
  using assms
  by (simp add: SendHandler_def writeErr_def Send_def SendCheck_def repo_BlockBetween_def
      BlockBetween_def blocks_db_def)

theorem block_is_invisible_http_witness:
  "let s = two_users\<lparr>fs_db := fs_db two_users\<lparr>user_blocks := [\<lparr>ub_blocker_id = 2, ub_blocked_id = 1, ub_created_at = 0\<rparr>]\<rparr>\<rparr>
   in SendHandler (calm 9) (Some 1) (Some \<lparr>ToID = 2, Status = []\<rparr>) s =
     (Error StatusNotFound ''user does not exist'', s, [])"
  unfolding Let_def
  by (rule block_is_invisible_http [where nm = "''x''", THEN conjunct1])
    (simp_all add: two_users_def empty_db_def blocks_db_def blocked_row_def)

end
