(* ===== verification/Hub.thy ===== *)
theory Hub
  imports Calls Chat_Read "HOL-Library.AList"
begin

text \<open>
  \<^verbatim>\<open>ws/hub.go\<close> and the events of \<^verbatim>\<open>ws/client.go\<close>: the connections of each user and what they are sent.
  One step is one section under the hub's lock; the removal of slow connections is a section of its own.
\<close>

section \<open>Connections\<close>

definition MaxDevices :: nat where "MaxDevices = 5"
definition sendBuffer :: nat where "sendBuffer = 256"

text \<open>
  \<open>hb_clients\<close>: the map, oldest first. A connection's channel: \<open>hb_buffer\<close>, what \<open>Send\<close> holds, and whether
  it was closed. \<open>hb_panicked\<close>: a send on a closed channel or a second close, which end the program.
  \<open>hb_hooks\<close>: the goroutines started for the two hooks, both installed, in the order of their start;
  \<open>hb_late\<close>: what calls that have left the lock are still about to start.
\<close>

datatype hub_hook = CallsConnected Conn | CallsDisconnected Conn | PresenceHook uuid bool

record hub =
  hb_clients :: "uuid \<Rightarrow> Conn list"
  hb_buffer :: "Conn \<Rightarrow> event list"
  hb_closed :: "Conn list"
  hb_panicked :: bool
  hb_hooks :: "hub_hook list"
  hb_late :: "hub_hook list"

definition NewHub :: hub where
  "NewHub = \<lparr>hb_clients = (\<lambda>_. []), hb_buffer = (\<lambda>_. []), hb_closed = [], hb_panicked = False, hb_hooks = [], hb_late = []\<rparr>"

definition set_list :: "uuid \<Rightarrow> Conn list \<Rightarrow> hub \<Rightarrow> hub" where
  "set_list u xs h = h\<lparr>hb_clients := (hb_clients h)(u := xs)\<rparr>"

text \<open>\<open>close(c.Send)\<close>, with \<open>go h.calls.Disconnected\<close>.\<close>

definition shut :: "Conn \<Rightarrow> hub \<Rightarrow> hub" where
  "shut c h = h\<lparr>hb_panicked := hb_panicked h \<or> c \<in> set (hb_closed h), hb_closed := hb_closed h @ [c],
     hb_hooks := hb_hooks h @ [CallsDisconnected c]\<rparr>"

text \<open>Goroutines started at once, and by a call that has left the lock.\<close>

definition start_hooks :: "hub_hook list \<Rightarrow> hub \<Rightarrow> hub" where
  "start_hooks xs h = h\<lparr>hb_hooks := hb_hooks h @ xs\<rparr>"

definition changed :: "uuid \<Rightarrow> bool \<Rightarrow> hub \<Rightarrow> hub" where
  "changed u online = start_hooks [PresenceHook u online]"

text \<open>The section of a registration; behind it the hooks that the loop starts after \<^verbatim>\<open>Unlock\<close>.\<close>

definition Register_section :: "Conn \<Rightarrow> hub \<Rightarrow> hub \<times> hub_hook list" where
  "Register_section c h =
     (let u = cn_User c; first = (hb_clients h u = []); xs = hb_clients h u @ [c] in
      (if length xs > MaxDevices then set_list u (tl xs) (shut (hd xs) h) else set_list u xs h,
       (if first then [PresenceHook u True] else []) @ [CallsConnected c]))"

text \<open>A registration that nothing comes between.\<close>

definition Register :: "Conn \<Rightarrow> hub \<Rightarrow> hub" where
  "Register c h = (case Register_section c h of (h', late) \<Rightarrow> start_hooks late h')"

definition remove_conn :: "Conn \<Rightarrow> hub \<Rightarrow> hub" where
  "remove_conn c h =
     (let u = cn_User c in
      if c \<in> set (hb_clients h u) then
        (let xs = remove1 c (hb_clients h u); h = set_list u xs (shut c h) in
         if xs = [] then changed u False h else h)
      else h)"

definition Disconnect_section :: "uuid \<Rightarrow> hub \<Rightarrow> hub \<times> hub_hook list" where
  "Disconnect_section u h =
     (let xs = hb_clients h u in
      (set_list u [] (fold shut xs h), if xs = [] then [] else [PresenceHook u False]))"

definition Hub_Disconnect :: "uuid \<Rightarrow> hub \<Rightarrow> hub" where
  "Hub_Disconnect u h = (case Disconnect_section u h of (h', late) \<Rightarrow> start_hooks late h')"

definition Online :: "uuid \<Rightarrow> hub \<Rightarrow> bool" where
  "Online u h \<longleftrightarrow> hb_clients h u \<noteq> []"

definition CheckWsConnection :: "uuid \<Rightarrow> hub \<Rightarrow> bool" where
  "CheckWsConnection u h \<longleftrightarrow> hb_clients h u \<noteq> []"

definition user_count :: "hub \<Rightarrow> nat" where
  "user_count h = card {u. hb_clients h u \<noteq> []}"

section \<open>Sending\<close>

text \<open>\<open>select { case c.Send <- bytes: \<dots> default: \<dots> }\<close>: whether the buffer had room.\<close>

definition offer :: "event \<Rightarrow> Conn \<Rightarrow> hub \<Rightarrow> bool \<times> hub" where
  "offer ev c h =
     (if c \<in> set (hb_closed h) then (False, h\<lparr>hb_panicked := True\<rparr>)
      else if length (hb_buffer h c) < sendBuffer then (True, h\<lparr>hb_buffer := (hb_buffer h)(c := hb_buffer h c @ [ev])\<rparr>)
      else (False, h))"

fun offer_all :: "event \<Rightarrow> Conn list \<Rightarrow> hub \<Rightarrow> Conn list \<times> hub" where
  "offer_all ev [] h = ([], h)"
| "offer_all ev (c # cs) h =
     (case offer ev c h of (sent, h1) \<Rightarrow> (case offer_all ev cs h1 of (slow, h2) \<Rightarrow> (if sent then slow else c # slow, h2)))"

text \<open>\<open>send\<close>: the connections of all targets; those that were too slow are then removed one by one.\<close>

definition send_section :: "event \<Rightarrow> uuid list \<Rightarrow> hub \<Rightarrow> Conn list \<times> hub" where
  "send_section ev targets h = offer_all ev (concat (map (hb_clients h) targets)) h"

definition hub_WriteToUsers :: "uuid list \<Rightarrow> event \<Rightarrow> hub \<Rightarrow> hub" where
  "hub_WriteToUsers targets ev h = (case send_section ev targets h of (slow, h') \<Rightarrow> fold remove_conn slow h')"

definition WriteIntoConnection :: "uuid \<Rightarrow> event \<Rightarrow> hub \<Rightarrow> hub" where
  "WriteIntoConnection u = hub_WriteToUsers [u]"

definition SendToConn_section :: "Conn \<Rightarrow> event \<Rightarrow> hub \<Rightarrow> (Conn option \<times> bool) \<times> hub" where
  "SendToConn_section c ev h = (case filter (\<lambda>x. cn_ID x = cn_ID c) (hb_clients h (cn_User c)) of
     [] \<Rightarrow> ((None, False), h)
   | xs \<Rightarrow> (case offer ev (last xs) h of (sent, h') \<Rightarrow> ((Some (last xs), sent), h')))"

definition hub_SendToConn :: "Conn \<Rightarrow> event \<Rightarrow> hub \<Rightarrow> bool \<times> hub" where
  "hub_SendToConn c ev h = (case SendToConn_section c ev h of
     ((Some x, False), h') \<Rightarrow> (False, remove_conn x h') | ((_, sent), h') \<Rightarrow> (sent, h'))"

definition WriteToUserExcept :: "uuid \<Rightarrow> uuid \<Rightarrow> event \<Rightarrow> hub \<Rightarrow> hub" where
  "WriteToUserExcept u except ev h = snd (offer_all ev (filter (\<lambda>c. cn_ID c \<noteq> except) (hb_clients h u)) h)"

text \<open>\<open>WritePump\<close> takes what the channel holds.\<close>

definition pump :: "Conn \<Rightarrow> hub \<Rightarrow> hub" where
  "pump c h = h\<lparr>hb_buffer := (hb_buffer h)(c := [])\<rparr>"

section \<open>Interleavings\<close>

text \<open>
  \<open>HHook k\<close>: a call that has left the lock starts a hook; those of different calls come in any order.
\<close>

datatype hub_label =
    HRegister Conn
  | HRemove Conn
  | HDisconnect uuid
  | HHook nat
  | HSend "uuid list" event
  | HSendTo Conn event
  | HExcept uuid uuid event
  | HPump Conn

definition leave_late :: "hub \<times> hub_hook list \<Rightarrow> hub" where
  "leave_late r = (fst r)\<lparr>hb_late := hb_late (fst r) @ snd r\<rparr>"

definition start_late :: "nat \<Rightarrow> hub \<Rightarrow> hub" where
  "start_late k h = (if k < length (hb_late h)
     then start_hooks [hb_late h ! k] (h\<lparr>hb_late := take k (hb_late h) @ drop (Suc k) (hb_late h)\<rparr>) else h)"

fun hub_exec :: "hub_label \<Rightarrow> hub \<Rightarrow> hub" where
  "hub_exec (HRegister c) h = leave_late (Register_section c h)"
| "hub_exec (HRemove c) h = remove_conn c h"
| "hub_exec (HDisconnect u) h = leave_late (Disconnect_section u h)"
| "hub_exec (HHook k) h = start_late k h"
| "hub_exec (HSend targets ev) h = snd (send_section ev targets h)"
| "hub_exec (HSendTo c ev) h = snd (SendToConn_section c ev h)"
| "hub_exec (HExcept u except ev) h = WriteToUserExcept u except ev h"
| "hub_exec (HPump c) h = pump c h"

definition hub_run :: "hub_label list \<Rightarrow> hub \<Rightarrow> hub" where
  "hub_run xs h = fold hub_exec xs h"

text \<open>\<open>Serve\<close> makes a new connection, with a random id, for each registration.\<close>

fun registered :: "hub_label list \<Rightarrow> Conn list" where
  "registered [] = []"
| "registered (HRegister c # xs) = c # registered xs"
| "registered (_ # xs) = registered xs"

section \<open>Events from clients\<close>

definition typingInterval :: duration where "typingInterval = 3 * second"

definition allowTyping :: "uuid \<Rightarrow> time \<Rightarrow> (uuid \<times> time) list \<Rightarrow> bool \<times> (uuid \<times> time) list" where
  "allowTyping to now lastTyping =
     (if (case map_of lastTyping to of Some t \<Rightarrow> now - t < typingInterval | None \<Rightarrow> False) then (False, lastTyping)
      else (let xs = (if length lastTyping > 256 then [] else lastTyping) in (True, AList.update to now xs)))"

text \<open>
  An event by its name, with the target and the rest of its payload; \<open>None\<close> for a payload that is malformed.
  A receipt passes the id of the message on as it came.
\<close>

record in_event =
  ie_Event :: string
  ie_Target :: "(uuid \<times> string) option"
  ie_Payload :: string

datatype client_action =
    NoAction
  | HandleCall Conn string string
  | Relay "uuid list" event
  | RelaySeen uuid string uuid

definition handleTyping ::
    "chat_env \<Rightarrow> uuid \<Rightarrow> uuid \<Rightarrow> bool \<Rightarrow> client_action" where
  "handleTyping e u to public = (case TypingTargets e u to public of
     Inl _ \<Rightarrow> NoAction
   | Inr targets \<Rightarrow> Relay targets (Event EventTyping (OutGoingEventForTyping u (if public then Some to else None))))"

definition handleEvent ::
    "chat_env \<Rightarrow> Conn \<Rightarrow> time \<Rightarrow> in_event \<Rightarrow> (uuid \<times> time) list \<Rightarrow> client_action \<times> (uuid \<times> time) list" where
  "handleEvent e c now ev lastTyping =
     (if take 4 (ie_Event ev) = ''Call'' then (HandleCall c (ie_Event ev) (ie_Payload ev), lastTyping)
      else case ie_Target ev of
        None \<Rightarrow> (NoAction, lastTyping)
      | Some (to, rest) \<Rightarrow>
          if ie_Event ev = EventTyping then
            (case allowTyping to now lastTyping of
              (False, xs) \<Rightarrow> (NoAction, xs)
            | (True, xs) \<Rightarrow> (handleTyping e (cn_User c) to (rest = ''public''), xs))
          else if ie_Event ev = EventSeen then
            (if SeenAllowed e (cn_User c) to = Some True then RelaySeen to rest (cn_User c) else NoAction, lastTyping)
          else (NoAction, lastTyping))"

end
