(* ===== verification/Hub_Safety.thy ===== *)
theory Hub_Safety
  imports Hub
begin

text \<open>
  What the hub keeps in every interleaving of its sections: channels are closed once and never sent on after
  that, the hooks are told exactly what happened, and nobody stays connected who missed an event.
\<close>

section \<open>The invariant\<close>

text \<open>How often a hook was started or is still to be started.\<close>

definition told :: "hub_hook \<Rightarrow> hub \<Rightarrow> nat" where
  "told x h = count_list (hb_hooks h) x + count_list (hb_late h) x"

definition conns_ok :: "Conn list \<Rightarrow> hub \<Rightarrow> bool" where
  "conns_ok R h \<longleftrightarrow> \<not> hb_panicked h \<and> distinct (hb_closed h) \<and>
     (\<forall>u. distinct (hb_clients h u) \<and> length (hb_clients h u) \<le> MaxDevices \<and>
       (\<forall>c \<in> set (hb_clients h u). cn_User c = u \<and> c \<notin> set (hb_closed h))) \<and>
     (\<forall>c. c \<in> set R \<longleftrightarrow> c \<in> set (hb_closed h) \<or> c \<in> set (hb_clients h (cn_User c)))"

definition calls_told :: "Conn list \<Rightarrow> hub \<Rightarrow> bool" where
  "calls_told R h \<longleftrightarrow> (\<forall>c. told (CallsConnected c) h = of_bool (c \<in> set R) \<and>
     told (CallsDisconnected c) h = of_bool (c \<in> set (hb_closed h)) \<and> CallsDisconnected c \<notin> set (hb_late h))"

text \<open>Who is online was told so once more often than offline.\<close>

definition presence_told :: "(uuid \<Rightarrow> bool) \<Rightarrow> hub \<Rightarrow> bool" where
  "presence_told online h \<longleftrightarrow> (\<forall>u. told (PresenceHook u True) h = told (PresenceHook u False) h + of_bool (online u))"

definition hub_ok :: "Conn list \<Rightarrow> hub \<Rightarrow> bool" where
  "hub_ok R h \<longleftrightarrow> conns_ok R h \<and> calls_told R h \<and> presence_told (\<lambda>u. Online u h) h"

lemma hub_ok_new: "hub_ok [] NewHub"
  by (simp add: hub_ok_def conns_ok_def calls_told_def presence_told_def NewHub_def told_def Online_def)

lemma conns_okD:
  assumes "conns_ok R h"
  shows "distinct (hb_clients h u)" "length (hb_clients h u) \<le> MaxDevices" "c \<in> set (hb_clients h u) \<Longrightarrow> cn_User c = u"
    "c \<in> set (hb_clients h u) \<Longrightarrow> c \<notin> set (hb_closed h)" "c \<in> set (hb_clients h u) \<Longrightarrow> c \<in> set R"
proof -
  have 1: "distinct (hb_clients h u) \<and> length (hb_clients h u) \<le> MaxDevices \<and>
      (\<forall>c \<in> set (hb_clients h u). cn_User c = u \<and> c \<notin> set (hb_closed h))"
    and 2: "c \<in> set R \<longleftrightarrow> c \<in> set (hb_closed h) \<or> c \<in> set (hb_clients h (cn_User c))"
    using assms unfolding conns_ok_def by simp_all
  from 1 2 show "distinct (hb_clients h u)" "length (hb_clients h u) \<le> MaxDevices" "c \<in> set (hb_clients h u) \<Longrightarrow> cn_User c = u"
    "c \<in> set (hb_clients h u) \<Longrightarrow> c \<notin> set (hb_closed h)" "c \<in> set (hb_clients h u) \<Longrightarrow> c \<in> set R" by auto
qed

section \<open>Closing one connection\<close>

text \<open>A registered connection leaves its list and is closed; all removals are made of this.\<close>

definition drop_conn :: "Conn \<Rightarrow> hub \<Rightarrow> hub" where
  "drop_conn c h = set_list (cn_User c) (remove1 c (hb_clients h (cn_User c))) (shut c h)"

lemma drop_conn_simps [simp]:
  "hb_clients (drop_conn c h) = (hb_clients h)(cn_User c := remove1 c (hb_clients h (cn_User c)))"
  "hb_closed (drop_conn c h) = hb_closed h @ [c]" "hb_panicked (drop_conn c h) \<longleftrightarrow> hb_panicked h \<or> c \<in> set (hb_closed h)"
  "hb_late (drop_conn c h) = hb_late h" "hb_buffer (drop_conn c h) = hb_buffer h"
  "told x (drop_conn c h) = told x h + of_bool (x = CallsDisconnected c)"
  by (simp_all add: drop_conn_def set_list_def shut_def told_def)

lemma drop_conns_ok:
  assumes ok: "conns_ok R h" and c: "c \<in> set (hb_clients h u)"
  shows "conns_ok R (drop_conn c h)"
proof -
  note k = conns_okD [OF ok]
  have u: "cn_User c = u" "c \<notin> set (hb_closed h)" using k(3,4) [OF c] by simp_all
  have "length (remove1 c (hb_clients h u)) \<le> MaxDevices" using k(2) [of u] by (auto simp: length_remove1)
  moreover have "\<forall>x. x \<in> set R \<longleftrightarrow> x \<in> set (hb_closed h) \<or> x \<in> set (hb_clients h (cn_User x))"
    "\<not> hb_panicked h" "distinct (hb_closed h)" using ok by (simp_all add: conns_ok_def)
  moreover have "set (remove1 c (hb_clients h u)) = set (hb_clients h u) - {c}" using k(1) by simp
  ultimately show ?thesis
    unfolding conns_ok_def using k u c by (simp add: distinct_remove1) blast
qed

lemma drop_calls_told:
  assumes "conns_ok R h" "calls_told R h" "c \<in> set (hb_clients h u)"
  shows "calls_told R (drop_conn c h)"
  using assms(2) conns_okD(4) [OF assms(1,3)] by (auto simp: calls_told_def)

lemma drop_presence_told [simp]: "presence_told f (drop_conn c h) \<longleftrightarrow> presence_told f h"
  by (simp add: presence_told_def)

text \<open>Starting hooks, and leaving them to be started later, which count the same.\<close>

lemma start_hooks_simps [simp]:
  "hb_clients (start_hooks xs h) = hb_clients h" "hb_closed (start_hooks xs h) = hb_closed h"
  "hb_panicked (start_hooks xs h) = hb_panicked h" "hb_buffer (start_hooks xs h) = hb_buffer h" "hb_late (start_hooks xs h) = hb_late h"
  "told x (start_hooks xs h) = told x h + count_list xs x" "conns_ok R (start_hooks xs h) = conns_ok R h"
  by (simp_all add: start_hooks_def told_def conns_ok_def)

lemma leave_late_simps [simp]:
  "hb_clients (leave_late (h, xs)) = hb_clients h" "hb_closed (leave_late (h, xs)) = hb_closed h"
  "hb_panicked (leave_late (h, xs)) = hb_panicked h" "hb_buffer (leave_late (h, xs)) = hb_buffer h"
  "hb_late (leave_late (h, xs)) = hb_late h @ xs"
  "told x (leave_late (h, xs)) = told x h + count_list xs x" "conns_ok R (leave_late (h, xs)) = conns_ok R h"
  by (simp_all add: leave_late_def told_def conns_ok_def)

lemma changed_ok [simp]: "conns_ok R (changed u b h) = conns_ok R h" "calls_told R (changed u b h) = calls_told R h"
  "hb_clients (changed u b h) = hb_clients h"
  by (simp_all add: changed_def calls_told_def)

lemma presence_told_more:
  assumes "presence_told f h" "f u = (\<not> b)"
    and "\<And>x. told x h' = told x h + of_bool (x = PresenceHook u b)"
  shows "presence_told (f(u := b)) h'"
  unfolding presence_told_def
proof
  fix v
  have old: "told (PresenceHook v True) h = told (PresenceHook v False) h + of_bool (f v)" using assms(1) by (simp add: presence_told_def)
  show "told (PresenceHook v True) h' = told (PresenceHook v False) h' + of_bool ((f(u := b)) v)"
    unfolding assms(3) using old assms(2) by (cases b) auto
qed

lemma presence_told_changed:
  assumes "presence_told f h" "f u = (\<not> b)"
  shows "presence_told (f(u := b)) (changed u b h)"
proof (rule presence_told_more [OF assms])
  fix x show "told x (changed u b h) = told x h + of_bool (x = PresenceHook u b)"
    by (cases "x = PresenceHook u b") (simp_all add: changed_def)
qed

lemma presence_told_same: "(\<And>v d. told (PresenceHook v d) h' = told (PresenceHook v d) h) \<Longrightarrow> presence_told f h' = presence_told f h"
  by (simp add: presence_told_def)

lemma fun_upd_Online: "(\<lambda>v. Online v h')(u := Online u h) = (\<lambda>v. Online v h)" if "\<And>v. v \<noteq> u \<Longrightarrow> hb_clients h' v = hb_clients h v"
  using that by (intro ext) (simp add: Online_def)

section \<open>Every section keeps it\<close>

lemma remove_conn_drop:
  "remove_conn c h = (if c \<in> set (hb_clients h (cn_User c))
     then (let h' = drop_conn c h in if hb_clients h' (cn_User c) = [] then changed (cn_User c) False h' else h') else h)"
  by (simp add: remove_conn_def drop_conn_def set_list_def shut_def Let_def)

lemma remove_ok:
  assumes "hub_ok R h"
  shows "hub_ok R (remove_conn c h)"
proof (cases "c \<in> set (hb_clients h (cn_User c))")
  case False
  then show ?thesis using assms by (simp add: remove_conn_drop)
next
  case True
  let ?u = "cn_User c" and ?h = "drop_conn c h"
  have 1: "conns_ok R ?h" "calls_told R ?h" "presence_told (\<lambda>v. Online v h) ?h"
    using assms drop_conns_ok [OF _ True] drop_calls_told [OF _ _ True] by (auto simp: hub_ok_def)
  have f: "(\<lambda>v. Online v h)(?u := Online ?u ?h) = (\<lambda>v. Online v ?h)" by (rule fun_upd_Online) simp
  show ?thesis
  proof (cases "hb_clients ?h ?u = []")
    case gone: True
    have "presence_told ((\<lambda>v. Online v h)(?u := False)) (changed ?u False ?h)"
      by (rule presence_told_changed [OF 1(3)]) (use True in \<open>auto simp: Online_def\<close>)
    moreover have "(\<lambda>v. Online v h)(?u := False) = (\<lambda>v. Online v (changed ?u False ?h))"
      using f gone by (auto simp: Online_def fun_eq_iff split: if_splits)
    ultimately show ?thesis using 1 True gone by (simp add: remove_conn_drop hub_ok_def Let_def)
  next
    case False
    then have "(\<lambda>v. Online v ?h) = (\<lambda>v. Online v h)" using True by (auto simp: Online_def fun_eq_iff)
    with 1 True False show ?thesis by (simp add: remove_conn_drop hub_ok_def Let_def)
  qed
qed

lemma shut_set_list: "shut c (set_list u zs h) = set_list u zs (shut c h)"
  by (simp add: shut_def set_list_def)

lemma fold_shut_set_list: "fold shut ys (set_list u zs h) = set_list u zs (fold shut ys h)"
  by (induction ys arbitrary: h) (simp_all add: shut_set_list)

lemma set_list_again [simp]: "set_list u ys (set_list u zs h) = set_list u ys h"
  by (simp add: set_list_def)

lemma Hub_Disconnect_drops:
  assumes "\<forall>c \<in> set xs. cn_User c = u" "hb_clients h u = xs"
  shows "set_list u [] (fold shut xs h) = fold drop_conn xs h"
  using assms
proof (induction xs arbitrary: h)
  case Nil
  then show ?case by (simp add: set_list_def fun_upd_idem)
next
  case (Cons c xs)
  have "set_list u [] (fold shut xs (shut c h)) = set_list u [] (fold shut xs (set_list u xs (shut c h)))"
    by (simp add: fold_shut_set_list)
  also have "\<dots> = fold drop_conn xs (set_list u xs (shut c h))"
    by (rule Cons.IH) (use Cons.prems in \<open>simp_all add: set_list_def\<close>)
  also have "set_list u xs (shut c h) = drop_conn c h" using Cons.prems by (simp add: drop_conn_def)
  finally show ?case by simp
qed

lemma drops_ok:
  assumes "conns_ok R h" "calls_told R h" "presence_told f h" "hb_clients h u = xs"
  shows "conns_ok R (fold drop_conn xs h) \<and> calls_told R (fold drop_conn xs h) \<and> presence_told f (fold drop_conn xs h) \<and>
    hb_clients (fold drop_conn xs h) = (hb_clients h)(u := [])"
  using assms
proof (induction xs arbitrary: h)
  case Nil
  then show ?case by (simp add: fun_upd_idem)
next
  case (Cons c xs)
  have c: "c \<in> set (hb_clients h u)" "cn_User c = u" using Cons.prems(4) conns_okD(3) [OF Cons.prems(1), of c u] by simp_all
  have "conns_ok R (drop_conn c h)" "calls_told R (drop_conn c h)" "presence_told f (drop_conn c h)" "hb_clients (drop_conn c h) u = xs"
    using drop_conns_ok [OF Cons.prems(1) c(1)] drop_calls_told [OF Cons.prems(1,2) c(1)] Cons.prems(3,4) c(2) by simp_all
  from Cons.IH [OF this] show ?case using c(2) by (auto simp: fun_eq_iff)
qed

lemma calls_told_late:
  assumes "calls_told R h" "\<And>c. count_list xs (CallsConnected c) = 0" "\<And>c. CallsDisconnected c \<notin> set xs"
  shows "calls_told R (leave_late (h, xs))"
  using assms by (simp add: calls_told_def count_notin)

lemma Disconnect_ok:
  assumes ok: "hub_ok R h"
  shows "hub_ok R (leave_late (Disconnect_section u h))"
proof -
  let ?xs = "hb_clients h u"
  let ?d = "set_list u [] (fold shut ?xs h)"
  have k: "conns_ok R h" "calls_told R h" "presence_told (\<lambda>v. Online v h) h" using ok by (simp_all add: hub_ok_def)
  have "\<forall>c \<in> set ?xs. cn_User c = u" using conns_okD(3) [OF k(1)] by blast
  from Hub_Disconnect_drops [OF this refl] drops_ok [OF k refl, of u]
  have d: "conns_ok R ?d" "calls_told R ?d" "presence_told (\<lambda>v. Online v h) ?d" "hb_clients ?d = (hb_clients h)(u := [])"
    by simp_all
  show ?thesis
  proof (cases "?xs = []")
    case True
    then have "leave_late (Disconnect_section u h) = h"
      by (simp add: Disconnect_section_def leave_late_def set_list_def fun_upd_idem)
    then show ?thesis using ok by simp
  next
    case False
    let ?e = "leave_late (?d, [PresenceHook u False])"
    have "presence_told ((\<lambda>v. Online v h)(u := False)) ?e"
    proof (rule presence_told_more [OF d(3)])
      fix x show "told x ?e = told x ?d + of_bool (x = PresenceHook u False)"
        by (cases "x = PresenceHook u False") simp_all
    qed (use False in \<open>simp add: Online_def\<close>)
    moreover have "(\<lambda>v. Online v h)(u := False) = (\<lambda>v. Online v ?e)"
      by (auto simp: Online_def d(4))
    ultimately show ?thesis using d False calls_told_late [OF d(2), of "[PresenceHook u False]"]
      by (simp add: Disconnect_section_def hub_ok_def Let_def)
  qed
qed

definition add_conn :: "Conn \<Rightarrow> hub \<Rightarrow> hub" where
  "add_conn c h = set_list (cn_User c) (hb_clients h (cn_User c) @ [c]) h"

lemma add_conn_simps [simp]:
  "hb_clients (add_conn c h) = (hb_clients h)(cn_User c := hb_clients h (cn_User c) @ [c])"
  "hb_closed (add_conn c h) = hb_closed h" "hb_panicked (add_conn c h) = hb_panicked h"
  "hb_late (add_conn c h) = hb_late h" "told x (add_conn c h) = told x h"
  "presence_told f (add_conn c h) = presence_told f h"
  by (simp_all add: add_conn_def set_list_def told_def presence_told_def)

lemma remove1_hd: "xs \<noteq> [] \<Longrightarrow> remove1 (hd xs) xs = tl xs"
  by (cases xs) simp_all

lemma add_ok:
  assumes "conns_ok R h" "c \<notin> set R" "length (hb_clients h (cn_User c)) < MaxDevices"
  shows "conns_ok (R @ [c]) (add_conn c h)"
proof -
  note k = conns_okD [OF assms(1)]
  have c: "c \<notin> set (hb_closed h)" "\<And>v. c \<notin> set (hb_clients h v)"
    using assms(1,2) k(5) by (auto simp: conns_ok_def)
  have R: "x \<in> set R \<longleftrightarrow> x \<in> set (hb_closed h) \<or> x \<in> set (hb_clients h (cn_User x))" for x
    using assms(1) by (simp add: conns_ok_def)
  show ?thesis
    unfolding conns_ok_def
  proof (intro conjI allI ballI)
    fix x show "x \<in> set (R @ [c]) \<longleftrightarrow> x \<in> set (hb_closed (add_conn c h)) \<or> x \<in> set (hb_clients (add_conn c h) (cn_User x))"
      using R [of x] by auto
  qed (use assms k c in \<open>auto simp: conns_ok_def split: if_splits\<close>)
qed

lemma calls_told_add:
  assumes "calls_told R h" "c \<notin> set R"
  shows "calls_told (R @ [c]) (leave_late (add_conn c h, (if b then [PresenceHook u d] else []) @ [CallsConnected c]))"
  using assms by (auto simp: calls_told_def)

lemma Register_ok:
  assumes ok: "hub_ok R h" and new: "c \<notin> set R"
  shows "hub_ok (R @ [c]) (leave_late (Register_section c h))"
proof -
  let ?u = "cn_User c" and ?xs = "hb_clients h (cn_User c)"
  have k: "conns_ok R h" "calls_told R h" "presence_told (\<lambda>v. Online v h) h" using ok by (simp_all add: hub_ok_def)
  define h1 where "h1 = (if length ?xs = MaxDevices then drop_conn (hd ?xs) h else h)"
  have old: "hd ?xs \<in> set ?xs \<and> cn_User (hd ?xs) = ?u" if "length ?xs = MaxDevices"
  proof -
    have "?xs \<noteq> []" using that by (auto simp: MaxDevices_def)
    then show ?thesis using conns_okD(3) [OF k(1)] by simp
  qed
  have 1: "conns_ok R h1" "calls_told R h1" "presence_told (\<lambda>v. Online v h) h1"
    using k drop_conns_ok [OF k(1)] drop_calls_told [OF k(1,2)] old by (auto simp: h1_def)
  define ys where "ys = hb_clients h1 ?u"
  have ys: "length ys < MaxDevices" "ys = (if length ?xs = MaxDevices then tl ?xs else ?xs)"
    "\<And>v. v \<noteq> ?u \<Longrightarrow> hb_clients h1 v = hb_clients h v"
    using old conns_okD(2) [OF k(1), of ?u]
    by (auto simp: ys_def h1_def MaxDevices_def) (cases ?xs; simp)+
  let ?late = "(if ?xs = [] then [PresenceHook ?u True] else []) @ [CallsConnected c]"
  have reg: "Register_section c h = (add_conn c h1, ?late)"
  proof (cases "length ?xs = MaxDevices")
    case True
    then have "?xs \<noteq> []" by (auto simp: MaxDevices_def)
    then have "hd (?xs @ [c]) = hd ?xs" "tl (?xs @ [c]) = tl ?xs @ [c]" "remove1 (hd ?xs) ?xs = tl ?xs" by (simp_all add: remove1_hd)
    with True old show ?thesis
      by (simp add: Register_section_def h1_def drop_conn_def add_conn_def set_list_def shut_def Let_def)
  next
    case False
    with conns_okD(2) [OF k(1), of ?u] show ?thesis
      by (simp add: Register_section_def h1_def add_conn_def set_list_def Let_def)
  qed
  let ?h = "leave_late (add_conn c h1, ?late)"
  have 2: "conns_ok (R @ [c]) ?h" "calls_told (R @ [c]) ?h"
    using add_ok [OF 1(1) new ys(1) [unfolded ys_def]] calls_told_add [OF 1(2) new] by simp_all
  have on: "(\<lambda>v. Online v h)(?u := True) = (\<lambda>v. Online v ?h)"
    using ys(3) by (auto simp: Online_def fun_eq_iff)
  have "presence_told (\<lambda>v. Online v ?h) ?h"
  proof (cases "?xs = []")
    case True
    have p: "presence_told (\<lambda>v. Online v h) (leave_late (h1, [CallsConnected c]))"
      using 1(3) by (simp add: presence_told_def)
    have "presence_told ((\<lambda>v. Online v h)(?u := True)) ?h"
    proof (rule presence_told_more [OF p])
      fix x show "told x ?h = told x (leave_late (h1, [CallsConnected c])) + of_bool (x = PresenceHook ?u True)"
        using True by (cases "x = PresenceHook ?u True") simp_all
    qed (use True in \<open>simp add: Online_def\<close>)
    with on show ?thesis by simp
  next
    case False
    then have "(\<lambda>v. Online v h)(?u := True) = (\<lambda>v. Online v h)" by (intro ext) (simp add: Online_def)
    moreover have "presence_told f ?h = presence_told f h1" for f
      by (rule presence_told_same) (use False in simp)
    ultimately show ?thesis using 1(3) on by simp
  qed
  with 2 show ?thesis by (simp add: reg hub_ok_def)
qed

lemma start_late_simps [simp]:
  "hb_clients (start_late k h) = hb_clients h" "hb_closed (start_late k h) = hb_closed h" "hb_panicked (start_late k h) = hb_panicked h"
  "hb_buffer (start_late k h) = hb_buffer h"
  by (simp_all add: start_late_def)

lemma told_start_late [simp]: "told x (start_late k h) = told x h"
proof (cases "k < length (hb_late h)")
  case True
  have "count_list (hb_late h) x = count_list (take k (hb_late h)) x + count_list [hb_late h ! k] x + count_list (drop (Suc k) (hb_late h)) x"
    using arg_cong [OF id_take_nth_drop [OF True], of "\<lambda>xs. count_list xs x"] by simp
  with True show ?thesis by (simp add: start_late_def start_hooks_def told_def)
qed (simp add: start_late_def)

lemma set_start_late: "set (hb_late (start_late k h)) \<subseteq> set (hb_late h)"
  by (auto simp: start_late_def dest: in_set_takeD in_set_dropD)

lemma start_late_ok: "hub_ok R h \<Longrightarrow> hub_ok R (start_late k h)"
  using set_start_late [of k h] by (auto simp: hub_ok_def conns_ok_def calls_told_def presence_told_def Online_def)

text \<open>What sending does: it fills buffers, and nothing else.\<close>

lemma hub_ok_buffer [simp]: "hub_ok R (h\<lparr>hb_buffer := b\<rparr>) = hub_ok R h"
  by (simp add: hub_ok_def conns_ok_def calls_told_def presence_told_def told_def Online_def)

lemma offer_open: "c \<notin> set (hb_closed h) \<Longrightarrow> \<exists>b. snd (offer ev c h) = h\<lparr>hb_buffer := b\<rparr>"
  by (auto simp: offer_def intro: exI [of _ "hb_buffer h"])

lemma offer_all_open:
  "\<forall>c \<in> set cs. c \<notin> set (hb_closed h) \<Longrightarrow> \<exists>b. snd (offer_all ev cs h) = h\<lparr>hb_buffer := b\<rparr>"
proof (induction cs arbitrary: h)
  case Nil
  then show ?case by (auto intro: exI [of _ "hb_buffer h"])
next
  case (Cons c cs)
  then obtain b where b: "snd (offer ev c h) = h\<lparr>hb_buffer := b\<rparr>" using offer_open [of c h ev] by auto
  with Cons.IH [of "h\<lparr>hb_buffer := b\<rparr>"] Cons.prems obtain b' where
    "snd (offer_all ev cs (h\<lparr>hb_buffer := b\<rparr>)) = h\<lparr>hb_buffer := b\<rparr>\<lparr>hb_buffer := b'\<rparr>" by auto
  with b show ?case by (auto split: prod.splits)
qed

lemma clients_open:
  assumes "hub_ok R h" "c \<in> set (hb_clients h u)"
  shows "c \<notin> set (hb_closed h)"
  using assms(1) conns_okD(4) [of R, OF _ assms(2)] by (simp add: hub_ok_def)

lemma sending_ok:
  assumes "hub_ok R h" "\<forall>c \<in> set cs. \<exists>u. c \<in> set (hb_clients h u)"
  shows "hub_ok R (snd (offer_all ev cs h))"
proof -
  have "\<forall>c \<in> set cs. c \<notin> set (hb_closed h)" using assms clients_open by blast
  from offer_all_open [OF this, of ev] assms(1) show ?thesis by auto
qed

lemma exec_ok:
  assumes "hub_ok R h" "distinct (R @ registered [x])"
  shows "hub_ok (R @ registered [x]) (hub_exec x h)"
proof (cases x)
  case (HSendTo c ev)
  have "hub_ok R (snd (SendToConn_section c ev h))"
  proof (cases "filter (\<lambda>x. cn_ID x = cn_ID c) (hb_clients h (cn_User c))")
    case (Cons y ys)
    then have "last (y # ys) \<in> set (hb_clients h (cn_User c))"
      by (metis filter_is_subset last_in_set list.distinct(1) subsetD)
    from offer_open [OF clients_open [OF assms(1) this], of ev] assms(1) Cons show ?thesis
      by (auto simp: SendToConn_section_def split: prod.splits)
  qed (use assms(1) in \<open>simp add: SendToConn_section_def\<close>)
  with HSendTo show ?thesis by simp
next
  case (HSend targets ev)
  with sending_ok [OF assms(1), of "concat (map (hb_clients h) targets)" ev] show ?thesis by (auto simp: send_section_def)
next
  case (HExcept u except ev)
  with sending_ok [OF assms(1), of "filter (\<lambda>c. cn_ID c \<noteq> except) (hb_clients h u)" ev] show ?thesis by (auto simp: WriteToUserExcept_def)
qed (use assms in \<open>simp_all add: Register_ok remove_ok Disconnect_ok start_late_ok pump_def\<close>)

lemma registered_append: "registered (xs @ ys) = registered xs @ registered ys"
  by (induction xs rule: registered.induct) simp_all

lemma hub_run_ok:
  assumes "distinct (registered xs)"
  shows "hub_ok (registered xs) (hub_run xs NewHub)"
  using assms
proof (induction xs rule: rev_induct)
  case Nil
  then show ?case by (simp add: hub_run_def hub_ok_new)
next
  case (snoc x xs)
  then show ?case
    using exec_ok [of "registered xs" "hub_run xs NewHub" x] by (simp add: registered_append hub_run_def)
qed

section \<open>Every interleaving\<close>

lemma count_list_distinct: "distinct xs \<Longrightarrow> count_list xs x = (if x \<in> set xs then 1 else 0)"
  by (induction xs) (auto simp: count_list_0_iff)

text \<open>
  C13: However registrations, disconnects, events, slow readers and the hooks that calls start after they left
  the lock interleave, the hub never sends on or closes a closed channel; nobody has more than five
  connections; each connection is either open or closed once; of each, calls is told once that it connected,
  and that it went once as soon as it was closed and not before; and who is online was
  told so to presence once more often than offline, everybody else as often, when the hooks still to be
  started are counted in. Nothing is said of the order in which the hooks start.
\<close>

theorem hub_invariant:
  assumes "distinct (registered run)"
  defines "h \<equiv> hub_run run NewHub"
  shows "\<not> hb_panicked h \<and> (\<forall>u. length (hb_clients h u) \<le> MaxDevices \<and> distinct (hb_clients h u)) \<and>
    (\<forall>c \<in> set (registered run). if c \<in> set (hb_clients h (cn_User c)) then count_list (hb_closed h) c = 0 else count_list (hb_closed h) c = 1) \<and>
    (\<forall>c. told (CallsConnected c) h = of_bool (c \<in> set (registered run)) \<and>
       count_list (hb_hooks h) (CallsDisconnected c) = count_list (hb_closed h) c) \<and>
    (\<forall>u. told (PresenceHook u True) h = told (PresenceHook u False) h + of_bool (Online u h))"
proof -
  have ok: "hub_ok (registered run) h" unfolding h_def by (rule hub_run_ok [OF assms(1)])
  then have c: "conns_ok (registered run) h" by (simp add: hub_ok_def)
  have count: "count_list (hb_closed h) x = (if x \<in> set (hb_closed h) then 1 else 0)" for x
    using c by (simp add: conns_ok_def count_list_distinct)
  have mem: "x \<in> set (hb_closed h) \<longleftrightarrow> x \<notin> set (hb_clients h (cn_User x))" if "x \<in> set (registered run)" for x
    using that c conns_okD(4) [OF c] unfolding conns_ok_def by blast
  have calls: "told (CallsConnected x) h = of_bool (x \<in> set (registered run))"
    "count_list (hb_hooks h) (CallsDisconnected x) = of_bool (x \<in> set (hb_closed h))" for x
    using ok unfolding hub_ok_def calls_told_def told_def by (metis count_notin add.right_neutral)+
  have "if x \<in> set (hb_clients h (cn_User x)) then count_list (hb_closed h) x = 0 else count_list (hb_closed h) x = 1"
    if x: "x \<in> set (registered run)" for x
    using mem [OF x] by (simp add: count)
  moreover have "\<not> hb_panicked h" "\<forall>u. length (hb_clients h u) \<le> MaxDevices \<and> distinct (hb_clients h u)"
    "\<forall>u. told (PresenceHook u True) h = told (PresenceHook u False) h + of_bool (Online u h)"
    using ok unfolding hub_ok_def presence_told_def conns_ok_def by simp_all
  moreover have "count_list (hb_hooks h) (CallsDisconnected x) = count_list (hb_closed h) x" for x by (simp add: calls(2) count)
  ultimately show ?thesis using calls(1) by blast
qed

text \<open>A phone connects and is cut off at once, before either call has started its hooks; then they start, the later ones first.\<close>

definition phone :: Conn where "phone = \<lparr>cn_User = 1, cn_ID = 7\<rparr>"

theorem hub_invariant_witness:
  "let h = hub_run [HRegister phone, HDisconnect 1, HRemove phone, HHook 2, HHook 1, HHook 0] NewHub in
   \<not> hb_panicked h \<and> hb_closed h = [phone] \<and>
   hb_hooks h = [CallsDisconnected phone, PresenceHook 1 False, CallsConnected phone, PresenceHook 1 True]"
proof -
  let ?r = "[HRegister phone, HDisconnect 1, HRemove phone, HHook 2, HHook 1, HHook 0]"
  have "distinct (registered ?r)" by simp
  from conjunct1 [OF hub_invariant [OF this]] show ?thesis
    by (simp add: hub_run_def Register_section_def leave_late_def start_late_def start_hooks_def remove_conn_def Disconnect_section_def
        NewHub_def set_list_def shut_def phone_def MaxDevices_def Let_def)
qed

section \<open>Delivery\<close>

definition has_room :: "hub \<Rightarrow> Conn \<Rightarrow> bool" where
  "has_room h c \<longleftrightarrow> length (hb_buffer h c) < sendBuffer"

lemma offer_all_each:
  assumes "distinct cs" "\<forall>c \<in> set cs. c \<notin> set (hb_closed h)"
  shows "offer_all ev cs h = (filter (\<lambda>c. \<not> has_room h c) cs,
    h\<lparr>hb_buffer := \<lambda>c. if c \<in> set cs \<and> has_room h c then hb_buffer h c @ [ev] else hb_buffer h c\<rparr>)"
  using assms
proof (induction cs arbitrary: h)
  case (Cons c cs)
  let ?h = "snd (offer ev c h)"
  have o: "offer ev c h = (has_room h c, h\<lparr>hb_buffer := \<lambda>x. if x = c \<and> has_room h c then hb_buffer h x @ [ev] else hb_buffer h x\<rparr>)"
    using Cons.prems(2) by (auto simp: offer_def has_room_def fun_upd_def fun_eq_iff intro!: arg_cong [of _ _ "\<lambda>b. h\<lparr>hb_buffer := b\<rparr>"])
  have room: "has_room ?h x \<longleftrightarrow> has_room h x" if "x \<in> set cs" for x
    using that Cons.prems(1) by (auto simp: o has_room_def)
  have "offer_all ev cs ?h = (filter (\<lambda>c. \<not> has_room ?h c) cs,
      ?h\<lparr>hb_buffer := \<lambda>c. if c \<in> set cs \<and> has_room ?h c then hb_buffer ?h c @ [ev] else hb_buffer ?h c\<rparr>)"
    by (rule Cons.IH) (use Cons.prems in \<open>simp_all add: o\<close>)
  moreover have "filter (\<lambda>c. \<not> has_room ?h c) cs = filter (\<lambda>c. \<not> has_room h c) cs" using room by (auto intro: filter_cong)
  moreover have "(\<lambda>x. if x \<in> set cs \<and> has_room ?h x then hb_buffer ?h x @ [ev] else hb_buffer ?h x) =
      (\<lambda>x. if x \<in> set (c # cs) \<and> has_room h x then hb_buffer h x @ [ev] else hb_buffer h x)"
    using room Cons.prems(1) by (auto simp: o fun_eq_iff)
  ultimately show ?case by (simp add: o)
qed simp

lemma remove_conn_clients:
  assumes "hub_ok R h"
  shows "hb_clients (remove_conn c h) u = filter (\<lambda>x. x \<noteq> c) (hb_clients h u)"
proof -
  have k: "conns_ok R h" using assms by (simp add: hub_ok_def)
  have other: "filter (\<lambda>x. x \<noteq> c) (hb_clients h v) = hb_clients h v" if "c \<notin> set (hb_clients h v)" for v
    using that by (auto simp: filter_id_conv)
  have "c \<notin> set (hb_clients h u)" if "u \<noteq> cn_User c" using that conns_okD(3) [OF k] by blast
  moreover have "remove1 c (hb_clients h v) = filter (\<lambda>x. x \<noteq> c) (hb_clients h v)" for v
    using conns_okD(1) [OF k, of v] by (simp add: distinct_remove1_removeAll removeAll_filter_not_eq eq_commute)
  ultimately show ?thesis using other by (auto simp: remove_conn_drop Let_def)
qed

lemma remove_conn_buffer [simp]: "hb_buffer (remove_conn c h) = hb_buffer h"
  by (simp add: remove_conn_drop changed_def Let_def)

lemma removals:
  assumes "hub_ok R h"
  shows "hb_clients (fold remove_conn slow h) u = filter (\<lambda>x. x \<notin> set slow) (hb_clients h u) \<and>
    hb_buffer (fold remove_conn slow h) = hb_buffer h"
  using assms
proof (induction slow arbitrary: h)
  case (Cons c cs)
  from Cons.IH [OF remove_ok [OF Cons.prems, of c]] show ?case
    by (simp add: remove_conn_clients [OF Cons.prems] conj_commute)
qed simp

text \<open>What was closed stays closed, and a connection that was to be removed is closed in the end.\<close>

lemma fold_shut_closed [simp]: "hb_closed (fold shut xs h) = hb_closed h @ xs"
  by (induction xs arbitrary: h) (simp_all add: shut_def)

lemma offer_closed [simp]: "hb_closed (snd (offer ev c h)) = hb_closed h"
  by (simp add: offer_def)

lemma offer_all_closed [simp]: "hb_closed (snd (offer_all ev cs h)) = hb_closed h"
  by (induction cs arbitrary: h) (simp_all add: case_prod_beta)

lemma exec_closed: "set (hb_closed h) \<subseteq> set (hb_closed (hub_exec x h))"
  by (cases x) (auto simp: Register_section_def Disconnect_section_def leave_late_def set_list_def shut_def remove_conn_drop
      changed_def send_section_def SendToConn_section_def WriteToUserExcept_def pump_def Let_def case_prod_beta split: list.splits)

lemma run_closed: "set (hb_closed h) \<subseteq> set (hb_closed (hub_run xs h))"
  by (induction xs arbitrary: h) (use exec_closed in \<open>force simp: hub_run_def\<close>)+

lemma registered_middle: "distinct (registered (run @ xs @ ys)) \<Longrightarrow> distinct (registered (run @ xs))"
  by (auto simp: registered_append)

lemma removed_is_closed:
  assumes "distinct (registered (run @ mid))" "c \<in> set (registered run)" "HRemove c \<in> set mid"
  shows "c \<in> set (hb_closed (hub_run (run @ mid) NewHub)) \<and> c \<notin> set (hb_clients (hub_run (run @ mid) NewHub) u)"
proof -
  from assms(3) obtain xs ys where mid: "mid = xs @ HRemove c # ys" by (meson split_list)
  have run: "hub_run (as @ bs) h = hub_run bs (hub_run as h)" for as bs h by (simp add: hub_run_def)
  let ?h = "hub_run (run @ xs @ [HRemove c]) NewHub"
  have reg: "registered (run @ xs @ [HRemove c]) = registered (run @ xs)" by (simp add: registered_append)
  have d: "distinct (registered (run @ xs))" using assms(1) unfolding mid by (rule registered_middle)
  have "distinct (registered (run @ xs @ [HRemove c]))" "c \<in> set (registered (run @ xs @ [HRemove c]))"
    using d assms(2) unfolding reg by (simp_all add: registered_append)
  moreover from this(1) have ok: "hub_ok (registered (run @ xs @ [HRemove c])) ?h" by (rule hub_run_ok)
  moreover have "c \<notin> set (hb_clients ?h (cn_User c))"
  proof -
    have "hub_ok (registered (run @ xs)) (hub_run (run @ xs) NewHub)"
      by (rule hub_run_ok [OF d])
    then show ?thesis using conns_okD(1) [of _ "hub_run (run @ xs) NewHub" "cn_User c"]
      by (auto simp: hub_run_def remove_conn_drop Let_def hub_ok_def)
  qed
  ultimately have "c \<in> set (hb_closed ?h)" unfolding hub_ok_def conns_ok_def by blast
  then have "c \<in> set (hb_closed (hub_run (run @ mid) NewHub))" using run_closed [of ?h ys] by (auto simp: mid run [symmetric])
  moreover have "hub_ok (registered (run @ mid)) (hub_run (run @ mid) NewHub)" by (rule hub_run_ok [OF assms(1)])
  ultimately show ?thesis using conns_okD(4) by (auto simp: hub_ok_def)
qed

lemma targets_distinct:
  assumes "conns_ok R h" "distinct targets"
  shows "distinct (concat (map (hb_clients h) targets))"
  using assms(2)
proof (induction targets)
  case (Cons u us)
  note k = conns_okD [OF assms(1)]
  have "set (hb_clients h u) \<inter> (\<Union>v \<in> set us. set (hb_clients h v)) = {}"
  proof (rule ccontr)
    assume "\<not> ?thesis"
    then obtain c v where "c \<in> set (hb_clients h u)" "c \<in> set (hb_clients h v)" "v \<in> set us" by blast
    moreover from this have "cn_User c = u" "cn_User c = v" using k(3) by blast+
    ultimately show False using Cons.prems by simp
  qed
  with Cons k(1) show ?case by simp
qed simp

text \<open>
  C25: An event for some users reaches each of their connections exactly once, behind what was sent to it
  before, or that connection is closed and gone, when it is 256 events behind, as soon as the call has made its
  removals, whatever other calls do between its sections; so nobody stays connected who missed one.
  Other connections are sent nothing; and if nothing comes between, all others stay.
\<close>

theorem event_reaches_or_disconnects:
  fixes ev
  assumes "distinct (registered (run @ mid))" "distinct targets"
  defines "h \<equiv> hub_run run NewHub" and "slow \<equiv> fst (send_section ev targets (hub_run run NewHub))"
    and "h1 \<equiv> snd (send_section ev targets (hub_run run NewHub))"
    and "h2 \<equiv> hub_run mid (snd (send_section ev targets (hub_run run NewHub)))"
  assumes "\<forall>c \<in> set slow. HRemove c \<in> set mid"
  shows "(\<forall>u. \<forall>c \<in> set (hb_clients h u). if u \<in> set targets \<and> 256 \<le> length (hb_buffer h c)
       then c \<in> set (hb_closed h2) \<and> c \<notin> set (hb_clients h2 u)
       else hb_buffer h1 c = hb_buffer h c @ (if u \<in> set targets then [ev] else [])) \<and>
    (\<forall>u. hb_clients (hub_WriteToUsers targets ev h) u =
       (if u \<in> set targets then filter (\<lambda>c. length (hb_buffer h c) < 256) (hb_clients h u) else hb_clients h u))"
proof -
  have reg: "distinct (registered run)" using assms(1) by (simp add: registered_append)
  have ok: "hub_ok (registered run) h" unfolding h_def by (rule hub_run_ok [OF reg])
  then have k: "conns_ok (registered run) h" by (simp add: hub_ok_def)
  let ?cs = "concat (map (hb_clients h) targets)"
  have mem: "c \<in> set ?cs \<longleftrightarrow> u \<in> set targets" if "c \<in> set (hb_clients h u)" for c u
    using that conns_okD(3) [OF k] by auto
  have "\<forall>c \<in> set ?cs. c \<notin> set (hb_closed h)" using conns_okD(4) [OF k] by auto
  note off = offer_all_each [OF targets_distinct [OF k assms(2)] this, of ev]
  let ?g = "h\<lparr>hb_buffer := \<lambda>c. if c \<in> set ?cs \<and> has_room h c then hb_buffer h c @ [ev] else hb_buffer h c\<rparr>"
  have sec: "slow = filter (\<lambda>c. \<not> has_room h c) ?cs" "h1 = ?g"
    by (simp_all add: slow_def h1_def send_section_def off flip: h_def)
  have room: "has_room h c \<longleftrightarrow> length (hb_buffer h c) < 256" for c by (simp add: has_room_def sendBuffer_def)
  have h2: "h2 = hub_run (run @ [HSend targets ev] @ mid) NewHub" by (simp add: h2_def hub_run_def)
  have closed: "c \<in> set (hb_closed h2) \<and> c \<notin> set (hb_clients h2 u)" if c: "c \<in> set slow" for c u
  proof -
    have "c \<in> set (registered run)" using c conns_okD(5) [OF k] by (auto simp: sec)
    with removed_is_closed [of "run @ [HSend targets ev]" mid c u] assms(1,7) c show ?thesis
      by (simp add: h2 registered_append)
  qed
  have "hub_ok (registered run) ?g" using ok by simp
  note rem = removals [OF this, of slow]
  have "hb_clients (hub_WriteToUsers targets ev h) u =
      (if u \<in> set targets then filter (\<lambda>c. length (hb_buffer h c) < 256) (hb_clients h u) else hb_clients h u)" for u
    using rem [of u] mem by (auto simp: hub_WriteToUsers_def send_section_def off room sec(1) intro!: filter_cong filter_True)
  moreover have "if u \<in> set targets \<and> 256 \<le> length (hb_buffer h c)
      then c \<in> set (hb_closed h2) \<and> c \<notin> set (hb_clients h2 u)
      else hb_buffer h1 c = hb_buffer h c @ (if u \<in> set targets then [ev] else [])" if c: "c \<in> set (hb_clients h u)" for c u
    using mem [OF c] closed [of c u] by (auto simp: sec room)
  ultimately show ?thesis by blast
qed

theorem event_reaches_or_disconnects_witness:
  "hb_buffer (snd (send_section (Event EventTyping (OutGoingEventForTyping 2 None)) [1] (hub_run [HRegister phone] NewHub))) phone =
   [Event EventTyping (OutGoingEventForTyping 2 None)]"
proof -
  have "hb_clients (hub_run [HRegister phone] NewHub) 1 = [phone]" "hb_buffer (hub_run [HRegister phone] NewHub) phone = []"
    "hb_closed (hub_run [HRegister phone] NewHub) = []"
    by (simp_all add: hub_run_def Register_section_def leave_late_def NewHub_def set_list_def phone_def MaxDevices_def Let_def)
  moreover from this have "fst (send_section (Event EventTyping (OutGoingEventForTyping 2 None)) [1] (hub_run [HRegister phone] NewHub)) = []"
    by (simp add: send_section_def offer_def sendBuffer_def)
  ultimately show ?thesis
    using event_reaches_or_disconnects [of "[HRegister phone]" "[]" "[1]" "Event EventTyping (OutGoingEventForTyping 2 None)"]
    by (auto dest!: spec [of _ 1])
qed

section \<open>Typing\<close>

text \<open>After 257 other chats the throttle has forgotten when somebody typed last, and lets them type at once.\<close>

lemma allowTyping_spaces:
  assumes "length xs \<le> 256" "map_of xs to = Some t" "now - t < typingInterval"
  shows "allowTyping to now xs = (False, xs)"
  using assms by (simp add: allowTyping_def)

lemma throttle_forgets:
  assumes "length xs > 256" "to \<notin> fst ` set xs"
  shows "\<exists>ys. allowTyping to now xs = (True, ys) \<and> (\<forall>c. c \<noteq> to \<longrightarrow> fst (allowTyping c now ys))"
proof -
  have "map_of xs to = None" using assms(2) by (simp add: map_of_eq_None_iff)
  with assms(1) show ?thesis by (auto simp: allowTyping_def)
qed

text \<open>What a client sends over the socket goes only where the policy of chat lets it.\<close>

lemma typing_goes_to_friends:
  assumes "handleEvent e c now ev xs = (Relay targets out, ys)" "t \<in> set targets"
  shows "(\<exists>m. ie_Target ev = Some (t, m) \<and> ch_friends e (cn_User c) t = Some True) \<or>
    (\<exists>g ms. ie_Target ev = Some (g, ''public'') \<and> ch_members e g = Inr ms \<and> cn_User c \<in> set ms \<and> t \<in> set ms \<and> t \<noteq> cn_User c)"
  using assms
  by (auto simp: handleEvent_def handleTyping_def TypingTargets_def from_groups_def split: if_splits option.splits prod.splits bool.splits sum.splits fail.splits)

end
