(* ===== verification/Media.thy ===== *)
theory Media
  imports Media_DB Chat Http
begin

text \<open>
  \<^verbatim>\<open>media/media.go\<close>, \<^verbatim>\<open>media/files.go\<close>, the sizes of \<^verbatim>\<open>media/thumb.go\<close> and the handlers. The object store
  is a map from keys to sizes; the phone's upload through a link is a step of its own.
\<close>

section \<open>Limits\<close>

definition MB :: int where "MB = 1048576"

definition MaxImageBytes :: int where "MaxImageBytes = 5 * MB"
definition MaxVideoBytes :: int where "MaxVideoBytes = 100 * MB"
definition MaxFileBytes :: int where "MaxFileBytes = 100 * MB"
definition MaxVoiceBytes :: int where "MaxVoiceBytes = 10 * MB"
definition DailyUserBytes :: int where "DailyUserBytes = 300 * MB"
definition DailyUserFiles :: int where "DailyUserFiles = 300"
definition MaxPerMessage :: nat where "MaxPerMessage = 10"
definition LargeBytes :: int where "LargeBytes = 16 * MB"
definition maxSmallVideoMs :: int where "maxSmallVideoMs = 3 * 60000 + 5000"
definition maxLargeVideoMs :: int where "maxLargeVideoMs = 10 * 60000 + 5000"
definition maxVoiceMs :: int where "maxVoiceMs = 15 * 60000 + 5000"
definition maxWaveform :: nat where "maxWaveform = 128"
definition uploadCapBytes :: int where "uploadCapBytes = 9500 * MB"
definition lruHighBytes :: int where "lruHighBytes = 9 * 1024 * MB"
definition lruLowBytes :: int where "lruLowBytes = 8 * 1024 * MB"
definition maxLifetime :: duration where "maxLifetime = 7 * 24 * hour"
definition largeLifetime :: duration where "largeLifetime = 24 * hour"
definition keepAfterAll :: duration where "keepAfterAll = 24 * hour"
definition pendingTTL :: duration where "pendingTTL = hour"
definition uploadTTL :: duration where "uploadTTL = 10 * minute"
definition downloadTTL :: duration where "downloadTTL = 5 * minute"
definition trackGroupsUpTo :: nat where "trackGroupsUpTo = 50"

datatype media_err =
    ErrDisabled | ErrBadMedia | ErrBadFile | ErrDailyQuota | ErrStorageFull | ErrNotFoundMedia | ErrExpired
  | ErrBadAttachment | ErrNotVideo | ErrThumbnailSet | ErrForwardExpired | ErrBadThumbnail

section \<open>File names\<close>

definition fileTypes :: "(string \<times> string list) list" where
  "fileTypes = [
     (''pdf'', [''application/pdf'']),
     (''doc'', [''application/msword'']),
     (''docx'', [''application/vnd.openxmlformats-officedocument.wordprocessingml.document'']),
     (''xls'', [''application/vnd.ms-excel'']),
     (''xlsx'', [''application/vnd.openxmlformats-officedocument.spreadsheetml.sheet'']),
     (''ppt'', [''application/vnd.ms-powerpoint'']),
     (''pptx'', [''application/vnd.openxmlformats-officedocument.presentationml.presentation'']),
     (''odt'', [''application/vnd.oasis.opendocument.text'']),
     (''ods'', [''application/vnd.oasis.opendocument.spreadsheet'']),
     (''odp'', [''application/vnd.oasis.opendocument.presentation'']),
     (''rtf'', [''application/rtf'', ''text/rtf'']),
     (''txt'', [''text/plain'']),
     (''csv'', [''text/csv'', ''text/comma-separated-values'']),
     (''md'', [''text/markdown'', ''text/plain'']),
     (''epub'', [''application/epub+zip'']),
     (''zip'', [''application/zip'', ''application/x-zip-compressed'']),
     (''7z'', [''application/x-7z-compressed'']),
     (''rar'', [''application/vnd.rar'', ''application/x-rar-compressed'']),
     (''mp3'', [''audio/mpeg'']),
     (''m4a'', [''audio/mp4'', ''audio/x-m4a'']),
     (''ogg'', [''audio/ogg'']),
     (''opus'', [''audio/ogg'', ''audio/opus'']),
     (''wav'', [''audio/wav'', ''audio/x-wav'']),
     (''aac'', [''audio/aac''])]"

definition maxFileName :: nat where "maxFileName = 200"

text \<open>\<^verbatim>\<open>path.Base\<close>.\<close>

definition path_Base :: "string \<Rightarrow> string" where
  "path_Base s =
     (if s = [] then ''.''
      else let t = rev (takeWhile (\<lambda>c. c \<noteq> CHR ''/'') (dropWhile (\<lambda>c. c = CHR ''/'') (rev s))) in
        if t = [] then ''/'' else t)"

text \<open>\<^verbatim>\<open>unicode.IsControl\<close>, and \<^verbatim>\<open>unicode.Cf\<close> of Unicode 15.\<close>

definition IsControl :: "nat \<Rightarrow> bool" where
  "IsControl r \<longleftrightarrow> r < 0x20 \<or> 0x7F \<le> r \<and> r \<le> 0x9F"

definition IsFormat :: "nat \<Rightarrow> bool" where
  "IsFormat r \<longleftrightarrow> r \<in> {0xAD, 0x61C, 0x6DD, 0x70F, 0x8E2, 0x180E, 0xFEFF, 0x110BD, 0x110CD, 0xE0001} \<or>
     list_ex (\<lambda>(lo, hi). lo \<le> r \<and> r \<le> hi) [(0x600, 0x605), (0x890, 0x891), (0x200B, 0x200F), (0x202A, 0x202E),
       (0x2060, 0x2064), (0x2066, 0x206F), (0xFFF9, 0xFFFB), (0x13430, 0x1343F), (0x1BCA0, 0x1BCA3), (0x1D173, 0x1D17A),
       (0xE0020, 0xE007F)]"

text \<open>\<^verbatim>\<open>strings.Map\<close> with a mapping that drops runes: bytes that are not UTF-8 become U+FFFD.\<close>

definition drop_runes :: "(nat \<Rightarrow> bool) \<Rightarrow> string \<Rightarrow> string" where
  "drop_runes bad s = concat (map (\<lambda>(r, w). if bad r then [] else if r = 0xFFFD then [CHR 0xEF, CHR 0xBF, CHR 0xBD] else w) (chunks s))"

definition bad_in_names :: "nat \<Rightarrow> bool" where
  "bad_in_names r \<longleftrightarrow> IsControl r \<or> IsFormat r \<or> r = 0x22 \<or> r = 0x2F"

definition extension_of :: "string \<Rightarrow> string" where
  "extension_of s = rev (takeWhile (\<lambda>c. c \<noteq> CHR ''.'') (rev s))"

definition cleanFileName :: "(string \<Rightarrow> string) \<Rightarrow> string \<Rightarrow> string \<Rightarrow> string option" where
  "cleanFileName ToLower name0 contentType =
     (let name = TrimSpace (drop_runes bad_in_names
        (path_Base (map (\<lambda>c. if c = CHR 0x5C then CHR ''/'' else c) name0))) in
      if name = [] \<or> name = ''.'' \<or> name = ''..'' \<or> RuneCountInString name > maxFileName then None
      else if CHR ''.'' \<notin> set name then None
      else (let ext = extension_of name; dot = length name - length ext - 1 in
        if dot = 0 \<or> ext = [] then None
        else (case map_of fileTypes (ToLower ext) of
            None \<Rightarrow> None | Some types \<Rightarrow> if contentType \<in> set types then Some name else None)))"

section \<open>Voice messages\<close>

definition voiceTypes :: "string list" where
  "voiceTypes = [''audio/ogg'', ''audio/opus'', ''audio/webm'', ''audio/mp4'', ''audio/aac'', ''audio/x-m4a'', ''audio/mpeg'']"

text \<open>In JSON a waveform is \<open>null\<close> or an array of numbers.\<close>

datatype json_ints = JNull | JArray "int list"

definition Waveform_MarshalJSON :: "nat list \<Rightarrow> json_ints" where
  "Waveform_MarshalJSON w = (if w = [] then JNull else JArray (map int w))"

definition Waveform_UnmarshalJSON :: "json_ints \<Rightarrow> nat list option" where
  "Waveform_UnmarshalJSON raw =
     (let n = (case raw of JNull \<Rightarrow> [] | JArray xs \<Rightarrow> xs) in
      if length n > maxWaveform then None
      else if list_ex (\<lambda>v. v < 0 \<or> v > 255) n then None
      else Some (map nat n))"

section \<open>What is measured\<close>

definition allowedTypes :: "string \<Rightarrow> string list" where
  "allowedTypes kind =
     (if kind = ''image'' then [''image/jpeg'', ''image/png'', ''image/webp'', ''image/heic'']
      else if kind = ''video'' then [''video/mp4'', ''video/quicktime'', ''video/webm''] else [])"

record Dims =
  di_DurationMs :: int
  di_Width :: int
  di_Height :: int

definition Dims_ok :: "Dims \<Rightarrow> string \<Rightarrow> int \<Rightarrow> bool" where
  "Dims_ok d kind sz \<longleftrightarrow>
     (if di_Width d < 0 \<or> di_Height d < 0 \<or> di_Width d > 8192 \<or> di_Height d > 8192 \<or> di_DurationMs d < 0 then False
      else if kind = ''video'' then
        (if sz > LargeBytes then di_DurationMs d \<le> maxLargeVideoMs else di_DurationMs d \<le> maxSmallVideoMs)
      else if kind = ''image'' then di_DurationMs d = 0
      else if kind = ''voice'' then di_Width d = 0 \<and> di_Height d = 0 \<and> di_DurationMs d > 0 \<and> di_DurationMs d \<le> maxVoiceMs
      else d = \<lparr>di_DurationMs = 0, di_Width = 0, di_Height = 0\<rparr>)"

record NewUploadRequest =
  nu_Kind :: string
  nu_ContentType :: string
  nu_Size :: int
  nu_FileName :: string
  nu_Waveform :: "nat list"
  nu_Dims :: Dims

definition optInt :: "int \<Rightarrow> int option" where
  "optInt n = (if n > 0 then Some n else None)"

definition int_of :: "int option \<Rightarrow> int" where
  "int_of x = (case x of None \<Rightarrow> 0 | Some n \<Rightarrow> n)"

text \<open>The part of \<^verbatim>\<open>NewUpload\<close> that looks at the request alone: the name to store, or the error.\<close>

definition check_upload :: "(string \<Rightarrow> string) \<Rightarrow> NewUploadRequest \<Rightarrow> media_err + string option" where
  "check_upload ToLower req =
     (let kind = nu_Kind req; ct = nu_ContentType req; sz = nu_Size req;
          first = (if kind = ''image'' then Inr (MaxImageBytes, None)
            else if kind = ''video'' then Inr (MaxVideoBytes, None)
            else if kind = ''voice'' then
              (if ct \<notin> set voiceTypes \<or> nu_FileName req \<noteq> [] then Inl ErrBadMedia else Inr (MaxVoiceBytes, None))
            else if kind = ''file'' then
              (case cleanFileName ToLower (nu_FileName req) ct of None \<Rightarrow> Inl ErrBadFile | Some n \<Rightarrow> Inr (MaxFileBytes, Some n))
            else Inl ErrBadMedia) in
      (case first of
         Inl err \<Rightarrow> Inl err
       | Inr (limit, name) \<Rightarrow>
           if (kind = ''image'' \<or> kind = ''video'') \<and> (ct \<notin> set (allowedTypes kind) \<or> nu_FileName req \<noteq> []) then Inl ErrBadMedia
           else if kind \<noteq> ''voice'' \<and> nu_Waveform req \<noteq> [] then Inl ErrBadMedia
           else if sz \<le> 0 \<or> sz > limit \<or> \<not> Dims_ok (nu_Dims req) kind sz then Inl ErrBadMedia
           else Inr name))"

section \<open>The service\<close>

datatype media_call =
    MUploaded | MCreated | MStored | MCreate | MPresign | MNewID | MGet uuid | MSize uuid | MAttach uuid | MForMessages
  | MExpire | MRecord | MCount | MDeliver | MVisible | MToDelete | MLru | MThumbnailsOf | MDelete string | MMark
  | MPut | MSetThumbnail | MCopy string

text \<open>
  \<open>me_members\<close>: \<^verbatim>\<open>groups.Members\<close>, or its failure. \<open>me_thumb\<close>: \<^verbatim>\<open>ProcessThumbnail\<close>, with the size of what
  it made.
\<close>

record media_env =
  me_fails :: "media_call \<Rightarrow> bool"
  me_now :: time
  me_id :: uuid
  me_members :: "uuid \<Rightarrow> uuid list option"
  me_thumb :: "string \<Rightarrow> int option"
  me_lower :: "string \<Rightarrow> string"

record media_sys =
  ms_db :: media_db
  ms_store :: "string \<Rightarrow> int option"
  ms_on :: bool

type_synonym 'a media_op = "(media_sys, media_err, 'a) op"

definition on_db :: "(media_db \<Rightarrow> dberr + media_db) \<Rightarrow> media_sys \<Rightarrow> dberr + media_sys" where
  "on_db q s = (case q (ms_db s) of Inl x \<Rightarrow> Inl x | Inr d \<Rightarrow> Inr (s\<lparr>ms_db := d\<rparr>))"

definition rows_db :: "(media_db \<Rightarrow> dberr + nat \<times> media_db) \<Rightarrow> media_sys \<Rightarrow> dberr + nat \<times> media_sys" where
  "rows_db q s = (case q (ms_db s) of Inl x \<Rightarrow> Inl x | Inr (n, d) \<Rightarrow> Inr (n, s\<lparr>ms_db := d\<rparr>))"

definition media_key :: "uuid \<Rightarrow> string" where "media_key i = ''m/'' @ uuid_String i"
definition thumbKey :: "uuid \<Rightarrow> string" where "thumbKey i = ''t/'' @ uuid_String i"

definition enabled :: "'a media_op \<Rightarrow> 'a media_op" where
  "enabled m s = (if \<not> ms_on s then (Inl (Sentinel ErrDisabled), s) else m s)"

definition overQuota :: "media_env \<Rightarrow> uuid \<Rightarrow> int \<Rightarrow> bool media_op" where
  "overQuota e owner sz =
     andDo (sql_query (me_fails e MUploaded) (\<lambda>s. MediaUploadedSince owner (pgTime (me_now e - 24 * hour)) (ms_db s))) (\<lambda>used.
       andDo (sql_query (me_fails e MCreated) (\<lambda>s. MediaCreatedSince owner (pgTime (me_now e - 24 * hour)) (ms_db s))) (\<lambda>files.
         ret (used + sz > DailyUserBytes \<or> files \<ge> DailyUserFiles)))"

definition lifetime :: "int \<Rightarrow> duration" where
  "lifetime sz = (if sz > LargeBytes then largeLifetime else maxLifetime)"

text \<open>The checks and the row that an upload and a copy share.\<close>

definition within_limits :: "media_env \<Rightarrow> uuid \<Rightarrow> int \<Rightarrow> unit media_op" where
  "within_limits e owner sz =
     andDo (overQuota e owner sz) (\<lambda>over. if over then stop ErrDailyQuota
       else andDo (sql_query (me_fails e MStored) (\<lambda>s. MediaStoredBytes (ms_db s))) (\<lambda>stored.
         if stored + sz > uploadCapBytes then stop ErrStorageFull
         else if me_fails e MNewID then break_off (DbFail OtherDb) else ret ()))"

text \<open>\<^verbatim>\<open>PresignPut\<close> only signs: the link is for this key, type and size.\<close>

record Upload =
  up_ID :: uuid
  up_Key :: string
  up_ContentType :: string
  up_Size :: int

definition NewUpload :: "media_env \<Rightarrow> uuid \<Rightarrow> NewUploadRequest \<Rightarrow> Upload media_op" where
  "NewUpload e owner req = enabled
     (case check_upload (me_lower e) req of
        Inl err \<Rightarrow> stop err
      | Inr name \<Rightarrow>
          andDo (within_limits e owner (nu_Size req)) (\<lambda>_.
            andDo (exec (me_fails e MCreate) (on_db (CreateMedia \<lparr>cm_ID = me_id e, cm_OwnerID = owner, cm_Kind = nu_Kind req,
                cm_ContentType = nu_ContentType req, cm_Size = nu_Size req, cm_Now = pgTime (me_now e),
                cm_ExpiresAt = pgTime (me_now e + lifetime (nu_Size req)), cm_DurationMs = optInt (di_DurationMs (nu_Dims req)),
                cm_Width = optInt (di_Width (nu_Dims req)), cm_Height = optInt (di_Height (nu_Dims req)), cm_FileName = name,
                cm_Waveform = nu_Waveform req\<rparr>))) (\<lambda>_.
              if me_fails e MPresign then break_off (DbFail OtherDb)
              else ret \<lparr>up_ID = me_id e, up_Key = media_key (me_id e), up_ContentType = nu_ContentType req, up_Size = nu_Size req\<rparr>)))"

section \<open>Attaching\<close>

record Attachment =
  at_ID :: uuid
  at_Kind :: string
  at_ContentType :: string
  at_Size :: int
  at_ExpiresAt :: time
  at_Expired :: bool
  at_DurationMs :: int
  at_Width :: int
  at_Height :: int
  at_Thumbnail :: bool
  at_FileName :: string
  at_Waveform :: "nat list"

definition attachment_of :: "medium \<Rightarrow> Attachment" where
  "attachment_of m = \<lparr>at_ID = md_id m, at_Kind = md_kind m, at_ContentType = md_content_type m, at_Size = md_size m,
     at_ExpiresAt = md_expires_at m, at_Expired = (md_deleted_at m \<noteq> None), at_DurationMs = int_of (md_duration_ms m),
     at_Width = int_of (md_width m), at_Height = int_of (md_height m),
     at_Thumbnail = (md_has_thumbnail m \<and> md_deleted_at m = None), at_FileName = some_text (md_file_name m),
     at_Waveform = md_waveform m\<rparr>"

definition attach_check :: "media_env \<Rightarrow> uuid \<Rightarrow> uuid \<Rightarrow> Attachment media_op" where
  "attach_check e owner i =
     andDo (or_none ErrBadAttachment (sql_query (me_fails e (MGet i)) (\<lambda>s. GetMedia i (ms_db s)))) (\<lambda>m.
       if md_owner_id m \<noteq> Some owner \<or> md_status m \<noteq> status_pending \<or> md_deleted_at m \<noteq> None then stop ErrBadAttachment
       else andDo (sql_query (me_fails e (MSize i)) (\<lambda>s. Inr (ms_store s (media_key i)))) (\<lambda>sz.
         if sz \<noteq> Some (md_size m) then stop ErrBadAttachment else ret (attachment_of m)))"

definition attach_one :: "media_env \<Rightarrow> uuid \<Rightarrow> string \<Rightarrow> uuid \<Rightarrow> uuid \<Rightarrow> uuid \<Rightarrow> unit media_op" where
  "attach_one e owner ct chat msg i =
     andDo (alter (me_fails e (MAttach i)) (rows_db (AttachMedia i owner ct chat msg))) (\<lambda>n.
       if n = 0 then stop ErrBadAttachment else ret ())"

definition Attach :: "media_env \<Rightarrow> uuid \<Rightarrow> uuid list \<Rightarrow> string \<Rightarrow> uuid \<Rightarrow> uuid \<Rightarrow> Attachment list media_op" where
  "Attach e owner ids ct chat msg =
     (if ids = [] then ret []
      else enabled (if length ids > MaxPerMessage \<or> \<not> distinct ids then stop ErrBadAttachment
        else andDo (each (attach_check e owner) ids) (\<lambda>out.
          andDo (each (attach_one e owner ct chat msg) ids) (\<lambda>_. ret out))))"

definition ForMessages :: "media_env \<Rightarrow> uuid list \<Rightarrow> (uuid \<Rightarrow> Attachment list) media_op" where
  "ForMessages e msgs =
     (if msgs = [] then ret (\<lambda>_. [])
      else andDo (sql_query (me_fails e MForMessages) (\<lambda>s. MediaForMessages msgs (ms_db s))) (\<lambda>rows.
        ret (\<lambda>i. map attachment_of (filter (\<lambda>m. md_message_id m = Some i) rows))))"

text \<open>\<^verbatim>\<open>ExpireGroup\<close> only logs a failure.\<close>

definition ExpireGroup :: "media_env \<Rightarrow> uuid \<Rightarrow> unit media_op" where
  "ExpireGroup e gid = attempt (exec (me_fails e MExpire) (on_db (ExpireMediaOfGroup (pgTime (me_now e)) gid))) (\<lambda>_. ret ())"

definition ExpireMessage :: "media_env \<Rightarrow> uuid \<Rightarrow> unit media_op" where
  "ExpireMessage e msg = exec (me_fails e MExpire) (on_db (ExpireMediaOfMessage (pgTime (me_now e)) msg))"

section \<open>Downloading\<close>

definition id_or_nil :: "uuid option \<Rightarrow> uuid" where
  "id_or_nil x = (case x of None \<Rightarrow> Nil_uuid | Some i \<Rightarrow> i)"

text \<open>\<open>None\<close> for the recipients: a big group, whose downloads nobody waits for.\<close>

definition access :: "media_env \<Rightarrow> uuid \<Rightarrow> uuid \<Rightarrow> (medium \<times> uuid \<times> uuid list option) media_op" where
  "access e viewer i = enabled
     (andDo (or_none ErrNotFoundMedia (sql_query (me_fails e (MGet i)) (\<lambda>s. GetMedia i (ms_db s)))) (\<lambda>m.
        if md_status m \<noteq> status_ready then stop ErrNotFoundMedia
        else (let chat = id_or_nil (md_chat_id m); owner = id_or_nil (md_owner_id m);
                  finish = (\<lambda>recipients. if md_deleted_at m \<noteq> None \<or> md_owner_id m = None then stop ErrExpired
                    else ret (m, owner, recipients)) in
          if md_chat_type m = Some ''private'' then
            (if viewer \<noteq> owner \<and> viewer \<noteq> chat then stop ErrNotFoundMedia else finish (Some [chat]))
          else if md_chat_type m = Some ''public'' then
            (case me_members e chat of
               None \<Rightarrow> stop ErrNotFoundMedia
             | Some members \<Rightarrow>
                 if viewer \<notin> set members then stop ErrNotFoundMedia
                 else attempt (sql_query (me_fails e MVisible) (\<lambda>s. GroupMediaVisible (md_message_id m) chat viewer (md_created_at m) (ms_db s))) (\<lambda>r.
                   if r \<noteq> Inr True then stop ErrNotFoundMedia
                   else finish (if length members \<le> trackGroupsUpTo then Some (filter (\<lambda>u. u \<noteq> owner) members) else None)))
          else stop ErrNotFoundMedia)))"

record Download_answer =
  dn_Key :: string
  dn_FileName :: string
  dn_ContentType :: string
  dn_Size :: int

definition Download :: "media_env \<Rightarrow> uuid \<Rightarrow> uuid \<Rightarrow> Download_answer media_op" where
  "Download e viewer i =
     andDo (access e viewer i) (\<lambda>(m, owner, recipients).
       andDo (if viewer = owner then ret ()
           else andDo (exec (me_fails e MRecord) (on_db (RecordMediaDownload (pgTime (me_now e)) i viewer))) (\<lambda>_.
             case recipients of
               None \<Rightarrow> ret ()
             | Some rs \<Rightarrow>
                 if rs = [] then ret ()
                 else andDo (sql_query (me_fails e MCount) (\<lambda>s. CountMediaDownloads i (ms_db s))) (\<lambda>n.
                   if n \<ge> int (length rs) then exec (me_fails e MDeliver) (on_db (MarkMediaDelivered (pgTime (me_now e)) i))
                   else ret ()))) (\<lambda>_.
         if me_fails e MPresign then break_off (DbFail OtherDb)
         else ret \<lparr>dn_Key = media_key i, dn_FileName = some_text (md_file_name m), dn_ContentType = md_content_type m,
           dn_Size = md_size m\<rparr>))"

section \<open>Cleaning up\<close>

text \<open>\<open>Delete\<close> of an object that is not there succeeds.\<close>

definition delete_object :: "media_env \<Rightarrow> string \<Rightarrow> media_sys \<Rightarrow> bool \<times> media_sys" where
  "delete_object e k s = (if me_fails e (MDelete k) then (False, s) else (True, s\<lparr>ms_store := (ms_store s)(k := None)\<rparr>))"

definition remove_one :: "media_env \<Rightarrow> uuid set \<Rightarrow> uuid \<Rightarrow> media_sys \<Rightarrow> bool \<times> media_sys" where
  "remove_one e thumbs i s =
     (case (if i \<in> thumbs then delete_object e (thumbKey i) s else (True, s)) of
        (False, s') \<Rightarrow> (False, s')
      | (True, s') \<Rightarrow> delete_object e (media_key i) s')"

fun remove_all :: "media_env \<Rightarrow> uuid set \<Rightarrow> uuid list \<Rightarrow> media_sys \<Rightarrow> uuid list \<times> media_sys" where
  "remove_all e thumbs [] s = ([], s)"
| "remove_all e thumbs (i # is) s =
     (case remove_one e thumbs i s of (ok, s1) \<Rightarrow>
        (case remove_all e thumbs is s1 of (done, s2) \<Rightarrow> (if ok then i # done else done, s2)))"

definition remove :: "media_env \<Rightarrow> uuid list \<Rightarrow> media_sys \<Rightarrow> nat \<times> media_sys" where
  "remove e ids s =
     (let thumbs = (if ids = [] then {} else case faulty (me_fails e MThumbnailsOf) (ThumbnailsOf ids (ms_db s)) of
          Inl _ \<Rightarrow> {} | Inr is \<Rightarrow> set is) in
      case remove_all e thumbs ids s of (gone, s') \<Rightarrow>
        (length gone,
         if gone = [] then s'
         else case faulty (me_fails e MMark) (MarkMediaDeleted (pgTime (me_now e)) gone (ms_db s')) of
           Inl _ \<Rightarrow> s' | Inr d \<Rightarrow> s'\<lparr>ms_db := d\<rparr>))"

text \<open>The rows that go until the store is down to the low mark.\<close>

fun lru_victims :: "int \<Rightarrow> (uuid \<times> int) list \<Rightarrow> uuid list" where
  "lru_victims stored [] = []"
| "lru_victims stored ((i, sz) # rows) = (if stored \<le> lruLowBytes then [] else i # lru_victims (stored - sz) rows)"

definition remove_op :: "media_env \<Rightarrow> uuid list \<Rightarrow> nat media_op" where
  "remove_op e ids s = (case remove e ids s of (n, s') \<Rightarrow> (Inr n, s'))"

definition Cleanup :: "media_env \<Rightarrow> nat media_op" where
  "Cleanup e s = (if \<not> ms_on s then (Inr 0, s) else
     andDo (sql_query (me_fails e MToDelete) (\<lambda>s. MediaToDelete (pgTime (me_now e - keepAfterAll)) (pgTime (me_now e))
         (pgTime (me_now e - pendingTTL)) (ms_db s))) (\<lambda>ids.
       andDo (remove_op e ids) (\<lambda>deleted.
         andDo (sql_query (me_fails e MStored) (\<lambda>s. MediaStoredBytes (ms_db s))) (\<lambda>stored.
           if stored \<le> lruHighBytes then ret deleted
           else andDo (sql_query (me_fails e MLru) (\<lambda>s. LeastRecentlyUsedMedia (ms_db s))) (\<lambda>rows.
             andDo (remove_op e (lru_victims stored rows)) (\<lambda>n. ret (deleted + n)))))) s)"

section \<open>Thumbnails\<close>

definition thumbMaxSide :: int where "thumbMaxSide = 480"
definition thumbMaxPixels :: int where "thumbMaxPixels = 40000000"

text \<open>The size \<^verbatim>\<open>ProcessThumbnail\<close> gives a picture of the format and size that were decoded.\<close>

definition thumb_size :: "string \<Rightarrow> int \<Rightarrow> int \<Rightarrow> (int \<times> int) option" where
  "thumb_size format w h =
     (if format \<notin> {''jpeg'', ''png'', ''webp''} then None
      else if w \<le> 0 \<or> h \<le> 0 \<or> w * h > thumbMaxPixels then None
      else Some (if w > thumbMaxSide \<or> h > thumbMaxSide then
          (if w \<ge> h then (thumbMaxSide, max 1 (h * thumbMaxSide div w)) else (max 1 (w * thumbMaxSide div h), thumbMaxSide))
        else (w, h)))"

definition put_object :: "bool \<Rightarrow> string \<Rightarrow> int \<Rightarrow> unit media_op" where
  "put_object flt k sz = exec flt (\<lambda>s. Inr (s\<lparr>ms_store := (ms_store s)(k \<mapsto> sz)\<rparr>))"

definition SetThumbnail :: "media_env \<Rightarrow> uuid \<Rightarrow> uuid \<Rightarrow> string \<Rightarrow> unit media_op" where
  "SetThumbnail e owner i raw = enabled
     (andDo (or_none ErrNotVideo (sql_query (me_fails e (MGet i)) (\<lambda>s. GetMedia i (ms_db s)))) (\<lambda>m.
        if md_owner_id m \<noteq> Some owner \<or> md_kind m \<noteq> ''video'' \<or> md_deleted_at m \<noteq> None then stop ErrNotVideo
        else if md_has_thumbnail m then stop ErrThumbnailSet
        else case me_thumb e raw of
          None \<Rightarrow> stop ErrBadThumbnail
        | Some sz \<Rightarrow> andDo (put_object (me_fails e MPut) (thumbKey i) sz) (\<lambda>_.
            andDo (alter (me_fails e MSetThumbnail) (rows_db (SetThumbnail_sql i owner))) (\<lambda>n.
              if n = 0 then stop ErrThumbnailSet else ret ()))))"

definition Thumbnail :: "media_env \<Rightarrow> uuid \<Rightarrow> uuid \<Rightarrow> Download_answer media_op" where
  "Thumbnail e viewer i =
     andDo (access e viewer i) (\<lambda>(m, _, _).
       if \<not> md_has_thumbnail m then stop ErrNotFoundMedia
       else if me_fails e MPresign then break_off (DbFail OtherDb)
       else ret \<lparr>dn_Key = thumbKey i, dn_FileName = [], dn_ContentType = ''image/jpeg'', dn_Size = 0\<rparr>)"

section \<open>Forwarding\<close>

text \<open>\<^verbatim>\<open>Copy\<close>: \<open>None\<close> if the original is gone.\<close>

definition copy_object :: "media_env \<Rightarrow> string \<Rightarrow> string \<Rightarrow> unit option media_op" where
  "copy_object e src dst = alter (me_fails e (MCopy src)) (\<lambda>s. Inr (case ms_store s src of
     None \<Rightarrow> (None, s) | Some sz \<Rightarrow> (Some (), s\<lparr>ms_store := (ms_store s)(dst \<mapsto> sz)\<rparr>)))"

definition Duplicate :: "media_env \<Rightarrow> uuid \<Rightarrow> uuid \<Rightarrow> uuid media_op" where
  "Duplicate e owner src = enabled
     (andDo (or_none ErrNotFoundMedia (sql_query (me_fails e (MGet src)) (\<lambda>s. GetMedia src (ms_db s)))) (\<lambda>m.
        if md_status m \<noteq> status_ready \<or> md_deleted_at m \<noteq> None then stop ErrForwardExpired
        else andDo (within_limits e owner (md_size m)) (\<lambda>_.
          andDo (exec (me_fails e MCreate) (on_db (CreateMedia \<lparr>cm_ID = me_id e, cm_OwnerID = owner, cm_Kind = md_kind m,
              cm_ContentType = md_content_type m, cm_Size = md_size m, cm_Now = pgTime (me_now e),
              cm_ExpiresAt = pgTime (me_now e + lifetime (md_size m)), cm_DurationMs = md_duration_ms m, cm_Width = md_width m,
              cm_Height = md_height m, cm_FileName = md_file_name m, cm_Waveform = md_waveform m\<rparr>))) (\<lambda>_.
            andDo (copy_object e (media_key src) (media_key (me_id e))) (\<lambda>x.
              if x = None then stop ErrForwardExpired
              else andDo (if \<not> md_has_thumbnail m then ret ()
                  else attempt (copy_object e (thumbKey src) (thumbKey (me_id e))) (\<lambda>r.
                    if r = Inr (Some ()) then attempt (alter (me_fails e MSetThumbnail) (rows_db (SetThumbnail_sql (me_id e) owner))) (\<lambda>_. ret ())
                    else ret ())) (\<lambda>_. ret (me_id e)))))))"

section \<open>The handlers\<close>

definition StatusServiceUnavailable :: int where "StatusServiceUnavailable = 503"
definition StatusInsufficientStorage :: int where "StatusInsufficientStorage = 507"
definition StatusGone :: int where "StatusGone = 410"

definition media_status :: "media_err \<Rightarrow> int option" where
  "media_status err = (case err of
     ErrDisabled \<Rightarrow> Some StatusServiceUnavailable
   | ErrBadMedia \<Rightarrow> Some StatusBadRequest | ErrBadThumbnail \<Rightarrow> Some StatusBadRequest | ErrBadFile \<Rightarrow> Some StatusBadRequest
   | ErrThumbnailSet \<Rightarrow> Some StatusConflict
   | ErrDailyQuota \<Rightarrow> Some StatusTooManyRequests
   | ErrStorageFull \<Rightarrow> Some StatusInsufficientStorage
   | ErrNotFoundMedia \<Rightarrow> Some StatusNotFound | ErrNotVideo \<Rightarrow> Some StatusNotFound
   | ErrExpired \<Rightarrow> Some StatusGone
   | _ \<Rightarrow> None)"

definition media_fail :: "(media_err \<Rightarrow> string) \<Rightarrow> media_err fail \<Rightarrow> 'b resp" where
  "media_fail msg x = (case x of
     Sentinel err \<Rightarrow> (case media_status err of Some st \<Rightarrow> Error st (msg err) | None \<Rightarrow> ServerError)
   | DbFail _ \<Rightarrow> ServerError)"

definition answer :: "(media_err \<Rightarrow> string) \<Rightarrow> ('a \<Rightarrow> 'b resp) \<Rightarrow> 'a media_op \<Rightarrow> media_sys \<Rightarrow> 'b resp \<times> media_sys" where
  "answer msg f m s = (case m s of (Inl x, s') \<Rightarrow> (media_fail msg x, s') | (Inr a, s') \<Rightarrow> (f a, s'))"

definition CreateHandler :: "(media_err \<Rightarrow> string) \<Rightarrow> media_env \<Rightarrow> uuid option \<Rightarrow> NewUploadRequest option \<Rightarrow> media_sys \<Rightarrow> Upload resp \<times> media_sys" where
  "CreateHandler msg e user body s =
     (case reqctx_User user of
        None \<Rightarrow> (unauthorized, s)
      | Some me \<Rightarrow> (case body of
          None \<Rightarrow> (Error StatusBadRequest (msg ErrBadMedia), s)
        | Some b \<Rightarrow> answer msg (JSON StatusCreated) (NewUpload e me b) s))"

definition with_media :: "uuid option \<Rightarrow> uuid option \<Rightarrow> (uuid \<Rightarrow> uuid \<Rightarrow> media_sys \<Rightarrow> 'b resp \<times> media_sys) \<Rightarrow> media_sys \<Rightarrow> 'b resp \<times> media_sys" where
  "with_media user path f s =
     (case reqctx_User user of
        None \<Rightarrow> (unauthorized, s)
      | Some me \<Rightarrow> (case path of None \<Rightarrow> (Error StatusBadRequest ''invalid media id'', s) | Some i \<Rightarrow> f me i s))"

definition GetHandler :: "(media_err \<Rightarrow> string) \<Rightarrow> media_env \<Rightarrow> uuid option \<Rightarrow> uuid option \<Rightarrow> media_sys \<Rightarrow> Download_answer resp \<times> media_sys" where
  "GetHandler msg e user path = with_media user path (\<lambda>me i. answer msg (JSON StatusOK) (Download e me i))"

text \<open>\<open>None\<close>: a body over \<^verbatim>\<open>MaxThumbnailUpload\<close>.\<close>

definition PutThumbnailHandler :: "(media_err \<Rightarrow> string) \<Rightarrow> media_env \<Rightarrow> uuid option \<Rightarrow> uuid option \<Rightarrow> string option \<Rightarrow> media_sys \<Rightarrow> unit resp \<times> media_sys" where
  "PutThumbnailHandler msg e user path body = with_media user path (\<lambda>me i s. case body of
     None \<Rightarrow> (Error 413 (msg ErrBadThumbnail), s)
   | Some raw \<Rightarrow> answer msg (\<lambda>_. WriteHeader StatusNoContent) (SetThumbnail e me i raw) s)"

definition GetThumbnailHandler :: "(media_err \<Rightarrow> string) \<Rightarrow> media_env \<Rightarrow> uuid option \<Rightarrow> uuid option \<Rightarrow> media_sys \<Rightarrow> Download_answer resp \<times> media_sys" where
  "GetThumbnailHandler msg e user path = with_media user path (\<lambda>me i. answer msg (JSON StatusOK) (Thumbnail e me i))"

end
