(* ===== verification/Chat_Emoji.thy ===== *)
theory Chat_Emoji
  imports Chat_Read
begin

text \<open>
  \<^verbatim>\<open>ValidateEmoji\<close> accepts one emoji: reading valid UTF-8 is compositional, and two accepted texts
  never make a third.
\<close>

lemma DecodeRune_append:
  assumes "DecodeRune bs = (r, w)" "bs \<noteq> []" "\<not> (r = RuneError \<and> w = 1)"
  shows "DecodeRune (bs @ cs) = (r, w)"
proof -
  obtain b0 t where bs: "bs = b0 # t" using assms(2) by (cases bs) auto
  from assms(1,3) show ?thesis
    unfolding bs DecodeRune_def by (auto split: list.splits if_splits)
qed

lemma chunks_append: "ValidString s \<Longrightarrow> chunks (s @ t) = chunks s @ chunks t"
proof (induction s rule: chunks.induct)
  case (1 s)
  show ?case
  proof (cases "s = []")
    case False
    obtain r w where d: "DecodeRune (map of_char s) = (r, w)" by fastforce
    have w: "w \<le> length s" using DecodeRune_width_le [of "map of_char s"] d by simp
    have c: "chunks s = (r, take w s) # chunks (drop w s)" using False d by (simp add: chunks.simps [of s])
    have lw: "length (take w s) = w" using w by simp
    have ok: "\<not> (r = RuneError \<and> w = 1)" "ValidString (drop w s)"
      using "1.prems" unfolding ValidString_def c by (simp_all add: lw del: length_take)
    have "DecodeRune (map of_char (s @ t)) = (r, w)"
      using DecodeRune_append [OF d _ ok(1)] False by simp
    then have "chunks (s @ t) = (r, take w s) # chunks (drop w s @ t)"
      using False w by (simp add: chunks.simps [of "s @ t"])
    with c "1.IH" [OF False d [symmetric] refl ok(2)] show ?thesis by simp
  qed simp
qed

lemma runes_append: "ValidString s \<Longrightarrow> runes (s @ t) = runes s @ runes t"
  by (simp add: runes_def chunks_append)

lemma runes_nonempty: "s \<noteq> [] \<Longrightarrow> runes s \<noteq> []"
  by (simp add: runes_def chunks.simps [of s] split: prod.split)

lemma pictographs_append: "pictographs b rs \<Longrightarrow> pictographs b (rs @ ts) \<longleftrightarrow> pictographs False ts"
  by (induction b rs rule: pictographs.induct) (auto split: if_splits)

lemma ValidateEmoji_cases:
  assumes "ValidateEmoji s"
  obtains (flag) a b where "runes s = [a, b]" "isRegional a" "isRegional b"
    | (keycap) a where "runes s = [a, keycapMark] \<or> runes s = [a, vs16, keycapMark]" "isKeycapBase a" "\<not> isRegional a"
    | (pictograph) "pictographs True (runes s)" "\<not> isRegional (hd (runes s))" "\<not> isKeycapBase (hd (runes s))"
proof -
  have ne: "runes s \<noteq> []" using assms by (intro runes_nonempty) (auto simp: ValidateEmoji_def)
  then obtain a rs where rs: "runes s = a # rs" by (cases "runes s") auto
  show ?thesis
  proof (cases "isRegional a")
    case True
    with assms rs have "length rs = 1" "isRegional (rs ! 0)" by (auto simp: ValidateEmoji_def Let_def split: if_splits)
    with rs True flag show ?thesis by (cases rs) auto
  next
    case False
    show ?thesis
    proof (cases "isKeycapBase a")
      case True
      with False assms rs have "(length rs = 1 \<and> rs ! 0 = keycapMark) \<or> (length rs = 2 \<and> rs ! 0 = vs16 \<and> rs ! 1 = keycapMark)"
        by (auto simp: ValidateEmoji_def Let_def split: if_splits)
      then have "rs = [keycapMark] \<or> rs = [vs16, keycapMark]"
        by (auto simp: length_Suc_conv numeral_2_eq_2)
      with rs True False keycap show ?thesis by auto
    qed (use False assms rs pictograph in \<open>auto simp: ValidateEmoji_def Let_def split: if_splits\<close>)
  qed
qed

text \<open>
  A reaction is a single emoji: of two texts that are accepted the concatenation never is, unless
  the second begins with a skin tone, which then belongs to the first.
\<close>

theorem reaction_is_one_emoji:
  assumes "ValidateEmoji s" "ValidateEmoji t" "\<not> isSkinTone (hd (runes t))"
  shows "\<not> ValidateEmoji (s @ t)"
proof
  assume st: "ValidateEmoji (s @ t)"
  have valid: "ValidString s" using assms(1) by (auto simp: ValidateEmoji_def split: if_splits)
  note rs = runes_append [OF valid, of t]
  have ne: "runes s \<noteq> []" "runes t \<noteq> []" using assms(1,2) by (auto simp: ValidateEmoji_def intro!: runes_nonempty)
  obtain r ts where t: "runes t = r # ts" using ne(2) by (cases "runes t") auto
  have start: "r \<noteq> vs16 \<and> r \<noteq> zwj \<and> \<not> isTag r"
    using assms(2)
    by (cases rule: ValidateEmoji_cases)
      (auto simp: t vs16_def zwj_def isTag_def isRegional_def isKeycapBase_def isPictographic_def)
  from assms(1) show False
  proof (cases rule: ValidateEmoji_cases)
    case (flag a b)
    with st show ?thesis
      by (cases rule: ValidateEmoji_cases) (auto simp: rs t isRegional_def isKeycapBase_def)
  next
    case (keycap a)
    from st show ?thesis
      by (cases rule: ValidateEmoji_cases) (use keycap in \<open>auto simp: rs t vs16_def keycapMark_def\<close>)
  next
    case pictograph
    have hd: "hd (runes (s @ t)) = hd (runes s)" using ne by (simp add: rs)
    from st show ?thesis
    proof (cases rule: ValidateEmoji_cases)
      case pictograph2: pictograph
      then have "pictographs False (r # ts)" using pictographs_append [OF pictograph(1)] by (simp add: rs t)
      then show ?thesis using start assms(3) by (auto simp: t split: if_splits)
    qed (use pictograph hd in \<open>auto simp: isKeycapBase_def\<close>)
  qed
qed

text \<open>Thumbs up, U+1F44D.\<close>

definition thumbs_up :: string where
  "thumbs_up = map char_of [0xF0, 0x9F, 0x91, 0x8D :: nat]"

lemma chunks_thumbs_up: "chunks thumbs_up = [(0x1F44D, thumbs_up)]"
  by (simp add: thumbs_up_def chunks.simps [of "_ # _"] DecodeRune_def second4_def cont_def)

lemma thumbs_up_ok: "ValidateEmoji thumbs_up"
  by (simp add: ValidateEmoji_def ValidString_def chunks_thumbs_up runes_def isRegional_def isKeycapBase_def
    isPictographic_def Let_def) (simp add: thumbs_up_def maxEmojiBytes_def)

theorem reaction_is_one_emoji_witness: "\<not> ValidateEmoji (thumbs_up @ thumbs_up)"
  using reaction_is_one_emoji [OF thumbs_up_ok thumbs_up_ok]
  by (simp add: runes_def chunks_thumbs_up isSkinTone_def)

end
