(* ===== verification/Runes.thy ===== *)
theory Runes
  imports Chat_Emoji
begin

text \<open>
  Texts put together from whole runes: reading them back gives those runes.
\<close>

definition piece :: "nat \<times> string \<Rightarrow> bool" where
  "piece c \<longleftrightarrow> chunks (snd c) = [c] \<and> ValidString (snd c)"

lemma chunks_pieces: "\<forall>c \<in> set cs. piece c \<Longrightarrow> chunks (concat (map snd cs)) = cs \<and> ValidString (concat (map snd cs))"
proof (induction cs)
  case (Cons c cs)
  then have "piece c" and IH: "chunks (concat (map snd cs)) = cs" "ValidString (concat (map snd cs))" by simp_all
  then have "chunks (snd c @ concat (map snd cs)) = c # cs" by (simp add: piece_def chunks_append)
  moreover have "ValidString (snd c @ concat (map snd cs))"
    using IH \<open>piece c\<close> by (simp add: ValidString_def chunks_append piece_def)
  ultimately show ?case by simp
qed (simp add: ValidString_def)

lemma DecodeRune_take:
  assumes "DecodeRune bs = (r, w)" "\<not> (r = RuneError \<and> w = 1)" "bs \<noteq> []"
  shows "DecodeRune (take w bs) = (r, w)"
proof -
  obtain b0 t where bs: "bs = b0 # t" using assms(3) by (cases bs) auto
  from assms(1,2) consider "b0 < 0x80" "r = b0" "w = 1"
    | b1 xs where "t = b1 # xs" "0xC2 \<le> b0" "b0 \<le> 0xDF" "cont b1" "r = (b0 - 0xC0) * 64 + (b1 - 0x80)" "w = 2"
    | b1 b2 xs where "t = b1 # b2 # xs" "0xE0 \<le> b0" "b0 \<le> 0xEF" "second3 b0 b1" "cont b2"
        "r = (b0 - 0xE0) * 4096 + (b1 - 0x80) * 64 + (b2 - 0x80)" "w = 3"
    | b1 b2 b3 xs where "t = b1 # b2 # b3 # xs" "0xF0 \<le> b0" "b0 \<le> 0xF4" "second4 b0 b1" "cont b2" "cont b3"
        "r = (b0 - 0xF0) * 262144 + (b1 - 0x80) * 4096 + (b2 - 0x80) * 64 + (b3 - 0x80)" "w = 4"
    unfolding bs DecodeRune_def by (auto split: list.splits if_splits)
  then show ?thesis by cases (simp_all add: bs DecodeRune_def)
qed

lemma DecodeRune_ascii: "DecodeRune bs = (r, w) \<Longrightarrow> b \<in> set (take w bs) \<Longrightarrow> b < 0x80 \<Longrightarrow> r = b \<and> w = 1"
  by (auto simp: DecodeRune_def cont_def second3_def second4_def split: list.splits if_splits)

lemma chunks_ascii_byte: "(r, w) \<in> set (chunks s) \<Longrightarrow> c \<in> set w \<Longrightarrow> of_char c < (0x80 :: nat) \<Longrightarrow> r = of_char c"
proof (induction s rule: chunks.induct)
  case (1 s)
  show ?case
  proof (cases "s = []")
    case False
    obtain r' w' where d: "DecodeRune (map of_char s) = (r', w')" by fastforce
    then have c: "chunks s = (r', take w' s) # chunks (drop w' s)" using False by (simp add: chunks.simps [of s])
    from "1.prems"(1) c consider "(r, w) = (r', take w' s)" | "(r, w) \<in> set (chunks (drop w' s))" by auto
    then show ?thesis
    proof cases
      case 1
      then have "of_char c \<in> set (take w' (map of_char s) :: nat list)" using "1.prems"(2) by (simp add: take_map)
      with 1 DecodeRune_ascii [OF d this "1.prems"(3)] show ?thesis by simp
    next
      case 2
      with "1.IH" [OF False d [symmetric] refl] "1.prems" show ?thesis by blast
    qed
  qed (use 1 in simp)
qed

definition replacement :: string where "replacement = [CHR 0xEF, CHR 0xBF, CHR 0xBD]"

lemma piece_replacement: "piece (0xFFFD, replacement)"
  by (simp add: piece_def replacement_def chunks.simps [of "_ # _"] DecodeRune_def second3_def cont_def ValidString_def)

lemma chunk_piece: "(r, w) \<in> set (chunks s) \<Longrightarrow> r \<noteq> 0xFFFD \<Longrightarrow> piece (r, w)"
proof (induction s rule: chunks.induct)
  case (1 s)
  show ?case
  proof (cases "s = []")
    case False
    obtain r' w' where d: "DecodeRune (map of_char s) = (r', w')" by fastforce
    then have c: "chunks s = (r', take w' s) # chunks (drop w' s)" using False by (simp add: chunks.simps [of s])
    from "1.prems"(1) c consider "(r, w) = (r', take w' s)" | "(r, w) \<in> set (chunks (drop w' s))" by auto
    then show ?thesis
    proof cases
      case 1
      have k: "1 \<le> w'" "w' \<le> length s"
        using DecodeRune_width [of "map of_char s"] DecodeRune_width_le [of "map of_char s"] d False by auto
      have "DecodeRune (map of_char (take w' s)) = (r', w')"
        using DecodeRune_take [OF d] 1 "1.prems"(2) False by (simp add: take_map RuneError_def)
      then have "chunks (take w' s) = [(r', take w' s)]"
        using k by (subst chunks.simps) auto
      with 1 "1.prems"(2) show ?thesis by (simp add: piece_def ValidString_def RuneError_def)
    next
      case 2
      with "1.IH" [OF False d [symmetric] refl] "1.prems" show ?thesis by blast
    qed
  qed (use 1 in simp)
qed

lemma byte_in_chunk: "c \<in> set s \<Longrightarrow> \<exists>(r, w) \<in> set (chunks s). c \<in> set w"
proof -
  assume "c \<in> set s"
  then have "c \<in> set (concat (map snd (chunks s)))" by (simp only: chunks_concat)
  then show ?thesis by auto
qed

lemma chunk_byte: "(r, w) \<in> set (chunks s) \<Longrightarrow> c \<in> set w \<Longrightarrow> c \<in> set s"
proof -
  assume "(r, w) \<in> set (chunks s)" "c \<in> set w"
  then have "c \<in> set (concat (map snd (chunks s)))" by force
  then show ?thesis by (simp only: chunks_concat)
qed

end
