(* ===== verification/Media_Names.thy ===== *)
theory Media_Names
  imports Media Runes
begin

text \<open>
  What reaches other phones: file names, waveforms and sizes of stills are of the form the apps rely on.
\<close>

section \<open>Texts without some runes\<close>

definition kept :: "(nat \<Rightarrow> bool) \<Rightarrow> string \<Rightarrow> (nat \<times> string) list" where
  "kept bad s = map (\<lambda>(r, w). (r, if r = 0xFFFD then replacement else w)) (filter (\<lambda>c. \<not> bad (fst c)) (chunks s))"

lemma drop_runes_kept: "drop_runes bad s = concat (map snd (kept bad s))"
proof -
  have "concat (map (\<lambda>(r, w). if bad r then [] else if r = 0xFFFD then [CHR 0xEF, CHR 0xBF, CHR 0xBD] else w) cs) =
      concat (map snd (map (\<lambda>(r, w). (r, if r = 0xFFFD then replacement else w)) (filter (\<lambda>c. \<not> bad (fst c)) cs)))" for cs
    by (induction cs) (auto simp: replacement_def)
  then show ?thesis by (simp add: drop_runes_def kept_def)
qed

lemma kept_pieces: "c \<in> set (kept bad s) \<Longrightarrow> piece c \<and> \<not> bad (fst c)"
  by (auto simp: kept_def piece_replacement chunk_piece)

lemma trimmed_pieces:
  assumes "name = TrimSpace (drop_runes bad s)"
  shows "chunks name = rev (dropWhile (\<lambda>c. IsSpace (fst c)) (rev (dropWhile (\<lambda>c. IsSpace (fst c)) (kept bad s))))"
    and "ValidString name" and "set (chunks name) \<subseteq> set (kept bad s)"
proof -
  let ?cs = "rev (dropWhile (\<lambda>c. IsSpace (fst c)) (rev (dropWhile (\<lambda>c. IsSpace (fst c)) (kept bad s))))"
  have all: "chunks (drop_runes bad s) = kept bad s"
    unfolding drop_runes_kept using chunks_pieces [of "kept bad s"] kept_pieces by blast
  have name: "name = concat (map snd ?cs)" unfolding assms TrimSpace_def all ..
  have sub: "set ?cs \<subseteq> set (kept bad s)" by (auto dest!: set_dropWhileD)
  then have "\<forall>c \<in> set ?cs. piece c" using kept_pieces by blast
  from chunks_pieces [OF this] show "chunks name = ?cs" "ValidString name" unfolding name by simp_all
  with sub show "set (chunks name) \<subseteq> set (kept bad s)" by simp
qed

lemma kept_byte: "(r, w) \<in> set (kept bad s) \<Longrightarrow> c \<in> set w \<Longrightarrow> c \<in> set s \<or> c \<in> set replacement"
  by (auto simp: kept_def dest: chunk_byte split: if_splits)

section \<open>File names\<close>

lemma path_Base_bytes: "c \<in> set (path_Base s) \<Longrightarrow> c \<in> set s \<or> c = CHR ''.'' \<or> c = CHR ''/''"
  by (auto simp: path_Base_def Let_def split: if_splits dest!: set_takeWhileD set_dropWhileD)

lemma extension_split: "CHR ''.'' \<in> set s \<Longrightarrow> \<exists>base. s = base @ CHR ''.'' # extension_of s \<and> CHR ''.'' \<notin> set (extension_of s)"
proof -
  assume "CHR ''.'' \<in> set s"
  then have "dropWhile (\<lambda>c. c \<noteq> CHR ''.'') (rev s) \<noteq> []" by (simp add: dropWhile_eq_Nil_conv) 
  then obtain d t where dt: "dropWhile (\<lambda>c. c \<noteq> CHR ''.'') (rev s) = d # t" by (cases "dropWhile (\<lambda>c. c \<noteq> CHR ''.'') (rev s)") auto
  then have d: "d = CHR ''.''" using hd_dropWhile [of "\<lambda>c. c \<noteq> CHR ''.''" "rev s"] by simp
  have "rev s = takeWhile (\<lambda>c. c \<noteq> CHR ''.'') (rev s) @ d # t"
    using dt takeWhile_dropWhile_id [of "\<lambda>c. c \<noteq> CHR ''.''" "rev s"] by simp
  then have "s = rev t @ CHR ''.'' # extension_of s"
    unfolding extension_of_def d by (metis append.assoc append_Cons append_Nil rev.simps(2) rev_append rev_rev_ident)
  moreover have "CHR ''.'' \<notin> set (extension_of s)" by (auto simp: extension_of_def dest: set_takeWhileD)
  ultimately show ?thesis by blast
qed

lemma runes_in_chunks: "r \<in> set (runes s) \<longleftrightarrow> (\<exists>w. (r, w) \<in> set (chunks s))"
  by (auto simp: runes_def image_iff) (metis fst_conv)

text \<open>
  C31: A file name that is accepted is not empty, at most 200 characters of valid UTF-8 without control or
  direction-changing characters, quotes, slashes or backslashes, so it cannot name a directory, break out of a
  header or hide its ending; and its ending is one of the allowed ones and goes with the content type.
\<close>

theorem file_names_are_safe:
  assumes "cleanFileName ToLower name0 contentType = Some name"
  shows "name \<noteq> [] \<and> RuneCountInString name \<le> 200 \<and> ValidString name \<and>
    (\<forall>r \<in> set (runes name). \<not> IsControl r \<and> \<not> IsFormat r) \<and>
    CHR 0x22 \<notin> set name \<and> CHR ''/'' \<notin> set name \<and> CHR 0x5C \<notin> set name \<and>
    (\<exists>base ext types. name = base @ CHR ''.'' # ext \<and> base \<noteq> [] \<and> CHR ''.'' \<notin> set ext \<and>
      map_of fileTypes (ToLower ext) = Some types \<and> contentType \<in> set types)"
proof -
  let ?s = "path_Base (map (\<lambda>c. if c = CHR 0x5C then CHR ''/'' else c) name0)"
  from assms have name: "name = TrimSpace (drop_runes bad_in_names ?s)"
    by (auto simp: cleanFileName_def Let_def split: if_splits option.splits)
  note p = trimmed_pieces [OF name]
  have runes: "\<not> bad_in_names r" if "r \<in> set (runes name)" for r
    using that p(3) kept_pieces [of "(r, _)" bad_in_names ?s] by (auto simp: runes_in_chunks)
  have bytes: "of_char c \<in> set (runes name)" if c: "c \<in> set name" and lt: "of_char c < (0x80 :: nat)" for c
  proof -
    obtain r w where rw: "(r, w) \<in> set (chunks name)" "c \<in> set w" using byte_in_chunk [OF c] by auto
    with chunks_ascii_byte [OF rw lt] show ?thesis by (auto simp: runes_in_chunks)
  qed
  have "CHR 0x22 \<notin> set name" using bytes [of "CHR 0x22"] runes by (auto simp: bad_in_names_def)
  moreover have slash: "CHR ''/'' \<notin> set name" using bytes [of "CHR ''/''"] runes by (auto simp: bad_in_names_def)
  moreover have "CHR 0x5C \<notin> set name"
  proof
    assume "CHR 0x5C \<in> set name"
    then obtain r w where "(r, w) \<in> set (kept bad_in_names ?s)" "CHR 0x5C \<in> set w" using byte_in_chunk p(3) by blast
    then have "CHR 0x5C \<in> set ?s" using kept_byte by (force simp: replacement_def)
    then show False using path_Base_bytes by (force split: if_splits)
  qed
  moreover have "\<exists>base ext types. name = base @ CHR ''.'' # ext \<and> base \<noteq> [] \<and> CHR ''.'' \<notin> set ext \<and>
      map_of fileTypes (ToLower ext) = Some types \<and> contentType \<in> set types"
  proof -
    have "CHR ''.'' \<in> set name" and len: "length name - length (extension_of name) - 1 \<noteq> 0"
      and ty: "\<exists>types. map_of fileTypes (ToLower (extension_of name)) = Some types \<and> contentType \<in> set types"
      using assms by (auto simp: cleanFileName_def Let_def name [symmetric] split: if_splits option.splits)
    from extension_split [OF this(1)] obtain base where b: "name = base @ CHR ''.'' # extension_of name"
      "CHR ''.'' \<notin> set (extension_of name)" by blast
    have "base \<noteq> []"
    proof
      assume "base = []"
      with b(1) have "length name = Suc (length (extension_of name))" by (metis append_Nil length_Cons)
      with len show False by simp
    qed
    with b ty show ?thesis by blast
  qed
  moreover have "name \<noteq> []" "RuneCountInString name \<le> 200"
    using assms by (auto simp: cleanFileName_def Let_def name [symmetric] maxFileName_def split: if_splits option.splits)
  ultimately show ?thesis using p(2) runes by (auto simp: bad_in_names_def)
qed

lemma cv_pdf: "cleanFileName (\<lambda>x. x) [CHR ''C'', CHR '':'', CHR 0x5C, CHR ''c'', CHR ''v'', CHR ''.'', CHR ''p'', CHR ''d'', CHR ''f'']
    ''application/pdf'' = Some ''cv.pdf''"
proof -
  have "drop_runes bad_in_names ''cv.pdf'' = ''cv.pdf''"
    by (simp add: drop_runes_def chunks_ascii_Cons bad_in_names_def IsControl_def IsFormat_def)
  moreover have "TrimSpace ''cv.pdf'' = ''cv.pdf''" by (simp add: TrimSpace_def chunks_ascii_Cons IsSpace_def)
  moreover have "RuneCountInString ''cv.pdf'' = 6" by (simp add: RuneCountInString_def runes_def chunks_ascii_Cons)
  ultimately show ?thesis
    by (simp add: cleanFileName_def path_Base_def extension_of_def fileTypes_def maxFileName_def)
qed

theorem file_names_are_safe_witness: "RuneCountInString ''cv.pdf'' \<le> 200 \<and> CHR ''/'' \<notin> set ''cv.pdf''"
  using file_names_are_safe [OF cv_pdf] by blast

text \<open>The examples of the package's tests.\<close>

lemma hidden_ending_shows:
  "cleanFileName (\<lambda>x. x) (''invoice'' @ [CHR 0xE2, CHR 0x80, CHR 0xAE] @ ''fdp.exe'') ''application/pdf'' = None"
proof -
  have d: "drop_runes bad_in_names (''invoice'' @ [CHR 0xE2, CHR 0x80, CHR 0xAE] @ ''fdp.exe'') = ''invoicefdp.exe''"
    by (simp add: drop_runes_def chunks_ascii_Cons chunks.simps [of "CHR 0xE2 # _"] DecodeRune_def second3_def cont_def
      bad_in_names_def IsControl_def IsFormat_def)
  moreover have "TrimSpace ''invoicefdp.exe'' = ''invoicefdp.exe''" by (simp add: TrimSpace_def chunks_ascii_Cons IsSpace_def)
  moreover have "path_Base (map (\<lambda>c. if c = CHR 0x5C then CHR ''/'' else c) (''invoice'' @ [CHR 0xE2, CHR 0x80, CHR 0xAE] @ ''fdp.exe''))
      = ''invoice'' @ [CHR 0xE2, CHR 0x80, CHR 0xAE] @ ''fdp.exe''"
    by (simp add: path_Base_def)
  ultimately show ?thesis unfolding cleanFileName_def Let_def
    by (simp only: ) (simp add: extension_of_def fileTypes_def)
qed

section \<open>Waveforms and stills\<close>

lemma waveform_roundtrip:
  "length w \<le> 128 \<Longrightarrow> \<forall>b \<in> set w. b \<le> 255 \<Longrightarrow> Waveform_UnmarshalJSON (Waveform_MarshalJSON w) = Some w"
  by (auto simp: Waveform_UnmarshalJSON_def Waveform_MarshalJSON_def maxWaveform_def Let_def list_ex_iff comp_def)

lemma waveform_bounded:
  "Waveform_UnmarshalJSON raw = Some w \<Longrightarrow> length w \<le> 128 \<and> (\<forall>b \<in> set w. b \<le> 255)"
  by (cases raw) (auto simp: Waveform_UnmarshalJSON_def maxWaveform_def Let_def list_ex_iff not_less nat_le_iff split: if_splits)

lemma thumb_fits:
  assumes "thumb_size format w h = Some (a, b)"
  shows "1 \<le> a \<and> a \<le> 480 \<and> 1 \<le> b \<and> b \<le> 480"
proof -
  have shrink: "y * 480 div x \<le> 480" if "y \<le> x" "0 < x" for x y :: int
    using that by (metis mult.commute mult_right_mono nonzero_mult_div_cancel_left order_less_irrefl zdiv_mono1 zero_le_numeral)
  have pos: "0 < w" "0 < h" using assms by (auto simp: thumb_size_def split: if_splits)
  show ?thesis using assms pos shrink [of h w] shrink [of w h]
    by (auto simp: thumb_size_def thumbMaxSide_def split: if_splits)
qed

end
