(* ===== verification/Chat_History.thy ===== *)
theory Chat_History
  imports Chat_Properties
begin

text \<open>
  What readers get: the conversation id, pages of history, reactions that are one emoji.
\<close>

section \<open>The conversation id\<close>

lemma nibble_less: "nibble u k < 16"
  by (simp add: nibble_def)

lemma hexdigit_inj: "a < 16 \<Longrightarrow> b < 16 \<Longrightarrow> hexdigit a = hexdigit b \<Longrightarrow> a = b"
proof -
  have d: "distinct ''0123456789abcdef''" "length ''0123456789abcdef'' = 16" by simp_all
  show "a < 16 \<Longrightarrow> b < 16 \<Longrightarrow> hexdigit a = hexdigit b \<Longrightarrow> a = b"
    unfolding hexdigit_def using d nth_eq_iff_index_eq [OF d(1), of a b] by simp
qed

text \<open>The digits determine the number.\<close>

lemma nibbles_determine:
  assumes "\<And>k. k < n \<Longrightarrow> (x::nat) div 16 ^ k mod 16 = y div 16 ^ k mod 16"
  shows "x mod 16 ^ n = y mod 16 ^ n"
  using assms
proof (induction n)
  case (Suc n)
  have "z mod 16 ^ Suc n = 16 ^ n * (z div 16 ^ n mod 16) + z mod 16 ^ n" for z :: nat
    using mod_mult2_eq [of z "16 ^ n" 16] by (simp add: mult.commute)
  with Suc show ?case by simp
qed simp

lemma uuid_String_inj: "uuid_String u = uuid_String v \<Longrightarrow> u = v"
proof -
  assume eq: "uuid_String u = uuid_String v"
  have len: "length (hex w a b) = b - a" for w a b by (simp add: hex_def)
  have "hex u 0 8 = hex v 0 8" "hex u 8 12 = hex v 8 12" "hex u 12 16 = hex v 12 16" "hex u 16 20 = hex v 16 20"
      "hex u 20 32 = hex v 20 32"
    using eq by (simp_all add: uuid_String_def append_eq_append_conv len)
  note parts = this
  have part: "hexdigit (nibble u k) = hexdigit (nibble v k)" if "hex u a b = hex v a b" "a \<le> k" "k < b" for a b k
    using that unfolding hex_def map_eq_conv by simp
  have "hexdigit (nibble u k) = hexdigit (nibble v k)" if "k < 32" for k
  proof -
    consider "k < 8" | "8 \<le> k" "k < 12" | "12 \<le> k" "k < 16" | "16 \<le> k" "k < 20" | "20 \<le> k" using that by linarith
    then show ?thesis
      by cases (use parts part [of 0 8 k] part [of 8 12 k] part [of 12 16 k] part [of 16 20 k] part [of 20 32 k] that in simp_all)
  qed
  then have nib: "nibble u k = nibble v k" if "k < 32" for k
    using that hexdigit_inj nibble_less by blast
  have "unat u div 16 ^ k mod 16 = unat v div 16 ^ k mod 16" if "k < 32" for k
    using nib [of "31 - k"] that by (simp add: nibble_def)
  then have "unat u mod 16 ^ 32 = unat v mod 16 ^ 32" by (rule nibbles_determine)
  moreover have "unat w < 16 ^ 32" for w :: uuid using unsigned_less [of w] by simp
  ultimately show "u = v" by (metis mod_less word_unat_eq_iff)
qed

lemma length_uuid_String: "length (uuid_String u) = 36"
  by (simp add: uuid_String_def hex_def)

text \<open>
  A private conversation has one id whichever side computes it, and two conversations never
  share one.
\<close>

theorem conversation_id_exact:
  "PrivateChatID a b = PrivateChatID c d \<longleftrightarrow> {a, b} = {c, d}"
proof
  assume eq: "PrivateChatID a b = PrivateChatID c d"
  have cut: "uuid_String a' @ ''_'' @ uuid_String b' = uuid_String c' @ ''_'' @ uuid_String d' \<Longrightarrow> a' = c' \<and> b' = d'" for a' b' c' d'
    using uuid_String_inj by (simp add: append_eq_append_conv length_uuid_String)
  show "{a, b} = {c, d}"
    using eq cut [of a b c d] cut [of b a c d] cut [of a b d c] cut [of b a d c]
    by (auto simp: PrivateChatID_def split: if_splits)
next
  assume "{a, b} = {c, d}"
  then have "(c = a \<and> d = b) \<or> (c = b \<and> d = a)" by (auto simp: doubleton_eq_iff)
  moreover have "PrivateChatID a b = PrivateChatID b a"
    using uuid_String_inj [of a b] by (auto simp: PrivateChatID_def)
  ultimately show "PrivateChatID a b = PrivateChatID c d" by auto
qed

section \<open>Sorting by time and id\<close>

text \<open>\<open>newest\<close>: rows by time and then id, the latest first: \<open>ORDER BY created_at DESC, id DESC\<close>.\<close>

definition newest :: "('r \<Rightarrow> time) \<Rightarrow> ('r \<Rightarrow> uuid) \<Rightarrow> 'r list \<Rightarrow> 'r list" where
  "newest at i rows = rev (sort_key at (sort_key i rows))"

definition not_after :: "('r \<Rightarrow> time) \<Rightarrow> ('r \<Rightarrow> uuid) \<Rightarrow> 'r \<Rightarrow> 'r \<Rightarrow> bool" where
  "not_after at i x y \<longleftrightarrow> at x < at y \<or> (at x = at y \<and> i x \<le> i y)"

lemma insort_not_after:
  assumes "sorted_wrt (not_after at i) ys" "\<forall>y \<in> set ys. i x \<le> i y"
  shows "sorted_wrt (not_after at i) (insort_key at x ys)"
  using assms
proof (induction ys)
  case (Cons y ys)
  show ?case
  proof (cases "at x \<le> at y")
    case True
    have "not_after at i x z" if "z \<in> set (y # ys)" for z
    proof -
      have "at y \<le> at z" using Cons.prems(1) that by (auto simp: not_after_def)
      with True Cons.prems(2) that show ?thesis by (auto simp: not_after_def)
    qed
    with True Cons.prems(1) show ?thesis by simp
  next
    case False
    have "not_after at i y z" if "z \<in> set (insort_key at x ys)" for z
      using that False Cons.prems(1) by (auto simp: set_insort_key not_after_def)
    with False Cons show ?thesis by simp
  qed
qed simp

lemma sort_sort_not_after: "sorted_wrt (not_after at i) (sort_key at (sort_key i rows))"
proof -
  have "sorted_wrt (\<lambda>x y. i x \<le> i y) (sort_key i rows)"
    using sorted_sort_key [of i rows] by (simp add: sorted_map)
  then show ?thesis
  proof (induction "sort_key i rows" arbitrary: rows)
    case Nil
    then show ?case by (metis sort_key_simps(1) sorted_wrt.simps(1))
  next
    case (Cons x xs)
    have "sorted_wrt (\<lambda>x y. i x \<le> i y) xs" "\<forall>y \<in> set xs. i x \<le> i y"
      using Cons.prems Cons.hyps(2) by (metis sorted_wrt.simps(2))+
    moreover from this(1) have "sort_key i xs = xs" by (simp add: sorted_map sort_key_id_if_sorted)
    ultimately have "sorted_wrt (not_after at i) (sort_key at xs)" using Cons.hyps(1) [of xs] by simp
    then have "sorted_wrt (not_after at i) (sort_key at (x # xs))"
      using \<open>\<forall>y \<in> set xs. i x \<le> i y\<close> by (simp add: insort_not_after)
    then show ?case by (metis Cons.hyps(2))
  qed
qed

lemma newest_sorted: "sorted_wrt (\<lambda>x y. not_after at i y x) (newest at i rows)"
  by (simp add: newest_def sorted_wrt_rev sort_sort_not_after)

lemma set_newest [simp]: "set (newest at i rows) = set rows"
  by (simp add: newest_def)

lemma mset_newest: "mset (newest at i rows) = mset rows"
  by (simp add: newest_def)

lemma length_newest [simp]: "length (newest at i rows) = length rows"
  by (simp add: newest_def)

lemma distinct_newest: "distinct (map i rows) \<Longrightarrow> distinct (map i (newest at i rows))"
  by (simp add: distinct_map newest_def)

lemma filter_newest: "filter p (newest at i rows) = newest at i (filter p rows)"
  by (simp add: newest_def rev_filter [symmetric] filter_sort)

text \<open>What is strictly earlier than the \<open>k\<close>-th row is exactly what comes after it.\<close>

lemma filter_earlier:
  assumes "distinct (map i xs)" "sorted_wrt (\<lambda>x y. not_after at i y x) xs" "k < length xs"
  shows "filter (\<lambda>m. earlier (at m) (i m) (at (xs ! k)) (i (xs ! k))) xs = drop (Suc k) xs"
proof -
  let ?p = "\<lambda>m. earlier (at m) (i m) (at (xs ! k)) (i (xs ! k))"
  have before: "\<not> ?p (xs ! j)" if "j \<le> k" for j
  proof (cases "j = k")
    case False
    with that have "not_after at i (xs ! k) (xs ! j)"
      using sorted_wrt_nth_less [OF assms(2), of j k] assms(3) by simp
    then show ?thesis by (auto simp: not_after_def earlier_def)
  qed (simp add: earlier_def)
  have after: "?p (xs ! j)" if "k < j" "j < length xs" for j
  proof -
    have "not_after at i (xs ! j) (xs ! k)" using sorted_wrt_nth_less [OF assms(2), of k j] that by simp
    moreover have "i (xs ! j) \<noteq> i (xs ! k)"
      using nth_eq_iff_index_eq [OF assms(1), of j k] that assms(3) by simp
    ultimately show ?thesis by (auto simp: not_after_def earlier_def)
  qed
  have "filter ?p (take (Suc k) xs) = []"
    using before assms(3) by (auto simp: filter_empty_conv in_set_conv_nth)
  moreover have "filter ?p (drop (Suc k) xs) = drop (Suc k) xs"
    using after by (auto simp: filter_id_conv in_set_conv_nth)
  ultimately show ?thesis using filter_append [of ?p "take (Suc k) xs" "drop (Suc k) xs"] by simp
qed

text \<open>A page before the \<open>k\<close>-th message of a history is the next part of that history.\<close>

lemma page_before:
  assumes "distinct (map i rows)" "h = newest at i (filter p rows)" "k < length h"
  shows "take n (rev (sort_key at (sort_key i
    (filter (\<lambda>m. p m \<and> earlier (at m) (i m) (at (h ! k)) (i (h ! k))) rows)))) = take n (drop (Suc k) h)"
proof -
  let ?e = "\<lambda>m. earlier (at m) (i m) (at (h ! k)) (i (h ! k))"
  have d: "distinct (map i h)" unfolding assms(2) by (rule distinct_newest) (simp add: assms(1) distinct_map_filter)
  have "rev (sort_key at (sort_key i (filter (\<lambda>m. p m \<and> ?e m) rows))) = newest at i (filter ?e (filter p rows))"
    by (simp add: newest_def conj_commute)
  also have "\<dots> = filter ?e h" by (simp add: assms(2) filter_newest)
  also have "\<dots> = drop (Suc k) h" by (rule filter_earlier [OF d _ assms(3)]) (simp add: assms(2) newest_sorted)
  finally show ?thesis by simp
qed

lemma find_row_unique:
  assumes "r \<in> set rows" "p r" "\<And>x. x \<in> set rows \<Longrightarrow> p x \<Longrightarrow> x = r"
  shows "find_row p rows = Some r"
proof (cases "find_row p rows")
  case None
  with assms(1,2) show ?thesis by (auto simp: find_row_None exists_row_def)
next
  case (Some x)
  with assms(3) find_row_Some show ?thesis by metis
qed

section \<open>Paging back\<close>

text \<open>
  A client that scrolls back: it asks for the page before the oldest message it has, until a page
  is empty. The pages come oldest first.
\<close>

fun older :: "nat \<Rightarrow> (uuid \<Rightarrow> chat_err fail + MessageMetaDataRes list) \<Rightarrow> uuid \<Rightarrow> MessageMetaDataRes list" where
  "older 0 page i = []"
| "older (Suc n) page i = (case page i of Inr (m # ms) \<Rightarrow> older n page (mr_ID m) @ m # ms | _ \<Rightarrow> [])"

lemma take_append_rest: "take l xs @ drop (length (take l xs)) xs = xs"
  by (cases "l \<le> length xs") (simp_all del: length_take add: min_def length_take)

lemma older_walk:
  assumes "\<And>k. k < length h \<Longrightarrow> page (i (h ! k)) = Inr (rev (map f (take l (drop (Suc k) h))))"
    and "\<And>x. mr_ID (f x) = i x" "0 < l" "k < length h" "length h \<le> n + k"
  shows "older n page (i (h ! k)) = rev (map f (drop (Suc k) h))"
  using assms(4,5)
proof (induction n arbitrary: k)
  case (Suc n)
  let ?p = "take l (drop (Suc k) h)"
  show ?case
  proof (cases "drop (Suc k) h = []")
    case True
    with assms(1) [OF Suc.prems(1)] show ?thesis by simp
  next
    case False
    then have ne: "?p \<noteq> []" using assms(3) by simp
    let ?j = "k + length ?p"
    have j: "?j < length h" "k < ?j" using False assms(3) by auto
    have last: "last ?p = h ! ?j"
      using ne j by (simp add: last_conv_nth)
    obtain m ms where m: "rev (map f ?p) = m # ms" using ne by (cases "rev (map f ?p)") auto
    then have "m = f (h ! ?j)" using last ne by (metis hd_rev last_map list.sel(1) map_is_Nil_conv)
    then have "mr_ID m = i (h ! ?j)" by (simp add: assms(2))
    then have "older (Suc n) page (i (h ! k)) = older n page (i (h ! ?j)) @ rev (map f ?p)"
      using assms(1) [OF Suc.prems(1)] m by simp
    also have "\<dots> = rev (map f (drop (Suc ?j) h)) @ rev (map f ?p)"
      using Suc.IH [OF j(1)] Suc.prems(2) j(2) by (simp only: append_same_eq)
    also have "\<dots> = rev (map f (?p @ drop (length ?p) (drop (Suc k) h)))"
      by (simp add: add.commute)
    also have "?p @ drop (length ?p) (drop (Suc k) h) = drop (Suc k) h"
      by (rule take_append_rest)
    finally show ?thesis .
  qed
qed simp

definition back_from :: "uuid \<Rightarrow> int \<Rightarrow> HistoryQuery" where
  "back_from i l = \<lparr>hq_Since = NoSince, hq_Before = Id i, hq_Limit = l\<rparr>"

definition page_limit :: "int \<Rightarrow> nat" where
  "page_limit l = (if l > 0 then nat (min l (int maxPage)) else pageSize)"

lemma page_limit_pos [simp]: "0 < page_limit l"
  by (simp add: page_limit_def maxPage_def pageSize_def)

lemma parse_back_from [simp]: "parse_query (back_from i l) = Inr (i, page_limit l)"
  by (simp add: parse_query_def back_from_def page_limit_def)

lemma privateHistory_before:
  assumes "chat_inv s" "\<And>c. \<not> ch_fails e c" "h = newest m_created_at m_id (filter (between a b) (message (cy_db s)))" "k < length h"
  shows "privateHistory e a b (back_from (m_id (h ! k)) l) (cy_db s) = Inr (rev (map fromPrivate (take (page_limit l) (drop (Suc k) h))))"
proof -
  let ?d = "cy_db s"
  have keys: "key_ok m_id (message ?d)" and ok: "\<forall>m \<in> set (message ?d). message_ok (message ?d) m"
    using assms(1) by (auto simp: chat_inv_def private_ok_def)
  have "h ! k \<in> set h" using assms(4) by simp
  then have m: "h ! k \<in> set (message ?d)" "between a b (h ! k)" by (auto simp: assms(3))
  then have "m_id (h ! k) \<noteq> Nil_uuid" using ok by (auto simp: message_ok_def)
  have "find_row (\<lambda>m. m_id m = m_id (h ! k) \<and> between a b m) (message ?d) = Some (h ! k)"
    by (rule find_row_unique [OF m(1)]) (use m(2) key_ok_unique [OF keys _ m(1)] in auto)
  then have cursor: "PrivateMessageCursor (m_id (h ! k)) a b ?d = Inr (m_created_at (h ! k))"
    by (simp add: PrivateMessageCursor_def)
  have "GetPrivateMessagesBefore a b (m_created_at (h ! k)) (m_id (h ! k)) n ?d = take n (drop (Suc k) h)" for n
    unfolding GetPrivateMessagesBefore_def by (rule page_before [OF _ assms(3,4)]) (use keys in \<open>simp add: key_ok_def\<close>)
  with cursor \<open>m_id (h ! k) \<noteq> Nil_uuid\<close> assms(2) show ?thesis
    by (simp add: privateHistory_def PrivateBefore_def rev_map)
qed

lemma groupHistory_before:
  assumes "chat_inv s" "\<And>c. \<not> ch_fails e c" "ch_isMember e gid u = Inr True"
    and "h = newest gm_created_at gm_id (filter (visible_in gid u (cy_db s)) (groupmessage (cy_db s)))" "k < length h"
  shows "groupHistory e u gid (back_from (gm_id (h ! k)) l) (cy_db s) = Inr (rev (map fromPublic (take (page_limit l) (drop (Suc k) h))))"
proof -
  let ?d = "cy_db s"
  have keys: "key_ok gm_id (groupmessage ?d)" and ok: "\<forall>m \<in> set (groupmessage ?d). groupmessage_ok (groupmessage ?d) m"
    using assms(1) by (auto simp: chat_inv_def public_ok_def)
  have "h ! k \<in> set h" using assms(5) by simp
  then have m: "h ! k \<in> set (groupmessage ?d)" "visible_in gid u ?d (h ! k)" by (auto simp: assms(4))
  then have "gm_id (h ! k) \<noteq> Nil_uuid" using ok by (auto simp: groupmessage_ok_def)
  have "find_row (\<lambda>m. gm_id m = gm_id (h ! k) \<and> gm_group_id m = Some gid) (groupmessage ?d) = Some (h ! k)"
    by (rule find_row_unique [OF m(1)]) (use m(2) key_ok_unique [OF keys _ m(1)] in \<open>auto simp: visible_in_def\<close>)
  then have cursor: "GroupMessageCursor (gm_id (h ! k)) gid ?d = Inr (gm_created_at (h ! k))"
    by (simp add: GroupMessageCursor_def)
  have "GetGroupMessagesBefore gid u (gm_created_at (h ! k)) (gm_id (h ! k)) n ?d = take n (drop (Suc k) h)" for n
    unfolding GetGroupMessagesBefore_def by (rule page_before [OF _ assms(4,5)]) (use keys in \<open>simp add: key_ok_def\<close>)
  with cursor \<open>gm_id (h ! k) \<noteq> Nil_uuid\<close> assms(2,3) show ?thesis
    by (simp add: groupHistory_def back_from_def [symmetric] GroupBefore_def rev_map from_groups_of_Inr)
      (simp add: back_from_def)
qed

text \<open>
  C20: paging is exact: a client that scrolls back from any message of a private chat, or of a group it
  is a member of, with whatever page size it asks for, gets every older message of the chat (in a
  group: every one since it joined) exactly once and in order, also when several carry the
  same time, and nothing else.
\<close>

theorem scrolling_back_is_exact:
  assumes "chat_inv s" "\<And>c. \<not> ch_fails e c"
  shows "(h = newest m_created_at m_id (filter (between a b) (message (cy_db s))) \<and> k < length h \<longrightarrow>
      older (length h) (\<lambda>i. privateHistory e a b (back_from i l) (cy_db s)) (m_id (h ! k)) = rev (map fromPrivate (drop (Suc k) h))) \<and>
    (g = newest gm_created_at gm_id (filter (visible_in gid u (cy_db s)) (groupmessage (cy_db s))) \<and> k < length g \<and>
      ch_isMember e gid u = Inr True \<longrightarrow>
      older (length g) (\<lambda>i. groupHistory e u gid (back_from i l) (cy_db s)) (gm_id (g ! k)) = rev (map fromPublic (drop (Suc k) g)))"
proof (intro conjI impI)
  assume h: "h = newest m_created_at m_id (filter (between a b) (message (cy_db s))) \<and> k < length h"
  show "older (length h) (\<lambda>i. privateHistory e a b (back_from i l) (cy_db s)) (m_id (h ! k)) = rev (map fromPrivate (drop (Suc k) h))"
    by (rule older_walk [where l = "page_limit l"])
      (use h privateHistory_before [OF assms] in \<open>auto simp: fromPrivate_def\<close>)
next
  assume g: "g = newest gm_created_at gm_id (filter (visible_in gid u (cy_db s)) (groupmessage (cy_db s))) \<and> k < length g \<and>
      ch_isMember e gid u = Inr True"
  show "older (length g) (\<lambda>i. groupHistory e u gid (back_from i l) (cy_db s)) (gm_id (g ! k)) = rev (map fromPublic (drop (Suc k) g))"
    by (rule older_walk [where l = "page_limit l"])
      (use g groupHistory_before [OF assms] in \<open>auto simp: fromPublic_def\<close>)
qed

theorem scrolling_back_is_exact_witness:
  "older 1 (\<lambda>i. privateHistory (easy_chat 0 9000) 1 2 (back_from i 10) (cy_db greeted)) 20 = []"
proof -
  have h: "newest m_created_at m_id (filter (between 1 2) (message (cy_db greeted))) = [hello_row]"
    by (simp add: newest_def greeted_def between_def hello_row_def)
  from scrolling_back_is_exact [OF chat_inv_greeted, of "easy_chat 0 9000" "[hello_row]" 1 2 0 10] h
  show ?thesis by (simp add: hello_row_def)
qed

text \<open>
  The first page is ordered by time only, so where the times of two messages are equal the order of
  the rows decides, and a client can miss one: of two messages of the same time the first page of
  one shows the first, and nothing is before it.
\<close>

definition twin_row :: message_row where
  "twin_row = hello_row\<lparr>m_id := 21\<rparr>"

lemma equal_times_skip_a_message:
  fixes d :: db
  assumes "message d = [hello_row, twin_row]"
  shows "RecentPrivate (easy_chat 0 9000) 1 2 1 d = Inr [fromPrivate hello_row]"
    "privateHistory (easy_chat 0 9000) 1 2 (back_from 20 1) d = Inr []"
  by (simp_all add: assms RecentPrivate_def GetRecentPrivateMessages_def query_def twin_row_def hello_row_def between_def
    privateHistory_def PrivateBefore_def PrivateMessageCursor_def GetPrivateMessagesBefore_def earlier_def one_row_def)

section \<open>What a page shows\<close>

lemma Suspended_Inr:
  assumes "Suspended e is s = (Inr banned, s')"
  shows "is = [] \<or> (\<exists>bans. (\<forall>i. banned i \<longleftrightarrow> i \<in> set is \<and> i \<in> set bans) \<and>
    (bans = AllBannedUsers (cy_db s) \<or> (\<exists>t. cy_banned s = Some (bans, t) \<and> ch_now e - t < bannedTTL)))"
  using assms
  by (auto simp: Suspended_def banned_get_def split: if_splits option.splits sum.splits prod.splits)

text \<open>\<open>blanked\<close>: nothing of the message is shown. \<open>shown bans x m\<close>: \<open>m\<close> is \<open>x\<close> as a page shows it.\<close>

definition blanked :: "MessageMetaDataRes \<Rightarrow> bool" where
  "blanked m \<longleftrightarrow> mr_SenderSuspended m \<and> mr_Content m = [] \<and> mr_Media m = [] \<and> mr_Reactions m = []"

definition shown :: "uuid list \<Rightarrow> MessageMetaDataRes \<Rightarrow> MessageMetaDataRes \<Rightarrow> bool" where
  "shown bans x m \<longleftrightarrow> mr_ID m = mr_ID x \<and> mr_FromID m = mr_FromID x \<and> mr_Deleted m = mr_Deleted x \<and>
     (mr_Deleted m \<longrightarrow> mr_Content m = [] \<and> mr_Media m = []) \<and>
     (mr_FromID m \<noteq> Nil_uuid \<and> mr_FromID m \<in> set bans \<longrightarrow> blanked m)"

lemma with_state_shown: "(mr_FromID x \<noteq> Nil_uuid \<Longrightarrow> mr_FromID x \<in> set bans \<Longrightarrow> banned (mr_FromID x)) \<Longrightarrow>
    shown bans x (with_state_of counts att banned x)"
  by (cases "banned (mr_FromID x)") (auto simp: shown_def blanked_def with_state_of_def Let_def)

lemma withState_Inr:
  assumes "withState e kind me msgs s = (Inr page, s')"
  obtains bans where "\<And>m. m \<in> set page \<Longrightarrow> \<exists>x \<in> set msgs. shown bans x m"
    "bans = AllBannedUsers (cy_db s) \<or> (\<exists>t. cy_banned s = Some (bans, t) \<and> ch_now e - t < bannedTTL)" "length page = length msgs"
proof -
  let ?senders = "filter (\<lambda>u. u \<noteq> Nil_uuid) (remdups (map mr_FromID msgs))"
  obtain counts att banned where page: "page = map (with_state_of counts att banned) msgs"
      and b: "Suspended e ?senders s = (Inr banned, s')"
    using assms by (auto simp: withState_def Let_def split: sum.splits prod.splits)
  have "\<exists>bans. (\<forall>i \<in> set ?senders. i \<in> set bans \<longrightarrow> banned i) \<and>
    (bans = AllBannedUsers (cy_db s) \<or> (\<exists>t. cy_banned s = Some (bans, t) \<and> ch_now e - t < bannedTTL))"
    using Suspended_Inr [OF b]
  proof
    assume "?senders = []"
    then show ?thesis by (intro exI [of _ "AllBannedUsers (cy_db s)"]) simp
  next
    assume "\<exists>bans. (\<forall>i. banned i \<longleftrightarrow> i \<in> set ?senders \<and> i \<in> set bans) \<and>
      (bans = AllBannedUsers (cy_db s) \<or> (\<exists>t. cy_banned s = Some (bans, t) \<and> ch_now e - t < bannedTTL))"
    then show ?thesis by blast
  qed
  then obtain bans where bans: "\<forall>i \<in> set ?senders. i \<in> set bans \<longrightarrow> banned i"
      "bans = AllBannedUsers (cy_db s) \<or> (\<exists>t. cy_banned s = Some (bans, t) \<and> ch_now e - t < bannedTTL)" by blast
  show ?thesis
  proof (rule that [OF _ bans(2)])
    fix m assume "m \<in> set page"
    then obtain x where x: "x \<in> set msgs" "m = with_state_of counts att banned x" by (auto simp: page)
    have "shown bans x m" unfolding x(2) by (rule with_state_shown) (use bans(1) x(1) in simp)
    with x(1) show "\<exists>x \<in> set msgs. shown bans x m" by blast
  qed (simp add: page)
qed

lemma groupHistory_Inr:
  assumes "groupHistory e u gid q d = Inr msgs"
  shows "ch_isMember e gid u = Inr True" "length msgs \<le> 100"
    "\<And>x. (\<And>rows. set (ch_gscan e rows) = set rows) \<Longrightarrow> x \<in> set msgs \<Longrightarrow> \<exists>m \<in> set (groupmessage d). x = fromPublic m \<and> visible_in gid u d m"
proof -
  obtain i l where p: "parse_query q = Inr (i, l)" and mem: "ch_isMember e gid u = Inr True"
    and page: "(if i \<noteq> Nil_uuid then GroupBefore e gid u i l d else RecentPublic e gid u l d) = Inr msgs"
    using assms by (auto simp: groupHistory_def split: if_splits sum.splits)
  have l: "l \<le> 100" using p by (auto simp: parse_query_def Let_def maxPage_def pageSize_def split: if_splits id_text.splits)
  show "ch_isMember e gid u = Inr True" by (rule mem)
  show "length msgs \<le> 100"
    using page l by (auto simp: GroupBefore_def RecentPublic_def GetGroupMessagesBefore_def GetRecentGroupMessages_def
      split: if_splits sum.splits dberr.splits)
  fix x assume scan: "\<And>rows. set (ch_gscan e rows) = set rows" and x: "x \<in> set msgs"
  show "\<exists>m \<in> set (groupmessage d). x = fromPublic m \<and> visible_in gid u d m"
  proof (cases "i = Nil_uuid")
    case True
    with page x have "x \<in> fromPublic ` set (ch_gscan e (filter (visible_in gid u d) (groupmessage d)))"
      by (auto simp: RecentPublic_def GetRecentGroupMessages_def dest!: in_set_takeD)
    then show ?thesis unfolding scan by auto
  next
    case False
    with page x have "x \<in> fromPublic ` set (filter (visible_in gid u d) (groupmessage d))"
      by (auto simp: GroupBefore_def GetGroupMessagesBefore_def dest!: in_set_takeD split: sum.splits dberr.splits)
    then show ?thesis by auto
  qed
qed

text \<open>
  A page of a group's history goes to a member only, holds at most 100 messages, each of that
  group and sent since the reader joined, shows nothing of a deleted one, and nothing of what an
  account wrote that is banned, as of now or as of at most 30 seconds ago.
\<close>

theorem group_page_shows_no_more:
  assumes "groups_inv (gy_db g)" "snapshots_current g" "ch_isMember e = (\<lambda>i a. fst (IsMember ge ph i a g))"
    and "\<And>rows. set (ch_gscan e rows) = set rows"
    and "GroupMessages e u gid q s = (Inr page, s')"
  shows "is_member gid u (gy_db g) \<and> length page \<le> 100 \<and>
    (\<exists>bans. (bans = AllBannedUsers (cy_db s) \<or> (\<exists>t. cy_banned s = Some (bans, t) \<and> ch_now e - t < 30 * second)) \<and>
      (\<forall>m \<in> set page. \<exists>x \<in> set (groupmessage (cy_db s)). mr_ID m = gm_id x \<and> gm_group_id x = Some gid \<and>
        (\<exists>j. joined_at gid u (cy_db s) = Some j \<and> j \<le> gm_created_at x) \<and>
        (gm_deleted_at x \<noteq> None \<longrightarrow> mr_Content m = [] \<and> mr_Media m = []) \<and>
        (\<forall>w. gm_from_id x = Some w \<and> w \<noteq> Nil_uuid \<and> w \<in> set bans \<longrightarrow>
blanked m)))"
proof -
  obtain msgs where h: "groupHistory e u gid q (cy_db s) = Inr msgs" and w: "withState e TypePublic u msgs s = (Inr page, s')"
    using assms(5) by (auto simp: GroupMessages_def split: sum.splits)
  note hist = groupHistory_Inr [OF h]
  obtain g' where "IsMember ge ph gid u g = (Inr True, g')" using hist(1) assms(3) by (metis prod.collapse)
  with gm.isMember_true [OF _ this] assms(1,2) have "u \<in> member_set g gid" by blast
  then have mem: "is_member gid u (gy_db g)" by (auto simp: member_set_def is_member_iff split: if_splits)
  from w obtain bans where each: "\<And>m. m \<in> set page \<Longrightarrow> \<exists>x \<in> set msgs. shown bans x m"
      and bans: "bans = AllBannedUsers (cy_db s) \<or> (\<exists>t. cy_banned s = Some (bans, t) \<and> ch_now e - t < bannedTTL)"
      and len: "length page = length msgs"
    by (rule withState_Inr) metis
  have "\<exists>x \<in> set (groupmessage (cy_db s)). mr_ID m = gm_id x \<and> gm_group_id x = Some gid \<and>
        (\<exists>j. joined_at gid u (cy_db s) = Some j \<and> j \<le> gm_created_at x) \<and>
        (gm_deleted_at x \<noteq> None \<longrightarrow> mr_Content m = [] \<and> mr_Media m = []) \<and>
        (\<forall>w. gm_from_id x = Some w \<and> w \<noteq> Nil_uuid \<and> w \<in> set bans \<longrightarrow> blanked m)" if m: "m \<in> set page" for m
  proof -
    obtain y where y: "y \<in> set msgs" "shown bans y m" using each [OF m] by blast
    obtain x where x: "x \<in> set (groupmessage (cy_db s))" "y = fromPublic x" "visible_in gid u (cy_db s) x"
      using hist(3) [OF assms(4) y(1)] by blast
    have "mr_ID m = gm_id x" "mr_FromID m = unNull (gm_from_id x)" "mr_Deleted m \<longleftrightarrow> gm_deleted_at x \<noteq> None"
      using y(2) by (simp_all add: x(2) shown_def fromPublic_def)
    moreover obtain j where "gm_group_id x = Some gid" "joined_at gid u (cy_db s) = Some j" "j \<le> gm_created_at x"
      using x(3) by (auto simp: visible_in_def split: option.splits)
    ultimately show ?thesis
      using y(2) by (intro bexI [OF _ x(1)]) (auto simp: shown_def unNull_def)
  qed
  note entries = this
  show ?thesis
  proof (intro conjI)
    show "is_member gid u (gy_db g)" by (rule mem)
    show "length page \<le> 100" using len hist(2) by simp
  next
    show "\<exists>bans. (bans = AllBannedUsers (cy_db s) \<or> (\<exists>t. cy_banned s = Some (bans, t) \<and> ch_now e - t < 30 * second)) \<and>
      (\<forall>m \<in> set page. \<exists>x \<in> set (groupmessage (cy_db s)). mr_ID m = gm_id x \<and> gm_group_id x = Some gid \<and>
        (\<exists>j. joined_at gid u (cy_db s) = Some j \<and> j \<le> gm_created_at x) \<and>
        (gm_deleted_at x \<noteq> None \<longrightarrow> mr_Content m = [] \<and> mr_Media m = []) \<and>
        (\<forall>w. gm_from_id x = Some w \<and> w \<noteq> Nil_uuid \<and> w \<in> set bans \<longrightarrow> blanked m))"
      by (rule exI [of _ bans], rule conjI, rule bans [unfolded bannedTTL_def], rule ballI, rule entries)
  qed
qed

definition reading_groups :: chat_env where
  "reading_groups = asking_groups\<lparr>ch_isMember := \<lambda>i a. fst (IsMember (quiet_genv 1) 0 i a devs_sys)\<rparr>"

definition latest :: HistoryQuery where
  "latest = \<lparr>hq_Since = NoSince, hq_Before = NoId, hq_Limit = 10\<rparr>"

theorem group_page_shows_no_more_witness:
  "\<exists>page s'. GroupMessages reading_groups 2 7 latest devs_chatting = (Inr page, s') \<and> length page \<le> 100 \<and>
     is_member 7 2 (gy_db devs_sys)"
proof -
  obtain ms s2 s1 where im: "IsMember (quiet_genv 1) 0 7 2 devs_sys = (Inr True, s1)" "Members (quiet_genv 1) 1 7 s1 = (Inr ms, s2)"
    using devs_members by blast
  have "\<exists>page s'. GroupMessages reading_groups 2 7 latest devs_chatting = (Inr page, s')"
    using im(1)
    by (simp add: reading_groups_def latest_def GroupMessages_def groupHistory_def parse_query_def RecentPublic_def withState_def
      ReactionCounts_def Suspended_def banned_get_def Let_def query_def from_groups_of_Inr devs_chatting_def in_devs_def asking_groups_def)
  then obtain page s' where page: "GroupMessages reading_groups 2 7 latest devs_chatting = (Inr page, s')" by blast
  have e: "ch_isMember reading_groups = (\<lambda>i a. fst (IsMember (quiet_genv 1) 0 i a devs_sys))" by (simp add: reading_groups_def)
  have scan: "\<And>rows. set (ch_gscan reading_groups rows) = set rows" by (simp add: reading_groups_def asking_groups_def)
  note no_more = group_page_shows_no_more [OF devs_inv devs_current e scan page]
  have "length page \<le> 100 \<and> is_member 7 2 (gy_db devs_sys)"
    using conjunct1 [OF no_more] conjunct1 [OF conjunct2 [OF no_more]] by (rule conjI [rotated])
  with page show ?thesis by blast
qed

end
