(* ===== verification/Media_Safety.thy ===== *)
theory Media_Safety
  imports Media Chat_History
begin

text \<open>
  Runs of media operations: the limits hold, and what is shown as available can be downloaded.
\<close>

section \<open>Requests and steps around them\<close>

text \<open>The phone uses an upload link: it works once, for the declared size, while it is valid.\<close>

definition phone_put :: "media_env \<Rightarrow> uuid \<Rightarrow> media_sys \<Rightarrow> media_sys" where
  "phone_put e i s = (case find_row (\<lambda>m. md_id m = i) (media (ms_db s)) of
     None \<Rightarrow> s
   | Some m \<Rightarrow> if ms_store s (media_key i) = None \<and> me_now e \<le> md_created_at m + uploadTTL + second
       then s\<lparr>ms_store := (ms_store s)(media_key i \<mapsto> md_size m)\<rparr> else s)"

text \<open>An account is deleted: its media lose their owner and its downloads go.\<close>

definition owner_gone :: "uuid \<Rightarrow> media_sys \<Rightarrow> media_sys" where
  "owner_gone u s = s\<lparr>ms_db := (ms_db s)\<lparr>
     media := update_rows (\<lambda>m. md_owner_id m = Some u) (\<lambda>m. m\<lparr>md_owner_id := None\<rparr>) (media (ms_db s)),
     media_downloads := delete_rows (\<lambda>r. dl_user_id r = u) (media_downloads (ms_db s))\<rparr>\<rparr>"

datatype media_request =
    DoNewUpload uuid NewUploadRequest | DoPhonePut uuid | DoAttach uuid "uuid list" string uuid uuid
  | DoExpireGroup uuid | DoExpireMessage uuid | DoDownload uuid uuid | DoCleanup | DoSetThumbnail uuid uuid string
  | DoThumbnail uuid uuid | DoDuplicate uuid uuid | DoOwnerGone uuid

fun media_exec :: "media_env \<Rightarrow> media_request \<Rightarrow> media_sys \<Rightarrow> media_sys" where
  "media_exec e (DoNewUpload u r) s = snd (NewUpload e u r s)"
| "media_exec e (DoPhonePut i) s = phone_put e i s"
| "media_exec e (DoAttach u xs ct chat msg) s = snd (Attach e u xs ct chat msg s)"
| "media_exec e (DoExpireGroup g) s = snd (ExpireGroup e g s)"
| "media_exec e (DoExpireMessage m) s = snd (ExpireMessage e m s)"
| "media_exec e (DoDownload u i) s = snd (Download e u i s)"
| "media_exec e DoCleanup s = snd (Cleanup e s)"
| "media_exec e (DoSetThumbnail u i raw) s = snd (SetThumbnail e u i raw s)"
| "media_exec e (DoThumbnail u i) s = snd (Thumbnail e u i s)"
| "media_exec e (DoDuplicate u i) s = snd (Duplicate e u i s)"
| "media_exec e (DoOwnerGone u) s = owner_gone u s"

fun media_run :: "(media_env \<times> media_request) list \<Rightarrow> media_sys \<Rightarrow> media_sys" where
  "media_run [] s = s"
| "media_run ((e, x) # xs) s = media_run xs (media_exec e x s)"

text \<open>The clock of the run does not go back.\<close>

fun clock_from :: "time \<Rightarrow> (media_env \<times> media_request) list \<Rightarrow> bool" where
  "clock_from t [] \<longleftrightarrow> True"
| "clock_from t ((e, x) # xs) \<longleftrightarrow> t \<le> me_now e \<and> clock_from (me_now e) xs"

fun end_of :: "time \<Rightarrow> (media_env \<times> media_request) list \<Rightarrow> time" where
  "end_of t [] = t"
| "end_of t ((e, x) # xs) = end_of (me_now e) xs"

section \<open>From statements to operations\<close>

abbreviation rows :: "media_sys \<Rightarrow> medium list" where
  "rows s \<equiv> media (ms_db s)"

definition fits :: "media_env \<Rightarrow> uuid \<Rightarrow> int \<Rightarrow> media_sys \<Rightarrow> bool" where
  "fits e owner sz s \<longleftrightarrow>
     sum_list (map md_size (filter (\<lambda>m. md_owner_id m = Some owner \<and> pgTime (me_now e - 24 * hour) \<le> md_created_at m) (rows s))) + sz
       \<le> DailyUserBytes \<and>
     int (length (filter (\<lambda>m. md_owner_id m = Some owner \<and> pgTime (me_now e - 24 * hour) < md_created_at m) (rows s))) < DailyUserFiles \<and>
     sum_list (map md_size (filter Media_DB.live (rows s))) + sz \<le> uploadCapBytes"

lemma within_limits_same: "snd (within_limits e owner sz s) = s"
  by (auto simp: within_limits_def overQuota_def andDo_def sql_query_def ret_def stop_def break_off_def split: sum.split prod.split)

lemma within_limits_Inr: "within_limits e owner sz s = (Inr u, t) \<longleftrightarrow> fits e owner sz s \<and> t = s \<and>
    \<not> me_fails e MUploaded \<and> \<not> me_fails e MCreated \<and> \<not> me_fails e MStored \<and> \<not> me_fails e MNewID"
  by (auto simp: within_limits_def overQuota_def andDo_Inr MediaUploadedSince_def MediaCreatedSince_def MediaStoredBytes_def
      fits_def split: if_splits)

lemma all2_update: "(\<And>m. p m \<Longrightarrow> R m (f m)) \<Longrightarrow> (\<And>m. R m m) \<Longrightarrow> list_all2 R xs (update_rows p f xs)"
  by (induction xs) auto

lemma all2_from: "list_all2 R xs ys \<Longrightarrow> y \<in> set ys \<Longrightarrow> \<exists>x \<in> set xs. R x y"
  by (induction rule: list_all2_induct) auto

definition object_of :: "uuid \<Rightarrow> media_sys \<Rightarrow> bool" where
  "object_of i s \<longleftrightarrow> (\<forall>m \<in> set (rows s). md_id m = i \<longrightarrow> ms_store s (media_key i) = Some (md_size m))"

text \<open>\<open>P t s\<close>: the property at time \<open>t\<close>. \<open>ok\<close>: what is asked of the surroundings of an operation.\<close>

locale media_steps =
  fixes P :: "time \<Rightarrow> media_sys \<Rightarrow> bool" and ok :: "media_env \<Rightarrow> bool"
  assumes later: "P t s \<Longrightarrow> t \<le> t' \<Longrightarrow> P t' s"
    and keyed: "P t s \<Longrightarrow> key_ok md_id (rows s)"
    and create: "P t s \<Longrightarrow> t \<le> me_now e \<Longrightarrow> fits e (cm_OwnerID a) (cm_Size a) s \<Longrightarrow> cm_Now a = pgTime (me_now e) \<Longrightarrow>
      CreateMedia a (ms_db s) = Inr d \<Longrightarrow> P (me_now e) (s\<lparr>ms_db := d\<rparr>)"
    and put: "P t s \<Longrightarrow> ms_store s (media_key i) = None \<or> (\<forall>m \<in> set (rows s). md_id m = i \<longrightarrow> md_status m \<noteq> status_ready) \<Longrightarrow>
      P t (s\<lparr>ms_store := (ms_store s)(media_key i \<mapsto> n)\<rparr>)"
    and put_thumb: "P t s \<Longrightarrow> P t (s\<lparr>ms_store := (ms_store s)(thumbKey i \<mapsto> n)\<rparr>)"
    and attach: "P t s \<Longrightarrow> object_of i s \<Longrightarrow> AttachMedia i owner ct chat msg (ms_db s) = Inr (k, d) \<Longrightarrow> P t (s\<lparr>ms_db := d\<rparr>)"
    and expire_group: "P t s \<Longrightarrow> ExpireMediaOfGroup u gid (ms_db s) = Inr d \<Longrightarrow> P t (s\<lparr>ms_db := d\<rparr>)"
    and expire_message: "P t s \<Longrightarrow> ExpireMediaOfMessage u msg (ms_db s) = Inr d \<Longrightarrow> P t (s\<lparr>ms_db := d\<rparr>)"
    and record_download: "P t s \<Longrightarrow> RecordMediaDownload u i v (ms_db s) = Inr d \<Longrightarrow> P t (s\<lparr>ms_db := d\<rparr>)"
    and deliver: "P t s \<Longrightarrow> MarkMediaDelivered u i (ms_db s) = Inr d \<Longrightarrow> P t (s\<lparr>ms_db := d\<rparr>)"
    and thumb: "P t s \<Longrightarrow> SetThumbnail_sql i owner (ms_db s) = Inr (k, d) \<Longrightarrow> P t (s\<lparr>ms_db := d\<rparr>)"
    and removed: "ok e \<Longrightarrow> P t s \<Longrightarrow> P t (snd (remove e is s))"
    and gone: "P t s \<Longrightarrow> P t (owner_gone v s)"
begin

lemma holds_on_db: "(\<And>s d. P t s \<Longrightarrow> q (ms_db s) = Inr d \<Longrightarrow> P t (s\<lparr>ms_db := d\<rparr>)) \<Longrightarrow> holds_after (P t) (exec flt (on_db q))"
  by (rule holds_exec) (auto simp: on_db_def split: sum.splits)

lemma holds_rows_db:
  "(\<And>s n d. P t s \<Longrightarrow> q (ms_db s) = Inr (n, d) \<Longrightarrow> P t (s\<lparr>ms_db := d\<rparr>)) \<Longrightarrow> holds_after (P t) (alter flt (rows_db q))"
  by (rule holds_alter) (auto simp: rows_db_def split: sum.splits prod.splits)

lemma holds_enabled: "holds_after (P t) m \<Longrightarrow> holds_after (P t) (enabled m)"
  by (simp add: holds_after_def enabled_def)

lemma holds_access: "holds_after (P t) (access e viewer i)"
  unfolding access_def Let_def by (rule holds_enabled) (auto intro!: keeps split: option.split)

lemma holds_Thumbnail: "holds_after (P t) (Thumbnail e viewer i)"
  unfolding Thumbnail_def by (intro keeps holds_access) (auto intro!: keeps split: prod.split)

lemma holds_Download: "holds_after (P t) (Download e viewer i)"
  unfolding Download_def
  by (intro keeps holds_access)
    (auto intro!: keeps holds_on_db split: prod.split option.split intro: record_download deliver)

lemma holds_SetThumbnail: "holds_after (P t) (SetThumbnail e owner i raw)"
  unfolding SetThumbnail_def put_object_def
  by (intro holds_enabled keeps)
    (auto intro!: keeps holds_rows_db holds_exec split: option.split intro: put_thumb thumb)

lemma holds_ExpireGroup: "holds_after (P t) (ExpireGroup e gid)"
  unfolding ExpireGroup_def by (intro keeps holds_on_db) (auto intro: expire_group)

lemma holds_ExpireMessage: "holds_after (P t) (ExpireMessage e msg)"
  unfolding ExpireMessage_def by (intro holds_on_db) (auto intro: expire_message)

lemma holds_Cleanup: "ok e \<Longrightarrow> holds_after (P t) (Cleanup e)"
proof -
  assume ok: "ok e"
  have r: "holds_after (P t) (remove_op e is)" for "is"
    using removed [OF ok] by (auto simp: holds_after_def remove_op_def split: prod.split) (metis snd_conv)
  have "holds_after (P t) (andDo (sql_query (me_fails e MToDelete) (\<lambda>s. MediaToDelete (pgTime (me_now e - keepAfterAll)) (pgTime (me_now e))
         (pgTime (me_now e - pendingTTL)) (ms_db s))) (\<lambda>ids.
       andDo (remove_op e ids) (\<lambda>deleted.
         andDo (sql_query (me_fails e MStored) (\<lambda>s. MediaStoredBytes (ms_db s))) (\<lambda>stored.
           if stored \<le> lruHighBytes then ret deleted
           else andDo (sql_query (me_fails e MLru) (\<lambda>s. LeastRecentlyUsedMedia (ms_db s))) (\<lambda>rows.
             andDo (remove_op e (lru_victims stored rows)) (\<lambda>n. ret (deleted + n)))))))"
    by (intro keeps r)
  then show ?thesis by (simp add: holds_after_def Cleanup_def)
qed

text \<open>A new row, after the limits were checked.\<close>

lemma create_row:
  assumes "P t s" "t \<le> me_now e" "cm_Now a = pgTime (me_now e)"
    and rest: "\<And>s'. P (me_now e) s' \<Longrightarrow> (\<exists>d. CreateMedia a (ms_db s) = Inr d \<and> s' = s\<lparr>ms_db := d\<rparr>) \<Longrightarrow> P (me_now e) (snd (f s'))"
  shows "P (me_now e) (snd (andDo (within_limits e (cm_OwnerID a) (cm_Size a)) (\<lambda>_.
    andDo (exec flt (on_db (CreateMedia a))) (\<lambda>_. f)) s))"
proof (cases "within_limits e (cm_OwnerID a) (cm_Size a) s")
  case (Pair r s1)
  then have s1: "s1 = s" using within_limits_same [of e "cm_OwnerID a" "cm_Size a" s] by simp
  show ?thesis
  proof (cases r)
    case (Inl x)
    with Pair s1 show ?thesis using later [OF assms(1,2)] by (simp add: andDo_def)
  next
    case (Inr u)
    with Pair s1 have fit: "fits e (cm_OwnerID a) (cm_Size a) s" by (simp add: within_limits_Inr)
    show ?thesis
    proof (cases "faulty flt (CreateMedia a (ms_db s))")
      case (Inl x)
      with Pair Inr s1 show ?thesis using later [OF assms(1,2)]
        by (auto simp: andDo_def exec_def on_db_def faulty_def split: if_splits sum.splits)
    next
      case (Inr d)
      with create [OF assms(1,2) fit assms(3)] rest [of "s\<lparr>ms_db := d\<rparr>"] Pair \<open>r = Inr u\<close> s1 show ?thesis
        by (auto simp: andDo_def exec_def on_db_def)
    qed
  qed
qed

lemma NewUpload_step:
  assumes "P t s" "t \<le> me_now e"
  shows "P (me_now e) (snd (NewUpload e owner req s))"
proof -
  note now = later [OF assms]
  show ?thesis
  proof (cases "check_upload (me_lower e) req")
    case (Inl err)
    with now show ?thesis by (simp add: NewUpload_def enabled_def stop_def)
  next
    case (Inr name)
    let ?a = "\<lparr>cm_ID = me_id e, cm_OwnerID = owner, cm_Kind = nu_Kind req,
                cm_ContentType = nu_ContentType req, cm_Size = nu_Size req, cm_Now = pgTime (me_now e),
                cm_ExpiresAt = pgTime (me_now e + lifetime (nu_Size req)), cm_DurationMs = optInt (di_DurationMs (nu_Dims req)),
                cm_Width = optInt (di_Width (nu_Dims req)), cm_Height = optInt (di_Height (nu_Dims req)), cm_FileName = name,
                cm_Waveform = nu_Waveform req\<rparr>"
    have "P (me_now e) (snd (andDo (within_limits e (cm_OwnerID ?a) (cm_Size ?a)) (\<lambda>_. andDo (exec (me_fails e MCreate) (on_db (CreateMedia ?a)))
      (\<lambda>_. if me_fails e MPresign then break_off (DbFail OtherDb)
           else ret \<lparr>up_ID = me_id e, up_Key = media_key (me_id e), up_ContentType = nu_ContentType req, up_Size = nu_Size req\<rparr>)) s))"
      by (rule create_row [OF assms]) (simp_all add: break_off_def ret_def)
    with Inr now show ?thesis by (simp add: NewUpload_def enabled_def)
  qed
qed

lemma key_new: "CreateMedia a (ms_db s) = Inr d \<Longrightarrow>
    \<forall>m \<in> set (media d). md_id m = cm_ID a \<longrightarrow> md_status m \<noteq> status_ready"
  by (auto simp: CreateMedia_def set_media_def new_medium_def exists_row_def status_pending_def status_ready_def split: if_splits)

lemma Duplicate_step:
  assumes "P t s" "t \<le> me_now e"
  shows "P (me_now e) (snd (Duplicate e owner src s))"
proof -
  note now = later [OF assms]
  let ?get = "or_none ErrNotFoundMedia (sql_query (me_fails e (MGet src)) (\<lambda>s. GetMedia src (ms_db s)))"
  show ?thesis
  proof (cases "?get s")
    case (Pair r s1)
    have "snd (?get s) = s" by (simp add: sql_query_def split: sum.split)
    with Pair have s1: "s1 = s" by simp
    show ?thesis
    proof (cases r)
      case (Inl x)
      with Pair s1 now show ?thesis by (simp add: Duplicate_def enabled_def andDo_def)
    next
      case (Inr m)
      let ?a = "\<lparr>cm_ID = me_id e, cm_OwnerID = owner, cm_Kind = md_kind m,
              cm_ContentType = md_content_type m, cm_Size = md_size m, cm_Now = pgTime (me_now e),
              cm_ExpiresAt = pgTime (me_now e + lifetime (md_size m)), cm_DurationMs = md_duration_ms m, cm_Width = md_width m,
              cm_Height = md_height m, cm_FileName = md_file_name m, cm_Waveform = md_waveform m\<rparr>"
      let ?rest = "andDo (copy_object e (media_key src) (media_key (me_id e))) (\<lambda>x.
              if x = None then stop ErrForwardExpired
              else andDo (if \<not> md_has_thumbnail m then ret ()
                  else attempt (copy_object e (thumbKey src) (thumbKey (me_id e))) (\<lambda>r.
                    if r = Inr (Some ()) then attempt (alter (me_fails e MSetThumbnail) (rows_db (SetThumbnail_sql (me_id e) owner))) (\<lambda>_. ret ())
                    else ret ())) (\<lambda>_. ret (me_id e)))"
      let ?Q = "\<lambda>s'. P (me_now e) s' \<and> (\<forall>m \<in> set (rows s'). md_id m = me_id e \<longrightarrow> md_status m \<noteq> status_ready)"
      have copy: "holds_after ?Q (copy_object e (media_key src) (media_key (me_id e)))"
        unfolding copy_object_def by (rule holds_alter) (auto intro: put split: option.splits)
      have thumbs: "holds_after (P (me_now e)) (copy_object e (thumbKey src) (thumbKey (me_id e)))"
        unfolding copy_object_def by (rule holds_alter) (auto intro: put_thumb split: option.splits)
      have set: "holds_after (P (me_now e)) (alter (me_fails e MSetThumbnail) (rows_db (SetThumbnail_sql (me_id e) owner)))"
        by (rule holds_rows_db) (rule thumb)
      have after: "P (me_now e) (snd (?rest s'))" if "?Q s'" for s'
      proof (cases "copy_object e (media_key src) (media_key (me_id e)) s'")
        case (Pair r s2)
        with holds_afterD [OF copy that] have two: "P (me_now e) s2" by blast
        have tail: "holds_after (P (me_now e)) (if x = None then stop ErrForwardExpired
              else andDo (if \<not> md_has_thumbnail m then ret ()
                  else attempt (copy_object e (thumbKey src) (thumbKey (me_id e))) (\<lambda>r.
                    if r = Inr (Some ()) then attempt (alter (me_fails e MSetThumbnail) (rows_db (SetThumbnail_sql (me_id e) owner))) (\<lambda>_. ret ())
                    else ret ())) (\<lambda>_. ret (me_id e)))" for x :: "unit option"
          by (intro keeps thumbs set)
        show ?thesis
        proof (cases r)
          case (Inl y)
          with Pair two show ?thesis by (simp add: andDo_def)
        next
          case (Inr y)
          with Pair two tail [of y] show ?thesis by (simp add: andDo_def holds_after_def)
        qed
      qed
      have "P (me_now e) (snd (andDo (within_limits e (cm_OwnerID ?a) (cm_Size ?a))
          (\<lambda>_. andDo (exec (me_fails e MCreate) (on_db (CreateMedia ?a))) (\<lambda>_. ?rest)) s))"
      proof (rule create_row [OF assms])
        fix s' assume "P (me_now e) s'" "\<exists>d. CreateMedia ?a (ms_db s) = Inr d \<and> s' = s\<lparr>ms_db := d\<rparr>"
        then have "?Q s'" using key_new [of ?a s] by auto
        then show "P (me_now e) (snd (?rest s'))" by (rule after)
      qed simp
      moreover have at: "?get s = (Inr m, s)" using Pair Inr s1 by simp
      ultimately show ?thesis unfolding Duplicate_def enabled_def andDo_at [where m = ?get, OF at]
        using now by (cases "ms_on s"; cases "md_status m \<noteq> status_ready \<or> md_deleted_at m \<noteq> None") (simp_all only: if_True if_False stop_def snd_conv simp_thms CreateMediaParams.simps)
    qed
  qed
qed

text \<open>Attaching: the objects were found before the first row is changed.\<close>

lemma attach_check_same: "attach_check e owner i s = (r, t) \<Longrightarrow> t = s"
  by (auto simp: attach_check_def andDo_def or_none_def sql_query_def stop_def ret_def split: sum.splits prod.splits if_splits)

lemma attach_check_finds:
  assumes "P t s" "attach_check e owner i s = (Inr a, s')"
  shows "object_of i s"
proof -
  obtain m where m: "GetMedia i (ms_db s) = Inr m" "ms_store s (media_key i) = Some (md_size m)"
    using assms(2) by (auto simp: attach_check_def andDo_Inr split: if_splits)
  then have "m \<in> set (rows s)" "md_id m = i" by (auto simp: GetMedia_def one_row_def split: option.splits dest: find_row_Some)
  with m show ?thesis using keyed [OF assms(1)] by (auto simp: object_of_def dest: key_ok_unique)
qed

lemma attach_checks_same: "each (attach_check e owner) xs s = (r, t) \<Longrightarrow> t = s"
proof (induction xs arbitrary: r s t)
  case (Cons x xs)
  obtain r1 s1 where x: "attach_check e owner x s = (r1, s1)" by (cases "attach_check e owner x s")
  obtain r2 s2 where xs: "each (attach_check e owner) xs s = (r2, s2)" by (cases "each (attach_check e owner) xs s")
  from attach_check_same [OF x] Cons.IH [OF xs] Cons.prems x xs show ?case
    by (auto simp: andDo_def ret_def split: sum.splits)
qed (simp add: ret_def)

lemma attach_checks_find:
  "P t s \<Longrightarrow> each (attach_check e owner) xs s = (Inr as, s') \<Longrightarrow> i \<in> set xs \<Longrightarrow> object_of i s"
proof (induction xs arbitrary: as s')
  case (Cons x xs)
  from Cons.prems(2) obtain a bs s2 where x: "attach_check e owner x s = (Inr a, s)"
    and xs: "each (attach_check e owner) xs s = (Inr bs, s2)"
    by (auto elim!: andDoE dest: attach_check_same)
  with attach_check_finds [OF Cons.prems(1) x] Cons.IH [OF Cons.prems(1) xs] Cons.prems(3) show ?case by auto
qed simp

lemma AttachMedia_objects:
  assumes "AttachMedia i owner ct chat msg (ms_db s) = Inr (k, d)" "object_of j s"
  shows "object_of j (s\<lparr>ms_db := d\<rparr>)"
proof -
  have "media d = update_rows (attachable i owner) (\<lambda>m. m\<lparr>md_status := status_ready, md_chat_type := Some ct,
      md_chat_id := Some chat, md_message_id := Some msg\<rparr>) (rows s)"
    using assms(1) by (auto simp: AttachMedia_def set_media_def split: if_splits)
  then have "list_all2 (\<lambda>m m'. md_id m' = md_id m \<and> md_size m' = md_size m) (rows s) (media d)"
    by (simp add: all2_update)
  with assms(2) show ?thesis by (fastforce simp: object_of_def dest: all2_from)
qed

lemma Attach_holds: "holds_after (P t) (Attach e owner xs ct chat msg)"
proof -
  let ?Q = "\<lambda>s. P t s \<and> (\<forall>j \<in> set xs. object_of j s)"
  have one: "holds_after ?Q (attach_one e owner ct chat msg i)" if "i \<in> set xs" for i
  proof -
    have "holds_after ?Q (alter (me_fails e (MAttach i)) (rows_db (AttachMedia i owner ct chat msg)))"
      by (rule holds_alter) (use that in \<open>auto simp: rows_db_def split: sum.splits prod.splits dest: AttachMedia_objects intro: attach\<close>)
    then show ?thesis unfolding attach_one_def by (intro keeps)
  qed
  have "P t (snd (andDo (each (attach_check e owner) xs) (\<lambda>out. andDo (each (attach_one e owner ct chat msg) xs) (\<lambda>_. ret out)) s))"
    if s: "P t s" for s
  proof (cases "each (attach_check e owner) xs s")
    case (Pair r s1)
    note same = attach_checks_same [OF this]
    show ?thesis
    proof (cases r)
      case (Inl x)
      with Pair same s show ?thesis by (simp add: andDo_def)
    next
      case (Inr out)
      with attach_checks_find [OF s] Pair same s have start: "?Q s" by blast
      have "holds_after ?Q (andDo (each (attach_one e owner ct chat msg) xs) (\<lambda>_. ret out))"
        by (intro holds_andDo holds_ret holds_each_on one)
      then have "P t (snd (andDo (each (attach_one e owner ct chat msg) xs) (\<lambda>_. ret out) s))"
        using start unfolding holds_after_def by blast
      with Pair Inr same show ?thesis by (simp add: andDo_def [of "each (attach_check e owner) xs"])
    qed
  qed
  then have body: "holds_after (P t) (andDo (each (attach_check e owner) xs) (\<lambda>out. andDo (each (attach_one e owner ct chat msg) xs) (\<lambda>_. ret out)))"
    by (simp add: holds_after_def)
  show ?thesis unfolding Attach_def by (intro holds_if holds_ret holds_enabled holds_stop body)
qed

lemma phone_put_step: "P t s \<Longrightarrow> P t (phone_put e i s)"
  by (auto simp: phone_put_def intro: put split: option.split)

lemma exec_step:
  assumes "P t s" "t \<le> me_now e" "ok e"
  shows "P (me_now e) (media_exec e x s)"
proof (cases x)
  case (DoNewUpload u r) with NewUpload_step [OF assms(1,2)] show ?thesis by simp
next
  case (DoDuplicate u i) with Duplicate_step [OF assms(1,2)] show ?thesis by simp
next
  case DoCleanup with holds_Cleanup [OF assms(3)] later [OF assms(1,2)] show ?thesis by (simp add: holds_after_def)
next
  case (DoAttach u xs ct chat msg) with Attach_holds later [OF assms(1,2)] show ?thesis by (simp add: holds_after_def)
next
  case (DoDownload u i) with holds_Download later [OF assms(1,2)] show ?thesis by (simp add: holds_after_def)
next
  case (DoThumbnail u i) with holds_Thumbnail later [OF assms(1,2)] show ?thesis by (simp add: holds_after_def)
next
  case (DoSetThumbnail u i raw) with holds_SetThumbnail later [OF assms(1,2)] show ?thesis by (simp add: holds_after_def)
next
  case (DoExpireGroup g) with holds_ExpireGroup later [OF assms(1,2)] show ?thesis by (simp add: holds_after_def)
next
  case (DoExpireMessage g) with holds_ExpireMessage later [OF assms(1,2)] show ?thesis by (simp add: holds_after_def)
next
  case (DoPhonePut i) with phone_put_step later [OF assms(1,2)] show ?thesis by simp
next
  case (DoOwnerGone u) with gone later [OF assms(1,2)] show ?thesis by simp
qed

lemma run_keeps: "P t s \<Longrightarrow> clock_from t xs \<Longrightarrow> \<forall>(e, x) \<in> set xs. ok e \<Longrightarrow> P (end_of t xs) (media_run xs s)"
  by (induction t xs arbitrary: s rule: clock_from.induct) (auto intro: exec_step)

end

end
