(* ===== verification/Media_Limits.thy ===== *)
theory Media_Limits
  imports Media_Safety
begin

text \<open>
  What runs of media operations keep: the limits of a user and of the store, an object for every medium
  that is shown as available, and the message a medium was sent with.
\<close>

section \<open>How a row changes\<close>

text \<open>\<open>st\<close>: the stored objects. A row gets a place in a chat once, when its object is there.\<close>

definition evolves :: "(string \<Rightarrow> int option) \<Rightarrow> medium \<Rightarrow> medium \<Rightarrow> bool" where
  "evolves st m m' \<longleftrightarrow> md_id m' = md_id m \<and> md_size m' = md_size m \<and> md_created_at m' = md_created_at m \<and>
     (md_owner_id m' = md_owner_id m \<or> md_owner_id m' = None) \<and> (md_deleted_at m' = None \<longrightarrow> md_deleted_at m = None) \<and>
     (md_status m' = md_status m \<and> md_chat_type m' = md_chat_type m \<and> md_chat_id m' = md_chat_id m \<and> md_message_id m' = md_message_id m \<or>
      md_status m = status_pending \<and> md_status m' = status_ready \<and> st (media_key (md_id m)) = Some (md_size m))"

lemma evolves_refl [simp]: "evolves st m m"
  by (simp add: evolves_def)

lemma all2_update_in: "(\<And>m. m \<in> set xs \<Longrightarrow> p m \<Longrightarrow> R m (f m)) \<Longrightarrow> (\<And>m. R m m) \<Longrightarrow> list_all2 R xs (update_rows p f xs)"
  by (induction xs) auto

lemma evolves_update: "(\<And>m. m \<in> set xs \<Longrightarrow> p m \<Longrightarrow> evolves st m (f m)) \<Longrightarrow> list_all2 (evolves st) xs (update_rows p f xs)"
  by (rule all2_update_in) auto

lemma AttachMedia_evolves:
  assumes "AttachMedia i owner ct chat msg (ms_db s) = Inr (k, d)" "object_of i s"
  shows "list_all2 (evolves (ms_store s)) (rows s) (media d)"
proof -
  have d: "media d = update_rows (attachable i owner) (\<lambda>m. m\<lparr>md_status := status_ready, md_chat_type := Some ct,
      md_chat_id := Some chat, md_message_id := Some msg\<rparr>) (rows s)"
    using assms(1) by (auto simp: AttachMedia_def set_media_def split: if_splits)
  show ?thesis unfolding d by (rule evolves_update) (use assms(2) in \<open>auto simp: evolves_def attachable_def object_of_def\<close>)
qed

lemma ExpireMediaOfGroup_evolves: "ExpireMediaOfGroup u gid x = Inr d \<Longrightarrow> list_all2 (evolves st) (media x) (media d)"
  by (auto simp: ExpireMediaOfGroup_def set_media_def evolves_def intro!: evolves_update)

lemma ExpireMediaOfMessage_evolves: "ExpireMediaOfMessage u msg x = Inr d \<Longrightarrow> list_all2 (evolves st) (media x) (media d)"
  by (auto simp: ExpireMediaOfMessage_def set_media_def evolves_def intro!: evolves_update)

lemma RecordMediaDownload_evolves: "RecordMediaDownload u i v x = Inr d \<Longrightarrow> list_all2 (evolves st) (media x) (media d)"
  by (auto simp: RecordMediaDownload_def set_media_def evolves_def Let_def split: if_splits intro!: evolves_update)

lemma MarkMediaDelivered_evolves: "MarkMediaDelivered u i x = Inr d \<Longrightarrow> list_all2 (evolves st) (media x) (media d)"
  by (auto simp: MarkMediaDelivered_def set_media_def evolves_def intro!: evolves_update)

lemma SetThumbnail_sql_evolves: "SetThumbnail_sql i owner x = Inr (k, d) \<Longrightarrow> list_all2 (evolves st) (media x) (media d)"
  by (auto simp: SetThumbnail_sql_def set_media_def evolves_def intro!: evolves_update)

lemma MarkMediaDeleted_evolves: "MarkMediaDeleted u is x = Inr d \<Longrightarrow> list_all2 (evolves st) (media x) (media d)"
  by (auto simp: MarkMediaDeleted_def set_media_def evolves_def intro!: evolves_update)

lemma owner_gone_evolves: "list_all2 (evolves st) (rows s) (rows (owner_gone u s))"
  by (auto simp: owner_gone_def evolves_def intro!: evolves_update)

section \<open>Deleting objects\<close>

lemma delete_object_db [simp]: "ms_db (snd (delete_object e k s)) = ms_db s"
  by (simp add: delete_object_def)

lemma remove_one_db [simp]: "ms_db (snd (remove_one e ths i s)) = ms_db s"
  by (auto simp: remove_one_def delete_object_def split: prod.split bool.split)

lemma remove_all_db: "remove_all e ths xs s = (gone, s') \<Longrightarrow> ms_db s' = ms_db s"
proof (induction xs arbitrary: s gone s')
  case (Cons i xs)
  obtain k s1 where one: "remove_one e ths i s = (k, s1)" by (cases "remove_one e ths i s")
  obtain g s2 where all: "remove_all e ths xs s1 = (g, s2)" by (cases "remove_all e ths xs s1")
  from one all Cons.prems Cons.IH [OF all] remove_one_db [of e ths i s] show ?case by (auto split: if_splits)
qed simp

lemma remove_rows: "list_all2 (evolves st) (rows s) (rows (snd (remove e is s)))"
proof -
  define ths where "ths = (if is = [] then {} else case faulty (me_fails e MThumbnailsOf) (ThumbnailsOf is (ms_db s)) of
          Inl _ \<Rightarrow> {} | Inr is \<Rightarrow> set is)"
  obtain gone s' where all: "remove_all e ths is s = (gone, s')" by (cases "remove_all e ths is s")
  note db = remove_all_db [OF this]
  show ?thesis
  proof (cases "faulty (me_fails e MMark) (MarkMediaDeleted (pgTime (me_now e)) gone (ms_db s'))")
    case (Inl x)
    with all db show ?thesis by (simp add: remove_def ths_def [symmetric] Let_def list_all2_refl)
  next
    case (Inr d)
    then have "list_all2 (evolves st) (rows s) (media d)" using MarkMediaDeleted_evolves db by auto
    with all db Inr show ?thesis by (simp add: remove_def ths_def [symmetric] Let_def list_all2_refl)
  qed
qed

text \<open>The laws of \<open>media_steps\<close>, when nothing but the rows and their objects matters.\<close>

locale media_facts =
  fixes P :: "time \<Rightarrow> media_sys \<Rightarrow> bool" and ok :: "media_env \<Rightarrow> bool"
  assumes later: "P t s \<Longrightarrow> t \<le> t' \<Longrightarrow> P t' s"
    and keyed: "P t s \<Longrightarrow> key_ok md_id (rows s)"
    and create: "P t s \<Longrightarrow> t \<le> me_now e \<Longrightarrow> fits e (cm_OwnerID a) (cm_Size a) s \<Longrightarrow> cm_Now a = pgTime (me_now e) \<Longrightarrow>
      CreateMedia a (ms_db s) = Inr d \<Longrightarrow> P (me_now e) (s\<lparr>ms_db := d\<rparr>)"
    and put: "P t s \<Longrightarrow> ms_store s (media_key i) = None \<or> (\<forall>m \<in> set (rows s). md_id m = i \<longrightarrow> md_status m \<noteq> status_ready) \<Longrightarrow>
      P t (s\<lparr>ms_store := (ms_store s)(media_key i \<mapsto> n)\<rparr>)"
    and put_thumb: "P t s \<Longrightarrow> P t (s\<lparr>ms_store := (ms_store s)(thumbKey i \<mapsto> n)\<rparr>)"
    and change: "P t s \<Longrightarrow> list_all2 (evolves (ms_store s)) (rows s) (media d) \<Longrightarrow> P t (s\<lparr>ms_db := d\<rparr>)"
    and removed: "ok e \<Longrightarrow> P t s \<Longrightarrow> P t (snd (remove e is s))"

sublocale media_facts \<subseteq> steps: media_steps P ok
proof unfold_locales
  fix t s v assume "P t s"
  from change [OF this owner_gone_evolves] have "P t (s\<lparr>ms_db := ms_db (owner_gone v s)\<rparr>)" .
  then show "P t (owner_gone v s)" by (simp add: owner_gone_def)
qed (fact later keyed create put put_thumb removed
  | (rule change, assumption, erule (1) AttachMedia_evolves)
  | (rule change, assumption, erule ExpireMediaOfGroup_evolves ExpireMediaOfMessage_evolves RecordMediaDownload_evolves
      MarkMediaDelivered_evolves SetThumbnail_sql_evolves))+

lemma evolves_keys: "list_all2 (evolves st) xs ys \<Longrightarrow> map md_id ys = map md_id xs"
  by (induction rule: list_all2_induct) (auto simp: evolves_def)

lemma evolves_key_ok: "list_all2 (evolves st) xs ys \<Longrightarrow> key_ok md_id xs \<Longrightarrow> key_ok md_id ys"
  by (simp add: key_ok_def evolves_keys)

lemma CreateMedia_rows: "CreateMedia a d = Inr d' \<Longrightarrow> media d' = media d @ [new_medium a] \<and> 0 < cm_Size a \<and>
    \<not> exists_row (\<lambda>m. md_id m = cm_ID a) (media d)"
  by (auto simp: CreateMedia_def set_media_def medium_check_def new_medium_def split: if_splits)

lemma CreateMedia_keys: "CreateMedia a d = Inr d' \<Longrightarrow> key_ok md_id (media d) \<Longrightarrow> key_ok md_id (media d')"
  by (auto dest!: CreateMedia_rows simp: key_ok_snoc) (simp add: new_medium_def)

section \<open>The limits\<close>

text \<open>Bytes and files that a user uploaded in the 24 hours from \<open>w\<close>, and what is stored.\<close>

definition bytes_of :: "uuid \<Rightarrow> time \<Rightarrow> medium list \<Rightarrow> int" where
  "bytes_of u w xs = sum_list (map md_size (filter (\<lambda>m. md_owner_id m = Some u \<and> w \<le> md_created_at m \<and> md_created_at m \<le> w + 24 * hour) xs))"

definition files_of :: "uuid \<Rightarrow> time \<Rightarrow> medium list \<Rightarrow> int" where
  "files_of u w xs = int (length (filter (\<lambda>m. md_owner_id m = Some u \<and> w < md_created_at m \<and> md_created_at m \<le> w + 24 * hour) xs))"

definition stored_bytes :: "medium list \<Rightarrow> int" where
  "stored_bytes xs = sum_list (map md_size (filter Media_DB.live xs))"

definition media_limits :: "time \<Rightarrow> media_sys \<Rightarrow> bool" where
  "media_limits t s \<longleftrightarrow> key_ok md_id (rows s) \<and> (\<forall>m \<in> set (rows s). 0 < md_size m \<and> md_created_at m \<le> pgTime t) \<and>
     (\<forall>u w. bytes_of u w (rows s) \<le> DailyUserBytes \<and> files_of u w (rows s) \<le> DailyUserFiles) \<and>
     stored_bytes (rows s) \<le> uploadCapBytes"

lemma sum_weaker:
  "list_all2 (evolves st) xs ys \<Longrightarrow> \<forall>m \<in> set xs. 0 < md_size m \<Longrightarrow> (\<And>m m'. evolves st m m' \<Longrightarrow> Q m' \<Longrightarrow> Q m) \<Longrightarrow>
   sum_list (map md_size (filter Q ys)) \<le> sum_list (map md_size (filter Q xs)) \<and> length (filter Q ys) \<le> length (filter Q xs)"
proof (induction rule: list_all2_induct)
  case (Cons x xs y ys)
  then have "Q y \<longrightarrow> Q x" "md_size y = md_size x" "0 < md_size x" by (auto simp: evolves_def)
  with Cons show ?case by auto
qed simp

lemma sum_subset:
  "\<forall>m \<in> set xs. 0 < md_size m \<Longrightarrow> (\<And>m. m \<in> set xs \<Longrightarrow> Q m \<Longrightarrow> Q' m) \<Longrightarrow>
   sum_list (map md_size (filter Q xs)) \<le> sum_list (map md_size (filter Q' xs)) \<and> length (filter Q xs) \<le> length (filter Q' xs)"
proof (induction xs)
  case (Cons x xs)
  then have "Q x \<longrightarrow> Q' x" "0 < md_size x" by auto
  with Cons show ?case by auto
qed simp

lemma limits_change:
  assumes "media_limits t s" "list_all2 (evolves st) (rows s) (media d)"
  shows "media_limits t (s\<lparr>ms_db := d\<rparr>)"
proof -
  have pos: "\<forall>m \<in> set (rows s). 0 < md_size m" using assms(1) by (simp add: media_limits_def)
  note w = sum_weaker [OF assms(2) pos]
  have "bytes_of u x (media d) \<le> bytes_of u x (rows s)" for u x
    unfolding bytes_of_def by (rule w [THEN conjunct1]) (auto simp: evolves_def)
  moreover have "files_of u x (media d) \<le> files_of u x (rows s)" for u x
    unfolding files_of_def of_nat_le_iff by (rule w [THEN conjunct2]) (auto simp: evolves_def)
  moreover have "stored_bytes (media d) \<le> stored_bytes (rows s)"
    unfolding stored_bytes_def by (rule w [THEN conjunct1]) (auto simp: evolves_def Media_DB.live_def)
  moreover have "\<forall>m \<in> set (media d). 0 < md_size m \<and> md_created_at m \<le> pgTime t"
    using assms all2_from [OF assms(2)] by (fastforce simp: media_limits_def evolves_def)
  ultimately show ?thesis using assms evolves_key_ok [OF assms(2)]
    unfolding media_limits_def by (simp add: order_trans [of "bytes_of _ _ (media d)"] order_trans [of "files_of _ _ (media d)"]) (meson order_trans)
qed

lemma pgTime_day: "pgTime (t - 24 * hour) = pgTime t - 24 * hour"
proof -
  have "(t - 24 * hour) mod 1000 = (t + (- 86400000000) * 1000) mod 1000" by (simp add: hour_def)
  also have "\<dots> = t mod 1000" by (rule mod_mult_self1)
  finally show ?thesis by (simp add: pgTime_def)
qed

lemma limits_create:
  assumes "media_limits t s" "t \<le> me_now e" "fits e (cm_OwnerID a) (cm_Size a) s" "cm_Now a = pgTime (me_now e)"
    "CreateMedia a (ms_db s) = Inr d"
  shows "media_limits (me_now e) (s\<lparr>ms_db := d\<rparr>)"
proof -
  let ?n = "new_medium a"
  have rows: "media d = rows s @ [?n]" and size: "0 < cm_Size a" using CreateMedia_rows [OF assms(5)] by auto
  have pos: "\<forall>m \<in> set (rows s). 0 < md_size m" and old: "\<forall>m \<in> set (rows s). md_created_at m \<le> pgTime (me_now e)"
    using assms(1) pgTime_mono [OF assms(2)] by (auto simp: media_limits_def)
  have before: "bytes_of u w (rows s) \<le> DailyUserBytes" "files_of u w (rows s) \<le> DailyUserFiles" for u w
    using assms(1) by (auto simp: media_limits_def)
  have n: "md_size ?n = cm_Size a" "md_owner_id ?n = Some (cm_OwnerID a)" "md_created_at ?n = pgTime (me_now e)"
    "Media_DB.live ?n"
    using assms(4) by (simp_all add: new_medium_def Media_DB.live_def)
  have "bytes_of u w (media d) \<le> DailyUserBytes" for u w
  proof (cases "cm_OwnerID a = u \<and> w \<le> pgTime (me_now e) \<and> pgTime (me_now e) \<le> w + 24 * hour")
    case True
    then have "bytes_of u w (rows s) \<le> sum_list (map md_size (filter
        (\<lambda>m. md_owner_id m = Some (cm_OwnerID a) \<and> pgTime (me_now e - 24 * hour) \<le> md_created_at m) (rows s)))"
      unfolding bytes_of_def using sum_subset [OF pos] by (intro sum_subset [OF pos, THEN conjunct1]) (auto simp: pgTime_day)
    with True assms(3) n show ?thesis by (simp add: rows bytes_of_def fits_def)
  next
    case False
    with n before [of u w] show ?thesis by (auto simp: rows bytes_of_def)
  qed
  moreover have "files_of u w (media d) \<le> DailyUserFiles" for u w
  proof (cases "cm_OwnerID a = u \<and> w < pgTime (me_now e) \<and> pgTime (me_now e) \<le> w + 24 * hour")
    case True
    then have "files_of u w (rows s) \<le> int (length (filter
        (\<lambda>m. md_owner_id m = Some (cm_OwnerID a) \<and> pgTime (me_now e - 24 * hour) < md_created_at m) (rows s)))"
      unfolding files_of_def of_nat_le_iff by (intro sum_subset [OF pos, THEN conjunct2]) (auto simp: pgTime_day)
    with True assms(3) n show ?thesis by (simp add: rows files_of_def fits_def)
  next
    case False
    with n before [of u w] show ?thesis by (auto simp: rows files_of_def)
  qed
  moreover have "stored_bytes (media d) \<le> uploadCapBytes"
    using assms(3) n by (simp add: rows stored_bytes_def fits_def)
  moreover have "\<forall>m \<in> set (media d). 0 < md_size m \<and> md_created_at m \<le> pgTime (me_now e)"
    using pos old n size by (auto simp: rows)
  ultimately show ?thesis using CreateMedia_keys [OF assms(5)] assms(1) by (simp add: media_limits_def)
qed

lemma limits_later: "media_limits t s \<Longrightarrow> t \<le> t' \<Longrightarrow> media_limits t' s"
  using pgTime_mono by (fastforce simp: media_limits_def)

lemma limits_removed: "media_limits t s \<Longrightarrow> media_limits t (snd (remove e is s))"
  using limits_change [where d = "ms_db (snd (remove e is s))" and t = t and s = s, OF _ remove_rows] by (simp add: media_limits_def)

interpretation lm: media_facts media_limits "\<lambda>_. True"
proof unfold_locales
  show "media_limits t s \<Longrightarrow> key_ok md_id (rows s)" for t s by (simp add: media_limits_def)
  show "media_limits t s \<Longrightarrow> media_limits t (s\<lparr>ms_store := f\<rparr>)" for t s f by (simp add: media_limits_def)
  then show "media_limits t s \<Longrightarrow> media_limits t (s\<lparr>ms_store := f\<rparr>)" for t s f .
qed (rule limits_later limits_create limits_change limits_removed; assumption)+

section \<open>Media that are shown as available\<close>

definition media_there :: "media_sys \<Rightarrow> bool" where
  "media_there s \<longleftrightarrow> key_ok md_id (rows s) \<and> (\<forall>m \<in> set (rows s). md_status m \<in> {status_pending, status_ready} \<and>
     (md_status m = status_ready \<and> md_deleted_at m = None \<longrightarrow> ms_store s (media_key (md_id m)) = Some (md_size m)))"

lemma media_key_inj [simp]: "media_key i = media_key j \<longleftrightarrow> i = j"
  by (auto simp: media_key_def dest: uuid_String_inj)

lemma keys_differ [simp]: "media_key i \<noteq> thumbKey j" "thumbKey j \<noteq> media_key i"
  by (simp_all add: media_key_def thumbKey_def)

lemma there_change:
  assumes "media_there s" "list_all2 (evolves (ms_store s)) (rows s) (media d)"
  shows "media_there (s\<lparr>ms_db := d\<rparr>)"
proof -
  have "md_status m' \<in> {status_pending, status_ready} \<and>
      (md_status m' = status_ready \<and> md_deleted_at m' = None \<longrightarrow> ms_store s (media_key (md_id m')) = Some (md_size m'))"
    if m': "m' \<in> set (media d)" for m'
  proof -
    obtain m where m: "m \<in> set (rows s)" "evolves (ms_store s) m m'" using all2_from [OF assms(2) m'] by blast
    with assms(1) have "md_status m \<in> {status_pending, status_ready}"
      "md_status m = status_ready \<and> md_deleted_at m = None \<longrightarrow> ms_store s (media_key (md_id m)) = Some (md_size m)"
      by (auto simp: media_there_def)
    with m(2) show ?thesis by (auto simp: evolves_def)
  qed
  with assms evolves_key_ok show ?thesis by (simp add: media_there_def)
qed

lemma there_create: "media_there s \<Longrightarrow> CreateMedia a (ms_db s) = Inr d \<Longrightarrow> media_there (s\<lparr>ms_db := d\<rparr>)"
  using CreateMedia_rows [of a "ms_db s" d] CreateMedia_keys [of a "ms_db s" d]
  by (auto simp: media_there_def new_medium_def status_pending_def status_ready_def)

lemma remove_one_store: "remove_one e ths i s = (k, s') \<Longrightarrow> i \<noteq> j \<or> \<not> k \<Longrightarrow> ms_store s' (media_key j) = ms_store s (media_key j)"
  by (auto simp: remove_one_def delete_object_def split: if_splits)

lemma remove_all_store: "remove_all e ths xs s = (gone, s') \<Longrightarrow> j \<notin> set gone \<Longrightarrow> ms_store s' (media_key j) = ms_store s (media_key j)"
proof (induction xs arbitrary: s gone s')
  case (Cons i xs)
  obtain k s1 where one: "remove_one e ths i s = (k, s1)" by (cases "remove_one e ths i s")
  obtain g s2 where all: "remove_all e ths xs s1 = (g, s2)" by (cases "remove_all e ths xs s1")
  from one all Cons.prems have "j \<notin> set g" "i \<noteq> j \<or> \<not> k" "s' = s2" by (auto split: if_splits)
  with Cons.IH [OF all] remove_one_store [OF one] show ?case by simp
qed simp

text \<open>What \<open>remove\<close> does when the rows can be marked: some of them are gone, the others are as they were.\<close>

lemma remove_marks:
  assumes "\<not> me_fails e MMark"
  obtains gone where "set gone \<subseteq> set is"
    "rows (snd (remove e is s)) = update_rows (\<lambda>m. md_id m \<in> set gone) (\<lambda>m. m\<lparr>md_deleted_at := Some (pgTime (me_now e))\<rparr>) (rows s)"
    "\<And>j. j \<notin> set gone \<Longrightarrow> ms_store (snd (remove e is s)) (media_key j) = ms_store s (media_key j)"
proof -
  define ths where "ths = (if is = [] then {} else case faulty (me_fails e MThumbnailsOf) (ThumbnailsOf is (ms_db s)) of
          Inl _ \<Rightarrow> {} | Inr is \<Rightarrow> set is)"
  have sub: "remove_all e ths xs s = (gone, s') \<Longrightarrow> set gone \<subseteq> set xs" for xs s gone s'
    by (induction xs arbitrary: s gone s') (fastforce split: prod.splits if_splits)+
  obtain gone s' where all: "remove_all e ths is s = (gone, s')" by (cases "remove_all e ths is s")
  show thesis
  proof (rule that)
    show "set gone \<subseteq> set is" by (rule sub [OF all])
    show "rows (snd (remove e is s)) = update_rows (\<lambda>m. md_id m \<in> set gone) (\<lambda>m. m\<lparr>md_deleted_at := Some (pgTime (me_now e))\<rparr>) (rows s)"
      using all assms remove_all_db [OF all]
      by (simp add: remove_def ths_def [symmetric] Let_def MarkMediaDeleted_def set_media_def update_rows_def)
    show "ms_store (snd (remove e is s)) (media_key j) = ms_store s (media_key j)" if "j \<notin> set gone" for j
      using all assms remove_all_store [OF all that] by (simp add: remove_def ths_def [symmetric] Let_def MarkMediaDeleted_def)
  qed
qed

lemma there_removed:
  assumes "\<not> me_fails e MMark" "media_there s"
  shows "media_there (snd (remove e is s))"
proof -
  obtain gone where g: "set gone \<subseteq> set is"
    "rows (snd (remove e is s)) = update_rows (\<lambda>m. md_id m \<in> set gone) (\<lambda>m. m\<lparr>md_deleted_at := Some (pgTime (me_now e))\<rparr>) (rows s)"
    "\<And>j. j \<notin> set gone \<Longrightarrow> ms_store (snd (remove e is s)) (media_key j) = ms_store s (media_key j)"
    by (rule remove_marks [OF assms(1), of "is" s]) blast
  have "key_ok md_id (rows (snd (remove e is s)))"
    using evolves_key_ok [OF remove_rows] assms(2) by (auto simp: media_there_def)
  moreover have "md_status m \<in> {status_pending, status_ready} \<and> (md_status m = status_ready \<and> md_deleted_at m = None \<longrightarrow>
      ms_store (snd (remove e is s)) (media_key (md_id m)) = Some (md_size m))" if m: "m \<in> set (rows (snd (remove e is s)))" for m
    using m assms(2) g(3) [of "md_id m"] unfolding g(2) set_update_rows media_there_def by (auto split: if_splits)
  ultimately show ?thesis by (simp add: media_there_def)
qed

interpretation mt: media_facts "\<lambda>_. media_there" "\<lambda>e. \<not> me_fails e MMark"
proof unfold_locales
  show "media_there s \<Longrightarrow> key_ok md_id (rows s)" for s by (simp add: media_there_def)
  show "media_there s \<Longrightarrow> ms_store s (media_key i) = None \<or> (\<forall>m \<in> set (rows s). md_id m = i \<longrightarrow> md_status m \<noteq> status_ready) \<Longrightarrow>
      media_there (s\<lparr>ms_store := (ms_store s)(media_key i \<mapsto> n)\<rparr>)" for s i n
    by (fastforce simp: media_there_def)
  show "media_there s \<Longrightarrow> media_there (s\<lparr>ms_store := (ms_store s)(thumbKey i \<mapsto> n)\<rparr>)" for s i n
    by (simp add: media_there_def)
qed (auto intro: there_create there_change there_removed)

section \<open>The message a medium was sent with\<close>

definition sent_with :: "uuid \<Rightarrow> string option \<times> uuid option \<times> uuid option \<Rightarrow> media_sys \<Rightarrow> bool" where
  "sent_with i place s \<longleftrightarrow> key_ok md_id (rows s) \<and> (\<exists>m \<in> set (rows s). md_id m = i \<and> md_status m = status_ready \<and>
     (md_chat_type m, md_chat_id m, md_message_id m) = place)"

lemma sent_change:
  assumes "sent_with i p s" "list_all2 (evolves st) (rows s) (media d)"
  shows "sent_with i p (s\<lparr>ms_db := d\<rparr>)"
proof -
  have reverse: "list_all2 (\<lambda>m' m. evolves st m m') (media d) (rows s)" using assms(2) by (simp add: list_all2_conv_all_nth)
  obtain m where "m \<in> set (rows s)" "md_id m = i" "md_status m = status_ready" "(md_chat_type m, md_chat_id m, md_message_id m) = p"
    using assms(1) by (auto simp: sent_with_def)
  moreover from all2_from [OF reverse this(1)] obtain m' where "m' \<in> set (media d)" "evolves st m m'" by blast
  ultimately have "m' \<in> set (media d) \<and> md_id m' = i \<and> md_status m' = status_ready \<and> (md_chat_type m', md_chat_id m', md_message_id m') = p"
    by (auto simp: evolves_def status_pending_def status_ready_def)
  with assms evolves_key_ok show ?thesis by (auto simp: sent_with_def)
qed

lemma sent_create: "sent_with i p s \<Longrightarrow> CreateMedia a (ms_db s) = Inr d \<Longrightarrow> sent_with i p (s\<lparr>ms_db := d\<rparr>)"
  using CreateMedia_rows [of a "ms_db s" d] CreateMedia_keys [of a "ms_db s" d] by (auto simp: sent_with_def)

lemma sent_removed: "sent_with i p s \<Longrightarrow> sent_with i p (snd (remove e is s))"
  using sent_change [where d = "ms_db (snd (remove e is s))" and i = i and p = p and s = s, OF _ remove_rows] by (simp add: sent_with_def)

interpretation sw: media_facts "\<lambda>_. sent_with i p" "\<lambda>_. True"
proof unfold_locales
  show "sent_with i p s \<Longrightarrow> key_ok md_id (rows s)" for s by (simp add: sent_with_def)
  show "sent_with i p s \<Longrightarrow> sent_with i p (s\<lparr>ms_store := f\<rparr>)" for s f by (simp add: sent_with_def)
  then show "sent_with i p s \<Longrightarrow> sent_with i p (s\<lparr>ms_store := f\<rparr>)" for s f .
qed (assumption | rule sent_create sent_change sent_removed; assumption)+

end
