(* ===== verification/Media_Properties.thy ===== *)
theory Media_Properties
  imports Media_Limits
begin

text \<open>
  What users and the operator can rely on: the limits, that what is shown can be downloaded by the people of
  the chat and nobody else, and what the cleanup removes.
\<close>

section \<open>A small server\<close>

definition quiet_menv :: "time \<Rightarrow> uuid \<Rightarrow> media_env" where
  "quiet_menv now i = \<lparr>me_fails = \<lambda>_. False, me_now = now, me_id = i, me_members = \<lambda>_. None, me_thumb = \<lambda>_. None, me_lower = \<lambda>x. x\<rparr>"

lemma quiet_menv_simps [simp]:
  "me_fails (quiet_menv now i) = (\<lambda>_. False)" "me_now (quiet_menv now i) = now" "me_id (quiet_menv now i) = i"
  "me_members (quiet_menv now i) = (\<lambda>_. None)"
  by (simp_all add: quiet_menv_def)

text \<open>Medium 9, 7 bytes, sent by user 1 to user 2 in message 30.\<close>

definition note_medium :: medium where
  "note_medium = \<lparr>md_id = 9, md_owner_id = Some 1, md_kind = ''voice'', md_content_type = ''audio/ogg'', md_size = 7,
     md_status = status_ready, md_chat_type = Some ''private'', md_chat_id = Some 2, md_message_id = Some 30, md_created_at = 0,
     md_expires_at = 7 * 24 * hour, md_delivered_at = None, md_last_access_at = 0, md_deleted_at = None, md_duration_ms = Some 900,
     md_width = None, md_height = None, md_has_thumbnail = False, md_file_name = None, md_waveform = [1, 2]\<rparr>"

definition note_sys :: media_sys where
  "note_sys = \<lparr>ms_db = \<lparr>mb_db = empty_db\<lparr>users := [new_user 1 ''ann'', new_user 2 ''bob'']\<rparr>, media = [note_medium],
     media_downloads = []\<rparr>, ms_store = [media_key 9 \<mapsto> 7], ms_on = True\<rparr>"

lemma note_rows [simp]: "rows note_sys = [note_medium]"
  by (simp add: note_sys_def)

lemma note_there: "media_there note_sys"
  by (simp add: media_there_def note_sys_def note_medium_def key_ok_def)

lemma note_limits: "media_limits 0 note_sys"
  by (auto simp: media_limits_def key_ok_def note_medium_def bytes_of_def files_of_def stored_bytes_def DailyUserBytes_def MB_def
    DailyUserFiles_def uploadCapBytes_def pgTime_def)

definition note_day :: "(media_env \<times> media_request) list" where
  "note_day = [(quiet_menv hour 10, DoDownload 2 9), (quiet_menv (2 * hour) 11, DoDuplicate 2 9), (quiet_menv (3 * hour) 12, DoCleanup)]"

lemma note_clock: "clock_from 0 note_day"
  by (simp add: note_day_def hour_def)

section \<open>Limits\<close>

text \<open>
  C29: However uploads, forwards, downloads, deletions and cleanups follow each other, with any call failing, in no
  24 hours a user creates more than 300 MB or 300 files, and never more than 9500 MB are stored. (The
  operations here do not overlap: parallel ones check the limits before either is counted; and what is
  stored is, as the code counts it, what the undeleted rows declare, without thumbnails.)
\<close>

theorem upload_limits_hold:
  assumes "media_limits t s" "clock_from t xs"
  shows "bytes_of u w (rows (media_run xs s)) \<le> 300 * 1048576 \<and> files_of u w (rows (media_run xs s)) \<le> 300 \<and>
    stored_bytes (rows (media_run xs s)) \<le> 9500 * 1048576"
  using lm.steps.run_keeps [OF assms] by (simp add: media_limits_def DailyUserBytes_def DailyUserFiles_def uploadCapBytes_def MB_def)

theorem upload_limits_hold_witness: "files_of 2 0 (rows (media_run note_day note_sys)) \<le> 300"
  using upload_limits_hold [OF note_limits note_clock] by blast

section \<open>What is shown is there\<close>

text \<open>
  C28: As long as marking deleted media in the database never fails (a failure is only logged and leaves a
  row whose file has gone), every sent medium that is not shown as expired has its file in the store, with
  the size that was declared: nobody sends what was not uploaded, forwarding copies the file, and the
  cleanup marks what it removes.
\<close>

theorem shown_media_are_there:
  assumes "media_there s" "clock_from t xs" "\<forall>(e, x) \<in> set xs. \<not> me_fails e MMark"
    and "m \<in> set (rows (media_run xs s))" "md_status m = status_ready" "md_deleted_at m = None"
  shows "ms_store (media_run xs s) (media_key (md_id m)) = Some (md_size m)"
  using mt.steps.run_keeps [OF assms(1,2,3)] assms(4,5,6) by (simp add: media_there_def)

theorem shown_media_are_there_witness: "ms_store (media_run [(quiet_menv 5 10, DoSetThumbnail 1 9 [])] note_sys) (media_key 9) = Some 7"
  using shown_media_are_there [OF note_there, of 0 "[(quiet_menv 5 10, DoSetThumbnail 1 9 [])]" note_medium]
  by (simp add: SetThumbnail_def enabled_def note_sys_def andDo_def or_none_def sql_query_def GetMedia_def one_row_def find_row_def
      stop_def note_medium_def)

text \<open>
  A medium that was sent stays with its message and its chat, whatever is attached, forwarded or deleted
  later: it cannot be moved to another chat.
\<close>

theorem sent_media_stay:
  assumes "sent_with i place s" "clock_from t xs"
  shows "sent_with i place (media_run xs s)"
  using sw.steps.run_keeps [OF assms] by simp

theorem sent_media_stay_witness: "sent_with 9 (Some ''private'', Some 2, Some 30) (media_run note_day note_sys)"
  by (rule sent_media_stay [OF _ note_clock]) (simp add: sent_with_def key_ok_def note_medium_def)

section \<open>Who may download\<close>

definition may_see :: "media_env \<Rightarrow> uuid \<Rightarrow> medium \<Rightarrow> media_sys \<Rightarrow> bool" where
  "may_see e viewer m s \<longleftrightarrow>
     (md_chat_type m = Some ''private'' \<and> (md_owner_id m = Some viewer \<or> id_or_nil (md_chat_id m) = viewer) \<or>
      md_chat_type m = Some ''public'' \<and>
        (\<exists>members. me_members e (id_or_nil (md_chat_id m)) = Some members \<and> viewer \<in> set members) \<and>
        (\<exists>r \<in> set (member_table (mb_db (ms_db s))). mt_group_id r = id_or_nil (md_chat_id m) \<and> mt_member_id r = viewer \<and>
          mt_joined_at r \<le> (case find_row (\<lambda>g. Some (gm_id g) = md_message_id m) (groupmessage (mb_db (ms_db s))) of
             None \<Rightarrow> md_created_at m | Some g \<Rightarrow> gm_created_at g)))"

lemma attempt_query: "attempt (sql_query flt q) f s = f (case faulty flt (q s) of Inl x \<Rightarrow> Inl (DbFail x) | Inr a \<Rightarrow> Inr a) s"
  by (simp add: attempt_def sql_query_def split: sum.split)

lemma access_Inr:
  assumes "access e viewer i s = (Inr (m, owner, rs), t)"
  shows "t = s \<and> m \<in> set (rows s) \<and> md_id m = i \<and> md_status m = status_ready \<and> md_deleted_at m = None \<and>
    md_owner_id m = Some owner \<and> may_see e viewer m s"
proof -
  let ?next = "\<lambda>m. if md_status m \<noteq> status_ready then stop ErrNotFoundMedia
        else (let chat = id_or_nil (md_chat_id m); owner = id_or_nil (md_owner_id m);
                  finish = (\<lambda>recipients. if md_deleted_at m \<noteq> None \<or> md_owner_id m = None then stop ErrExpired
                    else ret (m, owner, recipients)) in
          if md_chat_type m = Some ''private'' then
            (if viewer \<noteq> owner \<and> viewer \<noteq> chat then stop ErrNotFoundMedia else finish (Some [chat]))
          else if md_chat_type m = Some ''public'' then
            (case me_members e chat of
               None \<Rightarrow> stop ErrNotFoundMedia
             | Some members \<Rightarrow>
                 if viewer \<notin> set members then stop ErrNotFoundMedia
                 else attempt (sql_query (me_fails e MVisible) (\<lambda>s. GroupMediaVisible (md_message_id m) chat viewer (md_created_at m) (ms_db s))) (\<lambda>r.
                   if r \<noteq> Inr True then stop ErrNotFoundMedia
                   else finish (if length members \<le> trackGroupsUpTo then Some (filter (\<lambda>u. u \<noteq> owner) members) else None)))
          else stop ErrNotFoundMedia)"
  from assms have "andDo (or_none ErrNotFoundMedia (sql_query (me_fails e (MGet i)) (\<lambda>s. GetMedia i (ms_db s)))) ?next s = (Inr (m, owner, rs), t)"
    by (simp add: access_def enabled_def Let_def split: if_splits)
  then obtain m' where get: "GetMedia i (ms_db s) = Inr m'" and fin: "?next m' s = (Inr (m, owner, rs), t)"
    by (auto elim!: andDoE)
  have row: "m' \<in> set (rows s)" "md_id m' = i"
    using get by (auto simp: GetMedia_def one_row_def split: option.splits dest: find_row_Some)
  show ?thesis
  proof (cases "md_chat_type m' = Some ''private''")
    case True
    with fin row show ?thesis by (auto simp: Let_def may_see_def id_or_nil_def split: if_splits option.splits)
  next
    case False
    with fin obtain members where "md_chat_type m' = Some ''public''" "me_members e (id_or_nil (md_chat_id m')) = Some members"
      "viewer \<in> set members" "GroupMediaVisible (md_message_id m') (id_or_nil (md_chat_id m')) viewer (md_created_at m') (ms_db s) = Inr True"
      "m = m'" "t = s" "md_deleted_at m' = None" "md_owner_id m' = Some owner" "md_status m' = status_ready"
      by (auto simp: Let_def attempt_query id_or_nil_def split: if_splits option.splits sum.splits)
    with row show ?thesis by (auto simp: may_see_def GroupMediaVisible_def Let_def exists_row_def split: option.splits)
  qed
qed

lemma Download_link:
  assumes "Download e viewer i s = (Inr a, t)"
  obtains m owner rs s1 where "access e viewer i s = (Inr (m, owner, rs), s1)" "dn_Key a = media_key i" "dn_Size a = md_size m"
proof -
  obtain p s1 where ac: "access e viewer i s = (Inr p, s1)" and fin: "(case p of (m, owner, recipients) \<Rightarrow>
       andDo (if viewer = owner then ret ()
           else andDo (exec (me_fails e MRecord) (on_db (RecordMediaDownload (pgTime (me_now e)) i viewer))) (\<lambda>_.
             case recipients of
               None \<Rightarrow> ret ()
             | Some rs \<Rightarrow>
                 if rs = [] then ret ()
                 else andDo (sql_query (me_fails e MCount) (\<lambda>s. CountMediaDownloads i (ms_db s))) (\<lambda>n.
                   if n \<ge> int (length rs) then exec (me_fails e MDeliver) (on_db (MarkMediaDelivered (pgTime (me_now e)) i))
                   else ret ()))) (\<lambda>_.
         if me_fails e MPresign then break_off (DbFail OtherDb)
         else ret \<lparr>dn_Key = media_key i, dn_FileName = some_text (md_file_name m), dn_ContentType = md_content_type m,
           dn_Size = md_size m\<rparr>)) s1 = (Inr a :: media_err fail + _, t)"
    using assms unfolding Download_def by (rule andDoE) (rule that)
  obtain m owner rs where p: "p = (m, owner, rs)" by (cases p)
  from fin show thesis unfolding p prod.case
    by (rule andDoE) (use that ac p in \<open>auto split: if_splits\<close>)
qed

text \<open>
  C27: A link to a file or its still is given only for a sent medium that is neither deleted nor left by its
  owner, to the two people of its private chat, or to a current member of its group who had joined before the
  message was sent.
\<close>

theorem links_are_for_the_chat:
  assumes "Download e viewer i s = (Inr a, t) \<or> Thumbnail e viewer i s = (Inr a, t)"
  shows "\<exists>m \<in> set (rows s). md_id m = i \<and> md_status m = status_ready \<and> md_deleted_at m = None \<and> md_owner_id m \<noteq> None \<and>
    may_see e viewer m s \<and> dn_Key a \<in> {media_key i, thumbKey i}"
  using assms
proof
  assume "Download e viewer i s = (Inr a, t)"
  then obtain m owner rs s1 where "access e viewer i s = (Inr (m, owner, rs), s1)" "dn_Key a = media_key i"
    by (rule Download_link)
  with access_Inr [OF this(1)] show ?thesis by auto
next
  assume "Thumbnail e viewer i s = (Inr a, t)"
  then obtain m owner rs s1 where "access e viewer i s = (Inr (m, owner, rs), s1)" "dn_Key a = thumbKey i"
    unfolding Thumbnail_def by (auto elim!: andDoE split: if_splits)
  with access_Inr [OF this(1)] show ?thesis by auto
qed

lemma bob_downloads:
  "\<exists>t. Download (quiet_menv 5 10) 2 9 note_sys = (Inr \<lparr>dn_Key = media_key 9, dn_FileName = [], dn_ContentType = ''audio/ogg'', dn_Size = 7\<rparr>, t)"
  by (simp add: Download_def access_def enabled_def note_sys_def andDo_def or_none_def sql_query_def GetMedia_def one_row_def find_row_def
    note_medium_def status_ready_def status_pending_def id_or_nil_def ret_def exec_def on_db_def RecordMediaDownload_def set_media_def
    CountMediaDownloads_def MarkMediaDelivered_def user_exists_def empty_db_def new_user_def some_text_def Let_def)

theorem links_are_for_the_chat_witness: "may_see (quiet_menv 5 10) 2 note_medium note_sys"
proof -
  obtain t where "Download (quiet_menv 5 10) 2 9 note_sys =
      (Inr \<lparr>dn_Key = media_key 9, dn_FileName = [], dn_ContentType = ''audio/ogg'', dn_Size = 7\<rparr>, t)"
    using bob_downloads by blast
  then show ?thesis using links_are_for_the_chat [of "quiet_menv 5 10" 2 9 note_sys _ t] by fastforce
qed

section \<open>What the cleanup removes\<close>

lemma remove_all_everything:
  "(\<And>k. \<not> me_fails e (MDelete k)) \<Longrightarrow> remove_all e ths xs s = (gone, s') \<Longrightarrow>
   gone = xs \<and> ms_store s' = (\<lambda>k. if k \<in> media_key ` set xs \<union> thumbKey ` (set xs \<inter> ths) then None else ms_store s k)"
proof (induction xs arbitrary: s gone s')
  case (Cons i xs)
  obtain k s1 where one: "remove_one e ths i s = (k, s1)" by (cases "remove_one e ths i s")
  obtain g s2 where all: "remove_all e ths xs s1 = (g, s2)" by (cases "remove_all e ths xs s1")
  have "k \<and> ms_store s1 = (\<lambda>k. if k = media_key i \<or> i \<in> ths \<and> k = thumbKey i then None else ms_store s k)"
    using one Cons.prems(1) by (auto simp: remove_one_def delete_object_def fun_eq_iff split: if_splits)
  with one all Cons.prems Cons.IH [OF Cons.prems(1) all] show ?case by (auto simp: fun_eq_iff)
qed simp

lemma remove_everything:
  assumes "\<And>k. \<not> me_fails e (MDelete k)" "\<not> me_fails e MMark"
  shows "rows (snd (remove e is s)) = update_rows (\<lambda>m. md_id m \<in> set is) (\<lambda>m. m\<lparr>md_deleted_at := Some (pgTime (me_now e))\<rparr>) (rows s)"
    and "ms_store (snd (remove e is s)) (media_key j) = (if j \<in> set is then None else ms_store s (media_key j))"
proof -
  define ths where "ths = (if is = [] then {} else case faulty (me_fails e MThumbnailsOf) (ThumbnailsOf is (ms_db s)) of
          Inl _ \<Rightarrow> {} | Inr is \<Rightarrow> set is)"
  obtain gone s' where all: "remove_all e ths is s = (gone, s')" by (cases "remove_all e ths is s")
  note every = remove_all_everything [OF assms(1) all]
  show "rows (snd (remove e is s)) = update_rows (\<lambda>m. md_id m \<in> set is) (\<lambda>m. m\<lparr>md_deleted_at := Some (pgTime (me_now e))\<rparr>) (rows s)"
    using all every assms remove_all_db [OF all]
    by (simp add: remove_def ths_def [symmetric] Let_def MarkMediaDeleted_def set_media_def update_rows_def)
  show "ms_store (snd (remove e is s)) (media_key j) = (if j \<in> set is then None else ms_store s (media_key j))"
    using all every assms by (auto simp: remove_def ths_def [symmetric] Let_def MarkMediaDeleted_def)
qed

definition due_now :: "media_env \<Rightarrow> medium \<Rightarrow> bool" where
  "due_now e = due (pgTime (me_now e - keepAfterAll)) (pgTime (me_now e)) (pgTime (me_now e - pendingTTL))"

text \<open>
  A cleanup with at most 500 files due and at most 9 GB stored removes exactly what is due (out of date,
  downloaded by everyone a day ago, without owner, or an upload not attached within the hour): its file
  and nobody else's, and its row says so.
\<close>

theorem cleanup_removes_what_is_due:
  assumes "ms_on s" "key_ok md_id (rows s)" "\<forall>m \<in> set (rows s). 0 < md_size m" "stored_bytes (rows s) \<le> 9 * 1024 * 1048576"
    and "length (filter (due_now e) (rows s)) \<le> 500" "\<forall>c. \<not> me_fails e c"
  shows "rows (snd (Cleanup e s)) = map (\<lambda>m. if due_now e m then m\<lparr>md_deleted_at := Some (pgTime (me_now e))\<rparr> else m) (rows s) \<and>
    (\<forall>m \<in> set (rows s). ms_store (snd (Cleanup e s)) (media_key (md_id m)) = (if due_now e m then None else ms_store s (media_key (md_id m))))"
proof -
  let ?is = "map md_id (filter (due_now e) (rows s))"
  obtain n s1 where rem: "remove e ?is s = (n, s1)" by (cases "remove e ?is s")
  have ids: "MediaToDelete (pgTime (me_now e - keepAfterAll)) (pgTime (me_now e)) (pgTime (me_now e - pendingTTL)) (ms_db s) = Inr ?is"
    using assms(5) by (simp add: MediaToDelete_def due_now_def)
  have "stored_bytes (rows s1) \<le> stored_bytes (rows s)"
    using sum_weaker [where Q = Media_DB.live, OF remove_rows [of "\<lambda>_. None" s e ?is] assms(3)] rem
    by (auto simp: stored_bytes_def evolves_def Media_DB.live_def)
  with assms(4) have small: "sum_list (map md_size (filter Media_DB.live (rows s1))) \<le> lruHighBytes"
    by (simp add: stored_bytes_def lruHighBytes_def MB_def)
  have fin: "snd (Cleanup e s) = s1"
    using assms(1,6) ids rem small
    by (simp add: Cleanup_def andDo_def sql_query_def remove_op_def MediaStoredBytes_def ret_def)
  have mine: "md_id m \<in> set ?is \<longleftrightarrow> due_now e m" if "m \<in> set (rows s)" for m
    using that assms(2) by (auto dest: key_ok_unique)
  have "rows s1 = update_rows (\<lambda>m. md_id m \<in> set ?is) (\<lambda>m. m\<lparr>md_deleted_at := Some (pgTime (me_now e))\<rparr>) (rows s)"
    using remove_everything(1) [of e ?is s] assms(6) rem by simp
  also have "\<dots> = map (\<lambda>m. if due_now e m then m\<lparr>md_deleted_at := Some (pgTime (me_now e))\<rparr> else m) (rows s)"
    unfolding update_rows_def using mine by (intro map_cong) auto
  finally have "rows s1 = map (\<lambda>m. if due_now e m then m\<lparr>md_deleted_at := Some (pgTime (me_now e))\<rparr> else m) (rows s)" .
  moreover have "ms_store s1 (media_key (md_id m)) = (if due_now e m then None else ms_store s (media_key (md_id m)))" if "m \<in> set (rows s)" for m
    using remove_everything(2) [of e ?is s "md_id m"] assms(6) rem mine [OF that] by simp
  ultimately show ?thesis unfolding fin by blast
qed

theorem cleanup_removes_what_is_due_witness:
  "ms_store (snd (Cleanup (quiet_menv (8 * 24 * hour) 10) note_sys)) (media_key 9) = None"
proof -
  have "due_now (quiet_menv (8 * 24 * hour) 10) note_medium"
    by (simp add: due_now_def due_def note_medium_def Media_DB.live_def before_def pgTime_def hour_def)
  then show ?thesis
    using cleanup_removes_what_is_due [of note_sys "quiet_menv (8 * 24 * hour) 10"]
    by (simp add: key_ok_def) (simp add: note_sys_def note_medium_def stored_bytes_def)
qed

section \<open>What goes wrong\<close>

text \<open>The schema allows ten minutes, the service fifteen (voice) and a little over ten (large videos).\<close>

definition long_voice :: NewUploadRequest where
  "long_voice = \<lparr>nu_Kind = ''voice'', nu_ContentType = ''audio/ogg'', nu_Size = 1000, nu_FileName = [], nu_Waveform = [],
     nu_Dims = \<lparr>di_DurationMs = 700000, di_Width = 0, di_Height = 0\<rparr>\<rparr>"

lemma long_voice_fails:
  "check_upload L long_voice = Inr None"
  "fst (NewUpload (quiet_menv 5 10) 1 long_voice note_sys) = Inl (DbFail CheckViolation)"
proof -
  show c: "check_upload L long_voice = Inr None" for L
    by (simp add: check_upload_def long_voice_def voiceTypes_def MaxVoiceBytes_def MB_def Dims_ok_def maxVoiceMs_def Let_def)
  have "within_limits (quiet_menv 5 10) 1 1000 note_sys = (Inr (), note_sys)"
    by (simp add: within_limits_Inr fits_def note_medium_def DailyUserBytes_def DailyUserFiles_def uploadCapBytes_def MB_def
      Media_DB.live_def)
  then show "fst (NewUpload (quiet_menv 5 10) 1 long_voice note_sys) = Inl (DbFail CheckViolation)"
    by (simp add: NewUpload_def enabled_def check_upload_def voiceTypes_def MaxVoiceBytes_def MB_def Dims_ok_def maxVoiceMs_def Let_def andDo_def note_sys_def long_voice_def exec_def on_db_def CreateMedia_def
      text_ok_def some_text_def medium_check_def new_medium_def within_def optInt_def)
qed

text \<open>
  A group of three: the uploader 1, 2 and 3. User 4 downloaded the file and left; when user 2 downloads it, it
  counts as delivered to everyone although user 3 does not have it.
\<close>

definition left_sys :: media_sys where
  "left_sys = \<lparr>ms_db = \<lparr>mb_db = empty_db\<lparr>users := map (\<lambda>i. new_user i ''u'') [1, 2, 3, 4],
       member_table := [\<lparr>mt_group_id = 7, mt_member_id = 2, mt_joined_at = 0, mt_role = RoleMember, mt_permissions = []\<rparr>]\<rparr>,
     media = [note_medium\<lparr>md_chat_type := Some ''public'', md_chat_id := Some 7\<rparr>],
     media_downloads = [\<lparr>dl_media_id = 9, dl_user_id = 4\<rparr>]\<rparr>, ms_store = [media_key 9 \<mapsto> 7], ms_on = True\<rparr>"

lemma leaver_counts_as_recipient:
  "md_delivered_at (hd (rows (snd (Download ((quiet_menv 5000 10)\<lparr>me_members := \<lambda>_. Some [1, 2, 3]\<rparr>) 2 9 left_sys)))) = Some 5000"
  by (simp add: Download_def access_def enabled_def left_sys_def andDo_def or_none_def sql_query_def GetMedia_def one_row_def find_row_def
    note_medium_def status_ready_def status_pending_def id_or_nil_def ret_def exec_def on_db_def RecordMediaDownload_def set_media_def
    CountMediaDownloads_def MarkMediaDelivered_def user_exists_def empty_db_def new_user_def some_text_def Let_def attempt_def
    GroupMediaVisible_def exists_row_def trackGroupsUpTo_def pgTime_def)

end
