(* ===== verification/Users_DB.thy ===== *)
theory Users_DB
  imports Friends_DB Auth_DB Ops
begin

text \<open>
  \<^verbatim>\<open>database/users.sql.go\<close> and \<^verbatim>\<open>database/discover.sql.go\<close>: profiles, pictures and interests, with the
  constraints of \<^verbatim>\<open>sql/schema\<close> 030, 031, 033 and 038. \<open>coll\<close> is the sort key of the database's collation;
  the operator \<open>%\<close> and the function \<open>similarity\<close> of \<^verbatim>\<open>pg_trgm\<close> are parameters, \<open>trigrams\<close>.
\<close>

record user_avatar =
  av_user_id :: uuid
  av_image :: string
  av_updated_at :: time

record trigrams =
  alike :: "string \<Rightarrow> string \<Rightarrow> bool"
  similarity :: "string \<Rightarrow> string \<Rightarrow> int"

record users_db =
  pd_db :: db
  user_avatars :: "user_avatar list"
  user_interests :: "(uuid \<times> string) list"

definition set_profile :: "uuid \<Rightarrow> (user \<Rightarrow> user) \<Rightarrow> users_db \<Rightarrow> users_db" where
  "set_profile i f d = d\<lparr>pd_db := (pd_db d)\<lparr>users := update_rows (\<lambda>u. u_id u = i) f (users (pd_db d))\<rparr>\<rparr>"

definition maxAvatarBytes :: nat where "maxAvatarBytes = 262144"

section \<open>Names and profile fields\<close>

text \<open>\<open>RETURNING\<close> gives the row as it is afterwards.\<close>

definition renamable :: "uuid \<Rightarrow> time \<Rightarrow> user \<Rightarrow> bool" where
  "renamable i cutoff u \<longleftrightarrow> u_id u = i \<and> (case u_name_changed_at u of None \<Rightarrow> True | Some t \<Rightarrow> t < cutoff)"

definition RenameUser :: "uuid \<Rightarrow> string \<Rightarrow> time \<Rightarrow> time \<Rightarrow> users_db \<Rightarrow> dberr + user \<times> users_db" where
  "RenameUser i name now cutoff d =
     (if \<not> text_ok name then Inl DataException
      else case find_row (renamable i cutoff) (users (pd_db d)) of
        None \<Rightarrow> Inl NoRows
      | Some u \<Rightarrow>
          if \<not> varchar_ok 25 name then Inl DataException
          else if \<not> username_format name then Inl CheckViolation
          else if exists_row (\<lambda>v. u_name v = name \<and> u_id v \<noteq> i) (users (pd_db d)) then Inl (UniqueViolation ''users_name_key'')
          else (let f = \<lambda>v. v\<lparr>u_name := name, u_name_changed_at := Some now, u_updated_at := now\<rparr> in Inr (f u, set_profile i f d)))"

definition SetBio :: "time \<Rightarrow> uuid \<Rightarrow> string \<Rightarrow> users_db \<Rightarrow> dberr + user \<times> users_db" where
  "SetBio now i bio d =
     (if \<not> text_ok bio then Inl DataException
      else case find_user i (pd_db d) of
        None \<Rightarrow> Inl NoRows
      | Some u \<Rightarrow> if \<not> varchar_ok 150 bio then Inl DataException
          else (let f = \<lambda>v. v\<lparr>u_bio := bio, u_updated_at := now\<rparr> in Inr (f u, set_profile i f d)))"

definition SetDisplayName :: "time \<Rightarrow> uuid \<Rightarrow> string \<Rightarrow> users_db \<Rightarrow> dberr + users_db" where
  "SetDisplayName now i name d =
     (if \<not> text_ok name \<or> user_exists i (pd_db d) \<and> \<not> varchar_ok 50 name then Inl DataException
      else Inr (set_profile i (\<lambda>v. v\<lparr>u_display_name := name, u_updated_at := now\<rparr>) d))"

definition SetLocation :: "time \<Rightarrow> uuid \<Rightarrow> string option \<Rightarrow> string \<Rightarrow> users_db \<Rightarrow> dberr + users_db" where
  "SetLocation now i place country d =
     (if \<not> (text_ok country \<and> (\<forall>p \<in> set_option place. text_ok p)) then Inl DataException
      else Inr (set_profile i (\<lambda>v. v\<lparr>u_location_id := place, u_location_country := country, u_updated_at := now\<rparr>) d))"

definition SetDiscoverable :: "time \<Rightarrow> uuid \<Rightarrow> bool \<Rightarrow> users_db \<Rightarrow> dberr + users_db" where
  "SetDiscoverable now i b d = Inr (set_profile i (\<lambda>v. v\<lparr>u_discoverable := b, u_updated_at := now\<rparr>) d)"

definition SetHideLastSeen :: "time \<Rightarrow> uuid \<Rightarrow> bool \<Rightarrow> users_db \<Rightarrow> dberr + users_db" where
  "SetHideLastSeen now i b d = Inr (set_profile i (\<lambda>v. v\<lparr>u_hide_last_seen := b, u_updated_at := now\<rparr>) d)"

definition GetDisplayName :: "uuid \<Rightarrow> users_db \<Rightarrow> dberr + string" where
  "GetDisplayName i d = one_row (map_option (\<lambda>u. if u_display_name u = [] then u_name u else u_display_name u) (find_user i (pd_db d)))"

section \<open>What others see\<close>

text \<open>\<open>NOT EXISTS (SELECT 1 FROM user_blocks \<dots>)\<close>, either way.\<close>

definition unblocked :: "uuid \<Rightarrow> uuid \<Rightarrow> db \<Rightarrow> bool" where
  "unblocked i viewer d \<longleftrightarrow> \<not> (blocks_db i viewer d \<or> blocks_db viewer i d)"

record GetPublicProfileRow =
  pq_ID :: uuid
  pq_Name :: string
  pq_DisplayName :: string
  pq_Bio :: string
  pq_AvatarAt :: "time option"
  pq_LocationID :: "string option"
  pq_Discoverable :: bool

definition GetPublicProfile :: "uuid \<Rightarrow> uuid \<Rightarrow> users_db \<Rightarrow> dberr + GetPublicProfileRow" where
  "GetPublicProfile i viewer d =
     one_row (map_option (\<lambda>u. \<lparr>pq_ID = u_id u, pq_Name = u_name u, pq_DisplayName = u_display_name u, pq_Bio = u_bio u,
         pq_AvatarAt = u_avatar_at u, pq_LocationID = u_location_id u, pq_Discoverable = u_discoverable u\<rparr>)
       (find_row (\<lambda>u. u_id u = i \<and> u_banned_at u = None \<and> unblocked (u_id u) viewer (pd_db d)) (users (pd_db d))))"

definition AreFriendsSQL :: "uuid \<Rightarrow> uuid \<Rightarrow> users_db \<Rightarrow> dberr + bool" where
  "AreFriendsSQL a b d = Inr (are_friends_db a b (pd_db d))"

record PresenceOfRow =
  pr_ID :: uuid
  pr_LastSeenAt :: "time option"
  pr_HideLastSeen :: bool

definition PresenceOf :: "uuid list \<Rightarrow> users_db \<Rightarrow> dberr + PresenceOfRow list" where
  "PresenceOf ids d = Inr (map (\<lambda>u. \<lparr>pr_ID = u_id u, pr_LastSeenAt = u_last_seen_at u, pr_HideLastSeen = u_hide_last_seen u\<rparr>)
     (filter (\<lambda>u. u_id u \<in> set ids) (users (pd_db d))))"


record SearchNameSimlRow =
  sr_ID :: uuid
  sr_Name :: string
  sr_DisplayName :: string
  sr_AvatarAt :: "time option"
  sr_Similarity :: int

definition SearchNameSiml :: "(string \<Rightarrow> string) \<Rightarrow> trigrams \<Rightarrow> string \<Rightarrow> uuid \<Rightarrow> users_db \<Rightarrow> dberr + SearchNameSimlRow list" where
  "SearchNameSiml coll tg q me d =
     (if \<not> text_ok q then Inl DataException
      else Inr (take 20 (sort_key (\<lambda>r. - sr_Similarity r) (sort_key (coll \<circ> sr_Name)
        (map (\<lambda>u. \<lparr>sr_ID = u_id u, sr_Name = u_name u, sr_DisplayName = u_display_name u, sr_AvatarAt = u_avatar_at u,
            sr_Similarity = max (similarity tg (u_name u) q) (similarity tg (u_display_name u) q)\<rparr>)
          (filter (\<lambda>u. (alike tg (u_name u) q \<or> alike tg (u_display_name u) q) \<and> u_banned_at u = None \<and> unblocked (u_id u) me (pd_db d))
            (users (pd_db d))))))))"

section \<open>Pictures\<close>

definition GetAvatar :: "uuid \<Rightarrow> uuid \<Rightarrow> users_db \<Rightarrow> dberr + string \<times> time" where
  "GetAvatar i viewer d =
     one_row (map_option (\<lambda>a. (av_image a, av_updated_at a))
       (find_row (\<lambda>a. av_user_id a = i \<and> unblocked (av_user_id a) viewer (pd_db d)) (user_avatars d)))"

definition SetAvatar_sql :: "uuid \<Rightarrow> string \<Rightarrow> time \<Rightarrow> users_db \<Rightarrow> dberr + users_db" where
  "SetAvatar_sql i img at d =
     (if length img > maxAvatarBytes then Inl CheckViolation
      else if \<not> user_exists i (pd_db d) then Inl ForeignKeyViolation
      else Inr (set_profile i (\<lambda>u. u\<lparr>u_avatar_at := Some at\<rparr>) (d\<lparr>user_avatars :=
        (if exists_row (\<lambda>a. av_user_id a = i) (user_avatars d)
         then update_rows (\<lambda>a. av_user_id a = i) (\<lambda>a. a\<lparr>av_image := img, av_updated_at := at\<rparr>) (user_avatars d)
         else user_avatars d @ [\<lparr>av_user_id = i, av_image = img, av_updated_at = at\<rparr>])\<rparr>)))"

definition DeleteAvatar_sql :: "uuid \<Rightarrow> users_db \<Rightarrow> dberr + users_db" where
  "DeleteAvatar_sql i d = Inr (set_profile i (\<lambda>u. u\<lparr>u_avatar_at := None\<rparr>)
     (d\<lparr>user_avatars := filter (\<lambda>a. av_user_id a \<noteq> i) (user_avatars d)\<rparr>))"

section \<open>Interests\<close>

text \<open>
  A nil slice reaches Postgres as \<open>NULL\<close>, and \<open>NOT (x = ANY(NULL))\<close> is not true: nothing is deleted.
\<close>

definition RemoveOtherInterests :: "uuid \<Rightarrow> string list option \<Rightarrow> users_db \<Rightarrow> dberr + users_db" where
  "RemoveOtherInterests i keep d =
     (case keep of None \<Rightarrow> Inr d
      | Some ids \<Rightarrow> if \<not> list_all text_ok ids then Inl DataException
          else Inr (d\<lparr>user_interests := filter (\<lambda>r. \<not> (fst r = i \<and> snd r \<notin> set ids)) (user_interests d)\<rparr>))"

definition insert_new :: "'a \<Rightarrow> 'a list \<Rightarrow> 'a list" where
  "insert_new x xs = (if x \<in> set xs then xs else xs @ [x])"

definition AddInterests :: "uuid \<Rightarrow> string list \<Rightarrow> users_db \<Rightarrow> dberr + users_db" where
  "AddInterests i ids d =
     (if \<not> list_all text_ok ids then Inl DataException
      else if (\<exists>x \<in> set ids. (i, x) \<notin> set (user_interests d)) \<and> \<not> user_exists i (pd_db d) then Inl ForeignKeyViolation
      else Inr (d\<lparr>user_interests := fold insert_new (map (Pair i) ids) (user_interests d)\<rparr>))"

definition GetInterests :: "(string \<Rightarrow> string) \<Rightarrow> uuid \<Rightarrow> users_db \<Rightarrow> dberr + string list" where
  "GetInterests coll i d = Inr (sort_key coll (map snd (filter (\<lambda>r. fst r = i) (user_interests d))))"

section \<open>People to get to know\<close>

text \<open>The other side of each relationship of somebody, in table order: the temporary tables of the query.\<close>

definition other_side :: "uuid \<Rightarrow> user_relationship \<Rightarrow> uuid" where
  "other_side i r = (if ur_user_id r = i then ur_otherUser_id r else ur_user_id r)"

definition relations_of :: "uuid \<Rightarrow> db \<Rightarrow> user_relationship list" where
  "relations_of i d = filter (\<lambda>r. ur_user_id r = i \<or> ur_otherUser_id r = i) (user_relationships d)"

definition connected :: "uuid \<Rightarrow> db \<Rightarrow> uuid list" where
  "connected me d = map (other_side me) (relations_of me d)"

definition friends_sql :: "uuid \<Rightarrow> db \<Rightarrow> uuid list" where
  "friends_sql me d = map (other_side me) (filter (\<lambda>r. ur_status r = StatusConfirm) (relations_of me d))"

definition mutual :: "uuid \<Rightarrow> uuid \<Rightarrow> db \<Rightarrow> nat" where
  "mutual me uid d = length (filter (\<lambda>x. x = uid) (concat (map (\<lambda>f. friends_sql f d) (friends_sql me d))))"

definition shared_interests_sql :: "(string \<Rightarrow> string) \<Rightarrow> uuid \<Rightarrow> uuid \<Rightarrow> users_db \<Rightarrow> string list" where
  "shared_interests_sql coll me uid d =
     sort_key coll (map snd (filter (\<lambda>r. fst r = uid \<and> (me, snd r) \<in> set (user_interests d)) (user_interests d)))"

text \<open>A row, with \<open>same_place\<close> as the query gives it (\<^const>\<open>None\<close> for NULL) or as the Go row holds it.\<close>

record 'place DiscoverSuggestionsRow =
  ds_ID :: uuid
  ds_Name :: string
  ds_DisplayName :: string
  ds_AvatarAt :: "time option"
  ds_LocationID :: "string option"
  ds_MutualFriends :: nat
  ds_SharedInterests :: "string list"
  ds_SamePlace :: 'place
  ds_Score :: nat

text \<open>NULL for somebody with a place if the asker has none: \<open>location_id = NULL\<close> is not false.\<close>

definition same_place :: "user \<Rightarrow> user \<Rightarrow> bool option" where
  "same_place u me = (case u_location_id u of None \<Rightarrow> Some False
     | Some p \<Rightarrow> (case u_location_id me of None \<Rightarrow> None | Some q \<Rightarrow> Some (p = q)))"

definition same_country :: "user \<Rightarrow> user \<Rightarrow> bool" where
  "same_country u me \<longleftrightarrow> u_location_country u \<noteq> [] \<and> u_location_country u = u_location_country me"

definition scored :: "(string \<Rightarrow> string) \<Rightarrow> user \<Rightarrow> users_db \<Rightarrow> user \<Rightarrow> bool option DiscoverSuggestionsRow" where
  "scored coll me d u =
     (let m = mutual (u_id me) (u_id u) (pd_db d); ids = shared_interests_sql coll (u_id me) (u_id u) d in
      \<lparr>ds_ID = u_id u, ds_Name = u_name u, ds_DisplayName = u_display_name u, ds_AvatarAt = u_avatar_at u,
       ds_LocationID = u_location_id u, ds_MutualFriends = m, ds_SharedInterests = ids, ds_SamePlace = same_place u me,
       ds_Score = 3 * m + 2 * length ids + (if same_place u me = Some True then 3 else if same_country u me then 1 else 0)\<rparr>)"

definition suggestible :: "uuid \<Rightarrow> users_db \<Rightarrow> user \<Rightarrow> bool" where
  "suggestible me d u \<longleftrightarrow> u_discoverable u \<and> u_banned_at u = None \<and> u_id u \<noteq> me \<and>
     u_id u \<notin> set (connected me (pd_db d)) \<and> unblocked (u_id u) me (pd_db d)"

text \<open>A condition that is NULL keeps no row.\<close>

definition matching :: "user \<Rightarrow> user \<Rightarrow> bool option DiscoverSuggestionsRow \<Rightarrow> bool" where
  "matching me u r \<longleftrightarrow> ds_MutualFriends r > 0 \<or> ds_SharedInterests r \<noteq> [] \<or> same_place u me = Some True \<or> same_country u me"

text \<open>The best first, by id where scores are equal; without a row for \<open>me\<close> the cross join is empty.\<close>

definition ranking :: "(string \<Rightarrow> string) \<Rightarrow> user \<Rightarrow> users_db \<Rightarrow> bool option DiscoverSuggestionsRow list" where
  "ranking coll me d = sort_key (\<lambda>r. - int (ds_Score r)) (sort_key ds_ID
     (map (scored coll me d) (filter (\<lambda>u. suggestible (u_id me) d u \<and> matching me u (scored coll me d u)) (users (pd_db d)))))"

text \<open>\<^verbatim>\<open>Scan\<close> of the rows that are returned: a NULL does not go into a \<^verbatim>\<open>bool\<close> and ends the call with an error.\<close>

fun scan_rows :: "bool option DiscoverSuggestionsRow list \<Rightarrow> dberr + bool DiscoverSuggestionsRow list" where
  "scan_rows [] = Inr []"
| "scan_rows (r # rs) = (case ds_SamePlace r of
     None \<Rightarrow> Inl OtherDb
   | Some same \<Rightarrow> (case scan_rows rs of
       Inl x \<Rightarrow> Inl x
     | Inr items \<Rightarrow> Inr (\<lparr>ds_ID = ds_ID r, ds_Name = ds_Name r, ds_DisplayName = ds_DisplayName r, ds_AvatarAt = ds_AvatarAt r,
         ds_LocationID = ds_LocationID r, ds_MutualFriends = ds_MutualFriends r, ds_SharedInterests = ds_SharedInterests r,
         ds_SamePlace = same, ds_Score = ds_Score r\<rparr> # items)))"

definition DiscoverSuggestions :: "(string \<Rightarrow> string) \<Rightarrow> uuid \<Rightarrow> nat \<Rightarrow> nat \<Rightarrow> users_db \<Rightarrow> dberr + bool DiscoverSuggestionsRow list" where
  "DiscoverSuggestions coll me lim off d =
     scan_rows (case find_user me (pd_db d) of None \<Rightarrow> [] | Some u \<Rightarrow> take lim (drop off (ranking coll u d)))"

end
