(* ===== verification/Catalog.thy ===== *)
theory Catalog
  imports Prelude
begin

text \<open>
  \<^verbatim>\<open>catalog/catalog.go\<close>: the places and interests users pick from. Strings are bytes, so an accented
  letter is two characters here.
\<close>

record Place =
  pl_ID :: string
  pl_Name :: string
  pl_Country :: string

record Country =
  co_Code :: string
  co_Name :: string
  co_Places :: "Place list"

record Interest =
  in_ID :: string
  in_Name :: string
  in_Category :: string

definition MaxInterests :: nat where "MaxInterests = 10"

definition asia :: "(string \<times> string \<times> string list) list" where
  "asia = [
     (''th'', ''Thailand'', [''Bangkok'', ''Chiang Mai'', ''Chiang Rai'', ''Phuket'', ''Pattaya'',
       ''Khon Kaen'', ''Hat Yai'', ''Nakhon Ratchasima'', ''Udon Thani'', ''Hua Hin'', ''Ayutthaya'',
       ''Nonthaburi'', ''Surat Thani'', ''Ubon Ratchathani'', ''Mae Sot'']),
     (''mm'', ''Myanmar'', [''Yangon'', ''Mandalay'', ''Naypyidaw'', ''Mawlamyine'', ''Bago'', ''Taunggyi'',
       ''Pathein'', ''Monywa'', ''Myitkyina'', ''Sittwe'', ''Lashio'', ''Dawei'', ''Myeik'', ''Hpa-An'',
       ''Magway'', ''Pyay'']),
     (''la'', ''Laos'', [''Vientiane'', ''Luang Prabang'', ''Pakse'', ''Savannakhet'']),
     (''kh'', ''Cambodia'', [''Phnom Penh'', ''Siem Reap'', ''Battambang'', ''Sihanoukville'']),
     (''vn'', ''Vietnam'', [''Hanoi'', ''Ho Chi Minh City'', ''Da Nang'', ''Hai Phong'', ''Can Tho'',
       ''Nha Trang'', ''Hue'']),
     (''my'', ''Malaysia'', [''Kuala Lumpur'', ''Penang'', ''Johor Bahru'', ''Ipoh'', ''Kota Kinabalu'',
       ''Kuching'', ''Malacca'']),
     (''sg'', ''Singapore'', [''Singapore'']),
     (''id'', ''Indonesia'', [''Jakarta'', ''Surabaya'', ''Bandung'', ''Medan'', ''Bali'', ''Yogyakarta'',
       ''Semarang'', ''Makassar'']),
     (''ph'', ''Philippines'', [''Manila'', ''Quezon City'', ''Cebu'', ''Davao'']),
     (''bn'', ''Brunei'', [''Bandar Seri Begawan'']),
     (''cn'', ''China'', [''Beijing'', ''Shanghai'', ''Guangzhou'', ''Shenzhen'', ''Chengdu'', ''Chongqing'',
       ''Kunming'', ''Hangzhou'', ''Wuhan'', ''Xi'' @ [CHR 0x27] @ ''an'']),
     (''hk'', ''Hong Kong'', [''Hong Kong'']),
     (''mo'', ''Macau'', [''Macau'']),
     (''tw'', ''Taiwan'', [''Taipei'', ''Taichung'', ''Kaohsiung'']),
     (''jp'', ''Japan'', [''Tokyo'', ''Osaka'', ''Kyoto'', ''Yokohama'', ''Nagoya'', ''Fukuoka'',
       ''Sapporo'']),
     (''kr'', ''South Korea'', [''Seoul'', ''Busan'', ''Incheon'', ''Daegu'']),
     (''mn'', ''Mongolia'', [''Ulaanbaatar'']),
     (''in'', ''India'', [''Delhi'', ''Mumbai'', ''Bengaluru'', ''Chennai'', ''Kolkata'', ''Hyderabad'',
       ''Pune'']),
     (''bd'', ''Bangladesh'', [''Dhaka'', ''Chittagong'']),
     (''np'', ''Nepal'', [''Kathmandu'', ''Pokhara'']),
     (''lk'', ''Sri Lanka'', [''Colombo'', ''Kandy'']),
     (''pk'', ''Pakistan'', [''Karachi'', ''Lahore'', ''Islamabad'']),
     (''bt'', ''Bhutan'', [''Thimphu'']),
     (''mv'', ''Maldives'', [''Mal'' @ [CHR 0xC3, CHR 0xA9]])]"

definition regions :: "Place list" where
  "regions = [
     \<lparr>pl_ID = ''other-asia'', pl_Name = ''Elsewhere in Asia'', pl_Country = []\<rparr>,
     \<lparr>pl_ID = ''middle-east'', pl_Name = ''Middle East'', pl_Country = []\<rparr>,
     \<lparr>pl_ID = ''europe'', pl_Name = ''Europe'', pl_Country = []\<rparr>,
     \<lparr>pl_ID = ''north-america'', pl_Name = ''North America'', pl_Country = []\<rparr>,
     \<lparr>pl_ID = ''latin-america'', pl_Name = ''Latin America'', pl_Country = []\<rparr>,
     \<lparr>pl_ID = ''africa'', pl_Name = ''Africa'', pl_Country = []\<rparr>,
     \<lparr>pl_ID = ''oceania'', pl_Name = ''Oceania'', pl_Country = []\<rparr>]"

definition interests :: "Interest list" where
  "interests = map (\<lambda>(i, n, c). \<lparr>in_ID = i, in_Name = n, in_Category = c\<rparr>) [
     (''gaming'', ''Video games'', ''Games''),
     (''mobile_games'', ''Mobile games'', ''Games''),
     (''esports'', ''Esports'', ''Games''),
     (''board_games'', ''Board games'', ''Games''),
     (''football'', ''Football'', ''Sports''),
     (''basketball'', ''Basketball'', ''Sports''),
     (''badminton'', ''Badminton'', ''Sports''),
     (''volleyball'', ''Volleyball'', ''Sports''),
     (''sepak_takraw'', ''Sepak takraw'', ''Sports''),
     (''martial_arts'', ''Martial arts'', ''Sports''),
     (''swimming'', ''Swimming'', ''Sports''),
     (''running'', ''Running'', ''Sports''),
     (''cycling'', ''Cycling'', ''Sports''),
     (''gym'', ''Gym & fitness'', ''Sports''),
     (''music'', ''Music'', ''Music''),
     (''kpop'', ''K-pop'', ''Music''),
     (''jpop'', ''J-pop'', ''Music''),
     (''rock'', ''Rock'', ''Music''),
     (''hiphop'', ''Hip-hop'', ''Music''),
     (''edm'', ''EDM'', ''Music''),
     (''instruments'', ''Playing instruments'', ''Music''),
     (''singing'', ''Singing'', ''Music''),
     (''movies'', ''Movies'', ''Entertainment''),
     (''tv_series'', ''TV series'', ''Entertainment''),
     (''kdrama'', ''K-drama'', ''Entertainment''),
     (''anime'', ''Anime'', ''Entertainment''),
     (''manga'', ''Manga & comics'', ''Entertainment''),
     (''art'', ''Art & drawing'', ''Creative''),
     (''photography'', ''Photography'', ''Creative''),
     (''writing'', ''Writing'', ''Creative''),
     (''design'', ''Design'', ''Creative''),
     (''fashion'', ''Fashion'', ''Creative''),
     (''makeup'', ''Makeup & beauty'', ''Creative''),
     (''coding'', ''Coding'', ''Tech''),
     (''tech'', ''Technology'', ''Tech''),
     (''ai'', ''AI'', ''Tech''),
     (''gadgets'', ''Gadgets'', ''Tech''),
     (''travel'', ''Travel'', ''Lifestyle''),
     (''food'', ''Food'', ''Lifestyle''),
     (''cooking'', ''Cooking'', ''Lifestyle''),
     (''coffee'', ''Coffee & caf'' @ [CHR 0xC3, CHR 0xA9] @ ''s'', ''Lifestyle''),
     (''pets'', ''Pets'', ''Lifestyle''),
     (''nature'', ''Nature'', ''Lifestyle''),
     (''hiking'', ''Hiking & camping'', ''Lifestyle''),
     (''meditation'', ''Meditation'', ''Lifestyle''),
     (''reading'', ''Reading'', ''Learning''),
     (''languages'', ''Languages'', ''Learning''),
     (''science'', ''Science'', ''Learning''),
     (''history'', ''History'', ''Learning''),
     (''business'', ''Business'', ''Learning''),
     (''volunteering'', ''Volunteering'', ''Learning'')]"

text \<open>\<^verbatim>\<open>strings.ToLower\<close> of text that has only ASCII letters.\<close>

definition lower_char :: "char \<Rightarrow> char" where
  "lower_char c = (if 65 \<le> (of_char c :: nat) \<and> (of_char c :: nat) \<le> 90 then char_of ((of_char c :: nat) + 32) else c)"

fun replaced :: "string \<Rightarrow> string" where
  "replaced [] = []"
| "replaced (c # s) =
     (if c = CHR '' '' then CHR ''-'' # replaced s
      else if c = CHR 0x27 then replaced s
      else case s of
        d # t \<Rightarrow> if c = CHR 0xC3 \<and> d = CHR 0xA9 then CHR ''e'' # replaced t else c # replaced s
      | [] \<Rightarrow> [c])"

definition slug :: "string \<Rightarrow> string" where
  "slug s = map lower_char (replaced s)"

definition places_of :: "string \<times> string \<times> string list \<Rightarrow> Place list" where
  "places_of c = (case c of (cc, name, cities) \<Rightarrow>
     map (\<lambda>city. \<lparr>pl_ID = cc @ ''-'' @ slug city, pl_Name = city, pl_Country = cc\<rparr>) cities @
     (if length cities > 1 then [\<lparr>pl_ID = cc, pl_Name = ''Other city in '' @ name, pl_Country = cc\<rparr>] else []))"

definition countries :: "Country list" where
  "countries = map (\<lambda>c. \<lparr>co_Code = fst c, co_Name = fst (snd c), co_Places = places_of c\<rparr>) asia"

definition all_places :: "Place list" where
  "all_places = concat (map co_Places countries) @ regions"

text \<open>The map \<open>placeByID\<close>, filled by \<open>init\<close>: a later entry replaces an earlier one.\<close>

definition placeByID :: "string \<Rightarrow> Place option" where
  "placeByID = fold (\<lambda>p m. m(pl_ID p \<mapsto> p)) all_places Map.empty"

definition LookupPlace :: "string \<Rightarrow> Place option" where
  "LookupPlace i = placeByID i"

definition ValidInterest :: "string \<Rightarrow> bool" where
  "ValidInterest i \<longleftrightarrow> i \<in> set (map in_ID interests)"

record Options =
  op_Countries :: "Country list"
  op_Regions :: "Place list"
  op_Interests :: "Interest list"
  op_MaxInterests :: nat

definition AllOptions :: Options where
  "AllOptions = \<lparr>op_Countries = countries, op_Regions = regions, op_Interests = interests, op_MaxInterests = MaxInterests\<rparr>"

section \<open>What is offered can be chosen\<close>

lemma asia_codes: "distinct (map fst asia) \<and> list_all (\<lambda>c. length (fst c) = 2) asia"
  by code_simp

lemma asia_cities: "list_all (\<lambda>c. distinct (map slug (snd (snd c)))) asia"
  by code_simp

lemma regions_apart:
  "distinct (map pl_ID regions) \<and> list_all (\<lambda>r. 2 < length (pl_ID r) \<and> take 3 (pl_ID r) \<notin> set (map (\<lambda>c. fst c @ ''-'') asia)) regions"
  by code_simp

text \<open>The id of a place tells its country.\<close>

lemma places_of_ids:
  assumes "p \<in> set (places_of c)"
  shows "pl_ID p = fst c \<or> (\<exists>s. pl_ID p = fst c @ ''-'' @ s)"
  using assms by (cases c) (auto simp: places_of_def)

lemma places_of_distinct:
  assumes "distinct (map slug (snd (snd c)))"
  shows "distinct (map pl_ID (places_of c))"
  using assms by (cases c) (auto simp: places_of_def distinct_map inj_on_def)

lemma country_of_id:
  assumes "p \<in> set (places_of c)" "length (fst c) = 2"
  shows "take 2 (pl_ID p) = fst c"
  using places_of_ids [OF assms(1)] assms(2) by auto

lemma countries_distinct:
  assumes "distinct (map fst cs)" "list_all (\<lambda>c. length (fst c) = 2) cs" "list_all (\<lambda>c. distinct (map slug (snd (snd c)))) cs"
  shows "distinct (map pl_ID (concat (map places_of cs)))"
  using assms
proof (induction cs)
  case (Cons c cs)
  have "pl_ID p \<noteq> pl_ID q" if "p \<in> set (places_of c)" "c' \<in> set cs" "q \<in> set (places_of c')" for p q c'
  proof
    assume "pl_ID p = pl_ID q"
    with that Cons.prems(2) have "fst c = fst c'"
      using country_of_id [of p c] country_of_id [of q c'] by (simp add: list_all_iff)
    with that Cons.prems(1) show False by (auto simp: image_iff)
  qed
  with Cons show ?case by (fastforce simp: places_of_distinct)
qed simp

lemma co_Places_countries: "map co_Places countries = map places_of asia"
  by (simp add: countries_def)

lemma all_places_distinct: "distinct (map pl_ID all_places)"
proof -
  have "pl_ID p \<noteq> pl_ID r" if "c \<in> set asia" "p \<in> set (places_of c)" "r \<in> set regions" for c p r
  proof
    assume eq: "pl_ID p = pl_ID r"
    have len: "length (fst c) = 2" using asia_codes that(1) by (simp add: list_all_iff)
    have r: "2 < length (pl_ID r)" "take 3 (pl_ID r) \<noteq> fst c @ ''-''"
      using regions_apart that(1,3) by (auto simp: list_all_iff)
    from places_of_ids [OF that(2)] show False using eq len r by auto
  qed
  then have "set (map pl_ID (concat (map places_of asia))) \<inter> set (map pl_ID regions) = {}" by fastforce
  moreover have "distinct (map pl_ID (concat (map places_of asia)))"
    by (rule countries_distinct) (use asia_codes asia_cities in simp_all)
  ultimately show ?thesis
    using regions_apart unfolding all_places_def co_Places_countries map_append distinct_append by blast
qed

lemma interests_distinct: "distinct (map in_ID interests)"
  by code_simp

lemma placed: "fold (\<lambda>p m. m(pl_ID p \<mapsto> p)) ps m i = (case find (\<lambda>p. pl_ID p = i) (rev ps) of Some p \<Rightarrow> Some p | None \<Rightarrow> m i)"
  by (induction ps rule: rev_induct) simp_all

lemma LookupPlace_find: "LookupPlace i = find (\<lambda>p. pl_ID p = i) (rev all_places)"
  by (simp add: LookupPlace_def placeByID_def placed split: option.split)

lemma find_rev_Some: "find P (rev xs) = Some x \<Longrightarrow> x \<in> set xs \<and> P x"
  by (metis find_Some_iff nth_mem set_rev)

lemma LookupPlace_offered: "LookupPlace i = Some p \<longleftrightarrow> p \<in> set all_places \<and> pl_ID p = i"
proof
  assume "LookupPlace i = Some p"
  then show "p \<in> set all_places \<and> pl_ID p = i"
    unfolding LookupPlace_find by (auto dest: find_rev_Some)
next
  assume p: "p \<in> set all_places \<and> pl_ID p = i"
  then have "LookupPlace i \<noteq> None" unfolding LookupPlace_find by (auto simp: find_None_iff)
  then obtain q where q: "LookupPlace i = Some q" by blast
  then have "q \<in> set all_places" "pl_ID q = i"
    unfolding LookupPlace_find by (auto dest: find_rev_Some)
  with p have "q = p" using all_places_distinct by (auto simp: distinct_map inj_on_def)
  with q show "LookupPlace i = Some p" by simp
qed

lemma country_of_place: "p \<in> set (places_of c) \<Longrightarrow> pl_Country p = fst c"
  by (cases c) (auto simp: places_of_def split: if_splits)

lemma LookupPlace_country:
  assumes "LookupPlace i = Some p"
  shows "pl_Country p = [] \<or> (\<exists>c \<in> set asia. pl_Country p = fst c \<and> take 2 i = fst c)"
proof -
  from assms have p: "p \<in> set all_places" "pl_ID p = i" by (simp_all add: LookupPlace_offered)
  have "pl_Country r = []" if "r \<in> set regions" for r using that by (auto simp: regions_def)
  moreover have "pl_Country p = fst c \<and> take 2 i = fst c" if "c \<in> set asia" "p \<in> set (places_of c)" for c
  proof -
    have "length (fst c) = 2" using asia_codes that(1) by (simp add: list_all_iff)
    then show ?thesis using country_of_id [OF that(2)] country_of_place [OF that(2)] p(2) by simp
  qed
  moreover have "(\<exists>c \<in> set asia. p \<in> set (places_of c)) \<or> p \<in> set regions"
    using p(1) unfolding all_places_def co_Places_countries by simp
  ultimately show ?thesis by blast
qed

end
