(* ===== verification/Users.thy ===== *)
theory Users
  imports Users_DB Catalog Accounts Media Push
begin

text \<open>
  \<^verbatim>\<open>users\<close>: profiles, usernames, pictures, interests and the cache of usernames; registration and
  passwords are in \<^theory_text>\<open>Accounts\<close> and \<^theory_text>\<open>Auth\<close>. Decoding, scaling and encoding of pictures are parameters.
\<close>

section \<open>Types\<close>

datatype users_err =
    ErrNoUser | ErrNameTaken | ErrInvalidInput | ErrBioTooLong | ErrBadPlace | ErrBadInterests | ErrBadDisplayName
  | ErrNoImage | ErrHugeImage | RenameTooSoon time

definition RenameEvery :: duration where "RenameEvery = 30 * 24 * hour"
definition maxBioLen :: nat where "maxBioLen = 150"
definition maxNameLen :: nat where "maxNameLen = 25"
definition maxDisplayNameLen :: nat where "maxDisplayNameLen = 50"
definition nameTTL :: duration where "nameTTL = 24 * hour"

record User =
  us_ID :: uuid
  us_Name :: string
  us_DisplayName :: string
  us_CreatedAt :: time
  us_UpdatedAt :: time
  us_Email :: string
  us_Verified :: bool
  us_Bio :: string
  us_NameChangeAvailableAt :: "time option"
  us_AvatarURL :: "avatar_url option"
  us_Location :: "Place option"
  us_Interests :: "string list option"
  us_Discoverable :: bool
  us_HideLastSeen :: bool
  us_IsAdmin :: bool

record Profile =
  po_ID :: uuid
  po_Name :: string
  po_DisplayName :: string
  po_Bio :: string
  po_AvatarURL :: "avatar_url option"
  po_Location :: "Place option"
  po_Interests :: "string list"

record PublicUser =
  pu_ID :: uuid
  pu_Name :: string
  pu_DisplayName :: string
  pu_AvatarURL :: "avatar_url option"

record UpdateProfileRequest =
  up_Name :: "string option"
  up_DisplayName :: "string option"
  up_Bio :: "string option"
  up_Location :: "string option"
  up_Interests :: "string list option"
  up_Discoverable :: "bool option"

datatype users_call =
    UByID | UByIDAgain | UInterests | USearch | URename | USetBio | USetDisplay | UGetDisplay | UProfile | UAreFriends
  | UPutAvatar | UDropAvatar | UGetAvatar | ULocation | UDiscoverable | URemoveOthers | UAddInterests | UCacheGet | UCacheSet

text \<open>\<^verbatim>\<open>image.DecodeConfig\<close>: format, width, height; \<^verbatim>\<open>image.Decode\<close>: the bounds; then drawing and encoding.\<close>

record rect =
  minX :: int
  minY :: int
  maxX :: int
  maxY :: int

record imaging =
  im_config :: "string \<Rightarrow> (string \<times> int \<times> int) option"
  im_bounds :: "string \<Rightarrow> rect option"
  im_jpeg :: "string \<Rightarrow> rect \<Rightarrow> string option"

record users_env =
  ue_fails :: "users_call \<Rightarrow> bool"
  ue_now :: time
  ue_dbnow :: time
  ue_conf :: auth_conf
  ue_coll :: "string \<Rightarrow> string"
  ue_tg :: trigrams
  ue_imaging :: imaging
  ue_rfc3339 :: "time \<Rightarrow> string"

text \<open>\<open>us_names\<close>: the cache in Redis, with expiry. \<open>us_out\<close>: whose lists \<^verbatim>\<open>friends.ForgetNames\<close> was told to drop.\<close>

record users_sys =
  us_db :: users_db
  us_names :: "uuid \<Rightarrow> (string \<times> time) option"
  us_out :: "uuid list"

type_synonym 'a users_op = "(users_sys, users_err, 'a) op"

definition users_query :: "bool \<Rightarrow> (users_db \<Rightarrow> dberr + 'a) \<Rightarrow> 'a users_op" where
  "users_query flt q = sql_query flt (\<lambda>s. q (us_db s))"

definition users_exec :: "bool \<Rightarrow> (users_db \<Rightarrow> dberr + users_db) \<Rightarrow> unit users_op" where
  "users_exec flt f = exec flt (\<lambda>s. map_sum id (\<lambda>d. s\<lparr>us_db := d\<rparr>) (f (us_db s)))"

definition users_alter :: "bool \<Rightarrow> (users_db \<Rightarrow> dberr + 'a \<times> users_db) \<Rightarrow> 'a users_op" where
  "users_alter flt f = alter flt (\<lambda>s. map_sum id (\<lambda>(a, d). (a, s\<lparr>us_db := d\<rparr>)) (f (us_db s)))"

section \<open>The rules for what is typed\<close>

definition ValidateName :: "string \<Rightarrow> bool" where
  "ValidateName name \<longleftrightarrow> username_format name"

definition bad_in_display :: "nat \<Rightarrow> bool" where
  "bad_in_display r \<longleftrightarrow> IsSpace r \<and> r \<noteq> 32 \<or> IsControl r \<or> IsFormat r \<or> r \<in> {0x2028, 0x2029} \<or> r = RuneError"

definition ValidateDisplayName :: "string \<Rightarrow> bool" where
  "ValidateDisplayName name \<longleftrightarrow> RuneCountInString name \<noteq> 0 \<and> RuneCountInString name \<le> maxDisplayNameLen \<and>
     (\<forall>r \<in> set (runes name). \<not> bad_in_display r)"

definition PlaceOf :: "string option \<Rightarrow> Place option" where
  "PlaceOf i = LookupPlace (some_text i)"

section \<open>The repository\<close>

definition toUser :: "time \<Rightarrow> user \<Rightarrow> User" where
  "toUser now u = \<lparr>us_ID = u_id u, us_Name = u_name u, us_DisplayName = ShownName (u_name u) (u_display_name u),
     us_CreatedAt = u_created_at u, us_UpdatedAt = u_updated_at u, us_Email = u_email u,
     us_Verified = (u_email_verified_at u \<noteq> None), us_Bio = u_bio u,
     us_NameChangeAvailableAt = (case u_name_changed_at u of None \<Rightarrow> None
       | Some t \<Rightarrow> if t + RenameEvery > now then Some (t + RenameEvery) else None),
     us_AvatarURL = AvatarURLFrom (u_id u) (u_avatar_at u), us_Location = PlaceOf (u_location_id u), us_Interests = None,
     us_Discoverable = u_discoverable u, us_HideLastSeen = u_hide_last_seen u, us_IsAdmin = u_is_admin u\<rparr>"

definition user_by_id :: "users_env \<Rightarrow> users_call \<Rightarrow> uuid \<Rightarrow> User users_op" where
  "user_by_id e c i = andDo (or_none ErrNoUser (users_query (ue_fails e c) (\<lambda>d. one_row (find_user i (pd_db d)))))
     (\<lambda>u. ret (toUser (ue_now e) u))"

definition SearchByName :: "users_env \<Rightarrow> uuid \<Rightarrow> string \<Rightarrow> PublicUser list users_op" where
  "SearchByName e me q = andDo (users_query (ue_fails e USearch) (SearchNameSiml (ue_coll e) (ue_tg e) q me)) (\<lambda>rows.
     ret (map (\<lambda>v. \<lparr>pu_ID = sr_ID v, pu_Name = sr_Name v, pu_DisplayName = ShownName (sr_Name v) (sr_DisplayName v),
       pu_AvatarURL = AvatarURLFrom (sr_ID v) (sr_AvatarAt v)\<rparr>) rows))"

definition Rename :: "users_env \<Rightarrow> uuid \<Rightarrow> string \<Rightarrow> time \<Rightarrow> time \<Rightarrow> User users_op" where
  "Rename e i name now cutoff =
     attempt (users_alter (ue_fails e URename) (RenameUser i name (pgTime now) (pgTime cutoff))) (\<lambda>r. case r of
       Inr u \<Rightarrow> ret (toUser (ue_now e) u)
     | Inl x \<Rightarrow> (case x of
         DbFail (UniqueViolation _) \<Rightarrow> stop ErrNameTaken
       | DbFail NoRows \<Rightarrow> andDo (user_by_id e UByIDAgain i) (\<lambda>cur.
           stop (RenameTooSoon (case us_NameChangeAvailableAt cur of None \<Rightarrow> now + RenameEvery | Some t \<Rightarrow> t)))
       | _ \<Rightarrow> break_off x))"

definition repo_SetBio :: "users_env \<Rightarrow> uuid \<Rightarrow> string \<Rightarrow> User users_op" where
  "repo_SetBio e i bio = andDo (or_none ErrNoUser (users_alter (ue_fails e USetBio) (SetBio (ue_dbnow e) i bio))) (\<lambda>u.
     ret (toUser (ue_now e) u))"

definition Interests :: "users_env \<Rightarrow> uuid \<Rightarrow> string list users_op" where
  "Interests e i = users_query (ue_fails e UInterests) (GetInterests (ue_coll e) i)"

definition visible_to :: "users_env \<Rightarrow> uuid \<Rightarrow> uuid \<Rightarrow> GetPublicProfileRow \<Rightarrow> bool users_op" where
  "visible_to e i viewer p = (if pq_Discoverable p \<or> i = viewer then ret True
     else users_query (ue_fails e UAreFriends) (AreFriendsSQL i viewer))"

definition PublicProfile :: "users_env \<Rightarrow> uuid \<Rightarrow> uuid \<Rightarrow> Profile users_op" where
  "PublicProfile e i viewer =
     andDo (or_none ErrNoUser (users_query (ue_fails e UProfile) (GetPublicProfile i viewer))) (\<lambda>p.
       let out = \<lparr>po_ID = pq_ID p, po_Name = pq_Name p, po_DisplayName = ShownName (pq_Name p) (pq_DisplayName p), po_Bio = pq_Bio p,
             po_AvatarURL = AvatarURLFrom (pq_ID p) (pq_AvatarAt p), po_Location = None, po_Interests = []\<rparr> in
       andDo (visible_to e i viewer p) (\<lambda>visible.
         if visible then andDo (Interests e i) (\<lambda>ids.
           ret (out\<lparr>po_Location := PlaceOf (pq_LocationID p), po_Interests := ids\<rparr>))
         else ret out))"

definition repo_Avatar :: "users_env \<Rightarrow> uuid \<Rightarrow> uuid \<Rightarrow> (string \<times> time) users_op" where
  "repo_Avatar e i viewer = or_none ErrNoUser (users_query (ue_fails e UGetAvatar) (GetAvatar i viewer))"

definition repo_SetLocation :: "users_env \<Rightarrow> uuid \<Rightarrow> string \<Rightarrow> string \<Rightarrow> unit users_op" where
  "repo_SetLocation e i place country =
     users_exec (ue_fails e ULocation) (SetLocation (ue_dbnow e) i (if place = [] then None else Some place) country)"

text \<open>\<open>ids\<close> is nil when it is empty.\<close>

definition SetInterests :: "users_env \<Rightarrow> uuid \<Rightarrow> string list \<Rightarrow> unit users_op" where
  "SetInterests e i ids =
     andDo (users_exec (ue_fails e URemoveOthers) (RemoveOtherInterests i (if ids = [] then None else Some ids))) (\<lambda>_.
       if ids = [] then ret () else users_exec (ue_fails e UAddInterests) (AddInterests i ids))"

definition repo_DisplayName :: "users_env \<Rightarrow> uuid \<Rightarrow> string users_op" where
  "repo_DisplayName e i = or_none ErrNoUser (users_query (ue_fails e UGetDisplay) (GetDisplayName i))"

section \<open>The cache of usernames\<close>

definition cached_name :: "users_env \<Rightarrow> uuid \<Rightarrow> users_sys \<Rightarrow> string option" where
  "cached_name e i s = (if ue_fails e UCacheGet then None else case us_names s i of
     Some (name, till) \<Rightarrow> if ue_now e < till then Some name else None | None \<Rightarrow> None)"

definition SetNames :: "users_env \<Rightarrow> uuid \<Rightarrow> string \<Rightarrow> unit users_op" where
  "SetNames e i name s =
     (Inr (), if ue_fails e UCacheSet then s else s\<lparr>us_names := (us_names s)(i \<mapsto> (name, ue_now e + nameTTL))\<rparr>)"

definition profileChanged :: "uuid \<Rightarrow> unit users_op" where
  "profileChanged i s = (Inr (), s\<lparr>us_out := us_out s @ [i]\<rparr>)"

section \<open>The service\<close>

definition SearchUser :: "users_env \<Rightarrow> uuid \<Rightarrow> string \<Rightarrow> PublicUser list users_op" where
  "SearchUser e me q0 =
     (let q = TrimSpace q0 in
      if q = [] \<or> RuneCountInString q > maxNameLen then stop ErrInvalidInput else SearchByName e me q)"

definition Me :: "users_env \<Rightarrow> uuid \<Rightarrow> User users_op" where
  "Me e i = andDo (user_by_id e UByIDAgain i) (\<lambda>u. andDo (Interests e i) (\<lambda>ids. ret (u\<lparr>us_Interests := Some ids\<rparr>)))"

definition users_GetName :: "users_env \<Rightarrow> uuid \<Rightarrow> string users_op" where
  "users_GetName e i s = (case cached_name e i s of
     Some name \<Rightarrow> ret name s
   | None \<Rightarrow> andDo (user_by_id e UByID i) (\<lambda>u. andDo (SetNames e (us_ID u) (us_Name u)) (\<lambda>_. ret (us_Name u))) s)"

text \<open>What a request asks for, checked before anything is changed; the place comes with its country.\<close>

record profile_change =
  pc_Name :: "string option"
  pc_DisplayName :: "string option"
  pc_Bio :: "string option"
  pc_Location :: "(string \<times> string) option"
  pc_Interests :: "string list option"
  pc_Discoverable :: "bool option"

definition rule :: "('a \<Rightarrow> 'e + 'b) \<Rightarrow> 'a option \<Rightarrow> ('b option \<Rightarrow> 'e + 'c) \<Rightarrow> 'e + 'c" where
  "rule f x k = (case x of None \<Rightarrow> k None | Some a \<Rightarrow> (case f a of Inl err \<Rightarrow> Inl err | Inr b \<Rightarrow> k (Some b)))"

definition display_rule :: "string \<Rightarrow> users_err + string" where
  "display_rule x = (let d = TrimSpace x in if ValidateDisplayName d then Inr d else Inl ErrBadDisplayName)"

definition bio_rule :: "string \<Rightarrow> users_err + string" where
  "bio_rule x = (let bio = TrimSpace x in if RuneCountInString bio > maxBioLen then Inl ErrBioTooLong else Inr bio)"

definition name_rule :: "auth_conf \<Rightarrow> string \<Rightarrow> users_err + string" where
  "name_rule c x = (let name = NormalizeUsername c x in if ValidateName name then Inr name else Inl ErrInvalidInput)"

definition place_rule :: "string \<Rightarrow> users_err + string \<times> string" where
  "place_rule x = (if x = [] then Inr ([], []) else case LookupPlace x of None \<Rightarrow> Inl ErrBadPlace | Some p \<Rightarrow> Inr (x, pl_Country p))"

fun first_of_each :: "'a list \<Rightarrow> 'a list \<Rightarrow> 'a list" where
  "first_of_each seen [] = []"
| "first_of_each seen (x # xs) = (if x \<in> set seen then first_of_each seen xs else x # first_of_each (x # seen) xs)"

definition interests_rule :: "string list \<Rightarrow> users_err + string list" where
  "interests_rule ids =
     (if \<not> list_all ValidInterest ids then Inl ErrBadInterests
      else let xs = first_of_each [] ids in if length xs > MaxInterests then Inl ErrBadInterests else Inr xs)"

definition checked :: "auth_conf \<Rightarrow> UpdateProfileRequest \<Rightarrow> users_err + profile_change" where
  "checked c req =
     rule display_rule (up_DisplayName req) (\<lambda>display. rule bio_rule (up_Bio req) (\<lambda>bio. rule (name_rule c) (up_Name req) (\<lambda>name.
       rule place_rule (up_Location req) (\<lambda>place. rule interests_rule (up_Interests req) (\<lambda>ids.
         Inr \<lparr>pc_Name = name, pc_DisplayName = display, pc_Bio = bio, pc_Location = place, pc_Interests = ids,
           pc_Discoverable = up_Discoverable req\<rparr>)))))"

definition given :: "'a option \<Rightarrow> ('a \<Rightarrow> unit users_op) \<Rightarrow> unit users_op" where
  "given x f = (case x of None \<Rightarrow> ret () | Some a \<Rightarrow> f a)"

definition change_name :: "users_env \<Rightarrow> uuid \<Rightarrow> string \<Rightarrow> unit users_op" where
  "change_name e me name =
     andDo (user_by_id e UByID me) (\<lambda>cur.
       if name = us_Name cur then ret ()
       else andDo (Rename e me name (ue_now e) (ue_now e - RenameEvery)) (\<lambda>_.
         andDo (SetNames e me name) (\<lambda>_. profileChanged me)))"

definition apply_change :: "users_env \<Rightarrow> uuid \<Rightarrow> profile_change \<Rightarrow> User users_op" where
  "apply_change e me p =
     andDo (given (pc_Name p) (change_name e me)) (\<lambda>_.
     andDo (given (pc_DisplayName p) (\<lambda>d. andDo (users_exec (ue_fails e USetDisplay) (SetDisplayName (ue_dbnow e) me d)) (\<lambda>_. profileChanged me))) (\<lambda>_.
     andDo (given (pc_Bio p) (\<lambda>bio. andDo (repo_SetBio e me bio) (\<lambda>_. ret ()))) (\<lambda>_.
     andDo (given (pc_Location p) (\<lambda>(place, country). repo_SetLocation e me place country)) (\<lambda>_.
     andDo (given (pc_Interests p) (SetInterests e me)) (\<lambda>_.
     andDo (given (pc_Discoverable p) (\<lambda>b. users_exec (ue_fails e UDiscoverable) (SetDiscoverable (ue_dbnow e) me b))) (\<lambda>_.
       Me e me))))))"

definition empty_request :: "UpdateProfileRequest \<Rightarrow> bool" where
  "empty_request req \<longleftrightarrow> up_Name req = None \<and> up_DisplayName req = None \<and> up_Bio req = None \<and> up_Location req = None \<and>
     up_Interests req = None \<and> up_Discoverable req = None"

definition UpdateProfile :: "users_env \<Rightarrow> uuid \<Rightarrow> UpdateProfileRequest \<Rightarrow> User users_op" where
  "UpdateProfile e me req =
     (if empty_request req then stop ErrInvalidInput
      else case checked (ue_conf e) req of Inl err \<Rightarrow> stop err | Inr p \<Rightarrow> apply_change e me p)"

definition View_profile :: "users_env \<Rightarrow> uuid \<Rightarrow> uuid \<Rightarrow> Profile users_op" where
  "View_profile e viewer i = PublicProfile e i viewer"

text \<open>The centre square of a picture.\<close>

definition Dx :: "rect \<Rightarrow> int" where "Dx r = maxX r - minX r"
definition Dy :: "rect \<Rightarrow> int" where "Dy r = maxY r - minY r"

definition centre_square :: "rect \<Rightarrow> rect" where
  "centre_square b =
     (let side = min (Dx b) (Dy b); x = minX b + (Dx b - side) div 2; y = minY b + (Dy b - side) div 2 in
      \<lparr>minX = x, minY = y, maxX = x + side, maxY = y + side\<rparr>)"

definition maxAvatarPixels :: int where "maxAvatarPixels = 40000000"
definition MaxAvatarUpload :: nat where "MaxAvatarUpload = 5 * 2 ^ 20"

definition ProcessAvatar :: "imaging \<Rightarrow> string \<Rightarrow> users_err fail + string" where
  "ProcessAvatar im raw = (case im_config im raw of
     None \<Rightarrow> Inl (Sentinel ErrNoImage)
   | Some (format, w, h) \<Rightarrow>
       if format \<notin> {''jpeg'', ''png'', ''webp''} then Inl (Sentinel ErrNoImage)
       else if w \<le> 0 \<or> h \<le> 0 \<or> w * h > maxAvatarPixels then Inl (Sentinel ErrHugeImage)
       else (case im_bounds im raw of
         None \<Rightarrow> Inl (Sentinel ErrNoImage)
       | Some b \<Rightarrow> (case im_jpeg im raw (centre_square b) of None \<Rightarrow> Inl (DbFail OtherDb) | Some out \<Rightarrow> Inr out)))"

definition truncate_ms :: "time \<Rightarrow> time" where
  "truncate_ms t = t - t mod millisecond"

definition SetAvatar :: "users_env \<Rightarrow> uuid \<Rightarrow> string \<Rightarrow> User users_op" where
  "SetAvatar e me raw = (case ProcessAvatar (ue_imaging e) raw of
     Inl x \<Rightarrow> break_off x
   | Inr img \<Rightarrow> andDo (users_exec (ue_fails e UPutAvatar) (SetAvatar_sql me img (truncate_ms (ue_now e)))) (\<lambda>_.
       andDo (profileChanged me) (\<lambda>_. Me e me)))"

definition DeleteAvatar :: "users_env \<Rightarrow> uuid \<Rightarrow> unit users_op" where
  "DeleteAvatar e me = andDo (users_exec (ue_fails e UDropAvatar) (DeleteAvatar_sql me)) (\<lambda>_. profileChanged me)"

definition Avatar :: "users_env \<Rightarrow> uuid \<Rightarrow> uuid \<Rightarrow> (string \<times> time) users_op" where
  "Avatar e viewer i = repo_Avatar e i viewer"

definition DisplayName :: "users_env \<Rightarrow> uuid \<Rightarrow> string users_op" where
  "DisplayName e i = repo_DisplayName e i"

end
