(* ===== verification/Presence.thy ===== *)
theory Presence
  imports Users Friends
begin

text \<open>
  \<^verbatim>\<open>presence/presence.go\<close>: who hears that somebody is online, and when they were last seen. The hook of the
  hub runs on its own goroutine; one section under the mutex, or one announcement, is one step.
\<close>

definition OfflineGrace :: duration where "OfflineGrace = 5 * second"

datatype presence_call = PTouch | PFriends | PRows | PHide

record presence_env =
  pn_friends :: friends_env
  pn_fails :: "presence_call \<Rightarrow> bool"
  pn_now :: time
  pn_dbnow :: time

text \<open>
  \<open>pz_online\<close>: the hub's answer of \<open>Online\<close>. \<open>pz_pending\<close>: the offline announcements that wait, with the time
  they fire. \<open>pz_out\<close>: what was sent, with the receivers; \<open>pz_announced\<close> records whom an announcement was
  about, and whether they were online then.
\<close>

record presence_sys =
  pz_friends :: friends_sys
  pz_online :: "uuid \<Rightarrow> bool"
  pz_pending :: "uuid \<Rightarrow> time option"
  pz_out :: "effect list"
  pz_announced :: "(uuid \<times> bool) list"

definition profiles :: "db \<Rightarrow> users_db" where
  "profiles d = \<lparr>pd_db = d, user_avatars = [], user_interests = []\<rparr>"

definition set_fdb :: "db \<Rightarrow> presence_sys \<Rightarrow> presence_sys" where
  "set_fdb d s = s\<lparr>pz_friends := (pz_friends s)\<lparr>fs_db := d\<rparr>\<rparr>"

definition presence_rows :: "presence_env \<Rightarrow> uuid list \<Rightarrow> presence_sys \<Rightarrow> dberr + PresenceOfRow list" where
  "presence_rows e ids s = faulty (pn_fails e PRows) (PresenceOf ids (profiles (fs_db (pz_friends s))))"

definition relationships_of :: "presence_env \<Rightarrow> uuid \<Rightarrow> presence_sys \<Rightarrow> snapshot option \<times> presence_sys" where
  "relationships_of e me s = (case Relationships (pn_friends e) me (pz_friends s) of
     (Inl _, f) \<Rightarrow> (None, s\<lparr>pz_friends := f\<rparr>) | (Inr snap, f) \<Rightarrow> (Some snap, s\<lparr>pz_friends := f\<rparr>))"

definition lastSeen :: "time option \<Rightarrow> bool \<Rightarrow> time option" where
  "lastSeen t online = (if online then None else t)"

definition row_of :: "uuid \<Rightarrow> PresenceOfRow list \<Rightarrow> PresenceOfRow option" where
  "row_of i rows = find (\<lambda>r. pr_ID r = i) (rev rows)"

definition hides :: "uuid \<Rightarrow> PresenceOfRow list \<Rightarrow> bool" where
  "hides i rows = (case row_of i rows of None \<Rightarrow> False | Some r \<Rightarrow> pr_HideLastSeen r)"

definition presence_event :: "uuid \<Rightarrow> PresenceOfRow \<Rightarrow> bool \<Rightarrow> event" where
  "presence_event u r online = Event EventPresence
     (if pr_HideLastSeen r then OutPresenceEvent u False None True
      else OutPresenceEvent u online (lastSeen (pr_LastSeenAt r) online) False)"

text \<open>\<open>None\<close>: a call failed.\<close>

definition broadcast :: "presence_env \<Rightarrow> uuid \<Rightarrow> presence_sys \<Rightarrow> unit option \<times> presence_sys" where
  "broadcast e u s = (case relationships_of e u s of
     (None, s1) \<Rightarrow> (None, s1)
   | (Some snap, s1) \<Rightarrow>
      (let online = filter (pz_online s1) (map fm_user_id (sn_friends snap)) in
       if online = [] then (Some (), s1)
       else (case presence_rows e (online @ [u]) s1 of
         Inl _ \<Rightarrow> (None, s1)
       | Inr rows \<Rightarrow> (case row_of u rows of
           None \<Rightarrow> (Some (), s1)
         | Some r \<Rightarrow>
             (let to = filter (\<lambda>i. i = u \<or> \<not> hides i rows) online in
              if to = [] then (Some (), s1)
              else (Some (), s1\<lparr>pz_out := pz_out s1 @ [WriteToUsers to (presence_event u r (pz_online s1 u))]\<rparr>))))))"

definition announce :: "presence_env \<Rightarrow> uuid \<Rightarrow> presence_sys \<Rightarrow> presence_sys" where
  "announce e u s = (snd (broadcast e u s))\<lparr>pz_announced := pz_announced s @ [(u, pz_online s u)]\<rparr>"

text \<open>The hook: \<open>TouchLastSeen\<close>, then the section under the mutex; it says whether to announce at once.\<close>

definition touch :: "presence_env \<Rightarrow> uuid \<Rightarrow> presence_sys \<Rightarrow> presence_sys" where
  "touch e u s = (if pn_fails e PTouch then s
     else set_fdb ((fs_db (pz_friends s))\<lparr>users := update_rows (\<lambda>r. u_id r = u)
       (\<lambda>r. r\<lparr>u_last_seen_at := Some (pgTime (pn_now e))\<rparr>) (users (fs_db (pz_friends s)))\<rparr>) s)"

definition changed_section :: "presence_env \<Rightarrow> uuid \<Rightarrow> bool \<Rightarrow> presence_sys \<Rightarrow> bool \<times> presence_sys" where
  "changed_section e u online s =
     (if online then (pz_pending s u = None, s\<lparr>pz_pending := (pz_pending s)(u := None)\<rparr>)
      else (False, if pz_pending s u = None then s\<lparr>pz_pending := (pz_pending s)(u \<mapsto> pn_now e + OfflineGrace)\<rparr> else s))"

definition Changed :: "presence_env \<Rightarrow> uuid \<Rightarrow> bool \<Rightarrow> presence_sys \<Rightarrow> presence_sys" where
  "Changed e u online s = (case changed_section e u online (touch e u s) of
     (True, s') \<Rightarrow> announce e u s' | (False, s') \<Rightarrow> s')"

definition grace_over :: "presence_env \<Rightarrow> uuid \<Rightarrow> presence_sys \<Rightarrow> presence_sys" where
  "grace_over e u s = announce e u (s\<lparr>pz_pending := (pz_pending s)(u := None)\<rparr>)"

record Entry =
  en_UserID :: uuid
  en_Online :: bool
  en_LastSeenAt :: "time option"
  en_Hidden :: bool

definition entry_of :: "(uuid \<Rightarrow> bool) \<Rightarrow> bool \<Rightarrow> PresenceOfRow list \<Rightarrow> uuid \<Rightarrow> Entry option" where
  "entry_of online hideMine rows i = (case row_of i rows of
     None \<Rightarrow> None
   | Some r \<Rightarrow> Some (if hideMine \<or> pr_HideLastSeen r then \<lparr>en_UserID = i, en_Online = False, en_LastSeenAt = None, en_Hidden = True\<rparr>
       else \<lparr>en_UserID = i, en_Online = online i, en_LastSeenAt = lastSeen (pr_LastSeenAt r) (online i), en_Hidden = False\<rparr>))"

definition FriendsPresence :: "presence_env \<Rightarrow> uuid \<Rightarrow> presence_sys \<Rightarrow> (bool \<times> Entry list) option \<times> presence_sys" where
  "FriendsPresence e me s = (case relationships_of e me s of
     (None, s1) \<Rightarrow> (None, s1)
   | (Some snap, s1) \<Rightarrow> (case presence_rows e (me # map fm_user_id (sn_friends snap)) s1 of
       Inl _ \<Rightarrow> (None, s1)
     | Inr rows \<Rightarrow> (Some (hides me rows,
         List.map_filter (entry_of (pz_online s1) (hides me rows) rows) (map fm_user_id (sn_friends snap))), s1)))"

definition SetHidden :: "presence_env \<Rightarrow> uuid \<Rightarrow> bool \<Rightarrow> presence_sys \<Rightarrow> bool \<times> presence_sys" where
  "SetHidden e me hide s =
     (if pn_fails e PHide then (False, s)
      else case SetHideLastSeen (pn_dbnow e) me hide (profiles (fs_db (pz_friends s))) of
        Inl _ \<Rightarrow> (False, s) | Inr d \<Rightarrow> (True, announce e me (set_fdb (pd_db d) s)))"

definition PresenceHandler :: "presence_env \<Rightarrow> uuid option \<Rightarrow> presence_sys \<Rightarrow> (bool \<times> Entry list) resp \<times> presence_sys" where
  "PresenceHandler e ctx = as_user ctx (\<lambda>me s. case FriendsPresence e me s of
     (None, s') \<Rightarrow> (ServerError, s') | (Some a, s') \<Rightarrow> (JSON StatusOK a, s'))"

definition SetPrivacyHandler :: "presence_env \<Rightarrow> uuid option \<Rightarrow> bool option \<Rightarrow> presence_sys \<Rightarrow> bool resp \<times> presence_sys" where
  "SetPrivacyHandler e ctx hide = as_user ctx (\<lambda>me s. case hide of
     None \<Rightarrow> (Error StatusBadRequest ''hide_last_seen must be true or false'', s)
   | Some b \<Rightarrow> (case SetHidden e me b s of (False, s') \<Rightarrow> (ServerError, s') | (True, s') \<Rightarrow> (JSON StatusOK b, s')))"

section \<open>Connections coming and going\<close>

text \<open>
  \<open>pc_hooks\<close>: the goroutines of the hub that have not run yet. The connections of a user come and go, a
  hook runs, a timer fires when its time has come (one that was stopped does not run any more).
\<close>

record presence_run =
  pc_sys :: presence_sys
  pc_hooks :: "(uuid \<times> bool) list"

datatype presence_label =
    PComes uuid
  | PGoes uuid
  | PHook nat
  | PTimer uuid
  | PHides uuid bool

definition set_online :: "uuid \<Rightarrow> bool \<Rightarrow> presence_run \<Rightarrow> presence_run" where
  "set_online u b r = (if pz_online (pc_sys r) u = b then r
     else r\<lparr>pc_sys := (pc_sys r)\<lparr>pz_online := (pz_online (pc_sys r))(u := b)\<rparr>, pc_hooks := pc_hooks r @ [(u, b)]\<rparr>)"

fun presence_exec :: "presence_env \<times> presence_label \<Rightarrow> presence_run \<Rightarrow> presence_run" where
  "presence_exec (e, PComes u) r = set_online u True r"
| "presence_exec (e, PGoes u) r = set_online u False r"
| "presence_exec (e, PHook i) r =
     (if i < length (pc_hooks r) then (case pc_hooks r ! i of (u, b) \<Rightarrow>
        r\<lparr>pc_sys := Changed e u b (pc_sys r), pc_hooks := take i (pc_hooks r) @ drop (Suc i) (pc_hooks r)\<rparr>) else r)"
| "presence_exec (e, PTimer u) r = (case pz_pending (pc_sys r) u of
     Some t \<Rightarrow> if t \<le> pn_now e then r\<lparr>pc_sys := grace_over e u (pc_sys r)\<rparr> else r | None \<Rightarrow> r)"
| "presence_exec (e, PHides u b) r = r\<lparr>pc_sys := snd (SetHidden e u b (pc_sys r))\<rparr>"

end
