(* ===== verification/Presence_Safety.thy ===== *)
theory Presence_Safety
  imports Presence Friends_Safety "HOL-Library.Multiset"
begin

text \<open>
  Who learns about whom, and when what friends were told is true.
\<close>

section \<open>Only friends, and both ways\<close>

lemma row_of_Some: "row_of i rows = Some r \<Longrightarrow> r \<in> set rows \<and> pr_ID r = i"
  unfolding row_of_def by (rule find_rev_Some)

lemma row_of_PresenceOf:
  assumes "key_ok u_id (users d)" "PresenceOf ids (profiles d) = Inr rows" "i \<in> set ids"
  shows "row_of i rows = map_option (\<lambda>u. \<lparr>pr_ID = u_id u, pr_LastSeenAt = u_last_seen_at u, pr_HideLastSeen = u_hide_last_seen u\<rparr>) (find_user i d)"
proof -
  let ?f = "\<lambda>u. \<lparr>pr_ID = u_id u, pr_LastSeenAt = u_last_seen_at u, pr_HideLastSeen = u_hide_last_seen u\<rparr>"
  have rows: "rows = map ?f (filter (\<lambda>u. u_id u \<in> set ids) (users d))" using assms(2) by (simp add: PresenceOf_def profiles_def)
  have found: "\<exists>v \<in> set (users d). u_id v = i \<and> r = ?f v" if "row_of i rows = Some r" for r
    using row_of_Some [OF that] rows by auto
  show ?thesis
  proof (cases "find_user i d")
    case None
    then have "\<not> (\<exists>v \<in> set (users d). u_id v = i)" by (simp add: find_user_None user_exists_def exists_row_def)
    with found have "row_of i rows = None" by (cases "row_of i rows") blast+
    with None show ?thesis by simp
  next
    case (Some u)
    from find_user_Some [OF Some] have u: "u_id u = i" "u \<in> set (users d)" by simp_all
    then have "?f u \<in> set rows" using rows assms(3) by auto
    then have "row_of i rows \<noteq> None" unfolding row_of_def using u(1) by (auto simp: find_None_iff)
    then obtain r where r: "row_of i rows = Some r" by blast
    from found [OF this] obtain v where v: "v \<in> set (users d)" "u_id v = i" "r = ?f v" by blast
    then have "v = u" using u assms(1) by (auto simp: key_ok_def distinct_map inj_on_def)
    with r v Some show ?thesis by simp
  qed
qed

lemma snapshot_friends:
  assumes "friends_inv (fs_db (pz_friends s))" "lists_current (fe_coll (pn_friends e)) (pz_friends s)"
    and "relationships_of e me s = (Some snap, s1)"
  shows "fm_user_id ` set (sn_friends snap) = {i. are_friends_db me i (fs_db (pz_friends s))}"
    "fs_db (pz_friends s1) = fs_db (pz_friends s)" "pz_online s1 = pz_online s" "pz_out s1 = pz_out s" "pz_announced s1 = pz_announced s"
proof -
  obtain f where f: "Relationships (pn_friends e) me (pz_friends s) = (Inr snap, f)" "s1 = s\<lparr>pz_friends := f\<rparr>"
    using assms(3) by (auto simp: relationships_of_def split: prod.splits sum.splits)
  note R = Relationships_current [OF assms(2) f(1)]
  show "fs_db (pz_friends s1) = fs_db (pz_friends s)" "pz_online s1 = pz_online s" "pz_out s1 = pz_out s" "pz_announced s1 = pz_announced s"
    using R(3) f(2) by simp_all
  show "fm_user_id ` set (sn_friends snap) = {i. are_friends_db me i (fs_db (pz_friends s))}"
  proof -
    have "sn_friends snap = map meta_of (ListFriends (fe_coll (pn_friends e)) me (fs_db (pz_friends s)))"
      using R(1) by (auto simp: source_def snapshot_of_def)
    then have "fm_user_id ` set (sn_friends snap) = u_id ` set (ListFriends (fe_coll (pn_friends e)) me (fs_db (pz_friends s)))"
      by (simp add: meta_of_def image_image)
    then show ?thesis using ListFriends_iff [OF assms(1)] by (auto simp: image_iff) metis+
  qed
qed

text \<open>What a friend's entry or event may say about \<open>v\<close>: nothing when either of the two hides.\<close>

definition tells :: "(uuid \<Rightarrow> bool) \<Rightarrow> user \<Rightarrow> bool \<Rightarrow> bool \<Rightarrow> bool \<Rightarrow> time option \<Rightarrow> bool" where
  "tells online v hidden_too hidden on at \<longleftrightarrow> hidden = (u_hide_last_seen v \<or> hidden_too) \<and>
     (hidden \<longrightarrow> \<not> on \<and> at = None) \<and> (\<not> hidden \<longrightarrow> on = online (u_id v) \<and> at = (if on then None else u_last_seen_at v))"

lemma broadcast_event:
  assumes "friends_inv (fs_db (pz_friends s))" "lists_current (fe_coll (pn_friends e)) (pz_friends s)"
    and "broadcast e u s = (r, s')"
  shows "pz_out s' = pz_out s \<or> (\<exists>to v on at hidden. pz_out s' = pz_out s @ [WriteToUsers to (Event EventPresence (OutPresenceEvent u on at hidden))] \<and>
     find_user u (fs_db (pz_friends s)) = Some v \<and> tells (pz_online s) v False hidden on at \<and>
     (\<forall>i \<in> set to. are_friends_db u i (fs_db (pz_friends s)) \<and> pz_online s i \<and>
       (\<forall>w. find_user i (fs_db (pz_friends s)) = Some w \<longrightarrow> i = u \<or> \<not> u_hide_last_seen w)))"
proof (cases "fst (relationships_of e u s)")
  case None
  then obtain s1 where "relationships_of e u s = (None, s1)" by (metis prod.collapse)
  moreover from this have "pz_out s1 = pz_out s" by (auto simp: relationships_of_def split: prod.splits sum.splits)
  ultimately show ?thesis using assms(3) by (simp add: broadcast_def)
next
  case (Some snap)
  then obtain s1 where rel: "relationships_of e u s = (Some snap, s1)" by (metis prod.collapse)
  note k = snapshot_friends [OF assms(1,2) rel]
  let ?d = "fs_db (pz_friends s)"
  let ?on = "filter (pz_online s) (map fm_user_id (sn_friends snap))"
  show ?thesis
  proof (cases "pz_out s' = pz_out s")
    case False
    with assms(3) k(4) obtain rows row where
      rows: "presence_rows e (?on @ [u]) s1 = Inr rows" "row_of u rows = Some row" and
      out: "pz_out s' = pz_out s @ [WriteToUsers (filter (\<lambda>i. i = u \<or> \<not> hides i rows) ?on) (presence_event u row (pz_online s u))]"
      by (auto simp: broadcast_def rel k(2,3) Let_def split: if_splits sum.splits option.splits)
    have P: "PresenceOf (?on @ [u]) (profiles ?d) = Inr rows"
      using rows(1) by (simp add: presence_rows_def k(2) faulty_def split: if_splits)
    have keys: "key_ok u_id (users ?d)" using assms(1) by (simp add: friends_inv_def)
    note R = row_of_PresenceOf [OF keys P]
    obtain v where v: "find_user u ?d = Some v" "pr_HideLastSeen row = u_hide_last_seen v" "pr_LastSeenAt row = u_last_seen_at v"
      using R [of u] rows(2) by (cases "find_user u ?d") auto
    have "u_id v = u" using find_user_Some [OF v(1)] by simp
    have to: "are_friends_db u i ?d \<and> pz_online s i \<and> (\<forall>w. find_user i ?d = Some w \<longrightarrow> i = u \<or> \<not> u_hide_last_seen w)"
      if "i \<in> set (filter (\<lambda>i. i = u \<or> \<not> hides i rows) ?on)" for i
    proof -
      from that have "i \<in> set ?on" "i = u \<or> \<not> hides i rows" by auto
      with R [of i] k(1) show ?thesis by (auto simp: hides_def)
    qed
    show ?thesis
    proof (cases "u_hide_last_seen v")
      case True
      then have ev: "presence_event u row (pz_online s u) = Event EventPresence (OutPresenceEvent u False None True)"
        by (simp add: presence_event_def v)
      have "tells (pz_online s) v False True False None" using True by (simp add: tells_def)
      with out [unfolded ev] v(1) to show ?thesis by blast
    next
      case False
      then have ev: "presence_event u row (pz_online s u) = Event EventPresence (OutPresenceEvent u (pz_online s u) (lastSeen (u_last_seen_at v) (pz_online s u)) False)"
        by (simp add: presence_event_def v)
      have "tells (pz_online s) v False False (pz_online s u) (lastSeen (u_last_seen_at v) (pz_online s u))"
        using False \<open>u_id v = u\<close> by (simp add: tells_def lastSeen_def)
      with out [unfolded ev] v(1) to show ?thesis by blast
    qed
  qed simp
qed

lemma in_map_filter: "y \<in> set (List.map_filter f xs) \<longleftrightarrow> (\<exists>x \<in> set xs. f x = Some y)"
  by (induction xs) (auto simp: List.map_filter_simps split: option.splits)

lemma entries_shown:
  assumes "friends_inv (fs_db (pz_friends s))" "lists_current (fe_coll (pn_friends e)) (pz_friends s)"
    and "FriendsPresence e me s = (Some (hidden, es), s')" "en \<in> set es" "find_user me (fs_db (pz_friends s)) = Some mine"
  shows "are_friends_db me (en_UserID en) (fs_db (pz_friends s)) \<and> hidden = u_hide_last_seen mine \<and>
    (\<exists>v. find_user (en_UserID en) (fs_db (pz_friends s)) = Some v \<and> tells (pz_online s) v (u_hide_last_seen mine) (en_Hidden en) (en_Online en) (en_LastSeenAt en))"
proof -
  let ?d = "fs_db (pz_friends s)"
  obtain snap s1 rows where rel: "relationships_of e me s = (Some snap, s1)"
      and rows: "presence_rows e (me # map fm_user_id (sn_friends snap)) s1 = Inr rows" and h: "hidden = hides me rows"
      and es: "es = List.map_filter (entry_of (pz_online s1) (hides me rows) rows) (map fm_user_id (sn_friends snap))"
    using assms(3) by (auto simp: FriendsPresence_def split: prod.splits option.splits sum.splits)
  note k = snapshot_friends [OF assms(1,2) rel]
  have P: "PresenceOf (me # map fm_user_id (sn_friends snap)) (profiles ?d) = Inr rows"
    using rows by (simp add: presence_rows_def k(2) faulty_def split: if_splits)
  have keys: "key_ok u_id (users ?d)" using assms(1) by (simp add: friends_inv_def)
  note R = row_of_PresenceOf [OF keys P]
  have mine: "hides me rows = u_hide_last_seen mine" using R [of me] assms(5) by (simp add: hides_def)
  from assms(4) es obtain i where i: "i \<in> fm_user_id ` set (sn_friends snap)" "entry_of (pz_online s) (hides me rows) rows i = Some en"
    by (auto simp: in_map_filter k(3))
  then obtain v where v: "find_user i ?d = Some v" using R [of i] by (auto simp: entry_of_def split: option.splits)
  have "en_UserID en = i" "u_id v = i" using i(2) find_user_Some [OF v] by (auto simp: entry_of_def split: option.splits if_splits)
  moreover have "tells (pz_online s) v (u_hide_last_seen mine) (en_Hidden en) (en_Online en) (en_LastSeenAt en)"
    using i R [of i] v \<open>u_id v = i\<close> by (auto simp: entry_of_def mine tells_def lastSeen_def split: if_splits)
  ultimately show ?thesis using i(1) k(1) v h mine by auto
qed

text \<open>
  C19: Presence is for friends and works both ways. An announcement about somebody goes only to connected
  friends of theirs who do not hide their own last seen, and if the subject hides, it says nothing; the
  list of friends tells about friends only, and nothing about those who hide, and nothing at all to
  somebody who hides; what is told is the hub's state and the time in the table. This is so while the cached
  lists of friends are current, which they are as long as no invalidation of them has failed; after a failed
  one, which is only logged, a former friend is still told until the list expires or is invalidated.
\<close>

theorem presence_is_reciprocal:
  assumes "friends_inv (fs_db (pz_friends s))" "lists_current (fe_coll (pn_friends e)) (pz_friends s)"
  shows "(pz_out (announce e u s) = pz_out s \<or> (\<exists>to v on at hidden.
       pz_out (announce e u s) = pz_out s @ [WriteToUsers to (Event EventPresence (OutPresenceEvent u on at hidden))] \<and>
       find_user u (fs_db (pz_friends s)) = Some v \<and> tells (pz_online s) v False hidden on at \<and>
       (\<forall>i \<in> set to. are_friends_db u i (fs_db (pz_friends s)) \<and> pz_online s i \<and>
         (\<forall>w. find_user i (fs_db (pz_friends s)) = Some w \<longrightarrow> i = u \<or> \<not> u_hide_last_seen w)))) \<and>
    (\<forall>hidden es mine. fst (FriendsPresence e u s) = Some (hidden, es) \<and> find_user u (fs_db (pz_friends s)) = Some mine \<longrightarrow>
      (\<forall>en \<in> set es. are_friends_db u (en_UserID en) (fs_db (pz_friends s)) \<and>
        (\<exists>v. find_user (en_UserID en) (fs_db (pz_friends s)) = Some v \<and>
          tells (pz_online s) v (u_hide_last_seen mine) (en_Hidden en) (en_Online en) (en_LastSeenAt en))))"
proof -
  obtain r s' where b: "broadcast e u s = (r, s')" by (metis prod.collapse)
  then have out: "pz_out (announce e u s) = pz_out s'" by (simp add: announce_def)
  have list: "are_friends_db u (en_UserID en) (fs_db (pz_friends s)) \<and>
      (\<exists>v. find_user (en_UserID en) (fs_db (pz_friends s)) = Some v \<and>
        tells (pz_online s) v (u_hide_last_seen mine) (en_Hidden en) (en_Online en) (en_LastSeenAt en))"
    if h: "fst (FriendsPresence e u s) = Some (hidden, es)" and mine: "find_user u (fs_db (pz_friends s)) = Some mine"
      and en: "en \<in> set es" for hidden es mine en
  proof -
    from h obtain t where "FriendsPresence e u s = (Some (hidden, es), t)" by (metis prod.collapse)
    from entries_shown [OF assms this en mine] show ?thesis by simp
  qed
  from broadcast_event [OF assms b] list show ?thesis unfolding out by blast
qed

text \<open>1 and 2 are friends, connected, and hide nothing.\<close>

definition at_rest :: presence_env where
  "at_rest = \<lparr>pn_friends = calm 9, pn_fails = (\<lambda>_. False), pn_now = 5000, pn_dbnow = 5000\<rparr>"

definition both_online :: presence_sys where
  "both_online = \<lparr>pz_friends = befriended, pz_online = (\<lambda>_. True), pz_pending = (\<lambda>_. None), pz_out = [], pz_announced = []\<rparr>"

lemma befriended_users: "users (fs_db befriended) = [new_user 1 ''ann'', new_user 2 ''bob'']"
  by (simp add: befriended_def Friends.Send_def SendCheck_def SendCreate_def repo_BlockBetween_def BlockBetween_def two_users_def
      empty_db_def Friends.repo_Create_def CreateFriendRequest_def Accept_def repo_Accept_def
      AcceptFriendRequest_def user_exists_def ignore_def notFound_def)

lemma both_online_told: "pz_out (announce at_rest 1 both_online) \<noteq> []"
proof -
  let ?d = "fs_db befriended"
  have ok: "friends_inv (fs_db (pz_friends both_online))" "lists_current (fe_coll (pn_friends at_rest)) (pz_friends both_online)"
    using befriended_ok by (simp_all add: both_online_def at_rest_def)
  have "\<exists>snap f. Relationships (calm 9) 1 befriended = (Inr snap, f)"
    by (simp add: Relationships_def VLoad_def Friends.repo_Snapshot_def cache_fails_def split: option.split)
  then have "\<exists>snap s1. relationships_of at_rest 1 both_online = (Some snap, s1)"
    by (auto simp: relationships_of_def at_rest_def both_online_def)
  then obtain snap s1 where r: "relationships_of at_rest 1 both_online = (Some snap, s1)" by blast
  note S = snapshot_friends [OF ok r]
  have "are_friends_db 1 2 ?d" unfolding befriended_def by (rule friends_example)
  then have two: "2 \<in> fm_user_id ` set (sn_friends snap)" by (simp add: S(1)) (simp add: both_online_def)
  let ?on = "filter (pz_online s1) (map fm_user_id (sn_friends snap))"
  have on: "2 \<in> set ?on" using two by (simp add: S(3)) (simp add: both_online_def)
  obtain rows where rows: "PresenceOf (?on @ [1]) (profiles ?d) = Inr rows" by (simp add: PresenceOf_def)
  then have q: "presence_rows at_rest (?on @ [1]) s1 = Inr rows" "pz_out s1 = []"
    using S(2,4) by (simp_all add: presence_rows_def at_rest_def both_online_def faulty_def)
  have "key_ok u_id (users ?d)" by (simp add: befriended_users key_ok_def new_user_def)
  from row_of_PresenceOf [OF this rows] have row: "row_of 1 rows \<noteq> None" "\<not> hides 2 rows"
    using on by (simp_all add: hides_def find_user_def befriended_users new_user_def)
  then obtain x where x: "row_of 1 rows = Some x" by blast
  have "2 \<in> set (filter (\<lambda>i. i = 1 \<or> \<not> hides i rows) ?on)" using on row(2) by simp
  then have to: "filter (\<lambda>i. i = 1 \<or> \<not> hides i rows) ?on \<noteq> []" by (metis empty_iff empty_set)
  have "?on \<noteq> []" using on by (metis empty_iff empty_set)
  then show ?thesis using to by (simp add: announce_def broadcast_def r q x Let_def)
qed

theorem presence_is_reciprocal_witness:
  "\<exists>to on at hidden. pz_out (announce at_rest 1 both_online) = [WriteToUsers to (Event EventPresence (OutPresenceEvent 1 on at hidden))] \<and>
     (\<forall>i \<in> set to. are_friends_db 1 i (fs_db befriended))"
proof -
  have "friends_inv (fs_db (pz_friends both_online))" "lists_current (fe_coll (pn_friends at_rest)) (pz_friends both_online)"
    using befriended_ok by (simp_all add: both_online_def at_rest_def)
  from conjunct1 [OF presence_is_reciprocal [OF this, of 1]] both_online_told show ?thesis
    by (auto simp: both_online_def)
qed

section \<open>What friends were told last\<close>

lemma relationships_of_keeps:
  "relationships_of e u s = (r, t) \<Longrightarrow> pz_pending t = pz_pending s \<and> pz_online t = pz_online s \<and> pz_announced t = pz_announced s"
  by (auto simp: relationships_of_def split: prod.splits sum.splits)

lemma broadcast_keeps:
  "broadcast e u s = (r, t) \<Longrightarrow> pz_pending t = pz_pending s \<and> pz_online t = pz_online s \<and> pz_announced t = pz_announced s"
  by (auto simp: broadcast_def Let_def dest!: relationships_of_keeps split: prod.splits option.splits sum.splits if_splits)

lemma announce_simps [simp]:
  "pz_pending (announce e u s) = pz_pending s" "pz_online (announce e u s) = pz_online s"
  "pz_announced (announce e u s) = pz_announced s @ [(u, pz_online s u)]"
  using broadcast_keeps [of e u s "fst (broadcast e u s)" "snd (broadcast e u s)"] by (simp_all add: announce_def)

lemma touch_simps [simp]:
  "pz_pending (touch e u s) = pz_pending s" "pz_online (touch e u s) = pz_online s" "pz_announced (touch e u s) = pz_announced s"
  by (simp_all add: touch_def set_fdb_def)

lemma Changed_simps:
  "pz_online (Changed e u b s) = pz_online s"
  "pz_pending (Changed e u True s) = (pz_pending s)(u := None)"
  "pz_pending (Changed e u False s) = (if pz_pending s u = None then (pz_pending s)(u \<mapsto> pn_now e + OfflineGrace) else pz_pending s)"
  "pz_announced (Changed e u True s) = pz_announced s @ (if pz_pending s u = None then [(u, pz_online s u)] else [])"
  "pz_announced (Changed e u False s) = pz_announced s"
  by (auto simp: Changed_def changed_section_def split: prod.splits bool.splits if_splits)

definition told_last :: "uuid \<Rightarrow> presence_run \<Rightarrow> bool" where
  "told_last u r = (case rev (filter (\<lambda>x. fst x = u) (pz_announced (pc_sys r))) of [] \<Rightarrow> False | x # _ \<Rightarrow> snd x)"

definition waiting :: "uuid \<Rightarrow> presence_run \<Rightarrow> bool list" where
  "waiting u r = map snd (filter (\<lambda>x. fst x = u) (pc_hooks r))"

definition is_online :: "uuid \<Rightarrow> presence_run \<Rightarrow> bool" where
  "is_online u r = pz_online (pc_sys r) u"

definition in_grace :: "uuid \<Rightarrow> presence_run \<Rightarrow> bool" where
  "in_grace u r \<longleftrightarrow> pz_pending (pc_sys r) u \<noteq> None"

text \<open>
  The user's connections change again, or they change the setting, only after the hook of the last change has
  run, and the setting not within the grace.
\<close>

definition prompt :: "presence_label \<Rightarrow> presence_run \<Rightarrow> bool" where
  "prompt l r = (case l of PComes u \<Rightarrow> waiting u r = [] | PGoes u \<Rightarrow> waiting u r = []
     | PHides u _ \<Rightarrow> waiting u r = [] \<and> \<not> in_grace u r | _ \<Rightarrow> True)"

fun prompt_run :: "(presence_env \<times> presence_label) list \<Rightarrow> presence_run \<Rightarrow> bool" where
  "prompt_run [] r \<longleftrightarrow> True"
| "prompt_run (x # xs) r \<longleftrightarrow> prompt (snd x) r \<and> prompt_run xs (presence_exec x r)"

definition settled :: "uuid \<Rightarrow> presence_run \<Rightarrow> bool" where
  "settled u r \<longleftrightarrow>
     waiting u r = [] \<and> \<not> in_grace u r \<and> told_last u r = is_online u r \<or>
     waiting u r = [] \<and> in_grace u r \<and> \<not> is_online u r \<and> told_last u r \<or>
     waiting u r = [True] \<and> is_online u r \<and> (in_grace u r \<longrightarrow> told_last u r) \<or>
     waiting u r = [False] \<and> \<not> is_online u r \<and> \<not> in_grace u r \<and> told_last u r"

text \<open>What a step does to the four things the invariant speaks of.\<close>

lemma set_online_view:
  "waiting v (set_online u b r) = waiting v r @ (if v = u \<and> is_online u r \<noteq> b then [b] else [])"
  "is_online v (set_online u b r) = (if v = u then b else is_online v r)"
  "in_grace v (set_online u b r) = in_grace v r" "told_last v (set_online u b r) = told_last v r"
  by (auto simp: set_online_def waiting_def is_online_def in_grace_def told_last_def)

lemma told_last_append:
  "pz_announced (pc_sys r') = pz_announced (pc_sys r) @ [(u, b)] \<Longrightarrow> told_last v r' = (if v = u then b else told_last v r)"
  by (auto simp: told_last_def)

lemma hook_view:
  fixes e
  assumes "i < length (pc_hooks r)" "pc_hooks r ! i = (u, b)"
  defines "r' \<equiv> presence_exec (e, PHook i) r"
  shows "mset (waiting v r) = mset (waiting v r') + (if v = u then {#b#} else {#})"
    "is_online v r' = is_online v r"
    "in_grace v r' = (if v = u then \<not> b else in_grace v r)"
    "told_last v r' = (if v = u \<and> b \<and> \<not> in_grace u r then is_online u r else told_last v r)"
proof -
  have r': "r' = r\<lparr>pc_sys := Changed e u b (pc_sys r), pc_hooks := take i (pc_hooks r) @ drop (Suc i) (pc_hooks r)\<rparr>"
    by (simp add: r'_def assms(1,2))
  have "pc_hooks r = take i (pc_hooks r) @ (u, b) # drop (Suc i) (pc_hooks r)" using assms(1,2) by (metis id_take_nth_drop)
  then have "waiting v r = map snd (filter (\<lambda>x. fst x = v) (take i (pc_hooks r) @ (u, b) # drop (Suc i) (pc_hooks r)))"
    by (simp add: waiting_def)
  then show "mset (waiting v r) = mset (waiting v r') + (if v = u then {#b#} else {#})" by (simp add: r' waiting_def)
  show "is_online v r' = is_online v r" by (simp add: r' is_online_def Changed_simps)
  show "in_grace v r' = (if v = u then \<not> b else in_grace v r)" by (cases b) (auto simp: r' in_grace_def Changed_simps)
  show "told_last v r' = (if v = u \<and> b \<and> \<not> in_grace u r then is_online u r else told_last v r)"
    by (cases b) (auto simp: r' told_last_def in_grace_def is_online_def Changed_simps)
qed

lemma settled_step:
  assumes "settled v r" "prompt l r"
  shows "settled v (presence_exec (e, l) r)"
proof (cases l)
  case (PComes u)
  with assms show ?thesis by (auto simp: settled_def prompt_def set_online_view)
next
  case (PGoes u)
  with assms show ?thesis by (auto simp: settled_def prompt_def set_online_view)
next
  case (PHook i)
  show ?thesis
  proof (cases "i < length (pc_hooks r)")
    case True
    obtain u b where ub: "pc_hooks r ! i = (u, b)" by fastforce
    note h = hook_view [OF True ub, of _ e]
    have "size (waiting v r) \<le> 1" using assms(1) by (auto simp: settled_def)
    then show ?thesis
    proof (cases "v = u")
      case same: True
      with h(1) [of v] assms(1) have w: "waiting v r = [b]" "waiting v (presence_exec (e, PHook i) r) = []"
        by (auto simp: settled_def)
      show ?thesis
        using assms(1) w(1) unfolding PHook settled_def w(2) h(2-4) by (cases b) (auto simp: same)
    next
      case False
      with h(1) [of v] assms(1) have "waiting v (presence_exec (e, PHook i) r) = waiting v r"
        by (auto simp: settled_def)
      then show ?thesis using assms(1) False unfolding PHook settled_def h(2-4) by simp
    qed
  qed (use PHook assms(1) in simp)
next
  case (PTimer u)
  show ?thesis
  proof (cases "\<exists>t. pz_pending (pc_sys r) u = Some t \<and> t \<le> pn_now e")
    case True
    then have r': "presence_exec (e, l) r = r\<lparr>pc_sys := grace_over e u (pc_sys r)\<rparr>" "in_grace u r" by (auto simp: PTimer in_grace_def)
    have "told_last v (presence_exec (e, l) r) = (if v = u then is_online u r else told_last v r)"
      unfolding r' by (rule told_last_append) (simp add: grace_over_def is_online_def)
    moreover have "in_grace v (presence_exec (e, l) r) = (if v = u then False else in_grace v r)"
      "is_online v (presence_exec (e, l) r) = is_online v r" "waiting v (presence_exec (e, l) r) = waiting v r"
      by (auto simp: r' grace_over_def in_grace_def is_online_def waiting_def)
    ultimately show ?thesis using assms(1) r'(2) by (auto simp: settled_def)
  next
    case False
    then have "presence_exec (e, l) r = r" by (auto simp: PTimer split: option.splits)
    with assms(1) show ?thesis by simp
  qed
next
  case (PHides u b)
  obtain ok s' where sh: "SetHidden e u b (pc_sys r) = (ok, s')" by (metis prod.collapse)
  then have "pz_online s' = pz_online (pc_sys r)" "pz_pending s' = pz_pending (pc_sys r)"
    "pz_announced s' = pz_announced (pc_sys r) \<or> pz_announced s' = pz_announced (pc_sys r) @ [(u, pz_online (pc_sys r) u)]"
    by (auto simp: SetHidden_def set_fdb_def split: if_splits sum.splits)
  then have "told_last v (presence_exec (e, l) r) = told_last v r \<or> told_last v (presence_exec (e, l) r) = (if v = u then is_online u r else told_last v r)"
    "in_grace v (presence_exec (e, l) r) = in_grace v r" "is_online v (presence_exec (e, l) r) = is_online v r"
    "waiting v (presence_exec (e, l) r) = waiting v r"
    by (auto simp: PHides sh told_last_def in_grace_def is_online_def waiting_def)
  then show ?thesis using assms by (auto simp: settled_def prompt_def PHides split: if_splits)
qed

definition nobody_online :: "friends_sys \<Rightarrow> presence_run" where
  "nobody_online f = \<lparr>pc_sys = \<lparr>pz_friends = f, pz_online = (\<lambda>_. False), pz_pending = (\<lambda>_. None), pz_out = [], pz_announced = []\<rparr>, pc_hooks = []\<rparr>"

text \<open>
  What friends were told last is true once things are quiet: if the hook of each change runs before the next
  change of that user, then whenever no hook and no grace is left for a user, the last announcement said
  whether they are connected now, however hooks of different users, timers and reconnects interleave.
\<close>

theorem presence_settles:
  assumes "prompt_run xs (nobody_online f)" "r = fold presence_exec xs (nobody_online f)"
    and "waiting u r = []" "\<not> in_grace u r"
  shows "told_last u r = is_online u r"
proof -
  have "settled u (fold presence_exec xs r)" if "settled u r" "prompt_run xs r" for r
    using that by (induction xs arbitrary: r) (auto simp: settled_step)
  moreover have "settled u (nobody_online f)"
    by (simp add: settled_def nobody_online_def waiting_def in_grace_def told_last_def is_online_def)
  ultimately have "settled u r" using assms(1,2) by blast
  with assms(3,4) show ?thesis by (auto simp: settled_def)
qed

theorem presence_settles_witness:
  "let r = fold presence_exec [(at_rest, PComes 1), (at_rest, PHook 0)] (nobody_online befriended) in told_last 1 r \<and> is_online 1 r"
proof -
  let ?xs = "[(at_rest, PComes 1), (at_rest, PHook 0)]"
  let ?r = "fold presence_exec ?xs (nobody_online befriended)"
  have "prompt_run ?xs (nobody_online befriended)" by (simp add: prompt_def nobody_online_def waiting_def)
  moreover have v: "waiting 1 ?r = []" "\<not> in_grace 1 ?r" "is_online 1 ?r"
    by (simp_all add: nobody_online_def set_online_def waiting_def in_grace_def is_online_def Changed_simps)
  ultimately show ?thesis using presence_settles [of ?xs befriended ?r 1] by (simp add: Let_def)
qed

text \<open>
  Without that, somebody who comes, goes before the hook has looked, and comes back within the grace, stays
  shown as offline: the first announcement already said so, and the second arrival is not announced.
\<close>

lemma quick_return_stays_hidden:
  "let r = fold presence_exec (map (Pair at_rest) [PComes 1, PGoes 1, PHook 0, PHook 0, PComes 1, PHook 0]) (nobody_online f) in
   pc_hooks r = [] \<and> \<not> in_grace 1 r \<and> is_online 1 r \<and> \<not> told_last 1 r"
  by (simp add: nobody_online_def set_online_def told_last_def in_grace_def is_online_def Changed_simps Let_def)

end
