(* ===== verification/Push_Safety.thy ===== *)
theory Push_Safety
  imports Push Runes
begin

text \<open>
  Who is notified, on which phone, and what a user's settings do.
\<close>

section \<open>Who hears of a job\<close>

definition chat_type_of :: "job \<Rightarrow> string" where
  "chat_type_of j = (if j_group j \<noteq> Nil_uuid then ''public'' else ''private'')"

definition chat_of :: "job \<Rightarrow> uuid" where
  "chat_of j = (if j_group j \<noteq> Nil_uuid then j_group j else j_from j)"

text \<open>
  What the settings of a user say of each kind of job: messages, groups, friends and reactions by their own
  switch, calls always; and without settings everything is on.
\<close>

definition push_kinds :: "string set" where
  "push_kinds = {KindPrivate, KindGroup, KindFriendRequest, KindFriendAccept, KindReaction, KindGroupAdded, KindCall, KindMissedCall}"

definition switched_on :: "string \<Rightarrow> notification_pref option \<Rightarrow> bool" where
  "switched_on kind prefs \<longleftrightarrow> (case prefs of None \<Rightarrow> True
     | Some p \<Rightarrow> (kind = KindPrivate \<longrightarrow> np_private p) \<and>
         (kind = KindGroup \<or> kind = KindGroupAdded \<longrightarrow> np_groups p) \<and>
         (kind = KindFriendRequest \<or> kind = KindFriendAccept \<longrightarrow> np_friends p) \<and>
         (kind = KindReaction \<longrightarrow> np_reactions p))"

text \<open>A mute of the group of the job, or of its sender if it is of no group, that has not run out.\<close>

definition mutes :: "job \<Rightarrow> time \<Rightarrow> uuid \<Rightarrow> chat_mute \<Rightarrow> bool" where
  "mutes j now u m \<longleftrightarrow> mu_user_id m = u \<and>
     (if j_group j = Nil_uuid then mu_chat_type m = ''private'' \<and> mu_chat_id m = j_from j
      else mu_chat_type m = ''public'' \<and> mu_chat_id m = j_group j) \<and>
     (\<forall>t. mu_until m = Some t \<longrightarrow> now < t)"

text \<open>A device of a recipient who is not connected, wants this kind and has not muted this chat.\<close>

definition should_hear :: "push_env \<Rightarrow> job \<Rightarrow> push_db \<Rightarrow> user_device \<Rightarrow> bool" where
  "should_hear e j d r \<longleftrightarrow> ud_user_id r \<in> set (j_to j) \<and> ud_user_id r \<noteq> j_from j \<and> \<not> pe_online e (ud_user_id r) \<and>
     switched_on (j_kind j) (find_row (\<lambda>p. np_user_id p = ud_user_id r) (notification_prefs d)) \<and>
     \<not> (\<exists>m \<in> set (chat_mutes d). mutes j (pgTime (pe_now e)) (ud_user_id r) m)"

lemmas kind_defs = KindPrivate_def KindGroup_def KindFriendRequest_def KindFriendAccept_def KindReaction_def KindGroupAdded_def
  KindCall_def KindMissedCall_def

lemma wants_switched_on: "kind \<in> push_kinds \<Longrightarrow> wants (prefKind kind) p = switched_on kind p"
  unfolding push_kinds_def by (elim insertE emptyE; cases p) (simp_all add: wants_def prefKind_def switched_on_def kind_defs)

lemma muted_mutes: "muted u (chat_type_of j) (chat_of j) now d \<longleftrightarrow> (\<exists>m \<in> set (chat_mutes d). mutes j now u m)"
  by (auto simp: muted_def exists_row_def of_chat_def still_on_def mutes_def chat_type_of_def chat_of_def split: option.splits)

lemma targets_should_hear:
  assumes "j_kind j \<in> push_kinds"
  shows "PushTargets (filter (\<lambda>u. \<not> (u = j_from j \<or> pe_online e u)) (j_to j)) (prefKind (j_kind j)) (chat_type_of j) (chat_of j) (pgTime (pe_now e)) d =
   filter (should_hear e j d) (user_devices d)"
  by (auto simp: PushTargets_def should_hear_def wants_switched_on [OF assms] muted_mutes intro!: filter_cong)

definition addressed :: "(Message \<Rightarrow> sent) \<Rightarrow> Message \<Rightarrow> user_device \<Rightarrow> Message \<times> sent" where
  "addressed fcm msg t = (let m = msg\<lparr>pm_Token := ud_token t\<rparr> in (m, fcm m))"

definition forget_dead :: "push_env \<Rightarrow> (Message \<times> sent) list \<Rightarrow> push_db \<Rightarrow> push_db" where
  "forget_dead e out d = (let dead = map (pm_Token \<circ> fst) (filter (\<lambda>x. snd x = DeadToken) out) in
     if dead = [] \<or> pe_fails e PDead then d else DeleteDeadTokens dead d)"

lemma Handle_cases:
  assumes "pe_send e = Some fcm" and kind: "j_kind j \<in> push_kinds" and hear_def: "hear = filter (should_hear e j d) (user_devices d)"
  shows "Handle e j d =
    (if filter (\<lambda>u. \<not> (u = j_from j \<or> pe_online e u)) (j_to j) = [] then (Inr [], d)
     else if pe_fails e PTargets then (Inl (DbFail OtherDb), d)
     else if hear = [] then (Inr [], d)
     else case render e j of
       None \<Rightarrow> (Inl (DbFail OtherDb), d)
     | Some msg \<Rightarrow> (Inr (map (addressed fcm msg) hear), forget_dead e (map (addressed fcm msg) hear) d))"
proof -
  define to where "to = filter (\<lambda>u. \<not> (u = j_from j \<or> pe_online e u)) (j_to j)"
  have chat: "(if j_group j \<noteq> Nil_uuid then (''public'', j_group j) else (''private'', j_from j)) = (chat_type_of j, chat_of j)"
    by (simp add: chat_type_of_def chat_of_def)
  have targets: "PushTargets to (prefKind (j_kind j)) (chat_type_of j) (chat_of j) (pgTime (pe_now e)) d = hear"
    unfolding to_def hear_def by (rule targets_should_hear [OF kind])
  have map_eq: "map (\<lambda>t. let m = msg\<lparr>pm_Token := ud_token t\<rparr> in (m, fcm m)) xs = map (addressed fcm msg) xs" for msg xs
    by (simp add: addressed_def)
  have none: "filter (\<lambda>x. snd x = DeadToken) out = [] \<Longrightarrow> forget_dead e out d = d" for out
    by (simp add: forget_dead_def)
  have some: "filter (\<lambda>x. snd x = DeadToken) out \<noteq> [] \<Longrightarrow>
      attempt (exec (pe_fails e PDead) (\<lambda>d. Inr (DeleteDeadTokens (map (pm_Token \<circ> fst) (filter (\<lambda>x. snd x = DeadToken) out)) d)))
        (\<lambda>_. ret out) d = (Inr out, forget_dead e out d)" for out
    by (simp add: attempt_def exec_def ret_def faulty_def forget_dead_def)
  let ?q = "sql_query (pe_fails e PTargets) (\<lambda>d. Inr (PushTargets to (prefKind (j_kind j)) (chat_type_of j) (chat_of j) (pgTime (pe_now e)) d))"
  have q: "?q d = (if pe_fails e PTargets then (Inl (DbFail OtherDb), d) else (Inr hear, d))"
    by (simp add: sql_query_def targets)
  let ?f = "\<lambda>targets. if targets = [] then ret [] else case render e j of None \<Rightarrow> break_off (DbFail OtherDb)
      | Some msg \<Rightarrow> (let out = map (\<lambda>t. let m = msg\<lparr>pm_Token := ud_token t\<rparr> in (m, fcm m)) targets in
          let dead = map (pm_Token \<circ> fst) (filter (\<lambda>x. snd x = DeadToken) out) in if dead = [] then ret out
          else attempt (exec (pe_fails e PDead) (\<lambda>d. Inr (DeleteDeadTokens dead d))) (\<lambda>_. ret out))"
  have f: "?f hear d = (if hear = [] then (Inr [], d) else case render e j of None \<Rightarrow> (Inl (DbFail OtherDb), d)
      | Some msg \<Rightarrow> (Inr (map (addressed fcm msg) hear), forget_dead e (map (addressed fcm msg) hear) d))"
    unfolding map_eq Let_def [of "map _ _"] by (cases "hear = []"; cases "render e j") (simp_all add: none some Let_def, simp_all add: ret_def break_off_def)
  have "Handle e j d = (if to = [] then ret [] d else andDo ?q ?f d)"
    unfolding Handle_def assms(1) option.case chat fst_conv snd_conv to_def [symmetric]
    by (simp add: Let_def [of to] Let_def [of "(_, _)"])
  also have "\<dots> = (if to = [] then (Inr [], d) else if pe_fails e PTargets then (Inl (DbFail OtherDb), d) else ?f hear d)"
    by (simp add: andDo_def q ret_def)
  finally show ?thesis unfolding f to_def by simp
qed

lemma Handle_out:
  assumes "Handle e j d = (Inr out, d')" "pe_send e = Some fcm" "j_kind j \<in> push_kinds"
  shows "\<exists>msg. out = map (addressed fcm msg) (filter (should_hear e j d) (user_devices d)) \<and> d' = forget_dead e out d"
proof -
  have "filter (\<lambda>u. \<not> (u = j_from j \<or> pe_online e u)) (j_to j) = [] \<Longrightarrow> filter (should_hear e j d) (user_devices d) = []"
    by (auto simp: should_hear_def filter_empty_conv)
  with assms(1) show ?thesis unfolding Handle_cases [OF assms(2,3) refl]
    by (auto simp: forget_dead_def split: if_splits option.splits)
qed

text \<open>
  C24: With Firebase configured and the lookups working, handling a job of one of the eight kinds sends one
  notification to each phone of a recipient, other than the sender, who is not connected, has the switch of that
  kind on (private messages; groups and being added to one; friends' requests and answers; reactions; calls
  have none) and has not muted that chat, and none to any other phone; the phones Firebase no
  longer knows are forgotten and no other.
\<close>

theorem pushes_reach_whom_they_should:
  assumes "Handle e j d = (Inr out, d')" "pe_send e = Some fcm" "j_kind j \<in> push_kinds"
  shows "map (pm_Token \<circ> fst) out = map ud_token (filter (should_hear e j d) (user_devices d)) \<and>
    (\<forall>(m, r) \<in> set out. r = fcm m) \<and>
    (\<not> pe_fails e PDead \<longrightarrow> user_devices d' = filter (\<lambda>r. (ud_token r, DeadToken) \<notin> (\<lambda>(m, x). (pm_Token m, x)) ` set out) (user_devices d))"
proof -
  obtain msg where out: "out = map (addressed fcm msg) (filter (should_hear e j d) (user_devices d))" and d': "d' = forget_dead e out d"
    using Handle_out [OF assms] by blast
  let ?dead = "map (pm_Token \<circ> fst) (filter (\<lambda>x. snd x = DeadToken) out)"
  have gone: "(x, DeadToken) \<in> (\<lambda>(m, r). (pm_Token m, r)) ` set out \<longleftrightarrow> x \<in> set ?dead" for x
    by (force simp: image_iff)
  have "user_devices d' = filter (\<lambda>r. ud_token r \<notin> set ?dead) (user_devices d)" if "\<not> pe_fails e PDead"
    using that by (cases "?dead = []") (simp_all add: d' forget_dead_def DeleteDeadTokens_def delete_rows_def Let_def)
  moreover have "map (pm_Token \<circ> fst) out = map ud_token (filter (should_hear e j d) (user_devices d))"
    by (simp add: out comp_def addressed_def Let_def)
  moreover have "\<forall>(m, r) \<in> set out. r = fcm m" by (auto simp: out addressed_def Let_def)
  ultimately show ?thesis unfolding gone by blast
qed

text \<open>Two phones of user 2, one of user 3, who muted user 1.\<close>

definition phones :: push_db where
  "phones = \<lparr>pb_db = empty_db, user_devices = map (\<lambda>(t, u). \<lparr>ud_token = t, ud_user_id = u, ud_platform = ''ios'',
      ud_created_at = 0, ud_last_seen_at = 0\<rparr>) [(''a'', 2), (''b'', 2), (''c'', 3)],
    notification_prefs = [], chat_mutes = [\<lparr>mu_user_id = 3, mu_chat_type = ''private'', mu_chat_id = 1, mu_until = None\<rparr>]\<rparr>"

definition calm_push :: push_env where
  "calm_push = \<lparr>pe_fails = \<lambda>_. False, pe_now = 5000, pe_online = \<lambda>_. False,
     pe_send = Some (\<lambda>m. if pm_Token m = ''b'' then DeadToken else Delivered), pe_name = \<lambda>_. ''ann'', pe_group = \<lambda>_. []\<rparr>"

theorem pushes_reach_whom_they_should_witness:
  "\<exists>out d'. Handle calm_push (push_job KindPrivate [2, 3] 1) phones = (Inr out, d') \<and>
    map (pm_Token \<circ> fst) out = [''a'', ''b''] \<and> map ud_token (user_devices d') = [''a'', ''c'']"
proof -
  let ?j = "push_job KindPrivate [2, 3] 1"
  have group: "j_group (push_job k to from) = 0" "j_msg_id (push_job k to from) = 0" for k to "from" by (simp_all add: push_job_def)
  have hear: "filter (should_hear calm_push ?j phones) (user_devices phones) = filter (\<lambda>r. ud_user_id r = 2) (user_devices phones)"
    by (simp add: phones_def should_hear_def calm_push_def switched_on_def mutes_def group)
  have kind: "j_kind ?j \<in> push_kinds" by (simp add: push_job_def push_kinds_def)
  have "\<exists>m. render calm_push ?j = Some m" by (simp add: render_def calm_push_def group)
  then obtain m where m: "render calm_push ?j = Some m" by blast
  have "\<exists>out d'. Handle calm_push ?j phones = (Inr out, d')"
    using m hear by (subst Handle_cases [of calm_push "the (pe_send calm_push)", OF _ kind refl]) (simp_all add: calm_push_def phones_def push_job_def)
  then obtain out d' where H: "Handle calm_push ?j phones = (Inr out, d')" by blast
  from pushes_reach_whom_they_should [OF this _ kind, of "the (pe_send calm_push)"]
  have t: "map (pm_Token \<circ> fst) out = [''a'', ''b'']" "\<forall>(m, r) \<in> set out. r = (if pm_Token m = ''b'' then DeadToken else Delivered)"
    "user_devices d' = filter (\<lambda>r. (ud_token r, DeadToken) \<notin> (\<lambda>(m, x). (pm_Token m, x)) ` set out) (user_devices phones)"
    by (simp_all add: hear) (simp_all add: calm_push_def phones_def)
  have dead: "(x, DeadToken) \<in> (\<lambda>(m, x). (pm_Token m, x)) ` set out \<longleftrightarrow> x = ''b''" for x
  proof
    assume "(x, DeadToken) \<in> (\<lambda>(m, x). (pm_Token m, x)) ` set out"
    with t(2) show "x = ''b''" by (auto split: if_splits)
  next
    assume x: "x = ''b''"
    have "''b'' \<in> set (map (pm_Token \<circ> fst) out)" by (simp add: t(1))
    then obtain p where "p \<in> set out" "pm_Token (fst p) = ''b''" by auto
    with t(2) x show "(x, DeadToken) \<in> (\<lambda>(m, x). (pm_Token m, x)) ` set out" by (force simp: image_iff)
  qed
  have "map ud_token (user_devices d') = [''a'', ''c'']" unfolding t(3) dead by (simp add: phones_def)
  with H t(1) show ?thesis by (intro exI conjI)
qed

section \<open>Phones and settings\<close>

lemma UpsertDevice_moves:
  assumes "UpsertDevice now token u platform d = Inr d'"
  shows "\<forall>r \<in> set (user_devices d'). ud_token r = token \<longrightarrow> ud_user_id r = u"
    and "key_ok ud_token (user_devices d) \<Longrightarrow> key_ok ud_token (user_devices d')"
proof -
  have d': "user_devices d' = (if exists_row (\<lambda>r. ud_token r = token) (user_devices d)
        then update_rows (\<lambda>r. ud_token r = token) (\<lambda>r. r\<lparr>ud_user_id := u, ud_platform := platform, ud_last_seen_at := now\<rparr>) (user_devices d)
        else user_devices d @ [\<lparr>ud_token = token, ud_user_id = u, ud_platform = platform, ud_created_at = now, ud_last_seen_at = now\<rparr>])"
    using assms by (auto simp: UpsertDevice_def split: if_splits)
  show "\<forall>r \<in> set (user_devices d'). ud_token r = token \<longrightarrow> ud_user_id r = u"
    unfolding d' by (auto simp: exists_row_def set_update_rows)
  show "key_ok ud_token (user_devices d')" if "key_ok ud_token (user_devices d)"
    unfolding d' using that by (simp add: key_ok_update key_ok_snoc)
qed

lemma RegisterDevice_moves:
  assumes "RegisterDevice e u token platform d = (Inr x, d')"
  shows "\<forall>r \<in> set (user_devices d'). ud_token r = token \<longrightarrow> ud_user_id r = u"
    and "key_ok ud_token (user_devices d) \<Longrightarrow> key_ok ud_token (user_devices d')"
proof -
  obtain p where "UpsertDevice (pgTime (pe_now e)) token u p d = Inr d'"
    using assms by (auto simp: RegisterDevice_def Let_def split: if_splits)
  from UpsertDevice_moves [OF this] show "\<forall>r \<in> set (user_devices d'). ud_token r = token \<longrightarrow> ud_user_id r = u"
    "key_ok ud_token (user_devices d) \<Longrightarrow> key_ok ud_token (user_devices d')" by blast+
qed

lemma forgotten_phones_stay_silent:
  assumes "ForgetDevices e u d = (Inr x, d')"
  shows "\<not> (\<exists>r \<in> set (user_devices d'). ud_user_id r = u)"
  using assms by (auto simp: ForgetDevices_def DeleteUserDevices_def)

lemma prefs_are_kept:
  assumes "SetPrefs e u p d = (Inr x, d')" "\<not> pe_fails e' PPrefs" "key_ok np_user_id (notification_prefs d)"
  shows "fst (Prefs e' u d') = Inr p"
proof -
  let ?r = "\<lparr>np_user_id = u, np_private = pr_Private p, np_groups = pr_Groups p, np_friends = pr_Friends p, np_reactions = pr_Reactions p\<rparr>"
  have d': "?r \<in> set (notification_prefs d')" "key_ok np_user_id (notification_prefs d')"
    using assms(1,3) by (auto simp: SetPrefs_def SetNotificationPrefs_def exists_row_def set_update_rows key_ok_update key_ok_snoc split: if_splits)
  then have "find_row (\<lambda>p. np_user_id p = u) (notification_prefs d') = Some ?r" by (intro find_row_eqI) auto
  with assms(2) show ?thesis by (simp add: Prefs_def attempt_def sql_query_def GetNotificationPrefs_def one_row_def ret_def)
qed

lemma muting_silences:
  assumes "Mute e u m d = (Inr x, d')" "mq_Until m = None"
  shows "muted u (mq_Type m) (mq_ID m) now d'"
proof -
  let ?p = "of_chat u (mq_Type m) (mq_ID m)"
  have d': "chat_mutes d' = (if exists_row ?p (chat_mutes d) then update_rows ?p (\<lambda>m. m\<lparr>mu_until := None\<rparr>) (chat_mutes d)
        else chat_mutes d @ [\<lparr>mu_user_id = u, mu_chat_type = mq_Type m, mu_chat_id = mq_ID m, mu_until = None\<rparr>])"
    using assms by (auto simp: Mute_def SetMute_def split: if_splits)
  have "exists_row (\<lambda>m. ?p m \<and> still_on now m) (chat_mutes d')"
  proof (cases "exists_row ?p (chat_mutes d)")
    case True
    then obtain r where r: "r \<in> set (chat_mutes d)" "?p r" by (auto simp: exists_row_def)
    have "chat_mutes d' = update_rows ?p (\<lambda>m. m\<lparr>mu_until := None\<rparr>) (chat_mutes d)" using d' True by simp
    with \<open>?p r\<close> \<open>r \<in> set (chat_mutes d)\<close> have "r\<lparr>mu_until := None\<rparr> \<in> set (chat_mutes d')" by (force simp: set_update_rows)
    moreover have "?p (r\<lparr>mu_until := None\<rparr>)" using \<open>?p r\<close> by (simp add: of_chat_def)
    ultimately show ?thesis by (force simp: exists_row_def still_on_def)
  next
    case False
    then show ?thesis by (simp add: d' of_chat_def still_on_def)
  qed
  then show ?thesis by (simp add: muted_def)
qed

section \<open>Previews\<close>

lemma first_runes_pieces:
  "chunks (first_runes n s) = map (\<lambda>(r, w). (r, if r = 0xFFFD then replacement else w)) (take n (chunks s)) \<and> ValidString (first_runes n s)"
proof -
  let ?cs = "map (\<lambda>(r, w). (r, if r = 0xFFFD then replacement else w)) (take n (chunks s))"
  have "\<forall>c \<in> set ?cs. piece c" by (auto simp: piece_replacement dest!: in_set_takeD intro: chunk_piece)
  moreover have "first_runes n s = concat (map snd ?cs)"
    unfolding first_runes_def replacement_def [symmetric] by (simp add: comp_def case_prod_unfold)
  ultimately show ?thesis using chunks_pieces [of ?cs] by simp
qed

lemma preview_is_short:
  assumes "Dispatcher_Notify j = Some j'"
  shows "RuneCountInString (j_preview j') \<le> 120"
proof (cases "RuneCountInString (j_preview j) > maxPreview")
  case True
  have "chunks ellipsis = [(0x2026, ellipsis)]"
    by (simp add: ellipsis_def chunks.simps [of "_ # _"] DecodeRune_def second3_def cont_def)
  then have "RuneCountInString (first_runes 119 (j_preview j) @ ellipsis) = min (RuneCountInString (j_preview j)) 119 + 1"
    using first_runes_pieces [of 119 "j_preview j"] by (simp add: RuneCountInString_def runes_def chunks_append)
  with True assms show ?thesis by (auto simp: Dispatcher_Notify_def maxPreview_def split: if_splits)
qed (use assms in \<open>auto simp: Dispatcher_Notify_def maxPreview_def split: if_splits\<close>)

end
