(* ===== verification/Queue.thy ===== *)
theory Queue
  imports Prelude
begin

text \<open>
  \<^verbatim>\<open>platform/queue\<close>: background jobs with retries. The Redis queue is streams with one consumer group, a sorted
  set of retries that wait and a stream of dead jobs; what servers have read and not finished is in their
  hands. The memory queue is channels and timers. A payload is its JSON text.
\<close>

section \<open>What both queues decide\<close>

text \<open>The answer of a handler: \<open>nil\<close>, an error, an error marked by \<^verbatim>\<open>Permanent\<close>.\<close>

datatype job_answer = JobDone | JobFailed string | JobHopeless string

definition IsPermanent :: "job_answer \<Rightarrow> bool" where
  "IsPermanent r = (case r of JobHopeless _ \<Rightarrow> True | _ \<Rightarrow> False)"

definition error_text :: "job_answer \<Rightarrow> string" where
  "error_text r = (case r of JobDone \<Rightarrow> [] | JobFailed x \<Rightarrow> x | JobHopeless x \<Rightarrow> ''permanent: '' @ x)"

text \<open>\<open>Permanent(nil)\<close> is \<open>nil\<close>; \<open>Typed\<close> runs its function on a payload that can be decoded.\<close>

definition Permanent :: "job_answer \<Rightarrow> job_answer" where
  "Permanent r = (case r of JobDone \<Rightarrow> JobDone | _ \<Rightarrow> JobHopeless (error_text r))"

definition Typed :: "(string \<Rightarrow> string + 'a) \<Rightarrow> ('a \<Rightarrow> job_answer) \<Rightarrow> string \<Rightarrow> job_answer" where
  "Typed decode fn raw = (case decode raw of Inl err \<Rightarrow> Permanent (JobFailed err) | Inr job \<Rightarrow> fn job)"

text \<open>The delay before attempt \<open>n\<close> (from 1); a shift by a negative number would panic.\<close>

definition Backoff :: "nat \<Rightarrow> duration" where
  "Backoff n = (let d = 200 * millisecond * 2 ^ min (n - 1) 8 in min d (30 * second))"

section \<open>Streams\<close>

text \<open>
  A Redis stream with its consumer group: entries from \<open>xs_read\<close> on have not been delivered,
  \<open>xs_pending\<close> lists the delivered ones that wait for their \<open>XACK\<close>, with consumer and delivery time.
\<close>

record xentry =
  xm_ID :: nat
  xm_payload :: string
  xm_attempt :: nat

record xstream =
  xs_entries :: "xentry list"
  xs_next :: nat
  xs_read :: nat
  xs_pending :: "(nat \<times> string \<times> time) list"

definition empty_stream :: xstream where
  "empty_stream = \<lparr>xs_entries = [], xs_next = 0, xs_read = 0, xs_pending = []\<rparr>"

text \<open>\<open>MAXLEN ~ n\<close>: Redis drops some of the oldest entries, \<open>gone\<close> here, and keeps at least \<open>n\<close>.\<close>

definition trim :: "nat \<Rightarrow> nat \<Rightarrow> 'a list \<Rightarrow> 'a list" where
  "trim n gone xs = drop (min gone (length xs - n)) xs"

definition XAdd :: "nat \<Rightarrow> nat \<Rightarrow> string \<Rightarrow> nat \<Rightarrow> xstream \<Rightarrow> xstream" where
  "XAdd n gone payload attempt st = st\<lparr>xs_next := xs_next st + 1,
     xs_entries := trim n gone (xs_entries st @ [\<lparr>xm_ID = xs_next st, xm_payload = payload, xm_attempt = attempt\<rparr>])\<rparr>"

definition unread :: "xstream \<Rightarrow> xentry list" where
  "unread st = filter (\<lambda>m. xs_read st \<le> xm_ID m) (xs_entries st)"

definition XReadGroup :: "time \<Rightarrow> string \<Rightarrow> nat \<Rightarrow> xstream \<Rightarrow> xentry list \<times> xstream" where
  "XReadGroup now consumer n st =
     (let msgs = take n (unread st) in
      (msgs, if msgs = [] then st
        else st\<lparr>xs_read := xm_ID (last msgs) + 1, xs_pending := xs_pending st @ map (\<lambda>m. (xm_ID m, consumer, now)) msgs\<rparr>))"

text \<open>
  The first pending entries that were delivered long ago are delivered again, to this consumer; an entry
  that is not in the stream any more is only forgotten. Redis looks at ten times \<open>n\<close> entries.
\<close>

definition XAutoClaim :: "time \<Rightarrow> string \<Rightarrow> duration \<Rightarrow> nat \<Rightarrow> xstream \<Rightarrow> xentry list \<times> xstream" where
  "XAutoClaim now consumer idle n st =
     (let ids = map fst (take n (filter (\<lambda>(_, _, t). t + idle \<le> now) (take (10 * n) (sort_key fst (xs_pending st)))));
          there = map xm_ID (xs_entries st) in
      (filter (\<lambda>m. xm_ID m \<in> set ids) (xs_entries st),
       st\<lparr>xs_pending := map (\<lambda>p. if fst p \<in> set ids then (fst p, consumer, now) else p)
         (filter (\<lambda>p. fst p \<in> set ids \<longrightarrow> fst p \<in> set there) (xs_pending st))\<rparr>))"

definition XAckDel :: "nat \<Rightarrow> xstream \<Rightarrow> xstream" where
  "XAckDel i st = st\<lparr>xs_pending := filter (\<lambda>p. fst p \<noteq> i) (xs_pending st), xs_entries := filter (\<lambda>m. xm_ID m \<noteq> i) (xs_entries st)\<rparr>"

section \<open>The queue on Redis\<close>

record RedisOptions =
  ro_Group :: string
  ro_MaxRetries :: int
  ro_StreamMaxLen :: int
  ro_JobTimeout :: duration
  ro_ClaimIdle :: duration
  ro_BlockFor :: duration

definition defaults :: "RedisOptions \<Rightarrow> RedisOptions" where
  "defaults opt = \<lparr>ro_Group = (if ro_Group opt = [] then ''chirpy'' else ro_Group opt),
     ro_MaxRetries = (if ro_MaxRetries opt \<le> 0 then 8 else ro_MaxRetries opt),
     ro_StreamMaxLen = (if ro_StreamMaxLen opt \<le> 0 then 100000 else ro_StreamMaxLen opt),
     ro_JobTimeout = (if ro_JobTimeout opt \<le> 0 then 30 * second else ro_JobTimeout opt),
     ro_ClaimIdle = (if ro_ClaimIdle opt \<le> 0 then minute else ro_ClaimIdle opt),
     ro_BlockFor = (if ro_BlockFor opt \<le> 0 then 2 * second else ro_BlockFor opt)\<rparr>"

record envelope =
  ev_Topic :: string
  ev_Payload :: string
  ev_Attempt :: nat

record dead_job =
  dj_topic :: string
  dj_payload :: string
  dj_attempt :: nat
  dj_error :: string

text \<open>
  \<open>rq_delayed\<close>: the sorted set, member and score in milliseconds. \<open>rq_hand\<close>: what the goroutines of the
  servers hold, with the topic. \<open>rq_done\<close> records the jobs a handler has completed.
\<close>

record redis_queue =
  rq_streams :: "string \<Rightarrow> xstream"
  rq_delayed :: "(envelope \<times> int) list"
  rq_dead :: "dead_job list"
  rq_hand :: "(string \<times> xentry) list"
  rq_done :: "(string \<times> string) list"

definition empty_queue :: redis_queue where
  "empty_queue = \<lparr>rq_streams = (\<lambda>_. empty_stream), rq_delayed = [], rq_dead = [], rq_hand = [], rq_done = []\<rparr>"

definition on_stream :: "string \<Rightarrow> (xstream \<Rightarrow> xstream) \<Rightarrow> redis_queue \<Rightarrow> redis_queue" where
  "on_stream topic f q = q\<lparr>rq_streams := (rq_streams q)(topic := f (rq_streams q topic))\<rparr>"

definition maxlen :: "RedisOptions \<Rightarrow> nat" where
  "maxlen opt = nat (ro_StreamMaxLen opt)"

definition queue_add :: "RedisOptions \<Rightarrow> nat \<Rightarrow> string \<Rightarrow> string \<Rightarrow> nat \<Rightarrow> redis_queue \<Rightarrow> redis_queue" where
  "queue_add opt gone topic payload attempt = on_stream topic (XAdd (maxlen opt) gone payload attempt)"

definition Publish :: "RedisOptions \<Rightarrow> bool \<Rightarrow> nat \<Rightarrow> string \<Rightarrow> string \<Rightarrow> redis_queue \<Rightarrow> bool \<times> redis_queue" where
  "Publish opt flt gone topic payload q = (if flt then (False, q) else (True, queue_add opt gone topic payload 0 q))"

text \<open>The two ways in which a reader gets entries, which go to its workers.\<close>

definition receive :: "string \<Rightarrow> (xstream \<Rightarrow> xentry list \<times> xstream) \<Rightarrow> redis_queue \<Rightarrow> redis_queue" where
  "receive topic cmd q = (case cmd (rq_streams q topic) of (msgs, st) \<Rightarrow>
     q\<lparr>rq_streams := (rq_streams q)(topic := st), rq_hand := rq_hand q @ map (Pair topic) msgs\<rparr>)"

definition consume_new :: "time \<Rightarrow> string \<Rightarrow> nat \<Rightarrow> string \<Rightarrow> redis_queue \<Rightarrow> redis_queue" where
  "consume_new now consumer batch topic = receive topic (XReadGroup now (consumer @ ''-'' @ topic) batch)"

definition consume_abandoned :: "RedisOptions \<Rightarrow> time \<Rightarrow> string \<Rightarrow> nat \<Rightarrow> string \<Rightarrow> redis_queue \<Rightarrow> redis_queue" where
  "consume_abandoned opt now consumer batch topic = receive topic (XAutoClaim now (consumer @ ''-'' @ topic) (ro_ClaimIdle opt) batch)"

definition ZAdd :: "envelope \<Rightarrow> int \<Rightarrow> (envelope \<times> int) list \<Rightarrow> (envelope \<times> int) list" where
  "ZAdd env due z = filter (\<lambda>x. fst x \<noteq> env) z @ [(env, due)]"

definition UnixMilli :: "time \<Rightarrow> int" where
  "UnixMilli t = t div millisecond"

text \<open>The transaction after a handler has answered.\<close>

definition settle :: "RedisOptions \<Rightarrow> time \<Rightarrow> nat \<Rightarrow> string \<Rightarrow> xentry \<Rightarrow> job_answer \<Rightarrow> redis_queue \<Rightarrow> redis_queue" where
  "settle opt now gone topic msg r q =
     on_stream topic (XAckDel (xm_ID msg))
       (if r = JobDone then q
        else if IsPermanent r \<or> int (xm_attempt msg + 1) \<ge> ro_MaxRetries opt then
          q\<lparr>rq_dead := trim (maxlen opt) gone (rq_dead q @ [\<lparr>dj_topic = topic, dj_payload = xm_payload msg,
            dj_attempt = xm_attempt msg + 1, dj_error = error_text r\<rparr>])\<rparr>
        else
          q\<lparr>rq_delayed := ZAdd \<lparr>ev_Topic = topic, ev_Payload = xm_payload msg, ev_Attempt = xm_attempt msg + 1\<rparr>
            (UnixMilli (now + Backoff (xm_attempt msg + 1))) (rq_delayed q)\<rparr>)"

definition process :: "RedisOptions \<Rightarrow> time \<Rightarrow> bool \<Rightarrow> nat \<Rightarrow> string \<Rightarrow> xentry \<Rightarrow> job_answer \<Rightarrow> redis_queue \<Rightarrow> redis_queue" where
  "process opt now flt gone topic msg r q =
     (let q = (if r = JobDone then q\<lparr>rq_done := rq_done q @ [(topic, xm_payload msg)]\<rparr> else q) in
      if flt then q else settle opt now gone topic msg r q)"

text \<open>The script: due retries go back to their streams, at most a hundred.\<close>

definition move_one :: "RedisOptions \<Rightarrow> nat \<Rightarrow> envelope \<Rightarrow> redis_queue \<Rightarrow> redis_queue" where
  "move_one opt gone env q = queue_add opt gone (ev_Topic env) (ev_Payload env) (ev_Attempt env)
     (q\<lparr>rq_delayed := filter (\<lambda>x. fst x \<noteq> env) (rq_delayed q)\<rparr>)"

definition due_now :: "time \<Rightarrow> redis_queue \<Rightarrow> envelope list" where
  "due_now now q = map fst (take 100 (sort_key snd (filter (\<lambda>x. snd x \<le> UnixMilli now) (rq_delayed q))))"

definition moveDue :: "RedisOptions \<Rightarrow> time \<Rightarrow> nat \<Rightarrow> redis_queue \<Rightarrow> redis_queue" where
  "moveDue opt now gone q = fold (move_one opt gone) (due_now now q) q"

section \<open>Servers at work\<close>

text \<open>
  What can happen next: \<open>QDrop\<close>: a server that holds an entry crashes, or stops before a worker took it.
\<close>

datatype queue_label =
    QPublish bool nat string string
  | QRead string nat string
  | QClaim string nat string
  | QFinish nat job_answer bool nat
  | QDrop nat
  | QMove nat

definition let_go :: "nat \<Rightarrow> redis_queue \<Rightarrow> redis_queue" where
  "let_go i q = q\<lparr>rq_hand := take i (rq_hand q) @ drop (Suc i) (rq_hand q)\<rparr>"

fun queue_exec :: "RedisOptions \<Rightarrow> time \<times> queue_label \<Rightarrow> redis_queue \<Rightarrow> redis_queue" where
  "queue_exec opt (now, QPublish flt gone topic payload) q = snd (Publish opt flt gone topic payload q)"
| "queue_exec opt (now, QRead consumer batch topic) q = consume_new now consumer batch topic q"
| "queue_exec opt (now, QClaim consumer batch topic) q = consume_abandoned opt now consumer batch topic q"
| "queue_exec opt (now, QFinish i r flt gone) q =
     (if i < length (rq_hand q) then (case rq_hand q ! i of (topic, msg) \<Rightarrow> process opt now flt gone topic msg r (let_go i q)) else q)"
| "queue_exec opt (now, QDrop i) q = let_go i q"
| "queue_exec opt (now, QMove gone) q = moveDue opt now gone q"

definition queue_run :: "RedisOptions \<Rightarrow> (time \<times> queue_label) list \<Rightarrow> redis_queue \<Rightarrow> redis_queue" where
  "queue_run opt xs q = fold (queue_exec opt) xs q"

section \<open>The queue in memory\<close>

record mem_job =
  mj_payload :: string
  mj_attempt :: nat

text \<open>\<open>mq_running\<close>: jobs in their handlers; \<open>mq_timers\<close>: retries that wait; \<open>mq_lost\<close>: what was only logged.\<close>

record mem_queue =
  mq_topics :: "string \<Rightarrow> mem_job list"
  mq_running :: "(string \<times> mem_job) list"
  mq_timers :: "(string \<times> mem_job \<times> time) list"
  mq_lost :: "(string \<times> mem_job) list"

definition topicCap :: nat where "topicCap = 1000"

datatype mem_label =
    MPublish string string
  | MTake string
  | MFinish nat job_answer
  | MTimer nat

text \<open>\<open>Publish\<close> on a full channel waits; it is the same as publishing later, or not at all.\<close>

definition Memory_Publish :: "string \<Rightarrow> string \<Rightarrow> mem_queue \<Rightarrow> mem_queue" where
  "Memory_Publish topic payload q =
     (if length (mq_topics q topic) < topicCap
      then q\<lparr>mq_topics := (mq_topics q)(topic := mq_topics q topic @ [\<lparr>mj_payload = payload, mj_attempt = 0\<rparr>])\<rparr> else q)"

definition Memory_take :: "string \<Rightarrow> mem_queue \<Rightarrow> mem_queue" where
  "Memory_take topic q = (case mq_topics q topic of
     [] \<Rightarrow> q | job # jobs \<Rightarrow> q\<lparr>mq_topics := (mq_topics q)(topic := jobs), mq_running := mq_running q @ [(topic, job)]\<rparr>)"

definition Memory_handle :: "nat \<Rightarrow> time \<Rightarrow> string \<Rightarrow> mem_job \<Rightarrow> job_answer \<Rightarrow> mem_queue \<Rightarrow> mem_queue" where
  "Memory_handle maxRetries now topic job r q =
     (if r = JobDone then q
      else if IsPermanent r \<or> mj_attempt job + 1 \<ge> maxRetries then q\<lparr>mq_lost := mq_lost q @ [(topic, job)]\<rparr>
      else (let job = job\<lparr>mj_attempt := mj_attempt job + 1\<rparr> in
        q\<lparr>mq_timers := mq_timers q @ [(topic, job, now + Backoff (mj_attempt job))]\<rparr>))"

definition Memory_retry :: "string \<Rightarrow> mem_job \<Rightarrow> mem_queue \<Rightarrow> mem_queue" where
  "Memory_retry topic job q =
     (if length (mq_topics q topic) < topicCap then q\<lparr>mq_topics := (mq_topics q)(topic := mq_topics q topic @ [job])\<rparr>
      else q\<lparr>mq_lost := mq_lost q @ [(topic, job)]\<rparr>)"

definition mem_exec :: "nat \<Rightarrow> time \<times> mem_label \<Rightarrow> mem_queue \<Rightarrow> mem_queue" where
  "mem_exec maxRetries x q = (case x of
     (now, MPublish topic payload) \<Rightarrow> Memory_Publish topic payload q
   | (now, MTake topic) \<Rightarrow> Memory_take topic q
   | (now, MFinish i r) \<Rightarrow> if i < length (mq_running q) then (case mq_running q ! i of (topic, job) \<Rightarrow>
       Memory_handle maxRetries now topic job r (q\<lparr>mq_running := take i (mq_running q) @ drop (Suc i) (mq_running q)\<rparr>)) else q
   | (now, MTimer i) \<Rightarrow> if i < length (mq_timers q) then (case mq_timers q ! i of (topic, job, due) \<Rightarrow>
       if due \<le> now then Memory_retry topic job (q\<lparr>mq_timers := take i (mq_timers q) @ drop (Suc i) (mq_timers q)\<rparr>) else q) else q)"

end
