(* ===== verification/Queue_Safety.thy ===== *)
theory Queue_Safety
  imports Queue
begin

text \<open>
  Jobs are retried a bounded number of times, work on a queue ends, and no job disappears.
\<close>

section \<open>Work that ends\<close>

text \<open>A step relation whose steps use up some effort, while an invariant holds.\<close>

locale ending_work =
  fixes works :: "'s \<Rightarrow> 's \<Rightarrow> bool" and ok :: "'s \<Rightarrow> bool" and effort :: "'s \<Rightarrow> nat"
  assumes works_ok: "ok s \<Longrightarrow> works s t \<Longrightarrow> ok t"
    and works_less: "ok s \<Longrightarrow> works s t \<Longrightarrow> effort t < effort s"
begin

lemma run_effort: "(works ^^ n) s t \<Longrightarrow> ok s \<Longrightarrow> ok t \<and> n + effort t \<le> effort s"
proof (induction n arbitrary: t)
  case (Suc n)
  then obtain u where u: "(works ^^ n) s u" "works u t" by auto
  with Suc have "ok u" "n + effort u \<le> effort s" by auto
  with works_ok [OF _ u(2)] works_less [OF _ u(2)] show ?case by force
qed simp

lemma run_bounded: "(works ^^ n) s t \<Longrightarrow> ok s \<Longrightarrow> n \<le> effort s"
  using run_effort by force

lemma run_ok: "(works ^^ n) s t \<Longrightarrow> ok s \<Longrightarrow> ok t"
  using run_effort by blast

end

section \<open>Well-formed queues\<close>

definition attempts :: "RedisOptions \<Rightarrow> nat" where
  "attempts opt = nat (ro_MaxRetries opt)"

definition stream_ok :: "nat \<Rightarrow> xstream \<Rightarrow> bool" where
  "stream_ok m st \<longleftrightarrow> sorted_wrt (<) (map xm_ID (xs_entries st)) \<and> xs_read st \<le> xs_next st \<and>
     (\<forall>e \<in> set (xs_entries st). xm_ID e < xs_next st \<and> xm_attempt e < m)"

definition held_ok :: "nat \<Rightarrow> redis_queue \<Rightarrow> string \<times> xentry \<Rightarrow> bool" where
  "held_ok m q x \<longleftrightarrow> xm_ID (snd x) < xs_next (rq_streams q (fst x)) \<and> xm_attempt (snd x) < m \<and>
     (\<forall>e \<in> set (xs_entries (rq_streams q (fst x))). xm_ID e = xm_ID (snd x) \<longrightarrow> e = snd x)"

definition queue_ok :: "nat \<Rightarrow> redis_queue \<Rightarrow> bool" where
  "queue_ok m q \<longleftrightarrow> (\<forall>t. stream_ok m (rq_streams q t)) \<and> finite {t. xs_entries (rq_streams q t) \<noteq> []} \<and>
     (\<forall>x \<in> set (rq_delayed q). ev_Attempt (fst x) < m) \<and> distinct (map fst (rq_delayed q)) \<and>
     (\<forall>x \<in> set (rq_dead q). dj_attempt x \<le> m) \<and> (\<forall>x \<in> set (rq_hand q). held_ok m q x)"

lemma queue_ok_empty: "queue_ok m empty_queue"
  by (simp add: queue_ok_def empty_queue_def stream_ok_def empty_stream_def)

lemma set_trim: "set (trim n gone xs) \<subseteq> set xs"
  by (simp add: trim_def set_drop_subset)

lemma sorted_trim: "sorted_wrt (<) (map f xs) \<Longrightarrow> sorted_wrt (<) (map f (trim n gone xs))"
  by (simp add: trim_def drop_map [symmetric] sorted_wrt_drop)

lemma same_ID: "stream_ok m st \<Longrightarrow> e \<in> set (xs_entries st) \<Longrightarrow> e' \<in> set (xs_entries st) \<Longrightarrow> xm_ID e' = xm_ID e \<Longrightarrow> e' = e"
  using strict_sorted_iff [of "map xm_ID (xs_entries st)"] by (auto simp: stream_ok_def distinct_map inj_on_def)

lemma trim_0 [simp]: "trim n 0 xs = xs"
  by (simp add: trim_def)

lemma streams_on [simp]: "rq_streams (on_stream t f q) = (rq_streams q)(t := f (rq_streams q t))"
  "rq_delayed (on_stream t f q) = rq_delayed q" "rq_dead (on_stream t f q) = rq_dead q"
  "rq_hand (on_stream t f q) = rq_hand q" "rq_done (on_stream t f q) = rq_done q"
  by (simp_all add: on_stream_def)

lemma finite_entries_upd:
  "finite {t. xs_entries (f t) \<noteq> []} \<Longrightarrow> finite {t. xs_entries ((f(u := x)) t) \<noteq> []}"
  by (rule finite_subset [where B = "insert u {t. xs_entries (f t) \<noteq> []}"]) auto

lemma stream_ok_XAdd:
  assumes "stream_ok m st" "attempt < m"
  shows "stream_ok m (XAdd n gone payload attempt st)"
proof -
  let ?new = "xs_entries st @ [\<lparr>xm_ID = xs_next st, xm_payload = payload, xm_attempt = attempt\<rparr>]"
  have "sorted_wrt (<) (map xm_ID ?new)" using assms(1) by (auto simp: stream_ok_def sorted_wrt_append)
  from sorted_trim [OF this, of n gone] set_trim [of n gone ?new] assms show ?thesis
    by (fastforce simp: stream_ok_def XAdd_def)
qed

lemma queue_ok_add:
  assumes q: "queue_ok m q" and a: "attempt < m"
  shows "queue_ok m (queue_add opt gone topic payload attempt q)"
proof -
  let ?q = "queue_add opt gone topic payload attempt q"
  have "held_ok m ?q x" if "x \<in> set (rq_hand q)" for x
  proof -
    have h: "held_ok m q x" using q that by (simp add: queue_ok_def)
    have sub: "set (xs_entries (XAdd (maxlen opt) gone payload attempt st)) \<subseteq>
        insert \<lparr>xm_ID = xs_next st, xm_payload = payload, xm_attempt = attempt\<rparr> (set (xs_entries st))" for st
      using set_trim [of "maxlen opt" gone "xs_entries st @ [\<lparr>xm_ID = xs_next st, xm_payload = payload, xm_attempt = attempt\<rparr>]"]
      by (auto simp: XAdd_def)
    show ?thesis
    proof (cases "fst x = topic")
      case True
      with h sub [of "rq_streams q topic"] show ?thesis
        by (auto simp: held_ok_def queue_add_def) (auto simp: XAdd_def)
    next
      case False
      with h show ?thesis by (simp add: held_ok_def queue_add_def)
    qed
  qed
  then show ?thesis
    using q finite_entries_upd [of "rq_streams q"] by (simp add: queue_ok_def queue_add_def stream_ok_XAdd [OF _ a])
qed

lemma queue_ok_receive:
  assumes q: "queue_ok m q"
    and cmd: "\<And>st. set (fst (cmd st)) \<subseteq> set (xs_entries st)" "\<And>st. xs_entries (snd (cmd st)) = xs_entries st"
      "\<And>st. xs_next (snd (cmd st)) = xs_next st" "\<And>st. stream_ok m st \<Longrightarrow> stream_ok m (snd (cmd st))"
  shows "queue_ok m (receive topic cmd q)"
proof -
  obtain msgs st where c: "cmd (rq_streams q topic) = (msgs, st)" by (cases "cmd (rq_streams q topic)")
  have st: "xs_entries st = xs_entries (rq_streams q topic)" "xs_next st = xs_next (rq_streams q topic)"
    "set msgs \<subseteq> set (xs_entries (rq_streams q topic))"
    using cmd [of "rq_streams q topic"] by (simp_all add: c)
  have ok: "stream_ok m (rq_streams q topic)" using q by (simp add: queue_ok_def)
  have "held_ok m q (topic, e)" if "e \<in> set msgs" for e
  proof -
    have e: "e \<in> set (xs_entries (rq_streams q topic))" using that st(3) by blast
    with ok show ?thesis using same_ID [OF ok e] by (auto simp: stream_ok_def held_ok_def)
  qed
  moreover have "held_ok m (receive topic cmd q) x = held_ok m q x" for x
    by (simp add: held_ok_def receive_def c st)
  moreover have "stream_ok m st" using cmd(4) [OF ok] by (simp add: c)
  ultimately show ?thesis
    using q finite_entries_upd [of "rq_streams q"]
    by (auto simp: queue_ok_def receive_def c)
qed

lemma XReadGroup_frame:
  "set (fst (XReadGroup now c n st)) \<subseteq> set (xs_entries st)" "xs_entries (snd (XReadGroup now c n st)) = xs_entries st"
  "xs_next (snd (XReadGroup now c n st)) = xs_next st" "stream_ok m st \<Longrightarrow> stream_ok m (snd (XReadGroup now c n st))"
proof -
  show sub: "set (fst (XReadGroup now c n st)) \<subseteq> set (xs_entries st)"
    using set_take_subset [of n "unread st"] by (auto simp: XReadGroup_def Let_def unread_def)
  show "xs_entries (snd (XReadGroup now c n st)) = xs_entries st" "xs_next (snd (XReadGroup now c n st)) = xs_next st"
    by (simp_all add: XReadGroup_def Let_def)
  assume st: "stream_ok m st"
  show "stream_ok m (snd (XReadGroup now c n st))"
  proof (cases "take n (unread st) = []")
    case False
    then have "last (take n (unread st)) \<in> set (xs_entries st)" using sub last_in_set [OF False] by (auto simp: XReadGroup_def Let_def)
    with st False show ?thesis by (auto simp: XReadGroup_def Let_def stream_ok_def)
  qed (use st in \<open>auto simp: XReadGroup_def Let_def\<close>)
qed

lemma XAutoClaim_frame:
  "set (fst (XAutoClaim now c i n st)) \<subseteq> set (xs_entries st)" "xs_entries (snd (XAutoClaim now c i n st)) = xs_entries st"
  "xs_next (snd (XAutoClaim now c i n st)) = xs_next st" "stream_ok m st \<Longrightarrow> stream_ok m (snd (XAutoClaim now c i n st))"
  by (auto simp: XAutoClaim_def Let_def stream_ok_def)

lemma queue_ok_ack:
  assumes "queue_ok m q"
  shows "queue_ok m (on_stream topic (XAckDel i) q)"
proof -
  have "held_ok m (on_stream topic (XAckDel i) q) x" if "x \<in> set (rq_hand q)" for x
    using assms that by (auto simp: queue_ok_def held_ok_def XAckDel_def)
  moreover have "stream_ok m (XAckDel i (rq_streams q topic))"
    using assms by (auto simp: queue_ok_def stream_ok_def XAckDel_def sorted_wrt_map intro: sorted_wrt_filter)
  ultimately show ?thesis using assms finite_entries_upd [of "rq_streams q"] by (simp add: queue_ok_def)
qed

lemma queue_ok_fields:
  assumes "queue_ok m q" "\<forall>x \<in> set z. ev_Attempt (fst x) < m" "distinct (map fst z)" "\<forall>x \<in> set dd. dj_attempt x \<le> m" "set h \<subseteq> set (rq_hand q)"
  shows "queue_ok m (q\<lparr>rq_delayed := z, rq_dead := dd, rq_hand := h, rq_done := l\<rparr>)"
  using assms by (auto simp: queue_ok_def held_ok_def)

lemma queue_ok_settle:
  assumes q: "queue_ok m q" and a: "xm_attempt msg < m" and m: "m = attempts opt"
  shows "queue_ok m (settle opt now gone topic msg r q)"
proof -
  let ?d = "\<lparr>dj_topic = topic, dj_payload = xm_payload msg, dj_attempt = xm_attempt msg + 1, dj_error = error_text r\<rparr>"
  let ?env = "\<lparr>ev_Topic = topic, ev_Payload = xm_payload msg, ev_Attempt = xm_attempt msg + 1\<rparr>"
  have dead: "queue_ok m (q\<lparr>rq_dead := trim (maxlen opt) gone (rq_dead q @ [?d])\<rparr>)"
    using q a set_trim [of "maxlen opt" gone "rq_dead q @ [?d]"] by (fastforce simp: queue_ok_def held_ok_def)
  have delayed: "queue_ok m (q\<lparr>rq_delayed := ZAdd ?env due (rq_delayed q)\<rparr>)" if "xm_attempt msg + 1 < m" for due
    using q that by (auto simp: queue_ok_def held_ok_def ZAdd_def distinct_map_filter)
  show ?thesis
    unfolding settle_def using q dead delayed m by (intro queue_ok_ack) (auto simp: attempts_def)
qed

lemma queue_ok_let_go: "queue_ok m q \<Longrightarrow> queue_ok m (let_go i q)"
  by (auto simp: queue_ok_def held_ok_def let_go_def dest: in_set_takeD in_set_dropD)

lemma queue_ok_done: "queue_ok m q \<Longrightarrow> queue_ok m (q\<lparr>rq_done := l\<rparr>)"
  by (simp add: queue_ok_def held_ok_def)

lemma queue_ok_process:
  "queue_ok m q \<Longrightarrow> xm_attempt msg < m \<Longrightarrow> m = attempts opt \<Longrightarrow> queue_ok m (process opt now flt gone topic msg r q)"
  by (auto simp: process_def Let_def intro!: queue_ok_settle queue_ok_done)

lemma queue_ok_move:
  assumes "queue_ok m q" "\<forall>env \<in> set envs. ev_Attempt env < m"
  shows "queue_ok m (fold (move_one opt gone) envs q)"
  using assms
proof (induction envs arbitrary: q)
  case (Cons env envs)
  have "queue_ok m (q\<lparr>rq_delayed := filter (\<lambda>x. fst x \<noteq> env) (rq_delayed q)\<rparr>)"
    using Cons.prems(1) by (simp add: queue_ok_def held_ok_def distinct_map_filter)
  with Cons show ?case by (simp add: move_one_def queue_ok_add)
qed simp

lemma due_sub: "set (due_now now q) \<subseteq> fst ` set (rq_delayed q)"
proof -
  have "set (take 100 (sort_key snd (filter (\<lambda>x. snd x \<le> UnixMilli now) (rq_delayed q)))) \<subseteq> set (rq_delayed q)"
    using set_take_subset by fastforce
  then show ?thesis unfolding due_now_def by auto
qed

lemma queue_ok_moveDue:
  assumes "queue_ok m q"
  shows "queue_ok m (moveDue opt now gone q)"
  unfolding moveDue_def using assms due_sub [of now q] by (intro queue_ok_move) (auto simp: queue_ok_def)

lemma hand_attempt: "queue_ok m q \<Longrightarrow> i < length (rq_hand q) \<Longrightarrow> xm_attempt (snd (rq_hand q ! i)) < m"
  by (auto simp: queue_ok_def held_ok_def dest: nth_mem)

lemma queue_exec_ok:
  assumes "0 < ro_MaxRetries opt" "queue_ok (attempts opt) q"
  shows "queue_ok (attempts opt) (queue_exec opt x q)"
proof -
  obtain now l where x: "x = (now, l)" by (cases x)
  have "0 < attempts opt" using assms(1) by (simp add: attempts_def)
  note add = queue_ok_add [OF assms(2) this]
  show ?thesis
  proof (cases l)
    case (QFinish i r flt gone)
    show ?thesis
    proof (cases "i < length (rq_hand q)")
      case True
      obtain topic msg where h: "rq_hand q ! i = (topic, msg)" by (cases "rq_hand q ! i")
      have "xm_attempt msg < attempts opt" using hand_attempt [OF assms(2) True] by (simp add: h)
      with True show ?thesis by (simp add: x QFinish h queue_ok_process queue_ok_let_go assms(2))
    qed (use assms(2) in \<open>simp add: x QFinish\<close>)
  qed (use assms(2) add in \<open>simp_all add: x Publish_def consume_new_def consume_abandoned_def queue_ok_receive XReadGroup_frame
      XAutoClaim_frame queue_ok_let_go queue_ok_moveDue\<close>)
qed

lemma queue_run_ok:
  "0 < ro_MaxRetries opt \<Longrightarrow> queue_ok (attempts opt) q \<Longrightarrow> queue_ok (attempts opt) (queue_run opt xs q)"
  unfolding queue_run_def by (induction xs arbitrary: q) (auto intro: queue_exec_ok)

section \<open>No job disappears\<close>

text \<open>A job is in its stream, waits for a retry, is among the dead ones, or has been done.\<close>

definition has_job :: "redis_queue \<Rightarrow> string \<Rightarrow> string \<Rightarrow> bool" where
  "has_job q topic payload \<longleftrightarrow> (\<exists>e \<in> set (xs_entries (rq_streams q topic)). xm_payload e = payload) \<or>
     (\<exists>x \<in> set (rq_delayed q). ev_Topic (fst x) = topic \<and> ev_Payload (fst x) = payload) \<or>
     (\<exists>x \<in> set (rq_dead q). dj_topic x = topic \<and> dj_payload x = payload) \<or> (topic, payload) \<in> set (rq_done q)"

definition keeps_jobs :: "redis_queue \<Rightarrow> redis_queue \<Rightarrow> bool" where
  "keeps_jobs q q' \<longleftrightarrow> (\<forall>t p. has_job q t p \<longrightarrow> has_job q' t p)"

text \<open>Redis trims nothing, which is so while no stream is longer than \<open>StreamMaxLen\<close>.\<close>

fun untrimmed :: "queue_label \<Rightarrow> bool" where
  "untrimmed (QPublish flt gone topic payload) \<longleftrightarrow> gone = 0"
| "untrimmed (QFinish i r flt gone) \<longleftrightarrow> gone = 0"
| "untrimmed (QMove gone) \<longleftrightarrow> gone = 0"
| "untrimmed _ \<longleftrightarrow> True"

lemma keeps_refl: "keeps_jobs q q" and keeps_trans: "keeps_jobs a b \<Longrightarrow> keeps_jobs b c \<Longrightarrow> keeps_jobs a c"
  by (auto simp: keeps_jobs_def)

lemma has_job_added: "has_job (queue_add opt 0 topic payload a q) t p \<longleftrightarrow> has_job q t p \<or> t = topic \<and> p = payload"
  by (auto simp: has_job_def queue_add_def XAdd_def)

lemma has_job_receive:
  assumes "\<And>st. xs_entries (snd (cmd st)) = xs_entries st"
  shows "has_job (receive topic cmd q) t p = has_job q t p"
proof -
  obtain msgs st where c: "cmd (rq_streams q topic) = (msgs, st)" by (cases "cmd (rq_streams q topic)")
  then have "xs_entries st = xs_entries (rq_streams q topic)" using assms [of "rq_streams q topic"] by simp
  then show ?thesis by (simp add: has_job_def receive_def c)
qed

lemma has_job_let_go: "has_job (let_go i q) t p = has_job q t p"
  by (simp add: has_job_def let_go_def)

lemma keeps_move_one: "keeps_jobs q (move_one opt 0 env q)"
  by (auto simp: keeps_jobs_def move_one_def has_job_added) (auto simp: has_job_def)

lemma keeps_moves: "keeps_jobs q (fold (move_one opt 0) envs q)"
proof (induction envs arbitrary: q)
  case (Cons env envs)
  show ?case using keeps_trans [OF keeps_move_one Cons] by simp
qed (simp add: keeps_refl)

text \<open>What the transaction takes from the stream it has put elsewhere, or the job is done.\<close>

lemma keeps_process:
  assumes held: "held_ok m q (topic, msg)"
  shows "keeps_jobs q (process opt now flt 0 topic msg r q)"
  unfolding keeps_jobs_def
proof (intro allI impI)
  fix t p assume j: "has_job q t p"
  have gone: "xm_payload e = xm_payload msg" if "e \<in> set (xs_entries (rq_streams q topic))" "xm_ID e = xm_ID msg" for e
    using held that by (auto simp: held_ok_def)
  have ack: "has_job (on_stream topic (XAckDel (xm_ID msg)) q') t p"
    if "has_job q' t p" "xs_entries (rq_streams q' topic) = xs_entries (rq_streams q topic)"
      "t = topic \<Longrightarrow> p = xm_payload msg \<Longrightarrow> has_job (on_stream topic (XAckDel (xm_ID msg)) q') topic (xm_payload msg)" for q'
    using that gone by (auto simp: has_job_def XAckDel_def) metis+
  show "has_job (process opt now flt 0 topic msg r q) t p"
  proof (cases flt)
    case True
    with j show ?thesis by (auto simp: process_def has_job_def)
  next
    case False
    then show ?thesis
      unfolding process_def Let_def settle_def using j
      by simp (intro ack conjI impI; auto simp: has_job_def ZAdd_def)
  qed
qed

lemma queue_exec_keeps:
  assumes "queue_ok m q" "untrimmed (snd x)"
  shows "keeps_jobs q (queue_exec opt x q)"
proof -
  obtain now l where x: "x = (now, l)" by (cases x)
  show ?thesis
  proof (cases l)
    case (QFinish i r flt gone)
    show ?thesis
    proof (cases "i < length (rq_hand q)")
      case True
      obtain topic msg where h: "rq_hand q ! i = (topic, msg)" by (cases "rq_hand q ! i")
      have "held_ok m q (topic, msg)" using assms(1) True h by (auto simp: queue_ok_def dest: nth_mem)
      then have "held_ok m (let_go i q) (topic, msg)" by (simp add: held_ok_def let_go_def)
      from keeps_process [OF this] True h assms(2) show ?thesis
        by (simp add: x QFinish keeps_jobs_def has_job_let_go)
    qed (simp add: x QFinish keeps_refl)
  qed (use assms(2) in \<open>auto simp: x Publish_def consume_new_def consume_abandoned_def keeps_jobs_def has_job_receive XReadGroup_frame
      XAutoClaim_frame has_job_let_go has_job_added moveDue_def keeps_moves [unfolded keeps_jobs_def, rule_format]\<close>)
qed

fun accepted :: "queue_label \<Rightarrow> (string \<times> string) option" where
  "accepted (QPublish flt gone topic payload) = (if flt then None else Some (topic, payload))"
| "accepted _ = None"

lemma no_lost_job:
  assumes "0 < ro_MaxRetries opt" "\<forall>x \<in> set run. untrimmed (snd x)"
    and "x \<in> set run" "accepted (snd x) = Some (topic, payload)"
  shows "has_job (queue_run opt run empty_queue) topic payload"
proof -
  have later: "has_job (queue_run opt xs q) topic payload"
    if "queue_ok (attempts opt) q" "\<forall>x \<in> set xs. untrimmed (snd x)"
      "has_job q topic payload \<or> (\<exists>x \<in> set xs. accepted (snd x) = Some (topic, payload))" for xs q
    using that
  proof (induction xs arbitrary: q)
    case (Cons x xs)
    have "has_job (queue_exec opt x q) topic payload" if "accepted (snd x) = Some (topic, payload)"
    proof -
      obtain now l where x: "x = (now, l)" by (cases x)
      with that show ?thesis using Cons.prems(2)
        by (cases l) (auto simp: Publish_def has_job_added split: if_splits)
    qed
    moreover have "has_job q topic payload \<Longrightarrow> has_job (queue_exec opt x q) topic payload"
      using queue_exec_keeps [OF Cons.prems(1), of x opt] Cons.prems(2) by (simp add: keeps_jobs_def)
    ultimately show ?case
      using Cons.IH [OF queue_exec_ok [OF assms(1) Cons.prems(1)], of x] Cons.prems(2,3) by (auto simp: queue_run_def)
  qed (simp add: queue_run_def)
  show ?thesis using later [OF queue_ok_empty assms(2)] assms(3,4) by blast
qed

text \<open>
  Jobs with the same payload, counted: how often it was published, and how many of its copies are there. Two of
  them that fail at the same attempt would become one retry, as the sorted set keeps one member.
\<close>

definition copies :: "redis_queue \<Rightarrow> string \<Rightarrow> string \<Rightarrow> nat" where
  "copies q t p = length (filter (\<lambda>e. xm_payload e = p) (xs_entries (rq_streams q t))) +
     length (filter (\<lambda>x. ev_Topic (fst x) = t \<and> ev_Payload (fst x) = p) (rq_delayed q)) +
     length (filter (\<lambda>x. dj_topic x = t \<and> dj_payload x = p) (rq_dead q)) + count_list (rq_done q) (t, p)"

fun clash :: "RedisOptions \<Rightarrow> queue_label \<Rightarrow> redis_queue \<Rightarrow> bool" where
  "clash opt (QFinish i r flt gone) q \<longleftrightarrow> i < length (rq_hand q) \<and> (case rq_hand q ! i of (topic, msg) \<Rightarrow>
     msg \<in> set (xs_entries (rq_streams q topic)) \<and>
     \<lparr>ev_Topic = topic, ev_Payload = xm_payload msg, ev_Attempt = xm_attempt msg + 1\<rparr> \<in> fst ` set (rq_delayed q))"
| "clash opt _ q \<longleftrightarrow> False"

fun no_clash :: "RedisOptions \<Rightarrow> (time \<times> queue_label) list \<Rightarrow> redis_queue \<Rightarrow> bool" where
  "no_clash opt [] q \<longleftrightarrow> True"
| "no_clash opt (x # xs) q \<longleftrightarrow> \<not> clash opt (snd x) q \<and> no_clash opt xs (queue_exec opt x q)"

definition times_published :: "(time \<times> queue_label) list \<Rightarrow> string \<Rightarrow> string \<Rightarrow> nat" where
  "times_published run t p = length (filter (\<lambda>x. accepted (snd x) = Some (t, p)) run)"

lemma copies_added: "copies (queue_add opt 0 topic payload a q) t p = copies q t p + of_bool (t = topic \<and> p = payload)"
  by (simp add: copies_def queue_add_def XAdd_def)

lemma copies_receive:
  assumes "\<And>st. xs_entries (snd (cmd st)) = xs_entries st"
  shows "copies (receive topic cmd q) t p = copies q t p"
proof -
  obtain msgs st where c: "cmd (rq_streams q topic) = (msgs, st)" by (cases "cmd (rq_streams q topic)")
  then have "xs_entries st = xs_entries (rq_streams q topic)" using assms [of "rq_streams q topic"] by simp
  then show ?thesis by (simp add: copies_def receive_def c)
qed

lemma copies_let_go [simp]: "copies (let_go i q) t p = copies q t p"
  by (simp add: copies_def let_go_def)

lemma length_filter_key: "distinct (map f xs) \<Longrightarrow> length (filter (\<lambda>x. f x = k) xs) \<le> 1"
  by (induction xs) (auto simp: filter_empty_conv image_iff)

lemma length_filter_remove:
  assumes "distinct (map f xs)"
  shows "length (filter P xs) \<le> length (filter P (filter (\<lambda>x. f x \<noteq> k) xs)) + of_bool (\<exists>x \<in> set xs. P x \<and> f x = k)"
proof (cases "\<exists>x \<in> set xs. P x \<and> f x = k")
  case True
  have "distinct (map f (filter P xs))" using assms by (rule distinct_map_filter)
  from length_filter_key [OF this, of k] sum_length_filter_compl [of "\<lambda>x. f x = k" "filter P xs"]
  have "length (filter P xs) \<le> length (filter (\<lambda>x. f x \<noteq> k) (filter P xs)) + 1" by linarith
  with True show ?thesis by (simp add: conj_commute)
next
  case False
  then have "filter P (filter (\<lambda>x. f x \<noteq> k) xs) = filter P xs" by (auto intro: filter_cong)
  then show ?thesis by (metis le_add1)
qed

lemma length_filter_delayed:
  assumes "distinct (map fst z)"
  shows "length (filter (\<lambda>x. Q (fst x)) z) \<le> length (filter (\<lambda>x. Q (fst x)) (filter (\<lambda>x. fst x \<noteq> env) z)) + of_bool (Q env)"
proof -
  have "of_bool (\<exists>x \<in> set z. Q (fst x) \<and> fst x = env) \<le> (of_bool (Q env) :: nat)" by auto
  with length_filter_remove [OF assms, of "\<lambda>x. Q (fst x)" env] show ?thesis by linarith
qed

lemma copies_move_one:
  assumes "distinct (map fst (rq_delayed q))"
  shows "copies q t p \<le> copies (move_one opt 0 env q) t p"
  using length_filter_delayed [OF assms, of "\<lambda>e. ev_Topic e = t \<and> ev_Payload e = p" env]
  unfolding move_one_def copies_added by (auto simp: copies_def)

lemma copies_moves: "distinct (map fst (rq_delayed q)) \<Longrightarrow> copies q t p \<le> copies (fold (move_one opt 0) envs q) t p"
proof (induction envs arbitrary: q)
  case (Cons env envs)
  have "distinct (map fst (rq_delayed (move_one opt 0 env q)))"
    using Cons.prems by (simp add: move_one_def queue_add_def distinct_map_filter)
  from Cons.IH [OF this] copies_move_one [OF Cons.prems, of t p opt env] show ?case by simp
qed simp

text \<open>What an acknowledgement removes is the entry itself, if it is still there.\<close>

lemma copies_ack:
  assumes "stream_ok m (rq_streams q topic)" "held_ok m q (topic, msg)"
  shows "copies q t p \<le> copies (on_stream topic (XAckDel (xm_ID msg)) q) t p +
    of_bool (t = topic \<and> p = xm_payload msg \<and> msg \<in> set (xs_entries (rq_streams q topic)))"
proof (cases "t = topic")
  case True
  let ?es = "xs_entries (rq_streams q topic)"
  have "distinct (map xm_ID ?es)" using assms(1) strict_sorted_iff by (auto simp: stream_ok_def)
  from length_filter_remove [OF this, of "\<lambda>e. xm_payload e = p" "xm_ID msg"]
  have "length (filter (\<lambda>e. xm_payload e = p) ?es) \<le> length (filter (\<lambda>e. xm_payload e = p) (filter (\<lambda>e. xm_ID e \<noteq> xm_ID msg) ?es)) +
      of_bool (p = xm_payload msg \<and> msg \<in> set ?es)"
    by (rule order_trans) (use assms(2) in \<open>auto simp: held_ok_def\<close>)
  with True show ?thesis by (simp add: copies_def XAckDel_def)
qed (simp add: copies_def)

lemma ZAdd_keeps: "distinct (map fst z) \<Longrightarrow> length (filter (\<lambda>x. Q (fst x)) z) \<le> length (filter (\<lambda>x. Q (fst x)) (ZAdd env due z))"
  using length_filter_delayed [of z Q env] by (cases "Q env") (simp_all add: ZAdd_def)

lemma ZAdd_adds: "env \<notin> fst ` set z \<Longrightarrow> ZAdd env due z = z @ [(env, due)]"
  by (auto simp: ZAdd_def filter_id_conv)

lemma copies_process:
  assumes "stream_ok m (rq_streams q topic)" "held_ok m q (topic, msg)" "distinct (map fst (rq_delayed q))"
    and "msg \<in> set (xs_entries (rq_streams q topic)) \<Longrightarrow>
      \<lparr>ev_Topic = topic, ev_Payload = xm_payload msg, ev_Attempt = xm_attempt msg + 1\<rparr> \<notin> fst ` set (rq_delayed q)"
  shows "copies q t p \<le> copies (process opt now flt 0 topic msg r q) t p"
proof (cases flt)
  case True
  then show ?thesis by (simp add: process_def copies_def)
next
  case False
  let ?b = "of_bool (t = topic \<and> p = xm_payload msg \<and> msg \<in> set (xs_entries (rq_streams q topic))) :: nat"
  let ?env = "\<lparr>ev_Topic = topic, ev_Payload = xm_payload msg, ev_Attempt = xm_attempt msg + 1\<rparr>"
  have ack: "copies q t p \<le> copies (on_stream topic (XAckDel (xm_ID msg)) q') t p"
    if "rq_streams q' = rq_streams q" "copies q t p + ?b \<le> copies q' t p" for q'
    using copies_ack [of m q' topic msg t p] assms(1,2) that by (simp add: held_ok_def)
  have z: "copies q t p + ?b \<le> copies (q\<lparr>rq_delayed := ZAdd ?env due (rq_delayed q)\<rparr>) t p" for due
  proof (cases "msg \<in> set (xs_entries (rq_streams q topic))")
    case True
    have "ZAdd ?env due (rq_delayed q) = rq_delayed q @ [(?env, due)]" by (rule ZAdd_adds [OF assms(4) [OF True]])
    then show ?thesis by (cases "t = topic \<and> p = xm_payload msg") (auto simp: copies_def)
  next
    case out: False
    from ZAdd_keeps [OF assms(3), of "\<lambda>e. ev_Topic e = t \<and> ev_Payload e = p" ?env due] out show ?thesis
      by (simp add: copies_def)
  qed
  have d: "copies q t p + ?b \<le> copies (q\<lparr>rq_done := rq_done q @ [(topic, xm_payload msg)]\<rparr>) t p"
    by (cases "t = topic \<and> p = xm_payload msg") (auto simp: copies_def)
  have x: "copies q t p + ?b \<le> copies (q\<lparr>rq_dead := rq_dead q @ [\<lparr>dj_topic = topic, dj_payload = xm_payload msg,
      dj_attempt = xm_attempt msg + 1, dj_error = error_text r\<rparr>]\<rparr>) t p"
    by (cases "t = topic \<and> p = xm_payload msg") (auto simp: copies_def)
  consider (completed) "r = JobDone" | (dead) "r \<noteq> JobDone" "IsPermanent r \<or> int (xm_attempt msg + 1) \<ge> ro_MaxRetries opt"
    | (retry) "r \<noteq> JobDone" "\<not> (IsPermanent r \<or> int (xm_attempt msg + 1) \<ge> ro_MaxRetries opt)" by blast
  then show ?thesis
  proof cases
    case completed
    from ack [OF _ d] completed False show ?thesis by (simp add: process_def settle_def)
  next
    case dead
    from ack [OF _ x] dead False show ?thesis by (simp add: process_def settle_def)
  next
    case retry
    from ack [OF _ z] retry False show ?thesis by (simp add: process_def settle_def)
  qed
qed

lemma copies_exec:
  assumes "queue_ok m q" "untrimmed (snd x)" "\<not> clash opt (snd x) q"
  shows "copies q t p + of_bool (accepted (snd x) = Some (t, p)) \<le> copies (queue_exec opt x q) t p"
proof -
  obtain now l where x: "x = (now, l)" by (cases x)
  show ?thesis
  proof (cases l)
    case (QFinish i r flt gone)
    show ?thesis
    proof (cases "i < length (rq_hand q)")
      case True
      obtain topic msg where h: "rq_hand q ! i = (topic, msg)" by (cases "rq_hand q ! i")
      have "held_ok m q (topic, msg)" using assms(1) True h by (auto simp: queue_ok_def dest: nth_mem)
      then have "copies (let_go i q) t p \<le> copies (process opt now flt 0 topic msg r (let_go i q)) t p"
        by (intro copies_process [of m]) (use assms(1,3) True h in \<open>auto simp: x QFinish let_go_def queue_ok_def held_ok_def\<close>)
      with True h assms(2) show ?thesis by (simp add: x QFinish)
    qed (simp add: x QFinish)
  qed (use assms(1,2) in \<open>auto simp: x Publish_def copies_added consume_new_def consume_abandoned_def copies_receive XReadGroup_frame
      XAutoClaim_frame moveDue_def copies_moves queue_ok_def\<close>)
qed

lemma copies_run:
  assumes "0 < ro_MaxRetries opt" "queue_ok (attempts opt) q" "\<forall>x \<in> set run. untrimmed (snd x)" "no_clash opt run q"
  shows "copies q t p + times_published run t p \<le> copies (queue_run opt run q) t p"
  using assms(2-4)
proof (induction run arbitrary: q)
  case (Cons x xs)
  have "copies (queue_exec opt x q) t p + times_published xs t p \<le> copies (queue_run opt xs (queue_exec opt x q)) t p"
    using Cons.IH [OF queue_exec_ok [OF assms(1) Cons.prems(1)]] Cons.prems(2,3) by simp
  moreover have "copies q t p + of_bool (accepted (snd x) = Some (t, p)) \<le> copies (queue_exec opt x q) t p"
    using copies_exec [OF Cons.prems(1)] Cons.prems(2,3) by simp
  moreover have n: "times_published (x # xs) t p = of_bool (accepted (snd x) = Some (t, p)) + times_published xs t p"
    by (simp add: times_published_def)
  have r: "queue_run opt (x # xs) q = queue_run opt xs (queue_exec opt x q)" by (simp add: queue_run_def)
  ultimately show ?case unfolding n r by linarith
qed (simp add: queue_run_def times_published_def)

text \<open>
  C10: Whatever servers read, finish, retry, crash with or fail to commit, as long as Redis trims no stream:
  a job whose publishing succeeded is in its stream, or waits for a retry, or is among the dead jobs,
  or a handler has completed it, where a job is known by its topic and payload; so none is lost if no two
  jobs are the same. Of jobs published several times with the same payload there are at least as many, unless
  the retry of one was put where an equal retry was still waiting. No job is tried more often than
  allowed: attempts below \<open>MaxRetries\<close> everywhere, and at most that many on dead jobs.
\<close>

theorem no_job_is_lost:
  assumes "0 < ro_MaxRetries opt" "\<forall>x \<in> set run. untrimmed (snd x)"
  shows "(\<forall>x \<in> set run. \<forall>topic payload. accepted (snd x) = Some (topic, payload) \<longrightarrow>
      has_job (queue_run opt run empty_queue) topic payload) \<and>
    (no_clash opt run empty_queue \<longrightarrow>
      (\<forall>topic payload. times_published run topic payload \<le> copies (queue_run opt run empty_queue) topic payload)) \<and>
    queue_ok (attempts opt) (queue_run opt run empty_queue)"
proof (intro conjI ballI allI impI)
  show "has_job (queue_run opt run empty_queue) topic payload" if "x \<in> set run" "accepted (snd x) = Some (topic, payload)" for x topic payload
    by (rule no_lost_job [OF assms that])
  show "times_published run topic payload \<le> copies (queue_run opt run empty_queue) topic payload" if "no_clash opt run empty_queue" for topic payload
    using copies_run [OF assms(1) queue_ok_empty assms(2) that] by (rule add_leD2)
  show "queue_ok (attempts opt) (queue_run opt run empty_queue)" by (rule queue_run_ok [OF assms(1) queue_ok_empty])
qed

section \<open>Work ends\<close>

text \<open>
  What the queue does by itself: reading, finishing with a transaction that commits, moving due retries.
  \<open>calm\<close> steps may publish as well.
\<close>

fun quiet :: "queue_label \<Rightarrow> bool" where
  "quiet (QRead consumer batch topic) \<longleftrightarrow> True"
| "quiet (QFinish i r flt gone) \<longleftrightarrow> \<not> flt \<and> gone = 0"
| "quiet (QMove gone) \<longleftrightarrow> gone = 0"
| "quiet _ \<longleftrightarrow> False"

fun calm :: "queue_label \<Rightarrow> bool" where
  "calm (QPublish flt gone topic payload) \<longleftrightarrow> gone = 0"
| "calm l \<longleftrightarrow> quiet l"

definition works :: "RedisOptions \<Rightarrow> redis_queue \<Rightarrow> redis_queue \<Rightarrow> bool" where
  "works opt q q' \<longleftrightarrow> (\<exists>now l. quiet l \<and> q' = queue_exec opt (now, l) q \<and> q' \<noteq> q)"

text \<open>The steps still to be done for a job: three for each attempt.\<close>

definition load :: "nat \<Rightarrow> xentry list \<Rightarrow> nat" where
  "load m es = sum_list (map (\<lambda>e. 3 * (m - xm_attempt e)) es)"

definition held :: "nat \<Rightarrow> (string \<times> xentry) list \<Rightarrow> nat" where
  "held m h = sum_list (map (\<lambda>x. 3 * (m - xm_attempt (snd x)) - 1) h)"

definition waiting :: "nat \<Rightarrow> (envelope \<times> int) list \<Rightarrow> nat" where
  "waiting m z = sum_list (map (\<lambda>x. 3 * (m - ev_Attempt (fst x)) + 1) z)"

definition total :: "nat \<Rightarrow> (string \<Rightarrow> xstream) \<Rightarrow> nat" where
  "total m f = (\<Sum>t | xs_entries (f t) \<noteq> []. load m (unread (f t)))"

definition effort :: "RedisOptions \<Rightarrow> redis_queue \<Rightarrow> nat" where
  "effort opt q = total (attempts opt) (rq_streams q) + held (attempts opt) (rq_hand q) + waiting (attempts opt) (rq_delayed q)"

lemma load_simps [simp]: "load m [] = 0" "load m (es @ es') = load m es + load m es'"
  "load m [e] = 3 * (m - xm_attempt e)"
  by (simp_all add: load_def)

lemma held_simps [simp]: "held m [] = 0" "held m (h @ h') = held m h + held m h'"
  by (simp_all add: held_def)

lemma waiting_snoc [simp]: "waiting m (z @ [x]) = waiting m z + 3 * (m - ev_Attempt (fst x)) + 1"
  by (simp add: waiting_def)

lemma load_filter: "load m (filter p es) \<le> load m es"
  by (induction es) (auto simp: load_def)

lemma waiting_filter: "waiting m (filter p z) \<le> waiting m z"
  by (induction z) (auto simp: waiting_def)

lemma total_upd:
  assumes "finite {t. xs_entries (f t) \<noteq> []}"
  shows "total m (f(u := st)) + load m (unread (f u)) = total m f + load m (unread st)"
proof -
  let ?S = "insert u {t. xs_entries (f t) \<noteq> []}"
  have none: "xs_entries s = [] \<Longrightarrow> load m (unread s) = 0" for s by (simp add: unread_def)
  have 1: "total m f = (\<Sum>t \<in> ?S. load m (unread (f t)))"
    unfolding total_def using assms none by (intro sum.mono_neutral_left) auto
  have 2: "total m (f(u := st)) = (\<Sum>t \<in> ?S. load m (unread ((f(u := st)) t)))"
    unfolding total_def using assms none by (intro sum.mono_neutral_left) (auto split: if_splits)
  have "(\<Sum>t \<in> ?S. load m (unread (g t))) = load m (unread (g u)) + (\<Sum>t \<in> ?S - {u}. load m (unread (g t)))" for g :: "string \<Rightarrow> xstream"
    using assms by (subst sum.remove [of _ u]) simp_all
  note rem = this
  have "(\<Sum>t \<in> ?S - {u}. load m (unread ((f(u := st)) t))) = (\<Sum>t \<in> ?S - {u}. load m (unread (f t)))"
    by (rule sum.cong) simp_all
  then show ?thesis unfolding 1 2 rem [of f] rem [of "f(u := st)"] by simp
qed

lemma unread_after_read:
  assumes "stream_ok m st" "take n (unread st) \<noteq> []"
  shows "unread (snd (XReadGroup now c n st)) = drop n (unread st)"
proof -
  let ?us = "unread st"
  have s: "sorted_wrt (\<lambda>a b. xm_ID a < xm_ID b) ?us"
    using assms(1) by (auto simp: stream_ok_def unread_def sorted_wrt_map intro: sorted_wrt_filter)
  have split: "?us = take n ?us @ drop n ?us" by simp
  have s': "sorted_wrt (\<lambda>a b. xm_ID a < xm_ID b) (take n ?us @ drop n ?us)" using s by simp
  let ?l = "last (take n ?us)"
  have after: "xm_ID ?l < xm_ID e" if "e \<in> set (drop n ?us)" for e
    using s' last_in_set [OF assms(2)] that unfolding sorted_wrt_append by blast
  have upto: "xm_ID e \<le> xm_ID ?l" if "e \<in> set (take n ?us)" for e
  proof -
    have "sorted_wrt (\<lambda>a b. xm_ID a < xm_ID b) (butlast (take n ?us) @ [?l])"
      unfolding append_butlast_last_id [OF assms(2)] using s' unfolding sorted_wrt_append by blast
    moreover have "e \<in> set (butlast (take n ?us) @ [?l])" using that unfolding append_butlast_last_id [OF assms(2)] .
    ultimately show ?thesis unfolding sorted_wrt_append by auto
  qed
  have "xs_read st \<le> xm_ID ?l" using last_in_set [OF assms(2)] by (auto simp: unread_def dest!: in_set_takeD)
  then have "filter (\<lambda>e. xm_ID ?l + 1 \<le> xm_ID e) (xs_entries st) = filter (\<lambda>e. xm_ID ?l + 1 \<le> xm_ID e) ?us"
    by (auto simp: unread_def intro: filter_cong)
  also have "\<dots> = filter (\<lambda>e. xm_ID ?l + 1 \<le> xm_ID e) (take n ?us) @ filter (\<lambda>e. xm_ID ?l + 1 \<le> xm_ID e) (drop n ?us)"
    by (metis filter_append split)
  also have "filter (\<lambda>e. xm_ID ?l + 1 \<le> xm_ID e) (take n ?us) = []" using upto by (auto simp: filter_empty_conv not_le less_Suc_eq_le)
  also have "filter (\<lambda>e. xm_ID ?l + 1 \<le> xm_ID e) (drop n ?us) = drop n ?us" using after by (auto simp: filter_id_conv Suc_le_eq)
  finally show ?thesis using assms(2) by (simp add: XReadGroup_def Let_def unread_def)
qed

lemma read_less:
  assumes q: "queue_ok (attempts opt) q" and ne: "take n (unread (rq_streams q topic)) \<noteq> []"
  shows "effort opt (consume_new now c n topic q) < effort opt q"
proof -
  let ?st = "rq_streams q topic" and ?m = "attempts opt"
  let ?msgs = "take n (unread ?st)"
  have st: "stream_ok ?m ?st" and fin: "finite {t. xs_entries (rq_streams q t) \<noteq> []}" using q by (simp_all add: queue_ok_def)
  have a: "xm_attempt e < ?m" if "e \<in> set ?msgs" for e
    using that st by (auto simp: stream_ok_def unread_def dest!: in_set_takeD)
  have h: "held ?m (map (Pair topic) es) + length es \<le> load ?m es" if "\<And>e. e \<in> set es \<Longrightarrow> xm_attempt e < ?m" for es
    using that
  proof (induction es)
    case (Cons e es)
    then have "xm_attempt e < ?m" "held ?m (map (Pair topic) es) + length es \<le> load ?m es" by simp_all
    then show ?case by (simp add: held_def load_def)
  qed simp
  have u: "unread (snd (XReadGroup now (c @ ''-'' @ topic) n ?st)) = drop n (unread ?st)" by (rule unread_after_read [OF st ne])
  have r: "consume_new now c n topic q = q\<lparr>rq_streams := (rq_streams q)(topic := snd (XReadGroup now (c @ ''-'' @ topic) n ?st)),
      rq_hand := rq_hand q @ map (Pair topic) ?msgs\<rparr>"
    by (simp add: consume_new_def receive_def XReadGroup_def Let_def)
  have "load ?m (unread ?st) = load ?m ?msgs + load ?m (drop n (unread ?st))"
    by (metis append_take_drop_id load_simps(2))
  then have "total ?m ((rq_streams q)(topic := snd (XReadGroup now (c @ ''-'' @ topic) n ?st))) + load ?m ?msgs = total ?m (rq_streams q)"
    using total_upd [OF fin, of ?m topic "snd (XReadGroup now (c @ ''-'' @ topic) n ?st)"] unfolding u by linarith
  moreover have "held ?m (map (Pair topic) ?msgs) + length ?msgs \<le> load ?m ?msgs" using h a by blast
  moreover have "0 < length ?msgs" using ne by simp
  ultimately have "total ?m ((rq_streams q)(topic := snd (XReadGroup now (c @ ''-'' @ topic) n ?st))) + held ?m (map (Pair topic) ?msgs)
      < total ?m (rq_streams q)" by linarith
  then show ?thesis by (simp add: effort_def r)
qed

lemma move_one_less:
  assumes q: "queue_ok (attempts opt) q" and env: "(env, due) \<in> set (rq_delayed q)"
  shows "effort opt (move_one opt 0 env q) < effort opt q"
proof -
  let ?m = "attempts opt" and ?t = "ev_Topic env"
  let ?st = "rq_streams q ?t"
  let ?new = "\<lparr>xm_ID = xs_next ?st, xm_payload = ev_Payload env, xm_attempt = ev_Attempt env\<rparr>"
  have fin: "finite {t. xs_entries (rq_streams q t) \<noteq> []}" and st: "stream_ok ?m ?st" using q by (simp_all add: queue_ok_def)
  have "unread (XAdd (maxlen opt) 0 (ev_Payload env) (ev_Attempt env) ?st) = unread ?st @ [?new]"
    using st by (simp add: unread_def XAdd_def stream_ok_def)
  then have "total ?m ((rq_streams q)(?t := XAdd (maxlen opt) 0 (ev_Payload env) (ev_Attempt env) ?st)) =
      total ?m (rq_streams q) + 3 * (?m - ev_Attempt env)"
    using total_upd [OF fin, of ?m ?t "XAdd (maxlen opt) 0 (ev_Payload env) (ev_Attempt env) ?st"] by simp
  moreover have "waiting ?m (filter (\<lambda>x. fst x \<noteq> env) z) + 3 * (?m - ev_Attempt env) + 1 \<le> waiting ?m z"
    if "(env, due) \<in> set z" for z
    using that
  proof (induction z)
    case (Cons x z)
    show ?case
    proof (cases "(env, due) \<in> set z")
      case True
      with Cons.IH show ?thesis by (auto simp: waiting_def)
    next
      case False
      with Cons.prems have "x = (env, due)" by simp
      with waiting_filter [of ?m "\<lambda>x. fst x \<noteq> env" z] show ?thesis by (simp add: waiting_def)
    qed
  qed simp
  ultimately show ?thesis using env unfolding effort_def by (fastforce simp: move_one_def queue_add_def)
qed

lemma due_distinct: "distinct (map fst (rq_delayed q)) \<Longrightarrow> distinct (due_now now q)"
proof -
  assume d: "distinct (map fst (rq_delayed q))"
  let ?due = "sort_key snd (filter (\<lambda>x. snd x \<le> UnixMilli now) (rq_delayed q))"
  have "mset (map fst ?due) = mset (map fst (filter (\<lambda>x. snd x \<le> UnixMilli now) (rq_delayed q)))" by simp
  moreover have "distinct (map fst (filter (\<lambda>x. snd x \<le> UnixMilli now) (rq_delayed q)))" using d by (rule distinct_map_filter)
  ultimately have "distinct (map fst ?due)" by (metis mset_eq_imp_distinct_iff)
  then show ?thesis by (simp add: due_now_def take_map [symmetric])
qed

lemma delayed_attempt: "queue_ok m q \<Longrightarrow> (env, due) \<in> set (rq_delayed q) \<Longrightarrow> ev_Attempt env < m"
  by (auto simp: queue_ok_def)

lemma moves_less:
  assumes "queue_ok (attempts opt) q" "distinct envs" "set envs \<subseteq> fst ` set (rq_delayed q)"
  shows "effort opt (fold (move_one opt 0) envs q) + length envs \<le> effort opt q"
  using assms
proof (induction envs arbitrary: q)
  case (Cons env envs)
  then obtain due where e: "(env, due) \<in> set (rq_delayed q)" by auto
  have "queue_ok (attempts opt) (move_one opt 0 env q)"
    using queue_ok_move [OF Cons.prems(1), of "[env]" opt 0] delayed_attempt [OF Cons.prems(1) e] by simp
  moreover have "set envs \<subseteq> fst ` set (rq_delayed (move_one opt 0 env q))"
    using Cons.prems(2,3) by (force simp: move_one_def queue_add_def)
  ultimately have "effort opt (fold (move_one opt 0) envs (move_one opt 0 env q)) + length envs \<le> effort opt (move_one opt 0 env q)"
    using Cons by simp
  with move_one_less [OF Cons.prems(1) e] show ?case by simp
qed simp

lemma moveDue_less:
  assumes "queue_ok (attempts opt) q"
  shows "effort opt (moveDue opt now 0 q) + length (due_now now q) \<le> effort opt q"
  unfolding moveDue_def using assms due_sub by (intro moves_less due_distinct) (auto simp: queue_ok_def)

lemma held_remove: "i < length h \<Longrightarrow> held m (take i h @ drop (Suc i) h) + (3 * (m - xm_attempt (snd (h ! i))) - 1) = held m h"
proof -
  assume i: "i < length h"
  have "held m h = held m (take i h @ h ! i # drop (Suc i) h)" using id_take_nth_drop [OF i] by simp
  then show ?thesis by (simp add: held_def)
qed

lemma finish_less:
  assumes q: "queue_ok (attempts opt) q" and i: "i < length (rq_hand q)" and h: "rq_hand q ! i = (topic, msg)"
  shows "effort opt (process opt now False 0 topic msg r (let_go i q)) < effort opt q"
proof -
  let ?m = "attempts opt" and ?st = "rq_streams q topic"
  have a: "xm_attempt msg < ?m" using hand_attempt [OF q i] by (simp add: h)
  have fin: "finite {t. xs_entries (rq_streams q t) \<noteq> []}" using q by (simp add: queue_ok_def)
  have "load ?m (unread (XAckDel (xm_ID msg) ?st)) \<le> load ?m (unread ?st)"
    using load_filter [of ?m "\<lambda>e. xm_ID e \<noteq> xm_ID msg" "unread ?st"] by (simp add: unread_def XAckDel_def conj_commute)
  then have t: "total ?m ((rq_streams q)(topic := XAckDel (xm_ID msg) ?st)) \<le> total ?m (rq_streams q)"
    using total_upd [OF fin, of ?m topic "XAckDel (xm_ID msg) ?st"] by linarith
  have hand: "held ?m (rq_hand (let_go i q)) + (3 * (?m - xm_attempt msg) - 1) = held ?m (rq_hand q)"
    using held_remove [OF i, of ?m] by (simp add: let_go_def h)
  let ?env = "\<lparr>ev_Topic = topic, ev_Payload = xm_payload msg, ev_Attempt = xm_attempt msg + 1\<rparr>"
  have w: "waiting ?m (ZAdd ?env due z) \<le> waiting ?m z + 3 * (?m - (xm_attempt msg + 1)) + 1" for due z
    using waiting_filter [of ?m "\<lambda>x. fst x \<noteq> ?env" z] by (simp add: ZAdd_def)
  have fields: "rq_streams (let_go i q) = rq_streams q" "rq_delayed (let_go i q) = rq_delayed q" by (simp_all add: let_go_def)
  let ?q' = "process opt now False 0 topic msg r (let_go i q)"
  have "effort opt ?q' \<le>
      total ?m (rq_streams q) + held ?m (rq_hand (let_go i q)) + (waiting ?m (rq_delayed q) + (3 * (?m - xm_attempt msg) - 2))"
  proof -
    have sh: "\<exists>z. rq_streams ?q' = (rq_streams q)(topic := XAckDel (xm_ID msg) ?st) \<and> rq_hand ?q' = rq_hand (let_go i q) \<and>
        rq_delayed ?q' = z \<and> (z = rq_delayed q \<or> (\<exists>due. z = ZAdd ?env due (rq_delayed q) \<and> xm_attempt msg + 1 < ?m))"
      by (auto simp: process_def settle_def Let_def fields attempts_def)
    then obtain z where z: "rq_streams ?q' = (rq_streams q)(topic := XAckDel (xm_ID msg) ?st)" "rq_hand ?q' = rq_hand (let_go i q)"
        "rq_delayed ?q' = z" "z = rq_delayed q \<or> (\<exists>due. z = ZAdd ?env due (rq_delayed q) \<and> xm_attempt msg + 1 < ?m)" by blast
    have "waiting ?m z \<le> waiting ?m (rq_delayed q) + (3 * (?m - xm_attempt msg) - 2)"
      using z(4)
    proof
      assume "\<exists>due. z = ZAdd ?env due (rq_delayed q) \<and> xm_attempt msg + 1 < ?m"
      then obtain due where d: "z = ZAdd ?env due (rq_delayed q)" "xm_attempt msg + 1 < ?m" by blast
      have "3 * (?m - (xm_attempt msg + 1)) + 1 = 3 * (?m - xm_attempt msg) - 2" using d(2) by linarith
      with w [of due "rq_delayed q"] show ?thesis unfolding d(1) by linarith
    qed simp
    with t show ?thesis unfolding effort_def z(1,2,3) by linarith
  qed
  moreover have "3 * (?m - xm_attempt msg) \<ge> 3" using a by simp
  ultimately show ?thesis unfolding effort_def using hand by linarith
qed

lemma works_effort:
  assumes q: "queue_ok (attempts opt) q" and w: "works opt q q'"
  shows "effort opt q' < effort opt q"
proof -
  obtain now l where l: "quiet l" "q' = queue_exec opt (now, l) q" "q' \<noteq> q" using w by (auto simp: works_def)
  show ?thesis
  proof (cases l)
    case (QRead c n topic)
    have "take n (unread (rq_streams q topic)) \<noteq> []"
    proof
      assume "take n (unread (rq_streams q topic)) = []"
      then have "q' = q" unfolding l(2) QRead by (simp add: consume_new_def receive_def XReadGroup_def Let_def del: take_eq_Nil)
      with l(3) show False by simp
    qed
    from read_less [OF q this] show ?thesis by (simp add: l(2) QRead)
  next
    case (QFinish i r flt gone)
    then have i: "i < length (rq_hand q)" using l(2,3) by (auto split: if_splits)
    obtain topic msg where h: "rq_hand q ! i = (topic, msg)" by (cases "rq_hand q ! i")
    from finish_less [OF q i h] show ?thesis using l(1) QFinish i h by (simp add: l(2))
  next
    case (QMove gone)
    have "due_now now q \<noteq> []" using l(2,3) QMove by (auto simp: moveDue_def)
    with moveDue_less [OF q, of now] show ?thesis using l(1) QMove by (cases "due_now now q") (simp_all add: l(2))
  qed (use l(1) in auto)
qed

lemma works_ok: "0 < ro_MaxRetries opt \<Longrightarrow> queue_ok (attempts opt) q \<Longrightarrow> works opt q q' \<Longrightarrow> queue_ok (attempts opt) q'"
  unfolding works_def using queue_exec_ok by blast

definition redis_ok :: "RedisOptions \<Rightarrow> redis_queue \<Rightarrow> bool" where
  "redis_ok opt q \<longleftrightarrow> 0 < ro_MaxRetries opt \<and> queue_ok (attempts opt) q"

interpretation rq: ending_work "works opt" "redis_ok opt" "effort opt" for opt
  by unfold_locales (auto simp: redis_ok_def intro: works_ok works_effort)

text \<open>
  Servers at work, with crashes, transactions that fail and entries that are reclaimed, but nobody publishing
  and nothing trimmed: the effective steps of reading, finishing and moving, and the entries that were reclaimed.
\<close>

fun no_publish :: "queue_label \<Rightarrow> bool" where
  "no_publish (QPublish flt gone topic payload) \<longleftrightarrow> False"
| "no_publish _ \<longleftrightarrow> True"

fun real_work :: "queue_label \<Rightarrow> bool" where
  "real_work (QRead consumer batch topic) \<longleftrightarrow> True"
| "real_work (QFinish i r flt gone) \<longleftrightarrow> True"
| "real_work (QMove gone) \<longleftrightarrow> True"
| "real_work _ \<longleftrightarrow> False"

fun claims :: "time \<times> queue_label \<Rightarrow> RedisOptions \<Rightarrow> redis_queue \<Rightarrow> nat" where
  "claims (now, QClaim consumer batch topic) opt q =
     length (fst (XAutoClaim now (consumer @ ''-'' @ topic) (ro_ClaimIdle opt) batch (rq_streams q topic)))"
| "claims _ opt q = 0"

fun work_steps :: "RedisOptions \<Rightarrow> (time \<times> queue_label) list \<Rightarrow> redis_queue \<Rightarrow> nat" where
  "work_steps opt [] q = 0"
| "work_steps opt (x # xs) q = of_bool (real_work (snd x) \<and> queue_exec opt x q \<noteq> q) + work_steps opt xs (queue_exec opt x q)"

fun reclaimed :: "RedisOptions \<Rightarrow> (time \<times> queue_label) list \<Rightarrow> redis_queue \<Rightarrow> nat" where
  "reclaimed opt [] q = 0"
| "reclaimed opt (x # xs) q = claims x opt q + reclaimed opt xs (queue_exec opt x q)"

lemma effort_let_go:
  assumes "queue_ok (attempts opt) q"
  shows "effort opt (let_go i q) \<le> effort opt q" "i < length (rq_hand q) \<Longrightarrow> effort opt (let_go i q) < effort opt q"
proof -
  have less: "effort opt (let_go i q) < effort opt q" if "i < length (rq_hand q)"
    using held_remove [OF that, of "attempts opt"] hand_attempt [OF assms that] by (simp add: effort_def let_go_def)
  show "effort opt (let_go i q) \<le> effort opt q"
  proof (cases "i < length (rq_hand q)")
    case False
    then show ?thesis by (simp add: let_go_def)
  qed (use less in simp)
  show "i < length (rq_hand q) \<Longrightarrow> effort opt (let_go i q) < effort opt q" by (rule less)
qed

lemma effort_claim: "effort opt (queue_exec opt (now, QClaim consumer batch topic) q) \<le>
    effort opt q + 3 * attempts opt * claims (now, QClaim consumer batch topic) opt q"
proof -
  obtain msgs st where c: "XAutoClaim now (consumer @ ''-'' @ topic) (ro_ClaimIdle opt) batch (rq_streams q topic) = (msgs, st)"
    by (cases "XAutoClaim now (consumer @ ''-'' @ topic) (ro_ClaimIdle opt) batch (rq_streams q topic)")
  have st: "xs_entries st = xs_entries (rq_streams q topic)" "unread st = unread (rq_streams q topic)"
    using c by (auto simp: XAutoClaim_def Let_def unread_def)
  have "held (attempts opt) (map (Pair topic) es) \<le> 3 * attempts opt * length es" for es
    by (induction es) (auto simp: held_def)
  moreover have "total (attempts opt) ((rq_streams q)(topic := st)) = total (attempts opt) (rq_streams q)"
    unfolding total_def by (rule sum.cong) (auto simp: st)
  moreover have "queue_exec opt (now, QClaim consumer batch topic) q =
      q\<lparr>rq_streams := (rq_streams q)(topic := st), rq_hand := rq_hand q @ map (Pair topic) msgs\<rparr>"
    unfolding queue_exec.simps consume_abandoned_def receive_def c prod.case by (rule refl)
  moreover have "claims (now, QClaim consumer batch topic) opt q = length msgs" unfolding claims.simps c by simp
  ultimately show ?thesis by (simp add: effort_def)
qed

lemma effort_step:
  assumes "queue_ok (attempts opt) q" "no_publish l" "untrimmed l"
  shows "of_bool (real_work l \<and> queue_exec opt (now, l) q \<noteq> q) + effort opt (queue_exec opt (now, l) q) \<le>
    effort opt q + 3 * attempts opt * claims (now, l) opt q"
proof (cases "quiet l")
  case True
  have "effort opt (queue_exec opt (now, l) q) < effort opt q" if "queue_exec opt (now, l) q \<noteq> q"
    using works_effort [OF assms(1)] True that unfolding works_def by blast
  then show ?thesis by (cases "queue_exec opt (now, l) q = q") auto
next
  case False
  then consider (claim) consumer batch topic where "l = QClaim consumer batch topic"
    | (failed) i r where "l = QFinish i r True 0" | (crash) i where "l = QDrop i"
    using assms(2,3) by (cases l) auto
  then show ?thesis
  proof cases
    case claim
    with effort_claim [of opt now consumer batch topic q] show ?thesis by simp
  next
    case failed
    show ?thesis
    proof (cases "i < length (rq_hand q)")
      case True
      have "effort opt (process opt now True 0 topic msg r (let_go i q)) = effort opt (let_go i q)" for topic msg
        by (simp add: process_def effort_def)
      with effort_let_go(2) [OF assms(1) True] show ?thesis by (simp add: failed True split: prod.split)
    qed (simp add: failed)
  next
    case crash
    with effort_let_go(1) [OF assms(1), of i] show ?thesis by simp
  qed
qed

lemma work_bounded:
  assumes "0 < ro_MaxRetries opt" "queue_ok (attempts opt) q" "\<forall>x \<in> set xs. no_publish (snd x) \<and> untrimmed (snd x)"
  shows "work_steps opt xs q + effort opt (queue_run opt xs q) \<le> effort opt q + 3 * attempts opt * reclaimed opt xs q"
  using assms(2,3)
proof (induction xs arbitrary: q)
  case (Cons x xs)
  let ?q = "queue_exec opt x q" and ?k = "3 * attempts opt"
  have "work_steps opt xs ?q + effort opt (queue_run opt xs ?q) \<le> effort opt ?q + ?k * reclaimed opt xs ?q"
    using Cons.IH [OF queue_exec_ok [OF assms(1) Cons.prems(1)]] Cons.prems(2) by simp
  moreover have "of_bool (real_work (snd x) \<and> ?q \<noteq> q) + effort opt ?q \<le> effort opt q + ?k * claims x opt q"
    using effort_step [OF Cons.prems(1), of "snd x" "fst x"] Cons.prems(2) by simp
  moreover have "?k * reclaimed opt (x # xs) q = ?k * claims x opt q + ?k * reclaimed opt xs ?q" by (simp add: algebra_simps)
  moreover have r: "queue_run opt (x # xs) q = queue_run opt xs ?q" by (simp add: queue_run_def)
  ultimately show ?case unfolding r work_steps.simps by linarith
qed (simp add: queue_run_def)

text \<open>
  C11: Retrying ends. From every state that runs can reach, while nobody publishes and nothing is trimmed, whatever
  handlers answer and whether servers crash or transactions fail, the steps that do something, reading new
  entries, running and finishing a handler, moving due retries, are at most \<open>effort\<close>: for each job not read
  yet three for every attempt it has left, for one in the hands of a worker one less, for one that waits for a
  retry one more; and at most three for each allowed attempt more for every entry that is reclaimed
  on the way. Reclaiming, which may go on as long as handlers do not finish, is not counted itself.
\<close>

theorem retries_end:
  assumes "0 < ro_MaxRetries opt" "\<forall>x \<in> set xs. no_publish (snd x) \<and> untrimmed (snd x)"
    and "q = queue_run opt run empty_queue"
  shows "work_steps opt xs q \<le> effort opt q + 3 * attempts opt * reclaimed opt xs q"
proof -
  have "queue_ok (attempts opt) q" unfolding assms(3) by (rule queue_run_ok [OF assms(1) queue_ok_empty])
  from work_bounded [OF assms(1) this assms(2)] show ?thesis by simp
qed

section \<open>And then everything has been handled\<close>

text \<open>What was delivered and is not acknowledged is in the list of pending entries of its group.\<close>

definition recorded :: "redis_queue \<Rightarrow> bool" where
  "recorded q \<longleftrightarrow> (\<forall>t. \<forall>e \<in> set (xs_entries (rq_streams q t)).
     xs_read (rq_streams q t) \<le> xm_ID e \<or> xm_ID e \<in> fst ` set (xs_pending (rq_streams q t)))"

lemma recorded_fields [simp]: "recorded (q\<lparr>rq_delayed := z\<rparr>) = recorded q" "recorded (q\<lparr>rq_dead := dd\<rparr>) = recorded q"
  "recorded (q\<lparr>rq_hand := h\<rparr>) = recorded q" "recorded (q\<lparr>rq_done := l\<rparr>) = recorded q" "recorded (let_go i q) = recorded q"
  by (simp_all add: recorded_def let_go_def)

lemma recorded_add: "queue_ok m q \<Longrightarrow> recorded q \<Longrightarrow> recorded (queue_add opt 0 t p a q)"
  by (auto simp: recorded_def queue_add_def XAdd_def queue_ok_def stream_ok_def)

lemma recorded_moves:
  assumes "queue_ok m q" "recorded q" "\<forall>env \<in> set envs. ev_Attempt env < m"
  shows "recorded (fold (move_one opt 0) envs q)"
  using assms
proof (induction envs arbitrary: q)
  case (Cons env envs)
  have "queue_ok m (q\<lparr>rq_delayed := filter (\<lambda>x. fst x \<noteq> env) (rq_delayed q)\<rparr>)"
    using Cons.prems(1) by (simp add: queue_ok_def held_ok_def distinct_map_filter)
  then have "recorded (move_one opt 0 env q)" "queue_ok m (move_one opt 0 env q)"
    using Cons.prems(2,3) by (simp_all add: move_one_def recorded_add queue_ok_add)
  with Cons show ?case by simp
qed simp

lemma recorded_read:
  assumes q: "queue_ok m q" and h: "recorded q"
  shows "recorded (consume_new now c n topic q)"
proof (cases "take n (unread (rq_streams q topic)) = []")
  case True
  then have "consume_new now c n topic q = q" by (simp add: consume_new_def receive_def XReadGroup_def Let_def del: take_eq_Nil)
  with h show ?thesis by simp
next
  case ne: False
  let ?st = "rq_streams q topic" and ?st' = "snd (XReadGroup now (c @ ''-'' @ topic) n (rq_streams q topic))"
  have st: "stream_ok m ?st" using q by (simp add: queue_ok_def)
  have r: "rq_streams (consume_new now c n topic q) = (rq_streams q)(topic := ?st')"
    by (simp add: consume_new_def receive_def XReadGroup_def Let_def)
  have p: "fst ` set (xs_pending ?st') = fst ` set (xs_pending ?st) \<union> xm_ID ` set (take n (unread ?st))"
    using ne by (simp add: XReadGroup_def Let_def image_Un image_image del: take_eq_Nil)
  have "xs_read ?st' \<le> xm_ID e \<or> xm_ID e \<in> fst ` set (xs_pending ?st')" if e: "e \<in> set (xs_entries ?st)" for e
  proof (cases "xs_read ?st \<le> xm_ID e")
    case True
    then have "e \<in> set (unread ?st)" using e by (simp add: unread_def)
    then have td: "e \<in> set (take n (unread ?st)) \<union> set (drop n (unread ?st))" by (metis append_take_drop_id set_append)
    then show ?thesis
    proof (cases "e \<in> set (take n (unread ?st))")
      case False
      with td have "e \<in> set (unread ?st')" unfolding unread_after_read [OF st ne] by simp
      then show ?thesis by (simp add: unread_def)
    next
      case True
      then have "xm_ID e \<in> fst ` set (xs_pending ?st')" unfolding p by blast
      then show ?thesis ..
    qed
  next
    case False
    with h e have "xm_ID e \<in> fst ` set (xs_pending ?st)" by (auto simp: recorded_def)
    then have "xm_ID e \<in> fst ` set (xs_pending ?st')" unfolding p by blast
    then show ?thesis ..
  qed
  with h show ?thesis by (simp add: recorded_def r XReadGroup_frame)
qed

lemma claim_pending:
  assumes "e \<in> set (xs_entries st)" "xm_ID e \<in> fst ` set (xs_pending st)"
  shows "xm_ID e \<in> fst ` set (xs_pending (snd (XAutoClaim now c i n st)))"
proof -
  obtain ids where ids: "xs_pending (snd (XAutoClaim now c i n st)) = map (\<lambda>p. if fst p \<in> ids then (fst p, c, now) else p)
      (filter (\<lambda>p. fst p \<in> ids \<longrightarrow> fst p \<in> set (map xm_ID (xs_entries st))) (xs_pending st))"
    by (auto simp: XAutoClaim_def Let_def)
  have same: "fst ` set (map (\<lambda>p. if fst p \<in> ids then (fst p, c, now) else p) ps) = fst ` set ps" for ps
    unfolding set_map image_image by (rule image_cong) auto
  from assms(2) obtain p where "p \<in> set (xs_pending st)" "fst p = xm_ID e" by auto
  with assms(1) have "p \<in> set (filter (\<lambda>p. fst p \<in> ids \<longrightarrow> fst p \<in> set (map xm_ID (xs_entries st))) (xs_pending st))" by simp
  with \<open>fst p = xm_ID e\<close> show ?thesis unfolding ids same by (rule image_eqI [OF sym])
qed

lemma recorded_claim:
  assumes "recorded q"
  shows "recorded (consume_abandoned opt now c n topic q)"
proof -
  let ?st = "rq_streams q topic" and ?st' = "snd (XAutoClaim now (c @ ''-'' @ topic) (ro_ClaimIdle opt) n (rq_streams q topic))"
  have r: "rq_streams (consume_abandoned opt now c n topic q) = (rq_streams q)(topic := ?st')"
    unfolding consume_abandoned_def receive_def by (simp add: case_prod_beta)
  have "xs_read ?st' = xs_read ?st" by (simp add: XAutoClaim_def Let_def)
  then have "xs_read ?st' \<le> xm_ID e \<or> xm_ID e \<in> fst ` set (xs_pending ?st')" if "e \<in> set (xs_entries ?st)" for e
    using that assms claim_pending [OF that] by (metis recorded_def)
  with assms show ?thesis by (simp add: recorded_def r XAutoClaim_frame)
qed

lemma recorded_ack: "recorded q \<Longrightarrow> recorded (on_stream topic (XAckDel i) q)"
  by (force simp: recorded_def XAckDel_def)

lemma recorded_process: "recorded q \<Longrightarrow> recorded (process opt now flt gone topic msg r q)"
  by (simp add: process_def settle_def Let_def recorded_ack)

lemma recorded_exec:
  assumes "queue_ok (attempts opt) q" "recorded q" "untrimmed (snd x)" "0 < ro_MaxRetries opt"
  shows "recorded (queue_exec opt x q)"
proof -
  obtain now l where x: "x = (now, l)" by (cases x)
  show ?thesis
  proof (cases l)
    case (QMove gone)
    have "\<forall>env \<in> set (due_now now q). ev_Attempt env < attempts opt"
      using assms(1) due_sub [of now q] by (auto simp: queue_ok_def)
    from recorded_moves [OF assms(1,2) this] QMove assms(3) show ?thesis by (simp add: x moveDue_def)
  qed (use assms in \<open>auto simp: x Publish_def recorded_read recorded_claim intro!: recorded_add recorded_process split: prod.split\<close>)
qed

lemma recorded_run:
  assumes "0 < ro_MaxRetries opt" "queue_ok (attempts opt) q" "recorded q" "\<forall>x \<in> set xs. untrimmed (snd x)"
  shows "recorded (queue_run opt xs q)"
  using assms(2-4)
proof (induction xs arbitrary: q)
  case (Cons x xs)
  with queue_exec_ok [OF assms(1) Cons.prems(1), of x] recorded_exec [OF Cons.prems(1,2) _ assms(1), of x]
  show ?case by (simp add: queue_run_def)
qed (simp add: queue_run_def)

text \<open>At rest: no reading, finishing, moving or reclaiming does anything, however late.\<close>

definition at_rest :: "RedisOptions \<Rightarrow> redis_queue \<Rightarrow> bool" where
  "at_rest opt q \<longleftrightarrow> (\<forall>now l. quiet l \<or> (\<exists>consumer batch topic. l = QClaim consumer batch topic) \<longrightarrow> queue_exec opt (now, l) q = q)"

lemma nothing_pending:
  assumes "at_rest opt q" "e \<in> set (xs_entries (rq_streams q t))"
  shows "xm_ID e \<notin> fst ` set (xs_pending (rq_streams q t))"
proof
  assume "xm_ID e \<in> fst ` set (xs_pending (rq_streams q t))"
  then obtain c t0 where p: "(xm_ID e, c, t0) \<in> set (xs_pending (rq_streams q t))" by auto
  let ?st = "rq_streams q t" and ?now = "t0 + ro_ClaimIdle opt"
  let ?n = "length (xs_pending ?st)"
  let ?ps = "filter (\<lambda>(_, _, t). t + ro_ClaimIdle opt \<le> ?now) (take (10 * ?n) (sort_key fst (xs_pending ?st)))"
  have "(xm_ID e, c, t0) \<in> set ?ps" using p by simp
  moreover have "length ?ps \<le> ?n" by (metis (no_types, lifting) length_filter_le length_sort order_trans length_take min.cobounded1)
  ultimately have "e \<in> set (fst (XAutoClaim ?now ([] @ ''-'' @ t) (ro_ClaimIdle opt) ?n ?st))"
    using assms(2) by (force simp: XAutoClaim_def Let_def)
  then have "length (rq_hand (queue_exec opt (?now, QClaim [] ?n t) q)) > length (rq_hand q)"
    by (cases "XAutoClaim ?now ([] @ ''-'' @ t) (ro_ClaimIdle opt) ?n ?st") (auto simp: consume_abandoned_def receive_def)
  moreover have "queue_exec opt (?now, QClaim [] ?n t) q = q" using assms(1) unfolding at_rest_def by blast
  ultimately show False by simp
qed

lemma rest_empty:
  assumes q: "queue_ok (attempts opt) q" and h: "recorded q" and rest: "at_rest opt q"
  shows "xs_entries (rq_streams q t) = []" "rq_delayed q = []"
proof -
  have no: "queue_exec opt (now, l) q = q" if "quiet l" for now l using rest that by (auto simp: at_rest_def)
  have "unread (rq_streams q t) = []"
  proof (rule ccontr)
    assume "unread (rq_streams q t) \<noteq> []"
    then have "take 1 (unread (rq_streams q t)) \<noteq> []" by simp
    from read_less [OF q this, of 0 "[]"] no [of "QRead [] 1 t" 0] show False by simp
  qed
  then have "e \<notin> set (xs_entries (rq_streams q t))" for e
    using h nothing_pending [OF rest, of e t] by (auto simp: recorded_def unread_def filter_empty_conv)
  then show "xs_entries (rq_streams q t) = []" by (metis last_in_set)
  show "rq_delayed q = []"
  proof (rule ccontr)
    assume "rq_delayed q \<noteq> []"
    then obtain env due where e: "(env, due) \<in> set (rq_delayed q)" by (cases "rq_delayed q") auto
    let ?now = "due * millisecond"
    have "(env, due) \<in> set (filter (\<lambda>x. snd x \<le> UnixMilli ?now) (rq_delayed q))" using e by (simp add: UnixMilli_def millisecond_def)
    then have "filter (\<lambda>x. snd x \<le> UnixMilli ?now) (rq_delayed q) \<noteq> []" by (metis empty_iff empty_set)
    then have "due_now ?now q \<noteq> []" by (auto simp: due_now_def) (metis length_0_conv length_sort)
    with moveDue_less [OF q, of ?now] no [of "QMove 0" ?now] show False by (cases "due_now ?now q") simp_all
  qed
qed

text \<open>
  C23: Once nobody publishes, the queue finishes, whatever happened before and even if servers still crash or
  transactions fail, as long as nothing is trimmed: the steps that do something are at most \<open>effort\<close>, and
  three for each allowed attempt more for every entry reclaimed; and when it is at rest, nothing left to
  read, finish, move or reclaim, every job published before, known by topic and payload, has been completed by a
  handler or is among the dead jobs.
\<close>

theorem queue_drains:
  assumes "0 < ro_MaxRetries opt" "\<forall>x \<in> set run. untrimmed (snd x)" "\<forall>x \<in> set xs. no_publish (snd x) \<and> untrimmed (snd x)"
  defines "q \<equiv> queue_run opt run empty_queue" and "q' \<equiv> queue_run opt xs (queue_run opt run empty_queue)"
  assumes "at_rest opt q'" "x \<in> set run" "accepted (snd x) = Some (topic, payload)"
  shows "work_steps opt xs q \<le> effort opt q + 3 * attempts opt * reclaimed opt xs q \<and>
    ((topic, payload) \<in> set (rq_done q') \<or> (\<exists>d \<in> set (rq_dead q'). dj_topic d = topic \<and> dj_payload d = payload))"
proof -
  note pos = assms(1)
  have all: "q' = queue_run opt (run @ xs) empty_queue" "\<forall>x \<in> set (run @ xs). untrimmed (snd x)"
    using assms(2,3) by (auto simp: q'_def queue_run_def)
  have "recorded empty_queue" by (simp add: recorded_def empty_queue_def empty_stream_def)
  then have q': "queue_ok (attempts opt) q'" "recorded q'"
    unfolding all(1) using queue_run_ok [OF pos queue_ok_empty] recorded_run [OF pos queue_ok_empty _ all(2)] by blast+
  have "has_job q' topic payload"
    unfolding all(1) by (rule no_lost_job [OF pos all(2) _ assms(8)]) (use assms(7) in simp)
  moreover have "xs_entries (rq_streams q' topic) = []" "rq_delayed q' = []" using rest_empty [OF q' assms(6)] by blast+
  moreover have "work_steps opt xs q \<le> effort opt q + 3 * attempts opt * reclaimed opt xs q"
    using work_bounded [OF pos queue_run_ok [OF pos queue_ok_empty] assms(3), of run] by (simp add: q_def)
  ultimately show ?thesis by (auto simp: has_job_def)
qed

text \<open>Without reclaiming, the steps that do something are bounded by \<open>effort\<close> alone.\<close>

lemma quiet_steps_bounded:
  assumes "0 < ro_MaxRetries opt" "(works opt ^^ n) (queue_run opt run empty_queue) q'"
  shows "n \<le> effort opt (queue_run opt run empty_queue)"
  using rq.run_bounded [OF assms(2)] queue_run_ok [OF assms(1) queue_ok_empty] assms(1) by (simp add: redis_ok_def)

section \<open>Examples\<close>

definition plain :: RedisOptions where
  "plain = defaults \<lparr>ro_Group = [], ro_MaxRetries = 0, ro_StreamMaxLen = 0, ro_JobTimeout = 0, ro_ClaimIdle = 0, ro_BlockFor = 0\<rparr>"

lemma plain_simps [simp]: "ro_MaxRetries plain = 8" "ro_StreamMaxLen plain = 100000" "maxlen plain = 100000" "attempts plain = 8"
  by (simp_all add: plain_def defaults_def maxlen_def attempts_def)

lemmas queue_eval = Publish_def queue_add_def XAdd_def empty_queue_def empty_stream_def consume_new_def receive_def
  XReadGroup_def unread_def Let_def process_def settle_def let_go_def XAckDel_def ZAdd_def on_stream_def IsPermanent_def

definition crash_run :: "(time \<times> queue_label) list" where
  "crash_run = [(0, QPublish False 0 ''push'' ''hi''), (1, QRead ''a'' 1 ''push''), (2, QDrop 0), (3, QPublish False 0 ''push'' ''hi'')]"

theorem no_job_is_lost_witness:
  "has_job (queue_run plain crash_run empty_queue) ''push'' ''hi'' \<and> 2 \<le> copies (queue_run plain crash_run empty_queue) ''push'' ''hi''"
proof -
  have un: "\<forall>x \<in> set crash_run. untrimmed (snd x)" and first: "(0, QPublish False 0 ''push'' ''hi'') \<in> set crash_run"
    and calm: "no_clash plain crash_run empty_queue" and twice: "times_published crash_run ''push'' ''hi'' = 2"
    by (simp_all add: crash_run_def times_published_def del: queue_exec.simps)
  have pos: "0 < ro_MaxRetries plain" by simp
  note jobs = no_job_is_lost [OF pos un]
  have "has_job (queue_run plain crash_run empty_queue) ''push'' ''hi''"
    using bspec [OF conjunct1 [OF jobs] first] by simp
  moreover have "times_published crash_run ''push'' ''hi'' \<le> copies (queue_run plain crash_run empty_queue) ''push'' ''hi''"
    using conjunct1 [OF conjunct2 [OF jobs]] calm by blast
  ultimately show ?thesis using twice by simp
qed

text \<open>A job whose first server crashed after reading it; another reclaims the entry and finishes it.\<close>

definition one_job :: "(time \<times> queue_label) list" where
  "one_job = [(0, QPublish False 0 ''push'' ''hi''), (1, QRead ''a'' 1 ''push''), (2, QDrop 0)]"

definition finish_job :: "(time \<times> queue_label) list" where
  "finish_job = [(2 + minute, QClaim ''b'' 1 ''push''), (3 + minute, QFinish 0 JobDone False 0)]"

lemma one_job_left: "queue_run plain one_job empty_queue = empty_queue\<lparr>rq_streams := (\<lambda>_. empty_stream)(''push'' :=
    \<lparr>xs_entries = [\<lparr>xm_ID = 0, xm_payload = ''hi'', xm_attempt = 0\<rparr>], xs_next = 1, xs_read = 1, xs_pending = [(0, ''a-push'', 1)]\<rparr>)\<rparr>"
  by (simp add: one_job_def queue_run_def queue_eval trim_def)

definition job_done :: redis_queue where
  "job_done = empty_queue\<lparr>rq_streams := (\<lambda>_. empty_stream)(''push'' :=
     \<lparr>xs_entries = [], xs_next = 1, xs_read = 1, xs_pending = []\<rparr>), rq_done := [(''push'', ''hi'')]\<rparr>"

lemma job_finished: "queue_run plain finish_job (queue_run plain one_job empty_queue) = job_done"
  unfolding one_job_left
  by (simp add: finish_job_def job_done_def queue_run_def queue_eval consume_abandoned_def XAutoClaim_def plain_def defaults_def duration_defs)

lemma one_job_reclaimed: "reclaimed plain finish_job (queue_run plain one_job empty_queue) = 1"
  unfolding one_job_left
  by (simp add: finish_job_def queue_eval XAutoClaim_def plain_def defaults_def duration_defs)

theorem retries_end_witness: "work_steps plain finish_job (queue_run plain one_job empty_queue) \<le> effort plain (queue_run plain one_job empty_queue) + 24"
  using retries_end [OF _ _ refl, of plain finish_job one_job] one_job_reclaimed by (simp add: finish_job_def)

lemma nothing_to_do:
  assumes "\<And>t. xs_entries (rq_streams q t) = []" "\<And>t. xs_pending (rq_streams q t) = []" "rq_hand q = []" "rq_delayed q = []"
  shows "at_rest opt q"
proof -
  have "queue_exec opt (now, l) q = q" if "quiet l" for now l
    using that assms by (cases l) (simp_all add: consume_new_def receive_def XReadGroup_def unread_def Let_def moveDue_def due_now_def)
  moreover have "queue_exec opt (now, QClaim c n t) q = q" for now c n t
  proof -
    have "rq_streams q t\<lparr>xs_pending := []\<rparr> = rq_streams q t" using assms(2) [of t] by (cases "rq_streams q t") simp
    moreover have "q\<lparr>rq_hand := []\<rparr> = q" using assms(3) by (cases q) simp
    moreover have "queue_exec opt (now, QClaim c n t) q =
        q\<lparr>rq_hand := []\<rparr>\<lparr>rq_streams := (rq_streams q)(t := rq_streams q t\<lparr>xs_pending := []\<rparr>)\<rparr>"
      using assms by (simp add: consume_abandoned_def receive_def XAutoClaim_def Let_def)
    ultimately show ?thesis by (simp only: fun_upd_triv) simp
  qed
  ultimately show ?thesis by (auto simp: at_rest_def)
qed

lemma job_done_rest: "at_rest plain job_done"
  by (rule nothing_to_do) (simp_all add: job_done_def empty_queue_def empty_stream_def)

theorem queue_drains_witness:
  "(''push'', ''hi'') \<in> set (rq_done job_done) \<or> (\<exists>d \<in> set (rq_dead job_done). dj_topic d = ''push'' \<and> dj_payload d = ''hi'')"
  using queue_drains [of plain one_job finish_job "(0, QPublish False 0 ''push'' ''hi'')" "''push''" "''hi''"] job_done_rest
  by (simp add: job_finished) (simp add: one_job_def finish_job_def)

text \<open>
  Two jobs with the same payload that fail at the same attempt become one retry, since the sorted set
  keeps one member: one of the two jobs is gone.
\<close>

lemma equal_retries_merge:
  "length (rq_delayed (queue_run plain [(0, QPublish False 0 ''push'' ''hi''), (0, QPublish False 0 ''push'' ''hi''),
     (1, QRead ''a'' 2 ''push''), (2, QFinish 0 (JobFailed ''down'') False 0), (3, QFinish 0 (JobFailed ''down'') False 0)] empty_queue)) = 1 \<and>
   xs_entries (rq_streams (queue_run plain [(0, QPublish False 0 ''push'' ''hi''), (0, QPublish False 0 ''push'' ''hi''),
     (1, QRead ''a'' 2 ''push''), (2, QFinish 0 (JobFailed ''down'') False 0), (3, QFinish 0 (JobFailed ''down'') False 0)] empty_queue) ''push'') = []"
  by (simp add: queue_run_def queue_eval)

section \<open>The queue in memory\<close>

definition mem_ok :: "nat \<Rightarrow> mem_queue \<Rightarrow> bool" where
  "mem_ok m q \<longleftrightarrow> finite {t. mq_topics q t \<noteq> []} \<and> (\<forall>t. \<forall>j \<in> set (mq_topics q t). mj_attempt j < m) \<and>
     (\<forall>x \<in> set (mq_running q). mj_attempt (snd x) < m) \<and> (\<forall>x \<in> set (mq_timers q). mj_attempt (fst (snd x)) < m)"

definition mem_works :: "nat \<Rightarrow> mem_queue \<Rightarrow> mem_queue \<Rightarrow> bool" where
  "mem_works m q q' \<longleftrightarrow> (\<exists>now l. (case l of MPublish _ _ \<Rightarrow> False | _ \<Rightarrow> True) \<and> q' = mem_exec m (now, l) q \<and> q' \<noteq> q)"

definition mem_total :: "nat \<Rightarrow> (string \<Rightarrow> mem_job list) \<Rightarrow> nat" where
  "mem_total m f = (\<Sum>t | f t \<noteq> []. sum_list (map (\<lambda>j. 3 * (m - mj_attempt j)) (f t)))"

definition mem_effort :: "nat \<Rightarrow> mem_queue \<Rightarrow> nat" where
  "mem_effort m q = mem_total m (mq_topics q) + sum_list (map (\<lambda>x. 3 * (m - mj_attempt (snd x)) - 1) (mq_running q)) +
     sum_list (map (\<lambda>x. 3 * (m - mj_attempt (fst (snd x))) + 1) (mq_timers q))"

lemma mem_total_upd:
  assumes "finite {t. f t \<noteq> []}"
  shows "mem_total m (f(u := js)) + sum_list (map (\<lambda>j. 3 * (m - mj_attempt j)) (f u)) =
    mem_total m f + sum_list (map (\<lambda>j. 3 * (m - mj_attempt j)) js)"
proof -
  let ?w = "\<lambda>js. sum_list (map (\<lambda>j. 3 * (m - mj_attempt j)) js)"
  let ?S = "insert u {t. f t \<noteq> []}"
  have 1: "mem_total m f = (\<Sum>t \<in> ?S. ?w (f t))"
    unfolding mem_total_def using assms by (intro sum.mono_neutral_left) auto
  have 2: "mem_total m (f(u := js)) = (\<Sum>t \<in> ?S. ?w ((f(u := js)) t))"
    unfolding mem_total_def using assms by (intro sum.mono_neutral_left) (auto split: if_splits)
  have rem: "(\<Sum>t \<in> ?S. ?w (g t)) = ?w (g u) + (\<Sum>t \<in> ?S - {u}. ?w (g t))" for g :: "string \<Rightarrow> mem_job list"
    using assms by (subst sum.remove [of _ u]) simp_all
  have "(\<Sum>t \<in> ?S - {u}. ?w ((f(u := js)) t)) = (\<Sum>t \<in> ?S - {u}. ?w (f t))" by (rule sum.cong) simp_all
  then show ?thesis unfolding 1 2 rem [of f] rem [of "f(u := js)"] by simp
qed

lemma sum_remove: "i < length xs \<Longrightarrow> sum_list (map f (take i xs @ drop (Suc i) xs)) + f (xs ! i) = (sum_list (map f xs) :: nat)"
proof -
  assume i: "i < length xs"
  have "sum_list (map f xs) = sum_list (map f (take i xs @ xs ! i # drop (Suc i) xs))" using id_take_nth_drop [OF i] by simp
  then show ?thesis by simp
qed

lemma finite_topics_upd: "finite {t. f t \<noteq> []} \<Longrightarrow> finite {t. (f(u := x)) t \<noteq> []}"
  by (rule finite_subset [where B = "insert u {t. f t \<noteq> []}"]) auto

lemma mem_take_works:
  assumes ok: "mem_ok m q" and ne: "Memory_take topic q \<noteq> q"
  shows "mem_ok m (Memory_take topic q) \<and> mem_effort m (Memory_take topic q) < mem_effort m q"
proof -
  obtain j js where j: "mq_topics q topic = j # js" using ne by (cases "mq_topics q topic") (auto simp: Memory_take_def)
  have fin: "finite {t. mq_topics q t \<noteq> []}" using ok by (simp add: mem_ok_def)
  have a: "mj_attempt x < m" if "x \<in> set (mq_topics q t)" for x t using ok that by (auto simp: mem_ok_def)
  have "mem_ok m (Memory_take topic q)"
    using ok finite_topics_upd [OF fin] a [of _ topic] by (simp add: mem_ok_def Memory_take_def j)
  then show ?thesis using mem_total_upd [OF fin, of m topic js] a [of j topic] by (simp add: mem_effort_def Memory_take_def j)
qed

lemma mem_finish_works:
  fixes now :: time and r :: job_answer
  assumes ok: "mem_ok m q" and i: "i < length (mq_running q)" "mq_running q ! i = (topic, job)"
  defines "q1 \<equiv> Memory_handle m now topic job r (q\<lparr>mq_running := take i (mq_running q) @ drop (Suc i) (mq_running q)\<rparr>)"
  shows "mem_ok m q1 \<and> mem_effort m q1 < mem_effort m q"
proof -
  have a: "mj_attempt job < m" using ok i by (fastforce simp: mem_ok_def dest: nth_mem)
  have rest: "\<forall>x \<in> set (take i (mq_running q) @ drop (Suc i) (mq_running q)). mj_attempt (snd x) < m"
    using ok by (auto simp: mem_ok_def dest: in_set_takeD in_set_dropD)
  note rem = sum_remove [OF i(1), of "\<lambda>x. 3 * (m - mj_attempt (snd x)) - 1"]
  have "mem_ok m q1"
    using ok rest by (auto simp: q1_def Memory_handle_def mem_ok_def Let_def)
  moreover have "mem_effort m q1 < mem_effort m q"
    using rem a by (auto simp: q1_def Memory_handle_def mem_effort_def Let_def i(2))
  ultimately show ?thesis ..
qed

lemma mem_timer_works:
  assumes ok: "mem_ok m q" and i: "i < length (mq_timers q)" "mq_timers q ! i = (topic, job, due)"
  defines "q1 \<equiv> Memory_retry topic job (q\<lparr>mq_timers := take i (mq_timers q) @ drop (Suc i) (mq_timers q)\<rparr>)"
  shows "mem_ok m q1 \<and> mem_effort m q1 < mem_effort m q"
proof -
  have fin: "finite {t. mq_topics q t \<noteq> []}" using ok by (simp add: mem_ok_def)
  have a: "mj_attempt job < m" using ok i by (fastforce simp: mem_ok_def dest: nth_mem)
  have rest: "\<forall>x \<in> set (take i (mq_timers q) @ drop (Suc i) (mq_timers q)). mj_attempt (fst (snd x)) < m"
    using ok by (auto simp: mem_ok_def dest: in_set_takeD in_set_dropD)
  note rem = sum_remove [OF i(1), of "\<lambda>x. 3 * (m - mj_attempt (fst (snd x))) + 1"]
  have "mem_ok m q1"
    using ok rest a finite_topics_upd [OF fin] by (auto simp: q1_def Memory_retry_def mem_ok_def)
  moreover have "mem_effort m q1 < mem_effort m q"
    using rem mem_total_upd [OF fin, of m topic "mq_topics q topic @ [job]"]
    by (auto simp: q1_def Memory_retry_def mem_effort_def i(2))
  ultimately show ?thesis ..
qed

lemma mem_works_both:
  assumes ok: "mem_ok m q" and w: "mem_works m q q'"
  shows "mem_ok m q' \<and> mem_effort m q' < mem_effort m q"
proof -
  obtain now l where l: "case l of MPublish _ _ \<Rightarrow> False | _ \<Rightarrow> True" "q' = mem_exec m (now, l) q" "q' \<noteq> q"
    using w unfolding mem_works_def by blast
  show ?thesis
  proof (cases l)
    case (MTake topic)
    then show ?thesis using mem_take_works [OF ok, of topic] l(2,3) by (simp add: mem_exec_def)
  next
    case (MFinish i r)
    then have i: "i < length (mq_running q)" using l(2,3) by (auto simp: mem_exec_def split: if_splits)
    obtain topic job where "mq_running q ! i = (topic, job)" by (cases "mq_running q ! i")
    from mem_finish_works [OF ok i this] i this MFinish show ?thesis by (simp add: l(2) mem_exec_def)
  next
    case (MTimer i)
    then have i: "i < length (mq_timers q)" using l(2,3) by (auto simp: mem_exec_def split: if_splits)
    obtain topic job due where t: "mq_timers q ! i = (topic, job, due)" by (cases "mq_timers q ! i")
    then have "due \<le> now" using l(2,3) MTimer i by (auto simp: mem_exec_def split: if_splits)
    with mem_timer_works [OF ok i t] i t MTimer show ?thesis by (simp add: l(2) mem_exec_def)
  qed (use l(1) in simp)
qed

interpretation mq: ending_work "mem_works m" "mem_ok m" "mem_effort m" for m
  by unfold_locales (auto dest: mem_works_both)

lemma memory_retries_end: "mem_ok m q \<Longrightarrow> (mem_works m ^^ n) q q' \<Longrightarrow> n \<le> mem_effort m q"
  by (rule mq.run_bounded)

end
