(* ===== verification/Rate_Limit.thy ===== *)
theory Rate_Limit
  imports Http
begin

text \<open>
  \<^verbatim>\<open>platform/ratelimit\<close>: the fixed-window limiter of one process, the sliding-window limiter in
  Redis, and the middleware.
\<close>

record Result =
  Allowed :: bool
  Remaining :: int
  Limit :: int
  RetryAfter :: duration

section \<open>In memory\<close>

record window =
  w_count :: nat
  w_start :: time

record memory_limiter =
  ml_windows :: "string \<Rightarrow> window option"
  ml_lastScan :: time

definition NewMemory :: memory_limiter where
  "NewMemory = \<lparr>ml_windows = (\<lambda>_. None), ml_lastScan = - (10 ^ 19)\<rparr>"

definition over :: "duration \<Rightarrow> time \<Rightarrow> window \<Rightarrow> bool" where
  "over period now w \<longleftrightarrow> now - w_start w > period"

definition scan :: "duration \<Rightarrow> time \<Rightarrow> memory_limiter \<Rightarrow> memory_limiter" where
  "scan period now m =
     (if now - ml_lastScan m > period
      then m\<lparr>ml_windows := (\<lambda>k. case ml_windows m k of Some w \<Rightarrow> if over period now w then None else Some w | None \<Rightarrow> None),
        ml_lastScan := now\<rparr>
      else m)"

definition memory_Allow :: "nat \<Rightarrow> duration \<Rightarrow> time \<Rightarrow> string \<Rightarrow> memory_limiter \<Rightarrow> Result \<times> memory_limiter" where
  "memory_Allow limit period now key m0 =
     (let m = scan period now m0;
          w = (case ml_windows m key of
                 Some w \<Rightarrow> if over period now w then \<lparr>w_count = 0, w_start = now\<rparr> else w
               | None \<Rightarrow> \<lparr>w_count = 0, w_start = now\<rparr>) in
      if w_count w \<ge> limit
      then (\<lparr>Allowed = False, Remaining = 0, Limit = int limit, RetryAfter = period - (now - w_start w)\<rparr>,
            m\<lparr>ml_windows := (ml_windows m)(key \<mapsto> w)\<rparr>)
      else (\<lparr>Allowed = True, Remaining = int limit - int (w_count w + 1), Limit = int limit, RetryAfter = 0\<rparr>,
            m\<lparr>ml_windows := (ml_windows m)(key \<mapsto> w\<lparr>w_count := w_count w + 1\<rparr>)\<rparr>))"

text \<open>A run of calls, and the times at which those for \<open>key\<close> were allowed (latest first).\<close>

fun memory_run :: "nat \<Rightarrow> duration \<Rightarrow> string \<Rightarrow> (time \<times> string) list \<Rightarrow> memory_limiter \<times> time list" where
  "memory_run limit period key [] = (NewMemory, [])"
| "memory_run limit period key ((now, k) # calls) =
     (case memory_run limit period key calls of (m, hits) \<Rightarrow>
        (case memory_Allow limit period now k m of (r, m') \<Rightarrow>
           (m', if k = key \<and> Allowed r then now # hits else hits)))"

definition hits_in :: "time \<Rightarrow> time \<Rightarrow> time list \<Rightarrow> nat" where
  "hits_in x y hits = length (filter (\<lambda>h. x \<le> h \<and> h \<le> y) hits)"

definition hits_before :: "time \<Rightarrow> time \<Rightarrow> time list \<Rightarrow> nat" where
  "hits_before x y hits = length (filter (\<lambda>h. x \<le> h \<and> h < y) hits)"

text \<open>
  \<open>start\<close> is when the key's latest window began: it is in the table with the number of its hits, or it
  is over. Of the hits before it, at most \<open>limit\<close> are within a period of it.
\<close>

definition window_inv :: "nat \<Rightarrow> duration \<Rightarrow> time \<Rightarrow> window option \<Rightarrow> time list \<Rightarrow> time \<Rightarrow> bool" where
  "window_inv limit period now w hits start \<longleftrightarrow>
     (case w of Some w \<Rightarrow> w_start w = start \<and> w_count w = length (filter (\<lambda>h. start \<le> h) hits)
      | None \<Rightarrow> now - start > period) \<and>
     length (filter (\<lambda>h. start \<le> h) hits) \<le> limit \<and> hits_before (start - period) start hits \<le> limit \<and>
     (\<forall>h \<in> set hits. h \<le> start + period)"

definition limiter_inv :: "nat \<Rightarrow> duration \<Rightarrow> time \<Rightarrow> window option \<Rightarrow> time list \<Rightarrow> bool" where
  "limiter_inv limit period now w hits \<longleftrightarrow>
     (\<forall>h \<in> set hits. h \<le> now) \<and> (\<forall>x. hits_in x (x + period) hits \<le> 2 * limit) \<and>
     (w = None \<and> hits = [] \<or> (\<exists>start \<le> now. window_inv limit period now w hits start))"

lemma length_filter_le_filter: "(\<And>x. x \<in> set xs \<Longrightarrow> p x \<Longrightarrow> q x) \<Longrightarrow> length (filter p xs) \<le> length (filter q xs)"
  by (induction xs) auto

lemma length_filter_split: "length (filter p xs) = length (filter (\<lambda>x. p x \<and> q x) xs) + length (filter (\<lambda>x. p x \<and> \<not> q x) xs)"
  by (induction xs) auto

text \<open>What the table says of the key after the scan and the opening of a new window.\<close>

lemma open_window:
  assumes "limiter_inv limit period t w hits" "t \<le> now" "0 \<le> period"
    and "w' = w \<or> (\<exists>v. w = Some v \<and> over period now v \<and> w' = None)"
  shows "\<exists>v. v = (case w' of Some v \<Rightarrow> if over period now v then \<lparr>w_count = 0, w_start = now\<rparr> else v
               | None \<Rightarrow> \<lparr>w_count = 0, w_start = now\<rparr>) \<and>
    window_inv limit period now (Some v) hits (w_start v) \<and> w_start v \<le> now \<and> now \<le> w_start v + period"
proof -
  let ?new = "\<lparr>w_count = 0, w_start = now\<rparr>"
  have past: "\<forall>h \<in> set hits. h \<le> now" using assms(1,2) by (auto simp: limiter_inv_def)
  have fresh: "window_inv limit period now (Some ?new) hits now"
    if "hits = [] \<or> (\<exists>start. (\<forall>h \<in> set hits. h \<le> start + period) \<and> now - start > period \<and>
      length (filter (\<lambda>h. start \<le> h) hits) \<le> limit)"
    using that
  proof
    assume "\<exists>start. (\<forall>h \<in> set hits. h \<le> start + period) \<and> now - start > period \<and> length (filter (\<lambda>h. start \<le> h) hits) \<le> limit"
    then obtain start where s: "\<forall>h \<in> set hits. h \<le> start + period" "now - start > period"
      "length (filter (\<lambda>h. start \<le> h) hits) \<le> limit" by blast
    then have "filter (\<lambda>h. now \<le> h) hits = []" by (auto simp: filter_empty_conv)
    moreover have "hits_before (now - period) now hits \<le> length (filter (\<lambda>h. start \<le> h) hits)"
      unfolding hits_before_def by (rule length_filter_le_filter) (use s(2) in auto)
    ultimately show ?thesis using s past assms(3) by (auto simp: window_inv_def)
  qed (simp add: window_inv_def hits_before_def)
  show ?thesis
  proof (cases "w = None \<and> hits = []")
    case True
    with assms(4) fresh show ?thesis using assms(3) by auto
  next
    case False
    with assms(1) obtain start where st: "start \<le> t" "window_inv limit period t w hits start"
      by (auto simp: limiter_inv_def)
    then have facts: "\<forall>h \<in> set hits. h \<le> start + period" "length (filter (\<lambda>h. start \<le> h) hits) \<le> limit"
      by (auto simp: window_inv_def)
    show ?thesis
    proof (cases w')
      case None
      have "now - start > period"
      proof (cases w)
        case None with st assms(2) show ?thesis by (simp add: window_inv_def)
      next
        case (Some v)
        with assms(4) None have "over period now v" by auto
        with Some st show ?thesis by (simp add: window_inv_def over_def)
      qed
      with fresh facts None assms(3) show ?thesis by auto
    next
      case (Some v)
      with assms(4) have w: "w = Some v" by auto
      with st have v: "w_start v = start" by (simp add: window_inv_def)
      show ?thesis
      proof (cases "over period now v")
        case True
        with v fresh facts Some assms(3) show ?thesis by (auto simp: over_def)
      next
        case False
        with st w v Some assms(2) show ?thesis by (auto simp: window_inv_def over_def)
      qed
    qed
  qed
qed

lemma count_hit:
  assumes inv: "limiter_inv limit period t w hits" and t: "t \<le> now" and p: "0 \<le> period"
    and win: "window_inv limit period now (Some v) hits (w_start v)" "w_start v \<le> now" "now \<le> w_start v + period"
    and room: "w_count v < limit"
  shows "limiter_inv limit period now (Some (v\<lparr>w_count := w_count v + 1\<rparr>)) (now # hits)"
proof -
  let ?s = "w_start v"
  have in_window: "length (filter (\<lambda>h. ?s \<le> h) hits) < limit" and before: "hits_before (?s - period) ?s hits \<le> limit"
    using win room by (simp_all add: window_inv_def)
  have "hits_in x (x + period) (now # hits) \<le> 2 * limit" for x
  proof (cases "x \<le> now \<and> now \<le> x + period")
    case False
    then have "hits_in x (x + period) (now # hits) = hits_in x (x + period) hits" by (auto simp: hits_in_def)
    then show ?thesis using inv by (simp add: limiter_inv_def)
  next
    case True
    have "hits_in x (x + period) hits = length (filter (\<lambda>h. (x \<le> h \<and> h \<le> x + period) \<and> ?s \<le> h) hits) +
        length (filter (\<lambda>h. (x \<le> h \<and> h \<le> x + period) \<and> \<not> ?s \<le> h) hits)"
      unfolding hits_in_def by (rule length_filter_split)
    also have "\<dots> \<le> length (filter (\<lambda>h. ?s \<le> h) hits) + hits_before (?s - period) ?s hits"
      unfolding hits_before_def
      by (rule add_mono; rule length_filter_le_filter) (use True win(2) in auto)
    finally show ?thesis using True in_window before by (simp add: hits_in_def)
  qed
  moreover have "window_inv limit period now (Some (v\<lparr>w_count := w_count v + 1\<rparr>)) (now # hits) ?s"
    using win room by (auto simp: window_inv_def hits_before_def)
  ultimately show ?thesis using inv t win by (auto simp: limiter_inv_def)
qed

text \<open>
  The limiter holds its promise between windows too: in every run of calls, in any span as long as
  the period at most twice the limit are allowed for one caller, whatever the other callers do.
\<close>

theorem at_most_twice_the_limit:
  assumes "sorted_wrt (\<ge>) (map fst calls)" "0 \<le> period"
  shows "hits_in x (x + period) (snd (memory_run limit period key calls)) \<le> 2 * limit"
proof -
  have "\<forall>t. (\<forall>c \<in> set calls. fst c \<le> t) \<longrightarrow>
     limiter_inv limit period t (ml_windows (fst (memory_run limit period key calls)) key) (snd (memory_run limit period key calls))"
    using assms(1)
  proof (induction calls)
    case Nil
    show ?case by (simp add: limiter_inv_def NewMemory_def hits_in_def)
  next
    case (Cons c calls)
    obtain now k where c: "c = (now, k)" by fastforce
    obtain m hits where run: "memory_run limit period key calls = (m, hits)" by fastforce
    have inv: "limiter_inv limit period now (ml_windows m key) hits"
      using Cons c run by auto
    define w' where "w' = ml_windows (scan period now m) key"
    have w': "w' = ml_windows m key \<or> (\<exists>v. ml_windows m key = Some v \<and> over period now v \<and> w' = None)"
      by (auto simp: w'_def scan_def split: option.splits)
    define v where "v = (case w' of Some v \<Rightarrow> if over period now v then \<lparr>w_count = 0, w_start = now\<rparr> else v
               | None \<Rightarrow> \<lparr>w_count = 0, w_start = now\<rparr>)"
    have win: "window_inv limit period now (Some v) hits (w_start v)" "w_start v \<le> now" "now \<le> w_start v + period"
      using open_window [OF inv order_refl assms(2) w'] by (auto simp: v_def)
    have later: "limiter_inv limit period t (ml_windows (fst (memory_run limit period key (c # calls))) key)
        (snd (memory_run limit period key (c # calls)))" if "now \<le> t" for t
    proof (cases "k = key")
      case True
      show ?thesis
      proof (cases "w_count v \<ge> limit")
        case full: True
        then have "memory_run limit period key (c # calls) = ((scan period now m)\<lparr>ml_windows := (ml_windows (scan period now m))(key \<mapsto> v)\<rparr>, hits)"
          using True by (simp add: c run memory_Allow_def Let_def v_def w'_def)
        then show ?thesis using inv win that by (fastforce simp: limiter_inv_def window_inv_def)
      next
        case False
        then have "memory_run limit period key (c # calls) =
            ((scan period now m)\<lparr>ml_windows := (ml_windows (scan period now m))(key \<mapsto> v\<lparr>w_count := w_count v + 1\<rparr>)\<rparr>, now # hits)"
          using True by (simp add: c run memory_Allow_def Let_def v_def w'_def)
        moreover have "limiter_inv limit period now (Some (v\<lparr>w_count := w_count v + 1\<rparr>)) (now # hits)"
          using count_hit [OF inv order_refl assms(2) win] False by simp
        ultimately show ?thesis using that by (fastforce simp: limiter_inv_def window_inv_def)
      qed
    next
      case False
      then have run': "snd (memory_run limit period key (c # calls)) = hits"
          "ml_windows (fst (memory_run limit period key (c # calls))) key = w'"
        by (auto simp: c run memory_Allow_def Let_def w'_def)
      have "hits = [] \<and> w' = None \<or> (\<exists>start \<le> t. window_inv limit period t w' hits start)"
      proof (cases "ml_windows m key = None \<and> hits = []")
        case True with w' show ?thesis by auto
      next
        case False
        with inv obtain start where s: "start \<le> now" "window_inv limit period now (ml_windows m key) hits start"
          by (auto simp: limiter_inv_def)
        have "window_inv limit period t w' hits start"
          using s(2) w' that by (auto simp: window_inv_def over_def split: option.splits)
        then show ?thesis using s(1) that by auto
      qed
      then show ?thesis using inv that by (auto simp: run' limiter_inv_def)
    qed
    show ?case using later c by simp
  qed
  moreover obtain t where "\<forall>c \<in> set calls. fst c \<le> t"
  proof -
    have "\<forall>c \<in> set calls. fst c \<le> (if calls = [] then 0 else Max (fst ` set calls))"
      by auto
    then show ?thesis using that by blast
  qed
  ultimately show ?thesis by (simp add: limiter_inv_def)
qed

theorem at_most_twice_the_limit_witness:
  "hits_in 0 60 (snd (memory_run 1 60 ''a'' [(61, ''a''), (30, ''a''), (0, ''a'')])) \<le> 2 \<and>
   snd (memory_run 1 60 ''a'' [(61, ''a''), (30, ''a''), (0, ''a'')]) = [61, 0]"
  using at_most_twice_the_limit [of "[(61, ''a''), (30, ''a''), (0, ''a'')]" 60 0 1 "''a''"]
  by (simp add: memory_Allow_def scan_def NewMemory_def over_def Let_def)


section \<open>In Redis\<close>

text \<open>
  The counters \<^verbatim>\<open>rl:{name}:{caller}:{window index}\<close> with their expiry, in milliseconds of one clock.
  \<open>script\<close> is the Lua script, which Redis runs atomically; its numbers are doubles, read here as
  rationals: \<open>estimate\<close> is \<^verbatim>\<open>count * window\<close>.
\<close>

type_synonym counters = "string \<times> int \<Rightarrow> (nat \<times> int) option"

definition GET :: "int \<Rightarrow> string \<times> int \<Rightarrow> counters \<Rightarrow> nat" where
  "GET now k c = (case c k of Some (n, ex) \<Rightarrow> if now < ex then n else 0 | None \<Rightarrow> 0)"

definition estimate :: "nat \<Rightarrow> nat \<Rightarrow> int \<Rightarrow> int \<Rightarrow> int" where
  "estimate prev cur window elapsed = int prev * (window - elapsed) + int cur * window"

definition script :: "int \<Rightarrow> string \<times> int \<Rightarrow> string \<times> int \<Rightarrow> nat \<Rightarrow> int \<Rightarrow> int \<Rightarrow> counters \<Rightarrow> (bool \<times> int) \<times> counters" where
  "script now cur_key prev_key limit window elapsed c =
     (let cur = GET now cur_key c; prev = GET now prev_key c in
      if estimate prev cur window elapsed \<ge> int limit * window then ((False, 0), c)
      else ((True, (int limit * window - estimate prev cur window elapsed - window) div window),
            c(cur_key \<mapsto> (cur + 1, now + window * 2))))"

definition redis_Allow :: "nat \<Rightarrow> int \<Rightarrow> int \<Rightarrow> string \<Rightarrow> counters \<Rightarrow> Result \<times> counters" where
  "redis_Allow limit winMs nowMs key c =
     (let idx = nowMs div winMs in
      case script nowMs (key, idx) (key, idx - 1) limit winMs (nowMs mod winMs) c of
        ((ok, left), c') \<Rightarrow> (\<lparr>Allowed = ok, Remaining = left, Limit = int limit,
          RetryAfter = (if ok then 0 else (winMs - nowMs mod winMs) * millisecond)\<rparr>, c'))"

fun redis_run :: "nat \<Rightarrow> int \<Rightarrow> string \<Rightarrow> (int \<times> string) list \<Rightarrow> counters \<times> int list" where
  "redis_run limit w key [] = (Map.empty, [])"
| "redis_run limit w key ((now, k) # calls) =
     (case redis_run limit w key calls of (c, hits) \<Rightarrow>
        (case redis_Allow limit w now k c of (r, c') \<Rightarrow>
           (c', if k = key \<and> Allowed r then now # hits else hits)))"

definition bucket :: "int \<Rightarrow> int \<Rightarrow> int list \<Rightarrow> nat" where
  "bucket w idx hits = length (filter (\<lambda>h. h div w = idx) hits)"

text \<open>
  Each hit (latest first) found less than the limit before it: those of its window, and those of the window
  before weighted by how much of a sliding window still covers it.
\<close>

fun sliding_ok :: "nat \<Rightarrow> int \<Rightarrow> int list \<Rightarrow> bool" where
  "sliding_ok limit w [] = True"
| "sliding_ok limit w (h # hs) \<longleftrightarrow>
     int (bucket w (h div w - 1) hs) * (w - h mod w) + int (bucket w (h div w) hs) * w < int limit * w \<and>
     sliding_ok limit w hs"

definition counters_inv :: "int \<Rightarrow> string \<Rightarrow> int \<Rightarrow> counters \<Rightarrow> int list \<Rightarrow> bool" where
  "counters_inv w key now c hits \<longleftrightarrow> (\<forall>h \<in> set hits. h \<le> now) \<and>
     (\<forall>idx. case c (key, idx) of None \<Rightarrow> bucket w idx hits = 0
        | Some (n, ex) \<Rightarrow> n = bucket w idx hits \<and> (idx + 2) * w \<le> ex)"

lemma bucket_Cons: "bucket w idx (h # hs) = (if h div w = idx then Suc (bucket w idx hs) else bucket w idx hs)"
  by (simp add: bucket_def)

lemma GET_bucket:
  assumes "counters_inv w key t c hits" "0 < w" "now < (idx + 2) * w"
  shows "GET now (key, idx) c = bucket w idx hits"
  using assms by (auto simp: counters_inv_def GET_def split: option.splits dest!: spec [of _ idx])

text \<open>
  The shared limiter slides: in every run of calls each allowed request of a caller found less than
  the limit in the sliding window, counting the previous window's requests by their remaining share;
  the counters never expire while they count.
\<close>

theorem redis_limiter_slides:
  assumes "sorted_wrt (\<ge>) (map fst calls)" "0 < w" "\<forall>c \<in> set calls. 0 \<le> fst c"
  shows "sliding_ok limit w (snd (redis_run limit w key calls))"
proof -
  have "(\<forall>t. (\<forall>c \<in> set calls. fst c \<le> t) \<longrightarrow>
      counters_inv w key t (fst (redis_run limit w key calls)) (snd (redis_run limit w key calls))) \<and>
    sliding_ok limit w (snd (redis_run limit w key calls))"
    using assms(1)
  proof (induction calls)
    case (Cons x calls)
    obtain now k where x: "x = (now, k)" by fastforce
    obtain c hits where run: "redis_run limit w key calls = (c, hits)" by fastforce
    have inv: "counters_inv w key now c hits" and ok: "sliding_ok limit w hits" using Cons x run by auto
    let ?i = "now div w"
    have e: "?i * w + now mod w = now" "(?i + 1) * w = ?i * w + w" by (simp_all add: distrib_right)
    have m: "0 \<le> now mod w" "now mod w < w" using assms(2) by simp_all
    have now: "now < (?i + 1) * w" "?i * w \<le> now" using e m by linarith+
    have cur: "GET now (key, ?i) c = bucket w ?i hits"
      by (rule GET_bucket [OF inv assms(2)]) (use now assms(2) in \<open>simp add: distrib_right\<close>)
    have prev: "GET now (key, ?i - 1) c = bucket w (?i - 1) hits"
      by (rule GET_bucket [OF inv assms(2)]) (use now in \<open>simp add: algebra_simps\<close>)
    have later: "counters_inv w key n c hits \<Longrightarrow> n \<le> t \<Longrightarrow> counters_inv w key t c hits" for n t c hits
      unfolding counters_inv_def by (meson order_trans)
    consider (other) "k \<noteq> key" | (denied) "k = key" "estimate (bucket w (?i - 1) hits) (bucket w ?i hits) w (now mod w) \<ge> int limit * w"
      | (allowed) "k = key" "estimate (bucket w (?i - 1) hits) (bucket w ?i hits) w (now mod w) < int limit * w"
      by linarith
    then show ?case
    proof cases
      case other
      have "snd (redis_run limit w key (x # calls)) = hits"
        "fst (redis_run limit w key (x # calls)) (key, idx) = c (key, idx)" for idx
        using other by (auto simp: x run redis_Allow_def script_def Let_def split: if_splits)
      then have "counters_inv w key now (fst (redis_run limit w key (x # calls))) (snd (redis_run limit w key (x # calls)))"
        using inv by (simp add: counters_inv_def)
      then show ?thesis using ok \<open>snd (redis_run limit w key (x # calls)) = hits\<close> later x by auto
    next
      case denied
      then have "redis_run limit w key (x # calls) = (c, hits)"
        by (simp add: x run redis_Allow_def script_def Let_def cur prev)
      then show ?thesis using inv ok later x by (metis (no_types, lifting) fst_conv list.set_intros(1) snd_conv)
    next
      case allowed
      then have run': "redis_run limit w key (x # calls) = (c((key, ?i) \<mapsto> (bucket w ?i hits + 1, now + w * 2)), now # hits)"
        by (simp add: x run redis_Allow_def script_def Let_def cur prev)
      have "counters_inv w key now (c((key, ?i) \<mapsto> (bucket w ?i hits + 1, now + w * 2))) (now # hits)"
        unfolding counters_inv_def
      proof (intro conjI allI)
        show "\<forall>h \<in> set (now # hits). h \<le> now" using inv by (simp add: counters_inv_def)
        fix idx
        have "case c (key, idx) of None \<Rightarrow> bucket w idx hits = 0
          | Some (n, ex) \<Rightarrow> n = bucket w idx hits \<and> (idx + 2) * w \<le> ex"
          using inv unfolding counters_inv_def by blast
        then show "case (c((key, ?i) \<mapsto> (bucket w ?i hits + 1, now + w * 2))) (key, idx) of None \<Rightarrow> bucket w idx (now # hits) = 0
          | Some (n, ex) \<Rightarrow> n = bucket w idx (now # hits) \<and> (idx + 2) * w \<le> ex"
          using now by (auto simp: bucket_Cons distrib_right split: option.splits)
      qed
      then have "\<forall>t. now \<le> t \<longrightarrow> counters_inv w key t (c((key, ?i) \<mapsto> (bucket w ?i hits + 1, now + w * 2))) (now # hits)"
        using later by blast
      moreover have "sliding_ok limit w (now # hits)" using allowed ok by (simp add: estimate_def)
      ultimately show ?thesis unfolding run' fst_conv snd_conv using x by (metis fst_conv list.set_intros(1))
    qed
  qed (simp add: counters_inv_def bucket_def)
  then show ?thesis by simp
qed

theorem redis_limiter_slides_witness:
  "sliding_ok 2 60 (snd (redis_run 2 60 ''a'' [(65, ''a''), (59, ''a''), (58, ''a''), (57, ''a'')])) \<and>
   snd (redis_run 2 60 ''a'' [(65, ''a''), (59, ''a''), (58, ''a''), (57, ''a'')]) = [65, 58, 57]"
  using redis_limiter_slides [of "[(65, ''a''), (59, ''a''), (58, ''a''), (57, ''a'')]" 60 2 "''a''"]
  by (simp add: redis_Allow_def script_def GET_def estimate_def Let_def)

text \<open>
  The advised time to retry is too early: at the end of the window in which the limit was reached, the full
  weight of that window still counts.
\<close>

lemma retry_after_is_denied:
  assumes "GET now (key, idx - 1) c = limit" "now = idx * w" "0 < w"
  shows "\<not> Allowed (fst (redis_Allow limit w now key c))"
  using assms by (simp add: redis_Allow_def script_def estimate_def Let_def)

section \<open>The middleware\<close>

text \<open>
  \<^verbatim>\<open>limitKeyForIP\<close>: an IPv6 address counts by its network of 64 bits. An address is \<^verbatim>\<open>net.ParseIP\<close>'s
  result; \<open>text\<close> writes one.
\<close>

datatype ip = V4 "32 word" | V6 "128 word"

definition limitKeyForIP :: "(string \<Rightarrow> ip option) \<Rightarrow> (128 word \<Rightarrow> string) \<Rightarrow> string \<Rightarrow> string" where
  "limitKeyForIP ParseIP text s =
     (case ParseIP s of
        Some (V6 a) \<Rightarrow> text (of_nat (unat a div 2 ^ 64 * 2 ^ 64)) @ ''/64''
      | _ \<Rightarrow> s)"

text \<open>The caller: the user, else the client's address, else the peer's host.\<close>

definition ClientKey :: "(string \<Rightarrow> ip option) \<Rightarrow> (128 word \<Rightarrow> string) \<Rightarrow> (uuid \<Rightarrow> string) \<Rightarrow> uuid option \<Rightarrow> string \<Rightarrow> string option \<Rightarrow> string \<Rightarrow> string" where
  "ClientKey ParseIP text uuid_text user clientIP host remote =
     (case reqctx_User user of
        Some u \<Rightarrow> ''user:'' @ uuid_text u
      | None \<Rightarrow>
          if clientIP \<noteq> [] then ''ip:'' @ limitKeyForIP ParseIP text clientIP
          else ''ip:'' @ (case host of Some h \<Rightarrow> h | None \<Rightarrow> remote))"

text \<open>\<^verbatim>\<open>Middleware\<close>: the answer, or the request goes on. \<open>None\<close>: the limiter failed.\<close>

definition limit_Middleware :: "Result option \<Rightarrow> 'b resp option" where
  "limit_Middleware res =
     (case res of
        None \<Rightarrow> None
      | Some r \<Rightarrow> if \<not> Allowed r then Some (Error StatusTooManyRequests ''too many requests, please try again later'') else None)"

end
