(* ===== verification/Groups_HTTP.thy ===== *)
theory Groups_HTTP
  imports Groups_Outside Http "HOL-Library.Sublist"
begin

text \<open>
  \<^verbatim>\<open>internal/groups/handler.go\<close>: the group endpoints. A handler gets the user the context
  carries, the path parameters (\<open>None\<close>: not a UUID), the decoded body (\<open>None\<close>: it does not
  decode) and answers with a status and a body. Then what the search and the invite
  endpoints tell a client.
\<close>

section \<open>Handlers\<close>

definition StatusRequestEntityTooLarge :: int where "StatusRequestEntityTooLarge = 413"
definition StatusNotModified :: int where "StatusNotModified = 304"

fun group_err_text :: "group_err \<Rightarrow> string" where
  "group_err_text ErrNotFoundGroup = ''group not found''"
| "group_err_text ErrGroupFull = ''group full''"
| "group_err_text ErrAlreadyMember = ''already a member''"
| "group_err_text ErrNotMember = ''not a member''"
| "group_err_text ErrInvalidGroupReq = ''group_name must be 1-30 characters, description at most 1000, max_mems 2-1000, visibility \"private\" or \"public\"''"
| "group_err_text ErrNoPermission = ''you don'' @ [CHR 0x27] @ ''t have permission to do this''"
| "group_err_text ErrKickSelf = ''you can'' @ [CHR 0x27] @ ''t remove yourself; leave the group instead''"
| "group_err_text ErrCantRemoveAdmin = ''the group admin can'' @ [CHR 0x27] @ ''t be removed''"
| "group_err_text ErrAlreadyAdmin = ''that member is already the admin''"
| "group_err_text ErrNothingToUpdate = ''send group_name, description and/or visibility''"
| "group_err_text ErrInvalidGroupInfo = ''group_name must be 1-30 characters, description at most 1000, visibility \"private\" or \"public\"''"
| "group_err_text ErrNotFriend = ''you can only add your friends''"
| "group_err_text ErrNoAvatar = ''no group picture''"
| "group_err_text ErrBadRole = ''role must be \"moderator\" or \"member\"; permissions from add_members, remove_members, delete_messages, edit_info, manage_invite''"
| "group_err_text ErrSelfRole = ''you can'' @ [CHR 0x27] @ ''t change your own role''"
| "group_err_text ErrBadSearch = ''q must be 2-30 characters''"
| "group_err_text ErrInvalidInviteCode = ''invalid invite code''"
| "group_err_text ErrBadImage = ''upload a JPEG, PNG or WebP image''"
| "group_err_text ErrImageTooLarge = ''image is too large (at most 5 MB and 40 megapixels)''"

definition writeGroupError :: "group_err fail \<Rightarrow> 'b resp" where
  "writeGroupError err = (case err of
     Sentinel x \<Rightarrow>
       if x \<in> {ErrNotFoundGroup, ErrNoAvatar} then Error StatusNotFound (group_err_text x)
       else if x \<in> {ErrAlreadyMember, ErrGroupFull} then Error StatusConflict (group_err_text x)
       else if x \<in> {ErrNotMember, ErrInvalidGroupReq, ErrKickSelf, ErrAlreadyAdmin, ErrNothingToUpdate,
           ErrInvalidGroupInfo, ErrBadRole, ErrSelfRole, ErrBadSearch}
         then Error StatusBadRequest (group_err_text x)
       else if x = ErrBadImage then Error StatusBadRequest (group_err_text x)
       else if x = ErrImageTooLarge then Error StatusRequestEntityTooLarge (group_err_text x)
       else if x = ErrInvalidInviteCode then Error StatusNotFound ''invalid invite code''
       else if x \<in> {ErrNoPermission, ErrNotFriend, ErrCantRemoveAdmin}
         then Error StatusForbidden (group_err_text x)
       else ServerError
   | DbFail _ \<Rightarrow> ServerError)"

type_synonym 'b groups_answer = "'b resp \<times> gsys \<times> effect list"

text \<open>The shape most handlers share: an error, or the answer to success.\<close>

definition answer :: "('a \<Rightarrow> 'b resp) \<Rightarrow> 'a groups_result \<Rightarrow> 'b groups_answer" where
  "answer ok r = (case r of (Inl err, s, es) \<Rightarrow> (writeGroupError err, s, es) | (Inr x, s, es) \<Rightarrow> (ok x, s, es))"

definition noContent :: "'a \<Rightarrow> 'b resp" where
  "noContent _ = WriteHeader StatusNoContent"

definition CreateGroupHandler :: "group_env \<Rightarrow> uuid option \<Rightarrow> createGroupRequest option \<Rightarrow> gsys \<Rightarrow> uuid groups_answer" where
  "CreateGroupHandler e ctx body s =
     (case body of None \<Rightarrow> (Error StatusBadRequest ''invalid parameters'', s, [])
      | Some params \<Rightarrow>
          (case reqctx_User ctx of None \<Rightarrow> (unauthorized, s, [])
           | Some creator \<Rightarrow> answer (JSON StatusCreated) (svc_CreateGroup e creator params s)))"

text \<open>\<open>successor\<close>: the query parameter, \<open>Some None\<close> when it is not a UUID.\<close>

definition LeaveGroupHandler :: "group_env \<Rightarrow> uuid option \<Rightarrow> uuid option \<Rightarrow> uuid option option \<Rightarrow> gsys \<Rightarrow> unit groups_answer" where
  "LeaveGroupHandler e ctx path successor s =
     (case path of None \<Rightarrow> (Error StatusBadRequest ''invalid group id'', s, [])
      | Some gid \<Rightarrow>
          (case reqctx_User ctx of None \<Rightarrow> (unauthorized, s, [])
           | Some uid \<Rightarrow>
               (case successor of
                  Some None \<Rightarrow> (Error StatusBadRequest ''successor must be a user id'', s, [])
                | Some (Some succ) \<Rightarrow> answer noContent (svc_LeaveGroup e gid uid succ s)
                | None \<Rightarrow> answer noContent (svc_LeaveGroup e gid uid Nil_uuid s))))"

definition MyGroupsHandler :: "group_env \<Rightarrow> uuid option \<Rightarrow> gsys \<Rightarrow> GroupSummary list resp" where
  "MyGroupsHandler e ctx s =
     (case reqctx_User ctx of None \<Rightarrow> unauthorized
      | Some uid \<Rightarrow> (case svc_MyGroups e uid s of Inl err \<Rightarrow> writeGroupError err | Inr l \<Rightarrow> JSON StatusOK l))"

definition DetailHandler :: "group_env \<Rightarrow> uuid option \<Rightarrow> uuid option \<Rightarrow> gsys \<Rightarrow> GroupDetail resp" where
  "DetailHandler e ctx path s =
     (case path of None \<Rightarrow> Error StatusBadRequest ''invalid group id''
      | Some gid \<Rightarrow>
          (case reqctx_User ctx of None \<Rightarrow> unauthorized
           | Some uid \<Rightarrow> (case svc_GroupDetail e gid uid s of Inl err \<Rightarrow> writeGroupError err | Inr d \<Rightarrow> JSON StatusOK d)))"

text \<open>Both invite endpoints answer an unknown group like a malformed code.\<close>

definition invite_err :: "group_err fail \<Rightarrow> group_err fail" where
  "invite_err err = (if err = Sentinel ErrNotFoundGroup then Sentinel ErrInvalidInviteCode else err)"

definition JoinByInviteHandler :: "group_env \<Rightarrow> uuid option \<Rightarrow> string option \<Rightarrow> gsys \<Rightarrow> uuid groups_answer" where
  "JoinByInviteHandler e ctx body s =
     (case reqctx_User ctx of None \<Rightarrow> (unauthorized, s, [])
      | Some uid \<Rightarrow>
          (case body of None \<Rightarrow> (Error StatusBadRequest ''invalid parameters'', s, [])
           | Some raw \<Rightarrow>
               (case svc_JoinByInvite e uid raw s of
                  (Inl err, s', es) \<Rightarrow> (writeGroupError (invite_err err), s', es)
                | (Inr gid, s', es) \<Rightarrow> (JSON StatusCreated gid, s', es))))"

definition PreviewInviteHandler :: "group_env \<Rightarrow> string \<Rightarrow> gsys \<Rightarrow> GroupPreview resp" where
  "PreviewInviteHandler e raw s =
     (case svc_PreviewInvite e raw s of Inl err \<Rightarrow> writeGroupError (invite_err err) | Inr p \<Rightarrow> JSON StatusOK p)"

text \<open>\<^verbatim>\<open>groupAction\<close>: the caller and the group id, for the handlers below.\<close>

definition groupAction :: "uuid option \<Rightarrow> uuid option \<Rightarrow> 'b resp + uuid \<times> uuid" where
  "groupAction ctx path =
     (case path of None \<Rightarrow> Inl (Error StatusBadRequest ''invalid group id'')
      | Some gid \<Rightarrow>
          (case reqctx_User ctx of None \<Rightarrow> Inl unauthorized | Some me \<Rightarrow> Inr (gid, me)))"

definition on_group :: "uuid option \<Rightarrow> uuid option \<Rightarrow> gsys \<Rightarrow> (uuid \<Rightarrow> uuid \<Rightarrow> 'b groups_answer) \<Rightarrow> 'b groups_answer" where
  "on_group ctx path s k = (case groupAction ctx path of Inl r \<Rightarrow> (r, s, []) | Inr (gid, me) \<Rightarrow> k gid me)"

definition InviteCodeHandler :: "group_env \<Rightarrow> uuid option \<Rightarrow> uuid option \<Rightarrow> gsys \<Rightarrow> string groups_answer" where
  "InviteCodeHandler e ctx path s = on_group ctx path s (\<lambda>gid me.
     case svc_InviteCode e gid me s of (r, s') \<Rightarrow> answer (JSON StatusOK) (r, s', []))"

definition RegenerateInviteHandler :: "group_env \<Rightarrow> uuid option \<Rightarrow> uuid option \<Rightarrow> gsys \<Rightarrow> string groups_answer" where
  "RegenerateInviteHandler e ctx path s = on_group ctx path s (\<lambda>gid me.
     answer (JSON StatusOK) (svc_RegenerateInvite e gid me s))"

definition UpdateGroupHandler :: "group_env \<Rightarrow> uuid option \<Rightarrow> uuid option \<Rightarrow> updateGroupRequest option \<Rightarrow> gsys \<Rightarrow> GroupPreview groups_answer" where
  "UpdateGroupHandler e ctx path body s = on_group ctx path s (\<lambda>gid me.
     case body of None \<Rightarrow> (Error StatusBadRequest ''invalid parameters'', s, [])
     | Some req \<Rightarrow> answer (JSON StatusOK) (svc_Update e gid me req s))"

definition DeleteGroupHandler :: "group_env \<Rightarrow> uuid option \<Rightarrow> uuid option \<Rightarrow> gsys \<Rightarrow> unit groups_answer" where
  "DeleteGroupHandler e ctx path s = on_group ctx path s (\<lambda>gid me. answer noContent (svc_Delete e gid me s))"

definition KickMemberHandler :: "group_env \<Rightarrow> uuid option \<Rightarrow> uuid option \<Rightarrow> uuid option \<Rightarrow> gsys \<Rightarrow> unit groups_answer" where
  "KickMemberHandler e ctx path user s = on_group ctx path s (\<lambda>gid me.
     case user of None \<Rightarrow> (Error StatusBadRequest ''invalid user id'', s, [])
     | Some target \<Rightarrow> answer noContent (svc_Kick e gid me target s))"

definition TransferAdminHandler :: "group_env \<Rightarrow> uuid option \<Rightarrow> uuid option \<Rightarrow> uuid option \<Rightarrow> gsys \<Rightarrow> unit groups_answer" where
  "TransferAdminHandler e ctx path body s = on_group ctx path s (\<lambda>gid me.
     case body of None \<Rightarrow> (Error StatusBadRequest ''user_id is required'', s, [])
     | Some target \<Rightarrow>
         if target = Nil_uuid then (Error StatusBadRequest ''user_id is required'', s, [])
         else answer noContent (svc_TransferAdmin e gid me target s))"

definition AddMemberHandler :: "group_env \<Rightarrow> uuid option \<Rightarrow> uuid option \<Rightarrow> uuid option \<Rightarrow> gsys \<Rightarrow> unit groups_answer" where
  "AddMemberHandler e ctx path body s = on_group ctx path s (\<lambda>gid me.
     case body of None \<Rightarrow> (Error StatusBadRequest ''user_id is required'', s, [])
     | Some target \<Rightarrow>
         if target = Nil_uuid then (Error StatusBadRequest ''user_id is required'', s, [])
         else answer (\<lambda>_. WriteHeader StatusCreated) (svc_AddFriend e gid me target s))"

text \<open>
  The upload is read up to \<^verbatim>\<open>users.MaxAvatarUpload\<close> bytes: \<open>None\<close> is a body that could not be
  read, and a longer one is refused.
\<close>

definition MaxAvatarUpload :: nat where "MaxAvatarUpload = 5 * 2 ^ 20"

definition UploadAvatarHandler :: "group_env \<Rightarrow> uuid option \<Rightarrow> uuid option \<Rightarrow> bytes option \<Rightarrow> gsys \<Rightarrow>
    group_avatar_url option groups_answer" where
  "UploadAvatarHandler e ctx path body s = on_group ctx path s (\<lambda>gid me.
     case body of None \<Rightarrow> (Error StatusBadRequest ''could not read the upload'', s, [])
     | Some raw \<Rightarrow>
         if length raw > MaxAvatarUpload
         then (Error StatusRequestEntityTooLarge (group_err_text ErrImageTooLarge), s, [])
         else answer (JSON StatusOK) (svc_SetAvatar e gid me raw s))"

definition DeleteAvatarHandler :: "group_env \<Rightarrow> uuid option \<Rightarrow> uuid option \<Rightarrow> gsys \<Rightarrow> unit groups_answer" where
  "DeleteAvatarHandler e ctx path s = on_group ctx path s (\<lambda>gid me. answer noContent (svc_DeleteAvatar e gid me s))"

text \<open>\<open>etags\<close> is the quoted decimal form of a time in milliseconds, \<open>ifNone\<close> the request's header.\<close>

definition AvatarHandler :: "group_env \<Rightarrow> (int \<Rightarrow> string) \<Rightarrow> uuid option \<Rightarrow> uuid option \<Rightarrow> string \<Rightarrow> gsys \<Rightarrow> bytes resp" where
  "AvatarHandler e etags ctx path ifNone s =
     (case groupAction ctx path of Inl r \<Rightarrow> r
      | Inr (gid, me) \<Rightarrow>
          (case svc_Avatar e gid me s of Inl err \<Rightarrow> writeGroupError err
           | Inr (img, at) \<Rightarrow>
               if ifNone = etags (at div millisecond) then WriteHeader StatusNotModified else JSON StatusOK img))"

definition SetRoleHandler :: "group_env \<Rightarrow> uuid option \<Rightarrow> uuid option \<Rightarrow> uuid option \<Rightarrow> roleRequest option \<Rightarrow> gsys \<Rightarrow> unit groups_answer" where
  "SetRoleHandler e ctx path user body s = on_group ctx path s (\<lambda>gid me.
     case user of None \<Rightarrow> (Error StatusBadRequest ''invalid user id'', s, [])
     | Some target \<Rightarrow>
         (case body of None \<Rightarrow> (Error StatusBadRequest (group_err_text ErrBadRole), s, [])
          | Some req \<Rightarrow> answer noContent (svc_SetRole e gid me target req s)))"

definition JoinPublicHandler :: "group_env \<Rightarrow> uuid option \<Rightarrow> uuid option \<Rightarrow> gsys \<Rightarrow> uuid groups_answer" where
  "JoinPublicHandler e ctx path s = on_group ctx path s (\<lambda>gid me.
     answer (\<lambda>_. JSON StatusCreated gid) (svc_JoinPublic e gid me s))"

definition SearchHandler :: "group_env \<Rightarrow> uuid option \<Rightarrow> string \<Rightarrow> gsys \<Rightarrow> GroupPreview list resp" where
  "SearchHandler e ctx q s =
     (case reqctx_User ctx of None \<Rightarrow> unauthorized
      | Some me \<Rightarrow> (case svc_Search e me q s of Inl err \<Rightarrow> writeGroupError err | Inr l \<Rightarrow> JSON StatusOK l))"

section \<open>Searching matches literally\<close>

lemma set_tails: "t \<in> set (tails xs) \<longleftrightarrow> suffix t xs"
  by (induction xs) (auto simp: suffix_Cons)

lemma like_pattern_escape: "like_pattern (escapeLike q @ r) = map Literal q @ like_pattern r"
  by (induction q) auto

lemma like_literals: "like_tokens (map Literal q @ ts) s \<longleftrightarrow> (\<exists>t. s = q @ t \<and> like_tokens ts t)"
  by (induction q arbitrary: s) (auto split: list.splits)

lemma like_any: "like_tokens [AnyString] s"
  by (auto simp: list_ex_iff set_tails intro: bexI [of _ "[]"])

lemma like_contains: "like s (''%'' @ escapeLike q @ ''%'') \<longleftrightarrow> sublist q s"
proof -
  have "like_pattern (''%'' @ escapeLike q @ ''%'') = AnyString # map Literal q @ [AnyString]"
    by (simp add: like_pattern_escape)
  then have "like s (''%'' @ escapeLike q @ ''%'') \<longleftrightarrow> (\<exists>t. suffix t s \<and> (\<exists>u. t = q @ u))"
    using like_any by (simp only: like_def like_tokens.simps list_ex_iff like_literals set_tails Bex_def) blast
  also have "\<dots> \<longleftrightarrow> sublist q s" by (auto simp: suffix_def sublist_def)
  finally show ?thesis .
qed

lemma like_starts: "like s (escapeLike q @ ''%'') \<longleftrightarrow> prefix q s"
  using like_any by (simp add: like_def like_pattern_escape like_literals prefix_def)

definition matching :: "(string \<Rightarrow> string) \<Rightarrow> string \<Rightarrow> db \<Rightarrow> chat_group list" where
  "matching lower q d = filter (\<lambda>g. g_visibility g = Public \<and> sublist q (lower (g_name g))) (chat_groups d)"

lemma SearchPublicGroups_matching:
  "map (g_id \<circ> fst) (SearchPublicGroups lower v (escapeLike q) d) = take 20 (map g_id
     (sort_key (\<lambda>g. if prefix q (lower (g_name g)) then 0 else 1 :: nat)
       (sort_key (\<lambda>g. - g_current_member g) (sort_key g_id (matching lower q d)))))"
  by (simp add: SearchPublicGroups_def matching_def like_starts like_contains [simplified] take_map comp_def)

lemma Search_result:
  assumes "svc_Search e v q0 s = Inr ps"
  shows "\<exists>rows :: chat_group list. mset rows = mset (matching (ge_pglower e) (ge_ToLower e (TrimSpace q0)) (gy_db s)) \<and>
    map gp_ID ps = take 20 (map g_id rows)"
proof (intro exI conjI)
  let ?q = "ge_ToLower e (TrimSpace q0)"
  let ?rows = "sort_key (\<lambda>g. if prefix ?q (ge_pglower e (g_name g)) then 0 else 1 :: nat)
       (sort_key (\<lambda>g. - g_current_member g) (sort_key g_id (matching (ge_pglower e) ?q (gy_db s))))"
  show "mset ?rows = mset (matching (ge_pglower e) ?q (gy_db s))" by simp
  have "map gp_ID ps = map (g_id \<circ> fst) (SearchPublicGroups (ge_pglower e) v (escapeLike ?q) (gy_db s))"
    using assms by (auto simp: svc_Search_def Let_def repo_Search_def preview_def split: if_splits)
  then show "map gp_ID ps = take 20 (map g_id ?rows)" by (simp add: SearchPublicGroups_matching)
qed

text \<open>
  Searching groups finds literally what was typed: the wildcards of \<^verbatim>\<open>LIKE\<close> in the query
  have no effect. The result lists public groups only, all of whose names contain the trimmed
  and lower-cased text, and it lists all of them unless there are more than 20.
\<close>

theorem group_search_exact:
  assumes "svc_Search e v q0 s = Inr ps"
  defines "hits \<equiv> matching (ge_pglower e) (ge_ToLower e (TrimSpace q0)) (gy_db s)"
  shows "gp_ID ` set ps \<subseteq> g_id ` set hits \<and> length ps = min 20 (length hits) \<and>
    (length hits \<le> 20 \<longrightarrow> gp_ID ` set ps = g_id ` set hits)"
proof -
  obtain rows :: "chat_group list" where rows: "mset rows = mset hits" "map gp_ID ps = take 20 (map g_id rows)"
    using Search_result [OF assms(1)] unfolding hits_def by blast
  have set: "set rows = set hits" and len: "length rows = length hits"
    using rows(1) mset_eq_setD mset_eq_length by blast+
  have "gp_ID ` set ps = set (take 20 (map g_id rows))"
    using arg_cong [OF rows(2), of set] by simp
  moreover have "length ps = min 20 (length rows)"
    using arg_cong [OF rows(2), of length] by simp
  moreover have "set (take 20 (map g_id rows)) \<subseteq> g_id ` set rows"
    using set_take_subset [of 20 "map g_id rows"] by simp
  ultimately show ?thesis by (auto simp: set len)
qed

definition percent_group :: gsys where
  "percent_group = nowhere\<lparr>gy_db := empty_db\<lparr>chat_groups :=
     [devs\<lparr>g_name := ''100% go'', g_visibility := Public\<rparr>, devs\<lparr>g_id := 8, g_name := ''100 go'', g_visibility := Public\<rparr>]\<rparr>\<rparr>"

theorem group_search_exact_witness:
  "\<exists>ps. svc_Search ((quiet_genv 1)\<lparr>ge_ToLower := \<lambda>x. x, ge_pglower := \<lambda>x. x\<rparr>) 5 '' 0% '' percent_group = Inr ps \<and>
    length ps = 1 \<and> gp_ID ` set ps = {7}"
proof -
  let ?e = "(quiet_genv 1)\<lparr>ge_ToLower := \<lambda>x. x, ge_pglower := \<lambda>x. x\<rparr>"
  have trim: "TrimSpace '' 0% '' = ''0%''"
    by (simp add: TrimSpace_def chunks_ascii_Cons IsSpace_def)
  have count: "RuneCountInString ''0%'' = 2"
    by (simp add: RuneCountInString_def runes_ascii is_ascii_def)
  have hits: "matching (\<lambda>x. x) ''0%'' (gy_db percent_group) = [devs\<lparr>g_name := ''100% go'', g_visibility := Public\<rparr>]"
    by (simp add: matching_def percent_group_def nowhere_def empty_db_def sublist_code devs_def)
  obtain ps where ps: "svc_Search ?e 5 '' 0% '' percent_group = Inr ps"
    by (simp add: svc_Search_def trim count maxGroupNameLen_def repo_Search_def quiet_genv_def)
  from group_search_exact [OF this] have "length ps = 1" "gp_ID ` set ps = {7}"
    by (simp_all add: trim hits) (simp add: devs_def)
  with ps show ?thesis by blast
qed

section \<open>Probing for invite codes\<close>

text \<open>
  Somebody trying out invite codes gets one and the same answer for a text that cannot
  be a code and for a code no group has, from the preview and from joining, and neither
  changes anything.
\<close>

theorem invite_probe_indistinct:
  assumes "reqctx_User ctx = Some u" "\<not> ge_fails e GByCode"
    and "\<forall>g \<in> set (chat_groups (gy_db s)). NormalizeInviteCode raw \<noteq> Some (g_invite_code g)"
  shows "PreviewInviteHandler e raw s = Error 404 ''invalid invite code'' \<and>
    JoinByInviteHandler e ctx (Some raw) s = (Error 404 ''invalid invite code'', s, [])"
proof -
  have "svc_PreviewInvite e raw s \<in> {Inl (Sentinel ErrInvalidInviteCode), Inl (Sentinel ErrNotFoundGroup)}"
    using assms(2,3) by (auto simp: svc_PreviewInvite_def repo_ByInviteCode_def GetGroupByInviteCode_def
        split: option.splits dest!: find_row_Some)
  then show ?thesis using assms(1)
    by (auto simp: PreviewInviteHandler_def JoinByInviteHandler_def svc_JoinByInvite_def invite_err_def
        writeGroupError_def http_status)
qed

theorem invite_probe_indistinct_witness:
  "PreviewInviteHandler (quiet_genv 1) ''nope'' nowhere = Error 404 ''invalid invite code'' \<and>
    JoinByInviteHandler (quiet_genv 1) (Some 3) (Some ''nope'') nowhere = (Error 404 ''invalid invite code'', nowhere, [])"
  by (rule invite_probe_indistinct) (simp_all add: quiet_genv_def nowhere_def empty_db_def)

lemma writeGroupError_500: "code (writeGroupError err) = 500 \<longleftrightarrow> (\<exists>x. err = DbFail x)"
proof (cases err)
  case (Sentinel x)
  then show ?thesis
    by (cases x) (simp_all add: writeGroupError_def http_status StatusRequestEntityTooLarge_def)
qed (simp add: writeGroupError_def)

end
