(* ===== verification/Discover.thy ===== *)
theory Discover
  imports Users
begin

text \<open>
  \<^verbatim>\<open>discover/discover.go\<close>: people one may know, for those who can be found themselves.
\<close>

datatype discover_err = ErrNotDiscoverable | ErrAccountGone

record Suggestion =
  sg_ID :: uuid
  sg_Name :: string
  sg_DisplayName :: string
  sg_AvatarURL :: "avatar_url option"
  sg_Location :: "Place option"
  sg_SharedInterests :: "string list"
  sg_MutualFriends :: nat

definition defaultSuggestions :: nat where "defaultSuggestions = 20"
definition maxSuggestions :: nat where "maxSuggestions = 50"
definition maxPage :: nat where "maxPage = 10"

text \<open>\<open>fls\<close>: whether the lookup of the account and the query fail.\<close>

definition suggestion :: "'place DiscoverSuggestionsRow \<Rightarrow> Suggestion" where
  "suggestion r = \<lparr>sg_ID = ds_ID r, sg_Name = ds_Name r, sg_DisplayName = ShownName (ds_Name r) (ds_DisplayName r),
     sg_AvatarURL = AvatarURLFrom (ds_ID r) (ds_AvatarAt r), sg_Location = PlaceOf (ds_LocationID r),
     sg_SharedInterests = ds_SharedInterests r, sg_MutualFriends = ds_MutualFriends r\<rparr>"

definition Suggestions :: "bool \<times> bool \<Rightarrow> (string \<Rightarrow> string) \<Rightarrow> uuid \<Rightarrow> nat \<Rightarrow> nat \<Rightarrow> users_db \<Rightarrow> discover_err fail + Suggestion list" where
  "Suggestions fls coll me limit page d =
     (if fst fls then Inl (DbFail OtherDb)
      else case find_user me (pd_db d) of
        None \<Rightarrow> Inl (Sentinel ErrAccountGone)
      | Some u \<Rightarrow>
          if \<not> u_discoverable u then Inl (Sentinel ErrNotDiscoverable)
          else (case faulty (snd fls) (DiscoverSuggestions coll me limit (page * limit) d) of
            Inl x \<Rightarrow> Inl (DbFail x)
          | Inr rows \<Rightarrow> Inr (map suggestion rows)))"

text \<open>A number in the query string: absent, or not a number, or its value.\<close>

datatype query_number = Absent | Unreadable | Number int

definition number_in :: "nat \<Rightarrow> nat \<Rightarrow> nat \<Rightarrow> query_number \<Rightarrow> nat option" where
  "number_in def lo hi x = (case x of
     Absent \<Rightarrow> Some def | Unreadable \<Rightarrow> None | Number n \<Rightarrow> if n < int lo \<or> n > int hi then None else Some (nat n))"

definition SuggestHandler ::
    "bool \<times> bool \<Rightarrow> (string \<Rightarrow> string) \<Rightarrow> uuid option \<Rightarrow> query_number \<Rightarrow> query_number \<Rightarrow> users_db \<Rightarrow> Suggestion list resp" where
  "SuggestHandler fls coll ctx limit page d = (case reqctx_User ctx of
     None \<Rightarrow> unauthorized
   | Some me \<Rightarrow> (case number_in defaultSuggestions 1 maxSuggestions limit of
       None \<Rightarrow> Error StatusBadRequest ''limit must be 1-50''
     | Some lim \<Rightarrow> (case number_in 0 0 (maxPage - 1) page of
         None \<Rightarrow> Error StatusBadRequest ''page must be 0-9''
       | Some p \<Rightarrow> (case Suggestions fls coll me lim p d of
           Inr list \<Rightarrow> JSON StatusOK list
         | Inl x \<Rightarrow>
             if x = Sentinel ErrNotDiscoverable
             then Error StatusForbidden ''turn on \"discoverable\" in your profile to see suggestions''
             else if x = Sentinel ErrAccountGone then unauthorized
             else ServerError))))"

definition OptionsHandler :: "Options resp" where
  "OptionsHandler = JSON StatusOK AllOptions"

section \<open>Who is suggested\<close>

lemma ranking_set:
  "set (ranking coll me d) =
     scored coll me d ` {u \<in> set (users (pd_db d)). suggestible (u_id me) d u \<and> matching me u (scored coll me d u)}"
  by (auto simp: ranking_def)

lemma relation_connects:
  assumes "r \<in> set (user_relationships d)" "{ur_user_id r, ur_otherUser_id r} = {me, i}"
  shows "i \<in> set (connected me d)"
proof -
  have "other_side me r = i" "r \<in> set (relations_of me d)"
    using assms by (auto simp: other_side_def relations_of_def doubleton_eq_iff)
  then show ?thesis unfolding connected_def by (metis image_eqI set_map)
qed

lemma sort_desc_sorted: "sorted_wrt (\<lambda>x y. f x \<ge> f y) (sort_key (\<lambda>r. - int (f r)) xs)"
proof -
  have "sorted (map (\<lambda>r. - int (f r)) (sort_key (\<lambda>r. - int (f r)) xs))" by simp
  then show ?thesis unfolding sorted_map by (rule sorted_wrt_mono_rel [rotated]) simp
qed

lemma distinct_map_sort_key: "distinct (map f (sort_key k xs)) \<longleftrightarrow> distinct (map f xs)"
  by (simp add: distinct_map)

lemma concat_pages: "concat (map (\<lambda>p. take n (drop (p * n) xs)) [0..<k]) = take (k * n) xs"
proof (induction k)
  case (Suc k)
  have "take (k * n) xs @ take n (drop (k * n) xs) = take (k * n + n) xs" by (simp add: take_add)
  with Suc show ?case by (simp add: add.commute)
qed simp

lemma scan_rows_Inr: "scan_rows rs = Inr xs \<Longrightarrow> map suggestion xs = map suggestion rs \<and> (\<forall>r \<in> set rs. ds_SamePlace r \<noteq> None)"
  by (induction rs arbitrary: xs) (auto simp: suggestion_def split: option.splits sum.splits)

lemma scan_rows_NULL: "r \<in> set rs \<Longrightarrow> ds_SamePlace r = None \<Longrightarrow> scan_rows rs = Inl OtherDb"
proof (induction rs)
  case (Cons a rs)
  then show ?case by (cases "ds_SamePlace a") auto
qed simp

lemma Suggestions_Inr:
  assumes "Suggestions fls coll me limit page d = Inr xs"
  obtains u where "find_user me (pd_db d) = Some u" "u_discoverable u" "xs = map suggestion (take limit (drop (page * limit) (ranking coll u d)))"
    "\<forall>r \<in> set (take limit (drop (page * limit) (ranking coll u d))). ds_SamePlace r \<noteq> None"
proof -
  obtain u ys where u: "find_user me (pd_db d) = Some u" "u_discoverable u"
      "scan_rows (take limit (drop (page * limit) (ranking coll u d))) = Inr ys" "xs = map suggestion ys"
    using assms by (auto simp: Suggestions_def DiscoverSuggestions_def faulty_def split: if_splits option.splits sum.splits)
  from scan_rows_Inr [OF u(3)] u show ?thesis by (intro that) auto
qed

text \<open>
  Somebody findable without a place gets no suggestions but an internal error, as soon as one of the people on
  the page has a place: the comparison of the places is NULL.
\<close>

lemma no_place_no_suggestions:
  assumes "find_user me (pd_db d) = Some v" "u_discoverable v" "u_location_id v = None"
    and "r \<in> set (take limit (drop (page * limit) (ranking coll v d)))" "ds_LocationID r \<noteq> None"
  shows "Suggestions (False, False) coll me limit page d = Inl (DbFail OtherDb)"
proof -
  from assms(4) have "r \<in> set (ranking coll v d)" by (metis in_set_dropD in_set_takeD)
  with assms(3,5) have "ds_SamePlace r = None" by (auto simp: ranking_set scored_def same_place_def Let_def split: option.splits)
  from scan_rows_NULL [OF assms(4) this] assms(1,2) show ?thesis
    by (simp add: Suggestions_def DiscoverSuggestions_def faulty_def)
qed

text \<open>
  C36: Suggestions name only people who chose to be found, are not banned, have no friendship, request or
  block with the asker, who must be findable too, and who share a friend, an interest or a place with
  the asker; they come in the order of their score, and the pages of one size put together are the
  beginning of one list without anybody twice.
\<close>

theorem suggestions_are_opt_in:
  assumes "key_ok u_id (users (pd_db d))" "\<And>p. p < pages \<Longrightarrow> Suggestions (False, False) coll me limit p d = Inr (page p)" "0 < pages"
  shows "\<exists>v. find_user me (pd_db d) = Some v \<and> u_discoverable v \<and>
    concat (map page [0..<pages]) = map suggestion (take (pages * limit) (ranking coll v d)) \<and>
    distinct (map sg_ID (concat (map page [0..<pages]))) \<and>
    sorted_wrt (\<lambda>x y. ds_Score x \<ge> ds_Score y) (ranking coll v d) \<and>
    (\<forall>x \<in> set (concat (map page [0..<pages])). \<exists>u \<in> set (users (pd_db d)). u_id u = sg_ID x \<and> u_id u \<noteq> me \<and>
       u_discoverable u \<and> u_banned_at u = None \<and>
       \<not> blocks_db (u_id u) me (pd_db d) \<and> \<not> blocks_db me (u_id u) (pd_db d) \<and>
       (\<nexists>r. r \<in> set (user_relationships (pd_db d)) \<and> {ur_user_id r, ur_otherUser_id r} = {me, u_id u}) \<and>
       (sg_MutualFriends x > 0 \<or> sg_SharedInterests x \<noteq> [] \<or> same_place u v = Some True \<or> same_country u v))"
proof -
  obtain v where v: "find_user me (pd_db d) = Some v" "u_discoverable v"
    using Suggestions_Inr [OF assms(2) [OF assms(3)]] by blast
  have id: "u_id v = me" using find_user_Some [OF v(1)] by simp
  have p: "page p = map suggestion (take limit (drop (p * limit) (ranking coll v d)))" if "p < pages" for p
    using Suggestions_Inr [OF assms(2) [OF that]] v(1) by (metis option.inject)
  have "concat (map page [0..<pages]) = concat (map (\<lambda>p. map suggestion (take limit (drop (p * limit) (ranking coll v d)))) [0..<pages])"
    using p by (intro arg_cong [of _ _ concat]) simp
  also have "\<dots> = map suggestion (take (pages * limit) (ranking coll v d))"
    unfolding concat_pages [symmetric] by (simp add: map_concat comp_def)
  finally have all: "concat (map page [0..<pages]) = map suggestion (take (pages * limit) (ranking coll v d))" .
  let ?keep = "\<lambda>u. suggestible (u_id v) d u \<and> matching v u (scored coll v d u)"
  have "map ds_ID (map (scored coll v d) (filter ?keep (users (pd_db d)))) = map u_id (filter ?keep (users (pd_db d)))"
    by (simp add: scored_def Let_def)
  moreover have "distinct (map u_id (filter ?keep (users (pd_db d))))"
    using assms(1) by (simp add: key_ok_def distinct_map_filter)
  ultimately have "distinct (map ds_ID (map (scored coll v d) (filter ?keep (users (pd_db d)))))" by (simp only:)
  then have "distinct (map ds_ID (ranking coll v d))" unfolding ranking_def distinct_map_sort_key .
  then have dist: "distinct (map sg_ID (concat (map page [0..<pages])))"
    unfolding all by (simp add: suggestion_def comp_def distinct_take flip: take_map)
  have "\<exists>u \<in> set (users (pd_db d)). u_id u = sg_ID x \<and> u_id u \<noteq> me \<and>
       u_discoverable u \<and> u_banned_at u = None \<and>
       \<not> blocks_db (u_id u) me (pd_db d) \<and> \<not> blocks_db me (u_id u) (pd_db d) \<and>
       (\<nexists>r. r \<in> set (user_relationships (pd_db d)) \<and> {ur_user_id r, ur_otherUser_id r} = {me, u_id u}) \<and>
       (sg_MutualFriends x > 0 \<or> sg_SharedInterests x \<noteq> [] \<or> same_place u v = Some True \<or> same_country u v)"
    if x: "x \<in> set (concat (map page [0..<pages]))" for x
  proof -
    from x obtain r where "r \<in> set (ranking coll v d)" "x = suggestion r" unfolding all by (auto dest: in_set_takeD)
    then obtain u where u: "u \<in> set (users (pd_db d))" "suggestible me d u" "matching v u (scored coll v d u)" "x = suggestion (scored coll v d u)"
      unfolding ranking_set id by auto
    then show ?thesis
      by (intro bexI [of _ u])
        (auto simp: suggestible_def unblocked_def suggestion_def scored_def matching_def Let_def dest: relation_connects)
  qed
  with v all dist show ?thesis by (auto simp: ranking_def sort_desc_sorted)
qed

text \<open>1 and 2 like chess; 3 does too, but was blocked by 1.\<close>

definition players :: users_db where
  "players = \<lparr>pd_db = empty_db\<lparr>users := map (\<lambda>i. (new_user i ''ann'')\<lparr>u_discoverable := True\<rparr>) [1, 2, 3],
       user_blocks := [\<lparr>ub_blocker_id = 1, ub_blocked_id = 3, ub_created_at = 0\<rparr>]\<rparr>,
     user_avatars = [], user_interests = [(1, ''chess''), (2, ''chess''), (3, ''chess'')]\<rparr>"

theorem suggestions_are_opt_in_witness:
  "\<exists>page :: nat \<Rightarrow> Suggestion list. map sg_ID (page 0) = [2] \<and> distinct (map sg_ID (concat (map page [0..<1])))"
proof -
  let ?r = "Suggestions (False, False) id 1 20 0 players"
  have 1: "\<exists>x. ?r = Inr [x] \<and> sg_ID x = 2"
    by (simp add: Suggestions_def DiscoverSuggestions_def ranking_def players_def empty_db_def new_user_def find_user_def faulty_def
        suggestible_def matching_def scored_def connected_def relations_of_def unblocked_def blocks_db_def exists_row_def blocked_row_def
        mutual_def friends_sql_def shared_interests_sql_def suggestion_def same_place_def Let_def)
  then obtain x where x: "?r = Inr [x]" "sg_ID x = 2" by blast
  have "key_ok u_id (users (pd_db players))" by (simp add: players_def key_ok_def new_user_def)
  from suggestions_are_opt_in [OF this, of 1 id 1 20 "\<lambda>_. [x]"] x(1)
  have "distinct (map sg_ID (concat (map (\<lambda>_. [x]) [0..<1])))" by (metis less_one zero_less_one)
  with x(2) show ?thesis by (intro exI [of _ "\<lambda>_. [x]"]) simp
qed

end
