(* ===== verification/Search.thy ===== *)
theory Search
  imports Groups_HTTP Chat_Read Discover
begin

text \<open>
  \<^verbatim>\<open>search/search.go\<close> with its two statements of \<^verbatim>\<open>database/chat.sql.go\<close>: finding messages. The service is
  given the suspensions of the chat repository, so it runs on the state of chat.
\<close>

datatype search_err = ErrBadQuery | ErrBadParams

definition search_text :: "search_err \<Rightarrow> string" where
  "search_text x = (case x of
     ErrBadQuery \<Rightarrow> ''q must be 3-100 characters (2 when searching one chat)''
   | ErrBadParams \<Rightarrow> ''type must be private or public with chat_id; after and before must be RFC3339 (after earlier than before); limit 1-50'')"

record Hit =
  ht_MessageID :: uuid
  ht_Type :: string
  ht_ChatID :: uuid
  ht_FromID :: uuid
  ht_Content :: string
  ht_CreatedAt :: time

text \<open>A zero time is \<open>None\<close>.\<close>

record Query =
  qy_Q :: string
  qy_Type :: string
  qy_ChatID :: uuid
  qy_Before :: "time option"
  qy_BeforeID :: uuid
  qy_After :: "time option"
  qy_Limit :: int

definition maxHits :: int where "maxHits = 50"
definition maxQuery :: nat where "maxQuery = 100"
definition maxID :: uuid where "maxID = - 1"

section \<open>The statements\<close>

definition newest_first :: "('a \<Rightarrow> time) \<Rightarrow> ('a \<Rightarrow> uuid) \<Rightarrow> 'a list \<Rightarrow> 'a list" where
  "newest_first at i xs = rev (sort_key at (sort_key i xs))"

definition finds :: "(string \<Rightarrow> string) \<Rightarrow> string \<Rightarrow> string option \<Rightarrow> bool" where
  "finds lower q x = (case x of None \<Rightarrow> False | Some s \<Rightarrow> like (lower s) (''%'' @ q @ ''%''))"

definition not_earlier :: "time option \<Rightarrow> time \<Rightarrow> bool" where
  "not_earlier after t = (case after of None \<Rightarrow> True | Some a \<Rightarrow> a \<le> t)"

record SearchParams =
  sp_Me :: uuid
  sp_Q :: string
  sp_Chat :: "uuid option"
  sp_BeforeAt :: time
  sp_BeforeID :: uuid
  sp_AfterAt :: "time option"

definition found_private :: "(string \<Rightarrow> string) \<Rightarrow> SearchParams \<Rightarrow> message_row \<Rightarrow> bool" where
  "found_private lower p m \<longleftrightarrow> (m_from_id m = Some (sp_Me p) \<or> m_to_id m = Some (sp_Me p)) \<and> m_deleted_at m = None \<and>
     finds lower (sp_Q p) (m_content m) \<and>
     (case sp_Chat p of None \<Rightarrow> True | Some i \<Rightarrow> m_from_id m = Some (sp_Me p) \<and> m_to_id m = Some i \<or> m_to_id m = Some (sp_Me p) \<and> m_from_id m = Some i) \<and>
     earlier (m_created_at m) (m_id m) (sp_BeforeAt p) (sp_BeforeID p) \<and> not_earlier (sp_AfterAt p) (m_created_at m)"

definition SearchPrivateMessages :: "(string \<Rightarrow> string) \<Rightarrow> SearchParams \<Rightarrow> nat \<Rightarrow> db \<Rightarrow> dberr + message_row list" where
  "SearchPrivateMessages lower p lim d =
     (if \<not> text_ok (sp_Q p) then Inl DataException
      else Inr (take lim (newest_first m_created_at m_id (filter (found_private lower p) (message d)))))"

text \<open>One row for each membership; a user has at most one in a group.\<close>

definition joined_before :: "uuid \<Rightarrow> groupmessage_row \<Rightarrow> member_row \<Rightarrow> bool" where
  "joined_before me m r \<longleftrightarrow> gm_group_id m = Some (mt_group_id r) \<and> mt_member_id r = me \<and> mt_joined_at r \<le> gm_created_at m"

definition found_group :: "(string \<Rightarrow> string) \<Rightarrow> SearchParams \<Rightarrow> db \<Rightarrow> groupmessage_row \<Rightarrow> bool" where
  "found_group lower p d m \<longleftrightarrow> gm_searchable m \<and> gm_deleted_at m = None \<and> finds lower (sp_Q p) (gm_content m) \<and>
     exists_row (joined_before (sp_Me p) m) (member_table d) \<and>
     (case sp_Chat p of None \<Rightarrow> True | Some i \<Rightarrow> gm_group_id m = Some i) \<and>
     earlier (gm_created_at m) (gm_id m) (sp_BeforeAt p) (sp_BeforeID p) \<and> not_earlier (sp_AfterAt p) (gm_created_at m)"

definition SearchGroupMessages :: "(string \<Rightarrow> string) \<Rightarrow> SearchParams \<Rightarrow> nat \<Rightarrow> db \<Rightarrow> dberr + groupmessage_row list" where
  "SearchGroupMessages lower p lim d =
     (if \<not> text_ok (sp_Q p) then Inl DataException
      else Inr (take lim (newest_first gm_created_at gm_id (filter (found_group lower p d) (groupmessage d)))))"

section \<open>The service\<close>

text \<open>\<open>se_lower\<close>: \<^verbatim>\<open>strings.ToLower\<close>; \<open>se_dblower\<close>: the database's \<open>lower()\<close>.\<close>

record search_env =
  se_chat :: chat_env
  se_failPrivate :: bool
  se_failGroup :: bool
  se_lower :: "string \<Rightarrow> string"
  se_dblower :: "string \<Rightarrow> string"

definition typePrivate :: string where "typePrivate = ''private''"
definition typePublic :: string where "typePublic = ''public''"

definition minQuery :: "Query \<Rightarrow> nat" where
  "minQuery q = (if qy_Type q \<noteq> [] then 2 else 3)"

definition limit_of :: "Query \<Rightarrow> int" where
  "limit_of q = (if qy_Limit q = 0 then 20 else qy_Limit q)"

definition search_params :: "search_env \<Rightarrow> uuid \<Rightarrow> Query \<Rightarrow> search_err + SearchParams" where
  "search_params e me q =
     (let text = se_lower e (TrimSpace (qy_Q q)); n = RuneCountInString text in
      if n < minQuery q \<or> n > maxQuery then Inl ErrBadQuery
      else if (case (qy_After q, qy_Before q) of (Some a, Some b) \<Rightarrow> \<not> a < b | _ \<Rightarrow> False) then Inl ErrBadParams
      else if limit_of q < 1 \<or> limit_of q > maxHits \<or> qy_Type q \<notin> {[], typePrivate, typePublic} \<or>
          ((qy_Type q \<noteq> []) \<noteq> (qy_ChatID q \<noteq> Nil_uuid)) then Inl ErrBadParams
      else Inr \<lparr>sp_Me = me, sp_Q = escapeLike text, sp_Chat = (if qy_Type q = [] then None else Some (qy_ChatID q)),
        sp_BeforeAt = pgTime (case qy_Before q of None \<Rightarrow> ch_now (se_chat e) + hour | Some t \<Rightarrow> t),
        sp_BeforeID = (if qy_BeforeID q \<noteq> Nil_uuid then qy_BeforeID q else maxID),
        sp_AfterAt = map_option pgTime (qy_After q)\<rparr>)"

definition private_hit :: "uuid \<Rightarrow> message_row \<Rightarrow> Hit" where
  "private_hit me r =
     (let sender = unNull (m_from_id r); recipient = unNull (m_to_id r) in
      \<lparr>ht_MessageID = m_id r, ht_Type = typePrivate, ht_ChatID = (if recipient = me then sender else recipient),
       ht_FromID = sender, ht_Content = some_text (m_content r), ht_CreatedAt = m_created_at r\<rparr>)"

definition group_hit :: "groupmessage_row \<Rightarrow> Hit" where
  "group_hit r = \<lparr>ht_MessageID = gm_id r, ht_Type = typePublic, ht_ChatID = unNull (gm_group_id r),
     ht_FromID = unNull (gm_from_id r), ht_Content = some_text (gm_content r), ht_CreatedAt = gm_created_at r\<rparr>"

text \<open>One of the two halves of a search, when it is asked for.\<close>

definition half :: "bool \<Rightarrow> bool \<Rightarrow> ('a \<Rightarrow> Hit) \<Rightarrow> (dberr + 'a list) \<Rightarrow> search_err fail + Hit list" where
  "half wanted flt hit rows = (if \<not> wanted then Inr [] else case faulty flt rows of Inl x \<Rightarrow> Inl (DbFail x) | Inr xs \<Rightarrow> Inr (map hit xs))"

definition Search :: "search_env \<Rightarrow> uuid \<Rightarrow> Query \<Rightarrow> chat_sys \<Rightarrow> (search_err fail + Hit list) \<times> chat_sys" where
  "Search e me q s = (case search_params e me q of
     Inl err \<Rightarrow> (Inl (Sentinel err), s)
   | Inr p \<Rightarrow>
      (let lim = nat (limit_of q) + 5 in
       case half (qy_Type q \<in> {[], typePrivate}) (se_failPrivate e) (private_hit me) (SearchPrivateMessages (se_dblower e) p lim (cy_db s)) of
         Inl x \<Rightarrow> (Inl x, s)
       | Inr xs \<Rightarrow> (case half (qy_Type q \<in> {[], typePublic}) (se_failGroup e) group_hit (SearchGroupMessages (se_dblower e) p lim (cy_db s)) of
           Inl x \<Rightarrow> (Inl x, s)
         | Inr ys \<Rightarrow>
           (let hits = xs @ ys in
            case Suspended (se_chat e) (filter (\<lambda>i. i \<noteq> Nil_uuid) (map ht_FromID hits)) s of
              (Inl _, s') \<Rightarrow> (Inl (DbFail OtherDb), s')
            | (Inr banned, s') \<Rightarrow>
                (Inr (take (nat (limit_of q)) (newest_first ht_CreatedAt ht_MessageID (filter (\<lambda>h. \<not> banned (ht_FromID h)) hits))), s')))))"

text \<open>
  The handler. A parameter that is there and cannot be read is \<open>Inl ()\<close>; the answer carries the cursor of
  the next page.
\<close>

type_synonym 'a param = "'a option option"

record search_request =
  rq_Q :: string
  rq_Type :: string
  rq_ChatID :: "uuid param"
  rq_Before :: "time option param"
  rq_After :: "time option param"
  rq_BeforeID :: "uuid param"
  rq_Limit :: query_number

definition some_or :: "'a \<Rightarrow> 'a param \<Rightarrow> 'a" where
  "some_or z x = (case x of Some (Some a) \<Rightarrow> a | _ \<Rightarrow> z)"

definition request_ok :: "search_request \<Rightarrow> bool" where
  "request_ok r \<longleftrightarrow> rq_ChatID r \<noteq> Some None \<and> rq_Before r \<noteq> Some None \<and> rq_After r \<noteq> Some None \<and>
     rq_BeforeID r \<noteq> Some None \<and> (rq_BeforeID r \<noteq> None \<longrightarrow> some_or None (rq_Before r) \<noteq> None) \<and>
     rq_Limit r \<noteq> Unreadable \<and> rq_Limit r \<noteq> Number 0"

definition query_of :: "search_request \<Rightarrow> Query" where
  "query_of r = \<lparr>qy_Q = rq_Q r, qy_Type = rq_Type r, qy_ChatID = some_or Nil_uuid (rq_ChatID r), qy_Before = some_or None (rq_Before r),
     qy_BeforeID = some_or Nil_uuid (rq_BeforeID r), qy_After = some_or None (rq_After r),
     qy_Limit = (case rq_Limit r of Number n \<Rightarrow> n | _ \<Rightarrow> 0)\<rparr>"

definition SearchHandler :: "search_env \<Rightarrow> uuid option \<Rightarrow> search_request \<Rightarrow> chat_sys \<Rightarrow> (Hit list \<times> (time \<times> uuid) option) resp \<times> chat_sys" where
  "SearchHandler e ctx r s = (case reqctx_User ctx of
     None \<Rightarrow> (unauthorized, s)
   | Some me \<Rightarrow>
       if \<not> request_ok r then (Error StatusBadRequest (search_text ErrBadParams), s)
       else (case Search e me (query_of r) s of
         (Inl (Sentinel err), s') \<Rightarrow> (Error StatusBadRequest (search_text err), s')
       | (Inl _, s') \<Rightarrow> (ServerError, s')
       | (Inr hits, s') \<Rightarrow> (JSON StatusOK (hits,
           if hits = [] then None else Some (ht_CreatedAt (last hits), ht_MessageID (last hits))), s')))"

end
