(* ===== verification/Search_Properties.thy ===== *)
theory Search_Properties
  imports Search Chat_History "HOL-Library.Multiset" "HOL-Library.Product_Lexorder"
begin

text \<open>
  What a search finds: only what the searcher may read, and, while few senders are suspended, exactly the
  newest of it.
\<close>

section \<open>The newest of two tables\<close>

lemma sort_key_same:
  assumes "\<forall>x \<in> set xs. f x = c"
  shows "sort_key f xs = xs"
proof (rule sort_key_id_if_sorted)
  from assms have "map f xs = replicate (length xs) c" by (induction xs) simp_all
  then show "sorted (map f xs)" by simp
qed

lemma sort_key_sorted_wrt: "sorted_wrt (\<lambda>x y. f x \<le> f y) (sort_key f xs)"
  using sorted_sort_key [of f xs] by (simp add: sorted_map)

lemma sort_pair_const:
  assumes "\<forall>x \<in> set ws. f x = c"
  shows "sort_key g ws = sort_key (\<lambda>x. (f x, g x)) ws"
proof (rule properties_for_sort_key)
  fix x
  have "filter (\<lambda>y. g x = g y) (sort_key (\<lambda>x. (f x, g x)) ws) = sort_key (\<lambda>x. (f x, g x)) (filter (\<lambda>y. g x = g y) ws)"
    by (rule filter_sort)
  also have "\<dots> = filter (\<lambda>y. g x = g y) ws"
    by (rule sort_key_same [of _ _ "(c, g x)"]) (use assms in auto)
  finally show "filter (\<lambda>y. g x = g y) (sort_key (\<lambda>x. (f x, g x)) ws) = filter (\<lambda>y. g x = g y) ws" .
next
  have "sorted_wrt (\<lambda>x y. g x \<le> g y) (sort_key (\<lambda>x. (f x, g x)) ws)"
    by (rule sorted_wrt_mono_rel [OF _ sort_key_sorted_wrt]) (use assms in auto)
  then show "sorted (map g (sort_key (\<lambda>x. (f x, g x)) ws))" by (simp add: sorted_map)
qed simp

lemma sort_by_both: "sort_key f (sort_key g xs) = sort_key (\<lambda>x. (f x, g x)) xs"
proof (rule properties_for_sort_key)
  fix x
  show "filter (\<lambda>y. f x = f y) (sort_key (\<lambda>x. (f x, g x)) xs) = filter (\<lambda>y. f x = f y) (sort_key g xs)"
    unfolding filter_sort by (rule sort_pair_const [of _ _ "f x", symmetric]) simp
next
  have "sorted_wrt (\<lambda>x y. f x \<le> f y) (sort_key (\<lambda>x. (f x, g x)) xs)"
    by (rule sorted_wrt_mono_rel [OF _ sort_key_sorted_wrt]) auto
  then show "sorted (map f (sort_key (\<lambda>x. (f x, g x)) xs))" by (simp add: sorted_map)
qed simp

lemma newest_first_sort: "newest_first at i xs = rev (sort_key (\<lambda>x. (at x, i x)) xs)"
  by (simp add: newest_first_def sort_by_both)

lemma newest_first_set [simp]: "set (newest_first at i xs) = set xs"
  by (simp add: newest_first_def)

lemma newest_first_filter: "filter P (newest_first at i xs) = newest_first at i (filter P xs)"
  by (simp add: newest_first_def filter_sort flip: rev_filter)

lemma map_insort: "map f (insort_key k x xs) = insort_key k' (f x) (map f xs)" if "\<And>y. k' (f y) = k y"
  by (induction xs) (simp_all add: that)

lemma map_sort: "map f (sort_key k xs) = sort_key k' (map f xs)" if "\<And>y. k' (f y) = k y"
proof (induction xs)
  case (Cons x xs)
  have "map f (insort_key k x ys) = insort_key k' (f x) (map f ys)" for ys by (rule map_insort) (rule that)
  with Cons show ?case by simp
qed simp

lemma newest_first_map: "map f (newest_first at i xs) = newest_first at' i' (map f xs)"
  if "\<And>x. at' (f x) = at x" "\<And>x. i' (f x) = i x"
proof -
  have "map f (sort_key at ys) = sort_key at' (map f ys)" "map f (sort_key i ys) = sort_key i' (map f ys)" for ys
    by (rule map_sort; rule that)+
  then show ?thesis by (simp add: newest_first_def flip: rev_map)
qed

lemma newest_first_unique:
  assumes "distinct (map (\<lambda>x. (at x, i x)) zs)" "mset ws = mset zs"
  shows "newest_first at i ws = newest_first at i zs"
proof -
  let ?k = "\<lambda>x. (at x, i x)"
  have "sort_key ?k zs = sort_key ?k ws"
  proof (rule sort_key_inj_key_eq)
    show "mset zs = mset (sort_key ?k ws)" using assms(2) by simp
    show "inj_on ?k (set zs)" using assms(1) by (simp add: distinct_map)
  qed simp
  then show ?thesis by (simp add: newest_first_sort)
qed

lemma filter_take_subset: "set (filter P (take n xs)) \<subseteq> set (take n (filter P xs))"
proof (induction xs arbitrary: n)
  case (Cons x xs)
  show ?case
  proof (cases n)
    case (Suc m)
    have "set (take m (filter P xs)) \<subseteq> set (take (Suc m) (filter P xs))" by (simp add: set_take_subset_set_take)
    with Cons.IH [of m] Suc show ?thesis by auto
  qed simp
qed simp

lemma take_filter_all: "\<forall>z \<in> set (take n xs). P z \<Longrightarrow> take n (filter P xs) = take n xs"
  by (induction xs arbitrary: n) (auto simp: take_Cons split: nat.splits)

lemma enough_left:
  assumes "length (filter (\<lambda>x. \<not> ok x) (take (n + k) xs)) \<le> k"
  shows "set (take n (filter ok xs)) \<subseteq> set (take (n + k) xs)"
proof (cases "length xs \<le> n + k")
  case True
  have "set (take n (filter ok xs)) \<subseteq> set (filter ok xs)" by (rule set_take_subset)
  with True show ?thesis by auto
next
  case False
  have "length (filter ok (take (n + k) xs)) + length (filter (\<lambda>x. \<not> ok x) (take (n + k) xs)) = length (take (n + k) xs)"
    by (rule sum_length_filter_compl)
  with False assms have "n \<le> length (filter ok (take (n + k) xs))" by simp
  then have "take n (filter ok (take (n + k) xs @ drop (n + k) xs)) = take n (filter ok (take (n + k) xs))"
    unfolding filter_append by simp
  then show ?thesis by (simp only: append_take_drop_id) (metis filter_is_subset set_take_subset subset_trans)
qed

lemma distinct_pairs: "distinct (map g xs) \<Longrightarrow> distinct (map (\<lambda>x. (f x, g x)) xs)"
  by (induction xs) auto

lemma newest_of_two:
  fixes at i
  defines "new \<equiv> newest_first at i"
  assumes keys: "distinct (map (\<lambda>x. (at x, i x)) (xs @ ys))"
    and few: "length (filter (\<lambda>x. \<not> ok x) (take (n + k) (new xs))) \<le> k" "length (filter (\<lambda>x. \<not> ok x) (take (n + k) (new ys))) \<le> k"
  shows "take n (new (filter ok (take (n + k) (new xs) @ take (n + k) (new ys)))) = take n (new (filter ok (xs @ ys)))"
proof -
  let ?X = "take (n + k) (new xs)" and ?Y = "take (n + k) (new ys)"
  define Q where "Q z \<longleftrightarrow> z \<in> set ?X \<or> z \<in> set ?Y" for z
  have d: "distinct (xs @ ys)" using keys unfolding distinct_map by simp
  have sub: "set ?X \<subseteq> set xs" "set ?Y \<subseteq> set ys"
    using set_take_subset [of _ "new xs"] set_take_subset [of _ "new ys"] by (auto simp: new_def)
  have "distinct (?X @ ?Y)" using d sub by (auto simp: new_def newest_first_def)
  moreover have "set (?X @ ?Y) = set (filter Q (xs @ ys))" using sub by (auto simp: Q_def)
  moreover have dQ: "distinct (map (\<lambda>x. (at x, i x)) (filter Q (xs @ ys)))" using keys by (rule distinct_map_filter)
  ultimately have "mset (?X @ ?Y) = mset (filter Q (xs @ ys))"
    using set_eq_iff_mset_eq_distinct [of "?X @ ?Y" "filter Q (xs @ ys)"] unfolding distinct_map by blast
  from newest_first_unique [OF dQ this] have "new (?X @ ?Y) = filter Q (new (xs @ ys))"
    by (simp add: new_def newest_first_filter)
  then have "filter ok (new (?X @ ?Y)) = filter ok (filter Q (new (xs @ ys)))" by simp
  then have 1: "new (filter ok (?X @ ?Y)) = filter Q (new (filter ok (xs @ ys)))"
    by (simp add: new_def newest_first_filter conj_commute)
  have part: "z \<in> set (take (n + k) (new zs))"
    if z: "z \<in> set (take n (new (filter ok (xs @ ys))))" "z \<in> set zs" and zs: "filter (\<lambda>z. z \<in> set zs) (xs @ ys) = zs"
      and few: "length (filter (\<lambda>x. \<not> ok x) (take (n + k) (new zs))) \<le> k" for z zs
  proof -
    have "z \<in> set (take n (filter (\<lambda>z. z \<in> set zs) (new (filter ok (xs @ ys)))))"
      using filter_take_subset z by fastforce
    also have "filter (\<lambda>z. z \<in> set zs) (new (filter ok (xs @ ys))) = filter ok (new zs)"
      by (subst (2) zs [symmetric]) (simp add: new_def newest_first_filter conj_commute)
    finally show ?thesis using enough_left [OF few] by blast
  qed
  have "filter (\<lambda>z. z \<in> set xs) (xs @ ys) = xs" "filter (\<lambda>z. z \<in> set ys) (xs @ ys) = ys"
    using d by (auto simp: filter_id_conv filter_empty_conv)
  then have "Q z" if "z \<in> set (take n (new (filter ok (xs @ ys))))" for z
    using that part [OF that, of xs] part [OF that, of ys] few set_take_subset [of n "new (filter ok (xs @ ys))"]
    by (auto simp: Q_def new_def dest: in_set_takeD)
  then show ?thesis unfolding 1 by (simp add: take_filter_all)
qed

section \<open>What is found\<close>

definition private_hits :: "search_env \<Rightarrow> uuid \<Rightarrow> Query \<Rightarrow> SearchParams \<Rightarrow> db \<Rightarrow> Hit list" where
  "private_hits e me q p d = (if qy_Type q \<in> {[], typePrivate} then map (private_hit me) (filter (found_private (se_dblower e) p) (message d)) else [])"

definition group_hits :: "search_env \<Rightarrow> Query \<Rightarrow> SearchParams \<Rightarrow> db \<Rightarrow> Hit list" where
  "group_hits e q p d = (if qy_Type q \<in> {[], typePublic} then map group_hit (filter (found_group (se_dblower e) p d) (groupmessage d)) else [])"

abbreviation newest_hits :: "Hit list \<Rightarrow> Hit list" where
  "newest_hits \<equiv> newest_first ht_CreatedAt ht_MessageID"

lemma half_newest:
  assumes "half wanted flt hit (Inr (take n (newest_first at i (filter P rows)))) = Inr xs"
    and "\<And>r. ht_CreatedAt (hit r) = at r" "\<And>r. ht_MessageID (hit r) = i r"
  shows "xs = take n (newest_hits (if wanted then map hit (filter P rows) else []))"
proof -
  have "map hit (newest_first at i (filter P rows)) = newest_hits (map hit (filter P rows))"
    by (rule newest_first_map) (rule assms(2), rule assms(3))
  then have "map hit (take n (newest_first at i (filter P rows))) = take n (newest_hits (map hit (filter P rows)))"
    by (metis take_map)
  moreover have "newest_hits [] = []" by (simp add: newest_first_def)
  ultimately show ?thesis using assms(1) by (auto simp: half_def faulty_def split: if_splits)
qed

lemma half_Inl: "half wanted flt hit (Inl x) = Inr xs \<Longrightarrow> \<not> wanted \<and> xs = []"
  by (auto simp: half_def faulty_def split: if_splits)

lemma Search_Inr:
  assumes "Search e me q s = (Inr hits, s')" "search_params e me q = Inr p" "text_ok (sp_Q p)"
  obtains banned where
    "Suspended (se_chat e) (filter (\<lambda>i. i \<noteq> Nil_uuid) (map ht_FromID
       (take (nat (limit_of q) + 5) (newest_hits (private_hits e me q p (cy_db s))) @
        take (nat (limit_of q) + 5) (newest_hits (group_hits e q p (cy_db s)))))) s = (Inr banned, s')"
    "hits = take (nat (limit_of q)) (newest_hits (filter (\<lambda>h. \<not> banned (ht_FromID h))
       (take (nat (limit_of q) + 5) (newest_hits (private_hits e me q p (cy_db s))) @
        take (nat (limit_of q) + 5) (newest_hits (group_hits e q p (cy_db s))))))"
proof -
  obtain xs ys where
      x: "half (qy_Type q \<in> {[], typePrivate}) (se_failPrivate e) (private_hit me) (SearchPrivateMessages (se_dblower e) p (nat (limit_of q) + 5) (cy_db s)) = Inr xs"
      and y: "half (qy_Type q \<in> {[], typePublic}) (se_failGroup e) group_hit (SearchGroupMessages (se_dblower e) p (nat (limit_of q) + 5) (cy_db s)) = Inr ys"
    using assms(1,2) by (auto simp: Search_def Let_def split: sum.splits)
  have xs: "xs = take (nat (limit_of q) + 5) (newest_hits (private_hits e me q p (cy_db s)))"
    unfolding private_hits_def
    by (rule half_newest [OF x [unfolded SearchPrivateMessages_def if_not_P [OF iffD2 [OF not_not assms(3)]]]])
      (simp_all add: private_hit_def Let_def)
  have ys: "ys = take (nat (limit_of q) + 5) (newest_hits (group_hits e q p (cy_db s)))"
    unfolding group_hits_def
    by (rule half_newest [OF y [unfolded SearchGroupMessages_def if_not_P [OF iffD2 [OF not_not assms(3)]]]])
      (simp_all add: group_hit_def)
  from assms(1,2) x y obtain banned where
    "Suspended (se_chat e) (filter (\<lambda>i. i \<noteq> Nil_uuid) (map ht_FromID (xs @ ys))) s = (Inr banned, s')"
    "hits = take (nat (limit_of q)) (newest_hits (filter (\<lambda>h. \<not> banned (ht_FromID h)) (xs @ ys)))"
    by (auto simp: Search_def Let_def split: sum.splits prod.splits)
  then show ?thesis unfolding xs ys by (rule that)
qed

text \<open>What a person may read: what they sent or were sent, and what was sent to their groups since they joined; not what was deleted.\<close>

definition may_read :: "uuid \<Rightarrow> db \<Rightarrow> uuid \<Rightarrow> bool" where
  "may_read me d i \<longleftrightarrow>
     (\<exists>m \<in> set (message d). m_id m = i \<and> (m_from_id m = Some me \<or> m_to_id m = Some me) \<and> m_deleted_at m = None) \<or>
     (\<exists>m \<in> set (groupmessage d). gm_id m = i \<and> gm_deleted_at m = None \<and>
       (\<exists>r \<in> set (member_table d). mt_member_id r = me \<and> gm_group_id m = Some (mt_group_id r) \<and> mt_joined_at r \<le> gm_created_at m))"

lemma private_hits_mine:
  assumes "h \<in> set (private_hits e me q p d)" "sp_Me p = me" "sp_Q p = escapeLike text"
  shows "may_read me d (ht_MessageID h) \<and> sublist text (se_dblower e (ht_Content h))"
proof -
  from assms(1) obtain m where m: "m \<in> set (message d)" "found_private (se_dblower e) p m" "h = private_hit me m"
    by (auto simp: private_hits_def split: if_splits)
  then obtain c where "m_content m = Some c" "sublist text (se_dblower e c)"
    unfolding found_private_def finds_def assms(3) like_contains by (auto split: option.splits)
  with m assms(2) show ?thesis
    by (auto simp: may_read_def found_private_def private_hit_def some_text_def Let_def)
qed

lemma group_hits_mine:
  assumes "h \<in> set (group_hits e q p d)" "sp_Me p = me" "sp_Q p = escapeLike text"
  shows "may_read me d (ht_MessageID h) \<and> sublist text (se_dblower e (ht_Content h))"
proof -
  from assms(1) obtain m where m: "m \<in> set (groupmessage d)" "found_group (se_dblower e) p d m" "h = group_hit m"
    by (auto simp: group_hits_def split: if_splits)
  then obtain c where "gm_content m = Some c" "sublist text (se_dblower e c)"
    unfolding found_group_def finds_def assms(3) like_contains by (auto split: option.splits)
  moreover obtain r where "r \<in> set (member_table d)" "joined_before me m r"
    using m(2) assms(2) unfolding found_group_def exists_row_def by blast
  ultimately show ?thesis
    using m by (auto simp: may_read_def found_group_def group_hit_def some_text_def joined_before_def)
qed

lemma search_params_Inr:
  assumes "search_params e me q = Inr p"
  shows "sp_Me p = me \<and> sp_Q p = escapeLike (se_lower e (TrimSpace (qy_Q q)))"
  using assms by (auto simp: search_params_def Let_def split: if_splits)

lemma suspended_asked:
  assumes "Suspended c (filter (\<lambda>i. i \<noteq> Nil_uuid) froms) s = (Inr banned, s')" "cy_banned s = None"
  shows "\<forall>i \<in> set froms. banned i \<longleftrightarrow> i \<noteq> Nil_uuid \<and> i \<in> set (AllBannedUsers (cy_db s))"
  using assms by (auto simp: Suspended_def banned_get_def filter_empty_conv split: if_splits sum.splits prod.splits)

text \<open>
  C16: A search that answers shows only what the searcher may read: undeleted messages containing the text, of
  their private chats, or of their groups and sent since they joined, from senders who are not suspended.
  And, the cached list of suspended users being fresh, as long as at most five of the newest it looks at in
  each half come from suspended senders, it gives exactly the newest of all there is, in order; with more of
  them it can give less.
\<close>

theorem search_is_exact:
  fixes q
  defines "n \<equiv> nat (limit_of q)"
  assumes found: "Search e me q s = (Inr hits, s')" "search_params e me q = Inr p" "text_ok (sp_Q p)" "cy_banned s = None"
    and ids: "distinct (map m_id (message (cy_db s)) @ map gm_id (groupmessage (cy_db s)))"
  shows "(\<forall>h \<in> set hits. (ht_FromID h = Nil_uuid \<or> ht_FromID h \<notin> set (AllBannedUsers (cy_db s))) \<and>
      sublist (se_lower e (TrimSpace (qy_Q q))) (se_dblower e (ht_Content h)) \<and>
      may_read me (cy_db s) (ht_MessageID h)) \<and>
    (let ok = \<lambda>h. ht_FromID h = Nil_uuid \<or> ht_FromID h \<notin> set (AllBannedUsers (cy_db s));
         xs = private_hits e me q p (cy_db s); ys = group_hits e q p (cy_db s) in
     length (filter (\<lambda>h. \<not> ok h) (take (n + 5) (newest_hits xs))) \<le> 5 \<and> length (filter (\<lambda>h. \<not> ok h) (take (n + 5) (newest_hits ys))) \<le> 5
       \<longrightarrow> hits = take n (newest_hits (filter ok (xs @ ys))))"
proof -
  let ?xs = "private_hits e me q p (cy_db s)" and ?ys = "group_hits e q p (cy_db s)"
  let ?ok = "\<lambda>h. ht_FromID h = Nil_uuid \<or> ht_FromID h \<notin> set (AllBannedUsers (cy_db s))"
  let ?L = "take (n + 5) (newest_hits ?xs) @ take (n + 5) (newest_hits ?ys)"
  obtain banned where b: "Suspended (se_chat e) (filter (\<lambda>i. i \<noteq> Nil_uuid) (map ht_FromID ?L)) s = (Inr banned, s')"
      and h: "hits = take n (newest_hits (filter (\<lambda>h. \<not> banned (ht_FromID h)) ?L))"
    using Search_Inr [OF found(1-3)] unfolding n_def by blast
  have "banned (ht_FromID h) \<longleftrightarrow> \<not> ?ok h" if "h \<in> set ?L" for h
    using suspended_asked [OF b found(4)] that by (simp only: set_map ball_simps) simp
  then have "filter (\<lambda>h. \<not> banned (ht_FromID h)) ?L = filter ?ok ?L" by (intro filter_cong) simp_all
  with h have h: "hits = take n (newest_hits (filter ?ok ?L))" by (simp only:)
  note pp = search_params_Inr [OF found(2)]
  have "h \<in> set ?xs \<or> h \<in> set ?ys" "?ok h" if "h \<in> set hits" for h
  proof -
    from that have "h \<in> set (newest_hits (filter ?ok ?L))" unfolding h by (rule in_set_takeD)
    then have 1: "?ok h" "h \<in> set (take (n + 5) (newest_hits ?xs)) \<or> h \<in> set (take (n + 5) (newest_hits ?ys))" by auto
    from 1(1) show "?ok h" .
    from 1(2) have "h \<in> set (newest_hits ?xs) \<or> h \<in> set (newest_hits ?ys)" by (meson in_set_takeD)
    then show "h \<in> set ?xs \<or> h \<in> set ?ys" by simp
  qed
  then have safe: "?ok h \<and> sublist (se_lower e (TrimSpace (qy_Q q))) (se_dblower e (ht_Content h)) \<and> may_read me (cy_db s) (ht_MessageID h)"
    if "h \<in> set hits" for h
    using that private_hits_mine [of h e me q p "cy_db s"] group_hits_mine [of h e q p "cy_db s" me] pp by blast
  have "distinct (map ht_MessageID (?xs @ ?ys))"
    using ids by (auto simp: private_hits_def group_hits_def private_hit_def group_hit_def Let_def comp_def distinct_map_filter)
  then have "distinct (map (\<lambda>h. (ht_CreatedAt h, ht_MessageID h)) (?xs @ ?ys))" by (rule distinct_pairs)
  note exact = newest_of_two [OF this, of ?ok n 5, folded h]
  show ?thesis unfolding Let_def
  proof (intro conjI ballI impI)
    fix h assume "h \<in> set hits"
    from safe [OF this] show "?ok h" "sublist (se_lower e (TrimSpace (qy_Q q))) (se_dblower e (ht_Content h))"
      "may_read me (cy_db s) (ht_MessageID h)" by blast+
  qed (elim conjE, rule exact)
qed

text \<open>2 wrote to 1; then 3, who is suspended by now, wrote six times.\<close>

definition letter :: "uuid \<Rightarrow> uuid \<Rightarrow> message_row" where
  "letter i sender = \<lparr>m_id = i, m_content = Some ''abc'', m_parentid = None, m_from_id = Some sender, m_to_id = Some 1, m_deleted_at = None,
     m_created_at = 5000, m_edited_at = None, m_forwarded = False\<rparr>"

definition letters :: "uuid list \<Rightarrow> chat_sys" where
  "letters is = \<lparr>cy_db = empty_db\<lparr>users := [new_user 2 ''ann'', (new_user 3 ''bob'')\<lparr>u_banned_at := Some 0\<rparr>],
     message := letter 11 2 # map (\<lambda>i. letter i 3) is\<rparr>, cy_banned = None, cy_seen = []\<rparr>"

definition plain_search :: search_env where
  "plain_search = \<lparr>se_chat = asking_friends, se_failPrivate = False, se_failGroup = False, se_lower = id, se_dblower = id\<rparr>"

definition abc :: "int \<Rightarrow> Query" where
  "abc lim = \<lparr>qy_Q = ''abc'', qy_Type = [], qy_ChatID = 0, qy_Before = Some 9000, qy_BeforeID = 0, qy_After = None, qy_Limit = lim\<rparr>"

definition abc_params :: SearchParams where
  "abc_params = \<lparr>sp_Me = 1, sp_Q = ''abc'', sp_Chat = None, sp_BeforeAt = 9000, sp_BeforeID = maxID, sp_AfterAt = None\<rparr>"

lemma abc_search: "search_params plain_search 1 (abc 1) = Inr abc_params"
proof -
  have "TrimSpace ''abc'' = ''abc''" by (simp add: TrimSpace_def chunks_ascii_Cons IsSpace_def)
  moreover have "RuneCountInString ''abc'' = 3" by (simp add: RuneCountInString_def runes_ascii is_ascii_def)
  ultimately show ?thesis
    by (simp add: search_params_def abc_def plain_search_def minQuery_def limit_of_def maxHits_def maxQuery_def abc_params_def pgTime_def)
qed

lemma abc_found: "found_private id abc_params (letter i a)"
proof -
  have "like ''abc'' (''%'' @ escapeLike ''abc'' @ ''%'')" unfolding like_contains by simp
  then show ?thesis by (simp add: found_private_def abc_params_def letter_def finds_def earlier_def not_earlier_def)
qed

lemma letters_hits:
  "private_hits plain_search 1 (abc 1) abc_params (cy_db (letters is)) = map (private_hit 1) (letter 11 2 # map (\<lambda>i. letter i 3) is)"
  "group_hits plain_search (abc 1) abc_params (cy_db (letters is)) = []"
proof -
  have "filter (found_private id abc_params) (map f zs) = map f zs" if "\<And>z. found_private id abc_params (f z)" for f :: "uuid \<Rightarrow> message_row" and zs
    using that by (induction zs) simp_all
  from this [of "\<lambda>i. letter i 3" "is"]
  show "private_hits plain_search 1 (abc 1) abc_params (cy_db (letters is)) = map (private_hit 1) (letter 11 2 # map (\<lambda>i. letter i 3) is)"
    by (simp add: private_hits_def abc_def letters_def plain_search_def abc_found)
qed (simp add: group_hits_def letters_def empty_db_def)

lemma letters_banned: "AllBannedUsers (cy_db (letters is)) = [3]"
  by (simp add: AllBannedUsers_def letters_def new_user_def)

lemma abc_limit: "limit_of (abc 1) = 1"
  by (simp add: limit_of_def abc_def)

lemma Suspended_answers: "(\<And>c. \<not> ch_fails e c) \<Longrightarrow> \<exists>b s'. Suspended e froms s = (Inr b, s')"
  by (auto simp: Suspended_def banned_get_def query_def split: option.splits prod.splits)

lemma letters_answer: "\<exists>hits s'. Search plain_search 1 (abc 1) (letters is) = (Inr hits, s')"
proof -
  define xs where "xs = take 6 (newest_first m_created_at m_id (filter (found_private id abc_params) (message (cy_db (letters is)))))"
  have p: "SearchPrivateMessages id abc_params 6 (cy_db (letters is)) = Inr xs"
    by (simp add: SearchPrivateMessages_def abc_params_def text_ok_def xs_def)
  have g: "SearchGroupMessages id abc_params 6 (cy_db (letters is)) = Inr []"
    by (simp add: SearchGroupMessages_def abc_params_def text_ok_def letters_def empty_db_def newest_first_def)
  have "nat (limit_of (abc 1)) + 5 = 6" "qy_Type (abc 1) = []" by (simp_all add: limit_of_def abc_def)
  moreover obtain b s' where
    "Suspended asking_friends (filter (\<lambda>i. i \<noteq> Nil_uuid) (map ht_FromID (map (private_hit 1) xs @ []))) (letters is) = (Inr b, s')"
    using Suspended_answers [OF asking_friends_simps(1)] by blast
  ultimately show ?thesis
    unfolding Search_def abc_search by (simp add: plain_search_def p g half_def faulty_def Let_def)
qed

lemma letter_hit [simp]: "ht_FromID (private_hit 1 (letter i a)) = a" "ht_CreatedAt (private_hit 1 (letter i a)) = 5000"
    "ht_MessageID (private_hit 1 (letter i a)) = i"
  by (simp_all add: private_hit_def letter_def unNull_def Let_def)

theorem search_is_exact_witness:
  "\<exists>s'. Search plain_search 1 (abc 1) (letters []) = (Inr [private_hit 1 (letter 11 2)], s')"
proof -
  obtain hits s' where h: "Search plain_search 1 (abc 1) (letters []) = (Inr hits, s')" using letters_answer by blast
  have d: "distinct (map m_id (message (cy_db (letters []))) @ map gm_id (groupmessage (cy_db (letters []))))"
    "cy_banned (letters []) = None" "text_ok (sp_Q abc_params)"
    by (simp_all add: letters_def empty_db_def abc_params_def text_ok_def)
  from conjunct2 [OF search_is_exact [OF h abc_search d(3,2,1)]]
  have "hits = [private_hit 1 (letter 11 2)]"
    by (simp add: letters_hits Let_def newest_first_def abc_limit letters_banned)
  with h show ?thesis by blast
qed

text \<open>Six messages of a suspended sender hide an older one, and an empty page has no cursor to go on from.\<close>

lemma plain_search_chat: "se_chat plain_search = asking_friends"
  by (simp add: plain_search_def)

lemma suspended_hide_older:
  "\<exists>s'. Search plain_search 1 (abc 1) (letters [21, 22, 23, 24, 25, 26]) = (Inr [], s')"
proof -
  obtain hits s' where h: "Search plain_search 1 (abc 1) (letters [21, 22, 23, 24, 25, 26]) = (Inr hits, s')" using letters_answer by blast
  have "text_ok (sp_Q abc_params)" by (simp add: abc_params_def text_ok_def)
  moreover have "take (nat (limit_of (abc 1)) + 5) (newest_hits (private_hits plain_search 1 (abc 1) abc_params (cy_db (letters [21, 22, 23, 24, 25, 26])))) @
      take (nat (limit_of (abc 1)) + 5) (newest_hits (group_hits plain_search (abc 1) abc_params (cy_db (letters [21, 22, 23, 24, 25, 26]))))
      = map (\<lambda>i. private_hit 1 (letter i 3)) [26, 25, 24, 23, 22, 21]"
    unfolding letters_hits by (simp add: limit_of_def abc_def newest_first_def)
  ultimately obtain banned where
    b: "Suspended asking_friends (filter (\<lambda>i. i \<noteq> Nil_uuid) (map ht_FromID (map (\<lambda>i. private_hit 1 (letter i 3)) [26, 25, 24, 23, 22, 21])))
        (letters [21, 22, 23, 24, 25, 26]) = (Inr banned, s')"
      "hits = take (nat (limit_of (abc 1))) (newest_hits (filter (\<lambda>h. \<not> banned (ht_FromID h)) (map (\<lambda>i. private_hit 1 (letter i 3)) [26, 25, 24, 23, 22, 21])))"
    using Search_Inr [OF h abc_search] by (metis plain_search_chat)
  have "banned 3"
    using b(1) by (auto simp: Suspended_def banned_get_def query_def letters_def AllBannedUsers_def asking_friends_def split: if_splits)
  with b(2) have "hits = []" by (simp add: newest_first_def)
  with h show ?thesis by blast
qed

end
