(* ===== verification/Tickets.thy ===== *)
theory Tickets
  imports Revoke
begin

text \<open>
  \<^verbatim>\<open>ws/ticket.go\<close>: one-time tickets that open a websocket, as bytes, with the base64 of
  \<^verbatim>\<open>base64.RawURLEncoding\<close> and big-endian integers. The keyed hash is a parameter. Also the admission
  of the upgrade in \<^verbatim>\<open>app/wsauth.go\<close>.
\<close>

section \<open>Integers as bytes\<close>

fun big_endian :: "nat \<Rightarrow> nat \<Rightarrow> nat list" where
  "big_endian 0 x = []"
| "big_endian (Suc n) x = big_endian n (x div 256) @ [x mod 256]"

definition from_bytes :: "nat list \<Rightarrow> nat" where
  "from_bytes bs = foldl (\<lambda>a b. a * 256 + b) 0 bs"

lemma length_big_endian [simp]: "length (big_endian n x) = n"
  by (induction n arbitrary: x) auto

lemma big_endian_bytes: "b \<in> set (big_endian n x) \<Longrightarrow> b < 256"
  by (induction n arbitrary: x) auto

lemma from_big_endian: "x < 256 ^ n \<Longrightarrow> from_bytes (big_endian n x) = x"
proof (induction n arbitrary: x)
  case (Suc n)
  then have "x div 256 < 256 ^ n" by (simp add: less_mult_imp_div_less mult.commute)
  with Suc.IH have "from_bytes (big_endian n (x div 256)) = x div 256" .
  then show ?case by (simp add: from_bytes_def)
qed (simp add: from_bytes_def)

section \<open>Base64\<close>

definition base64_alphabet :: string where
  "base64_alphabet = ''ABCDEFGHIJKLMNOPQRSTUVWXYZabcdefghijklmnopqrstuvwxyz0123456789-_''"

fun sextets :: "nat list \<Rightarrow> nat list" where
  "sextets [] = []"
| "sextets [a] = [a div 4, a mod 4 * 16]"
| "sextets [a, b] = [a div 4, a mod 4 * 16 + b div 16, b mod 16 * 4]"
| "sextets (a # b # c # r) =
     [a div 4, a mod 4 * 16 + b div 16, b mod 16 * 4 + c div 64, c mod 64] @ sextets r"

fun octets :: "nat list \<Rightarrow> nat list option" where
  "octets [] = Some []"
| "octets [w] = None"
| "octets [w, x] = Some [w * 4 + x div 16]"
| "octets [w, x, y] = Some [w * 4 + x div 16, x mod 16 * 16 + y div 4]"
| "octets (w # x # y # z # r) =
     map_option (\<lambda>bs. [w * 4 + x div 16, x mod 16 * 16 + y div 4, y mod 4 * 64 + z] @ bs) (octets r)"

definition EncodeToString :: "nat list \<Rightarrow> string" where
  "EncodeToString bs = map (\<lambda>v. base64_alphabet ! v) (sextets bs)"

text \<open>The decoder skips line breaks and refuses every other character that is not of the alphabet.\<close>

definition index_of :: "'a \<Rightarrow> 'a list \<Rightarrow> nat option" where
  "index_of c xs = (case filter (\<lambda>i. xs ! i = c) [0..<length xs] of [] \<Rightarrow> None | i # _ \<Rightarrow> Some i)"

definition DecodeString :: "string \<Rightarrow> nat list option" where
  "DecodeString s =
     (let vs = map (\<lambda>c. index_of c base64_alphabet) (filter (\<lambda>c. c \<noteq> CHR 0x0A \<and> c \<noteq> CHR 0x0D) s) in
      if None \<in> set vs then None else octets (map the vs))"

lemma pack:
  fixes x y k :: nat
  assumes "y < k"
  shows "(x * k + y) div k = x" "(x * k + y) mod k = y"
  using assms by simp_all

lemma high_bits:
  fixes b :: nat
  assumes "b < 256"
  shows "b div 4 < 64" "b div 16 < 16" "b div 64 < 4"
  using assms by (simp_all add: less_mult_imp_div_less)

lemma octets_sextets: "\<forall>b \<in> set bs. b < 256 \<Longrightarrow> octets (sextets bs) = Some bs"
proof (induction bs rule: sextets.induct)
  case (3 a b)
  then have b: "b div 16 < 16" by (simp add: high_bits)
  have "b mod 16 * 4 div 4 = b mod 16" by simp
  then show ?case by (simp add: pack [OF b] mod_less [OF b])
next
  case (4 a b c r)
  then have b: "b div 16 < 16" and c: "c div 64 < 4" by (simp_all add: high_bits)
  from 4 show ?case by (simp add: pack [OF b] pack [OF c] mod_less [OF b] mod_less [OF c])
qed simp_all

lemma sextet_bounds:
  fixes a b :: nat
  assumes "a < 256" "b < 256"
  shows "a div 4 < 64" "a mod 4 * 16 < 64" "b mod 16 * 4 < 64" "a mod 4 * 16 + b div 16 < 64"
    "a mod 16 * 4 + b div 64 < 64" "b mod 64 < 64"
proof -
  have m: "a mod 4 < 4" "b mod 16 < 16" "a mod 16 < 16" by simp_all
  show "a div 4 < 64" "b mod 64 < 64" using high_bits [OF assms(1)] by simp_all
  show "a mod 4 * 16 < 64" "b mod 16 * 4 < 64" "a mod 4 * 16 + b div 16 < 64" "a mod 16 * 4 + b div 64 < 64"
    using m high_bits [OF assms(2)] by linarith+
qed

lemma sextets_less: "\<forall>b \<in> set bs. b < 256 \<Longrightarrow> v \<in> set (sextets bs) \<Longrightarrow> v < 64"
  by (induction bs rule: sextets.induct) (auto simp: sextet_bounds)

lemma length_alphabet: "length base64_alphabet = 64"
  by (simp add: base64_alphabet_def)

lemma distinct_alphabet: "distinct base64_alphabet"
  by (simp add: base64_alphabet_def)

lemma index_of_nth:
  assumes "distinct xs" "v < length xs"
  shows "index_of (xs ! v) xs = Some v"
proof -
  have "filter (\<lambda>i. xs ! i = xs ! v) [0..<length xs] = filter (\<lambda>i. i = v) [0..<length xs]"
    using assms by (intro filter_cong) (auto simp: nth_eq_iff_index_eq)
  also have "\<dots> = [v]"
  proof -
    have "filter (\<lambda>i. i = v) [0..<n] = (if v < n then [v] else [])" for n
      by (induction n) auto
    then show ?thesis using assms(2) by simp
  qed
  finally show ?thesis by (simp add: index_of_def)
qed

lemma alphabet_no_breaks: "c \<in> set base64_alphabet \<Longrightarrow> c \<noteq> CHR 0x0A \<and> c \<noteq> CHR 0x0D"
  by (auto simp: base64_alphabet_def)

lemma Decode_Encode:
  assumes "\<forall>b \<in> set bs. b < 256"
  shows "DecodeString (EncodeToString bs) = Some bs"
proof -
  have less: "\<forall>v \<in> set (sextets bs). v < 64" using sextets_less [OF assms] by blast
  have f: "filter (\<lambda>c. c \<noteq> CHR 0x0A \<and> c \<noteq> CHR 0x0D) (EncodeToString bs) = EncodeToString bs"
    using less alphabet_no_breaks by (auto simp: EncodeToString_def filter_id_conv length_alphabet)
  have "map (\<lambda>c. index_of c base64_alphabet) (EncodeToString bs) = map Some (sextets bs)"
    using less by (auto simp: EncodeToString_def index_of_nth [OF distinct_alphabet] length_alphabet)
  then show ?thesis
    by (simp only: DecodeString_def f Let_def) (simp add: octets_sextets [OF assms] comp_def)
qed

section \<open>Tickets\<close>

definition TicketTTL :: duration where "TicketTTL = 30 * second"
definition ticketPayload :: nat where "ticketPayload = 16 + 8 + 16"
definition sha256_Size :: nat where "sha256_Size = 32"

type_synonym nonce = "nat list"

record Tickets =
  tk_used :: "(nonce \<times> time) list"

text \<open>\<^verbatim>\<open>UnixMilli\<close> and \<^verbatim>\<open>time.UnixMilli\<close>; an \<^verbatim>\<open>int64\<close> goes into the payload as \<^verbatim>\<open>uint64\<close>.\<close>

definition UnixMilli :: "time \<Rightarrow> int" where
  "UnixMilli t = t div millisecond"

definition payload :: "uuid \<Rightarrow> time \<Rightarrow> nonce \<Rightarrow> nat list" where
  "payload u exp n = big_endian 16 (unat u) @ big_endian 8 (nat (UnixMilli exp mod 2 ^ 64)) @ n"

text \<open>\<open>rand\<close>: the 16 random bytes, unless reading them fails. \<open>sign\<close>: HMAC-SHA256 with the key.\<close>

definition Issue :: "(nat list \<Rightarrow> nat list) \<Rightarrow> nonce option \<Rightarrow> time \<Rightarrow> uuid \<Rightarrow> string option" where
  "Issue sign rand now u = (case rand of None \<Rightarrow> None
     | Some n \<Rightarrow> (let p = payload u (now + TicketTTL) n in Some (EncodeToString (p @ sign p))))"

definition int64 :: "nat \<Rightarrow> int" where
  "int64 x = (if x < 2 ^ 63 then int x else int x - 2 ^ 64)"

definition expiry_of :: "nat list \<Rightarrow> time" where
  "expiry_of p = int64 (from_bytes (take 8 (drop 16 p))) * millisecond"

definition user_of :: "nat list \<Rightarrow> uuid" where
  "user_of p = of_nat (from_bytes (take 16 p))"

definition nonce_of :: "nat list \<Rightarrow> nonce" where
  "nonce_of p = drop 24 p"

text \<open>The first 40 bytes of a presented string, if the signature on them is right.\<close>

definition signed_payload :: "(nat list \<Rightarrow> nat list) \<Rightarrow> string \<Rightarrow> nat list option" where
  "signed_payload sign s = (case DecodeString s of None \<Rightarrow> None
     | Some raw \<Rightarrow> if length raw = ticketPayload + sha256_Size \<and> drop ticketPayload raw = sign (take ticketPayload raw)
         then Some (take ticketPayload raw) else None)"

text \<open>\<^verbatim>\<open>Redeem\<close>: what it looks at before it takes the mutex, with the clock read there, and its section.\<close>

definition check_ticket :: "(nat list \<Rightarrow> nat list) \<Rightarrow> time \<Rightarrow> string \<Rightarrow> nat list option" where
  "check_ticket sign now ticket = (case signed_payload sign ticket of
     None \<Rightarrow> None | Some p \<Rightarrow> if now < expiry_of p then Some p else None)"

definition use_ticket :: "time \<Rightarrow> nat list \<Rightarrow> Tickets \<Rightarrow> (uuid \<times> time) option \<times> Tickets" where
  "use_ticket now p t =
     (if map_of (tk_used t) (nonce_of p) \<noteq> None then (None, t)
      else (Some (user_of p, expiry_of p - TicketTTL),
        t\<lparr>tk_used := (nonce_of p, expiry_of p) # filter (\<lambda>x. now < snd x) (tk_used t)\<rparr>))"

definition Redeem :: "(nat list \<Rightarrow> nat list) \<Rightarrow> time \<Rightarrow> string \<Rightarrow> Tickets \<Rightarrow> (uuid \<times> time) option \<times> Tickets" where
  "Redeem sign now ticket t = (case check_ticket sign now ticket of None \<Rightarrow> (None, t) | Some p \<Rightarrow> use_ticket now p t)"

text \<open>\<^verbatim>\<open>wsAuth\<close>: the header if there is one (or no ticket), else the ticket and the revocation check.\<close>

definition wsAuth :: "jwt_parser \<Rightarrow> (nat list \<Rightarrow> nat list) \<Rightarrow> bool \<Rightarrow> nat \<Rightarrow> time \<Rightarrow> string \<Rightarrow> string \<Rightarrow>
    revocations \<times> Tickets \<Rightarrow> ('b resp + uuid) \<times> (revocations \<times> Tickets)" where
  "wsAuth parse sign flt srv now header ticket rt =
     (case rt of (r, t) \<Rightarrow>
      if header \<noteq> [] \<or> ticket = [] then
        (case Authenticate parse flt srv now header r of (res, r') \<Rightarrow> (res, (r', t)))
      else (case Redeem sign now ticket t of
          (None, t') \<Rightarrow> (Inl unauthorized, (r, t'))
        | (Some (u, issued), t') \<Rightarrow>
            (case Revoked flt srv now u (Some issued) r of
               (Some False, r') \<Rightarrow> (Inr u, (r', t'))
             | (_, r') \<Rightarrow> (Inl unauthorized, (r', t')))))"

definition wsTicket :: "(nat list \<Rightarrow> nat list) \<Rightarrow> nonce option \<Rightarrow> time \<Rightarrow> uuid option \<Rightarrow> (string \<times> int) resp" where
  "wsTicket sign rand now user =
     (case reqctx_User user of
        None \<Rightarrow> unauthorized
      | Some me \<Rightarrow> (case Issue sign rand now me of None \<Rightarrow> ServerError
          | Some t \<Rightarrow> JSON StatusOK (t, TicketTTL div second)))"


section \<open>What a ticket gives\<close>

lemma unat_uuid_less: "unat (u :: uuid) < 256 ^ 16"
  using unsigned_less [of u, where 'a = nat] by simp

lemma payload_parts:
  assumes "length n = 16" "0 \<le> UnixMilli exp" "UnixMilli exp < 2 ^ 63"
  shows "length (payload u exp n) = ticketPayload" "user_of (payload u exp n) = u"
    "expiry_of (payload u exp n) = UnixMilli exp * millisecond" "nonce_of (payload u exp n) = n"
proof -
  show "length (payload u exp n) = ticketPayload" "nonce_of (payload u exp n) = n"
    using assms(1) by (simp_all add: payload_def ticketPayload_def nonce_of_def)
  show "user_of (payload u exp n) = u"
    by (simp add: user_of_def payload_def from_big_endian [OF unat_uuid_less])
  have "nat (UnixMilli exp mod 2 ^ 64) = nat (UnixMilli exp)" using assms(2,3) by simp
  moreover have "nat (UnixMilli exp) < 256 ^ 8" using assms(2,3) by simp
  moreover have "int64 (nat (UnixMilli exp)) = UnixMilli exp" using assms(2,3) by (simp add: int64_def)
  ultimately show "expiry_of (payload u exp n) = UnixMilli exp * millisecond"
    by (simp only: expiry_of_def payload_def) (simp add: from_big_endian)
qed

text \<open>The times of the next 290 million years.\<close>

definition sane_time :: "time \<Rightarrow> bool" where
  "sane_time t \<longleftrightarrow> 0 \<le> t \<and> UnixMilli (t + TicketTTL) < 2 ^ 63"

definition hmac_ok :: "(nat list \<Rightarrow> nat list) \<Rightarrow> bool" where
  "hmac_ok sign \<longleftrightarrow> (\<forall>p. length (sign p) = sha256_Size \<and> (\<forall>b \<in> set (sign p). b < 256))"

lemma payload_bytes: "\<forall>b \<in> set n. b < 256 \<Longrightarrow> b \<in> set (payload u exp n) \<Longrightarrow> b < 256"
  by (auto simp: payload_def big_endian_bytes)

lemma sane_expiry:
  assumes "sane_time t0"
  shows "0 \<le> UnixMilli (t0 + TicketTTL)" "UnixMilli (t0 + TicketTTL) < 2 ^ 63"
    "UnixMilli (t0 + TicketTTL) * millisecond = trunc_ms (t0 + TicketTTL)"
proof -
  show "0 \<le> UnixMilli (t0 + TicketTTL)" "UnixMilli (t0 + TicketTTL) < 2 ^ 63"
    using assms by (simp_all add: sane_time_def UnixMilli_def TicketTTL_def pos_imp_zdiv_nonneg_iff)
  show "UnixMilli (t0 + TicketTTL) * millisecond = trunc_ms (t0 + TicketTTL)"
    by (simp add: UnixMilli_def trunc_ms_def minus_mod_eq_div_mult)
qed

text \<open>What the string that was issued says.\<close>

lemma issued_ticket:
  assumes "Issue sign (Some n) t0 u = Some ticket" "length n = 16" "\<forall>b \<in> set n. b < 256" "hmac_ok sign" "sane_time t0"
  obtains p where "signed_payload sign ticket = Some p" "user_of p = u" "expiry_of p = trunc_ms (t0 + TicketTTL)" "nonce_of p = n"
proof -
  let ?p = "payload u (t0 + TicketTTL) n"
  have t: "ticket = EncodeToString (?p @ sign ?p)" using assms(1) by (simp add: Issue_def Let_def)
  have b: "\<forall>b \<in> set (?p @ sign ?p). b < 256"
    using payload_bytes [OF assms(3)] assms(4) by (auto simp: hmac_ok_def)
  note e = sane_expiry [OF assms(5)]
  note parts = payload_parts [OF assms(2) e(1,2), of u]
  have "length (sign ?p) = sha256_Size" using assms(4) by (simp add: hmac_ok_def)
  with parts have "signed_payload sign ticket = Some ?p"
    by (simp add: t signed_payload_def Decode_Encode [OF b])
  with parts e(3) that show thesis by simp
qed

text \<open>
  A fresh ticket opens the socket: until thirty seconds after it was issued (to the
  millisecond), a ticket whose nonce has not been used is redeemed for the user it was issued to, with
  the time it was issued.
\<close>

theorem ticket_roundtrip:
  assumes "Issue sign (Some n) t0 u = Some ticket" "length n = 16" "\<forall>b \<in> set n. b < 256" "hmac_ok sign"
    "sane_time t0" "now < trunc_ms (t0 + TicketTTL)" "map_of (tk_used t) n = None"
  shows "fst (Redeem sign now ticket t) = Some (u, trunc_ms (t0 + TicketTTL) - TicketTTL)"
proof -
  obtain p where "signed_payload sign ticket = Some p" "user_of p = u" "expiry_of p = trunc_ms (t0 + TicketTTL)" "nonce_of p = n"
    by (rule issued_ticket [OF assms(1-5)])
  with assms(6,7) show ?thesis by (simp add: Redeem_def check_ticket_def use_ticket_def)
qed

text \<open>
  A run of the ticket service: tickets issued to users, and strings presented by anybody. A call of
  \<^verbatim>\<open>Redeem\<close> that passed its checks waits for the mutex, with the clock it read; other calls may overtake it.
  What was issued and what was redeemed is recorded beside the state.
\<close>

datatype ticket_op = IssueOp uuid nonce | CheckOp string | UseOp nat

record ticket_run =
  tr_tickets :: Tickets
  tr_waiting :: "(nat list \<times> time) list"
  tr_issued :: "(uuid \<times> time \<times> string) list"
  tr_redeemed :: "(nat list \<times> uuid \<times> time) list"

definition no_tickets :: ticket_run where
  "no_tickets = \<lparr>tr_tickets = \<lparr>tk_used = []\<rparr>, tr_waiting = [], tr_issued = [], tr_redeemed = []\<rparr>"

definition issued_payloads :: "(nat list \<Rightarrow> nat list) \<Rightarrow> ticket_run \<Rightarrow> nat list set" where
  "issued_payloads sign r = {p. \<exists>(u, t0, s) \<in> set (tr_issued r). signed_payload sign s = Some p}"

fun ticket_exec :: "(nat list \<Rightarrow> nat list) \<Rightarrow> time \<Rightarrow> ticket_op \<Rightarrow> ticket_run \<Rightarrow> ticket_run" where
  "ticket_exec sign now (IssueOp u n) r = (case Issue sign (Some n) now u of
     None \<Rightarrow> r | Some s \<Rightarrow> r\<lparr>tr_issued := (u, now, s) # tr_issued r\<rparr>)"
| "ticket_exec sign now (CheckOp s) r = (case check_ticket sign now s of
     None \<Rightarrow> r | Some p \<Rightarrow> r\<lparr>tr_waiting := tr_waiting r @ [(p, now)]\<rparr>)"
| "ticket_exec sign now (UseOp k) r =
     (if k < length (tr_waiting r) then
        (case tr_waiting r ! k of (p, at) \<Rightarrow>
           let r = r\<lparr>tr_waiting := take k (tr_waiting r) @ drop (Suc k) (tr_waiting r)\<rparr> in
           case use_ticket at p (tr_tickets r) of
             (None, t') \<Rightarrow> r\<lparr>tr_tickets := t'\<rparr>
           | (Some (u, i), t') \<Rightarrow> r\<lparr>tr_tickets := t', tr_redeemed := (p, u, at) # tr_redeemed r\<rparr>)
      else r)"

text \<open>
  Nobody without the key makes a right signature: a presented string that is rightly signed was
  issued. Nonces are 16 bytes, the clock does not go back, and no call waits for the mutex until its ticket
  has expired.
\<close>

inductive ticket_reachable :: "(nat list \<Rightarrow> nat list) \<Rightarrow> time \<Rightarrow> ticket_run \<Rightarrow> bool" for sign where
  start: "ticket_reachable sign t no_tickets"
| step: "ticket_reachable sign t r \<Longrightarrow> t \<le> now \<Longrightarrow> sane_time now \<Longrightarrow>
    (\<forall>u n. x = IssueOp u n \<longrightarrow> length n = 16 \<and> (\<forall>b \<in> set n. b < 256)) \<Longrightarrow>
    (\<forall>s p. x = CheckOp s \<longrightarrow> signed_payload sign s = Some p \<longrightarrow> p \<in> issued_payloads sign r) \<Longrightarrow>
    (\<forall>k. x = UseOp k \<longrightarrow> k < length (tr_waiting r) \<longrightarrow> now < expiry_of (fst (tr_waiting r ! k))) \<Longrightarrow>
    ticket_reachable sign now (ticket_exec sign now x r)"

text \<open>A payload admits \<open>u\<close> at \<open>at\<close>: a ticket was issued with it to \<open>u\<close>, less than thirty seconds before.\<close>

definition admits :: "(nat list \<Rightarrow> nat list) \<Rightarrow> ticket_run \<Rightarrow> nat list \<Rightarrow> uuid \<Rightarrow> time \<Rightarrow> bool" where
  "admits sign r p u at \<longleftrightarrow> (\<exists>t0 s. (u, t0, s) \<in> set (tr_issued r) \<and> signed_payload sign s = Some p \<and> t0 \<le> at \<and> at < t0 + TicketTTL)"

lemma admits_other [simp]: "admits sign (r\<lparr>tr_waiting := w\<rparr>) = admits sign r" "admits sign (r\<lparr>tr_tickets := t\<rparr>) = admits sign r"
  "admits sign (r\<lparr>tr_redeemed := x\<rparr>) = admits sign r"
  by (intro ext, simp add: admits_def)+

definition ticket_inv :: "(nat list \<Rightarrow> nat list) \<Rightarrow> time \<Rightarrow> ticket_run \<Rightarrow> bool" where
  "ticket_inv sign now r \<longleftrightarrow>
     (\<forall>(u, t0, s) \<in> set (tr_issued r). t0 \<le> now \<and> (\<exists>p. signed_payload sign s = Some p \<and> user_of p = u \<and> expiry_of p = trunc_ms (t0 + TicketTTL))) \<and>
     (\<forall>(p, at) \<in> set (tr_waiting r). at \<le> now \<and> admits sign r p (user_of p) at) \<and>
     (\<forall>(p, u, at) \<in> set (tr_redeemed r). admits sign r p u at) \<and>
     (\<forall>(p, u, at) \<in> set (tr_redeemed r). expiry_of p \<le> now \<or>
        map_of (tk_used (tr_tickets r)) (nonce_of p) = Some (expiry_of p)) \<and>
     distinct (map fst (tr_redeemed r))"

lemma map_of_filter_live: "map_of m k = Some e \<Longrightarrow> now < e \<Longrightarrow> map_of (filter (\<lambda>x. now < snd x) m) k = Some e"
  by (induction m) auto

lemma trunc_ms_le: "trunc_ms t \<le> t"
  by (simp add: trunc_ms_def millisecond_def)

lemma ticket_inv_later: "ticket_inv sign t r \<Longrightarrow> t \<le> now \<Longrightarrow> ticket_inv sign now r"
  unfolding ticket_inv_def by (fastforce split: prod.splits)

lemma issue_inv:
  assumes "ticket_inv sign now r" "hmac_ok sign" "sane_time now" "length n = 16" "\<forall>b \<in> set n. b < 256"
  shows "ticket_inv sign now (ticket_exec sign now (IssueOp u n) r)"
proof -
  obtain s where s: "Issue sign (Some n) now u = Some s" by (simp add: Issue_def Let_def)
  from issued_ticket [OF s assms(4,5,2,3)] obtain p where
    p: "signed_payload sign s = Some p" "user_of p = u" "expiry_of p = trunc_ms (now + TicketTTL)" by blast
  have "admits sign r q v at \<Longrightarrow> admits sign (r\<lparr>tr_issued := (u, now, s) # tr_issued r\<rparr>) q v at" for q v at
    by (auto simp: admits_def)
  with assms(1) p s show ?thesis by (auto simp: ticket_inv_def)
qed

lemma check_inv:
  assumes "ticket_inv sign now r" "\<And>p. signed_payload sign s = Some p \<Longrightarrow> p \<in> issued_payloads sign r"
  shows "ticket_inv sign now (ticket_exec sign now (CheckOp s) r)"
proof (cases "check_ticket sign now s")
  case None
  with assms(1) show ?thesis by simp
next
  case (Some q)
  then have q: "signed_payload sign s = Some q" "now < expiry_of q"
    by (auto simp: check_ticket_def split: option.splits if_splits)
  then obtain u t0 s' where iss: "(u, t0, s') \<in> set (tr_issued r)" "signed_payload sign s' = Some q"
    using assms(2) [OF q(1)] by (auto simp: issued_payloads_def)
  with assms(1) have "t0 \<le> now" "user_of q = u" "expiry_of q = trunc_ms (t0 + TicketTTL)" by (auto simp: ticket_inv_def)
  with iss q(2) trunc_ms_le [of "t0 + TicketTTL"] have "admits sign r q (user_of q) now" by (force simp: admits_def)
  with assms(1) show ?thesis by (auto simp: ticket_inv_def Some)
qed

lemma use_inv:
  assumes "ticket_inv sign now r" "k < length (tr_waiting r) \<Longrightarrow> now < expiry_of (fst (tr_waiting r ! k))"
  shows "ticket_inv sign now (ticket_exec sign now (UseOp k) r)"
proof (cases "k < length (tr_waiting r)")
  case False
  with assms(1) show ?thesis by simp
next
  case True
  obtain p at where w: "tr_waiting r ! k = (p, at)" by fastforce
  with True have "(p, at) \<in> set (tr_waiting r)" by (metis nth_mem)
  with assms(1) have at: "at \<le> now" "admits sign r p (user_of p) at" by (auto simp: ticket_inv_def)
  have live: "now < expiry_of p" using assms(2) True w by simp
  let ?w = "take k (tr_waiting r) @ drop (Suc k) (tr_waiting r)" and ?t = "tr_tickets r"
  have sub: "set ?w \<subseteq> set (tr_waiting r)" by (auto dest: in_set_takeD in_set_dropD)
  show ?thesis
  proof (cases "map_of (tk_used ?t) (nonce_of p)")
    case (Some e)
    then have "ticket_exec sign now (UseOp k) r = r\<lparr>tr_waiting := ?w, tr_tickets := ?t\<rparr>"
      using True w by (simp add: use_ticket_def)
    with assms(1) sub show ?thesis by (auto simp: ticket_inv_def)
  next
    case None
    let ?u = "?t\<lparr>tk_used := (nonce_of p, expiry_of p) # filter (\<lambda>x. at < snd x) (tk_used ?t)\<rparr>"
    have ex: "ticket_exec sign now (UseOp k) r = r\<lparr>tr_waiting := ?w, tr_tickets := ?u, tr_redeemed := (p, user_of p, at) # tr_redeemed r\<rparr>"
      using True w None by (simp add: use_ticket_def)
    have new: "p \<notin> fst ` set (tr_redeemed r)"
    proof
      assume "p \<in> fst ` set (tr_redeemed r)"
      then have "expiry_of p \<le> now \<or> map_of (tk_used ?t) (nonce_of p) = Some (expiry_of p)" using assms(1) by (auto simp: ticket_inv_def)
      with live None show False by simp
    qed
    have kept: "expiry_of q \<le> now \<or> map_of (tk_used ?u) (nonce_of q) = Some (expiry_of q)" if "(q, v, a) \<in> set (tr_redeemed r)" for q v a
    proof -
      have "expiry_of q \<le> now \<or> map_of (tk_used ?t) (nonce_of q) = Some (expiry_of q)" using assms(1) that by (auto simp: ticket_inv_def)
      then show ?thesis
        using None at(1) map_of_filter_live [of "tk_used ?t" "nonce_of q" "expiry_of q" at] by (cases "now < expiry_of q") auto
    qed
    from assms(1) sub new kept at show ?thesis unfolding ex ticket_inv_def by auto
  qed
qed

lemma ticket_inv_reachable:
  assumes "hmac_ok sign" "ticket_reachable sign t r"
  shows "ticket_inv sign t r"
  using assms(2)
proof (induction rule: ticket_reachable.induct)
  case (step t r now x)
  have "ticket_inv sign now r" using ticket_inv_later step by blast
  then show ?case
  proof (cases x)
    case (IssueOp u n)
    with step assms(1) \<open>ticket_inv sign now r\<close> show ?thesis by (auto simp del: ticket_exec.simps intro!: issue_inv)
  next
    case (CheckOp s)
    with step \<open>ticket_inv sign now r\<close> show ?thesis by (auto simp del: ticket_exec.simps intro!: check_inv)
  next
    case (UseOp k)
    with step \<open>ticket_inv sign now r\<close> show ?thesis by (auto simp del: ticket_exec.simps intro!: use_inv)
  qed
qed (simp add: ticket_inv_def no_tickets_def)

text \<open>
  C34: tickets work once, only for their user and only for thirty seconds: in every run of issuing
  tickets and presenting arbitrary strings, with calls overtaking each other before the mutex, each redeemed
  ticket was issued to the user it admits, less than thirty seconds before it was looked at, and no ticket is
  redeemed twice. Assumed: signatures cannot be forged, and no call waits for the mutex until its ticket has
  expired.
\<close>

theorem tickets_work_once:
  assumes "hmac_ok sign" "ticket_reachable sign t r"
  shows "distinct (map fst (tr_redeemed r)) \<and>
    (\<forall>(p, u, at) \<in> set (tr_redeemed r). \<exists>t0 s. (u, t0, s) \<in> set (tr_issued r) \<and> signed_payload sign s = Some p \<and>
      t0 \<le> at \<and> at < t0 + TicketTTL)"
  using ticket_inv_reachable [OF assms] by (simp add: ticket_inv_def admits_def)

text \<open>Ann gets a ticket and opens her socket with it. The keyed hash here is constant.\<close>

definition flat_sign :: "nat list \<Rightarrow> nat list" where
  "flat_sign p = replicate 32 7"

lemma hmac_ok_flat: "hmac_ok flat_sign"
  by (simp add: hmac_ok_def flat_sign_def sha256_Size_def)

definition ann_ticket :: string where
  "ann_ticket = EncodeToString (payload 1 TicketTTL (replicate 16 5) @ flat_sign [])"

lemma Issue_ann: "Issue flat_sign (Some (replicate 16 5)) 0 1 = Some ann_ticket"
  by (simp add: Issue_def ann_ticket_def flat_sign_def Let_def)

lemma sane_0: "sane_time 0" "trunc_ms (0 + TicketTTL) = TicketTTL"
  by (simp_all add: sane_time_def UnixMilli_def TicketTTL_def duration_defs trunc_ms_def)

theorem ticket_roundtrip_witness:
  "fst (Redeem flat_sign (5 * second) ann_ticket \<lparr>tk_used = []\<rparr>) = Some (1, 0)"
  using ticket_roundtrip [OF Issue_ann _ _ hmac_ok_flat sane_0(1), of "5 * second" "\<lparr>tk_used = []\<rparr>"]
  by (simp add: sane_0(2) [simplified]) (simp add: TicketTTL_def second_def)

lemma reachable_issued:
  "ticket_reachable flat_sign 0 (no_tickets\<lparr>tr_issued := [(1, 0, ann_ticket)]\<rparr>)"
  using ticket_reachable.step [OF ticket_reachable.start [of flat_sign 0], of 0 "IssueOp 1 (replicate 16 5)"]
  by (simp add: sane_0 no_tickets_def Issue_ann)

lemma ann_signed:
  obtains p where "signed_payload flat_sign ann_ticket = Some p" "user_of p = 1" "expiry_of p = TicketTTL" "nonce_of p = replicate 16 5"
  using issued_ticket [OF Issue_ann _ _ hmac_ok_flat sane_0(1)] by (auto simp: sane_0(2) [simplified])

theorem tickets_work_once_witness:
  "\<exists>r p. ticket_reachable flat_sign (5 * second) r \<and> tr_redeemed r = [(p, 1, 5 * second)]"
proof -
  obtain p where p: "signed_payload flat_sign ann_ticket = Some p" "user_of p = 1" "expiry_of p = TicketTTL" "nonce_of p = replicate 16 5"
    by (rule ann_signed)
  let ?r = "no_tickets\<lparr>tr_issued := [(1, 0, ann_ticket)]\<rparr>"
  have live: "5 * second < TicketTTL" by (simp add: TicketTTL_def second_def)
  have sane: "sane_time (5 * second)" by (simp add: sane_time_def UnixMilli_def TicketTTL_def duration_defs)
  have 1: "ticket_reachable flat_sign (5 * second) (?r\<lparr>tr_waiting := [(p, 5 * second)]\<rparr>)"
    using ticket_reachable.step [OF reachable_issued, of "5 * second" "CheckOp ann_ticket"] sane live p
    by (simp add: check_ticket_def issued_payloads_def no_tickets_def second_def)
  have "ticket_reachable flat_sign (5 * second) (ticket_exec flat_sign (5 * second) (UseOp 0) (?r\<lparr>tr_waiting := [(p, 5 * second)]\<rparr>))"
    using ticket_reachable.step [OF 1, of "5 * second" "UseOp 0"] sane live p by simp
  moreover have "tr_redeemed (ticket_exec flat_sign (5 * second) (UseOp 0) (?r\<lparr>tr_waiting := [(p, 5 * second)]\<rparr>)) = [(p, 1, 5 * second)]"
    using p by (simp add: no_tickets_def use_ticket_def)
  ultimately show ?thesis using tickets_work_once [OF hmac_ok_flat] by blast
qed

text \<open>
  A call that waits too long: ann's ticket is used; another call, at the end of its thirty seconds, forgets
  its nonce; and a second call with the ticket, which looked at the clock in time, is admitted.
\<close>

lemma overtaken_ticket_works_twice:
  assumes "nonce_of p = n" "nonce_of q = m" "n \<noteq> m" "at < expiry_of p" "expiry_of p \<le> at'" "map_of (tk_used t) n = None" "map_of (tk_used t) m = None"
  shows "\<exists>t1 t2 t3. use_ticket at p t = (Some (user_of p, expiry_of p - TicketTTL), t1) \<and> fst (use_ticket at' q t1) \<noteq> None \<and> snd (use_ticket at' q t1) = t2 \<and>
    use_ticket at p t2 = (Some (user_of p, expiry_of p - TicketTTL), t3)"
proof -
  have "map_of (filter (\<lambda>x. a < snd x \<and> b < snd x) ys) n = None" if "map_of ys n = None" for a b :: time and ys :: "(nonce \<times> time) list"
    using that by (induction ys) (auto split: if_splits)
  moreover have "map_of (filter (\<lambda>x. a < snd x) ys) m = None" if "map_of ys m = None" for a :: time and ys :: "(nonce \<times> time) list"
    using that by (induction ys) (auto split: if_splits)
  ultimately show ?thesis using assms by (simp add: use_ticket_def conj_commute)
qed

end
