(* ===== verification/Users_HTTP.thy ===== *)
theory Users_HTTP
  imports Users
begin

text \<open>
  \<^verbatim>\<open>users/handler.go\<close>. A request comes with its path id, if that is one, and its decoded body, if it has one.
\<close>

definition StatusTooLarge :: int where "StatusTooLarge = 413"
definition StatusUnchanged :: int where "StatusUnchanged = 304"

definition respond :: "('e fail \<Rightarrow> 'b resp) \<Rightarrow> ('a \<Rightarrow> 'b resp) \<Rightarrow> ('s, 'e, 'a) op \<Rightarrow> 's \<Rightarrow> 'b resp \<times> 's" where
  "respond fail f m s = (case m s of (Inl x, s') \<Rightarrow> (fail x, s') | (Inr a, s') \<Rightarrow> (f a, s'))"

definition on_user :: "uuid option \<Rightarrow> uuid option \<Rightarrow> (uuid \<Rightarrow> uuid \<Rightarrow> 's \<Rightarrow> 'b resp \<times> 's) \<Rightarrow> 's \<Rightarrow> 'b resp \<times> 's" where
  "on_user ctx path f = as_user ctx (\<lambda>me s. case path of
     None \<Rightarrow> (Error StatusBadRequest ''invalid user id'', s) | Some i \<Rightarrow> f me i s)"

definition no_user_found :: "int \<Rightarrow> string \<Rightarrow> users_err fail \<Rightarrow> 'b resp" where
  "no_user_found st msg x = (if x = Sentinel ErrNoUser then Error st msg else ServerError)"

record PasswordUpdateStruct =
  pw_OldPass :: string
  pw_NewPass :: string

text \<open>The answer carries the account, which \<^verbatim>\<open>toUser\<close> turns into JSON.\<close>

definition password_fail :: "auth_err fail \<Rightarrow> 'b resp" where
  "password_fail x =
     (if x = Sentinel ErrBadInput then Error StatusBadRequest ''password must be 8-128 characters with at least one of @$!%*?&''
      else if x = Sentinel ErrPassNotMatch then unauthorized
      else if x = Sentinel ErrNoPassword then Error StatusConflict ''this account signs in with Google and has no password; set one with password reset''
      else if x = Sentinel ErrNoSuchUser then Error StatusNotFound ''no user found''
      else ServerError)"

definition auth_respond :: "(auth_err fail \<Rightarrow> 'b resp) \<Rightarrow> ('a \<Rightarrow> 'b resp) \<Rightarrow> 'a auth_op \<Rightarrow> auth_sys \<Rightarrow> 'b resp \<times> auth_sys \<times> auth_effect list" where
  "auth_respond fail f m s = (case m s of (Inl x, s', out) \<Rightarrow> (fail x, s', out) | (Inr a, s', out) \<Rightarrow> (f a, s', out))"

definition UpdatePasswordHandler ::
    "auth_env \<Rightarrow> auth_conf \<Rightarrow> uuid option \<Rightarrow> PasswordUpdateStruct option \<Rightarrow> auth_sys \<Rightarrow> User resp \<times> auth_sys \<times> auth_effect list" where
  "UpdatePasswordHandler e c ctx body s = (case reqctx_User ctx of
     None \<Rightarrow> (unauthorized, s, [])
   | Some me \<Rightarrow> (case body of
       None \<Rightarrow> (Error StatusBadRequest ''invalid params'', s, [])
     | Some p \<Rightarrow> auth_respond password_fail (JSON StatusOK \<circ> toUser (ae_now e)) (UpdatePassword e c me (pw_OldPass p) (pw_NewPass p)) s))"

definition LogoutAllHandler :: "auth_env \<Rightarrow> auth_conf \<Rightarrow> uuid option \<Rightarrow> auth_sys \<Rightarrow> unit resp \<times> auth_sys \<times> auth_effect list" where
  "LogoutAllHandler e c ctx s = (case reqctx_User ctx of
     None \<Rightarrow> (unauthorized, s, [])
   | Some me \<Rightarrow> auth_respond (\<lambda>_. ServerError) (\<lambda>_. WriteHeader StatusNoContent) (LogoutAll e c me) s)"

definition search_fail :: "users_err fail \<Rightarrow> 'b resp" where
  "search_fail x = (if x = Sentinel ErrInvalidInput then Error StatusBadRequest ''q must be 1-25 characters'' else ServerError)"

definition SearchUserHandler :: "users_env \<Rightarrow> uuid option \<Rightarrow> string \<Rightarrow> users_sys \<Rightarrow> PublicUser list resp \<times> users_sys" where
  "SearchUserHandler e ctx q = as_user ctx (\<lambda>me. respond search_fail (JSON StatusOK) (SearchUser e me q))"

definition MeHandler :: "users_env \<Rightarrow> uuid option \<Rightarrow> users_sys \<Rightarrow> User resp \<times> users_sys" where
  "MeHandler e ctx = as_user ctx (\<lambda>me. respond (no_user_found StatusUnauthorized ''unauthorized'') (JSON StatusOK) (Me e me))"

definition users_text :: "users_env \<Rightarrow> users_err \<Rightarrow> string" where
  "users_text e x = (case x of
     ErrBioTooLong \<Rightarrow> ''bio must be at most 150 characters''
   | ErrBadPlace \<Rightarrow> ''location must be an id from GET /api/discover/options''
   | ErrBadInterests \<Rightarrow> ''interests must be up to 10 ids from GET /api/discover/options''
   | ErrBadDisplayName \<Rightarrow> ''display name must be 1-50 characters without line breaks or invisible characters''
   | ErrNoImage \<Rightarrow> ''upload a JPEG, PNG or WebP image''
   | ErrHugeImage \<Rightarrow> ''image is too large (at most 5 MB and 40 megapixels)''
   | RenameTooSoon t \<Rightarrow> ''you can change your username again after '' @ ue_rfc3339 e t
   | _ \<Rightarrow> [])"

definition update_fail :: "users_env \<Rightarrow> users_err fail \<Rightarrow> 'b resp" where
  "update_fail e x = (case x of
     DbFail _ \<Rightarrow> ServerError
   | Sentinel err \<Rightarrow>
       if err = ErrInvalidInput then Error StatusBadRequest ''send at least one field; username is 3-25 characters: a-z, 0-9, _ and .''
       else if err \<in> {ErrBioTooLong, ErrBadPlace, ErrBadInterests, ErrBadDisplayName} then Error StatusBadRequest (users_text e err)
       else if err = ErrNameTaken then Error StatusConflict ''username taken''
       else (case err of RenameTooSoon t \<Rightarrow> Error StatusForbidden (users_text e err)
         | ErrNoUser \<Rightarrow> unauthorized
         | _ \<Rightarrow> ServerError))"

definition UpdateMeHandler :: "users_env \<Rightarrow> uuid option \<Rightarrow> UpdateProfileRequest option \<Rightarrow> users_sys \<Rightarrow> User resp \<times> users_sys" where
  "UpdateMeHandler e ctx body = as_user ctx (\<lambda>me s. case body of
     None \<Rightarrow> (Error StatusBadRequest ''invalid parameters'', s)
   | Some req \<Rightarrow> respond (update_fail e) (JSON StatusOK) (UpdateProfile e me req) s)"

definition ProfileHandler :: "users_env \<Rightarrow> uuid option \<Rightarrow> uuid option \<Rightarrow> users_sys \<Rightarrow> Profile resp \<times> users_sys" where
  "ProfileHandler e ctx path = on_user ctx path (\<lambda>me i.
     respond (no_user_found StatusNotFound ''no user found'') (JSON StatusOK) (View_profile e me i))"

text \<open>An upload: the connection fails, or the body is read up to the limit.\<close>

definition avatar_fail :: "users_env \<Rightarrow> users_err fail \<Rightarrow> 'b resp" where
  "avatar_fail e x =
     (if x = Sentinel ErrNoImage then Error StatusBadRequest (users_text e ErrNoImage)
      else if x = Sentinel ErrHugeImage then Error StatusTooLarge (users_text e ErrHugeImage)
      else ServerError)"

definition UploadAvatarHandler :: "users_env \<Rightarrow> uuid option \<Rightarrow> string option \<Rightarrow> users_sys \<Rightarrow> User resp \<times> users_sys" where
  "UploadAvatarHandler e ctx body = as_user ctx (\<lambda>me s. case body of
     None \<Rightarrow> (Error StatusBadRequest ''could not read the upload'', s)
   | Some raw \<Rightarrow>
       if length raw > MaxAvatarUpload then (Error StatusTooLarge (users_text e ErrHugeImage), s)
       else respond (avatar_fail e) (JSON StatusOK) (SetAvatar e me raw) s)"

definition DeleteMyAvatarHandler :: "users_env \<Rightarrow> uuid option \<Rightarrow> users_sys \<Rightarrow> unit resp \<times> users_sys" where
  "DeleteMyAvatarHandler e ctx = as_user ctx (\<lambda>me. respond (\<lambda>_. ServerError) (\<lambda>_. WriteHeader StatusNoContent) (DeleteAvatar e me))"

text \<open>\<open>etags\<close> is the quoted decimal form of a time in milliseconds, \<open>ifNone\<close> the header of the request.\<close>

definition UserAvatarHandler :: "users_env \<Rightarrow> (int \<Rightarrow> string) \<Rightarrow> uuid option \<Rightarrow> uuid option \<Rightarrow> string \<Rightarrow> users_sys \<Rightarrow> string resp \<times> users_sys" where
  "UserAvatarHandler e etags ctx path ifNone = on_user ctx path (\<lambda>me i.
     respond (no_user_found StatusNotFound ''no avatar'')
       (\<lambda>(img, at). if ifNone = etags (at div millisecond) then WriteHeader StatusUnchanged else JSON StatusOK img) (Avatar e me i))"

end
