(* ===== verification/Users_Safety.thy ===== *)
theory Users_Safety
  imports Users
begin

text \<open>
  Who sees what of a profile; usernames and how often they change; what the tables of profiles keep.
\<close>

section \<open>Answers do not change anything\<close>

lemma users_query_Inr [simp]: "users_query flt q s = (Inr a, t) \<longleftrightarrow> \<not> flt \<and> q (us_db s) = Inr a \<and> t = s"
  by (auto simp: users_query_def)

lemma users_exec_Inr [simp]: "users_exec flt f s = (Inr u, t) \<longleftrightarrow> \<not> flt \<and> (\<exists>d. f (us_db s) = Inr d \<and> t = s\<lparr>us_db := d\<rparr>)"
  by (cases "f (us_db s)") (auto simp: users_exec_def)

section \<open>Who sees what\<close>

lemma GetInterests_set: "GetInterests coll i d = Inr xs \<Longrightarrow> set xs = {x. (i, x) \<in> set (user_interests d)}"
  by (force simp: GetInterests_def)

lemma profile_row:
  assumes "GetPublicProfile i viewer d = Inr p"
  shows "\<exists>u \<in> set (users (pd_db d)). u_id u = i \<and> u_banned_at u = None \<and> unblocked i viewer (pd_db d) \<and>
    p = \<lparr>pq_ID = i, pq_Name = u_name u, pq_DisplayName = u_display_name u, pq_Bio = u_bio u,
         pq_AvatarAt = u_avatar_at u, pq_LocationID = u_location_id u, pq_Discoverable = u_discoverable u\<rparr>"
  using assms by (auto simp: GetPublicProfile_def dest!: find_row_Some)

lemma profile_shown:
  assumes "View_profile e viewer i s = (Inr p, t)"
  shows "t = s \<and> (\<exists>u \<in> set (users (pd_db (us_db s))). u_id u = i \<and> u_banned_at u = None \<and> unblocked i viewer (pd_db (us_db s)) \<and>
    po_ID p = i \<and> po_Name p = u_name u \<and> po_DisplayName p = ShownName (u_name u) (u_display_name u) \<and> po_Bio p = u_bio u \<and>
    po_AvatarURL p = AvatarURLFrom i (u_avatar_at u) \<and>
    (if u_discoverable u \<or> viewer = i \<or> are_friends_db i viewer (pd_db (us_db s))
     then po_Location p = PlaceOf (u_location_id u) \<and> set (po_Interests p) = {x. (i, x) \<in> set (user_interests (us_db s))}
     else po_Location p = None \<and> po_Interests p = []))"
proof -
  let ?out = "\<lambda>q. \<lparr>po_ID = pq_ID q, po_Name = pq_Name q, po_DisplayName = ShownName (pq_Name q) (pq_DisplayName q), po_Bio = pq_Bio q,
      po_AvatarURL = AvatarURLFrom (pq_ID q) (pq_AvatarAt q), po_Location = None, po_Interests = []\<rparr>"
  obtain q where q: "GetPublicProfile i viewer (us_db s) = Inr q"
      and rest: "andDo (visible_to e i viewer q) (\<lambda>visible. if visible then andDo (Interests e i) (\<lambda>ids.
          ret ((?out q)\<lparr>po_Location := PlaceOf (pq_LocationID q), po_Interests := ids\<rparr>)) else ret (?out q)) s = (Inr p, t)"
    using assms unfolding View_profile_def PublicProfile_def Let_def by (rule andDoE) simp
  from rest obtain vis s' where vis: "visible_to e i viewer q s = (Inr vis, s')"
      and ans: "(if vis then andDo (Interests e i) (\<lambda>ids. ret ((?out q)\<lparr>po_Location := PlaceOf (pq_LocationID q), po_Interests := ids\<rparr>)) else ret (?out q)) s' = (Inr p, t)"
    by (rule andDoE)
  have s': "s' = s" using vis by (auto simp: visible_to_def split: if_splits)
  have p: "if vis then \<exists>ids. GetInterests (ue_coll e) i (us_db s) = Inr ids \<and> t = s \<and>
        p = (?out q)\<lparr>po_Location := PlaceOf (pq_LocationID q), po_Interests := ids\<rparr> else t = s \<and> p = ?out q"
    using ans unfolding s' by (cases vis) (auto simp: Interests_def andDo_Inr)
  from profile_row [OF q] obtain u where u: "u \<in> set (users (pd_db (us_db s)))" "u_id u = i" "u_banned_at u = None"
      "unblocked i viewer (pd_db (us_db s))"
      "q = \<lparr>pq_ID = i, pq_Name = u_name u, pq_DisplayName = u_display_name u, pq_Bio = u_bio u,
         pq_AvatarAt = u_avatar_at u, pq_LocationID = u_location_id u, pq_Discoverable = u_discoverable u\<rparr>" by blast
  have "vis \<longleftrightarrow> u_discoverable u \<or> viewer = i \<or> are_friends_db i viewer (pd_db (us_db s))"
    using vis by (auto simp: visible_to_def u(5) AreFriendsSQL_def split: if_splits)
  with p u show ?thesis by (cases vis) (auto dest: GetInterests_set intro!: bexI [of _ u])
qed

lemma searched_users:
  assumes "SearchUser e me q s = (Inr xs, t)" "x \<in> set xs"
  shows "\<exists>u \<in> set (users (pd_db (us_db s))). u_id u = pu_ID x \<and> u_banned_at u = None \<and> unblocked (u_id u) me (pd_db (us_db s)) \<and>
    pu_Name x = u_name u \<and> pu_DisplayName x = ShownName (u_name u) (u_display_name u)"
proof -
  obtain rows where rows: "SearchNameSiml (ue_coll e) (ue_tg e) (TrimSpace q) me (us_db s) = Inr rows"
      and xs: "xs = map (\<lambda>v. \<lparr>pu_ID = sr_ID v, pu_Name = sr_Name v, pu_DisplayName = ShownName (sr_Name v) (sr_DisplayName v),
       pu_AvatarURL = AvatarURLFrom (sr_ID v) (sr_AvatarAt v)\<rparr>) rows"
    using assms(1) by (auto simp: SearchUser_def SearchByName_def Let_def andDo_Inr split: if_splits)
  obtain v where v: "v \<in> set rows" "pu_ID x = sr_ID v" "pu_Name x = sr_Name v" "pu_DisplayName x = ShownName (sr_Name v) (sr_DisplayName v)"
    using assms(2) unfolding xs by auto
  from rows obtain L where "rows = take 20 L" "set L = (\<lambda>u. \<lparr>sr_ID = u_id u, sr_Name = u_name u, sr_DisplayName = u_display_name u,
      sr_AvatarAt = u_avatar_at u, sr_Similarity = max (similarity (ue_tg e) (u_name u) (TrimSpace q)) (similarity (ue_tg e) (u_display_name u) (TrimSpace q))\<rparr>) `
      {u \<in> set (users (pd_db (us_db s))). (alike (ue_tg e) (u_name u) (TrimSpace q) \<or> alike (ue_tg e) (u_display_name u) (TrimSpace q)) \<and>
        u_banned_at u = None \<and> unblocked (u_id u) me (pd_db (us_db s))}"
    by (auto simp: SearchNameSiml_def split: if_splits)
  with v show ?thesis using in_set_takeD [of v 20 L] by auto
qed

text \<open>
  C17: Profiles, the search for people and pictures are never shown across a block, and profiles and the search
  not of somebody banned; a profile is as the tables have it, and its place and interests are shown exactly
  to friends, to oneself, and to everybody if the user chose to be found.
\<close>

theorem profiles_stay_private:
  shows "(\<forall>p t. View_profile e viewer i s = (Inr p, t) \<longrightarrow>
      (\<exists>u \<in> set (users (pd_db (us_db s))). u_id u = i \<and> po_ID p = i \<and> po_Name p = u_name u \<and> po_Bio p = u_bio u \<and> u_banned_at u = None \<and>
        \<not> blocks_db i viewer (pd_db (us_db s)) \<and> \<not> blocks_db viewer i (pd_db (us_db s)) \<and>
        (if u_discoverable u \<or> viewer = i \<or> are_friends_db i viewer (pd_db (us_db s))
         then po_Location p = PlaceOf (u_location_id u) \<and> set (po_Interests p) = {x. (i, x) \<in> set (user_interests (us_db s))}
         else po_Location p = None \<and> po_Interests p = []))) \<and>
    (\<forall>q xs t. SearchUser e viewer q s = (Inr xs, t) \<longrightarrow> (\<forall>x \<in> set xs. \<exists>u \<in> set (users (pd_db (us_db s))). u_id u = pu_ID x \<and>
        pu_Name x = u_name u \<and> u_banned_at u = None \<and>
        \<not> blocks_db (u_id u) viewer (pd_db (us_db s)) \<and> \<not> blocks_db viewer (u_id u) (pd_db (us_db s)))) \<and>
    (\<forall>img at t. Avatar e viewer i s = (Inr (img, at), t) \<longrightarrow>
        \<not> blocks_db i viewer (pd_db (us_db s)) \<and> \<not> blocks_db viewer i (pd_db (us_db s)))"
proof (intro conjI allI impI ballI)
  fix p t assume "View_profile e viewer i s = (Inr p, t)"
  from profile_shown [OF this] show "\<exists>u \<in> set (users (pd_db (us_db s))). u_id u = i \<and> po_ID p = i \<and> po_Name p = u_name u \<and> po_Bio p = u_bio u \<and> u_banned_at u = None \<and>
        \<not> blocks_db i viewer (pd_db (us_db s)) \<and> \<not> blocks_db viewer i (pd_db (us_db s)) \<and>
        (if u_discoverable u \<or> viewer = i \<or> are_friends_db i viewer (pd_db (us_db s))
         then po_Location p = PlaceOf (u_location_id u) \<and> set (po_Interests p) = {x. (i, x) \<in> set (user_interests (us_db s))}
         else po_Location p = None \<and> po_Interests p = [])"
    unfolding unblocked_def by blast
next
  fix q xs t x assume "SearchUser e viewer q s = (Inr xs, t)" "x \<in> set xs"
  from searched_users [OF this] show "\<exists>u \<in> set (users (pd_db (us_db s))). u_id u = pu_ID x \<and>
        pu_Name x = u_name u \<and> u_banned_at u = None \<and>
        \<not> blocks_db (u_id u) viewer (pd_db (us_db s)) \<and> \<not> blocks_db viewer (u_id u) (pd_db (us_db s))"
    unfolding unblocked_def by blast
next
  fix img at t assume "Avatar e viewer i s = (Inr (img, at), t)"
  then show "\<not> blocks_db i viewer (pd_db (us_db s))" "\<not> blocks_db viewer i (pd_db (us_db s))"
    by (auto simp: Avatar_def repo_Avatar_def GetAvatar_def unblocked_def dest!: find_row_Some)
qed

text \<open>1 is a friend of nobody and hides; 2, whom 1 does not block, looks at the profile.\<close>

definition hiding :: users_sys where
  "hiding = \<lparr>us_db = \<lparr>pd_db = empty_db\<lparr>users := [(new_user 1 ''ann'')\<lparr>u_bio := ''hi'', u_location_id := Some ''jp-tokyo''\<rparr>, new_user 2 ''bob'']\<rparr>,
     user_avatars = [], user_interests = [(1, ''chess'')]\<rparr>, us_names = \<lambda>_. None, us_out = []\<rparr>"

definition looking :: "imaging \<Rightarrow> auth_conf \<Rightarrow> users_env" where
  "looking im c = \<lparr>ue_fails = \<lambda>_. False, ue_now = 0, ue_dbnow = 0, ue_conf = c, ue_coll = id,
     ue_tg = \<lparr>alike = (=), similarity = \<lambda>_ _. 0\<rparr>, ue_imaging = im, ue_rfc3339 = \<lambda>_. []\<rparr>"

theorem profiles_stay_private_witness:
  "\<forall>im c. \<exists>p. View_profile (looking im c) 2 1 hiding = (Inr p, hiding) \<and> po_Bio p = ''hi'' \<and> po_Location p = None \<and> po_Interests p = []"
proof (intro allI)
  fix im c
  have "\<exists>p. View_profile (looking im c) 2 1 hiding = (Inr p, hiding)"
    by (simp add: View_profile_def PublicProfile_def GetPublicProfile_def looking_def hiding_def empty_db_def new_user_def unblocked_def
        blocks_db_def exists_row_def visible_to_def AreFriendsSQL_def are_friends_db_def or_none_def andDo_def users_query_def
        sql_query_def faulty_def one_row_def ret_def Let_def)
  then obtain p where p: "View_profile (looking im c) 2 1 hiding = (Inr p, hiding)" by blast
  with profiles_stay_private [of "looking im c" 2 1 hiding]
  have "\<exists>u \<in> set (users (pd_db (us_db hiding))). u_id u = 1 \<and> po_ID p = 1 \<and> po_Name p = u_name u \<and> po_Bio p = u_bio u \<and> u_banned_at u = None \<and>
        \<not> blocks_db 1 2 (pd_db (us_db hiding)) \<and> \<not> blocks_db 2 1 (pd_db (us_db hiding)) \<and>
        (if u_discoverable u \<or> (2::uuid) = 1 \<or> are_friends_db 1 2 (pd_db (us_db hiding))
         then po_Location p = PlaceOf (u_location_id u) \<and> set (po_Interests p) = {x. (1, x) \<in> set (user_interests (us_db hiding))}
         else po_Location p = None \<and> po_Interests p = [])" by blast
  then show "\<exists>p. View_profile (looking im c) 2 1 hiding = (Inr p, hiding) \<and> po_Bio p = ''hi'' \<and> po_Location p = None \<and> po_Interests p = []"
    using p by (auto simp: hiding_def new_user_def empty_db_def are_friends_db_def exists_row_def)
qed

section \<open>Statements, requests and runs\<close>

lemma holds_users_query [keeps]: "holds_after P (users_query flt q)"
  unfolding users_query_def by (rule keeps)

lemma holds_users_exec:
  "(\<And>d d'. P d \<Longrightarrow> f d = Inr d' \<Longrightarrow> P d') \<Longrightarrow> holds_after (\<lambda>s. P (us_db s)) (users_exec flt f)"
  unfolding users_exec_def by (rule holds_exec) (auto simp: map_sum_def split: sum.splits)

lemma holds_users_alter:
  "(\<And>d a d'. P d \<Longrightarrow> f d = Inr (a, d') \<Longrightarrow> P d') \<Longrightarrow> holds_after (\<lambda>s. P (us_db s)) (users_alter flt f)"
  unfolding users_alter_def by (rule holds_alter) (auto simp: map_sum_def split: sum.splits prod.splits)

lemma holds_outside [keeps]: "holds_after (\<lambda>s. P (us_db s)) (SetNames e i name)" "holds_after (\<lambda>s. P (us_db s)) (profileChanged i)"
  by (simp_all add: holds_after_def SetNames_def profileChanged_def)

lemma holds_given [keeps]: "(\<And>a. x = Some a \<Longrightarrow> holds_after P (f a)) \<Longrightarrow> holds_after P (given x f)"
  by (cases x) (auto simp: given_def intro: keeps)

lemma ruled: "rule f x k = Inr y \<Longrightarrow> (\<And>b. k b = Inr y \<Longrightarrow> (case b of None \<Rightarrow> True | Some v \<Rightarrow> \<exists>a. f a = Inr v) \<Longrightarrow> thesis) \<Longrightarrow> thesis"
  by (cases x; cases "f (the x)"; fastforce simp: rule_def)

lemma checked_values:
  assumes "checked c req = Inr p"
  shows "\<And>x. pc_DisplayName p = Some x \<Longrightarrow> ValidateDisplayName x"
    "\<And>x. pc_Location p = Some x \<Longrightarrow> \<exists>raw. place_rule raw = Inr x"
    "\<And>x. pc_Interests p = Some x \<Longrightarrow> \<exists>raw. interests_rule raw = Inr x"
  using assms unfolding checked_def
  by (auto elim!: ruled simp: display_rule_def Let_def split: option.splits if_splits)

text \<open>What each statement with values that passed the checks keeps, every request does.\<close>

locale profile_steps =
  fixes P :: "users_env \<Rightarrow> uuid \<Rightarrow> users_db \<Rightarrow> bool"
  assumes rename: "P e i d \<Longrightarrow> RenameUser i name (pgTime (ue_now e)) (pgTime (ue_now e - RenameEvery)) d = Inr (u, d') \<Longrightarrow> P e i d'"
    and bio: "P e i d \<Longrightarrow> SetBio t i b d = Inr (u, d') \<Longrightarrow> P e i d'"
    and display: "P e i d \<Longrightarrow> ValidateDisplayName name \<Longrightarrow> SetDisplayName t i name d = Inr d' \<Longrightarrow> P e i d'"
    and location: "P e i d \<Longrightarrow> place_rule raw = Inr (place, country) \<Longrightarrow>
      SetLocation t i (if place = [] then None else Some place) country d = Inr d' \<Longrightarrow> P e i d'"
    and interests: "P e i (us_db s) \<Longrightarrow> interests_rule raws = Inr ids \<Longrightarrow> P e i (us_db (snd (SetInterests e i ids s)))"
    and discoverable: "P e i d \<Longrightarrow> SetDiscoverable t i v d = Inr d' \<Longrightarrow> P e i d'"
    and picture: "P e i d \<Longrightarrow> SetAvatar_sql i img t d = Inr d' \<Longrightarrow> P e i d'"
    and no_picture: "P e i d \<Longrightarrow> DeleteAvatar_sql i d = Inr d' \<Longrightarrow> P e i d'"
begin

lemma holds_user_by_id: "holds_after (\<lambda>s. P e i (us_db s)) (user_by_id e c j)"
  unfolding user_by_id_def by (intro keeps)

lemma holds_Rename: "holds_after (\<lambda>s. P e i (us_db s)) (Rename e i name (ue_now e) (ue_now e - RenameEvery))"
proof -
  have "holds_after (\<lambda>s. P e i (us_db s)) (users_alter (ue_fails e URename) (RenameUser i name (pgTime (ue_now e)) (pgTime (ue_now e - RenameEvery))))"
    by (rule holds_users_alter) (rule rename)
  then show ?thesis
    unfolding Rename_def by (auto intro!: keeps holds_user_by_id split: sum.split fail.split dberr.split)
qed

lemma holds_change_name: "holds_after (\<lambda>s. P e i (us_db s)) (change_name e i name)"
  unfolding change_name_def by (intro keeps holds_user_by_id holds_Rename)

lemma holds_Me: "holds_after (\<lambda>s. P e i (us_db s)) (Me e i)"
  unfolding Me_def Interests_def by (intro keeps holds_user_by_id)

lemma holds_SetInterests: "interests_rule raw = Inr ids \<Longrightarrow> holds_after (\<lambda>s. P e i (us_db s)) (SetInterests e i ids)"
  using interests by (simp add: holds_after_def)

lemma holds_UpdateProfile: "holds_after (\<lambda>s. P e i (us_db s)) (UpdateProfile e i req)"
proof (cases "empty_request req")
  case True
  then show ?thesis by (simp add: UpdateProfile_def keeps)
next
  case False
  show ?thesis
  proof (cases "checked (ue_conf e) req")
    case (Inl x)
    with False show ?thesis by (simp add: UpdateProfile_def keeps)
  next
    case (Inr p)
    note ok = checked_values [OF Inr]
    have bio': "holds_after (\<lambda>s. P e i (us_db s)) (repo_SetBio e i b)" for b
      unfolding repo_SetBio_def by (intro keeps holds_users_alter) (auto intro: bio)
    have loc: "holds_after (\<lambda>s. P e i (us_db s)) (repo_SetLocation e i place country)" if "pc_Location p = Some (place, country)" for place country
    proof -
      from ok(2) [OF that] obtain raw where "place_rule raw = Inr (place, country)" by blast
      then show ?thesis unfolding repo_SetLocation_def by (intro holds_users_exec) (rule location)
    qed
    have "holds_after (\<lambda>s. P e i (us_db s)) (apply_change e i p)"
      unfolding apply_change_def
      by (intro keeps holds_change_name bio' holds_Me)
        (auto intro!: keeps holds_users_exec intro: display ok(1) loc discoverable dest!: ok(3) elim: holds_SetInterests)
    with False Inr show ?thesis by (simp add: UpdateProfile_def)
  qed
qed

lemma holds_SetAvatar: "holds_after (\<lambda>s. P e i (us_db s)) (SetAvatar e i raw)"
  unfolding SetAvatar_def
  by (cases "ProcessAvatar (ue_imaging e) raw") (auto intro!: keeps holds_users_exec holds_Me intro: picture)

lemma holds_DeleteAvatar: "holds_after (\<lambda>s. P e i (us_db s)) (DeleteAvatar e i)"
  unfolding DeleteAvatar_def by (intro keeps holds_users_exec) (rule no_picture)

end

text \<open>A profile request with the surroundings it runs in.\<close>

datatype users_req =
    RUpdate users_env uuid UpdateProfileRequest
  | RPicture users_env uuid string
  | RNoPicture users_env uuid

fun users_do :: "users_req \<Rightarrow> users_sys \<Rightarrow> users_sys" where
  "users_do (RUpdate e i req) s = snd (UpdateProfile e i req s)"
| "users_do (RPicture e i raw) s = snd (SetAvatar e i raw s)"
| "users_do (RNoPicture e i) s = snd (DeleteAvatar e i s)"

definition users_run :: "users_req list \<Rightarrow> users_sys \<Rightarrow> users_sys" where
  "users_run qs s = fold users_do qs s"

fun req_env :: "users_req \<Rightarrow> users_env" and req_user :: "users_req \<Rightarrow> uuid" where
  "req_env (RUpdate e _ _) = e" | "req_env (RPicture e _ _) = e" | "req_env (RNoPicture e _) = e"
| "req_user (RUpdate _ i _) = i" | "req_user (RPicture _ i _) = i" | "req_user (RNoPicture _ i) = i"

context profile_steps
begin

lemma holds_users_do: "P (req_env q) (req_user q) (us_db s) \<Longrightarrow> P (req_env q) (req_user q) (us_db (users_do q s))"
  using holds_UpdateProfile holds_SetAvatar holds_DeleteAvatar by (cases q) (auto simp: holds_after_def)

end

section \<open>How often usernames change\<close>

lemma find_user_set_profile:
  assumes "\<And>u. u_id (f u) = u_id u"
  shows "find_user j (pd_db (set_profile i f d)) = (if j = i then map_option f (find_user i (pd_db d)) else find_user j (pd_db d))"
proof -
  have "List.find (\<lambda>u. u_id u = j) (update_rows (\<lambda>u. u_id u = i) f us) =
      (if j = i then map_option f (List.find (\<lambda>u. u_id u = i) us) else List.find (\<lambda>u. u_id u = j) us)" for us
    by (induction us) (auto simp: assms)
  then show ?thesis by (simp add: set_profile_def find_user_def find_row_def)
qed

definition named :: "uuid \<Rightarrow> users_db \<Rightarrow> (string \<times> time option) option" where
  "named i d = map_option (\<lambda>u. (u_name u, u_name_changed_at u)) (find_user i (pd_db d))"

definition keyed :: "users_db \<Rightarrow> bool" where
  "keyed d \<longleftrightarrow> key_ok u_id (users (pd_db d))"

text \<open>What a request at \<open>now\<close> may do to the names: nothing, or one change a month after the last.\<close>

definition renamed_since :: "users_db \<Rightarrow> users_env \<Rightarrow> uuid \<Rightarrow> users_db \<Rightarrow> bool" where
  "renamed_since d0 e i d \<longleftrightarrow> (keyed d0 \<longrightarrow> keyed d \<and> (\<forall>j. named j d = named j d0 \<or>
     j = i \<and> (\<exists>old changed new. named i d0 = Some (old, changed) \<and> named i d = Some (new, Some (pgTime (ue_now e))) \<and>
       (\<forall>t \<in> set_option changed. t < pgTime (ue_now e - RenameEvery)))))"

lemma named_set_profile:
  "(\<And>u. u_id (f u) = u_id u) \<Longrightarrow> (\<And>u. u_name (f u) = u_name u) \<Longrightarrow> (\<And>u. u_name_changed_at (f u) = u_name_changed_at u) \<Longrightarrow>
    named j (set_profile i f d) = named j d"
  by (auto simp: named_def find_user_set_profile option.map_comp comp_def)

lemma keyed_set_profile [simp]: "(\<And>u. u_id (f u) = u_id u) \<Longrightarrow> keyed (set_profile i f d) = keyed d"
  by (simp add: keyed_def set_profile_def key_ok_update)

lemma named_other [simp]: "named j (d\<lparr>user_avatars := a\<rparr>) = named j d" "named j (d\<lparr>user_interests := x\<rparr>) = named j d"
  "keyed (d\<lparr>user_avatars := a\<rparr>) = keyed d" "keyed (d\<lparr>user_interests := x\<rparr>) = keyed d"
  by (simp_all add: named_def keyed_def)

lemma renamed_same:
  "renamed_since d0 e i d \<Longrightarrow> keyed d' = keyed d \<Longrightarrow> (\<And>j. named j d' = named j d) \<Longrightarrow> renamed_since d0 e i d'"
  by (simp add: renamed_since_def)

lemma RenameEvery_pos: "0 < RenameEvery"
  by (simp add: RenameEvery_def hour_def minute_def second_def)

lemma pgTime_month: "pgTime (t - RenameEvery) = pgTime t - RenameEvery"
proof -
  have "(t - RenameEvery) mod 1000 = (t + (- 2592000000000) * 1000) mod 1000" by (simp add: RenameEvery_def hour_def)
  also have "\<dots> = t mod 1000" by (rule mod_mult_self1)
  finally show ?thesis by (simp add: pgTime_def)
qed

lemma find_user_renamable:
  assumes "keyed d" "find_row (renamable i cutoff) (users (pd_db d)) = Some u"
  shows "find_user i (pd_db d) = Some u \<and> (\<forall>t \<in> set_option (u_name_changed_at u). t < cutoff)"
proof -
  have u: "u \<in> set (users (pd_db d))" "renamable i cutoff u" using assms(2) by (auto dest: find_row_Some)
  then obtain v where v: "find_user i (pd_db d) = Some v"
    by (cases "find_user i (pd_db d)") (auto simp: find_user_def find_row_def find_None_iff renamable_def)
  from find_user_Some [OF this] have "v \<in> set (users (pd_db d))" "u_id v = u_id u" using u(2) by (auto simp: renamable_def)
  with assms(1) u(1) have "v = u" unfolding keyed_def by (blast intro: key_ok_unique)
  with u(2) v show ?thesis by (auto simp: renamable_def)
qed

lemma rename_since:
  assumes "renamed_since d0 e i d" "RenameUser i name (pgTime (ue_now e)) (pgTime (ue_now e - RenameEvery)) d = Inr (u, d')"
  shows "renamed_since d0 e i d'"
  unfolding renamed_since_def
proof (intro impI)
  assume "keyed d0"
  with assms(1) have k: "keyed d" and so: "\<And>j. named j d = named j d0 \<or>
     j = i \<and> (\<exists>old changed new. named i d0 = Some (old, changed) \<and> named i d = Some (new, Some (pgTime (ue_now e))) \<and>
       (\<forall>t \<in> set_option changed. t < pgTime (ue_now e - RenameEvery)))" by (auto simp: renamed_since_def)
  from assms(2) obtain v where v: "find_row (renamable i (pgTime (ue_now e - RenameEvery))) (users (pd_db d)) = Some v"
      and d': "d' = set_profile i (\<lambda>v. v\<lparr>u_name := name, u_name_changed_at := Some (pgTime (ue_now e)), u_updated_at := pgTime (ue_now e)\<rparr>) d"
    by (auto simp: RenameUser_def Let_def split: if_splits option.splits)
  note f = find_user_renamable [OF k v]
  from f have i: "named i d = Some (u_name v, u_name_changed_at v)" by (simp add: named_def)
  have "u_name_changed_at v \<noteq> Some (pgTime (ue_now e))"
    using f RenameEvery_pos by (auto simp: pgTime_month)
  with so [of i] i have same: "named i d = named i d0" by auto
  have other: "named j d' = named j d" if "j \<noteq> i" for j
    using that by (simp add: d' named_def find_user_set_profile)
  have mine: "named i d' = Some (name, Some (pgTime (ue_now e)))" using f by (simp add: d' named_def find_user_set_profile)
  have "named j d' = named j d0 \<or>
     j = i \<and> (\<exists>old changed new. named i d0 = Some (old, changed) \<and> named i d' = Some (new, Some (pgTime (ue_now e))) \<and>
       (\<forall>t \<in> set_option changed. t < pgTime (ue_now e - RenameEvery)))" for j
  proof (cases "j = i")
    case True
    have "named i d0 = Some (u_name v, u_name_changed_at v)" using same i by simp
    with True f mine show ?thesis by blast
  next
    case False
    with so [of j] other show ?thesis by simp
  qed
  with k show "keyed d' \<and> (\<forall>j. named j d' = named j d0 \<or>
     j = i \<and> (\<exists>old changed new. named i d0 = Some (old, changed) \<and> named i d' = Some (new, Some (pgTime (ue_now e))) \<and>
       (\<forall>t \<in> set_option changed. t < pgTime (ue_now e - RenameEvery))))"
    by (simp add: d')
qed

lemma SetInterests_db:
  "\<exists>x. us_db (snd (SetInterests e i ids s)) = (us_db s)\<lparr>user_interests := x\<rparr>"
proof -
  let ?P = "\<lambda>d. \<exists>x. d = (us_db s)\<lparr>user_interests := x\<rparr>"
  have "holds_after (\<lambda>s. ?P (us_db s)) (SetInterests e i ids)"
    unfolding SetInterests_def
    by (intro keeps holds_users_exec) (auto simp: RemoveOtherInterests_def AddInterests_def split: if_splits option.splits)
  moreover have "?P (us_db s)" by (intro exI [of _ "user_interests (us_db s)"]) simp
  ultimately show ?thesis by (auto simp: holds_after_def)
qed

interpretation nm: profile_steps "renamed_since d0" for d0
proof unfold_locales
  fix e i d name u d' assume "renamed_since d0 e i d" "RenameUser i name (pgTime (ue_now e)) (pgTime (ue_now e - RenameEvery)) d = Inr (u, d')"
  then show "renamed_since d0 e i d'" by (rule rename_since)
next
  fix e i and s :: users_sys and raws ids assume r: "renamed_since d0 e i (us_db s)"
  from SetInterests_db [of e i ids s] obtain x where x: "us_db (snd (SetInterests e i ids s)) = (us_db s)\<lparr>user_interests := x\<rparr>" by blast
  show "renamed_since d0 e i (us_db (snd (SetInterests e i ids s)))"
    by (rule renamed_same [OF r]) (simp_all add: x)
qed (auto simp: SetBio_def SetDisplayName_def SetLocation_def SetDiscoverable_def SetAvatar_sql_def DeleteAvatar_sql_def Let_def
    named_set_profile elim!: renamed_same split: if_splits option.splits)

lemma step_names:
  assumes "keyed (us_db s)"
  shows "renamed_since (us_db s) (req_env q) (req_user q) (us_db (users_do q s))"
  by (rule nm.holds_users_do) (simp add: renamed_since_def)

definition username_of :: "uuid \<Rightarrow> users_sys \<Rightarrow> string option" where
  "username_of i s = map_option u_name (find_user i (pd_db (us_db s)))"

definition now_of :: "users_req \<Rightarrow> time" where
  "now_of q = ue_now (req_env q)"

lemma username_named: "username_of i s = map_option fst (named i (us_db s))"
  by (simp add: username_of_def named_def option.map_comp comp_def)

lemma changed_name:
  assumes "keyed (us_db s)" "username_of i (users_do q s) \<noteq> username_of i s"
  shows "\<exists>old changed new. named i (us_db s) = Some (old, changed) \<and> named i (us_db (users_do q s)) = Some (new, Some (pgTime (now_of q))) \<and>
    (\<forall>t \<in> set_option changed. t < pgTime (now_of q - RenameEvery))"
proof -
  from assms(2) have "named i (us_db (users_do q s)) \<noteq> named i (us_db s)" by (auto simp: username_named)
  moreover from step_names [OF assms(1), of q] assms(1) have "named i (us_db (users_do q s)) = named i (us_db s) \<or>
     i = req_user q \<and> (\<exists>old changed new. named (req_user q) (us_db s) = Some (old, changed) \<and>
       named (req_user q) (us_db (users_do q s)) = Some (new, Some (pgTime (ue_now (req_env q)))) \<and>
       (\<forall>t \<in> set_option changed. t < pgTime (ue_now (req_env q) - RenameEvery)))" unfolding renamed_since_def by blast
  ultimately show ?thesis unfolding now_of_def by blast
qed

text \<open>The time of the last change never goes back.\<close>

lemma last_change_kept:
  assumes "keyed (us_db s)" "named i (us_db s) = Some (n, Some t)"
  shows "keyed (us_db (users_run qs s)) \<and> (\<exists>n' t'. named i (us_db (users_run qs s)) = Some (n', Some t') \<and> t \<le> t')"
  using assms
proof (induction qs arbitrary: s n t)
  case Nil
  then show ?case by (simp add: users_run_def)
next
  case (Cons q qs)
  from step_names [OF Cons.prems(1), of q] Cons.prems(1)
  have k: "keyed (us_db (users_do q s))"
    and "named i (us_db (users_do q s)) = named i (us_db s) \<or>
     (\<exists>old changed new. named i (us_db s) = Some (old, changed) \<and> named i (us_db (users_do q s)) = Some (new, Some (pgTime (ue_now (req_env q)))) \<and>
       (\<forall>t \<in> set_option changed. t < pgTime (ue_now (req_env q) - RenameEvery)))" by (auto simp: renamed_since_def)
  with Cons.prems(2) obtain n' t' where t': "named i (us_db (users_do q s)) = Some (n', Some t')" "t \<le> t'"
    using RenameEvery_pos by (fastforce simp: pgTime_month)
  from Cons.IH [OF k t'(1)] t'(2) show ?case by (force simp: users_run_def)
qed

text \<open>
  C30: Whatever profile requests come, at whatever times, a username that was changed changes again only by a
  request more than thirty days later.
\<close>

theorem usernames_change_monthly:
  assumes "key_ok u_id (users (pd_db (us_db s)))"
    and "s1 = users_do q1 s" "username_of i s1 \<noteq> username_of i s"
    and "s2 = users_run qs s1" "username_of i (users_do q2 s2) \<noteq> username_of i s2"
  shows "pgTime (now_of q1) + 30 * 24 * hour < pgTime (now_of q2)"
proof -
  from assms(1) have k: "keyed (us_db s)" by (simp add: keyed_def)
  from changed_name [OF k, of i q1] assms(2,3) obtain n where n: "named i (us_db s1) = Some (n, Some (pgTime (now_of q1)))" by auto
  have k1: "keyed (us_db s1)" using step_names [OF k, of q1] k assms(2) by (simp add: renamed_since_def)
  from last_change_kept [OF k1 n, of qs] assms(4) obtain n' t' where t': "keyed (us_db s2)"
      "named i (us_db s2) = Some (n', Some t')" "pgTime (now_of q1) \<le> t'" by auto
  from changed_name [OF t'(1) assms(5)] t'(2,3) have "pgTime (now_of q1) + RenameEvery < pgTime (now_of q2)" by (auto simp: pgTime_month)
  then show ?thesis by (simp add: RenameEvery_def)
qed

text \<open>Ann becomes anna, and annie a month and a day later.\<close>

definition only_name :: "string \<Rightarrow> UpdateProfileRequest" where
  "only_name n = \<lparr>up_Name = Some n, up_DisplayName = None, up_Bio = None, up_Location = None, up_Interests = None, up_Discoverable = None\<rparr>"

definition renames :: "imaging \<Rightarrow> auth_conf \<Rightarrow> time \<Rightarrow> string \<Rightarrow> users_req" where
  "renames im c t n = RUpdate ((looking im (c\<lparr>ac_lower := \<lambda>x. x\<rparr>))\<lparr>ue_now := t\<rparr>) 1 (only_name n)"

lemma renames_runs:
  assumes "find_user 1 (pd_db (us_db s)) = Some u" "u_name u \<noteq> n" "TrimSpace n = n" "username_format n" "text_ok n" "varchar_ok 25 n"
    and "\<not> exists_row (\<lambda>v. u_name v = n \<and> u_id v \<noteq> 1) (users (pd_db (us_db s)))" "find_row (renamable 1 (pgTime (t - RenameEvery))) (users (pd_db (us_db s))) = Some u"
  shows "us_db (users_do (renames im c t n) s) =
    set_profile 1 (\<lambda>v. v\<lparr>u_name := n, u_name_changed_at := Some (pgTime t), u_updated_at := pgTime t\<rparr>) (us_db s)"
  using assms
  by (simp add: renames_def only_name_def looking_def UpdateProfile_def empty_request_def checked_def rule_def name_rule_def NormalizeUsername_def
      ValidateName_def apply_change_def given_def change_name_def user_by_id_def andDo_def or_none_def users_query_def sql_query_def faulty_def
      one_row_def ret_def toUser_def Rename_def attempt_def users_alter_def alter_def RenameUser_def Let_def SetNames_def profileChanged_def
      Me_def Interests_def GetInterests_def find_user_set_profile)

lemmas hiding_facts = new_user_def empty_db_def renamable_def exists_row_def TrimSpace_def chunks_ascii_Cons IsSpace_def text_ok_def
  varchar_ok_def username_format_def username_char_def RuneCountInString_def runes_ascii is_ascii_def find_user_def find_row_def

theorem usernames_change_monthly_witness:
  "\<forall>im c. username_of 1 (users_do (renames im c 0 ''anna'') hiding) = Some ''anna'' \<and>
    username_of 1 (users_do (renames im c (31 * 24 * hour) ''annie'') (users_do (renames im c 0 ''anna'') hiding)) = Some ''annie'' \<and>
    pgTime 0 + 30 * 24 * hour < pgTime (now_of (renames im c (31 * 24 * hour) ''annie''))"
proof (intro allI)
  fix im c
  let ?q1 = "renames im c 0 ''anna''" and ?q2 = "renames im c (31 * 24 * hour) ''annie''"
  let ?ann = "(new_user 1 ''ann'')\<lparr>u_bio := ''hi'', u_location_id := Some ''jp-tokyo''\<rparr>"
  let ?anna = "?ann\<lparr>u_name := ''anna'', u_name_changed_at := Some 0, u_updated_at := 0\<rparr>"
  have 1: "us_db (users_do ?q1 hiding) = set_profile 1 (\<lambda>v. v\<lparr>u_name := ''anna'', u_name_changed_at := Some (pgTime 0), u_updated_at := pgTime 0\<rparr>) (us_db hiding)"
    by (rule renames_runs [where u = ?ann]) (simp_all add: hiding_def hiding_facts)
  then have anna: "us_db (users_do ?q1 hiding) = \<lparr>pd_db = empty_db\<lparr>users := [?anna, new_user 2 ''bob'']\<rparr>, user_avatars = [], user_interests = [(1, ''chess'')]\<rparr>"
    by (simp add: hiding_def set_profile_def new_user_def pgTime_def)
  have 2: "us_db (users_do ?q2 (users_do ?q1 hiding)) =
      set_profile 1 (\<lambda>v. v\<lparr>u_name := ''annie'', u_name_changed_at := Some (pgTime (31 * 24 * hour)), u_updated_at := pgTime (31 * 24 * hour)\<rparr>) (us_db (users_do ?q1 hiding))"
    by (rule renames_runs [where u = ?anna]) (simp_all only: anna, simp_all add: hiding_facts pgTime_def hour_def RenameEvery_def)
  have n: "username_of 1 hiding = Some ''ann''" "username_of 1 (users_do ?q1 hiding) = Some ''anna''"
      "username_of 1 (users_do ?q2 (users_do ?q1 hiding)) = Some ''annie''"
    by (simp_all only: username_of_def 2 anna set_profile_def) (simp_all add: hiding_def hiding_facts)
  have "key_ok u_id (users (pd_db (us_db hiding)))" by (simp add: hiding_def new_user_def key_ok_def)
  from usernames_change_monthly [OF this refl, of 1 ?q1 "users_do ?q1 hiding" "[]" ?q2] n
  show "username_of 1 (users_do ?q1 hiding) = Some ''anna'' \<and> username_of 1 (users_do ?q2 (users_do ?q1 hiding)) = Some ''annie'' \<and>
    pgTime 0 + 30 * 24 * hour < pgTime (now_of ?q2)" by (simp add: users_run_def renames_def now_of_def)
qed

end
