(* ===== verification/Users_Invariant.thy ===== *)
theory Users_Invariant
  imports Users_Safety
begin

text \<open>
  What the tables of profiles, pictures and interests keep in every run of profile requests.
\<close>

definition place_ok :: "user \<Rightarrow> bool" where
  "place_ok u \<longleftrightarrow> (case u_location_id u of None \<Rightarrow> u_location_country u = []
     | Some x \<Rightarrow> \<exists>p. LookupPlace x = Some p \<and> u_location_country u = pl_Country p)"

definition profile_ok :: "user \<Rightarrow> bool" where
  "profile_ok u \<longleftrightarrow> username_format (u_name u) \<and> RuneCountInString (u_bio u) \<le> maxBioLen \<and>
     (u_display_name u = [] \<or> ValidateDisplayName (u_display_name u)) \<and> place_ok u"

lemma profile_ok_other [simp]: "profile_ok (u\<lparr>u_avatar_at := t\<rparr>) = profile_ok u" "profile_ok (u\<lparr>u_updated_at := t'\<rparr>) = profile_ok u"
  "profile_ok (u\<lparr>u_discoverable := b\<rparr>) = profile_ok u"
  by (simp_all add: profile_ok_def place_ok_def split: option.split)

definition names_ok :: "users_db \<Rightarrow> bool" where
  "names_ok d \<longleftrightarrow> keyed d \<and> key_ok u_name (users (pd_db d)) \<and> (\<forall>u \<in> set (users (pd_db d)). profile_ok u)"

definition picture_of :: "uuid \<Rightarrow> users_db \<Rightarrow> user_avatar option" where
  "picture_of i d = find_row (\<lambda>a. av_user_id a = i) (user_avatars d)"

definition pictures_ok :: "users_db \<Rightarrow> bool" where
  "pictures_ok d \<longleftrightarrow> key_ok av_user_id (user_avatars d) \<and>
     (\<forall>a \<in> set (user_avatars d). length (av_image a) \<le> maxAvatarBytes \<and> user_exists (av_user_id a) (pd_db d)) \<and>
     (\<forall>u \<in> set (users (pd_db d)). u_avatar_at u = map_option av_updated_at (picture_of (u_id u) d))"

definition interests_of :: "uuid \<Rightarrow> users_db \<Rightarrow> string set" where
  "interests_of i d = {x. (i, x) \<in> set (user_interests d)}"

definition interests_ok :: "users_db \<Rightarrow> bool" where
  "interests_ok d \<longleftrightarrow> distinct (user_interests d) \<and>
     (\<forall>(i, x) \<in> set (user_interests d). ValidInterest x \<and> user_exists i (pd_db d)) \<and> (\<forall>i. card (interests_of i d) \<le> MaxInterests)"

definition profiles_ok :: "users_db \<Rightarrow> bool" where
  "profiles_ok d \<longleftrightarrow> names_ok d \<and> pictures_ok d \<and> interests_ok d"

section \<open>Changes of a row\<close>

lemma set_profile_users: "users (pd_db (set_profile i f d)) = update_rows (\<lambda>u. u_id u = i) f (users (pd_db d))"
  and set_profile_rest [simp]: "user_avatars (set_profile i f d) = user_avatars d" "user_interests (set_profile i f d) = user_interests d"
  by (simp_all add: set_profile_def)

lemma user_exists_set_profile [simp]: "(\<And>u. u_id (f u) = u_id u) \<Longrightarrow> user_exists j (pd_db (set_profile i f d)) = user_exists j (pd_db d)"
  by (auto simp: user_exists_def exists_row_def set_profile_users set_update_rows)

lemma interests_set_profile: "(\<And>u. u_id (f u) = u_id u) \<Longrightarrow> interests_ok (set_profile i f d) = interests_ok d"
  by (simp add: interests_ok_def interests_of_def)

lemma picture_set_profile [simp]: "picture_of j (set_profile i f d) = picture_of j d"
  by (simp add: picture_of_def)

lemma ball_update_rows: "(\<And>u. Q (f u) = Q u) \<Longrightarrow> (\<forall>u \<in> set (update_rows p f us). Q u) \<longleftrightarrow> (\<forall>u \<in> set us. Q u)"
  by (induction us) auto

lemma pictures_set_profile:
  assumes "\<And>u. u_id (f u) = u_id u" "\<And>u. u_avatar_at (f u) = u_avatar_at u"
  shows "pictures_ok (set_profile i f d) = pictures_ok d"
  unfolding pictures_ok_def set_profile_users
  by (subst ball_update_rows) (simp_all add: assms)

lemma names_set_profile:
  assumes "names_ok d" "\<And>u. u_id (f u) = u_id u" "\<And>u. u_name (f u) = u_name u" "\<And>u. profile_ok u \<Longrightarrow> profile_ok (f u)"
  shows "names_ok (set_profile i f d)"
  using assms by (auto simp: names_ok_def set_profile_users set_update_rows key_ok_update)

lemma profiles_set_profile:
  assumes "profiles_ok d" "\<And>u. u_id (f u) = u_id u" "\<And>u. u_name (f u) = u_name u" "\<And>u. u_avatar_at (f u) = u_avatar_at u"
    "\<And>u. profile_ok u \<Longrightarrow> profile_ok (f u)"
  shows "profiles_ok (set_profile i f d)"
proof -
  have "names_ok (set_profile i f d)" by (rule names_set_profile) (use assms in \<open>auto simp: profiles_ok_def\<close>)
  moreover have "pictures_ok (set_profile i f d)" "interests_ok (set_profile i f d)"
    using assms(1) by (simp_all add: profiles_ok_def pictures_set_profile interests_set_profile assms(2,4))
  ultimately show ?thesis by (simp add: profiles_ok_def)
qed

lemma profiles_renamed:
  assumes "profiles_ok d" "username_format name" "\<not> exists_row (\<lambda>v. u_name v = name \<and> u_id v \<noteq> i) (users (pd_db d))"
  shows "profiles_ok (set_profile i (\<lambda>v. v\<lparr>u_name := name, u_name_changed_at := t, u_updated_at := t'\<rparr>) d)"
proof -
  let ?f = "\<lambda>v. v\<lparr>u_name := name, u_name_changed_at := t, u_updated_at := t'\<rparr>"
  have k: "key_ok u_id (users (pd_db d))" "key_ok u_name (users (pd_db d))" using assms(1) by (auto simp: profiles_ok_def names_ok_def keyed_def)
  have "key_ok u_name (update_rows (\<lambda>u. u_id u = i) ?f us)"
    if "key_ok u_id us" "key_ok u_name us" "\<not> exists_row (\<lambda>v. u_name v = name \<and> u_id v \<noteq> i) us" for us
    using that
  proof (induction us)
    case (Cons u us)
    then have IH: "key_ok u_name (update_rows (\<lambda>u. u_id u = i) ?f us)" by (auto simp: key_ok_def exists_row_def)
    show ?case
    proof (cases "u_id u = i")
      case True
      from Cons.prems(1) have "u_id u \<notin> u_id ` set us" by (simp add: key_ok_def)
      with True have "\<forall>v \<in> set us. u_id v \<noteq> i" by (metis image_eqI)
      then have "update_rows (\<lambda>u. u_id u = i) ?f us = us" by (auto simp: update_rows_def intro!: map_idI)
      moreover have "name \<notin> u_name ` set us" using Cons.prems(3) \<open>\<forall>v \<in> set us. _ v\<close> by (auto simp: exists_row_def)
      ultimately show ?thesis using True Cons.prems(2) by (simp add: key_ok_def)
    next
      case False
      with Cons.prems IH show ?thesis by (auto simp: key_ok_def exists_row_def update_rows_def split: if_splits)
    qed
  qed simp
  from this [OF k assms(3)] assms(1,2) show ?thesis
    by (auto simp: profiles_ok_def names_ok_def pictures_set_profile interests_set_profile set_profile_users set_update_rows profile_ok_def place_ok_def
      split: option.splits)
qed

section \<open>Pictures\<close>

lemma find_row_update: "find_row (\<lambda>a. av_user_id a = j) (update_rows (\<lambda>a. av_user_id a = i) (\<lambda>a. a\<lparr>av_image := img, av_updated_at := t\<rparr>) as) =
   map_option (\<lambda>a. if j = i then a\<lparr>av_image := img, av_updated_at := t\<rparr> else a) (find_row (\<lambda>a. av_user_id a = j) as)"
  by (induction as) (auto simp: find_row_def)

lemma find_snoc: "List.find p (xs @ [x]) = (case List.find p xs of None \<Rightarrow> if p x then Some x else None | r \<Rightarrow> r)"
  by (induction xs) auto

lemma picture_exists: "exists_row (\<lambda>a. av_user_id a = i) (user_avatars d) \<Longrightarrow> picture_of i d \<noteq> None"
  by (auto simp: picture_of_def find_row_def exists_row_def find_None_iff)

lemma profiles_picture:
  assumes "profiles_ok d" "SetAvatar_sql i img t d = Inr d'"
  shows "profiles_ok d'"
proof -
  obtain as where len: "length img \<le> maxAvatarBytes" and ex: "user_exists i (pd_db d)"
      and d': "d' = set_profile i (\<lambda>u. u\<lparr>u_avatar_at := Some t\<rparr>) (d\<lparr>user_avatars := as\<rparr>)"
      and as: "as = (if exists_row (\<lambda>a. av_user_id a = i) (user_avatars d)
         then update_rows (\<lambda>a. av_user_id a = i) (\<lambda>a. a\<lparr>av_image := img, av_updated_at := t\<rparr>) (user_avatars d)
         else user_avatars d @ [\<lparr>av_user_id = i, av_image = img, av_updated_at = t\<rparr>])"
    using assms(2) by (auto simp: SetAvatar_sql_def split: if_splits)
  have n: "names_ok d" and p: "pictures_ok d" and x: "interests_ok d" using assms(1) by (auto simp: profiles_ok_def)
  have "names_ok d'" using n unfolding d'
    by (intro names_set_profile) (auto simp: names_ok_def keyed_def)
  moreover have "interests_ok d'" using x by (simp add: d' interests_set_profile interests_ok_def interests_of_def)
  moreover have "pictures_ok d'"
  proof -
    have find: "map_option av_updated_at (picture_of j d') = (if j = i then Some t else map_option av_updated_at (picture_of j d))" for j
    proof (cases "exists_row (\<lambda>a. av_user_id a = i) (user_avatars d)")
      case True
      with picture_exists [OF True] show ?thesis
        by (auto simp: d' as picture_of_def set_profile_def find_row_update option.map_comp comp_def)
    next
      case False
      then have "picture_of i d = None" by (auto simp: picture_of_def find_row_def find_None_iff exists_row_def)
      with False show ?thesis
        by (auto simp: d' as picture_of_def set_profile_def find_row_def find_snoc split: option.split)
    qed
    have "key_ok av_user_id as" using p by (auto simp: as pictures_ok_def key_ok_update key_ok_snoc)
    moreover have "length (av_image a) \<le> maxAvatarBytes \<and> user_exists (av_user_id a) (pd_db d)" if "a \<in> set as" for a
      using that p len ex by (auto simp: as pictures_ok_def set_update_rows split: if_splits)
    ultimately show ?thesis using p find
      by (auto simp: pictures_ok_def d' set_profile_users set_update_rows)
  qed
  ultimately show ?thesis by (simp add: profiles_ok_def)
qed

lemma profiles_no_picture:
  assumes "profiles_ok d" "DeleteAvatar_sql i d = Inr d'"
  shows "profiles_ok d'"
proof -
  let ?as = "filter (\<lambda>a. av_user_id a \<noteq> i) (user_avatars d)"
  have d': "d' = set_profile i (\<lambda>u. u\<lparr>u_avatar_at := None\<rparr>) (d\<lparr>user_avatars := ?as\<rparr>)" using assms(2) by (simp add: DeleteAvatar_sql_def)
  have n: "names_ok d" and p: "pictures_ok d" and x: "interests_ok d" using assms(1) by (auto simp: profiles_ok_def)
  have "names_ok d'" using n unfolding d' by (intro names_set_profile) (auto simp: names_ok_def keyed_def)
  moreover have "interests_ok d'" using x by (simp add: d' interests_set_profile interests_ok_def interests_of_def)
  moreover have "pictures_ok d'"
  proof -
    have *: "List.find (\<lambda>a. av_user_id a = j) (filter (\<lambda>a. av_user_id a \<noteq> i) as) = (if j = i then None else List.find (\<lambda>a. av_user_id a = j) as)" for j as
      by (induction as) auto
    have find: "picture_of j d' = (if j = i then None else picture_of j d)" for j
      by (simp add: * d' picture_of_def find_row_def set_profile_def)
    have "key_ok av_user_id ?as" using p by (simp add: pictures_ok_def key_ok_def distinct_map_filter)
    with p find show ?thesis by (auto simp: pictures_ok_def d' set_profile_users set_update_rows)
  qed
  ultimately show ?thesis by (simp add: profiles_ok_def)
qed

section \<open>Interests\<close>

lemma first_of_each_set: "set (first_of_each seen xs) = set xs - set seen \<and> distinct (first_of_each seen xs)"
  by (induction seen xs rule: first_of_each.induct) auto

lemma interests_rule_Inr: "interests_rule raws = Inr ids \<Longrightarrow> distinct ids \<and> length ids \<le> MaxInterests \<and> (\<forall>x \<in> set ids. ValidInterest x)"
  using first_of_each_set [of "[]" raws] by (auto simp: interests_rule_def Let_def list_all_iff split: if_splits)

lemma set_insert_new [simp]: "set (insert_new x xs) = insert x (set xs)"
  by (auto simp: insert_new_def)

lemma set_fold_insert_new [simp]: "set (fold insert_new ys xs) = set xs \<union> set ys"
  by (induction ys arbitrary: xs) auto

lemma distinct_fold_insert_new: "distinct xs \<Longrightarrow> distinct (fold insert_new ys xs)"
  by (induction ys arbitrary: xs) (auto simp: insert_new_def)

text \<open>What a user's interests are after both statements, or after the first.\<close>

lemma set_interests_done:
  assumes "SetInterests e i ids s = (Inr (), t)" "ids \<noteq> []"
  shows "interests_of i (us_db t) = set ids"
  using assms
  by (auto simp: SetInterests_def andDo_Inr RemoveOtherInterests_def AddInterests_def interests_of_def split: if_splits)

text \<open>An empty list changes nothing.\<close>

lemma interests_cannot_be_cleared:
  "us_db (snd (SetInterests e i [] s)) = us_db s"
  by (auto simp: SetInterests_def andDo_def users_exec_def exec_def faulty_def RemoveOtherInterests_def ret_def)

lemma profiles_fewer_interests:
  assumes "profiles_ok d" "set xs \<subseteq> set (user_interests d)" "distinct xs"
  shows "profiles_ok (d\<lparr>user_interests := xs\<rparr>)"
proof -
  have "interests_of j (d\<lparr>user_interests := xs\<rparr>) \<subseteq> interests_of j d" for j using assms(2) by (auto simp: interests_of_def)
  moreover have "finite (interests_of j d)" for j
    by (rule finite_subset [of _ "snd ` set (user_interests d)"]) (force simp: interests_of_def)+
  ultimately have "card (interests_of j (d\<lparr>user_interests := xs\<rparr>)) \<le> card (interests_of j d)" for j by (blast intro: card_mono)
  with assms show ?thesis
    by (fastforce simp: profiles_ok_def names_ok_def pictures_ok_def picture_of_def interests_ok_def intro: order_trans)
qed

lemma profiles_own_interests:
  assumes "profiles_ok d" "set xs \<subseteq> set (user_interests d) \<union> Pair i ` ids" "distinct xs" "interests_of i (d\<lparr>user_interests := xs\<rparr>) = ids"
    and "card ids \<le> MaxInterests" "\<forall>x \<in> ids. ValidInterest x" "\<forall>x \<in> ids. (i, x) \<in> set (user_interests d) \<or> user_exists i (pd_db d)"
    and other: "\<And>j. j \<noteq> i \<Longrightarrow> interests_of j (d\<lparr>user_interests := xs\<rparr>) = interests_of j d"
  shows "profiles_ok (d\<lparr>user_interests := xs\<rparr>)"
proof -
  have "card (interests_of j (d\<lparr>user_interests := xs\<rparr>)) \<le> MaxInterests" for j
    using assms(1,4,5) other by (cases "j = i") (auto simp: profiles_ok_def interests_ok_def)
  moreover have "ValidInterest x \<and> user_exists j (pd_db d)" if "(j, x) \<in> set xs" for j x
  proof -
    have "(j, x) \<in> set (user_interests d) \<or> j = i \<and> x \<in> ids" using that assms(2) by auto
    with assms(1,6,7) show ?thesis by (fastforce simp: profiles_ok_def interests_ok_def)
  qed
  ultimately show ?thesis
    using assms(1,3) by (auto simp: profiles_ok_def names_ok_def keyed_def pictures_ok_def picture_of_def interests_ok_def)
qed

lemma profiles_interests:
  assumes "profiles_ok (us_db s)" "interests_rule raws = Inr ids"
  shows "profiles_ok (us_db (snd (SetInterests e i ids s)))"
proof (cases "ids = []")
  case True
  with assms(1) show ?thesis by (simp add: interests_cannot_be_cleared)
next
  case False
  note ids = interests_rule_Inr [OF assms(2)]
  let ?d = "us_db s"
  let ?xs = "filter (\<lambda>r. \<not> (fst r = i \<and> snd r \<notin> set ids)) (user_interests ?d)"
  have kept: "profiles_ok (?d\<lparr>user_interests := ?xs\<rparr>)"
    using assms(1) by (intro profiles_fewer_interests) (auto simp: profiles_ok_def interests_ok_def)
  obtain r t where run: "SetInterests e i ids s = (r, t)" by fastforce
  show ?thesis
  proof (cases r)
    case (Inl x)
    then have "us_db t = ?d \<or> us_db t = ?d\<lparr>user_interests := ?xs\<rparr>"
      using run False
      by (auto simp: SetInterests_def andDo_def users_exec_def exec_def faulty_def RemoveOtherInterests_def split: sum.splits if_splits)
    with assms(1) kept run show ?thesis by auto
  next
    case (Inr u)
    let ?new = "fold insert_new (map (Pair i) ids) ?xs"
    have t: "us_db t = ?d\<lparr>user_interests := ?new\<rparr>" and ex: "(\<exists>x \<in> set ids. (i, x) \<notin> set ?xs) \<longrightarrow> user_exists i (pd_db ?d)"
      using run False unfolding Inr
      by (auto simp: SetInterests_def andDo_Inr RemoveOtherInterests_def AddInterests_def split: if_splits)
    have "profiles_ok (?d\<lparr>user_interests := ?new\<rparr>)"
    proof (rule profiles_own_interests [OF assms(1)])
      show "set ?new \<subseteq> set (user_interests ?d) \<union> Pair i ` set ids" by auto
      show "distinct ?new" using assms(1) by (intro distinct_fold_insert_new) (auto simp: profiles_ok_def interests_ok_def)
      show "interests_of i (?d\<lparr>user_interests := ?new\<rparr>) = set ids" by (auto simp: interests_of_def)
      show "card (set ids) \<le> MaxInterests" using ids by (simp add: distinct_card)
      show "\<forall>x \<in> set ids. ValidInterest x" using ids by simp
      show "\<forall>x \<in> set ids. (i, x) \<in> set (user_interests ?d) \<or> user_exists i (pd_db ?d)" using ex by auto
      show "interests_of j (?d\<lparr>user_interests := ?new\<rparr>) = interests_of j ?d" if "j \<noteq> i" for j
        using that by (auto simp: interests_of_def)
    qed
    with t run show ?thesis by simp
  qed
qed

section \<open>Every request\<close>

interpretation pk: profile_steps "\<lambda>_ _. profiles_ok"
proof unfold_locales
  fix e i d name u d' assume ok: "profiles_ok d" and "RenameUser i name (pgTime (ue_now e)) (pgTime (ue_now e - RenameEvery)) d = Inr (u, d')"
  then show "profiles_ok d'" by (auto simp: RenameUser_def Let_def intro!: profiles_renamed [OF ok] split: if_splits option.splits)
next
  fix d t i b u d' assume ok: "profiles_ok d" and "SetBio t i b d = Inr (u, d')"
  then show "profiles_ok d'"
    by (auto simp: SetBio_def Let_def profile_ok_def place_ok_def varchar_ok_def maxBioLen_def intro!: profiles_set_profile [OF ok]
        split: if_splits option.splits)
next
  fix d name t i d' assume ok: "profiles_ok d" and "ValidateDisplayName name" "SetDisplayName t i name d = Inr d'"
  then show "profiles_ok d'"
    by (auto simp: SetDisplayName_def profile_ok_def place_ok_def intro!: profiles_set_profile [OF ok] split: if_splits option.splits)
next
  fix d raw place country t i d' assume ok: "profiles_ok d" and "place_rule raw = Inr (place, country)"
    "SetLocation t i (if place = [] then None else Some place) country d = Inr d'"
  then show "profiles_ok d'"
    by (auto simp: SetLocation_def place_rule_def profile_ok_def place_ok_def intro!: profiles_set_profile [OF ok] split: if_splits option.splits)
next
  fix i and s :: users_sys and e raws ids assume "profiles_ok (us_db s)" "interests_rule raws = Inr ids"
  then show "profiles_ok (us_db (snd (SetInterests e i ids s)))" by (rule profiles_interests)
next
  fix d t i v d' assume ok: "profiles_ok d" and "SetDiscoverable t i v d = Inr d'"
  then show "profiles_ok d'" by (auto simp: SetDiscoverable_def profile_ok_def place_ok_def intro!: profiles_set_profile [OF ok] split: option.splits)
qed (auto intro: profiles_picture profiles_no_picture)

text \<open>
  C18: In every run of profile requests, with any of their calls failing, usernames stay unique and well formed, bios
  and displayed names within their bounds, locations places of the catalog with their country, the time of a
  picture in a profile that of the stored one, of at most 256 kB, and interests distinct, of the catalog, at most ten a person.
\<close>

theorem profiles_well_formed:
  assumes "profiles_ok (us_db s)"
  shows "profiles_ok (us_db (users_run qs s))"
  using assms
proof (induction qs arbitrary: s)
  case (Cons q qs)
  from Cons.IH [OF pk.holds_users_do [OF Cons.prems]] show ?case by (simp add: users_run_def)
qed (simp add: users_run_def)

theorem profiles_well_formed_witness:
  "\<forall>im c. profiles_ok (us_db (users_run [renames im c 0 ''anna''] (hiding\<lparr>us_db := (us_db hiding)\<lparr>pd_db := empty_db\<lparr>users := [new_user 1 ''ann'']\<rparr>, user_interests := [(1, ''music'')]\<rparr>\<rparr>)))"
proof (intro allI profiles_well_formed)
  show "profiles_ok (us_db (hiding\<lparr>us_db := (us_db hiding)\<lparr>pd_db := empty_db\<lparr>users := [new_user 1 ''ann'']\<rparr>, user_interests := [(1, ''music'')]\<rparr>\<rparr>))"
  proof -
    have "interests_of i (us_db (hiding\<lparr>us_db := (us_db hiding)\<lparr>pd_db := empty_db\<lparr>users := [new_user 1 ''ann'']\<rparr>, user_interests := [(1, ''music'')]\<rparr>\<rparr>)) = (if i = 1 then {''music''} else {})" for i
      by (auto simp: interests_of_def hiding_def)
    moreover have "ValidInterest ''music''" by (simp add: ValidInterest_def interests_def list_ex_iff)
    ultimately show ?thesis
      by (simp add: profiles_ok_def names_ok_def keyed_def key_ok_def profile_ok_def place_ok_def pictures_ok_def picture_of_def find_row_def
          interests_ok_def hiding_def new_user_def empty_db_def username_format_def username_char_def RuneCountInString_def runes_def
          user_exists_def exists_row_def MaxInterests_def)
  qed
qed

end

