(* ===== verification/Spec2Isabelle.thy ===== *)
theory Spec2Isabelle
  imports Auth_Passwords Ban_Safety Calls_Log Chat_Dedupe Friends_HTTP Hub_Safety Media_Names Media_Properties Presence_Safety Push_Safety Queue_Safety Rate_Limit Search_Properties Tickets Users_HTTP Users_Invariant
begin

text \<open>
  Chirpy is a chat server: accounts, friends and blocks, groups, private and group messages,
  voice calls, over HTTP and a websocket, with Postgres and Redis behind it. This library models
  the packages that carry its rules, under \<^verbatim>\<open>src/internal\<close>, and proves what they promise.

  \<^bold>\<open>How the code is read.\<close> A package's state is a record: the Postgres tables it uses (\<open>db\<close>, one row
  type per table), its Redis cache and its memory. A statement of \<^verbatim>\<open>database/*.sql.go\<close> is a
  function on the tables with the constraints the schema declares; a repository function composes
  statements as its transaction does; a service operation takes the surroundings of the call (which
  of its database, cache and random-source calls fail, the clock, the id it draws, what the other
  services answer) and the state, and returns the result or error, the new state and the effects in
  their order. A handler turns that into a status and a body. Times are integers in nanoseconds,
  strings are byte strings, UUIDs 128-bit words, an \<^verbatim>\<open>int16\<close> count wraps.

  \<^bold>\<open>Parts.\<close>
  \<^item> \<^theory_text>\<open>Prelude\<close>, \<^theory_text>\<open>GoStrings\<close>, \<^theory_text>\<open>Http\<close>, \<^theory_text>\<open>Events\<close>, \<^theory_text>\<open>Database\<close>: errors, tables, UTF-8, responses,
    events and rows that the packages share. \<^theory_text>\<open>Interfaces\<close>: the Go interfaces \<^verbatim>\<open>FriendChecker\<close> and
    \<^verbatim>\<open>GroupMembership\<close> as locales, interpreted on the friends and groups services.
  \<^item> \<^theory_text>\<open>Versioned\<close> (\<^verbatim>\<open>platform/redisx/versioned.go\<close>): the read-through cache with version counters, and
    the interleaving of readers and writers at the level of single Redis and Postgres accesses, each of which
    may fail.
  \<^item> \<^theory_text>\<open>Friends_DB\<close>, \<^theory_text>\<open>Friends\<close>, \<^theory_text>\<open>Friends_Safety\<close>, \<^theory_text>\<open>Friends_HTTP\<close> (\<^verbatim>\<open>friends\<close>): requests, friendships,
    blocks. The invariant of the tables over all runs and failures; consent; that blocks last and do
    not show; the truth of the cached answer to \<^verbatim>\<open>AreFriends\<close>.
  \<^item> \<^theory_text>\<open>Groups_DB\<close>, \<^theory_text>\<open>Groups_Service\<close>, \<^theory_text>\<open>Groups_Safety\<close>, \<^theory_text>\<open>Groups_Access\<close>, \<^theory_text>\<open>Groups_Cache\<close>,
    \<^theory_text>\<open>Groups_Outside\<close>, \<^theory_text>\<open>Groups_HTTP\<close>, \<^theory_text>\<open>Invite\<close> (\<^verbatim>\<open>groups\<close>): membership, roles, capacity, invite codes,
    search. One admin per group, how membership and power are gained and lost, that the cached
    permission checks are right, what outsiders can learn.
  \<^item> \<^theory_text>\<open>Calls\<close>, \<^theory_text>\<open>Calls_Safety\<close>, \<^theory_text>\<open>Calls_Properties\<close>, \<^theory_text>\<open>Calls_Log\<close> (\<^verbatim>\<open>calls\<close>): the manager as sections of
    code between the mutex operations, any number of threads, timers and connections interleaved.
    Nobody in two calls, every call ends and ends once, signalling stays inside, the log is exact.
    A thread has at most five sections, so the fuel 5 of \<open>run_thread\<close> completes it.
  \<^item> \<^theory_text>\<open>Chat_DB\<close>, \<^theory_text>\<open>Chat\<close>, \<^theory_text>\<open>Chat_Read\<close>, \<^theory_text>\<open>Chat_Steps\<close> (\<^verbatim>\<open>chat\<close>): sending, editing, deleting, reacting,
    history, read markers, forwarding. \<open>wrote\<close> and \<open>changed_by\<close> are the abstract specification of
    what an operation may change and when; every operation refines them.
  \<^item> \<^theory_text>\<open>Chat_Dedupe\<close> (\<^verbatim>\<open>chat/dedupe.go\<close>): goroutines that send under one client id, a step per section of
    the mutex; one message per window, and retries change nothing.
  \<^item> \<^theory_text>\<open>Auth_DB\<close>, \<^theory_text>\<open>Auth\<close>, \<^theory_text>\<open>Accounts\<close> (\<^verbatim>\<open>auth\<close>, the password operations of \<^verbatim>\<open>users\<close>, \<^verbatim>\<open>app/cleanup.go\<close>):
    signing in, refresh tokens, codes sent by mail, Google, address changes, deletion, as operations
    composed with \<open>thenDo\<close>, which keeps what was done before an error. \<^theory_text>\<open>Auth_Safety\<close>: their invariant,
    statement by statement. \<^theory_text>\<open>Account_Deletion\<close>: deleting an account over the tables of all packages.
    \<^theory_text>\<open>Auth_Runs\<close>: the locale \<open>account_steps\<close>, which lifts a relation that the statements respect to all
    operations and runs; \<^theory_text>\<open>Auth_Sessions\<close>: ended tokens stay dead; \<^theory_text>\<open>Auth_Access\<close>: what a session takes;
    \<^theory_text>\<open>Auth_Codes\<close>, \<^theory_text>\<open>Auth_Passwords\<close>: guessing, secrecy of accounts, resets.
  \<^item> \<^theory_text>\<open>Revoke\<close> (\<^verbatim>\<open>platform/secure\<close>, \<^verbatim>\<open>platform/revoke\<close>, \<^verbatim>\<open>Authenticate\<close> of \<^verbatim>\<open>platform/httpx\<close>), \<^theory_text>\<open>Tickets\<close>
    (\<^verbatim>\<open>ws/ticket.go\<close>, \<^verbatim>\<open>app/wsauth.go\<close>), \<^theory_text>\<open>Rate_Limit\<close> (\<^verbatim>\<open>platform/ratelimit\<close>): access tokens and their
    revocation over several servers, a step per section of the mutex with the answer of Redis in between;
    one-time tickets down to their bytes, where reading the clock and using the nonce are separate steps;
    both limiters.
  \<^item> \<^theory_text>\<open>Media_DB\<close>, \<^theory_text>\<open>Media\<close> (\<^verbatim>\<open>media\<close>; operations composed with \<^theory_text>\<open>Ops\<close>): photos, videos, files and voice
    messages over a map of stored objects. \<^theory_text>\<open>Media_Safety\<close>: the locale \<open>media_steps\<close> lifts a property of
    rows and objects to runs; \<^theory_text>\<open>Media_Limits\<close> instantiates it for the limits, for the objects behind what is
    shown and for the place of a medium; \<^theory_text>\<open>Media_Properties\<close>: who gets links, what the cleanup removes;
    \<^theory_text>\<open>Media_Names\<close>: file names, waveforms, sizes of stills.
  \<^item> \<^theory_text>\<open>Push\<close>, \<^theory_text>\<open>Push_Safety\<close> (\<^verbatim>\<open>push\<close>): devices, settings, muted chats; which phones a job reaches.
  \<^item> \<^theory_text>\<open>Moderation_DB\<close>, \<^theory_text>\<open>Reports\<close>, \<^theory_text>\<open>Admin\<close> (\<^verbatim>\<open>reports\<close>, \<^verbatim>\<open>admin\<close>): reports with their evidence, bans,
    closing reports, what admins see, the log. \<^theory_text>\<open>Ban_Safety\<close>: what a ban does to tokens, groups and connections.
  \<^item> \<^theory_text>\<open>Queue\<close> (\<^verbatim>\<open>platform/queue\<close>): background jobs on Redis streams, with several servers that may crash, and
    in memory. \<^theory_text>\<open>Queue_Safety\<close>: the locale \<open>ending_work\<close> (a measure that every step lowers), with both queues as
    its instances; what becomes of every published job while no stream is trimmed, that the work ends, and what
    holds at rest.
  \<^item> \<^theory_text>\<open>Catalog\<close>, \<^theory_text>\<open>Users_DB\<close>, \<^theory_text>\<open>Users\<close>, \<^theory_text>\<open>Users_HTTP\<close> (\<^verbatim>\<open>catalog\<close>, \<^verbatim>\<open>users\<close>): profiles, usernames, pictures,
    interests. \<^theory_text>\<open>Users_Safety\<close>: who sees what, how often names change; the locale \<open>profile_steps\<close> lifts what
    the statements keep to requests and runs; \<^theory_text>\<open>Users_Invariant\<close>: what the tables keep.
  \<^item> \<^theory_text>\<open>Discover\<close> (\<^verbatim>\<open>discover\<close>): people to get to know. \<^theory_text>\<open>Search\<close>, \<^theory_text>\<open>Search_Properties\<close> (\<^verbatim>\<open>search\<close>): messages that
    contain a text, against the list of all there is.
  \<^item> \<^theory_text>\<open>Hub\<close>, \<^theory_text>\<open>Hub_Safety\<close> (\<^verbatim>\<open>ws/hub.go\<close>, \<^verbatim>\<open>ws/client.go\<close>): connections with their buffers, a step per section of
    the lock and one for each hook started after it, and what clients may send. \<^theory_text>\<open>Presence\<close>, \<^theory_text>\<open>Presence_Safety\<close> (\<^verbatim>\<open>presence\<close>): who is told who is online.

  \<^bold>\<open>Not modelled.\<close> The handlers of \<^verbatim>\<open>auth\<close> and of \<^verbatim>\<open>chat\<close>
  and the list of conversations are later parts of this development. Cryptography (HMAC, SHA-256,
  argon2id, the signing of tokens) and Google's verifier are parameters. The websocket pumps,
  the clients of mail, Redis, object storage and Google, metrics, migrations and the wiring in
  \<^verbatim>\<open>app\<close> are I/O without rules of their own. A failing statement is taken to have had no effect.
\<close>

end
